(* ===== verification/FestPrelude.thy ===== *)
theory FestPrelude
  imports Main "HOL-Library.AList" "HOL-Library.List_Lexorder" "HOL-Library.Char_ord"
    "HOL-Library.Product_Lexorder"
begin

text \<open>
  Shared ground of the development: the errors the services throw, the fragment of the
  JavaScript standard library that the modelled code uses (\<open>String.prototype.trim\<close>,
  \<open>toLowerCase\<close>, truthiness of optional strings, \<open>Map\<close>, stable \<open>Array.sort\<close>,
  \<open>Set\<close> from an array), and the collections of rewrite rules the component theories
  extend.  Strings are lists of code units up to 255, compared lexicographically as the
  JavaScript operators \<open><\<close> and \<open>>=\<close> compare code units.
\<close>

named_theorems fest_eval \<open>definitions unfolded when a closed instance is evaluated\<close>
named_theorems js_map_simps \<open>lookups after updates of a JavaScript Map\<close>

section \<open>Errors\<close>

text \<open>
  \<open>AppError\<close> of \<open>packages/common/src/errors.ts\<close>: message, HTTP status, optional code
  (its untyped \<open>details\<close> record is not used by the modelled code).  A plain
  \<open>throw new Error(msg)\<close> is \<open>PlainError\<close>.
\<close>

datatype app_error =
    AppError (err_message: string) (err_status: int) (err_code: "string option")
  | PlainError (err_message: string)

type_synonym 'a outcome = "app_error + 'a"

text \<open>Statement sequencing: a thrown error skips the rest of the function.\<close>

definition and_then :: "('e + 'a) \<Rightarrow> ('a \<Rightarrow> 'e + 'b) \<Rightarrow> 'e + 'b" where
  "and_then r f = (case r of Inl e \<Rightarrow> Inl e | Inr x \<Rightarrow> f x)"

lemma and_then_Inl [simp]: "and_then (Inl e) f = Inl e"
  by (simp add: and_then_def)

lemma and_then_Inr [simp]: "and_then (Inr x) f = f x"
  by (simp add: and_then_def)

lemma and_then_eq_Inr: "and_then r f = Inr y \<longleftrightarrow> (\<exists>x. r = Inr x \<and> f x = Inr y)"
  by (cases r) auto

lemma and_then_eq_Inl:
  "and_then r f = Inl e \<longleftrightarrow> r = Inl e \<or> (\<exists>x. r = Inr x \<and> f x = Inl e)"
  by (cases r) auto

definition guard :: "bool \<Rightarrow> 'e \<Rightarrow> 'e + unit" where
  "guard ok e = (if ok then Inr () else Inl e)"

lemma guard_eq_Inr [simp]: "guard b e = Inr u \<longleftrightarrow> b"
  by (simp add: guard_def)

lemma guard_eq_Inl [simp]: "guard b e = Inl e' \<longleftrightarrow> \<not> b \<and> e' = e"
  by (auto simp: guard_def)

lemma guard_True [simp]: "guard True e = Inr ()"
  by (simp add: guard_def)

lemma guard_False [simp]: "guard False e = Inl e"
  by (simp add: guard_def)

text \<open>
  An asynchronous method that changes state is a function from the state to its outcome and
  the state it leaves, so that what was written before a thrown error stays written.
\<close>

type_synonym ('s, 'a) act = "'s \<Rightarrow> 'a outcome \<times> 's"

definition act_return :: "'a \<Rightarrow> ('s, 'a) act" where
  "act_return x = (\<lambda>s. (Inr x, s))"

definition act_throw :: "app_error \<Rightarrow> ('s, 'a) act" where
  "act_throw e = (\<lambda>s. (Inl e, s))"

definition act_bind :: "('s, 'a) act \<Rightarrow> ('a \<Rightarrow> ('s, 'b) act) \<Rightarrow> ('s, 'b) act" where
  "act_bind m k = (\<lambda>s. case m s of (Inl e, s') \<Rightarrow> (Inl e, s') | (Inr x, s') \<Rightarrow> k x s')"

text \<open>A call that reads the state only, and a synchronous computation that may throw.\<close>

definition act_read :: "('s \<Rightarrow> 'a) \<Rightarrow> ('s, 'a) act" where
  "act_read f = (\<lambda>s. (Inr (f s), s))"

definition act_lift :: "'a outcome \<Rightarrow> ('s, 'a) act" where
  "act_lift r = (\<lambda>s. (r, s))"

text \<open>\<open>try { m } catch (e) { h(e) }\<close>.\<close>

definition act_catch :: "('s, 'a) act \<Rightarrow> (app_error \<Rightarrow> ('s, 'a) act) \<Rightarrow> ('s, 'a) act" where
  "act_catch m h = (\<lambda>s. case m s of (Inl e, s') \<Rightarrow> h e s' | (Inr x, s') \<Rightarrow> (Inr x, s'))"

lemma act_return_apply [simp]: "act_return x s = (Inr x, s)"
  by (simp add: act_return_def)

lemma act_throw_apply [simp]: "act_throw e s = (Inl e, s)"
  by (simp add: act_throw_def)

lemma act_read_apply [simp]: "act_read f s = (Inr (f s), s)"
  by (simp add: act_read_def)

lemma act_lift_apply [simp]: "act_lift r s = (r, s)"
  by (simp add: act_lift_def)

lemma act_bind_simps [simp]:
  "m s = (Inl e, s') \<Longrightarrow> act_bind m k s = (Inl e, s')"
  "m s = (Inr x, s') \<Longrightarrow> act_bind m k s = k x s'"
  by (simp_all add: act_bind_def)

lemma act_bind_eq_Inr:
  "act_bind m k s = (Inr y, s'') \<longleftrightarrow> (\<exists>x s'. m s = (Inr x, s') \<and> k x s' = (Inr y, s''))"
  by (auto simp: act_bind_def split: prod.splits sum.splits)

lemma act_bind_cases:
  assumes "act_bind m k s = (res, s'')"
  obtains (thrown) e where "m s = (Inl e, s'')" "res = Inl e"
    | (returned) x s' where "m s = (Inr x, s')" "k x s' = (res, s'')"
  using assms by (auto simp: act_bind_def split: prod.splits sum.splits)

text \<open>
  A property of the state before and after that the first part establishes and the rest
  keeps, on thrown errors too.
\<close>

lemma act_bind_rel:
  assumes "act_bind m k s = (res, s'')"
    and "\<And>r s'. m s = (r, s') \<Longrightarrow> P s'"
    and "\<And>x s'. m s = (Inr x, s') \<Longrightarrow> P s' \<Longrightarrow> k x s' = (res, s'') \<Longrightarrow> P s''"
  shows "P s''"
  using assms(1) by (cases rule: act_bind_cases) (use assms(2,3) in blast)+

text \<open>Evaluation of a closed run: the continuation is rewritten only when its argument is known.\<close>

lemma act_bind_weak: "m = m' \<Longrightarrow> act_bind m k = act_bind m' k"
  by simp

lemma act_bind_run [fest_eval]:
  "act_bind m k s = (case m s of (r, s') \<Rightarrow> (case r of Inl e \<Rightarrow> (Inl e, s') | Inr x \<Rightarrow> k x s'))"
  by (auto simp: act_bind_def split: prod.splits sum.splits)

section \<open>Strings\<close>

text \<open>White space that \<open>trim\<close> removes, among the first 256 code units.\<close>

definition js_space :: "char \<Rightarrow> bool" where
  "js_space c \<longleftrightarrow> (of_char c :: nat) \<in> {9, 10, 11, 12, 13, 32, 160}"

definition js_trim :: "string \<Rightarrow> string" where
  "js_trim s = rev (dropWhile js_space (rev (dropWhile js_space s)))"

text \<open>
  \<open>toLowerCase\<close> on the first 256 code units: the ASCII capitals and the Latin-1
  capitals (192 to 222, without the multiplication sign 215).
\<close>

definition js_lower_char :: "char \<Rightarrow> char" where
  "js_lower_char c =
     (let n = (of_char c :: nat)
      in if (65 \<le> n \<and> n \<le> 90) \<or> (192 \<le> n \<and> n \<le> 222 \<and> n \<noteq> 215)
         then char_of (n + 32) else c)"

definition js_lower :: "string \<Rightarrow> string" where
  "js_lower s = map js_lower_char s"

text \<open>Truthiness of \<open>string | null | undefined\<close>: absent and empty are both falsy.\<close>

fun truthy :: "string option \<Rightarrow> bool" where
  "truthy None = False"
| "truthy (Some s) = (s \<noteq> [])"

text \<open>The spread \<open>...(x ? { field: x } : {})\<close> stores the field only when it is truthy.\<close>

definition if_truthy :: "string option \<Rightarrow> string option" where
  "if_truthy s = (if truthy s then s else None)"

lemma truthy_iff: "truthy s \<longleftrightarrow> (\<exists>t. s = Some t \<and> t \<noteq> [])"
  by (cases s) auto

lemma dropWhile_js_space_idem [simp]:
  "dropWhile p (dropWhile p s) = dropWhile p s"
  by (induction s) auto

lemma dropWhile_no_head:
  "xs \<noteq> [] \<Longrightarrow> \<not> p (hd xs) \<Longrightarrow> dropWhile p xs = xs"
  by (cases xs) auto

lemma last_dropWhile:
  "dropWhile p xs \<noteq> [] \<Longrightarrow> last (dropWhile p xs) = last xs"
  by (induction xs) (auto split: if_splits)

lemma js_trim_idem [simp]: "js_trim (js_trim s) = js_trim s"
proof -
  let ?t = "dropWhile js_space s"
  let ?u = "rev (dropWhile js_space (rev ?t))"
  have "dropWhile js_space ?u = ?u"
  proof (cases "?u = []")
    case True
    show ?thesis by (simp only: True dropWhile.simps)
  next
    case False
    then have ne: "dropWhile js_space (rev ?t) \<noteq> []" by simp
    then have "last (dropWhile js_space (rev ?t)) = last (rev ?t)" by (rule last_dropWhile)
    moreover have "?t \<noteq> []" using ne by (cases ?t) simp_all
    ultimately have "hd ?u = hd ?t" by (simp add: hd_rev last_rev)
    with \<open>?t \<noteq> []\<close> have "\<not> js_space (hd ?u)" using hd_dropWhile by metis
    with False show ?thesis by (rule dropWhile_no_head)
  qed
  then show ?thesis by (simp add: js_trim_def)
qed

lemma js_trim_Nil [simp]: "js_trim [] = []"
  by (simp add: js_trim_def)

lemma foldl_keeps: "(\<And>c x. x \<in> set xs \<Longrightarrow> P c \<Longrightarrow> P (f c x)) \<Longrightarrow> P c \<Longrightarrow> P (foldl f c xs)"
  by (induction xs arbitrary: c) auto

section \<open>JavaScript Map\<close>

text \<open>
  A \<open>Map\<close> keeps its keys in insertion order; \<open>set\<close> on a present key keeps the
  position.  That is \<open>AList.update\<close> on an association list with distinct keys.  The
  records stored in the maps of the repositories are mutated in place
  (\<open>record.status = ...\<close>), which is \<open>js_modify\<close>.
\<close>

type_synonym ('k, 'v) js_map = "('k \<times> 'v) list"

definition js_get :: "('k, 'v) js_map \<Rightarrow> 'k \<Rightarrow> 'v option" where
  "js_get m k = map_of m k"

definition js_set :: "'k \<Rightarrow> 'v \<Rightarrow> ('k, 'v) js_map \<Rightarrow> ('k, 'v) js_map" where
  "js_set k v m = AList.update k v m"

definition js_delete :: "'k \<Rightarrow> ('k, 'v) js_map \<Rightarrow> ('k, 'v) js_map" where
  "js_delete k m = AList.delete k m"

definition js_modify :: "'k \<Rightarrow> ('v \<Rightarrow> 'v) \<Rightarrow> ('k, 'v) js_map \<Rightarrow> ('k, 'v) js_map" where
  "js_modify k f m = map (\<lambda>(k', v). (k', if k' = k then f v else v)) m"

definition js_values :: "('k, 'v) js_map \<Rightarrow> 'v list" where
  "js_values m = map snd m"

definition js_keys :: "('k, 'v) js_map \<Rightarrow> 'k list" where
  "js_keys m = map fst m"

definition js_wf :: "('k, 'v) js_map \<Rightarrow> bool" where
  "js_wf m \<longleftrightarrow> distinct (js_keys m)"

text \<open>
  The contract the repositories rely on: what a lookup returns after each operation, and
  that the operations keep the keys distinct.
\<close>

locale keyed_store =
  fixes get :: "'m \<Rightarrow> 'k \<Rightarrow> 'v option"
    and put :: "'k \<Rightarrow> 'v \<Rightarrow> 'm \<Rightarrow> 'm"
    and remove :: "'k \<Rightarrow> 'm \<Rightarrow> 'm"
    and modify :: "'k \<Rightarrow> ('v \<Rightarrow> 'v) \<Rightarrow> 'm \<Rightarrow> 'm"
    and wf :: "'m \<Rightarrow> bool"
  assumes get_put: "get (put k v m) k' = (if k' = k then Some v else get m k')"
    and get_remove: "get (remove k m) k' = (if k' = k then None else get m k')"
    and get_modify: "get (modify k f m) k' = (if k' = k then map_option f (get m k) else get m k')"
    and wf_put: "wf m \<Longrightarrow> wf (put k v m)"
    and wf_remove: "wf m \<Longrightarrow> wf (remove k m)"
    and wf_modify: "wf m \<Longrightarrow> wf (modify k f m)"
begin

lemma get_put_other: "k' \<noteq> k \<Longrightarrow> get (put k v m) k' = get m k'"
  by (simp add: get_put)

lemma put_then_modify: "get (modify k f (put k v m)) k = Some (f v)"
  by (simp add: get_put get_modify)

lemma modify_absent: "get m k = None \<Longrightarrow> get (modify k f m) k' = get m k'"
  by (simp add: get_modify)

lemmas store_simps = get_put get_remove get_modify

lemmas store_wf = wf_put wf_remove wf_modify

end

lemma js_keys_modify [simp]: "js_keys (js_modify k f m) = js_keys m"
  by (induction m) (auto simp: js_keys_def js_modify_def)

lemma map_of_js_modify:
  "map_of (js_modify k f m) k' = (if k' = k then map_option f (map_of m k) else map_of m k')"
  by (induction m) (auto simp: js_modify_def)

interpretation jsm: keyed_store js_get js_set js_delete js_modify js_wf
proof unfold_locales
  show "js_get (js_set k v m) k' = (if k' = k then Some v else js_get m k')"
    for k k' :: 'a and v :: 'b and m
    by (simp add: js_get_def js_set_def AList.update_conv)
  show "js_get (js_delete k m) k' = (if k' = k then None else js_get m k')"
    for k k' :: 'a and m :: "('a, 'b) js_map"
    by (simp add: js_get_def js_delete_def AList.delete_conv)
  show "js_get (js_modify k f m) k' = (if k' = k then map_option f (js_get m k) else js_get m k')"
    for k k' :: 'a and f :: "'b \<Rightarrow> 'b" and m
    by (simp add: js_get_def map_of_js_modify)
  show "js_wf m \<Longrightarrow> js_wf (js_set k v m)" for k :: 'a and v :: 'b and m
    by (simp add: js_wf_def js_set_def js_keys_def AList.distinct_update)
  show "js_wf m \<Longrightarrow> js_wf (js_delete k m)" for k :: 'a and m :: "('a, 'b) js_map"
    by (simp add: js_wf_def js_delete_def js_keys_def AList.distinct_delete)
  show "js_wf m \<Longrightarrow> js_wf (js_modify k f m)" for k :: 'a and f :: "'b \<Rightarrow> 'b" and m
    by (simp add: js_wf_def)
qed

lemmas [simp, js_map_simps] = jsm.get_put jsm.get_remove jsm.get_modify
lemmas [simp] = jsm.wf_put jsm.wf_remove jsm.wf_modify

lemma js_wf_Nil [simp]: "js_wf []"
  by (simp add: js_wf_def js_keys_def)

lemma js_get_Nil [simp]: "js_get [] k = None"
  by (simp add: js_get_def)

lemma js_get_Cons: "js_get ((k', v) # m) k = (if k = k' then Some v else js_get m k)"
  by (simp add: js_get_def)

lemma js_values_simps [simp]:
  "js_values [] = []" "js_values ((k, v) # m) = v # js_values m"
  by (simp_all add: js_values_def)

lemma js_set_fresh: "js_get m k = None \<Longrightarrow> js_set k v m = m @ [(k, v)]"
proof (induction m)
  case (Cons x xs)
  then show ?case by (cases x) (auto simp: js_get_def js_set_def split: if_splits)
qed (simp add: js_set_def)

lemma js_values_set_fresh:
  "js_get m k = None \<Longrightarrow> js_values (js_set k v m) = js_values m @ [v]"
  by (simp add: js_set_fresh js_values_def)

lemma js_get_Some_in: "js_get m k = Some v \<Longrightarrow> (k, v) \<in> set m"
  by (simp add: js_get_def map_of_SomeD)

lemma js_get_Some_values: "js_get m k = Some v \<Longrightarrow> v \<in> set (js_values m)"
  by (force simp: js_values_def dest: js_get_Some_in)

lemma js_wf_get: "js_wf m \<Longrightarrow> (k, v) \<in> set m \<longleftrightarrow> js_get m k = Some v"
  by (simp add: js_wf_def js_keys_def js_get_def)

lemma js_values_get: "js_wf m \<Longrightarrow> v \<in> set (js_values m) \<longleftrightarrow> (\<exists>k. js_get m k = Some v)"
  by (auto simp: js_values_def js_wf_get [symmetric]) force

section \<open>Counting records of a Map\<close>

text \<open>
  Capacity and balance arguments count the stored records with a property.  Changing one
  record changes the count by that record alone.
\<close>

definition count_values :: "('v \<Rightarrow> bool) \<Rightarrow> ('k, 'v) js_map \<Rightarrow> nat" where
  "count_values p m = length (filter p (js_values m))"

lemma count_values_Nil [simp]: "count_values p [] = 0"
  by (simp add: count_values_def)

lemma count_values_Cons:
  "count_values p ((k, v) # m) = (if p v then 1 else 0) + count_values p m"
  by (simp add: count_values_def)

lemma js_modify_absent: "k \<notin> set (js_keys m) \<Longrightarrow> js_modify k f m = m"
  by (induction m) (auto simp: js_modify_def js_keys_def)

lemma js_modify_Cons:
  "js_modify k f ((k', v) # m) = (k', if k' = k then f v else v) # js_modify k f m"
  by (simp add: js_modify_def)

lemma js_get_None_keys: "js_get m k = None \<longleftrightarrow> k \<notin> set (js_keys m)"
  by (simp add: js_get_def js_keys_def map_of_eq_None_iff)

lemma count_values_modify:
  assumes "js_wf m" "js_get m k = Some v"
  shows "count_values p (js_modify k f m) + (if p v then 1 else 0)
       = count_values p m + (if p (f v) then 1 else 0)"
  using assms
proof (induction m)
  case (Cons x xs)
  obtain k' v' where x: "x = (k', v')" by (cases x)
  from Cons.prems(1) x have wf: "js_wf xs" and k': "k' \<notin> set (js_keys xs)"
    by (auto simp: js_wf_def js_keys_def)
  show ?case
  proof (cases "k' = k")
    case True
    with Cons.prems(2) x have "v' = v" by (simp add: js_get_Cons)
    with True k' x show ?thesis
      by (simp add: js_modify_Cons js_modify_absent count_values_Cons)
  next
    case False
    with Cons.prems(2) x have "js_get xs k = Some v" by (simp add: js_get_Cons)
    from Cons.IH [OF wf this] False x show ?thesis
      by (simp add: js_modify_Cons count_values_Cons)
  qed
qed simp

lemma count_values_set_fresh:
  "js_get m k = None \<Longrightarrow> count_values p (js_set k v m) = count_values p m + (if p v then 1 else 0)"
  by (simp add: count_values_def js_values_set_fresh)

lemma count_values_cong:
  "(\<And>v. v \<in> set (js_values m) \<Longrightarrow> p v = q v) \<Longrightarrow> count_values p m = count_values q m"
  by (simp add: count_values_def cong: filter_cong)

lemma count_values_pos: "js_get m k = Some v \<Longrightarrow> p v \<Longrightarrow> 0 < count_values p m"
  by (auto simp: count_values_def length_greater_0_conv filter_empty_conv dest: js_get_Some_values)

section \<open>Untyped input\<close>

text \<open>
  A value of type \<open>unknown\<close> that came in as JSON; an absent field reads as \<open>undefined\<close>,
  here \<open>None\<close>.  Reading a repeated field name gives the last one, as \<open>JSON.parse\<close> does.
\<close>

datatype json = JNull | JBool bool | JNum int | JStr string | JArr "json list" | JObj "(string \<times> json) list"

fun is_json_object :: "json \<Rightarrow> bool" where
  "is_json_object (JObj _) = True"
| "is_json_object _ = False"

definition json_field :: "json \<Rightarrow> string \<Rightarrow> json option" where
  "json_field v k = (case v of JObj fs \<Rightarrow> map_of (rev fs) k | _ \<Rightarrow> None)"

text \<open>\<open>typeof v.k === "string"\<close> and its value.\<close>

definition string_field :: "json \<Rightarrow> string \<Rightarrow> string option" where
  "string_field v k = (case json_field v k of Some (JStr s) \<Rightarrow> Some s | _ \<Rightarrow> None)"

text \<open>\<open>typeof v.k === "string" ? v.k.trim() : ""\<close>.\<close>

definition text_field :: "json \<Rightarrow> string \<Rightarrow> string" where
  "text_field v k = (case string_field v k of Some s \<Rightarrow> js_trim s | None \<Rightarrow> [])"

text \<open>\<open>if (b) errors.push(m)\<close> on a list of messages that grows from left to right.\<close>

definition push_if :: "bool \<Rightarrow> string \<Rightarrow> string list" where
  "push_if b m = (if b then [m] else [])"

lemma push_if_Nil [simp]: "push_if b m = [] \<longleftrightarrow> \<not> b"
  by (simp add: push_if_def)

text \<open>
  \<open>toUpperCase\<close> on the first 256 code units: the sharp s becomes two letters; the two letters
  whose capital lies beyond code unit 255 are left as they are.  \<open>Array.join\<close>.
\<close>

definition js_upper_char :: "char \<Rightarrow> string" where
  "js_upper_char c =
     (let n = (of_char c :: nat)
      in if (97 \<le> n \<and> n \<le> 122) \<or> (224 \<le> n \<and> n \<le> 254 \<and> n \<noteq> 247) then [char_of (n - 32)]
         else if n = 223 then ''SS'' else [c])"

definition js_upper :: "string \<Rightarrow> string" where
  "js_upper s = concat (map js_upper_char s)"

fun js_join :: "string \<Rightarrow> string list \<Rightarrow> string" where
  "js_join sep [] = []"
| "js_join sep [x] = x"
| "js_join sep (x # y # zs) = x @ sep @ js_join sep (y # zs)"

section \<open>Arrays\<close>

lemma find_append_None: "find p xs = None \<Longrightarrow> find p (xs @ ys) = find p ys"
  by (induction xs) (auto split: if_splits)

text \<open>
  \<open>Array.sort\<close> is stable.  Ascending by a key is \<open>sort_key\<close>; descending keeps equal
  elements in their original order too.  \<open>[...new Set(xs)]\<close> keeps first occurrences.
\<close>

definition js_sort_desc :: "('a \<Rightarrow> 'k::linorder) \<Rightarrow> 'a list \<Rightarrow> 'a list" where
  "js_sort_desc f xs = rev (sort_key f (rev xs))"

fun js_uniq_acc :: "'a list \<Rightarrow> 'a list \<Rightarrow> 'a list" where
  "js_uniq_acc seen [] = []"
| "js_uniq_acc seen (x # xs) =
     (if x \<in> set seen then js_uniq_acc seen xs else x # js_uniq_acc (x # seen) xs)"

definition js_uniq :: "'a list \<Rightarrow> 'a list" where
  "js_uniq xs = js_uniq_acc [] xs"

lemma set_js_sort_desc [simp]: "set (js_sort_desc f xs) = set xs"
  by (simp add: js_sort_desc_def)

lemma length_js_sort_desc [simp]: "length (js_sort_desc f xs) = length xs"
  by (simp add: js_sort_desc_def)

lemma js_sort_desc_Nil [simp]: "js_sort_desc f [] = []"
  by (simp add: js_sort_desc_def)

lemma js_sort_desc_eq_Nil [simp]: "js_sort_desc f xs = [] \<longleftrightarrow> xs = []"
  by (metis length_0_conv length_js_sort_desc)

lemma js_sort_desc_head_max:
  assumes "x \<in> set xs"
  shows "f x \<le> f (hd (js_sort_desc f xs))"
proof -
  let ?s = "sort_key f (rev xs)"
  have ne: "?s \<noteq> []" using assms by (metis set_empty set_rev set_sort empty_iff)
  from assms obtain i where i: "i < length ?s" "?s ! i = x"
    by (metis in_set_conv_nth set_rev set_sort)
  have "sorted (map f ?s)" by simp
  then have "map f ?s ! i \<le> map f ?s ! (length ?s - 1)"
    using i by (intro sorted_nth_mono) auto
  then have "f x \<le> f (last ?s)"
    using i ne by (simp add: last_conv_nth)
  then show ?thesis using ne by (simp add: js_sort_desc_def hd_rev)
qed

lemma set_js_uniq_acc: "set (js_uniq_acc seen xs) = set xs - set seen"
  by (induction xs arbitrary: seen) auto

lemma set_js_uniq [simp]: "set (js_uniq xs) = set xs"
  by (simp add: js_uniq_def set_js_uniq_acc)

lemma distinct_js_uniq_acc: "distinct (js_uniq_acc seen xs)"
  by (induction xs arbitrary: seen) (auto simp: set_js_uniq_acc)

lemma distinct_js_uniq [simp]: "distinct (js_uniq xs)"
  by (simp add: js_uniq_def distinct_js_uniq_acc)

lemma js_uniq_Nil [simp]: "js_uniq [] = []"
  by (simp add: js_uniq_def)

lemma js_uniq_eq_Nil [simp]: "js_uniq xs = [] \<longleftrightarrow> xs = []"
  by (metis set_js_uniq set_empty)

text \<open>\<open>Array.find\<close> is \<open>List.find\<close>: the first element with the property.\<close>

lemma find_Some_iff_in: "find p xs = Some x \<Longrightarrow> x \<in> set xs \<and> p x"
  by (induction xs) (auto split: if_splits)

lemma map_filter_in: "y \<in> set (List.map_filter f xs) \<longleftrightarrow> (\<exists>x \<in> set xs. f x = Some y)"
  by (induction xs) (auto simp: map_filter_simps split: option.splits)

lemma map_filter_total: "List.map_filter (\<lambda>x. Some (f x)) xs = map f xs"
  by (induction xs) (simp_all add: map_filter_simps)

lemma option_eqI: "(\<And>v. x = Some v \<longleftrightarrow> y = Some v) \<Longrightarrow> x = y"
  by (cases x; cases y) auto

lemma find_None_all: "find p xs = None \<longleftrightarrow> (\<forall>x \<in> set xs. \<not> p x)"
  by (induction xs) auto

lemma find_append_Some: "find p xs = Some x \<Longrightarrow> find p (xs @ ys) = Some x"
  by (induction xs) (auto split: if_splits)

lemmas [fest_eval] = Let_def js_get_Cons js_set_def js_modify_def js_values_def count_values_def
  js_sort_desc_def insort_key_def less_char_def

end
