(* ===== verification/FestCalendar.thy ===== *)
theory FestCalendar
  imports FestPrelude
begin

text \<open>
  Calendar dates as \<open>packages/common\<close> handles them: a JavaScript \<open>Date\<close> at UTC
  midnight, read from and printed as \<open>YYYY-MM-DD\<close>.  A date is the triple the printed
  form shows; \<open>day_number\<close> is its distance in days from 0000-01-01, which differs from
  \<open>Date.valueOf() / 86400000\<close> by the constant 719528.  The lemmas relate printing,
  parsing, the order of the printed strings, the order of the dates and the day count.
\<close>

section \<open>Dates\<close>

datatype cal_date = CalDate (cd_year: nat) (cd_month: nat) (cd_day: nat)

instantiation cal_date :: linorder
begin

definition less_eq_cal_date :: "cal_date \<Rightarrow> cal_date \<Rightarrow> bool" where
  "less_eq_cal_date a b \<longleftrightarrow>
     cd_year a < cd_year b \<or> cd_year a = cd_year b \<and>
       (cd_month a < cd_month b \<or> cd_month a = cd_month b \<and> cd_day a \<le> cd_day b)"

definition less_cal_date :: "cal_date \<Rightarrow> cal_date \<Rightarrow> bool" where
  "less_cal_date a b \<longleftrightarrow>
     cd_year a < cd_year b \<or> cd_year a = cd_year b \<and>
       (cd_month a < cd_month b \<or> cd_month a = cd_month b \<and> cd_day a < cd_day b)"

instance
  by standard (auto simp: less_eq_cal_date_def less_cal_date_def intro: cal_date.expand)

end

definition leap_year :: "nat \<Rightarrow> bool" where
  "leap_year y \<longleftrightarrow> y mod 4 = 0 \<and> (y mod 100 \<noteq> 0 \<or> y mod 400 = 0)"

definition days_in_month :: "nat \<Rightarrow> nat \<Rightarrow> nat" where
  "days_in_month y m =
     (if m = 2 then (if leap_year y then 29 else 28)
      else if m \<in> {4, 6, 9, 11} then 30 else 31)"

definition valid_date :: "cal_date \<Rightarrow> bool" where
  "valid_date d \<longleftrightarrow> 1 \<le> cd_month d \<and> cd_month d \<le> 12 \<and>
     1 \<le> cd_day d \<and> cd_day d \<le> days_in_month (cd_year d) (cd_month d)"

text \<open>One step of \<open>setUTCDate(getUTCDate() + 1)\<close>, and \<open>n\<close> of them.\<close>

fun next_day :: "cal_date \<Rightarrow> cal_date" where
  "next_day (CalDate y m d) =
     (if d < days_in_month y m then CalDate y m (d + 1)
      else if m < 12 then CalDate y (m + 1) 1
      else CalDate (y + 1) 1 1)"

fun add_days :: "nat \<Rightarrow> cal_date \<Rightarrow> cal_date" where
  "add_days 0 d = d"
| "add_days (Suc n) d = add_days n (next_day d)"

section \<open>Day numbers\<close>

definition days_before_year :: "nat \<Rightarrow> nat" where
  "days_before_year y = 365 * y + (y + 3) div 4 + (y + 399) div 400 - (y + 99) div 100"

fun days_before_month :: "nat \<Rightarrow> nat \<Rightarrow> nat" where
  "days_before_month y 0 = 0"
| "days_before_month y (Suc m) = days_before_month y m + (if m = 0 then 0 else days_in_month y m)"

definition day_number :: "cal_date \<Rightarrow> nat" where
  "day_number d = days_before_year (cd_year d) + days_before_month (cd_year d) (cd_month d) + cd_day d - 1"

lemma div_step: "0 < k \<Longrightarrow> (Suc y + (k - 1)) div k = (y + (k - 1)) div k + (if y mod k = 0 then 1 else 0)"
  for k y :: nat
proof -
  assume k: "0 < k"
  have "Suc (y + (k - 1)) mod k = y mod k" using k by simp
  then show ?thesis by (simp add: div_Suc)
qed

lemma days_before_year_Suc:
  "days_before_year (Suc y) = days_before_year y + (if leap_year y then 366 else 365)"
proof -
  have a4: "(Suc y + 3) div 4 = (y + 3) div 4 + (if y mod 4 = 0 then 1 else 0)"
    using div_step [of 4 y] by simp
  have a100: "(Suc y + 99) div 100 = (y + 99) div 100 + (if y mod 100 = 0 then 1 else 0)"
    using div_step [of 100 y] by simp
  have a400: "(Suc y + 399) div 400 = (y + 399) div 400 + (if y mod 400 = 0 then 1 else 0)"
    using div_step [of 400 y] by simp
  have le: "(y + 99) div 100 \<le> y"
    using less_mult_imp_div_less [of "y + 99" "Suc y" 100] by simp
  have d400: "y mod 400 = 0 \<Longrightarrow> y mod 100 = 0"
    using mod_mod_cancel [of 100 400 y] by simp
  have d100: "y mod 100 = 0 \<Longrightarrow> y mod 4 = 0"
    using mod_mod_cancel [of 4 100 y] by simp
  define p q r where pqr: "p = (y + 3) div 4" "q = (y + 399) div 400" "r = (y + 99) div 100"
  have "r \<le> y" using le pqr by simp
  consider "y mod 4 \<noteq> 0" | "y mod 4 = 0" "y mod 100 \<noteq> 0"
    | "y mod 100 = 0" "y mod 400 \<noteq> 0" | "y mod 400 = 0" by blast
  then show ?thesis
    unfolding days_before_year_def a4 a100 a400 leap_year_def pqr [symmetric]
    by cases (use \<open>r \<le> y\<close> d400 d100 in auto)
qed

lemma days_in_month_bounds: "28 \<le> days_in_month y m" "days_in_month y m \<le> 31"
  by (auto simp: days_in_month_def)

lemma days_before_month_year:
  "days_before_month y 12 + days_in_month y 12 = (if leap_year y then 366 else 365)"
  by (simp add: numeral_eq_Suc days_in_month_def)

lemma day_number_next:
  assumes "valid_date d"
  shows "day_number (next_day d) = Suc (day_number d)"
proof (cases d)
  case (CalDate y m dd)
  from assms CalDate have v: "1 \<le> m" "m \<le> 12" "1 \<le> dd" "dd \<le> days_in_month y m"
    by (simp_all add: valid_date_def)
  consider "dd < days_in_month y m" | "dd = days_in_month y m" "m < 12" | "dd = days_in_month y m" "m = 12"
    using v by linarith
  then show ?thesis
  proof cases
    case 3
    then show ?thesis using CalDate days_before_month_year [of y] v
      by (simp add: day_number_def days_before_year_Suc)
  qed (use CalDate v in \<open>auto simp: day_number_def\<close>)
qed

lemma valid_next_day: "valid_date d \<Longrightarrow> valid_date (next_day d)"
  using days_in_month_bounds
  by (cases d) (auto simp: valid_date_def Suc_le_eq intro: order.strict_trans2 [OF zero_less_numeral])

lemma valid_add_days: "valid_date d \<Longrightarrow> valid_date (add_days n d)"
  by (induction n arbitrary: d) (auto simp: valid_next_day)

lemma day_number_add_days: "valid_date d \<Longrightarrow> day_number (add_days n d) = day_number d + n"
  by (induction n arbitrary: d) (auto simp: valid_next_day day_number_next)

lemma days_before_month_mono: "m \<le> m' \<Longrightarrow> days_before_month y m \<le> days_before_month y m'"
  by (rule lift_Suc_mono_le [where f = "days_before_month y"]) auto

lemma days_before_year_mono: "y \<le> y' \<Longrightarrow> days_before_year y \<le> days_before_year y'"
  by (rule lift_Suc_mono_le [where f = days_before_year]) (auto simp: days_before_year_Suc)

lemma day_number_in_month:
  "valid_date d \<Longrightarrow>
     day_number d < days_before_year (cd_year d) + days_before_month (cd_year d) (Suc (cd_month d))"
  by (auto simp: day_number_def valid_date_def)

lemma day_number_in_year:
  assumes "valid_date d"
  shows "day_number d < days_before_year (Suc (cd_year d))"
proof -
  have "days_before_month (cd_year d) (Suc (cd_month d)) \<le> days_before_month (cd_year d) 13"
    using assms by (intro days_before_month_mono) (simp add: valid_date_def)
  also have "\<dots> = (if leap_year (cd_year d) then 366 else 365)"
    using days_before_month_year [of "cd_year d"] by (simp add: numeral_eq_Suc)
  finally show ?thesis
    using day_number_in_month [OF assms] by (simp add: days_before_year_Suc del: days_before_month.simps)
qed

lemma day_number_strict_mono:
  assumes "valid_date a" "valid_date b" "a < b"
  shows "day_number a < day_number b"
proof -
  consider "cd_year a < cd_year b" | "cd_year a = cd_year b" "cd_month a < cd_month b"
    | "cd_year a = cd_year b" "cd_month a = cd_month b" "cd_day a < cd_day b"
    using assms(3) by (auto simp: less_cal_date_def)
  then show ?thesis
  proof cases
    case 1
    have "day_number a < days_before_year (Suc (cd_year a))" by (rule day_number_in_year [OF assms(1)])
    also have "\<dots> \<le> days_before_year (cd_year b)" using 1 by (intro days_before_year_mono) simp
    also have "\<dots> \<le> day_number b" using assms(2) by (auto simp: day_number_def valid_date_def)
    finally show ?thesis .
  next
    case 2
    have "day_number a < days_before_year (cd_year a) + days_before_month (cd_year a) (Suc (cd_month a))"
      by (rule day_number_in_month [OF assms(1)])
    also have "\<dots> \<le> days_before_year (cd_year b) + days_before_month (cd_year b) (cd_month b)"
      using 2 days_before_month_mono [of "Suc (cd_month a)" "cd_month b" "cd_year b"] by simp
    also have "\<dots> \<le> day_number b" using assms(2) by (auto simp: day_number_def valid_date_def)
    finally show ?thesis .
  next
    case 3
    then show ?thesis using assms by (auto simp: day_number_def valid_date_def)
  qed
qed

lemma day_number_less_iff:
  "valid_date a \<Longrightarrow> valid_date b \<Longrightarrow> day_number a < day_number b \<longleftrightarrow> a < b"
  by (metis day_number_strict_mono less_asym' linorder_neqE)

lemma day_number_le_iff:
  "valid_date a \<Longrightarrow> valid_date b \<Longrightarrow> day_number a \<le> day_number b \<longleftrightarrow> a \<le> b"
  by (metis day_number_less_iff linorder_not_le)

lemma day_number_inj: "valid_date a \<Longrightarrow> valid_date b \<Longrightarrow> day_number a = day_number b \<Longrightarrow> a = b"
  by (metis day_number_strict_mono less_irrefl linorder_neqE)

lemma days_before_month_numeral:
  "days_before_month y (numeral k) = days_before_month y (pred_numeral k)
     + (if pred_numeral k = 0 then 0 else days_in_month y (pred_numeral k))"
  by (simp add: numeral_eq_Suc)

text \<open>Adding days, evaluated through the day numbers instead of day by day.\<close>

lemma add_days_eqI:
  "valid_date d \<Longrightarrow> valid_date d' \<Longrightarrow> day_number d' = day_number d + n \<Longrightarrow> add_days n d = d'"
  by (rule day_number_inj) (simp_all add: valid_add_days day_number_add_days)

section \<open>Printing and parsing\<close>

text \<open>
  \<open>toISOString().slice(0, 10)\<close>: four-digit years print as \<open>YYYY-MM-DD\<close>; from year
  10000 on the ISO form starts with a sign and six digits, of which the slice keeps ten
  characters.
\<close>

definition digit_char :: "nat \<Rightarrow> char" where
  "digit_char n = char_of (48 + n)"

definition char_digit :: "char \<Rightarrow> nat option" where
  "char_digit c = (let n = of_char c in if 48 \<le> n \<and> n \<le> 57 then Some (n - 48) else None)"

fun pad :: "nat \<Rightarrow> nat \<Rightarrow> string" where
  "pad 0 n = []"
| "pad (Suc w) n = digit_char (n div 10 ^ w mod 10) # pad w (n mod 10 ^ w)"

definition iso_date :: "cal_date \<Rightarrow> string" where
  "iso_date d =
     (if cd_year d \<le> 9999
      then pad 4 (cd_year d) @ ''-'' @ pad 2 (cd_month d) @ ''-'' @ pad 2 (cd_day d)
      else take 10 (''+'' @ pad 6 (cd_year d) @ ''-'' @ pad 2 (cd_month d)))"

text \<open>\<open>Number(...)\<close> on a string of digits, \<open>None\<close> on any other character.\<close>

fun digits_value :: "nat \<Rightarrow> string \<Rightarrow> nat option" where
  "digits_value acc [] = Some acc"
| "digits_value acc (c # cs) =
     (case char_digit c of None \<Rightarrow> None | Some k \<Rightarrow> digits_value (10 * acc + k) cs)"

text \<open>The regular expression \<open>/^\d{4}-\d{2}-\d{2}$/\<close> and the three numbers it matches.\<close>

definition date_fields :: "string \<Rightarrow> (nat \<times> nat \<times> nat) option" where
  "date_fields s =
     (if length s = 10 \<and> s ! 4 = CHR ''-'' \<and> s ! 7 = CHR ''-''
      then (case (digits_value 0 (take 4 s), digits_value 0 (take 2 (drop 5 s)), digits_value 0 (drop 8 s)) of
              (Some y, Some m, Some d) \<Rightarrow> Some (y, m, d)
            | _ \<Rightarrow> None)
      else None)"

text \<open>An integer in a template string.\<close>

fun nat_digits :: "nat \<Rightarrow> string" where
  "nat_digits n = (if n < 10 then [digit_char n] else nat_digits (n div 10) @ [digit_char (n mod 10)])"

definition int_string :: "int \<Rightarrow> string" where
  "int_string n = (if n < 0 then ''-'' @ nat_digits (nat (- n)) else nat_digits (nat n))"

lemma char_digit_digit_char [simp]: "k < 10 \<Longrightarrow> char_digit (digit_char k) = Some k"
  by (simp add: char_digit_def digit_char_def)

lemma digit_char_char_digit: "char_digit c = Some k \<Longrightarrow> digit_char k = c \<and> k < 10"
  by (auto simp: char_digit_def digit_char_def Let_def split: if_splits)

lemma digit_char_less: "i < 10 \<Longrightarrow> j < 10 \<Longrightarrow> digit_char i < digit_char j \<longleftrightarrow> i < j"
  by (simp add: digit_char_def less_char_def)

lemma digit_char_inj: "i < 10 \<Longrightarrow> j < 10 \<Longrightarrow> digit_char i = digit_char j \<longleftrightarrow> i = j"
  by (metis char_digit_digit_char option.inject)

lemma length_pad [simp]: "length (pad w n) = w"
  by (induction w arbitrary: n) auto

lemma digits_value_append:
  "digits_value acc (xs @ ys) =
     (case digits_value acc xs of None \<Rightarrow> None | Some k \<Rightarrow> digits_value k ys)"
  by (induction xs arbitrary: acc) (auto split: option.splits)

lemma digits_value_pad: "n < 10 ^ w \<Longrightarrow> digits_value acc (pad w n) = Some (acc * 10 ^ w + n)"
proof (induction w arbitrary: acc n)
  case (Suc w)
  have "n div 10 ^ w < 10" using Suc.prems by (simp add: less_mult_imp_div_less)
  then have "digits_value acc (pad (Suc w) n)
      = digits_value (10 * acc + n div 10 ^ w) (pad w (n mod 10 ^ w))" by simp
  also have "\<dots> = Some ((10 * acc + n div 10 ^ w) * 10 ^ w + n mod 10 ^ w)"
    by (rule Suc.IH) simp
  also have "(10 * acc + n div 10 ^ w) * 10 ^ w + n mod 10 ^ w = acc * 10 ^ Suc w + n"
    by (simp add: algebra_simps)
  finally show ?case .
qed simp

lemma digits_value_bound: "digits_value acc xs = Some n \<Longrightarrow> n < (acc + 1) * 10 ^ length xs"
proof (induction xs arbitrary: acc)
  case (Cons c cs)
  from Cons.prems obtain k where k: "char_digit c = Some k" "digits_value (10 * acc + k) cs = Some n"
    by (auto split: option.splits)
  have "k < 10" using digit_char_char_digit [OF k(1)] by simp
  have "n < (10 * acc + k + 1) * 10 ^ length cs" using Cons.IH [OF k(2)] .
  also have "\<dots> \<le> (10 * acc + 10) * 10 ^ length cs" using \<open>k < 10\<close> by (intro mult_right_mono) auto
  finally show ?case by (simp add: algebra_simps)
qed simp

lemma digits_value_ge: "digits_value acc xs = Some n \<Longrightarrow> acc * 10 ^ length xs \<le> n"
proof (induction xs arbitrary: acc)
  case (Cons c cs)
  from Cons.prems obtain k where "digits_value (10 * acc + k) cs = Some n"
    by (auto split: option.splits)
  then have "(10 * acc + k) * 10 ^ length cs \<le> n" by (rule Cons.IH)
  then show ?case by (simp add: algebra_simps)
qed simp

lemma pad_digits_value: "digits_value acc xs = Some n \<Longrightarrow> pad (length xs) (n - acc * 10 ^ length xs) = xs"
proof (induction xs arbitrary: acc)
  case (Cons c cs)
  from Cons.prems obtain k where k: "char_digit c = Some k" "digits_value (10 * acc + k) cs = Some n"
    by (auto split: option.splits)
  let ?w = "10 ^ length cs :: nat"
  define r where "r = n - (10 * acc + k) * ?w"
  have n: "n = (10 * acc + k) * ?w + r" using digits_value_ge [OF k(2)] by (simp add: r_def)
  have "n < (10 * acc + k + 1) * ?w" using digits_value_bound [OF k(2)] .
  then have "r < ?w" using n by (simp add: algebra_simps)
  have k10: "k < 10" "digit_char k = c" using digit_char_char_digit [OF k(1)] by simp_all
  have "n - acc * 10 ^ length (c # cs) = k * ?w + r" using n by (simp add: algebra_simps)
  then have "pad (length (c # cs)) (n - acc * 10 ^ length (c # cs)) = digit_char k # pad (length cs) r"
    using \<open>r < ?w\<close> k10(1) by simp
  also have "pad (length cs) r = cs" using Cons.IH [OF k(2)] by (simp add: r_def)
  finally show ?case using k10(2) by simp
qed simp

text \<open>Fixed-width decimal strings compare as the numbers they print.\<close>

lemma pad_less_iff: "m < 10 ^ w \<Longrightarrow> n < 10 ^ w \<Longrightarrow> pad w m < pad w n \<longleftrightarrow> m < n"
proof (induction w arbitrary: m n)
  case (Suc w)
  let ?b = "10 ^ w :: nat"
  have hi: "m div ?b < 10" "n div ?b < 10" using Suc.prems by (simp_all add: less_mult_imp_div_less)
  have lo: "m mod ?b < ?b" "n mod ?b < ?b" by simp_all
  have eq_m: "m = m div ?b * ?b + m mod ?b" by (rule div_mult_mod_eq [symmetric])
  have eq_n: "n = n div ?b * ?b + n mod ?b" by (rule div_mult_mod_eq [symmetric])
  have ord: "m < n \<longleftrightarrow> m div ?b < n div ?b \<or> m div ?b = n div ?b \<and> m mod ?b < n mod ?b"
  proof (cases "m div ?b" "n div ?b" rule: linorder_cases)
    case less
    then have "m < n" by (meson div_le_mono linorder_not_le)
    with less show ?thesis by simp
  next
    case equal
    then show ?thesis using eq_m eq_n by (metis add_less_cancel_left less_irrefl)
  next
    case greater
    then have "n < m" by (meson div_le_mono linorder_not_le)
    with greater show ?thesis by simp
  qed
  show ?case
    using hi Suc.IH [OF lo] by (simp add: digit_char_less digit_char_inj ord)
qed simp

lemma pad_inj: "m < 10 ^ w \<Longrightarrow> n < 10 ^ w \<Longrightarrow> pad w m = pad w n \<longleftrightarrow> m = n"
  by (metis pad_less_iff less_irrefl linorder_neqE_nat)

lemma append_less_iff:
  fixes xs ys :: "'a::linorder list"
  shows "length xs = length ys \<Longrightarrow> xs @ us < ys @ vs \<longleftrightarrow> xs < ys \<or> xs = ys \<and> us < vs"
  by (induction xs ys rule: list_induct2) auto

definition printable_date :: "cal_date \<Rightarrow> bool" where
  "printable_date d \<longleftrightarrow> valid_date d \<and> cd_year d \<le> 9999"

lemma printable_bounds:
  assumes "printable_date d"
  shows "cd_year d < 10 ^ 4" "cd_month d < 10 ^ 2" "cd_day d < 10 ^ 2"
  using assms days_in_month_bounds(2) [of "cd_year d" "cd_month d"]
  by (auto simp: printable_date_def valid_date_def)

lemma iso_date_printable:
  "printable_date d \<Longrightarrow>
     iso_date d = pad 4 (cd_year d) @ ''-'' @ pad 2 (cd_month d) @ ''-'' @ pad 2 (cd_day d)"
  by (simp add: iso_date_def printable_date_def)

lemma iso_date_less_iff:
  assumes "printable_date a" "printable_date b"
  shows "iso_date a < iso_date b \<longleftrightarrow> a < b"
proof -
  note bounds = printable_bounds [OF assms(1)] printable_bounds [OF assms(2)]
  show ?thesis
    unfolding iso_date_printable [OF assms(1)] iso_date_printable [OF assms(2)] less_cal_date_def
    using bounds by (simp add: append_less_iff pad_less_iff pad_inj)
qed

lemma iso_date_inj: "printable_date a \<Longrightarrow> printable_date b \<Longrightarrow> iso_date a = iso_date b \<longleftrightarrow> a = b"
  by (metis iso_date_less_iff less_irrefl linorder_neqE)

lemma iso_date_le_iff: "printable_date a \<Longrightarrow> printable_date b \<Longrightarrow> iso_date a \<le> iso_date b \<longleftrightarrow> a \<le> b"
  by (metis iso_date_less_iff linorder_not_less)

lemma date_fields_iso:
  assumes "printable_date d"
  shows "date_fields (iso_date d) = Some (cd_year d, cd_month d, cd_day d)"
proof -
  have len: "length (pad 4 (cd_year d)) = 4" "length (pad 2 (cd_month d)) = 2"
    "length (pad 2 (cd_day d)) = 2" by simp_all
  show ?thesis
    unfolding iso_date_printable [OF assms] date_fields_def
    using printable_bounds [OF assms] len
    by (simp add: nth_append digits_value_pad del: pad.simps)
qed

lemma date_fields_Some:
  assumes "date_fields s = Some (y, m, d)"
  shows "s = pad 4 y @ ''-'' @ pad 2 m @ ''-'' @ pad 2 d" "y < 10 ^ 4"
proof -
  from assms have s: "length s = 10" "s ! 4 = CHR ''-''" "s ! 7 = CHR ''-''"
    and v: "digits_value 0 (take 4 s) = Some y" "digits_value 0 (take 2 (drop 5 s)) = Some m"
      "digits_value 0 (drop 8 s) = Some d"
    by (auto simp: date_fields_def split: if_splits option.splits)
  have p: "pad 4 y = take 4 s" "pad 2 m = take 2 (drop 5 s)" "pad 2 d = drop 8 s"
    using pad_digits_value [OF v(1)] pad_digits_value [OF v(2)] pad_digits_value [OF v(3)] s(1)
    by simp_all
  have "s = take 4 s @ s ! 4 # take 2 (drop 5 s) @ s ! 7 # drop 8 s"
    using s(1) by (simp add: list_eq_iff_nth_eq nth_append nth_Cons' numeral_eq_Suc less_Suc_eq)
  then show "s = pad 4 y @ ''-'' @ pad 2 m @ ''-'' @ pad 2 d"
    using p s by simp
  show "y < 10 ^ 4" using digits_value_bound [OF v(1)] s(1) by simp
qed

text \<open>Adding at most a hundred times 365 days moves the year by at most a hundred.\<close>

lemma days_before_year_add: "days_before_year y + 365 * k \<le> days_before_year (y + k)"
proof (induction k)
  case (Suc k)
  then show ?case using days_before_year_Suc [of "y + k"] by auto
qed simp

lemma days_before_year_le_day_number:
  "valid_date d \<Longrightarrow> days_before_year (cd_year d) \<le> day_number d"
  by (auto simp: day_number_def valid_date_def)

lemma year_add_days_bound:
  assumes "valid_date d" "n \<le> 365 * k"
  shows "cd_year (add_days n d) \<le> cd_year d + k"
proof (rule ccontr)
  assume "\<not> ?thesis"
  then have "Suc (cd_year d) + k \<le> cd_year (add_days n d)" by simp
  then have "days_before_year (Suc (cd_year d) + k) \<le> days_before_year (cd_year (add_days n d))"
    by (rule days_before_year_mono)
  also have "\<dots> \<le> day_number (add_days n d)"
    by (rule days_before_year_le_day_number [OF valid_add_days [OF assms(1)]])
  also have "\<dots> = day_number d + n" by (rule day_number_add_days [OF assms(1)])
  finally have "days_before_year (Suc (cd_year d)) + 365 * k \<le> day_number d + n"
    using days_before_year_add [of "Suc (cd_year d)" k] by linarith
  with day_number_in_year [OF assms(1)] assms(2) show False by linarith
qed

text \<open>Evaluation of closed dates without unfolding the numerals.\<close>

lemma pad_numeral:
  "pad (numeral k) n = digit_char (n div 10 ^ pred_numeral k mod 10) # pad (pred_numeral k) (n mod 10 ^ pred_numeral k)"
  unfolding numeral_eq_Suc [of k] by (rule pad.simps)

lemma digit_chars:
  "digit_char 0 = CHR ''0''" "digit_char (Suc 0) = CHR ''1''" "digit_char 1 = CHR ''1''" "digit_char 2 = CHR ''2''"
  "digit_char 3 = CHR ''3''" "digit_char 4 = CHR ''4''" "digit_char 5 = CHR ''5''" "digit_char 6 = CHR ''6''"
  "digit_char 7 = CHR ''7''" "digit_char 8 = CHR ''8''" "digit_char 9 = CHR ''9''"
  by code_simp+

lemmas iso_eval = iso_date_def pad_numeral digit_chars

end
