(* ===== verification/EntitlementModel.thy ===== *)
theory EntitlementModel
  imports FestCalendar
begin

text \<open>
  \<open>packages/common/src/entitlements.ts\<close>: membership grants with their calendar
  interval, the lifecycle derived from it, division selection, and the class entitlement
  record with its input validation.  Values that the code checks at run time
  (entitlement classes and statuses) arrive as strings.  Days are counted as integers.
\<close>

section \<open>Membership division selection\<close>

datatype division_policy = ExactlyOne | OneToTwo | OneToAll

definition validate_division_selection :: "division_policy \<Rightarrow> string list \<Rightarrow> int \<Rightarrow> unit outcome" where
  "validate_division_selection policy ids active_count =
     (if card (set ids) \<noteq> length ids
      then Inl (PlainError ''Each membership division may be selected only once.'')
      else let n = int (length ids) in
        if (policy = ExactlyOne \<and> n \<noteq> 1)
           \<or> (policy = OneToTwo \<and> (n < 1 \<or> n > 2))
           \<or> (policy = OneToAll \<and> (n < 1 \<or> n > active_count))
        then Inl (PlainError ''Selected divisions do not satisfy the membership policy.'')
        else Inr ())"

section \<open>Lifecycle\<close>

datatype lifecycle = Scheduled | Active | Superseded | Expired | Revoked

record lifecycle_input =
  li_startsOn :: string
  li_endsOn :: string
  li_supersededOn :: "string option"
  li_revokedAtIso :: "string option"

definition parse_calendar_date :: "string \<Rightarrow> cal_date outcome" where
  "parse_calendar_date s =
     (case date_fields s of
        None \<Rightarrow> Inl (PlainError ''Entitlement calendar date must use YYYY-MM-DD.'')
      | Some (y, m, d) \<Rightarrow>
          if valid_date (CalDate y m d) then Inr (CalDate y m d)
          else Inl (PlainError ''Entitlement calendar date is invalid.''))"

definition derive_lifecycle :: "lifecycle_input \<Rightarrow> string \<Rightarrow> lifecycle outcome" where
  "derive_lifecycle e today =
     and_then (parse_calendar_date today) (\<lambda>_. Inr (
       if truthy (li_revokedAtIso e) then Revoked
       else if truthy (li_supersededOn e) \<and> today \<ge> the (li_supersededOn e) then Superseded
       else if today < li_startsOn e then Scheduled
       else if today \<ge> li_endsOn e then Expired
       else Active))"

section \<open>Calendar arithmetic\<close>

definition MAX_ENTITLEMENT_DURATION_DAYS :: int where
  "MAX_ENTITLEMENT_DURATION_DAYS = 36500"

definition TEACHER_MEMBERSHIP_RENEWAL_WINDOW_DAYS :: int where
  "TEACHER_MEMBERSHIP_RENEWAL_WINDOW_DAYS = 30"

definition is_valid_duration_days :: "int \<Rightarrow> bool" where
  "is_valid_duration_days n \<longleftrightarrow> n > 0 \<and> n \<le> MAX_ENTITLEMENT_DURATION_DAYS"

definition assert_valid_duration_days :: "int \<Rightarrow> int outcome" where
  "assert_valid_duration_days n =
     (if is_valid_duration_days n then Inr n
      else Inl (PlainError ''Entitlement duration must be a positive integer no greater than 36500 days.''))"

definition add_calendar_days :: "string \<Rightarrow> int \<Rightarrow> string outcome" where
  "add_calendar_days start n =
     and_then (parse_calendar_date start) (\<lambda>d.
     and_then (assert_valid_duration_days n) (\<lambda>k.
     Inr (iso_date (add_days (nat k) d))))"

definition calendar_days_until :: "string \<Rightarrow> string \<Rightarrow> int outcome" where
  "calendar_days_until from exclusive_end =
     and_then (parse_calendar_date from) (\<lambda>a.
     and_then (parse_calendar_date exclusive_end) (\<lambda>b.
     Inr (int (day_number b) - int (day_number a))))"

section \<open>Grant validation\<close>

record grant_input =
  gi_organizationId :: string
  gi_customerId :: string
  gi_entitlementClass :: string
  gi_offeringId :: string
  gi_durationDays :: int
  gi_divisionId :: string
  gi_divisionNameSnapshot :: string
  gi_paidAmount :: string
  gi_paidCurrencyCode :: string
  gi_checkoutIntentId :: string
  gi_shopifyOrderGid :: string
  gi_shopifyOrderLineGid :: string
  gi_startsOn :: string
  gi_endsOn :: string
  gi_status :: string

definition is_entitlement_class :: "string \<Rightarrow> bool" where
  "is_entitlement_class s \<longleftrightarrow> s \<in> {''teacher_membership'', ''accompanist_membership''}"

definition is_grant_status :: "string \<Rightarrow> bool" where
  "is_grant_status s \<longleftrightarrow>
     s \<in> {''scheduled'', ''active'', ''superseded'', ''expired'', ''revoked''}"

text \<open>\<open>/^(?:0|[1-9]\d*)(?:\.\d{1,2})?$/\<close>: an integer without leading zero, up to two decimals.\<close>

definition is_digit_char :: "char \<Rightarrow> bool" where
  "is_digit_char c \<longleftrightarrow> char_digit c \<noteq> None"

definition is_paid_amount :: "string \<Rightarrow> bool" where
  "is_paid_amount s =
     (let whole = takeWhile is_digit_char s; rest = dropWhile is_digit_char s
      in (whole = ''0'' \<or> (whole \<noteq> [] \<and> hd whole \<noteq> CHR ''0''))
         \<and> (rest = [] \<or>
            (hd rest = CHR ''.'' \<and> length (tl rest) \<in> {1, 2} \<and> list_all is_digit_char (tl rest))))"

text \<open>\<open>/^[A-Z]{3}$/\<close>.\<close>

definition is_currency_code :: "string \<Rightarrow> bool" where
  "is_currency_code s \<longleftrightarrow>
     length s = 3 \<and> list_all (\<lambda>c. 65 \<le> (of_char c :: nat) \<and> (of_char c :: nat) \<le> 90) s"

text \<open>The loop over \<open>[label, value]\<close> pairs: the first blank value is the error.\<close>

fun first_blank :: "(string \<times> string) list \<Rightarrow> string option" where
  "first_blank [] = None"
| "first_blank ((label, v) # rest) = (if js_trim v = [] then Some label else first_blank rest)"

definition assert_valid_grant_input :: "grant_input \<Rightarrow> unit outcome" where
  "assert_valid_grant_input g =
     and_then (guard (is_entitlement_class (gi_entitlementClass g)) (PlainError ''Entitlement class is invalid.'')) (\<lambda>_.
     and_then (assert_valid_duration_days (gi_durationDays g)) (\<lambda>_.
     and_then
       (case first_blank [
            (''Organization'', gi_organizationId g), (''Customer'', gi_customerId g),
            (''Offering'', gi_offeringId g), (''Division'', gi_divisionId g),
            (''Division name snapshot'', gi_divisionNameSnapshot g),
            (''Checkout intent'', gi_checkoutIntentId g), (''Shopify order'', gi_shopifyOrderGid g),
            (''Shopify order line'', gi_shopifyOrderLineGid g)] of
          Some label \<Rightarrow> Inl (PlainError (label @ '' is required for an entitlement grant.''))
        | None \<Rightarrow> Inr ()) (\<lambda>_.
     and_then (guard (is_paid_amount (gi_paidAmount g)) (PlainError ''Paid order-line amount must be a non-negative decimal.'')) (\<lambda>_.
     and_then (guard (is_currency_code (gi_paidCurrencyCode g)) (PlainError ''Paid order-line currency must be a three-letter code.'')) (\<lambda>_.
     and_then (guard (is_grant_status (gi_status g)) (PlainError ''Entitlement grant status is invalid.'')) (\<lambda>_.
     and_then (parse_calendar_date (gi_endsOn g)) (\<lambda>_.
     and_then (add_calendar_days (gi_startsOn g) (gi_durationDays g)) (\<lambda>min_ends.
     and_then (add_calendar_days (gi_startsOn g)
                 (gi_durationDays g + TEACHER_MEMBERSHIP_RENEWAL_WINDOW_DAYS)) (\<lambda>max_ends.
     guard (\<not> (gi_endsOn g < min_ends \<or> gi_endsOn g > max_ends))
       (PlainError ''Entitlement endsOn must equal startsOn plus durationDays calendar days.''))))))))))"

section \<open>Class entitlements\<close>

datatype class_status = Confirmed | Waitlisted | Cancelled | ClassRevoked

definition class_status_of :: "string \<Rightarrow> class_status option" where
  "class_status_of s =
     (if s = ''confirmed'' then Some Confirmed
      else if s = ''waitlisted'' then Some Waitlisted
      else if s = ''cancelled'' then Some Cancelled
      else if s = ''revoked'' then Some ClassRevoked
      else None)"

fun class_status_name :: "class_status \<Rightarrow> string" where
  "class_status_name Confirmed = ''confirmed''"
| "class_status_name Waitlisted = ''waitlisted''"
| "class_status_name Cancelled = ''cancelled''"
| "class_status_name ClassRevoked = ''revoked''"

lemma class_status_of_name [simp]: "class_status_of (class_status_name s) = Some s"
  by (cases s) (simp_all add: class_status_of_def)

definition is_class_status :: "string \<Rightarrow> bool" where
  "is_class_status s \<longleftrightarrow> class_status_of s \<noteq> None"

record class_entitlement =
  ce_id :: string
  ce_organizationId :: string
  ce_festivalId :: string
  ce_festivalClassId :: string
  ce_parentCustomerId :: string
  ce_childId :: string
  ce_checkoutIntentId :: string
  ce_checkoutIntentLineId :: "string option"
  ce_shopifyOrderGid :: string
  ce_shopifyOrderLineGid :: string
  ce_paidAmountCents :: int
  ce_paidCurrencyCode :: string
  ce_status :: class_status
  ce_admittedCartReference :: "string option"
  ce_capacityAtAllocation :: "int option"
  ce_placedCountBeforeAllocation :: "int option"
  ce_createdAt :: string
  ce_updatedAt :: string

record class_entitlement_input =
  ci_id :: "string option"
  ci_organizationId :: string
  ci_festivalId :: string
  ci_festivalClassId :: string
  ci_parentCustomerId :: string
  ci_childId :: string
  ci_checkoutIntentId :: string
  ci_checkoutIntentLineId :: "string option"
  ci_shopifyOrderGid :: string
  ci_shopifyOrderLineGid :: string
  ci_paidAmountCents :: int
  ci_paidCurrencyCode :: string
  ci_status :: "string option"
  ci_admittedCartReference :: "string option"
  ci_capacityAtAllocation :: "int option"
  ci_placedCountBeforeAllocation :: "int option"
  ci_createdAt :: "string option"
  ci_updatedAt :: "string option"

definition assert_valid_class_entitlement :: "class_entitlement_input \<Rightarrow> unit outcome" where
  "assert_valid_class_entitlement i =
     (if js_trim (ci_organizationId i) = [] then Inl (PlainError ''Organization is required for a class entitlement.'')
      else if js_trim (ci_festivalId i) = [] then Inl (PlainError ''Festival is required for a class entitlement.'')
      else if js_trim (ci_festivalClassId i) = [] then Inl (PlainError ''Festival class is required for a class entitlement.'')
      else if js_trim (ci_parentCustomerId i) = [] then Inl (PlainError ''Parent customer is required for a class entitlement.'')
      else if js_trim (ci_childId i) = [] then Inl (PlainError ''Child is required for a class entitlement.'')
      else if js_trim (ci_checkoutIntentId i) = [] then Inl (PlainError ''Checkout intent is required for a class entitlement.'')
      else if js_trim (ci_shopifyOrderGid i) = [] then Inl (PlainError ''Shopify order is required for a class entitlement.'')
      else if js_trim (ci_shopifyOrderLineGid i) = [] then Inl (PlainError ''Shopify order line is required for a class entitlement.'')
      else if ci_paidAmountCents i < 0 then Inl (PlainError ''Paid amount in cents must be a non-negative integer.'')
      else if \<not> is_currency_code (ci_paidCurrencyCode i) then Inl (PlainError ''Paid currency must be a three-letter code.'')
      else if (case ci_status i of None \<Rightarrow> False | Some s \<Rightarrow> \<not> is_class_status s)
           then Inl (PlainError ''Class entitlement status is invalid.'')
      else Inr ())"

lemma assert_valid_class_entitlement_status:
  "assert_valid_class_entitlement i = Inr () \<Longrightarrow> ci_status i = Some s \<Longrightarrow> class_status_of s \<noteq> None"
  by (auto simp: assert_valid_class_entitlement_def is_class_status_def split: if_splits)

section \<open>Facts about dates and grants\<close>

lemma parse_calendar_date_Inr:
  assumes "parse_calendar_date s = Inr d"
  shows "printable_date d" "iso_date d = s"
proof -
  from assms obtain y m dd where f: "date_fields s = Some (y, m, dd)" and v: "valid_date (CalDate y m dd)"
    and d: "d = CalDate y m dd"
    by (auto simp: parse_calendar_date_def split: option.splits if_splits)
  from date_fields_Some [OF f] have s: "s = pad 4 y @ ''-'' @ pad 2 m @ ''-'' @ pad 2 dd" and y: "y < 10 ^ 4" .
  show p: "printable_date d" using v y d by (simp add: printable_date_def)
  show "iso_date d = s" using iso_date_printable [OF p] s d by simp
qed

lemma parse_iso_date: "printable_date d \<Longrightarrow> parse_calendar_date (iso_date d) = Inr d"
  by (simp add: parse_calendar_date_def date_fields_iso) (auto simp: printable_date_def)

lemma parse_calendar_date_less:
  "parse_calendar_date s = Inr a \<Longrightarrow> parse_calendar_date t = Inr b \<Longrightarrow> s < t \<longleftrightarrow> a < b"
  by (metis parse_calendar_date_Inr iso_date_less_iff)

lemma printable_add_days:
  assumes "printable_date d" "cd_year d \<le> 9899" "n \<le> 36500"
  shows "printable_date (add_days n d)"
  using assms year_add_days_bound [of d n 100] valid_add_days [of d n]
  by (simp add: printable_date_def)

lemma add_calendar_days_Inr:
  "add_calendar_days s n = Inr e \<longleftrightarrow>
     (\<exists>d. parse_calendar_date s = Inr d \<and> is_valid_duration_days n \<and> e = iso_date (add_days (nat n) d))"
  by (auto simp: add_calendar_days_def and_then_eq_Inr assert_valid_duration_days_def split: if_splits)

lemma date_year_bound:
  assumes "parse_calendar_date s = Inr d" "s \<le> ''9899-12-31''"
  shows "cd_year d \<le> 9899"
proof -
  have p: "parse_calendar_date ''9899-12-31'' = Inr (CalDate 9899 12 31)" by code_simp
  have "\<not> CalDate 9899 12 31 < d" using parse_calendar_date_less [OF p assms(1)] assms(2) by (metis linorder_not_less)
  then show ?thesis by (auto simp: less_cal_date_def)
qed

section \<open>Progress of the lifecycle\<close>

text \<open>
  The order in which a grant moves through its states.  A later day never shows an
  earlier state, whatever the stored dates are.
\<close>

fun lifecycle_rank :: "lifecycle \<Rightarrow> nat" where
  "lifecycle_rank Scheduled = 0"
| "lifecycle_rank Active = 1"
| "lifecycle_rank Expired = 2"
| "lifecycle_rank Superseded = 3"
| "lifecycle_rank Revoked = 4"

lemma lifecycle_progress:
  assumes "derive_lifecycle e today = Inr l" "derive_lifecycle e later = Inr l'" "today \<le> later"
  shows "lifecycle_rank l \<le> lifecycle_rank l'"
  using assms
  by (auto simp: derive_lifecycle_def and_then_eq_Inr not_le split: if_splits)

lemma lifecycle_plain:
  assumes "parse_calendar_date today = Inr d"
    "\<not> truthy (li_revokedAtIso e)" "\<not> truthy (li_supersededOn e)"
  shows "derive_lifecycle e today = Inr
    (if today < li_startsOn e then Scheduled else if li_endsOn e \<le> today then Expired else Active)"
  using assms by (simp add: derive_lifecycle_def)

lemma valid_grant_Inr:
  assumes "assert_valid_grant_input g = Inr ()"
  obtains lo hi where "is_valid_duration_days (gi_durationDays g)"
    "add_calendar_days (gi_startsOn g) (gi_durationDays g) = Inr lo"
    "add_calendar_days (gi_startsOn g) (gi_durationDays g + 30) = Inr hi"
    "lo \<le> gi_endsOn g" "gi_endsOn g \<le> hi" "\<exists>d. parse_calendar_date (gi_endsOn g) = Inr d"
  using assms
  by (auto simp: assert_valid_grant_input_def and_then_eq_Inr assert_valid_duration_days_def
      TEACHER_MEMBERSHIP_RENEWAL_WINDOW_DAYS_def not_less split: if_splits)

text \<open>
  The renewal window is added before the length is checked, so a length within 30 days of
  the maximum is accepted by \<open>assertValidEntitlementDurationDays\<close> but never by the grant check.
\<close>

lemma longest_grants_rejected:
  assumes "is_valid_duration_days (gi_durationDays g)" "gi_durationDays g > 36470"
  shows "assert_valid_grant_input g \<noteq> Inr ()"
proof
  assume "assert_valid_grant_input g = Inr ()"
  then show False
    by (rule valid_grant_Inr)
      (use assms in \<open>auto simp: add_calendar_days_Inr is_valid_duration_days_def MAX_ENTITLEMENT_DURATION_DAYS_def\<close>)
qed

lemma days_of_added:
  assumes "parse_calendar_date s = Inr d" "s \<le> ''9899-12-31''" "is_valid_duration_days n"
    "add_calendar_days s n = Inr e"
  shows "parse_calendar_date e = Inr (add_days (nat n) d)" "int (day_number (add_days (nat n) d)) = int (day_number d) + n"
proof -
  have n: "0 < n" "nat n \<le> 36500"
    using assms(3) by (auto simp: is_valid_duration_days_def MAX_ENTITLEMENT_DURATION_DAYS_def)
  note d = parse_calendar_date_Inr [OF assms(1)]
  have e: "e = iso_date (add_days (nat n) d)" using assms(1,4) by (auto simp: add_calendar_days_Inr)
  have "printable_date (add_days (nat n) d)"
    by (rule printable_add_days [OF d(1) date_year_bound [OF assms(1,2)] n(2)])
  then show "parse_calendar_date e = Inr (add_days (nat n) d)" unfolding e by (rule parse_iso_date)
  show "int (day_number (add_days (nat n) d)) = int (day_number d) + n"
    using d(1) n by (simp add: printable_date_def day_number_add_days)
qed

section \<open>Properties\<close>

text \<open>
  Calendar arithmetic round trip.  Adding n days to a date and then counting the days back
  gives n, across month ends and leap years, for every start up to the end of the year 9899
  (later starts may leave the four-digit years the code prints).
\<close>
theorem calendar_days_roundtrip:
  assumes "add_calendar_days start n = Inr finish" "start \<le> ''9899-12-31''"
  shows "calendar_days_until start finish = Inr n"
proof -
  from assms(1) obtain d where d: "parse_calendar_date start = Inr d" "is_valid_duration_days n"
    by (auto simp: add_calendar_days_Inr)
  from days_of_added [OF d(1) assms(2) d(2) assms(1)] d(1) show ?thesis
    by (simp add: calendar_days_until_def)
qed

text \<open>Evaluation of closed dates.\<close>

lemma add_calendar_days_eqI:
  assumes "parse_calendar_date s = Inr d" "is_valid_duration_days n" "valid_date d'"
    "day_number d' = day_number d + nat n"
  shows "add_calendar_days s n = Inr (iso_date d')"
proof -
  have "valid_date d" using parse_calendar_date_Inr(1) [OF assms(1)] by (simp add: printable_date_def)
  then show ?thesis
    using add_days_eqI [OF _ assms(3,4)] assms(1,2) by (simp add: add_calendar_days_Inr)
qed

lemmas date_eval = valid_date_def days_in_month_def leap_year_def day_number_def days_before_year_def
  is_valid_duration_days_def MAX_ENTITLEMENT_DURATION_DAYS_def days_before_month_numeral

lemma demo_leap_year: "add_calendar_days ''2028-02-28'' 366 = Inr ''2029-02-28''"
proof -
  have "parse_calendar_date ''2028-02-28'' = Inr (CalDate 2028 2 28)" by code_simp
  then have "add_calendar_days ''2028-02-28'' 366 = Inr (iso_date (CalDate 2029 2 28))"
    by (rule add_calendar_days_eqI) (simp_all add: date_eval)
  also have "iso_date (CalDate 2029 2 28) = ''2029-02-28''" by code_simp
  finally show ?thesis .
qed

theorem calendar_days_roundtrip_witness:
  "calendar_days_until ''2028-02-28'' ''2029-02-28'' = Inr 366"
proof (rule calendar_days_roundtrip [OF demo_leap_year])
  show "''2028-02-28'' \<le> ''9899-12-31''" by code_simp
qed

text \<open>
  A validated membership grant is active exactly from its first day to the day before its
  end.  The length of that period is the paid duration, extended by at most the 30 days of the
  renewal window, and before it the grant is scheduled, after it expired.
\<close>
theorem validated_grant_active_window:
  assumes "assert_valid_grant_input g = Inr ()" "gi_startsOn g \<le> ''9899-12-31''"
    and "li_startsOn e = gi_startsOn g" "li_endsOn e = gi_endsOn g"
    and "\<not> truthy (li_revokedAtIso e)" "\<not> truthy (li_supersededOn e)"
    and "parse_calendar_date today = Inr day"
  shows "\<exists>len. calendar_days_until (gi_startsOn g) (gi_endsOn g) = Inr len \<and>
      gi_durationDays g \<le> len \<and> len \<le> gi_durationDays g + 30 \<and>
      (\<exists>k. calendar_days_until (gi_startsOn g) today = Inr k \<and>
        derive_lifecycle e today = Inr (if k < 0 then Scheduled else if len \<le> k then Expired else Active))"
  using assms(1)
proof (rule valid_grant_Inr)
  fix lo hi
  assume v: "is_valid_duration_days (gi_durationDays g)"
    "add_calendar_days (gi_startsOn g) (gi_durationDays g) = Inr lo"
    "add_calendar_days (gi_startsOn g) (gi_durationDays g + 30) = Inr hi"
    "lo \<le> gi_endsOn g" "gi_endsOn g \<le> hi" "\<exists>d. parse_calendar_date (gi_endsOn g) = Inr d"
  from v(2) obtain s where s: "parse_calendar_date (gi_startsOn g) = Inr s" by (auto simp: add_calendar_days_Inr)
  from v(6) obtain f where f: "parse_calendar_date (gi_endsOn g) = Inr f" by blast
  from v(3) have v3: "is_valid_duration_days (gi_durationDays g + 30)" by (auto simp: add_calendar_days_Inr)
  note lo = days_of_added [OF s assms(2) v(1,2)]
  note hi = days_of_added [OF s assms(2) v3 v(3)]
  have valid: "valid_date s" "valid_date f" "valid_date day"
    using parse_calendar_date_Inr(1) s f assms(7) by (auto simp: printable_date_def)
  have le: "p \<le> q \<longleftrightarrow> day_number a \<le> day_number b"
    if "parse_calendar_date p = Inr a" "parse_calendar_date q = Inr b" for p q a b
    using that parse_calendar_date_less [OF that(2,1)] parse_calendar_date_Inr(1)
    by (metis day_number_le_iff linorder_not_less printable_date_def)
  have "day_number (add_days (nat (gi_durationDays g)) s) \<le> day_number f"
    using le [OF lo(1) f] v(4) by blast
  moreover have "day_number f \<le> day_number (add_days (nat (gi_durationDays g + 30)) s)"
    using le [OF f hi(1)] v(5) by blast
  ultimately have len: "gi_durationDays g \<le> int (day_number f) - int (day_number s)"
    "int (day_number f) - int (day_number s) \<le> gi_durationDays g + 30"
    using lo(2) hi(2) by linarith+
  have "today < gi_startsOn g \<longleftrightarrow> day_number day < day_number s"
    "gi_endsOn g \<le> today \<longleftrightarrow> day_number f \<le> day_number day"
    using le [OF s assms(7)] le [OF f assms(7)] by (metis linorder_not_less)+
  then show ?thesis
    using len lifecycle_plain [OF assms(7,5,6)] s f assms(3,4,7)
    by (auto simp: calendar_days_until_def)
qed

definition demo_grant :: grant_input where
  "demo_grant = \<lparr>gi_organizationId = ''org'', gi_customerId = ''cust'', gi_entitlementClass = ''teacher_membership'',
     gi_offeringId = ''off'', gi_durationDays = 365, gi_divisionId = ''div'', gi_divisionNameSnapshot = ''Piano'',
     gi_paidAmount = ''50.00'', gi_paidCurrencyCode = ''USD'', gi_checkoutIntentId = ''int'',
     gi_shopifyOrderGid = ''order'', gi_shopifyOrderLineGid = ''line'', gi_startsOn = ''2026-01-10'',
     gi_endsOn = ''2027-01-20'', gi_status = ''active''\<rparr>"

definition demo_lifecycle :: lifecycle_input where
  "demo_lifecycle = \<lparr>li_startsOn = ''2026-01-10'', li_endsOn = ''2027-01-20'', li_supersededOn = None,
     li_revokedAtIso = None\<rparr>"

lemma demo_grant_valid: "assert_valid_grant_input demo_grant = Inr ()"
proof -
  have p: "parse_calendar_date ''2026-01-10'' = Inr (CalDate 2026 1 10)"
    "parse_calendar_date ''2027-01-20'' = Inr (CalDate 2027 1 20)" by code_simp+
  have iso: "iso_date (CalDate 2027 1 10) = ''2027-01-10''" "iso_date (CalDate 2027 2 9) = ''2027-02-09''"
    by code_simp+
  have "add_calendar_days ''2026-01-10'' 365 = Inr (iso_date (CalDate 2027 1 10))"
    by (rule add_calendar_days_eqI [OF p(1)]) (simp_all add: date_eval)
  then have lo: "add_calendar_days ''2026-01-10'' 365 = Inr ''2027-01-10''" by (simp only: iso(1))
  have "add_calendar_days ''2026-01-10'' 395 = Inr (iso_date (CalDate 2027 2 9))"
    by (rule add_calendar_days_eqI [OF p(1)]) (simp_all add: date_eval)
  then have hi: "add_calendar_days ''2026-01-10'' 395 = Inr ''2027-02-09''" by (simp only: iso(2))
  have checks: "is_entitlement_class ''teacher_membership''" "is_paid_amount ''50.00''" "is_currency_code ''USD''"
    "is_grant_status ''active''" "is_valid_duration_days 365"
    "first_blank [(''Organization'', ''org''), (''Customer'', ''cust''), (''Offering'', ''off''), (''Division'', ''div''),
       (''Division name snapshot'', ''Piano''), (''Checkout intent'', ''int''), (''Shopify order'', ''order''),
       (''Shopify order line'', ''line'')] = None" by code_simp+
  show ?thesis
    using p lo hi checks
    by (simp add: assert_valid_grant_input_def demo_grant_def TEACHER_MEMBERSHIP_RENEWAL_WINDOW_DAYS_def
        assert_valid_duration_days_def less_char_def)
qed

theorem validated_grant_active_window_witness:
  "\<exists>len k. calendar_days_until ''2026-01-10'' ''2027-01-20'' = Inr len \<and> 365 \<le> len \<and> len \<le> 395 \<and>
     calendar_days_until ''2026-01-10'' ''2027-01-19'' = Inr k \<and>
     derive_lifecycle demo_lifecycle ''2027-01-19''
       = Inr (if k < 0 then Scheduled else if len \<le> k then Expired else Active)"
proof -
  have start: "gi_startsOn demo_grant \<le> ''9899-12-31''" by code_simp
  have today: "parse_calendar_date ''2027-01-19'' = Inr (CalDate 2027 1 19)" by code_simp
  from validated_grant_active_window [OF demo_grant_valid start _ _ _ _ today, of demo_lifecycle]
  show ?thesis by (auto simp: demo_grant_def demo_lifecycle_def)
qed

text \<open>
  The lifecycle only moves forward.  For fixed stored dates, a later day never shows a
  grant in an earlier state of scheduled, active, expired, superseded, revoked.
\<close>
theorem lifecycle_moves_forward:
  assumes "derive_lifecycle e today = Inr l" "derive_lifecycle e later = Inr l'" "today \<le> later"
  shows "lifecycle_rank l \<le> lifecycle_rank l'"
  by (rule lifecycle_progress [OF assms])

theorem lifecycle_moves_forward_witness:
  "lifecycle_rank Scheduled \<le> lifecycle_rank Active"
proof (rule lifecycle_moves_forward [of demo_lifecycle "''2026-01-09''" _ "''2026-01-10''"])
  show "derive_lifecycle demo_lifecycle ''2026-01-09'' = Inr Scheduled" by code_simp
  show "derive_lifecycle demo_lifecycle ''2026-01-10'' = Inr Active" by code_simp
  show "''2026-01-09'' \<le> ''2026-01-10''" by code_simp
qed

end
