(* ===== verification/EntitlementRepo.thy ===== *)
theory EntitlementRepo
  imports EntitlementModel
begin

text \<open>
  \<open>InMemoryClassEntitlementRepository\<close> of
  \<open>packages/backend/src/commerce/class-entitlement-repository.ts\<close>: the store of class
  entitlements with its three secondary indexes.  Each method runs under
  \<open>withInMemoryCapacityLock\<close>, so it is one function from the state to a result and the
  next state.  \<open>randomUUID()\<close> and the clock are arguments.
\<close>

section \<open>State\<close>

record ent_repo =
  en_entitlements :: "(string, class_entitlement) js_map"
  en_byOrderLine :: "(string, string) js_map"
  en_byIntent :: "(string, string) js_map"
  en_byIntentLine :: "(string, string) js_map"

definition empty_ent_repo :: ent_repo where
  "empty_ent_repo = \<lparr>en_entitlements = [], en_byOrderLine = [], en_byIntent = [], en_byIntentLine = []\<rparr>"

record ent_filter =
  ef_organizationId :: "string option"
  ef_festivalId :: "string option"
  ef_festivalClassId :: "string option"
  ef_festivalClassIds :: "string list option"
  ef_parentCustomerId :: "string option"
  ef_childId :: "string option"
  ef_childIds :: "string list option"
  ef_status :: "class_status option"

definition any_entitlement :: ent_filter where
  "any_entitlement = \<lparr>ef_organizationId = None, ef_festivalId = None, ef_festivalClassId = None,
     ef_festivalClassIds = None, ef_parentCustomerId = None, ef_childId = None,
     ef_childIds = None, ef_status = None\<rparr>"

record ent_update =
  eu_festivalClassId :: "string option"
  eu_status :: "class_status option"
  eu_expectedStatus :: "class_status list option"

text \<open>The index key \<open>`${organizationId}\u0000${value}`\<close>.\<close>

definition nul_key :: "string \<Rightarrow> string \<Rightarrow> string" where
  "nul_key org v = org @ [char_of (0::nat)] @ v"

section \<open>Operations\<close>

definition new_entitlement :: "class_entitlement_input \<Rightarrow> string \<Rightarrow> string \<Rightarrow> class_entitlement" where
  "new_entitlement i eid now_iso =
     \<lparr>ce_id = eid,
      ce_organizationId = ci_organizationId i,
      ce_festivalId = ci_festivalId i,
      ce_festivalClassId = ci_festivalClassId i,
      ce_parentCustomerId = ci_parentCustomerId i,
      ce_childId = ci_childId i,
      ce_checkoutIntentId = ci_checkoutIntentId i,
      ce_checkoutIntentLineId = ci_checkoutIntentLineId i,
      ce_shopifyOrderGid = ci_shopifyOrderGid i,
      ce_shopifyOrderLineGid = ci_shopifyOrderLineGid i,
      ce_paidAmountCents = ci_paidAmountCents i,
      ce_paidCurrencyCode = ci_paidCurrencyCode i,
      ce_status = (case ci_status i of None \<Rightarrow> Confirmed
                   | Some s \<Rightarrow> (case class_status_of s of Some st \<Rightarrow> st | None \<Rightarrow> Confirmed)),
      ce_admittedCartReference = ci_admittedCartReference i,
      ce_capacityAtAllocation = ci_capacityAtAllocation i,
      ce_placedCountBeforeAllocation = ci_placedCountBeforeAllocation i,
      ce_createdAt = (case ci_createdAt i of None \<Rightarrow> now_iso | Some t \<Rightarrow> t),
      ce_updatedAt = (case ci_updatedAt i of None \<Rightarrow> now_iso | Some t \<Rightarrow> t)\<rparr>"

text \<open>\<open>const id = index.get(key); if (id) \<dots> entitlements.get(id)\<close>.\<close>

definition indexed_entitlement :: "(string, string) js_map \<Rightarrow> string \<Rightarrow> ent_repo \<Rightarrow> class_entitlement option" where
  "indexed_entitlement index key r =
     (case if_truthy (js_get index key) of
        None \<Rightarrow> None
      | Some eid \<Rightarrow> js_get (en_entitlements r) eid)"

definition insert_entitlement :: "class_entitlement_input \<Rightarrow> string \<Rightarrow> string \<Rightarrow> ent_repo \<Rightarrow> class_entitlement \<times> ent_repo" where
  "insert_entitlement i uuid now_iso r =
     (let eid = (case ci_id i of None \<Rightarrow> uuid | Some x \<Rightarrow> x);
          e = new_entitlement i eid now_iso;
          org = ci_organizationId i
      in (e, r\<lparr>en_entitlements := js_set eid e (en_entitlements r),
               en_byOrderLine := js_set (nul_key org (ci_shopifyOrderLineGid i)) eid (en_byOrderLine r),
               en_byIntent := js_set (nul_key org (ci_checkoutIntentId i)) eid (en_byIntent r),
               en_byIntentLine :=
                 (if truthy (ci_checkoutIntentLineId i)
                  then js_set (nul_key org (the (ci_checkoutIntentLineId i))) eid (en_byIntentLine r)
                  else en_byIntentLine r)\<rparr>))"

definition create_class_entitlement ::
    "class_entitlement_input \<Rightarrow> string \<Rightarrow> string \<Rightarrow> ent_repo \<Rightarrow> (class_entitlement \<times> ent_repo) outcome" where
  "create_class_entitlement i uuid now_iso r =
     and_then (assert_valid_class_entitlement i) (\<lambda>_.
       (case (if truthy (ci_checkoutIntentLineId i)
              then indexed_entitlement (en_byIntentLine r)
                     (nul_key (ci_organizationId i) (the (ci_checkoutIntentLineId i))) r
              else None) of
          Some existing \<Rightarrow>
            if ce_shopifyOrderLineGid existing = ci_shopifyOrderLineGid i
            then Inr (existing, r)
            else Inl (PlainError
              ''Class entitlement conflict: checkout intent line already fulfilled by a different order line.'')
        | None \<Rightarrow>
            (case indexed_entitlement (en_byOrderLine r)
                    (nul_key (ci_organizationId i) (ci_shopifyOrderLineGid i)) r of
               Some existing \<Rightarrow> Inr (existing, r)
             | None \<Rightarrow> Inr (insert_entitlement i uuid now_iso r))))"

definition get_class_entitlement :: "string \<Rightarrow> string \<Rightarrow> ent_repo \<Rightarrow> class_entitlement option" where
  "get_class_entitlement org eid r =
     (case js_get (en_entitlements r) eid of
        None \<Rightarrow> None
      | Some e \<Rightarrow> if ce_organizationId e \<noteq> org then None else Some e)"

definition matches_filter :: "ent_filter \<Rightarrow> class_entitlement \<Rightarrow> bool" where
  "matches_filter f e \<longleftrightarrow>
     (truthy (ef_organizationId f) \<longrightarrow> Some (ce_organizationId e) = ef_organizationId f) \<and>
     (truthy (ef_festivalId f) \<longrightarrow> Some (ce_festivalId e) = ef_festivalId f) \<and>
     (truthy (ef_festivalClassId f) \<longrightarrow> Some (ce_festivalClassId e) = ef_festivalClassId f) \<and>
     (case ef_festivalClassIds f of None \<Rightarrow> True | Some ids \<Rightarrow> ce_festivalClassId e \<in> set ids) \<and>
     (truthy (ef_parentCustomerId f) \<longrightarrow> Some (ce_parentCustomerId e) = ef_parentCustomerId f) \<and>
     (truthy (ef_childId f) \<longrightarrow> Some (ce_childId e) = ef_childId f) \<and>
     (case ef_childIds f of None \<Rightarrow> True | Some ids \<Rightarrow> ce_childId e \<in> set ids) \<and>
     (case ef_status f of None \<Rightarrow> True | Some st \<Rightarrow> ce_status e = st)"

definition list_class_entitlements :: "ent_filter \<Rightarrow> ent_repo \<Rightarrow> class_entitlement list" where
  "list_class_entitlements f r =
     js_sort_desc ce_createdAt (filter (matches_filter f) (js_values (en_entitlements r)))"

text \<open>\<open>const id = index.get(key); if (!id) return null; return getClassEntitlement(org, id)\<close>.\<close>

definition find_by_index :: "(string, string) js_map \<Rightarrow> string \<Rightarrow> string \<Rightarrow> ent_repo \<Rightarrow> class_entitlement option" where
  "find_by_index index org v r =
     (case if_truthy (js_get index (nul_key org v)) of
        None \<Rightarrow> None
      | Some eid \<Rightarrow> get_class_entitlement org eid r)"

definition find_class_entitlement_by_order_line :: "string \<Rightarrow> string \<Rightarrow> ent_repo \<Rightarrow> class_entitlement option" where
  "find_class_entitlement_by_order_line org line r = find_by_index (en_byOrderLine r) org line r"

definition find_class_entitlement_by_intent_id :: "string \<Rightarrow> string \<Rightarrow> ent_repo \<Rightarrow> class_entitlement option" where
  "find_class_entitlement_by_intent_id org intent r = find_by_index (en_byIntent r) org intent r"

definition find_class_entitlement_by_intent_line_id :: "string \<Rightarrow> string \<Rightarrow> ent_repo \<Rightarrow> class_entitlement option" where
  "find_class_entitlement_by_intent_line_id org line r = find_by_index (en_byIntentLine r) org line r"

definition seated :: "string \<Rightarrow> string \<Rightarrow> class_entitlement \<Rightarrow> bool" where
  "seated org cls e \<longleftrightarrow>
     ce_organizationId e = org \<and> ce_festivalClassId e = cls \<and> ce_status e = Confirmed"

definition count_confirmed_class_entitlements :: "string \<Rightarrow> string \<Rightarrow> ent_repo \<Rightarrow> nat" where
  "count_confirmed_class_entitlements org cls r = count_values (seated org cls) (en_entitlements r)"

definition apply_update :: "ent_update \<Rightarrow> string \<Rightarrow> class_entitlement \<Rightarrow> class_entitlement" where
  "apply_update u now_iso e =
     e\<lparr>ce_status := (case eu_status u of None \<Rightarrow> ce_status e | Some s \<Rightarrow> s),
       ce_festivalClassId := (case eu_festivalClassId u of None \<Rightarrow> ce_festivalClassId e | Some c \<Rightarrow> c),
       ce_updatedAt := now_iso\<rparr>"

definition update_class_entitlement ::
    "string \<Rightarrow> string \<Rightarrow> ent_update \<Rightarrow> class_status list option \<Rightarrow> string \<Rightarrow> ent_repo
      \<Rightarrow> class_entitlement option \<times> ent_repo" where
  "update_class_entitlement org eid u expected now_iso r =
     (case js_get (en_entitlements r) eid of
        None \<Rightarrow> (None, r)
      | Some e \<Rightarrow>
          if ce_organizationId e \<noteq> org then (None, r)
          else (case (case expected of Some x \<Rightarrow> Some x | None \<Rightarrow> eu_expectedStatus u) of
                  Some allowed \<Rightarrow>
                    if ce_status e \<notin> set allowed then (None, r)
                    else (Some (apply_update u now_iso e),
                          r\<lparr>en_entitlements := js_modify eid (apply_update u now_iso) (en_entitlements r)\<rparr>)
                | None \<Rightarrow>
                    (Some (apply_update u now_iso e),
                     r\<lparr>en_entitlements := js_modify eid (apply_update u now_iso) (en_entitlements r)\<rparr>)))"

definition update_class_entitlement_status ::
    "string \<Rightarrow> string \<Rightarrow> class_status \<Rightarrow> class_status list option \<Rightarrow> string \<Rightarrow> ent_repo
      \<Rightarrow> class_entitlement option \<times> ent_repo" where
  "update_class_entitlement_status org eid st expected now_iso r =
     update_class_entitlement org eid
       \<lparr>eu_festivalClassId = None, eu_status = Some st, eu_expectedStatus = None\<rparr> expected now_iso r"

section \<open>Invariant\<close>

text \<open>
  Keys are the ids of the records they hold, ids are not empty, and every stored record is
  found through its order-line index and, when it has one, its intent-line index.  Two
  records of the same order line therefore have the same id.
\<close>

definition ent_inv :: "ent_repo \<Rightarrow> bool" where
  "ent_inv r \<longleftrightarrow> js_wf (en_entitlements r) \<and>
     (\<forall>k e. js_get (en_entitlements r) k = Some e \<longrightarrow>
        ce_id e = k \<and> k \<noteq> [] \<and>
        js_get (en_byOrderLine r) (nul_key (ce_organizationId e) (ce_shopifyOrderLineGid e)) = Some k \<and>
        (truthy (ce_checkoutIntentLineId e) \<longrightarrow>
           js_get (en_byIntentLine r)
             (nul_key (ce_organizationId e) (the (ce_checkoutIntentLineId e))) = Some k))"

lemma ent_inv_empty: "ent_inv empty_ent_repo"
  by (simp add: ent_inv_def empty_ent_repo_def)

lemma apply_update_frame [simp]:
  "ce_id (apply_update u t e) = ce_id e"
  "ce_organizationId (apply_update u t e) = ce_organizationId e"
  "ce_shopifyOrderLineGid (apply_update u t e) = ce_shopifyOrderLineGid e"
  "ce_checkoutIntentLineId (apply_update u t e) = ce_checkoutIntentLineId e"
  "ce_childId (apply_update u t e) = ce_childId e"
  "ce_festivalId (apply_update u t e) = ce_festivalId e"
  "ce_paidAmountCents (apply_update u t e) = ce_paidAmountCents e"
  "ce_createdAt (apply_update u t e) = ce_createdAt e"
  by (simp_all add: apply_update_def)

lemma update_Some:
  assumes "update_class_entitlement org eid u expected t r = (Some e', r')"
  obtains e where "js_get (en_entitlements r) eid = Some e" "ce_organizationId e = org"
    "e' = apply_update u t e"
    "r' = r\<lparr>en_entitlements := js_modify eid (apply_update u t) (en_entitlements r)\<rparr>"
    "\<And>allowed. expected = Some allowed \<Longrightarrow> ce_status e \<in> set allowed"
  using assms by (auto simp: update_class_entitlement_def split: option.splits if_splits)

lemma update_None: "update_class_entitlement org eid u expected t r = (None, r') \<Longrightarrow> r' = r"
  by (auto simp: update_class_entitlement_def split: option.splits if_splits)

lemma update_preserves_inv:
  "ent_inv r \<Longrightarrow> ent_inv (snd (update_class_entitlement org eid u expected t r))"
  by (auto simp: update_class_entitlement_def ent_inv_def split: option.splits if_splits)

lemma create_cases:
  assumes "create_class_entitlement i uuid t r = Inr (e, r')"
  obtains (replay_line) "r' = r" "truthy (ci_checkoutIntentLineId i)"
      "indexed_entitlement (en_byIntentLine r)
         (nul_key (ci_organizationId i) (the (ci_checkoutIntentLineId i))) r = Some e"
      "ce_shopifyOrderLineGid e = ci_shopifyOrderLineGid i"
    | (replay_order) "r' = r"
      "truthy (ci_checkoutIntentLineId i) \<Longrightarrow> indexed_entitlement (en_byIntentLine r)
         (nul_key (ci_organizationId i) (the (ci_checkoutIntentLineId i))) r = None"
      "indexed_entitlement (en_byOrderLine r)
         (nul_key (ci_organizationId i) (ci_shopifyOrderLineGid i)) r = Some e"
    | (inserted) "(e, r') = insert_entitlement i uuid t r"
      "truthy (ci_checkoutIntentLineId i) \<Longrightarrow> indexed_entitlement (en_byIntentLine r)
         (nul_key (ci_organizationId i) (the (ci_checkoutIntentLineId i))) r = None"
      "indexed_entitlement (en_byOrderLine r)
         (nul_key (ci_organizationId i) (ci_shopifyOrderLineGid i)) r = None"
  using assms
  by (auto simp: create_class_entitlement_def and_then_eq_Inr split: option.splits if_splits)

lemma indexed_None_not_stored:
  assumes "ent_inv r" "js_get (en_entitlements r) k = Some e"
    "indexed_entitlement index key r = None"
  shows "js_get index key \<noteq> Some k"
  using assms by (auto simp: indexed_entitlement_def ent_inv_def if_truthy_def split: option.splits if_splits)

lemma insert_preserves_inv:
  assumes inv: "ent_inv r"
    and eid: "eid = (case ci_id i of None \<Rightarrow> uuid | Some x \<Rightarrow> x)"
    and fresh: "js_get (en_entitlements r) eid = None" "eid \<noteq> []"
    and no_line: "truthy (ci_checkoutIntentLineId i) \<Longrightarrow> indexed_entitlement (en_byIntentLine r)
         (nul_key (ci_organizationId i) (the (ci_checkoutIntentLineId i))) r = None"
    and no_order: "indexed_entitlement (en_byOrderLine r)
         (nul_key (ci_organizationId i) (ci_shopifyOrderLineGid i)) r = None"
  shows "ent_inv (snd (insert_entitlement i uuid t r))"
proof -
  have old: "nul_key (ce_organizationId e) (ce_shopifyOrderLineGid e)
        \<noteq> nul_key (ci_organizationId i) (ci_shopifyOrderLineGid i)"
    "truthy (ci_checkoutIntentLineId i) \<Longrightarrow> truthy (ce_checkoutIntentLineId e) \<Longrightarrow>
       nul_key (ce_organizationId e) (the (ce_checkoutIntentLineId e))
        \<noteq> nul_key (ci_organizationId i) (the (ci_checkoutIntentLineId i))"
    if "js_get (en_entitlements r) k = Some e" for k e
    using indexed_None_not_stored [OF inv that] no_line no_order inv that
    by (metis ent_inv_def)+
  show ?thesis
    using inv fresh old
    by (auto simp: insert_entitlement_def ent_inv_def Let_def eid [symmetric] new_entitlement_def)
qed

text \<open>The id a new record gets: the one of the input, or the fresh UUID.\<close>

definition create_id :: "class_entitlement_input \<Rightarrow> string \<Rightarrow> string" where
  "create_id i uuid = (case ci_id i of None \<Rightarrow> uuid | Some x \<Rightarrow> x)"

lemma create_preserves_inv:
  assumes "ent_inv r" "create_class_entitlement i uuid t r = Inr (e, r')"
    "js_get (en_entitlements r) (create_id i uuid) = None" "create_id i uuid \<noteq> []"
  shows "ent_inv r'"
  using assms(2)
proof (cases rule: create_cases)
  case inserted
  have "ent_inv (snd (insert_entitlement i uuid t r))"
    by (rule insert_preserves_inv [OF assms(1) _ assms(3,4) inserted(2,3)]) (simp add: create_id_def)
  with inserted(1) show ?thesis by (metis snd_conv)
qed (use assms(1) in simp_all)

lemma create_class_entitlement_stored:
  assumes "ent_inv r" "create_class_entitlement i uuid t r = Inr (e, r')"
    "create_id i uuid \<noteq> []"
  shows "js_get (en_entitlements r') (ce_id e) = Some e" "ce_id e \<noteq> []"
proof -
  have "js_get (en_entitlements r') (ce_id e) = Some e \<and> ce_id e \<noteq> []"
    using assms(2)
  proof (cases rule: create_cases)
    case replay_line
    then show ?thesis using assms(1)
      by (auto simp: indexed_entitlement_def ent_inv_def if_truthy_def split: option.splits if_splits)
  next
    case replay_order
    then show ?thesis using assms(1)
      by (auto simp: indexed_entitlement_def ent_inv_def if_truthy_def split: option.splits if_splits)
  next
    case inserted
    then show ?thesis using assms(3)
      by (simp add: insert_entitlement_def Let_def new_entitlement_def create_id_def)
  qed
  then show "js_get (en_entitlements r') (ce_id e) = Some e" "ce_id e \<noteq> []" by auto
qed

section \<open>Reachable stores\<close>

text \<open>
  A run of the repository: creations with a fresh id, status and class changes.  This is the
  interface through which the services change the store.
\<close>

inductive ent_step :: "ent_repo \<Rightarrow> ent_repo \<Rightarrow> bool" where
  ent_create: "create_class_entitlement i uuid t r = Inr (e, r') \<Longrightarrow>
     js_get (en_entitlements r) (create_id i uuid) = None \<Longrightarrow> create_id i uuid \<noteq> [] \<Longrightarrow>
     ent_step r r'"
| ent_update: "update_class_entitlement org eid u expected t r = (res, r') \<Longrightarrow> ent_step r r'"

inductive ent_reachable :: "ent_repo \<Rightarrow> bool" where
  ent_init: "ent_reachable empty_ent_repo"
| ent_next: "ent_reachable r \<Longrightarrow> ent_step r r' \<Longrightarrow> ent_reachable r'"

lemma ent_step_inv: "ent_step r r' \<Longrightarrow> ent_inv r \<Longrightarrow> ent_inv r'"
proof (induction rule: ent_step.induct)
  case (ent_update org eid u expected t r res r')
  then show ?case using update_preserves_inv [of r org eid u expected t] by simp
qed (rule create_preserves_inv)

lemma ent_reachable_inv: "ent_reachable r \<Longrightarrow> ent_inv r"
  by (induction rule: ent_reachable.induct) (auto simp: ent_inv_empty intro: ent_step_inv)

section \<open>The interface other components rely on\<close>

text \<open>
  What a client of \<open>ClassEntitlementRepository\<close> may assume of \<open>getClassEntitlement\<close>,
  \<open>countConfirmedClassEntitlements\<close> and \<open>updateClassEntitlement\<close>: an update is a
  compare-and-set on one record, and it moves the seat counts by that record alone.
\<close>

locale entitlement_store =
  fixes find_one :: "string \<Rightarrow> string \<Rightarrow> 's \<Rightarrow> class_entitlement option"
    and seats :: "string \<Rightarrow> string \<Rightarrow> 's \<Rightarrow> nat"
    and change :: "string \<Rightarrow> string \<Rightarrow> ent_update \<Rightarrow> class_status list option \<Rightarrow> string \<Rightarrow> 's
       \<Rightarrow> class_entitlement option \<times> 's"
    and good :: "'s \<Rightarrow> bool"
  assumes change_found: "good s \<Longrightarrow> change org eid u ex t s = (Some e', s') \<Longrightarrow>
        \<exists>e. find_one org eid s = Some e \<and> e' = apply_update u t e \<and> find_one org eid s' = Some e' \<and>
            (\<forall>k c. seats k c s' + (if seated k c e then 1 else 0)
                 = seats k c s + (if seated k c e' then 1 else 0))"
    and change_other: "good s \<Longrightarrow> change org eid u ex t s = (res, s') \<Longrightarrow> eid' \<noteq> eid \<Longrightarrow>
        find_one org' eid' s' = find_one org' eid' s"
    and change_missing: "change org eid u ex t s = (None, s') \<Longrightarrow> s' = s"
    and change_good: "good s \<Longrightarrow> change org eid u ex t s = (res, s') \<Longrightarrow> good s'"
    and seats_pos: "good s \<Longrightarrow> find_one org eid s = Some e \<Longrightarrow> seated k c e \<Longrightarrow> 0 < seats k c s"
begin

lemma change_obtain:
  assumes "good s" "change org eid u ex t s = (Some e', s')"
  obtains e where "find_one org eid s = Some e" "e' = apply_update u t e" "find_one org eid s' = Some e'"
    "\<And>k c. seats k c s' + (if seated k c e then 1 else 0) = seats k c s + (if seated k c e' then 1 else 0)"
  using change_found [OF assms] by blast

text \<open>An update whose result holds no seat never raises a seat count.\<close>

lemma release_seat:
  assumes "good s" "change org eid u ex t s = (Some e', s')" "ce_status e' \<noteq> Confirmed"
  shows "seats k c s' \<le> seats k c s"
proof -
  obtain e where "seats k c s' + (if seated k c e then 1 else 0) = seats k c s + (if seated k c e' then 1 else 0)"
    using change_obtain [OF assms(1,2)] by metis
  moreover have "\<not> seated k c e'" using assms(3) by (simp add: seated_def)
  ultimately show ?thesis by simp
qed

text \<open>Cancelling a seated record frees exactly one seat, of its own class.\<close>

lemma release_own_seat:
  assumes "good s" "change org eid u ex t s = (Some e', s')" "\<not> seated k c e'"
    "find_one org eid s = Some e" "seated k c e"
  shows "Suc (seats k c s') = seats k c s"
proof -
  obtain e0 where "find_one org eid s = Some e0"
    "seats k c s' + (if seated k c e0 then 1 else 0) = seats k c s + (if seated k c e' then 1 else 0)"
    using change_obtain [OF assms(1,2)] by metis
  with assms(3-5) show ?thesis by simp
qed

text \<open>An update adds at most one seat, and only in the class of its result.\<close>

lemma take_seat:
  assumes "good s" "change org eid u ex t s = (Some e', s')"
  shows "seats k c s' \<le> seats k c s + (if seated k c e' then 1 else 0)"
proof -
  obtain e where "seats k c s' + (if seated k c e then 1 else 0) = seats k c s + (if seated k c e' then 1 else 0)"
    using change_obtain [OF assms] by metis
  then show ?thesis by (simp split: if_splits)
qed

end

lemma count_confirmed_update:
  assumes "js_wf (en_entitlements r)" "update_class_entitlement org eid u ex t r = (Some e', r')"
    "js_get (en_entitlements r) eid = Some e"
  shows "count_confirmed_class_entitlements k c r' + (if seated k c e then 1 else 0)
       = count_confirmed_class_entitlements k c r + (if seated k c e' then 1 else 0)"
  using assms(2)
proof (rule update_Some)
  fix e0
  assume e0: "js_get (en_entitlements r) eid = Some e0" "e' = apply_update u t e0"
    "r' = r\<lparr>en_entitlements := js_modify eid (apply_update u t) (en_entitlements r)\<rparr>"
  with assms(3) count_values_modify [OF assms(1,3), of "seated k c" "apply_update u t"]
  show ?thesis by (simp add: count_confirmed_class_entitlements_def)
qed

interpretation ent_store: entitlement_store
  get_class_entitlement count_confirmed_class_entitlements update_class_entitlement ent_inv
proof unfold_locales
  fix s s' :: ent_repo and org eid t :: string and u ex e'
  assume inv: "ent_inv s" and up: "update_class_entitlement org eid u ex t s = (Some e', s')"
  from up show "\<exists>e. get_class_entitlement org eid s = Some e \<and> e' = apply_update u t e \<and>
      get_class_entitlement org eid s' = Some e' \<and>
      (\<forall>k c. count_confirmed_class_entitlements k c s' + (if seated k c e then 1 else 0)
           = count_confirmed_class_entitlements k c s + (if seated k c e' then 1 else 0))"
  proof (rule update_Some)
    fix e
    assume e: "js_get (en_entitlements s) eid = Some e" "ce_organizationId e = org" "e' = apply_update u t e"
      "s' = s\<lparr>en_entitlements := js_modify eid (apply_update u t) (en_entitlements s)\<rparr>"
    have "js_wf (en_entitlements s)" using inv by (simp add: ent_inv_def)
    from count_confirmed_update [OF this up e(1)] e show ?thesis
      by (simp add: get_class_entitlement_def)
  qed
next
  fix s s' :: ent_repo and org eid t eid' org' :: string and u ex res
  assume "ent_inv s" "update_class_entitlement org eid u ex t s = (res, s')" "eid' \<noteq> eid"
  then show "get_class_entitlement org' eid' s' = get_class_entitlement org' eid' s"
    by (auto simp: update_class_entitlement_def get_class_entitlement_def split: option.splits if_splits)
next
  fix s s' :: ent_repo and org eid t :: string and u ex
  show "update_class_entitlement org eid u ex t s = (None, s') \<Longrightarrow> s' = s" by (rule update_None)
next
  fix s s' :: ent_repo and org eid t :: string and u ex res
  show "ent_inv s \<Longrightarrow> update_class_entitlement org eid u ex t s = (res, s') \<Longrightarrow> ent_inv s'"
    using update_preserves_inv [of s org eid u ex t] by simp
next
  fix s :: ent_repo and org eid k c :: string and e
  show "ent_inv s \<Longrightarrow> get_class_entitlement org eid s = Some e \<Longrightarrow> seated k c e \<Longrightarrow>
      0 < count_confirmed_class_entitlements k c s"
    by (auto simp: get_class_entitlement_def count_confirmed_class_entitlements_def
        split: option.splits if_splits intro: count_values_pos)
qed

section \<open>Properties\<close>

text \<open>
  One entitlement per paid order line.  In every reachable store two entitlements of one
  organization that name the same Shopify order line are the same record.
\<close>
theorem order_line_unique:
  assumes "ent_reachable r"
    and "js_get (en_entitlements r) k1 = Some e1" "js_get (en_entitlements r) k2 = Some e2"
    and "ce_organizationId e1 = ce_organizationId e2" "ce_shopifyOrderLineGid e1 = ce_shopifyOrderLineGid e2"
  shows "k1 = k2 \<and> e1 = e2"
proof -
  have "ent_inv r" by (rule ent_reachable_inv [OF assms(1)])
  then have "Some k1 = Some k2" using assms(2-5) unfolding ent_inv_def by metis
  with assms(2,3) show ?thesis by simp
qed

definition demo_ent_input :: "string \<Rightarrow> string \<Rightarrow> class_entitlement_input" where
  "demo_ent_input line child =
     \<lparr>ci_id = None, ci_organizationId = ''org'', ci_festivalId = ''fest'', ci_festivalClassId = ''c1'',
      ci_parentCustomerId = ''parent'', ci_childId = child, ci_checkoutIntentId = ''intent'',
      ci_checkoutIntentLineId = Some (''il-'' @ line), ci_shopifyOrderGid = ''order'',
      ci_shopifyOrderLineGid = line, ci_paidAmountCents = 3000, ci_paidCurrencyCode = ''USD'',
      ci_status = None, ci_admittedCartReference = None, ci_capacityAtAllocation = Some 2,
      ci_placedCountBeforeAllocation = Some 0, ci_createdAt = None, ci_updatedAt = None\<rparr>"

definition demo_ent_repo :: ent_repo where
  "demo_ent_repo = snd (insert_entitlement (demo_ent_input ''L1'' ''ann'') ''e1'' ''2026-01-01'' empty_ent_repo)"

lemma demo_ent_created:
  "create_class_entitlement (demo_ent_input ''L1'' ''ann'') ''e1'' ''2026-01-01'' empty_ent_repo
     = Inr (new_entitlement (demo_ent_input ''L1'' ''ann'') ''e1'' ''2026-01-01'', demo_ent_repo)"
  by code_simp

lemma demo_ent_reachable: "ent_reachable demo_ent_repo"
proof (rule ent_next [OF ent_init], rule ent_create [OF demo_ent_created])
  show "js_get (en_entitlements empty_ent_repo) (create_id (demo_ent_input ''L1'' ''ann'') ''e1'') = None"
    by code_simp
  show "create_id (demo_ent_input ''L1'' ''ann'') ''e1'' \<noteq> []" by code_simp
qed

theorem order_line_unique_witness:
  "ent_reachable demo_ent_repo \<and> (\<exists>e. js_get (en_entitlements demo_ent_repo) ''e1'' = Some e \<and> e = e)"
proof -
  have g: "js_get (en_entitlements demo_ent_repo) ''e1''
      = Some (new_entitlement (demo_ent_input ''L1'' ''ann'') ''e1'' ''2026-01-01'')" by code_simp
  show ?thesis using order_line_unique [OF demo_ent_reachable g g refl refl] demo_ent_reachable g by blast
qed

text \<open>
  Creating an entitlement is idempotent.  Once a creation has succeeded, repeating it with
  the same input (a replayed webhook, with another UUID and at another time) returns the same
  record and leaves the store as it is.
\<close>
theorem create_class_entitlement_idempotent:
  assumes "ent_inv r" "create_class_entitlement i uuid t r = Inr (e, r')" "create_id i uuid \<noteq> []"
  shows "create_class_entitlement i uuid' t' r' = Inr (e, r')"
proof -
  have valid: "assert_valid_class_entitlement i = Inr ()"
    using assms(2) by (auto simp: create_class_entitlement_def and_then_eq_Inr)
  show ?thesis
    using assms(2)
  proof (cases rule: create_cases)
    case replay_line
    then show ?thesis using valid by (simp add: create_class_entitlement_def)
  next
    case replay_order
    then show ?thesis using valid by (auto simp: create_class_entitlement_def)
  next
    case inserted
    then show ?thesis using valid assms(3)
      by (auto simp: create_class_entitlement_def insert_entitlement_def Let_def indexed_entitlement_def
          if_truthy_def new_entitlement_def create_id_def split: option.splits)
  qed
qed

theorem create_class_entitlement_idempotent_witness:
  "create_class_entitlement (demo_ent_input ''L1'' ''ann'') ''e2'' ''2026-01-02'' demo_ent_repo
     = Inr (new_entitlement (demo_ent_input ''L1'' ''ann'') ''e1'' ''2026-01-01'', demo_ent_repo)"
  by (rule create_class_entitlement_idempotent [OF ent_inv_empty demo_ent_created]) code_simp

lemmas [fest_eval] = get_class_entitlement_def update_class_entitlement_def new_entitlement_def
  class_status_of_def apply_update_def list_class_entitlements_def matches_filter_def any_entitlement_def
  demo_ent_input_def count_confirmed_class_entitlements_def seated_def nul_key_def

end
