(* ===== verification/ChangeRepo.thy ===== *)
theory ChangeRepo
  imports FestPrelude
begin

text \<open>
  \<open>InMemoryRegistrationChangeRepository\<close> of
  \<open>packages/backend/src/registration/registration-change-repository.ts\<close>, with the change and
  refund records of \<open>packages/common/src/registration.ts\<close>: the audit log of drops, transfers
  and promotions, and the refund events they cause.  The string unions \<open>action\<close>,
  \<open>actorRole\<close> and refund \<open>status\<close> are strings here, because the code checks them at run time.
  \<open>localeCompare\<close> is applied to ISO instants and UUIDs only, on which it is the code-unit order.
\<close>

section \<open>Records\<close>

definition is_registration_change_action :: "string \<Rightarrow> bool" where
  "is_registration_change_action v \<longleftrightarrow> v \<in> {''drop'', ''transfer'', ''waitlist_promote'', ''revert''}"

definition is_registration_actor_role :: "string \<Rightarrow> bool" where
  "is_registration_actor_role v \<longleftrightarrow> v \<in> {''customer'', ''admin'', ''system''}"

definition is_refund_event_status :: "string \<Rightarrow> bool" where
  "is_refund_event_status v \<longleftrightarrow> v \<in> {''pending'', ''completed'', ''failed''}"

text \<open>A snapshot \<open>Record<string, unknown>\<close>; every value the code stores is a string or null.\<close>

type_synonym snapshot = "(string \<times> string option) list"

record change_log =
  cl_id :: string
  cl_organizationId :: string
  cl_festivalId :: "string option"
  cl_classEntitlementId :: string
  cl_action :: string
  cl_actorUid :: string
  cl_actorRole :: string
  cl_previousState :: snapshot
  cl_newState :: snapshot
  cl_reason :: "string option"
  cl_createdAt :: string

record change_log_input =
  ki_id :: "string option"
  ki_organizationId :: string
  ki_festivalId :: "string option"
  ki_classEntitlementId :: string
  ki_action :: string
  ki_actorUid :: string
  ki_actorRole :: string
  ki_previousState :: snapshot
  ki_newState :: snapshot
  ki_reason :: "string option"
  ki_createdAt :: "string option"

record refund_event =
  re_id :: string
  re_organizationId :: string
  re_registrationChangeLogId :: "string option"
  re_classEntitlementId :: "string option"
  re_shopifyOrderId :: "string option"
  re_shopifyOrderLineId :: "string option"
  re_shopifyRefundId :: "string option"
  re_amountCents :: int
  re_currency :: string
  re_status :: string
  re_failureReason :: "string option"
  re_createdAt :: string
  re_updatedAt :: string

record refund_event_input =
  ri_id :: "string option"
  ri_organizationId :: string
  ri_registrationChangeLogId :: "string option"
  ri_classEntitlementId :: "string option"
  ri_shopifyOrderId :: "string option"
  ri_shopifyOrderLineId :: "string option"
  ri_shopifyRefundId :: "string option"
  ri_amountCents :: int
  ri_currency :: "string option"
  ri_status :: "string option"
  ri_failureReason :: "string option"
  ri_createdAt :: "string option"
  ri_updatedAt :: "string option"

text \<open>The optional nullable fields of an update: absent, \<open>null\<close> or a string.\<close>

record refund_update =
  ru_id :: string
  ru_organizationId :: "string option"
  ru_status :: string
  ru_shopifyRefundId :: "string option option"
  ru_failureReason :: "string option option"

text \<open>The three call forms of \<open>updateRefundEventStatus\<close>.\<close>

datatype refund_update_args =
    UpdateObject refund_update
  | UpdatePositional string "string option" "string option" "string option"

record change_repo =
  ch_changeLogs :: "(string, change_log) js_map"
  ch_refundEvents :: "(string, refund_event) js_map"

definition empty_change_repo :: change_repo where
  "empty_change_repo = \<lparr>ch_changeLogs = [], ch_refundEvents = []\<rparr>"

section \<open>Operations\<close>

definition new_change_log :: "change_log_input \<Rightarrow> string \<Rightarrow> string \<Rightarrow> change_log" where
  "new_change_log i uuid now_iso =
     \<lparr>cl_id = (case ki_id i of None \<Rightarrow> uuid | Some x \<Rightarrow> x),
      cl_organizationId = ki_organizationId i,
      cl_festivalId = ki_festivalId i,
      cl_classEntitlementId = ki_classEntitlementId i,
      cl_action = ki_action i,
      cl_actorUid = ki_actorUid i,
      cl_actorRole = ki_actorRole i,
      cl_previousState = ki_previousState i,
      cl_newState = ki_newState i,
      cl_reason = ki_reason i,
      cl_createdAt = (case ki_createdAt i of None \<Rightarrow> now_iso | Some t \<Rightarrow> t)\<rparr>"

definition create_change_log ::
    "change_log_input \<Rightarrow> string \<Rightarrow> string \<Rightarrow> change_repo \<Rightarrow> change_log outcome \<times> change_repo" where
  "create_change_log i uuid now_iso r =
     (if \<not> is_registration_change_action (ki_action i)
      then (Inl (PlainError ''Registration change action is invalid.''), r)
      else if \<not> is_registration_actor_role (ki_actorRole i)
      then (Inl (PlainError ''Registration actor role is invalid.''), r)
      else let log = new_change_log i uuid now_iso
           in (Inr log, r\<lparr>ch_changeLogs := js_set (cl_id log) log (ch_changeLogs r)\<rparr>))"

text \<open>Newest first, then by id descending.\<close>

definition list_change_logs_for_entitlement :: "string option \<Rightarrow> string \<Rightarrow> change_repo \<Rightarrow> change_log list" where
  "list_change_logs_for_entitlement org eid r =
     js_sort_desc (\<lambda>l. (cl_createdAt l, cl_id l))
       (filter (\<lambda>l. cl_classEntitlementId l = eid \<and> (truthy org \<longrightarrow> Some (cl_organizationId l) = org))
         (js_values (ch_changeLogs r)))"

definition new_refund_event :: "refund_event_input \<Rightarrow> string \<Rightarrow> string \<Rightarrow> string \<Rightarrow> refund_event" where
  "new_refund_event i status uuid now_iso =
     \<lparr>re_id = (case ri_id i of None \<Rightarrow> uuid | Some x \<Rightarrow> x),
      re_organizationId = ri_organizationId i,
      re_registrationChangeLogId = ri_registrationChangeLogId i,
      re_classEntitlementId = ri_classEntitlementId i,
      re_shopifyOrderId = ri_shopifyOrderId i,
      re_shopifyOrderLineId = ri_shopifyOrderLineId i,
      re_shopifyRefundId = ri_shopifyRefundId i,
      re_amountCents = ri_amountCents i,
      re_currency = (case ri_currency i of None \<Rightarrow> ''USD'' | Some c \<Rightarrow> c),
      re_status = status,
      re_failureReason = ri_failureReason i,
      re_createdAt = (case ri_createdAt i of None \<Rightarrow> now_iso | Some t \<Rightarrow> t),
      re_updatedAt = (case ri_updatedAt i of None \<Rightarrow> now_iso | Some t \<Rightarrow> t)\<rparr>"

definition create_refund_event ::
    "refund_event_input \<Rightarrow> string \<Rightarrow> string \<Rightarrow> change_repo \<Rightarrow> refund_event outcome \<times> change_repo" where
  "create_refund_event i uuid now_iso r =
     (let status = (case ri_status i of None \<Rightarrow> ''pending'' | Some s \<Rightarrow> s) in
      if \<not> is_refund_event_status status
      then (Inl (PlainError ''Refund event status is invalid.''), r)
      else let ev = new_refund_event i status uuid now_iso
           in (Inr ev, r\<lparr>ch_refundEvents := js_set (re_id ev) ev (ch_refundEvents r)\<rparr>))"

definition get_refund_event :: "string option \<Rightarrow> string \<Rightarrow> change_repo \<Rightarrow> refund_event option" where
  "get_refund_event org eid r =
     (case js_get (ch_refundEvents r) eid of
        None \<Rightarrow> None
      | Some ev \<Rightarrow> if truthy org \<and> Some (re_organizationId ev) \<noteq> org then None else Some ev)"

definition normalize_update_refund_event_input :: "refund_update_args \<Rightarrow> refund_update outcome" where
  "normalize_update_refund_event_input a =
     (case a of
        UpdateObject u \<Rightarrow> Inr u
      | UpdatePositional first snd_arg third fourth \<Rightarrow>
          (case (snd_arg, third) of
             (Some s, third) \<Rightarrow>
               if is_refund_event_status s
               then Inr \<lparr>ru_id = first, ru_organizationId = None, ru_status = s,
                         ru_shopifyRefundId = None, ru_failureReason = Some third\<rparr>
               else (case third of
                       Some st \<Rightarrow> Inr \<lparr>ru_id = s, ru_organizationId = Some first, ru_status = st,
                                    ru_shopifyRefundId = None, ru_failureReason = Some fourth\<rparr>
                     | None \<Rightarrow> Inl (PlainError ''Invalid arguments for updateRefundEventStatus.''))
           | (None, _) \<Rightarrow> Inl (PlainError ''Invalid arguments for updateRefundEventStatus.'')))"

definition apply_refund_update :: "refund_update \<Rightarrow> string \<Rightarrow> refund_event \<Rightarrow> refund_event" where
  "apply_refund_update u now_iso ev =
     ev\<lparr>re_status := ru_status u,
        re_shopifyRefundId := (case ru_shopifyRefundId u of None \<Rightarrow> re_shopifyRefundId ev | Some x \<Rightarrow> x),
        re_failureReason := (case ru_failureReason u of None \<Rightarrow> re_failureReason ev | Some x \<Rightarrow> x),
        re_updatedAt := now_iso\<rparr>"

definition update_refund_event_status ::
    "refund_update_args \<Rightarrow> string \<Rightarrow> change_repo \<Rightarrow> refund_event option outcome \<times> change_repo" where
  "update_refund_event_status a now_iso r =
     (case normalize_update_refund_event_input a of
        Inl e \<Rightarrow> (Inl e, r)
      | Inr u \<Rightarrow>
          if \<not> is_refund_event_status (ru_status u)
          then (Inl (PlainError ''Refund event status is invalid.''), r)
          else (case js_get (ch_refundEvents r) (ru_id u) of
                  None \<Rightarrow> (Inr None, r)
                | Some ev \<Rightarrow>
                    if truthy (ru_organizationId u) \<and> Some (re_organizationId ev) \<noteq> ru_organizationId u
                    then (Inr None, r)
                    else (Inr (Some (apply_refund_update u now_iso ev)),
                          r\<lparr>ch_refundEvents := js_modify (ru_id u) (apply_refund_update u now_iso)
                             (ch_refundEvents r)\<rparr>)))"

section \<open>Lemmas\<close>

lemma create_change_log_Inr:
  assumes "create_change_log i uuid t r = (Inr log, r')"
  shows "log = new_change_log i uuid t" "is_registration_change_action (ki_action i)"
    "is_registration_actor_role (ki_actorRole i)"
    "r' = r\<lparr>ch_changeLogs := js_set (cl_id log) log (ch_changeLogs r)\<rparr>"
  using assms by (auto simp: create_change_log_def Let_def split: if_splits)

lemma create_change_log_refunds [simp]:
  "ch_refundEvents (snd (create_change_log i uuid t r)) = ch_refundEvents r"
  by (simp add: create_change_log_def Let_def)

lemma create_refund_event_logs [simp]:
  "ch_changeLogs (snd (create_refund_event i uuid t r)) = ch_changeLogs r"
  by (simp add: create_refund_event_def Let_def)

lemma update_refund_event_logs [simp]:
  "ch_changeLogs (snd (update_refund_event_status a t r)) = ch_changeLogs r"
  by (auto simp: update_refund_event_status_def split: sum.splits option.splits)

text \<open>
  What a client of the change repository relies on: a written change log and a written refund
  event are found again, and an update of a refund event keeps its amount and its order line.
\<close>

locale change_store =
  fixes add_log :: "change_log_input \<Rightarrow> string \<Rightarrow> string \<Rightarrow> 's \<Rightarrow> change_log outcome \<times> 's"
    and logs_of :: "string option \<Rightarrow> string \<Rightarrow> 's \<Rightarrow> change_log list"
    and add_refund :: "refund_event_input \<Rightarrow> string \<Rightarrow> string \<Rightarrow> 's \<Rightarrow> refund_event outcome \<times> 's"
    and find_refund :: "string option \<Rightarrow> string \<Rightarrow> 's \<Rightarrow> refund_event option"
    and set_refund :: "refund_update_args \<Rightarrow> string \<Rightarrow> 's \<Rightarrow> refund_event option outcome \<times> 's"
  assumes log_listed: "add_log i uuid t s = (Inr log, s') \<Longrightarrow>
      log \<in> set (logs_of (Some (cl_organizationId log)) (cl_classEntitlementId log) s')"
    and refund_found: "add_refund ri uuid t s = (Inr ev, s') \<Longrightarrow> find_refund None (re_id ev) s' = Some ev"
    and refund_set: "set_refund (UpdateObject u) t s = (Inr (Some ev'), s') \<Longrightarrow>
      \<exists>ev. find_refund None (ru_id u) s = Some ev \<and> ev' = apply_refund_update u t ev \<and>
           find_refund None (ru_id u) s' = Some ev'"
begin

lemma refund_update_frame:
  assumes "set_refund (UpdateObject u) t s = (Inr (Some ev'), s')"
  obtains ev where "find_refund None (ru_id u) s = Some ev" "re_amountCents ev' = re_amountCents ev"
    "re_shopifyOrderLineId ev' = re_shopifyOrderLineId ev" "re_status ev' = ru_status u"
proof -
  from refund_set [OF assms] obtain ev where "find_refund None (ru_id u) s = Some ev"
    "ev' = apply_refund_update u t ev" by blast
  then show ?thesis using that by (simp add: apply_refund_update_def)
qed

lemma created_then_set:
  assumes "add_refund ri uuid t s = (Inr ev, s')" "set_refund (UpdateObject u) t' s' = (Inr (Some ev'), s'')"
    "ru_id u = re_id ev"
  shows "ev' = apply_refund_update u t' ev"
  using refund_found [OF assms(1)] refund_set [OF assms(2)] assms(3) by auto

end

interpretation chg: change_store create_change_log list_change_logs_for_entitlement
  create_refund_event get_refund_event update_refund_event_status
proof unfold_locales
  fix i uuid t s log s'
  assume "create_change_log i uuid t s = (Inr log, s')"
  note c = create_change_log_Inr [OF this]
  have "log \<in> set (js_values (ch_changeLogs s'))"
    using c(4) by (auto intro: js_get_Some_values [of _ "cl_id log"])
  then show "log \<in> set (list_change_logs_for_entitlement (Some (cl_organizationId log))
      (cl_classEntitlementId log) s')"
    by (simp add: list_change_logs_for_entitlement_def)
next
  fix ri uuid t s ev s'
  assume "create_refund_event ri uuid t s = (Inr ev, s')"
  then show "get_refund_event None (re_id ev) s' = Some ev"
    by (auto simp: create_refund_event_def Let_def get_refund_event_def split: if_splits)
next
  fix u t s ev' s'
  assume "update_refund_event_status (UpdateObject u) t s = (Inr (Some ev'), s')"
  then show "\<exists>ev. get_refund_event None (ru_id u) s = Some ev \<and> ev' = apply_refund_update u t ev \<and>
      get_refund_event None (ru_id u) s' = Some ev'"
    by (auto simp: update_refund_event_status_def normalize_update_refund_event_input_def
        get_refund_event_def split: option.splits if_splits)
qed

lemmas [fest_eval] = is_registration_change_action_def is_registration_actor_role_def
  is_refund_event_status_def create_change_log_def new_change_log_def create_refund_event_def
  new_refund_event_def update_refund_event_status_def normalize_update_refund_event_input_def
  apply_refund_update_def empty_change_repo_def

end
