(* ===== verification/PurchaseEligibility.thy ===== *)
theory PurchaseEligibility
  imports EntitlementModel
begin

text \<open>
  \<open>packages/common/src/purchase-eligibility.ts\<close> with the class configuration and
  capacity status of \<open>packages/common/src/organization.ts\<close>: whether each line of a
  proposed purchase may be bought, in \<open>cart\<close> mode (the whole cart is bought together)
  and in \<open>advisory\<close> mode (candidate lines are each judged on top of the cart).  Objects of
  the input are identified by their position in \<open>items\<close>.
\<close>

section \<open>Data\<close>

datatype availability = Open | Waitlist

record class_config =
  fc_id :: string
  fc_organizationId :: string
  fc_festivalId :: string
  fc_displayName :: string
  fc_classSubtypeId :: string
  fc_divisionId :: string
  fc_minimumAge :: int
  fc_maximumAge :: int
  fc_price :: string
  fc_maximumPerformancePieces :: int
  fc_performanceMinutes :: int
  fc_capacity :: "int option"
  fc_isActive :: bool

record catalog_value =
  cv_id :: string
  cv_organizationId :: string
  cv_displayName :: string
  cv_isActive :: bool
  cv_displayOrder :: int
  cv_requiredSubtypeId :: "string option"

record capacity_status =
  cs_capacity :: int
  cs_placedCount :: int
  cs_remainingSpots :: int
  cs_isOverCapacity :: bool
  cs_availability :: availability

definition evaluate_class_capacity_status :: "int \<Rightarrow> int \<Rightarrow> capacity_status" where
  "evaluate_class_capacity_status capacity placed =
     \<lparr>cs_capacity = capacity, cs_placedCount = placed,
      cs_remainingSpots = max 0 (capacity - placed),
      cs_isOverCapacity = (placed > capacity),
      cs_availability = (if placed \<ge> capacity then Waitlist else Open)\<rparr>"

datatype reason_code =
  AVAILABLE | ALREADY_REGISTERED | MISSING_PREREQUISITE | REGISTRATION_CLOSED
| CLASS_NOT_AVAILABLE | SOLD_OUT

datatype satisfied_by = ByEntitlement | ByProposedItem

record dependency =
  dp_requiredSubtypeId :: string
  dp_requiredSubtypeName :: "string option"
  dp_divisionId :: string
  dp_minimumAge :: int
  dp_maximumAge :: int
  dp_classSubtypeId :: string
  dp_festivalClassId :: string
  dp_satisfiedBy :: "satisfied_by option"
  dp_sourceFestivalClassId :: "string option"
  dp_sourceLineItemId :: "string option"

record line_item =
  it_id :: "string option"
  it_childId :: string
  it_festivalClassId :: string
  it_isCandidate :: bool

record eligibility_result =
  er_childId :: string
  er_festivalClassId :: string
  er_eligible :: bool
  er_isEligible :: bool
  er_reasonCode :: reason_code
  er_message :: string
  er_availability :: "availability option"
  er_capacity :: "int option"
  er_placedCount :: "int option"
  er_dependencyDescriptor :: "dependency option"
  er_missingPrerequisite :: "dependency option"
  er_satisfiedPrerequisites :: "dependency list option"
  er_lineItemId :: "string option"

datatype eligibility_mode = CartMode | AdvisoryMode

text \<open>\<open>classes\<close> is a \<open>Map\<close> by class ID or an array.\<close>

datatype class_lookup = ClassMap "(string, class_config) js_map" | ClassList "class_config list"

record eligibility_input =
  ei_organizationId :: string
  ei_festivalId :: string
  ei_items :: "line_item list"
  ei_classes :: class_lookup
  ei_subtypes :: "catalog_value list"
  ei_activeEntitlements :: "class_entitlement list"
  ei_isRegistrationOpen :: "bool option"
  ei_mode :: "eligibility_mode option"

record eligibility_response =
  rs_isEligible :: bool
  rs_results :: "eligibility_result list"

record eval_ctx =
  cx_organizationId :: string
  cx_festivalId :: string
  cx_isRegistrationOpen :: bool
  cx_classesMap :: "(string, class_config) js_map"
  cx_subtypesMap :: "(string, catalog_value) js_map"
  cx_activeEntitlements :: "class_entitlement list"
  cx_items :: "line_item list"

section \<open>Lookup maps and entitlement tests\<close>

fun normalize_classes_into :: "(string, class_config) js_map \<Rightarrow> class_config list \<Rightarrow> (string, class_config) js_map" where
  "normalize_classes_into m [] = m"
| "normalize_classes_into m (c # cs) = normalize_classes_into (js_set (fc_id c) c m) cs"

fun normalize_classes :: "class_lookup \<Rightarrow> (string, class_config) js_map" where
  "normalize_classes (ClassMap m) = m"
| "normalize_classes (ClassList cs) = normalize_classes_into [] cs"

fun normalize_subtypes_into :: "(string, catalog_value) js_map \<Rightarrow> catalog_value list \<Rightarrow> (string, catalog_value) js_map" where
  "normalize_subtypes_into m [] = m"
| "normalize_subtypes_into m (c # cs) = normalize_subtypes_into (js_set (cv_id c) c m) cs"

definition normalize_subtypes :: "catalog_value list \<Rightarrow> (string, catalog_value) js_map" where
  "normalize_subtypes cs = normalize_subtypes_into [] cs"

definition is_active_entitlement :: "class_status \<Rightarrow> bool" where
  "is_active_entitlement s \<longleftrightarrow> s \<noteq> Cancelled \<and> s \<noteq> ClassRevoked"

definition is_placed_entitlement :: "class_status \<Rightarrow> bool" where
  "is_placed_entitlement s \<longleftrightarrow> s = Confirmed"

definition count_placed_entitlements_for_class ::
    "class_entitlement list \<Rightarrow> string \<Rightarrow> string \<Rightarrow> string \<Rightarrow> nat" where
  "count_placed_entitlements_for_class es org fest cls =
     length (filter (\<lambda>e. ce_organizationId e = org \<and> ce_festivalId e = fest \<and>
                         ce_festivalClassId e = cls \<and> is_placed_entitlement (ce_status e)) es)"

definition matches_division_and_age :: "class_config \<Rightarrow> class_config \<Rightarrow> bool" where
  "matches_division_and_age c t \<longleftrightarrow>
     fc_divisionId c = fc_divisionId t \<and> fc_minimumAge c = fc_minimumAge t \<and>
     fc_maximumAge c = fc_maximumAge t"

definition has_entitlement_prerequisite :: "class_config \<Rightarrow> string \<Rightarrow> string \<Rightarrow> eval_ctx \<Rightarrow> bool" where
  "has_entitlement_prerequisite target required child ctx =
     list_ex (\<lambda>e.
       if ce_organizationId e \<noteq> cx_organizationId ctx \<or> ce_festivalId e \<noteq> cx_festivalId ctx \<or>
          ce_childId e \<noteq> child \<or> ce_status e \<noteq> Confirmed
       then False
       else (case js_get (cx_classesMap ctx) (ce_festivalClassId e) of
               None \<Rightarrow> False
             | Some p \<Rightarrow> fc_classSubtypeId p = required \<and> matches_division_and_age p target))
       (cx_activeEntitlements ctx)"

text \<open>The test that another line of the purchase provides the required subtype.\<close>

definition provides_prerequisite :: "class_config \<Rightarrow> string \<Rightarrow> string \<Rightarrow> eval_ctx \<Rightarrow> line_item \<Rightarrow> bool" where
  "provides_prerequisite target required child ctx other =
     (if it_childId other \<noteq> child then False
      else (case js_get (cx_classesMap ctx) (it_festivalClassId other) of
              None \<Rightarrow> False
            | Some c \<Rightarrow>
                if \<not> fc_isActive c then False
                else if fc_organizationId c \<noteq> cx_organizationId ctx \<or> fc_festivalId c \<noteq> cx_festivalId ctx
                then False
                else fc_classSubtypeId c = required \<and> matches_division_and_age c target))"

definition has_proposed_item_prerequisite ::
    "class_config \<Rightarrow> string \<Rightarrow> string \<Rightarrow> nat \<Rightarrow> eval_ctx \<Rightarrow> bool" where
  "has_proposed_item_prerequisite target required child index ctx =
     list_ex (\<lambda>j. j \<noteq> index \<and> provides_prerequisite target required child ctx (cx_items ctx ! j))
       [0..<length (cx_items ctx)]"

definition build_dependency_descriptor :: "class_config \<Rightarrow> string \<Rightarrow> eval_ctx \<Rightarrow> dependency" where
  "build_dependency_descriptor target required ctx =
     \<lparr>dp_requiredSubtypeId = required,
      dp_requiredSubtypeName = map_option cv_displayName (js_get (cx_subtypesMap ctx) required),
      dp_divisionId = fc_divisionId target,
      dp_minimumAge = fc_minimumAge target,
      dp_maximumAge = fc_maximumAge target,
      dp_classSubtypeId = fc_classSubtypeId target,
      dp_festivalClassId = fc_id target,
      dp_satisfiedBy = None, dp_sourceFestivalClassId = None, dp_sourceLineItemId = None\<rparr>"

section \<open>Judging one line\<close>

text \<open>A result with the fields every early return sets.\<close>

definition basic_result :: "line_item \<Rightarrow> bool \<Rightarrow> reason_code \<Rightarrow> string \<Rightarrow> eligibility_result" where
  "basic_result item ok reason msg =
     \<lparr>er_childId = it_childId item, er_festivalClassId = it_festivalClassId item,
      er_eligible = ok, er_isEligible = ok, er_reasonCode = reason, er_message = msg,
      er_availability = None, er_capacity = None, er_placedCount = None,
      er_dependencyDescriptor = None, er_missingPrerequisite = None,
      er_satisfiedPrerequisites = None, er_lineItemId = if_truthy (it_id item)\<rparr>"

record capacity_metadata =
  cm_availability :: availability
  cm_capacity :: int
  cm_placedCount :: int

text \<open>The spread \<open>...(capacityMetadata ?? {})\<close>.\<close>

definition with_capacity :: "capacity_metadata option \<Rightarrow> eligibility_result \<Rightarrow> eligibility_result" where
  "with_capacity md r =
     (case md of
        None \<Rightarrow> r
      | Some m \<Rightarrow> r\<lparr>er_availability := Some (cm_availability m), er_capacity := Some (cm_capacity m),
                    er_placedCount := Some (cm_placedCount m)\<rparr>)"

definition check_duplicate_registration :: "line_item \<Rightarrow> nat \<Rightarrow> eval_ctx \<Rightarrow> eligibility_result option" where
  "check_duplicate_registration item index ctx =
     (if list_ex (\<lambda>e. ce_childId e = it_childId item \<and> ce_festivalClassId e = it_festivalClassId item \<and>
                      is_active_entitlement (ce_status e)) (cx_activeEntitlements ctx)
      then Some (basic_result item False ALREADY_REGISTERED
                   ''Performer is already registered for this class.'')
      else if list_ex (\<lambda>prev. it_childId prev = it_childId item \<and>
                              it_festivalClassId prev = it_festivalClassId item)
                (take index (cx_items ctx))
      then Some (basic_result item False ALREADY_REGISTERED
                   ''Duplicate class registration for the same performer in this request.'')
      else None)"

definition class_placed_count :: "class_config \<Rightarrow> eval_ctx \<Rightarrow> int" where
  "class_placed_count target ctx =
     int (length (filter (\<lambda>e. ce_festivalClassId e = fc_id target \<and> is_placed_entitlement (ce_status e))
                    (cx_activeEntitlements ctx)))"

definition get_class_capacity_metadata :: "class_config \<Rightarrow> eval_ctx \<Rightarrow> capacity_metadata option" where
  "get_class_capacity_metadata target ctx =
     (case fc_capacity target of
        None \<Rightarrow> None
      | Some cap \<Rightarrow>
          (let active_count = class_placed_count target ctx
           in Some \<lparr>cm_availability = (if cap \<le> 0 \<or> active_count \<ge> cap then Waitlist else Open),
                    cm_capacity = cap, cm_placedCount = active_count\<rparr>))"

definition items_ahead :: "class_config \<Rightarrow> nat \<Rightarrow> eval_ctx \<Rightarrow> int" where
  "items_ahead target index ctx =
     int (length (filter (\<lambda>prev. it_festivalClassId prev = fc_id target) (take index (cx_items ctx))))"

definition check_capacity_sold_out ::
    "class_config \<Rightarrow> line_item \<Rightarrow> nat \<Rightarrow> eval_ctx \<Rightarrow> eligibility_result option" where
  "check_capacity_sold_out target item index ctx =
     (case get_class_capacity_metadata target ctx of
        None \<Rightarrow> None
      | Some md \<Rightarrow>
          if cm_capacity md \<le> 0 \<or> cm_placedCount md + items_ahead target index ctx \<ge> cm_capacity md
          then Some ((basic_result item False SOLD_OUT ''Class capacity is full.'')
                 \<lparr>er_availability := Some Waitlist, er_capacity := Some (cm_capacity md),
                  er_placedCount := Some (cm_placedCount md)\<rparr>)
          else None)"

text \<open>The list of satisfied prerequisites: the entitlement first, then the lines in order.\<close>

definition satisfied_list ::
    "class_config \<Rightarrow> string \<Rightarrow> line_item \<Rightarrow> nat \<Rightarrow> eval_ctx \<Rightarrow> dependency \<Rightarrow> dependency list" where
  "satisfied_list target required item index ctx descriptor =
     (if has_entitlement_prerequisite target required (it_childId item) ctx
      then [descriptor\<lparr>dp_satisfiedBy := Some ByEntitlement\<rparr>] else [])
     @ (if has_proposed_item_prerequisite target required (it_childId item) index ctx
        then map (\<lambda>j. descriptor\<lparr>dp_satisfiedBy := Some ByProposedItem,
                        dp_sourceFestivalClassId := Some (it_festivalClassId (cx_items ctx ! j)),
                        dp_sourceLineItemId := it_id (cx_items ctx ! j)\<rparr>)
               (filter (\<lambda>j. j \<noteq> index \<and>
                  provides_prerequisite target required (it_childId item) ctx (cx_items ctx ! j))
                  [0..<length (cx_items ctx)])
        else [])"

text \<open>\<open>subtype?.requiredSubtypeId?.trim()\<close>, kept only when it is not empty.\<close>

definition required_subtype :: "class_config \<Rightarrow> eval_ctx \<Rightarrow> string option" where
  "required_subtype target ctx =
     (case js_get (cx_subtypesMap ctx) (fc_classSubtypeId target) of
        None \<Rightarrow> None
      | Some st \<Rightarrow> if_truthy (map_option js_trim (cv_requiredSubtypeId st)))"

definition missing_prerequisite_message :: "dependency \<Rightarrow> string" where
  "missing_prerequisite_message d =
     ''Missing prerequisite: class requires subtype \"'' @
     (case dp_requiredSubtypeName d of Some n \<Rightarrow> n | None \<Rightarrow> dp_requiredSubtypeId d) @
     ''\" in the same division and age group.''"

definition available_result ::
    "line_item \<Rightarrow> capacity_metadata option \<Rightarrow> dependency option \<Rightarrow> dependency list \<Rightarrow> eligibility_result" where
  "available_result item md dep sat =
     (with_capacity md (basic_result item True AVAILABLE ''Class is available for registration.''))
       \<lparr>er_dependencyDescriptor := dep,
        er_satisfiedPrerequisites := (if sat \<noteq> [] then Some sat else None)\<rparr>"

definition find_valid_target :: "line_item \<Rightarrow> eval_ctx \<Rightarrow> class_config option" where
  "find_valid_target item ctx =
     (case js_get (cx_classesMap ctx) (it_festivalClassId item) of
        None \<Rightarrow> None
      | Some c \<Rightarrow> if fc_isActive c \<and> fc_organizationId c = cx_organizationId ctx \<and>
                      fc_festivalId c = cx_festivalId ctx then Some c else None)"

definition evaluate_item_eligibility :: "line_item \<Rightarrow> nat \<Rightarrow> eval_ctx \<Rightarrow> eligibility_result" where
  "evaluate_item_eligibility item index ctx =
     (let valid_target = find_valid_target item ctx;
          md = (case valid_target of None \<Rightarrow> None | Some c \<Rightarrow> get_class_capacity_metadata c ctx)
      in if \<not> cx_isRegistrationOpen ctx
         then with_capacity md
                (basic_result item False REGISTRATION_CLOSED ''Registration is closed for this festival.'')
         else (case valid_target of
             None \<Rightarrow> basic_result item False CLASS_NOT_AVAILABLE ''Class is not available or inactive.''
           | Some target \<Rightarrow>
             (case check_duplicate_registration item index ctx of
                Some dup \<Rightarrow> with_capacity md dup
              | None \<Rightarrow>
                (case required_subtype target ctx of
                   Some required \<Rightarrow>
                     (let descriptor = build_dependency_descriptor target required ctx
                      in if \<not> has_entitlement_prerequisite target required (it_childId item) ctx \<and>
                            \<not> has_proposed_item_prerequisite target required (it_childId item) index ctx
                         then (with_capacity md (basic_result item False MISSING_PREREQUISITE
                                 (missing_prerequisite_message descriptor)))
                                \<lparr>er_dependencyDescriptor := Some descriptor,
                                 er_missingPrerequisite := Some descriptor\<rparr>
                         else (case check_capacity_sold_out target item index ctx of
                                 Some sold_out \<Rightarrow> sold_out
                               | None \<Rightarrow> available_result item md (Some descriptor)
                                           (satisfied_list target required item index ctx descriptor)))
                 | None \<Rightarrow>
                     (case check_capacity_sold_out target item index ctx of
                        Some sold_out \<Rightarrow> sold_out
                      | None \<Rightarrow> available_result item md None [])))))"

section \<open>Candidate lines\<close>

definition has_candidate_prefix :: "string \<Rightarrow> bool" where
  "has_candidate_prefix s \<longleftrightarrow>
     take 10 s = ''candidate:'' \<or> take 10 s = ''candidate_'' \<or> take 10 s = ''candidate-''"

definition is_candidate_line_item :: "line_item \<Rightarrow> bool" where
  "is_candidate_line_item item \<longleftrightarrow>
     it_isCandidate item \<or>
     (case it_id item of None \<Rightarrow> False | Some s \<Rightarrow> has_candidate_prefix s)"

definition strip_candidate_marker :: "'a line_item_scheme \<Rightarrow> 'a line_item_scheme" where
  "strip_candidate_marker item =
     item\<lparr>it_isCandidate := False,
          it_id := (case it_id item of
                      None \<Rightarrow> None
                    | Some s \<Rightarrow> if has_candidate_prefix s
                                then (if drop 10 s = [] then None else Some (drop 10 s))
                                else Some s)\<rparr>"

section \<open>Judging a purchase\<close>

definition base_ctx :: "eligibility_input \<Rightarrow> line_item list \<Rightarrow> eval_ctx" where
  "base_ctx input items =
     \<lparr>cx_organizationId = ei_organizationId input, cx_festivalId = ei_festivalId input,
      cx_isRegistrationOpen = (ei_isRegistrationOpen input \<noteq> Some False),
      cx_classesMap = normalize_classes (ei_classes input),
      cx_subtypesMap = normalize_subtypes (ei_subtypes input),
      cx_activeEntitlements = ei_activeEntitlements input,
      cx_items = items\<rparr>"

definition evaluate_items :: "line_item list \<Rightarrow> eval_ctx \<Rightarrow> eligibility_result list" where
  "evaluate_items items ctx =
     map (\<lambda>i. evaluate_item_eligibility (items ! i) i ctx) [0..<length items]"

definition evaluate_cart_purchase_eligibility :: "eligibility_input \<Rightarrow> eligibility_response" where
  "evaluate_cart_purchase_eligibility input =
     (let cart_items = map strip_candidate_marker (ei_items input);
          ctx = base_ctx input cart_items;
          results = evaluate_items cart_items ctx
      in \<lparr>rs_isEligible = (cx_isRegistrationOpen ctx \<and>
             list_all (\<lambda>r. er_reasonCode r = AVAILABLE \<and> er_isEligible r) results),
          rs_results = results\<rparr>)"

text \<open>
  \<open>cartItems.indexOf(item)\<close>: the position of the object among the lines that are not
  candidates, which is the number of such lines before it.
\<close>

definition cart_position :: "line_item list \<Rightarrow> nat \<Rightarrow> nat" where
  "cart_position items i = length (filter (\<lambda>x. \<not> is_candidate_line_item x) (take i items))"

definition advisory_result :: "eligibility_input \<Rightarrow> nat \<Rightarrow> eligibility_result" where
  "advisory_result input i =
     (let items = ei_items input; item = items ! i;
          cart_items = filter (\<lambda>x. \<not> is_candidate_line_item x) items
      in if is_candidate_line_item item
         then evaluate_item_eligibility item (length cart_items) (base_ctx input (cart_items @ [item]))
         else evaluate_item_eligibility item (cart_position items i) (base_ctx input cart_items))"

definition evaluate_advisory_candidate_eligibility :: "eligibility_input \<Rightarrow> eligibility_response" where
  "evaluate_advisory_candidate_eligibility input =
     (let items = ei_items input; ctx = base_ctx input items
      in if \<not> list_ex is_candidate_line_item items
         then (let results = evaluate_items items ctx
               in \<lparr>rs_isEligible = (cx_isRegistrationOpen ctx \<and>
                      list_all (\<lambda>r. er_reasonCode r = AVAILABLE) results),
                   rs_results = results\<rparr>)
         else (let results = map (advisory_result input) [0..<length items];
                   non_candidates = map (advisory_result input)
                     (filter (\<lambda>i. \<not> is_candidate_line_item (items ! i)) [0..<length items])
               in \<lparr>rs_isEligible = (cx_isRegistrationOpen ctx \<and>
                      (if non_candidates \<noteq> []
                       then list_all (\<lambda>r. er_reasonCode r = AVAILABLE) non_candidates
                       else list_all (\<lambda>r. er_reasonCode r = AVAILABLE) results)),
                   rs_results = results\<rparr>))"

definition evaluate_purchase_eligibility :: "eligibility_input \<Rightarrow> eligibility_response" where
  "evaluate_purchase_eligibility input =
     (if ei_mode input = Some AdvisoryMode
      then evaluate_advisory_candidate_eligibility input
      else evaluate_cart_purchase_eligibility input)"

section \<open>Lemmas\<close>

lemma reason_basic [simp]:
  "er_reasonCode (basic_result item ok reason msg) = reason"
  "er_isEligible (basic_result item ok reason msg) = ok"
  "er_eligible (basic_result item ok reason msg) = ok"
  by (simp_all add: basic_result_def)

lemma reason_with_capacity [simp]:
  "er_reasonCode (with_capacity md r) = er_reasonCode r"
  "er_isEligible (with_capacity md r) = er_isEligible r"
  "er_eligible (with_capacity md r) = er_eligible r"
  by (simp_all add: with_capacity_def split: option.split)

lemma reason_available [simp]:
  "er_reasonCode (available_result item md dep sat) = AVAILABLE"
  "er_isEligible (available_result item md dep sat)"
  "er_eligible (available_result item md dep sat)"
  by (simp_all add: available_result_def)

lemma duplicate_reason:
  "check_duplicate_registration item i ctx = Some r \<Longrightarrow>
     er_reasonCode r = ALREADY_REGISTERED \<and> \<not> er_isEligible r \<and> \<not> er_eligible r"
  by (auto simp: check_duplicate_registration_def split: if_splits)

lemma sold_out_reason:
  "check_capacity_sold_out t item i ctx = Some r \<Longrightarrow>
     er_reasonCode r = SOLD_OUT \<and> \<not> er_isEligible r \<and> \<not> er_eligible r"
  by (auto simp: check_capacity_sold_out_def split: option.splits if_splits)

lemmas reason_dests = duplicate_reason sold_out_reason

text \<open>The flags of a result agree with its reason code.\<close>

lemma eligible_iff_available:
  "er_isEligible (evaluate_item_eligibility item i ctx) \<longleftrightarrow>
     er_reasonCode (evaluate_item_eligibility item i ctx) = AVAILABLE"
  "er_eligible (evaluate_item_eligibility item i ctx) \<longleftrightarrow>
     er_reasonCode (evaluate_item_eligibility item i ctx) = AVAILABLE"
  unfolding evaluate_item_eligibility_def Let_def
  by (auto split: option.split dest!: reason_dests)

text \<open>What a line judged \<open>AVAILABLE\<close> satisfies.\<close>

definition prerequisite_met :: "class_config \<Rightarrow> line_item \<Rightarrow> nat \<Rightarrow> eval_ctx \<Rightarrow> bool" where
  "prerequisite_met target item i ctx \<longleftrightarrow>
     (case required_subtype target ctx of
        None \<Rightarrow> True
      | Some r \<Rightarrow> has_entitlement_prerequisite target r (it_childId item) ctx \<or>
                  has_proposed_item_prerequisite target r (it_childId item) i ctx)"

definition capacity_left :: "class_config \<Rightarrow> nat \<Rightarrow> eval_ctx \<Rightarrow> bool" where
  "capacity_left target i ctx \<longleftrightarrow>
     (case fc_capacity target of
        None \<Rightarrow> True
      | Some cap \<Rightarrow> 0 < cap \<and> class_placed_count target ctx + items_ahead target i ctx < cap)"

lemma sold_out_None_iff: "check_capacity_sold_out target item i ctx = None \<longleftrightarrow> capacity_left target i ctx"
  by (auto simp: check_capacity_sold_out_def capacity_left_def get_class_capacity_metadata_def Let_def
      split: option.split)

lemma available_iff:
  "er_reasonCode (evaluate_item_eligibility item i ctx) = AVAILABLE \<longleftrightarrow>
     cx_isRegistrationOpen ctx \<and>
     (\<exists>target. find_valid_target item ctx = Some target \<and>
        check_duplicate_registration item i ctx = None \<and>
        prerequisite_met target item i ctx \<and> capacity_left target i ctx)"
  unfolding evaluate_item_eligibility_def prerequisite_met_def Let_def sold_out_None_iff [symmetric, where item = item]
  by (auto split: option.split dest!: reason_dests)

lemma duplicate_None_iff:
  "check_duplicate_registration item i ctx = None \<longleftrightarrow>
     (\<forall>e \<in> set (cx_activeEntitlements ctx). ce_childId e = it_childId item \<longrightarrow>
        ce_festivalClassId e = it_festivalClassId item \<longrightarrow> \<not> is_active_entitlement (ce_status e)) \<and>
     (\<forall>p \<in> set (take i (cx_items ctx)). it_childId p = it_childId item \<longrightarrow>
        it_festivalClassId p \<noteq> it_festivalClassId item)"
  by (auto simp: check_duplicate_registration_def list_ex_iff)

lemma normalize_classes_into_get:
  assumes "\<forall>k c. js_get m k = Some c \<longrightarrow> fc_id c = k"
    and "js_get (normalize_classes_into m cs) k = Some c"
  shows "fc_id c = k"
  using assms
proof (induction cs arbitrary: m)
  case (Cons a cs)
  show ?case by (rule Cons.IH [of "js_set (fc_id a) a m"]) (use Cons.prems in auto)
qed simp

lemma normalize_classes_id: "js_get (normalize_classes (ClassList cs)) k = Some c \<Longrightarrow> fc_id c = k"
  by (auto dest: normalize_classes_into_get [of "[]", rotated])

lemma find_valid_target_get:
  "find_valid_target item ctx = Some t \<Longrightarrow> js_get (cx_classesMap ctx) (it_festivalClassId item) = Some t"
  by (auto simp: find_valid_target_def split: option.splits if_splits)

text \<open>The last of the lines with a property: all the others lie before it.\<close>

lemma last_filter_index:
  assumes "filter p xs \<noteq> []"
  obtains i where "i < length xs" "p (xs ! i)" "length (filter p xs) = Suc (length (filter p (take i xs)))"
  using assms
proof (induction xs arbitrary: thesis rule: rev_induct)
  case (snoc x xs)
  show ?case
  proof (cases "p x")
    case True
    show ?thesis by (rule snoc.prems(1) [of "length xs"]) (use True in simp_all)
  next
    case False
    then have "filter p xs \<noteq> []" using snoc.prems(2) by simp
    then obtain i where "i < length xs" "p (xs ! i)"
      "length (filter p xs) = Suc (length (filter p (take i xs)))" using snoc.IH by blast
    with False show ?thesis by (intro snoc.prems(1) [of i]) (auto simp: nth_append)
  qed
qed simp

lemma evaluate_items_all:
  "list_all P (evaluate_items items ctx) \<longleftrightarrow>
     (\<forall>i < length items. P (evaluate_item_eligibility (items ! i) i ctx))"
  by (auto simp: evaluate_items_def list_all_iff)

section \<open>Properties\<close>

lemma cart_ctx_items [simp]:
  "cx_items (base_ctx input items) = items"
  "cx_activeEntitlements (base_ctx input items) = ei_activeEntitlements input"
  "cx_classesMap (base_ctx input items) = normalize_classes (ei_classes input)"
  "cx_organizationId (base_ctx input items) = ei_organizationId input"
  "cx_festivalId (base_ctx input items) = ei_festivalId input"
  by (simp_all add: base_ctx_def)

lemma strip_candidate_marker_ids [simp]:
  "it_childId (strip_candidate_marker x) = it_childId x"
  "it_festivalClassId (strip_candidate_marker x) = it_festivalClassId x"
  by (simp_all add: strip_candidate_marker_def)

lemma cart_eligible_item:
  assumes "rs_isEligible (evaluate_cart_purchase_eligibility input)" "i < length (ei_items input)"
  defines "items \<equiv> map strip_candidate_marker (ei_items input)"
  defines "ctx \<equiv> base_ctx input items"
  shows "\<exists>t. find_valid_target (items ! i) ctx = Some t \<and>
      check_duplicate_registration (items ! i) i ctx = None \<and>
      prerequisite_met t (items ! i) i ctx \<and> capacity_left t i ctx"
proof -
  have "er_reasonCode (evaluate_item_eligibility (items ! i) i ctx) = AVAILABLE"
    using assms by (simp add: evaluate_cart_purchase_eligibility_def evaluate_items_all Let_def)
  then show ?thesis by (simp add: available_iff)
qed

text \<open>
  C1: an eligible cart never overbooks a class.  When the cart is judged eligible, then for
  every class that has a capacity and occurs in the cart (and lies under its own ID), the confirmed entitlements plus all
  the lines of the cart for that class still fit into the capacity.
\<close>
theorem cart_respects_capacity:
  assumes elig: "rs_isEligible (evaluate_cart_purchase_eligibility input)"
    and cls: "js_get (normalize_classes (ei_classes input)) k = Some c" "fc_id c = k" "fc_capacity c = Some cap"
    and wanted: "k \<in> it_festivalClassId ` set (ei_items input)"
  shows "int (length (filter (\<lambda>e. ce_festivalClassId e = k \<and> ce_status e = Confirmed)
            (ei_activeEntitlements input)))
       + int (length (filter (\<lambda>x. it_festivalClassId x = k) (ei_items input))) \<le> cap"
proof -
  let ?items = "map strip_candidate_marker (ei_items input)"
  let ?p = "\<lambda>x. it_festivalClassId x = k"
  have "filter ?p ?items \<noteq> []" using wanted by (auto simp: filter_empty_conv)
  then obtain i where i: "i < length ?items" "?p (?items ! i)"
    and all: "length (filter ?p ?items) = Suc (length (filter ?p (take i ?items)))"
    by (rule last_filter_index)
  from cart_eligible_item [OF elig] i(1) obtain t where
    t: "find_valid_target (?items ! i) (base_ctx input ?items) = Some t"
      "capacity_left t i (base_ctx input ?items)" by auto
  have "t = c" using find_valid_target_get [OF t(1)] i(2) cls(1) by simp
  moreover have "length (filter ?p ?items) = length (filter ?p (ei_items input))"
    by (simp add: filter_map o_def)
  ultimately show ?thesis
    using t(2) all cls(2,3)
    by (simp add: capacity_left_def class_placed_count_def items_ahead_def is_placed_entitlement_def)
qed

definition demo_class :: "string \<Rightarrow> string \<Rightarrow> int \<Rightarrow> class_config" where
  "demo_class cid subtype cap =
     \<lparr>fc_id = cid, fc_organizationId = ''org'', fc_festivalId = ''fest'', fc_displayName = cid,
      fc_classSubtypeId = subtype, fc_divisionId = ''piano'', fc_minimumAge = 6, fc_maximumAge = 9,
      fc_price = ''30.00'', fc_maximumPerformancePieces = 1, fc_performanceMinutes = 5,
      fc_capacity = Some cap, fc_isActive = True\<rparr>"

definition demo_subtype :: "string \<Rightarrow> string option \<Rightarrow> catalog_value" where
  "demo_subtype sid req =
     \<lparr>cv_id = sid, cv_organizationId = ''org'', cv_displayName = sid, cv_isActive = True,
      cv_displayOrder = 1, cv_requiredSubtypeId = req\<rparr>"

definition demo_item :: "string \<Rightarrow> string \<Rightarrow> string \<Rightarrow> line_item" where
  "demo_item lid child cls =
     \<lparr>it_id = Some lid, it_childId = child, it_festivalClassId = cls, it_isCandidate = False\<rparr>"

text \<open>Two children in the solo class (capacity 2), one of them also in the concert class.\<close>

definition demo_cart :: "line_item list \<Rightarrow> eligibility_input" where
  "demo_cart items =
     \<lparr>ei_organizationId = ''org'', ei_festivalId = ''fest'', ei_items = items,
      ei_classes = ClassList [demo_class ''c1'' ''solo'' 2, demo_class ''c2'' ''concert'' 5],
      ei_subtypes = [demo_subtype ''solo'' None, demo_subtype ''concert'' (Some ''solo'')],
      ei_activeEntitlements = [], ei_isRegistrationOpen = None, ei_mode = None\<rparr>"

definition demo_items :: "line_item list" where
  "demo_items = [demo_item ''a'' ''ann'' ''c1'', demo_item ''b'' ''bob'' ''c1'', demo_item ''c'' ''ann'' ''c2'']"

lemma demo_cart_eligible: "rs_isEligible (evaluate_cart_purchase_eligibility (demo_cart demo_items))"
  by code_simp

theorem cart_respects_capacity_witness:
  "int (length (filter (\<lambda>e. ce_festivalClassId e = ''c1'' \<and> ce_status e = Confirmed)
            (ei_activeEntitlements (demo_cart demo_items))))
       + int (length (filter (\<lambda>x. it_festivalClassId x = ''c1'') (ei_items (demo_cart demo_items)))) \<le> 2"
  by (rule cart_respects_capacity [where c = "demo_class ''c1'' ''solo'' 2"])
     (rule demo_cart_eligible, code_simp+)

text \<open>
  C2: an eligible cart registers nobody twice.  No two lines of the cart name the same child
  and class, and no line repeats an entitlement that is neither cancelled nor revoked.
\<close>
theorem cart_no_double_registration:
  assumes "rs_isEligible (evaluate_cart_purchase_eligibility input)"
  shows "distinct (map (\<lambda>x. (it_childId x, it_festivalClassId x)) (ei_items input)) \<and>
    (\<forall>x \<in> set (ei_items input). \<forall>e \<in> set (ei_activeEntitlements input).
       ce_childId e = it_childId x \<and> ce_festivalClassId e = it_festivalClassId x \<longrightarrow>
       ce_status e \<in> {Cancelled, ClassRevoked})"
proof -
  let ?xs = "ei_items input"
  let ?items = "map strip_candidate_marker ?xs"
  have none: "check_duplicate_registration (?items ! i) i (base_ctx input ?items) = None"
    if "i < length ?xs" for i
    using cart_eligible_item [OF assms that] by auto
  have "(it_childId (?xs ! i), it_festivalClassId (?xs ! i)) \<noteq> (it_childId (?xs ! j), it_festivalClassId (?xs ! j))"
    if "j < length ?xs" "i < j" for i j
  proof -
    have "?items ! i \<in> set (take j ?items)" using that by (auto simp: in_set_conv_nth intro!: exI [of _ i])
    then show ?thesis using none [OF that(1)] that by (auto simp: duplicate_None_iff)
  qed
  then have "distinct (map (\<lambda>x. (it_childId x, it_festivalClassId x)) ?xs)"
    unfolding distinct_conv_nth by (metis (no_types, lifting) length_map linorder_neqE_nat nth_map)
  moreover have "ce_status e \<in> {Cancelled, ClassRevoked}"
    if "x \<in> set ?xs" "e \<in> set (ei_activeEntitlements input)"
      "ce_childId e = it_childId x" "ce_festivalClassId e = it_festivalClassId x" for x e
  proof -
    from that(1) obtain i where "i < length ?xs" "?xs ! i = x" by (auto simp: in_set_conv_nth)
    with none [of i] that show ?thesis by (auto simp: duplicate_None_iff is_active_entitlement_def)
  qed
  ultimately show ?thesis by blast
qed

theorem cart_no_double_registration_witness:
  "distinct (map (\<lambda>x. (it_childId x, it_festivalClassId x)) (ei_items (demo_cart demo_items)))"
  using cart_no_double_registration [OF demo_cart_eligible] by simp

text \<open>
  An eligible cart has every prerequisite.  If the class of line \<open>i\<close> has a subtype that
  requires another subtype, the child already holds a confirmed entitlement of this festival
  for a class of the required subtype in the same division and age group, or another line of
  the same cart registers the same child in such a class.
\<close>
theorem cart_prerequisites_met:
  assumes elig: "rs_isEligible (evaluate_cart_purchase_eligibility input)"
    and i: "i < length (ei_items input)"
    and cls: "js_get (normalize_classes (ei_classes input)) (it_festivalClassId (ei_items input ! i)) = Some c"
    and sub: "js_get (normalize_subtypes (ei_subtypes input)) (fc_classSubtypeId c) = Some st"
    and req: "cv_requiredSubtypeId st = Some r" "js_trim r \<noteq> []"
  shows "(\<exists>e \<in> set (ei_activeEntitlements input).
            ce_status e = Confirmed \<and> ce_childId e = it_childId (ei_items input ! i) \<and>
            ce_organizationId e = ei_organizationId input \<and> ce_festivalId e = ei_festivalId input \<and>
            (\<exists>p. js_get (normalize_classes (ei_classes input)) (ce_festivalClassId e) = Some p \<and>
                 fc_classSubtypeId p = js_trim r \<and> matches_division_and_age p c))
       \<or> (\<exists>j < length (ei_items input). j \<noteq> i \<and>
            it_childId (ei_items input ! j) = it_childId (ei_items input ! i) \<and>
            (\<exists>p. js_get (normalize_classes (ei_classes input)) (it_festivalClassId (ei_items input ! j)) = Some p \<and>
                 fc_isActive p \<and> fc_classSubtypeId p = js_trim r \<and> matches_division_and_age p c))"
proof -
  let ?items = "map strip_candidate_marker (ei_items input)"
  let ?ctx = "base_ctx input ?items"
  from cart_eligible_item [OF elig i] obtain t where
    t: "find_valid_target (?items ! i) ?ctx = Some t" and met: "prerequisite_met t (?items ! i) i ?ctx"
    by auto
  have "t = c" using find_valid_target_get [OF t] cls i by simp
  then have "required_subtype t ?ctx = Some (js_trim r)"
    using sub req by (simp add: required_subtype_def base_ctx_def if_truthy_def)
  with met \<open>t = c\<close> have "has_entitlement_prerequisite c (js_trim r) (it_childId (?items ! i)) ?ctx \<or>
      has_proposed_item_prerequisite c (js_trim r) (it_childId (?items ! i)) i ?ctx"
    by (simp add: prerequisite_met_def)
  then show ?thesis
  proof
    assume "has_entitlement_prerequisite c (js_trim r) (it_childId (?items ! i)) ?ctx"
    then obtain e p where "e \<in> set (ei_activeEntitlements input)" "ce_status e = Confirmed"
      "ce_childId e = it_childId (ei_items input ! i)" "ce_organizationId e = ei_organizationId input"
      "ce_festivalId e = ei_festivalId input"
      "js_get (normalize_classes (ei_classes input)) (ce_festivalClassId e) = Some p"
      "fc_classSubtypeId p = js_trim r" "matches_division_and_age p c"
      using i by (auto simp: has_entitlement_prerequisite_def list_ex_iff split: if_splits option.splits)
    then show ?thesis by blast
  next
    assume "has_proposed_item_prerequisite c (js_trim r) (it_childId (?items ! i)) i ?ctx"
    then obtain j where j: "j < length (ei_items input)" "j \<noteq> i"
      "provides_prerequisite c (js_trim r) (it_childId (ei_items input ! i)) ?ctx (?items ! j)"
      using i by (auto simp: has_proposed_item_prerequisite_def list_ex_iff)
    then obtain p where "it_childId (ei_items input ! j) = it_childId (ei_items input ! i)"
      "js_get (normalize_classes (ei_classes input)) (it_festivalClassId (ei_items input ! j)) = Some p"
      "fc_isActive p" "fc_classSubtypeId p = js_trim r" "matches_division_and_age p c"
      by (auto simp: provides_prerequisite_def split: if_splits option.splits)
    with j show ?thesis by blast
  qed
qed

theorem cart_prerequisites_met_witness:
  "(\<exists>e \<in> set (ei_activeEntitlements (demo_cart demo_items)). True) \<or>
   (\<exists>j < length (ei_items (demo_cart demo_items)). j \<noteq> 2 \<and>
      it_childId (ei_items (demo_cart demo_items) ! j) = ''ann'')"
proof -
  have 1: "2 < length (ei_items (demo_cart demo_items))" by code_simp
  have 2: "js_get (normalize_classes (ei_classes (demo_cart demo_items)))
      (it_festivalClassId (ei_items (demo_cart demo_items) ! 2)) = Some (demo_class ''c2'' ''concert'' 5)"
    by code_simp
  have 3: "js_get (normalize_subtypes (ei_subtypes (demo_cart demo_items)))
      (fc_classSubtypeId (demo_class ''c2'' ''concert'' 5)) = Some (demo_subtype ''concert'' (Some ''solo''))"
    by code_simp
  have 4: "cv_requiredSubtypeId (demo_subtype ''concert'' (Some ''solo'')) = Some ''solo''" by code_simp
  have 5: "js_trim ''solo'' \<noteq> []" by code_simp
  have 6: "it_childId (ei_items (demo_cart demo_items) ! 2) = ''ann''" by code_simp
  show ?thesis
    using cart_prerequisites_met [OF demo_cart_eligible 1 2 3 4 5] unfolding 6 by blast
qed

text \<open>The request without the candidate lines other than line \<open>i\<close>.\<close>

definition without_other_candidates :: "nat \<Rightarrow> line_item list \<Rightarrow> line_item list" where
  "without_other_candidates i items =
     filter (\<lambda>x. \<not> is_candidate_line_item x) (take i items) @ items ! i #
     filter (\<lambda>x. \<not> is_candidate_line_item x) (drop (Suc i) items)"

lemma without_other_candidates:
  assumes "i < length xs"
  shows "filter (\<lambda>x. \<not> is_candidate_line_item x) (without_other_candidates i xs) = filter (\<lambda>x. \<not> is_candidate_line_item x) xs"
    "without_other_candidates i xs ! cart_position xs i = xs ! i" "cart_position xs i < length (without_other_candidates i xs)"
    "cart_position (without_other_candidates i xs) (cart_position xs i) = cart_position xs i"
    "is_candidate_line_item (xs ! i) \<Longrightarrow> list_ex is_candidate_line_item (without_other_candidates i xs)"
    "\<not> is_candidate_line_item (xs ! i) \<Longrightarrow> without_other_candidates i xs = filter (\<lambda>x. \<not> is_candidate_line_item x) xs"
proof -
  have split: "xs = take i xs @ xs ! i # drop (Suc i) xs" using assms by (rule id_take_nth_drop)
  have parts: "filter p xs = filter p (take i xs) @ filter p [xs ! i] @ filter p (drop (Suc i) xs)" for p
    using arg_cong [OF split, of "filter p"] by simp
  show "filter (\<lambda>x. \<not> is_candidate_line_item x) (without_other_candidates i xs) = filter (\<lambda>x. \<not> is_candidate_line_item x) xs"
    "\<not> is_candidate_line_item (xs ! i) \<Longrightarrow> without_other_candidates i xs = filter (\<lambda>x. \<not> is_candidate_line_item x) xs"
    unfolding parts by (simp_all add: without_other_candidates_def)
qed (simp_all add: without_other_candidates_def cart_position_def nth_append list_ex_iff)

text \<open>
  C3: candidate lines do not interfere.  In advisory mode the verdict on each line, candidate or
  not, is the verdict it gets, at its place, when all other candidates are removed from the
  request; so no verdict depends on another candidate.
\<close>
theorem advisory_candidates_do_not_interfere:
  fixes input
  defines "alone i \<equiv> input\<lparr>ei_items := without_other_candidates i (ei_items input)\<rparr>"
  assumes "ei_mode input = Some AdvisoryMode" "i < length (ei_items input)"
  shows "rs_results (evaluate_purchase_eligibility input) ! i
       = rs_results (evaluate_purchase_eligibility (alone i)) ! cart_position (ei_items input) i"
proof -
  let ?xs = "ei_items input" and ?k = "cart_position (ei_items input) i"
  let ?ys = "without_other_candidates i ?xs"
  note ys = without_other_candidates [OF assms(3)]
  have ctx: "base_ctx (alone i) items = base_ctx input items" for items
    by (simp add: alone_def base_ctx_def)
  have mode: "evaluate_purchase_eligibility input = evaluate_advisory_candidate_eligibility input"
    "evaluate_purchase_eligibility (alone i) = evaluate_advisory_candidate_eligibility (alone i)"
    using assms(2) by (simp_all add: evaluate_purchase_eligibility_def alone_def)
  have items: "ei_items (alone i) = ?ys" by (simp add: alone_def)
  have same: "advisory_result (alone i) ?k = advisory_result input i"
    unfolding advisory_result_def items ctx Let_def ys(1,2,4) ..
  have advised: "rs_results (evaluate_advisory_candidate_eligibility inp) ! j = advisory_result inp j"
    if "j < length (ei_items inp)" for inp j
  proof (cases "list_ex is_candidate_line_item (ei_items inp)")
    case False
    then have none: "\<forall>x \<in> set (ei_items inp). \<not> is_candidate_line_item x" by (simp add: list_ex_iff)
    then have "filter (\<lambda>x. \<not> is_candidate_line_item x) (ei_items inp) = ei_items inp"
      "filter (\<lambda>x. \<not> is_candidate_line_item x) (take j (ei_items inp)) = take j (ei_items inp)"
      by (auto simp: filter_id_conv dest: in_set_takeD)
    then show ?thesis using False that none
      by (simp add: evaluate_advisory_candidate_eligibility_def evaluate_items_def advisory_result_def cart_position_def Let_def)
  qed (use that in \<open>simp add: evaluate_advisory_candidate_eligibility_def Let_def\<close>)
  show ?thesis
    unfolding mode using advised [of i input] advised [of ?k "alone i"] assms(3) ys(3) same by (simp add: items)
qed

definition demo_advisory :: "eligibility_input" where
  "demo_advisory = (demo_cart [demo_item ''candidate:x'' ''bob'' ''c1'', demo_item ''candidate:y'' ''cara'' ''c1'', demo_item ''a'' ''ann'' ''c1''])
     \<lparr>ei_mode := Some AdvisoryMode\<rparr>"

theorem advisory_candidates_do_not_interfere_witness:
  "rs_results (evaluate_purchase_eligibility demo_advisory) ! 1
   = rs_results (evaluate_purchase_eligibility
       (demo_advisory\<lparr>ei_items := without_other_candidates 1 (ei_items demo_advisory)\<rparr>))
       ! cart_position (ei_items demo_advisory) 1"
  by (rule advisory_candidates_do_not_interfere) (code_simp+)

end
