(* ===== verification/DropTransfer.thy ===== *)
theory DropTransfer
  imports EntitlementRepo ChangeRepo PurchaseEligibility
begin

text \<open>
  \<open>DropTransferService\<close> of \<open>packages/backend/src/registration/drop-transfer-service.ts\<close>:
  dropping a registration (with the promotion of the top waitlisted one and the refund event),
  moving it to another class, and manual promotion.  The state is the entitlement repository,
  the change repository and a counter that numbers the calls of \<open>randomUUID()\<close> and \<open>now()\<close>.
  The refund provider and the class query are configuration, arguments of the operations.
\<close>

section \<open>State and configuration\<close>

record dt_world =
  dw_ents :: ent_repo
  dw_changes :: change_repo
  dw_tick :: nat

record line_refund_request =
  rq_orderId :: string
  rq_paymentIntentId :: string
  rq_refundEventId :: string
  rq_idempotencyKey :: string
  rq_shopifyOrderLineId :: string
  rq_amountCents :: int
  rq_currency :: string
  rq_reason :: string

record refund_allocation =
  al_shopifyOrderLineId :: string
  al_amountCents :: int
  al_currency :: string

record line_refund_result =
  rr_id :: string
  rr_orderId :: string
  rr_allocations :: "refund_allocation list"

text \<open>
  The configured Shopify client: none, an order-level one (no \<open>supportsLineTargetedRefund\<close>),
  or a line-targeted provider.  Its call may throw; \<open>Inl None\<close> is a thrown non-Error.
\<close>

datatype refund_client =
    NoClient
  | OrderLevelClient
  | LineTargeted "line_refund_request \<Rightarrow> string option + line_refund_result"

datatype capacity_value = CapNumber int | CapObject "int option" | CapOther

record class_query_config =
  qc_capacity :: "int option"
  qc_festivalId :: "string option"

text \<open>The optional methods of a query object; a call may throw.\<close>

record class_query_object =
  cq_getClassCapacity :: "(string \<Rightarrow> string \<Rightarrow> int option outcome) option"
  cq_find :: "(string \<Rightarrow> string \<Rightarrow> string option \<Rightarrow> class_query_config option outcome) option"
  cq_getCapacity :: "(string \<Rightarrow> int option outcome) option"
  cq_list :: "(string \<Rightarrow> string \<Rightarrow> (string \<times> int option) list outcome) option"
  cq_get :: "(string \<Rightarrow> capacity_value option outcome) option"
  cq_field :: "string \<Rightarrow> capacity_value option"

datatype class_capacity_resolver =
    NoQuery
  | FunctionQuery "string \<Rightarrow> string \<Rightarrow> string option \<Rightarrow> capacity_value option outcome"
  | MapQuery "(string, capacity_value) js_map"
  | ObjectQuery class_query_object

record dt_env =
  dv_uuid :: "nat \<Rightarrow> string"
  dv_now :: "nat \<Rightarrow> string"
  dv_refund :: refund_client
  dv_query :: class_capacity_resolver

record drop_input =
  dr_classEntitlementId :: string
  dr_organizationId :: "string option"
  dr_actorUid :: "string option"
  dr_actorRole :: "string option"
  dr_reason :: "string option"
  dr_requestRefund :: bool
  dr_issueRefund :: bool
  dr_refundAmountCents :: "int option"
  dr_refundReason :: "string option"

record transfer_input =
  tr_classEntitlementId :: string
  tr_targetFestivalClassId :: string
  tr_organizationId :: "string option"
  tr_actorUid :: "string option"
  tr_actorRole :: "string option"
  tr_reason :: "string option"

record promotion_result =
  pr_classEntitlementId :: string
  pr_festivalClassId :: string
  pr_promoted :: bool
  pr_previousStatus :: "class_status option"
  pr_newStatus :: "class_status option"
  pr_changeLog :: "change_log option"
  pr_message :: string

record registration_result =
  rg_success :: bool
  rg_classEntitlementId :: string
  rg_targetFestivalClassId :: "string option"
  rg_previousFestivalClassId :: "string option"
  rg_classEntitlement :: class_entitlement
  rg_changeLog :: change_log
  rg_refundEvent :: "refund_event option"
  rg_promoted :: "promotion_result list"

definition or_default :: "'a option \<Rightarrow> 'a \<Rightarrow> 'a" where
  "or_default x d = (case x of None \<Rightarrow> d | Some v \<Rightarrow> v)"

section \<open>Repository calls on the service state\<close>

definition ents_update ::
    "dt_env \<Rightarrow> string \<Rightarrow> string \<Rightarrow> ent_update \<Rightarrow> class_status list option
      \<Rightarrow> (dt_world, class_entitlement option) act" where
  "ents_update env org eid u expected = (\<lambda>w.
     let (res, r) = update_class_entitlement org eid u expected (dv_now env (dw_tick w)) (dw_ents w)
     in (Inr res, w\<lparr>dw_ents := r, dw_tick := Suc (dw_tick w)\<rparr>))"

definition log_change :: "dt_env \<Rightarrow> change_log_input \<Rightarrow> (dt_world, change_log) act" where
  "log_change env i = (\<lambda>w.
     let (res, r) = create_change_log i (dv_uuid env (dw_tick w)) (dv_now env (dw_tick w)) (dw_changes w)
     in (res, w\<lparr>dw_changes := r, dw_tick := Suc (dw_tick w)\<rparr>))"

definition add_refund_event :: "dt_env \<Rightarrow> refund_event_input \<Rightarrow> (dt_world, refund_event) act" where
  "add_refund_event env i = (\<lambda>w.
     let (res, r) = create_refund_event i (dv_uuid env (dw_tick w)) (dv_now env (dw_tick w)) (dw_changes w)
     in (res, w\<lparr>dw_changes := r, dw_tick := Suc (dw_tick w)\<rparr>))"

definition set_refund_status :: "dt_env \<Rightarrow> refund_update \<Rightarrow> (dt_world, refund_event option) act" where
  "set_refund_status env u = (\<lambda>w.
     let (res, r) = update_refund_event_status (UpdateObject u) (dv_now env (dw_tick w)) (dw_changes w)
     in (res, w\<lparr>dw_changes := r, dw_tick := Suc (dw_tick w)\<rparr>))"

text \<open>Without an organization the in-memory map is read directly.\<close>

definition get_entitlement :: "string \<Rightarrow> string option \<Rightarrow> dt_world \<Rightarrow> class_entitlement option" where
  "get_entitlement eid org w =
     (if truthy org then get_class_entitlement (the org) eid (dw_ents w)
      else js_get (en_entitlements (dw_ents w)) eid)"

section \<open>Class capacity\<close>

fun extract_capacity :: "capacity_value option \<Rightarrow> int option" where
  "extract_capacity (Some (CapNumber n)) = Some n"
| "extract_capacity (Some (CapObject c)) = c"
| "extract_capacity (Some CapOther) = None"
| "extract_capacity None = None"

text \<open>A method that is absent or answers no number hands over to the next one.\<close>

definition try_method :: "int option outcome option \<Rightarrow> int option outcome \<Rightarrow> int option outcome" where
  "try_method call rest =
     (case call of None \<Rightarrow> rest
      | Some (Inl e) \<Rightarrow> Inl e
      | Some (Inr (Some n)) \<Rightarrow> Inr (Some n)
      | Some (Inr None) \<Rightarrow> rest)"

definition query_capacity_from_object ::
    "class_query_object \<Rightarrow> string \<Rightarrow> string option \<Rightarrow> string \<Rightarrow> int option outcome" where
  "query_capacity_from_object q org fest cls =
     try_method (map_option (\<lambda>f. f org cls) (cq_getClassCapacity q))
     (try_method (map_option (\<lambda>fn. and_then
          (if truthy fest then fn org (the fest) (Some cls) else fn org cls None)
          (\<lambda>cfg. Inr (Option.bind cfg qc_capacity))) (cq_find q))
     (try_method (map_option (\<lambda>f. f cls) (cq_getCapacity q))
     (try_method (if truthy fest
        then map_option (\<lambda>list_fn. and_then (list_fn org (the fest))
               (\<lambda>items. Inr (Option.bind (find (\<lambda>item. fst item = cls) items) snd))) (cq_list q)
        else None)
     (try_method (map_option (\<lambda>f. and_then (f cls) (\<lambda>v. Inr (extract_capacity v))) (cq_get q))
       (Inr (extract_capacity (cq_field q cls)))))))"

definition resolve_class_capacity ::
    "class_capacity_resolver \<Rightarrow> string \<Rightarrow> string option \<Rightarrow> string \<Rightarrow> int option outcome" where
  "resolve_class_capacity query org fest cls =
     (case query of
        NoQuery \<Rightarrow> Inr None
      | FunctionQuery f \<Rightarrow> and_then (f cls org fest) (\<lambda>v. Inr (extract_capacity v))
      | MapQuery m \<Rightarrow> Inr (extract_capacity (js_get m cls))
      | ObjectQuery q \<Rightarrow> query_capacity_from_object q org fest cls)"

definition query_find_method ::
    "class_capacity_resolver \<Rightarrow> (string \<Rightarrow> string \<Rightarrow> string option \<Rightarrow> class_query_config option outcome) option" where
  "query_find_method query = (case query of ObjectQuery q \<Rightarrow> cq_find q | _ \<Rightarrow> None)"

text \<open>The configuration found by the first, guarded lookup: \<open>catch\<close> turns an error into null.\<close>

definition target_config :: "class_capacity_resolver \<Rightarrow> string \<Rightarrow> string \<Rightarrow> class_query_config option" where
  "target_config query org target =
     (case query_find_method query of
        None \<Rightarrow> None
      | Some fn \<Rightarrow> (case fn org target None of Inl _ \<Rightarrow> None | Inr cfg \<Rightarrow> cfg))"

definition wrong_festival_error :: app_error where
  "wrong_festival_error = AppError ''Target class does not belong to this festival.'' 400 None"

definition assert_target_class_in_festival ::
    "class_capacity_resolver \<Rightarrow> string \<Rightarrow> string option \<Rightarrow> string \<Rightarrow> int outcome" where
  "assert_target_class_in_festival query org fest target =
     (if (case target_config query org target of None \<Rightarrow> False
          | Some cfg \<Rightarrow> truthy fest \<and> qc_festivalId cfg \<noteq> None \<and> qc_festivalId cfg \<noteq> fest)
      then Inl wrong_festival_error
      else and_then (resolve_class_capacity query org fest target) (\<lambda>cap.
        (case cap of None \<Rightarrow> Inl wrong_festival_error
         | Some c \<Rightarrow> if c < 0 then Inl wrong_festival_error else Inr c)))"

section \<open>Refunds\<close>

definition is_safe_integer :: "int \<Rightarrow> bool" where
  "is_safe_integer n \<longleftrightarrow> - 9007199254740991 \<le> n \<and> n \<le> 9007199254740991"

definition resolve_requested_refund_amount :: "class_entitlement \<Rightarrow> int option \<Rightarrow> int outcome" where
  "resolve_requested_refund_amount e requested =
     (case requested of
        None \<Rightarrow> Inr (ce_paidAmountCents e)
      | Some n \<Rightarrow>
          if \<not> is_safe_integer n \<or> n \<le> 0
          then Inl (AppError ''Refund amount must be a positive integer.'' 400 None)
          else if \<not> is_safe_integer (ce_paidAmountCents e) \<or> ce_paidAmountCents e \<le> 0
                  \<or> n > ce_paidAmountCents e
          then Inl (AppError ''Refund amount cannot exceed the paid registration amount.'' 400 None)
          else Inr n)"

definition assert_verified_line_targeted_refund ::
    "line_refund_request \<Rightarrow> line_refund_result \<Rightarrow> unit outcome" where
  "assert_verified_line_targeted_refund request result =
     (if rr_id result = [] then Inl (PlainError ''Refund provider did not return a refund ID.'')
      else if rr_orderId result \<noteq> rq_orderId request
      then Inl (PlainError ''Refund provider returned a different order.'')
      else (case rr_allocations result of
              [a] \<Rightarrow>
                if al_shopifyOrderLineId a \<noteq> rq_shopifyOrderLineId request
                   \<or> al_amountCents a \<noteq> rq_amountCents request \<or> al_currency a \<noteq> rq_currency request
                then Inl (PlainError ''Refund provider allocation does not match the requested order line.'')
                else Inr ()
            | _ \<Rightarrow> Inl (PlainError ''Refund provider must return exactly one line allocation.'')))"

definition line_targeted_provider ::
    "refund_client \<Rightarrow> (line_refund_request \<Rightarrow> string option + line_refund_result) option" where
  "line_targeted_provider c = (case c of LineTargeted f \<Rightarrow> Some f | _ \<Rightarrow> None)"

text \<open>The call of the provider and the check of its answer; the thrown message is the reason.\<close>

definition provider_refund ::
    "(line_refund_request \<Rightarrow> string option + line_refund_result) \<Rightarrow> line_refund_request
      \<Rightarrow> line_refund_result outcome" where
  "provider_refund f request =
     (case f request of
        Inl reason \<Rightarrow> Inl (PlainError (or_default reason ''Shopify refund failed''))
      | Inr result \<Rightarrow>
          and_then (assert_verified_line_targeted_refund request result) (\<lambda>_. Inr result))"

definition refund_request ::
    "class_entitlement \<Rightarrow> refund_event \<Rightarrow> int \<Rightarrow> string \<Rightarrow> string \<Rightarrow> line_refund_request" where
  "refund_request e ev amount currency reason =
     \<lparr>rq_orderId = ce_shopifyOrderGid e, rq_paymentIntentId = ce_checkoutIntentId e,
      rq_refundEventId = re_id ev, rq_idempotencyKey = ''refund-event:'' @ re_id ev,
      rq_shopifyOrderLineId = ce_shopifyOrderLineGid e, rq_amountCents = amount,
      rq_currency = currency, rq_reason = reason\<rparr>"

text \<open>The \<open>try\<close>/\<open>catch\<close> around the provider call.\<close>

definition issue_line_refund ::
    "dt_env \<Rightarrow> (line_refund_request \<Rightarrow> string option + line_refund_result) \<Rightarrow> string
      \<Rightarrow> line_refund_request \<Rightarrow> refund_event \<Rightarrow> (dt_world, refund_event) act" where
  "issue_line_refund env f org request ev =
     act_catch
       (act_bind (act_lift (provider_refund f request)) (\<lambda>result.
        act_bind (set_refund_status env
          \<lparr>ru_id = re_id ev, ru_organizationId = Some org, ru_status = ''completed'',
           ru_shopifyRefundId = Some (Some (rr_id result)), ru_failureReason = None\<rparr>) (\<lambda>updated.
        act_return (or_default updated ev))))
       (\<lambda>err.
        act_bind (set_refund_status env
          \<lparr>ru_id = re_id ev, ru_organizationId = Some org, ru_status = ''failed'',
           ru_shopifyRefundId = None, ru_failureReason = Some (Some (err_message err))\<rparr>) (\<lambda>updated.
        act_return (or_default updated ev)))"

definition refund_currency :: "class_entitlement \<Rightarrow> string" where
  "refund_currency e = (if ce_paidCurrencyCode e = [] then ''USD'' else ce_paidCurrencyCode e)"

definition refund_event_for ::
    "string \<Rightarrow> string \<Rightarrow> class_entitlement \<Rightarrow> int \<Rightarrow> string \<Rightarrow> string option \<Rightarrow> refund_event_input" where
  "refund_event_for org log_id e amount status failure =
     \<lparr>ri_id = None, ri_organizationId = org, ri_registrationChangeLogId = Some log_id,
      ri_classEntitlementId = Some (ce_id e), ri_shopifyOrderId = Some (ce_shopifyOrderGid e),
      ri_shopifyOrderLineId = Some (ce_shopifyOrderLineGid e), ri_shopifyRefundId = None,
      ri_amountCents = amount, ri_currency = Some (refund_currency e), ri_status = Some status,
      ri_failureReason = failure, ri_createdAt = None, ri_updatedAt = None\<rparr>"

definition manual_refund_reason :: "refund_client \<Rightarrow> bool \<Rightarrow> string option" where
  "manual_refund_reason client partial =
     (if partial
      then Some ''Manual refund required: partial class-registration refunds are not supported.''
      else if line_targeted_provider client = None
      then Some ''Manual refund required: no deterministic Shopify order-line refund provider is configured.''
      else None)"

definition process_drop_refund ::
    "dt_env \<Rightarrow> string \<Rightarrow> string \<Rightarrow> class_entitlement \<Rightarrow> int option \<Rightarrow> string option \<Rightarrow> string option
      \<Rightarrow> (dt_world, refund_event) act" where
  "process_drop_refund env org log_id e requested refund_reason reason =
     act_bind (act_lift (resolve_requested_refund_amount e requested)) (\<lambda>amount.
       if amount \<le> 0 \<or> ce_shopifyOrderGid e = [] \<or> ce_shopifyOrderLineGid e = []
       then add_refund_event env
         (refund_event_for org log_id e (if amount > 0 then amount else 0) ''failed''
           (Some (if amount \<le> 0 then ''Cannot refund unpriced or zero-amount registration.''
                  else if ce_shopifyOrderGid e = [] then ''Missing Shopify order ID for refund.''
                  else ''Missing Shopify order line ID for refund.'')))
       else
         act_bind (add_refund_event env (refund_event_for org log_id e amount ''pending''
              (manual_refund_reason (dv_refund env) (amount \<noteq> ce_paidAmountCents e)))) (\<lambda>ev.
           (case line_targeted_provider (dv_refund env) of
              Some f \<Rightarrow>
                if amount \<noteq> ce_paidAmountCents e then act_return ev
                else issue_line_refund env f org
                       (refund_request e ev amount (refund_currency e)
                         (or_default refund_reason (or_default reason ''Registration dropped''))) ev
            | None \<Rightarrow> act_return ev)))"

section \<open>Promotion\<close>

definition waitlist_order :: "class_entitlement list \<Rightarrow> class_entitlement list" where
  "waitlist_order es = sort_key (\<lambda>e. (ce_createdAt e, ce_id e)) es"

definition waitlisted_for :: "string \<Rightarrow> string \<Rightarrow> dt_world \<Rightarrow> class_entitlement list" where
  "waitlisted_for org cls w =
     waitlist_order (list_class_entitlements
       (any_entitlement\<lparr>ef_organizationId := Some org, ef_festivalClassId := Some cls,
                        ef_status := Some Waitlisted\<rparr>) (dw_ents w))"

definition promotion_log ::
    "dt_env \<Rightarrow> string \<Rightarrow> string \<Rightarrow> string \<Rightarrow> string \<Rightarrow> string \<Rightarrow> snapshot \<Rightarrow> class_entitlement \<Rightarrow> class_entitlement option
      \<Rightarrow> nat \<Rightarrow> string \<Rightarrow> change_log_input" where
  "promotion_log env org cls actor role eid fest_field first updated tick reason =
     \<lparr>ki_id = None, ki_organizationId = org, ki_festivalId = Some (ce_festivalId first),
      ki_classEntitlementId = eid, ki_action = ''waitlist_promote'', ki_actorUid = actor,
      ki_actorRole = role,
      ki_previousState = [(''status'', Some ''waitlisted''), (''festivalClassId'', Some cls)] @ fest_field
        @ [(''updatedAt'', Some (ce_updatedAt first))],
      ki_newState = [(''status'', Some ''confirmed''), (''festivalClassId'', Some cls)] @ fest_field
        @ [(''updatedAt'', Some (case updated of Some u \<Rightarrow> ce_updatedAt u | None \<Rightarrow> dv_now env tick))],
      ki_reason = Some reason, ki_createdAt = None\<rparr>"

definition confirm_update :: ent_update where
  "confirm_update = \<lparr>eu_festivalClassId = None, eu_status = Some Confirmed, eu_expectedStatus = None\<rparr>"

text \<open>
  \<open>updateClassEntitlementStatus(org, id, "confirmed")\<close> followed by the change log; shared by
  the automatic and the manual promotion.
\<close>

definition promote_and_log ::
    "dt_env \<Rightarrow> string \<Rightarrow> string \<Rightarrow> string \<Rightarrow> string \<Rightarrow> snapshot \<Rightarrow> string \<Rightarrow> class_entitlement
      \<Rightarrow> (dt_world, promotion_result) act" where
  "promote_and_log env org cls actor role fest_field reason first =
     act_bind (ents_update env org (ce_id first) confirm_update None) (\<lambda>updated.
     act_bind (act_read dw_tick) (\<lambda>tick.
     act_bind (log_change env
       (promotion_log env org cls actor role (ce_id first) fest_field first updated tick reason)) (\<lambda>log.
     act_return
       \<lparr>pr_classEntitlementId = ce_id first, pr_festivalClassId = cls, pr_promoted = True,
        pr_previousStatus = Some Waitlisted, pr_newStatus = Some Confirmed, pr_changeLog = Some log,
        pr_message = ''Waitlist entry '' @ ce_id first @ '' promoted to confirmed.''\<rparr>)))"

definition promote_top_waitlisted ::
    "dt_env \<Rightarrow> string \<Rightarrow> string \<Rightarrow> string \<Rightarrow> (dt_world, promotion_result) act" where
  "promote_top_waitlisted env org cls actor = (\<lambda>w.
     (case waitlisted_for org cls w of
        [] \<Rightarrow> (Inr \<lparr>pr_classEntitlementId = [], pr_festivalClassId = cls, pr_promoted = False,
                 pr_previousStatus = None, pr_newStatus = None, pr_changeLog = None,
                 pr_message = ''No waitlisted registrations found for class.''\<rparr>, w)
      | first # _ \<Rightarrow>
          promote_and_log env org cls actor ''system'' []
            ''Top waitlisted candidate promoted to confirmed'' first w))"

definition not_found_error :: app_error where
  "not_found_error = AppError ''Class entitlement not found.'' 404 None"

definition status_error :: "string \<Rightarrow> class_status \<Rightarrow> int \<Rightarrow> app_error" where
  "status_error verb st code =
     AppError (''Cannot '' @ verb @ '' registration with status '' @ [CHR 0x22]
        @ class_status_name st @ [CHR 0x22] @ ''.'') code None"

definition promote_registration ::
    "dt_env \<Rightarrow> string \<Rightarrow> string option \<Rightarrow> string option \<Rightarrow> string option \<Rightarrow> string option
      \<Rightarrow> (dt_world, promotion_result) act" where
  "promote_registration env eid org actor role reason = (\<lambda>w.
     (case get_entitlement eid org w of
        None \<Rightarrow> (Inl not_found_error, w)
      | Some e \<Rightarrow>
          if ce_status e \<noteq> Waitlisted then (Inl (status_error ''promote'' (ce_status e) 400), w)
          else promote_and_log env (ce_organizationId e) (ce_festivalClassId e)
                 (or_default actor ''system'') (or_default role ''admin'')
                 [(''festivalId'', Some (ce_festivalId e))]
                 (or_default reason ''Admin manual waitlist promotion'') e w))"

section \<open>Drop\<close>

definition drop_requests_refund :: "drop_input \<Rightarrow> bool" where
  "drop_requests_refund i \<longleftrightarrow> dr_requestRefund i \<or> dr_issueRefund i"

definition live_statuses :: "class_status list" where
  "live_statuses = [Confirmed, Waitlisted]"

definition cancel_update :: ent_update where
  "cancel_update = \<lparr>eu_festivalClassId = None, eu_status = Some Cancelled, eu_expectedStatus = Some live_statuses\<rparr>"

definition state_snapshot :: "string \<Rightarrow> string \<Rightarrow> string \<Rightarrow> string \<Rightarrow> snapshot" where
  "state_snapshot status cls fest updated_at =
     [(''status'', Some status), (''festivalClassId'', Some cls), (''festivalId'', Some fest),
      (''updatedAt'', Some updated_at)]"

text \<open>
  The first half of \<open>executeDrop\<close>: validation, the compare-and-set to cancelled and its
  change log.  Then the second half: promotion and refund.  The two are separate because other
  requests may run at the suspension points between them.
\<close>

definition drop_cancel ::
    "dt_env \<Rightarrow> drop_input \<Rightarrow> (dt_world, class_entitlement \<times> class_entitlement \<times> change_log) act" where
  "drop_cancel env i = (\<lambda>w.
     (case get_entitlement (dr_classEntitlementId i) (dr_organizationId i) w of
        None \<Rightarrow> (Inl not_found_error, w)
      | Some e \<Rightarrow>
          if ce_status e = Cancelled then (Inl (status_error ''drop'' Cancelled 409), w)
          else if ce_status e \<noteq> Confirmed \<and> ce_status e \<noteq> Waitlisted
          then (Inl (status_error ''drop'' (ce_status e) 400), w)
          else
            act_bind (act_lift (if drop_requests_refund i
                then resolve_requested_refund_amount e (dr_refundAmountCents i) else Inr 0)) (\<lambda>_.
            act_bind (ents_update env (ce_organizationId e) (ce_id e) cancel_update (Some live_statuses)) (\<lambda>updated.
            (case updated of
               None \<Rightarrow> act_throw (status_error ''drop'' Cancelled 409)
             | Some u \<Rightarrow>
                 act_bind (log_change env
                   \<lparr>ki_id = None, ki_organizationId = ce_organizationId e, ki_festivalId = Some (ce_festivalId e),
                    ki_classEntitlementId = ce_id e, ki_action = ''drop'',
                    ki_actorUid = or_default (dr_actorUid i) ''system'',
                    ki_actorRole = or_default (dr_actorRole i) ''customer'',
                    ki_previousState = state_snapshot (class_status_name (ce_status e)) (ce_festivalClassId e)
                       (ce_festivalId e) (ce_updatedAt e),
                    ki_newState = state_snapshot ''cancelled'' (ce_festivalClassId e)
                       (ce_festivalId e) (ce_updatedAt u),
                    ki_reason = dr_reason i, ki_createdAt = None\<rparr>) (\<lambda>log.
                 act_return (e, u, log))))) w))"

definition drop_finish ::
    "dt_env \<Rightarrow> drop_input \<Rightarrow> class_entitlement \<Rightarrow> class_entitlement \<Rightarrow> change_log
      \<Rightarrow> (dt_world, registration_result) act" where
  "drop_finish env i e u log =
     (if ce_status e = Waitlisted
      then act_return
        \<lparr>rg_success = True, rg_classEntitlementId = ce_id e, rg_targetFestivalClassId = None,
         rg_previousFestivalClassId = None, rg_classEntitlement = u, rg_changeLog = log,
         rg_refundEvent = None, rg_promoted = []\<rparr>
      else
        act_bind (promote_top_waitlisted env (ce_organizationId e) (ce_festivalClassId e)
                   (or_default (dr_actorUid i) ''system'')) (\<lambda>promo.
        act_bind (if drop_requests_refund i
                  then act_bind (process_drop_refund env (ce_organizationId e) (cl_id log) e
                         (dr_refundAmountCents i) (dr_refundReason i) (dr_reason i))
                         (\<lambda>ev. act_return (Some ev))
                  else act_return None) (\<lambda>refund.
        act_return
          \<lparr>rg_success = True, rg_classEntitlementId = ce_id e, rg_targetFestivalClassId = None,
           rg_previousFestivalClassId = None, rg_classEntitlement = u, rg_changeLog = log,
           rg_refundEvent = refund, rg_promoted = (if pr_promoted promo then [promo] else [])\<rparr>)))"

definition execute_drop :: "dt_env \<Rightarrow> drop_input \<Rightarrow> (dt_world, registration_result) act" where
  "execute_drop env i = act_bind (drop_cancel env i) (\<lambda>(e, u, log). drop_finish env i e u log)"

text \<open>The lock \<open>dropRegistration\<close> takes before it runs \<open>executeDrop\<close>.\<close>

definition drop_lock_key :: "drop_input \<Rightarrow> string" where
  "drop_lock_key i = ''entitlement:'' @ or_default (dr_organizationId i) ''default'' @ '':'' @ dr_classEntitlementId i"

section \<open>Transfer\<close>

definition transfer_update :: "string \<Rightarrow> class_status \<Rightarrow> ent_update" where
  "transfer_update target st =
     \<lparr>eu_festivalClassId = Some target, eu_status = Some st, eu_expectedStatus = Some live_statuses\<rparr>"

definition confirmed_in :: "string \<Rightarrow> string \<Rightarrow> dt_world \<Rightarrow> class_entitlement list" where
  "confirmed_in org cls w = list_class_entitlements
     (any_entitlement\<lparr>ef_organizationId := Some org, ef_festivalClassId := Some cls,
                      ef_status := Some Confirmed\<rparr>) (dw_ents w)"

definition execute_transfer ::
    "dt_env \<Rightarrow> class_entitlement \<Rightarrow> transfer_input \<Rightarrow> int \<Rightarrow> (dt_world, registration_result) act" where
  "execute_transfer env initial i capacity = (\<lambda>w.
     let org = ce_organizationId initial; fest = ce_festivalId initial;
         source = ce_festivalClassId initial; target = tr_targetFestivalClassId i;
         actor = or_default (tr_actorUid i) ''system'';
         role = or_default (tr_actorRole i) ''customer''
     in (case get_entitlement (ce_id initial) (Some org) w of
           None \<Rightarrow> (Inl not_found_error, w)
         | Some e \<Rightarrow>
             if ce_status e \<noteq> Confirmed \<and> ce_status e \<noteq> Waitlisted
             then (Inl (status_error ''transfer'' (ce_status e) 400), w)
             else
               let st = (if int (length (confirmed_in org target w)) < capacity then Confirmed else Waitlisted)
               in act_bind (ents_update env org (ce_id e) (transfer_update target st) (Some live_statuses))
                  (\<lambda>updated. (case updated of
                     None \<Rightarrow> act_throw (status_error ''transfer'' (ce_status e) 409)
                   | Some u \<Rightarrow>
                       act_bind (log_change env
                         \<lparr>ki_id = None, ki_organizationId = org, ki_festivalId = Some fest,
                          ki_classEntitlementId = ce_id e, ki_action = ''transfer'', ki_actorUid = actor,
                          ki_actorRole = role,
                          ki_previousState = state_snapshot (class_status_name (ce_status e)) source fest (ce_updatedAt e),
                          ki_newState = state_snapshot (class_status_name st) target fest (ce_updatedAt u),
                          ki_reason = tr_reason i, ki_createdAt = None\<rparr>) (\<lambda>log.
                       act_bind (if ce_status e = Confirmed
                          then act_bind (promote_top_waitlisted env org source actor)
                                 (\<lambda>promo. act_return (if pr_promoted promo then [promo] else []))
                          else act_return []) (\<lambda>promoted.
                       act_return
                         \<lparr>rg_success = True, rg_classEntitlementId = ce_id e, rg_targetFestivalClassId = Some target,
                          rg_previousFestivalClassId = Some source, rg_classEntitlement = u, rg_changeLog = log,
                          rg_refundEvent = None, rg_promoted = promoted\<rparr>)))) w))"

text \<open>
  \<open>transferRegistration\<close> when no other request runs while it waits for its locks: the
  entitlement and the capacity are read before the locks are taken.
\<close>

definition transfer_registration :: "dt_env \<Rightarrow> transfer_input \<Rightarrow> (dt_world, registration_result) act" where
  "transfer_registration env i = (\<lambda>w.
     (case get_entitlement (tr_classEntitlementId i) (tr_organizationId i) w of
        None \<Rightarrow> (Inl not_found_error, w)
      | Some initial \<Rightarrow>
          if ce_festivalClassId initial = tr_targetFestivalClassId i
          then (Inl (AppError ''Target festival class must be different from source festival class.'' 400 None), w)
          else if ce_status initial \<noteq> Confirmed \<and> ce_status initial \<noteq> Waitlisted
          then (Inl (status_error ''transfer'' (ce_status initial) 400), w)
          else act_bind (act_lift (assert_target_class_in_festival (dv_query env) (ce_organizationId initial)
                   (Some (ce_festivalId initial)) (tr_targetFestivalClassId i)))
                 (execute_transfer env initial i) w))"

definition transfer_lock_keys :: "class_entitlement \<Rightarrow> transfer_input \<Rightarrow> string list" where
  "transfer_lock_keys initial i =
     [''entitlement:'' @ ce_organizationId initial @ '':'' @ ce_id initial,
      ''capacity:'' @ ce_organizationId initial @ '':'' @ tr_targetFestivalClassId i,
      ''capacity:'' @ ce_organizationId initial @ '':'' @ ce_festivalClassId initial]"

section \<open>What each step changes\<close>

definition seats :: "string \<Rightarrow> string \<Rightarrow> dt_world \<Rightarrow> nat" where
  "seats org cls w = count_confirmed_class_entitlements org cls (dw_ents w)"

lemma log_change_ents: "log_change env i w = (res, w') \<Longrightarrow> dw_ents w' = dw_ents w"
  by (auto simp: log_change_def split: prod.splits)

lemma add_refund_event_ents: "add_refund_event env i w = (res, w') \<Longrightarrow> dw_ents w' = dw_ents w"
  by (auto simp: add_refund_event_def split: prod.splits)

lemma set_refund_status_ents: "set_refund_status env u w = (res, w') \<Longrightarrow> dw_ents w' = dw_ents w"
  by (auto simp: set_refund_status_def split: prod.splits)

lemma issue_line_refund_ents:
  "issue_line_refund env f org request ev w = (res, w') \<Longrightarrow> dw_ents w' = dw_ents w"
  by (auto simp: issue_line_refund_def act_catch_def act_bind_def
      split: prod.splits sum.splits dest!: set_refund_status_ents)

lemma process_drop_refund_ents:
  assumes "process_drop_refund env org lid e requested rr why w = (res, w')"
  shows "dw_ents w' = dw_ents w"
  using assms unfolding process_drop_refund_def
  by (cases rule: act_bind_cases)
    (auto simp: Let_def act_bind_def split: if_splits prod.splits sum.splits option.splits
      dest!: add_refund_event_ents issue_line_refund_ents)

lemmas refund_ents = log_change_ents add_refund_event_ents set_refund_status_ents process_drop_refund_ents

lemma ents_update_returns:
  obtains upd w1 where "ents_update env org eid u expected w = (Inr upd, w1)"
  by (cases "update_class_entitlement org eid u expected (dv_now env (dw_tick w)) (dw_ents w)")
    (simp add: ents_update_def)

text \<open>An update of the entitlement store as the services see it.\<close>

lemma ents_update_cases:
  assumes "ents_update env org eid u expected w = (res, w')" "ent_inv (dw_ents w)"
  obtains (missing) "res = Inr None" "dw_ents w' = dw_ents w" "dw_changes w' = dw_changes w"
    | (updated) e e' where "res = Inr (Some e')" "get_class_entitlement org eid (dw_ents w) = Some e"
        "e' = apply_update u (dv_now env (dw_tick w)) e" "get_class_entitlement org eid (dw_ents w') = Some e'"
        "\<And>k c. seats k c w' + (if seated k c e then 1 else 0) = seats k c w + (if seated k c e' then 1 else 0)"
        "ent_inv (dw_ents w')" "dw_changes w' = dw_changes w"
proof -
  obtain r0 r where up: "update_class_entitlement org eid u expected (dv_now env (dw_tick w)) (dw_ents w) = (r0, r)"
    by fastforce
  with assms(1) have w': "res = Inr r0" "dw_ents w' = r" "dw_changes w' = dw_changes w"
    by (auto simp: ents_update_def)
  show thesis
  proof (cases r0)
    case None
    with up w' show ?thesis using ent_store.change_missing missing by blast
  next
    case (Some e')
    from ent_store.change_obtain [OF assms(2) up [unfolded Some]]
    obtain e where "get_class_entitlement org eid (dw_ents w) = Some e"
      "e' = apply_update u (dv_now env (dw_tick w)) e" "get_class_entitlement org eid r = Some e'"
      "\<And>k c. count_confirmed_class_entitlements k c r + (if seated k c e then 1 else 0)
         = count_confirmed_class_entitlements k c (dw_ents w) + (if seated k c e' then 1 else 0)" by blast
    moreover have "ent_inv r" by (rule ent_store.change_good [OF assms(2) up])
    ultimately show ?thesis using updated w' Some by (auto simp: seats_def)
  qed
qed

lemma found_org: "get_class_entitlement org eid r = Some e \<Longrightarrow> ce_organizationId e = org"
  by (simp add: get_class_entitlement_def split: option.splits if_splits)

lemma confirm_update_class: "ce_festivalClassId (apply_update confirm_update t e) = ce_festivalClassId e"
  by (simp add: apply_update_def confirm_update_def)

lemma promote_and_log_seats:
  assumes "promote_and_log env org cls actor role ff reason e w = (res, w')" "ent_inv (dw_ents w)"
    and "get_class_entitlement org (ce_id e) (dw_ents w) = Some e"
  shows "seats k c w' \<le> seats k c w + (if k = org \<and> c = ce_festivalClassId e then 1 else 0)"
    and "ent_inv (dw_ents w')"
proof -
  have "seats k c w' \<le> seats k c w + (if k = org \<and> c = ce_festivalClassId e then 1 else 0) \<and> ent_inv (dw_ents w')"
    using assms(1) unfolding promote_and_log_def
  proof (cases rule: act_bind_cases)
    case (thrown err)
    with assms(2) show ?thesis by (auto simp: ents_update_def split: prod.splits)
  next
    case (returned upd w1)
    have same: "dw_ents w' = dw_ents w1"
      using returned(2) by (auto simp: act_bind_def split: prod.splits sum.splits dest!: log_change_ents)
    from returned(1) assms(2) show ?thesis
    proof (cases rule: ents_update_cases)
      case missing
      with same assms(2) show ?thesis by (simp add: seats_def)
    next
      case (updated e0 e')
      have "e0 = e" using updated(2) assms(3) by simp
      with updated(3) have "e' = apply_update confirm_update (dv_now env (dw_tick w)) e" by simp
      then have "ce_organizationId e' = ce_organizationId e" "ce_festivalClassId e' = ce_festivalClassId e"
        by (simp_all add: confirm_update_class)
      then have "seated k c e' \<longrightarrow> k = org \<and> c = ce_festivalClassId e"
        using found_org [OF assms(3)] by (simp add: seated_def)
      moreover have "seats k c w1 \<le> seats k c w + (if seated k c e' then 1 else 0)"
        using updated(5) [of k c] by (simp split: if_splits)
      moreover have "seats k c w' = seats k c w1" "ent_inv (dw_ents w')"
        using updated(6) same by (simp_all add: seats_def)
      ultimately show ?thesis by (cases "seated k c e'") simp_all
    qed
  qed
  then show "seats k c w' \<le> seats k c w + (if k = org \<and> c = ce_festivalClassId e then 1 else 0)"
    "ent_inv (dw_ents w')" by blast+
qed

lemma waitlisted_for_member:
  assumes "e \<in> set (waitlisted_for org cls w)" "ent_inv (dw_ents w)" "org \<noteq> []" "cls \<noteq> []"
  shows "ce_organizationId e = org" "ce_festivalClassId e = cls" "ce_status e = Waitlisted"
    "get_class_entitlement org (ce_id e) (dw_ents w) = Some e"
proof -
  have e: "e \<in> set (js_values (en_entitlements (dw_ents w)))" "ce_organizationId e = org"
    "ce_festivalClassId e = cls" "ce_status e = Waitlisted"
    using assms(1,3,4)
    by (auto simp: waitlisted_for_def waitlist_order_def list_class_entitlements_def matches_filter_def any_entitlement_def)
  from e(1) assms(2) obtain key where "js_get (en_entitlements (dw_ents w)) key = Some e" "ce_id e = key"
    by (metis ent_inv_def js_values_get)
  with e show "get_class_entitlement org (ce_id e) (dw_ents w) = Some e"
    by (simp add: get_class_entitlement_def)
  show "ce_organizationId e = org" "ce_festivalClassId e = cls" "ce_status e = Waitlisted" by fact+
qed

lemma promote_top_seats:
  assumes "promote_top_waitlisted env org cls actor w = (res, w')" "ent_inv (dw_ents w)" "org \<noteq> []" "cls \<noteq> []"
  shows "seats k c w' \<le> seats k c w + (if k = org \<and> c = cls then 1 else 0)" "ent_inv (dw_ents w')"
proof -
  have "seats k c w' \<le> seats k c w + (if k = org \<and> c = cls then 1 else 0) \<and> ent_inv (dw_ents w')"
  proof (cases "waitlisted_for org cls w")
    case Nil
    with assms(1,2) show ?thesis by (simp add: promote_top_waitlisted_def)
  next
    case (Cons first rest)
    then have "first \<in> set (waitlisted_for org cls w)" by simp
    note m = waitlisted_for_member [OF this assms(2-4)]
    from assms(1) Cons
    have "promote_and_log env org cls actor ''system'' []
        ''Top waitlisted candidate promoted to confirmed'' first w = (res, w')"
      by (simp add: promote_top_waitlisted_def)
    note seats_after = promote_and_log_seats [OF this assms(2) m(4)]
    from seats_after(1) [of k c] seats_after(2) m(2) show ?thesis by simp
  qed
  then show "seats k c w' \<le> seats k c w + (if k = org \<and> c = cls then 1 else 0)" "ent_inv (dw_ents w')" by blast+
qed

lemma get_entitlement_stored:
  assumes "get_entitlement eid org w = Some e" "ent_inv (dw_ents w)"
  shows "get_class_entitlement (ce_organizationId e) (ce_id e) (dw_ents w) = Some e" "ce_id e = eid"
proof -
  from assms(1) have "js_get (en_entitlements (dw_ents w)) eid = Some e"
    by (auto simp: get_entitlement_def get_class_entitlement_def split: if_splits option.splits)
  with assms(2) show "get_class_entitlement (ce_organizationId e) (ce_id e) (dw_ents w) = Some e" "ce_id e = eid"
    by (auto simp: ent_inv_def get_class_entitlement_def)
qed

text \<open>The cancelling half either changes no entitlement or frees the seat of the dropped one.\<close>

lemma drop_cancel_cases:
  assumes "drop_cancel env i w = (res, w')" "ent_inv (dw_ents w)"
  obtains (unchanged) err where "res = Inl err" "dw_ents w' = dw_ents w"
    | (cancelled) e u where "get_entitlement (dr_classEntitlementId i) (dr_organizationId i) w = Some e"
        "ce_status e = Confirmed \<or> ce_status e = Waitlisted"
        "u = apply_update cancel_update (dv_now env (dw_tick w)) e"
        "get_class_entitlement (ce_organizationId e) (ce_id e) (dw_ents w') = Some u"
        "\<And>k c. seats k c w' + (if seated k c e then 1 else 0) = seats k c w"
        "ent_inv (dw_ents w')"
        "\<And>x. res = Inr x \<Longrightarrow> fst x = e \<and> fst (snd x) = u"
proof (cases "get_entitlement (dr_classEntitlementId i) (dr_organizationId i) w")
  case None
  with assms(1) have "(\<exists>err. res = Inl err) \<and> dw_ents w' = dw_ents w" by (auto simp: drop_cancel_def)
  then show ?thesis using unchanged by blast
next
  case (Some e)
  show ?thesis
  proof (cases "ce_status e = Confirmed \<or> ce_status e = Waitlisted")
    case False
    with Some assms(1) have "(\<exists>err. res = Inl err) \<and> dw_ents w' = dw_ents w"
      by (auto simp: drop_cancel_def split: if_splits)
    then show ?thesis using unchanged by blast
  next
    case live: True
    note stored = get_entitlement_stored [OF Some assms(2)]
    let ?amount = "if drop_requests_refund i then resolve_requested_refund_amount e (dr_refundAmountCents i) else Inr 0"
    show ?thesis
    proof (cases ?amount)
      case (Inl err)
      with Some live assms(1) have "(\<exists>err. res = Inl err) \<and> dw_ents w' = dw_ents w"
        by (auto simp: drop_cancel_def act_bind_def split: if_splits)
      then show ?thesis using unchanged by blast
    next
      case (Inr n)
      obtain upd w1 where up: "ents_update env (ce_organizationId e) (ce_id e) cancel_update (Some live_statuses) w = (Inr upd, w1)"
        by (rule ents_update_returns)
      from up assms(2) show ?thesis
      proof (cases rule: ents_update_cases)
        case missing
        with Some live Inr up assms(1) have "(\<exists>err. res = Inl err) \<and> dw_ents w' = dw_ents w"
          by (auto simp: drop_cancel_def split: if_splits)
        then show ?thesis using unchanged by blast
      next
        case (updated e0 u)
        have e0: "e0 = e" using updated(2) stored(1) by simp
        have not_seated: "\<not> seated k c u" for k c
          using updated(3) by (simp add: seated_def apply_update_def cancel_update_def)
        have seats1: "seats k c w1 + (if seated k c e then 1 else 0) = seats k c w" for k c
          using updated(5) [of k c] e0 not_seated by simp
        obtain lres w2 i' where log: "log_change env i' w1 = (lres, w2)"
          and rest: "res = map_sum id (\<lambda>log. (e, u, log)) lres" "w' = w2"
          using assms(1) Some live Inr up updated(1)
          by (auto simp: drop_cancel_def act_bind_def split: if_splits prod.splits sum.splits)
        have same: "dw_ents w' = dw_ents w1" using log_change_ents [OF log] rest(2) by simp
        show ?thesis
        proof (rule cancelled [OF Some live])
          show "u = apply_update cancel_update (dv_now env (dw_tick w)) e" using updated(3) e0 by simp
          show "get_class_entitlement (ce_organizationId e) (ce_id e) (dw_ents w') = Some u"
            using updated(4) same by simp
          show "seats k c w' + (if seated k c e then 1 else 0) = seats k c w" for k c
            using seats1 [of k c] same by (simp add: seats_def)
          show "ent_inv (dw_ents w')" using updated(6) same by simp
          show "fst x = e \<and> fst (snd x) = u" if "res = Inr x" for x
            using rest(1) that by (cases lres) auto
        qed
      qed
    qed
  qed
qed

lemma drop_finish_seats:
  assumes "drop_finish env i e u log w = (res, w')" "ent_inv (dw_ents w)"
    "ce_organizationId e \<noteq> []" "ce_festivalClassId e \<noteq> []"
  shows "seats k c w' \<le> seats k c w
      + (if ce_status e \<noteq> Waitlisted \<and> k = ce_organizationId e \<and> c = ce_festivalClassId e then 1 else 0)"
    and "ent_inv (dw_ents w')"
proof -
  have "seats k c w' \<le> seats k c w
      + (if ce_status e \<noteq> Waitlisted \<and> k = ce_organizationId e \<and> c = ce_festivalClassId e then 1 else 0)
      \<and> ent_inv (dw_ents w')"
  proof (cases "ce_status e = Waitlisted")
    case True
    with assms(1,2) show ?thesis by (simp add: drop_finish_def)
  next
    case False
    with assms(1) have "act_bind (promote_top_waitlisted env (ce_organizationId e) (ce_festivalClassId e)
                   (or_default (dr_actorUid i) ''system'')) (\<lambda>promo.
        act_bind (if drop_requests_refund i
                  then act_bind (process_drop_refund env (ce_organizationId e) (cl_id log) e
                         (dr_refundAmountCents i) (dr_refundReason i) (dr_reason i))
                         (\<lambda>ev. act_return (Some ev))
                  else act_return None) (\<lambda>refund.
        act_return
          \<lparr>rg_success = True, rg_classEntitlementId = ce_id e, rg_targetFestivalClassId = None,
           rg_previousFestivalClassId = None, rg_classEntitlement = u, rg_changeLog = log,
           rg_refundEvent = refund, rg_promoted = (if pr_promoted promo then [promo] else [])\<rparr>)) w = (res, w')"
      by (simp add: drop_finish_def)
    then obtain pres w1 where promo: "promote_top_waitlisted env (ce_organizationId e) (ce_festivalClassId e)
                   (or_default (dr_actorUid i) ''system'') w = (pres, w1)" and same: "dw_ents w' = dw_ents w1"
      by (cases rule: act_bind_cases)
        (auto simp: act_bind_def split: prod.splits sum.splits if_splits dest!: process_drop_refund_ents)
    note p = promote_top_seats [OF promo assms(2-4)]
    from p(1) [of k c] p(2) False same show ?thesis by (simp add: seats_def)
  qed
  then show "seats k c w' \<le> seats k c w
      + (if ce_status e \<noteq> Waitlisted \<and> k = ce_organizationId e \<and> c = ce_festivalClassId e then 1 else 0)"
    "ent_inv (dw_ents w')" by blast+
qed

lemma confirmed_in_seats:
  assumes "org \<noteq> []" "cls \<noteq> []"
  shows "length (confirmed_in org cls w) = seats org cls w"
proof -
  have "matches_filter (any_entitlement\<lparr>ef_organizationId := Some org, ef_festivalClassId := Some cls,
      ef_status := Some Confirmed\<rparr>) = seated org cls"
    using assms by (auto simp: matches_filter_def any_entitlement_def seated_def fun_eq_iff)
  then show ?thesis
    by (simp add: confirmed_in_def list_class_entitlements_def seats_def
        count_confirmed_class_entitlements_def count_values_def)
qed

text \<open>A transfer either changes no entitlement, or moves one and then promotes at most one.\<close>

lemma execute_transfer_cases:
  assumes "execute_transfer env initial i cap w = (res, w')" "ent_inv (dw_ents w)"
  obtains (unchanged) "dw_ents w' = dw_ents w"
    | (moved) e u st w1 w2 where
        "get_entitlement (ce_id initial) (Some (ce_organizationId initial)) w = Some e"
        "st = (if int (length (confirmed_in (ce_organizationId initial) (tr_targetFestivalClassId i) w)) < cap
               then Confirmed else Waitlisted)"
        "ents_update env (ce_organizationId initial) (ce_id e) (transfer_update (tr_targetFestivalClassId i) st)
           (Some live_statuses) w = (Inr (Some u), w1)"
        "dw_ents w2 = dw_ents w1"
        "dw_ents w' = dw_ents w2 \<or> ce_status e = Confirmed \<and>
           (\<exists>pres w3. promote_top_waitlisted env (ce_organizationId initial) (ce_festivalClassId initial)
              (or_default (tr_actorUid i) ''system'') w2 = (pres, w3) \<and> dw_ents w' = dw_ents w3)"
proof (cases "get_entitlement (ce_id initial) (Some (ce_organizationId initial)) w")
  case None
  with assms(1) have "w' = w" by (simp add: execute_transfer_def Let_def)
  then show ?thesis using unchanged by simp
next
  case (Some e)
  show ?thesis
  proof (cases "ce_status e = Confirmed \<or> ce_status e = Waitlisted")
    case False
    with Some assms(1) have "w' = w" by (auto simp: execute_transfer_def Let_def)
    then show ?thesis using unchanged by simp
  next
    case live: True
    define st where "st = (if int (length (confirmed_in (ce_organizationId initial) (tr_targetFestivalClassId i) w)) < cap
               then Confirmed else Waitlisted)"
    obtain upd w1 where up: "ents_update env (ce_organizationId initial) (ce_id e)
        (transfer_update (tr_targetFestivalClassId i) st) (Some live_statuses) w = (Inr upd, w1)"
      by (rule ents_update_returns)
    show ?thesis
    proof (cases upd)
      case None
      with up assms(2) have "dw_ents w1 = dw_ents w" by (cases rule: ents_update_cases) auto
      moreover have "w' = w1" using None Some live up assms(1)
        by (auto simp: execute_transfer_def Let_def st_def [symmetric])
      ultimately show ?thesis using unchanged by simp
    next
      case (Some u)
      obtain input lres w2 where log: "log_change env input w1 = (lres, w2)"
        and rest: "w' = w2 \<or> ce_status e = Confirmed \<and>
           (\<exists>pres w3. promote_top_waitlisted env (ce_organizationId initial) (ce_festivalClassId initial)
              (or_default (tr_actorUid i) ''system'') w2 = (pres, w3) \<and> w' = w3)"
        using assms(1) \<open>get_entitlement _ _ w = Some e\<close> live up [unfolded Some]
        by (auto simp: execute_transfer_def Let_def st_def [symmetric] act_bind_def
            split: if_splits prod.splits sum.splits)
      show ?thesis
        by (rule moved [OF \<open>get_entitlement _ _ w = Some e\<close> st_def up [unfolded Some] log_change_ents [OF log]])
          (use rest in blast)
    qed
  qed
qed

lemma transfer_update_fields:
  "ce_festivalClassId (apply_update (transfer_update target st) t e) = target"
  "ce_status (apply_update (transfer_update target st) t e) = st"
  by (simp_all add: apply_update_def transfer_update_def)

lemma promote_top_effect:
  assumes "promote_top_waitlisted env org cls actor w = (res, w')" "ent_inv (dw_ents w)" "org \<noteq> []" "cls \<noteq> []"
  shows "waitlisted_for org cls w \<noteq> [] \<Longrightarrow> seats org cls w' = Suc (seats org cls w)"
    and "get_class_entitlement k yid (dw_ents w) = Some y \<Longrightarrow> k \<noteq> org \<or> ce_festivalClassId y \<noteq> cls \<Longrightarrow>
      get_class_entitlement k yid (dw_ents w') = Some y"
    and "k \<noteq> org \<or> c \<noteq> cls \<Longrightarrow> seats k c w' = seats k c w"
proof -
  have "(waitlisted_for org cls w \<noteq> [] \<longrightarrow> seats org cls w' = Suc (seats org cls w)) \<and>
    (get_class_entitlement k yid (dw_ents w) = Some y \<longrightarrow> k \<noteq> org \<or> ce_festivalClassId y \<noteq> cls \<longrightarrow>
      get_class_entitlement k yid (dw_ents w') = Some y) \<and>
    (k \<noteq> org \<or> c \<noteq> cls \<longrightarrow> seats k c w' = seats k c w)"
  proof (cases "waitlisted_for org cls w")
    case Nil
    with assms(1) show ?thesis by (simp add: promote_top_waitlisted_def)
  next
    case (Cons first rest)
    then have "first \<in> set (waitlisted_for org cls w)" by simp
    note m = waitlisted_for_member [OF this assms(2-4)]
    obtain upd w1 where up: "ents_update env org (ce_id first) confirm_update None w = (Inr upd, w1)"
      by (rule ents_update_returns)
    have same: "dw_ents w' = dw_ents w1"
      using assms(1) Cons up
      by (auto simp: promote_top_waitlisted_def promote_and_log_def act_bind_def split: prod.splits sum.splits dest!: log_change_ents)
    obtain r0 r where raw: "update_class_entitlement org (ce_id first) confirm_update None (dv_now env (dw_tick w)) (dw_ents w) = (r0, r)"
      by fastforce
    with up have r: "dw_ents w1 = r" "r0 = upd" by (auto simp: ents_update_def)
    have stored: "js_get (en_entitlements (dw_ents w)) (ce_id first) = Some first" "ce_organizationId first = org"
      using m(4) by (auto simp: get_class_entitlement_def split: option.splits if_splits)
    with raw obtain u where u: "upd = Some u" using r(2) by (auto simp: update_class_entitlement_def confirm_update_def)
    from up assms(2) show ?thesis
    proof (cases rule: ents_update_cases)
      case (updated e0 e')
      have "e0 = first" using updated(2) m(4) by simp
      then have e': "e' = apply_update confirm_update (dv_now env (dw_tick w)) first" using updated(3) by simp
      have seated': "seated k c e' \<longleftrightarrow> k = org \<and> c = cls" for k c
        using e' m(1,2) by (auto simp: seated_def apply_update_def confirm_update_def)
      have "\<not> seated k c e0" for k c using \<open>e0 = first\<close> m(3) by (simp add: seated_def)
      then have seats: "seats k c w' = seats k c w + (if k = org \<and> c = cls then 1 else 0)" for k c
        using updated(5) [of k c] seated' same by (simp add: seats_def)
      have "get_class_entitlement k yid (dw_ents w') = Some y"
        if "get_class_entitlement k yid (dw_ents w) = Some y" "k \<noteq> org \<or> ce_festivalClassId y \<noteq> cls"
      proof -
        have "yid \<noteq> ce_id first"
          using that stored m(2) by (auto simp: get_class_entitlement_def split: option.splits if_splits)
        then show ?thesis
          using raw [symmetric] r same that(1) stored
          by (simp add: update_class_entitlement_def confirm_update_def get_class_entitlement_def)
      qed
      with seats show ?thesis by auto
    qed (simp add: u)
  qed
  then show "waitlisted_for org cls w \<noteq> [] \<Longrightarrow> seats org cls w' = Suc (seats org cls w)"
    "get_class_entitlement k yid (dw_ents w) = Some y \<Longrightarrow> k \<noteq> org \<or> ce_festivalClassId y \<noteq> cls \<Longrightarrow>
      get_class_entitlement k yid (dw_ents w') = Some y"
    "k \<noteq> org \<or> c \<noteq> cls \<Longrightarrow> seats k c w' = seats k c w" by blast+
qed

lemma waitlisted_forI:
  assumes "get_class_entitlement org yid (dw_ents w) = Some y" "ce_festivalClassId y = cls" "ce_status y = Waitlisted"
  shows "waitlisted_for org cls w \<noteq> []"
proof -
  have "js_get (en_entitlements (dw_ents w)) yid = Some y" "ce_organizationId y = org"
    using assms(1) by (auto simp: get_class_entitlement_def split: option.splits if_splits)
  then have "y \<in> set (js_values (en_entitlements (dw_ents w)))" by (blast intro: js_get_Some_values)
  with assms(2,3) \<open>ce_organizationId y = org\<close> have "y \<in> set (waitlisted_for org cls w)"
    by (simp add: waitlisted_for_def waitlist_order_def list_class_entitlements_def matches_filter_def any_entitlement_def)
  then show ?thesis by auto
qed

text \<open>A transfer that finds a free place in its target takes it, and leaves the waiting list there alone.\<close>

lemma transfer_takes_seat:
  assumes "transfer_registration env t w = (Inr moved, w')" "ent_inv (dw_ents w)"
    and "get_entitlement (tr_classEntitlementId t) (tr_organizationId t) w = Some x"
    and "ce_organizationId x = org" "org \<noteq> []" "ce_festivalClassId x \<noteq> []" "tr_targetFestivalClassId t = cls" "cls \<noteq> []"
    and "assert_target_class_in_festival (dv_query env) org (Some (ce_festivalId x)) cls = Inr cap" "int (seats org cls w) < cap"
  shows "ce_festivalClassId x \<noteq> cls" "ce_status x = Confirmed \<or> ce_status x = Waitlisted" "seats org cls w' = Suc (seats org cls w)"
    "ent_inv (dw_ents w')" "ce_status (rg_classEntitlement moved) = Confirmed"
    "get_class_entitlement org yid (dw_ents w) = Some y \<Longrightarrow> ce_festivalClassId y = cls \<Longrightarrow> get_class_entitlement org yid (dw_ents w') = Some y"
proof -
  from assms(1,3) show live: "ce_festivalClassId x \<noteq> cls" "ce_status x = Confirmed \<or> ce_status x = Waitlisted"
    by (auto simp: transfer_registration_def assms(7) split: if_splits)
  have run: "execute_transfer env x t cap w = (Inr moved, w')"
    using assms(1,3) live assms(9) by (auto simp: transfer_registration_def assms(4,7) split: if_splits)
  note stored = get_entitlement_stored [OF assms(3,2)]
  have again: "get_entitlement (ce_id x) (Some org) w = Some x"
    using stored(1) assms(4,5) by (simp add: get_entitlement_def)
  have room: "int (length (confirmed_in org cls w)) < cap" using assms(5,8,10) by (simp add: confirmed_in_seats)
  obtain upd w1 where up: "ents_update env org (ce_id x) (transfer_update cls Confirmed) (Some live_statuses) w = (Inr upd, w1)"
    by (rule ents_update_returns)
  from run live again room up have u: "upd \<noteq> None"
    by (cases upd) (auto simp: execute_transfer_def Let_def assms(4,7))
  then obtain u where u: "upd = Some u" by blast
  obtain input log w2 promoted where log: "log_change env input w1 = (Inr log, w2)"
    and rest: "(if ce_status x = Confirmed
                          then act_bind (promote_top_waitlisted env org (ce_festivalClassId x) (or_default (tr_actorUid t) ''system''))
                                 (\<lambda>promo. act_return (if pr_promoted promo then [promo] else []))
                          else act_return []) w2 = (Inr promoted, w')" "rg_classEntitlement moved = u"
    using run live again room up u
    by (auto simp: execute_transfer_def Let_def assms(4,7) act_bind_eq_Inr split: if_splits)
  note w2 = log_change_ents [OF log]
  from up assms(2) have "ce_status (rg_classEntitlement moved) = Confirmed \<and> seats org cls w' = Suc (seats org cls w) \<and>
      ent_inv (dw_ents w') \<and>
      (get_class_entitlement org yid (dw_ents w) = Some y \<longrightarrow> ce_festivalClassId y = cls \<longrightarrow> get_class_entitlement org yid (dw_ents w') = Some y)"
  proof (cases rule: ents_update_cases)
    case (updated e0 e')
    have e0: "e0 = x" using updated(2) stored(1) assms(4) by simp
    have e': "e' = u" "ce_status u = Confirmed" "ce_festivalClassId u = cls" "ce_organizationId u = org"
      using updated(1,3) u e0 assms(4) by (auto simp: apply_update_def transfer_update_def)
    have "seated org cls u" "\<not> seated org cls x" using e' live by (auto simp: seated_def)
    then have s1: "seats org cls w1 = Suc (seats org cls w)" using updated(5) [of org cls] e0 e'(1) by simp
    have inv2: "ent_inv (dw_ents w2)" using updated(6) w2 by simp
    have y2: "get_class_entitlement org yid (dw_ents w2) = Some y"
      if "get_class_entitlement org yid (dw_ents w) = Some y" "ce_festivalClassId y = cls"
    proof -
      have "yid \<noteq> ce_id x" using that stored(1) live(1) assms(4) by auto
      moreover obtain r0 r where raw: "update_class_entitlement org (ce_id x) (transfer_update cls Confirmed) (Some live_statuses) (dv_now env (dw_tick w)) (dw_ents w) = (r0, r)"
        by fastforce
      moreover from raw up have "dw_ents w1 = r" by (auto simp: ents_update_def)
      ultimately show ?thesis using ent_store.change_other [OF assms(2) raw, of yid] that(1) w2 by simp
    qed
    have "seats org cls w' = seats org cls w2 \<and> ent_inv (dw_ents w') \<and>
      (get_class_entitlement org yid (dw_ents w2) = Some y \<longrightarrow> ce_festivalClassId y = cls \<longrightarrow> get_class_entitlement org yid (dw_ents w') = Some y)"
    proof (cases "ce_status x = Confirmed")
      case True
      with rest(1) obtain promo where p: "promote_top_waitlisted env org (ce_festivalClassId x) (or_default (tr_actorUid t) ''system'') w2 = (Inr promo, w')"
        by (auto simp: act_bind_eq_Inr)
      show ?thesis
        using promote_top_effect(2) [OF p inv2 assms(5,6), of org yid y] promote_top_effect(3) [OF p inv2 assms(5,6), of org cls]
          promote_top_seats(2) [OF p inv2 assms(5,6)] live(1) by auto
    next
      case False
      with rest(1) inv2 show ?thesis by simp
    qed
    with s1 y2 w2 e' rest(2) show ?thesis by (simp add: seats_def)
  qed (simp add: u)
  then show "ce_status (rg_classEntitlement moved) = Confirmed" "seats org cls w' = Suc (seats org cls w)"
    "ent_inv (dw_ents w')"
    "get_class_entitlement org yid (dw_ents w) = Some y \<Longrightarrow> ce_festivalClassId y = cls \<Longrightarrow> get_class_entitlement org yid (dw_ents w') = Some y"
    by blast+
qed

text \<open>The locks of the two requests have no key in common unless they name the same entitlement.\<close>

lemma drop_transfer_locks:
  assumes "dr_organizationId d = Some (ce_organizationId x)" "dr_classEntitlementId d \<noteq> ce_id x"
  shows "drop_lock_key d \<notin> set (transfer_lock_keys x t)"
  using assms by (simp add: drop_lock_key_def transfer_lock_keys_def or_default_def)

section \<open>Concrete runs\<close>

fun seed_entitlements ::
    "(class_entitlement_input \<times> string) list \<Rightarrow> string \<Rightarrow> ent_repo \<Rightarrow> ent_repo option" where
  "seed_entitlements [] t r = Some r"
| "seed_entitlements ((i, eid) # rest) t r =
     (if create_id i eid = [] \<or> js_get (en_entitlements r) (create_id i eid) \<noteq> None then None
      else (case create_class_entitlement i eid t r of
              Inl _ \<Rightarrow> None
            | Inr (_, r') \<Rightarrow> seed_entitlements rest t r'))"

lemma seed_entitlements_inv: "seed_entitlements xs t r = Some r' \<Longrightarrow> ent_inv r \<Longrightarrow> ent_inv r'"
  by (induction xs t r rule: seed_entitlements.induct)
    (fastforce split: if_splits sum.splits dest: create_preserves_inv)+

text \<open>
  Ann holds the only seat of class c1, Bob and Cyd wait for it (Bob first), Dee has a seat in
  class c2.  The capacity of every class is one; \<open>demo_provider\<close> refunds single order lines.
\<close>

definition demo_waitlisted :: "string \<Rightarrow> string \<Rightarrow> string \<Rightarrow> class_entitlement_input" where
  "demo_waitlisted line child created =
     (demo_ent_input line child)\<lparr>ci_status := Some ''waitlisted'', ci_createdAt := Some created\<rparr>"

definition demo_store :: ent_repo where
  "demo_store =
     (let e1 = new_entitlement (demo_ent_input ''L1'' ''ann'') ''e1'' ''2026-01-01'';
          e3 = new_entitlement (demo_waitlisted ''L3'' ''cyd'' ''2026-01-03'') ''e3'' ''2026-01-01'';
          e2 = new_entitlement (demo_waitlisted ''L2'' ''bob'' ''2026-01-02'') ''e2'' ''2026-01-01'';
          e4 = new_entitlement ((demo_ent_input ''L4'' ''dee'')\<lparr>ci_festivalClassId := ''c2''\<rparr>) ''e4'' ''2026-01-01''
      in \<lparr>en_entitlements = [(''e1'', e1), (''e3'', e3), (''e2'', e2), (''e4'', e4)],
          en_byOrderLine = [(nul_key ''org'' ''L1'', ''e1''), (nul_key ''org'' ''L3'', ''e3''),
                            (nul_key ''org'' ''L2'', ''e2''), (nul_key ''org'' ''L4'', ''e4'')],
          en_byIntent = [(nul_key ''org'' ''intent'', ''e4'')],
          en_byIntentLine = [(nul_key ''org'' ''il-L1'', ''e1''), (nul_key ''org'' ''il-L3'', ''e3''),
                             (nul_key ''org'' ''il-L2'', ''e2''), (nul_key ''org'' ''il-L4'', ''e4'')]\<rparr>)"

lemma demo_store_seeded: "seed_entitlements
     [(demo_ent_input ''L1'' ''ann'', ''e1''), (demo_waitlisted ''L3'' ''cyd'' ''2026-01-03'', ''e3''),
      (demo_waitlisted ''L2'' ''bob'' ''2026-01-02'', ''e2''),
      ((demo_ent_input ''L4'' ''dee'')\<lparr>ci_festivalClassId := ''c2''\<rparr>, ''e4'')] ''2026-01-01'' empty_ent_repo
    = Some demo_store"
  by code_simp

lemma demo_store_inv: "ent_inv demo_store"
  by (rule seed_entitlements_inv [OF demo_store_seeded ent_inv_empty])

definition demo_world :: dt_world where
  "demo_world = \<lparr>dw_ents = demo_store, dw_changes = empty_change_repo, dw_tick = 0\<rparr>"

lemma demo_world_inv: "ent_inv (dw_ents demo_world)"
  by (simp add: demo_world_def demo_store_inv)

definition demo_provider :: "line_refund_request \<Rightarrow> string option + line_refund_result" where
  "demo_provider q = Inr \<lparr>rr_id = ''refund-1'', rr_orderId = rq_orderId q,
     rr_allocations = [\<lparr>al_shopifyOrderLineId = rq_shopifyOrderLineId q, al_amountCents = rq_amountCents q,
                        al_currency = rq_currency q\<rparr>]\<rparr>"

definition demo_env :: dt_env where
  "demo_env = \<lparr>dv_uuid = (\<lambda>n. ''id-'' @ pad 2 n), dv_now = (\<lambda>n. ''2026-02-'' @ pad 2 n),
     dv_refund = LineTargeted demo_provider, dv_query = FunctionQuery (\<lambda>cls org fest. Inr (Some (CapNumber 1)))\<rparr>"

definition demo_drop :: "string \<Rightarrow> drop_input" where
  "demo_drop eid = \<lparr>dr_classEntitlementId = eid, dr_organizationId = Some ''org'', dr_actorUid = Some ''parent'',
     dr_actorRole = None, dr_reason = None, dr_requestRefund = True, dr_issueRefund = False,
     dr_refundAmountCents = None, dr_refundReason = None\<rparr>"

definition demo_transfer :: "string \<Rightarrow> string \<Rightarrow> transfer_input" where
  "demo_transfer eid target = \<lparr>tr_classEntitlementId = eid, tr_targetFestivalClassId = target,
     tr_organizationId = Some ''org'', tr_actorUid = None, tr_actorRole = None, tr_reason = None\<rparr>"

lemmas [fest_eval] = or_default_def get_entitlement_def ents_update_def log_change_def add_refund_event_def
  set_refund_status_def drop_requests_refund_def resolve_requested_refund_amount_def cancel_update_def
  live_statuses_def confirm_update_def transfer_update_def drop_cancel_def drop_finish_def execute_drop_def
  execute_transfer_def transfer_registration_def promote_top_waitlisted_def promote_and_log_def
  promote_registration_def waitlisted_for_def waitlist_order_def promotion_log_def process_drop_refund_def
  refund_event_for_def manual_refund_reason_def line_targeted_provider_def refund_currency_def
  issue_line_refund_def act_catch_def refund_request_def provider_refund_def
  assert_verified_line_targeted_refund_def assert_target_class_in_festival_def target_config_def
  query_find_method_def resolve_class_capacity_def confirmed_in_def drop_lock_key_def transfer_lock_keys_def
  demo_world_def demo_store_def demo_waitlisted_def demo_provider_def demo_env_def demo_drop_def demo_transfer_def

lemma demo_get:
  assumes "get_entitlement eid (Some ''org'') demo_world = Some e"
  shows "ce_organizationId e \<noteq> [] \<and> ce_festivalClassId e \<noteq> []"
proof -
  from assms have "js_get (en_entitlements demo_store) eid = Some e"
    by (auto simp: get_entitlement_def get_class_entitlement_def demo_world_def split: option.splits if_splits)
  then show ?thesis
    by (auto simp: demo_store_def Let_def js_get_Cons new_entitlement_def demo_ent_input_def demo_waitlisted_def
        split: if_splits)
qed

section \<open>Properties\<close>

text \<open>
  C4: a drop that runs alone never overbooks.  From a well-formed repository, where the dropped
  registration names an organization and a class, with no other operation in between, no class has
  more confirmed registrations after the drop than before, whether it returns or throws: the
  cancelled registration frees its own seat and at most one waitlisted registration, of the same
  class, takes it.  C8 shows what a transfer in between does.
\<close>
theorem drop_never_overbooks:
  assumes "execute_drop env i w = (res, w')" "ent_inv (dw_ents w)"
    and "\<And>e. get_entitlement (dr_classEntitlementId i) (dr_organizationId i) w = Some e \<Longrightarrow>
           ce_organizationId e \<noteq> [] \<and> ce_festivalClassId e \<noteq> []"
  shows "count_confirmed_class_entitlements org cls (dw_ents w')
       \<le> count_confirmed_class_entitlements org cls (dw_ents w)"
proof -
  obtain cres w1 where cancel: "drop_cancel env i w = (cres, w1)" by fastforce
  from cancel assms(2) show ?thesis
  proof (cases rule: drop_cancel_cases)
    case (unchanged err)
    with assms(1) cancel show ?thesis by (simp add: execute_drop_def)
  next
    case (cancelled e u)
    have freed: "seats org cls w1 + (if seated org cls e then 1 else 0) = seats org cls w" by (rule cancelled(5))
    show ?thesis
    proof (cases cres)
      case (Inl err)
      with assms(1) cancel freed show ?thesis by (simp add: execute_drop_def seats_def)
    next
      case (Inr x)
      obtain log where x: "x = (e, u, log)" using cancelled(7) [OF Inr] by (cases x) auto
      from assms(1) cancel Inr x have fin: "drop_finish env i e u log w1 = (res, w')"
        by (simp add: execute_drop_def)
      have "seats org cls w' \<le> seats org cls w1 + (if ce_status e \<noteq> Waitlisted \<and>
          org = ce_organizationId e \<and> cls = ce_festivalClassId e then 1 else 0)"
        using assms(3) [OF cancelled(1)] by (intro drop_finish_seats(1) [OF fin cancelled(6)]) simp_all
      also have "\<dots> \<le> seats org cls w"
        using freed cancelled(2) by (auto simp: seated_def split: if_splits)
      finally show ?thesis by (simp add: seats_def)
    qed
  qed
qed

theorem drop_never_overbooks_witness:
  "count_confirmed_class_entitlements ''org'' ''c1''
     (dw_ents (snd (execute_drop demo_env (demo_drop ''e1'') demo_world)))
   \<le> count_confirmed_class_entitlements ''org'' ''c1'' (dw_ents demo_world)"
  by (rule drop_never_overbooks [of demo_env "demo_drop ''e1''" demo_world, OF surjective_pairing demo_world_inv])
    (simp add: demo_drop_def demo_get)

text \<open>
  C5: a transfer respects the capacity of the target class.  Run without interference, it
  leaves the target class with at most the larger of its capacity and its previous number of
  confirmed registrations, and raises the number of confirmed registrations of no other class.
\<close>
theorem transfer_respects_capacity:
  assumes "transfer_registration env i w = (res, w')" "ent_inv (dw_ents w)"
    and "get_entitlement (tr_classEntitlementId i) (tr_organizationId i) w = Some e"
    and "ce_organizationId e \<noteq> []" "ce_festivalClassId e \<noteq> []" "tr_targetFestivalClassId i \<noteq> []"
    and "assert_target_class_in_festival (dv_query env) (ce_organizationId e) (Some (ce_festivalId e))
           (tr_targetFestivalClassId i) = Inr cap"
  shows "int (count_confirmed_class_entitlements org cls (dw_ents w'))
       \<le> (if org = ce_organizationId e \<and> cls = tr_targetFestivalClassId i
          then max cap (int (count_confirmed_class_entitlements org cls (dw_ents w)))
          else int (count_confirmed_class_entitlements org cls (dw_ents w)))"
    (is "int ?after \<le> ?bound")
proof -
  let ?org = "ce_organizationId e" and ?tgt = "tr_targetFestivalClassId i"
  note stored = get_entitlement_stored [OF assms(3,2)]
  have again: "get_entitlement (ce_id e) (Some ?org) w = Some e"
    using stored(1) assms(4) by (simp add: get_entitlement_def)
  show ?thesis
  proof (cases "ce_festivalClassId e = ?tgt \<or> ce_status e \<noteq> Confirmed \<and> ce_status e \<noteq> Waitlisted")
    case True
    with assms(1,3) have "w' = w" by (auto simp: transfer_registration_def split: if_splits)
    then show ?thesis by simp
  next
    case False
    with assms(1,3,7) have "execute_transfer env e i cap w = (res, w')"
      by (auto simp: transfer_registration_def split: if_splits)
    from this assms(2) show ?thesis
    proof (cases rule: execute_transfer_cases)
      case unchanged
      then show ?thesis by simp
    next
      case (moved e1 u st w1 w2)
      from moved(1) again have e1: "e1 = e" by simp
      note moved = moved [unfolded e1]
      from moved(3) assms(2) show ?thesis
      proof (cases rule: ents_update_cases)
        case (updated e2 e')
        from updated(2) stored(1) have e2: "e2 = e" by simp
        have e': "seated k c e' \<longleftrightarrow> k = ?org \<and> c = ?tgt \<and> st = Confirmed" for k c
          unfolding updated(3) e2 by (auto simp: seated_def transfer_update_fields)
        have move: "seats k c w2 + (if seated k c e then 1 else 0)
            = seats k c w + (if k = ?org \<and> c = ?tgt \<and> st = Confirmed then 1 else 0)" for k c
          using updated(5) [of k c] e2 e' [of k c] moved(4) by (simp add: seats_def)
        have room: "st = Confirmed \<Longrightarrow> int (seats ?org ?tgt w) < cap"
          using moved(2) confirmed_in_seats [OF assms(4,6)] by (auto split: if_splits)
        have promoted: "seats k c w' \<le> seats k c w2
            + (if ce_status e = Confirmed \<and> k = ?org \<and> c = ce_festivalClassId e then 1 else 0)" for k c
          using moved(5)
        proof
          assume "ce_status e = Confirmed \<and> (\<exists>pres w3. promote_top_waitlisted env ?org
              (ce_festivalClassId e) (or_default (tr_actorUid i) ''system'') w2 = (pres, w3) \<and> dw_ents w' = dw_ents w3)"
          then obtain pres w3 where p: "promote_top_waitlisted env ?org (ce_festivalClassId e)
              (or_default (tr_actorUid i) ''system'') w2 = (pres, w3)" "dw_ents w' = dw_ents w3" "ce_status e = Confirmed"
            by blast
          have "ent_inv (dw_ents w2)" using updated(6) moved(4) by simp
          from promote_top_seats(1) [OF p(1) this assms(4,5), of k c] p(2,3) show ?thesis by (simp add: seats_def)
        qed (simp add: seats_def)
        have src: "ce_status e = Confirmed \<and> k = ?org \<and> c = ce_festivalClassId e \<longleftrightarrow> seated k c e" for k c
          by (auto simp: seated_def)
        have "seats org cls w' \<le> seats org cls w
            + (if org = ?org \<and> cls = ?tgt \<and> st = Confirmed then 1 else 0)"
          using promoted [of org cls] move [of org cls] unfolding src by simp
        then show ?thesis using room by (auto simp: seats_def split: if_splits)
      qed simp
    qed
  qed
qed

lemma demo_e4:
  "get_entitlement ''e4'' (Some ''org'') demo_world
     = Some (new_entitlement ((demo_ent_input ''L4'' ''dee'')\<lparr>ci_festivalClassId := ''c2''\<rparr>) ''e4'' ''2026-01-01'')"
  by (simp add: fest_eval)

theorem transfer_respects_capacity_witness:
  "count_confirmed_class_entitlements ''org'' ''c1''
     (dw_ents (snd (transfer_registration demo_env (demo_transfer ''e4'' ''c1'') demo_world))) \<le> 1"
proof -
  let ?e = "new_entitlement ((demo_ent_input ''L4'' ''dee'')\<lparr>ci_festivalClassId := ''c2''\<rparr>) ''e4'' ''2026-01-01''"
  have "int (count_confirmed_class_entitlements ''org'' ''c1''
     (dw_ents (snd (transfer_registration demo_env (demo_transfer ''e4'' ''c1'') demo_world))))
    \<le> (if ''org'' = ce_organizationId ?e \<and> ''c1'' = tr_targetFestivalClassId (demo_transfer ''e4'' ''c1'')
       then max 1 (int (count_confirmed_class_entitlements ''org'' ''c1'' (dw_ents demo_world)))
       else int (count_confirmed_class_entitlements ''org'' ''c1'' (dw_ents demo_world)))"
    by (rule transfer_respects_capacity [OF surjective_pairing demo_world_inv])
      (simp_all add: demo_e4 [simplified] fest_eval)
  moreover have "count_confirmed_class_entitlements ''org'' ''c1'' (dw_ents demo_world) = 1"
    by (simp add: fest_eval)
  ultimately show ?thesis by (simp split: if_splits)
qed

text \<open>
  C6: promotion is first come, first served.  When a class has a waitlisted registration, the
  automatic promotion confirms one whose creation time (then id) is the least of all the
  waitlisted registrations of that class, and touches no other registration.
\<close>
theorem promotion_is_fifo:
  assumes "promote_top_waitlisted env org cls actor w = (Inr p, w')" "ent_inv (dw_ents w)"
    and "org \<noteq> []" "cls \<noteq> []"
    and "get_class_entitlement org eid (dw_ents w) = Some e" "ce_festivalClassId e = cls" "ce_status e = Waitlisted"
  shows "\<exists>first u. get_class_entitlement org (pr_classEntitlementId p) (dw_ents w) = Some first \<and>
      ce_festivalClassId first = cls \<and> ce_status first = Waitlisted \<and>
      (ce_createdAt first, ce_id first) \<le> (ce_createdAt e, ce_id e) \<and>
      get_class_entitlement org (pr_classEntitlementId p) (dw_ents w') = Some u \<and> ce_status u = Confirmed \<and>
      (\<forall>other. other \<noteq> pr_classEntitlementId p \<longrightarrow>
         get_class_entitlement org other (dw_ents w') = get_class_entitlement org other (dw_ents w))"
proof -
  have e_in: "e \<in> set (waitlisted_for org cls w)"
  proof -
    have "js_get (en_entitlements (dw_ents w)) eid = Some e" "ce_organizationId e = org"
      using assms(5) by (auto simp: get_class_entitlement_def split: option.splits if_splits)
    then have "e \<in> set (js_values (en_entitlements (dw_ents w)))" by (blast intro: js_get_Some_values)
    with assms(6,7) \<open>ce_organizationId e = org\<close> show ?thesis
      by (simp add: waitlisted_for_def waitlist_order_def list_class_entitlements_def matches_filter_def any_entitlement_def)
  qed
  then obtain first rest where q: "waitlisted_for org cls w = first # rest" by (cases "waitlisted_for org cls w") auto
  then have first_in: "first \<in> set (waitlisted_for org cls w)" by simp
  note m = waitlisted_for_member [OF first_in assms(2-4)]
  have "sorted (map (\<lambda>e. (ce_createdAt e, ce_id e)) (waitlisted_for org cls w))"
    by (simp add: waitlisted_for_def waitlist_order_def)
  then have least: "(ce_createdAt first, ce_id first) \<le> (ce_createdAt e, ce_id e)"
    using e_in q by (auto simp: sorted_simps)
  from assms(1) q have "promote_and_log env org cls actor ''system'' []
        ''Top waitlisted candidate promoted to confirmed'' first w = (Inr p, w')"
    by (simp add: promote_top_waitlisted_def)
  then obtain upd w1 where up: "ents_update env org (ce_id first) confirm_update None w = (Inr upd, w1)"
    and p: "pr_classEntitlementId p = ce_id first" "dw_ents w' = dw_ents w1"
    by (auto simp: promote_and_log_def act_bind_eq_Inr dest!: log_change_ents)
  obtain r0 r where raw: "update_class_entitlement org (ce_id first) confirm_update None (dv_now env (dw_tick w)) (dw_ents w) = (r0, r)"
    by fastforce
  with up have r: "dw_ents w1 = r" "r0 = upd" by (auto simp: ents_update_def)
  have "js_get (en_entitlements (dw_ents w)) (ce_id first) = Some first" "ce_organizationId first = org"
    using m(4) by (auto simp: get_class_entitlement_def split: option.splits if_splits)
  with raw obtain u where "upd = Some u" using r(2) by (auto simp: update_class_entitlement_def confirm_update_def)
  from ent_store.change_obtain [OF assms(2) raw [unfolded r(2) this]]
  obtain e0 where "u = apply_update confirm_update (dv_now env (dw_tick w)) e0"
    "get_class_entitlement org (ce_id first) r = Some u" by blast
  moreover from this have "ce_status u = Confirmed" by (simp add: apply_update_def confirm_update_def)
  moreover have "get_class_entitlement org other r = get_class_entitlement org other (dw_ents w)"
    if "other \<noteq> ce_id first" for other
    by (rule ent_store.change_other [OF assms(2) raw that])
  ultimately show ?thesis using m least p r by auto
qed

lemma demo_promotes_bob:
  "\<exists>p w'. promote_top_waitlisted demo_env ''org'' ''c1'' ''admin'' demo_world = (Inr p, w') \<and>
      pr_classEntitlementId p = ''e2''"
  by (simp add: fest_eval cong: act_bind_weak)

theorem promotion_is_fifo_witness:
  "\<exists>p w' first. promote_top_waitlisted demo_env ''org'' ''c1'' ''admin'' demo_world = (Inr p, w') \<and>
      get_class_entitlement ''org'' ''e2'' (dw_ents demo_world) = Some first \<and>
      pr_classEntitlementId p = ''e2'' \<and> (ce_createdAt first, ce_id first) \<le> (''2026-01-03'', ''e3'')"
proof -
  let ?cyd = "new_entitlement (demo_waitlisted ''L3'' ''cyd'' ''2026-01-03'') ''e3'' ''2026-01-01''"
  obtain p w' where p: "promote_top_waitlisted demo_env ''org'' ''c1'' ''admin'' demo_world = (Inr p, w')"
    "pr_classEntitlementId p = ''e2''" using demo_promotes_bob by blast
  have e3: "get_class_entitlement ''org'' ''e3'' (dw_ents demo_world) = Some ?cyd"
    "ce_festivalClassId ?cyd = ''c1''" "ce_status ?cyd = Waitlisted"
    "(ce_createdAt ?cyd, ce_id ?cyd) = (''2026-01-03'', ''e3'')"
    by (simp_all add: fest_eval)
  from promotion_is_fifo [OF p(1) demo_world_inv _ _ e3(1-3)] p e3(4) show ?thesis by auto
qed

text \<open>What the refund of a drop records, before it is tied to the drop itself.\<close>

definition refund_is_verified :: "refund_client \<Rightarrow> class_entitlement \<Rightarrow> refund_event \<Rightarrow> bool" where
  "refund_is_verified client e ev \<longleftrightarrow>
     (\<exists>f request result a. client = LineTargeted f \<and> f request = Inr result \<and>
        rr_allocations result = [a] \<and> rr_orderId result = ce_shopifyOrderGid e \<and>
        al_shopifyOrderLineId a = ce_shopifyOrderLineGid e \<and> al_amountCents a = ce_paidAmountCents e \<and>
        rq_amountCents request = ce_paidAmountCents e \<and> re_amountCents ev = ce_paidAmountCents e \<and>
        re_shopifyRefundId ev = Some (rr_id result))"

lemma verified_refund_Inr:
  assumes "provider_refund f request = Inr result"
  obtains a where "f request = Inr result" "rr_allocations result = [a]" "rr_orderId result = rq_orderId request"
    "al_shopifyOrderLineId a = rq_shopifyOrderLineId request" "al_amountCents a = rq_amountCents request"
  using assms
  by (auto simp: provider_refund_def and_then_eq_Inr assert_verified_line_targeted_refund_def
      split: sum.splits if_splits list.splits)

lemma set_refund_status_Inr:
  assumes "set_refund_status env u w = (Inr (Some ev'), w')" "get_refund_event None (ru_id u) (dw_changes w) = Some ev"
  shows "ev' = apply_refund_update u (dv_now env (dw_tick w)) ev"
proof -
  from assms(1) obtain r where "update_refund_event_status (UpdateObject u) (dv_now env (dw_tick w)) (dw_changes w)
      = (Inr (Some ev'), r)"
    by (auto simp: set_refund_status_def split: prod.splits)
  from chg.refund_set [OF this] assms(2) show ?thesis by auto
qed

lemma issue_line_refund_cases:
  assumes "issue_line_refund env f org request ev w = (Inr ev', w')"
    "get_refund_event None (re_id ev) (dw_changes w) = Some ev"
  obtains (same) "ev' = ev"
    | (completed) result where "provider_refund f request = Inr result" "re_amountCents ev' = re_amountCents ev"
        "re_status ev' = ''completed''" "re_shopifyRefundId ev' = Some (rr_id result)"
    | (failed) "re_amountCents ev' = re_amountCents ev" "re_status ev' = ''failed''"
proof -
  have set_same: "x = apply_refund_update u (dv_now env (dw_tick w)) ev"
    if "set_refund_status env u w = (Inr (Some x), w1)" "ru_id u = re_id ev" for u x w1
    using set_refund_status_Inr [OF that(1)] that(2) assms(2) by simp
  have set_returns: "is_refund_event_status (ru_status u) \<Longrightarrow> \<exists>x w1. set_refund_status env u w = (Inr x, w1)" for u
    by (auto simp: set_refund_status_def update_refund_event_status_def normalize_update_refund_event_input_def
        split: option.splits prod.splits)
  show thesis
  proof (cases "provider_refund f request")
    case (Inl err)
    let ?u = "\<lparr>ru_id = re_id ev, ru_organizationId = Some org, ru_status = ''failed'',
           ru_shopifyRefundId = None, ru_failureReason = Some (Some (err_message err))\<rparr>"
    obtain x w1 where s: "set_refund_status env ?u w = (Inr x, w1)"
      using set_returns [of ?u] by (auto simp: is_refund_event_status_def)
    with Inl assms(1) have x: "ev' = or_default x ev"
      by (simp add: issue_line_refund_def act_catch_def)
    show ?thesis
    proof (cases x)
      case None
      with x show ?thesis using same by (simp add: or_default_def)
    next
      case (Some y)
      with x set_same [OF s [unfolded Some]] show ?thesis using failed
        by (simp add: or_default_def apply_refund_update_def)
    qed
  next
    case (Inr result)
    let ?u = "\<lparr>ru_id = re_id ev, ru_organizationId = Some org, ru_status = ''completed'',
           ru_shopifyRefundId = Some (Some (rr_id result)), ru_failureReason = None\<rparr>"
    obtain x w1 where s: "set_refund_status env ?u w = (Inr x, w1)"
      using set_returns [of ?u] by (auto simp: is_refund_event_status_def)
    with Inr assms(1) have x: "ev' = or_default x ev"
      by (simp add: issue_line_refund_def act_catch_def)
    show ?thesis
    proof (cases x)
      case None
      with x show ?thesis using same by (simp add: or_default_def)
    next
      case (Some y)
      with x set_same [OF s [unfolded Some]] show ?thesis using completed [OF Inr]
        by (simp add: or_default_def apply_refund_update_def)
    qed
  qed
qed

lemma process_drop_refund_verified:
  assumes "process_drop_refund env org lid e requested rr why w = (Inr ev, w')"
  shows "re_amountCents ev \<le> max 0 (ce_paidAmountCents e)"
    and "re_status ev = ''completed'' \<Longrightarrow> refund_is_verified (dv_refund env) e ev"
proof -
  from assms obtain amount where amount: "resolve_requested_refund_amount e requested = Inr amount"
    by (auto simp: process_drop_refund_def act_bind_eq_Inr)
  have bound: "amount \<le> ce_paidAmountCents e"
    using amount by (auto simp: resolve_requested_refund_amount_def split: option.splits if_splits)
  have "re_amountCents ev \<le> max 0 (ce_paidAmountCents e) \<and>
      (re_status ev = ''completed'' \<longrightarrow> refund_is_verified (dv_refund env) e ev)"
  proof (cases "amount \<le> 0 \<or> ce_shopifyOrderGid e = [] \<or> ce_shopifyOrderLineGid e = []")
    case True
    with assms amount bound show ?thesis
      by (auto simp: process_drop_refund_def Let_def add_refund_event_def create_refund_event_def
          new_refund_event_def refund_event_for_def split: if_splits prod.splits)
  next
    case False
    let ?ri = "refund_event_for org lid e amount ''pending''
        (manual_refund_reason (dv_refund env) (amount \<noteq> ce_paidAmountCents e))"
    from False assms amount obtain ev0 w1 where add: "add_refund_event env ?ri w = (Inr ev0, w1)"
      and "(case line_targeted_provider (dv_refund env) of
              Some f \<Rightarrow>
                if amount \<noteq> ce_paidAmountCents e then act_return ev0
                else issue_line_refund env f org
                       (refund_request e ev0 amount (refund_currency e)
                         (or_default rr (or_default why ''Registration dropped''))) ev0
            | None \<Rightarrow> act_return ev0) w1 = (Inr ev, w')"
      by (auto simp: process_drop_refund_def act_bind_eq_Inr)
    then have rest: "ev = ev0 \<or> (\<exists>f cur reason. line_targeted_provider (dv_refund env) = Some f \<and> amount = ce_paidAmountCents e \<and>
          issue_line_refund env f org (refund_request e ev0 amount cur reason) ev0 w1 = (Inr ev, w'))"
      by (cases "line_targeted_provider (dv_refund env)") (auto split: if_splits)
    from add obtain r1 where created: "create_refund_event ?ri (dv_uuid env (dw_tick w)) (dv_now env (dw_tick w)) (dw_changes w)
        = (Inr ev0, r1)" "dw_changes w1 = r1"
      by (auto simp: add_refund_event_def split: prod.splits)
    have ev0: "re_amountCents ev0 = amount" "re_status ev0 = ''pending''"
      using created(1)
      by (auto simp: create_refund_event_def new_refund_event_def refund_event_for_def Let_def split: if_splits)
    have found: "get_refund_event None (re_id ev0) (dw_changes w1) = Some ev0"
      using chg.refund_found [OF created(1)] created(2) by simp
    from rest show ?thesis
    proof (elim disjE exE conjE)
      assume "ev = ev0"
      with ev0 bound show ?thesis by simp
    next
      fix f cur reason
      let ?req = "refund_request e ev0 amount cur reason"
      assume f: "line_targeted_provider (dv_refund env) = Some f" and full: "amount = ce_paidAmountCents e"
        and issue: "issue_line_refund env f org ?req ev0 w1 = (Inr ev, w')"
      have client: "dv_refund env = LineTargeted f"
        using f by (cases "dv_refund env") (simp_all add: line_targeted_provider_def)
      from issue found show ?thesis
      proof (cases rule: issue_line_refund_cases)
        case same
        with ev0 bound show ?thesis by simp
      next
        case (completed result)
        from completed(1) obtain a where "f ?req = Inr result" "rr_allocations result = [a]"
          "rr_orderId result = rq_orderId ?req" "al_shopifyOrderLineId a = rq_shopifyOrderLineId ?req"
          "al_amountCents a = rq_amountCents ?req" by (rule verified_refund_Inr)
        then have "refund_is_verified (dv_refund env) e ev"
          unfolding refund_is_verified_def client
          using completed(2,4) ev0(1) full by (intro exI [of _ f] exI [of _ ?req] exI [of _ result] exI [of _ a])
            (simp add: refund_request_def)
        with completed(2) ev0(1) bound show ?thesis by simp
      next
        case failed
        with ev0 bound show ?thesis by simp
      qed
    qed
  qed
  then show "re_amountCents ev \<le> max 0 (ce_paidAmountCents e)"
    "re_status ev = ''completed'' \<Longrightarrow> refund_is_verified (dv_refund env) e ev" by blast+
qed

text \<open>
  C7: refunds are bounded and verified.  A drop that reports a refund event dropped a
  registration that was not waitlisted, on an explicit refund request; the event's amount never exceeds the
  paid amount, and it is marked completed only when a line-targeted provider answered with one
  allocation, for exactly that order line and the whole paid amount.
\<close>
theorem drop_refund_bounded_and_verified:
  assumes "execute_drop env i w = (Inr result, w')" "ent_inv (dw_ents w)"
    and "rg_refundEvent result = Some ev"
  shows "\<exists>e. get_entitlement (dr_classEntitlementId i) (dr_organizationId i) w = Some e \<and>
      ce_status e = Confirmed \<and> drop_requests_refund i \<and>
      re_amountCents ev \<le> max 0 (ce_paidAmountCents e) \<and>
      (re_status ev = ''completed'' \<longrightarrow> refund_is_verified (dv_refund env) e ev)"
proof -
  from assms(1) obtain x w1 where cancel: "drop_cancel env i w = (Inr x, w1)"
    and fin: "(case x of (e, u, log) \<Rightarrow> drop_finish env i e u log) w1 = (Inr result, w')"
    by (auto simp: execute_drop_def act_bind_eq_Inr)
  from cancel assms(2) show ?thesis
  proof (cases rule: drop_cancel_cases)
    case (cancelled e u)
    obtain log where "x = (e, u, log)" using cancelled(7) by (cases x) auto
    with fin assms(3) have status: "ce_status e \<noteq> Waitlisted" and "drop_requests_refund i"
      and "\<exists>w2. process_drop_refund env (ce_organizationId e) (cl_id log) e
             (dr_refundAmountCents i) (dr_refundReason i) (dr_reason i) w2 = (Inr ev, w')"
      by (auto simp: drop_finish_def act_bind_eq_Inr split: if_splits)
    then obtain w2 where p: "process_drop_refund env (ce_organizationId e) (cl_id log) e
             (dr_refundAmountCents i) (dr_refundReason i) (dr_reason i) w2 = (Inr ev, w')" by blast
    show ?thesis
      using cancelled(1,2) status \<open>drop_requests_refund i\<close> process_drop_refund_verified [OF p] by blast
  qed simp
qed

lemma demo_drop_refund:
  "\<exists>result w' ev. execute_drop demo_env (demo_drop ''e1'') demo_world = (Inr result, w') \<and>
     rg_refundEvent result = Some ev \<and> re_status ev = ''completed'' \<and> re_amountCents ev = 3000"
  by (simp add: fest_eval cong: act_bind_weak)

theorem drop_refund_bounded_and_verified_witness:
  "\<exists>result w' ev e. execute_drop demo_env (demo_drop ''e1'') demo_world = (Inr result, w') \<and>
     rg_refundEvent result = Some ev \<and> re_amountCents ev = 3000 \<and>
     get_entitlement ''e1'' (Some ''org'') demo_world = Some e \<and>
     refund_is_verified (dv_refund demo_env) e ev"
proof -
  obtain result w' ev where d: "execute_drop demo_env (demo_drop ''e1'') demo_world = (Inr result, w')"
    "rg_refundEvent result = Some ev" "re_status ev = ''completed''" "re_amountCents ev = 3000"
    using demo_drop_refund by blast
  from drop_refund_bounded_and_verified [OF d(1) demo_world_inv d(2)] d show ?thesis
    by (auto simp: demo_drop_def)
qed

text \<open>
  C8: the locks of drop and transfer do not exclude each other.  In a well-formed repository,
  let a drop that names its organization have cancelled a confirmed registration of a full class for
  which another registration waits, and let a transfer of the organization into that class read its registration and run before the drop goes on: it asks for no lock that
  the drop holds, takes the freed seat, and when the drop promotes the waiting registration the
  class has one confirmed registration more than its capacity, whatever the drop returns.
\<close>
theorem drop_transfer_race_overbooks:
  assumes "ent_inv (dw_ents w)" "drop_cancel env d w = (Inr (e, u, log), w1)"
    and "ce_status e = Confirmed" "ce_organizationId e \<noteq> []" "ce_festivalClassId e \<noteq> []"
    and "dr_organizationId d = Some (ce_organizationId e)"
    and "get_entitlement (tr_classEntitlementId t) (tr_organizationId t) w1 = Some x"
    and "ce_organizationId x = ce_organizationId e" "ce_festivalClassId x \<noteq> []" "tr_targetFestivalClassId t = ce_festivalClassId e"
    and "assert_target_class_in_festival (dv_query env) (ce_organizationId e) (Some (ce_festivalId x)) (ce_festivalClassId e) = Inr cap"
    and "int (count_confirmed_class_entitlements (ce_organizationId e) (ce_festivalClassId e) (dw_ents w)) = cap"
    and "get_class_entitlement (ce_organizationId e) yid (dw_ents w1) = Some y" "ce_festivalClassId y = ce_festivalClassId e" "ce_status y = Waitlisted"
    and "transfer_registration env t w1 = (Inr moved, w2)"
    and "drop_finish env d e u log w2 = (res, w3)"
  shows "drop_lock_key d \<notin> set (transfer_lock_keys x t) \<and> ce_status (rg_classEntitlement moved) = Confirmed \<and>
    int (count_confirmed_class_entitlements (ce_organizationId e) (ce_festivalClassId e) (dw_ents w3)) = cap + 1"
proof -
  let ?org = "ce_organizationId e" and ?cls = "ce_festivalClassId e"
  from assms(2,1) obtain eid where cancelled: "get_entitlement (dr_classEntitlementId d) (dr_organizationId d) w = Some e"
    "u = apply_update cancel_update (dv_now env (dw_tick w)) e" "get_class_entitlement ?org (ce_id e) (dw_ents w1) = Some u"
    "seats ?org ?cls w1 + (if seated ?org ?cls e then 1 else 0) = seats ?org ?cls w" "ent_inv (dw_ents w1)" "eid = ce_id e"
    by (cases rule: drop_cancel_cases) auto
  have "seated ?org ?cls e" using assms(3) by (simp add: seated_def)
  with cancelled(4) assms(12) have room: "int (seats ?org ?cls w1) < cap" "int (Suc (seats ?org ?cls w1)) = cap"
    by (simp_all add: seats_def)
  note moved = transfer_takes_seat [OF assms(16) cancelled(5) assms(7,8,4,9,10,5,11) room(1)]
  have "ce_id x \<noteq> ce_id e"
  proof
    assume "ce_id x = ce_id e"
    with get_entitlement_stored [OF assms(7) cancelled(5)] cancelled(3) assms(8) have "x = u" by simp
    then show False using moved(2) by (auto simp: cancelled(2) apply_update_def cancel_update_def)
  qed
  then have locks: "drop_lock_key d \<notin> set (transfer_lock_keys x t)"
    using get_entitlement_stored(2) [OF cancelled(1) assms(1)] assms(6,8) by (intro drop_transfer_locks) simp_all
  have waiting: "waitlisted_for ?org ?cls w2 \<noteq> []"
    by (rule waitlisted_forI [OF moved(6) [OF assms(13,14)] assms(14,15)])
  obtain pres w4 where promo: "promote_top_waitlisted env ?org ?cls (or_default (dr_actorUid d) ''system'') w2 = (pres, w4)" by fastforce
  have "dw_ents w3 = dw_ents w4"
    using assms(3,17) promo
    by (auto simp: drop_finish_def act_bind_def split: prod.splits sum.splits if_splits dest!: process_drop_refund_ents)
  then have "seats ?org ?cls w3 = Suc (seats ?org ?cls w2)"
    using promote_top_effect(1) [OF promo moved(4) assms(4,5) waiting] by (simp add: seats_def)
  with moved(3,5) room(2) locks show ?thesis by (simp add: seats_def)
qed

text \<open>Ann drops; while the drop goes on, Dee moves into class c1; Bob is promoted.\<close>

lemma demo_race:
  "\<exists>u log w1 moved w2.
     drop_cancel demo_env (demo_drop ''e1'') demo_world = (Inr (new_entitlement (demo_ent_input ''L1'' ''ann'') ''e1'' ''2026-01-01'', u, log), w1) \<and>
     transfer_registration demo_env (demo_transfer ''e4'' ''c1'') w1 = (Inr moved, w2) \<and>
     get_entitlement ''e4'' (Some ''org'') w1 = get_entitlement ''e4'' (Some ''org'') demo_world \<and>
     get_class_entitlement ''org'' ''e2'' (dw_ents w1) = get_class_entitlement ''org'' ''e2'' (dw_ents demo_world)"
  by (simp add: fest_eval cong: act_bind_weak)

theorem drop_transfer_race_overbooks_witness:
  "\<exists>e u log w1 moved w2. drop_cancel demo_env (demo_drop ''e1'') demo_world = (Inr (e, u, log), w1) \<and>
     transfer_registration demo_env (demo_transfer ''e4'' ''c1'') w1 = (Inr moved, w2) \<and>
     count_confirmed_class_entitlements ''org'' ''c1'' (dw_ents demo_world) = 1 \<and>
     count_confirmed_class_entitlements ''org'' ''c1'' (dw_ents (snd (drop_finish demo_env (demo_drop ''e1'') e u log w2))) = 2"
proof -
  let ?e = "new_entitlement (demo_ent_input ''L1'' ''ann'') ''e1'' ''2026-01-01''"
  let ?x = "new_entitlement ((demo_ent_input ''L4'' ''dee'')\<lparr>ci_festivalClassId := ''c2''\<rparr>) ''e4'' ''2026-01-01''"
  let ?y = "new_entitlement (demo_waitlisted ''L2'' ''bob'' ''2026-01-02'') ''e2'' ''2026-01-01''"
  obtain u log w1 moved w2 where run: "drop_cancel demo_env (demo_drop ''e1'') demo_world = (Inr (?e, u, log), w1)"
    "transfer_registration demo_env (demo_transfer ''e4'' ''c1'') w1 = (Inr moved, w2)"
    "get_entitlement ''e4'' (Some ''org'') w1 = Some ?x"
    "get_class_entitlement ''org'' ''e2'' (dw_ents w1) = get_class_entitlement ''org'' ''e2'' (dw_ents demo_world)"
    using demo_race demo_e4 by metis
  have y: "get_class_entitlement ''org'' ''e2'' (dw_ents w1) = Some ?y" unfolding run(4) by (simp add: fest_eval)
  have fields: "ce_organizationId ?e = ''org''" "ce_festivalClassId ?e = ''c1''" "ce_status ?e = Confirmed"
    "ce_organizationId ?x = ''org''" "ce_festivalClassId ?x = ''c2''" "ce_festivalClassId ?y = ''c1''" "ce_status ?y = Waitlisted" by code_simp+
  have one: "count_confirmed_class_entitlements ''org'' ''c1'' (dw_ents demo_world) = 1" by (simp add: fest_eval)
  have cap: "assert_target_class_in_festival (dv_query demo_env) ''org'' (Some (ce_festivalId ?x)) ''c1'' = Inr 1"
    by (simp add: fest_eval)
  have "int (count_confirmed_class_entitlements (ce_organizationId ?e) (ce_festivalClassId ?e)
      (dw_ents (snd (drop_finish demo_env (demo_drop ''e1'') ?e u log w2)))) = 1 + 1"
    by (rule drop_transfer_race_overbooks [OF demo_world_inv run(1) _ _ _ _ _ _ _ _ _ _ _ _ _ run(2) surjective_pairing, THEN conjunct2, THEN conjunct2])
      (use run(3) y fields one cap in \<open>simp_all add: demo_drop_def demo_transfer_def\<close>)
  then show ?thesis using run(1,2) one fields by auto
qed

text \<open>
  A repeated transfer overbooks the class it leaves.  Two transfer requests for one
  registration that both read it before either takes its locks run one after the other, yet
  each promotes a waitlisted registration into the original class, because the second still
  uses the class it read first: c1, with capacity one, ends with two confirmed registrations.
\<close>
theorem repeated_transfer_overbooks:
  "\<exists>initial r1 w1 r2 w2.
     get_entitlement ''e1'' (Some ''org'') demo_world = Some initial \<and>
     execute_transfer demo_env initial (demo_transfer ''e1'' ''c3'') 1 demo_world = (Inr r1, w1) \<and>
     execute_transfer demo_env initial (demo_transfer ''e1'' ''c4'') 1 w1 = (Inr r2, w2) \<and>
     resolve_class_capacity (dv_query demo_env) ''org'' (Some ''fest'') ''c1'' = Inr (Some 1) \<and>
     count_confirmed_class_entitlements ''org'' ''c1'' (dw_ents demo_world) = 1 \<and>
     count_confirmed_class_entitlements ''org'' ''c1'' (dw_ents w2) = 2"
  by (simp add: fest_eval cong: act_bind_weak)

section \<open>The query the application passes\<close>

text \<open>
  \<open>findFestivalClassConfigurationById\<close> of \<open>InMemoryOrganizationRepository\<close>, with the
  receiver \<open>this\<close> as its first argument: the stored class configurations, or \<open>None\<close> for
  \<open>undefined\<close>, where reading \<open>this.festivalClassConfigurations\<close> throws a TypeError.
\<close>

definition find_class_configuration_by_id ::
    "(string, class_config) js_map option \<Rightarrow> string \<Rightarrow> string \<Rightarrow> string option \<Rightarrow> class_query_config option outcome" where
  "find_class_configuration_by_id receiver org fest_or_class class_id =
     (case receiver of
        None \<Rightarrow> Inl (PlainError ''undefined is not an object'')
      | Some configs \<Rightarrow>
          (case class_id of
             None \<Rightarrow>
               (case js_get configs fest_or_class of
                  None \<Rightarrow> Inr None
                | Some c \<Rightarrow> if fc_organizationId c \<noteq> org then Inr None
                     else Inr (Some \<lparr>qc_capacity = fc_capacity c, qc_festivalId = Some (fc_festivalId c)\<rparr>))
           | Some cid \<Rightarrow>
               (case js_get configs cid of
                  None \<Rightarrow> Inr None
                | Some c \<Rightarrow>
                    if fc_organizationId c \<noteq> org \<or> fc_festivalId c \<noteq> fest_or_class \<or> fc_id c \<noteq> cid
                    then Inr None
                    else Inr (Some \<lparr>qc_capacity = fc_capacity c, qc_festivalId = Some (fc_festivalId c)\<rparr>))))"

text \<open>
  Transfers fail with the query object the application wires in.  An object without
  \<open>getClassCapacity\<close> whose class lookup is a method of a repository is called through a local
  variable, hence without its receiver: the first lookup is swallowed by the catch, the second
  throws, so every transfer ends in an error and changes nothing.
\<close>
theorem detached_lookup_blocks_transfers:
  assumes "dv_query env = ObjectQuery q" "cq_getClassCapacity q = None"
    and "cq_find q = Some (find_class_configuration_by_id None)"
  shows "\<exists>err. transfer_registration env i w = (Inl err, w)"
proof -
  have "assert_target_class_in_festival (dv_query env) org fest target
      = Inl (PlainError ''undefined is not an object'')" for org fest target
    by (simp add: assms assert_target_class_in_festival_def target_config_def query_find_method_def
        resolve_class_capacity_def query_capacity_from_object_def try_method_def find_class_configuration_by_id_def)
  then show ?thesis by (auto simp: transfer_registration_def split: option.splits)
qed

definition demo_repository_query :: class_query_object where
  "demo_repository_query = \<lparr>cq_getClassCapacity = None, cq_find = Some (find_class_configuration_by_id None),
     cq_getCapacity = None, cq_list = None, cq_get = None, cq_field = (\<lambda>_. None)\<rparr>"

theorem detached_lookup_blocks_transfers_witness:
  "\<exists>err. transfer_registration (demo_env\<lparr>dv_query := ObjectQuery demo_repository_query\<rparr>)
     (demo_transfer ''e4'' ''c3'') demo_world = (Inl err, demo_world)"
  by (rule detached_lookup_blocks_transfers [of _ demo_repository_query])
    (simp_all add: demo_repository_query_def)

end
