(* ===== verification/AsyncLocks.thy ===== *)
theory AsyncLocks
  imports FestPrelude
begin

text \<open>
  The two promise locks of the backend.  \<open>AsyncLock\<close> of
  \<open>packages/backend/src/registration/drop-transfer-service.ts\<close> serialises critical sections
  that share a key; \<open>withInMemoryCapacityLock\<close> of
  \<open>packages/backend/src/repo/in-memory-capacity-lock.ts\<close> is a single global gate.

  A call is a task, numbered by arrival.  JavaScript runs the code up to the first
  \<open>await\<close> at once (\<open>acquire\<close>), resumes a task when every promise it awaits has resolved
  (\<open>start\<close>), and runs its \<open>finally\<close> block when the section returns or throws (\<open>finish\<close>).
  The promise of a task resolves in its \<open>finally\<close> block.
\<close>

section \<open>Keyed lock: state and steps\<close>

datatype task_status = TaskWaiting | TaskRunning | TaskDone

record lock_task =
  lt_keys :: "string list"
  lt_awaits :: "nat list"
  lt_status :: task_status

record lock_state =
  lk_tasks :: "lock_task list"
  lk_queues :: "(string, nat) js_map"

definition empty_lock :: lock_state where
  "empty_lock = \<lparr>lk_tasks = [], lk_queues = []\<rparr>"

text \<open>\<open>Array.from(new Set(keys)).sort()\<close>.\<close>

definition lock_keys :: "string list \<Rightarrow> string list" where
  "lock_keys ks = sort (js_uniq ks)"

text \<open>The tails of the queues: an absent key contributes an already resolved promise.\<close>

definition current_tails :: "string list \<Rightarrow> (string, nat) js_map \<Rightarrow> nat list" where
  "current_tails ks q = List.map_filter (js_get q) ks"

definition set_tails :: "string list \<Rightarrow> nat \<Rightarrow> (string, nat) js_map \<Rightarrow> (string, nat) js_map" where
  "set_tails ks t q = fold (\<lambda>k q. js_set k t q) ks q"

definition lock_acquire :: "string list \<Rightarrow> lock_state \<Rightarrow> lock_state" where
  "lock_acquire ks s =
     (let keys = lock_keys ks;
          me = length (lk_tasks s)
      in \<lparr>lk_tasks = lk_tasks s @ [\<lparr>lt_keys = keys, lt_awaits = current_tails keys (lk_queues s),
                                 lt_status = TaskWaiting\<rparr>],
          lk_queues = set_tails keys me (lk_queues s)\<rparr>)"

definition task_done :: "lock_state \<Rightarrow> nat \<Rightarrow> bool" where
  "task_done s t \<longleftrightarrow> lt_status (lk_tasks s ! t) = TaskDone"

definition set_status :: "nat \<Rightarrow> task_status \<Rightarrow> lock_state \<Rightarrow> lock_state" where
  "set_status t st s =
     s\<lparr>lk_tasks := (lk_tasks s)[t := (lk_tasks s ! t)\<lparr>lt_status := st\<rparr>]\<rparr>"

text \<open>\<open>await Promise.all(currentTails)\<close> has resolved.\<close>

definition can_start :: "nat \<Rightarrow> lock_state \<Rightarrow> bool" where
  "can_start t s \<longleftrightarrow> t < length (lk_tasks s) \<and> lt_status (lk_tasks s ! t) = TaskWaiting \<and>
     list_all (task_done s) (lt_awaits (lk_tasks s ! t))"

definition lock_start :: "nat \<Rightarrow> lock_state \<Rightarrow> lock_state" where
  "lock_start t s = set_status t TaskRunning s"

definition can_finish :: "nat \<Rightarrow> lock_state \<Rightarrow> bool" where
  "can_finish t s \<longleftrightarrow> t < length (lk_tasks s) \<and> lt_status (lk_tasks s ! t) = TaskRunning"

text \<open>\<open>if (queues.get(key) === lockPromise) queues.delete(key)\<close>, then \<open>release()\<close>.\<close>

definition drop_tails :: "string list \<Rightarrow> nat \<Rightarrow> (string, nat) js_map \<Rightarrow> (string, nat) js_map" where
  "drop_tails ks t q = fold (\<lambda>k q. if js_get q k = Some t then js_delete k q else q) ks q"

definition lock_finish :: "nat \<Rightarrow> lock_state \<Rightarrow> lock_state" where
  "lock_finish t s =
     (set_status t TaskDone s)
       \<lparr>lk_queues := drop_tails (lt_keys (lk_tasks s ! t)) t (lk_queues s)\<rparr>"

inductive lock_step :: "lock_state \<Rightarrow> lock_state \<Rightarrow> bool" where
  step_acquire: "lock_step s (lock_acquire ks s)"
| step_start: "can_start t s \<Longrightarrow> lock_step s (lock_start t s)"
| step_finish: "can_finish t s \<Longrightarrow> lock_step s (lock_finish t s)"

inductive lock_reachable :: "lock_state \<Rightarrow> bool" where
  lock_init: "lock_reachable empty_lock"
| lock_next: "lock_reachable s \<Longrightarrow> lock_step s s' \<Longrightarrow> lock_reachable s'"

section \<open>The queue invariant\<close>

abbreviation "tk s t \<equiv> lk_tasks s ! t"
abbreviation "tasks s \<equiv> {..< length (lk_tasks s)}"

text \<open>
  Per key, the tasks form a chain: each awaits the one before it with that key, or all the
  earlier ones are done; the stored tail is the last of the chain and not done.
\<close>

definition waits_for :: "lock_state \<Rightarrow> string \<Rightarrow> nat \<Rightarrow> bool" where
  "waits_for s k u \<longleftrightarrow>
     (\<exists>t \<in> set (lt_awaits (tk s u)). t < u \<and> k \<in> set (lt_keys (tk s t)) \<and>
        (\<forall>v < u. t < v \<longrightarrow> k \<notin> set (lt_keys (tk s v))))
     \<or> (\<forall>v < u. k \<in> set (lt_keys (tk s v)) \<longrightarrow> task_done s v)"

definition tail_ok :: "lock_state \<Rightarrow> string \<Rightarrow> bool" where
  "tail_ok s k \<longleftrightarrow>
     (case js_get (lk_queues s) k of
        Some t \<Rightarrow> t < length (lk_tasks s) \<and> k \<in> set (lt_keys (tk s t)) \<and>
          (\<forall>v < length (lk_tasks s). t < v \<longrightarrow> k \<notin> set (lt_keys (tk s v)))
      | None \<Rightarrow> (\<forall>v < length (lk_tasks s). k \<in> set (lt_keys (tk s v)) \<longrightarrow> task_done s v))"

definition lock_inv :: "lock_state \<Rightarrow> bool" where
  "lock_inv s \<longleftrightarrow>
     (\<forall>u < length (lk_tasks s). \<forall>t \<in> set (lt_awaits (tk s u)). t < u) \<and>
     (\<forall>u < length (lk_tasks s). \<forall>k \<in> set (lt_keys (tk s u)). waits_for s k u) \<and>
     (\<forall>u < length (lk_tasks s). \<forall>k \<in> set (lt_keys (tk s u)). lt_status (tk s u) \<noteq> TaskWaiting \<longrightarrow>
        (\<forall>v < u. k \<in> set (lt_keys (tk s v)) \<longrightarrow> task_done s v)) \<and>
     (\<forall>k. tail_ok s k)"

lemma js_get_set_tails: "js_get (set_tails ks t q) k = (if k \<in> set ks then Some t else js_get q k)"
  unfolding set_tails_def by (induction ks arbitrary: q) auto

lemma js_get_drop_tails:
  "js_get (drop_tails ks t q) k = (if k \<in> set ks \<and> js_get q k = Some t then None else js_get q k)"
  unfolding drop_tails_def by (induction ks arbitrary: q) auto

lemma set_current_tails: "set (current_tails ks q) = {t. \<exists>k \<in> set ks. js_get q k = Some t}"
  unfolding current_tails_def by (induction ks) (auto simp: map_filter_simps split: option.splits)

lemma set_status_sizes [simp]:
  "length (lk_tasks (set_status t st s)) = length (lk_tasks s)"
  "lk_queues (set_status t st s) = lk_queues s"
  by (simp_all add: set_status_def)

lemma set_status_task: "t < length (lk_tasks s) \<Longrightarrow>
    tk (set_status t st s) u = (if u = t then (tk s t)\<lparr>lt_status := st\<rparr> else tk s u)"
  by (simp add: set_status_def)

lemma set_status_frame:
  "t < length (lk_tasks s) \<Longrightarrow> lt_keys (tk (set_status t st s) u) = lt_keys (tk s u)"
  "t < length (lk_tasks s) \<Longrightarrow> lt_awaits (tk (set_status t st s) u) = lt_awaits (tk s u)"
  by (simp_all add: set_status_task)

lemma set_status_status:
  "t < length (lk_tasks s) \<Longrightarrow>
     lt_status (tk (set_status t st s) u) = (if u = t then st else lt_status (tk s u))"
  by (simp add: set_status_task)

lemma lock_inv_empty: "lock_inv empty_lock"
  by (simp add: lock_inv_def empty_lock_def tail_ok_def)

lemma lock_inv_acquire:
  assumes inv: "lock_inv s"
  shows "lock_inv (lock_acquire ks s)"
proof -
  let ?s = "lock_acquire ks s" and ?n = "length (lk_tasks s)" and ?keys = "lock_keys ks"
  have len: "length (lk_tasks ?s) = Suc ?n" by (simp add: lock_acquire_def Let_def)
  have old: "tk ?s u = tk s u" if "u < ?n" for u
    using that by (simp add: lock_acquire_def Let_def nth_append)
  have new: "lt_keys (tk ?s ?n) = ?keys" "lt_awaits (tk ?s ?n) = current_tails ?keys (lk_queues s)"
    "lt_status (tk ?s ?n) = TaskWaiting"
    by (simp_all add: lock_acquire_def Let_def)
  have done_old: "task_done ?s u = task_done s u" if "u < ?n" for u
    using old [OF that] by (simp add: task_done_def)
  have queues: "js_get (lk_queues ?s) k = (if k \<in> set ?keys then Some ?n else js_get (lk_queues s) k)" for k
    by (simp add: lock_acquire_def Let_def js_get_set_tails)
  have tail: "tail_ok s k" for k using inv by (simp add: lock_inv_def)
  have tail_bound: "t < ?n" if "js_get (lk_queues s) k = Some t" for k t
    using tail [of k] that by (simp add: tail_ok_def)
  have waits_old: "waits_for ?s k u" if "u < ?n" "k \<in> set (lt_keys (tk s u))" for u k
  proof -
    have "waits_for s k u" using inv that by (simp add: lock_inv_def)
    then show ?thesis using that(1) unfolding waits_for_def by (auto simp: old done_old)
  qed
  have waits_new: "waits_for ?s k ?n" if "k \<in> set ?keys" for k
  proof (cases "js_get (lk_queues s) k")
    case None
    then show ?thesis using tail [of k] by (auto simp: waits_for_def tail_ok_def old done_old)
  next
    case (Some t)
    then have "t \<in> set (lt_awaits (tk ?s ?n))" using that by (auto simp: new set_current_tails)
    then show ?thesis using tail [of k] Some unfolding waits_for_def by (auto simp: tail_ok_def old)
  qed
  have tail_new: "tail_ok ?s k" for k
  proof (cases "k \<in> set ?keys")
    case True
    then show ?thesis by (simp add: tail_ok_def queues len new)
  next
    case False
    then show ?thesis using tail [of k] tail_bound
      by (auto simp: tail_ok_def queues len new old done_old less_Suc_eq split: option.splits)
  qed
  show ?thesis
    unfolding lock_inv_def len
    using inv tail_new waits_old waits_new tail_bound
    by (auto simp: less_Suc_eq old done_old new lock_inv_def set_current_tails)
qed

lemma task_done_set_status:
  "t < length (lk_tasks s) \<Longrightarrow> task_done (set_status t st s) u = (if u = t then st = TaskDone else task_done s u)"
  by (simp add: task_done_def set_status_status)

text \<open>When a task may start, every earlier task that shares a key is done.\<close>

lemma can_start_earlier_done:
  assumes inv: "lock_inv s" and start: "can_start t s"
    and k: "k \<in> set (lt_keys (tk s t))" and v: "v < t" "k \<in> set (lt_keys (tk s v))"
  shows "task_done s v"
proof -
  have t: "t < length (lk_tasks s)" and awaited: "\<And>w. w \<in> set (lt_awaits (tk s t)) \<Longrightarrow> task_done s w"
    using start by (auto simp: can_start_def list_all_iff)
  have "waits_for s k t" using inv t k by (simp add: lock_inv_def)
  then consider (chain) w where "w \<in> set (lt_awaits (tk s t))" "w < t" "k \<in> set (lt_keys (tk s w))"
      "\<And>v. v < t \<Longrightarrow> w < v \<Longrightarrow> k \<notin> set (lt_keys (tk s v))"
    | (free) "\<And>v. v < t \<Longrightarrow> k \<in> set (lt_keys (tk s v)) \<Longrightarrow> task_done s v"
    unfolding waits_for_def by blast
  then show ?thesis
  proof cases
    case chain
    have w: "task_done s w" using awaited chain(1) by blast
    then have "lt_status (tk s w) \<noteq> TaskWaiting" by (simp add: task_done_def)
    moreover have "w < length (lk_tasks s)" using chain(2) t by simp
    ultimately have below: "\<forall>v < w. k \<in> set (lt_keys (tk s v)) \<longrightarrow> task_done s v"
      using inv chain(3) by (simp add: lock_inv_def)
    show ?thesis using chain(4) [OF v(1)] v(2) w below by (metis linorder_neqE_nat)
  qed (use v in blast)
qed

lemma waits_for_done_mono:
  assumes "waits_for s k u" "u < length (lk_tasks s)" "t < length (lk_tasks s)" "task_done s t \<Longrightarrow> st = TaskDone"
  shows "waits_for (set_status t st s) k u"
  using assms unfolding waits_for_def
  by (auto simp: set_status_frame task_done_set_status)

lemma lock_inv_start:
  assumes inv: "lock_inv s" and start: "can_start t s"
  shows "lock_inv (lock_start t s)"
proof -
  have t: "t < length (lk_tasks s)" "\<not> task_done s t"
    using start by (auto simp: can_start_def task_done_def)
  have same_done: "task_done (lock_start t s) v = task_done s v" for v
    using t by (auto simp: lock_start_def task_done_set_status)
  have "waits_for (lock_start t s) k u" if "u < length (lk_tasks s)" "k \<in> set (lt_keys (tk s u))" for k u
    unfolding lock_start_def using inv t that by (intro waits_for_done_mono) (auto simp: lock_inv_def)
  moreover have "tail_ok (lock_start t s) k" for k
  proof -
    have "tail_ok s k" using inv by (simp add: lock_inv_def)
    then show ?thesis using t
      by (auto simp: tail_ok_def lock_start_def set_status_frame task_done_set_status split: option.splits)
  qed
  moreover have "task_done (lock_start t s) v"
    if "u < length (lk_tasks s)" "k \<in> set (lt_keys (tk s u))" "lt_status (tk (lock_start t s) u) \<noteq> TaskWaiting"
      "v < u" "k \<in> set (lt_keys (tk s v))" for u k v
  proof (cases "u = t")
    case True
    with can_start_earlier_done [OF inv start] that show ?thesis unfolding same_done by blast
  next
    case False
    with that(3) t have "lt_status (tk s u) \<noteq> TaskWaiting" by (simp add: lock_start_def set_status_status)
    with inv that show ?thesis unfolding same_done lock_inv_def by blast
  qed
  ultimately show ?thesis
    using inv t by (auto simp: lock_inv_def lock_start_def set_status_frame)
qed

lemma lock_inv_finish:
  assumes inv: "lock_inv s" and fin: "can_finish t s"
  shows "lock_inv (lock_finish t s)"
proof -
  let ?s = "lock_finish t s"
  have t: "t < length (lk_tasks s)" "lt_status (tk s t) = TaskRunning" using fin by (auto simp: can_finish_def)
  have tasks: "lk_tasks ?s = lk_tasks (set_status t TaskDone s)" by (simp add: lock_finish_def)
  have len: "length (lk_tasks ?s) = length (lk_tasks s)" by (simp add: tasks)
  have done_now: "task_done ?s v = (v = t \<or> task_done s v)" for v
    using t by (auto simp: task_done_def tasks set_status_status)
  have keys: "lt_keys (tk ?s u) = lt_keys (tk s u)" "lt_awaits (tk ?s u) = lt_awaits (tk s u)" for u
    using t by (simp_all add: tasks set_status_frame)
  have earlier: "task_done s v" if "k \<in> set (lt_keys (tk s t))" "v < t" "k \<in> set (lt_keys (tk s v))" for v k
    using inv t that by (simp add: lock_inv_def)
  have "waits_for ?s k u" if "u < length (lk_tasks s)" "k \<in> set (lt_keys (tk s u))" for k u
  proof -
    have "waits_for s k u" using inv that by (simp add: lock_inv_def)
    then show ?thesis unfolding waits_for_def by (auto simp: keys done_now)
  qed
  moreover have "tail_ok ?s k" for k
  proof -
    have tail: "tail_ok s k" using inv by (simp add: lock_inv_def)
    have q: "js_get (lk_queues ?s) k
        = (if k \<in> set (lt_keys (tk s t)) \<and> js_get (lk_queues s) k = Some t then None else js_get (lk_queues s) k)"
      by (simp add: lock_finish_def js_get_drop_tails)
    show ?thesis
    proof (cases "k \<in> set (lt_keys (tk s t)) \<and> js_get (lk_queues s) k = Some t")
      case True
      then have "task_done ?s v" if "v < length (lk_tasks s)" "k \<in> set (lt_keys (tk s v))" for v
        using tail that earlier [of k v] True
        by (cases v t rule: linorder_cases) (auto simp: tail_ok_def done_now)
      with True show ?thesis by (simp add: tail_ok_def q keys len)
    next
      case False
      then show ?thesis using tail unfolding tail_ok_def q
        by (auto simp: keys len done_now split: option.splits)
    qed
  qed
  moreover have "task_done ?s v"
    if "u < length (lk_tasks s)" "k \<in> set (lt_keys (tk s u))" "lt_status (tk ?s u) \<noteq> TaskWaiting"
      "v < u" "k \<in> set (lt_keys (tk s v))" for u k v
  proof -
    have "lt_status (tk s u) \<noteq> TaskWaiting" using that(3) t by (auto simp: tasks set_status_status split: if_splits)
    with inv that show ?thesis unfolding done_now lock_inv_def by blast
  qed
  ultimately show ?thesis using inv by (auto simp: lock_inv_def len keys)
qed

lemma lock_reachable_inv: "lock_reachable s \<Longrightarrow> lock_inv s"
proof (induction rule: lock_reachable.induct)
  case (lock_next s s')
  from lock_next.hyps(2) lock_next.IH show ?case
    by (cases rule: lock_step.cases) (auto intro: lock_inv_acquire lock_inv_start lock_inv_finish)
qed (rule lock_inv_empty)

section \<open>The global gate\<close>

text \<open>
  \<open>withInMemoryCapacityLock\<close>: each call awaits the promise of the call before it and
  replaces \<open>pending\<close> by its own, so the state is the list of the calls' statuses.
\<close>

type_synonym gate_state = "task_status list"

definition gate_enter :: "gate_state \<Rightarrow> gate_state" where
  "gate_enter g = g @ [TaskWaiting]"

definition gate_can_start :: "nat \<Rightarrow> gate_state \<Rightarrow> bool" where
  "gate_can_start i g \<longleftrightarrow> i < length g \<and> g ! i = TaskWaiting \<and> (i = 0 \<or> g ! (i - 1) = TaskDone)"

inductive gate_step :: "gate_state \<Rightarrow> gate_state \<Rightarrow> bool" where
  gate_step_enter: "gate_step g (gate_enter g)"
| gate_step_start: "gate_can_start i g \<Longrightarrow> gate_step g (g[i := TaskRunning])"
| gate_step_finish: "i < length g \<Longrightarrow> g ! i = TaskRunning \<Longrightarrow> gate_step g (g[i := TaskDone])"

inductive gate_reachable :: "gate_state \<Rightarrow> bool" where
  gate_init: "gate_reachable []"
| gate_next: "gate_reachable g \<Longrightarrow> gate_step g g' \<Longrightarrow> gate_reachable g'"

definition gate_inv :: "gate_state \<Rightarrow> bool" where
  "gate_inv g \<longleftrightarrow> (\<forall>i < length g. g ! i \<noteq> TaskWaiting \<longrightarrow> (\<forall>j < i. g ! j = TaskDone))"

lemma gate_reachable_inv: "gate_reachable g \<Longrightarrow> gate_inv g"
proof (induction rule: gate_reachable.induct)
  case (gate_next g g')
  from gate_next.hyps(2) show ?case
  proof (cases rule: gate_step.cases)
    case gate_step_enter
    with gate_next.IH show ?thesis by (auto simp: gate_inv_def gate_enter_def nth_append less_Suc_eq)
  next
    case (gate_step_start i)
    note 2 = gate_step_start
    have before: "g ! j = TaskDone" if "j < i" for j
    proof (cases "j = i - 1")
      case True
      with 2 that show ?thesis by (auto simp: gate_can_start_def)
    next
      case False
      with 2 that have "g ! (i - 1) = TaskDone" "i - 1 < length g" "j < i - 1" by (auto simp: gate_can_start_def)
      with gate_next.IH show ?thesis unfolding gate_inv_def by (metis task_status.distinct(3))
    qed
    have ne: "g ! i \<noteq> TaskDone" using 2 by (simp add: gate_can_start_def)
    show ?thesis unfolding 2(1) gate_inv_def
    proof (intro allI impI)
      fix m j assume m: "m < length (g[i := TaskRunning])" "g[i := TaskRunning] ! m \<noteq> TaskWaiting" "j < m"
      have "m = i \<or> g ! m \<noteq> TaskWaiting" using m by (auto simp: nth_list_update split: if_splits)
      then have "g ! j = TaskDone" using before m gate_next.IH by (auto simp: gate_inv_def)
      with ne show "g[i := TaskRunning] ! j = TaskDone" by (cases "j = i") auto
    qed
  next
    case (gate_step_finish i)
    note 3 = gate_step_finish
    show ?thesis unfolding 3(1) gate_inv_def
    proof (intro allI impI)
      fix m j assume m: "m < length (g[i := TaskDone])" "g[i := TaskDone] ! m \<noteq> TaskWaiting" "j < m"
      then have "g ! m \<noteq> TaskWaiting" using 3 by (auto simp: nth_list_update split: if_splits)
      with m gate_next.IH have "g ! j = TaskDone" by (simp add: gate_inv_def)
      then show "g[i := TaskDone] ! j = TaskDone" using 3 m by (simp add: nth_list_update)
    qed
  qed
qed (simp add: gate_inv_def)

section \<open>What a critical section may rely on\<close>

text \<open>
  The contract of both locks: a running section is the first unfinished one of each of its keys.
\<close>

locale exclusive_sections =
  fixes reach :: "'s \<Rightarrow> bool"
    and member :: "'s \<Rightarrow> nat \<Rightarrow> bool"
    and running :: "'s \<Rightarrow> nat \<Rightarrow> bool"
    and finished :: "'s \<Rightarrow> nat \<Rightarrow> bool"
    and claims :: "'s \<Rightarrow> nat \<Rightarrow> string set"
  assumes arrival_order: "reach s \<Longrightarrow> member s u \<Longrightarrow> running s u \<Longrightarrow> k \<in> claims s u \<Longrightarrow>
      v < u \<Longrightarrow> k \<in> claims s v \<Longrightarrow> finished s v"
    and running_unfinished: "running s u \<Longrightarrow> \<not> finished s u"
begin

lemma exclusive:
  assumes "reach s" "member s t" "member s u" "running s t" "running s u" "t \<noteq> u"
  shows "claims s t \<inter> claims s u = {}"
proof -
  have "False" if "a < b" "k \<in> claims s a" "k \<in> claims s b" "member s b" "running s b" "running s a" for a b k
    using arrival_order [OF assms(1) that(4,5,3,1,2)] running_unfinished that(6) by blast
  with assms show ?thesis by (metis disjoint_iff linorder_neqE_nat)
qed

lemma unique_holder:
  assumes "reach s" "member s t" "member s u" "running s t" "running s u" "k \<in> claims s t" "k \<in> claims s u"
  shows "t = u"
  using exclusive assms by blast

end

interpretation keyed: exclusive_sections lock_reachable "\<lambda>s t. t < length (lk_tasks s)"
  "\<lambda>s t. lt_status (tk s t) = TaskRunning" task_done "\<lambda>s t. set (lt_keys (tk s t))"
proof unfold_locales
  fix s u k v
  assume r: "lock_reachable s" "u < length (lk_tasks s)" "lt_status (tk s u) = TaskRunning"
    "k \<in> set (lt_keys (tk s u))" "v < u" "k \<in> set (lt_keys (tk s v))"
  from lock_reachable_inv [OF r(1)] r(2-6) show "task_done s v" by (simp add: lock_inv_def)
qed (simp add: task_done_def)

interpretation gate: exclusive_sections gate_reachable "\<lambda>g i. i < length g"
  "\<lambda>g i. g ! i = TaskRunning" "\<lambda>g i. g ! i = TaskDone" "\<lambda>_ _. {''capacity''}"
proof unfold_locales
  fix g u k v
  assume "gate_reachable g" "u < length g" "g ! u = TaskRunning" "v < u"
  with gate_reachable_inv show "g ! v = TaskDone" by (simp add: gate_inv_def)
qed simp

section \<open>Properties\<close>

text \<open>
  C9: mutual exclusion and arrival order of the keyed lock.  In every reachable state, two
  sections that run at the same time share no key, and a running section was preceded on each
  of its keys by finished sections only.
\<close>
theorem keyed_lock_exclusive:
  assumes "lock_reachable s" "t < length (lk_tasks s)" "lt_status (lk_tasks s ! t) = TaskRunning"
  shows "(\<forall>u. u < length (lk_tasks s) \<and> u \<noteq> t \<and> lt_status (lk_tasks s ! u) = TaskRunning \<longrightarrow>
            set (lt_keys (lk_tasks s ! t)) \<inter> set (lt_keys (lk_tasks s ! u)) = {}) \<and>
         (\<forall>u k. u < t \<and> k \<in> set (lt_keys (lk_tasks s ! t)) \<and> k \<in> set (lt_keys (lk_tasks s ! u)) \<longrightarrow>
            task_done s u)"
  using keyed.exclusive [OF assms(1,2) _ assms(3)] keyed.arrival_order [OF assms] by blast

definition demo_lock :: lock_state where
  "demo_lock = lock_start 1 (lock_finish 0 (lock_start 0
     (lock_acquire [''b''] (lock_acquire [''b'', ''a'', ''b''] empty_lock))))"

lemma demo_lock_reachable: "lock_reachable demo_lock"
  unfolding demo_lock_def
proof (intro lock_next [OF _ step_start] lock_next [OF _ step_finish] lock_next [OF _ step_acquire] lock_init)
  show "can_start 0 (lock_acquire [''b''] (lock_acquire [''b'', ''a'', ''b''] empty_lock))" by code_simp
  show "can_finish 0 (lock_start 0 (lock_acquire [''b''] (lock_acquire [''b'', ''a'', ''b''] empty_lock)))" by code_simp
  show "can_start 1 (lock_finish 0 (lock_start 0
      (lock_acquire [''b''] (lock_acquire [''b'', ''a'', ''b''] empty_lock))))" by code_simp
qed

theorem keyed_lock_exclusive_witness:
  "task_done demo_lock 0 \<and> lt_status (lk_tasks demo_lock ! 1) = TaskRunning"
proof -
  have running: "1 < length (lk_tasks demo_lock)" "lt_status (lk_tasks demo_lock ! 1) = TaskRunning" by code_simp+
  have shared: "''b'' \<in> set (lt_keys (lk_tasks demo_lock ! 1))" "''b'' \<in> set (lt_keys (lk_tasks demo_lock ! 0))"
    by code_simp+
  from keyed_lock_exclusive [OF demo_lock_reachable running] shared running(2) show ?thesis
    by (metis zero_less_one)
qed

text \<open>
  C10: the keyed lock has no deadlock.  Whenever a call has not finished, the oldest unfinished
  one is running or all it waits for has resolved, whatever sets of keys the calls asked for
  and in whatever order they named them.
\<close>
theorem keyed_lock_no_deadlock:
  assumes "lock_reachable s" "u < length (lk_tasks s)" "\<not> task_done s u"
  shows "\<exists>t \<le> u. \<not> task_done s t \<and> (\<forall>v < t. task_done s v) \<and> (can_start t s \<or> can_finish t s)"
proof -
  define t where "t = (LEAST t. \<not> task_done s t)"
  let ?pending = "\<lambda>v. \<not> task_done s v"
  have t: "?pending t" "t \<le> u"
    unfolding t_def using LeastI [of ?pending, OF assms(3)] Least_le [of ?pending, OF assms(3)] by simp_all
  have before: "\<forall>v < t. task_done s v" unfolding t_def using not_less_Least by blast
  have "\<forall>w \<in> set (lt_awaits (lk_tasks s ! t)). w < t"
    using lock_reachable_inv [OF assms(1)] t(2) assms(2) by (simp add: lock_inv_def)
  with t before assms(2) have "can_start t s \<or> can_finish t s"
    by (cases "lt_status (lk_tasks s ! t)") (auto simp: can_start_def can_finish_def task_done_def list_all_iff)
  with t before show ?thesis by blast
qed

theorem keyed_lock_no_deadlock_witness:
  "\<exists>t \<le> 1. \<not> task_done demo_lock t \<and> (\<forall>v < t. task_done demo_lock v) \<and>
     (can_start t demo_lock \<or> can_finish t demo_lock)"
proof (rule keyed_lock_no_deadlock [OF demo_lock_reachable])
  show "1 < length (lk_tasks demo_lock)" by code_simp
  show "\<not> task_done demo_lock 1" by code_simp
qed

text \<open>
  The capacity gate runs one operation at a time, in the order of the calls.
\<close>
theorem capacity_gate_serial:
  assumes "gate_reachable g" "i < length g" "g ! i = TaskRunning"
  shows "(\<forall>j < i. g ! j = TaskDone) \<and> (\<forall>j. i < j \<and> j < length g \<longrightarrow> g ! j = TaskWaiting)"
proof (intro conjI allI impI)
  show "g ! j = TaskDone" if "j < i" for j
    using gate.arrival_order [OF assms _ that] by simp
  show "g ! j = TaskWaiting" if "i < j \<and> j < length g" for j
    using gate_reachable_inv [OF assms(1)] that assms(3) unfolding gate_inv_def by (metis task_status.distinct(5))
qed

theorem capacity_gate_serial_witness:
  "[TaskDone, TaskRunning, TaskWaiting] ! 0 = TaskDone \<and> gate_reachable [TaskDone, TaskRunning, TaskWaiting]"
proof -
  have 1: "gate_reachable ([] @ [TaskWaiting])" by (rule gate_next [OF gate_init gate_step_enter [unfolded gate_enter_def]])
  have 2: "gate_reachable (([] @ [TaskWaiting]) @ [TaskWaiting])" by (rule gate_next [OF 1 gate_step_enter [unfolded gate_enter_def]])
  have 3: "gate_reachable ((([] @ [TaskWaiting]) @ [TaskWaiting]) @ [TaskWaiting])" by (rule gate_next [OF 2 gate_step_enter [unfolded gate_enter_def]])
  have 4: "gate_reachable ([TaskWaiting, TaskWaiting, TaskWaiting][0 := TaskRunning])"
    using 3 by (intro gate_next [OF _ gate_step_start]) (simp_all add: gate_can_start_def)
  have 5: "gate_reachable ([TaskRunning, TaskWaiting, TaskWaiting][0 := TaskDone])"
    using 4 by (intro gate_next [OF _ gate_step_finish]) simp_all
  have 6: "gate_reachable ([TaskDone, TaskWaiting, TaskWaiting][1 := TaskRunning])"
    using 5 by (intro gate_next [OF _ gate_step_start]) (simp_all add: gate_can_start_def)
  then have r: "gate_reachable [TaskDone, TaskRunning, TaskWaiting]" by simp
  from capacity_gate_serial [OF r, of 1] r show ?thesis by simp
qed

end
