(* ===== verification/WebhookQueue.thy ===== *)
theory WebhookQueue
  imports FestPrelude "HOL-Library.Multiset"
begin

text \<open>
  \<open>WebhookWorkerQueue\<close> of \<open>packages/backend/src/commerce/webhook-worker-queue.ts\<close>: a bounded
  backlog of webhook deliveries, at most \<open>concurrency\<close> of them active, and a bounded set of
  rejected deliveries kept for recovery.  The sets are duplicate-free lists in insertion
  order.  \<open>wq_running\<close> is the list of worker calls whose handler has not settled; a handler
  settles in a later turn and does not call the queue synchronously.
\<close>

section \<open>State\<close>

record wq_config =
  wc_concurrency :: nat
  wc_maxBacklog :: nat
  wc_maxPendingRecovery :: nat

record wq_state =
  wq_queue :: "string list"
  wq_activeIds :: "string list"
  wq_running :: "string list"
  wq_pendingRecoveryIds :: "string list"
  wq_completed :: nat
  wq_failed :: nat
  wq_rejectedCount :: nat
  wq_recoveredCount :: nat
  wq_recoveryOverflowCount :: nat
  wq_drainResolvers :: nat

record wq_stats =
  ws_queued :: nat
  ws_active :: nat
  ws_completed :: nat
  ws_failed :: nat
  ws_saturated :: bool
  ws_rejectedCount :: nat
  ws_pendingRecoveryCount :: nat
  ws_recoveredCount :: nat
  ws_recoveryOverflowCount :: nat

definition clamp_positive_int :: "int option \<Rightarrow> nat \<Rightarrow> nat" where
  "clamp_positive_int v fallback = (case v of None \<Rightarrow> fallback | Some n \<Rightarrow> nat (max 1 n))"

definition new_wq_config :: "int option \<Rightarrow> int option \<Rightarrow> int option \<Rightarrow> wq_config" where
  "new_wq_config concurrency max_backlog max_pending =
     (let backlog = clamp_positive_int max_backlog 5000
      in \<lparr>wc_concurrency = clamp_positive_int concurrency 5, wc_maxBacklog = backlog,
          wc_maxPendingRecovery = clamp_positive_int max_pending (backlog * 4)\<rparr>)"

definition empty_wq :: wq_state where
  "empty_wq = \<lparr>wq_queue = [], wq_activeIds = [], wq_running = [], wq_pendingRecoveryIds = [],
     wq_completed = 0, wq_failed = 0, wq_rejectedCount = 0, wq_recoveredCount = 0,
     wq_recoveryOverflowCount = 0, wq_drainResolvers = 0\<rparr>"

text \<open>\<open>Set.add\<close> and \<open>Set.delete\<close>.\<close>

definition set_add :: "'a \<Rightarrow> 'a list \<Rightarrow> 'a list" where
  "set_add x xs = (if x \<in> set xs then xs else xs @ [x])"

section \<open>Operations\<close>

definition is_queued_or_active :: "string \<Rightarrow> wq_state \<Rightarrow> bool" where
  "is_queued_or_active i s \<longleftrightarrow> i \<in> set (wq_activeIds s) \<or> i \<in> set (wq_queue s)"

function promote_pending_recoveries :: "wq_config \<Rightarrow> wq_state \<Rightarrow> wq_state" where
  "promote_pending_recoveries c s =
     (if length (wq_queue s) < wc_maxBacklog c
      then (case wq_pendingRecoveryIds s of
              [] \<Rightarrow> s
            | next_id # rest \<Rightarrow>
                let s' = s\<lparr>wq_pendingRecoveryIds := rest\<rparr> in
                if is_queued_or_active next_id s' then promote_pending_recoveries c s'
                else promote_pending_recoveries c
                       (s'\<lparr>wq_queue := wq_queue s' @ [next_id],
                           wq_recoveredCount := Suc (wq_recoveredCount s')\<rparr>))
      else s)"
  by pat_completeness auto
termination
  by (relation "measure (\<lambda>(c, s). length (wq_pendingRecoveryIds s))") auto

declare promote_pending_recoveries.simps [simp del]

lemma promote_backlog:
  "length (wq_queue (promote_pending_recoveries c s)) + length (wq_pendingRecoveryIds (promote_pending_recoveries c s))
     \<le> length (wq_queue s) + length (wq_pendingRecoveryIds s)"
proof (induction c s rule: promote_pending_recoveries.induct)
  case (1 c s)
  show ?case
  proof (cases "length (wq_queue s) < wc_maxBacklog c")
    case True
    then show ?thesis
      using "1.IH" by (subst (1 2) promote_pending_recoveries.simps) (fastforce simp: Let_def split: list.splits)
  qed (simp add: promote_pending_recoveries.simps [of c s])
qed

text \<open>The loop body of \<open>dispatch\<close>: the next delivery becomes active and its worker is started.\<close>

definition start_next :: "wq_state \<Rightarrow> wq_state" where
  "start_next s =
     (let i = hd (wq_queue s)
      in s\<lparr>wq_queue := tl (wq_queue s), wq_activeIds := set_add i (wq_activeIds s),
           wq_running := wq_running s @ [i]\<rparr>)"

function dispatch_loop :: "wq_config \<Rightarrow> wq_state \<Rightarrow> wq_state" where
  "dispatch_loop c s =
     (if length (wq_activeIds s) < wc_concurrency c \<and> wq_queue s \<noteq> []
      then dispatch_loop c (promote_pending_recoveries c (start_next s))
      else s)"
  by pat_completeness auto
termination
proof (relation "measure (\<lambda>(c, s). length (wq_queue s) + length (wq_pendingRecoveryIds s))", goal_cases)
  case (2 c s)
  then have "length (wq_queue (start_next s)) + length (wq_pendingRecoveryIds (start_next s))
      < length (wq_queue s) + length (wq_pendingRecoveryIds s)"
    by (cases "wq_queue s") (simp_all add: start_next_def Let_def)
  with promote_backlog [of c "start_next s"] show ?case by simp
qed simp

declare dispatch_loop.simps [simp del]

definition dispatch :: "wq_config \<Rightarrow> wq_state \<Rightarrow> wq_state" where
  "dispatch c s = dispatch_loop c (promote_pending_recoveries c s)"

definition enqueue :: "wq_config \<Rightarrow> string \<Rightarrow> bool \<Rightarrow> wq_state \<Rightarrow> bool \<times> wq_state" where
  "enqueue c i retain s =
     (if i = [] then (False, s)
      else if length (wq_queue s) \<ge> wc_maxBacklog c
      then
        let s' = s\<lparr>wq_rejectedCount := Suc (wq_rejectedCount s)\<rparr> in
        (False,
         if retain \<and> \<not> is_queued_or_active i s'
         then if i \<in> set (wq_pendingRecoveryIds s') then s'
              else if length (wq_pendingRecoveryIds s') < wc_maxPendingRecovery c
              then s'\<lparr>wq_pendingRecoveryIds := wq_pendingRecoveryIds s' @ [i]\<rparr>
              else s'\<lparr>wq_recoveryOverflowCount := Suc (wq_recoveryOverflowCount s')\<rparr>
         else s')
      else
        (True, dispatch c (s\<lparr>wq_pendingRecoveryIds := remove1 i (wq_pendingRecoveryIds s),
                             wq_queue := wq_queue s @ [i]\<rparr>)))"

definition stats :: "wq_config \<Rightarrow> wq_state \<Rightarrow> wq_stats" where
  "stats c s =
     \<lparr>ws_queued = length (wq_queue s), ws_active = length (wq_activeIds s), ws_completed = wq_completed s,
      ws_failed = wq_failed s,
      ws_saturated = (length (wq_queue s) \<ge> wc_maxBacklog c \<or> wq_pendingRecoveryIds s \<noteq> []),
      ws_rejectedCount = wq_rejectedCount s, ws_pendingRecoveryCount = length (wq_pendingRecoveryIds s),
      ws_recoveredCount = wq_recoveredCount s, ws_recoveryOverflowCount = wq_recoveryOverflowCount s\<rparr>"

text \<open>The loop of \<open>reclaimPending\<close> over the fetched ids, with the number reclaimed so far.\<close>

fun reclaim_pending :: "wq_config \<Rightarrow> string list \<Rightarrow> nat \<Rightarrow> wq_state \<Rightarrow> nat \<times> wq_state" where
  "reclaim_pending c [] n s = (n, s)"
| "reclaim_pending c (i # ids) n s =
     (if is_queued_or_active i s then reclaim_pending c ids n s
      else (case enqueue c i False s of
              (True, s') \<Rightarrow> reclaim_pending c ids (Suc n) s'
            | (False, s') \<Rightarrow> (n, s')))"

definition queue_idle :: "wq_state \<Rightarrow> bool" where
  "queue_idle s \<longleftrightarrow> wq_queue s = [] \<and> wq_activeIds s = [] \<and> wq_pendingRecoveryIds s = []"

text \<open>\<open>drain()\<close>: whether it resolves at once; otherwise its resolver is stored.\<close>

definition drain :: "wq_state \<Rightarrow> bool \<times> wq_state" where
  "drain s = (if queue_idle s then (True, s) else (False, s\<lparr>wq_drainResolvers := Suc (wq_drainResolvers s)\<rparr>))"

definition check_drain :: "wq_state \<Rightarrow> wq_state" where
  "check_drain s = (if queue_idle s \<and> wq_drainResolvers s > 0 then s\<lparr>wq_drainResolvers := 0\<rparr> else s)"

text \<open>The rest of \<open>runWorker\<close> once the handler of one running call settles.\<close>

definition finish_worker :: "wq_config \<Rightarrow> string \<Rightarrow> bool \<Rightarrow> wq_state \<Rightarrow> wq_state" where
  "finish_worker c i ok s =
     (let counted = (if ok then s\<lparr>wq_completed := Suc (wq_completed s)\<rparr>
                     else s\<lparr>wq_failed := Suc (wq_failed s)\<rparr>);
          settled = counted\<lparr>wq_running := remove1 i (wq_running counted),
                            wq_activeIds := remove1 i (wq_activeIds counted)\<rparr>
      in check_drain (dispatch c settled))"

text \<open>
  A run of the queue, with the number of deliveries accepted so far: \<open>enqueue\<close> returned true,
  directly or inside \<open>reclaimPending\<close>.  With \<open>uniq\<close> set, callers offer no delivery that is
  still queued or active, as \<open>reclaimPending\<close> itself takes care of.
\<close>

inductive wq_reachable :: "wq_config \<Rightarrow> bool \<Rightarrow> nat \<Rightarrow> wq_state \<Rightarrow> bool" for c :: wq_config and uniq :: bool where
  wq_init: "wq_reachable c uniq 0 empty_wq"
| wq_enqueue: "wq_reachable c uniq n s \<Longrightarrow> uniq \<longrightarrow> \<not> is_queued_or_active i s \<Longrightarrow>
    enqueue c i retain s = (accepted, s') \<Longrightarrow> wq_reachable c uniq (n + (if accepted then 1 else 0)) s'"
| wq_finish: "wq_reachable c uniq n s \<Longrightarrow> i \<in> set (wq_running s) \<Longrightarrow> wq_reachable c uniq n (finish_worker c i ok s)"
| wq_reclaim: "wq_reachable c uniq n s \<Longrightarrow> reclaim_pending c ids 0 s = (m, s') \<Longrightarrow> wq_reachable c uniq (n + m) s'"
| wq_drain: "wq_reachable c uniq n s \<Longrightarrow> wq_reachable c uniq n (snd (drain s))"

section \<open>Invariants\<close>

text \<open>What holds at every statement, and what holds between the operations.\<close>

definition wq_base :: "wq_config \<Rightarrow> wq_state \<Rightarrow> bool" where
  "wq_base c s \<longleftrightarrow> length (wq_queue s) \<le> wc_maxBacklog c \<and> distinct (wq_activeIds s) \<and>
     length (wq_activeIds s) \<le> wc_concurrency c \<and> set (wq_activeIds s) \<subseteq> set (wq_running s) \<and>
     distinct (wq_pendingRecoveryIds s) \<and> length (wq_pendingRecoveryIds s) \<le> wc_maxPendingRecovery c"

definition wq_unique :: "wq_state \<Rightarrow> bool" where
  "wq_unique s \<longleftrightarrow> mset (wq_running s) = mset (wq_activeIds s) \<and> distinct (wq_activeIds s @ wq_queue s)"

definition recovery_full :: "wq_config \<Rightarrow> wq_state \<Rightarrow> bool" where
  "recovery_full c s \<longleftrightarrow> (wq_pendingRecoveryIds s \<noteq> [] \<longrightarrow> wc_maxBacklog c \<le> length (wq_queue s))"

definition workers_full :: "wq_config \<Rightarrow> wq_state \<Rightarrow> bool" where
  "workers_full c s \<longleftrightarrow> (wq_queue s \<noteq> [] \<longrightarrow> wc_concurrency c \<le> length (wq_activeIds s))"

text \<open>Deliveries accepted or recovered but not counted as handled, plus the handled ones.\<close>

definition wq_total :: "wq_state \<Rightarrow> nat" where
  "wq_total s = length (wq_queue s) + length (wq_running s) + wq_completed s + wq_failed s"

text \<open>What \<open>dispatch\<close> and its parts keep: the frame of one internal step from s to s'.\<close>

definition wq_internal :: "wq_config \<Rightarrow> wq_state \<Rightarrow> wq_state \<Rightarrow> bool" where
  "wq_internal c s s' \<longleftrightarrow> (wq_base c s \<longrightarrow> wq_base c s') \<and> (wq_unique s \<longrightarrow> wq_unique s') \<and>
     (queue_idle s' \<longrightarrow> queue_idle s) \<and> wq_drainResolvers s' = wq_drainResolvers s \<and>
     int (wq_total s') - int (wq_recoveredCount s') = int (wq_total s) - int (wq_recoveredCount s)"

lemma wq_internal_refl: "wq_internal c s s"
  by (simp add: wq_internal_def)

lemma wq_internal_trans: "wq_internal c s t \<Longrightarrow> wq_internal c t u \<Longrightarrow> wq_internal c s u"
  by (simp add: wq_internal_def)

lemma promote_step:
  assumes "length (wq_queue s) < wc_maxBacklog c" "wq_pendingRecoveryIds s = i # rest"
  defines "s1 \<equiv> s\<lparr>wq_pendingRecoveryIds := rest\<rparr>"
  shows "is_queued_or_active i s1 \<Longrightarrow> wq_internal c s s1"
    and "\<not> is_queued_or_active i s1 \<Longrightarrow>
      wq_internal c s (s1\<lparr>wq_queue := wq_queue s1 @ [i], wq_recoveredCount := Suc (wq_recoveredCount s1)\<rparr>)"
  using assms
  by (auto simp: wq_internal_def wq_base_def wq_unique_def queue_idle_def wq_total_def is_queued_or_active_def s1_def)

lemma promote_internal:
  "wq_internal c s (promote_pending_recoveries c s) \<and> recovery_full c (promote_pending_recoveries c s)"
proof (induction c s rule: promote_pending_recoveries.induct)
  case (1 c s)
  show ?case
  proof (cases "length (wq_queue s) < wc_maxBacklog c \<and> wq_pendingRecoveryIds s \<noteq> []")
    case False
    then have "promote_pending_recoveries c s = s"
      by (subst promote_pending_recoveries.simps) (auto split: list.splits)
    with False show ?thesis by (auto simp: wq_internal_refl recovery_full_def)
  next
    case True
    then obtain i rest where p: "wq_pendingRecoveryIds s = i # rest" by (cases "wq_pendingRecoveryIds s") auto
    from True have room: "length (wq_queue s) < wc_maxBacklog c" by simp
    let ?s1 = "s\<lparr>wq_pendingRecoveryIds := rest\<rparr>"
    let ?s2 = "?s1\<lparr>wq_queue := wq_queue ?s1 @ [i], wq_recoveredCount := Suc (wq_recoveredCount ?s1)\<rparr>"
    show ?thesis
    proof (cases "is_queued_or_active i ?s1")
      case True
      then have eq: "promote_pending_recoveries c s = promote_pending_recoveries c ?s1"
        using room p by (subst promote_pending_recoveries.simps) simp
      show ?thesis unfolding eq
        using "1.IH"(1) [OF room p refl True] wq_internal_trans [OF promote_step(1) [OF room p True]] by blast
    next
      case False
      then have eq: "promote_pending_recoveries c s = promote_pending_recoveries c ?s2"
        using room p by (subst promote_pending_recoveries.simps) simp
      show ?thesis unfolding eq
        using "1.IH"(2) [OF room p refl False] wq_internal_trans [OF promote_step(2) [OF room p False]] by blast
    qed
  qed
qed

lemma start_next_internal:
  assumes "length (wq_activeIds s) < wc_concurrency c" "wq_queue s \<noteq> []"
  shows "wq_internal c s (start_next s)"
  using assms
  by (cases "wq_queue s")
    (auto simp: wq_internal_def wq_base_def wq_unique_def queue_idle_def wq_total_def start_next_def set_add_def Let_def)

lemma dispatch_loop_internal:
  assumes "recovery_full c s"
  shows "wq_internal c s (dispatch_loop c s) \<and> recovery_full c (dispatch_loop c s) \<and> workers_full c (dispatch_loop c s)"
  using assms
proof (induction c s rule: dispatch_loop.induct)
  case (1 c s)
  show ?case
  proof (cases "length (wq_activeIds s) < wc_concurrency c \<and> wq_queue s \<noteq> []")
    case False
    then have "dispatch_loop c s = s" by (subst dispatch_loop.simps) auto
    with False "1.prems" show ?thesis by (auto simp: wq_internal_refl workers_full_def)
  next
    case True
    then have eq: "dispatch_loop c s = dispatch_loop c (promote_pending_recoveries c (start_next s))"
      by (subst dispatch_loop.simps) simp
    have "wq_internal c s (promote_pending_recoveries c (start_next s))"
      using wq_internal_trans start_next_internal True promote_internal by blast
    then show ?thesis unfolding eq
      using "1.IH" [OF True] promote_internal wq_internal_trans by blast
  qed
qed

lemma dispatch_internal:
  "wq_internal c s (dispatch c s) \<and> recovery_full c (dispatch c s) \<and> workers_full c (dispatch c s)"
  unfolding dispatch_def
  using promote_internal [of c s] dispatch_loop_internal [of c "promote_pending_recoveries c s"] wq_internal_trans
  by blast

definition wq_inv :: "wq_config \<Rightarrow> wq_state \<Rightarrow> bool" where
  "wq_inv c s \<longleftrightarrow> wq_base c s \<and> recovery_full c s \<and> workers_full c s \<and>
     (wq_drainResolvers s > 0 \<longrightarrow> \<not> queue_idle s)"

definition wq_balance :: "wq_state \<Rightarrow> int" where
  "wq_balance s = int (wq_total s) - int (wq_recoveredCount s)"

lemma enqueue_keeps:
  assumes "wq_inv c s" "enqueue c i retain s = (b, s')"
  shows "wq_inv c s'" "wq_balance s' = wq_balance s + (if b then 1 else 0)"
    "wq_unique s \<Longrightarrow> \<not> is_queued_or_active i s \<Longrightarrow> wq_unique s'"
proof -
  have "wq_inv c s' \<and> wq_balance s' = wq_balance s + (if b then 1 else 0) \<and>
      (wq_unique s \<and> \<not> is_queued_or_active i s \<longrightarrow> wq_unique s')"
  proof (cases "i = [] \<or> wc_maxBacklog c \<le> length (wq_queue s)")
    case True
    let ?r = "s\<lparr>wq_rejectedCount := Suc (wq_rejectedCount s)\<rparr>"
    let ?p = "?r\<lparr>wq_pendingRecoveryIds := wq_pendingRecoveryIds s @ [i]\<rparr>"
    let ?o = "?r\<lparr>wq_recoveryOverflowCount := Suc (wq_recoveryOverflowCount s)\<rparr>"
    have b: "\<not> b" using True assms(2) by (simp add: enqueue_def Let_def split: if_splits)
    have "s' = s \<or> s' = ?r \<or> s' = ?o \<or> s' = ?p \<and> wc_maxBacklog c \<le> length (wq_queue s) \<and>
        i \<notin> set (wq_pendingRecoveryIds s) \<and> length (wq_pendingRecoveryIds s) < wc_maxPendingRecovery c"
      using True assms(2) by (simp add: enqueue_def Let_def split: if_splits)
    then show ?thesis
    proof (elim disjE conjE)
      assume "s' = ?p" "wc_maxBacklog c \<le> length (wq_queue s)" "i \<notin> set (wq_pendingRecoveryIds s)"
        "length (wq_pendingRecoveryIds s) < wc_maxPendingRecovery c"
      then show ?thesis using assms(1) b
        by (simp add: wq_inv_def wq_base_def recovery_full_def workers_full_def queue_idle_def
            wq_balance_def wq_total_def wq_unique_def)
    qed (use assms(1) b in \<open>simp_all add: wq_inv_def wq_base_def recovery_full_def workers_full_def queue_idle_def
            wq_balance_def wq_total_def wq_unique_def\<close>)
  next
    case False
    let ?s1 = "s\<lparr>wq_pendingRecoveryIds := remove1 i (wq_pendingRecoveryIds s), wq_queue := wq_queue s @ [i]\<rparr>"
    have s': "s' = dispatch c ?s1" "b" using False assms(2) by (auto simp: enqueue_def)
    have base: "wq_base c ?s1"
      using assms(1) False by (auto simp: wq_inv_def wq_base_def length_remove1)
    have busy: "\<not> queue_idle ?s1" by (simp add: queue_idle_def)
    have "wq_unique ?s1" if "wq_unique s" "\<not> is_queued_or_active i s"
      using that by (auto simp: wq_unique_def is_queued_or_active_def)
    moreover have "wq_balance ?s1 = wq_balance s + 1" by (simp add: wq_balance_def wq_total_def)
    ultimately show ?thesis
      using dispatch_internal [of c ?s1] base busy s'
      by (auto simp: wq_inv_def wq_internal_def wq_balance_def)
  qed
  then show "wq_inv c s'" "wq_balance s' = wq_balance s + (if b then 1 else 0)"
    "wq_unique s \<Longrightarrow> \<not> is_queued_or_active i s \<Longrightarrow> wq_unique s'" by blast+
qed

lemma reclaim_keeps:
  assumes "reclaim_pending c ids n s = (m, s')" "wq_inv c s"
  shows "wq_inv c s' \<and> n \<le> m \<and> wq_balance s' = wq_balance s + int m - int n \<and> (wq_unique s \<longrightarrow> wq_unique s')"
  using assms
proof (induction c ids n s arbitrary: m s' rule: reclaim_pending.induct)
  case (2 c i ids n s)
  show ?case
  proof (cases "is_queued_or_active i s")
    case True
    with "2.IH"(1) "2.prems" show ?thesis by simp
  next
    case False
    obtain b s1 where e: "enqueue c i False s = (b, s1)" by fastforce
    note k = enqueue_keeps [OF "2.prems"(2) e]
    show ?thesis
    proof (cases b)
      case True
      with e False "2.prems"(1) have "reclaim_pending c ids (Suc n) s1 = (m, s')" by simp
      with "2.IH"(2) [OF False e [symmetric]] True k(1)
      have "wq_inv c s' \<and> Suc n \<le> m \<and> wq_balance s' = wq_balance s1 + int m - int (Suc n) \<and>
          (wq_unique s1 \<longrightarrow> wq_unique s')" by simp
      with k False True show ?thesis by simp
    next
      case b: False
      with e False "2.prems"(1) k show ?thesis using False by auto
    qed
  qed
qed simp

lemma check_drain_frame [simp]:
  "wq_base c (check_drain t) = wq_base c t" "recovery_full c (check_drain t) = recovery_full c t"
  "workers_full c (check_drain t) = workers_full c t" "wq_unique (check_drain t) = wq_unique t"
  "wq_balance (check_drain t) = wq_balance t" "queue_idle (check_drain t) = queue_idle t"
  "queue_idle t \<Longrightarrow> wq_drainResolvers (check_drain t) = 0"
  by (simp_all add: check_drain_def wq_base_def recovery_full_def workers_full_def wq_unique_def
      wq_balance_def wq_total_def queue_idle_def)

lemma remove_both:
  assumes "distinct xs" "set xs \<subseteq> set ys"
  shows "set (remove1 i xs) \<subseteq> set (remove1 i ys)"
  using assms by (metis Diff_iff in_set_remove1 set_remove1_eq singletonI subset_iff)

lemma finish_keeps:
  assumes "wq_inv c s" "i \<in> set (wq_running s)"
  shows "wq_inv c (finish_worker c i ok s)" "wq_balance (finish_worker c i ok s) = wq_balance s"
    "wq_unique s \<Longrightarrow> wq_unique (finish_worker c i ok s)"
proof -
  define s1 where "s1 = s\<lparr>wq_completed := wq_completed s + (if ok then 1 else 0),
      wq_failed := wq_failed s + (if ok then 0 else 1),
      wq_running := remove1 i (wq_running s), wq_activeIds := remove1 i (wq_activeIds s)\<rparr>"
  have fin: "finish_worker c i ok s = check_drain (dispatch c s1)"
    by (cases ok) (simp_all add: finish_worker_def s1_def)
  have len: "Suc (length (remove1 i (wq_running s))) = length (wq_running s)"
    using assms(2) length_pos_if_in_set [OF assms(2)] by (simp add: length_remove1)
  have act: "distinct (wq_activeIds s)" "set (wq_activeIds s) \<subseteq> set (wq_running s)"
    using assms(1) by (simp_all add: wq_inv_def wq_base_def)
  have "length (remove1 i (wq_activeIds s)) \<le> length (wq_activeIds s)" by (simp add: length_remove1)
  then have base: "wq_base c s1"
    using assms(1) remove_both [OF act, of i]
    by (simp add: wq_inv_def wq_base_def s1_def del: set_remove1_eq)
  have bal: "wq_balance s1 = wq_balance s" using len by (simp add: wq_balance_def wq_total_def s1_def)
  have uniq: "wq_unique s1" if "wq_unique s"
    using that set_remove1_subset [of i "wq_activeIds s"] by (auto simp: wq_unique_def s1_def)
  note d = dispatch_internal [of c s1]
  show "wq_inv c (finish_worker c i ok s)"
    unfolding fin wq_inv_def [of c "check_drain (dispatch c s1)"]
    using d base by (simp add: wq_internal_def) auto
  show "wq_balance (finish_worker c i ok s) = wq_balance s"
    using d bal by (simp add: fin wq_internal_def wq_balance_def [symmetric])
  show "wq_unique (finish_worker c i ok s)" if "wq_unique s"
    using d uniq [OF that] by (simp add: fin wq_internal_def)
qed

lemma wq_reachable_inv:
  assumes "wq_reachable c uniq n s"
  shows "wq_inv c s \<and> wq_balance s = int n \<and> (uniq \<longrightarrow> wq_unique s)"
  using assms
proof (induction rule: wq_reachable.induct)
  case wq_init
  show ?case by (simp add: wq_inv_def wq_base_def recovery_full_def workers_full_def wq_balance_def
        wq_total_def wq_unique_def empty_wq_def)
next
  case (wq_enqueue n s i retain accepted s')
  then show ?case using enqueue_keeps [of c s i retain accepted s'] by auto
next
  case (wq_finish n s i ok)
  then show ?case using finish_keeps [of c s i ok] by auto
next
  case (wq_reclaim n s ids m s')
  then show ?case using reclaim_keeps [of c ids 0 s m s'] by auto
next
  case (wq_drain n s)
  then show ?case
    by (auto simp: drain_def wq_inv_def wq_base_def recovery_full_def workers_full_def queue_idle_def
        wq_balance_def wq_total_def wq_unique_def)
qed

section \<open>Properties\<close>

text \<open>
  The backlog is bounded and the workers are kept busy.  In every reachable state the queue
  is within its backlog, the active ids within the concurrency and the recovery set within its
  limit; deliveries wait for recovery only while the queue is full, and deliveries are queued
  only while all workers are taken.
\<close>
theorem webhook_queue_bounded:
  assumes "wq_reachable c uniq n s"
  shows "length (wq_queue s) \<le> wc_maxBacklog c \<and> length (wq_activeIds s) \<le> wc_concurrency c \<and>
     length (wq_pendingRecoveryIds s) \<le> wc_maxPendingRecovery c \<and> distinct (wq_pendingRecoveryIds s) \<and>
     (wq_pendingRecoveryIds s = [] \<or> length (wq_queue s) = wc_maxBacklog c) \<and>
     (wq_queue s = [] \<or> length (wq_activeIds s) = wc_concurrency c)"
  using wq_reachable_inv [OF assms]
  by (auto simp: wq_inv_def wq_base_def recovery_full_def workers_full_def)

definition demo_wq_config :: wq_config where
  "demo_wq_config = new_wq_config (Some 2) (Some 1) None"

definition demo_wq :: "wq_state" where
  "demo_wq = snd (enqueue demo_wq_config ''d'' True (snd (enqueue demo_wq_config ''c'' True
     (snd (enqueue demo_wq_config ''b'' True (snd (enqueue demo_wq_config ''a'' True empty_wq)))))))"

lemma wq_enqueue_snd:
  "wq_reachable c uniq n s \<Longrightarrow> uniq \<longrightarrow> \<not> is_queued_or_active i s \<Longrightarrow>
     wq_reachable c uniq (n + (if fst (enqueue c i retain s) then 1 else 0)) (snd (enqueue c i retain s))"
  by (erule (1) wq_enqueue) simp

lemmas wq_eval = enqueue_def dispatch_def promote_pending_recoveries.simps dispatch_loop.simps start_next_def
  set_add_def is_queued_or_active_def empty_wq_def demo_wq_config_def new_wq_config_def clamp_positive_int_def Let_def

lemma demo_wq_run:
  "demo_wq = empty_wq\<lparr>wq_queue := [''c''], wq_activeIds := [''a'', ''b''], wq_running := [''a'', ''b''],
     wq_pendingRecoveryIds := [''d''], wq_rejectedCount := 1\<rparr>"
  "wq_reachable demo_wq_config True 3 demo_wq"
proof -
  let ?c = demo_wq_config
  have a: "enqueue ?c ''a'' True empty_wq
      = (True, empty_wq\<lparr>wq_activeIds := [''a''], wq_running := [''a'']\<rparr>)" (is "_ = (True, ?a)") by code_simp
  have b: "enqueue ?c ''b'' True ?a = (True, ?a\<lparr>wq_activeIds := [''a'', ''b''], wq_running := [''a'', ''b'']\<rparr>)"
    (is "_ = (True, ?b)") by code_simp
  have cc: "enqueue ?c ''c'' True ?b = (True, ?b\<lparr>wq_queue := [''c'']\<rparr>)" (is "_ = (True, ?d)") by code_simp
  have d: "enqueue ?c ''d'' True ?d = (False, ?d\<lparr>wq_pendingRecoveryIds := [''d''], wq_rejectedCount := 1\<rparr>)"
    by code_simp
  show eq: "demo_wq = empty_wq\<lparr>wq_queue := [''c''], wq_activeIds := [''a'', ''b''], wq_running := [''a'', ''b''],
     wq_pendingRecoveryIds := [''d''], wq_rejectedCount := 1\<rparr>"
    unfolding demo_wq_def a b cc d snd_conv by simp
  have "wq_reachable ?c True (0 + (if True then 1 else 0)) ?a"
    by (rule wq_enqueue [OF wq_init _ a]) code_simp
  then have "wq_reachable ?c True (0 + (if True then 1 else 0) + (if True then 1 else 0)) ?b"
    by (rule wq_enqueue [OF _ _ b]) code_simp
  then have "wq_reachable ?c True (0 + (if True then 1 else 0) + (if True then 1 else 0) + (if True then 1 else 0)) ?d"
    by (rule wq_enqueue [OF _ _ cc]) code_simp
  then have "wq_reachable ?c True (0 + (if True then 1 else 0) + (if True then 1 else 0) + (if True then 1 else 0)
      + (if False then 1 else 0)) (?d\<lparr>wq_pendingRecoveryIds := [''d''], wq_rejectedCount := 1\<rparr>)"
    by (rule wq_enqueue [OF _ _ d]) code_simp
  then show "wq_reachable ?c True 3 demo_wq" by (simp add: eq empty_wq_def numeral_3_eq_3)
qed

theorem webhook_queue_bounded_witness:
  "length (wq_queue demo_wq) = wc_maxBacklog demo_wq_config \<and>
   length (wq_activeIds demo_wq) = wc_concurrency demo_wq_config"
  using webhook_queue_bounded [OF demo_wq_run(2)] by (simp add: demo_wq_run(1) empty_wq_def)

text \<open>
  C11: no accepted delivery is lost or counted twice.  In every reachable state, the deliveries
  still queued, in progress, completed and failed are exactly as many as were accepted or
  recovered.
\<close>
theorem webhook_deliveries_conserved:
  assumes "wq_reachable c uniq n s"
  shows "length (wq_queue s) + length (wq_running s) + wq_completed s + wq_failed s = n + wq_recoveredCount s"
  using wq_reachable_inv [OF assms] by (auto simp: wq_balance_def wq_total_def)

theorem webhook_deliveries_conserved_witness:
  "length (wq_queue demo_wq) + length (wq_running demo_wq) + wq_completed demo_wq + wq_failed demo_wq
     = 3 + wq_recoveredCount demo_wq"
  by (rule webhook_deliveries_conserved [OF demo_wq_run(2)])

text \<open>
  C12: the queue never stalls.  With at least one worker and a positive backlog (which the
  constructor guarantees), a reachable state in which no handler is running has an empty
  queue, an empty recovery set and no caller waiting in \<open>drain\<close>.
\<close>
theorem webhook_queue_never_stalls:
  assumes "wq_reachable (new_wq_config conc backlog pending) uniq n s" "wq_running s = []"
  shows "wq_queue s = [] \<and> wq_pendingRecoveryIds s = [] \<and> wq_activeIds s = [] \<and> wq_drainResolvers s = 0"
proof -
  let ?c = "new_wq_config conc backlog pending"
  have pos: "0 < wc_concurrency ?c" "0 < wc_maxBacklog ?c"
    by (auto simp: new_wq_config_def clamp_positive_int_def Let_def split: option.splits)
  have inv: "wq_inv ?c s" using wq_reachable_inv [OF assms(1)] by blast
  then have "wq_activeIds s = []" using assms(2) by (auto simp: wq_inv_def wq_base_def)
  moreover from this inv pos have "wq_queue s = []" by (auto simp: wq_inv_def workers_full_def)
  moreover from this inv pos have "wq_pendingRecoveryIds s = []" by (auto simp: wq_inv_def recovery_full_def)
  ultimately show ?thesis using inv by (auto simp: wq_inv_def queue_idle_def)
qed

theorem webhook_queue_never_stalls_witness:
  "wq_queue (snd (drain empty_wq)) = [] \<and> wq_pendingRecoveryIds (snd (drain empty_wq)) = [] \<and>
   wq_activeIds (snd (drain empty_wq)) = [] \<and> wq_drainResolvers (snd (drain empty_wq)) = 0"
  by (rule webhook_queue_never_stalls [OF wq_drain [OF wq_init [of "new_wq_config None None None" True]]])
    (simp add: drain_def empty_wq_def queue_idle_def)

text \<open>
  The concurrency limit holds when no delivery is enqueued while it is still queued or
  active: at most \<open>concurrency\<close> handlers run, and no delivery runs twice at a time.
\<close>
theorem webhook_concurrency_respected:
  assumes "wq_reachable c True n s"
  shows "length (wq_running s) \<le> wc_concurrency c \<and> distinct (wq_running s)"
proof -
  have "mset (wq_running s) = mset (wq_activeIds s)" "distinct (wq_activeIds s)"
    "length (wq_activeIds s) \<le> wc_concurrency c"
    using wq_reachable_inv [OF assms] by (auto simp: wq_inv_def wq_base_def wq_unique_def)
  then show ?thesis by (metis mset_eq_imp_distinct_iff size_mset)
qed

theorem webhook_concurrency_respected_witness:
  "length (wq_running demo_wq) \<le> 2"
  using webhook_concurrency_respected [OF demo_wq_run(2)]
  by (simp add: demo_wq_config_def new_wq_config_def clamp_positive_int_def Let_def)

text \<open>A burst of enqueue calls, none of whose handlers settles in between.\<close>

definition enqueue_all :: "wq_config \<Rightarrow> string list \<Rightarrow> wq_state \<Rightarrow> wq_state" where
  "enqueue_all c ids s = foldl (\<lambda>t i. snd (enqueue c i True t)) s ids"

lemma dup_start:
  assumes "wq_queue s = []" "wq_pendingRecoveryIds s = []" "2 \<le> wc_concurrency c"
    "0 < wc_maxBacklog c" "wq_activeIds s = [] \<or> wq_activeIds s = [i]" "i \<noteq> []"
  shows "enqueue c i True s = (True, s\<lparr>wq_activeIds := [i], wq_running := wq_running s @ [i]\<rparr>)"
proof -
  have idle: "promote_pending_recoveries c t = t" if "wq_pendingRecoveryIds t = []" for t
    using that by (subst promote_pending_recoveries.simps) simp
  have stop: "dispatch_loop c t = t" if "wq_queue t = []" for t
    using that by (subst dispatch_loop.simps) simp
  let ?s1 = "s\<lparr>wq_pendingRecoveryIds := [], wq_queue := [i]\<rparr>"
  have "length (wq_activeIds s) < wc_concurrency c" using assms(3,5) by auto
  then have "dispatch c ?s1 = start_next ?s1"
    unfolding dispatch_def by (subst dispatch_loop.simps) (simp add: idle stop start_next_def Let_def)
  then show ?thesis
    using assms by (auto simp: enqueue_def start_next_def set_add_def Let_def)
qed

text \<open>The state after \<open>k\<close> calls with one delivery: it is active once, and runs \<open>k\<close> times.\<close>

lemma duplicate_burst:
  assumes "2 \<le> wc_concurrency c" "0 < wc_maxBacklog c" "i \<noteq> []"
  shows "enqueue_all c (replicate k i) empty_wq
    = empty_wq\<lparr>wq_activeIds := (if k = 0 then [] else [i]), wq_running := replicate k i\<rparr>"
proof (induction k)
  case (Suc k)
  let ?s = "empty_wq\<lparr>wq_activeIds := (if k = 0 then [] else [i]), wq_running := replicate k i\<rparr>"
  have "enqueue c i True ?s = (True, ?s\<lparr>wq_activeIds := [i], wq_running := wq_running ?s @ [i]\<rparr>)"
    by (rule dup_start) (use assms in \<open>simp_all add: empty_wq_def\<close>)
  moreover have "enqueue_all c (replicate (Suc k) i) empty_wq = snd (enqueue c i True (enqueue_all c (replicate k i) empty_wq))"
    unfolding enqueue_all_def replicate_Suc replicate_append_same [symmetric] by simp
  ultimately show ?case using Suc.IH by (simp add: replicate_append_same)
qed (simp add: enqueue_all_def empty_wq_def)

text \<open>
  C13: the concurrency limit holds for distinct deliveries only.  With a limit of two or more and
  a positive backlog, a run in which no delivery is offered while it is queued or active has at most as many running
  handlers as the limit; but enqueueing one and the same delivery \<open>k\<close> times in a row starts \<open>k\<close>
  handlers of it at once, for every \<open>k\<close>, because the active set counts it once, and the statistics
  report a single active delivery.
\<close>
theorem webhook_concurrency_unbounded_for_duplicates:
  assumes "2 \<le> wc_concurrency c" "0 < wc_maxBacklog c" "i \<noteq> []" "wq_reachable c True n s"
  shows "length (wq_running s) \<le> wc_concurrency c \<and>
    wq_running (enqueue_all c (replicate k i) empty_wq) = replicate k i \<and>
    wq_queue (enqueue_all c (replicate k i) empty_wq) = [] \<and>
    (0 < k \<longrightarrow> ws_active (stats c (enqueue_all c (replicate k i) empty_wq)) = 1)"
proof -
  have "mset (wq_running s) = mset (wq_activeIds s)" "length (wq_activeIds s) \<le> wc_concurrency c"
    using wq_reachable_inv [OF assms(4)] by (auto simp: wq_inv_def wq_base_def wq_unique_def)
  then have "length (wq_running s) \<le> wc_concurrency c" by (metis size_mset)
  then show ?thesis unfolding duplicate_burst [OF assms(1-3)] by (simp add: stats_def empty_wq_def)
qed

theorem webhook_concurrency_unbounded_for_duplicates_witness:
  "length (wq_running demo_wq) \<le> 2 \<and>
   wq_running (enqueue_all demo_wq_config (replicate 7 ''a'') empty_wq) = replicate 7 ''a'' \<and> wc_concurrency demo_wq_config = 2"
proof -
  have "wc_concurrency demo_wq_config = 2" "0 < wc_maxBacklog demo_wq_config"
    by (simp_all add: demo_wq_config_def new_wq_config_def clamp_positive_int_def Let_def)
  then show ?thesis
    using webhook_concurrency_unbounded_for_duplicates [OF _ _ _ demo_wq_run(2), of "''a''" 7] by simp
qed

end
