(* ===== verification/Waitlist.thy ===== *)
theory Waitlist
  imports FestPrelude
begin

text \<open>
  The class waitlist: the data and validators of \<open>packages/common/src/waitlist.ts\<close> and
  \<open>InMemoryWaitlistRepository\<close> of \<open>packages/backend/src/waitlist/in-memory-waitlist-repository.ts\<close>.
  Instants are milliseconds since the epoch (\<open>Date.getTime\<close>, which is all the code compares);
  each method runs without interruption; an entry object is identified by its id.
\<close>

section \<open>Data\<close>

datatype waitlist_status = WlActive | WlWithdrawn

datatype waitlist_event_type = EvJoined | EvWithdrawn | EvRejoined

record waitlist_event =
  we_id :: string
  we_organizationId :: string
  we_festivalId :: "string option"
  we_festivalClassId :: string
  we_waitlistEntryId :: string
  we_eventType :: waitlist_event_type
  we_actorType :: string
  we_actorId :: string
  we_createdAt :: int

record waitlist_entry =
  wl_id :: string
  wl_organizationId :: string
  wl_festivalId :: string
  wl_festivalClassId :: string
  wl_parentCustomerId :: string
  wl_childId :: string
  wl_status :: waitlist_status
  wl_joinedAt :: int
  wl_withdrawnAt :: "int option"
  wl_createdAt :: int
  wl_updatedAt :: int

record join_waitlist_input =
  jw_childId :: string
  jw_parentName :: string
  jw_parentEmail :: string
  jw_parentPhone :: string
  jw_festivalClassId :: "string option"

record withdraw_waitlist_input =
  ww_waitlistEntryId :: "string option"
  ww_childId :: "string option"
  ww_festivalClassId :: "string option"

section \<open>Validators\<close>

text \<open>\<open>/^[^\s@]+@[^\s@]+\.[^\s@]+$/\<close>: one at sign, and a dot strictly inside the domain.\<close>

definition is_profile_email :: "string \<Rightarrow> bool" where
  "is_profile_email s =
     (let local = takeWhile (\<lambda>c. c \<noteq> CHR ''@'') s;
          rest = dropWhile (\<lambda>c. c \<noteq> CHR ''@'') s
      in (case rest of
            [] \<Rightarrow> False
          | _ # domain \<Rightarrow> local \<noteq> [] \<and> list_all (\<lambda>c. \<not> js_space c) s \<and> CHR ''@'' \<notin> set domain \<and>
              CHR ''.'' \<in> set (butlast (tl domain))))"

text \<open>\<open>/^\+?[0-9][0-9 ().-]{5,30}$/\<close>.\<close>

definition is_ascii_digit :: "char \<Rightarrow> bool" where
  "is_ascii_digit c \<longleftrightarrow> c \<in> set ''0123456789''"

definition is_profile_phone :: "string \<Rightarrow> bool" where
  "is_profile_phone s =
     (case (case s of [] \<Rightarrow> [] | c # cs \<Rightarrow> if c = CHR ''+'' then cs else c # cs) of
        [] \<Rightarrow> False
      | d # rest \<Rightarrow> is_ascii_digit d \<and> 5 \<le> length rest \<and> length rest \<le> 30 \<and>
          list_all (\<lambda>c. is_ascii_digit c \<or> c \<in> set '' ().-'') rest)"

definition trimmed_non_empty :: "string option \<Rightarrow> string option" where
  "trimmed_non_empty v = (case v of None \<Rightarrow> None | Some s \<Rightarrow> if js_trim s = [] then None else Some (js_trim s))"

definition required_trimmed :: "json \<Rightarrow> string \<Rightarrow> string \<Rightarrow> string outcome" where
  "required_trimmed v k msg =
     (case trimmed_non_empty (string_field v k) of None \<Rightarrow> Inl (PlainError msg) | Some s \<Rightarrow> Inr s)"

definition validate_join_waitlist_input :: "json \<Rightarrow> join_waitlist_input outcome" where
  "validate_join_waitlist_input v =
     and_then (guard (is_json_object v) (PlainError ''Join waitlist input is invalid.'')) (\<lambda>_.
     and_then (required_trimmed v ''childId'' ''Child ID is required.'') (\<lambda>child.
     and_then (required_trimmed v ''parentName'' ''Parent name is required.'') (\<lambda>name.
     and_then (guard (length name \<le> 255) (PlainError ''Parent name is too long.'')) (\<lambda>_.
     and_then (required_trimmed v ''parentEmail'' ''Parent email is invalid.'') (\<lambda>email0.
     let email = js_lower email0 in
     and_then (guard (is_profile_email email) (PlainError ''Parent email is invalid.'')) (\<lambda>_.
     and_then (required_trimmed v ''parentPhone'' ''Parent phone is invalid.'') (\<lambda>phone.
     and_then (guard (is_profile_phone phone) (PlainError ''Parent phone is invalid.'')) (\<lambda>_.
     and_then (guard (json_field v ''staffAccessConsent'' = Some (JBool True))
                (PlainError ''Staff access consent is required.'')) (\<lambda>_.
     Inr \<lparr>jw_childId = child, jw_parentName = name, jw_parentEmail = email, jw_parentPhone = phone,
          jw_festivalClassId = trimmed_non_empty (string_field v ''festivalClassId'')\<rparr>)))))))))"

definition validate_withdraw_waitlist_input :: "json \<Rightarrow> withdraw_waitlist_input outcome" where
  "validate_withdraw_waitlist_input v =
     and_then (guard (is_json_object v) (PlainError ''Waitlist withdrawal input is invalid.'')) (\<lambda>_.
       let entry_id = trimmed_non_empty
             (case string_field v ''waitlistEntryId'' of Some s \<Rightarrow> Some s | None \<Rightarrow> string_field v ''id'');
           child = trimmed_non_empty (string_field v ''childId'');
           cls = trimmed_non_empty (string_field v ''festivalClassId'')
       in if entry_id = None \<and> child = None
          then Inl (PlainError ''Either waitlistEntryId or childId is required.'')
          else Inr \<lparr>ww_waitlistEntryId = entry_id, ww_childId = child, ww_festivalClassId = cls\<rparr>)"

section \<open>Repository\<close>

record waitlist_repo =
  wr_entries :: "waitlist_entry list"
  wr_events :: "waitlist_event list"

definition empty_waitlist_repo :: waitlist_repo where
  "empty_waitlist_repo = \<lparr>wr_entries = [], wr_events = []\<rparr>"

record waitlist_params =
  wp_organizationId :: string
  wp_festivalId :: string
  wp_festivalClassId :: string
  wp_parentCustomerId :: string
  wp_childId :: string

datatype waitlist_action = ActJoined | ActRejoined | ActNone

definition find_entry_by_id :: "string \<Rightarrow> string \<Rightarrow> waitlist_repo \<Rightarrow> waitlist_entry option" where
  "find_entry_by_id org eid r = find (\<lambda>e. wl_organizationId e = org \<and> wl_id e = eid) (wr_entries r)"

definition same_place :: "string \<Rightarrow> string \<Rightarrow> string \<Rightarrow> waitlist_entry \<Rightarrow> bool" where
  "same_place org cls child e \<longleftrightarrow>
     wl_organizationId e = org \<and> wl_festivalClassId e = cls \<and> wl_childId e = child"

definition find_active_entry :: "string \<Rightarrow> string \<Rightarrow> string \<Rightarrow> waitlist_repo \<Rightarrow> waitlist_entry option" where
  "find_active_entry org cls child r =
     find (\<lambda>e. same_place org cls child e \<and> wl_status e = WlActive) (wr_entries r)"

text \<open>The withdrawn entry of the place that was updated last: the first after the sort.\<close>

definition latest_withdrawn :: "string \<Rightarrow> string \<Rightarrow> string \<Rightarrow> waitlist_repo \<Rightarrow> waitlist_entry option" where
  "latest_withdrawn org cls child r =
     (case js_sort_desc wl_updatedAt
             (filter (\<lambda>e. same_place org cls child e \<and> wl_status e = WlWithdrawn) (wr_entries r)) of
        [] \<Rightarrow> None | e # _ \<Rightarrow> Some e)"

definition replace_entry :: "string \<Rightarrow> (waitlist_entry \<Rightarrow> waitlist_entry) \<Rightarrow> waitlist_entry list \<Rightarrow> waitlist_entry list" where
  "replace_entry eid f es = map (\<lambda>e. if wl_id e = eid then f e else e) es"

definition reactivate :: "int \<Rightarrow> waitlist_entry \<Rightarrow> waitlist_entry" where
  "reactivate t e = e\<lparr>wl_status := WlActive, wl_withdrawnAt := None, wl_joinedAt := t, wl_updatedAt := t\<rparr>"

definition withdraw_entry_fields :: "int \<Rightarrow> waitlist_entry \<Rightarrow> waitlist_entry" where
  "withdraw_entry_fields t e = e\<lparr>wl_status := WlWithdrawn, wl_withdrawnAt := Some t, wl_updatedAt := t\<rparr>"

definition join_event :: "waitlist_params \<Rightarrow> waitlist_event_type \<Rightarrow> string \<Rightarrow> string \<Rightarrow> int \<Rightarrow> waitlist_event" where
  "join_event p ty eid uuid t =
     \<lparr>we_id = uuid, we_organizationId = wp_organizationId p, we_festivalId = Some (wp_festivalId p),
      we_festivalClassId = wp_festivalClassId p, we_waitlistEntryId = eid, we_eventType = ty,
      we_actorType = ''parent'', we_actorId = wp_parentCustomerId p, we_createdAt = t\<rparr>"

definition new_waitlist_entry :: "waitlist_params \<Rightarrow> string \<Rightarrow> int \<Rightarrow> waitlist_entry" where
  "new_waitlist_entry p uuid t =
     \<lparr>wl_id = uuid, wl_organizationId = wp_organizationId p, wl_festivalId = wp_festivalId p,
      wl_festivalClassId = wp_festivalClassId p, wl_parentCustomerId = wp_parentCustomerId p,
      wl_childId = wp_childId p, wl_status = WlActive, wl_joinedAt = t, wl_withdrawnAt = None,
      wl_createdAt = t, wl_updatedAt = t\<rparr>"

text \<open>
  \<open>createOrReactivateEntry\<close> awaits its own lookup of an active entry; the rest of it runs after
  that await, on whatever the other calls have made of the repository meanwhile (\<open>others\<close>).  The
  two UUIDs are those of a new entry and of the event; the instant is read before the await.
\<close>

definition write_join ::
    "waitlist_params \<Rightarrow> string \<Rightarrow> string \<Rightarrow> int \<Rightarrow> waitlist_repo
      \<Rightarrow> (waitlist_entry \<times> bool \<times> waitlist_action) \<times> waitlist_repo" where
  "write_join p entry_uuid event_uuid t r =
     (case latest_withdrawn (wp_organizationId p) (wp_festivalClassId p) (wp_childId p) r of
        Some w \<Rightarrow>
          ((reactivate t w, False, ActRejoined),
           \<lparr>wr_entries = replace_entry (wl_id w) (reactivate t) (wr_entries r),
            wr_events = wr_events r @ [join_event p EvRejoined (wl_id w) event_uuid t]\<rparr>)
      | None \<Rightarrow>
          let e = new_waitlist_entry p entry_uuid t in
          ((e, False, ActJoined),
           \<lparr>wr_entries = wr_entries r @ [e],
            wr_events = wr_events r @ [join_event p EvJoined (wl_id e) event_uuid t]\<rparr>))"

definition create_or_reactivate_entry ::
    "(waitlist_repo \<Rightarrow> waitlist_repo) \<Rightarrow> waitlist_params \<Rightarrow> string \<Rightarrow> string \<Rightarrow> int \<Rightarrow> waitlist_repo
      \<Rightarrow> (waitlist_entry \<times> bool \<times> waitlist_action) \<times> waitlist_repo" where
  "create_or_reactivate_entry others p entry_uuid event_uuid t r =
     (case find_active_entry (wp_organizationId p) (wp_festivalClassId p) (wp_childId p) r of
        Some active \<Rightarrow> ((active, True, ActNone), others r)
      | None \<Rightarrow> write_join p entry_uuid event_uuid t (others r))"

definition withdraw_entry ::
    "string \<Rightarrow> string \<Rightarrow> string \<Rightarrow> string \<Rightarrow> string \<Rightarrow> string \<Rightarrow> int \<Rightarrow> waitlist_repo
      \<Rightarrow> (waitlist_entry option \<times> bool) \<times> waitlist_repo" where
  "withdraw_entry org cls child actor_type actor_id event_uuid t r =
     (case find_active_entry org cls child r of
        Some active \<Rightarrow>
          ((Some (withdraw_entry_fields t active), False),
           \<lparr>wr_entries = replace_entry (wl_id active) (withdraw_entry_fields t) (wr_entries r),
            wr_events = wr_events r @
              [\<lparr>we_id = event_uuid, we_organizationId = org, we_festivalId = None, we_festivalClassId = cls,
                we_waitlistEntryId = wl_id active, we_eventType = EvWithdrawn, we_actorType = actor_type,
                we_actorId = actor_id, we_createdAt = t\<rparr>]\<rparr>)
      | None \<Rightarrow>
          (case latest_withdrawn org cls child r of
             Some w \<Rightarrow> ((Some w, True), r)
           | None \<Rightarrow> ((None, False), r)))"

definition list_entries_for_parent ::
    "string \<Rightarrow> string \<Rightarrow> string option \<Rightarrow> string option \<Rightarrow> waitlist_repo \<Rightarrow> waitlist_entry list" where
  "list_entries_for_parent org parent fest cls r =
     js_sort_desc wl_joinedAt
       (filter (\<lambda>e. wl_organizationId e = org \<and> wl_parentCustomerId e = parent \<and>
           (truthy fest \<longrightarrow> Some (wl_festivalId e) = fest) \<and>
           (truthy cls \<longrightarrow> Some (wl_festivalClassId e) = cls)) (wr_entries r))"

definition status_rank :: "waitlist_status \<Rightarrow> nat" where
  "status_rank s = (case s of WlActive \<Rightarrow> 0 | WlWithdrawn \<Rightarrow> 1)"

text \<open>Active entries first, then by joining instant; the sort is stable.\<close>

definition list_entries_for_class_roster :: "string \<Rightarrow> string \<Rightarrow> waitlist_repo \<Rightarrow> waitlist_entry list" where
  "list_entries_for_class_roster org cls r =
     sort_key (\<lambda>e. (status_rank (wl_status e), wl_joinedAt e))
       (filter (\<lambda>e. wl_organizationId e = org \<and> wl_festivalClassId e = cls) (wr_entries r))"

definition list_events_for_entry :: "string \<Rightarrow> string \<Rightarrow> waitlist_repo \<Rightarrow> waitlist_event list" where
  "list_events_for_entry org eid r =
     sort_key we_createdAt
       (filter (\<lambda>e. we_organizationId e = org \<and> we_waitlistEntryId e = eid) (wr_events r))"

section \<open>Invariant\<close>

text \<open>
  The status an entry has after its events, replayed from the audit log; \<open>None\<close> outside is
  a history the repository never writes.
\<close>

fun next_status :: "waitlist_status option \<Rightarrow> waitlist_event_type \<Rightarrow> waitlist_status option option" where
  "next_status None EvJoined = Some (Some WlActive)"
| "next_status (Some WlActive) EvWithdrawn = Some (Some WlWithdrawn)"
| "next_status (Some WlWithdrawn) EvRejoined = Some (Some WlActive)"
| "next_status _ _ = None"

definition replay :: "waitlist_event_type list \<Rightarrow> waitlist_status option option" where
  "replay evs = foldl (\<lambda>st ev. Option.bind st (\<lambda>s. next_status s ev)) (Some None) evs"

definition events_of :: "string \<Rightarrow> waitlist_repo \<Rightarrow> waitlist_event_type list" where
  "events_of eid r = map we_eventType (filter (\<lambda>ev. we_waitlistEntryId ev = eid) (wr_events r))"

definition place :: "waitlist_entry \<Rightarrow> string \<times> string \<times> string" where
  "place e = (wl_organizationId e, wl_festivalClassId e, wl_childId e)"

text \<open>What holds whatever calls overlap, and what holds as long as no two joins of one place do.\<close>

definition waitlist_log_inv :: "waitlist_repo \<Rightarrow> bool" where
  "waitlist_log_inv r \<longleftrightarrow> distinct (map wl_id (wr_entries r)) \<and>
     (\<forall>e \<in> set (wr_entries r). (wl_withdrawnAt e = None \<longleftrightarrow> wl_status e = WlActive) \<and>
        replay (events_of (wl_id e) r) = Some (Some (wl_status e))) \<and>
     we_waitlistEntryId ` set (wr_events r) \<subseteq> wl_id ` set (wr_entries r)"

definition waitlist_inv :: "waitlist_repo \<Rightarrow> bool" where
  "waitlist_inv r \<longleftrightarrow> waitlist_log_inv r \<and> distinct (map place (wr_entries r))"

lemma replay_append: "replay (evs @ [ev]) = Option.bind (replay evs) (\<lambda>s. next_status s ev)"
  by (simp add: replay_def)

lemma replay_Nil [simp]: "replay [] = Some None"
  by (simp add: replay_def)

lemma same_place_iff: "same_place org cls child e \<longleftrightarrow> place e = (org, cls, child)"
  by (auto simp: same_place_def place_def)

lemma place_changes [simp]:
  "place (reactivate t e) = place e" "wl_id (reactivate t e) = wl_id e" "wl_status (reactivate t e) = WlActive"
  "wl_withdrawnAt (reactivate t e) = None" "wl_joinedAt (reactivate t e) = t"
  "place (withdraw_entry_fields t e) = place e" "wl_id (withdraw_entry_fields t e) = wl_id e"
  "wl_status (withdraw_entry_fields t e) = WlWithdrawn" "wl_withdrawnAt (withdraw_entry_fields t e) = Some t"
  by (simp_all add: place_def reactivate_def withdraw_entry_fields_def)

lemma find_active_Some:
  assumes "find_active_entry org cls child r = Some e"
  shows "e \<in> set (wr_entries r)" "place e = (org, cls, child)" "wl_status e = WlActive"
  using find_Some_iff_in [OF assms [unfolded find_active_entry_def]] by (auto simp: same_place_iff)

lemma find_active_None: "find_active_entry org cls child r = None \<longleftrightarrow>
    (\<forall>e \<in> set (wr_entries r). place e = (org, cls, child) \<longrightarrow> wl_status e = WlWithdrawn)"
  by (auto simp: find_active_entry_def find_None_all same_place_iff) (metis waitlist_status.exhaust)

lemma latest_withdrawn_Some:
  assumes "latest_withdrawn org cls child r = Some e"
  shows "e \<in> set (wr_entries r)" "place e = (org, cls, child)" "wl_status e = WlWithdrawn"
proof -
  let ?ws = "js_sort_desc wl_updatedAt
      (filter (\<lambda>e. same_place org cls child e \<and> wl_status e = WlWithdrawn) (wr_entries r))"
  from assms obtain rest where "?ws = e # rest" by (auto simp: latest_withdrawn_def split: list.splits)
  then have "e \<in> set ?ws" by (metis list.set_intros(1))
  then show "e \<in> set (wr_entries r)" "place e = (org, cls, child)" "wl_status e = WlWithdrawn"
    by (auto simp: same_place_iff)
qed

lemma latest_withdrawn_None: "latest_withdrawn org cls child r = None \<longleftrightarrow>
    (\<forall>e \<in> set (wr_entries r). place e = (org, cls, child) \<longrightarrow> wl_status e = WlActive)"
proof -
  have "latest_withdrawn org cls child r = None \<longleftrightarrow>
      filter (\<lambda>e. same_place org cls child e \<and> wl_status e = WlWithdrawn) (wr_entries r) = []"
    by (simp add: latest_withdrawn_def split: list.splits) (metis js_sort_desc_eq_Nil list.distinct(1))
  then show ?thesis
    by (auto simp: filter_empty_conv same_place_iff) (metis waitlist_status.exhaust)
qed

lemma map_replace_entry:
  "(\<And>e. g (f e) = g e) \<Longrightarrow> map g (replace_entry eid f es) = map g es"
  by (simp add: replace_entry_def)

lemma set_replace_entry:
  "set (replace_entry eid f es) = {e \<in> set es. wl_id e \<noteq> eid} \<union> f ` {e \<in> set es. wl_id e = eid}"
  by (auto simp: replace_entry_def)

text \<open>One entry changes its status and one event is appended: the invariant moves along.\<close>

lemma log_inv_change:
  assumes inv: "waitlist_log_inv r" and e: "e \<in> set (wr_entries r)"
    and f: "\<And>x. wl_id (f x) = wl_id x" "wl_withdrawnAt (f e) = None \<longleftrightarrow> wl_status (f e) = WlActive"
    and ev: "we_waitlistEntryId ev = wl_id e" "next_status (Some (wl_status e)) (we_eventType ev) = Some (Some (wl_status (f e)))"
  shows "waitlist_log_inv \<lparr>wr_entries = replace_entry (wl_id e) f (wr_entries r), wr_events = wr_events r @ [ev]\<rparr>"
    (is "waitlist_log_inv ?r'")
proof -
  have only: "x = e" if "x \<in> set (wr_entries r)" "wl_id x = wl_id e" for x
    using inv e that by (auto simp: waitlist_log_inv_def distinct_map inj_on_def)
  have events: "events_of i ?r' = events_of i r @ (if i = wl_id e then [we_eventType ev] else [])" for i
    using ev(1) by (auto simp: events_of_def)
  have "replay (events_of (wl_id e) ?r') = Some (Some (wl_status (f e)))"
    using inv e ev(2) by (simp add: waitlist_log_inv_def events replay_append)
  moreover have "replay (events_of (wl_id x) ?r') = Some (Some (wl_status x))"
    if "x \<in> set (wr_entries r)" "wl_id x \<noteq> wl_id e" for x
    using inv that by (simp add: waitlist_log_inv_def events)
  moreover have "x \<in> set (wr_entries r) \<and> wl_id x \<noteq> wl_id e \<or> x = f e" if "x \<in> set (wr_entries ?r')" for x
    using that only by (auto simp: set_replace_entry)
  moreover have "wl_withdrawnAt x = None \<longleftrightarrow> wl_status x = WlActive" if "x \<in> set (wr_entries r)" for x
    using inv that by (simp add: waitlist_log_inv_def)
  ultimately have replays: "replay (events_of (wl_id x) ?r') = Some (Some (wl_status x))"
    "wl_withdrawnAt x = None \<longleftrightarrow> wl_status x = WlActive" if "x \<in> set (wr_entries ?r')" for x
    using that f by metis+
  have "wl_id ` set (wr_entries ?r') = wl_id ` set (wr_entries r)"
    using map_replace_entry [of wl_id f "wl_id e" "wr_entries r", OF f(1)] by (metis list.set_map waitlist_repo.select_convs(1))
  then have "we_waitlistEntryId ` set (wr_events ?r') \<subseteq> wl_id ` set (wr_entries ?r')"
    using inv e ev(1) by (auto simp: waitlist_log_inv_def)
  with replays inv f(1) show ?thesis
    by (simp add: waitlist_log_inv_def map_replace_entry)
qed

lemma write_preserves_log_inv:
  assumes inv: "waitlist_log_inv r" and fresh: "u \<notin> wl_id ` set (wr_entries r)"
  shows "waitlist_log_inv (snd (write_join p u v t r))"
proof (cases "latest_withdrawn (wp_organizationId p) (wp_festivalClassId p) (wp_childId p) r")
  case (Some w)
  note w = latest_withdrawn_Some [OF Some]
  have "waitlist_log_inv \<lparr>wr_entries = replace_entry (wl_id w) (reactivate t) (wr_entries r),
      wr_events = wr_events r @ [join_event p EvRejoined (wl_id w) v t]\<rparr>"
    by (rule log_inv_change [OF inv w(1)]) (simp_all add: join_event_def w(3))
  with Some show ?thesis by (simp add: write_join_def)
next
  case None
  let ?e = "new_waitlist_entry p u t"
  let ?r' = "\<lparr>wr_entries = wr_entries r @ [?e], wr_events = wr_events r @ [join_event p EvJoined u v t]\<rparr>"
  have e: "wl_id ?e = u" "wl_status ?e = WlActive" "wl_withdrawnAt ?e = None"
    by (simp_all add: new_waitlist_entry_def)
  have no_events: "events_of u r = []"
    using inv fresh by (auto simp: events_of_def filter_empty_conv waitlist_log_inv_def)
  have events: "events_of i ?r' = events_of i r @ (if i = u then [EvJoined] else [])" for i
    by (auto simp: events_of_def join_event_def)
  have "replay (events_of (wl_id x) ?r') = Some (Some (wl_status x))" if "x \<in> set (wr_entries r)" for x
    using inv that fresh by (auto simp: waitlist_log_inv_def events)
  moreover have "replay (events_of u ?r') = Some (Some WlActive)"
    using no_events by (simp add: events replay_def)
  ultimately have "waitlist_log_inv ?r'"
    using inv fresh e unfolding waitlist_log_inv_def by (auto simp: join_event_def)
  with None show ?thesis by (simp add: write_join_def Let_def e(1))
qed

lemma withdraw_preserves_log_inv:
  assumes inv: "waitlist_log_inv r"
  shows "waitlist_log_inv (snd (withdraw_entry org cls child ty actor event_uuid t r))"
proof (cases "find_active_entry org cls child r")
  case None
  with inv show ?thesis by (simp add: withdraw_entry_def split: option.splits)
next
  case (Some a)
  note a = find_active_Some [OF Some]
  show ?thesis using Some log_inv_change [OF inv a(1), of "withdraw_entry_fields t"]
    by (simp add: withdraw_entry_def a(3))
qed

lemma new_entry_fields [simp]:
  "place (new_waitlist_entry p u t) = (wp_organizationId p, wp_festivalClassId p, wp_childId p)"
  "wl_status (new_waitlist_entry p u t) = WlActive" "wl_id (new_waitlist_entry p u t) = u"
  "wl_joinedAt (new_waitlist_entry p u t) = t"
  by (simp_all add: new_waitlist_entry_def place_def)

text \<open>The places stay as they are, apart from that of a new entry.\<close>

lemma places_of_write:
  "map place (wr_entries (snd (write_join p u v t r))) = map place (wr_entries r) @
     (if latest_withdrawn (wp_organizationId p) (wp_festivalClassId p) (wp_childId p) r = None
      then [(wp_organizationId p, wp_festivalClassId p, wp_childId p)] else [])"
  by (auto simp: write_join_def Let_def map_replace_entry split: option.splits)

lemma places_of_withdraw:
  "map place (wr_entries (snd (withdraw_entry org cls child ty actor v t r))) = map place (wr_entries r)"
  by (auto simp: withdraw_entry_def map_replace_entry split: option.splits)

lemma write_preserves_waitlist_inv:
  assumes "waitlist_inv r" "u \<notin> wl_id ` set (wr_entries r)"
    and "find_active_entry (wp_organizationId p) (wp_festivalClassId p) (wp_childId p) r = None"
  shows "waitlist_inv (snd (write_join p u v t r))"
proof -
  have "(wp_organizationId p, wp_festivalClassId p, wp_childId p) \<notin> place ` set (wr_entries r)"
    if "latest_withdrawn (wp_organizationId p) (wp_festivalClassId p) (wp_childId p) r = None"
    using that assms(3) by (auto simp: find_active_None latest_withdrawn_None)
  with assms write_preserves_log_inv show ?thesis by (auto simp: waitlist_inv_def places_of_write)
qed

lemma create_preserves_waitlist_inv:
  assumes "waitlist_inv r" "u \<notin> wl_id ` set (wr_entries r)"
  shows "waitlist_inv (snd (create_or_reactivate_entry (\<lambda>r. r) p u v t r))"
  using assms by (simp add: create_or_reactivate_entry_def write_preserves_waitlist_inv split: option.split)

lemma withdraw_preserves_waitlist_inv:
  "waitlist_inv r \<Longrightarrow> waitlist_inv (snd (withdraw_entry org cls child ty actor v t r))"
  by (simp add: waitlist_inv_def places_of_withdraw withdraw_preserves_log_inv)

section \<open>Runs\<close>

text \<open>
  A run of the repository with fresh entry ids, in which joins wait at their lookup while other
  calls go on; the waiting ones, with their instants, are a component of the run.  With \<open>serial\<close>
  no join starts while another one of the same child and class waits.
\<close>

definition join_place :: "waitlist_params \<Rightarrow> string \<times> string \<times> string" where
  "join_place p = (wp_organizationId p, wp_festivalClassId p, wp_childId p)"

inductive waitlist_run :: "bool \<Rightarrow> waitlist_repo \<Rightarrow> (waitlist_params \<times> int) list \<Rightarrow> bool" for serial where
  wl_init: "waitlist_run serial empty_waitlist_repo []"
| wl_start: "waitlist_run serial r ps \<Longrightarrow>
    find_active_entry (wp_organizationId p) (wp_festivalClassId p) (wp_childId p) r = None \<Longrightarrow>
    (serial \<Longrightarrow> join_place p \<notin> (join_place \<circ> fst) ` set ps) \<Longrightarrow> waitlist_run serial r ((p, t) # ps)"
| wl_write: "waitlist_run serial r (before @ (p, t) # after) \<Longrightarrow> u \<notin> wl_id ` set (wr_entries r) \<Longrightarrow>
    waitlist_run serial (snd (write_join p u v t r)) (before @ after)"
| wl_withdraw: "waitlist_run serial r ps \<Longrightarrow>
    waitlist_run serial (snd (withdraw_entry org cls child ty actor event_uuid t r)) ps"

text \<open>A join that does not wait is a start and a write; one that finds the child active changes nothing.\<close>

definition waitlist_reachable :: "waitlist_repo \<Rightarrow> bool" where
  "waitlist_reachable r \<longleftrightarrow> waitlist_run True r []"

lemma reachable_join:
  assumes "waitlist_reachable r" "u \<notin> wl_id ` set (wr_entries r)"
  shows "waitlist_reachable (snd (create_or_reactivate_entry (\<lambda>r. r) p u v t r))"
proof (cases "find_active_entry (wp_organizationId p) (wp_festivalClassId p) (wp_childId p) r")
  case None
  have "waitlist_run True r ([] @ (p, t) # [])"
    using wl_start [OF assms(1) [unfolded waitlist_reachable_def] None] by simp
  from wl_write [OF this assms(2)] None show ?thesis by (simp add: waitlist_reachable_def create_or_reactivate_entry_def)
qed (simp add: assms(1) create_or_reactivate_entry_def)

lemma waitlist_inv_empty: "waitlist_inv empty_waitlist_repo"
  by (simp add: waitlist_inv_def waitlist_log_inv_def empty_waitlist_repo_def)

lemma waitlist_run_log_inv: "waitlist_run serial r ps \<Longrightarrow> waitlist_log_inv r"
  by (induction rule: waitlist_run.induct)
    (simp_all add: waitlist_inv_empty [unfolded waitlist_inv_def] write_preserves_log_inv withdraw_preserves_log_inv)

lemma find_active_after_write:
  assumes "waitlist_log_inv r" "join_place p \<noteq> (org, cls, child)" "find_active_entry org cls child r = None"
  shows "find_active_entry org cls child (snd (write_join p u v t r)) = None"
proof (cases "latest_withdrawn (wp_organizationId p) (wp_festivalClassId p) (wp_childId p) r")
  case (Some w)
  note w = latest_withdrawn_Some [OF Some]
  have "x = w" if "x \<in> set (wr_entries r)" "wl_id x = wl_id w" for x
    using that assms(1) w(1) by (auto simp: waitlist_log_inv_def distinct_map inj_on_def)
  then have elsewhere: "\<forall>x \<in> set (wr_entries r). wl_id x = wl_id w \<longrightarrow> place x \<noteq> (org, cls, child)"
    using w(2) assms(2) by (metis join_place_def)
  show ?thesis
    unfolding find_active_None
  proof
    fix x assume "x \<in> set (wr_entries (snd (write_join p u v t r)))"
    then consider "x \<in> set (wr_entries r)" | y where "y \<in> set (wr_entries r)" "wl_id y = wl_id w" "x = reactivate t y"
      by (auto simp: write_join_def Some set_replace_entry)
    then show "place x = (org, cls, child) \<longrightarrow> wl_status x = WlWithdrawn"
      using elsewhere assms(3) by cases (simp_all add: find_active_None)
  qed
qed (use assms in \<open>auto simp: write_join_def find_active_None join_place_def Let_def\<close>)

lemma find_active_after_withdraw:
  "find_active_entry org cls child r = None \<Longrightarrow>
    find_active_entry org cls child (snd (withdraw_entry org' cls' child' ty actor v t r)) = None"
  by (auto simp: withdraw_entry_def find_active_None set_replace_entry split: option.splits)

text \<open>In a serial run no join waits for a place that is active, and no two for one place.\<close>

definition waiting_ok :: "waitlist_repo \<Rightarrow> (waitlist_params \<times> int) list \<Rightarrow> bool" where
  "waiting_ok r ps \<longleftrightarrow> distinct (map (join_place \<circ> fst) ps) \<and>
     (\<forall>(p, t) \<in> set ps. find_active_entry (wp_organizationId p) (wp_festivalClassId p) (wp_childId p) r = None)"

lemma serial_run_inv: "waitlist_run serial r ps \<Longrightarrow> serial \<Longrightarrow> waitlist_inv r \<and> waiting_ok r ps"
proof (induction rule: waitlist_run.induct)
  case wl_init
  show ?case by (simp add: waitlist_inv_empty waiting_ok_def)
next
  case (wl_start r ps p t)
  then show ?case by (auto simp: waiting_ok_def)
next
  case (wl_write r before p t after u v)
  then have inv: "waitlist_inv r" and ok: "waiting_ok r (before @ (p, t) # after)" by blast+
  have "find_active_entry (wp_organizationId q) (wp_festivalClassId q) (wp_childId q) (snd (write_join p u v t r)) = None"
    if "(q, t') \<in> set (before @ after)" for q t'
  proof (rule find_active_after_write)
    show "waitlist_log_inv r" using inv by (simp add: waitlist_inv_def)
    have "join_place p \<notin> set (map (join_place \<circ> fst) (before @ after))" using ok by (auto simp: waiting_ok_def)
    moreover have "join_place q \<in> set (map (join_place \<circ> fst) (before @ after))" using imageI [OF that, of "join_place \<circ> fst"] by (simp add: image_Un)
    ultimately show "join_place p \<noteq> (wp_organizationId q, wp_festivalClassId q, wp_childId q)"
      unfolding join_place_def [of q, symmetric] by metis
    show "find_active_entry (wp_organizationId q) (wp_festivalClassId q) (wp_childId q) r = None"
      using ok that by (auto simp: waiting_ok_def)
  qed
  moreover have "waitlist_inv (snd (write_join p u v t r))"
    using inv wl_write.hyps(2) ok by (intro write_preserves_waitlist_inv) (auto simp: waiting_ok_def)
  ultimately show ?case using ok by (auto simp: waiting_ok_def)
next
  case (wl_withdraw r ps org cls child ty actor v t)
  then show ?case using find_active_after_withdraw withdraw_preserves_waitlist_inv by (auto simp: waiting_ok_def)
qed

lemma waitlist_reachable_inv: "waitlist_reachable r \<Longrightarrow> waitlist_inv r"
  using serial_run_inv by (auto simp: waitlist_reachable_def)

section \<open>The interface the services rely on\<close>

text \<open>
  The contract of \<open>WaitlistRepository\<close>: joining makes the place active and is a no-op when
  it already is, withdrawing leaves it without an active entry, and neither touches another place.
\<close>

locale waitlist_store =
  fixes active_at :: "string \<Rightarrow> string \<Rightarrow> string \<Rightarrow> 's \<Rightarrow> waitlist_entry option"
    and join :: "waitlist_params \<Rightarrow> string \<Rightarrow> string \<Rightarrow> int \<Rightarrow> 's \<Rightarrow> (waitlist_entry \<times> bool \<times> waitlist_action) \<times> 's"
    and leave :: "string \<Rightarrow> string \<Rightarrow> string \<Rightarrow> string \<Rightarrow> string \<Rightarrow> string \<Rightarrow> int \<Rightarrow> 's \<Rightarrow> (waitlist_entry option \<times> bool) \<times> 's"
    and good :: "'s \<Rightarrow> bool"
    and fresh :: "string \<Rightarrow> 's \<Rightarrow> bool"
  assumes join_active: "good s \<Longrightarrow> fresh u s \<Longrightarrow> join p u v t s = ((e, again, act), s') \<Longrightarrow>
      active_at (wp_organizationId p) (wp_festivalClassId p) (wp_childId p) s' = Some e \<and> good s'"
    and join_known: "active_at (wp_organizationId p) (wp_festivalClassId p) (wp_childId p) s = Some e \<Longrightarrow>
      join p u v t s = ((e, True, ActNone), s)"
    and join_other: "good s \<Longrightarrow> fresh u s \<Longrightarrow> join p u v t s = (res, s') \<Longrightarrow>
      (org, cls, child) \<noteq> (wp_organizationId p, wp_festivalClassId p, wp_childId p) \<Longrightarrow>
      active_at org cls child s' = active_at org cls child s"
    and leave_inactive: "good s \<Longrightarrow> leave org cls child ty actor v t s = (gone, s') \<Longrightarrow>
      active_at org cls child s' = None \<and> good s'"
    and leave_unknown: "active_at org cls child s = None \<Longrightarrow> snd (leave org cls child ty actor v t s) = s"
begin

lemma join_twice:
  assumes "good s" "fresh u s" "join p u v t s = ((e, again, act), s')"
  shows "join p u' v' t' s' = ((e, True, ActNone), s')"
  using join_known join_active [OF assms] by blast

lemma leave_twice:
  assumes "good s" "leave org cls child ty actor v t s = (gone, s')"
  shows "snd (leave org cls child ty' actor' v' t' s') = s'"
  using leave_unknown leave_inactive [OF assms] by blast

end

text \<open>With one entry per place, looking a place up finds exactly the active entry that is there.\<close>

lemma find_active_iff:
  assumes "waitlist_inv r"
  shows "find_active_entry org cls child r = Some e \<longleftrightarrow>
    e \<in> set (wr_entries r) \<and> place e = (org, cls, child) \<and> wl_status e = WlActive"
proof (cases "find_active_entry org cls child r")
  case None
  then have "\<not> (e \<in> set (wr_entries r) \<and> place e = (org, cls, child) \<and> wl_status e = WlActive)"
    by (auto simp: find_active_None)
  with None show ?thesis by simp
next
  case (Some a)
  note a = find_active_Some [OF Some]
  show ?thesis
  proof
    assume "find_active_entry org cls child r = Some e"
    then show "e \<in> set (wr_entries r) \<and> place e = (org, cls, child) \<and> wl_status e = WlActive"
      using find_active_Some by blast
  next
    assume e: "e \<in> set (wr_entries r) \<and> place e = (org, cls, child) \<and> wl_status e = WlActive"
    have "inj_on place (set (wr_entries r))" using assms by (simp add: waitlist_inv_def distinct_map)
    then have "e = a" by (rule inj_onD) (use e a in simp_all)
    with Some show "find_active_entry org cls child r = Some e" by simp
  qed
qed

lemma find_active_eqI:
  assumes "waitlist_inv r" "waitlist_inv r'"
    and "\<And>e. place e = (org, cls, child) \<Longrightarrow> wl_status e = WlActive \<Longrightarrow>
           e \<in> set (wr_entries r') \<longleftrightarrow> e \<in> set (wr_entries r)"
  shows "find_active_entry org cls child r' = find_active_entry org cls child r"
proof -
  have "find_active_entry org cls child r' = Some e \<longleftrightarrow> find_active_entry org cls child r = Some e" for e
    using assms by (auto simp: find_active_iff)
  then show ?thesis by (metis option.exhaust)
qed

lemma join_entry_cases:
  assumes "create_or_reactivate_entry (\<lambda>r. r) p u v t r = ((e, again, act), r')"
  obtains (known) "find_active_entry (wp_organizationId p) (wp_festivalClassId p) (wp_childId p) r = Some e"
      "r' = r" "again" "act = ActNone"
    | (rejoined) w where "find_active_entry (wp_organizationId p) (wp_festivalClassId p) (wp_childId p) r = None"
      "latest_withdrawn (wp_organizationId p) (wp_festivalClassId p) (wp_childId p) r = Some w"
      "e = reactivate t w" "\<not> again" "wr_entries r' = replace_entry (wl_id w) (reactivate t) (wr_entries r)"
    | (joined) "find_active_entry (wp_organizationId p) (wp_festivalClassId p) (wp_childId p) r = None"
      "latest_withdrawn (wp_organizationId p) (wp_festivalClassId p) (wp_childId p) r = None"
      "e = new_waitlist_entry p u t" "\<not> again" "wr_entries r' = wr_entries r @ [e]"
  using assms by (auto simp: write_join_def create_or_reactivate_entry_def Let_def split: option.splits)

interpretation wls: waitlist_store find_active_entry "create_or_reactivate_entry (\<lambda>r. r)" withdraw_entry
  waitlist_inv "\<lambda>u r. u \<notin> wl_id ` set (wr_entries r)"
proof unfold_locales
  fix r r' :: waitlist_repo and u v :: string and p :: waitlist_params and t e again act
  assume inv: "waitlist_inv r" and fresh: "u \<notin> wl_id ` set (wr_entries r)"
    and c: "create_or_reactivate_entry (\<lambda>r. r) p u v t r = ((e, again, act), r')"
  have inv': "waitlist_inv r'" using create_preserves_waitlist_inv [OF inv fresh, of p v t] c by simp
  from c have "e \<in> set (wr_entries r') \<and> place e = (wp_organizationId p, wp_festivalClassId p, wp_childId p)
      \<and> wl_status e = WlActive"
  proof (cases rule: join_entry_cases)
    case known
    then show ?thesis using find_active_Some by blast
  next
    case (rejoined w)
    with latest_withdrawn_Some [OF rejoined(2)] show ?thesis by (auto simp: set_replace_entry)
  next
    case joined
    then show ?thesis by simp
  qed
  with inv' show "find_active_entry (wp_organizationId p) (wp_festivalClassId p) (wp_childId p) r' = Some e
      \<and> waitlist_inv r'" by (simp add: find_active_iff)
next
  fix p :: waitlist_params and r e u v t
  assume "find_active_entry (wp_organizationId p) (wp_festivalClassId p) (wp_childId p) r = Some e"
  then show "create_or_reactivate_entry (\<lambda>r. r) p u v t r = ((e, True, ActNone), r)"
    by (simp add: write_join_def create_or_reactivate_entry_def)
next
  fix r r' :: waitlist_repo and u v :: string and p :: waitlist_params and t res org cls child
  assume inv: "waitlist_inv r" and fresh: "u \<notin> wl_id ` set (wr_entries r)"
    and c: "create_or_reactivate_entry (\<lambda>r. r) p u v t r = (res, r')"
    and other: "(org, cls, child) \<noteq> (wp_organizationId p, wp_festivalClassId p, wp_childId p)"
  have inv': "waitlist_inv r'" using create_preserves_waitlist_inv [OF inv fresh, of p v t] c by simp
  obtain e again act where res: "res = (e, again, act)" by (cases res) auto
  show "find_active_entry org cls child r' = find_active_entry org cls child r"
  proof (rule find_active_eqI [OF inv inv'])
    fix x assume x: "place x = (org, cls, child)"
    from c [unfolded res] show "x \<in> set (wr_entries r') \<longleftrightarrow> x \<in> set (wr_entries r)"
    proof (cases rule: join_entry_cases)
      case (rejoined w)
      note w = latest_withdrawn_Some [OF rejoined(2)]
      have "{y \<in> set (wr_entries r). wl_id y = wl_id w} = {w}"
        using inv w(1) by (auto simp: waitlist_inv_def waitlist_log_inv_def distinct_map inj_on_def)
      then have entries: "set (wr_entries r') = {y \<in> set (wr_entries r). wl_id y \<noteq> wl_id w} \<union> {reactivate t w}"
        using rejoined(5) by (simp add: set_replace_entry)
      have "x \<noteq> reactivate t w" using x w(2) other by auto
      moreover have "wl_id x \<noteq> wl_id w" if "x \<in> set (wr_entries r)"
      proof
        assume "wl_id x = wl_id w"
        with that \<open>{y \<in> set (wr_entries r). wl_id y = wl_id w} = {w}\<close> have "x = w" by blast
        with x w(2) other show False by simp
      qed
      ultimately show ?thesis using entries by blast
    qed (use x other in auto)
  qed
next
  fix r r' :: waitlist_repo and org cls child ty actor v :: string and t res
  assume inv: "waitlist_inv r" and c: "withdraw_entry org cls child ty actor v t r = (res, r')"
  have inv': "waitlist_inv r'" using withdraw_preserves_waitlist_inv [OF inv, of org cls child ty actor v t] c by simp
  have "find_active_entry org cls child r' = None"
  proof (cases "find_active_entry org cls child r")
    case None
    with c show ?thesis by (auto simp: withdraw_entry_def split: option.splits)
  next
    case (Some a)
    note a = find_active_Some [OF Some]
    have only: "y = a" if "y \<in> set (wr_entries r)" "place y = place a" for y
      using inv a(1) that by (auto simp: waitlist_inv_def distinct_map inj_on_def)
    have "wr_entries r' = replace_entry (wl_id a) (withdraw_entry_fields t) (wr_entries r)"
      using c Some by (auto simp: withdraw_entry_def)
    then show ?thesis using only a(2) by (auto simp: find_active_None set_replace_entry)
  qed
  with inv' show "find_active_entry org cls child r' = None \<and> waitlist_inv r'" by simp
next
  fix org cls child ty actor v :: string and t and r :: waitlist_repo
  assume "find_active_entry org cls child r = None"
  then show "snd (withdraw_entry org cls child ty actor v t r) = r"
    by (simp add: withdraw_entry_def split: option.splits)
qed

section \<open>Roster order\<close>

text \<open>An element whose key is above all others is sorted to the end, wherever it stood.\<close>

lemma insort_key_above: "\<forall>x \<in> set ys. f x < f e \<Longrightarrow> insort_key f e ys = ys @ [e]"
  by (induction ys) (auto simp: not_le [symmetric])

lemma insort_key_below: "f x < f e \<Longrightarrow> insort_key f x (zs @ [e]) = insort_key f x zs @ [e]"
  by (induction zs) auto

lemma sort_key_move_last:
  "(\<And>x. x \<in> set (xs @ ys) \<Longrightarrow> f x < f e) \<Longrightarrow> sort_key f (xs @ e # ys) = sort_key f (xs @ ys) @ [e]"
  by (induction xs) (simp_all add: insort_key_above insort_key_below)

abbreviation "active_in_class org cls e \<equiv> wl_organizationId e = org \<and> wl_festivalClassId e = cls \<and> wl_status e = WlActive"

definition active_roster :: "string \<Rightarrow> string \<Rightarrow> waitlist_repo \<Rightarrow> waitlist_entry list" where
  "active_roster org cls r = filter (\<lambda>e. wl_status e = WlActive) (list_entries_for_class_roster org cls r)"

lemma sort_key_cong_on:
  "(\<And>x. x \<in> set xs \<Longrightarrow> f x = h (g x)) \<Longrightarrow> (\<And>a b. h a \<le> h b \<longleftrightarrow> a \<le> b) \<Longrightarrow> sort_key f xs = sort_key g xs"
proof (induction xs)
  case (Cons x xs)
  have "insort_key f x ys = insort_key g x ys" if "set ys \<subseteq> set xs" for ys
    using that Cons.prems by (induction ys) auto
  with Cons show ?case by simp
qed simp

lemma active_roster_sorted:
  "active_roster org cls r = sort_key wl_joinedAt (filter (active_in_class org cls) (wr_entries r))"
proof -
  let ?key = "\<lambda>e. (status_rank (wl_status e), wl_joinedAt e)"
  let ?xs = "filter (active_in_class org cls) (wr_entries r)"
  have "active_roster org cls r = sort_key ?key ?xs"
    by (simp add: active_roster_def list_entries_for_class_roster_def filter_sort conj_ac)
  also have "\<dots> = sort_key wl_joinedAt ?xs"
    by (rule sort_key_cong_on [where h = "\<lambda>t. (0, t)"]) (auto simp: status_rank_def)
  finally show ?thesis .
qed

lemma active_roster_append:
  assumes "filter (active_in_class org cls) (wr_entries r) = xs @ ys"
    and "filter (active_in_class org cls) (wr_entries r') = xs @ e # ys"
    and "\<And>x. x \<in> set (active_roster org cls r) \<Longrightarrow> wl_joinedAt x < wl_joinedAt e"
  shows "active_roster org cls r' = active_roster org cls r @ [e]"
  using sort_key_move_last [of xs ys wl_joinedAt e] assms by (simp add: active_roster_sorted)

section \<open>Properties\<close>

text \<open>
  C14: the audit log tells the truth however calls overlap.  In every run of the repository with fresh entry ids,
  joins of one child included that wait at their lookup at the same time, entry ids are unique,
  replaying the events of an entry in the order they were written gives exactly its stored status,
  the withdrawal instant is set exactly for withdrawn entries, and every event names a stored
  entry.  If no two joins of one child and class overlap, a child has at most one entry per class.
\<close>
theorem waitlist_log_replays:
  assumes "waitlist_run serial r waiting" "e \<in> set (wr_entries r)"
  shows "replay (events_of (wl_id e) r) = Some (Some (wl_status e)) \<and>
    (wl_withdrawnAt e = None \<longleftrightarrow> wl_status e = WlActive) \<and>
    distinct (map wl_id (wr_entries r)) \<and>
    (\<forall>ev \<in> set (wr_events r). \<exists>e' \<in> set (wr_entries r). wl_id e' = we_waitlistEntryId ev) \<and>
    (serial \<longrightarrow> (\<forall>e' \<in> set (wr_entries r). wl_organizationId e' = wl_organizationId e \<and>
       wl_festivalClassId e' = wl_festivalClassId e \<and> wl_childId e' = wl_childId e \<longrightarrow> e' = e))"
proof -
  have "e' = e" if "serial" "e' \<in> set (wr_entries r)" "place e' = place e" for e'
    using serial_run_inv [OF assms(1) that(1)] assms(2) that(2,3) by (auto simp: waitlist_inv_def distinct_map inj_on_def)
  moreover have "\<exists>e' \<in> set (wr_entries r). wl_id e' = we_waitlistEntryId ev" if "ev \<in> set (wr_events r)" for ev
  proof -
    have "we_waitlistEntryId ev \<in> wl_id ` set (wr_entries r)"
      using waitlist_run_log_inv [OF assms(1)] that by (auto simp: waitlist_log_inv_def)
    then show ?thesis by auto
  qed
  ultimately show ?thesis
    using waitlist_run_log_inv [OF assms(1)] assms(2) by (auto simp: waitlist_log_inv_def place_def)
qed

definition demo_params :: "string \<Rightarrow> waitlist_params" where
  "demo_params child = \<lparr>wp_organizationId = ''org'', wp_festivalId = ''fest'', wp_festivalClassId = ''c1'',
     wp_parentCustomerId = ''parent'', wp_childId = child\<rparr>"

text \<open>Ann joins, Bob joins, Ann withdraws and joins again.\<close>

definition demo_waitlist1 :: waitlist_repo where
  "demo_waitlist1 = snd (withdraw_entry ''org'' ''c1'' ''ann'' ''parent'' ''parent'' ''v3'' 30
     (snd (create_or_reactivate_entry (\<lambda>r. r) (demo_params ''bob'') ''w2'' ''v2'' 20
       (snd (create_or_reactivate_entry (\<lambda>r. r) (demo_params ''ann'') ''w1'' ''v1'' 10 empty_waitlist_repo)))))"

definition demo_waitlist :: waitlist_repo where
  "demo_waitlist = snd (create_or_reactivate_entry (\<lambda>r. r) (demo_params ''ann'') ''w3'' ''v4'' 40 demo_waitlist1)"

lemma demo_waitlist_reachable: "waitlist_reachable demo_waitlist1" "waitlist_reachable demo_waitlist"
proof -
  have empty: "waitlist_reachable empty_waitlist_repo" by (simp add: waitlist_reachable_def wl_init)
  have leave: "waitlist_reachable r \<Longrightarrow> waitlist_reachable (snd (withdraw_entry org cls child ty actor v t r))"
    for r org cls child ty actor v t by (simp add: waitlist_reachable_def wl_withdraw)
  show 1: "waitlist_reachable demo_waitlist1"
    unfolding demo_waitlist1_def
  proof (intro leave reachable_join empty)
    show "''w1'' \<notin> wl_id ` set (wr_entries empty_waitlist_repo)" by code_simp
    show "''w2'' \<notin> wl_id ` set (wr_entries (snd (create_or_reactivate_entry (\<lambda>r. r) (demo_params ''ann'') ''w1'' ''v1'' 10
        empty_waitlist_repo)))" by code_simp
  qed
  show "waitlist_reachable demo_waitlist"
    unfolding demo_waitlist_def by (rule reachable_join [OF 1]) code_simp
qed

theorem waitlist_log_replays_witness:
  "\<exists>e \<in> set (wr_entries demo_waitlist). wl_id e = ''w1'' \<and>
     events_of ''w1'' demo_waitlist = [EvJoined, EvWithdrawn, EvRejoined] \<and>
     replay [EvJoined, EvWithdrawn, EvRejoined] = Some (Some (wl_status e))"
proof -
  have ne: "wr_entries demo_waitlist \<noteq> []" "wl_id (hd (wr_entries demo_waitlist)) = ''w1''" by code_simp+
  then have e: "hd (wr_entries demo_waitlist) \<in> set (wr_entries demo_waitlist)" by simp
  have evs: "events_of ''w1'' demo_waitlist = [EvJoined, EvWithdrawn, EvRejoined]" by code_simp
  from waitlist_log_replays [OF demo_waitlist_reachable(2) [unfolded waitlist_reachable_def] e] e evs ne(2) show ?thesis by metis
qed

text \<open>
  Overlapping joins of one child put it on the list twice.  When the place has no active
  entry, a second join that made its lookup before the first one wrote succeeds as well, both
  report a new place in the queue, the repository holds two active entries of the child with
  different ids, and after a withdrawal the child is still active.
\<close>
theorem overlapping_joins_duplicate_entry:
  assumes "waitlist_reachable r" "join_place q = join_place p"
    and "find_active_entry (wp_organizationId p) (wp_festivalClassId p) (wp_childId p) r = None"
    and "u \<notin> wl_id ` set (wr_entries r)" "u' \<notin> insert u (wl_id ` set (wr_entries r))"
    and "create_or_reactivate_entry (\<lambda>r. r) p u v t r = ((e, again, act), r1)"
    and "create_or_reactivate_entry (\<lambda>_. r1) q u' v' t' r = ((e', again', act'), r2)"
  shows "\<not> again \<and> \<not> again' \<and> act' = ActJoined \<and>
    e \<in> set (wr_entries r2) \<and> e' \<in> set (wr_entries r2) \<and> wl_id e \<noteq> wl_id e' \<and>
    place e = join_place p \<and> place e' = join_place p \<and> wl_status e = WlActive \<and> wl_status e' = WlActive \<and>
    find_active_entry (wp_organizationId p) (wp_festivalClassId p) (wp_childId p)
      (snd (withdraw_entry (wp_organizationId p) (wp_festivalClassId p) (wp_childId p) ty actor v'' t'' r2)) \<noteq> None"
proof -
  let ?find = "find_active_entry (wp_organizationId p) (wp_festivalClassId p) (wp_childId p)"
  have inv: "waitlist_inv r" by (rule waitlist_reachable_inv [OF assms(1)])
  have same: "wp_organizationId q = wp_organizationId p" "wp_festivalClassId q = wp_festivalClassId p" "wp_childId q = wp_childId p"
    using assms(2) by (simp_all add: join_place_def)
  from wls.join_active [OF inv assms(4,6)] have e: "?find r1 = Some e" and inv1: "waitlist_inv r1" by simp_all
  note e' = find_active_Some [OF e]
  have ids1: "wl_id ` set (wr_entries r1) \<subseteq> insert u (wl_id ` set (wr_entries r))"
    using assms(6)
  proof (cases rule: join_entry_cases)
    case (rejoined w)
    have "wl_id ` set (wr_entries r1) = wl_id ` set (wr_entries r)"
      unfolding rejoined(5) using map_replace_entry [of wl_id "reactivate t" "wl_id w" "wr_entries r"] by (metis list.set_map place_changes(2))
    then show ?thesis by blast
  qed auto
  have "latest_withdrawn (wp_organizationId p) (wp_festivalClassId p) (wp_childId p) r1 = None"
    using inv1 e' by (auto simp: latest_withdrawn_None waitlist_inv_def distinct_map inj_on_def)
  then have w: "write_join q u' v' t' r1 = ((new_waitlist_entry q u' t', False, ActJoined),
      \<lparr>wr_entries = wr_entries r1 @ [new_waitlist_entry q u' t'], wr_events = wr_events r1 @ [join_event q EvJoined u' v' t']\<rparr>)"
    by (simp add: write_join_def same Let_def)
  have second: "e' = new_waitlist_entry q u' t'" "act' = ActJoined" "\<not> again'"
    "r2 = \<lparr>wr_entries = wr_entries r1 @ [e'], wr_events = wr_events r1 @ [join_event q EvJoined u' v' t']\<rparr>"
    using assms(3,7) w by (auto simp: create_or_reactivate_entry_def same)
  have first: "\<not> again" using assms(6) by (cases rule: join_entry_cases) (use assms(3) in simp_all)
  have ne: "wl_id e \<noteq> wl_id e'"
  proof -
    have "wl_id e \<in> insert u (wl_id ` set (wr_entries r))" using ids1 e'(1) by auto
    then show ?thesis using assms(5) second(1) by auto
  qed
  have found: "?find r2 = Some e"
    using e second(4) by (simp add: find_active_entry_def find_append_Some)
  have "e' \<in> set (wr_entries (snd (withdraw_entry (wp_organizationId p) (wp_festivalClassId p) (wp_childId p) ty actor v'' t'' r2)))"
  proof -
    have "e' \<in> set (wr_entries r2)" by (simp add: second(4))
    then show ?thesis using ne by (simp add: withdraw_entry_def found set_replace_entry)
  qed
  then have "?find (snd (withdraw_entry (wp_organizationId p) (wp_festivalClassId p) (wp_childId p) ty actor v'' t'' r2)) \<noteq> None"
    using second(1) same by (auto simp: find_active_None intro!: bexI [of _ e'])
  then show ?thesis using first second(1,2,3,4) e' ne same by (simp add: join_place_def)
qed

theorem overlapping_joins_duplicate_entry_witness:
  "\<exists>r1 r2 res res'. create_or_reactivate_entry (\<lambda>r. r) (demo_params ''ann'') ''w5'' ''v5'' 50 demo_waitlist1 = (res, r1) \<and>
     create_or_reactivate_entry (\<lambda>_. r1) (demo_params ''ann'') ''w6'' ''v6'' 51 demo_waitlist1 = (res', r2) \<and>
     find_active_entry ''org'' ''c1'' ''ann'' (snd (withdraw_entry ''org'' ''c1'' ''ann'' ''parent'' ''parent'' ''v7'' 60 r2)) \<noteq> None"
proof -
  let ?p = "demo_params ''ann''"
  obtain e again act r1 where first: "create_or_reactivate_entry (\<lambda>r. r) ?p ''w5'' ''v5'' 50 demo_waitlist1 = ((e, again, act), r1)"
    by (metis prod.collapse)
  obtain e' again' act' r2 where second: "create_or_reactivate_entry (\<lambda>_. r1) ?p ''w6'' ''v6'' 51 demo_waitlist1 = ((e', again', act'), r2)"
    by (metis prod.collapse)
  have facts: "find_active_entry (wp_organizationId ?p) (wp_festivalClassId ?p) (wp_childId ?p) demo_waitlist1 = None"
    "''w5'' \<notin> wl_id ` set (wr_entries demo_waitlist1)" "''w6'' \<notin> insert ''w5'' (wl_id ` set (wr_entries demo_waitlist1))" by code_simp+
  have p: "wp_organizationId ?p = ''org''" "wp_festivalClassId ?p = ''c1''" "wp_childId ?p = ''ann''" by (simp_all add: demo_params_def)
  from overlapping_joins_duplicate_entry [OF demo_waitlist_reachable(1) refl facts first second, of "''parent''" "''parent''" "''v7''" 60]
    first second show ?thesis unfolding p by blast
qed

text \<open>
  Joining and withdrawing are idempotent.  Repeating a join reports the same entry as
  already joined, repeating a withdrawal leaves the place without an active entry, and neither
  repetition writes anything; a withdrawn child no longer has an active entry.
\<close>
theorem waitlist_requests_idempotent:
  assumes "waitlist_reachable r" "entry_uuid \<notin> wl_id ` set (wr_entries r)"
    and "create_or_reactivate_entry (\<lambda>r. r) p entry_uuid event_uuid t r = ((e, again, act), r1)"
    and "withdraw_entry org cls child ty actor v t2 r = (gone, r2)"
  shows "create_or_reactivate_entry (\<lambda>r. r) p entry_uuid' event_uuid' t' r1 = ((e, True, ActNone), r1) \<and>
    find_active_entry org cls child r2 = None \<and>
    snd (withdraw_entry org cls child ty' actor' v' t2' r2) = r2"
  using wls.join_twice [OF waitlist_reachable_inv [OF assms(1)] assms(2,3)]
    wls.leave_inactive [OF waitlist_reachable_inv [OF assms(1)] assms(4)]
    wls.leave_twice [OF waitlist_reachable_inv [OF assms(1)] assms(4)] by blast

theorem waitlist_requests_idempotent_witness:
  "fst (snd (fst (create_or_reactivate_entry (\<lambda>r. r) (demo_params ''ann'') ''w4'' ''v5'' 50 demo_waitlist)))"
proof -
  obtain e again act where c: "create_or_reactivate_entry (\<lambda>r. r) (demo_params ''ann'') ''w3'' ''v4'' 40 demo_waitlist1
      = ((e, again, act), demo_waitlist)"
    unfolding demo_waitlist_def by (metis prod.collapse)
  obtain gone r2 where g: "withdraw_entry ''org'' ''c1'' ''bob'' ''parent'' ''parent'' ''v9'' 90 demo_waitlist1 = (gone, r2)"
    by fastforce
  have "''w3'' \<notin> wl_id ` set (wr_entries demo_waitlist1)" by code_simp
  from waitlist_requests_idempotent [OF demo_waitlist_reachable(1) this c g] show ?thesis by simp
qed

text \<open>
  Whoever joins goes to the back of the queue.  A join that was not already active, at an
  instant after those of the active entries of the class, leaves their order as it was and
  lists the joined child last, also when a child that had withdrawn joins again.
\<close>
theorem join_goes_to_the_back:
  assumes "waitlist_reachable r" "entry_uuid \<notin> wl_id ` set (wr_entries r)"
    and "create_or_reactivate_entry (\<lambda>r. r) p entry_uuid event_uuid t r = ((e, False, act), r')"
    and "\<And>x. x \<in> set (active_roster (wp_organizationId p) (wp_festivalClassId p) r) \<Longrightarrow> wl_joinedAt x < t"
  shows "active_roster (wp_organizationId p) (wp_festivalClassId p) r'
       = active_roster (wp_organizationId p) (wp_festivalClassId p) r @ [e]"
proof -
  let ?org = "wp_organizationId p" and ?cls = "wp_festivalClassId p"
  from assms(3) show ?thesis
  proof (cases rule: join_entry_cases)
    case (rejoined w)
    note w = latest_withdrawn_Some [OF rejoined(2)]
    have inv: "waitlist_inv r" by (rule waitlist_reachable_inv [OF assms(1)])
    from w(1) obtain us vs where es: "wr_entries r = us @ w # vs" by (auto simp: in_set_conv_decomp)
    have ids: "wl_id x \<noteq> wl_id w" if "x \<in> set us \<union> set vs" for x
    proof -
      have "distinct (map wl_id (us @ w # vs))" using inv es by (simp add: waitlist_inv_def waitlist_log_inv_def)
      with that show ?thesis by (auto dest: image_eqI [of "wl_id w" wl_id x, OF sym])
    qed
    have "replace_entry (wl_id w) (reactivate t) us = us" "replace_entry (wl_id w) (reactivate t) vs = vs"
      using ids by (auto simp: replace_entry_def intro!: map_idI)
    then have es': "wr_entries r' = us @ reactivate t w # vs"
      using rejoined(5) es by (simp add: replace_entry_def)
    have "wl_organizationId w = ?org" "wl_festivalClassId w = ?cls" using w(2) by (simp_all add: place_def)
    then have "active_in_class ?org ?cls (reactivate t w)" by (simp add: reactivate_def)
    then show ?thesis
      using assms(4) w(3) es es' rejoined(3)
      by (intro active_roster_append [where xs = "filter (active_in_class ?org ?cls) us"
            and ys = "filter (active_in_class ?org ?cls) vs"]) simp_all
  next
    case joined
    have "active_in_class ?org ?cls e" using joined(3) by (simp add: new_waitlist_entry_def)
    then show ?thesis
      using assms(4) joined(3,5)
      by (intro active_roster_append [where xs = "filter (active_in_class ?org ?cls) (wr_entries r)" and ys = "[]"]) simp_all
  qed simp
qed

theorem join_goes_to_the_back_witness:
  "map wl_childId (active_roster ''org'' ''c1'' demo_waitlist) = [''bob'', ''ann'']"
proof -
  let ?c = "create_or_reactivate_entry (\<lambda>r. r) (demo_params ''ann'') ''w3'' ''v4'' 40 demo_waitlist1"
  define e act where "e = fst (fst ?c)" and "act = snd (snd (fst ?c))"
  have first_time: "fst (snd (fst ?c)) = False" by code_simp
  have ann: "wl_childId e = ''ann''" unfolding e_def by code_simp
  have c: "?c = ((e, False, act), demo_waitlist)"
    using first_time by (simp add: prod_eq_iff e_def act_def demo_waitlist_def)
  have fresh: "''w3'' \<notin> wl_id ` set (wr_entries demo_waitlist1)" by code_simp
  have before: "map (\<lambda>x. (wl_childId x, wl_joinedAt x)) (active_roster ''org'' ''c1'' demo_waitlist1) = [(''bob'', 20)]"
    by code_simp
  then have "wl_joinedAt x < 40" if "x \<in> set (active_roster ''org'' ''c1'' demo_waitlist1)" for x
    using that by (cases "active_roster ''org'' ''c1'' demo_waitlist1") auto
  with join_goes_to_the_back [OF demo_waitlist_reachable(1) fresh c]
  have "active_roster ''org'' ''c1'' demo_waitlist = active_roster ''org'' ''c1'' demo_waitlist1 @ [e]"
    by (simp add: demo_params_def)
  then show ?thesis using before ann by auto
qed

end
