(* ===== verification/WaitlistService.thy ===== *)
theory WaitlistService
  imports Waitlist EntitlementRepo PurchaseEligibility
begin

text \<open>
  \<open>WaitlistService\<close> of \<open>packages/backend/src/waitlist/waitlist-service.ts\<close> over the in-memory
  repository of \<open>Waitlist\<close>.  The read-only lookups of the other repositories are the fields of
  \<open>waitlist_deps\<close>; the writes to the customer repository are recorded in order as effects.
\<close>

section \<open>State and dependencies\<close>

record festival_ref =
  fr_id :: string
  fr_shortName :: string

record child_ref =
  ch_id :: string
  ch_parentCustomerId :: string
  ch_displayName :: string

text \<open>The optional profile values of a consented customer.\<close>

record consented_customer =
  cc_name :: "string option"
  cc_email :: "string option"
  cc_phone :: "string option"

record waitlist_deps =
  wd_findChild :: "string \<Rightarrow> string \<Rightarrow> string \<Rightarrow> child_ref option"
  wd_listChildren :: "string \<Rightarrow> string \<Rightarrow> child_ref list"
  wd_getConsentedCustomer :: "string \<Rightarrow> string \<Rightarrow> string \<Rightarrow> consented_customer option"
  wd_listFestivals :: "string \<Rightarrow> festival_ref list"
  wd_findClass :: "string \<Rightarrow> string \<Rightarrow> class_config option"
  wd_entitlementCount :: "string \<Rightarrow> string \<Rightarrow> int"
  wd_entitlementRepository :: "(ent_filter \<Rightarrow> class_entitlement list) option"
  wd_hasActiveEntitlement :: "(string \<Rightarrow> string \<Rightarrow> string \<Rightarrow> bool) option"

datatype customer_effect =
    ApplyProfile string string string string string int
  | RecordConsent string string string int
  | AccessAudit string string string int

record waitlist_world =
  ww_repo :: waitlist_repo
  ww_effects :: "customer_effect list"

record join_params =
  jp_organizationId :: string
  jp_festivalId :: "string option"
  jp_festivalClassId :: string
  jp_parentCustomerId :: string
  jp_childId :: string
  jp_parentName :: string
  jp_parentEmail :: string
  jp_parentPhone :: string
  jp_staffAccessConsent :: bool

record withdraw_params =
  wq_organizationId :: string
  wq_festivalId :: "string option"
  wq_parentCustomerId :: string
  wq_childId :: "string option"
  wq_waitlistEntryId :: "string option"
  wq_festivalClassId :: string
  wq_actorType :: "string option"
  wq_actorId :: "string option"

text \<open>The entry of a join response: the stored entry with the contact data of the request.\<close>

record join_response =
  jr_entry :: waitlist_entry
  jr_parentName :: string
  jr_parentEmail :: string
  jr_parentPhone :: string
  jr_alreadyJoined :: bool

record roster_row =
  rr_entry :: waitlist_entry
  rr_childName :: "string option"
  rr_parentName :: string
  rr_parentEmail :: string
  rr_parentPhone :: string
  rr_position :: "nat option"

definition privacy_notice_version :: string where
  "privacy_notice_version = ''festival-customer-profile-v1''"

definition emit :: "customer_effect \<Rightarrow> (waitlist_world, unit) act" where
  "emit e = (\<lambda>w. (Inr (), w\<lparr>ww_effects := ww_effects w @ [e]\<rparr>))"

section \<open>Checks\<close>

definition child_error :: app_error where
  "child_error = AppError ''Child not found or does not belong to parent customer.'' 404 (Some ''child_not_found'')"

definition assert_child_belongs_to_parent :: "waitlist_deps \<Rightarrow> string \<Rightarrow> string \<Rightarrow> string \<Rightarrow> unit outcome" where
  "assert_child_belongs_to_parent d org parent child =
     (case wd_findChild d org parent child of
        None \<Rightarrow> Inl child_error
      | Some c \<Rightarrow> guard (ch_parentCustomerId c = parent) child_error)"

definition festival_not_found :: app_error where
  "festival_not_found = AppError ''Festival not found.'' 404 (Some ''festival_not_found'')"

definition class_not_found :: app_error where
  "class_not_found = AppError ''Class configuration not found.'' 404 (Some ''class_not_found'')"

definition festival_mismatch :: app_error where
  "festival_mismatch = AppError ''Class does not belong to festival.'' 400 (Some ''festival_mismatch'')"

definition match_festival :: "string \<Rightarrow> festival_ref list \<Rightarrow> festival_ref option" where
  "match_festival expected fs =
     find (\<lambda>f. fr_id f = expected \<or> js_lower (fr_shortName f) = js_lower expected) fs"

definition expected_festival_id :: "festival_ref list \<Rightarrow> string option \<Rightarrow> string option outcome" where
  "expected_festival_id fs expected =
     (if truthy expected
      then (case match_festival (the expected) fs of None \<Rightarrow> Inl festival_not_found | Some f \<Rightarrow> Inr (Some (fr_id f)))
      else Inr None)"

definition assert_festival_and_class ::
    "waitlist_deps \<Rightarrow> string \<Rightarrow> string \<Rightarrow> string option \<Rightarrow> class_config outcome" where
  "assert_festival_and_class d org cls expected =
     (let fs = wd_listFestivals d org in
      and_then (expected_festival_id fs expected) (\<lambda>target.
        (case wd_findClass d org cls of
           None \<Rightarrow> Inl class_not_found
         | Some c \<Rightarrow>
             let final = (case target of Some t \<Rightarrow> t | None \<Rightarrow> fc_festivalId c) in
             if fc_festivalId c \<noteq> final then Inl festival_mismatch
             else if \<not> truthy target \<and> \<not> list_ex (\<lambda>f. fr_id f = final) fs then Inl festival_not_found
             else Inr c)))"

definition child_has_active_entitlement :: "waitlist_deps \<Rightarrow> string \<Rightarrow> string \<Rightarrow> string \<Rightarrow> bool" where
  "child_has_active_entitlement d org cls child =
     (case wd_hasActiveEntitlement d of
        Some f \<Rightarrow> f org cls child
      | None \<Rightarrow>
          (case wd_entitlementRepository d of
             Some list_them \<Rightarrow>
               list_ex (\<lambda>e. ce_status e \<noteq> Cancelled \<and> ce_status e \<noteq> ClassRevoked)
                 (list_them (any_entitlement\<lparr>ef_organizationId := Some org, ef_festivalClassId := Some cls,
                                             ef_childId := Some child\<rparr>))
           | None \<Rightarrow> False))"

text \<open>A comparison with a missing capacity is false, so such a class counts as open.\<close>

definition waitlist_is_open :: "class_config \<Rightarrow> int \<Rightarrow> bool" where
  "waitlist_is_open c placed =
     (case fc_capacity c of None \<Rightarrow> False
      | Some cap \<Rightarrow> cs_availability (evaluate_class_capacity_status cap placed) = Waitlist)"

section \<open>Join\<close>

definition join_input_json :: "join_params \<Rightarrow> json" where
  "join_input_json i =
     JObj [(''childId'', JStr (jp_childId i)), (''parentName'', JStr (jp_parentName i)),
           (''parentEmail'', JStr (jp_parentEmail i)), (''parentPhone'', JStr (jp_parentPhone i)),
           (''staffAccessConsent'', JBool (jp_staffAccessConsent i)),
           (''festivalClassId'', JStr (jp_festivalClassId i))]"

text \<open>Everything \<open>joinWaitlist\<close> checks before it writes: the validated input and the class.\<close>

definition check_join :: "waitlist_deps \<Rightarrow> join_params \<Rightarrow> (join_waitlist_input \<times> class_config) outcome" where
  "check_join d i =
     and_then (validate_join_waitlist_input (join_input_json i)) (\<lambda>v.
     and_then (assert_child_belongs_to_parent d (jp_organizationId i) (jp_parentCustomerId i) (jw_childId v)) (\<lambda>_.
     and_then (assert_festival_and_class d (jp_organizationId i) (jp_festivalClassId i) (jp_festivalId i)) (\<lambda>c.
     and_then (guard (\<not> child_has_active_entitlement d (jp_organizationId i) (fc_id c) (jw_childId v))
        (AppError ''Child is already enrolled in this class.'' 409 (Some ''already_enrolled''))) (\<lambda>_.
     and_then (guard (waitlist_is_open c (wd_entitlementCount d (jp_organizationId i) (fc_id c)))
        (AppError ''Class has open capacity and does not require waitlist.'' 400 (Some ''waitlist_not_open''))) (\<lambda>_.
     Inr (v, c))))))"

definition join_entry_params :: "join_params \<Rightarrow> join_waitlist_input \<Rightarrow> class_config \<Rightarrow> waitlist_params" where
  "join_entry_params i v c =
     \<lparr>wp_organizationId = jp_organizationId i, wp_festivalId = fc_festivalId c, wp_festivalClassId = fc_id c,
      wp_parentCustomerId = jp_parentCustomerId i, wp_childId = jw_childId v\<rparr>"

definition join_waitlist ::
    "waitlist_deps \<Rightarrow> (waitlist_repo \<Rightarrow> waitlist_repo) \<Rightarrow> string \<Rightarrow> string \<Rightarrow> int \<Rightarrow> join_params
       \<Rightarrow> (waitlist_world, join_response) act" where
  "join_waitlist d others entry_uuid event_uuid t i =
     act_bind (act_lift (check_join d i)) (\<lambda>(v, c).
     act_bind (emit (ApplyProfile (jp_organizationId i) (jp_parentCustomerId i) (jw_parentName v)
        (jw_parentEmail v) (jw_parentPhone v) t)) (\<lambda>_.
     act_bind (emit (RecordConsent (jp_organizationId i) (jp_parentCustomerId i) privacy_notice_version t)) (\<lambda>_.
     (\<lambda>w. let ((e, again, _), r) = create_or_reactivate_entry others (join_entry_params i v c) entry_uuid event_uuid t (ww_repo w)
           in (Inr \<lparr>jr_entry = e, jr_parentName = jw_parentName v, jr_parentEmail = jw_parentEmail v,
                    jr_parentPhone = jw_parentPhone v, jr_alreadyJoined = again\<rparr>, w\<lparr>ww_repo := r\<rparr>)))))"

text \<open>
  The repository is the one that the join finds when it looks for an active entry; \<open>others\<close> is what
  the other calls do while that lookup is awaited.
\<close>

section \<open>Withdraw\<close>

definition resolve_withdraw_child :: "withdraw_params \<Rightarrow> waitlist_repo \<Rightarrow> string outcome" where
  "resolve_withdraw_child p r =
     (let child = trimmed_non_empty (wq_childId p) in
      (case trimmed_non_empty (wq_waitlistEntryId p) of
         Some eid \<Rightarrow>
           (case find_entry_by_id (wq_organizationId p) eid r of
              None \<Rightarrow> Inl (AppError ''Waitlist entry not found.'' 404 (Some ''waitlist_entry_not_found''))
            | Some e \<Rightarrow>
                if wl_parentCustomerId e \<noteq> wq_parentCustomerId p \<or> wl_festivalClassId e \<noteq> wq_festivalClassId p
                then Inl (AppError ''Waitlist entry not found.'' 404 (Some ''waitlist_entry_not_found''))
                else if truthy child \<and> child \<noteq> Some (wl_childId e)
                then Inl (AppError ''Waitlist entry does not match child ID.'' 400 (Some ''child_mismatch''))
                else if wl_childId e = [] then Inl (AppError ''Either waitlistEntryId or childId is required.'' 400 None)
                else Inr (wl_childId e))
       | None \<Rightarrow>
           (case child of
              None \<Rightarrow> Inl (AppError ''Either waitlistEntryId or childId is required.'' 400 None)
            | Some c \<Rightarrow> Inr c)))"

definition check_withdraw_festival :: "waitlist_deps \<Rightarrow> withdraw_params \<Rightarrow> unit outcome" where
  "check_withdraw_festival d p =
     (case wd_findClass d (wq_organizationId p) (wq_festivalClassId p) of
        None \<Rightarrow> Inl class_not_found
      | Some c \<Rightarrow>
          if truthy (wq_festivalId p)
          then (case match_festival (the (wq_festivalId p)) (wd_listFestivals d (wq_organizationId p)) of
                  None \<Rightarrow> Inl festival_not_found
                | Some f \<Rightarrow> guard (fc_festivalId c = fr_id f) festival_mismatch)
          else Inr ())"

definition withdraw_waitlist ::
    "waitlist_deps \<Rightarrow> string \<Rightarrow> int \<Rightarrow> withdraw_params \<Rightarrow> (waitlist_world, waitlist_entry option \<times> bool) act" where
  "withdraw_waitlist d event_uuid t p = (\<lambda>w.
     act_bind (act_lift (resolve_withdraw_child p (ww_repo w))) (\<lambda>child.
     act_bind (act_lift (assert_child_belongs_to_parent d (wq_organizationId p) (wq_parentCustomerId p) child)) (\<lambda>_.
     act_bind (act_lift (check_withdraw_festival d p)) (\<lambda>_.
     (\<lambda>w. let (res, r) = withdraw_entry (wq_organizationId p) (wq_festivalClassId p) child
                 (case wq_actorType p of None \<Rightarrow> ''parent'' | Some a \<Rightarrow> a)
                 (case wq_actorId p of None \<Rightarrow> wq_parentCustomerId p | Some a \<Rightarrow> a) event_uuid t (ww_repo w)
           in (Inr res, w\<lparr>ww_repo := r\<rparr>))))) w)"

section \<open>Listings\<close>

definition list_parent_waitlist_entries ::
    "waitlist_deps \<Rightarrow> string \<Rightarrow> string \<Rightarrow> string option \<Rightarrow> string option \<Rightarrow> waitlist_repo
      \<Rightarrow> (waitlist_entry \<times> string option) list outcome" where
  "list_parent_waitlist_entries d org parent fest cls r =
     and_then (if truthy fest
               then (case match_festival (the fest) (wd_listFestivals d org) of
                       None \<Rightarrow> Inl festival_not_found | Some f \<Rightarrow> Inr (Some (fr_id f)))
               else Inr fest) (\<lambda>resolved.
       let child_map = foldl (\<lambda>m c. js_set (ch_id c) c m) [] (wd_listChildren d org parent)
       in Inr (map (\<lambda>e. (e, map_option ch_displayName (js_get child_map (wl_childId e))))
                (list_entries_for_parent org parent resolved cls r)))"

text \<open>
  One row of the admin roster.  The consent of a parent is looked up once and cached, the
  access to a consented profile is audited at that moment; the counter numbers active rows.
\<close>

record roster_state =
  ro_cache :: "(string, consented_customer option) js_map"
  ro_effects :: "customer_effect list"
  ro_position :: nat

definition consent_lookup ::
    "waitlist_deps \<Rightarrow> string \<Rightarrow> string \<Rightarrow> int \<Rightarrow> string \<Rightarrow> roster_state \<Rightarrow> consented_customer option \<times> roster_state" where
  "consent_lookup d org actor t parent st =
     (case js_get (ro_cache st) parent of
        Some known \<Rightarrow> (known, st)
      | None \<Rightarrow>
          let customer = wd_getConsentedCustomer d org parent privacy_notice_version in
          (customer,
           st\<lparr>ro_cache := js_set parent customer (ro_cache st),
              ro_effects := (if customer = None then ro_effects st
                             else ro_effects st @ [AccessAudit org actor parent t])\<rparr>))"

definition shown :: "consented_customer option \<Rightarrow> (consented_customer \<Rightarrow> string option) \<Rightarrow> string \<Rightarrow> string" where
  "shown customer field withheld = (case Option.bind customer field of None \<Rightarrow> withheld | Some v \<Rightarrow> v)"

fun roster_rows ::
    "waitlist_deps \<Rightarrow> string \<Rightarrow> string \<Rightarrow> int \<Rightarrow> waitlist_entry list \<Rightarrow> roster_state \<Rightarrow> roster_row list \<times> roster_state" where
  "roster_rows d org actor t [] st = ([], st)"
| "roster_rows d org actor t (e # es) st =
     (let (customer, st1) = consent_lookup d org actor t (wl_parentCustomerId e) st;
          active = (wl_status e = WlActive);
          pos = (if active then Suc (ro_position st1) else ro_position st1);
          row = \<lparr>rr_entry = e,
                 rr_childName = map_option ch_displayName (wd_findChild d org (wl_parentCustomerId e) (wl_childId e)),
                 rr_parentName = shown customer cc_name ''[Consent withheld]'',
                 rr_parentEmail = shown customer cc_email [],
                 rr_parentPhone = shown customer cc_phone [],
                 rr_position = (if active then Some pos else None)\<rparr>;
          (rows, st2) = roster_rows d org actor t es (st1\<lparr>ro_position := pos\<rparr>)
      in (row # rows, st2))"

definition list_class_waitlist_roster ::
    "waitlist_deps \<Rightarrow> string \<Rightarrow> string option \<Rightarrow> string \<Rightarrow> string \<Rightarrow> int \<Rightarrow> (waitlist_world, roster_row list) act" where
  "list_class_waitlist_roster d org fest cls actor t =
     act_bind (act_lift (assert_festival_and_class d org cls fest)) (\<lambda>_.
     (\<lambda>w. let (rows, st) = roster_rows d org actor t (list_entries_for_class_roster org cls (ww_repo w))
                 \<lparr>ro_cache = [], ro_effects = [], ro_position = 0\<rparr>
           in (Inr rows, w\<lparr>ww_effects := ww_effects w @ ro_effects st\<rparr>)))"

section \<open>Lemmas\<close>

lemma check_join_Inr:
  assumes "check_join d i = Inr (v, c)"
  obtains ch where "validate_join_waitlist_input (join_input_json i) = Inr v"
    "wd_findChild d (jp_organizationId i) (jp_parentCustomerId i) (jw_childId v) = Some ch"
    "ch_parentCustomerId ch = jp_parentCustomerId i"
    "wd_findClass d (jp_organizationId i) (jp_festivalClassId i) = Some c"
    "\<not> child_has_active_entitlement d (jp_organizationId i) (fc_id c) (jw_childId v)"
    "waitlist_is_open c (wd_entitlementCount d (jp_organizationId i) (fc_id c))"
  using assms
  by (auto simp: check_join_def and_then_eq_Inr assert_child_belongs_to_parent_def assert_festival_and_class_def Let_def
      split: option.splits if_splits)

lemma waitlist_is_open_iff: "waitlist_is_open c placed \<longleftrightarrow> (\<exists>cap. fc_capacity c = Some cap \<and> cap \<le> placed)"
  by (auto simp: waitlist_is_open_def evaluate_class_capacity_status_def split: option.splits if_splits)

lemma join_waitlist_cases:
  assumes "join_waitlist d others u v t i w = (res, w')"
  obtains (refused) err where "check_join d i = Inl err" "res = Inl err" "w' = w"
    | (accepted) vi c e again act r where "check_join d i = Inr (vi, c)"
        "create_or_reactivate_entry others (join_entry_params i vi c) u v t (ww_repo w) = ((e, again, act), r)"
        "res = Inr \<lparr>jr_entry = e, jr_parentName = jw_parentName vi, jr_parentEmail = jw_parentEmail vi,
                    jr_parentPhone = jw_parentPhone vi, jr_alreadyJoined = again\<rparr>"
        "w' = \<lparr>ww_repo = r, ww_effects = ww_effects w @
           [ApplyProfile (jp_organizationId i) (jp_parentCustomerId i) (jw_parentName vi) (jw_parentEmail vi) (jw_parentPhone vi) t,
            RecordConsent (jp_organizationId i) (jp_parentCustomerId i) privacy_notice_version t]\<rparr>"
proof (cases "check_join d i")
  case (Inl err)
  then show ?thesis using refused assms by (simp add: join_waitlist_def)
next
  case (Inr vc)
  obtain vi c where vc: "vc = (vi, c)" by fastforce
  obtain e again act r where cr: "create_or_reactivate_entry others (join_entry_params i vi c) u v t (ww_repo w) = ((e, again, act), r)"
    by (metis prod.exhaust)
  let ?es = "[ApplyProfile (jp_organizationId i) (jp_parentCustomerId i) (jw_parentName vi) (jw_parentEmail vi) (jw_parentPhone vi) t,
            RecordConsent (jp_organizationId i) (jp_parentCustomerId i) privacy_notice_version t]"
  have "join_waitlist d others u v t i w = (Inr \<lparr>jr_entry = e, jr_parentName = jw_parentName vi, jr_parentEmail = jw_parentEmail vi,
                    jr_parentPhone = jw_parentPhone vi, jr_alreadyJoined = again\<rparr>, \<lparr>ww_repo = r, ww_effects = ww_effects w @ ?es\<rparr>)"
    unfolding join_waitlist_def act_bind_def by (simp add: Inr vc emit_def cr)
  with assms show ?thesis using accepted [OF Inr [unfolded vc] cr] by simp
qed

lemma js_uniq_acc_cong: "set seen = set seen' \<Longrightarrow> js_uniq_acc seen xs = js_uniq_acc seen' xs"
proof (induction xs arbitrary: seen seen')
  case (Cons x xs)
  have "js_uniq_acc (x # seen) xs = js_uniq_acc (x # seen') xs"
    by (rule Cons.IH) (simp add: Cons.prems)
  with Cons.IH [OF Cons.prems] Cons.prems show ?case by simp
qed simp

definition consent_of :: "waitlist_deps \<Rightarrow> string \<Rightarrow> string \<Rightarrow> consented_customer option" where
  "consent_of d org parent = wd_getConsentedCustomer d org parent privacy_notice_version"

definition roster_ok :: "waitlist_deps \<Rightarrow> string \<Rightarrow> roster_state \<Rightarrow> bool" where
  "roster_ok d org st \<longleftrightarrow> (\<forall>p c. js_get (ro_cache st) p = Some c \<longrightarrow> c = consent_of d org p)"

lemma consent_lookup_cases:
  assumes "consent_lookup d org actor t p st = (c, st')" "roster_ok d org st"
  shows "c = consent_of d org p" "roster_ok d org st'" "ro_position st' = ro_position st"
    "set (js_keys (ro_cache st')) = insert p (set (js_keys (ro_cache st)))"
    "ro_effects st' = ro_effects st @
       (if p \<in> set (js_keys (ro_cache st)) \<or> consent_of d org p = None then [] else [AccessAudit org actor p t])"
proof -
  have known: "js_get (ro_cache st) p = None \<longleftrightarrow> p \<notin> set (js_keys (ro_cache st))"
    by (rule js_get_None_keys)
  have all: "c = consent_of d org p \<and> roster_ok d org st' \<and> ro_position st' = ro_position st \<and>
    set (js_keys (ro_cache st')) = insert p (set (js_keys (ro_cache st))) \<and>
    ro_effects st' = ro_effects st @
       (if p \<in> set (js_keys (ro_cache st)) \<or> consent_of d org p = None then [] else [AccessAudit org actor p t])"
  proof (cases "js_get (ro_cache st) p")
    case None
    with assms known show ?thesis
      by (auto simp: consent_lookup_def roster_ok_def consent_of_def Let_def js_set_fresh js_keys_def js_get_def
          split: if_splits option.splits)
  next
    case (Some x)
    with assms known show ?thesis by (auto simp: consent_lookup_def roster_ok_def)
  qed
  then show "c = consent_of d org p" "roster_ok d org st'" "ro_position st' = ro_position st"
    "set (js_keys (ro_cache st')) = insert p (set (js_keys (ro_cache st)))"
    "ro_effects st' = ro_effects st @
       (if p \<in> set (js_keys (ro_cache st)) \<or> consent_of d org p = None then [] else [AccessAudit org actor p t])"
    by blast+
qed

lemma roster_rows_spec:
  assumes "roster_rows d org actor t es st = (rows, st')" "roster_ok d org st"
  shows "map rr_entry rows = es \<and>
    ro_effects st' = ro_effects st @ map (\<lambda>p. AccessAudit org actor p t)
      (filter (\<lambda>p. consent_of d org p \<noteq> None) (js_uniq_acc (js_keys (ro_cache st)) (map wl_parentCustomerId es))) \<and>
    List.map_filter rr_position rows
      = [Suc (ro_position st) ..< Suc (ro_position st) + length (filter (\<lambda>e. wl_status e = WlActive) es)] \<and>
    (\<forall>row \<in> set rows. consent_of d org (wl_parentCustomerId (rr_entry row)) = None \<longrightarrow>
       rr_parentName row = ''[Consent withheld]'' \<and> rr_parentEmail row = [] \<and> rr_parentPhone row = [])"
  using assms
proof (induction es arbitrary: st rows st')
  case (Cons e es)
  let ?p = "wl_parentCustomerId e" and ?active = "wl_status e = WlActive"
  obtain c st1 where l: "consent_lookup d org actor t ?p st = (c, st1)" by fastforce
  note l' = consent_lookup_cases [OF l Cons.prems(2)]
  let ?pos = "if ?active then Suc (ro_position st1) else ro_position st1"
  let ?st2 = "st1\<lparr>ro_position := ?pos\<rparr>"
  obtain rest st3 where r: "roster_rows d org actor t es ?st2 = (rest, st3)" by fastforce
  have ok: "roster_ok d org ?st2" using l'(2) by (simp add: roster_ok_def)
  note ih = Cons.IH [OF r ok]
  have uniq: "js_uniq_acc (js_keys (ro_cache ?st2)) xs = js_uniq_acc (?p # js_keys (ro_cache st)) xs" for xs
    by (rule js_uniq_acc_cong) (simp add: l'(4))
  have uniq_known: "?p \<in> set (js_keys (ro_cache st)) \<Longrightarrow>
      js_uniq_acc (?p # js_keys (ro_cache st)) xs = js_uniq_acc (js_keys (ro_cache st)) xs" for xs
    by (rule js_uniq_acc_cong) auto
  from Cons.prems(1) obtain row where rows: "rows = row # rest" "st' = st3" "rr_entry row = e"
    "rr_position row = (if ?active then Some ?pos else None)"
    "rr_parentName row = shown c cc_name ''[Consent withheld]''" "rr_parentEmail row = shown c cc_email []"
    "rr_parentPhone row = shown c cc_phone []"
    by (auto simp: l r Let_def)
  have "List.map_filter rr_position rows
      = [Suc (ro_position st) ..< Suc (ro_position st) + length (filter (\<lambda>e. wl_status e = WlActive) (e # es))]"
    using ih rows l'(3) by (cases ?active) (simp_all add: map_filter_simps upt_conv_Cons del: upt_Suc)
  moreover have "ro_effects st' = ro_effects st @ map (\<lambda>p. AccessAudit org actor p t)
      (filter (\<lambda>p. consent_of d org p \<noteq> None) (js_uniq_acc (js_keys (ro_cache st)) (map wl_parentCustomerId (e # es))))"
    using ih rows(2) l'(5) unfolding uniq by (simp add: uniq_known)
  moreover have "rr_parentName row = ''[Consent withheld]'' \<and> rr_parentEmail row = [] \<and> rr_parentPhone row = []"
    if "consent_of d org (wl_parentCustomerId (rr_entry row)) = None"
    using that rows l'(1) by (simp add: shown_def)
  ultimately show ?case using ih rows by simp
qed simp

section \<open>Properties\<close>

text \<open>
  A child joins a waitlist only when that is allowed, and a refused join, with no other call during
  its lookup, writes nothing.
  A successful join implies that the child belongs to the parent, is not enrolled, and the
  class is full; it stores the contact data and the consent of the parent, in this order, and
  leaves the child with an active entry in the class.  An error leaves the state unchanged.
\<close>
theorem join_waitlist_guarded:
  assumes "join_waitlist d (\<lambda>r. r) u v t i w = (res, w')" "waitlist_inv (ww_repo w)"
    and "u \<notin> wl_id ` set (wr_entries (ww_repo w))"
  shows "case res of
      Inl err \<Rightarrow> w' = w
    | Inr j \<Rightarrow> (\<exists>vi c ch cap. validate_join_waitlist_input (join_input_json i) = Inr vi \<and>
        wd_findClass d (jp_organizationId i) (jp_festivalClassId i) = Some c \<and>
        wd_findChild d (jp_organizationId i) (jp_parentCustomerId i) (jw_childId vi) = Some ch \<and>
        ch_parentCustomerId ch = jp_parentCustomerId i \<and>
        \<not> child_has_active_entitlement d (jp_organizationId i) (fc_id c) (jw_childId vi) \<and>
        fc_capacity c = Some cap \<and> cap \<le> wd_entitlementCount d (jp_organizationId i) (fc_id c) \<and>
        find_active_entry (jp_organizationId i) (fc_id c) (jw_childId vi) (ww_repo w') = Some (jr_entry j) \<and>
        ww_effects w' = ww_effects w @
          [ApplyProfile (jp_organizationId i) (jp_parentCustomerId i) (jw_parentName vi) (jw_parentEmail vi)
             (jw_parentPhone vi) t,
           RecordConsent (jp_organizationId i) (jp_parentCustomerId i) privacy_notice_version t])"
  using assms(1)
proof (cases rule: join_waitlist_cases)
  case (refused err)
  then show ?thesis by simp
next
  case (accepted vi c e again act r)
  from wls.join_active [OF assms(2,3) accepted(2)]
  have "find_active_entry (jp_organizationId i) (fc_id c) (jw_childId vi) r = Some e"
    by (simp add: join_entry_params_def)
  moreover from accepted(1) obtain ch where ch: "validate_join_waitlist_input (join_input_json i) = Inr vi"
    "wd_findChild d (jp_organizationId i) (jp_parentCustomerId i) (jw_childId vi) = Some ch"
    "ch_parentCustomerId ch = jp_parentCustomerId i"
    "wd_findClass d (jp_organizationId i) (jp_festivalClassId i) = Some c"
    "\<not> child_has_active_entitlement d (jp_organizationId i) (fc_id c) (jw_childId vi)"
    "waitlist_is_open c (wd_entitlementCount d (jp_organizationId i) (fc_id c))" by (rule check_join_Inr)
  ultimately show ?thesis
    using accepted(3,4) ch(6) unfolding waitlist_is_open_iff by auto
qed

definition demo_deps :: "int \<Rightarrow> waitlist_deps" where
  "demo_deps placed = \<lparr>
     wd_findChild = (\<lambda>org parent child. Some \<lparr>ch_id = child, ch_parentCustomerId = ''parent'', ch_displayName = ''Ann''\<rparr>),
     wd_listChildren = (\<lambda>org parent. []),
     wd_getConsentedCustomer = (\<lambda>org parent version. if parent = ''parent''
        then Some \<lparr>cc_name = Some ''Pat'', cc_email = None, cc_phone = None\<rparr> else None),
     wd_listFestivals = (\<lambda>org. [\<lparr>fr_id = ''fest'', fr_shortName = ''Spring''\<rparr>]),
     wd_findClass = (\<lambda>org cls. Some (demo_class ''c1'' ''solo'' 2)),
     wd_entitlementCount = (\<lambda>org cls. placed),
     wd_entitlementRepository = None, wd_hasActiveEntitlement = None\<rparr>"

definition demo_join :: join_params where
  "demo_join = \<lparr>jp_organizationId = ''org'', jp_festivalId = Some ''SPRING'', jp_festivalClassId = ''c1'',
     jp_parentCustomerId = ''parent'', jp_childId = '' ann '', jp_parentName = ''Pat'',
     jp_parentEmail = ''Pat@Example.org'', jp_parentPhone = ''+1 555-0100'', jp_staffAccessConsent = True\<rparr>"

definition empty_waitlist_world :: waitlist_world where
  "empty_waitlist_world = \<lparr>ww_repo = empty_waitlist_repo, ww_effects = []\<rparr>"

theorem join_waitlist_guarded_witness:
  "(\<exists>j. fst (join_waitlist (demo_deps 2) (\<lambda>r. r) ''w1'' ''v1'' 5 demo_join empty_waitlist_world) = Inr j) \<and>
   snd (join_waitlist (demo_deps 1) (\<lambda>r. r) ''w1'' ''v1'' 5 demo_join empty_waitlist_world) = empty_waitlist_world"
proof
  have ok: "isl (fst (join_waitlist (demo_deps 2) (\<lambda>r. r) ''w1'' ''v1'' 5 demo_join empty_waitlist_world)) = False"
    "isl (fst (join_waitlist (demo_deps 1) (\<lambda>r. r) ''w1'' ''v1'' 5 demo_join empty_waitlist_world))" by code_simp+
  from ok(1) show "\<exists>j. fst (join_waitlist (demo_deps 2) (\<lambda>r. r) ''w1'' ''v1'' 5 demo_join empty_waitlist_world) = Inr j"
    by (cases "fst (join_waitlist (demo_deps 2) (\<lambda>r. r) ''w1'' ''v1'' 5 demo_join empty_waitlist_world)") auto
  have inv: "waitlist_inv (ww_repo empty_waitlist_world)"
    by (simp add: empty_waitlist_world_def waitlist_inv_empty)
  have fresh: "''w1'' \<notin> wl_id ` set (wr_entries (ww_repo empty_waitlist_world))"
    by (simp add: empty_waitlist_world_def empty_waitlist_repo_def)
  from join_waitlist_guarded [OF surjective_pairing inv fresh, of "demo_deps 1" "''v1''" 5 demo_join] ok(2)
  show "snd (join_waitlist (demo_deps 1) (\<lambda>r. r) ''w1'' ''v1'' 5 demo_join empty_waitlist_world) = empty_waitlist_world"
    by (auto split: sum.splits)
qed

text \<open>
  C15: the admin roster respects consent and is audited.  The rows are the entries of the class
  in roster order; the active ones are numbered from one without gaps; the contact data of a
  parent without consent is withheld; and each parent whose profile was shown is audited
  exactly once, however many children wait.
\<close>
theorem roster_consent_and_audit:
  assumes "list_class_waitlist_roster d org fest cls actor t w = (Inr rows, w')"
  shows "map rr_entry rows = list_entries_for_class_roster org cls (ww_repo w) \<and>
    List.map_filter rr_position rows = [1 ..< Suc (length (active_roster org cls (ww_repo w)))] \<and>
    (\<forall>row \<in> set rows. consent_of d org (wl_parentCustomerId (rr_entry row)) = None \<longrightarrow>
       rr_parentName row = ''[Consent withheld]'' \<and> rr_parentEmail row = [] \<and> rr_parentPhone row = []) \<and>
    ww_repo w' = ww_repo w \<and>
    ww_effects w' = ww_effects w @ map (\<lambda>p. AccessAudit org actor p t)
      (filter (\<lambda>p. consent_of d org p \<noteq> None)
        (js_uniq (map wl_parentCustomerId (list_entries_for_class_roster org cls (ww_repo w)))))"
proof -
  let ?st = "\<lparr>ro_cache = [], ro_effects = [], ro_position = 0\<rparr>"
  from assms obtain st where r: "roster_rows d org actor t (list_entries_for_class_roster org cls (ww_repo w)) ?st = (rows, st)"
    and w': "w' = w\<lparr>ww_effects := ww_effects w @ ro_effects st\<rparr>"
    by (auto simp: list_class_waitlist_roster_def act_bind_eq_Inr split: prod.splits)
  have "roster_ok d org ?st" by (simp add: roster_ok_def)
  from roster_rows_spec [OF r this] w' show ?thesis
    by (simp add: active_roster_def js_uniq_def js_keys_def)
qed

theorem roster_consent_and_audit_witness:
  "map rr_position (fst (roster_rows (demo_deps 2) ''org'' ''admin'' 9
      (list_entries_for_class_roster ''org'' ''c1'' demo_waitlist) \<lparr>ro_cache = [], ro_effects = [], ro_position = 0\<rparr>))
     = [Some 1, Some 2] \<and>
   ww_effects (snd (list_class_waitlist_roster (demo_deps 2) ''org'' None ''c1'' ''admin'' 9
      \<lparr>ww_repo = demo_waitlist, ww_effects = []\<rparr>)) = [AccessAudit ''org'' ''admin'' ''parent'' 9]"
proof
  show "map rr_position (fst (roster_rows (demo_deps 2) ''org'' ''admin'' 9
      (list_entries_for_class_roster ''org'' ''c1'' demo_waitlist) \<lparr>ro_cache = [], ro_effects = [], ro_position = 0\<rparr>))
     = [Some 1, Some 2]" by code_simp
  let ?w = "\<lparr>ww_repo = demo_waitlist, ww_effects = []\<rparr>"
  have "isl (fst (list_class_waitlist_roster (demo_deps 2) ''org'' None ''c1'' ''admin'' 9 ?w)) = False" by code_simp
  then obtain rows where "list_class_waitlist_roster (demo_deps 2) ''org'' None ''c1'' ''admin'' 9 ?w
      = (Inr rows, snd (list_class_waitlist_roster (demo_deps 2) ''org'' None ''c1'' ''admin'' 9 ?w))"
    by (cases "fst (list_class_waitlist_roster (demo_deps 2) ''org'' None ''c1'' ''admin'' 9 ?w)")
      (auto simp: prod_eq_iff)
  from roster_consent_and_audit [OF this]
  have "ww_effects (snd (list_class_waitlist_roster (demo_deps 2) ''org'' None ''c1'' ''admin'' 9 ?w))
    = map (\<lambda>p. AccessAudit ''org'' ''admin'' p 9) (filter (\<lambda>p. consent_of (demo_deps 2) ''org'' p \<noteq> None)
        (js_uniq (map wl_parentCustomerId (list_entries_for_class_roster ''org'' ''c1'' demo_waitlist))))" by simp
  also have "js_uniq (map wl_parentCustomerId (list_entries_for_class_roster ''org'' ''c1'' demo_waitlist)) = [''parent'']"
    by code_simp
  finally show "ww_effects (snd (list_class_waitlist_roster (demo_deps 2) ''org'' None ''c1'' ''admin'' 9 ?w))
    = [AccessAudit ''org'' ''admin'' ''parent'' 9]" by (simp add: consent_of_def demo_deps_def)
qed

end
