(* ===== verification/VolunteerRepo.thy ===== *)
theory VolunteerRepo
  imports FestPrelude
begin

text \<open>
  \<open>InMemoryVolunteerRepository\<close> of \<open>packages/backend/src/volunteers/volunteer-repository.ts\<close>:
  the volunteers, roles and shifts of a festival and the booking of shifts.  Objects are stored
  under their own id; UUIDs and instants are arguments.  \<open>localeCompare\<close> is applied to ISO dates
  and to the two period names only, on which it is the code-unit order.
\<close>

section \<open>Records\<close>

datatype shift_period = AM | PM

datatype assignment_status = AsActive | AsCancelled

record volunteer_record =
  vo_id :: string
  vo_organizationId :: string
  vo_festivalId :: string
  vo_firebaseUid :: string
  vo_accountEmail :: string
  vo_name :: string
  vo_phone :: string
  vo_createdAtIso :: string

record volunteer_role =
  vr_id :: string
  vr_organizationId :: string
  vr_festivalId :: string
  vr_slug :: string
  vr_displayName :: string
  vr_description :: string
  vr_detailsUrl :: "string option"
  vr_isRoomProctor :: bool
  vr_createdAtIso :: string

record volunteer_shift =
  vs_id :: string
  vs_organizationId :: string
  vs_festivalId :: string
  vs_roleId :: string
  vs_date :: string
  vs_period :: shift_period
  vs_timeText :: "string option"
  vs_division :: "string option"
  vs_adjudicator :: "string option"
  vs_createdAtIso :: string

record volunteer_assignment =
  va_id :: string
  va_organizationId :: string
  va_shiftId :: string
  va_volunteerId :: string
  va_status :: assignment_status
  va_createdAtIso :: string
  va_cancelledAtIso :: "string option"

datatype book_outcome = Booked "volunteer_assignment list" | BookConflict "string list"

record upsert_volunteer_input =
  uv_organizationId :: string
  uv_festivalId :: string
  uv_firebaseUid :: string
  uv_accountEmail :: string
  uv_name :: string
  uv_phone :: string

record create_role_input =
  cr_organizationId :: string
  cr_festivalId :: string
  cr_slug :: string
  cr_displayName :: string
  cr_description :: string
  cr_detailsUrl :: "string option"
  cr_isRoomProctor :: bool

record update_role_input =
  ur_organizationId :: string
  ur_festivalId :: string
  ur_roleId :: string
  ur_displayName :: string
  ur_description :: string
  ur_detailsUrl :: "string option"
  ur_isRoomProctor :: bool

record create_shift_input =
  cs_organizationId :: string
  cs_festivalId :: string
  cs_roleId :: string
  cs_date :: string
  cs_period :: shift_period
  cs_timeText :: "string option"
  cs_division :: "string option"
  cs_adjudicator :: "string option"

record update_shift_input = create_shift_input +
  us_shiftId :: string

record book_shifts_input =
  bk_organizationId :: string
  bk_festivalId :: string
  bk_volunteerId :: string
  bk_shiftIds :: "string list"

record volunteer_repo =
  vp_volunteers :: "(string, volunteer_record) js_map"
  vp_roles :: "(string, volunteer_role) js_map"
  vp_shifts :: "(string, volunteer_shift) js_map"
  vp_assignments :: "(string, volunteer_assignment) js_map"

definition empty_volunteer_repo :: volunteer_repo where
  "empty_volunteer_repo = \<lparr>vp_volunteers = [], vp_roles = [], vp_shifts = [], vp_assignments = []\<rparr>"

section \<open>Volunteers and roles\<close>

definition same_volunteer :: "string \<Rightarrow> string \<Rightarrow> string \<Rightarrow> volunteer_record \<Rightarrow> bool" where
  "same_volunteer org fest uid v \<longleftrightarrow>
     vo_organizationId v = org \<and> vo_festivalId v = fest \<and> vo_firebaseUid v = uid"

definition find_volunteer_by_uid :: "string \<Rightarrow> string \<Rightarrow> string \<Rightarrow> volunteer_repo \<Rightarrow> volunteer_record option" where
  "find_volunteer_by_uid org fest uid r = find (same_volunteer org fest uid) (js_values (vp_volunteers r))"

definition upsert_volunteer ::
    "upsert_volunteer_input \<Rightarrow> string \<Rightarrow> string \<Rightarrow> volunteer_repo \<Rightarrow> volunteer_record \<times> volunteer_repo" where
  "upsert_volunteer i uuid now_iso r =
     (let contact = (\<lambda>v. v\<lparr>vo_accountEmail := uv_accountEmail i, vo_name := uv_name i, vo_phone := uv_phone i\<rparr>) in
      (case find_volunteer_by_uid (uv_organizationId i) (uv_festivalId i) (uv_firebaseUid i) r of
         Some v \<Rightarrow> (contact v, r\<lparr>vp_volunteers := js_modify (vo_id v) contact (vp_volunteers r)\<rparr>)
       | None \<Rightarrow>
           let v = \<lparr>vo_id = uuid, vo_organizationId = uv_organizationId i, vo_festivalId = uv_festivalId i,
                    vo_firebaseUid = uv_firebaseUid i, vo_accountEmail = uv_accountEmail i,
                    vo_name = uv_name i, vo_phone = uv_phone i, vo_createdAtIso = now_iso\<rparr>
           in (v, r\<lparr>vp_volunteers := js_set (vo_id v) v (vp_volunteers r)\<rparr>)))"

definition create_role ::
    "create_role_input \<Rightarrow> string \<Rightarrow> string \<Rightarrow> volunteer_repo \<Rightarrow> volunteer_role \<times> volunteer_repo" where
  "create_role i uuid now_iso r =
     (let role = \<lparr>vr_id = uuid, vr_organizationId = cr_organizationId i, vr_festivalId = cr_festivalId i,
                  vr_slug = cr_slug i, vr_displayName = cr_displayName i, vr_description = cr_description i,
                  vr_detailsUrl = cr_detailsUrl i, vr_isRoomProctor = cr_isRoomProctor i, vr_createdAtIso = now_iso\<rparr>
      in (role, r\<lparr>vp_roles := js_set (vr_id role) role (vp_roles r)\<rparr>))"

definition get_role :: "string \<Rightarrow> string \<Rightarrow> string \<Rightarrow> volunteer_repo \<Rightarrow> volunteer_role option" where
  "get_role org fest rid r =
     (case js_get (vp_roles r) rid of
        None \<Rightarrow> None
      | Some role \<Rightarrow> if vr_organizationId role \<noteq> org \<or> vr_festivalId role \<noteq> fest then None else Some role)"

definition update_role :: "update_role_input \<Rightarrow> volunteer_repo \<Rightarrow> volunteer_role option \<times> volunteer_repo" where
  "update_role i r =
     (case get_role (ur_organizationId i) (ur_festivalId i) (ur_roleId i) r of
        None \<Rightarrow> (None, r)
      | Some role \<Rightarrow>
          let role' = role\<lparr>vr_displayName := ur_displayName i, vr_description := ur_description i,
                           vr_detailsUrl := ur_detailsUrl i, vr_isRoomProctor := ur_isRoomProctor i\<rparr>
          in (Some role', r\<lparr>vp_roles := js_set (vr_id role') role' (vp_roles r)\<rparr>))"

text \<open>The loops over \<open>values()\<close> delete the value they visit, by its id.\<close>

definition delete_all :: "'k list \<Rightarrow> ('k, 'v) js_map \<Rightarrow> ('k, 'v) js_map" where
  "delete_all ks m = foldl (\<lambda>m k. js_delete k m) m ks"

definition delete_role :: "string \<Rightarrow> string \<Rightarrow> string \<Rightarrow> volunteer_repo \<Rightarrow> bool \<times> volunteer_repo" where
  "delete_role org fest rid r =
     (case get_role org fest rid r of
        None \<Rightarrow> (False, r)
      | Some role \<Rightarrow>
          let shift_ids = map vs_id (filter (\<lambda>s. vs_roleId s = rid) (js_values (vp_shifts r)));
              assignment_ids = map va_id (filter (\<lambda>a. va_shiftId a \<in> set shift_ids) (js_values (vp_assignments r)))
          in (True, r\<lparr>vp_roles := js_delete rid (vp_roles r),
                      vp_shifts := delete_all shift_ids (vp_shifts r),
                      vp_assignments := delete_all assignment_ids (vp_assignments r)\<rparr>))"

definition list_roles :: "string \<Rightarrow> string \<Rightarrow> volunteer_repo \<Rightarrow> volunteer_role list" where
  "list_roles org fest r =
     filter (\<lambda>role. vr_organizationId role = org \<and> vr_festivalId role = fest) (js_values (vp_roles r))"

section \<open>Shifts\<close>

definition create_shift ::
    "create_shift_input \<Rightarrow> string \<Rightarrow> string \<Rightarrow> volunteer_repo \<Rightarrow> volunteer_shift outcome \<times> volunteer_repo" where
  "create_shift i uuid now_iso r =
     (case get_role (cs_organizationId i) (cs_festivalId i) (cs_roleId i) r of
        None \<Rightarrow> (Inl (PlainError ''Volunteer shift role is outside the selected festival.''), r)
      | Some role \<Rightarrow>
          let s = \<lparr>vs_id = uuid, vs_organizationId = cs_organizationId i, vs_festivalId = cs_festivalId i,
                   vs_roleId = cs_roleId i, vs_date = cs_date i, vs_period = cs_period i,
                   vs_timeText = cs_timeText i, vs_division = cs_division i,
                   vs_adjudicator = cs_adjudicator i, vs_createdAtIso = now_iso\<rparr>
          in (Inr s, r\<lparr>vp_shifts := js_set (vs_id s) s (vp_shifts r)\<rparr>))"

definition find_shift :: "string \<Rightarrow> string \<Rightarrow> string \<Rightarrow> string \<Rightarrow> volunteer_repo \<Rightarrow> volunteer_shift option" where
  "find_shift org fest rid sid r =
     (case js_get (vp_shifts r) sid of
        None \<Rightarrow> None
      | Some s \<Rightarrow> if vs_organizationId s \<noteq> org \<or> vs_festivalId s \<noteq> fest \<or> vs_roleId s \<noteq> rid then None else Some s)"

definition update_shift :: "update_shift_input \<Rightarrow> volunteer_repo \<Rightarrow> volunteer_shift option \<times> volunteer_repo" where
  "update_shift i r =
     (case find_shift (cs_organizationId i) (cs_festivalId i) (cs_roleId i) (us_shiftId i) r of
        None \<Rightarrow> (None, r)
      | Some s \<Rightarrow>
          let s' = s\<lparr>vs_date := cs_date i, vs_period := cs_period i, vs_timeText := cs_timeText i,
                     vs_division := cs_division i, vs_adjudicator := cs_adjudicator i\<rparr>
          in (Some s', r\<lparr>vp_shifts := js_set (vs_id s') s' (vp_shifts r)\<rparr>))"

definition delete_shift :: "string \<Rightarrow> string \<Rightarrow> string \<Rightarrow> string \<Rightarrow> volunteer_repo \<Rightarrow> bool \<times> volunteer_repo" where
  "delete_shift org fest rid sid r =
     (case find_shift org fest rid sid r of
        None \<Rightarrow> (False, r)
      | Some s \<Rightarrow>
          (True, r\<lparr>vp_shifts := js_delete sid (vp_shifts r),
                   vp_assignments := delete_all
                     (map va_id (filter (\<lambda>a. va_shiftId a = sid) (js_values (vp_assignments r)))) (vp_assignments r)\<rparr>))"

definition list_shifts_for_role :: "string \<Rightarrow> string \<Rightarrow> string \<Rightarrow> volunteer_repo \<Rightarrow> volunteer_shift list" where
  "list_shifts_for_role org fest rid r =
     filter (\<lambda>s. vs_organizationId s = org \<and> vs_festivalId s = fest \<and> vs_roleId s = rid) (js_values (vp_shifts r))"

section \<open>Booking\<close>

fun period_name :: "shift_period \<Rightarrow> string" where
  "period_name AM = ''AM''"
| "period_name PM = ''PM''"

text \<open>The template string of date and period.\<close>

definition period_key :: "volunteer_shift \<Rightarrow> string" where
  "period_key s = vs_date s @ '':'' @ period_name (vs_period s)"

definition active_assignments :: "volunteer_repo \<Rightarrow> volunteer_assignment list" where
  "active_assignments r = filter (\<lambda>a. va_status a = AsActive) (js_values (vp_assignments r))"

definition missing_shift :: "string \<Rightarrow> string \<Rightarrow> volunteer_repo \<Rightarrow> string \<Rightarrow> bool" where
  "missing_shift org fest r sid =
     (case js_get (vp_shifts r) sid of
        None \<Rightarrow> True
      | Some s \<Rightarrow> vs_organizationId s \<noteq> org \<or> vs_festivalId s \<noteq> fest)"

definition existing_periods :: "string \<Rightarrow> string \<Rightarrow> volunteer_repo \<Rightarrow> string list" where
  "existing_periods fest vid r =
     map period_key (filter (\<lambda>s. vs_festivalId s = fest)
       (List.map_filter (\<lambda>a. js_get (vp_shifts r) (va_shiftId a))
         (filter (\<lambda>a. va_volunteerId a = vid) (active_assignments r))))"

fun period_conflicts :: "string list \<Rightarrow> string list \<Rightarrow> volunteer_shift list \<Rightarrow> string list" where
  "period_conflicts existing seen [] = []"
| "period_conflicts existing seen (s # ss) =
     (if period_key s \<in> set existing \<or> period_key s \<in> set seen
      then vs_id s # period_conflicts existing (period_key s # seen) ss
      else period_conflicts existing (period_key s # seen) ss)"

definition new_assignment :: "book_shifts_input \<Rightarrow> string \<Rightarrow> string \<times> string \<Rightarrow> volunteer_assignment" where
  "new_assignment i now_iso = (\<lambda>(sid, uuid).
     \<lparr>va_id = uuid, va_organizationId = bk_organizationId i, va_shiftId = sid, va_volunteerId = bk_volunteerId i,
      va_status = AsActive, va_createdAtIso = now_iso, va_cancelledAtIso = None\<rparr>)"

definition store_assignments ::
    "volunteer_assignment list \<Rightarrow> (string, volunteer_assignment) js_map \<Rightarrow> (string, volunteer_assignment) js_map" where
  "store_assignments as m = foldl (\<lambda>m a. js_set (va_id a) a m) m as"

definition booking_conflicts :: "book_shifts_input \<Rightarrow> volunteer_repo \<Rightarrow> string list" where
  "booking_conflicts i r =
     (let known_volunteer = (case js_get (vp_volunteers r) (bk_volunteerId i) of
            None \<Rightarrow> False
          | Some v \<Rightarrow> vo_organizationId v = bk_organizationId i \<and> vo_festivalId v = bk_festivalId i);
          missing = filter (missing_shift (bk_organizationId i) (bk_festivalId i) r) (bk_shiftIds i);
          requested = List.map_filter (js_get (vp_shifts r)) (bk_shiftIds i);
          taken = filter (\<lambda>sid. list_ex (\<lambda>a. va_shiftId a = sid) (active_assignments r)) (bk_shiftIds i);
          clashing = period_conflicts (existing_periods (bk_festivalId i) (bk_volunteerId i) r) [] requested
      in if \<not> known_volunteer then bk_shiftIds i
         else if missing \<noteq> [] then missing
         else js_uniq (taken @ clashing))"

text \<open>
  An unknown volunteer is reported as a conflict of all requested shifts, also when there are none.
\<close>

definition book_shifts ::
    "book_shifts_input \<Rightarrow> string list \<Rightarrow> string \<Rightarrow> volunteer_repo \<Rightarrow> book_outcome \<times> volunteer_repo" where
  "book_shifts i uuids now_iso r =
     (let known_volunteer = (case js_get (vp_volunteers r) (bk_volunteerId i) of
            None \<Rightarrow> False
          | Some v \<Rightarrow> vo_organizationId v = bk_organizationId i \<and> vo_festivalId v = bk_festivalId i);
          conflicts = booking_conflicts i r
      in if \<not> known_volunteer \<or> conflicts \<noteq> [] then (BookConflict conflicts, r)
         else let as = map (new_assignment i now_iso) (zip (bk_shiftIds i) uuids)
              in (Booked as, r\<lparr>vp_assignments := store_assignments as (vp_assignments r)\<rparr>))"

definition cancel_assignment ::
    "string \<Rightarrow> string \<Rightarrow> string \<Rightarrow> string \<Rightarrow> volunteer_repo \<Rightarrow> volunteer_assignment option \<times> volunteer_repo" where
  "cancel_assignment org fest aid cancelled_iso r =
     (case js_get (vp_assignments r) aid of
        None \<Rightarrow> (None, r)
      | Some a \<Rightarrow>
          if va_organizationId a \<noteq> org
             \<or> map_option vs_festivalId (js_get (vp_shifts r) (va_shiftId a)) \<noteq> Some fest
             \<or> va_status a \<noteq> AsActive
          then (None, r)
          else let cancel = (\<lambda>a. a\<lparr>va_status := AsCancelled, va_cancelledAtIso := Some cancelled_iso\<rparr>)
               in (Some (cancel a), r\<lparr>vp_assignments := js_modify aid cancel (vp_assignments r)\<rparr>))"

section \<open>Listings\<close>

definition missing_role_error :: "volunteer_shift \<Rightarrow> app_error" where
  "missing_role_error s = PlainError (''Shift '' @ vs_id s @ '' references missing role '' @ vs_roleId s @ ''.'')"

text \<open>\<open>map\<close> with a callback that may throw, then \<open>filter\<close> of the nulls.\<close>

fun map_throwing :: "('a \<Rightarrow> 'b option outcome) \<Rightarrow> 'a list \<Rightarrow> 'b list outcome" where
  "map_throwing f [] = Inr []"
| "map_throwing f (x # xs) =
     and_then (f x) (\<lambda>y. and_then (map_throwing f xs) (\<lambda>ys. Inr (case y of None \<Rightarrow> ys | Some z \<Rightarrow> z # ys)))"

definition list_assignments_for_volunteer ::
    "string \<Rightarrow> string \<Rightarrow> string \<Rightarrow> volunteer_repo \<Rightarrow>
       (volunteer_assignment \<times> volunteer_shift \<times> volunteer_role) list outcome" where
  "list_assignments_for_volunteer org fest vid r =
     and_then (map_throwing
       (\<lambda>a. case js_get (vp_shifts r) (va_shiftId a) of
              None \<Rightarrow> Inr None
            | Some s \<Rightarrow>
                if vs_organizationId s \<noteq> org \<or> vs_festivalId s \<noteq> fest then Inr None
                else (case js_get (vp_roles r) (vs_roleId s) of
                        None \<Rightarrow> Inl (missing_role_error s)
                      | Some role \<Rightarrow> Inr (Some (a, s, role))))
       (filter (\<lambda>a. va_organizationId a = org \<and> va_volunteerId a = vid) (active_assignments r)))
     (\<lambda>rows. Inr (sort_key (\<lambda>(a, s, role). (vs_date s, period_name (vs_period s))) rows))"

definition active_by_shift :: "string \<Rightarrow> volunteer_repo \<Rightarrow> (string, volunteer_assignment) js_map" where
  "active_by_shift org r =
     foldl (\<lambda>m a. js_set (va_shiftId a) a m) []
       (filter (\<lambda>a. va_organizationId a = org) (active_assignments r))"

definition list_schedule_for_organization ::
    "string \<Rightarrow> string \<Rightarrow> volunteer_repo \<Rightarrow>
       (volunteer_shift \<times> volunteer_role \<times> volunteer_assignment option \<times> volunteer_record option) list outcome" where
  "list_schedule_for_organization org fest r =
     map_throwing
       (\<lambda>s. case js_get (vp_roles r) (vs_roleId s) of
              None \<Rightarrow> Inl (missing_role_error s)
            | Some role \<Rightarrow>
                let a = js_get (active_by_shift org r) (vs_id s)
                in Inr (Some (s, role, a, Option.bind a (\<lambda>a. js_get (vp_volunteers r) (va_volunteerId a)))))
       (filter (\<lambda>s. vs_organizationId s = org \<and> vs_festivalId s = fest) (js_values (vp_shifts r)))"

section \<open>Updates of the maps\<close>

lemma delete_all_get [simp]: "js_get (delete_all ks m) k = (if k \<in> set ks then None else js_get m k)"
  unfolding delete_all_def by (induction ks arbitrary: m) auto

lemma delete_all_wf [simp]: "js_wf m \<Longrightarrow> js_wf (delete_all ks m)"
  unfolding delete_all_def by (induction ks arbitrary: m) auto

lemma store_assignments_get:
  "distinct (map va_id as) \<Longrightarrow>
   js_get (store_assignments as m) k = (case find (\<lambda>a. va_id a = k) as of Some a \<Rightarrow> Some a | None \<Rightarrow> js_get m k)"
  unfolding store_assignments_def
proof (induction as arbitrary: m)
  case (Cons a as)
  have "find (\<lambda>b. va_id b = k) as = None" if "va_id a = k"
    using Cons.prems that by (auto simp: find_None_iff) (metis image_eqI)
  with Cons show ?case by (auto split: option.splits)
qed simp

lemma store_assignments_wf [simp]: "js_wf m \<Longrightarrow> js_wf (store_assignments as m)"
  unfolding store_assignments_def by (induction as arbitrary: m) auto

lemma period_key_eq [simp]:
  "period_key s = period_key t \<longleftrightarrow> vs_date s = vs_date t \<and> vs_period s = vs_period t"
  by (cases "vs_period s"; cases "vs_period t") (auto simp: period_key_def)

lemma period_conflicts_Nil:
  "period_conflicts existing seen ss = [] \<longleftrightarrow>
     distinct (map period_key ss) \<and> set (map period_key ss) \<inter> (set existing \<union> set seen) = {}"
  by (induction ss arbitrary: seen) auto

section \<open>The invariant\<close>

text \<open>
  Objects lie under their ids; a shift belongs to a stored role, an assignment to a stored
  shift and volunteer, all of one organization and festival; a shift has at most one active
  assignment.
\<close>

definition stored_by_id :: "('v \<Rightarrow> string) \<Rightarrow> (string, 'v) js_map \<Rightarrow> bool" where
  "stored_by_id id_of m \<longleftrightarrow> js_wf m \<and> (\<forall>k v. js_get m k = Some v \<longrightarrow> id_of v = k)"

definition shift_refs :: "volunteer_repo \<Rightarrow> bool" where
  "shift_refs r \<longleftrightarrow> (\<forall>k s. js_get (vp_shifts r) k = Some s \<longrightarrow>
     (\<exists>role. js_get (vp_roles r) (vs_roleId s) = Some role \<and>
        vr_organizationId role = vs_organizationId s \<and> vr_festivalId role = vs_festivalId s))"

definition assignment_refs :: "volunteer_repo \<Rightarrow> bool" where
  "assignment_refs r \<longleftrightarrow> (\<forall>k a. js_get (vp_assignments r) k = Some a \<longrightarrow>
     (\<exists>s v. js_get (vp_shifts r) (va_shiftId a) = Some s \<and> js_get (vp_volunteers r) (va_volunteerId a) = Some v \<and>
        vs_organizationId s = va_organizationId a \<and> vo_organizationId v = va_organizationId a \<and>
        vo_festivalId v = vs_festivalId s))"

definition booked_once :: "volunteer_repo \<Rightarrow> bool" where
  "booked_once r \<longleftrightarrow> (\<forall>k k' a b. js_get (vp_assignments r) k = Some a \<longrightarrow> js_get (vp_assignments r) k' = Some b \<longrightarrow>
     va_status a = AsActive \<longrightarrow> va_status b = AsActive \<longrightarrow> va_shiftId a = va_shiftId b \<longrightarrow> k = k')"

definition volunteer_inv :: "volunteer_repo \<Rightarrow> bool" where
  "volunteer_inv r \<longleftrightarrow>
     stored_by_id vo_id (vp_volunteers r) \<and> stored_by_id vr_id (vp_roles r) \<and>
     stored_by_id vs_id (vp_shifts r) \<and> stored_by_id va_id (vp_assignments r) \<and>
     shift_refs r \<and> assignment_refs r \<and> booked_once r"

lemmas volunteer_inv_defs = volunteer_inv_def shift_refs_def assignment_refs_def booked_once_def

lemma stored_by_id_set: "stored_by_id f m \<Longrightarrow> stored_by_id f (js_set (f v) v m)"
  by (simp add: stored_by_id_def)

lemma stored_by_id_modify: "stored_by_id f m \<Longrightarrow> (\<And>v. f (g v) = f v) \<Longrightarrow> stored_by_id f (js_modify k g m)"
  by (auto simp: stored_by_id_def)

lemma stored_by_id_delete: "stored_by_id f m \<Longrightarrow> stored_by_id f (js_delete k m)"
  by (simp add: stored_by_id_def)

lemma stored_by_id_delete_all: "stored_by_id f m \<Longrightarrow> stored_by_id f (delete_all ks m)"
  by (simp add: stored_by_id_def)

lemma stored_by_id_value: "stored_by_id f m \<Longrightarrow> v \<in> set (js_values m) \<longleftrightarrow> js_get m (f v) = Some v"
  by (auto simp: stored_by_id_def js_values_get)

lemmas stored_by_id_intros = stored_by_id_set stored_by_id_modify stored_by_id_delete stored_by_id_delete_all

lemma active_assignment_iff:
  "volunteer_inv r \<Longrightarrow> a \<in> set (active_assignments r) \<longleftrightarrow>
     js_get (vp_assignments r) (va_id a) = Some a \<and> va_status a = AsActive"
  by (auto simp: active_assignments_def volunteer_inv_def stored_by_id_value)

lemma get_role_Some:
  "get_role org fest rid r = Some role \<longleftrightarrow>
     js_get (vp_roles r) rid = Some role \<and> vr_organizationId role = org \<and> vr_festivalId role = fest"
  by (auto simp: get_role_def split: option.splits)

lemma find_shift_Some:
  "find_shift org fest rid sid r = Some s \<longleftrightarrow>
     js_get (vp_shifts r) sid = Some s \<and> vs_organizationId s = org \<and> vs_festivalId s = fest \<and> vs_roleId s = rid"
  by (auto simp: find_shift_def split: option.splits)

lemma volunteer_inv_empty: "volunteer_inv empty_volunteer_repo"
  by (simp add: volunteer_inv_defs stored_by_id_def empty_volunteer_repo_def)

section \<open>Every operation keeps the invariant\<close>

text \<open>References survive a change of the map they point into that keeps organization and festival.\<close>

lemma refs_unchanged [simp]:
  "shift_refs (r\<lparr>vp_volunteers := x\<rparr>) = shift_refs r" "shift_refs (r\<lparr>vp_assignments := y\<rparr>) = shift_refs r"
  "assignment_refs (r\<lparr>vp_roles := z\<rparr>) = assignment_refs r"
  "booked_once (r\<lparr>vp_volunteers := x\<rparr>) = booked_once r" "booked_once (r\<lparr>vp_roles := z\<rparr>) = booked_once r"
  "booked_once (r\<lparr>vp_shifts := v\<rparr>) = booked_once r"
  by (simp_all add: shift_refs_def assignment_refs_def booked_once_def)

lemma shift_refs_roles:
  assumes "shift_refs r"
    and "\<And>k role. js_get (vp_roles r) k = Some role \<Longrightarrow> \<exists>role'. js_get m k = Some role' \<and>
           vr_organizationId role' = vr_organizationId role \<and> vr_festivalId role' = vr_festivalId role"
  shows "shift_refs (r\<lparr>vp_roles := m\<rparr>)"
  using assms unfolding shift_refs_def by simp metis

lemma assignment_refs_volunteers:
  assumes "assignment_refs r"
    and "\<And>k v. js_get (vp_volunteers r) k = Some v \<Longrightarrow> \<exists>v'. js_get m k = Some v' \<and>
           vo_organizationId v' = vo_organizationId v \<and> vo_festivalId v' = vo_festivalId v"
  shows "assignment_refs (r\<lparr>vp_volunteers := m\<rparr>)"
  using assms unfolding assignment_refs_def by simp metis

lemma assignment_refs_shifts:
  assumes "assignment_refs r"
    and "\<And>k s. js_get (vp_shifts r) k = Some s \<Longrightarrow> \<exists>s'. js_get m k = Some s' \<and>
           vs_organizationId s' = vs_organizationId s \<and> vs_festivalId s' = vs_festivalId s"
  shows "assignment_refs (r\<lparr>vp_shifts := m\<rparr>)"
  using assms unfolding assignment_refs_def by simp metis

lemma shift_refs_put:
  assumes "shift_refs r" "js_get (vp_roles r) (vs_roleId s) = Some role"
    "vr_organizationId role = vs_organizationId s" "vr_festivalId role = vs_festivalId s"
  shows "shift_refs (r\<lparr>vp_shifts := js_set k s (vp_shifts r)\<rparr>)"
  using assms by (simp add: shift_refs_def)

lemma booked_once_fewer:
  assumes "booked_once r"
    and "\<And>k a. js_get m k = Some a \<Longrightarrow> va_status a = AsActive \<Longrightarrow> js_get (vp_assignments r) k = Some a"
  shows "booked_once (r\<lparr>vp_assignments := m\<rparr>)"
  using assms unfolding booked_once_def by simp

lemma stored_by_id_get: "stored_by_id f m \<Longrightarrow> js_get m k = Some v \<Longrightarrow> f v = k"
  by (simp add: stored_by_id_def)

lemma upsert_volunteer_inv:
  assumes "volunteer_inv r" "js_get (vp_volunteers r) uuid = None"
  shows "volunteer_inv (snd (upsert_volunteer i uuid t r))"
proof (cases "find_volunteer_by_uid (uv_organizationId i) (uv_festivalId i) (uv_firebaseUid i) r")
  case None
  let ?v = "\<lparr>vo_id = uuid, vo_organizationId = uv_organizationId i, vo_festivalId = uv_festivalId i,
    vo_firebaseUid = uv_firebaseUid i, vo_accountEmail = uv_accountEmail i, vo_name = uv_name i,
    vo_phone = uv_phone i, vo_createdAtIso = t\<rparr>"
  have "assignment_refs (r\<lparr>vp_volunteers := js_set uuid ?v (vp_volunteers r)\<rparr>)"
    by (rule assignment_refs_volunteers) (use assms in \<open>auto simp: volunteer_inv_def\<close>)
  moreover have "stored_by_id vo_id (js_set uuid ?v (vp_volunteers r))"
    using assms(1) stored_by_id_set [of vo_id "vp_volunteers r" ?v] by (simp add: volunteer_inv_def)
  ultimately show ?thesis using assms(1) by (simp add: upsert_volunteer_def None volunteer_inv_def Let_def)
next
  case (Some v)
  let ?f = "\<lambda>v. v\<lparr>vo_accountEmail := uv_accountEmail i, vo_name := uv_name i, vo_phone := uv_phone i\<rparr>"
  have "assignment_refs (r\<lparr>vp_volunteers := js_modify (vo_id v) ?f (vp_volunteers r)\<rparr>)"
    by (rule assignment_refs_volunteers) (use assms(1) in \<open>auto simp: volunteer_inv_def\<close>)
  moreover have "stored_by_id vo_id (js_modify (vo_id v) ?f (vp_volunteers r))"
    using assms(1) by (intro stored_by_id_modify) (simp_all add: volunteer_inv_def)
  ultimately show ?thesis using assms(1) by (simp add: upsert_volunteer_def Some volunteer_inv_def Let_def)
qed

lemma put_role_inv:
  assumes "volunteer_inv r" "\<And>role0. js_get (vp_roles r) (vr_id role) = Some role0 \<Longrightarrow>
     vr_organizationId role = vr_organizationId role0 \<and> vr_festivalId role = vr_festivalId role0"
  shows "volunteer_inv (r\<lparr>vp_roles := js_set (vr_id role) role (vp_roles r)\<rparr>)"
proof -
  have "shift_refs (r\<lparr>vp_roles := js_set (vr_id role) role (vp_roles r)\<rparr>)"
    by (rule shift_refs_roles) (use assms in \<open>auto simp: volunteer_inv_def\<close>)
  with assms(1) show ?thesis by (simp add: volunteer_inv_def stored_by_id_set)
qed

lemma create_role_inv:
  assumes "volunteer_inv r" "js_get (vp_roles r) uuid = None"
  shows "volunteer_inv (snd (create_role i uuid t r))"
  unfolding create_role_def Let_def snd_conv by (rule put_role_inv) (simp_all add: assms)

lemma update_role_inv:
  assumes "volunteer_inv r" shows "volunteer_inv (snd (update_role i r))"
proof (cases "get_role (ur_organizationId i) (ur_festivalId i) (ur_roleId i) r")
  case (Some role)
  then have role: "js_get (vp_roles r) (ur_roleId i) = Some role" by (simp add: get_role_Some)
  with assms have "vr_id role = ur_roleId i" by (auto simp: volunteer_inv_def stored_by_id_get)
  with role show ?thesis
    unfolding update_role_def Some option.case Let_def snd_conv by (intro put_role_inv) (simp_all add: assms)
qed (simp add: update_role_def assms)

lemma put_shift_inv:
  assumes "volunteer_inv r" "js_get (vp_roles r) (vs_roleId s) = Some role"
    and "vr_organizationId role = vs_organizationId s" "vr_festivalId role = vs_festivalId s"
    and "\<And>s0. js_get (vp_shifts r) (vs_id s) = Some s0 \<Longrightarrow>
     vs_organizationId s = vs_organizationId s0 \<and> vs_festivalId s = vs_festivalId s0"
  shows "volunteer_inv (r\<lparr>vp_shifts := js_set (vs_id s) s (vp_shifts r)\<rparr>)"
proof -
  have "assignment_refs (r\<lparr>vp_shifts := js_set (vs_id s) s (vp_shifts r)\<rparr>)"
    by (rule assignment_refs_shifts) (use assms(1,5) in \<open>auto simp: volunteer_inv_def\<close>)
  moreover have "shift_refs (r\<lparr>vp_shifts := js_set (vs_id s) s (vp_shifts r)\<rparr>)"
    by (rule shift_refs_put) (use assms in \<open>simp_all add: volunteer_inv_def\<close>)
  ultimately show ?thesis using assms(1) by (simp add: volunteer_inv_def stored_by_id_set)
qed

lemma create_shift_inv:
  assumes "volunteer_inv r" "js_get (vp_shifts r) uuid = None"
  shows "volunteer_inv (snd (create_shift i uuid t r))"
proof (cases "get_role (cs_organizationId i) (cs_festivalId i) (cs_roleId i) r")
  case (Some role)
  then have "js_get (vp_roles r) (cs_roleId i) = Some role" "vr_organizationId role = cs_organizationId i"
    "vr_festivalId role = cs_festivalId i" by (simp_all add: get_role_Some)
  then show ?thesis
    unfolding create_shift_def Some option.case Let_def snd_conv
    by (intro put_shift_inv [OF assms(1), where role = role]) (simp_all add: assms(2))
qed (simp add: create_shift_def assms)

lemma update_shift_inv:
  assumes "volunteer_inv r" shows "volunteer_inv (snd (update_shift i r))"
proof (cases "find_shift (cs_organizationId i) (cs_festivalId i) (cs_roleId i) (us_shiftId i) r")
  case (Some s)
  then have shift: "js_get (vp_shifts r) (us_shiftId i) = Some s" by (simp add: find_shift_Some)
  with assms have id: "vs_id s = us_shiftId i" by (auto simp: volunteer_inv_def stored_by_id_get)
  from shift assms obtain role where "js_get (vp_roles r) (vs_roleId s) = Some role"
    "vr_organizationId role = vs_organizationId s" "vr_festivalId role = vs_festivalId s"
    unfolding volunteer_inv_def shift_refs_def by blast
  with id shift show ?thesis
    unfolding update_shift_def Some option.case Let_def snd_conv
    by (intro put_shift_inv [OF assms, where role = role]) simp_all
qed (simp add: update_shift_def assms)

text \<open>Deleting a shift with its assignments leaves no dangling reference.\<close>

lemma values_by_id:
  "stored_by_id f m \<Longrightarrow> k \<in> f ` {v \<in> set (js_values m). P v} \<longleftrightarrow> (\<exists>v. js_get m k = Some v \<and> P v)"
  by (auto simp: stored_by_id_value) (auto simp: stored_by_id_def)

lemma drop_shifts_inv:
  assumes "volunteer_inv r" "volunteer_inv (r\<lparr>vp_roles := roles, vp_shifts := shifts, vp_assignments := []\<rparr>)"
    and "\<And>k s. js_get (vp_shifts r) k = Some s \<Longrightarrow> k \<notin> gone \<Longrightarrow> js_get shifts k = Some s"
    and "\<And>k. js_get as k = (case js_get (vp_assignments r) k of Some a \<Rightarrow>
           (if va_shiftId a \<in> gone then None else Some a) | None \<Rightarrow> None)" "js_wf as"
  shows "volunteer_inv (r\<lparr>vp_roles := roles, vp_shifts := shifts, vp_assignments := as\<rparr>)"
proof -
  have as: "js_get as k = Some a \<longleftrightarrow> js_get (vp_assignments r) k = Some a \<and> va_shiftId a \<notin> gone" for k a
    by (auto simp: assms(4) split: option.splits)
  have "stored_by_id va_id as" using assms(1,5) as by (auto simp: stored_by_id_def volunteer_inv_def)
  moreover have "assignment_refs (r\<lparr>vp_roles := roles, vp_shifts := shifts, vp_assignments := as\<rparr>)"
    unfolding assignment_refs_def
  proof (intro allI impI)
    fix k a assume "js_get (vp_assignments (r\<lparr>vp_roles := roles, vp_shifts := shifts, vp_assignments := as\<rparr>)) k = Some a"
    then have a: "js_get (vp_assignments r) k = Some a" "va_shiftId a \<notin> gone" by (simp_all add: as)
    with assms(1) obtain s v where "js_get (vp_shifts r) (va_shiftId a) = Some s"
      "js_get (vp_volunteers r) (va_volunteerId a) = Some v" "vs_organizationId s = va_organizationId a"
      "vo_organizationId v = va_organizationId a" "vo_festivalId v = vs_festivalId s"
      unfolding volunteer_inv_def assignment_refs_def by metis
    with assms(3) a(2) show "\<exists>s v. js_get (vp_shifts (r\<lparr>vp_roles := roles, vp_shifts := shifts, vp_assignments := as\<rparr>))
        (va_shiftId a) = Some s \<and>
      js_get (vp_volunteers (r\<lparr>vp_roles := roles, vp_shifts := shifts, vp_assignments := as\<rparr>)) (va_volunteerId a) = Some v \<and>
      vs_organizationId s = va_organizationId a \<and> vo_organizationId v = va_organizationId a \<and>
      vo_festivalId v = vs_festivalId s" by auto
  qed
  moreover have "booked_once (r\<lparr>vp_roles := roles, vp_shifts := shifts, vp_assignments := as\<rparr>)"
    using assms(1) as unfolding volunteer_inv_def booked_once_def by simp
  moreover have "shift_refs (r\<lparr>vp_roles := roles, vp_shifts := shifts, vp_assignments := as\<rparr>)"
    using assms(2) unfolding volunteer_inv_def shift_refs_def by simp
  ultimately show ?thesis using assms(1,2) by (simp add: volunteer_inv_def)
qed

lemma delete_shift_inv:
  assumes "volunteer_inv r" shows "volunteer_inv (snd (delete_shift org fest rid sid r))"
proof (cases "find_shift org fest rid sid r")
  case (Some s)
  have st: "stored_by_id va_id (vp_assignments r)" using assms by (simp add: volunteer_inv_def)
  have "volunteer_inv (r\<lparr>vp_roles := vp_roles r, vp_shifts := js_delete sid (vp_shifts r), vp_assignments := []\<rparr>)"
    using assms by (simp add: volunteer_inv_defs stored_by_id_def)
  then have "volunteer_inv (r\<lparr>vp_roles := vp_roles r, vp_shifts := js_delete sid (vp_shifts r),
      vp_assignments := delete_all (map va_id (filter (\<lambda>a. va_shiftId a = sid) (js_values (vp_assignments r))))
        (vp_assignments r)\<rparr>)"
    by (rule drop_shifts_inv [OF assms, where gone = "{sid}"])
      (use st in \<open>auto simp: values_by_id [OF st] stored_by_id_def split: option.splits\<close>)
  then show ?thesis by (simp add: delete_shift_def Some)
qed (simp add: delete_shift_def assms)

lemma delete_role_inv:
  assumes "volunteer_inv r" shows "volunteer_inv (snd (delete_role org fest rid r))"
proof (cases "get_role org fest rid r")
  case (Some role)
  let ?gone = "vs_id ` {s \<in> set (js_values (vp_shifts r)). vs_roleId s = rid}"
  let ?shifts = "delete_all (map vs_id (filter (\<lambda>s. vs_roleId s = rid) (js_values (vp_shifts r)))) (vp_shifts r)"
  have st: "stored_by_id va_id (vp_assignments r)" "stored_by_id vs_id (vp_shifts r)"
    using assms by (simp_all add: volunteer_inv_def)
  have shifts: "js_get ?shifts k = Some s \<longleftrightarrow> js_get (vp_shifts r) k = Some s \<and> vs_roleId s \<noteq> rid" for k s
    by (auto simp: values_by_id [OF st(2)])
  have "volunteer_inv (r\<lparr>vp_roles := js_delete rid (vp_roles r), vp_shifts := ?shifts, vp_assignments := []\<rparr>)"
    using assms shifts by (auto simp: volunteer_inv_defs stored_by_id_intros) (auto simp: stored_by_id_def)
  then have "volunteer_inv (r\<lparr>vp_roles := js_delete rid (vp_roles r), vp_shifts := ?shifts,
      vp_assignments := delete_all (map va_id (filter (\<lambda>a. va_shiftId a \<in> ?gone) (js_values (vp_assignments r))))
        (vp_assignments r)\<rparr>)"
    by (rule drop_shifts_inv [OF assms, where gone = ?gone])
      (use st in \<open>auto simp: values_by_id [OF st(1)] stored_by_id_def split: option.splits\<close>)
  then show ?thesis by (simp add: delete_role_def Some)
qed (simp add: delete_role_def assms)

lemma cancel_assignment_inv:
  assumes "volunteer_inv r" shows "volunteer_inv (snd (cancel_assignment org fest aid t r))"
proof -
  let ?f = "\<lambda>a. a\<lparr>va_status := AsCancelled, va_cancelledAtIso := Some t\<rparr>"
  let ?r = "r\<lparr>vp_assignments := js_modify aid ?f (vp_assignments r)\<rparr>"
  have "booked_once ?r"
    by (rule booked_once_fewer) (use assms in \<open>auto simp: volunteer_inv_def split: if_splits\<close>)
  moreover have "assignment_refs ?r"
    using assms unfolding volunteer_inv_def assignment_refs_def by auto
  moreover have "stored_by_id va_id (vp_assignments ?r)"
    using assms stored_by_id_modify [of va_id "vp_assignments r" ?f aid] by (simp add: volunteer_inv_def)
  ultimately have "volunteer_inv ?r" using assms by (simp add: volunteer_inv_def)
  then show ?thesis using assms by (auto simp: cancel_assignment_def Let_def split: option.splits)
qed

section \<open>The shift plan a repository stands for\<close>

text \<open>
  The abstract view: who is registered, what slot each shift has, and who holds it.  A shift
  may be held by one volunteer, and a volunteer may hold one shift per slot of a festival.
\<close>

record shift_plan =
  sp_members :: "string \<Rightarrow> (string \<times> string) option"
  sp_slots :: "string \<Rightarrow> (string \<times> string \<times> string \<times> string \<times> shift_period) option"
  sp_holder :: "string \<Rightarrow> string option"

definition slot_of :: "volunteer_shift \<Rightarrow> string \<times> string \<times> string \<times> string \<times> shift_period" where
  "slot_of s = (vs_organizationId s, vs_festivalId s, vs_roleId s, vs_date s, vs_period s)"

definition plan_of :: "volunteer_repo \<Rightarrow> shift_plan" where
  "plan_of r = \<lparr>
     sp_members = (\<lambda>vid. map_option (\<lambda>v. (vo_organizationId v, vo_festivalId v)) (js_get (vp_volunteers r) vid)),
     sp_slots = (\<lambda>sid. map_option slot_of (js_get (vp_shifts r) sid)),
     sp_holder = (\<lambda>sid. map_option va_volunteerId (find (\<lambda>a. va_shiftId a = sid) (active_assignments r)))\<rparr>"

text \<open>Festival, date and period of a slot decide whether two shifts clash.\<close>

definition when_of :: "string \<times> string \<times> string \<times> string \<times> shift_period \<Rightarrow> string \<times> string \<times> shift_period" where
  "when_of = (\<lambda>(org, fest, role, date, period). (fest, date, period))"

definition plan_may_book :: "book_shifts_input \<Rightarrow> shift_plan \<Rightarrow> bool" where
  "plan_may_book i p \<longleftrightarrow>
     sp_members p (bk_volunteerId i) = Some (bk_organizationId i, bk_festivalId i) \<and>
     (\<forall>sid \<in> set (bk_shiftIds i). sp_holder p sid = None \<and>
        (\<exists>role date period. sp_slots p sid = Some (bk_organizationId i, bk_festivalId i, role, date, period) \<and>
           (\<forall>k slot. sp_holder p k = Some (bk_volunteerId i) \<longrightarrow> sp_slots p k = Some slot \<longrightarrow>
              when_of slot \<noteq> (bk_festivalId i, date, period)))) \<and>
     distinct (map (\<lambda>sid. map_option when_of (sp_slots p sid)) (bk_shiftIds i))"

definition plan_book :: "book_shifts_input \<Rightarrow> shift_plan \<Rightarrow> shift_plan" where
  "plan_book i p = p\<lparr>sp_holder := (\<lambda>sid. if sid \<in> set (bk_shiftIds i) then Some (bk_volunteerId i) else sp_holder p sid)\<rparr>"

definition plan_release :: "string \<Rightarrow> shift_plan \<Rightarrow> shift_plan" where
  "plan_release sid p = p\<lparr>sp_holder := (sp_holder p)(sid := None)\<rparr>"

definition plan_drop :: "string set \<Rightarrow> shift_plan \<Rightarrow> shift_plan" where
  "plan_drop gone p = p\<lparr>sp_slots := sp_slots p |` (- gone), sp_holder := sp_holder p |` (- gone)\<rparr>"

definition no_double_booking :: "shift_plan \<Rightarrow> bool" where
  "no_double_booking p \<longleftrightarrow> (\<forall>k k' v s s'. sp_holder p k = Some v \<longrightarrow> sp_holder p k' = Some v \<longrightarrow>
     sp_slots p k = Some s \<longrightarrow> sp_slots p k' = Some s' \<longrightarrow> when_of s = when_of s' \<longrightarrow> k = k')"

lemma no_double_bookingD:
  "no_double_booking p \<Longrightarrow> sp_holder p k = Some v \<Longrightarrow> sp_holder p k' = Some v \<Longrightarrow>
     sp_slots p k = Some s \<Longrightarrow> sp_slots p k' = Some s' \<Longrightarrow> when_of s = when_of s' \<Longrightarrow> k = k'"
  unfolding no_double_booking_def by blast

lemma plan_book_no_double_booking:
  assumes "no_double_booking p" "plan_may_book i p"
  shows "no_double_booking (plan_book i p)"
  unfolding no_double_booking_def
proof (intro allI impI)
  fix k k' v s s'
  assume h: "sp_holder (plan_book i p) k = Some v" "sp_holder (plan_book i p) k' = Some v"
    and s: "sp_slots (plan_book i p) k = Some s" "sp_slots (plan_book i p) k' = Some s'" "when_of s = when_of s'"
  have slots: "sp_slots p k = Some s" "sp_slots p k' = Some s'" using s by (simp_all add: plan_book_def)
  have clash: False if "j \<in> set (bk_shiftIds i)" "j' \<notin> set (bk_shiftIds i)" "sp_slots p j = Some u"
    "sp_slots p j' = Some u'" "when_of u = when_of u'" "sp_holder p j' = Some (bk_volunteerId i)" for j j' u u'
    using assms(2) that unfolding plan_may_book_def when_of_def by fastforce
  have inj: "inj_on (\<lambda>sid. map_option when_of (sp_slots p sid)) (set (bk_shiftIds i))"
    using assms(2) by (simp add: plan_may_book_def distinct_map)
  show "k = k'"
  proof (cases "k \<in> set (bk_shiftIds i)"; cases "k' \<in> set (bk_shiftIds i)")
    assume "k \<in> set (bk_shiftIds i)" "k' \<in> set (bk_shiftIds i)"
    then show ?thesis using inj_onD [OF inj, of k k'] slots s(3) by simp
  next
    assume "k \<in> set (bk_shiftIds i)" "k' \<notin> set (bk_shiftIds i)"
    then show ?thesis using clash [of k k' s s'] slots s(3) h by (simp add: plan_book_def)
  next
    assume "k \<notin> set (bk_shiftIds i)" "k' \<in> set (bk_shiftIds i)"
    then show ?thesis using clash [of k' k s' s] slots s(3) h by (simp add: plan_book_def)
  next
    assume "k \<notin> set (bk_shiftIds i)" "k' \<notin> set (bk_shiftIds i)"
    then show ?thesis using no_double_bookingD [OF assms(1) _ _ slots s(3)] h by (simp add: plan_book_def)
  qed
qed

lemma plan_release_no_double_booking: "no_double_booking p \<Longrightarrow> no_double_booking (plan_release sid p)"
  unfolding no_double_booking_def plan_release_def by (simp split: if_splits)

lemma plan_drop_no_double_booking: "no_double_booking p \<Longrightarrow> no_double_booking (plan_drop gone p)"
  unfolding no_double_booking_def plan_drop_def by (simp add: restrict_map_def split: if_splits)

section \<open>The operations implement the plan\<close>

lemma holder_iff:
  assumes "volunteer_inv r"
  shows "sp_holder (plan_of r) sid = Some vid \<longleftrightarrow>
    (\<exists>k a. js_get (vp_assignments r) k = Some a \<and> va_status a = AsActive \<and> va_shiftId a = sid \<and> va_volunteerId a = vid)"
proof
  assume "sp_holder (plan_of r) sid = Some vid"
  then obtain a where "find (\<lambda>a. va_shiftId a = sid) (active_assignments r) = Some a" "va_volunteerId a = vid"
    by (auto simp: plan_of_def)
  from find_Some_iff_in [OF this(1)] this(2)
  show "\<exists>k a. js_get (vp_assignments r) k = Some a \<and> va_status a = AsActive \<and> va_shiftId a = sid \<and> va_volunteerId a = vid"
    using active_assignment_iff [OF assms] by blast
next
  assume "\<exists>k a. js_get (vp_assignments r) k = Some a \<and> va_status a = AsActive \<and> va_shiftId a = sid \<and> va_volunteerId a = vid"
  then obtain k a where a: "js_get (vp_assignments r) k = Some a" "va_status a = AsActive" "va_shiftId a = sid"
    "va_volunteerId a = vid" by blast
  with assms have "a \<in> set (active_assignments r)"
    by (auto simp: active_assignment_iff volunteer_inv_def stored_by_id_get)
  then obtain b where b: "find (\<lambda>a. va_shiftId a = sid) (active_assignments r) = Some b"
    using a(3) by (cases "find (\<lambda>a. va_shiftId a = sid) (active_assignments r)") (auto simp: find_None_all)
  from find_Some_iff_in [OF this] have "js_get (vp_assignments r) (va_id b) = Some b" "va_status b = AsActive"
    "va_shiftId b = sid" using active_assignment_iff [OF assms] by blast+
  with a assms have "b = a" unfolding volunteer_inv_def booked_once_def by (metis option.inject)
  with b a(4) show "sp_holder (plan_of r) sid = Some vid" by (simp add: plan_of_def)
qed

lemma holder_eqI:
  assumes "volunteer_inv r"
    and "\<And>vid. (\<exists>k a. js_get (vp_assignments r) k = Some a \<and> va_status a = AsActive \<and> va_shiftId a = sid \<and>
           va_volunteerId a = vid) \<longleftrightarrow> x = Some vid"
  shows "sp_holder (plan_of r) sid = x"
  by (rule option_eqI) (simp only: holder_iff [OF assms(1)] assms(2))

lemma holder_active:
  assumes "volunteer_inv r"
  shows "sp_holder (plan_of r) sid = Some vid \<longleftrightarrow>
    (\<exists>a. a \<in> set (active_assignments r) \<and> va_shiftId a = sid \<and> va_volunteerId a = vid)"
proof -
  have "js_get (vp_assignments r) k = Some a \<Longrightarrow> va_id a = k" for k a
    using assms by (auto simp: volunteer_inv_def stored_by_id_get)
  then show ?thesis
    unfolding holder_iff [OF assms] active_assignment_iff [OF assms] by blast
qed

lemma holder_None:
  "volunteer_inv r \<Longrightarrow> sp_holder (plan_of r) sid = None \<longleftrightarrow>
     \<not> list_ex (\<lambda>a. va_shiftId a = sid) (active_assignments r)"
  by (simp add: plan_of_def find_None_all list_ex_iff)

lemma existing_periods_iff:
  assumes "volunteer_inv r"
  shows "period_key s \<in> set (existing_periods fest vid r) \<longleftrightarrow>
    (\<exists>k slot. sp_holder (plan_of r) k = Some vid \<and> sp_slots (plan_of r) k = Some slot \<and>
       when_of slot = (fest, vs_date s, vs_period s))"
proof -
  have "period_key s \<in> set (existing_periods fest vid r) \<longleftrightarrow>
    (\<exists>a s'. a \<in> set (active_assignments r) \<and> va_volunteerId a = vid \<and> js_get (vp_shifts r) (va_shiftId a) = Some s' \<and>
       vs_festivalId s' = fest \<and> vs_date s' = vs_date s \<and> vs_period s' = vs_period s)"
    by (auto simp: existing_periods_def map_filter_in image_iff)
  also have "\<dots> \<longleftrightarrow> (\<exists>k s'. sp_holder (plan_of r) k = Some vid \<and> js_get (vp_shifts r) k = Some s' \<and>
       vs_festivalId s' = fest \<and> vs_date s' = vs_date s \<and> vs_period s' = vs_period s)"
    unfolding holder_active [OF assms] by blast
  finally show ?thesis
    by (auto simp: plan_of_def slot_of_def when_of_def)
qed

definition fresh_assignment_ids :: "book_shifts_input \<Rightarrow> string list \<Rightarrow> volunteer_repo \<Rightarrow> bool" where
  "fresh_assignment_ids i uuids r \<longleftrightarrow>
     length uuids = length (bk_shiftIds i) \<and> distinct uuids \<and>
     list_all (\<lambda>u. js_get (vp_assignments r) u = None) uuids"

lemma may_book_conflicts:
  assumes inv: "volunteer_inv r"
    and member: "sp_members (plan_of r) (bk_volunteerId i) = Some (bk_organizationId i, bk_festivalId i)"
  shows "booking_conflicts i r = [] \<longleftrightarrow> plan_may_book i (plan_of r)"
proof -
  let ?org = "bk_organizationId i" and ?fest = "bk_festivalId i" and ?vid = "bk_volunteerId i" and ?ids = "bk_shiftIds i"
  from member obtain v where v: "js_get (vp_volunteers r) ?vid = Some v" "vo_organizationId v = ?org" "vo_festivalId v = ?fest"
    by (auto simp: plan_of_def)
  show ?thesis
  proof (cases "\<forall>sid \<in> set ?ids. \<exists>s. js_get (vp_shifts r) sid = Some s \<and> vs_organizationId s = ?org \<and> vs_festivalId s = ?fest")
    case False
    then have "filter (missing_shift ?org ?fest r) ?ids \<noteq> []"
      by (auto simp: filter_empty_conv missing_shift_def split: option.splits)
    then have "booking_conflicts i r \<noteq> []" using v by (simp add: booking_conflicts_def)
    moreover from False have "\<not> plan_may_book i (plan_of r)"
      by (auto simp: plan_may_book_def plan_of_def slot_of_def)
    ultimately show ?thesis by simp
  next
    case True
    define sh where "sh sid = the (js_get (vp_shifts r) sid)" for sid
    have get: "js_get (vp_shifts r) sid = Some (sh sid)" "vs_organizationId (sh sid) = ?org" "vs_festivalId (sh sid) = ?fest"
      if "sid \<in> set ?ids" for sid using True that by (auto simp: sh_def)
    have "filter (missing_shift ?org ?fest r) ?ids = []"
      using get by (simp add: filter_empty_conv missing_shift_def)
    moreover have "List.map_filter (js_get (vp_shifts r)) ?ids = map sh ?ids"
      using get(1) by (induction ?ids rule: rev_induct) (auto simp: map_filter_def intro!: map_cong)
    ultimately have "booking_conflicts i r = [] \<longleftrightarrow>
        (\<forall>sid \<in> set ?ids. sp_holder (plan_of r) sid = None) \<and>
        distinct (map (period_key \<circ> sh) ?ids) \<and>
        (\<forall>sid \<in> set ?ids. period_key (sh sid) \<notin> set (existing_periods ?fest ?vid r))"
      using v by (auto simp: booking_conflicts_def period_conflicts_Nil filter_empty_conv holder_None [OF inv])
    also have "distinct (map (period_key \<circ> sh) ?ids) \<longleftrightarrow>
        distinct (map (\<lambda>sid. map_option when_of (sp_slots (plan_of r) sid)) ?ids)"
      unfolding distinct_map using get
      by (auto simp: inj_on_def plan_of_def slot_of_def when_of_def)
    also have "(\<forall>sid \<in> set ?ids. period_key (sh sid) \<notin> set (existing_periods ?fest ?vid r)) \<longleftrightarrow>
        (\<forall>sid \<in> set ?ids. \<forall>k slot. sp_holder (plan_of r) k = Some ?vid \<longrightarrow> sp_slots (plan_of r) k = Some slot \<longrightarrow>
           when_of slot \<noteq> (?fest, vs_date (sh sid), vs_period (sh sid)))"
      unfolding existing_periods_iff [OF inv] by blast
    finally have iff: "booking_conflicts i r = [] \<longleftrightarrow>
        (\<forall>sid \<in> set ?ids. sp_holder (plan_of r) sid = None) \<and>
        distinct (map (\<lambda>sid. map_option when_of (sp_slots (plan_of r) sid)) ?ids) \<and>
        (\<forall>sid \<in> set ?ids. \<forall>k slot. sp_holder (plan_of r) k = Some ?vid \<longrightarrow> sp_slots (plan_of r) k = Some slot \<longrightarrow>
           when_of slot \<noteq> (?fest, vs_date (sh sid), vs_period (sh sid)))" .
    have slots: "sp_slots (plan_of r) sid = Some (?org, ?fest, role, date, period) \<longleftrightarrow>
        role = vs_roleId (sh sid) \<and> date = vs_date (sh sid) \<and> period = vs_period (sh sid)"
      if "sid \<in> set ?ids" for sid role date period
      using get [OF that] by (auto simp: plan_of_def slot_of_def)
    show ?thesis unfolding iff plan_may_book_def member using slots by auto
  qed
qed

lemma book_shifts_cases:
  assumes "volunteer_inv r"
  shows "book_shifts i uuids t r =
    (if plan_may_book i (plan_of r)
     then let as = map (new_assignment i t) (zip (bk_shiftIds i) uuids)
          in (Booked as, r\<lparr>vp_assignments := store_assignments as (vp_assignments r)\<rparr>)
     else (BookConflict (booking_conflicts i r), r))"
proof (cases "sp_members (plan_of r) (bk_volunteerId i) = Some (bk_organizationId i, bk_festivalId i)")
  case True
  with may_book_conflicts [OF assms True] show ?thesis
    by (auto simp: book_shifts_def plan_of_def Let_def)
next
  case False
  then have "\<not> plan_may_book i (plan_of r)" by (simp add: plan_may_book_def)
  with False show ?thesis by (auto simp: book_shifts_def plan_of_def Let_def split: option.splits)
qed

lemma new_assignment_fields [simp]:
  "va_id (new_assignment i t p) = snd p" "va_shiftId (new_assignment i t p) = fst p"
  "va_volunteerId (new_assignment i t p) = bk_volunteerId i"
  "va_organizationId (new_assignment i t p) = bk_organizationId i"
  "va_status (new_assignment i t p) = AsActive"
  by (simp_all add: new_assignment_def case_prod_unfold)

text \<open>The stored assignments after a booking are the old ones and one per requested shift.\<close>

lemma booked_assignments_get:
  assumes "fresh_assignment_ids i uuids r"
  shows "js_get (store_assignments (map (new_assignment i t) (zip (bk_shiftIds i) uuids)) (vp_assignments r)) k = Some a
    \<longleftrightarrow> js_get (vp_assignments r) k = Some a \<or>
        (\<exists>sid. (sid, k) \<in> set (zip (bk_shiftIds i) uuids) \<and> a = new_assignment i t (sid, k))"
proof -
  let ?new = "map (new_assignment i t) (zip (bk_shiftIds i) uuids)"
  have ids: "map va_id ?new = uuids"
    using assms by (simp add: fresh_assignment_ids_def new_assignment_def comp_def case_prod_unfold)
  have d: "distinct (map va_id ?new)" unfolding ids using assms by (simp add: fresh_assignment_ids_def)
  have inj: "inj_on va_id (set ?new)" using d unfolding distinct_map by blast
  have old: "js_get (vp_assignments r) (va_id b) = None" if "b \<in> set ?new" for b
  proof -
    from that have "va_id b \<in> set (map va_id ?new)" by (simp only: set_map) blast
    with assms show ?thesis unfolding ids by (auto simp: fresh_assignment_ids_def list_all_iff)
  qed
  have new: "a \<in> set ?new \<and> va_id a = k \<longleftrightarrow>
      (\<exists>sid. (sid, k) \<in> set (zip (bk_shiftIds i) uuids) \<and> a = new_assignment i t (sid, k))"
    by (auto simp: new_assignment_def)
  show ?thesis
  proof (cases "find (\<lambda>b. va_id b = k) ?new")
    case None
    then have "\<not> (a \<in> set ?new \<and> va_id a = k)" by (auto simp only: find_None_all)
    with None show ?thesis unfolding new [symmetric] store_assignments_get [OF d] by auto
  next
    case (Some b)
    from find_Some_iff_in [OF Some] have b: "b \<in> set ?new" "va_id b = k" by blast+
    with inj have "a \<in> set ?new \<and> va_id a = k \<longleftrightarrow> b = a" by (auto dest: inj_onD)
    with Some old [OF b(1)] b(2) show ?thesis unfolding new [symmetric] store_assignments_get [OF d] by simp
  qed
qed

lemma zip_fst_unique: "distinct xs \<Longrightarrow> (x, y) \<in> set (zip xs ys) \<Longrightarrow> (x, z) \<in> set (zip xs ys) \<Longrightarrow> y = z"
  by (auto simp: in_set_zip nth_eq_iff_index_eq)

lemma zip_member: "length ys = length xs \<Longrightarrow> (\<exists>y. (x, y) \<in> set (zip xs ys)) \<longleftrightarrow> x \<in> set xs"
  by (metis in_set_impl_in_set_zip1 set_zip_leftD)

lemma plan_may_book_distinct: "plan_may_book i p \<Longrightarrow> distinct (bk_shiftIds i)"
  by (simp add: plan_may_book_def distinct_map)

lemma book_shifts_inv:
  assumes inv: "volunteer_inv r" and fresh: "fresh_assignment_ids i uuids r"
  shows "volunteer_inv (snd (book_shifts i uuids t r))"
proof (cases "plan_may_book i (plan_of r)")
  case True
  let ?as = "store_assignments (map (new_assignment i t) (zip (bk_shiftIds i) uuids)) (vp_assignments r)"
  note get = booked_assignments_get [OF fresh, of t]
  have free: "\<not> (js_get (vp_assignments r) k = Some a \<and> va_status a = AsActive \<and> va_shiftId a = sid)"
    if "sid \<in> set (bk_shiftIds i)" for k a sid
    using True that holder_iff [OF inv, of sid] unfolding plan_may_book_def by (metis option.distinct(1))
  have member: "sp_members (plan_of r) (bk_volunteerId i) = Some (bk_organizationId i, bk_festivalId i)"
    using True by (simp add: plan_may_book_def)
  have shift: "\<exists>s. js_get (vp_shifts r) sid = Some s \<and> vs_organizationId s = bk_organizationId i \<and>
      vs_festivalId s = bk_festivalId i" if "sid \<in> set (bk_shiftIds i)" for sid
    using True that by (auto simp: plan_may_book_def plan_of_def slot_of_def)
  have "booked_once (r\<lparr>vp_assignments := ?as\<rparr>)"
    unfolding booked_once_def
  proof (intro allI impI)
    fix k k' a b
    assume h: "js_get (vp_assignments (r\<lparr>vp_assignments := ?as\<rparr>)) k = Some a"
      "js_get (vp_assignments (r\<lparr>vp_assignments := ?as\<rparr>)) k' = Some b"
      "va_status a = AsActive" "va_status b = AsActive" "va_shiftId a = va_shiftId b"
    have new: "va_shiftId (new_assignment i t (sid, u)) = sid" for sid u by (simp add: new_assignment_def)
    from h(1,2) consider "js_get (vp_assignments r) k = Some a" "js_get (vp_assignments r) k' = Some b"
      | sid where "(sid, k) \<in> set (zip (bk_shiftIds i) uuids)" "va_shiftId a = sid" "js_get (vp_assignments r) k' = Some b"
      | sid where "(sid, k') \<in> set (zip (bk_shiftIds i) uuids)" "va_shiftId b = sid" "js_get (vp_assignments r) k = Some a"
      | sid sid' where "(sid, k) \<in> set (zip (bk_shiftIds i) uuids)" "va_shiftId a = sid"
          "(sid', k') \<in> set (zip (bk_shiftIds i) uuids)" "va_shiftId b = sid'"
      by (auto simp: get new)
    then show "k = k'"
    proof cases
      case 1 then show ?thesis using inv h(3-) unfolding volunteer_inv_def booked_once_def by blast
    next
      case 2 then show ?thesis using free [of "va_shiftId b" k' b] h by (auto dest: set_zip_leftD)
    next
      case 3 then show ?thesis using free [of "va_shiftId a" k a] h by (auto dest: set_zip_leftD)
    next
      case 4 then show ?thesis using h(5) zip_fst_unique [OF plan_may_book_distinct [OF True]] by metis
    qed
  qed
  moreover have "assignment_refs (r\<lparr>vp_assignments := ?as\<rparr>)"
    unfolding assignment_refs_def
  proof (intro allI impI)
    fix k a assume "js_get (vp_assignments (r\<lparr>vp_assignments := ?as\<rparr>)) k = Some a"
    then consider "js_get (vp_assignments r) k = Some a"
      | sid where "(sid, k) \<in> set (zip (bk_shiftIds i) uuids)" "a = new_assignment i t (sid, k)" by (auto simp: get)
    then show "\<exists>s v. js_get (vp_shifts (r\<lparr>vp_assignments := ?as\<rparr>)) (va_shiftId a) = Some s \<and>
        js_get (vp_volunteers (r\<lparr>vp_assignments := ?as\<rparr>)) (va_volunteerId a) = Some v \<and>
        vs_organizationId s = va_organizationId a \<and> vo_organizationId v = va_organizationId a \<and>
        vo_festivalId v = vs_festivalId s"
    proof cases
      case 1 then show ?thesis using inv unfolding volunteer_inv_def assignment_refs_def by simp
    next
      case 2 then show ?thesis using shift [of sid] member set_zip_leftD [OF 2(1)]
        by (auto simp: new_assignment_def plan_of_def)
    qed
  qed
  moreover have "stored_by_id va_id ?as"
    using inv by (auto simp: stored_by_id_def volunteer_inv_def get)
  ultimately have "volunteer_inv (r\<lparr>vp_assignments := ?as\<rparr>)" using inv by (simp add: volunteer_inv_def)
  with True show ?thesis by (simp add: book_shifts_cases [OF inv] Let_def)
qed (simp add: book_shifts_cases [OF inv] inv)

lemma plan_simps [simp]:
  "sp_members (plan_of (r\<lparr>vp_assignments := x\<rparr>)) = sp_members (plan_of r)"
  "sp_slots (plan_of (r\<lparr>vp_assignments := x\<rparr>)) = sp_slots (plan_of r)"
  "sp_members (plan_book i p) = sp_members p" "sp_slots (plan_book i p) = sp_slots p"
  "sp_members (plan_release sid p) = sp_members p" "sp_slots (plan_release sid p) = sp_slots p"
  by (simp_all add: plan_of_def plan_book_def plan_release_def)

lemma plan_eqI:
  "sp_members p = sp_members q \<Longrightarrow> sp_slots p = sp_slots q \<Longrightarrow> sp_holder p = sp_holder q \<Longrightarrow> p = (q :: shift_plan)"
  by simp

lemma book_shifts_plan:
  assumes inv: "volunteer_inv r" and fresh: "fresh_assignment_ids i uuids r" and may: "plan_may_book i (plan_of r)"
  shows "plan_of (snd (book_shifts i uuids t r)) = plan_book i (plan_of r)"
proof (rule plan_eqI)
  note inv' = book_shifts_inv [OF inv fresh, of t]
  have as: "snd (book_shifts i uuids t r) = r\<lparr>vp_assignments :=
      store_assignments (map (new_assignment i t) (zip (bk_shiftIds i) uuids)) (vp_assignments r)\<rparr>"
    using may by (simp add: book_shifts_cases [OF inv] Let_def)
  show "sp_members (plan_of (snd (book_shifts i uuids t r))) = sp_members (plan_book i (plan_of r))"
    "sp_slots (plan_of (snd (book_shifts i uuids t r))) = sp_slots (plan_book i (plan_of r))"
    unfolding as by simp_all
  have len: "length uuids = length (bk_shiftIds i)" using fresh by (simp add: fresh_assignment_ids_def)
  show "sp_holder (plan_of (snd (book_shifts i uuids t r))) = sp_holder (plan_book i (plan_of r))"
  proof (rule ext, rule holder_eqI [OF inv'])
    fix sid vid
    have "(\<exists>k a. js_get (vp_assignments (snd (book_shifts i uuids t r))) k = Some a \<and> va_status a = AsActive \<and>
        va_shiftId a = sid \<and> va_volunteerId a = vid) \<longleftrightarrow>
      sp_holder (plan_of r) sid = Some vid \<or> (sid \<in> set (bk_shiftIds i) \<and> vid = bk_volunteerId i)"
      unfolding as holder_iff [OF inv] zip_member [OF len, symmetric]
      by (auto simp: booked_assignments_get [OF fresh]) (metis fst_conv new_assignment_fields(2,3,5))
    then show "(\<exists>k a. js_get (vp_assignments (snd (book_shifts i uuids t r))) k = Some a \<and> va_status a = AsActive \<and>
        va_shiftId a = sid \<and> va_volunteerId a = vid) \<longleftrightarrow> sp_holder (plan_book i (plan_of r)) sid = Some vid"
      using may by (auto simp: plan_book_def plan_may_book_def)
  qed
qed

lemma holder_has_shift:
  assumes "volunteer_inv r" "sp_holder (plan_of r) sid = Some vid"
  shows "\<exists>slot. sp_slots (plan_of r) sid = Some slot"
proof -
  from assms obtain k a where "js_get (vp_assignments r) k = Some a" "va_shiftId a = sid"
    by (auto simp: holder_iff)
  with assms(1) show ?thesis
    unfolding volunteer_inv_def assignment_refs_def by (fastforce simp: plan_of_def)
qed

lemma cancel_assignment_plan:
  assumes inv: "volunteer_inv r"
  shows "plan_of (snd (cancel_assignment org fest aid t r)) =
    (case fst (cancel_assignment org fest aid t r) of
       None \<Rightarrow> plan_of r | Some a \<Rightarrow> plan_release (va_shiftId a) (plan_of r))"
proof (cases "fst (cancel_assignment org fest aid t r)")
  case None
  then show ?thesis by (auto simp: cancel_assignment_def Let_def split: option.splits if_splits)
next
  case (Some b)
  let ?f = "\<lambda>a. a\<lparr>va_status := AsCancelled, va_cancelledAtIso := Some t\<rparr>"
  from Some obtain a where a: "js_get (vp_assignments r) aid = Some a" "va_status a = AsActive" "b = ?f a"
    and r': "snd (cancel_assignment org fest aid t r) = r\<lparr>vp_assignments := js_modify aid ?f (vp_assignments r)\<rparr>"
    by (auto simp: cancel_assignment_def Let_def split: option.splits if_splits)
  note inv' = cancel_assignment_inv [OF inv, of org fest aid t]
  have get': "js_get (vp_assignments (snd (cancel_assignment org fest aid t r))) k = Some c \<and> va_status c = AsActive \<longleftrightarrow>
      js_get (vp_assignments r) k = Some c \<and> va_status c = AsActive \<and> k \<noteq> aid" for k c
    unfolding r' using a(1) by auto
  have get: "js_get (vp_assignments (snd (cancel_assignment org fest aid t r))) k = Some c \<and> va_status c = AsActive \<and> P \<longleftrightarrow>
      js_get (vp_assignments r) k = Some c \<and> va_status c = AsActive \<and> k \<noteq> aid \<and> P" for k c P
    using get' [of k c] by blast
  have other: "k = aid" if "js_get (vp_assignments r) k = Some c" "va_status c = AsActive" "va_shiftId c = va_shiftId a" for k c
    using inv that a unfolding volunteer_inv_def booked_once_def by blast
  have "sp_holder (plan_of (snd (cancel_assignment org fest aid t r))) sid
      = sp_holder (plan_release (va_shiftId a) (plan_of r)) sid" for sid
  proof (rule holder_eqI [OF inv'])
    fix vid
    show "(\<exists>k c. js_get (vp_assignments (snd (cancel_assignment org fest aid t r))) k = Some c \<and>
        va_status c = AsActive \<and> va_shiftId c = sid \<and> va_volunteerId c = vid) \<longleftrightarrow>
      sp_holder (plan_release (va_shiftId a) (plan_of r)) sid = Some vid"
    proof (cases "sid = va_shiftId a")
      case True
      then have "\<not> (\<exists>k c. js_get (vp_assignments (snd (cancel_assignment org fest aid t r))) k = Some c \<and>
          va_status c = AsActive \<and> va_shiftId c = sid \<and> va_volunteerId c = vid)"
        unfolding get using other by blast
      with True show ?thesis by (simp add: plan_release_def)
    next
      case False
      then have "k \<noteq> aid" if "js_get (vp_assignments r) k = Some c" "va_shiftId c = sid" for k c
        using that a(1) by auto
      with False show ?thesis unfolding get plan_release_def by (simp add: holder_iff [OF inv]) blast
    qed
  qed
  then have "plan_of (snd (cancel_assignment org fest aid t r)) = plan_release (va_shiftId a) (plan_of r)"
    by (intro plan_eqI) (simp_all add: r' fun_eq_iff)
  with Some a(3) show ?thesis by simp
qed

lemma drop_shifts_plan:
  assumes inv: "volunteer_inv r" "volunteer_inv r'"
    and "vp_volunteers r' = vp_volunteers r"
    and shifts: "\<And>k. js_get (vp_shifts r') k = (if k \<in> gone then None else js_get (vp_shifts r) k)"
    and as: "\<And>k a. js_get (vp_assignments r') k = Some a \<longleftrightarrow> js_get (vp_assignments r) k = Some a \<and> va_shiftId a \<notin> gone"
  shows "plan_of r' = plan_drop gone (plan_of r)"
proof (rule plan_eqI)
  show "sp_members (plan_of r') = sp_members (plan_drop gone (plan_of r))"
    by (simp add: plan_of_def plan_drop_def assms(3))
  show "sp_slots (plan_of r') = sp_slots (plan_drop gone (plan_of r))"
    by (auto simp: plan_of_def plan_drop_def shifts restrict_map_def)
  show "sp_holder (plan_of r') = sp_holder (plan_drop gone (plan_of r))"
    by (rule ext, rule holder_eqI [OF inv(2)])
      (auto simp: as plan_drop_def restrict_map_def holder_iff [OF inv(1)])
qed

lemma delete_shift_plan:
  assumes inv: "volunteer_inv r"
  shows "plan_of (snd (delete_shift org fest rid sid r)) =
    (if fst (delete_shift org fest rid sid r) then plan_drop {sid} (plan_of r) else plan_of r)"
proof (cases "find_shift org fest rid sid r")
  case (Some s)
  have st: "stored_by_id va_id (vp_assignments r)" using inv by (simp add: volunteer_inv_def)
  have "plan_of (snd (delete_shift org fest rid sid r)) = plan_drop {sid} (plan_of r)"
    by (rule drop_shifts_plan [OF inv delete_shift_inv [OF inv]])
      (auto simp: delete_shift_def Some values_by_id [OF st])
  then show ?thesis by (simp add: delete_shift_def Some)
qed (simp add: delete_shift_def)

definition shifts_of_role :: "string \<Rightarrow> shift_plan \<Rightarrow> string set" where
  "shifts_of_role rid p = {sid. \<exists>org fest date period. sp_slots p sid = Some (org, fest, rid, date, period)}"

lemma delete_role_plan:
  assumes inv: "volunteer_inv r"
  shows "plan_of (snd (delete_role org fest rid r)) =
    (if fst (delete_role org fest rid r) then plan_drop (shifts_of_role rid (plan_of r)) (plan_of r) else plan_of r)"
proof (cases "get_role org fest rid r")
  case (Some role)
  have st: "stored_by_id va_id (vp_assignments r)" "stored_by_id vs_id (vp_shifts r)"
    using inv by (simp_all add: volunteer_inv_def)
  have gone: "sid \<in> shifts_of_role rid (plan_of r) \<longleftrightarrow> (\<exists>s. js_get (vp_shifts r) sid = Some s \<and> vs_roleId s = rid)" for sid
    by (auto simp: shifts_of_role_def plan_of_def slot_of_def)
  have "plan_of (snd (delete_role org fest rid r)) = plan_drop (shifts_of_role rid (plan_of r)) (plan_of r)"
    by (rule drop_shifts_plan [OF inv delete_role_inv [OF inv]])
      (auto simp: delete_role_def Some values_by_id [OF st(1)] values_by_id [OF st(2)] gone)
  then show ?thesis by (simp add: delete_role_def Some)
qed (simp add: delete_role_def)

lemma role_operations_plan:
  "plan_of (snd (create_role ri uuid t r)) = plan_of r" "plan_of (snd (update_role ui r)) = plan_of r"
  by (simp_all add: create_role_def update_role_def plan_of_def active_assignments_def Let_def split: option.splits)

lemma upsert_volunteer_plan:
  "sp_slots (plan_of (snd (upsert_volunteer i uuid t r))) = sp_slots (plan_of r)"
  "sp_holder (plan_of (snd (upsert_volunteer i uuid t r))) = sp_holder (plan_of r)"
  by (simp_all add: upsert_volunteer_def plan_of_def active_assignments_def Let_def split: option.splits)

lemma create_shift_plan:
  "sp_holder (plan_of (snd (create_shift i uuid t r))) = sp_holder (plan_of r)"
  "k \<noteq> uuid \<Longrightarrow> sp_slots (plan_of (snd (create_shift i uuid t r))) k = sp_slots (plan_of r) k"
  by (simp_all add: create_shift_def plan_of_def active_assignments_def Let_def split: option.splits)

text \<open>An update that leaves the slot alone, or moves a shift that nobody holds.\<close>

definition leaves_bookings :: "update_shift_input \<Rightarrow> volunteer_repo \<Rightarrow> bool" where
  "leaves_bookings i r \<longleftrightarrow> sp_holder (plan_of r) (us_shiftId i) = None \<or>
     (case js_get (vp_shifts r) (us_shiftId i) of
        None \<Rightarrow> True | Some s \<Rightarrow> vs_date s = cs_date i \<and> vs_period s = cs_period i)"

lemma update_shift_plan:
  assumes "volunteer_inv r"
  shows "sp_holder (plan_of (snd (update_shift i r))) = sp_holder (plan_of r)"
    and "leaves_bookings i r \<Longrightarrow> sp_holder (plan_of r) k = Some v \<Longrightarrow>
       map_option when_of (sp_slots (plan_of (snd (update_shift i r))) k) = map_option when_of (sp_slots (plan_of r) k)"
proof -
  show "sp_holder (plan_of (snd (update_shift i r))) = sp_holder (plan_of r)"
    by (simp add: update_shift_def plan_of_def active_assignments_def Let_def split: option.splits)
  assume l: "leaves_bookings i r" "sp_holder (plan_of r) k = Some v"
  show "map_option when_of (sp_slots (plan_of (snd (update_shift i r))) k) = map_option when_of (sp_slots (plan_of r) k)"
  proof (cases "find_shift (cs_organizationId i) (cs_festivalId i) (cs_roleId i) (us_shiftId i) r")
    case (Some s)
    then have shift: "js_get (vp_shifts r) (us_shiftId i) = Some s" by (simp add: find_shift_Some)
    with assms have "vs_id s = us_shiftId i" by (auto simp: volunteer_inv_def stored_by_id_get)
    with Some shift l show ?thesis
      by (auto simp: update_shift_def plan_of_def slot_of_def when_of_def leaves_bookings_def Let_def)
  qed (simp add: update_shift_def)
qed

section \<open>The contract of booking\<close>

text \<open>
  What the routes rely on: a booking takes exactly the requested shifts, all of which were
  free, or it reports a conflict and changes nothing.
\<close>

locale booking_store =
  fixes inv :: "'r \<Rightarrow> bool"
    and holder :: "'r \<Rightarrow> string \<Rightarrow> string option"
    and fresh :: "book_shifts_input \<Rightarrow> string list \<Rightarrow> 'r \<Rightarrow> bool"
    and book :: "book_shifts_input \<Rightarrow> string list \<Rightarrow> string \<Rightarrow> 'r \<Rightarrow> book_outcome \<times> 'r"
  assumes book_inv: "inv r \<Longrightarrow> fresh i u r \<Longrightarrow> inv (snd (book i u t r))"
    and booked_holder: "inv r \<Longrightarrow> fresh i u r \<Longrightarrow> book i u t r = (Booked as, r') \<Longrightarrow>
      holder r' sid = (if sid \<in> set (bk_shiftIds i) then Some (bk_volunteerId i) else holder r sid)"
    and booked_free: "inv r \<Longrightarrow> book i u t r = (Booked as, r') \<Longrightarrow> sid \<in> set (bk_shiftIds i) \<Longrightarrow> holder r sid = None"
    and conflict_unchanged: "inv r \<Longrightarrow> book i u t r = (BookConflict c, r') \<Longrightarrow> r' = r"
begin

lemma held_shift_refused:
  assumes "inv r" "holder r sid = Some v" "sid \<in> set (bk_shiftIds i)"
  shows "\<exists>c. book i u t r = (BookConflict c, r)"
  using assms booked_free conflict_unchanged
  by (cases "book i u t r"; cases "fst (book i u t r)") fastforce+

lemma booked_then_refused:
  assumes "inv r" "fresh i u r" "book i u t r = (Booked as, r')"
    and "sid \<in> set (bk_shiftIds i)" "sid \<in> set (bk_shiftIds j)"
  shows "\<exists>c. book j u' t' r' = (BookConflict c, r')"
proof (rule held_shift_refused)
  show "inv r'" using book_inv [OF assms(1,2), of t] assms(3) by simp
  show "holder r' sid = Some (bk_volunteerId i)" using booked_holder [OF assms(1-3)] assms(4) by simp
qed (fact assms(5))

lemma holder_kept:
  assumes "inv r" "fresh i u r" "holder r sid = Some v"
  shows "holder (snd (book i u t r)) sid = Some v"
proof (cases "book i u t r")
  case (Pair res r')
  show ?thesis
  proof (cases res)
    case (Booked as)
    with Pair assms booked_holder [OF assms(1,2)] booked_free [OF assms(1)] show ?thesis by fastforce
  next
    case (BookConflict c)
    with Pair conflict_unchanged [OF assms(1)] assms(3) show ?thesis by fastforce
  qed
qed

end

interpretation shifts: booking_store volunteer_inv "\<lambda>r. sp_holder (plan_of r)" fresh_assignment_ids book_shifts
proof unfold_locales
  fix r i u t as r' sid
  assume h: "volunteer_inv r" "fresh_assignment_ids i u r" "book_shifts i u t r = (Booked as, r')"
  then have "plan_may_book i (plan_of r)" by (auto simp: book_shifts_cases split: if_splits)
  from book_shifts_plan [OF h(1,2) this, of t] h(3) have "plan_of r' = plan_book i (plan_of r)" by simp
  then show "sp_holder (plan_of r') sid = (if sid \<in> set (bk_shiftIds i) then Some (bk_volunteerId i) else sp_holder (plan_of r) sid)"
    by (simp add: plan_book_def)
next
  fix r i u t as r' sid
  assume h: "volunteer_inv r" "book_shifts i u t r = (Booked as, r')" "sid \<in> set (bk_shiftIds i)"
  then have "plan_may_book i (plan_of r)" by (auto simp: book_shifts_cases split: if_splits)
  with h(3) show "sp_holder (plan_of r) sid = None" by (simp add: plan_may_book_def)
next
  fix r i u t c r'
  assume "volunteer_inv r" "book_shifts i u t r = (BookConflict c, r')"
  then show "r' = r" by (auto simp: book_shifts_cases Let_def split: if_splits)
qed (rule book_shifts_inv)

section \<open>Reachable repositories\<close>

text \<open>
  Any sequence of operations, with unused UUIDs.  When \<open>moves\<close> is false, no update changes the
  slot of a shift that somebody holds.
\<close>

inductive volunteer_reachable :: "bool \<Rightarrow> volunteer_repo \<Rightarrow> bool" for moves :: bool where
  vr_empty: "volunteer_reachable moves empty_volunteer_repo"
| vr_upsert: "volunteer_reachable moves r \<Longrightarrow> js_get (vp_volunteers r) uuid = None \<Longrightarrow>
    volunteer_reachable moves (snd (upsert_volunteer vi uuid t r))"
| vr_create_role: "volunteer_reachable moves r \<Longrightarrow> js_get (vp_roles r) uuid = None \<Longrightarrow>
    volunteer_reachable moves (snd (create_role ri uuid t r))"
| vr_update_role: "volunteer_reachable moves r \<Longrightarrow> volunteer_reachable moves (snd (update_role ui r))"
| vr_delete_role: "volunteer_reachable moves r \<Longrightarrow> volunteer_reachable moves (snd (delete_role org fest rid r))"
| vr_create_shift: "volunteer_reachable moves r \<Longrightarrow> js_get (vp_shifts r) uuid = None \<Longrightarrow>
    volunteer_reachable moves (snd (create_shift si uuid t r))"
| vr_update_shift: "volunteer_reachable moves r \<Longrightarrow> moves \<or> leaves_bookings usi r \<Longrightarrow>
    volunteer_reachable moves (snd (update_shift usi r))"
| vr_delete_shift: "volunteer_reachable moves r \<Longrightarrow>
    volunteer_reachable moves (snd (delete_shift org fest rid sid r))"
| vr_book: "volunteer_reachable moves r \<Longrightarrow> fresh_assignment_ids bi uuids r \<Longrightarrow>
    volunteer_reachable moves (snd (book_shifts bi uuids t r))"
| vr_cancel: "volunteer_reachable moves r \<Longrightarrow>
    volunteer_reachable moves (snd (cancel_assignment org fest aid t r))"

lemma volunteer_reachable_inv: "volunteer_reachable moves r \<Longrightarrow> volunteer_inv r"
  by (induction rule: volunteer_reachable.induct)
    (simp_all add: volunteer_inv_empty upsert_volunteer_inv create_role_inv update_role_inv delete_role_inv
      create_shift_inv update_shift_inv delete_shift_inv book_shifts_inv cancel_assignment_inv)

lemma no_double_booking_slots:
  assumes "no_double_booking p" "sp_holder q = sp_holder p"
    and "\<And>k v. sp_holder p k = Some v \<Longrightarrow> map_option when_of (sp_slots q k) = map_option when_of (sp_slots p k)"
  shows "no_double_booking q"
  unfolding no_double_booking_def
proof (intro allI impI)
  fix k k' v s s'
  assume h: "sp_holder q k = Some v" "sp_holder q k' = Some v" "sp_slots q k = Some s" "sp_slots q k' = Some s'"
    "when_of s = when_of s'"
  then have hp: "sp_holder p k = Some v" "sp_holder p k' = Some v" by (simp_all add: assms(2))
  obtain u where u: "sp_slots p k = Some u" "when_of u = when_of s"
    using assms(3) [OF hp(1)] h(3) by (cases "sp_slots p k") simp_all
  obtain u' where "sp_slots p k' = Some u'" "when_of u' = when_of s'"
    using assms(3) [OF hp(2)] h(4) by (cases "sp_slots p k'") simp_all
  with u h(5) have "sp_slots p k = Some u" "sp_slots p k' = Some u'" "when_of u = when_of u'" by simp_all
  with no_double_bookingD [OF assms(1) hp] show "k = k'" by blast
qed

lemma no_double_booking_step:
  assumes "volunteer_reachable False r" shows "no_double_booking (plan_of r)"
  using assms
proof (induction rule: volunteer_reachable.induct)
  case vr_empty
  show ?case by (simp add: no_double_booking_def plan_of_def empty_volunteer_repo_def active_assignments_def)
next
  case (vr_upsert r uuid vi t)
  show ?case by (rule no_double_booking_slots [OF vr_upsert.IH]) (simp_all add: upsert_volunteer_plan)
next
  case (vr_create_shift r uuid si t)
  have inv: "volunteer_inv r" using vr_create_shift.hyps(1) by (rule volunteer_reachable_inv)
  show ?case
  proof (rule no_double_booking_slots [OF vr_create_shift.IH])
    fix k v assume "sp_holder (plan_of r) k = Some v"
    with inv vr_create_shift.hyps(2) have "k \<noteq> uuid"
      using holder_has_shift [OF inv] by (fastforce simp: plan_of_def)
    then show "map_option when_of (sp_slots (plan_of (snd (create_shift si uuid t r))) k) =
        map_option when_of (sp_slots (plan_of r) k)" by (simp add: create_shift_plan)
  qed (simp add: create_shift_plan)
next
  case (vr_update_shift r usi)
  have inv: "volunteer_inv r" using vr_update_shift.hyps(1) by (rule volunteer_reachable_inv)
  show ?case
    by (rule no_double_booking_slots [OF vr_update_shift.IH update_shift_plan(1) [OF inv]])
      (use update_shift_plan(2) [OF inv] vr_update_shift.hyps(2) in blast)
next
  case (vr_book r bi uuids t)
  have inv: "volunteer_inv r" using vr_book.hyps(1) by (rule volunteer_reachable_inv)
  show ?case
  proof (cases "plan_may_book bi (plan_of r)")
    case True
    then show ?thesis
      by (simp add: book_shifts_plan [OF inv vr_book.hyps(2)] plan_book_no_double_booking vr_book.IH)
  qed (simp add: book_shifts_cases [OF inv] vr_book.IH)
qed (simp_all add: role_operations_plan delete_role_plan delete_shift_plan cancel_assignment_plan volunteer_reachable_inv
      plan_drop_no_double_booking plan_release_no_double_booking split: option.splits)

section \<open>Listings\<close>

lemma map_throwing_Inr:
  "(\<And>x. x \<in> set xs \<Longrightarrow> f x = Inr (g x)) \<Longrightarrow> map_throwing f xs = Inr (List.map_filter g xs)"
  by (induction xs) (auto simp: map_filter_simps split: option.splits)

lemma js_get_foldl_set:
  "js_get (foldl (\<lambda>m a. js_set (f a) a m) m xs) k =
     (case find (\<lambda>a. f a = k) (rev xs) of Some a \<Rightarrow> Some a | None \<Rightarrow> js_get m k)"
  by (induction xs rule: rev_induct) auto

lemma booked_onceD:
  "booked_once r \<Longrightarrow> js_get (vp_assignments r) k = Some a \<Longrightarrow> js_get (vp_assignments r) k' = Some b \<Longrightarrow>
     va_status a = AsActive \<Longrightarrow> va_status b = AsActive \<Longrightarrow> va_shiftId a = va_shiftId b \<Longrightarrow> k = k'"
  unfolding booked_once_def by blast

lemma active_unique:
  assumes "volunteer_inv r" "a \<in> set (active_assignments r)" "b \<in> set (active_assignments r)"
    and "va_shiftId a = va_shiftId b"
  shows "a = b"
proof -
  have ab: "js_get (vp_assignments r) (va_id a) = Some a" "va_status a = AsActive"
    "js_get (vp_assignments r) (va_id b) = Some b" "va_status b = AsActive"
    using assms(2,3) unfolding active_assignment_iff [OF assms(1)] by blast+
  from assms(1) have "booked_once r" by (simp add: volunteer_inv_def)
  from booked_onceD [OF this ab(1,3,2,4) assms(4)] have "Some a = Some b" using ab(1,3) by argo
  then show ?thesis by blast
qed

lemma active_by_shift_get:
  assumes inv: "volunteer_inv r" and s: "js_get (vp_shifts r) sid = Some s" "vs_organizationId s = org"
  shows "map_option va_volunteerId (js_get (active_by_shift org r) sid) = sp_holder (plan_of r) sid"
proof (rule option_eqI)
  fix vid
  let ?as = "rev (filter (\<lambda>a. va_organizationId a = org) (active_assignments r))"
  have org: "va_organizationId a = org" if "a \<in> set (active_assignments r)" "va_shiftId a = sid" for a
  proof -
    from that(1) have "js_get (vp_assignments r) (va_id a) = Some a" by (simp add: active_assignment_iff [OF inv])
    with inv obtain s' where "js_get (vp_shifts r) (va_shiftId a) = Some s'" "vs_organizationId s' = va_organizationId a"
      unfolding volunteer_inv_def assignment_refs_def by blast
    with that(2) s show ?thesis by simp
  qed
  have unique: "a = b" if "a \<in> set (active_assignments r)" "b \<in> set (active_assignments r)" "va_shiftId a = sid"
      "va_shiftId b = sid" for a b
    using active_unique [OF inv that(1,2)] that(3,4) by simp
  have get: "js_get (active_by_shift org r) sid = find (\<lambda>a. va_shiftId a = sid) ?as"
    by (simp add: active_by_shift_def js_get_foldl_set split: option.splits)
  show "map_option va_volunteerId (js_get (active_by_shift org r) sid) = Some vid \<longleftrightarrow> sp_holder (plan_of r) sid = Some vid"
    unfolding get holder_active [OF inv]
  proof (cases "find (\<lambda>a. va_shiftId a = sid) ?as")
    case None
    then have "\<not> (\<exists>a. a \<in> set (active_assignments r) \<and> va_shiftId a = sid)" using org by (auto simp: find_None_all)
    with None show "map_option va_volunteerId (find (\<lambda>a. va_shiftId a = sid) ?as) = Some vid \<longleftrightarrow>
        (\<exists>a. a \<in> set (active_assignments r) \<and> va_shiftId a = sid \<and> va_volunteerId a = vid)"
      by (simp only: option.map option.distinct) blast
  next
    case (Some b)
    from find_Some_iff_in [OF Some] have b: "b \<in> set (active_assignments r)" "va_shiftId b = sid" by auto
    with Some unique show "map_option va_volunteerId (find (\<lambda>a. va_shiftId a = sid) ?as) = Some vid \<longleftrightarrow>
        (\<exists>a. a \<in> set (active_assignments r) \<and> va_shiftId a = sid \<and> va_volunteerId a = vid)" by auto
  qed
qed

lemma holder_registered:
  assumes "volunteer_inv r" "sp_holder (plan_of r) sid = Some vid"
  shows "\<exists>v. js_get (vp_volunteers r) vid = Some v \<and> vo_id v = vid"
proof -
  from assms obtain k a where "js_get (vp_assignments r) k = Some a" "va_volunteerId a = vid" by (auto simp: holder_iff)
  with assms(1) obtain v where "js_get (vp_volunteers r) vid = Some v"
    unfolding volunteer_inv_def assignment_refs_def by blast
  with assms(1) show ?thesis by (auto simp: volunteer_inv_def stored_by_id_get)
qed

lemma shift_role_stored:
  assumes "volunteer_inv r" "js_get (vp_shifts r) k = Some s"
  shows "\<exists>role. js_get (vp_roles r) (vs_roleId s) = Some role \<and> vr_id role = vs_roleId s"
  using assms unfolding volunteer_inv_def shift_refs_def stored_by_id_def by metis

section \<open>Properties\<close>

text \<open>
  C16: the repository implements the shift plan.  A booking succeeds exactly when the plan
  allows it: the volunteer is registered in the festival, every requested shift exists there
  and is free, no two of them share a date and period, and none shares it with a shift the
  volunteer already holds.  It then assigns all of them, and otherwise it changes nothing.
  Cancelling frees the shift of the assignment; deleting a shift or a role removes its shifts
  and their bookings.
\<close>
theorem volunteer_repo_implements_plan:
  assumes "volunteer_reachable True r" "fresh_assignment_ids i uuids r"
  shows "(case book_shifts i uuids t r of
       (Booked as, r') \<Rightarrow> plan_may_book i (plan_of r) \<and> map va_shiftId as = bk_shiftIds i \<and>
         plan_of r' = plan_book i (plan_of r)
     | (BookConflict c, r') \<Rightarrow> \<not> plan_may_book i (plan_of r) \<and> r' = r)
   \<and> plan_of (snd (cancel_assignment org fest aid at_iso r)) =
       (case fst (cancel_assignment org fest aid at_iso r) of
          None \<Rightarrow> plan_of r | Some a \<Rightarrow> plan_release (va_shiftId a) (plan_of r))
   \<and> plan_of (snd (delete_shift org fest rid sid r)) =
       (if fst (delete_shift org fest rid sid r) then plan_drop {sid} (plan_of r) else plan_of r)
   \<and> plan_of (snd (delete_role org fest rid r)) =
       (if fst (delete_role org fest rid r) then plan_drop (shifts_of_role rid (plan_of r)) (plan_of r) else plan_of r)"
proof -
  note inv = volunteer_reachable_inv [OF assms(1)]
  have "map va_shiftId (map (new_assignment i t) (zip (bk_shiftIds i) uuids)) = bk_shiftIds i"
    using assms(2) by (simp add: fresh_assignment_ids_def comp_def)
  moreover have "plan_of (snd (book_shifts i uuids t r)) = plan_book i (plan_of r)" if "plan_may_book i (plan_of r)"
    using book_shifts_plan [OF inv assms(2) that] .
  ultimately have "case book_shifts i uuids t r of
       (Booked as, r') \<Rightarrow> plan_may_book i (plan_of r) \<and> map va_shiftId as = bk_shiftIds i \<and>
         plan_of r' = plan_book i (plan_of r)
     | (BookConflict c, r') \<Rightarrow> \<not> plan_may_book i (plan_of r) \<and> r' = r"
    by (cases "plan_may_book i (plan_of r)") (simp_all add: book_shifts_cases [OF inv] Let_def)
  with cancel_assignment_plan [OF inv] delete_shift_plan [OF inv] delete_role_plan [OF inv] show ?thesis by blast
qed

definition demo_volunteer_repo :: volunteer_repo where
  "demo_volunteer_repo =
     (let r = snd (upsert_volunteer \<lparr>uv_organizationId = ''org'', uv_festivalId = ''fest'', uv_firebaseUid = ''u1'',
                uv_accountEmail = ''a@b.c'', uv_name = ''Ann'', uv_phone = ''1''\<rparr> ''ann'' ''t0'' empty_volunteer_repo);
          r = snd (create_role \<lparr>cr_organizationId = ''org'', cr_festivalId = ''fest'', cr_slug = ''desk'',
                cr_displayName = ''Desk'', cr_description = ''Desk'', cr_detailsUrl = None, cr_isRoomProctor = False\<rparr>
                ''desk'' ''t1'' r);
          shift = (\<lambda>d p. \<lparr>cs_organizationId = ''org'', cs_festivalId = ''fest'', cs_roleId = ''desk'', cs_date = d,
                cs_period = p, cs_timeText = None, cs_division = None, cs_adjudicator = None\<rparr>);
          r = snd (create_shift (shift ''2026-05-01'' AM) ''s1'' ''t2'' r);
          r = snd (create_shift (shift ''2026-05-01'' PM) ''s2'' ''t2'' r)
      in snd (create_shift (shift ''2026-05-02'' AM) ''s3'' ''t2'' r))"

definition demo_booking :: "string list \<Rightarrow> book_shifts_input" where
  "demo_booking ids = \<lparr>bk_organizationId = ''org'', bk_festivalId = ''fest'', bk_volunteerId = ''ann'', bk_shiftIds = ids\<rparr>"

definition demo_booked_repo :: volunteer_repo where
  "demo_booked_repo = snd (book_shifts (demo_booking [''s1'', ''s2'']) [''a1'', ''a2''] ''t3'' demo_volunteer_repo)"

lemma demo_volunteer_reachable: "volunteer_reachable moves demo_volunteer_repo"
  unfolding demo_volunteer_repo_def Let_def
  by (intro vr_create_shift vr_create_role vr_upsert vr_empty) code_simp+

lemma demo_booked_reachable: "volunteer_reachable moves demo_booked_repo"
  unfolding demo_booked_repo_def by (intro vr_book demo_volunteer_reachable) code_simp

text \<open>Ann books her two shifts, is refused the first again, and a cancellation frees it.\<close>

theorem volunteer_repo_implements_plan_witness:
  "sp_holder (plan_of demo_booked_repo) ''s2'' = Some ''ann'' \<and>
   (\<exists>c. book_shifts (demo_booking [''s3'', ''s1'']) [''a3'', ''a4''] ''t4'' demo_booked_repo = (BookConflict c, demo_booked_repo)) \<and>
   sp_holder (plan_of (snd (cancel_assignment ''org'' ''fest'' ''a1'' ''t5'' demo_booked_repo))) ''s1'' = None"
proof -
  have fresh: "fresh_assignment_ids (demo_booking [''s1'', ''s2'']) [''a1'', ''a2''] demo_volunteer_repo"
    "fresh_assignment_ids (demo_booking [''s3'', ''s1'']) [''a3'', ''a4''] demo_booked_repo" by code_simp+
  have ok: "\<not> (case fst (book_shifts (demo_booking [''s1'', ''s2'']) [''a1'', ''a2''] ''t3'' demo_volunteer_repo) of
      BookConflict c \<Rightarrow> True | Booked as \<Rightarrow> False)"
    "case fst (book_shifts (demo_booking [''s3'', ''s1'']) [''a3'', ''a4''] ''t4'' demo_booked_repo) of
      BookConflict c \<Rightarrow> True | Booked as \<Rightarrow> False"
    "map_option va_shiftId (fst (cancel_assignment ''org'' ''fest'' ''a1'' ''t5'' demo_booked_repo)) = Some ''s1''"
    by code_simp+
  have "plan_of demo_booked_repo = plan_book (demo_booking [''s1'', ''s2'']) (plan_of demo_volunteer_repo)"
    using conjunct1 [OF volunteer_repo_implements_plan [OF demo_volunteer_reachable fresh(1), of "''t3''"]] ok(1)
    unfolding demo_booked_repo_def by (auto simp del: split_paired_All split: prod.splits book_outcome.splits)
  then have "sp_holder (plan_of demo_booked_repo) ''s2'' = Some ''ann''"
    by (simp add: plan_book_def demo_booking_def)
  moreover have "\<exists>c. book_shifts (demo_booking [''s3'', ''s1'']) [''a3'', ''a4''] ''t4'' demo_booked_repo
      = (BookConflict c, demo_booked_repo)"
    using conjunct1 [OF volunteer_repo_implements_plan [OF demo_booked_reachable fresh(2), of "''t4''"]] ok(2)
    by (auto simp del: split_paired_All split: prod.splits book_outcome.splits)
  moreover have "sp_holder (plan_of (snd (cancel_assignment ''org'' ''fest'' ''a1'' ''t5'' demo_booked_repo))) ''s1'' = None"
    using volunteer_repo_implements_plan [OF demo_booked_reachable fresh(2), where org = "''org''" and fest = "''fest''"
        and aid = "''a1''" and at_iso = "''t5''"] ok(3)
    by (auto simp: plan_release_def split: option.splits)
  ultimately show ?thesis by blast
qed

text \<open>
  C17: nothing is booked twice.  As long as no update moves a shift that somebody holds, two
  active assignments of one shift are the same one, and so are two active assignments of one
  volunteer in one festival, date and period, whatever roles the shifts belong to.
\<close>
theorem volunteer_never_double_booked:
  assumes "volunteer_reachable False r"
    and "js_get (vp_assignments r) k = Some a" "js_get (vp_assignments r) k' = Some b"
    and "va_status a = AsActive" "va_status b = AsActive"
    and "js_get (vp_shifts r) (va_shiftId a) = Some s" "js_get (vp_shifts r) (va_shiftId b) = Some s'"
    and "va_shiftId a = va_shiftId b \<or> va_volunteerId a = va_volunteerId b \<and>
           vs_festivalId s = vs_festivalId s' \<and> vs_date s = vs_date s' \<and> vs_period s = vs_period s'"
  shows "k = k' \<and> a = b"
proof -
  note inv = volunteer_reachable_inv [OF assms(1)]
  have "va_shiftId a = va_shiftId b"
  proof (rule ccontr)
    assume "va_shiftId a \<noteq> va_shiftId b"
    with assms(8) have h: "va_volunteerId a = va_volunteerId b" "vs_festivalId s = vs_festivalId s'"
      "vs_date s = vs_date s'" "vs_period s = vs_period s'" by blast+
    have "sp_holder (plan_of r) (va_shiftId a) = Some (va_volunteerId a)"
      "sp_holder (plan_of r) (va_shiftId b) = Some (va_volunteerId a)"
      unfolding holder_iff [OF inv] using assms(2-5) h(1) by metis+
    moreover have "sp_slots (plan_of r) (va_shiftId a) = Some (slot_of s)"
      "sp_slots (plan_of r) (va_shiftId b) = Some (slot_of s')" using assms(6,7) by (simp_all add: plan_of_def)
    moreover have "when_of (slot_of s) = when_of (slot_of s')" using h by (simp add: slot_of_def when_of_def)
    ultimately show False
      using no_double_bookingD [OF no_double_booking_step [OF assms(1)]] \<open>va_shiftId a \<noteq> va_shiftId b\<close> by blast
  qed
  with inv assms(2-5) have "k = k'" unfolding volunteer_inv_def booked_once_def by blast
  with assms(2,3) show ?thesis by simp
qed

theorem volunteer_never_double_booked_witness:
  "\<exists>a s. js_get (vp_assignments demo_booked_repo) ''a1'' = Some a \<and> js_get (vp_shifts demo_booked_repo) (va_shiftId a) = Some s \<and>
     vs_date s = ''2026-05-01'' \<and> vs_period s = AM \<and>
     (\<forall>k b s'. js_get (vp_assignments demo_booked_repo) k = Some b \<longrightarrow> va_status b = AsActive \<longrightarrow>
        va_volunteerId b = va_volunteerId a \<longrightarrow> js_get (vp_shifts demo_booked_repo) (va_shiftId b) = Some s' \<longrightarrow>
        vs_festivalId s' = vs_festivalId s \<longrightarrow> vs_date s' = vs_date s \<longrightarrow> vs_period s' = vs_period s \<longrightarrow> k = ''a1'')"
proof -
  have facts: "(case js_get (vp_assignments demo_booked_repo) ''a1'' of None \<Rightarrow> False | Some a \<Rightarrow> va_status a = AsActive \<and>
     (case js_get (vp_shifts demo_booked_repo) (va_shiftId a) of None \<Rightarrow> False
      | Some s \<Rightarrow> vs_date s = ''2026-05-01'' \<and> vs_period s = AM))" by code_simp
  then obtain a s where as: "js_get (vp_assignments demo_booked_repo) ''a1'' = Some a" "va_status a = AsActive"
    "js_get (vp_shifts demo_booked_repo) (va_shiftId a) = Some s" "vs_date s = ''2026-05-01''" "vs_period s = AM"
    by (auto split: option.splits)
  have "k = ''a1''" if "js_get (vp_assignments demo_booked_repo) k = Some b" "va_status b = AsActive"
      "va_volunteerId b = va_volunteerId a" "js_get (vp_shifts demo_booked_repo) (va_shiftId b) = Some s'"
      "vs_festivalId s' = vs_festivalId s" "vs_date s' = vs_date s" "vs_period s' = vs_period s" for k b s'
    using volunteer_never_double_booked [OF demo_booked_reachable that(1) as(1) that(2) as(2) that(4) as(3)] that by blast
  with as show ?thesis by blast
qed

text \<open>
  Moving a booked shift can double-book its volunteer.  \<open>updateShift\<close> sets date and period
  without a look at the assignments: Ann, booked for the morning and the afternoon of a day, is
  left with two shifts in one morning when an administrator moves the afternoon one there.
\<close>
theorem moving_a_booked_shift_double_books:
  "\<exists>r i. volunteer_reachable False r \<and> volunteer_reachable True (snd (update_shift i r)) \<and>
     fst (update_shift i r) \<noteq> None \<and> no_double_booking (plan_of r) \<and>
     \<not> no_double_booking (plan_of (snd (update_shift i r)))"
proof -
  let ?i = "\<lparr>cs_organizationId = ''org'', cs_festivalId = ''fest'', cs_roleId = ''desk'', cs_date = ''2026-05-01'',
    cs_period = AM, cs_timeText = None, cs_division = None, cs_adjudicator = None, us_shiftId = ''s2''\<rparr>"
  let ?q = "plan_of (snd (update_shift ?i demo_booked_repo))"
  have "volunteer_reachable True (snd (update_shift ?i demo_booked_repo))"
    by (intro vr_update_shift demo_booked_reachable) simp
  moreover have "fst (update_shift ?i demo_booked_repo) \<noteq> None" by code_simp
  moreover have "\<not> no_double_booking ?q"
  proof
    assume ok: "no_double_booking ?q"
    have "sp_holder ?q ''s1'' = Some ''ann''" "sp_holder ?q ''s2'' = Some ''ann''"
      "sp_slots ?q ''s1'' = Some (''org'', ''fest'', ''desk'', ''2026-05-01'', AM)"
      "sp_slots ?q ''s2'' = Some (''org'', ''fest'', ''desk'', ''2026-05-01'', AM)" by code_simp+
    from no_double_bookingD [OF ok this] show False by simp
  qed
  ultimately show ?thesis using demo_booked_reachable no_double_booking_step by blast
qed

text \<open>
  C18: the listings never hit their missing-role error, and they show the plan.  In every
  reachable repository the schedule of a festival has one row per shift, in the order the
  shifts were created, with the role of the shift and the volunteer who holds it, if any; the
  assignments of a volunteer are exactly the shifts of the festival the volunteer holds, by
  date and period.
\<close>
theorem volunteer_listings_complete:
  assumes "volunteer_reachable True r"
  shows "\<exists>schedule mine. list_schedule_for_organization org fest r = Inr schedule \<and>
    list_assignments_for_volunteer org fest vid r = Inr mine \<and>
    map fst schedule = filter (\<lambda>s. vs_organizationId s = org \<and> vs_festivalId s = fest) (js_values (vp_shifts r)) \<and>
    (\<forall>(s, role, a, v) \<in> set schedule. vr_id role = vs_roleId s \<and>
       map_option va_volunteerId a = sp_holder (plan_of r) (vs_id s) \<and> map_option vo_id v = sp_holder (plan_of r) (vs_id s)) \<and>
    (\<forall>sid. (\<exists>(a, s, role) \<in> set mine. vs_id s = sid) \<longleftrightarrow> sp_holder (plan_of r) sid = Some vid \<and>
       (\<exists>role date period. sp_slots (plan_of r) sid = Some (org, fest, role, date, period))) \<and>
    sorted (map (\<lambda>(a, s, role). (vs_date s, period_name (vs_period s))) mine)"
proof -
  note inv = volunteer_reachable_inv [OF assms]
  let ?shifts = "filter (\<lambda>s. vs_organizationId s = org \<and> vs_festivalId s = fest) (js_values (vp_shifts r))"
  let ?a = "\<lambda>s. js_get (active_by_shift org r) (vs_id s)"
  let ?row = "\<lambda>s. (s, the (js_get (vp_roles r) (vs_roleId s)), ?a s, Option.bind (?a s) (\<lambda>a. js_get (vp_volunteers r) (va_volunteerId a)))"
  have st: "s \<in> set (js_values (vp_shifts r)) \<longleftrightarrow> js_get (vp_shifts r) (vs_id s) = Some s" for s
    using inv by (simp add: volunteer_inv_def stored_by_id_value)
  have schedule: "list_schedule_for_organization org fest r = Inr (map ?row ?shifts)"
    unfolding list_schedule_for_organization_def map_filter_total [symmetric]
    by (rule map_throwing_Inr) (use shift_role_stored [OF inv] in \<open>fastforce simp: st Let_def\<close>)
  have rows: "vr_id (the (js_get (vp_roles r) (vs_roleId s))) = vs_roleId s \<and>
      map_option va_volunteerId (?a s) = sp_holder (plan_of r) (vs_id s) \<and>
      map_option vo_id (Option.bind (?a s) (\<lambda>a. js_get (vp_volunteers r) (va_volunteerId a))) = sp_holder (plan_of r) (vs_id s)"
    if "s \<in> set ?shifts" for s
  proof -
    from that have s: "js_get (vp_shifts r) (vs_id s) = Some s" "vs_organizationId s = org" by (simp_all add: st)
    note h = active_by_shift_get [OF inv s]
    have "vr_id (the (js_get (vp_roles r) (vs_roleId s))) = vs_roleId s" using shift_role_stored [OF inv s(1)] by auto
    moreover have "map_option vo_id (Option.bind (?a s) (\<lambda>a. js_get (vp_volunteers r) (va_volunteerId a)))
        = map_option va_volunteerId (?a s)"
    proof (cases "?a s")
      case (Some a)
      with h have "sp_holder (plan_of r) (vs_id s) = Some (va_volunteerId a)" by simp
      from holder_registered [OF inv this] Some show ?thesis by auto
    qed simp
    ultimately show ?thesis using h by simp
  qed
  let ?g = "\<lambda>a. case js_get (vp_shifts r) (va_shiftId a) of None \<Rightarrow> None
      | Some s \<Rightarrow> if vs_organizationId s \<noteq> org \<or> vs_festivalId s \<noteq> fest then None
                  else Some (a, s, the (js_get (vp_roles r) (vs_roleId s)))"
  let ?mine = "sort_key (\<lambda>(a, s, role). (vs_date s, period_name (vs_period s)))
      (List.map_filter ?g (filter (\<lambda>a. va_organizationId a = org \<and> va_volunteerId a = vid) (active_assignments r)))"
  have mine: "list_assignments_for_volunteer org fest vid r = Inr ?mine"
    unfolding list_assignments_for_volunteer_def
    by (subst map_throwing_Inr [where g = ?g])
      (use shift_role_stored [OF inv] in \<open>fastforce split: option.splits\<close>, simp)
  have org: "va_organizationId a = org" if "a \<in> set (active_assignments r)"
      "js_get (vp_shifts r) (va_shiftId a) = Some s" "vs_organizationId s = org" for a s
    using inv that unfolding active_assignment_iff [OF inv] volunteer_inv_def assignment_refs_def by fastforce
  have g: "?g a = Some x \<longleftrightarrow> (\<exists>s. js_get (vp_shifts r) (va_shiftId a) = Some s \<and> vs_organizationId s = org \<and>
      vs_festivalId s = fest \<and> x = (a, s, the (js_get (vp_roles r) (vs_roleId s))))" for a x
    by (auto split: option.splits)
  have held: "(\<exists>(a, s, role) \<in> set ?mine. vs_id s = sid) \<longleftrightarrow> sp_holder (plan_of r) sid = Some vid \<and>
      (\<exists>role date period. sp_slots (plan_of r) sid = Some (org, fest, role, date, period))" for sid
  proof -
    have "(\<exists>(a, s, role) \<in> set ?mine. vs_id s = sid) \<longleftrightarrow>
      (\<exists>a s. a \<in> set (active_assignments r) \<and> va_organizationId a = org \<and> va_volunteerId a = vid \<and>
        js_get (vp_shifts r) (va_shiftId a) = Some s \<and> vs_organizationId s = org \<and> vs_festivalId s = fest \<and> vs_id s = sid)"
      unfolding set_sort Bex_def map_filter_in g by auto
    also have "\<dots> \<longleftrightarrow> (\<exists>a s. a \<in> set (active_assignments r) \<and> va_volunteerId a = vid \<and> va_shiftId a = sid \<and>
        js_get (vp_shifts r) sid = Some s \<and> vs_organizationId s = org \<and> vs_festivalId s = fest)"
      using org inv unfolding volunteer_inv_def stored_by_id_def by metis
    finally show ?thesis
      unfolding holder_active [OF inv] by (auto simp: plan_of_def slot_of_def)
  qed
  have "sorted (map (\<lambda>(a, s, role). (vs_date s, period_name (vs_period s))) ?mine)" by simp
  moreover have "map fst (map ?row ?shifts) = ?shifts" by (simp add: comp_def)
  moreover have "\<forall>(s, role, a, v) \<in> set (map ?row ?shifts). vr_id role = vs_roleId s \<and>
       map_option va_volunteerId a = sp_holder (plan_of r) (vs_id s) \<and> map_option vo_id v = sp_holder (plan_of r) (vs_id s)"
    using rows by auto
  ultimately show ?thesis using schedule mine held by blast
qed

theorem volunteer_listings_complete_witness:
  "\<exists>schedule. list_schedule_for_organization ''org'' ''fest'' demo_booked_repo = Inr schedule \<and>
     map (\<lambda>(s, role, a, v). (vs_id s, map_option va_volunteerId a)) schedule
       = [(''s1'', Some ''ann''), (''s2'', Some ''ann''), (''s3'', None)]"
proof -
  from volunteer_listings_complete [OF demo_booked_reachable, of "''org''" "''fest''"] obtain schedule where
    s: "list_schedule_for_organization ''org'' ''fest'' demo_booked_repo = Inr schedule" by blast
  have "map_sum id (map (\<lambda>(s, role, a, v). (vs_id s, map_option va_volunteerId a)))
      (list_schedule_for_organization ''org'' ''fest'' demo_booked_repo)
      = Inr [(''s1'', Some ''ann''), (''s2'', Some ''ann''), (''s3'', None)]" by code_simp
  with s show ?thesis by simp
qed

end
