(* ===== verification/Billing.thy ===== *)
theory Billing
  imports EntitlementModel
begin

text \<open>
  Billing: the adjustment input of \<open>packages/common/src/billing.ts\<close>,
  \<open>InMemoryBillingRepository\<close> of \<open>packages/backend/src/billing/billing-repository.ts\<close> and
  \<open>BillingReconciliationService\<close> of \<open>billing-reconciliation-service.ts\<close>.  What other
  calls do to the repository during an await is an argument; cents are integers, which the
  doubles of the code are up to \<open>2^53\<close>.  The unions of strings that arrive from outside are strings.
\<close>

section \<open>Adjustment input\<close>

definition billing_adjustment_types :: "string list" where
  "billing_adjustment_types = [''refund'', ''credit_issue'', ''credit_apply'', ''manual_charge'', ''write_off'']"

definition is_billing_adjustment_type :: "string \<Rightarrow> bool" where
  "is_billing_adjustment_type v \<longleftrightarrow> v \<in> set billing_adjustment_types"

record adjustment_input =
  ai_organizationId :: string
  ai_customerId :: string
  ai_adminUserId :: string
  ai_adjustmentType :: string
  ai_amountCents :: int
  ai_currencyCode :: "string option"
  ai_reason :: string
  ai_referenceType :: "string option"
  ai_referenceId :: "string option"
  ai_approvedDecisionId :: "string option"

text \<open>The currency of the input and the messages about it.\<close>

definition input_currency :: "json \<Rightarrow> string \<times> string list" where
  "input_currency v =
     (case json_field v ''currencyCode'' of
        None \<Rightarrow> (''USD'', [])
      | Some JNull \<Rightarrow> (''USD'', [])
      | Some (JStr s) \<Rightarrow>
          if js_trim s = [] then (''USD'', [''Currency code must be a non-empty string.''])
          else let code = js_upper (js_trim s)
               in (code, push_if (\<not> is_currency_code code) ''Currency code must be a 3-letter ISO code.'')
      | Some other \<Rightarrow> (''USD'', [''Currency code must be a non-empty string.'']))"

definition optional_text :: "json \<Rightarrow> string \<Rightarrow> string option" where
  "optional_text v k = (if text_field v k = [] then None else Some (text_field v k))"

definition validate_adjustment_input :: "json \<Rightarrow> string list + adjustment_input" where
  "validate_adjustment_input v =
     (if \<not> is_json_object v then Inl [''Billing adjustment input must be an object.'']
      else let org = text_field v ''organizationId'';
               customer = text_field v ''customerId'';
               admin = text_field v ''adminUserId'';
               ty = text_field v ''adjustmentType'';
               amount = (case json_field v ''amountCents'' of Some (JNum n) \<Rightarrow> Some n | _ \<Rightarrow> None);
               reason = text_field v ''reason'';
               (currency, currency_errors) = input_currency v;
               errors = push_if (org = []) ''Organization ID is required.''
                 @ push_if (customer = []) ''Customer ID is required.''
                 @ push_if (admin = []) ''Admin user ID is required.''
                 @ push_if (\<not> is_billing_adjustment_type ty)
                     (''Adjustment type must be one of: '' @ js_join '', '' billing_adjustment_types @ ''.'')
                 @ push_if (case amount of None \<Rightarrow> True | Some n \<Rightarrow> n \<le> 0)
                     ''Adjustment amount in cents must be a positive integer.''
                 @ push_if (reason = []) ''Adjustment reason is required.''
                 @ currency_errors
           in if errors \<noteq> [] then Inl errors
              else Inr \<lparr>ai_organizationId = org, ai_customerId = customer, ai_adminUserId = admin,
                        ai_adjustmentType = ty, ai_amountCents = the amount, ai_currencyCode = Some currency,
                        ai_reason = reason, ai_referenceType = optional_text v ''referenceType'',
                        ai_referenceId = optional_text v ''referenceId'',
                        ai_approvedDecisionId = optional_text v ''approvedDecisionId''\<rparr>)"

text \<open>A typed input read as an untyped payload.\<close>

definition option_json :: "string \<Rightarrow> string option \<Rightarrow> (string \<times> json) list" where
  "option_json k v = (case v of None \<Rightarrow> [] | Some s \<Rightarrow> [(k, JStr s)])"

definition adjustment_json :: "adjustment_input \<Rightarrow> json" where
  "adjustment_json i = JObj
     ([(''organizationId'', JStr (ai_organizationId i)), (''customerId'', JStr (ai_customerId i)),
       (''adminUserId'', JStr (ai_adminUserId i)), (''adjustmentType'', JStr (ai_adjustmentType i)),
       (''amountCents'', JNum (ai_amountCents i)), (''reason'', JStr (ai_reason i))]
      @ option_json ''currencyCode'' (ai_currencyCode i) @ option_json ''referenceType'' (ai_referenceType i)
      @ option_json ''referenceId'' (ai_referenceId i) @ option_json ''approvedDecisionId'' (ai_approvedDecisionId i))"

definition assert_valid_adjustment_input :: "adjustment_input \<Rightarrow> unit outcome" where
  "assert_valid_adjustment_input i =
     (case validate_adjustment_input (adjustment_json i) of
        Inl errors \<Rightarrow> Inl (PlainError (js_join ''; '' errors)) | Inr _ \<Rightarrow> Inr ())"

section \<open>Records\<close>

record credit_balance =
  cb_organizationId :: string
  cb_customerId :: string
  cb_balanceCents :: int
  cb_currencyCode :: string
  cb_updatedAtIso :: "string option"

record billing_adjustment =
  ba_id :: string
  ba_organizationId :: string
  ba_customerId :: string
  ba_adminUserId :: string
  ba_adjustmentType :: string
  ba_amountCents :: int
  ba_currencyCode :: string
  ba_reason :: string
  ba_referenceType :: "string option"
  ba_referenceId :: "string option"
  ba_approvedDecisionId :: "string option"
  ba_createdAtIso :: string

record ledger_entry =
  le_id :: string
  le_organizationId :: string
  le_customerId :: string
  le_entryType :: string
  le_amountCents :: int
  le_direction :: "string option"
  le_balanceAfterCents :: int
  le_currencyCode :: string
  le_adjustmentId :: string
  le_notes :: "string option"
  le_createdAtIso :: string

record adjustment_options =
  ao_notes :: "string option"
  ao_entryType :: "string option"
  ao_direction :: "string option"

record adjustment_result =
  ar_adjustment :: billing_adjustment
  ar_ledgerEntry :: ledger_entry
  ar_creditBalance :: credit_balance

text \<open>The errors of the repository: the two subclasses of \<open>AppError\<close>, and any other.\<close>

datatype billing_error =
    DuplicateAdjustment string "billing_adjustment option"
  | InsufficientCredit string
  | OtherError app_error

record mismatch_record =
  mm_id :: string
  mm_organizationId :: string
  mm_customerId :: string
  mm_mismatchType :: string
  mm_description :: string
  mm_amountCents :: "int option"
  mm_currencyCode :: string
  mm_shopifyOrderId :: "string option"
  mm_entitlementId :: "string option"
  mm_createdAtIso :: string

record seed_order =
  so_organizationId :: string
  so_shopifyOrderGid :: string
  so_shopifyCustomerGid :: "string option"
  so_correlationId :: "string option"
  so_fullyPaidAt :: "string option"
  so_currencyCode :: "string option"

record seed_entitlement =
  se_id :: string
  se_organizationId :: string
  se_parentCustomerId :: string
  se_checkoutIntentId :: string
  se_checkoutIntentLineId :: "string option"
  se_shopifyOrderGid :: string
  se_paidAmountCents :: int
  se_paidCurrencyCode :: string
  se_status :: class_status

record seed_line =
  sl_id :: string
  sl_checkoutIntentId :: string
  sl_organizationId :: "string option"
  sl_amount :: string
  sl_currencyCode :: "string option"

record seed_intent =
  si_id :: string
  si_correlationId :: string
  si_organizationId :: string
  si_customerId :: string
  si_amount :: string
  si_currencyCode :: string
  si_cartReference :: "string option"

record seed_cart =
  sc_reference :: string
  sc_organizationId :: string
  sc_customerId :: string

record billing_repo =
  br_adjustments :: "billing_adjustment list"
  br_ledgerEntries :: "ledger_entry list"
  br_creditBalances :: "(string, credit_balance) js_map"
  br_orders :: "seed_order list"
  br_entitlements :: "seed_entitlement list"
  br_intents :: "seed_intent list"
  br_lines :: "seed_line list"
  br_carts :: "seed_cart list"
  br_seededMismatches :: "mismatch_record list"

definition empty_billing_repo :: billing_repo where
  "empty_billing_repo = \<lparr>br_adjustments = [], br_ledgerEntries = [], br_creditBalances = [], br_orders = [],
     br_entitlements = [], br_intents = [], br_lines = [], br_carts = [], br_seededMismatches = []\<rparr>"

section \<open>Adjustments and the ledger\<close>

definition resolve_adjustment_direction :: "string \<Rightarrow> string option \<Rightarrow> string option" where
  "resolve_adjustment_direction ty explicit =
     (if truthy explicit then explicit
      else if ty = ''credit_issue'' \<or> ty = ''refund'' then Some ''inflow''
      else if ty = ''credit_apply'' \<or> ty = ''manual_charge'' \<or> ty = ''write_off'' then Some ''outflow''
      else None)"

definition resolve_ledger_entry_type :: "string \<Rightarrow> string option \<Rightarrow> string option \<Rightarrow> string" where
  "resolve_ledger_entry_type ty direction explicit =
     (if truthy explicit then the explicit
      else if ty = ''credit_issue'' then ''credit''
      else if ty = ''credit_apply'' then ''debit''
      else if direction = Some ''inflow'' then ''credit'' else ''adjustment'')"

definition find_adjustment_by_reference ::
    "string \<Rightarrow> string option \<Rightarrow> string \<Rightarrow> billing_repo \<Rightarrow> billing_adjustment option" where
  "find_adjustment_by_reference org ref_type ref_id r =
     find (\<lambda>a. ba_organizationId a = org \<and> ba_referenceId a = Some ref_id \<and>
               (ref_type = None \<or> ba_referenceType a = ref_type)) (br_adjustments r)"

definition balance_key :: "string \<Rightarrow> string \<Rightarrow> string" where
  "balance_key org customer = org @ '':'' @ customer"

definition get_credit_balance :: "string \<Rightarrow> string \<Rightarrow> billing_repo \<Rightarrow> credit_balance option" where
  "get_credit_balance org customer r = js_get (br_creditBalances r) (balance_key org customer)"

definition current_balance :: "adjustment_input \<Rightarrow> billing_repo \<Rightarrow> credit_balance" where
  "current_balance i r =
     (case get_credit_balance (ai_organizationId i) (ai_customerId i) r of
        Some b \<Rightarrow> b
      | None \<Rightarrow> \<lparr>cb_organizationId = ai_organizationId i, cb_customerId = ai_customerId i, cb_balanceCents = 0,
                 cb_currencyCode = (case ai_currencyCode i of None \<Rightarrow> ''USD'' | Some c \<Rightarrow> c), cb_updatedAtIso = None\<rparr>)"

definition duplicate_of :: "adjustment_input \<Rightarrow> billing_repo \<Rightarrow> billing_adjustment option" where
  "duplicate_of i r =
     (if truthy (ai_referenceId i)
      then find_adjustment_by_reference (ai_organizationId i) (ai_referenceType i) (the (ai_referenceId i)) r
      else None)"

text \<open>The three records one adjustment writes, given the balance it starts from.\<close>

definition adjustment_records ::
    "adjustment_input \<Rightarrow> adjustment_options \<Rightarrow> string \<Rightarrow> string \<Rightarrow> string \<Rightarrow> credit_balance \<Rightarrow> adjustment_result" where
  "adjustment_records i opts adj_uuid entry_uuid now_iso current =
     (let direction = resolve_adjustment_direction (ai_adjustmentType i) (ao_direction opts);
          delta = (if direction = Some ''inflow'' then ai_amountCents i else - ai_amountCents i);
          new_balance = cb_balanceCents current + delta;
          currency = (case ai_currencyCode i of None \<Rightarrow> cb_currencyCode current | Some c \<Rightarrow> c)
      in \<lparr>ar_adjustment = \<lparr>ba_id = adj_uuid, ba_organizationId = ai_organizationId i, ba_customerId = ai_customerId i,
             ba_adminUserId = ai_adminUserId i, ba_adjustmentType = ai_adjustmentType i, ba_amountCents = ai_amountCents i,
             ba_currencyCode = currency, ba_reason = ai_reason i, ba_referenceType = ai_referenceType i,
             ba_referenceId = ai_referenceId i, ba_approvedDecisionId = ai_approvedDecisionId i,
             ba_createdAtIso = now_iso\<rparr>,
          ar_ledgerEntry = \<lparr>le_id = entry_uuid, le_organizationId = ai_organizationId i, le_customerId = ai_customerId i,
             le_entryType = resolve_ledger_entry_type (ai_adjustmentType i) direction (ao_entryType opts),
             le_amountCents = ai_amountCents i, le_direction = direction, le_balanceAfterCents = new_balance,
             le_currencyCode = currency, le_adjustmentId = adj_uuid, le_notes = ao_notes opts,
             le_createdAtIso = now_iso\<rparr>,
          ar_creditBalance = \<lparr>cb_organizationId = ai_organizationId i, cb_customerId = ai_customerId i,
             cb_balanceCents = new_balance, cb_currencyCode = currency, cb_updatedAtIso = Some now_iso\<rparr>\<rparr>)"

definition duplicate_message :: "string \<Rightarrow> string" where
  "duplicate_message ref = ''Adjustment for reference '' @ [CHR 0x22] @ ref @ [CHR 0x22] @ '' already exists.''"

text \<open>
  \<open>createAdjustmentWithLedger\<close> awaits its lookup of the reference, when there is one; all that
  follows runs without interruption on what the other calls left (\<open>others\<close>).
\<close>

definition write_adjustment ::
    "adjustment_input \<Rightarrow> adjustment_options \<Rightarrow> string \<Rightarrow> string \<Rightarrow> string \<Rightarrow> billing_repo
       \<Rightarrow> (billing_error + adjustment_result) \<times> billing_repo" where
  "write_adjustment i opts adj_uuid entry_uuid now_iso r =
     (let current = current_balance i r;
          res = adjustment_records i opts adj_uuid entry_uuid now_iso current;
          new_balance = cb_balanceCents (ar_creditBalance res)
      in if new_balance < 0
         then (Inl (InsufficientCredit
                (''Adjustment would result in negative credit balance: '' @ int_string new_balance
                 @ '' cents. Available: '' @ int_string (cb_balanceCents current) @ '' cents.'')), r)
         else (Inr res,
               r\<lparr>br_adjustments := br_adjustments r @ [ar_adjustment res],
                 br_ledgerEntries := br_ledgerEntries r @ [ar_ledgerEntry res],
                 br_creditBalances := js_set (balance_key (ai_organizationId i) (ai_customerId i))
                    (ar_creditBalance res) (br_creditBalances r)\<rparr>))"

definition create_adjustment_with_ledger ::
    "(billing_repo \<Rightarrow> billing_repo) \<Rightarrow> adjustment_input \<Rightarrow> adjustment_options \<Rightarrow> string \<Rightarrow> string \<Rightarrow> string
       \<Rightarrow> billing_repo \<Rightarrow> (billing_error + adjustment_result) \<times> billing_repo" where
  "create_adjustment_with_ledger others i opts adj_uuid entry_uuid now_iso r =
     (case duplicate_of i r of
        Some existing \<Rightarrow>
          (Inl (DuplicateAdjustment (duplicate_message (the (ai_referenceId i))) (Some existing)), others r)
      | None \<Rightarrow>
          write_adjustment i opts adj_uuid entry_uuid now_iso (if truthy (ai_referenceId i) then others r else r))"

definition list_ledger_entries :: "string \<Rightarrow> string \<Rightarrow> billing_repo \<Rightarrow> ledger_entry list" where
  "list_ledger_entries org customer r =
     filter (\<lambda>e. le_organizationId e = org \<and> le_customerId e = customer) (br_ledgerEntries r)"

definition list_adjustments :: "string \<Rightarrow> string option \<Rightarrow> billing_repo \<Rightarrow> billing_adjustment list" where
  "list_adjustments org customer r =
     filter (\<lambda>a. ba_organizationId a = org \<and> (\<not> truthy customer \<or> Some (ba_customerId a) = customer)) (br_adjustments r)"

section \<open>Mismatches\<close>

text \<open>
  \<open>Math.round(Number.parseFloat(s) * 100)\<close> on decimal amounts: optional white space and sign,
  digits with an optional fraction, any text after it ignored; \<open>None\<close> is \<open>NaN\<close>.  The product is
  taken exactly, which is what the double computation rounds to for up to two decimals;
  exponents are not read.
\<close>

definition leading_digits :: "string \<Rightarrow> string \<times> string" where
  "leading_digits s = (takeWhile is_digit_char s, dropWhile is_digit_char s)"

definition decimal_cents :: "string \<Rightarrow> int option" where
  "decimal_cents s =
     (let s1 = dropWhile js_space s;
          (sign, body) = (case s1 of [] \<Rightarrow> (1, []) | c # cs \<Rightarrow>
             if c = CHR ''-'' then (-1, cs) else if c = CHR ''+'' then (1, cs) else (1, c # cs));
          (whole, rest) = leading_digits body;
          frac = (case rest of [] \<Rightarrow> [] | c # cs \<Rightarrow> if c = CHR ''.'' then fst (leading_digits cs) else [])
      in if whole = [] \<and> frac = [] then None
         else (case digits_value 0 (whole @ frac) of
                 None \<Rightarrow> None
               | Some n \<Rightarrow> let scale = 10 ^ length frac
                           in Some ((200 * sign * int n + scale) div (2 * scale))))"

definition usd_or :: "string option \<Rightarrow> string" where
  "usd_or c = (case c of None \<Rightarrow> ''USD'' | Some x \<Rightarrow> x)"

definition order_mismatch :: "string \<Rightarrow> string \<Rightarrow> billing_repo \<Rightarrow> seed_order \<Rightarrow> (string \<Rightarrow> mismatch_record) option" where
  "order_mismatch org now_iso r order =
     (if so_organizationId order \<noteq> org \<or> \<not> truthy (so_fullyPaidAt order) then None
      else (case find (\<lambda>e. se_organizationId e = org \<and> se_shopifyOrderGid e = so_shopifyOrderGid order \<and>
                          se_status e = Confirmed) (br_entitlements r) of
              Some _ \<Rightarrow> None
            | None \<Rightarrow>
                let intent = find (\<lambda>ci. si_organizationId ci = org \<and> Some (si_correlationId ci) = so_correlationId order)
                               (br_intents r);
                    cart = (case intent of
                              Some ci \<Rightarrow> if truthy (si_cartReference ci)
                                then find (\<lambda>cc. sc_organizationId cc = org \<and> Some (sc_reference cc) = si_cartReference ci)
                                       (br_carts r)
                                else None
                            | None \<Rightarrow> None);
                    customer = (case intent of Some ci \<Rightarrow> si_customerId ci
                      | None \<Rightarrow> (case cart of Some cc \<Rightarrow> sc_customerId cc
                      | None \<Rightarrow> (case so_shopifyCustomerGid order of Some g \<Rightarrow> g | None \<Rightarrow> ''unknown'')));
                    amount = (case intent of Some ci \<Rightarrow> if si_amount ci \<noteq> [] then decimal_cents (si_amount ci) else None
                              | None \<Rightarrow> None)
                in Some (\<lambda>uuid. \<lparr>mm_id = uuid, mm_organizationId = org, mm_customerId = customer,
                     mm_mismatchType = ''paid_unregistered'',
                     mm_description = ''Shopify order is fully paid but no class entitlement was created.'',
                     mm_amountCents = amount, mm_currencyCode = usd_or (so_currencyCode order),
                     mm_shopifyOrderId = Some (so_shopifyOrderGid order), mm_entitlementId = None,
                     mm_createdAtIso = now_iso\<rparr>)))"

definition entitlement_record ::
    "string \<Rightarrow> string \<Rightarrow> seed_entitlement \<Rightarrow> string \<Rightarrow> string \<Rightarrow> int \<Rightarrow> string \<Rightarrow> mismatch_record" where
  "entitlement_record org now_iso e ty descr amount = (\<lambda>uuid.
     \<lparr>mm_id = uuid, mm_organizationId = org, mm_customerId = se_parentCustomerId e, mm_mismatchType = ty,
      mm_description = descr, mm_amountCents = Some amount, mm_currencyCode = se_paidCurrencyCode e,
      mm_shopifyOrderId = Some (se_shopifyOrderGid e), mm_entitlementId = Some (se_id e), mm_createdAtIso = now_iso\<rparr>)"

definition unpaid_mismatch ::
    "string \<Rightarrow> string \<Rightarrow> billing_repo \<Rightarrow> seed_entitlement \<Rightarrow> (string \<Rightarrow> mismatch_record) option" where
  "unpaid_mismatch org now_iso r e =
     (if se_organizationId e \<noteq> org \<or> se_status e \<noteq> Confirmed then None
      else let order = find (\<lambda>so. so_organizationId so = org \<and> so_shopifyOrderGid so = se_shopifyOrderGid e) (br_orders r);
               paid = (case order of None \<Rightarrow> False | Some so \<Rightarrow> truthy (so_fullyPaidAt so))
           in if \<not> paid \<and> se_paidAmountCents e = 0
              then Some (entitlement_record org now_iso e ''registered_unpaid''
                     ''Class entitlement is registered but payment has not been received.'' 0)
              else None)"

text \<open>\<open>paid < NaN\<close> is false.\<close>

definition short_paid :: "seed_entitlement \<Rightarrow> string \<Rightarrow> string \<Rightarrow> bool" where
  "short_paid e expected_amount expected_currency \<longleftrightarrow>
     (case decimal_cents expected_amount of None \<Rightarrow> False | Some n \<Rightarrow> se_paidAmountCents e < n)
     \<or> se_paidCurrencyCode e \<noteq> expected_currency"

definition partial_mismatch ::
    "string \<Rightarrow> string \<Rightarrow> billing_repo \<Rightarrow> seed_entitlement \<Rightarrow> (string \<Rightarrow> mismatch_record) option" where
  "partial_mismatch org now_iso r e =
     (if se_organizationId e \<noteq> org \<or> se_status e \<noteq> Confirmed \<or> se_paidAmountCents e \<le> 0 then None
      else let intent = find (\<lambda>ci. si_organizationId ci = org \<and> si_id ci = se_checkoutIntentId e) (br_intents r);
               partial = entitlement_record org now_iso e ''partial_payment''
                   ''Partial payment received for class entitlement.'' (se_paidAmountCents e)
           in if truthy (se_checkoutIntentLineId e)
              then (case (case intent of None \<Rightarrow> None
                          | Some _ \<Rightarrow> find (\<lambda>l. Some (sl_id l) = se_checkoutIntentLineId e \<and>
                                sl_checkoutIntentId l = se_checkoutIntentId e \<and>
                                (sl_organizationId l = None \<or> sl_organizationId l = Some org)) (br_lines r)) of
                      None \<Rightarrow> Some (entitlement_record org now_iso e ''partial_payment''
                          ''Missing or invalid checkout intent line for confirmed class entitlement.'' (se_paidAmountCents e))
                    | Some l \<Rightarrow>
                        if short_paid e (sl_amount l)
                             (case sl_currencyCode l of Some c \<Rightarrow> c | None \<Rightarrow> usd_or (map_option si_currencyCode intent))
                        then Some partial else None)
              else (case intent of
                      None \<Rightarrow> None
                    | Some ci \<Rightarrow>
                        if si_amount ci \<noteq> [] \<and> short_paid e (si_amount ci) (si_currencyCode ci) then Some partial else None))"

text \<open>Each new record takes the next UUID.\<close>

definition list_mismatches :: "string \<Rightarrow> (nat \<Rightarrow> string) \<Rightarrow> string \<Rightarrow> billing_repo \<Rightarrow> mismatch_record list" where
  "list_mismatches org uuid now_iso r =
     (let found = List.map_filter (order_mismatch org now_iso r) (br_orders r)
            @ List.map_filter (unpaid_mismatch org now_iso r) (br_entitlements r)
            @ List.map_filter (partial_mismatch org now_iso r) (br_entitlements r)
      in filter (\<lambda>m. mm_organizationId m = org) (br_seededMismatches r)
         @ map2 (\<lambda>k mk. mk (uuid k)) [0..<length found] found)"

section \<open>The reconciliation service\<close>

record adjustment_outcome =
  oc_adjustment :: billing_adjustment
  oc_ledgerEntry :: "ledger_entry option"
  oc_creditBalance :: credit_balance
  oc_alreadyExisted :: bool

fun contains :: "string \<Rightarrow> string \<Rightarrow> bool" where
  "contains needle [] \<longleftrightarrow> needle = []"
| "contains needle (c # cs) \<longleftrightarrow> take (length needle) (c # cs) = needle \<or> contains needle cs"

definition is_decision_or_membership_refund :: "adjustment_input \<Rightarrow> bool" where
  "is_decision_or_membership_refund i =
     (let ref_type = (case ai_referenceType i of None \<Rightarrow> [] | Some t \<Rightarrow> js_lower (js_trim t)) in
      if ref_type \<in> {''decision'', ''membership_decision'', ''membership_refund''} \<or> contains ''decision'' ref_type
      then True
      else ai_adjustmentType i = ''refund'' \<and> ref_type = ''membership'')"

definition check_adjustment :: "adjustment_input \<Rightarrow> unit outcome" where
  "check_adjustment i =
     and_then (assert_valid_adjustment_input i) (\<lambda>_.
       guard (\<not> (is_decision_or_membership_refund i \<and>
                 (case ai_approvedDecisionId i of None \<Rightarrow> True | Some d \<Rightarrow> d = [] \<or> js_trim d = [])))
         (AppError ''Approved decision ID is required when referencing a decision or membership refund.'' 403
            (Some ''AUTHORITY_BOUNDARY_VIOLATION'')))"

definition existing_outcome :: "adjustment_input \<Rightarrow> billing_adjustment \<Rightarrow> billing_repo \<Rightarrow> adjustment_outcome" where
  "existing_outcome i existing r =
     \<lparr>oc_adjustment = existing, oc_ledgerEntry = None, oc_creditBalance = current_balance i r, oc_alreadyExisted = True\<rparr>"

text \<open>
  \<open>between\<close> is what other calls do to the repository while the lookup of the service is awaited,
  \<open>inside\<close> while that of \<open>createAdjustmentWithLedger\<close> is; without a reference nothing is looked up.
\<close>

definition apply_adjustment ::
    "(billing_repo \<Rightarrow> billing_repo) \<Rightarrow> (billing_repo \<Rightarrow> billing_repo) \<Rightarrow> adjustment_input \<Rightarrow> adjustment_options
       \<Rightarrow> string \<Rightarrow> string \<Rightarrow> string \<Rightarrow> billing_repo \<Rightarrow> (billing_error + adjustment_outcome) \<times> billing_repo" where
  "apply_adjustment between inside i opts adj_uuid entry_uuid now_iso r =
     (case check_adjustment i of
        Inl e \<Rightarrow> (Inl (OtherError e), r)
      | Inr _ \<Rightarrow>
          (let r1 = (if truthy (ai_referenceId i) then between r else r) in
           case duplicate_of i r of
             Some existing \<Rightarrow> (Inr (existing_outcome i existing r1), r1)
           | None \<Rightarrow>
               (case create_adjustment_with_ledger inside i opts adj_uuid entry_uuid now_iso r1 of
                  (Inr res, r2) \<Rightarrow>
                    (Inr \<lparr>oc_adjustment = ar_adjustment res, oc_ledgerEntry = Some (ar_ledgerEntry res),
                          oc_creditBalance = ar_creditBalance res, oc_alreadyExisted = False\<rparr>, r2)
                | (Inl (DuplicateAdjustment msg known), r2) \<Rightarrow>
                    if truthy (ai_referenceId i)
                    then (case (case known of Some a \<Rightarrow> Some a | None \<Rightarrow> duplicate_of i r2) of
                            Some existing \<Rightarrow> (Inr (existing_outcome i existing r2), r2)
                          | None \<Rightarrow> (Inl (DuplicateAdjustment msg known), r2))
                    else (Inl (DuplicateAdjustment msg known), r2)
                | (Inl e, r2) \<Rightarrow> (Inl e, r2))))"

section \<open>Replaying the ledger\<close>

definition signed_cents :: "ledger_entry \<Rightarrow> int" where
  "signed_cents e = (if le_direction e = Some ''inflow'' then le_amountCents e else - le_amountCents e)"

text \<open>The audit: start from a balance and check each entry's recorded balance on the way.\<close>

fun audit :: "int \<Rightarrow> ledger_entry list \<Rightarrow> int option" where
  "audit b [] = Some b"
| "audit b (e # es) =
     (let b' = b + signed_cents e in if le_balanceAfterCents e = b' \<and> 0 \<le> b' then audit b' es else None)"

lemma audit_append: "audit b (xs @ ys) = (case audit b xs of None \<Rightarrow> None | Some c \<Rightarrow> audit c ys)"
  by (induction xs arbitrary: b) (simp_all add: Let_def)

lemma audit_sum: "audit b es = Some c \<Longrightarrow> c = b + sum_list (map signed_cents es)"
proof (induction es arbitrary: b)
  case (Cons e es)
  then have "audit (b + signed_cents e) es = Some c" by (auto simp: Let_def split: if_splits)
  from Cons.IH [OF this] show ?case by simp
qed simp

definition balance_cents :: "string \<Rightarrow> string \<Rightarrow> billing_repo \<Rightarrow> int" where
  "balance_cents org customer r =
     (case get_credit_balance org customer r of None \<Rightarrow> 0 | Some b \<Rightarrow> cb_balanceCents b)"

definition no_colon :: "string \<Rightarrow> bool" where
  "no_colon org \<longleftrightarrow> CHR '':'' \<notin> set org"

lemma balance_key_inj:
  assumes "no_colon org" "no_colon org'"
  shows "balance_key org customer = balance_key org' customer' \<longleftrightarrow> org = org' \<and> customer = customer'"
proof
  assume eq: "balance_key org customer = balance_key org' customer'"
  have tw: "takeWhile (\<lambda>c. c \<noteq> CHR '':'') (balance_key a b) = a" if "no_colon a" for a b
    using that unfolding balance_key_def no_colon_def by (induction a) auto
  from tw [OF assms(1), of customer] tw [OF assms(2), of customer'] eq have "org = org'" by simp
  with eq show "org = org' \<and> customer = customer'" by (simp add: balance_key_def)
qed simp

definition billing_inv :: "billing_repo \<Rightarrow> bool" where
  "billing_inv r \<longleftrightarrow>
     (\<forall>org customer. no_colon org \<longrightarrow>
        audit 0 (list_ledger_entries org customer r) = Some (balance_cents org customer r) \<and> 0 \<le> balance_cents org customer r) \<and>
     map le_adjustmentId (br_ledgerEntries r) = map ba_id (br_adjustments r)"

text \<open>
  Runs in which calls wait at their lookup of the reference while others go on; the waiting ones
  are a component.  With \<open>serial\<close> no call starts while another one with the same reference waits.
  Organization ids are generated and contain no colon; the seeds fill the other lists.
\<close>

inductive billing_run :: "bool \<Rightarrow> billing_repo \<Rightarrow> (adjustment_input \<times> adjustment_options) list \<Rightarrow> bool" for serial where
  br_empty: "billing_run serial empty_billing_repo []"
| br_seed: "billing_run serial r ps \<Longrightarrow> billing_run serial (r\<lparr>br_orders := os, br_entitlements := es, br_intents := is,
     br_lines := ls, br_carts := cs, br_seededMismatches := ms\<rparr>) ps"
| br_start: "billing_run serial r ps \<Longrightarrow> no_colon (ai_organizationId i) \<Longrightarrow> truthy (ai_referenceId i) \<Longrightarrow>
     duplicate_of i r = None \<Longrightarrow>
     (serial \<Longrightarrow> \<forall>(j, _) \<in> set ps. \<not> (ai_organizationId j = ai_organizationId i \<and> ai_referenceId j = ai_referenceId i)) \<Longrightarrow>
     billing_run serial r ((i, opts) # ps)"
| br_write: "billing_run serial r (before @ (i, opts) # after) \<Longrightarrow>
     billing_run serial (snd (write_adjustment i opts u v t r)) (before @ after)"
| br_direct: "billing_run serial r ps \<Longrightarrow> no_colon (ai_organizationId i) \<Longrightarrow> \<not> truthy (ai_referenceId i) \<Longrightarrow>
     billing_run serial (snd (write_adjustment i opts u v t r)) ps"

text \<open>The reference an adjustment claims.\<close>

definition adjustment_reference :: "billing_adjustment \<Rightarrow> string \<times> string option \<times> string option" where
  "adjustment_reference a = (ba_organizationId a, ba_referenceType a, ba_referenceId a)"

definition references_once :: "billing_repo \<Rightarrow> bool" where
  "references_once r \<longleftrightarrow> distinct (map adjustment_reference (filter (\<lambda>a. truthy (ba_referenceId a)) (br_adjustments r)))"

lemma current_balance_cents:
  "cb_balanceCents (current_balance i r) = balance_cents (ai_organizationId i) (ai_customerId i) r"
  by (simp add: current_balance_def balance_cents_def split: option.splits)

text \<open>The two outcomes of the write.\<close>

lemma write_adjustment_cases:
  assumes "write_adjustment i opts u v t r = (res, r')"
  obtains (refused) e where "res = Inl (InsufficientCredit e)" "r' = r"
    | (created) a where "res = Inr a"
        "a = adjustment_records i opts u v t (current_balance i r)" "0 \<le> cb_balanceCents (ar_creditBalance a)"
        "r' = r\<lparr>br_adjustments := br_adjustments r @ [ar_adjustment a],
                br_ledgerEntries := br_ledgerEntries r @ [ar_ledgerEntry a],
                br_creditBalances := js_set (balance_key (ai_organizationId i) (ai_customerId i))
                   (ar_creditBalance a) (br_creditBalances r)\<rparr>"
  using assms by (auto simp: write_adjustment_def Let_def not_less split: if_splits)

lemma adjustment_records_fields:
  fixes i opts u v t b defines "a \<equiv> adjustment_records i opts u v t b"
  shows "le_organizationId (ar_ledgerEntry a) = ai_organizationId i" "le_customerId (ar_ledgerEntry a) = ai_customerId i"
    "le_balanceAfterCents (ar_ledgerEntry a) = cb_balanceCents (ar_creditBalance a)"
    "cb_balanceCents (ar_creditBalance a) = cb_balanceCents b + signed_cents (ar_ledgerEntry a)"
    "le_adjustmentId (ar_ledgerEntry a) = ba_id (ar_adjustment a)"
    "ba_organizationId (ar_adjustment a) = ai_organizationId i" "ba_referenceId (ar_adjustment a) = ai_referenceId i"
    "ba_referenceType (ar_adjustment a) = ai_referenceType i" "ba_amountCents (ar_adjustment a) = ai_amountCents i"
  by (simp_all add: a_def adjustment_records_def signed_cents_def Let_def)

lemma write_adjustment_inv:
  assumes inv: "billing_inv r" and org: "no_colon (ai_organizationId i)"
  shows "billing_inv (snd (write_adjustment i opts u v t r))"
proof (cases "write_adjustment i opts u v t r")
  case (Pair res r')
  from Pair show ?thesis
  proof (cases rule: write_adjustment_cases)
    case (created a)
    note f = adjustment_records_fields [of i opts u v t "current_balance i r", folded created(2)]
    have "audit 0 (list_ledger_entries org' customer r') = Some (balance_cents org' customer r') \<and>
        0 \<le> balance_cents org' customer r'" if "no_colon org'" for org' customer
    proof (cases "org' = ai_organizationId i \<and> customer = ai_customerId i")
      case True
      have "list_ledger_entries org' customer r' = list_ledger_entries org' customer r @ [ar_ledgerEntry a]"
        using True by (simp add: created(4) list_ledger_entries_def f)
      moreover have "balance_cents org' customer r' = cb_balanceCents (ar_creditBalance a)"
        using True by (simp add: created(4) balance_cents_def get_credit_balance_def)
      moreover have "audit 0 (list_ledger_entries org' customer r) = Some (cb_balanceCents (current_balance i r))"
        using inv that True by (simp add: billing_inv_def current_balance_cents)
      ultimately show ?thesis using created(3) f(3,4) by (simp add: audit_append Let_def)
    next
      case False
      then have "balance_key org' customer \<noteq> balance_key (ai_organizationId i) (ai_customerId i)"
        by (simp add: balance_key_inj [OF that org])
      with False inv that show ?thesis
        by (auto simp: created(4) billing_inv_def list_ledger_entries_def f balance_cents_def get_credit_balance_def)
    qed
    moreover have "map le_adjustmentId (br_ledgerEntries r') = map ba_id (br_adjustments r')"
      using inv by (simp add: created(4) billing_inv_def f(5))
    ultimately show ?thesis using Pair by (simp add: billing_inv_def)
  qed (simp add: Pair inv)
qed

lemma billing_run_inv: "billing_run serial r ps \<Longrightarrow> billing_inv r \<and> (\<forall>(i, _) \<in> set ps. no_colon (ai_organizationId i))"
proof (induction rule: billing_run.induct)
  case br_empty
  show ?case
    by (simp add: billing_inv_def empty_billing_repo_def list_ledger_entries_def balance_cents_def get_credit_balance_def)
next
  case (br_seed r)
  then show ?case
    by (simp add: billing_inv_def list_ledger_entries_def balance_cents_def get_credit_balance_def)
qed (auto simp: write_adjustment_inv)

text \<open>In a serial run no waiting call has a reference that is taken, nor one that another waits with.\<close>

definition waiting_references_free :: "billing_repo \<Rightarrow> (adjustment_input \<times> adjustment_options) list \<Rightarrow> bool" where
  "waiting_references_free r ps \<longleftrightarrow>
     distinct (map (\<lambda>(i, _). (ai_organizationId i, ai_referenceId i)) ps) \<and>
     (\<forall>(i, _) \<in> set ps. truthy (ai_referenceId i) \<and> duplicate_of i r = None)"

lemma duplicate_of_None:
  "duplicate_of i r = None \<longleftrightarrow> \<not> truthy (ai_referenceId i) \<or>
     (\<forall>a \<in> set (br_adjustments r). ba_organizationId a = ai_organizationId i \<and> ba_referenceId a = ai_referenceId i \<longrightarrow>
        ai_referenceType i \<noteq> None \<and> ba_referenceType a \<noteq> ai_referenceType i)"
  by (auto simp: duplicate_of_def find_adjustment_by_reference_def find_None_all truthy_iff)

lemma write_keeps_references:
  assumes "references_once r" "duplicate_of i r = None"
  shows "references_once (snd (write_adjustment i opts u v t r))"
proof (cases "write_adjustment i opts u v t r")
  case (Pair res r')
  from Pair show ?thesis
  proof (cases rule: write_adjustment_cases)
    case (created a)
    note f = adjustment_records_fields [of i opts u v t "current_balance i r", folded created(2)]
    have "adjustment_reference (ar_adjustment a) \<notin> adjustment_reference ` set (br_adjustments r)"
      if "truthy (ai_referenceId i)"
      using assms(2) that f(6-8) by (auto simp: duplicate_of_None adjustment_reference_def)
    with assms(1) show ?thesis
      by (auto simp: Pair references_once_def created(4) f(7))
  qed (simp add: Pair assms(1))
qed

lemma write_keeps_free:
  assumes "duplicate_of j r = None" "\<not> (ai_organizationId j = ai_organizationId i \<and> ai_referenceId j = ai_referenceId i)"
  shows "duplicate_of j (snd (write_adjustment i opts u v t r)) = None"
proof (cases "write_adjustment i opts u v t r")
  case (Pair res r')
  from Pair show ?thesis
  proof (cases rule: write_adjustment_cases)
    case (created a)
    note f = adjustment_records_fields [of i opts u v t "current_balance i r", folded created(2)]
    show ?thesis using assms by (auto simp: Pair duplicate_of_None created(4) f(6,7))
  qed (simp add: Pair assms(1))
qed

lemma serial_run_references:
  "billing_run serial r ps \<Longrightarrow> serial \<Longrightarrow> references_once r \<and> waiting_references_free r ps"
proof (induction rule: billing_run.induct)
  case br_empty
  show ?case by (simp add: references_once_def waiting_references_free_def empty_billing_repo_def)
next
  case (br_seed r ps)
  then show ?case by (simp add: references_once_def waiting_references_free_def duplicate_of_None)
next
  case (br_start r ps i opts)
  then show ?case by (force simp: waiting_references_free_def)
next
  case (br_write r before i opts after u v t)
  then have once: "references_once r" and free: "waiting_references_free r (before @ (i, opts) # after)" by blast+
  have "duplicate_of j (snd (write_adjustment i opts u v t r)) = None \<and> truthy (ai_referenceId j)"
    if "(j, o') \<in> set (before @ after)" for j o'
  proof -
    have "(ai_organizationId i, ai_referenceId i) \<notin> (\<lambda>(i, _). (ai_organizationId i, ai_referenceId i)) ` set (before @ after)"
      using free by (auto simp: waiting_references_free_def)
    with imageI [OF that, of "\<lambda>(i, _). (ai_organizationId i, ai_referenceId i)"]
    have "\<not> (ai_organizationId j = ai_organizationId i \<and> ai_referenceId j = ai_referenceId i)" by auto
    moreover have fj: "truthy (ai_referenceId j) \<and> duplicate_of j r = None"
    proof -
      have "\<forall>(i, _) \<in> set (before @ (i, opts) # after). truthy (ai_referenceId i) \<and> duplicate_of i r = None"
        using free unfolding waiting_references_free_def by (rule conjunct2)
      moreover have "(j, o') \<in> set (before @ (i, opts) # after)" using that by auto
      ultimately show ?thesis by blast
    qed
    ultimately show ?thesis using write_keeps_free [of j r i] by simp
  qed
  then have "\<forall>(j, o') \<in> set (before @ after). truthy (ai_referenceId j) \<and> duplicate_of j (snd (write_adjustment i opts u v t r)) = None"
    by blast
  moreover have "distinct (map (\<lambda>(i, _). (ai_organizationId i, ai_referenceId i)) (before @ after))" "duplicate_of i r = None"
    using free by (auto simp: waiting_references_free_def)
  ultimately show ?case using write_keeps_references [OF once] by (simp only: waiting_references_free_def simp_thms)
next
  case (br_direct r ps i opts u v t)
  then have once: "references_once r" and free: "waiting_references_free r ps" by blast+
  have "duplicate_of j (snd (write_adjustment i opts u v t r)) = None" if "(j, o') \<in> set ps" for j o'
    using free that br_direct.hyps(3) by (intro write_keeps_free) (auto simp: waiting_references_free_def)
  with once free br_direct.hyps(3) show ?case
    using write_keeps_references [of r i] by (auto simp: waiting_references_free_def duplicate_of_None)
qed

section \<open>References\<close>

text \<open>Adjustments are only ever appended; a repository later than another one has more of them.\<close>

definition later :: "billing_repo \<Rightarrow> billing_repo \<Rightarrow> bool" where
  "later r r' \<longleftrightarrow> (\<exists>more. br_adjustments r' = br_adjustments r @ more)"

lemma later_refl [simp]: "later r r"
  by (simp add: later_def)

lemma later_trans: "later r s \<Longrightarrow> later s t \<Longrightarrow> later r t"
  by (auto simp: later_def)

lemma write_adjustment_later: "later r (snd (write_adjustment i opts u v t r))"
proof (cases "write_adjustment i opts u v t r")
  case (Pair res r')
  from Pair show ?thesis
    by (cases rule: write_adjustment_cases) (simp_all add: Pair later_def)
qed

lemma duplicate_of_later: "later r r' \<Longrightarrow> duplicate_of i r = Some a \<Longrightarrow> duplicate_of i r' = Some a"
  by (auto simp: later_def duplicate_of_def find_adjustment_by_reference_def find_append_Some split: if_splits)

lemma written_is_duplicate:
  assumes "write_adjustment i opts u v t r = (Inr a, r')" "truthy (ai_referenceId i)"
  shows "duplicate_of i r' \<noteq> None \<and> (duplicate_of i r = None \<longrightarrow> duplicate_of i r' = Some (ar_adjustment a))"
  using assms(1)
proof (cases rule: write_adjustment_cases)
  case (created b)
  note f = adjustment_records_fields [of i opts u v t "current_balance i r", folded created(2)]
  from assms(2) obtain ref where ref: "ai_referenceId i = Some ref" "ref \<noteq> []" by (auto simp: truthy_iff)
  show ?thesis
  proof (cases "duplicate_of i r")
    case None
    with ref created(1,4) f show ?thesis
      by (auto simp: duplicate_of_def find_adjustment_by_reference_def find_append_None)
  next
    case (Some b)
    have "later r r'" using write_adjustment_later [of r i opts u v t] assms(1) by simp
    with Some duplicate_of_later [of r r' i b] show ?thesis by simp
  qed
qed simp

text \<open>
  Whatever the call found or wrote, the reference is taken afterwards; by the adjustment it
  returned when nobody else took the reference while the write waited for its lookup.
\<close>

lemma apply_adjustment_taken:
  assumes "apply_adjustment between (\<lambda>r. r) i opts u v t r = (Inr res, r')" "truthy (ai_referenceId i)" "later r (between r)"
  shows "duplicate_of i r' = Some (oc_adjustment res)"
proof (cases "duplicate_of i r")
  case (Some a)
  with assms(1,2) have "res = existing_outcome i a (between r)" "r' = between r"
    by (auto simp: apply_adjustment_def Let_def split: sum.splits)
  with duplicate_of_later [OF assms(3) Some] show ?thesis by (simp add: existing_outcome_def)
next
  case None
  from assms(1) have ok: "check_adjustment i = Inr ()" by (auto simp: apply_adjustment_def split: sum.splits)
  show ?thesis
  proof (cases "duplicate_of i (between r)")
    case (Some a)
    with assms(1,2) show ?thesis
      by (auto simp: apply_adjustment_def ok None create_adjustment_with_ledger_def existing_outcome_def Let_def)
  next
    case fresh: None
    obtain w r2 where c: "write_adjustment i opts u v t (between r) = (w, r2)" by fastforce
    from c show ?thesis
    proof (cases rule: write_adjustment_cases)
      case (refused e)
      with assms(1,2) c show ?thesis by (simp add: apply_adjustment_def ok None fresh create_adjustment_with_ledger_def)
    next
      case (created a)
      from written_is_duplicate [OF c [unfolded created(1)] assms(2)] fresh created(1) assms(1,2) c show ?thesis
        by (auto simp: apply_adjustment_def ok None create_adjustment_with_ledger_def)
    qed
  qed
qed

section \<open>Properties\<close>

text \<open>
  C19: the credit balance is the replay of the ledger, however calls overlap.  In every run of
  the repository, going through the ledger entries of a customer in order from zero, each entry
  records the balance after it, no intermediate balance is negative, and the last one is the
  stored balance; ledger entries and adjustments correspond one to one, in order.  If no two calls
  with one reference overlap, a reference has at most one adjustment per organization and type.
  Organization ids contain no colon, so that the keys of the balances do not clash.
\<close>
theorem billing_ledger_replays:
  assumes "billing_run serial r waiting" "no_colon org"
  shows "audit 0 (list_ledger_entries org customer r) = Some (balance_cents org customer r) \<and>
    balance_cents org customer r = sum_list (map signed_cents (list_ledger_entries org customer r)) \<and>
    0 \<le> balance_cents org customer r \<and>
    map le_adjustmentId (br_ledgerEntries r) = map ba_id (br_adjustments r) \<and>
    (serial \<longrightarrow> distinct (map adjustment_reference (filter (\<lambda>a. truthy (ba_referenceId a)) (br_adjustments r))))"
proof -
  from billing_run_inv [OF assms(1)] assms(2)
  have "audit 0 (list_ledger_entries org customer r) = Some (balance_cents org customer r)" "0 \<le> balance_cents org customer r"
    "map le_adjustmentId (br_ledgerEntries r) = map ba_id (br_adjustments r)" by (simp_all add: billing_inv_def)
  with audit_sum [OF this(1)] serial_run_references [OF assms(1)] show ?thesis by (simp add: references_once_def)
qed

definition demo_adjustment :: "string \<Rightarrow> int \<Rightarrow> string \<Rightarrow> string \<Rightarrow> adjustment_input" where
  "demo_adjustment ty amount currency ref =
     \<lparr>ai_organizationId = ''org'', ai_customerId = ''ann'', ai_adminUserId = ''admin'', ai_adjustmentType = ty,
      ai_amountCents = amount, ai_currencyCode = Some currency, ai_reason = ''test'', ai_referenceType = Some ''order'',
      ai_referenceId = Some ref, ai_approvedDecisionId = None\<rparr>"

definition no_options :: adjustment_options where
  "no_options = \<lparr>ao_notes = None, ao_entryType = None, ao_direction = None\<rparr>"

definition demo_billing :: billing_repo where
  "demo_billing =
     snd (write_adjustment (demo_adjustment ''credit_apply'' 300 ''USD'' ''r2'') no_options ''a2'' ''l2'' ''t2''
       (snd (write_adjustment (demo_adjustment ''refund'' 1000 ''USD'' ''r1'') no_options ''a1'' ''l1'' ''t1''
         empty_billing_repo)))"

text \<open>Both calls wait at the same time, with different references.\<close>

lemma demo_billing_run: "billing_run True demo_billing []"
proof -
  let ?a = "(demo_adjustment ''refund'' 1000 ''USD'' ''r1'', no_options)" and ?b = "(demo_adjustment ''credit_apply'' 300 ''USD'' ''r2'', no_options)"
  have "billing_run True empty_billing_repo [?a]"
    by (rule br_start [OF br_empty]) (simp_all add: demo_adjustment_def no_colon_def truthy_iff duplicate_of_None empty_billing_repo_def)
  then have "billing_run True empty_billing_repo ([?b] @ ?a # [])"
    unfolding append.simps
    by (rule br_start) (simp_all add: demo_adjustment_def no_colon_def truthy_iff duplicate_of_None empty_billing_repo_def)
  from br_write [OF this] have "billing_run True (snd (write_adjustment (fst ?a) no_options ''a1'' ''l1'' ''t1'' empty_billing_repo)) ([] @ ?b # [])"
    by simp
  from br_write [OF this] show ?thesis unfolding demo_billing_def by simp
qed

theorem billing_ledger_replays_witness:
  "balance_cents ''org'' ''ann'' demo_billing = 700 \<and>
   audit 0 (list_ledger_entries ''org'' ''ann'' demo_billing) = Some 700"
proof -
  have "balance_cents ''org'' ''ann'' demo_billing = 700" by code_simp
  moreover have "no_colon ''org''" by (simp add: no_colon_def)
  ultimately show ?thesis using billing_ledger_replays [OF demo_billing_run, of "''org''" "''ann''"] by simp
qed

text \<open>
  Two calls with one reference can both be applied.  When the reference is free and a second
  call makes both its lookups before the first one writes, each of them awaiting only its own
  lookups, both report a new adjustment and the customer is credited twice.
\<close>
theorem overlapping_adjustments_apply_twice:
  assumes "truthy (ai_referenceId i)" "duplicate_of i r = None" "0 \<le> ai_amountCents i"
    and "resolve_adjustment_direction (ai_adjustmentType i) (ao_direction opts) = Some ''inflow''"
    and "apply_adjustment (\<lambda>r. r) (\<lambda>r. r) i opts u v t r = (Inr res, r1)"
    and "apply_adjustment (\<lambda>r. r) (\<lambda>_. r1) i opts u' v' t' r = (res', r2)"
  shows "\<exists>b. res' = Inr b \<and> \<not> oc_alreadyExisted res \<and> \<not> oc_alreadyExisted b \<and>
    br_adjustments r2 = br_adjustments r @ [oc_adjustment res, oc_adjustment b] \<and>
    ba_referenceId (oc_adjustment res) = ai_referenceId i \<and> ba_referenceId (oc_adjustment b) = ai_referenceId i \<and>
    balance_cents (ai_organizationId i) (ai_customerId i) r2
      = balance_cents (ai_organizationId i) (ai_customerId i) r + 2 * ai_amountCents i"
proof -
  from assms(5) have ok: "check_adjustment i = Inr ()" by (auto simp: apply_adjustment_def split: sum.splits)
  obtain w s where w: "write_adjustment i opts u v t r = (w, s)" by fastforce
  from w obtain a where a: "w = Inr a" "a = adjustment_records i opts u v t (current_balance i r)" "0 \<le> cb_balanceCents (ar_creditBalance a)"
    "s = r\<lparr>br_adjustments := br_adjustments r @ [ar_adjustment a], br_ledgerEntries := br_ledgerEntries r @ [ar_ledgerEntry a],
       br_creditBalances := js_set (balance_key (ai_organizationId i) (ai_customerId i)) (ar_creditBalance a) (br_creditBalances r)\<rparr>"
    by (cases rule: write_adjustment_cases)
      (use assms(1,2,5) w in \<open>auto simp: apply_adjustment_def ok create_adjustment_with_ledger_def\<close>)
  have first: "r1 = s" "\<not> oc_alreadyExisted res" "oc_adjustment res = ar_adjustment a"
    using assms(1,2,5) w a(1) by (auto simp: apply_adjustment_def ok create_adjustment_with_ledger_def)
  note f = adjustment_records_fields [of i opts u v t "current_balance i r", folded a(2)]
  have signed: "signed_cents (ar_ledgerEntry (adjustment_records i opts x y z c)) = ai_amountCents i" for x y z c
    by (simp add: signed_cents_def adjustment_records_def Let_def assms(4))
  have bal: "cb_balanceCents (current_balance i r1) = cb_balanceCents (current_balance i r) + ai_amountCents i"
    using f(4) signed [of u v t "current_balance i r", folded a(2)] by (simp add: first(1) a(4) current_balance_def get_credit_balance_def)
  obtain w2 s2 where w2: "write_adjustment i opts u' v' t' r1 = (w2, s2)" by fastforce
  let ?b = "adjustment_records i opts u' v' t' (current_balance i r1)"
  note g = adjustment_records_fields [of i opts u' v' t' "current_balance i r1"]
  have pos: "0 \<le> cb_balanceCents (ar_creditBalance ?b)"
    using a(3) f(4) signed [of u v t "current_balance i r", folded a(2)] g(4) signed [of u' v' t' "current_balance i r1"] bal assms(3) by simp
  with w2 have b: "w2 = Inr ?b" "s2 = r1\<lparr>br_adjustments := br_adjustments r1 @ [ar_adjustment ?b],
      br_ledgerEntries := br_ledgerEntries r1 @ [ar_ledgerEntry ?b],
      br_creditBalances := js_set (balance_key (ai_organizationId i) (ai_customerId i)) (ar_creditBalance ?b) (br_creditBalances r1)\<rparr>"
    by (auto simp: write_adjustment_def Let_def)
  have second: "r2 = s2" "\<exists>b. res' = Inr b \<and> \<not> oc_alreadyExisted b \<and> oc_adjustment b = ar_adjustment ?b"
    using assms(1,2,6) w2 b(1) by (auto simp: apply_adjustment_def ok create_adjustment_with_ledger_def)
  have "balance_cents (ai_organizationId i) (ai_customerId i) r2 = cb_balanceCents (current_balance i r1) + ai_amountCents i"
    using g(4) signed [of u' v' t' "current_balance i r1"] by (simp add: second(1) b(2) balance_cents_def get_credit_balance_def)
  then show ?thesis using second b(2) first a(4) f(7) g(7) bal by (auto simp: current_balance_cents)
qed

theorem overlapping_adjustments_apply_twice_witness:
  "\<exists>res r1 res' r2. apply_adjustment (\<lambda>r. r) (\<lambda>r. r) (demo_adjustment ''refund'' 1000 ''USD'' ''r1'') no_options ''a1'' ''l1'' ''t1''
       empty_billing_repo = (Inr res, r1) \<and>
     apply_adjustment (\<lambda>r. r) (\<lambda>_. r1) (demo_adjustment ''refund'' 1000 ''USD'' ''r1'') no_options ''a2'' ''l2'' ''t2''
       empty_billing_repo = (Inr res', r2) \<and> \<not> oc_alreadyExisted res' \<and>
     balance_cents ''org'' ''ann'' r2 = balance_cents ''org'' ''ann'' empty_billing_repo + 2 * 1000"
proof -
  let ?i = "demo_adjustment ''refund'' 1000 ''USD'' ''r1''"
  have facts: "truthy (ai_referenceId ?i)" "duplicate_of ?i empty_billing_repo = None" "0 \<le> ai_amountCents ?i"
    "resolve_adjustment_direction (ai_adjustmentType ?i) (ao_direction no_options) = Some ''inflow''"
    "\<not> isl (fst (apply_adjustment (\<lambda>r. r) (\<lambda>r. r) ?i no_options ''a1'' ''l1'' ''t1'' empty_billing_repo))" by code_simp+
  obtain res r1 where first: "apply_adjustment (\<lambda>r. r) (\<lambda>r. r) ?i no_options ''a1'' ''l1'' ''t1'' empty_billing_repo = (Inr res, r1)"
    using facts(5) by (cases "apply_adjustment (\<lambda>r. r) (\<lambda>r. r) ?i no_options ''a1'' ''l1'' ''t1'' empty_billing_repo") (auto split: sum.splits simp: isl_def, metis sum.exhaust)
  obtain res' r2 where second: "apply_adjustment (\<lambda>r. r) (\<lambda>_. r1) ?i no_options ''a2'' ''l2'' ''t2'' empty_billing_repo = (res', r2)" by fastforce
  have i: "ai_organizationId ?i = ''org''" "ai_customerId ?i = ''ann''" "ai_amountCents ?i = 1000" by (simp_all add: demo_adjustment_def)
  from overlapping_adjustments_apply_twice [OF facts(1-4) first second] first second show ?thesis unfolding i by blast
qed

text \<open>
  Apart from that overlap a reference is applied once.  After a successful call with a reference,
  during whose own write no other call took it, every call with the same input that looks into the
  repository again after that write reports the adjustment of the first call as already existing
  and writes nothing; that includes two calls that both missed the reference in their first lookup.
\<close>
theorem adjustment_reference_applied_once:
  assumes "truthy (ai_referenceId i)"
    and "apply_adjustment between (\<lambda>r. r) i opts u v t r = (Inr res, r1)" "later r (between r)"
    and "later r1 (between' r2)" "later r2 (between' r2)"
  shows "\<exists>res' r3. apply_adjustment between' inside i opts' u' v' t' r2 = (Inr res', r3) \<and>
    r3 \<in> {between' r2, inside (between' r2)} \<and> oc_alreadyExisted res' \<and> oc_adjustment res' = oc_adjustment res"
proof -
  have taken: "duplicate_of i r1 = Some (oc_adjustment res)" by (rule apply_adjustment_taken [OF assms(2,1,3)])
  from assms(2) have ok: "check_adjustment i = Inr ()" by (auto simp: apply_adjustment_def split: sum.splits)
  have known: "duplicate_of i (between' r2) = Some (oc_adjustment res)"
    by (rule duplicate_of_later [OF assms(4) taken])
  show ?thesis
  proof (cases "duplicate_of i r2")
    case (Some a)
    with duplicate_of_later [OF assms(5) Some] known assms(1) show ?thesis
      by (simp add: apply_adjustment_def ok Some Let_def existing_outcome_def)
  next
    case None
    with known assms(1) show ?thesis
      by (simp add: apply_adjustment_def ok create_adjustment_with_ledger_def existing_outcome_def Let_def)
  qed
qed

text \<open>
  Two requests that start on an empty ledger: the first writes while the second awaits its
  first lookup.
\<close>
theorem adjustment_reference_applied_once_witness:
  "\<exists>res r1 res'. apply_adjustment (\<lambda>r. r) (\<lambda>r. r) (demo_adjustment ''refund'' 1000 ''USD'' ''r1'') no_options ''a1'' ''l1'' ''t1''
       empty_billing_repo = (Inr res, r1) \<and>
     apply_adjustment (\<lambda>_. r1) (\<lambda>r. r) (demo_adjustment ''refund'' 1000 ''USD'' ''r1'') no_options ''a2'' ''l2'' ''t2''
       empty_billing_repo = (Inr res', r1) \<and>
     oc_adjustment res' = oc_adjustment res \<and> balance_cents ''org'' ''ann'' r1 = 1000"
proof -
  let ?i = "demo_adjustment ''refund'' 1000 ''USD'' ''r1''"
  let ?r1 = "snd (apply_adjustment (\<lambda>r. r) (\<lambda>r. r) ?i no_options ''a1'' ''l1'' ''t1'' empty_billing_repo)"
  have facts: "\<not> isl (fst (apply_adjustment (\<lambda>r. r) (\<lambda>r. r) ?i no_options ''a1'' ''l1'' ''t1'' empty_billing_repo))"
    "balance_cents ''org'' ''ann'' ?r1 = 1000" "truthy (ai_referenceId ?i)" by code_simp+
  then obtain res where first: "apply_adjustment (\<lambda>r. r) (\<lambda>r. r) ?i no_options ''a1'' ''l1'' ''t1'' empty_billing_repo = (Inr res, ?r1)"
    by (cases "apply_adjustment (\<lambda>r. r) (\<lambda>r. r) ?i no_options ''a1'' ''l1'' ''t1'' empty_billing_repo"; cases "fst (apply_adjustment (\<lambda>r. r) (\<lambda>r. r) ?i no_options ''a1'' ''l1'' ''t1'' empty_billing_repo)") auto
  have "later empty_billing_repo ?r1" by (simp add: later_def empty_billing_repo_def)
  from adjustment_reference_applied_once [OF facts(3) first, where between' = "\<lambda>_. ?r1" and inside = "\<lambda>r. r" and ?r2.0 = empty_billing_repo
      and opts' = no_options and u' = "''a2''" and v' = "''l2''" and t' = "''t2''"] this
  show ?thesis using first facts(2) by auto
qed

text \<open>
  Amounts of different currencies are added into one balance, which takes the currency of the
  last adjustment: 10 dollars and 10 euros become a balance of 20 euros.
\<close>
lemma billing_mixes_currencies:
  "map_option (\<lambda>b. (cb_balanceCents b, cb_currencyCode b)) (get_credit_balance ''org'' ''ann''
     (snd (create_adjustment_with_ledger (\<lambda>r. r) (demo_adjustment ''refund'' 1000 ''EUR'' ''r2'') no_options ''a2'' ''l2'' ''t2''
       (snd (create_adjustment_with_ledger (\<lambda>r. r) (demo_adjustment ''refund'' 1000 ''USD'' ''r1'') no_options ''a1'' ''l1'' ''t1''
         empty_billing_repo))))) = Some (2000, ''EUR'')"
  by code_simp

end
