(* ===== verification/AsyncCache.thy ===== *)
theory AsyncCache
  imports FestPrelude "HOL-Library.Multiset"
begin

text \<open>
  \<open>BoundedAsyncCache\<close> of \<open>packages/backend/src/customer/bounded-async-cache.ts\<close>: a cache with
  least-recently-used eviction, expiry, and one load at a time per key.  Sizes, times and
  lifetimes are integers; each read of the clock is an argument.  The values handed to
  \<open>onEvict\<close> are recorded in order.  A load settles in two later turns: its result is stored or
  counted as an error, and then its pending entry is removed; a value is never \<open>undefined\<close>.
\<close>

section \<open>State\<close>

record 'v cache_entry =
  ca_value :: 'v
  ca_expiresAtMs :: int
  ca_bytes :: int

record cache_options =
  co_maxEntries :: int
  co_maxEntryBytes :: int
  co_maxTotalBytes :: int

record cache_counters =
  cc_hits :: nat
  cc_misses :: nat
  cc_coalesced :: nat
  cc_evictions :: nat
  cc_expirations :: nat
  cc_errors :: nat

datatype load_status = Loading | Settled | Finished

text \<open>The load promises by number; \<open>ch_pending\<close> holds the number of the promise of a key.\<close>

record ('k, 'v) cache =
  ch_entries :: "('k, 'v cache_entry) js_map"
  ch_pending :: "('k, nat) js_map"
  ch_counters :: cache_counters
  ch_retainedBytes :: int
  ch_evicted :: "'v list"
  ch_loads :: "('k \<times> load_status) list"

definition empty_cache :: "('k, 'v) cache" where
  "empty_cache = \<lparr>ch_entries = [], ch_pending = [],
     ch_counters = \<lparr>cc_hits = 0, cc_misses = 0, cc_coalesced = 0, cc_evictions = 0, cc_expirations = 0, cc_errors = 0\<rparr>,
     ch_retainedBytes = 0, ch_evicted = [], ch_loads = []\<rparr>"

definition new_cache :: "cache_options \<Rightarrow> ('k, 'v) cache outcome" where
  "new_cache o' =
     (if co_maxEntries o' \<le> 0 \<or> co_maxEntryBytes o' \<le> 0 \<or> co_maxTotalBytes o' \<le> 0
      then Inl (PlainError ''Cache bounds must be positive.'')
      else Inr empty_cache)"

section \<open>Operations\<close>

datatype removal = Overwritten | Eviction | Expiration

definition count_removal :: "removal \<Rightarrow> cache_counters \<Rightarrow> cache_counters" where
  "count_removal why c =
     (case why of Overwritten \<Rightarrow> c | Eviction \<Rightarrow> c\<lparr>cc_evictions := Suc (cc_evictions c)\<rparr>
      | Expiration \<Rightarrow> c\<lparr>cc_expirations := Suc (cc_expirations c)\<rparr>)"

definition cache_remove :: "'k \<Rightarrow> removal \<Rightarrow> ('k, 'v) cache \<Rightarrow> ('k, 'v) cache" where
  "cache_remove k why c =
     (case js_get (ch_entries c) k of
        None \<Rightarrow> c
      | Some e \<Rightarrow> c\<lparr>ch_entries := js_delete k (ch_entries c), ch_retainedBytes := ch_retainedBytes c - ca_bytes e,
                    ch_evicted := ch_evicted c @ [ca_value e], ch_counters := count_removal why (ch_counters c)\<rparr>)"

definition expire_entries :: "int \<Rightarrow> ('k, 'v) cache \<Rightarrow> ('k, 'v) cache" where
  "expire_entries now c =
     foldl (\<lambda>c (k, e). if ca_expiresAtMs e \<le> now then cache_remove k Expiration c else c) c (ch_entries c)"

definition count_hit :: "('k, 'v) cache \<Rightarrow> ('k, 'v) cache" where
  "count_hit c = c\<lparr>ch_counters := (ch_counters c)\<lparr>cc_hits := Suc (cc_hits (ch_counters c))\<rparr>\<rparr>"

definition count_miss :: "('k, 'v) cache \<Rightarrow> ('k, 'v) cache" where
  "count_miss c = c\<lparr>ch_counters := (ch_counters c)\<lparr>cc_misses := Suc (cc_misses (ch_counters c))\<rparr>\<rparr>"

text \<open>A hit moves the entry to the end of the insertion order.\<close>

definition cache_get :: "'k \<Rightarrow> int \<Rightarrow> ('k, 'v) cache \<Rightarrow> 'v option \<times> ('k, 'v) cache" where
  "cache_get k now c =
     (case js_get (ch_entries c) k of
        None \<Rightarrow> (None, count_miss c)
      | Some e \<Rightarrow>
          if ca_expiresAtMs e \<le> now then (None, count_miss (cache_remove k Expiration c))
          else (Some (ca_value e), count_hit (c\<lparr>ch_entries := js_set k e (js_delete k (ch_entries c))\<rparr>)))"

text \<open>The loop of \<open>set\<close> that makes room; \<open>None\<close> if it did not return.\<close>

partial_function (option) make_room ::
    "cache_options \<Rightarrow> int \<Rightarrow> ('k, 'v) cache \<Rightarrow> ('k, 'v) cache option" where
  "make_room o' bytes c =
     (if co_maxEntries o' \<le> int (length (ch_entries c)) \<or> co_maxTotalBytes o' < ch_retainedBytes c + bytes
      then (case ch_entries c of
              [] \<Rightarrow> Some c
            | (oldest, _) # _ \<Rightarrow> make_room o' bytes (cache_remove oldest Eviction c))
      else Some c)"

lemmas [code] = make_room.simps

definition exceeds_bounds :: "cache_options \<Rightarrow> int \<Rightarrow> int \<Rightarrow> bool" where
  "exceeds_bounds o' ttl bytes \<longleftrightarrow>
     ttl \<le> 0 \<or> bytes < 0 \<or> co_maxEntryBytes o' < bytes \<or> co_maxTotalBytes o' < bytes"

definition cache_set ::
    "cache_options \<Rightarrow> 'k \<Rightarrow> 'v \<Rightarrow> int \<Rightarrow> int \<Rightarrow> int \<Rightarrow> int \<Rightarrow> ('k, 'v) cache \<Rightarrow> (unit outcome \<times> ('k, 'v) cache) option" where
  "cache_set o' k v ttl bytes now1 now2 c =
     (if exceeds_bounds o' ttl bytes then Some (Inl (PlainError ''Cache entry exceeds configured bounds.''), c)
      else (case make_room o' bytes (cache_remove k Overwritten (expire_entries now1 c)) of
              None \<Rightarrow> None
            | Some c' \<Rightarrow> Some (Inr (),
                c'\<lparr>ch_entries := js_set k \<lparr>ca_value = v, ca_expiresAtMs = now2 + ttl, ca_bytes = bytes\<rparr> (ch_entries c'),
                   ch_retainedBytes := ch_retainedBytes c' + bytes\<rparr>)))"

definition delete_where :: "('k \<Rightarrow> bool) \<Rightarrow> ('k, 'v) cache \<Rightarrow> ('k, 'v) cache" where
  "delete_where p c = foldl (\<lambda>c k. if p k then cache_remove k Overwritten c else c) c (js_keys (ch_entries c))"

datatype 'v lookup = Cached 'v | Joined nat | Started nat

text \<open>After a miss: wait for the load in flight, or start one.\<close>

definition join_or_start :: "'k \<Rightarrow> ('k, 'v) cache \<Rightarrow> 'v lookup \<times> ('k, 'v) cache" where
  "join_or_start k c =
     (case js_get (ch_pending c) k of
        Some n \<Rightarrow> (Joined n, c\<lparr>ch_counters := (ch_counters c)\<lparr>cc_coalesced := Suc (cc_coalesced (ch_counters c))\<rparr>\<rparr>)
      | None \<Rightarrow>
          let n = length (ch_loads c)
          in (Started n, c\<lparr>ch_loads := ch_loads c @ [(k, Loading)], ch_pending := js_set k n (ch_pending c)\<rparr>))"

definition get_or_load :: "'k \<Rightarrow> bool \<Rightarrow> int \<Rightarrow> ('k, 'v) cache \<Rightarrow> 'v lookup \<times> ('k, 'v) cache" where
  "get_or_load k force now c =
     (if force then join_or_start k (count_miss (cache_remove k Overwritten c))
      else (case cache_get k now c of
              (Some v, c1) \<Rightarrow> (Cached v, c1)
            | (None, c1) \<Rightarrow> join_or_start k c1))"

text \<open>The result of a loader: a value with its lifetime and size, or a rejection.\<close>

datatype 'v load_result = Loaded 'v int int | Rejected app_error

definition count_error :: "('k, 'v) cache \<Rightarrow> ('k, 'v) cache" where
  "count_error c = c\<lparr>ch_counters := (ch_counters c)\<lparr>cc_errors := Suc (cc_errors (ch_counters c))\<rparr>\<rparr>"

definition settle_load ::
    "cache_options \<Rightarrow> nat \<Rightarrow> 'v load_result \<Rightarrow> int \<Rightarrow> int \<Rightarrow> ('k, 'v) cache \<Rightarrow> ('v outcome \<times> ('k, 'v) cache) option" where
  "settle_load o' n res now1 now2 c =
     (let k = fst (ch_loads c ! n); settled = c\<lparr>ch_loads := (ch_loads c)[n := (k, Settled)]\<rparr> in
      (case res of
         Rejected e \<Rightarrow> Some (Inl e, count_error settled)
       | Loaded v ttl bytes \<Rightarrow>
           (case cache_set o' k v ttl bytes now1 now2 settled of
              None \<Rightarrow> None
            | Some (Inl e, c') \<Rightarrow> Some (Inl e, count_error c')
            | Some (Inr _, c') \<Rightarrow> Some (Inr v, c'))))"

definition finish_load :: "nat \<Rightarrow> ('k, 'v) cache \<Rightarrow> ('k, 'v) cache" where
  "finish_load n c =
     (let k = fst (ch_loads c ! n)
      in c\<lparr>ch_pending := js_delete k (ch_pending c), ch_loads := (ch_loads c)[n := (k, Finished)]\<rparr>)"

definition cache_metrics :: "int \<Rightarrow> ('k, 'v) cache \<Rightarrow> (cache_counters \<times> nat \<times> int) \<times> ('k, 'v) cache" where
  "cache_metrics now c =
     (let c' = expire_entries now c in ((ch_counters c', length (ch_entries c'), ch_retainedBytes c'), c'))"

section \<open>Invariant\<close>

definition total_bytes :: "('k, 'v cache_entry) js_map \<Rightarrow> int" where
  "total_bytes m = sum_list (map (ca_bytes \<circ> snd) m)"

lemma total_bytes_simps [simp]:
  "total_bytes [] = 0" "total_bytes (kv # m) = ca_bytes (snd kv) + total_bytes m"
  "total_bytes (m @ m') = total_bytes m + total_bytes m'"
  by (simp_all add: total_bytes_def)

lemma js_delete_filter: "js_delete k m = filter (\<lambda>kv. fst kv \<noteq> k) m"
  by (auto simp: js_delete_def AList.delete_eq case_prod_unfold intro!: filter_cong)

lemma js_delete_absent: "js_get m k = None \<Longrightarrow> js_delete k m = m"
  by (auto simp: js_delete_filter js_get_None_keys js_keys_def intro!: filter_True)

lemma total_bytes_delete:
  "js_wf m \<Longrightarrow> js_get m k = Some e \<Longrightarrow> total_bytes (js_delete k m) = total_bytes m - ca_bytes e"
proof (induction m)
  case (Cons x m)
  obtain k' e' where x: "x = (k', e')" by (cases x)
  from Cons.prems(1) x have wf: "js_wf m" and k': "k' \<notin> set (js_keys m)" by (simp_all add: js_wf_def js_keys_def)
  show ?case
  proof (cases "k' = k")
    case True
    with k' have "js_delete k m = m" by (simp add: js_delete_absent js_get_None_keys)
    with True x Cons.prems(2) show ?thesis by (simp add: js_delete_filter js_get_Cons)
  next
    case False
    with Cons.prems(2) x Cons.IH [OF wf] show ?thesis by (simp add: js_delete_filter js_get_Cons)
  qed
qed simp

lemma js_delete_head: "js_wf ((k, e) # m) \<Longrightarrow> js_delete k ((k, e) # m) = m"
  by (auto simp: js_delete_filter js_wf_def js_keys_def intro!: filter_True)

lemma length_js_delete: "length (js_delete k m) \<le> length m"
  by (simp add: js_delete_filter)

definition sizes_ok :: "cache_options \<Rightarrow> ('k, 'v) cache \<Rightarrow> bool" where
  "sizes_ok o' c \<longleftrightarrow> js_wf (ch_entries c) \<and> ch_retainedBytes c = total_bytes (ch_entries c) \<and>
     (\<forall>k e. js_get (ch_entries c) k = Some e \<longrightarrow> 0 \<le> ca_bytes e \<and> ca_bytes e \<le> co_maxEntryBytes o')"

definition cache_bounded :: "cache_options \<Rightarrow> ('k, 'v) cache \<Rightarrow> bool" where
  "cache_bounded o' c \<longleftrightarrow> sizes_ok o' c \<and> int (length (ch_entries c)) \<le> co_maxEntries o' \<and>
     ch_retainedBytes c \<le> co_maxTotalBytes o'"

text \<open>A key has a pending promise exactly while its load has not finished, and only one.\<close>

definition one_load_per_key :: "('k, 'v) cache \<Rightarrow> bool" where
  "one_load_per_key c \<longleftrightarrow>
     (\<forall>k n. js_get (ch_pending c) k = Some n \<longleftrightarrow>
        n < length (ch_loads c) \<and> fst (ch_loads c ! n) = k \<and> snd (ch_loads c ! n) \<noteq> Finished)"

lemma bounded_frame [simp]:
  "cache_bounded o' (c\<lparr>ch_counters := x\<rparr>) = cache_bounded o' c"
  "cache_bounded o' (c\<lparr>ch_pending := y\<rparr>) = cache_bounded o' c"
  "cache_bounded o' (c\<lparr>ch_loads := z\<rparr>) = cache_bounded o' c"
  by (simp_all add: cache_bounded_def sizes_ok_def)

lemma remove_sizes:
  assumes "sizes_ok o' c" shows "sizes_ok o' (cache_remove k why c)"
  using assms by (auto simp: sizes_ok_def cache_remove_def total_bytes_delete split: option.splits)

lemma total_bytes_nonneg: "(\<And>k e. (k, e) \<in> set m \<Longrightarrow> 0 \<le> ca_bytes e) \<Longrightarrow> 0 \<le> total_bytes m"
  unfolding total_bytes_def by (intro sum_list_nonneg) auto

lemma remove_bounded:
  assumes "cache_bounded o' c" shows "cache_bounded o' (cache_remove k why c)"
proof -
  have "int (length (ch_entries (cache_remove k why c))) \<le> int (length (ch_entries c))"
    by (simp add: cache_remove_def length_js_delete split: option.splits)
  moreover have "ch_retainedBytes (cache_remove k why c) \<le> ch_retainedBytes c"
    using assms by (auto simp: cache_remove_def cache_bounded_def sizes_ok_def split: option.splits)
  ultimately show ?thesis using assms remove_sizes [of o' c k why] by (auto simp: cache_bounded_def)
qed

lemma remove_frame [simp]:
  "ch_pending (cache_remove k why c) = ch_pending c" "ch_loads (cache_remove k why c) = ch_loads c"
  by (simp_all add: cache_remove_def split: option.splits)

lemma expire_bounded: "cache_bounded o' c \<Longrightarrow> cache_bounded o' (expire_entries now c)"
  unfolding expire_entries_def by (rule foldl_keeps) (auto simp: remove_bounded)

lemma delete_where_bounded: "cache_bounded o' c \<Longrightarrow> cache_bounded o' (delete_where p c)"
  unfolding delete_where_def by (rule foldl_keeps) (auto simp: remove_bounded)

lemma expire_frame [simp]:
  "ch_pending (expire_entries now c) = ch_pending c" "ch_loads (expire_entries now c) = ch_loads c"
proof -
  have "ch_pending (expire_entries now c) = ch_pending c \<and> ch_loads (expire_entries now c) = ch_loads c"
    unfolding expire_entries_def by (rule foldl_keeps) auto
  then show "ch_pending (expire_entries now c) = ch_pending c" "ch_loads (expire_entries now c) = ch_loads c" by blast+
qed

lemma delete_where_frame [simp]:
  "ch_pending (delete_where p c) = ch_pending c" "ch_loads (delete_where p c) = ch_loads c"
proof -
  have "ch_pending (delete_where p c) = ch_pending c \<and> ch_loads (delete_where p c) = ch_loads c"
    unfolding delete_where_def by (rule foldl_keeps) auto
  then show "ch_pending (delete_where p c) = ch_pending c" "ch_loads (delete_where p c) = ch_loads c" by blast+
qed

section \<open>Making room\<close>

definition over_limit :: "cache_options \<Rightarrow> int \<Rightarrow> ('k, 'v cache_entry) js_map \<Rightarrow> bool" where
  "over_limit o' bytes es \<longleftrightarrow> co_maxEntries o' \<le> int (length es) \<or> co_maxTotalBytes o' < total_bytes es + bytes"

text \<open>
  The loop returns, and it evicts the shortest prefix of the entries, the least recently used
  ones, whose removal makes room.
\<close>

lemma make_room_prefix:
  assumes "sizes_ok o' c"
  shows "\<exists>n c'. make_room o' bytes c = Some c' \<and> n \<le> length (ch_entries c) \<and>
    ch_entries c' = drop n (ch_entries c) \<and>
    ch_evicted c' = ch_evicted c @ map (ca_value \<circ> snd) (take n (ch_entries c)) \<and>
    cc_evictions (ch_counters c') = cc_evictions (ch_counters c) + n \<and> sizes_ok o' c' \<and>
    ch_pending c' = ch_pending c \<and> ch_loads c' = ch_loads c \<and>
    (\<forall>m < n. over_limit o' bytes (drop m (ch_entries c))) \<and>
    (over_limit o' bytes (drop n (ch_entries c)) \<longrightarrow> n = length (ch_entries c))"
  using assms
proof (induction "ch_entries c" arbitrary: c)
  case Nil
  have "make_room o' bytes c = Some c" by (subst make_room.simps) (simp add: Nil(1) [symmetric])
  with Nil show ?case by (intro exI [of _ 0] exI [of _ c]) simp
next
  case (Cons x es)
  obtain k e where x: "x = (k, e)" by (cases x)
  from Cons(3) have total: "ch_retainedBytes c = total_bytes (ch_entries c)" and wf: "js_wf (ch_entries c)"
    by (simp_all add: sizes_ok_def)
  show ?case
  proof (cases "over_limit o' bytes (ch_entries c)")
    case False
    then have "make_room o' bytes c = Some c" by (subst make_room.simps) (simp add: over_limit_def total)
    with False Cons(3) show ?thesis by (intro exI [of _ 0] exI [of _ c]) simp
  next
    case True
    let ?c = "cache_remove k Eviction c"
    have ents: "ch_entries c = (k, e) # es" by (simp add: Cons(2) [symmetric] x)
    have head: "js_get (ch_entries c) k = Some e" by (simp add: Cons(2) [symmetric] x js_get_Cons)
    have del: "js_delete k (ch_entries c) = es"
      using wf js_delete_head [of k e es] by (simp add: Cons(2) [symmetric] x)
    have step: "make_room o' bytes c = make_room o' bytes ?c"
      using True by (subst make_room.simps) (simp add: over_limit_def total Cons(2) [symmetric] x)
    have es: "es = ch_entries ?c" by (simp add: cache_remove_def head del)
    have evicted: "ch_evicted ?c = ch_evicted c @ [ca_value e]"
      "cc_evictions (ch_counters ?c) = Suc (cc_evictions (ch_counters c))"
      by (simp_all add: cache_remove_def head count_removal_def)
    from Cons(1) [OF es remove_sizes [OF Cons(3)]] obtain n c' where ih: "make_room o' bytes ?c = Some c'"
      "n \<le> length es" "ch_entries c' = drop n es" "ch_evicted c' = ch_evicted ?c @ map (ca_value \<circ> snd) (take n es)"
      "cc_evictions (ch_counters c') = cc_evictions (ch_counters ?c) + n" "sizes_ok o' c'"
      "ch_pending c' = ch_pending c" "ch_loads c' = ch_loads c" "\<forall>m < n. over_limit o' bytes (drop m es)"
      "over_limit o' bytes (drop n es) \<longrightarrow> n = length es"
      unfolding es [symmetric] remove_frame by blast
    have "\<forall>m < Suc n. over_limit o' bytes (drop m (ch_entries c))"
      unfolding ents using ih(9) True [unfolded ents] by (auto simp: less_Suc_eq_0_disj)
    moreover have "ch_evicted c' = ch_evicted c @ map (ca_value \<circ> snd) (take (Suc n) (ch_entries c))"
      unfolding ents by (simp add: ih(4) evicted(1))
    moreover have "over_limit o' bytes (drop (Suc n) (ch_entries c)) \<longrightarrow> Suc n = length (ch_entries c)"
      unfolding ents using ih(10) by simp
    moreover have "ch_entries c' = drop (Suc n) (ch_entries c)" "Suc n \<le> length (ch_entries c)"
      unfolding ents using ih(2,3) by simp_all
    moreover have "cc_evictions (ch_counters c') = cc_evictions (ch_counters c) + Suc n"
      using ih(5) evicted(2) by simp
    moreover have "make_room o' bytes c = Some c'" using step ih(1) by simp
    ultimately show ?thesis using ih(6-8) by blast
  qed
qed

definition options_ok :: "cache_options \<Rightarrow> bool" where
  "options_ok o' \<longleftrightarrow> 0 < co_maxEntries o' \<and> 0 < co_maxEntryBytes o' \<and> 0 < co_maxTotalBytes o'"

lemma js_get_drop: "js_get m k = None \<Longrightarrow> js_get (drop n m) k = None"
  by (auto simp: js_get_None_keys js_keys_def dest!: in_set_dropD)

lemma cache_remove_gone: "js_get (ch_entries (cache_remove k why c)) k = None"
  by (simp add: cache_remove_def split: option.splits)

text \<open>
  What \<open>set\<close> does: it refuses without a change, or it clears out the expired entries and the
  old entry of the key, evicts the shortest sufficient prefix and appends the new entry.
\<close>

lemma cache_set_stores:
  fixes c :: "('k, 'v) cache" and k :: 'k and now1 :: int
  assumes opts: "options_ok o'" and inv: "cache_bounded o' c" and fits: "\<not> exceeds_bounds o' ttl bytes"
  defines "c1 \<equiv> cache_remove k Overwritten (expire_entries now1 c)"
  shows "\<exists>n c'. cache_set o' k v ttl bytes now1 now2 c = Some (Inr (), c') \<and>
    ch_entries c' = drop n (ch_entries c1) @ [(k, \<lparr>ca_value = v, ca_expiresAtMs = now2 + ttl, ca_bytes = bytes\<rparr>)] \<and>
    ch_evicted c' = ch_evicted c1 @ map (ca_value \<circ> snd) (take n (ch_entries c1)) \<and>
    (\<forall>m < n. over_limit o' bytes (drop m (ch_entries c1))) \<and> n \<le> length (ch_entries c1) \<and>
    cache_bounded o' c' \<and> ch_pending c' = ch_pending c \<and> ch_loads c' = ch_loads c"
proof -
  have c1: "cache_bounded o' c1" unfolding c1_def by (intro remove_bounded expire_bounded inv)
  then have "sizes_ok o' c1" by (simp add: cache_bounded_def)
  from make_room_prefix [OF this, of bytes] obtain n c2 where room: "make_room o' bytes c1 = Some c2"
    "n \<le> length (ch_entries c1)" "ch_entries c2 = drop n (ch_entries c1)"
    "ch_evicted c2 = ch_evicted c1 @ map (ca_value \<circ> snd) (take n (ch_entries c1))" "sizes_ok o' c2"
    "ch_pending c2 = ch_pending c1" "ch_loads c2 = ch_loads c1" "\<forall>m < n. over_limit o' bytes (drop m (ch_entries c1))"
    "over_limit o' bytes (drop n (ch_entries c1)) \<longrightarrow> n = length (ch_entries c1)" by blast
  have "\<not> over_limit o' bytes []"
    using opts fits by (simp add: over_limit_def options_ok_def exceeds_bounds_def)
  with room(9) have enough: "\<not> over_limit o' bytes (ch_entries c2)" using room(3) by (metis drop_all order_refl)
  let ?e = "\<lparr>ca_value = v, ca_expiresAtMs = now2 + ttl, ca_bytes = bytes\<rparr>"
  let ?c' = "c2\<lparr>ch_entries := js_set k ?e (ch_entries c2), ch_retainedBytes := ch_retainedBytes c2 + bytes\<rparr>"
  have "js_get (ch_entries c1) k = None" by (simp add: c1_def cache_remove_gone)
  then have fresh: "js_get (ch_entries c2) k = None" by (simp add: room(3) js_get_drop)
  have set: "cache_set o' k v ttl bytes now1 now2 c = Some (Inr (), ?c')"
    using fits room(1) by (simp add: cache_set_def c1_def)
  have "sizes_ok o' ?c'"
    using room(5) fits fresh by (auto simp: sizes_ok_def js_set_fresh exceeds_bounds_def jsm.wf_put [of _ k ?e, unfolded js_set_fresh [OF fresh]])
      (auto simp: js_wf_def js_keys_def js_get_None_keys js_get_def map_of_append split: option.splits if_splits)
  then have "cache_bounded o' ?c'"
    using enough room(5) fresh by (simp add: cache_bounded_def over_limit_def js_set_fresh sizes_ok_def)
  moreover have "ch_entries ?c' = drop n (ch_entries c1) @ [(k, ?e)]"
    using fresh room(3) by (simp add: js_set_fresh)
  ultimately show ?thesis using set room(2,4,6-8) by (auto simp: c1_def)
qed

lemma cache_set_refuses:
  "exceeds_bounds o' ttl bytes \<Longrightarrow>
     cache_set o' k v ttl bytes now1 now2 c = Some (Inl (PlainError ''Cache entry exceeds configured bounds.''), c)"
  by (simp add: cache_set_def)

lemma get_bounded:
  assumes "cache_bounded o' c" shows "cache_bounded o' (snd (cache_get k now c))"
proof (cases "js_get (ch_entries c) k")
  case (Some e)
  let ?es = "js_set k e (js_delete k (ch_entries c))"
  have wf: "js_wf (ch_entries c)" using assms by (simp add: cache_bounded_def sizes_ok_def)
  have app: "?es = js_delete k (ch_entries c) @ [(k, e)]" by (simp add: js_set_fresh)
  have "k \<in> set (js_keys (ch_entries c))" using Some by (metis js_get_None_keys option.distinct(1))
  then have "js_delete k (ch_entries c) \<noteq> ch_entries c" by (auto simp: js_delete_filter js_keys_def filter_id_conv)
  then have len: "length ?es \<le> length (ch_entries c)"
    unfolding app by (simp add: js_delete_filter) (metis (no_types, lifting) filter_id_conv length_filter_less Suc_leI)
  have "total_bytes ?es = total_bytes (ch_entries c)" unfolding app using total_bytes_delete [OF wf Some] by simp
  moreover have "js_wf ?es" using wf by simp
  ultimately have "cache_bounded o' (c\<lparr>ch_entries := ?es\<rparr>)"
    using assms len Some by (auto simp: cache_bounded_def sizes_ok_def split: if_splits)
  then show ?thesis
    using remove_bounded [OF assms] Some by (simp add: cache_get_def count_hit_def count_miss_def)
qed (use assms in \<open>simp add: cache_get_def count_miss_def\<close>)

lemma get_frame [simp]:
  "ch_pending (snd (cache_get k now c)) = ch_pending c" "ch_loads (snd (cache_get k now c)) = ch_loads c"
  by (simp_all add: cache_get_def count_hit_def count_miss_def split: option.splits)

section \<open>Reachable caches\<close>

text \<open>
  The public operations and the turns of the loads.  A turn that does not return leaves no
  successor state.
\<close>

inductive cache_reachable :: "cache_options \<Rightarrow> ('k, 'v) cache \<Rightarrow> bool" for o' :: cache_options where
  cr_new: "new_cache o' = Inr c \<Longrightarrow> cache_reachable o' c"
| cr_get: "cache_reachable o' c \<Longrightarrow> cache_reachable o' (snd (cache_get k now c))"
| cr_set: "cache_reachable o' c \<Longrightarrow> cache_set o' k v ttl bytes now1 now2 c = Some (res, c') \<Longrightarrow> cache_reachable o' c'"
| cr_delete: "cache_reachable o' c \<Longrightarrow> cache_reachable o' (delete_where p c)"
| cr_metrics: "cache_reachable o' c \<Longrightarrow> cache_reachable o' (snd (cache_metrics now c))"
| cr_load: "cache_reachable o' c \<Longrightarrow> cache_reachable o' (snd (get_or_load k force now c))"
| cr_settle: "cache_reachable o' c \<Longrightarrow> n < length (ch_loads c) \<Longrightarrow> snd (ch_loads c ! n) = Loading \<Longrightarrow>
    settle_load o' n res now1 now2 c = Some (out, c') \<Longrightarrow> cache_reachable o' c'"
| cr_finish: "cache_reachable o' c \<Longrightarrow> n < length (ch_loads c) \<Longrightarrow> snd (ch_loads c ! n) = Settled \<Longrightarrow>
    cache_reachable o' (finish_load n c)"

lemma set_bounded:
  assumes "options_ok o'" "cache_bounded o' c" "cache_set o' k v ttl bytes now1 now2 c = Some (res, c')"
  shows "cache_bounded o' c'" "ch_pending c' = ch_pending c" "ch_loads c' = ch_loads c"
proof -
  have "cache_bounded o' c' \<and> ch_pending c' = ch_pending c \<and> ch_loads c' = ch_loads c"
  proof (cases "exceeds_bounds o' ttl bytes")
    case True
    with assms(2,3) show ?thesis by (simp add: cache_set_refuses)
  next
    case False
    from cache_set_stores [OF assms(1,2) this, of k v now1 now2] assms(3) show ?thesis by auto
  qed
  then show "cache_bounded o' c'" "ch_pending c' = ch_pending c" "ch_loads c' = ch_loads c" by blast+
qed

lemma one_load_frame:
  "ch_pending c' = ch_pending c \<Longrightarrow> ch_loads c' = ch_loads c \<Longrightarrow> one_load_per_key c' = one_load_per_key c"
  by (simp add: one_load_per_key_def)

lemma one_load_counters: "one_load_per_key (c\<lparr>ch_counters := x\<rparr>) = one_load_per_key c"
  by (rule one_load_frame) simp_all

lemma join_or_start_bounded: "cache_bounded o' c \<Longrightarrow> cache_bounded o' (snd (join_or_start k c))"
  by (simp add: join_or_start_def Let_def split: option.splits)

lemma join_or_start_one_load:
  assumes "one_load_per_key c" shows "one_load_per_key (snd (join_or_start k c))"
proof (cases "js_get (ch_pending c) k")
  case None
  let ?n = "length (ch_loads c)"
  have "js_get (js_set k ?n (ch_pending c)) k' = Some m \<longleftrightarrow> m < Suc ?n \<and>
      fst ((ch_loads c @ [(k, Loading)]) ! m) = k' \<and> snd ((ch_loads c @ [(k, Loading)]) ! m) \<noteq> Finished" for k' m
  proof (cases "m = ?n")
    case True
    then show ?thesis using assms unfolding one_load_per_key_def by (simp add: eq_commute [of k k'])
  next
    case False
    have "\<not> (m < ?n \<and> fst (ch_loads c ! m) = k \<and> snd (ch_loads c ! m) \<noteq> Finished)"
      using assms None unfolding one_load_per_key_def by (metis option.distinct(1))
    with False assms show ?thesis unfolding one_load_per_key_def by (auto simp: nth_append less_Suc_eq)
  qed
  with None show ?thesis by (simp add: join_or_start_def Let_def one_load_per_key_def)
next
  case (Some n)
  then show ?thesis using assms by (simp add: join_or_start_def one_load_counters)
qed

lemma get_or_load_keeps:
  assumes "cache_bounded o' c" "one_load_per_key c"
  shows "cache_bounded o' (snd (get_or_load k force now c)) \<and> one_load_per_key (snd (get_or_load k force now c))"
proof (cases force)
  case True
  let ?c1 = "count_miss (cache_remove k Overwritten c)"
  have "cache_bounded o' ?c1" by (simp add: count_miss_def remove_bounded assms(1))
  moreover have "one_load_per_key ?c1" using assms(2) one_load_frame [of ?c1 c] by (simp add: count_miss_def)
  ultimately show ?thesis using True by (simp add: get_or_load_def join_or_start_bounded join_or_start_one_load)
next
  case False
  have c1: "cache_bounded o' (snd (cache_get k now c))" "one_load_per_key (snd (cache_get k now c))"
    using get_bounded [OF assms(1)] assms(2) by (simp_all add: one_load_frame [OF get_frame])
  obtain hit c2 where g: "cache_get k now c = (hit, c2)" by fastforce
  with False c1 show ?thesis
    by (cases hit) (simp_all add: get_or_load_def join_or_start_bounded join_or_start_one_load)
qed

lemma settle_one_load:
  assumes "one_load_per_key c" "n < length (ch_loads c)" "snd (ch_loads c ! n) = Loading"
  shows "one_load_per_key (c\<lparr>ch_loads := (ch_loads c)[n := (fst (ch_loads c ! n), Settled)]\<rparr>)"
  using assms unfolding one_load_per_key_def by (auto simp: nth_list_update)

lemma finish_one_load:
  assumes "one_load_per_key c" "n < length (ch_loads c)" "snd (ch_loads c ! n) = Settled"
  shows "one_load_per_key (finish_load n c)"
proof -
  have only: "m = n" if "m < length (ch_loads c)" "fst (ch_loads c ! m) = fst (ch_loads c ! n)"
      "snd (ch_loads c ! m) \<noteq> Finished" for m
    using assms that unfolding one_load_per_key_def by (metis load_status.distinct(5) option.inject)
  show ?thesis
    using assms(1,2) only unfolding one_load_per_key_def finish_load_def Let_def
    by (auto simp: nth_list_update split: if_splits) 
qed

lemma cache_reachable_inv:
  assumes "cache_reachable o' c" shows "options_ok o' \<and> cache_bounded o' c \<and> one_load_per_key c"
  using assms
proof (induction rule: cache_reachable.induct)
  case (cr_new c)
  then show ?case
    by (auto simp: new_cache_def empty_cache_def options_ok_def cache_bounded_def sizes_ok_def one_load_per_key_def split: if_splits)
next
  case (cr_get c k now)
  then show ?case by (simp add: get_bounded one_load_frame [OF get_frame])
next
  case (cr_set c k v ttl bytes now1 now2 res c')
  then show ?case using set_bounded [of o' c k v ttl bytes now1 now2 res c'] one_load_frame [of c' c] by blast
next
  case (cr_delete c p)
  then show ?case by (simp add: delete_where_bounded one_load_frame [OF delete_where_frame])
next
  case (cr_metrics c now)
  then show ?case by (simp add: cache_metrics_def Let_def expire_bounded one_load_frame [OF expire_frame])
next
  case (cr_load c k force now)
  then show ?case using get_or_load_keeps [of o' c k force now] by simp
next
  case (cr_settle c n res now1 now2 out c')
  let ?s = "c\<lparr>ch_loads := (ch_loads c)[n := (fst (ch_loads c ! n), Settled)]\<rparr>"
  have s: "options_ok o'" "cache_bounded o' ?s" "one_load_per_key ?s" using cr_settle by (simp_all add: settle_one_load)
  have err: "cache_bounded o' (count_error d) = cache_bounded o' d" "one_load_per_key (count_error d) = one_load_per_key d" for d
    by (simp_all add: count_error_def one_load_per_key_def)
  show ?case
  proof (cases res)
    case (Rejected e)
    with cr_settle.hyps(4) s show ?thesis by (simp add: settle_load_def Let_def err [of ?s, symmetric] del: err) (auto simp: err)
  next
    case (Loaded v ttl bytes)
    with cr_settle.hyps(4) obtain r c2 where set: "cache_set o' (fst (ch_loads c ! n)) v ttl bytes now1 now2 ?s = Some (r, c2)"
      "c' = c2 \<or> c' = count_error c2"
      by (auto simp: settle_load_def Let_def split: option.splits prod.splits sum.splits)
    from set_bounded [OF s(1,2) set(1)] s(3) have "cache_bounded o' c2" "one_load_per_key c2"
      using one_load_frame [of c2 ?s] by simp_all
    with set(2) s(1) show ?thesis by (auto simp: err)
  qed
next
  case (cr_finish c n)
  then show ?case using finish_one_load [of c n] by (simp add: finish_load_def Let_def)
qed

section \<open>Values held and evicted\<close>

text \<open>
  Each value the cache took over is in an entry or was handed to \<open>onEvict\<close>, once.
\<close>

definition held :: "('k, 'v) cache \<Rightarrow> 'v multiset" where
  "held c = mset (map (ca_value \<circ> snd) (ch_entries c)) + mset (ch_evicted c)"

definition evicts_on :: "('k, 'v) cache \<Rightarrow> ('k, 'v) cache \<Rightarrow> bool" where
  "evicts_on c c' \<longleftrightarrow> (\<exists>vs. ch_evicted c' = ch_evicted c @ vs)"

lemma evicts_on_refl [simp]: "ch_evicted c' = ch_evicted c \<Longrightarrow> evicts_on c c'"
  by (simp add: evicts_on_def)

lemma evicts_on_counters [simp]: "evicts_on c (c'\<lparr>ch_counters := x\<rparr>) = evicts_on c c'"
  by (simp add: evicts_on_def)

lemma evicts_on_trans: "evicts_on c c' \<Longrightarrow> evicts_on c' c'' \<Longrightarrow> evicts_on c c''"
  by (auto simp: evicts_on_def)

lemma mset_js_delete:
  "js_wf m \<Longrightarrow> js_get m k = Some e \<Longrightarrow> mset m = add_mset (k, e) (mset (js_delete k m))"
proof (induction m)
  case (Cons x m)
  obtain k' e' where x: "x = (k', e')" by (cases x)
  show ?case
  proof (cases "k' = k")
    case True
    with Cons.prems x js_delete_head [of k e' m] show ?thesis by (simp add: js_get_Cons)
  next
    case False
    with Cons x show ?thesis by (simp add: js_delete_filter js_get_Cons js_wf_def js_keys_def)
  qed
qed simp

definition keeps_held :: "cache_options \<Rightarrow> ('k, 'v) cache \<Rightarrow> ('k, 'v) cache \<Rightarrow> bool" where
  "keeps_held o' c c' \<longleftrightarrow> cache_bounded o' c' \<and> held c' = held c \<and> evicts_on c c'"

lemma keeps_held_trans: "keeps_held o' c c' \<Longrightarrow> keeps_held o' c' c'' \<Longrightarrow> keeps_held o' c c''"
  by (auto simp: keeps_held_def intro: evicts_on_trans)

lemma keeps_held_refl: "cache_bounded o' c \<Longrightarrow> keeps_held o' c c"
  by (simp add: keeps_held_def)

lemma remove_held:
  assumes "cache_bounded o' c" shows "keeps_held o' c (cache_remove k why c)"
proof (cases "js_get (ch_entries c) k")
  case None
  then show ?thesis using assms by (simp add: cache_remove_def keeps_held_refl)
next
  case (Some e)
  have "js_wf (ch_entries c)" using assms by (simp add: cache_bounded_def sizes_ok_def)
  from mset_js_delete [OF this Some] have "held (cache_remove k why c) = held c"
    by (simp add: held_def cache_remove_def Some)
  moreover have "evicts_on c (cache_remove k why c)" by (simp add: evicts_on_def cache_remove_def Some)
  ultimately show ?thesis using remove_bounded [OF assms] by (simp add: keeps_held_def)
qed

lemma expire_held:
  assumes "cache_bounded o' c" shows "keeps_held o' c (expire_entries now c)"
  unfolding expire_entries_def
proof (rule foldl_keeps [where P = "keeps_held o' c"])
  fix c' :: "('a, 'b) cache" and x :: "'a \<times> 'b cache_entry"
  assume c': "keeps_held o' c c'"
  then have "cache_bounded o' c'" by (simp add: keeps_held_def)
  from keeps_held_trans [OF c' remove_held [OF this]] c'
  show "keeps_held o' c (case x of (k, e) \<Rightarrow> if ca_expiresAtMs e \<le> now then cache_remove k Expiration c' else c')"
    by (cases x) simp
qed (rule keeps_held_refl [OF assms])

lemma held_frame [simp]:
  "held (c\<lparr>ch_counters := x\<rparr>) = held c" "held (c\<lparr>ch_pending := y\<rparr>) = held c" "held (c\<lparr>ch_loads := z\<rparr>) = held c"
  by (simp_all add: held_def)

lemma keeps_held_frame [simp]:
  "keeps_held o' c (c'\<lparr>ch_counters := x\<rparr>) = keeps_held o' c c'"
  "keeps_held o' c (c'\<lparr>ch_pending := y\<rparr>) = keeps_held o' c c'"
  "keeps_held o' c (c'\<lparr>ch_loads := z\<rparr>) = keeps_held o' c c'"
  by (simp_all add: keeps_held_def evicts_on_def)

lemma get_held:
  assumes "cache_bounded o' c" shows "keeps_held o' c (snd (cache_get k now c))"
proof (cases "js_get (ch_entries c) k")
  case None
  then show ?thesis using assms by (simp add: cache_get_def count_miss_def keeps_held_refl)
next
  case (Some e)
  let ?es = "js_delete k (ch_entries c) @ [(k, e)]"
  have app: "js_set k e (js_delete k (ch_entries c)) = ?es" by (simp add: js_set_fresh)
  have "js_wf (ch_entries c)" using assms by (simp add: cache_bounded_def sizes_ok_def)
  from mset_js_delete [OF this Some] have "held (c\<lparr>ch_entries := ?es\<rparr>) = held c"
    by (simp add: held_def)
  moreover have "held (count_hit c') = held c'" "ch_evicted (count_hit c') = ch_evicted c'" for c' :: "('a, 'b) cache"
    by (simp_all add: count_hit_def)
  ultimately show ?thesis
    using get_bounded [OF assms, of k now] remove_held [OF assms, of k Expiration]
    by (auto simp: cache_get_def Some app count_miss_def keeps_held_def)
qed

lemma join_or_start_held: "cache_bounded o' c \<Longrightarrow> keeps_held o' c (snd (join_or_start k c))"
  by (simp add: join_or_start_def Let_def keeps_held_refl split: option.splits)

lemma get_or_load_held:
  assumes "cache_bounded o' c" shows "keeps_held o' c (snd (get_or_load k False now c))"
proof -
  obtain hit c1 where g: "cache_get k now c = (hit, c1)" by fastforce
  with get_held [OF assms, of k now] have c1: "keeps_held o' c c1" by simp
  then have "cache_bounded o' c1" by (simp add: keeps_held_def)
  from keeps_held_trans [OF c1 join_or_start_held [OF this]] c1 g show ?thesis
    by (cases hit) (simp_all add: get_or_load_def)
qed

lemma metrics_held: "cache_bounded o' c \<Longrightarrow> keeps_held o' c (snd (cache_metrics now c))"
  by (simp add: cache_metrics_def Let_def expire_held)

lemma cached_value_held:
  assumes "fst (get_or_load k False now c) = Cached v"
  shows "v \<in> ca_value ` snd ` set (ch_entries (snd (get_or_load k False now c)))"
proof (cases "js_get (ch_entries c) k")
  case None
  with assms show ?thesis by (auto simp: get_or_load_def cache_get_def join_or_start_def Let_def split: option.splits)
next
  case (Some e)
  show ?thesis
  proof (cases "ca_expiresAtMs e \<le> now")
    case True
    with Some assms show ?thesis by (auto simp: get_or_load_def cache_get_def join_or_start_def Let_def split: option.splits)
  next
    case False
    with Some assms show ?thesis by (simp add: get_or_load_def cache_get_def count_hit_def js_set_fresh)
  qed
qed

text \<open>A load that settles adds its value, or nothing.\<close>

lemma settle_held:
  assumes "options_ok o'" "cache_bounded o' c" "settle_load o' n res now1 now2 c = Some (out, c')"
  shows "(\<exists>v ttl b. res = Loaded v ttl b \<and> out = Inr v \<and> cache_bounded o' c' \<and> held c' = add_mset v (held c) \<and> evicts_on c c') \<or>
    ((\<exists>e. out = Inl e) \<and> keeps_held o' c c')"
proof (cases res)
  case (Rejected e)
  with assms show ?thesis by (auto simp: settle_load_def Let_def count_error_def keeps_held_refl)
next
  case (Loaded v ttl b)
  let ?k = "fst (ch_loads c ! n)" and ?c0 = "c\<lparr>ch_loads := (ch_loads c)[n := (fst (ch_loads c ! n), Settled)]\<rparr>"
  have c0: "cache_bounded o' ?c0" using assms(2) by simp
  show ?thesis
  proof (cases "exceeds_bounds o' ttl b")
    case True
    with Loaded assms show ?thesis
      by (auto simp: settle_load_def Let_def count_error_def cache_set_refuses keeps_held_refl)
  next
    case False
    let ?c1 = "cache_remove ?k Overwritten (expire_entries now1 ?c0)"
    have "keeps_held o' ?c0 (expire_entries now1 ?c0)" by (rule expire_held [OF c0])
    moreover from this have "keeps_held o' (expire_entries now1 ?c0) ?c1"
      by (intro remove_held) (simp add: keeps_held_def)
    ultimately have c1: "keeps_held o' ?c0 ?c1" by (rule keeps_held_trans)
    from cache_set_stores [OF assms(1) c0 False, of ?k v now1 now2] obtain m c2 where
      set: "cache_set o' ?k v ttl b now1 now2 ?c0 = Some (Inr (), c2)"
      and es: "ch_entries c2 = drop m (ch_entries ?c1) @ [(?k, \<lparr>ca_value = v, ca_expiresAtMs = now2 + ttl, ca_bytes = b\<rparr>)]"
      and ev: "ch_evicted c2 = ch_evicted ?c1 @ map (ca_value \<circ> snd) (take m (ch_entries ?c1))"
      and c2: "cache_bounded o' c2" by blast
    have "mset (take m (ch_entries ?c1)) + mset (drop m (ch_entries ?c1)) = mset (ch_entries ?c1)"
      by (metis append_take_drop_id mset_append)
    then have "image_mset (ca_value \<circ> snd) (mset (take m (ch_entries ?c1))) + image_mset (ca_value \<circ> snd) (mset (drop m (ch_entries ?c1)))
        = image_mset (ca_value \<circ> snd) (mset (ch_entries ?c1))" by (metis image_mset_union)
    then have "held c2 = add_mset v (held ?c1)" unfolding held_def es ev by (simp add: ac_simps)
    with c1 have h: "held c2 = add_mset v (held c)" by (simp add: keeps_held_def)
    have "evicts_on ?c0 ?c1" using c1 by (simp add: keeps_held_def)
    then have "evicts_on c c2" unfolding evicts_on_def ev by auto
    moreover have "c' = c2" "out = Inr v" using assms(3) Loaded set by (simp_all add: settle_load_def Let_def)
    ultimately show ?thesis using Loaded c2 h by blast
  qed
qed

section \<open>Properties\<close>

text \<open>
  C20: the cache keeps its bounds, and loads are not duplicated.  In every reachable cache the
  number of entries, the size of each and their total are within the configured limits, the
  retained size is the sum of the entries' sizes, and two loads of one key that have not
  finished are the same load.
\<close>
theorem async_cache_bounded:
  assumes "cache_reachable o' c"
  shows "int (length (ch_entries c)) \<le> co_maxEntries o' \<and> ch_retainedBytes c = total_bytes (ch_entries c) \<and>
    ch_retainedBytes c \<le> co_maxTotalBytes o' \<and> js_wf (ch_entries c) \<and>
    (\<forall>k e. js_get (ch_entries c) k = Some e \<longrightarrow> 0 \<le> ca_bytes e \<and> ca_bytes e \<le> co_maxEntryBytes o') \<and>
    (\<forall>n m. n < length (ch_loads c) \<longrightarrow> m < length (ch_loads c) \<longrightarrow> fst (ch_loads c ! n) = fst (ch_loads c ! m) \<longrightarrow>
       snd (ch_loads c ! n) \<noteq> Finished \<longrightarrow> snd (ch_loads c ! m) \<noteq> Finished \<longrightarrow> n = m)"
proof -
  have inv: "cache_bounded o' c" "one_load_per_key c" using cache_reachable_inv [OF assms] by blast+
  from inv(2) have "n = m" if "n < length (ch_loads c)" "m < length (ch_loads c)"
    "fst (ch_loads c ! n) = fst (ch_loads c ! m)" "snd (ch_loads c ! n) \<noteq> Finished" "snd (ch_loads c ! m) \<noteq> Finished" for n m
    using that unfolding one_load_per_key_def by (metis option.inject)
  with inv(1) show ?thesis unfolding cache_bounded_def sizes_ok_def by blast
qed

text \<open>
  C21: \<open>set\<close> returns, and evicts no more than it must.  An entry outside the bounds is refused
  and changes nothing.  Any other is stored as the most recently used one: the loop that makes
  room ends after evicting the shortest prefix of the remaining entries, the least recently
  used ones, that leaves room, and the entry can be read until its lifetime is over.
\<close>
theorem cache_set_returns_and_evicts_lru:
  fixes c :: "('k, 'v) cache" and k :: 'k and now1 :: int
  assumes "cache_reachable o' c"
  defines "c1 \<equiv> cache_remove k Overwritten (expire_entries now1 c)"
  shows "(exceeds_bounds o' ttl bytes \<longrightarrow> (\<exists>e. cache_set o' k v ttl bytes now1 now2 c = Some (Inl e, c))) \<and>
    (\<not> exceeds_bounds o' ttl bytes \<longrightarrow>
      (\<exists>n c'. cache_set o' k v ttl bytes now1 now2 c = Some (Inr (), c') \<and>
        map fst (ch_entries c') = drop n (map fst (ch_entries c1)) @ [k] \<and>
        ch_evicted c' = ch_evicted c1 @ map (ca_value \<circ> snd) (take n (ch_entries c1)) \<and>
        (\<forall>m < n. over_limit o' bytes (drop m (ch_entries c1))) \<and>
        (\<forall>t < now2 + ttl. fst (cache_get k t c') = Some v)))"
proof -
  have inv: "options_ok o'" "cache_bounded o' c" using cache_reachable_inv [OF assms(1)] by blast+
  have stored: "\<exists>n c'. cache_set o' k v ttl bytes now1 now2 c = Some (Inr (), c') \<and>
        map fst (ch_entries c') = drop n (map fst (ch_entries c1)) @ [k] \<and>
        ch_evicted c' = ch_evicted c1 @ map (ca_value \<circ> snd) (take n (ch_entries c1)) \<and>
        (\<forall>m < n. over_limit o' bytes (drop m (ch_entries c1))) \<and>
        (\<forall>t < now2 + ttl. fst (cache_get k t c') = Some v)" if fits: "\<not> exceeds_bounds o' ttl bytes"
  proof -
    let ?e = "\<lparr>ca_value = v, ca_expiresAtMs = now2 + ttl, ca_bytes = bytes\<rparr>"
    from cache_set_stores [OF inv fits, of k v now1 now2, folded c1_def] obtain n c' where
      set: "cache_set o' k v ttl bytes now1 now2 c = Some (Inr (), c')"
      "ch_entries c' = drop n (ch_entries c1) @ [(k, ?e)]"
      "ch_evicted c' = ch_evicted c1 @ map (ca_value \<circ> snd) (take n (ch_entries c1))"
      "\<forall>m < n. over_limit o' bytes (drop m (ch_entries c1))" "cache_bounded o' c'" by blast
    have "js_get (ch_entries c') k = Some ?e"
      using set(2,5) js_wf_get [of "ch_entries c'" k ?e] by (simp add: cache_bounded_def sizes_ok_def)
    then have "\<forall>t < now2 + ttl. fst (cache_get k t c') = Some v" by (simp add: cache_get_def)
    moreover have "map fst (ch_entries c') = drop n (map fst (ch_entries c1)) @ [k]" by (simp add: set(2) drop_map)
    ultimately show ?thesis using set by blast
  qed
  then show ?thesis by (simp add: cache_set_refuses)
qed

definition demo_cache_options :: cache_options where
  "demo_cache_options = \<lparr>co_maxEntries = 2, co_maxEntryBytes = 10, co_maxTotalBytes = 15\<rparr>"

text \<open>Two entries are set, then the first is read, so that the second is the older one.\<close>

definition demo_cache :: "(string, nat) cache" where
  "demo_cache =
     (let run = (\<lambda>k v c. case cache_set demo_cache_options k v 100 5 0 0 c of Some (_, c') \<Rightarrow> c' | None \<Rightarrow> c)
      in snd (cache_get ''a'' 1 (run ''b'' 2 (run ''a'' 1 empty_cache))))"

lemma demo_cache_reachable: "cache_reachable demo_cache_options demo_cache"
proof -
  let ?run = "\<lambda>k v c. case cache_set demo_cache_options k v 100 5 0 0 c of Some (_, c') \<Rightarrow> c' | None \<Rightarrow> c"
  have run: "cache_reachable demo_cache_options (?run k v c)" if "cache_reachable demo_cache_options c"
    for k v and c :: "(string, nat) cache"
    using that cr_set [OF that] by (auto split: option.splits prod.splits)
  have "cache_reachable demo_cache_options (empty_cache :: (string, nat) cache)"
    by (rule cr_new) (simp add: new_cache_def demo_cache_options_def)
  then show ?thesis unfolding demo_cache_def Let_def by (intro cr_get run)
qed

lemma demo_cache_entries: "map fst (ch_entries demo_cache) = [''b'', ''a'']"
  "map fst (ch_entries (cache_remove ''c'' Overwritten (expire_entries 50 demo_cache))) = [''b'', ''a'']"
  by code_simp+

theorem async_cache_bounded_witness:
  "int (length (ch_entries demo_cache)) \<le> 2 \<and> ch_retainedBytes demo_cache \<le> 15"
  using async_cache_bounded [OF demo_cache_reachable] by (simp add: demo_cache_options_def)

theorem cache_set_returns_and_evicts_lru_witness:
  "\<exists>c'. cache_set demo_cache_options ''c'' 3 100 10 50 50 demo_cache = Some (Inr (), c') \<and>
     ''c'' = last (map fst (ch_entries c')) \<and> fst (cache_get ''c'' 149 c') = Some 3"
proof -
  have "\<not> exceeds_bounds demo_cache_options 100 10" by (simp add: exceeds_bounds_def demo_cache_options_def)
  with cache_set_returns_and_evicts_lru [OF demo_cache_reachable, of 100 10 "''c''" 3 50 50]
  obtain n c' where "cache_set demo_cache_options ''c'' 3 100 10 50 50 demo_cache = Some (Inr (), c')"
    "map fst (ch_entries c') = drop n (map fst (ch_entries (cache_remove ''c'' Overwritten (expire_entries 50 demo_cache)))) @ [''c'']"
    "\<forall>t < 150. fst (cache_get ''c'' t c') = Some 3" by auto
  then show ?thesis by simp
qed

text \<open>
  Clearing the cache does not reach a load in flight: the value that was asked for before the
  clearing is stored after it.
\<close>
lemma cleared_value_comes_back:
  "(let c0 = snd (get_or_load ''k'' False 0 demo_cache); c1 = delete_where (\<lambda>_. True) c0 in
    case settle_load demo_cache_options 0 (Loaded 7 100 5) 1 1 c1 of
      Some (_, c2) \<Rightarrow> fst (cache_get ''k'' 2 c2) | None \<Rightarrow> None) = Some 7"
  by code_simp

end
