(* ===== verification/CustomerTransport.thy ===== *)
theory CustomerTransport
  imports AsyncCache FestCalendar "HOL-Library.Word"
begin

text \<open>
  \<open>CustomerAccountTransport\<close> of \<open>packages/backend/src/customer/customer-account-transport.ts\<close>:
  which DNS answers may be used, which destinations may be called, and the life of a DNS lease,
  whose connection agent is destroyed once it is out of the cache and idle.  The resolver, the
  requester and the JSON parser are outside: their results are arguments of the steps.  An
  \<open>await\<close> is the point between two steps.
\<close>

unbundle bit_operations_syntax

section \<open>Addresses\<close>

text \<open>
  An address as \<open>net.isIP\<close>, \<open>net.BlockList\<close> and \<open>URL\<close> read it, beside its text.
\<close>

datatype ip_address = IPv4 "32 word" | IPv6 "128 word"

record dns_answer =
  da_address :: string
  da_ip :: "ip_address option"
  da_family :: nat
  da_ttlSeconds :: int

definition in_subnet_v4 :: "32 word \<Rightarrow> nat \<Rightarrow> 32 word \<Rightarrow> bool" where
  "in_subnet_v4 net prefix w \<longleftrightarrow> drop_bit (32 - prefix) w = drop_bit (32 - prefix) net"

definition in_subnet_v6 :: "128 word \<Rightarrow> nat \<Rightarrow> 128 word \<Rightarrow> bool" where
  "in_subnet_v6 net prefix w \<longleftrightarrow> drop_bit (128 - prefix) w = drop_bit (128 - prefix) net"

definition blocked_v4 :: "(32 word \<times> nat) list" where
  "blocked_v4 =
     [(0x00000000, 8), (0x0A000000, 8), (0x64400000, 10), (0x7F000000, 8), (0xA9FE0000, 16), (0xAC100000, 12),
      (0xC0000000, 24), (0xC0000200, 24), (0xC0586300, 24), (0xC0A80000, 16), (0xC6120000, 15), (0xC6336400, 24),
      (0xCB007100, 24), (0xE0000000, 4), (0xF0000000, 4)]"

text \<open>The high 64 bits of the blocked IPv6 networks, and two longer ones.\<close>

definition blocked_v6 :: "(128 word \<times> nat) list" where
  "blocked_v6 =
     [(0, 96), (1, 128), (push_bit 96 0x0064FF9B, 96), (push_bit 80 0x0064FF9B0001, 48), (push_bit 112 0x0100, 64),
      (push_bit 112 0x2001, 23), (push_bit 96 0x20010DB8, 32), (push_bit 112 0x2002, 16), (push_bit 112 0x3FFF, 20),
      (push_bit 112 0xFC00, 7), (push_bit 112 0xFE80, 10), (push_bit 112 0xFEC0, 10), (push_bit 112 0xFF00, 8)]"

definition is_blocked :: "ip_address \<Rightarrow> bool" where
  "is_blocked ip =
     (case ip of IPv4 w \<Rightarrow> list_ex (\<lambda>(net, p). in_subnet_v4 net p w) blocked_v4
      | IPv6 w \<Rightarrow> list_ex (\<lambda>(net, p). in_subnet_v6 net p w) blocked_v6)"

text \<open>
  The canonical text of an IPv6 address starts with \<open>::ffff:\<close> when the first group that is not
  zero is \<open>ffff\<close>, is not the last one, and the zero groups before it are the longest run of
  zero groups (a single zero is not shortened).
\<close>

definition ipv6_groups :: "128 word \<Rightarrow> nat list" where
  "ipv6_groups w = map (\<lambda>k. unat w div 2 ^ (16 * (7 - k)) mod 2 ^ 16) [0..<8]"

fun longest_zero_run :: "nat \<Rightarrow> nat list \<Rightarrow> nat" where
  "longest_zero_run n [] = n"
| "longest_zero_run n (g # gs) = (if g = 0 then longest_zero_run (Suc n) gs else max n (longest_zero_run 0 gs))"

definition text_starts_mapped :: "128 word \<Rightarrow> bool" where
  "text_starts_mapped w =
     (let gs = ipv6_groups w; k = length (takeWhile (\<lambda>g. g = 0) gs)
      in 2 \<le> k \<and> k < 7 \<and> gs ! k = 0xFFFF \<and> longest_zero_run 0 gs = k)"

definition is_global_address :: "dns_answer \<Rightarrow> bool" where
  "is_global_address a =
     (case da_ip a of
        None \<Rightarrow> False
      | Some (IPv4 w) \<Rightarrow> da_family a = 4 \<and> 0 < da_ttlSeconds a \<and> \<not> is_blocked (IPv4 w)
      | Some (IPv6 w) \<Rightarrow> da_family a = 6 \<and> \<not> text_starts_mapped w \<and> 0 < da_ttlSeconds a \<and> \<not> is_blocked (IPv6 w))"

section \<open>Destinations\<close>

record url_parts =
  up_protocol :: string
  up_username :: string
  up_password :: string
  up_port :: string
  up_hostname :: string

definition ends_with :: "string \<Rightarrow> string \<Rightarrow> bool" where
  "ends_with s suffix \<longleftrightarrow> length suffix \<le> length s \<and> drop (length s - length suffix) s = suffix"

fun split_dots :: "string \<Rightarrow> string list" where
  "split_dots [] = [[]]"
| "split_dots (c # cs) =
     (if c = CHR ''.'' then [] # split_dots cs
      else (case split_dots cs of [] \<Rightarrow> [[c]] | p # ps \<Rightarrow> (c # p) # ps))"

text \<open>\<open>/^\d+\.\d+\.\d+\.\d+$/\<close>.\<close>

definition is_dotted_quad :: "string \<Rightarrow> bool" where
  "is_dotted_quad s \<longleftrightarrow>
     length (split_dots s) = 4 \<and> list_all (\<lambda>p. p \<noteq> [] \<and> list_all (\<lambda>c. char_digit c \<noteq> None) p) (split_dots s)"

definition assert_destination :: "url_parts \<Rightarrow> string \<Rightarrow> unit outcome" where
  "assert_destination url configured =
     and_then (guard (\<not> (up_protocol url \<noteq> ''https:'' \<or> up_username url \<noteq> [] \<or> up_password url \<noteq> [] \<or> up_port url \<noteq> []))
        (PlainError ''Unsafe Customer Account destination.'')) (\<lambda>_.
     let host = js_lower (up_hostname url); domain = js_lower configured;
         shopify = (host = ''shopify.com'' \<or> ends_with host ''.shopify.com'' \<or> ends_with host ''.myshopify.com'')
     in guard (\<not> ((host \<noteq> domain \<and> \<not> shopify) \<or> is_dotted_quad host \<or> CHR '':'' \<in> set host))
          (PlainError ''Unsafe Customer Account destination.''))"

section \<open>Leases\<close>

text \<open>\<open>ls_destroyCalls\<close> counts the calls of \<open>agent.destroy()\<close>.\<close>

record dns_lease =
  ls_answers :: "dns_answer list"
  ls_next :: nat
  ls_activeRequests :: int
  ls_retired :: bool
  ls_destroyed :: bool
  ls_destroyCalls :: nat

definition new_lease :: "dns_answer list \<Rightarrow> dns_lease" where
  "new_lease answers = \<lparr>ls_answers = answers, ls_next = 0, ls_activeRequests = 0, ls_retired = False,
     ls_destroyed = False, ls_destroyCalls = 0\<rparr>"

definition destroy_retired_if_idle :: "dns_lease \<Rightarrow> dns_lease" where
  "destroy_retired_if_idle l =
     (if ls_retired l \<and> ls_activeRequests l = 0 \<and> \<not> ls_destroyed l
      then l\<lparr>ls_destroyed := True, ls_destroyCalls := Suc (ls_destroyCalls l)\<rparr> else l)"

definition retire_lease :: "dns_lease \<Rightarrow> dns_lease" where
  "retire_lease l = destroy_retired_if_idle (l\<lparr>ls_retired := True\<rparr>)"

definition acquire_lease :: "dns_lease \<Rightarrow> dns_lease outcome" where
  "acquire_lease l =
     (if ls_retired l then Inl (PlainError ''Customer Account DNS lease is already retired.'')
      else Inr (l\<lparr>ls_activeRequests := ls_activeRequests l + 1\<rparr>))"

definition release_lease :: "dns_lease \<Rightarrow> dns_lease outcome" where
  "release_lease l =
     (if ls_activeRequests l \<le> 0 then Inl (PlainError ''Customer Account DNS lease release is unbalanced.'')
      else Inr (destroy_retired_if_idle (l\<lparr>ls_activeRequests := ls_activeRequests l - 1\<rparr>)))"

text \<open>The loader of a lease: the lifetime and the size of the JSON text of the answers.\<close>

definition answer_text :: "dns_answer \<Rightarrow> string" where
  "answer_text a =
     (let q = [CHR 0x22] in
      ''{'' @ q @ ''address'' @ q @ '':'' @ q @ da_address a @ q @ '','' @ q @ ''family'' @ q @ '':''
      @ int_string (int (da_family a)) @ '','' @ q @ ''ttlSeconds'' @ q @ '':'' @ int_string (da_ttlSeconds a) @ ''}'')"

definition answers_bytes :: "dns_answer list \<Rightarrow> int" where
  "answers_bytes as = int (length (''['' @ js_join '','' (map answer_text as) @ '']''))"

definition lease_ttl_ms :: "int \<Rightarrow> dns_answer list \<Rightarrow> int" where
  "lease_ttl_ms dns_ttl as = min dns_ttl (foldr min (map (\<lambda>a. da_ttlSeconds a * 1000) (butlast as)) (da_ttlSeconds (last as) * 1000))"

section \<open>Requests\<close>

record raw_response =
  rp_status :: int
  rp_contentLength :: "int option"
  rp_chunks :: "nat list"
  rp_parsed :: "json option"

definition max_response_bytes :: int where
  "max_response_bytes = 512 * 1024"

text \<open>The loop over the body adds up chunk lengths and gives up above the limit.\<close>

fun read_chunks :: "int \<Rightarrow> nat list \<Rightarrow> int outcome" where
  "read_chunks bytes [] = Inr bytes"
| "read_chunks bytes (n # ns) =
     (if bytes + int n > max_response_bytes then Inl (PlainError ''Customer Account response is too large.'')
      else read_chunks (bytes + int n) ns)"

definition response_outcome :: "raw_response \<Rightarrow> json outcome" where
  "response_outcome r =
     and_then (guard (200 \<le> rp_status r \<and> rp_status r < 300) (PlainError ''Customer Account upstream request failed.'')) (\<lambda>_.
     and_then (guard (case rp_contentLength r of None \<Rightarrow> True | Some n \<Rightarrow> n \<le> max_response_bytes)
        (PlainError ''Customer Account response is too large.'')) (\<lambda>_.
     and_then (read_chunks 0 (rp_chunks r)) (\<lambda>_.
     (case rp_parsed r of
        None \<Rightarrow> Inl (PlainError ''SyntaxError'')
      | Some v \<Rightarrow> and_then (guard (is_json_object v) (PlainError ''Customer Account response is invalid.'')) (\<lambda>_. Inr v)))))"

text \<open>
  A request waits for a load, holds a lease it has selected but not acquired, uses the lease
  with one of its answers, or has ended.
\<close>

datatype request = Waiting nat | Selected nat | Streaming nat nat | Ended "json outcome"

record transport =
  tr_cache :: "(string, nat) cache"
  tr_leases :: "dns_lease list"
  tr_requests :: "request list"

text \<open>\<open>onEvict\<close> retires each lease that an operation removed from the cache.\<close>

definition retire_all :: "nat list \<Rightarrow> dns_lease list \<Rightarrow> dns_lease list" where
  "retire_all ids ls = foldl (\<lambda>ls i. ls[i := retire_lease (ls ! i)]) ls ids"

definition with_cache :: "(string, nat) cache \<Rightarrow> transport \<Rightarrow> transport" where
  "with_cache c t = t\<lparr>tr_cache := c,
     tr_leases := retire_all (drop (length (ch_evicted (tr_cache t))) (ch_evicted c)) (tr_leases t)\<rparr>"

definition begin_request :: "url_parts \<Rightarrow> string \<Rightarrow> int \<Rightarrow> transport \<Rightarrow> transport" where
  "begin_request url configured now t =
     (case assert_destination url configured of
        Inl e \<Rightarrow> t\<lparr>tr_requests := tr_requests t @ [Ended (Inl e)]\<rparr>
      | Inr _ \<Rightarrow>
          let (found, c) = get_or_load (js_lower (up_hostname url)) False now (tr_cache t); t1 = with_cache c t
          in t1\<lparr>tr_requests := tr_requests t1 @
               [case found of Cached i \<Rightarrow> Selected i | Joined n \<Rightarrow> Waiting n | Started n \<Rightarrow> Waiting n]\<rparr>)"

text \<open>The resolver's answer arrives: the requests that wait for the load go on or fail.\<close>

definition wake :: "nat \<Rightarrow> nat outcome \<Rightarrow> request \<Rightarrow> request" where
  "wake n res q = (if q = Waiting n then (case res of Inr i \<Rightarrow> Selected i | Inl e \<Rightarrow> Ended (Inl e)) else q)"

definition resolve_dns ::
    "cache_options \<Rightarrow> int \<Rightarrow> nat \<Rightarrow> dns_answer list outcome \<Rightarrow> int \<Rightarrow> int \<Rightarrow> transport \<Rightarrow> transport option" where
  "resolve_dns o' dns_ttl n res now1 now2 t =
     (let (loaded, ls) = (case res of
            Inr as \<Rightarrow>
              if as = [] \<or> list_ex (\<lambda>a. \<not> is_global_address a) as 
              then (Rejected (PlainError ''Unsafe Customer Account DNS response.''), tr_leases t)
              else (Loaded (length (tr_leases t)) (lease_ttl_ms dns_ttl as) (answers_bytes as), tr_leases t @ [new_lease as])
          | Inl e \<Rightarrow> (Rejected e, tr_leases t))
      in (case settle_load o' n loaded now1 now2 (tr_cache t) of
            None \<Rightarrow> None
          | Some (out, c) \<Rightarrow>
              let t1 = with_cache c (t\<lparr>tr_leases := ls\<rparr>)
              in Some (t1\<lparr>tr_requests := map (wake n out) (tr_requests t1)\<rparr>)))"

definition finish_resolve :: "nat \<Rightarrow> transport \<Rightarrow> transport" where
  "finish_resolve n t = t\<lparr>tr_cache := finish_load n (tr_cache t)\<rparr>"

text \<open>The continuation after \<open>await this.lease(...)\<close>: acquire, then take the next answer.\<close>

definition continue_request :: "nat \<Rightarrow> transport \<Rightarrow> transport" where
  "continue_request q t =
     (case tr_requests t ! q of
        Selected i \<Rightarrow>
          (case acquire_lease (tr_leases t ! i) of
             Inl e \<Rightarrow> t\<lparr>tr_requests := (tr_requests t)[q := Ended (Inl e)]\<rparr>
           | Inr l \<Rightarrow> t\<lparr>tr_leases := (tr_leases t)[i := l\<lparr>ls_next := Suc (ls_next l)\<rparr>],
                        tr_requests := (tr_requests t)[q := Streaming i (ls_next l mod length (ls_answers l))]\<rparr>)
      | _ \<Rightarrow> t)"

text \<open>The requester has failed, or its response has been read to the end; then the lease is released.\<close>

definition end_request :: "nat \<Rightarrow> raw_response outcome \<Rightarrow> transport \<Rightarrow> transport" where
  "end_request q res t =
     (case tr_requests t ! q of
        Streaming i k \<Rightarrow>
          (case release_lease (tr_leases t ! i) of
             Inl e \<Rightarrow> t\<lparr>tr_requests := (tr_requests t)[q := Ended (Inl e)]\<rparr>
           | Inr l \<Rightarrow> t\<lparr>tr_leases := (tr_leases t)[i := l],
                        tr_requests := (tr_requests t)[q := Ended (and_then res response_outcome)]\<rparr>)
      | _ \<Rightarrow> t)"

definition transport_metrics :: "int \<Rightarrow> transport \<Rightarrow> transport" where
  "transport_metrics now t = with_cache (snd (cache_metrics now (tr_cache t))) t"

section \<open>The blocked networks\<close>

lemma in_subnet_v4_div:
  "in_subnet_v4 net p w \<longleftrightarrow> unat w div 2 ^ (32 - p) = unat net div 2 ^ (32 - p)"
  unfolding in_subnet_v4_def word_unat_eq_iff unat_drop_bit_eq by (simp add: drop_bit_eq_div)

lemma in_subnet_v6_div:
  "in_subnet_v6 net p w \<longleftrightarrow> unat w div 2 ^ (128 - p) = unat net div 2 ^ (128 - p)"
  unfolding in_subnet_v6_def word_unat_eq_iff unat_drop_bit_eq by (simp add: drop_bit_eq_div)

definition octet :: "nat \<Rightarrow> 32 word \<Rightarrow> nat" where
  "octet k w = unat w div 256 ^ (4 - k) mod 256"

lemma octet_divs:
  fixes w :: "32 word"
  defines "a \<equiv> octet 1 w" and "b \<equiv> octet 2 w" and "c \<equiv> octet 3 w"
  shows "unat w div 2 ^ 24 = a" "unat w div 2 ^ 16 = a * 256 + b" "unat w div 2 ^ 8 = (a * 256 + b) * 256 + c"
    "unat w div 2 ^ 22 = a * 4 + b div 64" "unat w div 2 ^ 20 = a * 16 + b div 16" "unat w div 2 ^ 17 = a * 128 + b div 2"
    "unat w div 2 ^ 28 = a div 16" "a < 256" "b < 256" "c < 256"
proof -
  define n where "n = unat w"
  define h where "h = n div 65536"
  have n: "n < 4294967296" unfolding n_def by (rule order_less_le_trans [OF unsigned_less]) simp
  then have small: "n div 16777216 < 256" by (simp add: less_mult_imp_div_less)
  have a: "a = h div 256"
    using small div_mult2_eq [of n 65536 256] by (simp add: a_def octet_def n_def [symmetric] h_def)
  have b: "b = h mod 256" by (simp add: b_def octet_def n_def [symmetric] h_def)
  have h: "h = a * 256 + b" unfolding a b by simp
  have c: "c = n div 256 mod 256" by (simp add: c_def octet_def n_def [symmetric])
  have g: "n div 256 = h * 256 + c" unfolding c h_def using div_mult2_eq [of n 256 256] by simp
  show "a < 256" "b < 256" "c < 256" by (simp_all add: a_def b_def c_def octet_def)
  show "unat w div 2 ^ 24 = a" unfolding a h_def n_def [symmetric] using div_mult2_eq [of n 65536 256] by simp
  show "unat w div 2 ^ 16 = a * 256 + b" using h by (simp add: n_def [symmetric] h_def)
  show "unat w div 2 ^ 8 = (a * 256 + b) * 256 + c" using g h by (simp add: n_def [symmetric])
  have "n div 4194304 = h div 64" unfolding h_def using div_mult2_eq [of n 65536 64] by simp
  also have "\<dots> = a * 4 + b div 64" unfolding h by simp
  finally show "unat w div 2 ^ 22 = a * 4 + b div 64" by (simp add: n_def [symmetric])
  have "n div 1048576 = h div 16" unfolding h_def using div_mult2_eq [of n 65536 16] by simp
  also have "\<dots> = a * 16 + b div 16" unfolding h by simp
  finally show "unat w div 2 ^ 20 = a * 16 + b div 16" by (simp add: n_def [symmetric])
  have "n div 131072 = h div 2" unfolding h_def using div_mult2_eq [of n 65536 2] by simp
  also have "\<dots> = a * 128 + b div 2" unfolding h by simp
  finally show "unat w div 2 ^ 17 = a * 128 + b div 2" by (simp add: n_def [symmetric])
  have "n div 268435456 = h div 4096" unfolding h_def using div_mult2_eq [of n 65536 4096] by simp
  also have "\<dots> = a div 16" unfolding a using div_mult2_eq [of h 256 16] by simp
  finally show "unat w div 2 ^ 28 = a div 16" by (simp add: n_def [symmetric])
qed

text \<open>The networks spelled out on the four numbers of the dotted form.\<close>

definition reserved_ipv4 :: "nat \<Rightarrow> nat \<Rightarrow> nat \<Rightarrow> bool" where
  "reserved_ipv4 a b c \<longleftrightarrow>
     a = 0 \<or> a = 10 \<or> (a = 100 \<and> 64 \<le> b \<and> b < 128) \<or> a = 127 \<or> (a = 169 \<and> b = 254) \<or> (a = 172 \<and> 16 \<le> b \<and> b < 32) \<or>
     (a = 192 \<and> (b = 0 \<and> (c = 0 \<or> c = 2) \<or> b = 88 \<and> c = 99 \<or> b = 168)) \<or>
     (a = 198 \<and> (b = 18 \<or> b = 19 \<or> b = 51 \<and> c = 100)) \<or> (a = 203 \<and> b = 0 \<and> c = 113) \<or> 224 \<le> a"

lemma place_value_eq: "y < m \<Longrightarrow> x * m + y = n \<longleftrightarrow> x = n div m \<and> y = n mod m" for m :: nat
  by (metis add.commute div_mult_mod_eq div_mult_self3 div_less add_0 mod_mult_self3 mod_less mult.commute not_less0)

lemma div_eq_range: "0 < m \<Longrightarrow> y div m = k \<longleftrightarrow> k * m \<le> y \<and> y < Suc k * m" for m :: nat
  by (metis div_nat_eqI dividend_less_times_div mult.commute mult_Suc_right times_div_less_eq_dividend)

lemma in_subnet_octets:
  assumes b: "(b :: nat) < 256" and c: "(c :: nat) < 256"
  shows "a * 4 + b div 64 = 401 \<longleftrightarrow> a = 100 \<and> 64 \<le> b \<and> b < 128" "a * 256 + b = 43518 \<longleftrightarrow> a = 169 \<and> b = 254"
    "a * 16 + b div 16 = 2753 \<longleftrightarrow> a = 172 \<and> 16 \<le> b \<and> b < 32" "a * 256 + b = 49320 \<longleftrightarrow> a = 192 \<and> b = 168"
    "(a * 256 + b) * 256 + c = 12582912 \<longleftrightarrow> a = 192 \<and> b = 0 \<and> c = 0"
    "(a * 256 + b) * 256 + c = 12582914 \<longleftrightarrow> a = 192 \<and> b = 0 \<and> c = 2"
    "(a * 256 + b) * 256 + c = 12605539 \<longleftrightarrow> a = 192 \<and> b = 88 \<and> c = 99"
    "a * 128 + b div 2 = 25353 \<longleftrightarrow> a = 198 \<and> (b = 18 \<or> b = 19)"
    "(a * 256 + b) * 256 + c = 12989284 \<longleftrightarrow> a = 198 \<and> b = 51 \<and> c = 100"
    "(a * 256 + b) * 256 + c = 13303921 \<longleftrightarrow> a = 203 \<and> b = 0 \<and> c = 113"
proof -
  have small: "b div 64 < 4" "b div 16 < 16" "b div 2 < 128" using b by (simp_all add: less_mult_imp_div_less)
  show "a * 4 + b div 64 = 401 \<longleftrightarrow> a = 100 \<and> 64 \<le> b \<and> b < 128"
    unfolding place_value_eq [OF small(1)] by (simp add: div_eq_range)
  show "a * 16 + b div 16 = 2753 \<longleftrightarrow> a = 172 \<and> 16 \<le> b \<and> b < 32"
    unfolding place_value_eq [OF small(2)] by (simp add: div_eq_range)
  have "b div 2 = 9 \<longleftrightarrow> b = 18 \<or> b = 19" by (auto simp: div_eq_range)
  then show "a * 128 + b div 2 = 25353 \<longleftrightarrow> a = 198 \<and> (b = 18 \<or> b = 19)"
    unfolding place_value_eq [OF small(3)] by simp
qed (unfold place_value_eq [OF b] place_value_eq [OF c], simp_all)

lemma in_subnet_v4_eq:
  "unat w div 2 ^ k = x \<Longrightarrow> 32 - p = k \<Longrightarrow> unat net div 2 ^ k = n \<Longrightarrow> in_subnet_v4 net p w \<longleftrightarrow> x = n"
  by (simp only: in_subnet_v4_div)

lemma blocked_networks:
  fixes w :: "32 word"
  defines "a \<equiv> octet 1 w" and "b \<equiv> octet 2 w" and "c \<equiv> octet 3 w"
  shows
    "in_subnet_v4 0x00000000 8 w \<longleftrightarrow> a = 0"
    "in_subnet_v4 0x0A000000 8 w \<longleftrightarrow> a = 10"
    "in_subnet_v4 0x64400000 10 w \<longleftrightarrow> a * 4 + b div 64 = 401"
    "in_subnet_v4 0x7F000000 8 w \<longleftrightarrow> a = 127"
    "in_subnet_v4 0xA9FE0000 16 w \<longleftrightarrow> a * 256 + b = 43518"
    "in_subnet_v4 0xAC100000 12 w \<longleftrightarrow> a * 16 + b div 16 = 2753"
    "in_subnet_v4 0xC0000000 24 w \<longleftrightarrow> (a * 256 + b) * 256 + c = 12582912"
    "in_subnet_v4 0xC0000200 24 w \<longleftrightarrow> (a * 256 + b) * 256 + c = 12582914"
    "in_subnet_v4 0xC0586300 24 w \<longleftrightarrow> (a * 256 + b) * 256 + c = 12605539"
    "in_subnet_v4 0xC0A80000 16 w \<longleftrightarrow> a * 256 + b = 49320"
    "in_subnet_v4 0xC6120000 15 w \<longleftrightarrow> a * 128 + b div 2 = 25353"
    "in_subnet_v4 0xC6336400 24 w \<longleftrightarrow> (a * 256 + b) * 256 + c = 12989284"
    "in_subnet_v4 0xCB007100 24 w \<longleftrightarrow> (a * 256 + b) * 256 + c = 13303921"
    "in_subnet_v4 0xE0000000 4 w \<longleftrightarrow> a div 16 = 14"
    "in_subnet_v4 0xF0000000 4 w \<longleftrightarrow> a div 16 = 15"
  unfolding a_def b_def c_def by (rule in_subnet_v4_eq, rule octet_divs, simp, simp)+

lemma list_ex_Cons_iff: "list_ex p [] = False" "list_ex p (x # xs) = (p x \<or> list_ex p xs)"
  by simp_all

lemma blocked_ipv4_iff: "is_blocked (IPv4 w) \<longleftrightarrow> reserved_ipv4 (octet 1 w) (octet 2 w) (octet 3 w)"
proof -
  note small = octet_divs(8-10) [of w]
  have top_nets: "octet 1 w div 16 = 14 \<or> octet 1 w div 16 = 15 \<longleftrightarrow> 224 \<le> octet 1 w"
    using small(1) by (auto simp: div_eq_range)
  have list: "is_blocked (IPv4 w) \<longleftrightarrow> list_ex (\<lambda>(net, p). in_subnet_v4 net p w) blocked_v4"
    by (simp add: is_blocked_def)
  show ?thesis
    unfolding list blocked_v4_def list_ex_Cons_iff prod.case blocked_networks in_subnet_octets [OF small(2,3)] reserved_ipv4_def
    by (simp only: top_nets conj_disj_distribL disj_assoc conj_assoc simp_thms)
qed

section \<open>Leases that are in use\<close>

definition uses :: "nat \<Rightarrow> request \<Rightarrow> bool" where
  "uses i q = (case q of Streaming j _ \<Rightarrow> j = i | _ \<Rightarrow> False)"

definition users :: "nat \<Rightarrow> request list \<Rightarrow> nat" where
  "users i qs = length (filter (uses i) qs)"

definition lease_ok :: "nat \<Rightarrow> dns_lease \<Rightarrow> bool" where
  "lease_ok n l \<longleftrightarrow> ls_activeRequests l = int n \<and> (ls_destroyed l \<longleftrightarrow> ls_retired l \<and> n = 0) \<and>
     ls_destroyCalls l = of_bool (ls_destroyed l) \<and> ls_answers l \<noteq> [] \<and> list_all is_global_address (ls_answers l)"

definition request_ok :: "dns_lease list \<Rightarrow> request \<Rightarrow> bool" where
  "request_ok ls q =
     (case q of Streaming i k \<Rightarrow> i < length ls \<and> k < length (ls_answers (ls ! i)) | Selected i \<Rightarrow> i < length ls | _ \<Rightarrow> True)"

definition transport_ok :: "cache_options \<Rightarrow> transport \<Rightarrow> bool" where
  "transport_ok o' t \<longleftrightarrow> options_ok o' \<and> cache_bounded o' (tr_cache t) \<and>
     held (tr_cache t) \<subseteq># mset [0..<length (tr_leases t)] \<and>
     (\<forall>i < length (tr_leases t). lease_ok (users i (tr_requests t)) (tr_leases t ! i) \<and>
        (ls_retired (tr_leases t ! i) \<longleftrightarrow> i \<in> set (ch_evicted (tr_cache t)))) \<and>
     (\<forall>q \<in> set (tr_requests t). request_ok (tr_leases t) q)"

lemma users_append [simp]: "users i (qs @ qs') = users i qs + users i qs'"
  by (simp add: users_def)

lemma users_idle [simp]: "users i [Ended r] = 0" "users i [Selected j] = 0" "users i [Waiting n] = 0"
  by (simp_all add: users_def uses_def)

lemma users_wake [simp]: "users i (map (wake n out) qs) = users i qs"
proof -
  have "uses i (wake n out q) = uses i q" for q
    by (cases q; cases out) (simp_all add: wake_def uses_def)
  then show ?thesis by (simp add: users_def filter_map o_def)
qed

lemma users_update:
  "q < length qs \<Longrightarrow> users i (qs[q := x]) + of_bool (uses i (qs ! q)) = users i qs + of_bool (uses i x)"
proof (induction qs arbitrary: q)
  case (Cons y qs)
  then show ?case by (cases q) (fastforce simp: users_def)+
qed simp

lemma new_lease_ok:
  "as \<noteq> [] \<Longrightarrow> list_all is_global_address as \<Longrightarrow> lease_ok 0 (new_lease as)" "\<not> ls_retired (new_lease as)"
  by (simp_all add: lease_ok_def new_lease_def)

lemma retire_lease_ok:
  "lease_ok n l \<Longrightarrow> lease_ok n (retire_lease l)" "ls_retired (retire_lease l)"
  "ls_answers (retire_lease l) = ls_answers l"
  by (auto simp: lease_ok_def retire_lease_def destroy_retired_if_idle_def)

lemma acquire_lease_ok:
  assumes "lease_ok n l" "acquire_lease l = Inr l'"
  shows "lease_ok (Suc n) (l'\<lparr>ls_next := m\<rparr>)" "ls_retired l' = ls_retired l" "ls_answers l' = ls_answers l"
    "ls_next l' = ls_next l"
  using assms by (auto simp: lease_ok_def acquire_lease_def split: if_splits)

lemma release_lease_ok:
  assumes "lease_ok (Suc n) l"
  shows "\<exists>l'. release_lease l = Inr l' \<and> lease_ok n l' \<and> ls_retired l' = ls_retired l \<and> ls_answers l' = ls_answers l"
  using assms by (auto simp: lease_ok_def release_lease_def destroy_retired_if_idle_def)

lemma length_retire_all [simp]: "length (retire_all ids ls) = length ls"
  unfolding retire_all_def by (induction ids arbitrary: ls) simp_all

lemma retire_all_keeps:
  "(\<And>l. P l \<Longrightarrow> P (retire_lease l)) \<Longrightarrow> i < length ls \<Longrightarrow> P (ls ! i) \<Longrightarrow> P (retire_all ids ls ! i)"
  unfolding retire_all_def
proof (induction ids arbitrary: ls)
  case (Cons j ids)
  then show ?case by (cases "i = j") simp_all
qed simp

lemma retire_all_retires:
  "i < length ls \<Longrightarrow> ls_retired (retire_all ids ls ! i) \<longleftrightarrow> ls_retired (ls ! i) \<or> i \<in> set ids"
  unfolding retire_all_def
proof (induction ids arbitrary: ls)
  case (Cons j ids)
  then show ?case by (cases "i = j") (auto simp: retire_lease_ok)
qed simp

lemma retire_all_answers: "i < length ls \<Longrightarrow> ls_answers (retire_all ids ls ! i) = ls_answers (ls ! i)"
  by (rule retire_all_keeps [where P = "\<lambda>l. ls_answers l = ls_answers (ls ! i)"]) (simp_all add: retire_lease_ok)

text \<open>A cache operation that evicts retires exactly the leases it evicted.\<close>

lemma with_cache_ok:
  assumes t: "transport_ok o' (t\<lparr>tr_leases := ls\<rparr>)"
    and c: "cache_bounded o' c" "evicts_on (tr_cache t) c" "held c \<subseteq># mset [0..<length ls]"
  shows "transport_ok o' (with_cache c (t\<lparr>tr_leases := ls\<rparr>))"
proof -
  from c(2) obtain vs where vs: "ch_evicted c = ch_evicted (tr_cache t) @ vs" by (auto simp: evicts_on_def)
  let ?ls = "retire_all vs ls"
  have w: "with_cache c (t\<lparr>tr_leases := ls\<rparr>) = t\<lparr>tr_cache := c, tr_leases := ?ls\<rparr>" by (simp add: with_cache_def vs)
  have "lease_ok (users i (tr_requests t)) (?ls ! i)" if "i < length ls" for i
    using retire_all_keeps [where P = "lease_ok (users i (tr_requests t))", OF _ that] retire_lease_ok(1) t that
    by (simp add: transport_ok_def)
  moreover have "ls_retired (?ls ! i) \<longleftrightarrow> i \<in> set (ch_evicted c)" if "i < length ls" for i
    using t that by (auto simp: transport_ok_def vs retire_all_retires)
  moreover have "request_ok ?ls q" if "request_ok ls q" for q
    using that by (cases q) (auto simp: request_ok_def retire_all_answers)
  ultimately show ?thesis using t c(1,3) unfolding w transport_ok_def by simp
qed

lemma distinct_count_in: "count (mset_set {0..<n :: nat}) i = of_bool (i < n)"
  by (simp add: count_mset_set')

lemma with_cache_frame [simp]:
  "tr_requests (with_cache c t) = tr_requests t" "tr_cache (with_cache c t) = c"
  "length (tr_leases (with_cache c t)) = length (tr_leases t)"
  by (simp_all add: with_cache_def)

lemma with_cache_keeps_ok:
  assumes "transport_ok o' t" "keeps_held o' (tr_cache t) c" shows "transport_ok o' (with_cache c t)"
  using with_cache_ok [where t = t and ls = "tr_leases t" and c = c and o' = o'] assms by (simp add: keeps_held_def transport_ok_def)

lemma held_ids:
  assumes "held c \<subseteq># mset [0..<n]" shows "i \<in> set (ch_evicted c) \<Longrightarrow> i < n"
    "i \<in> ca_value ` snd ` set (ch_entries c) \<Longrightarrow> i < n" "i \<in> ca_value ` snd ` set (ch_entries c) \<Longrightarrow> i \<notin> set (ch_evicted c)"
proof -
  from assms have in_ids: "i < n" if "i \<in># held c" for i using mset_subset_eqD [OF assms that] by simp
  then show "i \<in> set (ch_evicted c) \<Longrightarrow> i < n" "i \<in> ca_value ` snd ` set (ch_entries c) \<Longrightarrow> i < n"
    by (auto simp: held_def)
  have once: "count (mset (map (ca_value \<circ> snd) (ch_entries c))) i + count (mset (ch_evicted c)) i \<le> 1"
    using mset_subset_eq_count [OF assms, of i] unfolding held_def mset_upt count_union distinct_count_in
    by (rule order_trans) simp
  show "i \<notin> set (ch_evicted c)" if "i \<in> ca_value ` snd ` set (ch_entries c)"
  proof -
    have "i \<in># mset (map (ca_value \<circ> snd) (ch_entries c))" using that by auto
    then have "1 \<le> count (mset (map (ca_value \<circ> snd) (ch_entries c))) i" by (simp only: count_greater_eq_one_iff)
    with once have "count (mset (ch_evicted c)) i = 0" by linarith
    then show ?thesis by simp
  qed
qed

lemma add_lease_ok:
  assumes t: "transport_ok o' t" and as: "as \<noteq> []" "list_all is_global_address as"
  shows "transport_ok o' (t\<lparr>tr_leases := tr_leases t @ [new_lease as]\<rparr>)"
proof -
  let ?n = "length (tr_leases t)" and ?ls = "tr_leases t @ [new_lease as]"
  have req: "request_ok ?ls q \<and> \<not> uses ?n q" if "q \<in> set (tr_requests t)" for q
    using t that by (cases q) (fastforce simp: transport_ok_def request_ok_def uses_def nth_append)+
  then have "users ?n (tr_requests t) = 0" by (simp add: users_def filter_empty_conv)
  moreover have "?n \<notin> set (ch_evicted (tr_cache t))" using t held_ids(1) by (fastforce simp: transport_ok_def)
  ultimately have "lease_ok (users i (tr_requests t)) (?ls ! i) \<and> (ls_retired (?ls ! i) \<longleftrightarrow> i \<in> set (ch_evicted (tr_cache t)))"
    if "i < Suc ?n" for i
    using t that new_lease_ok(1) [OF as] new_lease_ok(2) [of as] by (cases "i = ?n") (simp_all add: transport_ok_def nth_append)
  moreover have "held (tr_cache t) \<subseteq># mset [0..<Suc ?n]"
    using t by (auto simp: transport_ok_def intro: subset_mset.order_trans)
  ultimately show ?thesis using t req by (simp add: transport_ok_def)
qed

lemma add_request_ok:
  assumes "transport_ok o' t" "request_ok (tr_leases t) q" "\<And>i. users i [q] = 0"
  shows "transport_ok o' (t\<lparr>tr_requests := tr_requests t @ [q]\<rparr>)"
  using assms by (simp add: transport_ok_def)

lemma begin_request_ok:
  assumes t: "transport_ok o' t" shows "transport_ok o' (begin_request url configured now t)"
proof (cases "assert_destination url configured")
  case (Inl e)
  then show ?thesis using add_request_ok [OF t, of "Ended (Inl e)"] by (simp add: begin_request_def request_ok_def)
next
  case (Inr u)
  let ?k = "js_lower (up_hostname url)"
  obtain found c where g: "get_or_load ?k False now (tr_cache t) = (found, c)" by fastforce
  have keep: "keeps_held o' (tr_cache t) c"
    using get_or_load_held [of o' "tr_cache t" ?k now] t g by (simp add: transport_ok_def)
  have t1: "transport_ok o' (with_cache c t)" by (rule with_cache_keeps_ok [OF t keep])
  have "i < length (tr_leases t)" if "found = Cached i" for i
  proof -
    have "i \<in> ca_value ` snd ` set (ch_entries c)"
      using cached_value_held [of ?k now "tr_cache t" i] g that by simp
    moreover have "held c \<subseteq># mset [0..<length (tr_leases t)]" using t1 by (simp add: transport_ok_def)
    ultimately show ?thesis using held_ids(2) by blast
  qed
  then have "request_ok (tr_leases (with_cache c t)) (case found of Cached i \<Rightarrow> Selected i | Joined n \<Rightarrow> Waiting n | Started n \<Rightarrow> Waiting n)"
    by (simp add: request_ok_def split: lookup.splits)
  from add_request_ok [OF t1 this] show ?thesis
    by (cases found) (simp_all add: begin_request_def Inr g)
qed

lemma wake_ok:
  assumes "transport_ok o' t" "\<And>i. out = Inr i \<Longrightarrow> i < length (tr_leases t)"
  shows "transport_ok o' (t\<lparr>tr_requests := map (wake n out) (tr_requests t)\<rparr>)"
proof -
  have "request_ok (tr_leases t) (wake n out q)" if "request_ok (tr_leases t) q" for q
    using that assms(2) by (cases q; cases out) (auto simp: wake_def request_ok_def)
  with assms(1) show ?thesis by (simp add: transport_ok_def)
qed

lemma resolve_dns_ok:
  assumes t: "transport_ok o' t" and step: "resolve_dns o' dns_ttl n res now1 now2 t = Some t'"
  shows "transport_ok o' t'"
proof -
  have opts: "options_ok o'" and cache: "cache_bounded o' (tr_cache t)" using t by (simp_all add: transport_ok_def)
  show ?thesis
  proof (cases "\<exists>as. res = Inr as \<and> as \<noteq> [] \<and> list_all is_global_address as")
    case True
    then obtain as where as: "res = Inr as" "as \<noteq> []" "list_all is_global_address as" by blast
    let ?i = "length (tr_leases t)" and ?ls = "tr_leases t @ [new_lease as]"
    let ?loaded = "Loaded ?i (lease_ttl_ms dns_ttl as) (answers_bytes as)"
    have good: "\<not> (as = [] \<or> list_ex (\<lambda>a. \<not> is_global_address a) as)" using as by (simp add: list_ex_iff list_all_iff)
    with step as(1) obtain out c where settle: "settle_load o' n ?loaded now1 now2 (tr_cache t) = Some (out, c)"
      and t': "t' = (let t1 = with_cache c (t\<lparr>tr_leases := ?ls\<rparr>) in t1\<lparr>tr_requests := map (wake n out) (tr_requests t1)\<rparr>)"
      by (auto simp: resolve_dns_def split: option.splits)
    have ids: "held (tr_cache t) \<subseteq># mset [0..<?i]" using t by (simp add: transport_ok_def)
    have keep: "cache_bounded o' c \<and> evicts_on (tr_cache t) c \<and> held c \<subseteq># mset [0..<length ?ls] \<and> (\<forall>i. out = Inr i \<longrightarrow> i = ?i)"
      using settle_held [OF opts cache settle]
    proof (elim disjE exE conjE)
      fix v ttl b assume "?loaded = Loaded v ttl b" "out = Inr v" "cache_bounded o' c"
        "held c = add_mset v (held (tr_cache t))" "evicts_on (tr_cache t) c"
      with ids show ?thesis by simp
    next
      fix e assume "keeps_held o' (tr_cache t) c" "out = Inl e"
      with ids show ?thesis by (auto simp: keeps_held_def intro: subset_mset.order_trans)
    qed
    from add_lease_ok [OF t as(2,3)] with_cache_ok [where t = t and ls = ?ls and c = c and o' = o'] keep
    have "transport_ok o' (with_cache c (t\<lparr>tr_leases := ?ls\<rparr>))" by blast
    from wake_ok [OF this, of out n] keep show ?thesis unfolding t' Let_def by simp
  next
    case False
    then obtain e where bad: "(case res of
            Inr as \<Rightarrow>
              if as = [] \<or> list_ex (\<lambda>a. \<not> is_global_address a) as
              then (Rejected (PlainError ''Unsafe Customer Account DNS response.''), tr_leases t)
              else (Loaded (length (tr_leases t)) (lease_ttl_ms dns_ttl as) (answers_bytes as), tr_leases t @ [new_lease as])
          | Inl e \<Rightarrow> (Rejected e, tr_leases t)) = (Rejected e, tr_leases t)"
      by (cases res) (auto simp: list_ex_iff list_all_iff)
    from step obtain out c where settle: "settle_load o' n (Rejected e) now1 now2 (tr_cache t) = Some (out, c)"
      and t': "t' = (let t1 = with_cache c t in t1\<lparr>tr_requests := map (wake n out) (tr_requests t1)\<rparr>)"
      unfolding resolve_dns_def bad by (auto split: option.splits)
    from settle_held [OF opts cache settle] have keep: "keeps_held o' (tr_cache t) c" "\<And>i. out \<noteq> Inr i" by auto
    from wake_ok [OF with_cache_keeps_ok [OF t keep(1)], of out n] keep(2) show ?thesis unfolding t' Let_def by simp
  qed
qed

lemma finish_resolve_ok:
  assumes "transport_ok o' t" shows "transport_ok o' (finish_resolve n t)"
proof -
  have "held (finish_load n (tr_cache t)) = held (tr_cache t)" "ch_evicted (finish_load n (tr_cache t)) = ch_evicted (tr_cache t)"
    "cache_bounded o' (finish_load n (tr_cache t)) = cache_bounded o' (tr_cache t)"
    by (simp_all add: finish_load_def Let_def)
  with assms show ?thesis by (simp add: finish_resolve_def transport_ok_def)
qed

text \<open>A request moves on: its lease is updated, and so is the number of its users.\<close>

lemma move_request_ok:
  assumes t: "transport_ok o' t" and q: "q < length (tr_requests t)" and i: "i < length (tr_leases t)"
    and l: "lease_ok (users i ((tr_requests t)[q := x])) l" "ls_retired l = ls_retired (tr_leases t ! i)"
      "ls_answers l = ls_answers (tr_leases t ! i)"
    and others: "\<And>j. j \<noteq> i \<Longrightarrow> \<not> uses j x \<and> \<not> uses j (tr_requests t ! q)"
    and x: "request_ok (tr_leases t) x"
  shows "transport_ok o' (t\<lparr>tr_leases := (tr_leases t)[i := l], tr_requests := (tr_requests t)[q := x]\<rparr>)"
proof -
  have "users j ((tr_requests t)[q := x]) = users j (tr_requests t)" if "j \<noteq> i" for j
    using users_update [OF q, of j x] others [OF that] by simp
  then have ok: "lease_ok (users j ((tr_requests t)[q := x])) ((tr_leases t)[i := l] ! j) \<and>
      (ls_retired ((tr_leases t)[i := l] ! j) \<longleftrightarrow> j \<in> set (ch_evicted (tr_cache t)))" if "j < length (tr_leases t)" for j
    using t that l(1,2) by (cases "j = i") (simp_all add: transport_ok_def)
  have "request_ok ((tr_leases t)[i := l]) p" if "request_ok (tr_leases t) p" for p
    using that l(3) i by (cases p) (auto simp: request_ok_def nth_list_update split: if_splits)
  moreover have "request_ok (tr_leases t) p" if "p \<in> set ((tr_requests t)[q := x])" for p
    using t x set_update_subset_insert [of "tr_requests t" q x] that by (auto simp: transport_ok_def)
  ultimately show ?thesis using t ok by (simp add: transport_ok_def)
qed

lemma continue_request_ok:
  assumes t: "transport_ok o' t" and q: "q < length (tr_requests t)"
  shows "transport_ok o' (continue_request q t)"
proof (cases "tr_requests t ! q")
  case (Selected i)
  have i: "i < length (tr_leases t)"
    using t nth_mem [OF q] Selected by (fastforce simp: transport_ok_def request_ok_def)
  let ?l = "tr_leases t ! i"
  have ok: "lease_ok (users i (tr_requests t)) ?l" using t i by (simp add: transport_ok_def)
  show ?thesis
  proof (cases "acquire_lease ?l")
    case (Inl e)
    have "lease_ok (users i ((tr_requests t)[q := Ended (Inl e)])) ?l"
      using ok users_update [OF q, of i "Ended (Inl e)"] Selected by (simp add: uses_def)
    from move_request_ok [OF t q i this] Selected show ?thesis
      by (simp add: continue_request_def Inl uses_def request_ok_def)
  next
    case (Inr l)
    let ?x = "Streaming i (ls_next l mod length (ls_answers l))"
    have "users i ((tr_requests t)[q := ?x]) = Suc (users i (tr_requests t))"
      using users_update [OF q, of i ?x] Selected by (simp add: uses_def)
    moreover have "0 < length (ls_answers ?l)" using ok by (simp add: lease_ok_def)
    ultimately show ?thesis
      using move_request_ok [OF t q i, of ?x "l\<lparr>ls_next := Suc (ls_next l)\<rparr>"] acquire_lease_ok [OF ok Inr] i Selected
      by (simp add: continue_request_def Inr uses_def request_ok_def)
  qed
qed (use t in \<open>simp_all add: continue_request_def\<close>)

lemma streaming_lease:
  assumes t: "transport_ok o' t" and q: "q < length (tr_requests t)" and s: "tr_requests t ! q = Streaming i k"
  shows "i < length (tr_leases t)" "0 < users i (tr_requests t)" "k < length (ls_answers (tr_leases t ! i))"
proof -
  show "i < length (tr_leases t)" "k < length (ls_answers (tr_leases t ! i))"
    using t nth_mem [OF q] s by (fastforce simp: transport_ok_def request_ok_def)+
  have "tr_requests t ! q \<in> set (filter (uses i) (tr_requests t))" using nth_mem [OF q] by (simp add: uses_def s)
  then show "0 < users i (tr_requests t)" unfolding users_def by (metis length_pos_if_in_set)
qed

lemma end_request_balanced:
  assumes t: "transport_ok o' t" and q: "q < length (tr_requests t)" and s: "tr_requests t ! q = Streaming i k"
  shows "\<exists>l. release_lease (tr_leases t ! i) = Inr l \<and>
    lease_ok (users i ((tr_requests t)[q := Ended r])) l \<and>
    ls_retired l = ls_retired (tr_leases t ! i) \<and> ls_answers l = ls_answers (tr_leases t ! i)"
proof -
  note st = streaming_lease [OF t q s]
  have "users i (tr_requests t) = Suc (users i ((tr_requests t)[q := Ended r]))"
    using users_update [OF q, of i "Ended r"] s by (simp add: uses_def)
  moreover have "lease_ok (users i (tr_requests t)) (tr_leases t ! i)" using t st(1) by (simp add: transport_ok_def)
  ultimately show ?thesis using release_lease_ok by simp
qed

lemma end_request_ok:
  assumes t: "transport_ok o' t" and q: "q < length (tr_requests t)"
  shows "transport_ok o' (end_request q res t)"
proof (cases "tr_requests t ! q")
  case (Streaming i k)
  from end_request_balanced [OF t q Streaming, of "and_then res response_outcome"]
  obtain l where "release_lease (tr_leases t ! i) = Inr l"
    "lease_ok (users i ((tr_requests t)[q := Ended (and_then res response_outcome)])) l"
    "ls_retired l = ls_retired (tr_leases t ! i)" "ls_answers l = ls_answers (tr_leases t ! i)" by blast
  with move_request_ok [OF t q streaming_lease(1) [OF t q Streaming], of "Ended (and_then res response_outcome)" l] Streaming
  show ?thesis by (simp add: end_request_def uses_def request_ok_def)
qed (use t in \<open>simp_all add: end_request_def\<close>)

inductive transport_reachable :: "cache_options \<Rightarrow> transport \<Rightarrow> bool" for o' :: cache_options where
  tr_new: "new_cache o' = Inr c \<Longrightarrow> transport_reachable o' \<lparr>tr_cache = c, tr_leases = [], tr_requests = []\<rparr>"
| tr_begin: "transport_reachable o' t \<Longrightarrow> transport_reachable o' (begin_request url configured now t)"
| tr_resolve: "transport_reachable o' t \<Longrightarrow> resolve_dns o' dns_ttl n res now1 now2 t = Some t' \<Longrightarrow> transport_reachable o' t'"
| tr_finish: "transport_reachable o' t \<Longrightarrow> transport_reachable o' (finish_resolve n t)"
| tr_continue: "transport_reachable o' t \<Longrightarrow> q < length (tr_requests t) \<Longrightarrow> transport_reachable o' (continue_request q t)"
| tr_end: "transport_reachable o' t \<Longrightarrow> q < length (tr_requests t) \<Longrightarrow> transport_reachable o' (end_request q res t)"
| tr_metrics: "transport_reachable o' t \<Longrightarrow> transport_reachable o' (transport_metrics now t)"

lemma transport_reachable_ok: "transport_reachable o' t \<Longrightarrow> transport_ok o' t"
proof (induction rule: transport_reachable.induct)
  case (tr_new c)
  then show ?case
    by (auto simp: new_cache_def empty_cache_def transport_ok_def options_ok_def cache_bounded_def sizes_ok_def held_def
        split: if_splits)
next
  case (tr_metrics t now)
  then have "cache_bounded o' (tr_cache t)" by (simp add: transport_ok_def)
  from with_cache_keeps_ok [OF tr_metrics.IH metrics_held [OF this]] show ?case by (simp add: transport_metrics_def)
qed (simp_all add: begin_request_ok resolve_dns_ok finish_resolve_ok continue_request_ok end_request_ok)

section \<open>Responses and destinations\<close>

lemma read_chunks_total:
  "0 \<le> bytes \<Longrightarrow> bytes \<le> max_response_bytes \<Longrightarrow>
     read_chunks bytes ns = (if bytes + int (sum_list ns) \<le> max_response_bytes then Inr (bytes + int (sum_list ns))
       else Inl (PlainError ''Customer Account response is too large.''))"
  by (induction ns arbitrary: bytes) (auto simp: algebra_simps)

lemma response_accepted_iff:
  "response_outcome r = Inr v \<longleftrightarrow> 200 \<le> rp_status r \<and> rp_status r < 300 \<and>
     (\<forall>n. rp_contentLength r = Some n \<longrightarrow> n \<le> max_response_bytes) \<and>
     int (sum_list (rp_chunks r)) \<le> max_response_bytes \<and> rp_parsed r = Some v \<and> is_json_object v"
proof -
  have "read_chunks 0 (rp_chunks r) = (if int (sum_list (rp_chunks r)) \<le> max_response_bytes
      then Inr (int (sum_list (rp_chunks r))) else Inl (PlainError ''Customer Account response is too large.''))"
    using read_chunks_total [of 0 "rp_chunks r"] by (simp add: max_response_bytes_def)
  then show ?thesis
    by (auto simp: response_outcome_def and_then_def guard_def split: option.splits)
qed

lemma accepted_destination:
  assumes "assert_destination url configured = Inr ()"
  shows "up_protocol url = ''https:'' \<and> up_port url = [] \<and> up_username url = [] \<and> up_password url = [] \<and>
    \<not> is_dotted_quad (js_lower (up_hostname url)) \<and> CHR '':'' \<notin> set (js_lower (up_hostname url)) \<and>
    (js_lower (up_hostname url) = js_lower configured \<or> js_lower (up_hostname url) = ''shopify.com'' \<or>
     ends_with (js_lower (up_hostname url)) ''.shopify.com'' \<or> ends_with (js_lower (up_hostname url)) ''.myshopify.com'')"
  using assms by (auto simp: assert_destination_def and_then_def guard_def Let_def split: if_splits)

section \<open>Properties\<close>

text \<open>
  The IPv4 answers that may be used are the public ones.  An answer with an IPv4 address is
  accepted exactly if its family is 4, its lifetime is positive and its first three octets are in
  none of the reserved ranges (this-network, private, shared, loopback, link-local, protocol
  assignments, documentation, relay, benchmarking, multicast and above), spelled out on the
  dotted form; the code decides this by 15 prefix comparisons on 32-bit words.
\<close>
theorem public_ipv4_answers:
  "is_global_address \<lparr>da_address = s, da_ip = Some (IPv4 w), da_family = family, da_ttlSeconds = ttl\<rparr> \<longleftrightarrow>
     family = 4 \<and> 0 < ttl \<and> \<not> reserved_ipv4 (octet 1 w) (octet 2 w) (octet 3 w)"
  by (simp add: is_global_address_def blocked_ipv4_iff)

text \<open>
  A connection agent outlives its requests and is destroyed once.  In every reachable
  transport a lease counts exactly the requests that use it; its agent has been destroyed if and
  only if the lease is retired and no request uses it, and then by one call; a lease in the cache
  is not retired; every answer of every lease is a global address; a request that uses a lease
  has a valid answer of it, and can release it.
\<close>
theorem lease_agents_safe:
  assumes "transport_reachable o' t"
  shows "(\<forall>i < length (tr_leases t). let l = tr_leases t ! i; n = length (filter (uses i) (tr_requests t)) in
      ls_activeRequests l = int n \<and> (ls_destroyed l \<longleftrightarrow> ls_retired l \<and> n = 0) \<and>
      ls_destroyCalls l = of_bool (ls_destroyed l) \<and> list_all is_global_address (ls_answers l) \<and>
      (i \<in> ca_value ` snd ` set (ch_entries (tr_cache t)) \<longrightarrow> \<not> ls_retired l)) \<and>
    (\<forall>q < length (tr_requests t). \<forall>i k. tr_requests t ! q = Streaming i k \<longrightarrow>
      k < length (ls_answers (tr_leases t ! i)) \<and> (\<exists>l. release_lease (tr_leases t ! i) = Inr l))"
proof (rule conjI)
  have t: "transport_ok o' t" by (rule transport_reachable_ok [OF assms])
  then have ids: "held (tr_cache t) \<subseteq># mset [0..<length (tr_leases t)]" by (simp add: transport_ok_def)
  show "\<forall>i < length (tr_leases t). let l = tr_leases t ! i; n = length (filter (uses i) (tr_requests t)) in
      ls_activeRequests l = int n \<and> (ls_destroyed l \<longleftrightarrow> ls_retired l \<and> n = 0) \<and>
      ls_destroyCalls l = of_bool (ls_destroyed l) \<and> list_all is_global_address (ls_answers l) \<and>
      (i \<in> ca_value ` snd ` set (ch_entries (tr_cache t)) \<longrightarrow> \<not> ls_retired l)"
    using t held_ids(3) [OF ids] unfolding transport_ok_def lease_ok_def users_def Let_def by blast
  show "\<forall>q < length (tr_requests t). \<forall>i k. tr_requests t ! q = Streaming i k \<longrightarrow>
      k < length (ls_answers (tr_leases t ! i)) \<and> (\<exists>l. release_lease (tr_leases t ! i) = Inr l)"
    using streaming_lease(3) [OF t] end_request_balanced [OF t] by blast
qed

definition demo_dns_options :: cache_options where
  "demo_dns_options = \<lparr>co_maxEntries = 2, co_maxEntryBytes = 1000, co_maxTotalBytes = 1000\<rparr>"

definition demo_url :: url_parts where
  "demo_url = \<lparr>up_protocol = ''https:'', up_username = [], up_password = [], up_port = [], up_hostname = ''shopify.com''\<rparr>"

definition demo_dns :: "dns_answer list" where
  "demo_dns = [\<lparr>da_address = ''8.8.8.8'', da_ip = Some (IPv4 0x08080808), da_family = 4, da_ttlSeconds = 1\<rparr>]"

definition empty_transport :: transport where
  "empty_transport = \<lparr>tr_cache = empty_cache, tr_leases = [], tr_requests = []\<rparr>"

text \<open>A request whose lease has been loaded and selected.\<close>

definition demo_selected :: transport where
  "demo_selected =
     (case resolve_dns demo_dns_options 60000 0 (Inr demo_dns) 0 0 (begin_request demo_url ''festival.org'' 0 empty_transport) of
        Some t \<Rightarrow> finish_resolve 0 t | None \<Rightarrow> empty_transport)"

lemma demo_selected_reachable: "transport_reachable demo_dns_options demo_selected"
proof -
  let ?t = "begin_request demo_url ''festival.org'' 0 empty_transport"
  have start: "transport_reachable demo_dns_options empty_transport"
    unfolding empty_transport_def by (rule tr_new) (simp add: new_cache_def demo_dns_options_def)
  then have t: "transport_reachable demo_dns_options ?t" by (rule tr_begin)
  show ?thesis
  proof (cases "resolve_dns demo_dns_options 60000 0 (Inr demo_dns) 0 0 ?t")
    case None
    then show ?thesis using start by (simp add: demo_selected_def)
  next
    case (Some t1)
    with tr_finish [OF tr_resolve [OF t Some], of 0] show ?thesis by (simp add: demo_selected_def)
  qed
qed

theorem lease_agents_safe_witness:
  "(let t = transport_metrics 5000 (continue_request 0 demo_selected) in
     tr_requests t = [Streaming 0 0] \<and> \<not> ls_destroyed (tr_leases t ! 0) \<and> ls_retired (tr_leases t ! 0) \<and>
     (\<exists>l. release_lease (tr_leases t ! 0) = Inr l))"
proof -
  let ?t = "transport_metrics 5000 (continue_request 0 demo_selected)"
  have run: "tr_requests ?t = [Streaming 0 0] \<and> length (tr_leases ?t) = 1 \<and> ls_retired (tr_leases ?t ! 0)" by code_simp
  have q: "0 < length (tr_requests demo_selected)" by code_simp
  have t: "transport_reachable demo_dns_options ?t" by (intro tr_metrics tr_continue demo_selected_reachable q)
  from lease_agents_safe [OF t, THEN conjunct1] run have "ls_destroyed (tr_leases ?t ! 0) \<longleftrightarrow> False"
    unfolding Let_def by (auto simp: uses_def)
  with lease_agents_safe [OF t, THEN conjunct2] run show ?thesis unfolding Let_def by auto
qed

text \<open>
  A lease can be retired between its selection and its acquisition.  Some reachable transport
  has a request that holds a selected lease which the cache has already retired; the request then
  fails with the lifecycle error.  The comment in \<open>acquireLease\<close> says this cannot interleave, but
  \<open>json\<close> awaits \<open>lease()\<close> between the two.
\<close>
theorem selected_lease_can_be_retired:
  "\<exists>t. transport_reachable demo_dns_options t \<and> tr_requests t = [Selected 0] \<and> ls_retired (tr_leases t ! 0) \<and>
     tr_requests (continue_request 0 t) = [Ended (Inl (PlainError ''Customer Account DNS lease is already retired.''))]"
proof (intro exI conjI)
  show "transport_reachable demo_dns_options (transport_metrics 5000 demo_selected)"
    by (intro tr_metrics demo_selected_reachable)
  show "tr_requests (transport_metrics 5000 demo_selected) = [Selected 0]"
    "ls_retired (tr_leases (transport_metrics 5000 demo_selected) ! 0)"
    "tr_requests (continue_request 0 (transport_metrics 5000 demo_selected)) =
       [Ended (Inl (PlainError ''Customer Account DNS lease is already retired.''))]"
    by code_simp+
qed

end
