(* ===== verification/CheckoutRepo.thy ===== *)
theory CheckoutRepo
  imports FestPrelude
begin

text \<open>
  \<open>InMemoryCheckoutRepository\<close> of \<open>packages/backend/src/checkout/checkout-repository.ts\<close> with
  \<open>checkout-line-helpers.ts\<close> and the registration records of \<open>packages/common/src/registration.ts\<close>:
  checkout intents, their lines and carts, and the registration metadata of the bought lines.  Times
  are ISO strings; random identifiers and the clock are arguments.  The three map entries of one
  metadata record share one object: the records lie on a heap and the map holds addresses.
\<close>

section \<open>Registration records\<close>

record piece =
  pc_title :: string
  pc_composer :: string
  pc_movement :: "string option"
  pc_durationSeconds :: int
  pc_catalogWorkId :: "string option"

record contributor =
  cb_id :: string
  cb_displayOrder :: nat
  cb_role :: string
  cb_displayNameSnapshot :: string
  cb_catalogContributorId :: "string option"

record repertoire_item =
  ri_id :: string
  ri_registrationMetadataId :: string
  ri_organizationId :: string
  ri_displayOrder :: nat
  ri_catalogWorkId :: "string option"
  ri_titleSnapshot :: string
  ri_performedMovementText :: "string option"
  ri_durationSeconds :: int
  ri_contributors :: "contributor list"

datatype instrument = UnknownInstrument | Instrument string string

record class_snapshot =
  sc_id :: string
  sc_festivalId :: string
  sc_displayName :: string
  sc_classSubtypeId :: string
  sc_classSubtypeName :: "string option"
  sc_minimumAge :: int
  sc_maximumAge :: int
  sc_price :: string
  sc_currencyCode :: string
  sc_maximumPerformancePieces :: int
  sc_performanceMinutes :: int
  sc_capacity :: "int option"

record member_snapshot =
  sm_customerId :: string
  sm_membershipId :: string
  sm_name :: "string option"

record registration_snapshot =
  sn_capturedAtIso :: string
  sn_class :: class_snapshot
  sn_divisionId :: string
  sn_divisionName :: "string option"
  sn_instrument :: "instrument option"
  sn_teacher :: member_snapshot
  sn_accompanist :: "member_snapshot option"
  sn_repertoire :: "piece list"

definition normalize_class_registration_snapshot :: "registration_snapshot option \<Rightarrow> registration_snapshot option" where
  "normalize_class_registration_snapshot s =
     map_option (\<lambda>sn. sn\<lparr>sn_instrument := Some (case sn_instrument sn of Some i \<Rightarrow> i | None \<Rightarrow> UnknownInstrument)\<rparr>) s"

record registration_metadata =
  rm_id :: string
  rm_organizationId :: string
  rm_festivalId :: string
  rm_checkoutIntentId :: string
  rm_checkoutIntentLineId :: "string option"
  rm_classEntitlementId :: "string option"
  rm_teacherMembershipId :: string
  rm_accompanistMembershipId :: "string option"
  rm_repertoireJson :: "piece list"
  rm_repertoireItems :: "repertoire_item list"
  rm_registrationSnapshot :: "registration_snapshot option"
  rm_createdAt :: string

section \<open>Intents and carts\<close>

datatype cart_status = CartReady | CartStarted | CartExpired | CartSuperseded

datatype intent_status =
    IntentCreating | IntentReady | IntentStarted | IntentFailed | IntentExpired | IntentSuperseded
  | IntentApproved | IntentRejected | IntentNeedsReview

record checkout_cart =
  kc_reference :: string
  kc_shopifyCartId :: string
  kc_organizationId :: string
  kc_customerId :: string
  kc_sessionId :: string
  kc_integrationVersion :: int
  kc_status :: cart_status
  kc_expiresAtIso :: string
  kc_createdAtIso :: string

datatype intent_type = MembershipIntent | ClassEntryIntent

record intent_line =
  il_id :: string
  il_checkoutIntentId :: string
  il_lineIndex :: int
  il_lineType :: string
  il_festivalClassId :: "string option"
  il_childId :: "string option"
  il_offeringId :: "string option"
  il_shopifyProductGid :: string
  il_shopifyVariantGid :: string
  il_amount :: string
  il_currencyCode :: string
  il_divisionId :: "string option"
  il_divisionNameSnapshot :: "string option"
  il_createdAtIso :: string

record checkout_intent =
  xi_id :: string
  xi_correlationId :: string
  xi_organizationId :: string
  xi_customerId :: string
  xi_sessionId :: string
  xi_idempotencyKey :: string
  xi_intentType :: intent_type
  xi_offeringId :: "string option"
  xi_entitlementClass :: "string option"
  xi_durationDays :: "int option"
  xi_festivalClassId :: "string option"
  xi_childId :: "string option"
  xi_shopifyProductGid :: string
  xi_shopifyVariantGid :: string
  xi_policyVersion :: "string option"
  xi_divisionId :: "string option"
  xi_divisionNameSnapshot :: "string option"
  xi_staffAccessConsent :: bool
  xi_amount :: string
  xi_currencyCode :: string
  xi_cartReference :: "string option"
  xi_status :: intent_status
  xi_expiresAtIso :: string
  xi_createdAtIso :: string
  xi_lineIdentityProtocol :: "string option"
  xi_lines :: "intent_line list"

datatype intent_outcome =
    OutcomeCreated checkout_intent | OutcomeInProgress | OutcomeReady checkout_intent checkout_cart
  | OutcomeActive | OutcomeExpired | OutcomeFailed

record intent_line_input =
  li_id :: "string option"
  li_lineIndex :: "int option"
  li_lineType :: "string option"
  li_festivalClassId :: "string option"
  li_childId :: "string option"
  li_offeringId :: "string option"
  li_shopifyProductGid :: string
  li_shopifyVariantGid :: string
  li_amount :: string
  li_currencyCode :: string
  li_divisionId :: "string option"
  li_divisionNameSnapshot :: "string option"

record create_intent_input =
  ni_organizationId :: string
  ni_customerId :: string
  ni_sessionId :: string
  ni_idempotencyKey :: string
  ni_intentType :: "intent_type option"
  ni_offeringId :: "string option"
  ni_entitlementClass :: "string option"
  ni_durationDays :: "int option"
  ni_festivalClassId :: "string option"
  ni_childId :: "string option"
  ni_shopifyProductGid :: string
  ni_shopifyVariantGid :: string
  ni_policyVersion :: "string option"
  ni_divisionId :: "string option"
  ni_divisionNameSnapshot :: "string option"
  ni_staffAccessConsent :: "bool option"
  ni_amount :: string
  ni_currencyCode :: string
  ni_expiresAtIso :: string
  ni_lines :: "intent_line_input list option"

definition CLASS_CHECKOUT_LINE_IDENTITY_PROTOCOL :: string where
  "CLASS_CHECKOUT_LINE_IDENTITY_PROTOCOL = ''class_line_identity_v1''"

record checkout_repo =
  cr_carts :: "(string, checkout_cart) js_map"
  cr_intents :: "(string, checkout_intent) js_map"
  cr_metadataKeys :: "(string, nat) js_map"
  cr_metadata :: "registration_metadata list"

definition empty_checkout_repo :: checkout_repo where
  "empty_checkout_repo = \<lparr>cr_carts = [], cr_intents = [], cr_metadataKeys = [], cr_metadata = []\<rparr>"

section \<open>Lines\<close>

text \<open>The \<open>k\<close>-th random identifier is \<open>ids k\<close>.\<close>

definition line_of_input :: "checkout_intent \<Rightarrow> (nat \<Rightarrow> string) \<Rightarrow> nat \<Rightarrow> intent_line_input \<Rightarrow> intent_line" where
  "line_of_input intent ids index line =
     \<lparr>il_id = (case li_id line of Some i \<Rightarrow> i | None \<Rightarrow> ids index), il_checkoutIntentId = xi_id intent,
      il_lineIndex = (case li_lineIndex line of Some k \<Rightarrow> k | None \<Rightarrow> int index),
      il_lineType = (case li_lineType line of Some ty \<Rightarrow> ty | None \<Rightarrow> ''class_entry''),
      il_festivalClassId = li_festivalClassId line, il_childId = li_childId line, il_offeringId = li_offeringId line,
      il_shopifyProductGid = li_shopifyProductGid line, il_shopifyVariantGid = li_shopifyVariantGid line,
      il_amount = li_amount line, il_currencyCode = li_currencyCode line, il_divisionId = li_divisionId line,
      il_divisionNameSnapshot = li_divisionNameSnapshot line, il_createdAtIso = xi_createdAtIso intent\<rparr>"

definition single_line :: "checkout_intent \<Rightarrow> string \<Rightarrow> intent_line" where
  "single_line intent line_id =
     \<lparr>il_id = line_id, il_checkoutIntentId = xi_id intent, il_lineIndex = 0,
      il_lineType = (if xi_intentType intent = ClassEntryIntent then ''class_entry'' else ''membership''),
      il_festivalClassId = xi_festivalClassId intent, il_childId = xi_childId intent, il_offeringId = xi_offeringId intent,
      il_shopifyProductGid = xi_shopifyProductGid intent, il_shopifyVariantGid = xi_shopifyVariantGid intent,
      il_amount = xi_amount intent, il_currencyCode = xi_currencyCode intent, il_divisionId = xi_divisionId intent,
      il_divisionNameSnapshot = xi_divisionNameSnapshot intent, il_createdAtIso = xi_createdAtIso intent\<rparr>"

definition build_intent_line_records ::
    "checkout_intent \<Rightarrow> (nat \<Rightarrow> string) \<Rightarrow> intent_line_input list option \<Rightarrow> intent_line list" where
  "build_intent_line_records intent ids inputs =
     (case inputs of
        Some (l # ls) \<Rightarrow> map (\<lambda>(k, line). line_of_input intent ids k line) (enumerate 0 (l # ls))
      | _ \<Rightarrow> [single_line intent (ids 0)])"

text \<open>\<open>/^[0-9a-f]{8}-[0-9a-f]{4}-[1-5][0-9a-f]{3}-[89ab][0-9a-f]{3}-[0-9a-f]{12}$/\<close>.\<close>

definition hex_lower :: "char \<Rightarrow> bool" where
  "hex_lower c \<longleftrightarrow> (let n = (of_char c :: nat) in 48 \<le> n \<and> n \<le> 57 \<or> 97 \<le> n \<and> n \<le> 102)"

definition is_canonical_uuid :: "string \<Rightarrow> bool" where
  "is_canonical_uuid s \<longleftrightarrow> length s = 36 \<and>
     list_all (\<lambda>k. if k \<in> {8, 13, 18, 23} then s ! k = CHR ''-'' else hex_lower (s ! k)) [0..<36] \<and>
     s ! 14 \<in> set ''12345'' \<and> s ! 19 \<in> set ''89ab''"

record expected_line =
  el_festivalClassId :: string
  el_childId :: string
  el_shopifyProductGid :: string
  el_shopifyVariantGid :: string
  el_amount :: string
  el_currencyCode :: string

definition line_matches :: "expected_line \<Rightarrow> intent_line \<Rightarrow> bool" where
  "line_matches e l \<longleftrightarrow>
     \<not> (il_lineType l \<noteq> ''class_entry'' \<or> il_festivalClassId l \<noteq> Some (el_festivalClassId e) \<or>
        il_childId l \<noteq> Some (el_childId e) \<or> il_shopifyProductGid l \<noteq> el_shopifyProductGid e \<or>
        il_shopifyVariantGid l \<noteq> el_shopifyVariantGid e \<or> il_amount l \<noteq> el_amount e \<or>
        il_currencyCode l \<noteq> el_currencyCode e)"

text \<open>The loop over the persisted lines, with the lines by index and the identifiers seen.\<close>

fun collect_lines ::
    "string \<Rightarrow> expected_line list \<Rightarrow> (int, intent_line) js_map \<Rightarrow> string list \<Rightarrow> intent_line list \<Rightarrow> (int, intent_line) js_map outcome"
where
  "collect_lines intent_id es by_index seen [] = Inr by_index"
| "collect_lines intent_id es by_index seen (l # ls) =
     (if il_checkoutIntentId l \<noteq> intent_id \<or> il_lineIndex l < 0 \<or> int (length es) \<le> il_lineIndex l \<or>
         js_get by_index (il_lineIndex l) \<noteq> None \<or> \<not> is_canonical_uuid (il_id l) \<or> il_id l \<in> set seen
      then Inl (PlainError ''Checkout intent line persistence is invalid.'')
      else if \<not> line_matches (es ! nat (il_lineIndex l)) l
      then Inl (PlainError ''Checkout intent line persistence does not match request.'')
      else collect_lines intent_id es (js_set (il_lineIndex l) l by_index) (seen @ [il_id l]) ls)"

fun lines_in_order :: "(int, intent_line) js_map \<Rightarrow> int list \<Rightarrow> intent_line list outcome" where
  "lines_in_order by_index [] = Inr []"
| "lines_in_order by_index (k # ks) =
     (case js_get by_index k of
        None \<Rightarrow> Inl (PlainError ''Checkout intent line persistence is incomplete.'')
      | Some l \<Rightarrow> and_then (lines_in_order by_index ks) (\<lambda>ls. Inr (l # ls)))"

definition require_class_checkout_intent_line_mapping :: "string \<Rightarrow> intent_line list \<Rightarrow> expected_line list \<Rightarrow> intent_line list outcome" where
  "require_class_checkout_intent_line_mapping intent_id ls es =
     (if length ls \<noteq> length es then Inl (PlainError ''Checkout intent line persistence is incomplete.'')
      else and_then (collect_lines intent_id es [] [] ls) (\<lambda>by_index. lines_in_order by_index (map int [0..<length es])))"

text \<open>The identifiers of the \<open>k\<close>-th item and of its contributor are \<open>ids k\<close>.\<close>

definition repertoire_items_from_legacy_pieces ::
    "(nat \<Rightarrow> string \<times> string) \<Rightarrow> string \<Rightarrow> string \<Rightarrow> piece list \<Rightarrow> repertoire_item list" where
  "repertoire_items_from_legacy_pieces ids meta_id org pieces =
     map (\<lambda>(index, p).
       \<lparr>ri_id = fst (ids index), ri_registrationMetadataId = meta_id, ri_organizationId = org, ri_displayOrder = index + 1,
        ri_catalogWorkId = if_truthy (map_option js_trim (pc_catalogWorkId p)),
        ri_titleSnapshot = pc_title p, ri_performedMovementText = if_truthy (map_option js_trim (pc_movement p)),
        ri_durationSeconds = pc_durationSeconds p,
        ri_contributors = [\<lparr>cb_id = snd (ids index), cb_displayOrder = 1, cb_role = ''Composer'',
          cb_displayNameSnapshot = pc_composer p, cb_catalogContributorId = None\<rparr>]\<rparr>) (enumerate 0 pieces)"

section \<open>Intents\<close>

definition processing_status :: "intent_status \<Rightarrow> bool" where
  "processing_status s \<longleftrightarrow> s = IntentCreating \<or> s = IntentReady \<or> s = IntentStarted"

text \<open>\<open>intent.cartReference ? carts.get(intent.cartReference) : undefined\<close>.\<close>

definition intent_cart :: "checkout_intent \<Rightarrow> checkout_repo \<Rightarrow> checkout_cart option" where
  "intent_cart intent r =
     (case if_truthy (xi_cartReference intent) of None \<Rightarrow> None | Some ref \<Rightarrow> js_get (cr_carts r) ref)"

definition outcome_for :: "string \<Rightarrow> checkout_intent \<Rightarrow> checkout_repo \<Rightarrow> intent_outcome" where
  "outcome_for now intent r =
     (if xi_expiresAtIso intent \<le> now then OutcomeExpired
      else if xi_status intent = IntentCreating then OutcomeInProgress
      else if xi_status intent = IntentFailed then OutcomeFailed
      else (case intent_cart intent r of
              None \<Rightarrow> OutcomeFailed
            | Some cart \<Rightarrow>
                if (xi_status intent = IntentReady \<or> xi_status intent = IntentStarted) \<and> now < kc_expiresAtIso cart \<and>
                   kc_status cart \<noteq> CartExpired \<and> kc_status cart \<noteq> CartSuperseded
                then OutcomeReady intent cart else OutcomeFailed))"

definition same_request :: "string \<Rightarrow> string \<Rightarrow> string \<Rightarrow> string \<Rightarrow> checkout_intent \<Rightarrow> bool" where
  "same_request org customer session key intent \<longleftrightarrow>
     xi_organizationId intent = org \<and> xi_customerId intent = customer \<and> xi_sessionId intent = session \<and>
     xi_idempotencyKey intent = key"

definition get_outcome :: "string \<Rightarrow> string \<Rightarrow> string \<Rightarrow> string \<Rightarrow> string \<Rightarrow> checkout_repo \<Rightarrow> intent_outcome option" where
  "get_outcome org customer session key now r =
     map_option (\<lambda>intent. outcome_for now intent r)
       (find (same_request org customer session key) (js_values (cr_intents r)))"

definition blocks_customer :: "string \<Rightarrow> string \<Rightarrow> string \<Rightarrow> checkout_intent \<Rightarrow> bool" where
  "blocks_customer org customer now intent \<longleftrightarrow>
     xi_organizationId intent = org \<and> xi_customerId intent = customer \<and> processing_status (xi_status intent) \<and>
     now < xi_expiresAtIso intent"

definition new_intent :: "create_intent_input \<Rightarrow> string \<Rightarrow> string \<Rightarrow> (nat \<Rightarrow> string) \<Rightarrow> string \<Rightarrow> checkout_intent" where
  "new_intent input iid correlation line_ids now =
     (let v = \<lparr>xi_id = iid, xi_correlationId = correlation, xi_organizationId = ni_organizationId input,
        xi_customerId = ni_customerId input, xi_sessionId = ni_sessionId input, xi_idempotencyKey = ni_idempotencyKey input,
        xi_intentType = (case ni_intentType input of Some ty \<Rightarrow> ty | None \<Rightarrow> MembershipIntent),
        xi_offeringId = ni_offeringId input, xi_entitlementClass = ni_entitlementClass input,
        xi_durationDays = ni_durationDays input, xi_festivalClassId = ni_festivalClassId input, xi_childId = ni_childId input,
        xi_shopifyProductGid = ni_shopifyProductGid input, xi_shopifyVariantGid = ni_shopifyVariantGid input,
        xi_policyVersion = ni_policyVersion input, xi_divisionId = ni_divisionId input,
        xi_divisionNameSnapshot = ni_divisionNameSnapshot input,
        xi_staffAccessConsent = (case ni_staffAccessConsent input of Some b \<Rightarrow> b | None \<Rightarrow> False),
        xi_amount = ni_amount input, xi_currencyCode = ni_currencyCode input, xi_cartReference = None,
        xi_status = IntentCreating, xi_expiresAtIso = ni_expiresAtIso input, xi_createdAtIso = now,
        xi_lineIdentityProtocol =
          (if ni_intentType input = Some ClassEntryIntent then Some CLASS_CHECKOUT_LINE_IDENTITY_PROTOCOL else None),
        xi_lines = []\<rparr>
      in v\<lparr>xi_lines := build_intent_line_records v line_ids (ni_lines input)\<rparr>)"

definition create_intent ::
    "create_intent_input \<Rightarrow> string \<Rightarrow> string \<Rightarrow> (nat \<Rightarrow> string) \<Rightarrow> string \<Rightarrow> checkout_repo \<Rightarrow> intent_outcome \<times> checkout_repo" where
  "create_intent input iid correlation line_ids now r =
     (case find (same_request (ni_organizationId input) (ni_customerId input) (ni_sessionId input) (ni_idempotencyKey input))
             (js_values (cr_intents r)) of
        Some existing \<Rightarrow> (outcome_for now existing r, r)
      | None \<Rightarrow>
          if list_ex (blocks_customer (ni_organizationId input) (ni_customerId input) now) (js_values (cr_intents r))
          then (OutcomeInProgress, r)
          else let v = new_intent input iid correlation line_ids now
               in (OutcomeCreated v, r\<lparr>cr_intents := js_set iid v (cr_intents r)\<rparr>))"

definition set_intent_status :: "string \<Rightarrow> intent_status \<Rightarrow> checkout_repo \<Rightarrow> checkout_repo" where
  "set_intent_status iid s r = r\<lparr>cr_intents := js_modify iid (\<lambda>i. i\<lparr>xi_status := s\<rparr>) (cr_intents r)\<rparr>"

definition set_cart_status :: "string \<Rightarrow> cart_status \<Rightarrow> checkout_repo \<Rightarrow> checkout_repo" where
  "set_cart_status ref s r = r\<lparr>cr_carts := js_modify ref (\<lambda>k. k\<lparr>kc_status := s\<rparr>) (cr_carts r)\<rparr>"

record attach_input =
  at_intentId :: string
  at_shopifyCartId :: string
  at_organizationId :: string
  at_customerId :: string
  at_sessionId :: string
  at_integrationVersion :: int
  at_expiresAtIso :: string

text \<open>\<open>failure\<close> is what the capacity check returned inside the lock.\<close>

definition attach_cart ::
    "attach_input \<Rightarrow> app_error option \<Rightarrow> string \<Rightarrow> string \<Rightarrow> checkout_repo \<Rightarrow> checkout_cart outcome \<times> checkout_repo" where
  "attach_cart input failure reference now r =
     (case failure of
        Some e \<Rightarrow> (Inl e, r)
      | None \<Rightarrow>
          (case js_get (cr_intents r) (at_intentId input) of
             None \<Rightarrow> (Inl (PlainError ''Checkout intent cannot accept a cart.''), r)
           | Some intent \<Rightarrow>
               if xi_organizationId intent \<noteq> at_organizationId input \<or> xi_status intent \<noteq> IntentCreating
               then (Inl (PlainError ''Checkout intent cannot accept a cart.''), r)
               else let cart = \<lparr>kc_reference = reference, kc_shopifyCartId = at_shopifyCartId input,
                      kc_organizationId = at_organizationId input, kc_customerId = at_customerId input,
                      kc_sessionId = at_sessionId input, kc_integrationVersion = at_integrationVersion input,
                      kc_status = CartReady, kc_expiresAtIso = at_expiresAtIso input, kc_createdAtIso = now\<rparr>
                    in (Inr cart, r\<lparr>cr_carts := js_set reference cart (cr_carts r),
                          cr_intents := js_modify (at_intentId input)
                            (\<lambda>i. i\<lparr>xi_cartReference := Some reference, xi_status := IntentReady\<rparr>) (cr_intents r)\<rparr>)))"

definition mark_checkout_started :: "string \<Rightarrow> checkout_repo \<Rightarrow> unit outcome \<times> checkout_repo" where
  "mark_checkout_started iid r =
     (case js_get (cr_intents r) iid of
        None \<Rightarrow> (Inl (PlainError ''Checkout intent is not ready.''), r)
      | Some intent \<Rightarrow>
          if xi_status intent \<noteq> IntentReady \<and> xi_status intent \<noteq> IntentStarted
          then (Inl (PlainError ''Checkout intent is not ready.''), r)
          else (Inr (), (case if_truthy (xi_cartReference intent) of
                   None \<Rightarrow> set_intent_status iid IntentStarted r
                 | Some ref \<Rightarrow> set_cart_status ref CartStarted (set_intent_status iid IntentStarted r))))"

definition mark_failed :: "string \<Rightarrow> checkout_repo \<Rightarrow> checkout_repo" where
  "mark_failed iid r =
     (case js_get (cr_intents r) iid of
        None \<Rightarrow> r
      | Some intent \<Rightarrow>
          (case if_truthy (xi_cartReference intent) of
             None \<Rightarrow> set_intent_status iid IntentFailed r
           | Some ref \<Rightarrow> set_cart_status ref CartSuperseded (set_intent_status iid IntentFailed r)))"

definition get_cart :: "string \<Rightarrow> string \<Rightarrow> string \<Rightarrow> string \<Rightarrow> checkout_repo \<Rightarrow> checkout_cart option" where
  "get_cart reference org customer now r =
     (case js_get (cr_carts r) reference of
        None \<Rightarrow> None
      | Some cart \<Rightarrow>
          if kc_organizationId cart \<noteq> org \<or> kc_customerId cart \<noteq> customer \<or> kc_expiresAtIso cart \<le> now \<or>
             kc_status cart = CartExpired \<or> kc_status cart = CartSuperseded
          then None else Some cart)"

definition find_intent_by_correlation :: "string \<Rightarrow> string \<Rightarrow> checkout_repo \<Rightarrow> checkout_intent option" where
  "find_intent_by_correlation org correlation r =
     find (\<lambda>i. xi_organizationId i = org \<and> xi_correlationId i = correlation) (js_values (cr_intents r))"

definition find_intent_by_id :: "string \<Rightarrow> string \<Rightarrow> checkout_repo \<Rightarrow> checkout_intent option" where
  "find_intent_by_id org iid r =
     (case js_get (cr_intents r) iid of
        None \<Rightarrow> None | Some intent \<Rightarrow> if xi_organizationId intent \<noteq> org then None else Some intent)"

definition has_processing_intent :: "string \<Rightarrow> string \<Rightarrow> string \<Rightarrow> checkout_repo \<Rightarrow> bool" where
  "has_processing_intent org customer now r =
     list_ex (\<lambda>i. xi_organizationId i = org \<and> xi_customerId i = customer \<and> now < xi_expiresAtIso i \<and>
       processing_status (xi_status i)) (js_values (cr_intents r))"

datatype resolution = ResolvedApproved | ResolvedRejected | ResolvedNeedsReview

definition resolution_status :: "resolution \<Rightarrow> intent_status" where
  "resolution_status r = (case r of ResolvedApproved \<Rightarrow> IntentApproved | ResolvedRejected \<Rightarrow> IntentRejected
     | ResolvedNeedsReview \<Rightarrow> IntentNeedsReview)"

definition resolve_intent :: "string \<Rightarrow> resolution \<Rightarrow> checkout_repo \<Rightarrow> checkout_repo" where
  "resolve_intent iid res r = set_intent_status iid (resolution_status res) r"

section \<open>Registration metadata\<close>

text \<open>\<open>[...this.registrationMetadata.values()]\<close>: the records by the order of the keys.\<close>

definition metadata_values :: "checkout_repo \<Rightarrow> registration_metadata list" where
  "metadata_values r = map (\<lambda>a. cr_metadata r ! a) (js_values (cr_metadataKeys r))"

definition find_metadata :: "(registration_metadata \<Rightarrow> bool) \<Rightarrow> checkout_repo \<Rightarrow> nat option" where
  "find_metadata p r = find (\<lambda>a. p (cr_metadata r ! a)) (js_values (cr_metadataKeys r))"

definition update_metadata :: "nat \<Rightarrow> (registration_metadata \<Rightarrow> registration_metadata) \<Rightarrow> checkout_repo \<Rightarrow> checkout_repo" where
  "update_metadata a f r = r\<lparr>cr_metadata := (cr_metadata r)[a := f (cr_metadata r ! a)]\<rparr>"

record metadata_params =
  mp_id :: string
  mp_organizationId :: string
  mp_festivalId :: string
  mp_checkoutIntentId :: string
  mp_checkoutIntentLineId :: "string option"
  mp_teacherMembershipId :: string
  mp_accompanistMembershipId :: "string option"
  mp_repertoireJson :: "piece list"
  mp_repertoireSnapshotPieces :: "piece list option"
  mp_registrationSnapshot :: "registration_snapshot option"

fun metadata_conflict :: "metadata_params \<Rightarrow> registration_metadata list \<Rightarrow> app_error option" where
  "metadata_conflict p [] = None"
| "metadata_conflict p (m # ms) =
     (if rm_id m = mp_id p then Some (PlainError ''Registration metadata ID already exists.'')
      else if mp_checkoutIntentLineId p \<noteq> None \<and> rm_checkoutIntentLineId m = mp_checkoutIntentLineId p
      then Some (PlainError ''Registration metadata checkout intent line already exists.'')
      else metadata_conflict p ms)"

definition new_metadata :: "metadata_params \<Rightarrow> (nat \<Rightarrow> string \<times> string) \<Rightarrow> string \<Rightarrow> registration_metadata" where
  "new_metadata p ids now =
     \<lparr>rm_id = mp_id p, rm_organizationId = mp_organizationId p, rm_festivalId = mp_festivalId p,
      rm_checkoutIntentId = mp_checkoutIntentId p, rm_checkoutIntentLineId = mp_checkoutIntentLineId p,
      rm_classEntitlementId = None, rm_teacherMembershipId = mp_teacherMembershipId p,
      rm_accompanistMembershipId = mp_accompanistMembershipId p, rm_repertoireJson = mp_repertoireJson p,
      rm_repertoireItems = repertoire_items_from_legacy_pieces ids (mp_id p) (mp_organizationId p)
        (case mp_repertoireSnapshotPieces p of Some ps \<Rightarrow> ps | None \<Rightarrow> mp_repertoireJson p),
      rm_registrationSnapshot = normalize_class_registration_snapshot (mp_registrationSnapshot p), rm_createdAt = now\<rparr>"

definition insert_registration_metadata ::
    "metadata_params \<Rightarrow> (nat \<Rightarrow> string \<times> string) \<Rightarrow> string \<Rightarrow> checkout_repo \<Rightarrow> registration_metadata outcome \<times> checkout_repo" where
  "insert_registration_metadata p ids now r =
     (case metadata_conflict p (metadata_values r) of
        Some e \<Rightarrow> (Inl e, r)
      | None \<Rightarrow>
          let m = new_metadata p ids now; a = length (cr_metadata r);
              keys = js_set (mp_checkoutIntentId p) a (js_set (mp_id p) a (cr_metadataKeys r))
          in (Inr m, r\<lparr>cr_metadata := cr_metadata r @ [m],
                cr_metadataKeys := (case if_truthy (mp_checkoutIntentLineId p) of
                    None \<Rightarrow> keys | Some line \<Rightarrow> js_set line a keys)\<rparr>))"

text \<open>A missing \<open>checkoutIntentId\<close> never equals the stored one.\<close>

definition link_target :: "string option \<Rightarrow> string option \<Rightarrow> registration_metadata \<Rightarrow> bool" where
  "link_target intent_id line_id m =
     (case if_truthy line_id of
        Some line \<Rightarrow> rm_checkoutIntentLineId m = Some line
      | None \<Rightarrow> Some (rm_checkoutIntentId m) = intent_id)"

definition link_registration_metadata_to_entitlement ::
    "string option \<Rightarrow> string option \<Rightarrow> string \<Rightarrow> checkout_repo \<Rightarrow> checkout_repo" where
  "link_registration_metadata_to_entitlement intent_id line_id entitlement r =
     (case find_metadata (link_target intent_id line_id) r of
        None \<Rightarrow> r
      | Some a \<Rightarrow> update_metadata a (\<lambda>m. m\<lparr>rm_classEntitlementId := Some entitlement\<rparr>) r)"

definition snapshot_entitlement_links ::
    "string list \<Rightarrow> string list \<Rightarrow> checkout_repo \<Rightarrow> (string, string option) js_map" where
  "snapshot_entitlement_links intent_ids line_ids r =
     foldl (\<lambda>snap m.
       if rm_checkoutIntentId m \<in> set intent_ids \<or>
          (case rm_checkoutIntentLineId m of Some line \<Rightarrow> line \<in> set line_ids | None \<Rightarrow> False)
       then js_set (rm_id m) (rm_classEntitlementId m) snap else snap) [] (metadata_values r)"

definition restore_entitlement_links :: "(string, string option) js_map \<Rightarrow> checkout_repo \<Rightarrow> checkout_repo" where
  "restore_entitlement_links snapshot r =
     (let addresses = foldl (\<lambda>recs a.
            if js_get snapshot (rm_id (cr_metadata r ! a)) \<noteq> None then js_set (rm_id (cr_metadata r ! a)) a recs else recs)
            [] (js_values (cr_metadataKeys r))
      in foldl (\<lambda>r (iid, link).
           (case js_get addresses iid of None \<Rightarrow> r | Some a \<Rightarrow> update_metadata a (\<lambda>m. m\<lparr>rm_classEntitlementId := link\<rparr>) r))
           r snapshot)"

definition shown_metadata :: "registration_metadata \<Rightarrow> registration_metadata" where
  "shown_metadata m = m\<lparr>rm_registrationSnapshot := normalize_class_registration_snapshot (rm_registrationSnapshot m)\<rparr>"

definition get_registration_metadata_by_entitlement_id ::
    "string \<Rightarrow> string \<Rightarrow> checkout_repo \<Rightarrow> registration_metadata option" where
  "get_registration_metadata_by_entitlement_id org entitlement r =
     map_option (\<lambda>a. shown_metadata (cr_metadata r ! a))
       (find_metadata (\<lambda>m. rm_organizationId m = org \<and> rm_classEntitlementId m = Some entitlement) r)"

definition update_registration_metadata ::
    "string \<Rightarrow> string \<Rightarrow> string option option \<Rightarrow> piece list \<Rightarrow> (nat \<Rightarrow> string \<times> string) \<Rightarrow> checkout_repo
      \<Rightarrow> registration_metadata outcome \<times> checkout_repo" where
  "update_registration_metadata iid org accompanist pieces ids r =
     (case find_metadata (\<lambda>m. rm_id m = iid \<and> rm_organizationId m = org) r of
        None \<Rightarrow> (Inl (PlainError ''Registration metadata not found.''), r)
      | Some a \<Rightarrow>
          let r' = update_metadata a (\<lambda>m. m\<lparr>
                rm_accompanistMembershipId := (case accompanist of Some x \<Rightarrow> x | None \<Rightarrow> rm_accompanistMembershipId m),
                rm_repertoireJson := pieces,
                rm_repertoireItems := repertoire_items_from_legacy_pieces ids (rm_id m) (rm_organizationId m) pieces\<rparr>) r
          in (Inr (shown_metadata (cr_metadata r' ! a)), r'))"

section \<open>Reachable repositories\<close>

text \<open>
  Identifiers of metadata records are random: they are no key yet, and no intent or line of an
  intent has them.
\<close>

definition fresh_metadata_keys :: "metadata_params \<Rightarrow> checkout_repo \<Rightarrow> bool" where
  "fresh_metadata_keys p r \<longleftrightarrow>
     js_get (cr_metadataKeys r) (mp_id p) = None \<and> mp_id p \<noteq> mp_checkoutIntentId p \<and> mp_checkoutIntentLineId p \<noteq> Some (mp_id p) \<and>
     (\<forall>m \<in> set (cr_metadata r). rm_id m \<noteq> mp_checkoutIntentId p \<and> mp_checkoutIntentLineId p \<noteq> Some (rm_id m))"

text \<open>The clock never runs back; a random identifier is new where it is used as a key.\<close>

inductive checkout_reachable :: "string \<Rightarrow> checkout_repo \<Rightarrow> bool" where
  ck_new: "checkout_reachable t empty_checkout_repo"
| ck_tick: "checkout_reachable t r \<Longrightarrow> t \<le> t' \<Longrightarrow> checkout_reachable t' r"
| ck_create: "checkout_reachable t r \<Longrightarrow> js_get (cr_intents r) iid = None \<Longrightarrow>
    checkout_reachable t (snd (create_intent input iid correlation line_ids t r))"
| ck_attach: "checkout_reachable t r \<Longrightarrow> reference \<noteq> [] \<Longrightarrow> js_get (cr_carts r) reference = None \<Longrightarrow>
    checkout_reachable t (snd (attach_cart input failure reference t r))"
| ck_started: "checkout_reachable t r \<Longrightarrow> checkout_reachable t (snd (mark_checkout_started iid r))"
| ck_failed: "checkout_reachable t r \<Longrightarrow> checkout_reachable t (mark_failed iid r)"
| ck_resolve: "checkout_reachable t r \<Longrightarrow> checkout_reachable t (resolve_intent iid res r)"
| ck_insert: "checkout_reachable t r \<Longrightarrow> fresh_metadata_keys p r \<Longrightarrow>
    checkout_reachable t (snd (insert_registration_metadata p ids t r))"
| ck_link: "checkout_reachable t r \<Longrightarrow>
    checkout_reachable t (link_registration_metadata_to_entitlement intent_id line_id entitlement r)"
| ck_restore: "checkout_reachable t r \<Longrightarrow> checkout_reachable t (restore_entitlement_links snapshot r)"
| ck_update: "checkout_reachable t r \<Longrightarrow>
    checkout_reachable t (snd (update_registration_metadata mid org accompanist pieces ids r))"

section \<open>Invariant of the intents\<close>

text \<open>An earlier intent is of another request, and if it is of the same customer it had ended when the later one was created.\<close>

definition precedes :: "checkout_intent \<Rightarrow> checkout_intent \<Rightarrow> bool" where
  "precedes i j \<longleftrightarrow>
     \<not> same_request (xi_organizationId j) (xi_customerId j) (xi_sessionId j) (xi_idempotencyKey j) i \<and>
     (xi_organizationId i = xi_organizationId j \<and> xi_customerId i = xi_customerId j \<and> processing_status (xi_status i) \<longrightarrow>
        xi_expiresAtIso i \<le> xi_createdAtIso j)"

definition cart_fits :: "checkout_intent \<Rightarrow> (string, checkout_cart) js_map \<Rightarrow> bool" where
  "cart_fits i carts \<longleftrightarrow>
     (case xi_cartReference i of
        None \<Rightarrow> xi_status i \<noteq> IntentReady \<and> xi_status i \<noteq> IntentStarted
      | Some ref \<Rightarrow> ref \<noteq> [] \<and> xi_status i \<noteq> IntentCreating \<and>
          (\<exists>k. js_get carts ref = Some k \<and> kc_organizationId k = xi_organizationId i \<and>
             (xi_status i = IntentReady \<longrightarrow> kc_status k = CartReady) \<and>
             (xi_status i = IntentStarted \<longrightarrow> kc_status k = CartStarted) \<and>
             (xi_status i = IntentFailed \<longrightarrow> kc_status k = CartSuperseded)))"

definition intents_ok :: "string \<Rightarrow> checkout_repo \<Rightarrow> bool" where
  "intents_ok t r \<longleftrightarrow>
     js_wf (cr_intents r) \<and> js_wf (cr_carts r) \<and> sorted_wrt precedes (js_values (cr_intents r)) \<and>
     (\<forall>iid i. js_get (cr_intents r) iid = Some i \<longrightarrow> xi_id i = iid \<and> xi_createdAtIso i \<le> t \<and> cart_fits i (cr_carts r)) \<and>
     (\<forall>a b i j. js_get (cr_intents r) a = Some i \<longrightarrow> js_get (cr_intents r) b = Some j \<longrightarrow>
        xi_cartReference i \<noteq> None \<longrightarrow> xi_cartReference i = xi_cartReference j \<longrightarrow> a = b)"

lemma sorted_wrt_modify:
  assumes "js_wf m" "js_get m k = Some v" "sorted_wrt R (js_values m)"
    and "\<And>x. R v x \<Longrightarrow> R (f v) x" "\<And>x. R x v \<Longrightarrow> R x (f v)"
  shows "sorted_wrt R (js_values (js_modify k f m))"
  using assms(1-3)
proof (induction m)
  case (Cons kv m)
  obtain k' v' where kv: "kv = (k', v')" by (cases kv)
  from Cons.prems kv have wf: "js_wf m" "k' \<notin> set (js_keys m)" by (simp_all add: js_wf_def js_keys_def)
  show ?case
  proof (cases "k' = k")
    case True
    then have same: "js_modify k f m = m"
      using wf(2) by (force simp: js_modify_def js_keys_def intro!: map_idI)
    with Cons.prems kv True assms(4) show ?thesis by (auto simp: js_modify_def js_get_Cons)
  next
    case False
    with Cons.prems kv have g: "js_get m k = Some v" by (simp add: js_get_Cons)
    have sub: "set (js_values (js_modify k f m)) \<subseteq> insert (f v) (set (js_values m))"
    proof
      fix x assume "x \<in> set (js_values (js_modify k f m))"
      then obtain k1 w where w: "(k1, w) \<in> set m" "x = (if k1 = k then f w else w)"
        by (auto simp: js_modify_def js_values_def)
      then have "js_get m k1 = Some w" by (simp add: js_wf_get [OF wf(1)])
      with w g show "x \<in> insert (f v) (set (js_values m))" by (auto dest: js_get_Some_values split: if_splits)
    qed
    have "v \<in> set (js_values m)" using g by (rule js_get_Some_values)
    with sub Cons.prems(3) kv assms(5) have "\<forall>x \<in> set (js_values (js_modify k f m)). R v' x" by auto
    moreover have "js_values (js_modify k f (kv # m)) = v' # js_values (js_modify k f m)"
      using False kv by (simp add: js_modify_def)
    ultimately show ?thesis using Cons.IH [OF wf(1) g] Cons.prems(3) kv by simp
  qed
qed simp

definition same_identity :: "checkout_intent \<Rightarrow> checkout_intent \<Rightarrow> bool" where
  "same_identity i i' \<longleftrightarrow>
     xi_id i' = xi_id i \<and> xi_organizationId i' = xi_organizationId i \<and> xi_customerId i' = xi_customerId i \<and>
     xi_sessionId i' = xi_sessionId i \<and> xi_idempotencyKey i' = xi_idempotencyKey i \<and>
     xi_createdAtIso i' = xi_createdAtIso i \<and> xi_expiresAtIso i' = xi_expiresAtIso i \<and>
     (processing_status (xi_status i') \<longrightarrow> processing_status (xi_status i))"

lemma precedes_same_identity:
  assumes "same_identity i i'"
  shows "precedes i x \<Longrightarrow> precedes i' x" "precedes x i \<Longrightarrow> precedes x i'"
  using assms by (auto simp: precedes_def same_identity_def same_request_def)

lemma modify_intent_ok:
  assumes r: "intents_ok t r" and i: "js_get (cr_intents r) iid = Some i" and f: "same_identity i (f i)"
    and carts: "js_wf carts" and fits: "cart_fits (f i) carts"
    and others: "\<And>k j. k \<noteq> iid \<Longrightarrow> js_get (cr_intents r) k = Some j \<Longrightarrow> cart_fits j carts"
    and ref: "\<And>k j. k \<noteq> iid \<Longrightarrow> js_get (cr_intents r) k = Some j \<Longrightarrow> xi_cartReference (f i) \<noteq> None \<Longrightarrow>
      xi_cartReference j \<noteq> xi_cartReference (f i)"
  shows "intents_ok t (r\<lparr>cr_intents := js_modify iid f (cr_intents r), cr_carts := carts\<rparr>)"
proof -
  have wf: "js_wf (cr_intents r)" and sorted: "sorted_wrt precedes (js_values (cr_intents r))"
    and each: "\<And>k j. js_get (cr_intents r) k = Some j \<Longrightarrow> xi_id j = k \<and> xi_createdAtIso j \<le> t"
    and uniq: "\<And>a b x y. js_get (cr_intents r) a = Some x \<Longrightarrow> js_get (cr_intents r) b = Some y \<Longrightarrow>
      xi_cartReference x \<noteq> None \<Longrightarrow> xi_cartReference x = xi_cartReference y \<Longrightarrow> a = b"
    using r unfolding intents_ok_def by blast+
  let ?m = "js_modify iid f (cr_intents r)"
  have sorted': "sorted_wrt precedes (js_values ?m)"
    by (rule sorted_wrt_modify [OF wf i sorted]) (rule precedes_same_identity [OF f], assumption)+
  have each': "xi_id j = k \<and> xi_createdAtIso j \<le> t \<and> cart_fits j carts" if "js_get ?m k = Some j" for k j
  proof (cases "k = iid")
    case True
    with that i each [OF i] f fits show ?thesis by (auto simp: same_identity_def)
  next
    case False
    with that have "js_get (cr_intents r) k = Some j" by simp
    with each others [OF False] show ?thesis by blast
  qed
  have old: "js_get (cr_intents r) k = Some j" if "js_get ?m k = Some j" "k \<noteq> iid" for k j using that by simp
  have new: "j = f i" if "js_get ?m iid = Some j" for j using that i by simp
  have uniq': "a = b" if "js_get ?m a = Some x" "js_get ?m b = Some y" "xi_cartReference x \<noteq> None"
    "xi_cartReference x = xi_cartReference y" for a b x y
  proof (cases "a = iid \<or> b = iid")
    case True
    with that new old ref show ?thesis by metis
  next
    case False
    with that uniq old show ?thesis by metis
  qed
  have "js_wf ?m" using wf by simp
  with sorted' carts have "js_wf ?m \<and> js_wf carts \<and> sorted_wrt precedes (js_values ?m)" by blast
  moreover have e: "cr_intents (r\<lparr>cr_intents := ?m, cr_carts := carts\<rparr>) = ?m"
    "cr_carts (r\<lparr>cr_intents := ?m, cr_carts := carts\<rparr>) = carts" by simp_all
  ultimately show ?thesis unfolding intents_ok_def e using each' uniq' by blast
qed

lemma intents_ok_frame:
  "cr_intents r' = cr_intents r \<Longrightarrow> cr_carts r' = cr_carts r \<Longrightarrow> intents_ok t r' = intents_ok t r"
  by (simp add: intents_ok_def)

lemma intents_ok_tick: "intents_ok t r \<Longrightarrow> t \<le> t' \<Longrightarrow> intents_ok t' r"
  unfolding intents_ok_def by (meson order_trans)

text \<open>Creating an intent appends it, and only when no unexpired checkout of the customer is open.\<close>

lemma create_intent_cases:
  obtains (existing) i where "i \<in> set (js_values (cr_intents r))"
      "same_request (ni_organizationId input) (ni_customerId input) (ni_sessionId input) (ni_idempotencyKey input) i"
      "create_intent input iid correlation line_ids now r = (outcome_for now i r, r)"
    | (blocked) i where "i \<in> set (js_values (cr_intents r))" "blocks_customer (ni_organizationId input) (ni_customerId input) now i"
      "create_intent input iid correlation line_ids now r = (OutcomeInProgress, r)"
    | (created) "\<forall>i \<in> set (js_values (cr_intents r)).
        \<not> same_request (ni_organizationId input) (ni_customerId input) (ni_sessionId input) (ni_idempotencyKey input) i \<and>
        \<not> blocks_customer (ni_organizationId input) (ni_customerId input) now i"
      "create_intent input iid correlation line_ids now r =
         (OutcomeCreated (new_intent input iid correlation line_ids now),
          r\<lparr>cr_intents := js_set iid (new_intent input iid correlation line_ids now) (cr_intents r)\<rparr>)"
proof (cases "find (same_request (ni_organizationId input) (ni_customerId input) (ni_sessionId input) (ni_idempotencyKey input))
    (js_values (cr_intents r))")
  case (Some i)
  then have "i \<in> set (js_values (cr_intents r))"
    "same_request (ni_organizationId input) (ni_customerId input) (ni_sessionId input) (ni_idempotencyKey input) i"
    by (auto simp: find_Some_iff)
  with Some that(1) show ?thesis by (simp add: create_intent_def)
next
  case None
  show ?thesis
  proof (cases "list_ex (blocks_customer (ni_organizationId input) (ni_customerId input) now) (js_values (cr_intents r))")
    case True
    then obtain i where "i \<in> set (js_values (cr_intents r))"
      "blocks_customer (ni_organizationId input) (ni_customerId input) now i" by (auto simp: list_ex_iff)
    moreover have "create_intent input iid correlation line_ids now r = (OutcomeInProgress, r)"
      by (simp only: create_intent_def None True option.case if_True)
    ultimately show ?thesis by (rule that(2))
  next
    case False
    have "create_intent input iid correlation line_ids now r =
         (OutcomeCreated (new_intent input iid correlation line_ids now),
          r\<lparr>cr_intents := js_set iid (new_intent input iid correlation line_ids now) (cr_intents r)\<rparr>)"
      by (simp only: create_intent_def None False option.case if_False Let_def)
    moreover have "\<forall>i \<in> set (js_values (cr_intents r)).
        \<not> same_request (ni_organizationId input) (ni_customerId input) (ni_sessionId input) (ni_idempotencyKey input) i \<and>
        \<not> blocks_customer (ni_organizationId input) (ni_customerId input) now i"
      using None False unfolding find_None_iff list_ex_iff by blast
    ultimately show ?thesis using that(3) by blast
  qed
qed

lemma new_intent_fields [simp]:
  "xi_id (new_intent input iid correlation line_ids now) = iid"
  "xi_organizationId (new_intent input iid correlation line_ids now) = ni_organizationId input"
  "xi_customerId (new_intent input iid correlation line_ids now) = ni_customerId input"
  "xi_sessionId (new_intent input iid correlation line_ids now) = ni_sessionId input"
  "xi_idempotencyKey (new_intent input iid correlation line_ids now) = ni_idempotencyKey input"
  "xi_createdAtIso (new_intent input iid correlation line_ids now) = now"
  "xi_expiresAtIso (new_intent input iid correlation line_ids now) = ni_expiresAtIso input"
  "xi_cartReference (new_intent input iid correlation line_ids now) = None"
  "xi_status (new_intent input iid correlation line_ids now) = IntentCreating"
  by (simp_all add: new_intent_def Let_def)

lemma create_intent_ok:
  assumes r: "intents_ok t r" and fresh: "js_get (cr_intents r) iid = None"
  shows "intents_ok t (snd (create_intent input iid correlation line_ids t r))"
proof (cases rule: create_intent_cases [where r = r and input = input and now = t and iid = iid and correlation = correlation and line_ids = line_ids])
  case created
  let ?v = "new_intent input iid correlation line_ids t"
  have "precedes i ?v" if "i \<in> set (js_values (cr_intents r))" for i
    using bspec [OF created(1) that] by (auto simp: precedes_def blocks_customer_def)
  moreover have "cart_fits ?v (cr_carts r)" by (simp add: cart_fits_def)
  ultimately show ?thesis
    using r fresh unfolding created(2) intents_ok_def
    by (simp add: js_values_set_fresh sorted_wrt_append split: if_splits) (metis option.inject new_intent_fields(8) option.distinct(1))
qed (use r in simp_all)

lemma set_intent_status_simps [simp]:
  "cr_carts (set_intent_status iid st r) = cr_carts r"
  "cr_intents (set_intent_status iid st r) = js_modify iid (\<lambda>i. i\<lparr>xi_status := st\<rparr>) (cr_intents r)"
  "cr_intents (set_cart_status ref ks r) = cr_intents r"
  "cr_carts (set_cart_status ref ks r) = js_modify ref (\<lambda>k. k\<lparr>kc_status := ks\<rparr>) (cr_carts r)"
  by (simp_all add: set_intent_status_def set_cart_status_def)

lemma cart_fits_other:
  assumes "cart_fits j carts" "xi_cartReference j \<noteq> Some ref"
  shows "cart_fits j (js_modify ref f carts)" "cart_fits j (js_set ref k carts)"
  using assms by (auto simp: cart_fits_def split: option.splits)

text \<open>A change of the status of an intent and, with it, of its cart.\<close>

lemma set_status_ok:
  assumes r: "intents_ok t r" and i: "js_get (cr_intents r) iid = Some i"
    and st: "processing_status st \<longrightarrow> processing_status (xi_status i)" "st \<noteq> IntentCreating" "st \<noteq> IntentReady"
    and ref: "xi_cartReference i = None \<Longrightarrow> st \<noteq> IntentStarted"
      "\<And>ref. xi_cartReference i = Some ref \<Longrightarrow> carts = js_modify ref (\<lambda>k. k\<lparr>kc_status := ks\<rparr>) (cr_carts r) \<or>
         carts = cr_carts r \<and> st \<noteq> IntentStarted \<and> st \<noteq> IntentFailed"
      "xi_cartReference i = None \<Longrightarrow> carts = cr_carts r"
    and ks: "st = IntentStarted \<longrightarrow> ks = CartStarted" "st = IntentFailed \<longrightarrow> ks = CartSuperseded"
  shows "intents_ok t (r\<lparr>cr_intents := js_modify iid (\<lambda>i. i\<lparr>xi_status := st\<rparr>) (cr_intents r), cr_carts := carts\<rparr>)"
proof (rule modify_intent_ok [OF r i])
  have wf: "js_wf (cr_carts r)" using r by (simp add: intents_ok_def)
  have fits: "cart_fits i (cr_carts r)" using r i unfolding intents_ok_def by blast
  have uniq: "k = iid" if "js_get (cr_intents r) k = Some j" "xi_cartReference j = Some ref" "xi_cartReference i = Some ref" for k j ref
    using r i that unfolding intents_ok_def by (metis option.distinct(1))
  show "same_identity i (i\<lparr>xi_status := st\<rparr>)" using st(1) by (simp add: same_identity_def)
  show "js_wf carts" using ref(2,3) wf by (cases "xi_cartReference i") fastforce+
  show "cart_fits (i\<lparr>xi_status := st\<rparr>) carts"
  proof (cases "xi_cartReference i")
    case None
    with ref(1) st(3) show ?thesis by (simp add: cart_fits_def)
  next
    case (Some cref)
    with fits obtain k where k: "cref \<noteq> []" "js_get (cr_carts r) cref = Some k" "kc_organizationId k = xi_organizationId i"
      by (auto simp: cart_fits_def)
    from ref(2) [OF Some] show ?thesis
    proof
      assume "carts = js_modify cref (\<lambda>k. k\<lparr>kc_status := ks\<rparr>) (cr_carts r)"
      with Some k st ks show ?thesis by (simp add: cart_fits_def)
    next
      assume "carts = cr_carts r \<and> st \<noteq> IntentStarted \<and> st \<noteq> IntentFailed"
      with Some k st show ?thesis by (simp add: cart_fits_def)
    qed
  qed
  show "cart_fits j carts" if "k \<noteq> iid" "js_get (cr_intents r) k = Some j" for k j
  proof -
    have j: "cart_fits j (cr_carts r)" using r that(2) unfolding intents_ok_def by blast
    show ?thesis
    proof (cases "xi_cartReference i")
      case None
      with ref(3) j show ?thesis by simp
    next
      case (Some cref)
      with uniq that have "xi_cartReference j \<noteq> Some cref" by blast
      with ref(2) [OF Some] j cart_fits_other(1) show ?thesis by metis
    qed
  qed
  show "xi_cartReference j \<noteq> xi_cartReference (i\<lparr>xi_status := st\<rparr>)"
    if "k \<noteq> iid" "js_get (cr_intents r) k = Some j" "xi_cartReference (i\<lparr>xi_status := st\<rparr>) \<noteq> None" for k j
    using uniq that by (cases "xi_cartReference i") auto
qed

lemma intent_reference_truthy:
  assumes "intents_ok t r" "js_get (cr_intents r) iid = Some i"
  shows "if_truthy (xi_cartReference i) = xi_cartReference i"
proof -
  have "cart_fits i (cr_carts r)" using assms unfolding intents_ok_def by blast
  then show ?thesis by (cases "xi_cartReference i") (auto simp: cart_fits_def if_truthy_def)
qed

lemma mark_failed_ok: assumes r: "intents_ok t r" shows "intents_ok t (mark_failed iid r)"
proof (cases "js_get (cr_intents r) iid")
  case (Some i)
  note truthy = intent_reference_truthy [OF r Some]
  show ?thesis
  proof (cases "xi_cartReference i")
    case None
    have "intents_ok t (r\<lparr>cr_intents := js_modify iid (\<lambda>i. i\<lparr>xi_status := IntentFailed\<rparr>) (cr_intents r), cr_carts := cr_carts r\<rparr>)"
      by (rule set_status_ok [OF r Some]) (simp_all add: None processing_status_def)
    then show ?thesis by (simp add: mark_failed_def Some None if_truthy_def set_intent_status_def)
  next
    case (Some cref)
    have "intents_ok t (r\<lparr>cr_intents := js_modify iid (\<lambda>i. i\<lparr>xi_status := IntentFailed\<rparr>) (cr_intents r),
        cr_carts := js_modify cref (\<lambda>k. k\<lparr>kc_status := CartSuperseded\<rparr>) (cr_carts r)\<rparr>)"
      by (rule set_status_ok [OF r \<open>js_get (cr_intents r) iid = Some i\<close>, where ks = CartSuperseded])
        (simp_all add: Some processing_status_def)
    then show ?thesis
      using \<open>js_get (cr_intents r) iid = Some i\<close>
      using truthy by (simp add: mark_failed_def Some set_intent_status_def set_cart_status_def)
  qed
qed (use r in \<open>simp add: mark_failed_def\<close>)

lemma mark_checkout_started_ok: assumes r: "intents_ok t r" shows "intents_ok t (snd (mark_checkout_started iid r))"
proof (cases "\<exists>i. js_get (cr_intents r) iid = Some i \<and> (xi_status i = IntentReady \<or> xi_status i = IntentStarted)")
  case True
  then obtain i where i: "js_get (cr_intents r) iid = Some i" "xi_status i = IntentReady \<or> xi_status i = IntentStarted" by blast
  have "cart_fits i (cr_carts r)" using r i(1) unfolding intents_ok_def by blast
  with i(2) obtain cref where cref: "xi_cartReference i = Some cref" by (auto simp: cart_fits_def split: option.splits)
  have "intents_ok t (r\<lparr>cr_intents := js_modify iid (\<lambda>i. i\<lparr>xi_status := IntentStarted\<rparr>) (cr_intents r),
      cr_carts := js_modify cref (\<lambda>k. k\<lparr>kc_status := CartStarted\<rparr>) (cr_carts r)\<rparr>)"
    by (rule set_status_ok [OF r i(1), where ks = CartStarted]) (use i(2) in \<open>auto simp: cref processing_status_def\<close>)
  then show ?thesis
    using i(2) intent_reference_truthy [OF r i(1)]
    by (auto simp: mark_checkout_started_def i(1) cref set_intent_status_def set_cart_status_def)
next
  case False
  then show ?thesis using r by (auto simp: mark_checkout_started_def split: option.splits)
qed

lemma resolve_intent_ok: assumes r: "intents_ok t r" shows "intents_ok t (resolve_intent iid res r)"
proof (cases "js_get (cr_intents r) iid")
  case None
  then have "js_modify iid f (cr_intents r) = cr_intents r" for f
    by (auto simp: js_modify_def js_get_None_keys js_keys_def intro!: map_idI) force
  with r show ?thesis by (simp add: resolve_intent_def set_intent_status_def)
next
  case (Some i)
  have "intents_ok t (r\<lparr>cr_intents := js_modify iid (\<lambda>i. i\<lparr>xi_status := resolution_status res\<rparr>) (cr_intents r), cr_carts := cr_carts r\<rparr>)"
    by (rule set_status_ok [OF r Some]) (cases res; simp add: resolution_status_def processing_status_def)+
  then show ?thesis by (simp add: resolve_intent_def set_intent_status_def)
qed

lemma attach_cart_cases:
  obtains (refused) e where "attach_cart input failure reference now r = (Inl e, r)"
    | (attached) i cart where "failure = None" "js_get (cr_intents r) (at_intentId input) = Some i"
      "xi_organizationId i = at_organizationId input" "xi_status i = IntentCreating"
      "kc_reference cart = reference" "kc_shopifyCartId cart = at_shopifyCartId input" "kc_status cart = CartReady"
      "kc_organizationId cart = at_organizationId input" "kc_expiresAtIso cart = at_expiresAtIso input"
      "attach_cart input failure reference now r = (Inr cart, r\<lparr>cr_intents := js_modify (at_intentId input)
           (\<lambda>i. i\<lparr>xi_cartReference := Some reference, xi_status := IntentReady\<rparr>) (cr_intents r),
         cr_carts := js_set reference cart (cr_carts r)\<rparr>)"
proof -
  let ?a = "attach_cart input failure reference now r"
  show ?thesis
  proof (cases "failure = None \<and> (\<exists>i. js_get (cr_intents r) (at_intentId input) = Some i \<and>
      xi_organizationId i = at_organizationId input \<and> xi_status i = IntentCreating)")
    case True
    then obtain i where i: "failure = None" "js_get (cr_intents r) (at_intentId input) = Some i"
      "xi_organizationId i = at_organizationId input" "xi_status i = IntentCreating" by blast
    let ?cart = "\<lparr>kc_reference = reference, kc_shopifyCartId = at_shopifyCartId input,
        kc_organizationId = at_organizationId input, kc_customerId = at_customerId input,
        kc_sessionId = at_sessionId input, kc_integrationVersion = at_integrationVersion input,
        kc_status = CartReady, kc_expiresAtIso = at_expiresAtIso input, kc_createdAtIso = now\<rparr>"
    from i show ?thesis by (intro that(2) [of i ?cart]) (simp_all add: attach_cart_def Let_def)
  next
    case False
    then have "\<exists>e. ?a = (Inl e, r)" by (auto simp: attach_cart_def split: option.splits)
    then show ?thesis using that(1) by blast
  qed
qed

lemma attach_cart_ok:
  assumes r: "intents_ok t r" and fresh: "reference \<noteq> []" "js_get (cr_carts r) reference = None"
  shows "intents_ok t (snd (attach_cart input failure reference now r))"
proof (cases rule: attach_cart_cases [where r = r and input = input and failure = failure and reference = reference and now = now])
  case (attached i cart)
  let ?f = "\<lambda>i. i\<lparr>xi_cartReference := Some reference, xi_status := IntentReady\<rparr>"
  have unused: "xi_cartReference j \<noteq> Some reference" if "js_get (cr_intents r) k = Some j" for k j
  proof -
    have "cart_fits j (cr_carts r)" using r that unfolding intents_ok_def by blast
    with fresh(2) show ?thesis by (auto simp: cart_fits_def)
  qed
  have "intents_ok t (r\<lparr>cr_intents := js_modify (at_intentId input) ?f (cr_intents r), cr_carts := js_set reference cart (cr_carts r)\<rparr>)"
  proof (rule modify_intent_ok [OF r attached(2)])
    show "same_identity i (?f i)" using attached(4) by (simp add: same_identity_def processing_status_def)
    show "js_wf (js_set reference cart (cr_carts r))" using r by (simp add: intents_ok_def)
    show "cart_fits (?f i) (js_set reference cart (cr_carts r))"
      using fresh(1) attached(3,7,8) by (simp add: cart_fits_def)
    show "cart_fits j (js_set reference cart (cr_carts r))" if "js_get (cr_intents r) k = Some j" for k j
      using r that unused [OF that] cart_fits_other(2) unfolding intents_ok_def by blast
    show "xi_cartReference j \<noteq> xi_cartReference (?f i)" if "js_get (cr_intents r) k = Some j" for k j
      using unused [OF that] by simp
  qed
  then show ?thesis by (simp add: attached(10))
qed (use r in simp)

lemma metadata_frame [simp]:
  "cr_intents (update_metadata a f r) = cr_intents r" "cr_carts (update_metadata a f r) = cr_carts r"
  "cr_intents (snd (insert_registration_metadata p ids now r)) = cr_intents r"
  "cr_carts (snd (insert_registration_metadata p ids now r)) = cr_carts r"
  "cr_intents (link_registration_metadata_to_entitlement intent_id line_id entitlement r) = cr_intents r"
  "cr_carts (link_registration_metadata_to_entitlement intent_id line_id entitlement r) = cr_carts r"
  "cr_intents (snd (update_registration_metadata mid org accompanist pieces ids r)) = cr_intents r"
  "cr_carts (snd (update_registration_metadata mid org accompanist pieces ids r)) = cr_carts r"
  by (simp_all add: update_metadata_def insert_registration_metadata_def Let_def
      link_registration_metadata_to_entitlement_def update_registration_metadata_def split: option.splits)

lemma restore_frame [simp]:
  "cr_intents (restore_entitlement_links snapshot r) = cr_intents r"
  "cr_carts (restore_entitlement_links snapshot r) = cr_carts r"
proof -
  have "cr_intents (restore_entitlement_links snapshot r) = cr_intents r \<and> cr_carts (restore_entitlement_links snapshot r) = cr_carts r"
    unfolding restore_entitlement_links_def Let_def by (rule foldl_keeps) (auto split: option.splits)
  then show "cr_intents (restore_entitlement_links snapshot r) = cr_intents r"
    "cr_carts (restore_entitlement_links snapshot r) = cr_carts r" by blast+
qed

lemma checkout_reachable_ok: "checkout_reachable t r \<Longrightarrow> intents_ok t r"
proof (induction rule: checkout_reachable.induct)
  case (ck_new t)
  then show ?case by (simp add: empty_checkout_repo_def intents_ok_def)
next
  case (ck_insert t r p ids)
  then show ?case by (simp add: intents_ok_frame [OF metadata_frame(3,4)])
next
  case (ck_link t r)
  then show ?case by (simp add: intents_ok_frame [OF metadata_frame(5,6)])
next
  case (ck_restore t r)
  then show ?case by (simp add: intents_ok_frame [OF restore_frame])
next
  case (ck_update t r)
  then show ?case by (simp add: intents_ok_frame [OF metadata_frame(7,8)])
qed (simp_all add: intents_ok_tick create_intent_ok attach_cart_ok mark_checkout_started_ok mark_failed_ok resolve_intent_ok)

section \<open>Invariant of the metadata\<close>

definition metadata_ok :: "checkout_repo \<Rightarrow> bool" where
  "metadata_ok r \<longleftrightarrow>
     (\<forall>a < length (cr_metadata r). js_get (cr_metadataKeys r) (rm_id (cr_metadata r ! a)) = Some a) \<and>
     (\<forall>k a. js_get (cr_metadataKeys r) k = Some a \<longrightarrow> a < length (cr_metadata r)) \<and> js_wf (cr_metadataKeys r)"

lemma metadata_id_inj:
  "metadata_ok r \<Longrightarrow> a < length (cr_metadata r) \<Longrightarrow> b < length (cr_metadata r) \<Longrightarrow>
     rm_id (cr_metadata r ! a) = rm_id (cr_metadata r ! b) \<Longrightarrow> a = b"
  by (metis metadata_ok_def option.inject)

lemma metadata_addresses:
  assumes "metadata_ok r" shows "set (js_values (cr_metadataKeys r)) = {..<length (cr_metadata r)}"
proof -
  have "js_wf (cr_metadataKeys r)" using assms by (simp add: metadata_ok_def)
  then have "a \<in> set (js_values (cr_metadataKeys r)) \<longleftrightarrow> (\<exists>k. js_get (cr_metadataKeys r) k = Some a)" for a
    by (rule js_values_get)
  with assms show ?thesis unfolding metadata_ok_def by blast
qed

lemma metadata_ok_frame:
  "cr_metadata r' = cr_metadata r \<Longrightarrow> cr_metadataKeys r' = cr_metadataKeys r \<Longrightarrow> metadata_ok r' = metadata_ok r"
  by (simp add: metadata_ok_def)

lemma list_update_keeps: "(\<And>m. g (f m) = g m) \<Longrightarrow> g (xs[a := f (xs ! a)] ! b) = g (xs ! b)"
  by (metis list_update_beyond nth_list_update_eq nth_list_update_neq not_le)

lemma update_metadata_ok:
  assumes "metadata_ok r" "\<And>m. rm_id (f m) = rm_id m" shows "metadata_ok (update_metadata a f r)"
  using assms by (simp add: metadata_ok_def update_metadata_def list_update_keeps [where g = rm_id])

lemma insert_metadata_ok:
  assumes r: "metadata_ok r" and fresh: "fresh_metadata_keys p r"
  shows "metadata_ok (snd (insert_registration_metadata p ids now r))"
proof (cases "metadata_conflict p (metadata_values r)")
  case None
  let ?n = "length (cr_metadata r)" and ?m = "new_metadata p ids now"
  let ?keys = "js_set (mp_checkoutIntentId p) ?n (js_set (mp_id p) ?n (cr_metadataKeys r))"
  let ?keys' = "case if_truthy (mp_checkoutIntentLineId p) of None \<Rightarrow> ?keys | Some line \<Rightarrow> js_set line ?n ?keys"
  let ?r = "r\<lparr>cr_metadata := cr_metadata r @ [?m], cr_metadataKeys := ?keys'\<rparr>"
  have out: "snd (insert_registration_metadata p ids now r) = ?r"
    by (simp add: insert_registration_metadata_def None Let_def)
  have line: "if_truthy (mp_checkoutIntentLineId p) = Some l \<Longrightarrow> mp_checkoutIntentLineId p = Some l" for l
    by (auto simp: if_truthy_def split: if_splits)
  have "rm_id ?m = mp_id p" by (simp add: new_metadata_def)
  then have new: "js_get ?keys' (rm_id ?m) = Some ?n"
    using fresh line by (auto simp: fresh_metadata_keys_def split: option.splits)
  have old: "js_get ?keys' (rm_id (cr_metadata r ! a)) = Some a" if "a < ?n" for a
  proof -
    have "cr_metadata r ! a \<in> set (cr_metadata r)" using that by simp
    moreover have "js_get (cr_metadataKeys r) (rm_id (cr_metadata r ! a)) = Some a" using r that by (simp add: metadata_ok_def)
    ultimately show ?thesis
      using fresh line unfolding fresh_metadata_keys_def by (auto split: option.splits)
  qed
  have bound: "a < Suc ?n" if "js_get ?keys' k = Some a" for k a
  proof -
    have "a = ?n \<or> js_get (cr_metadataKeys r) k = Some a" using that by (auto split: option.splits if_splits)
    then show ?thesis using r unfolding metadata_ok_def by (meson less_Suc_eq)
  qed
  have wf: "js_wf ?keys'" using r by (auto simp: metadata_ok_def split: option.splits)
  have e: "cr_metadata ?r = cr_metadata r @ [?m]" "cr_metadataKeys ?r = ?keys'" by simp_all
  have "js_get ?keys' (rm_id ((cr_metadata r @ [?m]) ! a)) = Some a" if "a < Suc ?n" for a
    using that old new by (cases "a = ?n") (simp_all add: nth_append)
  then show ?thesis unfolding out metadata_ok_def e length_append_singleton using bound wf by blast
qed (use r in \<open>simp add: insert_registration_metadata_def\<close>)

lemma link_metadata_ok: "metadata_ok r \<Longrightarrow> metadata_ok (link_registration_metadata_to_entitlement i l e r)"
  by (auto simp: link_registration_metadata_to_entitlement_def update_metadata_ok split: option.splits)

lemma restore_metadata_ok: "metadata_ok r \<Longrightarrow> metadata_ok (restore_entitlement_links snapshot r)"
  unfolding restore_entitlement_links_def Let_def
  by (rule foldl_keeps) (auto simp: update_metadata_ok split: option.splits)

lemma update_registration_metadata_ok:
  "metadata_ok r \<Longrightarrow> metadata_ok (snd (update_registration_metadata mid org accompanist pieces ids r))"
  by (auto simp: update_registration_metadata_def Let_def update_metadata_ok split: option.splits)

lemma create_intent_metadata [simp]:
  "cr_metadata (snd (create_intent input iid correlation line_ids now r)) = cr_metadata r"
  "cr_metadataKeys (snd (create_intent input iid correlation line_ids now r)) = cr_metadataKeys r"
  by (simp_all add: create_intent_def Let_def split: option.splits)

lemma intent_steps_metadata [simp]:
  "cr_metadata (snd (attach_cart a failure reference now r)) = cr_metadata r"
  "cr_metadataKeys (snd (attach_cart a failure reference now r)) = cr_metadataKeys r"
  "cr_metadata (snd (mark_checkout_started iid r)) = cr_metadata r"
  "cr_metadataKeys (snd (mark_checkout_started iid r)) = cr_metadataKeys r"
  "cr_metadata (mark_failed iid r) = cr_metadata r" "cr_metadataKeys (mark_failed iid r) = cr_metadataKeys r"
  "cr_metadata (resolve_intent iid res r) = cr_metadata r" "cr_metadataKeys (resolve_intent iid res r) = cr_metadataKeys r"
  by (simp_all add: attach_cart_def mark_checkout_started_def mark_failed_def resolve_intent_def set_intent_status_def
      set_cart_status_def Let_def split: option.splits)

lemma checkout_reachable_metadata: "checkout_reachable t r \<Longrightarrow> metadata_ok r"
proof (induction rule: checkout_reachable.induct)
  case (ck_new t)
  then show ?case by (simp add: empty_checkout_repo_def metadata_ok_def)
next
  case (ck_create t r)
  then show ?case by (simp add: metadata_ok_frame [OF create_intent_metadata])
next
  case (ck_attach t r)
  then show ?case by (simp add: metadata_ok_frame [OF intent_steps_metadata(1,2)])
next
  case (ck_started t r)
  then show ?case by (simp add: metadata_ok_frame [OF intent_steps_metadata(3,4)])
next
  case (ck_failed t r)
  then show ?case by (simp add: metadata_ok_frame [OF intent_steps_metadata(5,6)])
next
  case (ck_resolve t r)
  then show ?case by (simp add: metadata_ok_frame [OF intent_steps_metadata(7,8)])
qed (simp_all add: insert_metadata_ok link_metadata_ok restore_metadata_ok update_registration_metadata_ok)

section \<open>Rolling back links\<close>

definition in_scope :: "string list \<Rightarrow> string list \<Rightarrow> registration_metadata \<Rightarrow> bool" where
  "in_scope intent_ids line_ids m \<longleftrightarrow>
     rm_checkoutIntentId m \<in> set intent_ids \<or>
     (case rm_checkoutIntentLineId m of Some line \<Rightarrow> line \<in> set line_ids | None \<Rightarrow> False)"

text \<open>States that differ at most in the links of the records in scope.\<close>

definition relinked :: "string list \<Rightarrow> string list \<Rightarrow> checkout_repo \<Rightarrow> checkout_repo \<Rightarrow> bool" where
  "relinked intent_ids line_ids r r' \<longleftrightarrow>
     length (cr_metadata r') = length (cr_metadata r) \<and> cr_metadataKeys r' = cr_metadataKeys r \<and>
     cr_intents r' = cr_intents r \<and> cr_carts r' = cr_carts r \<and>
     (\<forall>a < length (cr_metadata r). (cr_metadata r' ! a)\<lparr>rm_classEntitlementId := rm_classEntitlementId (cr_metadata r ! a)\<rparr>
          = cr_metadata r ! a \<and>
        (\<not> in_scope intent_ids line_ids (cr_metadata r ! a) \<longrightarrow> cr_metadata r' ! a = cr_metadata r ! a))"

lemma relinked_refl: "relinked intent_ids line_ids r r"
  by (simp add: relinked_def)

lemma foldl_js_set_Some:
  "x \<in> set xs \<Longrightarrow> p x \<Longrightarrow> key x = k \<Longrightarrow> (\<And>y. y \<in> set xs \<Longrightarrow> p y \<Longrightarrow> key y = k \<Longrightarrow> v y = v x) \<Longrightarrow>
     js_get (foldl (\<lambda>m x. if p x then js_set (key x) (v x) m else m) m0 xs) k = Some (v x)"
proof (induction xs rule: rev_induct)
  case (snoc y xs)
  show ?case
  proof (cases "p y \<and> key y = k")
    case True
    with snoc.prems(4) [of y] show ?thesis by simp
  next
    case False
    with snoc.prems(1-3) have "x \<in> set xs" by auto
    from snoc.IH [OF this snoc.prems(2,3)] snoc.prems(4) False show ?thesis by simp
  qed
qed simp

lemma foldl_js_set_None:
  "(\<And>y. y \<in> set xs \<Longrightarrow> p y \<Longrightarrow> key y \<noteq> k) \<Longrightarrow>
     js_get (foldl (\<lambda>m x. if p x then js_set (key x) (v x) m else m) m0 xs) k = js_get m0 k"
  by (induction xs rule: rev_induct) auto

lemma snapshot_link:
  assumes r: "metadata_ok r" and a: "a < length (cr_metadata r)"
  shows "js_get (snapshot_entitlement_links intent_ids line_ids r) (rm_id (cr_metadata r ! a)) =
    (if in_scope intent_ids line_ids (cr_metadata r ! a) then Some (rm_classEntitlementId (cr_metadata r ! a)) else None)"
proof -
  let ?m = "cr_metadata r ! a"
  have snap: "snapshot_entitlement_links intent_ids line_ids r =
      foldl (\<lambda>snap m. if in_scope intent_ids line_ids m then js_set (rm_id m) (rm_classEntitlementId m) snap else snap) [] (metadata_values r)"
    by (simp add: snapshot_entitlement_links_def in_scope_def)
  have vals: "set (metadata_values r) = {cr_metadata r ! b | b. b < length (cr_metadata r)}"
    using metadata_addresses [OF r] by (auto simp: metadata_values_def)
  have same: "m = ?m" if "m \<in> set (metadata_values r)" "rm_id m = rm_id ?m" for m
    using that metadata_id_inj [OF r _ a] unfolding vals by blast
  show ?thesis
  proof (cases "in_scope intent_ids line_ids ?m")
    case True
    have "?m \<in> set (metadata_values r)" using a unfolding vals by blast
    moreover have "rm_classEntitlementId m = rm_classEntitlementId ?m"
      if "m \<in> set (metadata_values r)" "rm_id m = rm_id ?m" for m using same [OF that] by simp
    ultimately have "js_get (snapshot_entitlement_links intent_ids line_ids r) (rm_id ?m) = Some (rm_classEntitlementId ?m)"
      unfolding snap using True
      by (intro foldl_js_set_Some [where key = rm_id and v = rm_classEntitlementId and p = "in_scope intent_ids line_ids"]) blast+
    with True show ?thesis by simp
  next
    case False
    have "js_get (snapshot_entitlement_links intent_ids line_ids r) (rm_id ?m) = js_get [] (rm_id ?m)"
      unfolding snap by (rule foldl_js_set_None) (use same False in auto)
    with False show ?thesis by simp
  qed
qed

text \<open>The loop over the snapshot writes each link that it has a record for.\<close>

definition restore_step :: "(string, nat) js_map \<Rightarrow> checkout_repo \<Rightarrow> string \<times> string option \<Rightarrow> checkout_repo" where
  "restore_step addresses r x = (case x of (k, link) \<Rightarrow>
     case js_get addresses k of None \<Rightarrow> r | Some a \<Rightarrow> update_metadata a (\<lambda>m. m\<lparr>rm_classEntitlementId := link\<rparr>) r)"

lemma restore_step_frame [simp]:
  "length (cr_metadata (restore_step addresses r x)) = length (cr_metadata r)"
  "cr_metadataKeys (restore_step addresses r x) = cr_metadataKeys r"
  by (simp_all add: restore_step_def update_metadata_def split: prod.splits option.splits)

lemma restore_loop:
  assumes addresses: "\<And>k b. js_get addresses k = Some b \<Longrightarrow> b < length (cr_metadata r) \<and> k = key b"
    and inj: "\<And>b. b < length (cr_metadata r) \<Longrightarrow> key b = key a \<Longrightarrow> b = a"
    and a: "a < length (cr_metadata r)" "js_get addresses (key a) = Some a" and snap: "distinct (map fst snap)"
  shows "length (cr_metadata (foldl (restore_step addresses) r snap)) = length (cr_metadata r) \<and>
    cr_metadata (foldl (restore_step addresses) r snap) ! a =
      (case map_of snap (key a) of None \<Rightarrow> cr_metadata r ! a
       | Some link \<Rightarrow> (cr_metadata r ! a)\<lparr>rm_classEntitlementId := link\<rparr>)"
  using snap
proof (induction snap rule: rev_induct)
  case (snoc x snap)
  obtain k link where x: "x = (k, link)" by (cases x)
  let ?r = "foldl (restore_step addresses) r snap"
  from snoc x have k: "k \<notin> fst ` set snap" and len: "length (cr_metadata ?r) = length (cr_metadata r)"
    and IH: "cr_metadata ?r ! a = (case map_of snap (key a) of None \<Rightarrow> cr_metadata r ! a
       | Some link \<Rightarrow> (cr_metadata r ! a)\<lparr>rm_classEntitlementId := link\<rparr>)" by auto
  have last: "foldl (restore_step addresses) r (snap @ [x]) = restore_step addresses ?r (k, link)" by (simp add: x)
  show ?case
  proof (cases "k = key a")
    case True
    with k have "map_of snap (key a) = None" by (simp add: map_of_eq_None_iff)
    then have "map_of (snap @ [x]) (key a) = Some link" using True by (simp add: x map_add_def)
    moreover have "cr_metadata ?r ! a = cr_metadata r ! a" using IH \<open>map_of snap (key a) = None\<close> by simp
    ultimately show ?thesis unfolding last using True a len by (simp add: restore_step_def update_metadata_def)
  next
    case False
    have "b \<noteq> a" if "js_get addresses k = Some b" for b using addresses [OF that] False by blast
    then have "cr_metadata (restore_step addresses ?r (k, link)) ! a = cr_metadata ?r ! a"
      by (auto simp: restore_step_def update_metadata_def split: option.splits)
    moreover have "map_of (snap @ [x]) (key a) = map_of snap (key a)" using False by (simp add: x map_add_def split: option.splits)
    ultimately show ?thesis unfolding last using IH len by simp
  qed
qed simp

lemma js_wf_foldl_set: "js_wf m0 \<Longrightarrow> js_wf (foldl (\<lambda>m x. if p x then js_set (key x) (v x) m else m) m0 xs)"
  by (rule foldl_keeps) auto

lemma restore_snapshot:
  assumes r: "metadata_ok r" and r': "relinked intent_ids line_ids r r'"
  shows "restore_entitlement_links (snapshot_entitlement_links intent_ids line_ids r) r' = r"
proof -
  let ?snap = "snapshot_entitlement_links intent_ids line_ids r" and ?n = "length (cr_metadata r)"
  define key where "key = (\<lambda>a. rm_id (cr_metadata r ! a))"
  have n: "length (cr_metadata r') = ?n" "cr_metadataKeys r' = cr_metadataKeys r"
    and link: "\<And>a. a < ?n \<Longrightarrow> (cr_metadata r' ! a)\<lparr>rm_classEntitlementId := rm_classEntitlementId (cr_metadata r ! a)\<rparr>
          = cr_metadata r ! a"
    and out: "\<And>a. a < ?n \<Longrightarrow> \<not> in_scope intent_ids line_ids (cr_metadata r ! a) \<Longrightarrow> cr_metadata r' ! a = cr_metadata r ! a"
    using r' by (simp_all add: relinked_def)
  have ids: "rm_id (cr_metadata r' ! a) = key a" if "a < ?n" for a
    using arg_cong [OF link [OF that], of rm_id] by (simp add: key_def)
  have inj: "b = a" if "a < ?n" "b < ?n" "key b = key a" for a b
    using metadata_id_inj [OF r that(2,1)] that(3) by (simp add: key_def)
  have vals: "set (js_values (cr_metadataKeys r)) = {..<?n}" by (rule metadata_addresses [OF r])
  let ?p = "\<lambda>a. js_get ?snap (rm_id (cr_metadata r' ! a)) \<noteq> None"
  define addresses where "addresses =
    foldl (\<lambda>m a. if ?p a then js_set (rm_id (cr_metadata r' ! a)) a m else m) [] (js_values (cr_metadataKeys r'))"
  have restore: "restore_entitlement_links ?snap r' = foldl (restore_step addresses) r' ?snap"
    by (simp add: restore_entitlement_links_def addresses_def Let_def restore_step_def [abs_def])
  have known: "js_get addresses (key a) = Some a" if "a < ?n" "js_get ?snap (key a) \<noteq> None" for a
    unfolding addresses_def n(2)
  proof (rule foldl_js_set_Some)
    show "a \<in> set (js_values (cr_metadataKeys r))" using that(1) by (simp add: vals)
    show "?p a" "rm_id (cr_metadata r' ! a) = key a" using that ids by simp_all
    show "y = a" if "y \<in> set (js_values (cr_metadataKeys r))" "rm_id (cr_metadata r' ! y) = key a" for y
      using that \<open>a < ?n\<close> ids inj by (simp add: vals)
  qed
  have addr: "b < ?n \<and> k = key b" if "js_get addresses k = Some b" for k b
  proof (cases "\<exists>a < ?n. key a = k \<and> js_get ?snap (key a) \<noteq> None")
    case True
    with known that show ?thesis by auto
  next
    case False
    then have "js_get addresses k = js_get [] k"
      unfolding addresses_def n(2) by (intro foldl_js_set_None) (auto simp: vals ids)
    with that show ?thesis by simp
  qed
  have snap_wf: "distinct (map fst ?snap)"
    using js_wf_foldl_set [of "[]" "in_scope intent_ids line_ids" rm_id rm_classEntitlementId "metadata_values r"]
    by (simp add: snapshot_entitlement_links_def in_scope_def js_wf_def js_keys_def)
  have same: "cr_metadata (foldl (restore_step addresses) r' ?snap) ! a = cr_metadata r ! a" if a: "a < ?n" for a
  proof (cases "in_scope intent_ids line_ids (cr_metadata r ! a)")
    case True
    then have g: "js_get ?snap (key a) = Some (rm_classEntitlementId (cr_metadata r ! a))"
      using snapshot_link [OF r a] by (simp add: key_def)
    have "cr_metadata (foldl (restore_step addresses) r' ?snap) ! a =
      (case map_of ?snap (key a) of None \<Rightarrow> cr_metadata r' ! a
       | Some link \<Rightarrow> (cr_metadata r' ! a)\<lparr>rm_classEntitlementId := link\<rparr>)"
    proof (rule restore_loop [THEN conjunct2])
      show "b < length (cr_metadata r') \<and> k = key b" if "js_get addresses k = Some b" for k b
        unfolding n(1) by (rule addr [OF that])
      show "b = a" if "b < length (cr_metadata r')" "key b = key a" for b using inj a that unfolding n(1) by blast
      show "a < length (cr_metadata r')" unfolding n(1) by (rule a)
      show "js_get addresses (key a) = Some a" by (rule known [OF a]) (simp add: g)
    qed (rule snap_wf)
    with g link [OF a] show ?thesis by (simp add: js_get_def)
  next
    case False
    then have g: "js_get ?snap (key a) = None" using snapshot_link [OF r a] by (simp add: key_def)
    have "k \<noteq> key a" if "(k, l) \<in> set ?snap" for k l
      using that g by (metis js_get_def map_of_eq_None_iff fst_conv image_eqI)
    then have "\<forall>x \<in> set ?snap. fst x \<noteq> key a" by auto
    then have "cr_metadata (foldl (restore_step addresses) r' xs) ! a = cr_metadata r' ! a"
      if "set xs \<subseteq> set ?snap" for xs
      using that
    proof (induction xs rule: rev_induct)
      case (snoc x xs)
      then have "fst x \<noteq> key a" "cr_metadata (foldl (restore_step addresses) r' xs) ! a = cr_metadata r' ! a" by simp_all
      moreover have "cr_metadata (restore_step addresses r2 x) ! a = cr_metadata r2 ! a" for r2
      proof (cases "js_get addresses (fst x)")
        case (Some b)
        with addr \<open>fst x \<noteq> key a\<close> have "b \<noteq> a" by blast
        with Some show ?thesis by (cases x) (simp add: restore_step_def update_metadata_def)
      qed (cases x, simp add: restore_step_def)
      ultimately show ?case by simp
    qed simp
    with out [OF a False] show ?thesis by simp
  qed
  have len: "length (cr_metadata (foldl (restore_step addresses) r' xs)) = ?n" for xs
    by (induction xs rule: rev_induct) (simp_all add: n)
  have heap: "cr_metadata (foldl (restore_step addresses) r' ?snap) = cr_metadata r"
    by (rule nth_equalityI) (simp_all add: len same)
  have keys: "cr_metadataKeys (foldl (restore_step addresses) r' xs) = cr_metadataKeys r" for xs
    by (induction xs rule: rev_induct) (simp_all add: n)
  show ?thesis
  proof (rule checkout_repo.equality)
    show "cr_metadata (restore_entitlement_links ?snap r') = cr_metadata r" unfolding restore by (rule heap)
    show "cr_metadataKeys (restore_entitlement_links ?snap r') = cr_metadataKeys r" unfolding restore by (rule keys)
  qed (use r' in \<open>simp_all add: relinked_def\<close>)
qed

definition link_call :: "checkout_repo \<Rightarrow> string option \<times> string option \<times> string \<Rightarrow> checkout_repo" where
  "link_call r x = (case x of (intent_id, line_id, entitlement) \<Rightarrow>
     link_registration_metadata_to_entitlement intent_id line_id entitlement r)"

definition call_in_scope :: "string list \<Rightarrow> string list \<Rightarrow> string option \<times> string option \<times> string \<Rightarrow> bool" where
  "call_in_scope intent_ids line_ids x = (case x of (intent_id, line_id, _) \<Rightarrow>
     (case if_truthy line_id of Some line \<Rightarrow> line \<in> set line_ids
      | None \<Rightarrow> (case intent_id of Some i \<Rightarrow> i \<in> set intent_ids | None \<Rightarrow> False)))"

lemma find_metadata_Some:
  assumes "metadata_ok r" "find_metadata p r = Some a" shows "a < length (cr_metadata r)" "p (cr_metadata r ! a)"
proof -
  have "a \<in> set (js_values (cr_metadataKeys r))" and p: "p (cr_metadata r ! a)"
    using assms(2) by (auto simp: find_metadata_def find_Some_iff)
  then show "a < length (cr_metadata r)" using metadata_addresses [OF assms(1)] by simp
  show "p (cr_metadata r ! a)" by (rule p)
qed

lemma link_call_relinked:
  assumes r: "metadata_ok r" and r': "relinked intent_ids line_ids r r'" "metadata_ok r'"
    and x: "call_in_scope intent_ids line_ids x"
  shows "relinked intent_ids line_ids r (link_call r' x)"
proof -
  obtain i l e where xs: "x = (i, l, e)" by (cases x)
  show ?thesis
  proof (cases "find_metadata (link_target i l) r'")
    case None
    with r' xs show ?thesis by (simp add: link_call_def link_registration_metadata_to_entitlement_def)
  next
    case (Some a)
    note a = find_metadata_Some [OF r'(2) Some]
    have len: "length (cr_metadata r') = length (cr_metadata r)" using r'(1) by (simp add: relinked_def)
    have eq: "(cr_metadata r' ! a)\<lparr>rm_classEntitlementId := rm_classEntitlementId (cr_metadata r ! a)\<rparr> = cr_metadata r ! a"
      using r'(1) a(1) len by (simp add: relinked_def)
    have "rm_checkoutIntentId (cr_metadata r' ! a) = rm_checkoutIntentId (cr_metadata r ! a)"
      "rm_checkoutIntentLineId (cr_metadata r' ! a) = rm_checkoutIntentLineId (cr_metadata r ! a)"
      using arg_cong [OF eq, of rm_checkoutIntentId] arg_cong [OF eq, of rm_checkoutIntentLineId] by simp_all
    with a(2) x xs have scope: "in_scope intent_ids line_ids (cr_metadata r ! a)"
      by (auto simp: link_target_def call_in_scope_def in_scope_def split: option.splits)
    have out: "link_call r' x = update_metadata a (\<lambda>m. m\<lparr>rm_classEntitlementId := Some e\<rparr>) r'"
      by (simp add: link_call_def xs link_registration_metadata_to_entitlement_def Some)
    have each: "(cr_metadata (link_call r' x) ! b)\<lparr>rm_classEntitlementId := rm_classEntitlementId (cr_metadata r ! b)\<rparr> = cr_metadata r ! b \<and>
        (\<not> in_scope intent_ids line_ids (cr_metadata r ! b) \<longrightarrow> cr_metadata (link_call r' x) ! b = cr_metadata r ! b)"
      if b: "b < length (cr_metadata r)" for b
    proof (cases "b = a")
      case True
      with eq scope a(1) show ?thesis by (simp add: out update_metadata_def)
    next
      case False
      with r'(1) b show ?thesis by (simp add: out update_metadata_def relinked_def)
    qed
    moreover have "length (cr_metadata (link_call r' x)) = length (cr_metadata r)" using len by (simp add: out update_metadata_def)
    moreover have "cr_metadataKeys (link_call r' x) = cr_metadataKeys r" "cr_intents (link_call r' x) = cr_intents r"
      "cr_carts (link_call r' x) = cr_carts r" using r'(1) by (simp_all add: out update_metadata_def relinked_def)
    ultimately show ?thesis unfolding relinked_def by blast
  qed
qed

lemma link_calls_relinked:
  assumes r: "metadata_ok r" shows "list_all (call_in_scope intent_ids line_ids) xs \<Longrightarrow>
    relinked intent_ids line_ids r (foldl link_call r xs) \<and> metadata_ok (foldl link_call r xs)"
proof (induction xs rule: rev_induct)
  case Nil
  then show ?case using r by (simp add: relinked_refl)
next
  case (snoc x xs)
  then have "relinked intent_ids line_ids r (link_call (foldl link_call r xs) x)"
    by (intro link_call_relinked [OF r]) simp_all
  moreover have "metadata_ok (link_call (foldl link_call r xs) x)"
  proof -
    have "metadata_ok (foldl link_call r xs)" using snoc by simp
    then show ?thesis by (cases x) (simp add: link_call_def link_metadata_ok)
  qed
  ultimately show ?case by simp
qed

section \<open>Properties\<close>

lemma sorted_values_pair:
  "js_wf m \<Longrightarrow> sorted_wrt R (js_values m) \<Longrightarrow> js_get m a = Some x \<Longrightarrow> js_get m b = Some y \<Longrightarrow> a \<noteq> b \<Longrightarrow> R x y \<or> R y x"
proof (induction m)
  case (Cons kv m)
  obtain k v where kv: "kv = (k, v)" by (cases kv)
  from Cons.prems kv have wf: "js_wf m" by (simp add: js_wf_def js_keys_def)
  consider "a = k" "b \<noteq> k" | "b = k" "a \<noteq> k" | "a \<noteq> k" "b \<noteq> k" using Cons.prems(5) by blast
  then show ?case
  proof cases
    case 1
    with Cons.prems kv show ?thesis by (auto simp: js_get_Cons dest: js_get_Some_values)
  next
    case 2
    with Cons.prems kv show ?thesis by (auto simp: js_get_Cons dest: js_get_Some_values)
  next
    case 3
    with Cons.prems kv Cons.IH [OF wf] show ?thesis by (simp add: js_get_Cons)
  qed
qed simp

lemma same_request_unique:
  assumes r: "intents_ok t r" and i: "js_get (cr_intents r) a = Some i" and same: "same_request org customer session key i"
  shows "find (same_request org customer session key) (js_values (cr_intents r)) = Some i"
proof -
  have wf: "js_wf (cr_intents r)" and sorted: "sorted_wrt precedes (js_values (cr_intents r))" using r by (simp_all add: intents_ok_def)
  have only: "j = i" if "j \<in> set (js_values (cr_intents r))" "same_request org customer session key j" for j
  proof -
    from that(1) obtain b where b: "js_get (cr_intents r) b = Some j" by (auto simp: js_values_get [OF wf])
    have "\<not> precedes i j" "\<not> precedes j i" using same that(2) by (auto simp: precedes_def same_request_def)
    with sorted_values_pair [OF wf sorted i b] have "a = b" by blast
    with i b show ?thesis by simp
  qed
  have "i \<in> set (js_values (cr_intents r))" using i by (rule js_get_Some_values)
  with same obtain j where "find (same_request org customer session key) (js_values (cr_intents r)) = Some j"
    by (cases "find (same_request org customer session key) (js_values (cr_intents r))") (auto simp: find_None_iff)
  moreover from this have "j \<in> set (js_values (cr_intents r)) \<and> same_request org customer session key j"
    by (auto simp: find_Some_iff)
  ultimately show ?thesis using only by blast
qed

text \<open>
  C22: one open checkout per customer, one intent per request.  In every reachable repository, at
  any time from its clock on, two intents of one customer that are in process and not expired are
  the same; while there is one, no call of \<open>createIntent\<close> for the customer creates another or
  changes the repository; two intents of the same session and idempotency key are the same.
\<close>
theorem one_open_checkout_per_customer:
  assumes "checkout_reachable t r" "t \<le> now"
  shows "(\<forall>a b i j org customer. js_get (cr_intents r) a = Some i \<longrightarrow> js_get (cr_intents r) b = Some j \<longrightarrow>
       blocks_customer org customer now i \<longrightarrow> blocks_customer org customer now j \<longrightarrow> a = b) \<and>
    (\<forall>a b i j org customer session key. js_get (cr_intents r) a = Some i \<longrightarrow> js_get (cr_intents r) b = Some j \<longrightarrow>
       same_request org customer session key i \<longrightarrow> same_request org customer session key j \<longrightarrow> a = b) \<and>
    (\<forall>a i input iid correlation line_ids. js_get (cr_intents r) a = Some i \<longrightarrow>
       blocks_customer (ni_organizationId input) (ni_customerId input) now i \<longrightarrow>
       snd (create_intent input iid correlation line_ids now r) = r \<and>
       (\<forall>v. fst (create_intent input iid correlation line_ids now r) \<noteq> OutcomeCreated v))"
proof (intro conjI allI impI)
  have r: "intents_ok t r" by (rule checkout_reachable_ok [OF assms(1)])
  then have wf: "js_wf (cr_intents r)" and sorted: "sorted_wrt precedes (js_values (cr_intents r))" by (simp_all add: intents_ok_def)
  have created: "xi_createdAtIso i \<le> now" if "js_get (cr_intents r) a = Some i" for a i
    using r that assms(2) unfolding intents_ok_def by (meson order_trans)
  show "a = b" if ij: "js_get (cr_intents r) a = Some i" "js_get (cr_intents r) b = Some j"
    "blocks_customer org customer now i" "blocks_customer org customer now j" for a b i j org customer
  proof -
    have "\<not> precedes i j" "\<not> precedes j i"
      using ij(3,4) created [OF ij(1)] created [OF ij(2)] by (auto simp: precedes_def blocks_customer_def)
    with sorted_values_pair [OF wf sorted ij(1,2)] show ?thesis by blast
  qed
  show "a = b" if ij: "js_get (cr_intents r) a = Some i" "js_get (cr_intents r) b = Some j"
    "same_request org customer session key i" "same_request org customer session key j" for a b i j org customer session key
  proof -
    have "\<not> precedes i j" "\<not> precedes j i" using ij(3,4) by (auto simp: precedes_def same_request_def)
    with sorted_values_pair [OF wf sorted ij(1,2)] show ?thesis by blast
  qed
  fix a i iid correlation line_ids and input :: create_intent_input
  assume i: "js_get (cr_intents r) a = Some i" "blocks_customer (ni_organizationId input) (ni_customerId input) now i"
  have "\<exists>out. create_intent input iid correlation line_ids now r = (out, r) \<and> (\<forall>v. out \<noteq> OutcomeCreated v)"
  proof (cases rule: create_intent_cases [where r = r and input = input and now = now and iid = iid and correlation = correlation and line_ids = line_ids])
    case (existing j)
    have "outcome_for now j r \<noteq> OutcomeCreated v" for v by (simp add: outcome_for_def split: option.splits)
    with existing(3) show ?thesis by blast
  next
    case created
    have "i \<in> set (js_values (cr_intents r))" using i(1) by (rule js_get_Some_values)
    from bspec [OF created(1) this] i(2) show ?thesis by simp
  qed simp
  then show "snd (create_intent input iid correlation line_ids now r) = r"
    "\<And>v. fst (create_intent input iid correlation line_ids now r) \<noteq> OutcomeCreated v" by auto
qed

text \<open>
  A repeated request finds its own checkout.  In every reachable repository a request whose
  intent has its cart, neither expired, is answered with that intent and that cart, by the lookup
  and by a repeated creation alike, and the creation changes nothing; the cart carries the intent's
  reference and organization.
\<close>
theorem repeated_request_resumes:
  assumes "checkout_reachable t r" "js_get (cr_intents r) a = Some i"
    and "xi_status i = IntentReady \<or> xi_status i = IntentStarted" "now < xi_expiresAtIso i"
    and "\<forall>k. js_get (cr_carts r) (the (xi_cartReference i)) = Some k \<longrightarrow> now < kc_expiresAtIso k"
    and "ni_organizationId input = xi_organizationId i" "ni_customerId input = xi_customerId i"
      "ni_sessionId input = xi_sessionId i" "ni_idempotencyKey input = xi_idempotencyKey i"
  shows "\<exists>k. xi_cartReference i = Some (the (xi_cartReference i)) \<and> js_get (cr_carts r) (the (xi_cartReference i)) = Some k \<and>
    kc_organizationId k = xi_organizationId i \<and>
    get_outcome (xi_organizationId i) (xi_customerId i) (xi_sessionId i) (xi_idempotencyKey i) now r = Some (OutcomeReady i k) \<and>
    create_intent input iid correlation line_ids now r = (OutcomeReady i k, r)"
proof -
  have r: "intents_ok t r" by (rule checkout_reachable_ok [OF assms(1)])
  have "cart_fits i (cr_carts r)" using r assms(2) unfolding intents_ok_def by blast
  with assms(3) obtain cref k where k: "xi_cartReference i = Some cref" "cref \<noteq> []" "js_get (cr_carts r) cref = Some k"
    "kc_organizationId k = xi_organizationId i" "kc_status k = CartReady \<or> kc_status k = CartStarted"
    by (auto simp: cart_fits_def split: option.splits)
  have "now < kc_expiresAtIso k" using assms(5) k(1,3) by simp
  then have ready: "outcome_for now i r = OutcomeReady i k"
    using assms(3,4) k by (auto simp: outcome_for_def intent_cart_def if_truthy_def)
  have "same_request (xi_organizationId i) (xi_customerId i) (xi_sessionId i) (xi_idempotencyKey i) i" by (simp add: same_request_def)
  from same_request_unique [OF r assms(2) this] ready assms(6-9) k show ?thesis
    by (simp add: get_outcome_def create_intent_def)
qed

text \<open>
  Rolling back registration links restores the repository.  After any sequence of calls that
  link registrations of the given intents and lines to entitlements, restoring the snapshot taken
  before them gives back the very repository, although the records are shared between map keys.
\<close>
theorem metadata_links_rollback:
  assumes "checkout_reachable t r" "list_all (call_in_scope intent_ids line_ids) calls"
  shows "restore_entitlement_links (snapshot_entitlement_links intent_ids line_ids r) (foldl link_call r calls) = r"
  using link_calls_relinked [OF checkout_reachable_metadata [OF assms(1)] assms(2)]
    restore_snapshot [OF checkout_reachable_metadata [OF assms(1)]] by blast

definition demo_intent_input :: create_intent_input where
  "demo_intent_input =
     \<lparr>ni_organizationId = ''org'', ni_customerId = ''cust'', ni_sessionId = ''sess'', ni_idempotencyKey = ''key'',
      ni_intentType = Some ClassEntryIntent, ni_offeringId = None, ni_entitlementClass = None, ni_durationDays = None,
      ni_festivalClassId = Some ''class'', ni_childId = Some ''child'', ni_shopifyProductGid = ''p'', ni_shopifyVariantGid = ''v'',
      ni_policyVersion = None, ni_divisionId = None, ni_divisionNameSnapshot = None, ni_staffAccessConsent = None,
      ni_amount = ''10.00'', ni_currencyCode = ''USD'', ni_expiresAtIso = ''2026-01-01T10:30'', ni_lines = None\<rparr>"

definition demo_attach :: attach_input where
  "demo_attach = \<lparr>at_intentId = ''i1'', at_shopifyCartId = ''cart'', at_organizationId = ''org'', at_customerId = ''cust'',
     at_sessionId = ''sess'', at_integrationVersion = 1, at_expiresAtIso = ''2026-01-01T10:30''\<rparr>"

definition demo_metadata :: "string \<Rightarrow> string \<Rightarrow> metadata_params" where
  "demo_metadata iid line = \<lparr>mp_id = iid, mp_organizationId = ''org'', mp_festivalId = ''fest'', mp_checkoutIntentId = ''i1'',
     mp_checkoutIntentLineId = Some line, mp_teacherMembershipId = ''t'', mp_accompanistMembershipId = None,
     mp_repertoireJson = [], mp_repertoireSnapshotPieces = None, mp_registrationSnapshot = None\<rparr>"

definition demo_checkout :: checkout_repo where
  "demo_checkout =
     (let now = ''2026-01-01T10:00'';
          r1 = snd (create_intent demo_intent_input ''i1'' ''c1'' (\<lambda>_. ''l1'') now empty_checkout_repo);
          r2 = snd (insert_registration_metadata (demo_metadata ''m1'' ''l1'') (\<lambda>_. (''x'', ''y'')) now r1);
          r3 = snd (insert_registration_metadata (demo_metadata ''m2'' ''l2'') (\<lambda>_. (''x'', ''y'')) now r2)
      in snd (attach_cart demo_attach None ''k1'' now r3))"

lemma demo_checkout_reachable: "checkout_reachable ''2026-01-01T10:00'' demo_checkout"
proof -
  let ?now = "''2026-01-01T10:00''"
  let ?r1 = "snd (create_intent demo_intent_input ''i1'' ''c1'' (\<lambda>_. ''l1'') ?now empty_checkout_repo)"
  let ?r2 = "snd (insert_registration_metadata (demo_metadata ''m1'' ''l1'') (\<lambda>_. (''x'', ''y'')) ?now ?r1)"
  let ?r3 = "snd (insert_registration_metadata (demo_metadata ''m2'' ''l2'') (\<lambda>_. (''x'', ''y'')) ?now ?r2)"
  have fresh: "js_get (cr_intents empty_checkout_repo) ''i1'' = None" "fresh_metadata_keys (demo_metadata ''m1'' ''l1'') ?r1"
    "fresh_metadata_keys (demo_metadata ''m2'' ''l2'') ?r2" "js_get (cr_carts ?r3) ''k1'' = None" by code_simp+
  have "checkout_reachable ?now ?r3" by (intro ck_insert ck_create ck_new fresh)
  from ck_attach [OF this _ fresh(4)] show ?thesis unfolding demo_checkout_def Let_def by simp
qed

theorem one_open_checkout_per_customer_witness:
  "\<forall>v. fst (create_intent (demo_intent_input\<lparr>ni_idempotencyKey := ''other''\<rparr>) ''i2'' ''c2'' (\<lambda>_. ''l9'') ''2026-01-01T10:10'' demo_checkout)
     \<noteq> OutcomeCreated v"
proof -
  obtain i where i: "js_get (cr_intents demo_checkout) ''i1'' = Some i" "blocks_customer ''org'' ''cust'' ''2026-01-01T10:10'' i"
  proof -
    have "(case js_get (cr_intents demo_checkout) ''i1'' of Some i \<Rightarrow> blocks_customer ''org'' ''cust'' ''2026-01-01T10:10'' i | None \<Rightarrow> False)"
      by code_simp
    then show ?thesis using that by (auto split: option.splits)
  qed
  have le: "''2026-01-01T10:00'' \<le> ''2026-01-01T10:10''" by code_simp
  let ?in = "demo_intent_input\<lparr>ni_idempotencyKey := ''other''\<rparr>"
  have "ni_organizationId ?in = ''org''" "ni_customerId ?in = ''cust''" by (simp_all add: demo_intent_input_def)
  with i(2) have "blocks_customer (ni_organizationId ?in) (ni_customerId ?in) ''2026-01-01T10:10'' i" by simp
  with one_open_checkout_per_customer [OF demo_checkout_reachable le, THEN conjunct2, THEN conjunct2] i(1) show ?thesis by blast
qed

theorem repeated_request_resumes_witness:
  "\<exists>i k. create_intent demo_intent_input ''i2'' ''c2'' (\<lambda>_. ''l9'') ''2026-01-01T10:10'' demo_checkout = (OutcomeReady i k, demo_checkout) \<and>
     kc_organizationId k = ''org''"
proof -
  let ?now = "''2026-01-01T10:10''"
  let ?i = "the (js_get (cr_intents demo_checkout) ''i1'')"
  have i: "js_get (cr_intents demo_checkout) ''i1'' = Some ?i" "xi_status ?i = IntentReady \<or> xi_status ?i = IntentStarted"
    "?now < xi_expiresAtIso ?i"
    "case js_get (cr_carts demo_checkout) (the (xi_cartReference ?i)) of None \<Rightarrow> True | Some k \<Rightarrow> ?now < kc_expiresAtIso k"
    "ni_organizationId demo_intent_input = xi_organizationId ?i" "ni_customerId demo_intent_input = xi_customerId ?i"
    "ni_sessionId demo_intent_input = xi_sessionId ?i" "ni_idempotencyKey demo_intent_input = xi_idempotencyKey ?i"
    "xi_organizationId ?i = ''org''"
    by code_simp+
  have live: "\<forall>k. js_get (cr_carts demo_checkout) (the (xi_cartReference ?i)) = Some k \<longrightarrow> ?now < kc_expiresAtIso k"
    using i(4) by (auto split: option.splits)
  from repeated_request_resumes [OF demo_checkout_reachable i(1-3) live i(5-8)] i(9) show ?thesis by metis
qed

theorem metadata_links_rollback_witness:
  "let calls = [(None, Some ''l2'', ''e2''), (Some ''i1'', None, ''e1'')] in
   restore_entitlement_links (snapshot_entitlement_links [''i1''] [''l2''] demo_checkout) (foldl link_call demo_checkout calls) = demo_checkout \<and>
   get_registration_metadata_by_entitlement_id ''org'' ''e2'' (foldl link_call demo_checkout calls) \<noteq> None"
proof -
  let ?calls = "[(None, Some ''l2'', ''e2''), (Some ''i1'', None, ''e1'')]"
  have "list_all (call_in_scope [''i1''] [''l2'']) ?calls" by code_simp
  from metadata_links_rollback [OF demo_checkout_reachable this]
  have "restore_entitlement_links (snapshot_entitlement_links [''i1''] [''l2''] demo_checkout) (foldl link_call demo_checkout ?calls) = demo_checkout" .
  moreover have "get_registration_metadata_by_entitlement_id ''org'' ''e2'' (foldl link_call demo_checkout ?calls) \<noteq> None" by code_simp
  ultimately show ?thesis unfolding Let_def by blast
qed

end
