(* ===== verification/RegistrationWindow.thy ===== *)
theory RegistrationWindow
  imports FestCalendar
begin

text \<open>
  \<open>packages/common/src/festival-registration-window.ts\<close>: reading a boundary of the registration
  window in the organization's timezone, validating a window, and deciding whether registration is
  open.  Instants are milliseconds since 1970.  \<open>Intl.DateTimeFormat\<close> is a parameter: for each name
  it knows, the function from an instant to the wall clock it shows, read as if it were UTC.
\<close>

section \<open>Instants\<close>

definition utc_ms :: "cal_date \<Rightarrow> nat \<Rightarrow> nat \<Rightarrow> nat \<Rightarrow> nat \<Rightarrow> int" where
  "utc_ms d h mi s ms =
     (int (day_number d) - 719528) * 86400000 + int h * 3600000 + int mi * 60000 + int s * 1000 + int ms"

text \<open>\<open>Date.UTC\<close> moves the years below 100 to the twentieth century, so these fail the comparison.\<close>

definition is_valid_calendar_components :: "nat \<Rightarrow> nat \<Rightarrow> nat \<Rightarrow> bool" where
  "is_valid_calendar_components y m d \<longleftrightarrow>
     \<not> (m < 1 \<or> 12 < m \<or> d < 1 \<or> 31 < d) \<and> 100 \<le> y \<and> d \<le> days_in_month y m"

type_synonym zones = "string \<Rightarrow> (int \<Rightarrow> int) option"

definition is_valid_iana_timezone :: "zones \<Rightarrow> string \<Rightarrow> bool" where
  "is_valid_iana_timezone zones tz \<longleftrightarrow> \<not> (js_trim tz \<noteq> tz \<or> tz = []) \<and> zones tz \<noteq> None"

text \<open>The loop of four corrections.\<close>

fun converge :: "nat \<Rightarrow> (int \<Rightarrow> int) \<Rightarrow> int \<Rightarrow> int \<Rightarrow> int" where
  "converge 0 wall target guess = guess"
| "converge (Suc n) wall target guess =
     (let diff = wall guess - target in if diff = 0 then guess else converge n wall target (guess - diff))"

record local_components =
  lc_year :: nat
  lc_month :: nat
  lc_day :: nat
  lc_hour :: nat
  lc_minute :: nat
  lc_second :: nat
  lc_millisecond :: nat

definition component_ms :: "local_components \<Rightarrow> int" where
  "component_ms c = utc_ms (CalDate (lc_year c) (lc_month c) (lc_day c)) (lc_hour c) (lc_minute c) (lc_second c) (lc_millisecond c)"

definition resolve_timezone_date :: "(int \<Rightarrow> int) \<Rightarrow> local_components \<Rightarrow> int option" where
  "resolve_timezone_date wall c =
     (if \<not> is_valid_calendar_components (lc_year c) (lc_month c) (lc_day c) then None
      else if 23 < lc_hour c \<or> 59 < lc_minute c \<or> 59 < lc_second c then None
      else let guess = converge 4 wall (component_ms c) (component_ms c)
           in if wall guess = component_ms c then Some guess else None)"

section \<open>Reading boundaries\<close>

text \<open>\<open>\d{2}:\d{2}(?::\d{2}(?:\.\d{1,3})?)?\<close>, the fraction padded to milliseconds.\<close>

definition time_fields :: "string \<Rightarrow> (nat \<times> nat \<times> nat \<times> nat) option" where
  "time_fields s =
     (let n = length s;
          two = (\<lambda>k. digits_value 0 (take 2 (drop k s)))
      in if \<not> (n = 5 \<or> n = 8 \<or> 10 \<le> n \<and> n \<le> 12) \<or> s ! 2 \<noteq> CHR '':'' then None
         else if 5 < n \<and> s ! 5 \<noteq> CHR '':'' \<or> 8 < n \<and> s ! 8 \<noteq> CHR ''.'' then None
         else (case (two 0, two 3, if 5 < n then two 6 else Some 0,
                     if 8 < n then digits_value 0 (take 3 (drop 9 s @ ''00'')) else Some 0) of
                 (Some h, Some mi, Some sec, Some ms) \<Rightarrow> Some (h, mi, sec, ms)
               | _ \<Rightarrow> None))"

definition datetime_fields :: "string \<Rightarrow> local_components option" where
  "datetime_fields s =
     (if length s < 11 \<or> s ! 10 \<noteq> CHR ''T'' then None
      else (case (date_fields (take 10 s), time_fields (drop 11 s)) of
              (Some (y, m, d), Some (h, mi, sec, ms)) \<Rightarrow>
                Some \<lparr>lc_year = y, lc_month = m, lc_day = d, lc_hour = h, lc_minute = mi, lc_second = sec, lc_millisecond = ms\<rparr>
            | _ \<Rightarrow> None))"

text \<open>\<open>(?:Z|[+-]\d{2}:\d{2})\<close> at the end: the text before it and the offset as sign, hours, minutes.\<close>

definition offset_suffix :: "string \<Rightarrow> (string \<times> int \<times> nat \<times> nat) option" where
  "offset_suffix s =
     (if s \<noteq> [] \<and> last s = CHR ''Z'' then Some (butlast s, 1, 0, 0)
      else if length s < 6 then None
      else (let t = drop (length s - 6) s; body = take (length s - 6) s in
            if (t ! 0 = CHR ''+'' \<or> t ! 0 = CHR ''-'') \<and> t ! 3 = CHR '':''
            then (case (digits_value 0 (take 2 (drop 1 t)), digits_value 0 (drop 4 t)) of
                    (Some h, Some mi) \<Rightarrow> Some (body, if t ! 0 = CHR ''-'' then - 1 else 1, h, mi)
                  | _ \<Rightarrow> None)
            else None))"

definition iso_with_offset :: "string \<Rightarrow> (local_components \<times> int \<times> nat \<times> nat) option" where
  "iso_with_offset s =
     (case offset_suffix s of
        None \<Rightarrow> None
      | Some (body, off) \<Rightarrow> map_option (\<lambda>c. (c, off)) (datetime_fields body))"

text \<open>\<open>new Date(raw)\<close> accepts the ranges of the ECMAScript date time string format.\<close>

definition parse_explicit_offset_iso :: "local_components \<times> int \<times> nat \<times> nat \<Rightarrow> int option" where
  "parse_explicit_offset_iso p =
     (case p of (c, sign, oh, om) \<Rightarrow>
        if \<not> is_valid_calendar_components (lc_year c) (lc_month c) (lc_day c) then None
        else if (lc_hour c \<le> 23 \<and> lc_minute c \<le> 59 \<and> lc_second c \<le> 59 \<or>
                 lc_hour c = 24 \<and> lc_minute c = 0 \<and> lc_second c = 0 \<and> lc_millisecond c = 0) \<and> oh \<le> 23 \<and> om \<le> 59
        then Some (component_ms c - sign * (int oh * 3600000 + int om * 60000))
        else None)"

datatype boundary_kind = OpenBoundary | CloseBoundary

definition parse_registration_window_boundary :: "zones \<Rightarrow> string \<Rightarrow> boundary_kind \<Rightarrow> string \<Rightarrow> int option" where
  "parse_registration_window_boundary zones v kind tz =
     (let trimmed = js_trim v in
      if trimmed = [] \<or> \<not> is_valid_iana_timezone zones tz then None
      else (case iso_with_offset trimmed of
              Some p \<Rightarrow> parse_explicit_offset_iso p
            | None \<Rightarrow>
                (case date_fields trimmed of
                   Some (y, m, d) \<Rightarrow>
                     let close = (kind = CloseBoundary) in
                     resolve_timezone_date (the (zones tz))
                       \<lparr>lc_year = y, lc_month = m, lc_day = d, lc_hour = (if close then 23 else 0),
                        lc_minute = (if close then 59 else 0), lc_second = (if close then 59 else 0),
                        lc_millisecond = (if close then 999 else 0)\<rparr>
                 | None \<Rightarrow>
                     (case datetime_fields trimmed of
                        Some c \<Rightarrow> resolve_timezone_date (the (zones tz)) c
                      | None \<Rightarrow> None))))"

section \<open>Windows\<close>

record registration_window =
  rw_opensAt :: "string option"
  rw_closesAt :: "string option"

definition normalize_window_bound :: "string option \<Rightarrow> string option" where
  "normalize_window_bound v = (case v of None \<Rightarrow> None | Some s \<Rightarrow> if 0 < length (js_trim s) then Some (js_trim s) else None)"

text \<open>\<open>Date.prototype.toISOString\<close> for instants from the year 0 on.\<close>

function find_year :: "nat \<Rightarrow> nat \<Rightarrow> nat" where
  "find_year n y = (if days_before_year (Suc y) \<le> n then find_year n (Suc y) else y)"
  by auto
termination
proof (relation "measure (\<lambda>(n, y). n - y)")
  fix n y :: nat
  assume "days_before_year (Suc y) \<le> n"
  moreover have "Suc y \<le> days_before_year (Suc y)"
    using days_before_year_add [of 0 "Suc y"] by simp
  ultimately show "((n, Suc y), n, y) \<in> measure (\<lambda>(n, y). n - y)" by simp
qed simp

declare find_year.simps [simp del]

fun find_month :: "nat \<Rightarrow> nat \<Rightarrow> nat \<Rightarrow> nat" where
  "find_month 0 y n = 1"
| "find_month (Suc m) y n = (if days_before_month y (Suc m) \<le> n then Suc m else find_month m y n)"

definition date_of_day :: "nat \<Rightarrow> cal_date" where
  "date_of_day n =
     (let y = find_year n (n div 366); r = n - days_before_year y; m = find_month 12 y r
      in CalDate y m (r - days_before_month y m + 1))"

definition to_iso :: "int \<Rightarrow> string" where
  "to_iso t =
     (let d = date_of_day (nat (t div 86400000 + 719528)); r = nat (t mod 86400000)
      in (if cd_year d \<le> 9999 then pad 4 (cd_year d) else CHR ''+'' # pad 6 (cd_year d))
         @ ''-'' @ pad 2 (cd_month d) @ ''-'' @ pad 2 (cd_day d) @ ''T'' @ pad 2 (r div 3600000) @ '':''
         @ pad 2 (r div 60000 mod 60) @ '':'' @ pad 2 (r div 1000 mod 60) @ ''.'' @ pad 3 (r mod 1000) @ ''Z'')"

record window_validation =
  wv_isValid :: bool
  wv_errors :: "string list"
  wv_opensAtIso :: "string option"
  wv_closesAtIso :: "string option"

definition invalid_window :: "string list \<Rightarrow> window_validation" where
  "invalid_window es = \<lparr>wv_isValid = False, wv_errors = es, wv_opensAtIso = None, wv_closesAtIso = None\<rparr>"

definition boundary_errors :: "int option \<Rightarrow> int option \<Rightarrow> string list" where
  "boundary_errors opens closes =
     push_if (opens = None) ''Registration open timestamp is invalid.''
     @ push_if (closes = None) ''Registration close timestamp is invalid.''
     @ push_if (case (opens, closes) of (Some a, Some b) \<Rightarrow> b < a | _ \<Rightarrow> False)
         ''Registration close timestamp must be on or after the open timestamp.''"

definition validate_festival_registration_window :: "zones \<Rightarrow> registration_window \<Rightarrow> string \<Rightarrow> window_validation" where
  "validate_festival_registration_window zones w tz =
     (case (normalize_window_bound (rw_opensAt w), normalize_window_bound (rw_closesAt w)) of
        (None, None) \<Rightarrow> \<lparr>wv_isValid = True, wv_errors = [], wv_opensAtIso = None, wv_closesAtIso = None\<rparr>
      | (Some raw_opens, Some raw_closes) \<Rightarrow>
          if \<not> is_valid_iana_timezone zones tz then invalid_window [''Organization timezone must be a valid IANA timezone.'']
          else let opens = parse_registration_window_boundary zones raw_opens OpenBoundary tz;
                   closes = parse_registration_window_boundary zones raw_closes CloseBoundary tz;
                   errors = boundary_errors opens closes
               in if errors = [] then
                    \<lparr>wv_isValid = True, wv_errors = [], wv_opensAtIso = map_option to_iso opens,
                     wv_closesAtIso = map_option to_iso closes\<rparr>
                  else invalid_window errors
      | _ \<Rightarrow> invalid_window [''Both registration open and close timestamps must be provided together.''])"

definition is_festival_registration_open :: "zones \<Rightarrow> registration_window \<Rightarrow> int \<Rightarrow> string \<Rightarrow> bool" where
  "is_festival_registration_open zones w now tz =
     (case (normalize_window_bound (rw_opensAt w), normalize_window_bound (rw_closesAt w)) of
        (Some raw_opens, Some raw_closes) \<Rightarrow>
          (case (parse_registration_window_boundary zones raw_opens OpenBoundary tz,
                 parse_registration_window_boundary zones raw_closes CloseBoundary tz) of
             (Some opens, Some closes) \<Rightarrow> \<not> closes < opens \<and> opens \<le> now \<and> now < closes
           | _ \<Rightarrow> False)
      | _ \<Rightarrow> False)"

section \<open>Dates of day numbers\<close>

lemma days_before_year_le: "days_before_year y \<le> 366 * y"
proof (induction y)
  case (Suc y)
  then show ?case by (simp add: days_before_year_Suc)
qed (simp add: days_before_year_def)

lemma find_year_bounds:
  "days_before_year y \<le> n \<Longrightarrow> days_before_year (find_year n y) \<le> n \<and> n < days_before_year (Suc (find_year n y))"
proof (induction n y rule: find_year.induct)
  case (1 n y)
  then show ?case by (cases "days_before_year (Suc y) \<le> n") (simp_all add: find_year.simps [of n y])
qed

lemma find_month_bounds:
  "0 < find_month k y n \<and> find_month k y n \<le> max 1 k \<and> days_before_month y (find_month k y n) \<le> n \<and>
    (find_month k y n < k \<longrightarrow> n < days_before_month y (Suc (find_month k y n)))"
proof (induction k)
  case (Suc k)
  then show ?case by (cases k) (auto simp: less_Suc_eq not_le)
qed simp

lemma date_of_day_number: "valid_date (date_of_day n) \<and> day_number (date_of_day n) = n"
proof -
  define y where "y = find_year n (n div 366)"
  define r where "r = n - days_before_year y"
  define m where "m = find_month 12 y r"
  have "days_before_year (n div 366) \<le> n"
    using days_before_year_le [of "n div 366"] by (rule order_trans) simp
  from find_year_bounds [OF this] have y: "days_before_year y \<le> n" "n < days_before_year (Suc y)"
    by (simp_all add: y_def)
  then have r: "n = days_before_year y + r" "r < (if leap_year y then 366 else 365)"
    by (auto simp: r_def days_before_year_Suc)
  have m: "0 < m \<and> m \<le> 12 \<and> days_before_month y m \<le> r \<and> (m < 12 \<longrightarrow> r < days_before_month y (Suc m))"
    using find_month_bounds [of 12 y r] unfolding m_def [symmetric] by linarith
  have "r < days_before_month y m + days_in_month y m"
  proof (cases "m < 12")
    case True
    with m show ?thesis by auto
  next
    case False
    with m have "m = 12" by linarith
    with r(2) days_before_month_year [of y] show ?thesis by (simp del: days_before_month.simps)
  qed
  with m have "valid_date (CalDate y m (r - days_before_month y m + 1))" by (auto simp: valid_date_def simp del: days_before_month.simps)
  moreover have "day_number (CalDate y m (r - days_before_month y m + 1)) = n"
    using m r(1) by (simp add: day_number_def del: days_before_month.simps)
  ultimately show ?thesis
    unfolding date_of_day_def Let_def y_def [symmetric] r_def [symmetric] m_def [symmetric] by blast
qed

section \<open>Printed instants\<close>

lemma time_of_day:
  fixes r :: nat
  assumes "r < 86400000"
  shows "r div 3600000 < 24" "r div 60000 mod 60 < 60" "r div 1000 mod 60 < 60" "r mod 1000 < 1000"
    "r = r div 3600000 * 3600000 + r div 60000 mod 60 * 60000 + r div 1000 mod 60 * 1000 + r mod 1000"
proof -
  have "r div 60000 = r div 1000 div 60" "r div 3600000 = r div 60000 div 60"
    using div_mult2_eq [of r 1000 60] div_mult2_eq [of r 60000 60] by simp_all
  then have "r div 60000 * 60 + r div 1000 mod 60 = r div 1000" "r div 3600000 * 60 + r div 60000 mod 60 = r div 60000"
    by simp_all
  moreover have "r div 1000 * 1000 + r mod 1000 = r" by simp
  ultimately show "r = r div 3600000 * 3600000 + r div 60000 mod 60 * 60000 + r div 1000 mod 60 * 1000 + r mod 1000"
    by linarith
qed (use assms in \<open>simp_all add: less_mult_imp_div_less\<close>)

lemma time_fields_printed:
  assumes "h < 100" "mi < 100" "s < 100" "ms < 1000"
  shows "time_fields (pad 2 h @ '':'' @ pad 2 mi @ '':'' @ pad 2 s @ ''.'' @ pad 3 ms) = Some (h, mi, s, ms)"
proof -
  have len: "length (pad 2 k) = 2" "length (pad 3 k) = 3" for k by simp_all
  show ?thesis
    using assms len by (simp add: time_fields_def Let_def nth_append digits_value_pad del: pad.simps)
qed

text \<open>The instants of the years 100 to 9999.\<close>

definition iso_window :: "int \<Rightarrow> bool" where
  "iso_window t \<longleftrightarrow> - 59011459200000 \<le> t \<and> t < 253402300800000"

lemma iso_window_years:
  assumes "iso_window t"
  defines "n \<equiv> nat (t div 86400000 + 719528)"
  shows "int n = t div 86400000 + 719528" "100 \<le> cd_year (date_of_day n)" "cd_year (date_of_day n) \<le> 9999"
proof -
  let ?y = "cd_year (date_of_day n)"
  have day: "- 683003 \<le> t div 86400000" "t div 86400000 < 2932897"
    using assms(1) zdiv_mono1 [of "- 59011459200000" t 86400000] zdiv_mono1 [of t 253402300799999 86400000]
    by (simp_all add: iso_window_def)
  then show n: "int n = t div 86400000 + 719528" by (simp add: n_def)
  have dn: "valid_date (date_of_day n)" "day_number (date_of_day n) = n" using date_of_day_number by blast+
  have "days_before_year 100 = 36525" "days_before_year 10000 = 3652425" by (simp_all add: days_before_year_def)
  with day n dn day_number_in_year [OF dn(1)] days_before_year_le_day_number [OF dn(1)]
  have "days_before_year 100 < days_before_year (Suc ?y)" "days_before_year ?y < days_before_year 10000" by linarith+
  then have "100 < Suc ?y" "?y < 10000" using days_before_year_mono not_le by blast+
  then show "100 \<le> ?y" "?y \<le> 9999" by simp_all
qed

lemma iso_roundtrip:
  assumes "iso_window t"
  shows "\<exists>c. iso_with_offset (to_iso t) = Some (c, 1, 0, 0) \<and> parse_explicit_offset_iso (c, 1, 0, 0) = Some t"
proof -
  define d where "d = date_of_day (nat (t div 86400000 + 719528))"
  define r where "r = nat (t mod 86400000)"
  have d: "valid_date d" "int (day_number d) = t div 86400000 + 719528" "100 \<le> cd_year d" "cd_year d \<le> 9999"
    using iso_window_years [OF assms] date_of_day_number by (simp_all add: d_def)
  have r: "r < 86400000" "int r = t mod 86400000" by (simp_all add: r_def nat_less_iff)
  let ?h = "r div 3600000" and ?mi = "r div 60000 mod 60" and ?s = "r div 1000 mod 60" and ?ms = "r mod 1000"
  let ?c = "\<lparr>lc_year = cd_year d, lc_month = cd_month d, lc_day = cd_day d, lc_hour = ?h, lc_minute = ?mi,
    lc_second = ?s, lc_millisecond = ?ms\<rparr>"
  have iso: "to_iso t = (iso_date d @ ''T'' @ pad 2 ?h @ '':'' @ pad 2 ?mi @ '':'' @ pad 2 ?s @ ''.'' @ pad 3 ?ms) @ ''Z''"
    using d(4) by (simp add: to_iso_def d_def [symmetric] r_def [symmetric] Let_def iso_date_def del: pad.simps)
  have printable: "printable_date d" using d by (simp add: printable_date_def)
  have len: "length (iso_date d) = 10" using printable by (simp add: iso_date_printable del: pad.simps)
  have time: "time_fields (pad 2 ?h @ '':'' @ pad 2 ?mi @ '':'' @ pad 2 ?s @ ''.'' @ pad 3 ?ms) = Some (?h, ?mi, ?s, ?ms)"
    using time_of_day(1-4) [OF r(1)] by (intro time_fields_printed) simp_all
  have "datetime_fields (iso_date d @ ''T'' @ pad 2 ?h @ '':'' @ pad 2 ?mi @ '':'' @ pad 2 ?s @ ''.'' @ pad 3 ?ms) = Some ?c"
    using len date_fields_iso [OF printable] time
    by (simp add: datetime_fields_def nth_append del: pad.simps)
  then have parsed: "iso_with_offset (to_iso t) = Some (?c, 1, 0, 0)"
    unfolding iso by (simp add: iso_with_offset_def offset_suffix_def butlast_append del: pad.simps)
  have "int r = int (?h * 3600000 + ?mi * 60000 + ?s * 1000 + ?ms)" using time_of_day(5) [OF r(1)] by simp
  then have "component_ms ?c = t div 86400000 * 86400000 + t mod 86400000"
    using d(2) r(2) by (simp add: component_ms_def utc_ms_def)
  then have "component_ms ?c = t" by simp
  moreover have "is_valid_calendar_components (cd_year d) (cd_month d) (cd_day d)"
    using d days_in_month_bounds(2) [of "cd_year d" "cd_month d"]
    by (simp add: is_valid_calendar_components_def valid_date_def)
  ultimately have "parse_explicit_offset_iso (?c, 1, 0, 0) = Some t"
    using time_of_day(1-3) [OF r(1)] by (simp add: parse_explicit_offset_iso_def less_Suc_eq_le [symmetric])
  with parsed show ?thesis by blast
qed

lemma to_iso_trim:
  assumes "iso_window t" shows "js_trim (to_iso t) = to_iso t" "to_iso t \<noteq> []"
proof -
  define d where "d = date_of_day (nat (t div 86400000 + 719528))"
  have "pad (Suc 3) k = digit_char (k div 10 ^ 3 mod 10) # pad 3 (k mod 10 ^ 3)" for k by (rule pad.simps(2))
  then have pad4: "pad 4 k = digit_char (k div 10 ^ 3 mod 10) # pad 3 (k mod 10 ^ 3)" for k by simp
  have "cd_year d \<le> 9999" using iso_window_years(3) [OF assms] by (simp add: d_def)
  then obtain rest where iso: "to_iso t = digit_char (cd_year d div 10 ^ 3 mod 10) # rest @ ''Z''"
    unfolding to_iso_def d_def [symmetric] Let_def pad4 by (simp del: pad.simps)
  have "\<not> js_space (digit_char k)" if "k < 10" for k
    using that by (simp add: js_space_def digit_char_def)
  then have "\<not> js_space (digit_char (cd_year d div 10 ^ 3 mod 10))" by simp
  moreover have "\<not> js_space (CHR ''Z'')" by (simp add: js_space_def)
  ultimately show "js_trim (to_iso t) = to_iso t" unfolding iso js_trim_def by simp
  show "to_iso t \<noteq> []" by (simp add: iso)
qed

lemma parse_to_iso:
  assumes "iso_window t" "is_valid_iana_timezone zones tz"
  shows "parse_registration_window_boundary zones (to_iso t) kind tz = Some t"
  using iso_roundtrip [OF assms(1)] to_iso_trim [OF assms(1)] assms(2)
  by (auto simp: parse_registration_window_boundary_def Let_def)

lemma normalize_to_iso: "iso_window t \<Longrightarrow> normalize_window_bound (Some (to_iso t)) = Some (to_iso t)"
  by (simp add: normalize_window_bound_def to_iso_trim)

text \<open>From the year 10000 on a printed instant has a sign and six digits, which the window does not read.\<close>

definition beyond_iso :: "int \<Rightarrow> bool" where
  "beyond_iso t \<longleftrightarrow> 253402300800000 \<le> t"

lemma to_iso_beyond:
  assumes "beyond_iso t"
  obtains y rest where "to_iso t = CHR ''+'' # pad 6 y @ ''-'' @ rest @ ''Z''" "length rest = 18" "rest ! 2 = CHR ''-''"
proof -
  define n where "n = nat (t div 86400000 + 719528)"
  define d where "d = date_of_day n"
  have "2932897 \<le> t div 86400000" using assms zdiv_mono1 [of 253402300800000 t 86400000] by (simp add: beyond_iso_def)
  then have n: "3652425 \<le> n" unfolding n_def by linarith
  have dn: "valid_date d" "day_number d = n" using date_of_day_number by (simp_all add: d_def)
  have "days_before_year 10000 = 3652425" by (simp add: days_before_year_def)
  with n dn day_number_in_year [OF dn(1)] have "days_before_year 10000 < days_before_year (Suc (cd_year d))" by linarith
  then have "10000 < Suc (cd_year d)" using days_before_year_mono not_le by blast
  then have "\<not> cd_year d \<le> 9999" by simp
  then show ?thesis
    by (intro that [of "cd_year d" "pad 2 (cd_month d) @ ''-'' @ pad 2 (cd_day d) @ ''T'' @ pad 2 (nat (t mod 86400000) div 3600000) @ '':''
         @ pad 2 (nat (t mod 86400000) div 60000 mod 60) @ '':'' @ pad 2 (nat (t mod 86400000) div 1000 mod 60) @ ''.'' @ pad 3 (nat (t mod 86400000) mod 1000)"])
      (simp_all add: to_iso_def d_def [symmetric] n_def [symmetric] Let_def nth_append del: pad.simps)
qed

lemma parse_beyond:
  assumes "beyond_iso t"
  shows "normalize_window_bound (Some (to_iso t)) = Some (to_iso t)"
    "parse_registration_window_boundary zones (to_iso t) kind tz = None"
proof -
  obtain y rest where iso: "to_iso t = CHR ''+'' # pad 6 y @ ''-'' @ rest @ ''Z''" and rest: "length rest = 18" "rest ! 2 = CHR ''-''"
    using to_iso_beyond [OF assms] by blast
  have trim: "js_trim (to_iso t) = to_iso t" unfolding iso by (simp add: js_trim_def js_space_def)
  then show "normalize_window_bound (Some (to_iso t)) = Some (to_iso t)" by (simp add: normalize_window_bound_def iso)
  have len: "length (pad 6 y) = 6" by simp
  have "datetime_fields (CHR ''+'' # pad 6 y @ ''-'' @ rest) = None" "datetime_fields (to_iso t) = None" "date_fields (to_iso t) = None"
    using len rest by (simp_all add: iso datetime_fields_def date_fields_def nth_append nth_Cons' del: pad.simps)
  moreover have "offset_suffix (to_iso t) = Some (CHR ''+'' # pad 6 y @ ''-'' @ rest, 1, 0, 0)"
    by (simp add: iso offset_suffix_def butlast_append del: pad.simps)
  ultimately show "parse_registration_window_boundary zones (to_iso t) kind tz = None"
    by (simp add: parse_registration_window_boundary_def trim iso_with_offset_def Let_def)
qed

section \<open>Local times\<close>

lemma converge_fixed_offset:
  assumes "\<And>t. wall t = t + off" shows "converge (Suc (Suc n)) wall target target = target - off"
  by (simp add: assms Let_def)

text \<open>In a zone with a constant offset each valid local time is one instant.\<close>

lemma resolve_fixed_offset:
  assumes "\<And>t. wall t = t + off"
    and "is_valid_calendar_components (lc_year c) (lc_month c) (lc_day c)" "lc_hour c \<le> 23" "lc_minute c \<le> 59" "lc_second c \<le> 59"
  shows "resolve_timezone_date wall c = Some (component_ms c - off)"
  using assms converge_fixed_offset [of wall off 2 "component_ms c", OF assms(1)]
  by (simp add: resolve_timezone_date_def numeral_eq_Suc)

lemma resolve_wall_clock:
  "resolve_timezone_date wall c = Some t \<Longrightarrow>
     wall t = component_ms c \<and> is_valid_calendar_components (lc_year c) (lc_month c) (lc_day c) \<and>
     lc_hour c \<le> 23 \<and> lc_minute c \<le> 59 \<and> lc_second c \<le> 59"
  by (auto simp: resolve_timezone_date_def Let_def split: if_splits)

section \<open>Properties\<close>

text \<open>
  C23: a validated window means the same everywhere, in the years that its stored form can hold.
  When both boundaries can be read in the organization's timezone and are in order, validation
  accepts the window and stores two UTC timestamps, and registration is open exactly from the
  opening instant up to, and not at, the closing instant.  If both instants lie in the years 100 to
  9999, the stored form is open at the same times, in whatever valid timezone it is read; if
  the window closes in the year 10000 or later, the stored form is never open.
\<close>
theorem validated_window_is_stable:
  assumes "normalize_window_bound (rw_opensAt w) = Some raw_opens" "normalize_window_bound (rw_closesAt w) = Some raw_closes"
    and "parse_registration_window_boundary zones raw_opens OpenBoundary tz = Some opens"
    and "parse_registration_window_boundary zones raw_closes CloseBoundary tz = Some closes"
    and "opens \<le> closes" "is_valid_iana_timezone zones tz'"
  shows "let v = validate_festival_registration_window zones w tz;
             stored = \<lparr>rw_opensAt = wv_opensAtIso v, rw_closesAt = wv_closesAtIso v\<rparr>
    in wv_isValid v \<and> wv_errors v = [] \<and>
       is_festival_registration_open zones w now tz = (opens \<le> now \<and> now < closes) \<and>
       (iso_window opens \<and> iso_window closes \<longrightarrow>
          is_festival_registration_open zones stored now tz' = (opens \<le> now \<and> now < closes)) \<and>
       (beyond_iso closes \<longrightarrow> \<not> is_festival_registration_open zones stored now tz')"
proof -
  have tz: "is_valid_iana_timezone zones tz"
    using assms(3) by (auto simp: parse_registration_window_boundary_def Let_def split: if_splits)
  have v: "validate_festival_registration_window zones w tz =
      \<lparr>wv_isValid = True, wv_errors = [], wv_opensAtIso = Some (to_iso opens), wv_closesAtIso = Some (to_iso closes)\<rparr>"
    using assms(1-5) tz by (simp add: validate_festival_registration_window_def boundary_errors_def push_if_def)
  show ?thesis
    unfolding v Let_def is_festival_registration_open_def
    using assms by (auto simp: normalize_to_iso parse_to_iso parse_beyond split: option.split)
qed

text \<open>A zone two hours ahead of UTC.\<close>

definition demo_zones :: zones where
  "demo_zones name = (if name = ''UTC'' then Some (\<lambda>t. t) else if name = ''Plus2'' then Some (\<lambda>t. t + 7200000) else None)"

definition demo_window :: registration_window where
  "demo_window = \<lparr>rw_opensAt = Some '' 2026-03-01T08:30 '', rw_closesAt = Some ''2026-03-31''\<rparr>"

lemma demo_components:
  "datetime_fields ''2026-03-01T08:30'' = Some \<lparr>lc_year = 2026, lc_month = 3, lc_day = 1, lc_hour = 8, lc_minute = 30,
     lc_second = 0, lc_millisecond = 0\<rparr>"
  "iso_with_offset ''2026-03-01T08:30'' = None" "date_fields ''2026-03-01T08:30'' = None"
  "iso_with_offset ''2026-03-31'' = None" "date_fields ''2026-03-31'' = Some (2026, 3, 31)"
  by (simp_all add: datetime_fields_def date_fields_def time_fields_def iso_with_offset_def offset_suffix_def char_digit_def)

lemma demo_boundaries:
  "parse_registration_window_boundary demo_zones ''2026-03-01T08:30'' OpenBoundary ''Plus2'' = Some 1772346600000"
  "parse_registration_window_boundary demo_zones ''2026-03-31'' CloseBoundary ''Plus2'' = Some 1774994399999"
proof -
  have tz: "is_valid_iana_timezone demo_zones ''Plus2''" "the (demo_zones ''Plus2'') = (\<lambda>t. t + 7200000)" by code_simp (simp add: demo_zones_def)
  have trim: "js_trim ''2026-03-01T08:30'' = ''2026-03-01T08:30''" "js_trim ''2026-03-31'' = ''2026-03-31''" by code_simp+
  have days: "day_number (CalDate 2026 3 1) = 740041" "day_number (CalDate 2026 3 31) = 740071"
    by (simp_all add: day_number_def days_before_year_def days_before_month_numeral leap_year_def days_in_month_def)
  have "resolve_timezone_date (\<lambda>t. t + 7200000) \<lparr>lc_year = 2026, lc_month = 3, lc_day = 1, lc_hour = 8, lc_minute = 30,
      lc_second = 0, lc_millisecond = 0\<rparr> = Some 1772346600000"
    using days(1) by (subst resolve_fixed_offset [where off = 7200000])
      (simp_all add: is_valid_calendar_components_def days_in_month_def component_ms_def utc_ms_def)
  then show "parse_registration_window_boundary demo_zones ''2026-03-01T08:30'' OpenBoundary ''Plus2'' = Some 1772346600000"
    using tz by (simp add: parse_registration_window_boundary_def trim demo_components)
  have "resolve_timezone_date (\<lambda>t. t + 7200000) \<lparr>lc_year = 2026, lc_month = 3, lc_day = 31, lc_hour = 23, lc_minute = 59,
      lc_second = 59, lc_millisecond = 999\<rparr> = Some 1774994399999"
    using days(2) by (subst resolve_fixed_offset [where off = 7200000])
      (simp_all add: is_valid_calendar_components_def days_in_month_def component_ms_def utc_ms_def)
  then show "parse_registration_window_boundary demo_zones ''2026-03-31'' CloseBoundary ''Plus2'' = Some 1774994399999"
    using tz by (simp add: parse_registration_window_boundary_def trim demo_components)
qed

theorem validated_window_is_stable_witness:
  "let v = validate_festival_registration_window demo_zones demo_window ''Plus2'';
       stored = \<lparr>rw_opensAt = wv_opensAtIso v, rw_closesAt = wv_closesAtIso v\<rparr>
   in wv_isValid v \<and> is_festival_registration_open demo_zones stored 1774000000000 ''UTC''"
proof -
  have parts: "normalize_window_bound (rw_opensAt demo_window) = Some ''2026-03-01T08:30''"
    "normalize_window_bound (rw_closesAt demo_window) = Some ''2026-03-31''"
    "iso_window 1772346600000" "iso_window 1774994399999" "is_valid_iana_timezone demo_zones ''UTC''"
    by code_simp+
  from validated_window_is_stable [OF parts(1,2) demo_boundaries _ parts(5), of 1774000000000] parts(3,4)
  show ?thesis by (simp add: Let_def)
qed

end
