(* ===== verification/CheckoutValidation.thy ===== *)
theory CheckoutValidation
  imports CheckoutRepo RegistrationWindow PurchaseEligibility Billing
begin

text \<open>
  The checks of a class checkout: \<open>packages/backend/src/checkout/class-checkout-helpers.ts\<close> and the
  validation half of \<open>class-checkout-service.ts\<close>.  The organization, customer, commerce and
  repertoire repositories are parameters; what they answer does not change during one validation,
  so the caches of a request hold what a new read would return.  Dates are milliseconds since 1970.
\<close>

section \<open>What the outside answers\<close>

record checkout_class = class_config +
  kx_shopifyProductGid :: string
  kx_shopifyVariantGid :: string
  kx_requiresConcerto :: "bool option"
  kx_accompanimentRequired :: bool

record subtype_value = catalog_value +
  sv_normalizedName :: "string option"

record child_record =
  cl_id :: string
  cl_parentCustomerId :: string

record age_snapshot =
  ag_age :: int
  ag_createdAt :: int
  ag_validUntil :: int
  ag_supersededAtIso :: "string option"

record teacher_grant =
  tg_id :: string
  tg_entitlementClass :: string
  tg_divisionId :: string
  tg_status :: string

record accompanist_grant =
  ac_id :: string
  ac_customerId :: string
  ac_status :: string
  ac_isCurrent :: bool
  ac_contactName :: string

record festival_record =
  fe_id :: string
  fe_shortName :: string
  fe_isPrimary :: bool
  fe_window :: registration_window

record customer_session =
  ss_organizationId :: string
  ss_customerId :: string
  ss_revokedAtIso :: "string option"
  ss_expiresAt :: int
  ss_shopifyCustomerGid :: string
  ss_integrationVersion :: int

record catalog_work =
  cw_isActive :: "bool option"
  cw_classifications :: "string list option"

record shopify_integration =
  sy_storeDomain :: string
  sy_integrationVersion :: int

record checkout_env =
  en_session :: "string \<Rightarrow> customer_session option"
  en_customerGid :: "string \<Rightarrow> string \<Rightarrow> string option"
  en_child :: "string \<Rightarrow> string \<Rightarrow> string \<Rightarrow> child_record option"
  en_ageSnapshot :: "string \<Rightarrow> string \<Rightarrow> age_snapshot option"
  en_festivals :: "string \<Rightarrow> festival_record list"
  en_classByShortName :: "string \<Rightarrow> string \<Rightarrow> string \<Rightarrow> string option \<Rightarrow> checkout_class option"
  en_class :: "string \<Rightarrow> string option \<Rightarrow> string \<Rightarrow> checkout_class option"
  en_classesByIds :: "string \<Rightarrow> string \<Rightarrow> string list \<Rightarrow> checkout_class list"
  en_catalogValues :: "string \<Rightarrow> string \<Rightarrow> bool option \<Rightarrow> subtype_value list"
  en_timezone :: "string \<Rightarrow> string"
  en_teacherGrant :: "string \<Rightarrow> string \<Rightarrow> string \<Rightarrow> teacher_grant option"
  en_accompanistGrant :: "string \<Rightarrow> string \<Rightarrow> accompanist_grant option"
  en_hasCommerce :: bool
  en_entitlementsByClass :: "string \<Rightarrow> string \<Rightarrow> string list \<Rightarrow> class_entitlement list"
  en_entitlementsByChild :: "string \<Rightarrow> string \<Rightarrow> string list \<Rightarrow> class_entitlement list"
  en_confirmedCount :: "string \<Rightarrow> string \<Rightarrow> int"
  en_organizationCurrency :: "string \<Rightarrow> string option"
  en_hasRepertoire :: bool
  en_catalogWork :: "string \<Rightarrow> string \<Rightarrow> catalog_work option"
  en_divisions :: "string \<Rightarrow> (string \<times> string) list"
  en_teachers :: "string \<Rightarrow> string \<Rightarrow> (string \<times> string) list"
  en_integration :: "string \<Rightarrow> shopify_integration option"
  en_zones :: zones
  en_minutesText :: "int \<Rightarrow> string"

section \<open>Repertoire\<close>

definition is_concerto_work_classification :: "string \<Rightarrow> bool" where
  "is_concerto_work_classification s \<longleftrightarrow> js_lower (js_trim s) = ''concerto''"

definition is_catalog_work_classified_as_concerto :: "catalog_work option \<Rightarrow> bool" where
  "is_catalog_work_classified_as_concerto w =
     (case w of None \<Rightarrow> False
      | Some work \<Rightarrow> cw_isActive work \<noteq> Some False \<and>
          (case cw_classifications work of None \<Rightarrow> False | Some cs \<Rightarrow> list_ex is_concerto_work_classification cs))"

definition does_class_require_concerto :: "checkout_class \<Rightarrow> subtype_value option \<Rightarrow> bool" where
  "does_class_require_concerto c subtype =
     (case kx_requiresConcerto c of
        Some b \<Rightarrow> b
      | None \<Rightarrow> (case subtype of None \<Rightarrow> False
          | Some s \<Rightarrow> map_option (\<lambda>n. js_lower (js_trim n)) (sv_normalizedName s) = Some ''concerto'' \<or>
                      js_lower (js_trim (cv_displayName s)) = ''concerto''))"

definition validate_repertoire_piece :: "json \<Rightarrow> unit outcome" where
  "validate_repertoire_piece v =
     and_then (guard (case string_field v ''title'' of Some s \<Rightarrow> js_trim s \<noteq> [] | None \<Rightarrow> False)
       (AppError ''Each repertoire piece must have a valid title.'' 400 None)) (\<lambda>_.
     and_then (guard (case string_field v ''composer'' of Some s \<Rightarrow> js_trim s \<noteq> [] | None \<Rightarrow> False)
       (AppError ''Each repertoire piece must have a valid composer.'' 400 None)) (\<lambda>_.
     and_then (guard (case json_field v ''movement'' of None \<Rightarrow> True | Some JNull \<Rightarrow> True | Some (JStr _) \<Rightarrow> True | _ \<Rightarrow> False)
       (AppError ''Each repertoire piece must have a valid movement.'' 400 None)) (\<lambda>_.
     and_then (guard (case json_field v ''catalogWorkId'' of None \<Rightarrow> True | Some JNull \<Rightarrow> True | Some (JStr s) \<Rightarrow> js_trim s \<noteq> [] | _ \<Rightarrow> False)
       (AppError ''Each repertoire piece must have a valid catalog work ID.'' 400 None)) (\<lambda>_.
     guard (case json_field v ''durationSeconds'' of Some (JNum n) \<Rightarrow> 0 < n \<and> n \<le> 2147483647 | _ \<Rightarrow> False)
       (AppError ''Each repertoire piece must have a positive whole-number duration in seconds.'' 400 None)))))"

definition piece_work_id :: "json \<Rightarrow> string option" where
  "piece_work_id v = if_truthy (map_option js_trim (string_field v ''catalogWorkId''))"

definition normalize_repertoire_piece :: "bool \<Rightarrow> (string \<Rightarrow> catalog_work option) option \<Rightarrow> json \<Rightarrow> piece outcome" where
  "normalize_repertoire_piece concerto works v =
     and_then
       (if concerto then
          guard (case (piece_work_id v, works) of
              (Some w, Some get) \<Rightarrow> is_catalog_work_classified_as_concerto (get w) | _ \<Rightarrow> False)
            (AppError ''Concerto classes require selecting a catalog work classified as a concerto.'' 400
              (Some ''concerto_catalog_work_required''))
        else (case piece_work_id v of
            None \<Rightarrow> Inr ()
          | Some w \<Rightarrow> guard (case Option.bind works (\<lambda>get. get w) of None \<Rightarrow> False | Some work \<Rightarrow> cw_isActive work \<noteq> Some False)
              (AppError ''Each repertoire piece must have a valid catalog work ID.'' 400 (Some ''catalog_work_invalid'')))) (\<lambda>_.
     Inr \<lparr>pc_title = text_field v ''title'', pc_composer = text_field v ''composer'',
          pc_movement = if_truthy (map_option js_trim (string_field v ''movement'')),
          pc_durationSeconds = (case json_field v ''durationSeconds'' of Some (JNum n) \<Rightarrow> n | _ \<Rightarrow> 0),
          pc_catalogWorkId = piece_work_id v\<rparr>)"

fun each_outcome :: "('a \<Rightarrow> 'b outcome) \<Rightarrow> 'a list \<Rightarrow> 'b list outcome" where
  "each_outcome f [] = Inr []"
| "each_outcome f (x # xs) = and_then (f x) (\<lambda>y. and_then (each_outcome f xs) (\<lambda>ys. Inr (y # ys)))"

definition total_seconds :: "piece list \<Rightarrow> int" where
  "total_seconds ps = sum_list (map pc_durationSeconds ps)"

definition validate_and_normalize_repertoire_pieces ::
    "(int \<Rightarrow> string) \<Rightarrow> checkout_class \<Rightarrow> subtype_value option \<Rightarrow> (string \<Rightarrow> catalog_work option) option \<Rightarrow> json \<Rightarrow> piece list outcome" where
  "validate_and_normalize_repertoire_pieces minutes_text c subtype works v =
     (case v of
        JArr (x # xs) \<Rightarrow>
          (let ps = x # xs in
           and_then (guard (int (length ps) \<le> fc_maximumPerformancePieces c)
             (AppError (''Number of pieces ('' @ int_string (int (length ps)) @ '') exceeds the maximum allowed (''
                @ int_string (fc_maximumPerformancePieces c) @ '').'') 400 None)) (\<lambda>_.
           and_then (each_outcome validate_repertoire_piece ps) (\<lambda>_.
           and_then (each_outcome (normalize_repertoire_piece (does_class_require_concerto c subtype) works) ps) (\<lambda>normalized.
           and_then (guard (\<not> 60 * fc_performanceMinutes c < total_seconds normalized)
             (AppError (''Total performance duration ('' @ minutes_text (total_seconds normalized)
                @ '' minutes) exceeds the maximum allowed of '' @ int_string (fc_performanceMinutes c) @ '' minutes.'') 400 None)) (\<lambda>_.
           Inr normalized)))))
      | _ \<Rightarrow> Inl (AppError ''Repertoire pieces must be a non-empty array.'' 400 None))"

section \<open>Child, teacher, accompanist\<close>

definition validate_child_ownership :: "child_record option \<Rightarrow> string \<Rightarrow> string \<Rightarrow> child_record outcome" where
  "validate_child_ownership c child_id parent =
     (case c of
        None \<Rightarrow> Inl (AppError ''Child not found or does not belong to parent customer.'' 404 None)
      | Some child \<Rightarrow>
          if cl_id child \<noteq> child_id \<or> cl_parentCustomerId child \<noteq> parent
          then Inl (AppError ''Child not found or does not belong to parent customer.'' 404 None) else Inr child)"

definition MAX_SNAPSHOT_VALIDITY_MS :: int where
  "MAX_SNAPSHOT_VALIDITY_MS = 90 * 24 * 60 * 60 * 1000"

definition validate_active_child_age_snapshot :: "age_snapshot option \<Rightarrow> int \<Rightarrow> age_snapshot outcome" where
  "validate_active_child_age_snapshot s now =
     (case s of
        None \<Rightarrow> Inl (AppError ''Child does not have an active age snapshot.'' 400 None)
      | Some a \<Rightarrow>
          if truthy (ag_supersededAtIso a) then Inl (AppError ''Child does not have an active age snapshot.'' 400 None)
          else if ag_validUntil a \<le> now \<or> MAX_SNAPSHOT_VALIDITY_MS < now - ag_createdAt a
          then Inl (AppError ''Child age snapshot has expired.'' 400 None) else Inr a)"

definition validate_child_age_range :: "int \<Rightarrow> checkout_class \<Rightarrow> unit outcome" where
  "validate_child_age_range age c =
     guard (\<not> (age < fc_minimumAge c \<or> fc_maximumAge c < age))
       (AppError (''Child age ('' @ int_string age @ '') is outside the allowed range of ['' @ int_string (fc_minimumAge c)
          @ '', '' @ int_string (fc_maximumAge c) @ ''].'') 400 None)"

definition validate_teacher_entitlement :: "teacher_grant option \<Rightarrow> string \<Rightarrow> string \<Rightarrow> teacher_grant outcome" where
  "validate_teacher_entitlement g division teacher =
     and_then (guard (js_trim teacher \<noteq> []) (AppError ''Teacher ID is required.'' 400 None)) (\<lambda>_.
     (case g of
        None \<Rightarrow> Inl (AppError ''Selected teacher does not have an active membership for this division.'' 400 None)
      | Some grant \<Rightarrow>
          if tg_entitlementClass grant = ''teacher_membership'' \<and> tg_divisionId grant = division \<and> tg_status grant = ''active''
          then Inr grant
          else Inl (AppError ''Selected teacher does not have an active membership for this division.'' 400 None)))"

definition validate_accompanist_selection ::
    "accompanist_grant option \<Rightarrow> string option \<Rightarrow> bool \<Rightarrow> string option outcome" where
  "validate_accompanist_selection g accompanist required =
     (case if_truthy (map_option js_trim accompanist) of
        None \<Rightarrow> if required then Inl (AppError
            ''Accompanist selection is required when accompaniment is required for this class.'' 400 None) else Inr None
      | Some _ \<Rightarrow>
          (case g of
             None \<Rightarrow> Inl (AppError ''Selected accompanist does not have an active membership.'' 400 None)
           | Some grant \<Rightarrow>
               if ac_status grant = ''active'' \<or> ac_isCurrent grant then Inr (Some (ac_id grant))
               else Inl (AppError ''Selected accompanist does not have an active membership.'' 400 None)))"

section \<open>Festival and class\<close>

definition trimmed :: "string option \<Rightarrow> string option" where
  "trimmed s = if_truthy (map_option js_trim s)"

definition resolve_target_festival :: "festival_record list \<Rightarrow> string option \<Rightarrow> string option \<Rightarrow> festival_record outcome" where
  "resolve_target_festival fs festival_id short_name =
     (let target =
        (case (trimmed festival_id, trimmed short_name) of
           (Some i, Some n) \<Rightarrow> find (\<lambda>f. fe_id f = i \<and> js_lower (fe_shortName f) = js_lower n) fs
         | (Some i, None) \<Rightarrow> find (\<lambda>f. fe_id f = i) fs
         | (None, Some n) \<Rightarrow> find (\<lambda>f. js_lower (fe_shortName f) = js_lower n) fs
         | (None, None) \<Rightarrow> find fe_isPrimary fs)
      in case target of None \<Rightarrow> Inl (AppError ''Active festival not found.'' 404 None) | Some f \<Rightarrow> Inr f)"

definition resolve_festival_class_configuration ::
    "checkout_env \<Rightarrow> string \<Rightarrow> festival_record \<Rightarrow> string \<Rightarrow> string option \<Rightarrow> checkout_class outcome" where
  "resolve_festival_class_configuration env org festival class_id division =
     (case en_class env org (Some (fe_id festival)) class_id of
        None \<Rightarrow>
          if en_class env org None class_id \<noteq> None
          then Inl (AppError ''Festival class configuration does not belong to the active festival.'' 400 None)
          else Inl (AppError ''Festival class configuration not found.'' 404 None)
      | Some c \<Rightarrow>
          if \<not> fc_isActive c then Inl (AppError ''Festival class configuration is inactive.'' 400 None)
          else if fc_organizationId c \<noteq> org \<or> fc_festivalId c \<noteq> fe_id festival
          then Inl (AppError ''Festival class configuration does not belong to the active festival.'' 400 None)
          else if division \<noteq> None \<and> division \<noteq> Some (fc_divisionId c)
          then Inl (AppError ''Selected class does not belong to the requested division.'' 400 None)
          else Inr c)"

section \<open>Amounts\<close>

text \<open>\<open>(totalCents / 100).toFixed(2)\<close>; a price that is no number makes the total \<open>NaN\<close>.\<close>

definition cents_text :: "int \<Rightarrow> string" where
  "cents_text n = (if n < 0 then ''-'' else []) @ nat_digits (nat (abs n) div 100) @ ''.'' @ pad 2 (nat (abs n) mod 100)"

definition price_cents :: "string \<Rightarrow> int option" where
  "price_cents p = decimal_cents (if p = [] then ''0'' else p)"

definition calculate_total_amount :: "string list \<Rightarrow> string" where
  "calculate_total_amount ps =
     (if list_ex (\<lambda>p. price_cents p = None) ps then ''NaN'' else cents_text (sum_list (map (\<lambda>p. the (price_cents p)) ps)))"

section \<open>Rejections\<close>

fun reason_name :: "reason_code \<Rightarrow> string" where
  "reason_name AVAILABLE = ''AVAILABLE''"
| "reason_name ALREADY_REGISTERED = ''ALREADY_REGISTERED''"
| "reason_name MISSING_PREREQUISITE = ''MISSING_PREREQUISITE''"
| "reason_name REGISTRATION_CLOSED = ''REGISTRATION_CLOSED''"
| "reason_name CLASS_NOT_AVAILABLE = ''CLASS_NOT_AVAILABLE''"
| "reason_name SOLD_OUT = ''SOLD_OUT''"

definition primary_failure :: "eligibility_result list \<Rightarrow> eligibility_result option" where
  "primary_failure failed =
     (case find (\<lambda>r. er_reasonCode r = REGISTRATION_CLOSED) failed of
        Some r \<Rightarrow> Some r
      | None \<Rightarrow> (case find (\<lambda>r. er_reasonCode r = SOLD_OUT) failed of
          Some r \<Rightarrow> Some r
        | None \<Rightarrow> (case failed of [] \<Rightarrow> None | r # _ \<Rightarrow> Some r)))"

text \<open>The error without its details; every result has a message.\<close>

definition build_eligibility_rejection_error :: "eligibility_result list \<Rightarrow> app_error" where
  "build_eligibility_rejection_error results =
     (case primary_failure (filter (\<lambda>r. \<not> er_isEligible r) results) of
        None \<Rightarrow> AppError ''Class registration is not eligible.'' 400 (Some ''ineligible'')
      | Some r \<Rightarrow> AppError (er_message r) 400 (Some (js_lower (reason_name (er_reasonCode r)))))"

text \<open>The check after the cart was created: some class of the cart has no free seat any more.\<close>

definition class_cut_off :: "string \<Rightarrow> string \<Rightarrow> checkout_class option \<Rightarrow> int \<Rightarrow> bool" where
  "class_cut_off org festival fresh placed =
     (case fresh of
        None \<Rightarrow> True
      | Some c \<Rightarrow> \<not> fc_isActive c \<or> fc_organizationId c \<noteq> org \<or> fc_festivalId c \<noteq> festival \<or>
          (case fc_capacity c of None \<Rightarrow> False | Some cap \<Rightarrow> cap \<le> 0 \<or> cap \<le> placed))"

definition cutoff_reason :: "checkout_class option \<Rightarrow> string" where
  "cutoff_reason fresh =
     (if case fresh of None \<Rightarrow> True | Some c \<Rightarrow> \<not> fc_isActive c
      then ''Class is no longer available and is in waitlist state.''
      else ''Class has reached capacity and is now on the waitlist.'')"

definition verify_post_cart_create_capacity_cutoff ::
    "checkout_env \<Rightarrow> string \<Rightarrow> string \<Rightarrow> (string \<times> string) list \<Rightarrow> app_error option" where
  "verify_post_cart_create_capacity_cutoff env org festival ls =
     (let ids = js_uniq (map snd ls);
          class_map = foldl (\<lambda>m c. js_set (fc_id c) c m) [] (en_classesByIds env org festival ids);
          placed = (\<lambda>c. if en_hasCommerce env then en_confirmedCount env org c else 0);
          failed = filter (\<lambda>c. class_cut_off org festival (js_get class_map c) (placed c)) ids
      in case failed of
           [] \<Rightarrow> None
         | c # _ \<Rightarrow> Some (AppError (cutoff_reason (js_get class_map c)) 400 (Some ''sold_out'')))"

section \<open>Checkout URLs\<close>

record parsed_url =
  pu_protocol :: string
  pu_hostname :: string
  pu_port :: string

definition is_allowed_checkout_url :: "(string \<Rightarrow> parsed_url option) \<Rightarrow> string \<Rightarrow> string \<Rightarrow> bool" where
  "is_allowed_checkout_url parse url store_domain =
     (case parse url of
        None \<Rightarrow> False
      | Some u \<Rightarrow> pu_protocol u = ''https:'' \<and> pu_hostname u = js_lower store_domain \<and> pu_port u = [])"

definition retryable_checkout_error :: app_error where
  "retryable_checkout_error = AppError ''Shopify checkout is temporarily unavailable. Please try again.'' 503
     (Some ''checkout_retryable_upstream'')"

definition checkout_unavailable :: app_error where
  "checkout_unavailable = AppError ''Shopify checkout is unavailable.'' 503 None"

definition error_code :: "app_error \<Rightarrow> string option" where
  "error_code e = (case e of AppError _ _ c \<Rightarrow> c | PlainError _ \<Rightarrow> None)"

section \<open>Lemmas the checkout services share\<close>

lemma act_lift_eq [simp]: "act_lift r s = (res, s') \<longleftrightarrow> res = r \<and> s' = s"
  by auto

lemma act_catch_Inr:
  assumes "act_catch m h s = (Inr x, s')" "\<And>e t y t'. h e t = (Inr y, t') \<Longrightarrow> False"
  shows "m s = (Inr x, s')"
  using assms by (auto simp: act_catch_def split: prod.splits sum.splits)

lemma act_catch_Inl:
  assumes "act_catch m h s = (Inl e, s')"
  obtains e' t where "m s = (Inl e', t)" "h e' t = (Inl e, s')"
  using assms by (auto simp: act_catch_def split: prod.splits sum.splits)

lemma mark_failed_status:
  "js_get (cr_intents (mark_failed iid r)) iid = Some i \<Longrightarrow> xi_status i = IntentFailed"
  by (auto simp: mark_failed_def set_intent_status_def set_cart_status_def split: option.splits)

lemma mark_started_status:
  "mark_checkout_started iid r = (Inr u, r') \<Longrightarrow> \<exists>i. js_get (cr_intents r') iid = Some i \<and> xi_status i = IntentStarted"
  by (auto simp: mark_checkout_started_def set_intent_status_def set_cart_status_def split: option.splits if_splits)

end
