(* ===== verification/ClassCheckout.thy ===== *)
theory ClassCheckout
  imports CheckoutValidation
begin

text \<open>
  \<open>ClassCheckoutService\<close> of \<open>packages/backend/src/checkout/class-checkout-service.ts\<close> over the in-memory
  checkout repository: starting a checkout of several lines, resuming it, and what is left behind
  when a step fails.  At every \<open>await\<close> point other requests may change the repository, the clock
  moves and the answers of the outside change: a point has its own repository change, time and
  environment.  The diagnostic log is not part of the state.
\<close>

section \<open>Input\<close>

record checkout_line = line_item +
  ln_teacherId :: string
  ln_instrumentId :: "json option"
  ln_accompanistId :: "string option"
  ln_pieces :: json
  ln_divisionId :: "string option"

datatype version_input = NoVersion | VersionNumber int | VersionText string

record start_input =
  si_organizationId :: string
  si_festivalId :: "string option"
  si_festivalShortName :: "string option"
  si_customerId :: string
  si_sessionId :: string
  si_idempotencyKey :: string
  si_festivalClassId :: "string option"
  si_childId :: "string option"
  si_divisionId :: "string option"
  si_buyerAccessToken :: string
  si_integrationVersion :: version_input
  si_teacherId :: "string option"
  si_accompanistId :: "string option"
  si_instrumentId :: "json option"
  si_pieces :: "json option"
  si_lineItems :: "checkout_line list option"

record validated_line =
  vl_child :: child_record
  vl_classConfig :: checkout_class
  vl_normalizedPieces :: "piece list"
  vl_teacherEntitlementId :: string
  vl_accompanistEntitlementId :: "string option"
  vl_instrument :: instrument
  vl_registrationSnapshot :: "registration_snapshot option"

record cart_line =
  cl_merchandiseId :: string
  cl_quantity :: nat
  cl_attributes :: "(string \<times> string) list"

record cart_request =
  cq_organizationId :: string
  cq_shopifyVariantGid :: string
  cq_lines :: "cart_line list"
  cq_buyerAccessToken :: string
  cq_correlationId :: string
  cq_currencyCode :: string

record checkout_result =
  rt_checkoutUrl :: string
  rt_intentId :: string
  rt_correlationId :: string
  rt_intent :: checkout_intent

section \<open>Points of interleaving\<close>

datatype checkout_point =
    AtLookup | AtValidate | AtProcessing | AtEligibility | AtSnapshot | AtCreate | AtMetadata nat | AtIntegration
  | AtWindow | AtCart | AtAttach | AtSoldOut | AtStarted | AtUrl | AtVerify | AtFailed

text \<open>The outside of one request: answers, clock and other requests at each point, random identifiers, the storefront.\<close>

record checkout_world =
  wd_env :: "checkout_point \<Rightarrow> checkout_env"
  wd_now :: "checkout_point \<Rightarrow> int"
  wd_others :: "checkout_point \<Rightarrow> checkout_repo \<Rightarrow> checkout_repo"
  wd_intentId :: string
  wd_correlationId :: string
  wd_lineIds :: "nat \<Rightarrow> string"
  wd_cartReference :: string
  wd_metadataIds :: "nat \<Rightarrow> string"
  wd_itemIds :: "nat \<Rightarrow> nat \<Rightarrow> string \<times> string"
  wd_createCart :: "cart_request \<Rightarrow> string outcome"
  wd_checkout :: "string \<Rightarrow> string \<Rightarrow> string outcome"
  wd_parseUrl :: "string \<Rightarrow> parsed_url option"

text \<open>The repository and the cart requests sent to the storefront.\<close>

record checkout_run =
  ru_repo :: checkout_repo
  ru_requests :: "cart_request list"

definition at_point ::
    "checkout_world \<Rightarrow> checkout_point \<Rightarrow> (checkout_repo \<Rightarrow> 'a outcome \<times> checkout_repo) \<Rightarrow> (checkout_run, 'a) act" where
  "at_point w p f = (\<lambda>s. case f (wd_others w p (ru_repo s)) of (res, r) \<Rightarrow> (res, s\<lparr>ru_repo := r\<rparr>))"

definition iso_now :: "checkout_world \<Rightarrow> checkout_point \<Rightarrow> string" where
  "iso_now w p = to_iso (wd_now w p)"

section \<open>Eligibility of a proposed purchase\<close>

definition add_classes :: "checkout_class list \<Rightarrow> (string, checkout_class) js_map \<Rightarrow> (string, checkout_class) js_map" where
  "add_classes cs m = foldl (\<lambda>m c. js_set (fc_id c) c m) m cs"

definition load_targeted_entitlements ::
    "checkout_env \<Rightarrow> string \<Rightarrow> string \<Rightarrow> string list \<Rightarrow> string list \<Rightarrow> (string, checkout_class) js_map
      \<Rightarrow> class_entitlement list \<times> (string, checkout_class) js_map" where
  "load_targeted_entitlements env org festival class_ids child_ids classes =
     (if \<not> en_hasCommerce env then ([], classes)
      else let by_class = (if class_ids = [] then [] else en_entitlementsByClass env org festival class_ids);
               by_child = (if child_ids = [] then [] else en_entitlementsByChild env org festival child_ids);
               merged = foldl (\<lambda>m e. js_set (ce_id e) e m) [] (by_class @ by_child);
               missing = js_uniq (map ce_festivalClassId (filter (\<lambda>e. ce_status e = Confirmed \<and>
                 js_get classes (ce_festivalClassId e) = None) by_child))
           in (js_values merged,
               if missing = [] then classes else add_classes (en_classesByIds env org festival missing) classes))"

record eligibility_request =
  eq_organizationId :: string
  eq_customerId :: string
  eq_festivalId :: "string option"
  eq_festivalShortName :: "string option"
  eq_items :: "line_item list"
  eq_mode :: "eligibility_mode option"

text \<open>\<open>preloaded\<close>: a festival, children by ID and classes by ID that need not be read.\<close>

definition evaluate_eligibility ::
    "checkout_env \<Rightarrow> int \<Rightarrow> eligibility_request \<Rightarrow> festival_record option \<Rightarrow> (string, child_record option) js_map
      \<Rightarrow> (string, checkout_class) js_map \<Rightarrow> eligibility_response outcome" where
  "evaluate_eligibility env now q target children classes =
     (let org = eq_organizationId q;
          child_ids = js_uniq (map it_childId (eq_items q));
          class_ids = js_uniq (map it_festivalClassId (eq_items q))
      in and_then (guard (js_trim (eq_customerId q) \<noteq> []) (AppError ''Customer ID is required.'' 400 None)) (\<lambda>_.
         and_then (each_outcome (\<lambda>c. guard
             ((case js_get children c of Some found \<Rightarrow> found | None \<Rightarrow> en_child env org (eq_customerId q) c) \<noteq> None)
             (AppError ''Child not found.'' 404 None)) child_ids) (\<lambda>_.
         and_then (case target of Some f \<Rightarrow> Inr f
             | None \<Rightarrow> resolve_target_festival (en_festivals env org) (eq_festivalId q) (eq_festivalShortName q)) (\<lambda>festival.
         let missing = filter (\<lambda>c. js_get classes c = None) class_ids;
             known = (if missing = [] then classes
               else add_classes (en_classesByIds env org (fe_id festival) missing) classes);
             (entitlements, all_classes) = load_targeted_entitlements env org (fe_id festival) class_ids child_ids known
         in Inr (evaluate_purchase_eligibility
              \<lparr>ei_organizationId = org, ei_festivalId = fe_id festival, ei_items = eq_items q,
               ei_classes = ClassMap (map (\<lambda>(k, c). (k, class_config.truncate c)) all_classes),
               ei_subtypes = map catalog_value.truncate (en_catalogValues env org ''class_subtype'' None),
               ei_activeEntitlements = entitlements,
               ei_isRegistrationOpen =
                 Some (is_festival_registration_open (en_zones env) (fe_window festival) now (en_timezone env org)),
               ei_mode = Some (case eq_mode q of Some m \<Rightarrow> m | None \<Rightarrow> CartMode)\<rparr>)))))"

section \<open>Validation\<close>

definition validate_session_and_customer :: "checkout_env \<Rightarrow> int \<Rightarrow> start_input \<Rightarrow> customer_session outcome" where
  "validate_session_and_customer env now input =
     (let invalid = AppError ''Customer session is invalid.'' 401 None
      in and_then (guard (js_trim (si_organizationId input) \<noteq> [] \<and> js_trim (si_customerId input) \<noteq> [] \<and>
             js_trim (si_sessionId input) \<noteq> []) invalid) (\<lambda>_.
         and_then (guard (js_trim (si_buyerAccessToken input) \<noteq> []) (AppError ''Buyer access token is required.'' 400 None)) (\<lambda>_.
         (case en_session env (si_sessionId input) of
            None \<Rightarrow> Inl invalid
          | Some session \<Rightarrow>
              if truthy (ss_revokedAtIso session) \<or> ss_organizationId session \<noteq> si_organizationId input \<or>
                 ss_customerId session \<noteq> si_customerId input \<or> ss_expiresAt session \<le> now
              then Inl invalid
              else if en_customerGid env (si_organizationId input) (si_customerId input) \<noteq> Some (ss_shopifyCustomerGid session)
              then Inl invalid else Inr session))))"

definition normalize_line_items :: "start_input \<Rightarrow> checkout_line list outcome" where
  "normalize_line_items input =
     (case si_lineItems input of
        Some ls \<Rightarrow> if ls = [] then Inl (AppError ''Class checkout requires at least one line item.'' 400 None)
                   else Inr (map strip_candidate_marker ls)
      | None \<Rightarrow>
          and_then (guard (trimmed (si_festivalClassId input) \<noteq> None) (AppError ''Festival class ID is required.'' 400 None)) (\<lambda>_.
          and_then (guard (trimmed (si_childId input) \<noteq> None) (AppError ''Child ID is required.'' 400 None)) (\<lambda>_.
          and_then (guard (trimmed (si_teacherId input) \<noteq> None) (AppError ''Teacher ID is required.'' 400 None)) (\<lambda>_.
          Inr [\<lparr>it_id = None, it_childId = the (si_childId input), it_festivalClassId = the (si_festivalClassId input),
                it_isCandidate = False, ln_teacherId = the (si_teacherId input), ln_instrumentId = si_instrumentId input,
                ln_accompanistId = si_accompanistId input,
                ln_pieces = (case si_pieces input of Some ps \<Rightarrow> ps | None \<Rightarrow> JArr []), ln_divisionId = None\<rparr>]))))"

record line_ctx =
  lc_organizationId :: string
  lc_customerId :: string
  lc_targetFestival :: "festival_record option"
  lc_festivalShortName :: "string option"
  lc_festivalId :: "string option"
  lc_currentTime :: int
  lc_divisionId :: "string option"

text \<open>The class of a line: the cached one, else the one the organization has.\<close>

definition line_class_config ::
    "checkout_env \<Rightarrow> line_ctx \<Rightarrow> (string, checkout_class) js_map \<Rightarrow> string \<Rightarrow> string option \<Rightarrow> checkout_class outcome" where
  "line_class_config env ctx classes class_id division =
     (case js_get classes class_id of
        Some c \<Rightarrow> Inr c
      | None \<Rightarrow>
          (case lc_festivalShortName ctx of
             Some short \<Rightarrow>
               (case en_classByShortName env (lc_organizationId ctx) short class_id (lc_festivalId ctx) of
                  None \<Rightarrow> Inl (AppError ''Festival class configuration not found.'' 404 None) | Some c \<Rightarrow> Inr c)
           | None \<Rightarrow>
               (case lc_targetFestival ctx of
                  Some f \<Rightarrow> resolve_festival_class_configuration env (lc_organizationId ctx) f class_id division
                | None \<Rightarrow> Inl (AppError ''Active festival not found.'' 404 None))))"

text \<open>\<open>Array.isArray(pieces) && pieces.some((p) => Boolean(p?.catalogWorkId))\<close>.\<close>

fun json_truthy :: "json \<Rightarrow> bool" where
  "json_truthy JNull = False"
| "json_truthy (JBool b) = b"
| "json_truthy (JNum n) = (n \<noteq> 0)"
| "json_truthy (JStr s) = (s \<noteq> [])"
| "json_truthy (JArr _) = True"
| "json_truthy (JObj _) = True"

definition names_catalog_work :: "json \<Rightarrow> bool" where
  "names_catalog_work pieces =
     (case pieces of JArr ps \<Rightarrow> list_ex (\<lambda>p. case json_field p ''catalogWorkId'' of Some v \<Rightarrow> json_truthy v | None \<Rightarrow> False) ps
      | _ \<Rightarrow> False)"

definition line_catalog_works ::
    "checkout_env \<Rightarrow> string \<Rightarrow> checkout_class \<Rightarrow> subtype_value option \<Rightarrow> json \<Rightarrow> (string \<Rightarrow> catalog_work option) option" where
  "line_catalog_works env org c subtype pieces =
     (if en_hasRepertoire env \<and> (does_class_require_concerto c subtype \<or> names_catalog_work pieces)
      then Some (en_catalogWork env org) else None)"

definition validate_teacher_and_accompanist ::
    "checkout_env \<Rightarrow> string \<Rightarrow> checkout_class \<Rightarrow> string \<Rightarrow> string option \<Rightarrow> (string \<times> string option) outcome" where
  "validate_teacher_and_accompanist env org c teacher accompanist =
     and_then (validate_teacher_entitlement (en_teacherGrant env org (js_trim teacher) (fc_divisionId c))
        (fc_divisionId c) (js_trim teacher)) (\<lambda>grant.
     and_then (validate_accompanist_selection
        (case trimmed accompanist of Some a \<Rightarrow> en_accompanistGrant env org a | None \<Rightarrow> None)
        (map_option js_trim accompanist) (kx_accompanimentRequired c)) (\<lambda>membership.
     Inr (tg_id grant, membership)))"

definition select_instrument :: "checkout_env \<Rightarrow> string \<Rightarrow> json option \<Rightarrow> instrument outcome" where
  "select_instrument env org v =
     (let invalid = AppError ''Select a valid instrument.'' 400 (Some ''instrument_invalid'')
      in case v of
           None \<Rightarrow> Inr UnknownInstrument
         | Some (JStr s) \<Rightarrow>
             if js_trim s = [] then Inl invalid
             else (case find (\<lambda>c. cv_id c = js_trim s \<and> cv_organizationId c = org \<and> cv_isActive c)
                       (en_catalogValues env org ''instrument'' (Some True)) of
                     None \<Rightarrow> Inl invalid | Some c \<Rightarrow> Inr (Instrument (cv_id c) (cv_displayName c)))
         | Some _ \<Rightarrow> Inl invalid)"

text \<open>One line; the class it resolves to joins the cached ones under the ID the line names.\<close>

definition validate_line ::
    "checkout_env \<Rightarrow> line_ctx \<Rightarrow> (string, checkout_class) js_map \<Rightarrow> checkout_line
      \<Rightarrow> (validated_line \<times> (string, checkout_class) js_map) outcome" where
  "validate_line env ctx classes line =
     (let org = lc_organizationId ctx;
          division = (case ln_divisionId line of Some d \<Rightarrow> Some d | None \<Rightarrow> lc_divisionId ctx)
      in and_then (guard (js_trim (it_festivalClassId line) \<noteq> []) (AppError ''Festival class ID is required.'' 400 None)) (\<lambda>_.
         and_then (guard (js_trim (it_childId line) \<noteq> []) (AppError ''Child ID is required.'' 400 None)) (\<lambda>_.
         and_then (guard (js_trim (ln_teacherId line) \<noteq> []) (AppError ''Teacher ID is required.'' 400 None)) (\<lambda>_.
         and_then (validate_child_ownership (en_child env org (lc_customerId ctx) (it_childId line)) (it_childId line)
            (lc_customerId ctx)) (\<lambda>child.
         and_then (validate_active_child_age_snapshot (en_ageSnapshot env org (it_childId line)) (lc_currentTime ctx)) (\<lambda>age.
         and_then (line_class_config env ctx classes (it_festivalClassId line) division) (\<lambda>c.
         and_then (guard (division = None \<or> division = Some (fc_divisionId c))
            (AppError ''Selected class does not belong to the requested division.'' 400 None)) (\<lambda>_.
         and_then (validate_child_age_range (ag_age age) c) (\<lambda>_.
         let subtype = find (\<lambda>v. cv_id v = fc_classSubtypeId c) (en_catalogValues env org ''class_subtype'' (Some False))
         in and_then (validate_and_normalize_repertoire_pieces (en_minutesText env) c subtype
              (line_catalog_works env org c subtype (ln_pieces line)) (ln_pieces line)) (\<lambda>pieces.
         and_then (validate_teacher_and_accompanist env org c (ln_teacherId line) (ln_accompanistId line))
           (\<lambda>(teacher, accompanist).
         and_then (select_instrument env org (ln_instrumentId line)) (\<lambda>instrument.
         Inr (\<lparr>vl_child = child, vl_classConfig = c, vl_normalizedPieces = pieces, vl_teacherEntitlementId = teacher,
               vl_accompanistEntitlementId = accompanist, vl_instrument = instrument, vl_registrationSnapshot = None\<rparr>,
              js_set (it_festivalClassId line) c classes)))))))))))))"

fun validate_lines ::
    "checkout_env \<Rightarrow> line_ctx \<Rightarrow> (string, checkout_class) js_map \<Rightarrow> checkout_line list
      \<Rightarrow> (validated_line list \<times> (string, checkout_class) js_map) outcome" where
  "validate_lines env ctx classes [] = Inr ([], classes)"
| "validate_lines env ctx classes (l # ls) =
     and_then (validate_line env ctx classes l) (\<lambda>(v, classes').
     and_then (validate_lines env ctx classes' ls) (\<lambda>(vs, classes''). Inr (v # vs, classes'')))"

definition check_eligibility ::
    "checkout_env \<Rightarrow> int \<Rightarrow> string \<Rightarrow> string \<Rightarrow> string \<Rightarrow> checkout_line list \<Rightarrow> (string, child_record option) js_map
      \<Rightarrow> (string, checkout_class) js_map \<Rightarrow> eligibility_result list outcome" where
  "check_eligibility env now org customer festival lines children classes =
     and_then (evaluate_eligibility env now
        \<lparr>eq_organizationId = org, eq_customerId = customer, eq_festivalId = Some festival, eq_festivalShortName = None,
         eq_items = map (\<lambda>l. strip_candidate_marker (line_item.truncate l)) lines, eq_mode = Some CartMode\<rparr>
        None children classes) (\<lambda>response.
     if \<not> rs_isEligible response \<or> list_ex (\<lambda>r. \<not> er_isEligible r) (rs_results response)
     then Inl (build_eligibility_rejection_error (rs_results response)) else Inr (rs_results response))"

definition require_registration_open ::
    "checkout_env \<Rightarrow> int \<Rightarrow> string \<Rightarrow> string \<Rightarrow> eligibility_result list \<Rightarrow> unit outcome" where
  "require_registration_open env now org festival_id results =
     and_then (resolve_target_festival (en_festivals env org) (Some festival_id) None) (\<lambda>festival.
     guard (is_festival_registration_open (en_zones env) (fe_window festival) now (en_timezone env org))
       (build_eligibility_rejection_error (map (\<lambda>r. r\<lparr>er_eligible := False, er_isEligible := False,
          er_reasonCode := REGISTRATION_CLOSED, er_message := ''Registration is closed for this festival.''\<rparr>) results)))"

section \<open>The intent of a checkout\<close>

text \<open>\<open>?.name || null\<close> of the roster entry with the ID.\<close>

definition roster_name :: "(string \<times> string) list \<Rightarrow> string \<Rightarrow> string option" where
  "roster_name roster key = if_truthy (map_option snd (find (\<lambda>(k, _). k = key) roster))"

definition registration_snapshot_of ::
    "checkout_env \<Rightarrow> checkout_env \<Rightarrow> string \<Rightarrow> string \<Rightarrow> string \<Rightarrow> validated_line \<Rightarrow> checkout_line \<Rightarrow> registration_snapshot" where
  "registration_snapshot_of cached env org currency captured v line =
     (let c = vl_classConfig v; teacher = js_trim (ln_teacherId line)
      in \<lparr>sn_capturedAtIso = captured,
          sn_class = \<lparr>sc_id = fc_id c, sc_festivalId = fc_festivalId c, sc_displayName = fc_displayName c,
            sc_classSubtypeId = fc_classSubtypeId c,
            sc_classSubtypeName = map_option cv_displayName (find (\<lambda>s. cv_id s = fc_classSubtypeId c)
              (en_catalogValues cached org ''class_subtype'' (Some False))),
            sc_minimumAge = fc_minimumAge c, sc_maximumAge = fc_maximumAge c, sc_price = fc_price c,
            sc_currencyCode = currency, sc_maximumPerformancePieces = fc_maximumPerformancePieces c,
            sc_performanceMinutes = fc_performanceMinutes c, sc_capacity = fc_capacity c\<rparr>,
          sn_divisionId = fc_divisionId c,
          sn_divisionName = map_option snd (find (\<lambda>(k, _). k = fc_divisionId c) (en_divisions env org)),
          sn_instrument = Some (vl_instrument v),
          sn_teacher = \<lparr>sm_customerId = teacher, sm_membershipId = vl_teacherEntitlementId v,
            sm_name = roster_name (en_teachers env org (fc_divisionId c)) teacher\<rparr>,
          sn_accompanist =
            (case (case trimmed (ln_accompanistId line) of Some a \<Rightarrow> en_accompanistGrant cached org a | None \<Rightarrow> None,
                   if_truthy (vl_accompanistEntitlementId v)) of
               (Some g, Some m) \<Rightarrow> Some \<lparr>sm_customerId = ac_customerId g, sm_membershipId = m,
                 sm_name = if_truthy (Some (ac_contactName g))\<rparr>
             | _ \<Rightarrow> None),
          sn_repertoire = vl_normalizedPieces v\<rparr>)"

definition capture_registration_snapshots ::
    "checkout_env \<Rightarrow> checkout_env \<Rightarrow> string \<Rightarrow> string \<Rightarrow> string \<Rightarrow> validated_line list \<Rightarrow> checkout_line list \<Rightarrow> validated_line list" where
  "capture_registration_snapshots cached env org currency captured vs lines =
     map (\<lambda>(v, line). v\<lparr>vl_registrationSnapshot := Some (registration_snapshot_of cached env org currency captured v line)\<rparr>)
       (zip vs lines)"

definition intent_line_of :: "string \<Rightarrow> nat \<Rightarrow> validated_line \<Rightarrow> intent_line_input" where
  "intent_line_of currency index v =
     (let c = vl_classConfig v
      in \<lparr>li_id = None, li_lineIndex = Some (int index), li_lineType = Some ''class_entry'', li_festivalClassId = Some (fc_id c),
          li_childId = Some (cl_id (vl_child v)), li_offeringId = None, li_shopifyProductGid = kx_shopifyProductGid c,
          li_shopifyVariantGid = kx_shopifyVariantGid c, li_amount = fc_price c, li_currencyCode = currency,
          li_divisionId = Some (fc_divisionId c),
          li_divisionNameSnapshot = Option.bind (vl_registrationSnapshot v) sn_divisionName\<rparr>)"

definition class_intent_input :: "start_input \<Rightarrow> validated_line list \<Rightarrow> string \<Rightarrow> string \<Rightarrow> create_intent_input" where
  "class_intent_input input vs currency expires =
     (let ls = map (\<lambda>(k, v). intent_line_of currency k v) (enumerate 0 vs); c = vl_classConfig (hd vs)
      in \<lparr>ni_organizationId = si_organizationId input, ni_customerId = si_customerId input, ni_sessionId = si_sessionId input,
          ni_idempotencyKey = si_idempotencyKey input, ni_intentType = Some ClassEntryIntent, ni_offeringId = None,
          ni_entitlementClass = None, ni_durationDays = None, ni_festivalClassId = Some (fc_id c),
          ni_childId = Some (cl_id (vl_child (hd vs))), ni_shopifyProductGid = kx_shopifyProductGid c,
          ni_shopifyVariantGid = kx_shopifyVariantGid c, ni_policyVersion = None, ni_divisionId = Some (fc_divisionId c),
          ni_divisionNameSnapshot = None, ni_staffAccessConsent = None,
          ni_amount = calculate_total_amount (map li_amount ls), ni_currencyCode = currency, ni_expiresAtIso = expires,
          ni_lines = Some ls\<rparr>)"

definition create_multi_line_intent ::
    "checkout_world \<Rightarrow> start_input \<Rightarrow> validated_line list \<Rightarrow> string \<Rightarrow> string \<Rightarrow> (checkout_run, intent_outcome) act" where
  "create_multi_line_intent w input vs currency expires =
     at_point w AtCreate (\<lambda>r. case create_intent (class_intent_input input vs currency expires) (wd_intentId w)
        (wd_correlationId w) (wd_lineIds w) (iso_now w AtCreate) r of (outcome, r') \<Rightarrow> (Inr outcome, r'))"

fun handle_outcome :: "intent_outcome \<Rightarrow> unit outcome" where
  "handle_outcome OutcomeInProgress = Inl (AppError ''Checkout is already in progress.'' 409 (Some ''checkout_in_progress''))"
| "handle_outcome OutcomeActive = Inl (AppError ''This checkout has already completed.'' 409 (Some ''checkout_already_completed''))"
| "handle_outcome OutcomeExpired = Inl (AppError ''Checkout has expired.'' 409 (Some ''checkout_expired''))"
| "handle_outcome OutcomeFailed = Inl (AppError ''This checkout attempt cannot continue.'' 409 (Some ''checkout_terminal_failure''))"
| "handle_outcome _ = Inr ()"

section \<open>The storefront\<close>

definition CHECKOUT_INTENT_LINE_ID_ATTRIBUTE_KEY :: string where
  "CHECKOUT_INTENT_LINE_ID_ATTRIBUTE_KEY = ''festival_checkout_intent_line_id''"

text \<open>The in-memory repository throws no database errors.\<close>

definition checkout_failure_error :: "app_error \<Rightarrow> app_error" where
  "checkout_failure_error e = retryable_checkout_error"

definition expected_lines :: "string \<Rightarrow> validated_line list \<Rightarrow> expected_line list" where
  "expected_lines currency vs = map (\<lambda>v. let c = vl_classConfig v in
     \<lparr>el_festivalClassId = fc_id c, el_childId = cl_id (vl_child v), el_shopifyProductGid = kx_shopifyProductGid c,
      el_shopifyVariantGid = kx_shopifyVariantGid c, el_amount = fc_price c, el_currencyCode = currency\<rparr>) vs"

definition line_metadata :: "string \<Rightarrow> string \<Rightarrow> checkout_intent \<Rightarrow> string \<Rightarrow> validated_line \<Rightarrow> intent_line \<Rightarrow> metadata_params" where
  "line_metadata org festival intent meta_id v l =
     \<lparr>mp_id = meta_id, mp_organizationId = org, mp_festivalId = festival, mp_checkoutIntentId = xi_id intent,
      mp_checkoutIntentLineId = Some (il_id l), mp_teacherMembershipId = vl_teacherEntitlementId v,
      mp_accompanistMembershipId = vl_accompanistEntitlementId v, mp_repertoireJson = vl_normalizedPieces v,
      mp_repertoireSnapshotPieces = Some (vl_normalizedPieces v), mp_registrationSnapshot = vl_registrationSnapshot v\<rparr>"

fun insert_all_registration_metadata ::
    "checkout_world \<Rightarrow> string \<Rightarrow> string \<Rightarrow> checkout_intent \<Rightarrow> nat \<Rightarrow> (validated_line \<times> intent_line) list \<Rightarrow> (checkout_run, unit) act" where
  "insert_all_registration_metadata w org festival intent k [] = act_return ()"
| "insert_all_registration_metadata w org festival intent k ((v, l) # rest) =
     act_bind (at_point w (AtMetadata k) (insert_registration_metadata
        (line_metadata org festival intent (wd_metadataIds w k) v l) (wd_itemIds w k) (iso_now w (AtMetadata k)))) (\<lambda>_.
     insert_all_registration_metadata w org festival intent (Suc k) rest)"

definition storefront_lines :: "validated_line list \<Rightarrow> intent_line list \<Rightarrow> cart_line list" where
  "storefront_lines vs ls = map (\<lambda>(v, l). \<lparr>cl_merchandiseId = kx_shopifyVariantGid (vl_classConfig v), cl_quantity = 1,
     cl_attributes = [(CHECKOUT_INTENT_LINE_ID_ATTRIBUTE_KEY, il_id l)]\<rparr>) (zip vs ls)"

definition send_cart :: "checkout_world \<Rightarrow> cart_request \<Rightarrow> (checkout_run, string) act" where
  "send_cart w q = (\<lambda>s. (wd_createCart w q, s\<lparr>ru_requests := ru_requests s @ [q]\<rparr>))"

text \<open>\<open>Number(version) || fallback\<close> for a version that is a number or a text of digits.\<close>

definition version_or :: "int \<Rightarrow> version_input \<Rightarrow> int" where
  "version_or fallback v =
     (case v of
        NoVersion \<Rightarrow> fallback
      | VersionNumber n \<Rightarrow> n
      | VersionText s \<Rightarrow>
          (case digits_value 0 (js_trim s) of None \<Rightarrow> fallback | Some n \<Rightarrow> if n = 0 then fallback else int n))"

definition capacity_check :: "checkout_env \<Rightarrow> string \<Rightarrow> string \<Rightarrow> validated_line list \<Rightarrow> app_error option" where
  "capacity_check env org festival vs =
     verify_post_cart_create_capacity_cutoff env org festival
       (map (\<lambda>v. (cl_id (vl_child v), fc_id (vl_classConfig v))) vs)"

definition attach_or_fail :: "checkout_world \<Rightarrow> attach_input \<Rightarrow> app_error option \<Rightarrow> (checkout_run, checkout_cart) act" where
  "attach_or_fail w input failure =
     act_catch (at_point w AtAttach (attach_cart input failure (wd_cartReference w) (iso_now w AtAttach)))
       (\<lambda>e. if error_code e = Some ''sold_out''
            then act_bind (at_point w AtSoldOut (\<lambda>r. (Inr (), mark_failed (at_intentId input) r))) (\<lambda>_. act_throw e)
            else act_throw e)"

definition started_checkout_url ::
    "checkout_world \<Rightarrow> checkout_env \<Rightarrow> string \<Rightarrow> checkout_intent \<Rightarrow> string \<Rightarrow> (checkout_run, checkout_result) act" where
  "started_checkout_url w loaded org intent cart_id =
     act_bind (at_point w AtStarted (mark_checkout_started (xi_id intent))) (\<lambda>_.
     act_bind (act_lift (wd_checkout w org cart_id)) (\<lambda>url.
     (case (en_integration loaded org, en_integration (wd_env w AtVerify) org) of
        (Some before, Some now) \<Rightarrow>
          if sy_integrationVersion now \<noteq> sy_integrationVersion before \<or>
             \<not> is_allowed_checkout_url (wd_parseUrl w) url (sy_storeDomain now)
          then act_throw checkout_unavailable
          else act_return \<lparr>rt_checkoutUrl = url, rt_intentId = xi_id intent, rt_correlationId = xi_correlationId intent,
                 rt_intent = intent\<rparr>
      | _ \<Rightarrow> act_throw checkout_unavailable)))"

definition create_and_verify_cart ::
    "checkout_world \<Rightarrow> start_input \<Rightarrow> string \<Rightarrow> eligibility_result list \<Rightarrow> checkout_intent \<Rightarrow> validated_line list
      \<Rightarrow> intent_line list \<Rightarrow> string \<Rightarrow> string \<Rightarrow> int \<Rightarrow> (checkout_run, checkout_result) act" where
  "create_and_verify_cart w input festival results intent vs ls currency expires version =
     (let org = si_organizationId input; loaded = wd_env w AtIntegration in
      act_bind (act_lift (guard (en_integration loaded org \<noteq> None) checkout_unavailable)) (\<lambda>_.
      act_bind (act_lift (require_registration_open (wd_env w AtWindow) (wd_now w AtWindow) org festival results)) (\<lambda>_.
      act_bind (send_cart w \<lparr>cq_organizationId = org, cq_shopifyVariantGid = kx_shopifyVariantGid (vl_classConfig (hd vs)),
          cq_lines = storefront_lines vs ls, cq_buyerAccessToken = si_buyerAccessToken input,
          cq_correlationId = xi_correlationId intent, cq_currencyCode = currency\<rparr>) (\<lambda>cart_id.
      act_bind (attach_or_fail w
          \<lparr>at_intentId = xi_id intent, at_shopifyCartId = cart_id, at_organizationId = org, at_customerId = si_customerId input,
           at_sessionId = si_sessionId input, at_integrationVersion = version_or version (si_integrationVersion input),
           at_expiresAtIso = expires\<rparr> (capacity_check (wd_env w AtAttach) org festival vs)) (\<lambda>cart.
      started_checkout_url w loaded org intent (kc_shopifyCartId cart))))))"

definition report_and_mark_failed :: "checkout_world \<Rightarrow> checkout_intent \<Rightarrow> app_error \<Rightarrow> (checkout_run, 'a) act" where
  "report_and_mark_failed w intent e =
     act_bind (at_point w AtFailed (\<lambda>r. (Inr (), mark_failed (xi_id intent) r))) (\<lambda>_.
     act_throw (if (case e of AppError _ _ _ \<Rightarrow> True | PlainError _ \<Rightarrow> False) \<and> error_code e = Some ''registration_closed''
       then e else checkout_failure_error e))"

definition passes_through :: "app_error \<Rightarrow> bool" where
  "passes_through e \<longleftrightarrow> (case e of AppError _ status code \<Rightarrow> status = 400 \<and> code \<noteq> Some ''registration_closed'' | PlainError _ \<Rightarrow> False)"

definition execute_storefront_checkout ::
    "checkout_world \<Rightarrow> start_input \<Rightarrow> string \<Rightarrow> eligibility_result list \<Rightarrow> checkout_intent \<Rightarrow> validated_line list
      \<Rightarrow> string \<Rightarrow> string \<Rightarrow> int \<Rightarrow> (checkout_run, checkout_result) act" where
  "execute_storefront_checkout w input festival results intent vs currency expires version =
     act_catch
       (act_bind (act_lift (require_class_checkout_intent_line_mapping (xi_id intent) (xi_lines intent)
            (expected_lines currency vs))) (\<lambda>ls.
        act_bind (insert_all_registration_metadata w (si_organizationId input) festival intent 0 (zip vs ls)) (\<lambda>_.
        create_and_verify_cart w input festival results intent vs ls currency expires version)))
       (\<lambda>e. if passes_through e then act_throw e else report_and_mark_failed w intent e)"

definition resume_checkout :: "checkout_world \<Rightarrow> checkout_intent \<Rightarrow> checkout_cart \<Rightarrow> string \<Rightarrow> (checkout_run, checkout_result) act" where
  "resume_checkout w intent cart org =
     act_catch
       (act_bind (act_lift (guard (en_integration (wd_env w AtIntegration) org \<noteq> None) checkout_unavailable)) (\<lambda>_.
        started_checkout_url w (wd_env w AtIntegration) org intent (kc_shopifyCartId cart)))
       (report_and_mark_failed w intent)"

section \<open>Starting a checkout\<close>

text \<open>What a validated request proposes to buy.\<close>

record checkout_plan =
  pl_festivalId :: string
  pl_currencyCode :: string
  pl_expiresAtIso :: string
  pl_results :: "eligibility_result list"
  pl_lines :: "validated_line list"

definition validate_request ::
    "checkout_world \<Rightarrow> start_input \<Rightarrow> (string \<times> checkout_line list \<times> validated_line list \<times> (string, checkout_class) js_map) outcome" where
  "validate_request w input =
     (let env = wd_env w AtValidate; org = si_organizationId input; named = trimmed (si_festivalShortName input) in
      and_then (case named of Some _ \<Rightarrow> Inr None
          | None \<Rightarrow> and_then (resolve_target_festival (en_festivals env org) (si_festivalId input) None) (\<lambda>f. Inr (Some f))) (\<lambda>target.
      and_then (normalize_line_items input) (\<lambda>lines.
      and_then (validate_lines env
          \<lparr>lc_organizationId = org, lc_customerId = si_customerId input, lc_targetFestival = target,
           lc_festivalShortName = named, lc_festivalId = si_festivalId input, lc_currentTime = wd_now w AtLookup,
           lc_divisionId = (if length lines = 1 then si_divisionId input else None)\<rparr> [] lines) (\<lambda>(vs, classes).
      let festival = (case target of Some f \<Rightarrow> fe_id f | None \<Rightarrow> fc_festivalId (vl_classConfig (hd vs)))
      in and_then (guard (\<not> (named \<noteq> None \<and> list_ex (\<lambda>v. fc_festivalId (vl_classConfig v) \<noteq> festival) vs))
            (AppError ''Festival class configuration not found.'' 404 None)) (\<lambda>_.
         Inr (festival, lines, vs, classes))))))"

definition plan_checkout :: "checkout_world \<Rightarrow> start_input \<Rightarrow> (checkout_run, checkout_plan) act" where
  "plan_checkout w input =
     (let org = si_organizationId input; start = wd_now w AtLookup in
      act_bind (act_lift (validate_request w input)) (\<lambda>(festival, lines, vs, classes).
      act_bind (at_point w AtProcessing (\<lambda>r.
         (guard (\<not> has_processing_intent org (si_customerId input) (to_iso start) r)
            (AppError ''Checkout is already in progress.'' 409 (Some ''checkout_in_progress'')), r))) (\<lambda>_.
      (case en_organizationCurrency (wd_env w AtProcessing) org of
         None \<Rightarrow> act_throw (AppError ''Organization was not found.'' 404 None)
       | Some own \<Rightarrow>
           (let currency = (if own = [] then ''USD'' else own) in
            act_bind (act_lift (check_eligibility (wd_env w AtEligibility) (wd_now w AtEligibility) org (si_customerId input)
               festival lines (map (\<lambda>l. (it_childId l, en_child (wd_env w AtValidate) org (si_customerId input) (it_childId l))) lines)
               classes)) (\<lambda>results.
            act_return \<lparr>pl_festivalId = festival, pl_currencyCode = currency, pl_expiresAtIso = to_iso (start + 30 * 60000),
              pl_results = results,
              pl_lines = capture_registration_snapshots (wd_env w AtValidate) (wd_env w AtSnapshot) org currency (to_iso start)
                vs lines\<rparr>))))))"

definition start_class_checkout :: "checkout_world \<Rightarrow> start_input \<Rightarrow> (checkout_run, checkout_result) act" where
  "start_class_checkout w input =
     (let org = si_organizationId input; start = wd_now w AtLookup in
      act_bind (act_lift (validate_session_and_customer (wd_env w AtLookup) start input)) (\<lambda>session.
      act_bind (at_point w AtLookup (\<lambda>r. (Inr (get_outcome org (si_customerId input) (si_sessionId input)
         (si_idempotencyKey input) (iso_now w AtLookup) r), r))) (\<lambda>existing.
      (case existing of
         Some (OutcomeReady intent cart) \<Rightarrow> resume_checkout w intent cart org
       | _ \<Rightarrow>
           act_bind (act_lift (case existing of Some outcome \<Rightarrow> handle_outcome outcome | None \<Rightarrow> Inr ())) (\<lambda>_.
           act_bind (plan_checkout w input) (\<lambda>plan.
           act_bind (create_multi_line_intent w input (pl_lines plan) (pl_currencyCode plan) (pl_expiresAtIso plan)) (\<lambda>outcome.
           (case outcome of
              OutcomeReady intent cart \<Rightarrow> resume_checkout w intent cart org
            | OutcomeCreated intent \<Rightarrow>
                execute_storefront_checkout w input (pl_festivalId plan) (pl_results plan) intent (pl_lines plan)
                  (pl_currencyCode plan) (pl_expiresAtIso plan)
                  (if ss_integrationVersion session = 0 then 1 else ss_integrationVersion session)
            | _ \<Rightarrow> act_bind (act_lift (handle_outcome outcome)) (\<lambda>_.
                act_throw (AppError ''Failed to create checkout intent.'' 500 None))))))))))"

section \<open>Lemmas\<close>

lemma at_point_iff:
  "at_point w p f s = (res, s') \<longleftrightarrow>
     (\<exists>r. f (wd_others w p (ru_repo s)) = (res, r) \<and> s' = s\<lparr>ru_repo := r\<rparr>)"
  by (auto simp: at_point_def split: prod.splits)

lemma report_throws: "report_and_mark_failed w intent e s = (Inr y, s') \<Longrightarrow> False"
  by (auto simp: report_and_mark_failed_def act_bind_def split: prod.splits sum.splits)

definition url_verified :: "checkout_world \<Rightarrow> string \<Rightarrow> string \<Rightarrow> bool" where
  "url_verified w org url \<longleftrightarrow>
     (\<exists>before now u. en_integration (wd_env w AtIntegration) org = Some before \<and> en_integration (wd_env w AtVerify) org = Some now \<and>
        sy_integrationVersion now = sy_integrationVersion before \<and> wd_parseUrl w url = Some u \<and> pu_protocol u = ''https:'' \<and>
        pu_hostname u = js_lower (sy_storeDomain now) \<and> pu_port u = [])"

lemma started_url:
  assumes "started_checkout_url w (wd_env w AtIntegration) org intent cart s = (Inr res, s')"
  shows "url_verified w org (rt_checkoutUrl res) \<and> rt_intent res = intent \<and> rt_intentId res = xi_id intent \<and>
    (\<exists>i. js_get (cr_intents (ru_repo s')) (rt_intentId res) = Some i \<and> xi_status i = IntentStarted)"
proof -
  from assms obtain u s1 url where start: "at_point w AtStarted (mark_checkout_started (xi_id intent)) s = (Inr u, s1)"
    and url: "wd_checkout w org cart = Inr url"
    and last: "(case (en_integration (wd_env w AtIntegration) org, en_integration (wd_env w AtVerify) org) of
        (Some before, Some now) \<Rightarrow>
          if sy_integrationVersion now \<noteq> sy_integrationVersion before \<or>
             \<not> is_allowed_checkout_url (wd_parseUrl w) url (sy_storeDomain now)
          then act_throw checkout_unavailable
          else act_return \<lparr>rt_checkoutUrl = url, rt_intentId = xi_id intent, rt_correlationId = xi_correlationId intent,
                 rt_intent = intent\<rparr>
      | _ \<Rightarrow> act_throw checkout_unavailable) s1 = (Inr res, s')"
    by (auto simp: started_checkout_url_def act_bind_eq_Inr)
  from last have "s' = s1" "res = \<lparr>rt_checkoutUrl = url, rt_intentId = xi_id intent, rt_correlationId = xi_correlationId intent,
      rt_intent = intent\<rparr>" "url_verified w org url"
    by (auto simp: url_verified_def is_allowed_checkout_url_def split: option.splits if_splits)
  moreover from start have "\<exists>i. js_get (cr_intents (ru_repo s1)) (xi_id intent) = Some i \<and> xi_status i = IntentStarted"
    by (auto simp: at_point_iff dest: mark_started_status)
  ultimately show ?thesis by simp
qed

lemma resume_url:
  assumes "resume_checkout w intent cart org s = (Inr res, s')"
  shows "url_verified w org (rt_checkoutUrl res) \<and> rt_intent res = intent \<and> rt_intentId res = xi_id intent \<and>
    (\<exists>i. js_get (cr_intents (ru_repo s')) (rt_intentId res) = Some i \<and> xi_status i = IntentStarted)"
proof -
  from assms have "act_bind (act_lift (guard (en_integration (wd_env w AtIntegration) org \<noteq> None) checkout_unavailable)) (\<lambda>_.
        started_checkout_url w (wd_env w AtIntegration) org intent (kc_shopifyCartId cart)) s = (Inr res, s')"
    unfolding resume_checkout_def by (rule act_catch_Inr) (rule report_throws)
  then show ?thesis by (auto simp: act_bind_eq_Inr dest: started_url)
qed

lemma execute_returns:
  assumes "execute_storefront_checkout w input festival results intent vs currency expires version s = (Inr res, s')"
  obtains ls s1 where "require_class_checkout_intent_line_mapping (xi_id intent) (xi_lines intent) (expected_lines currency vs) = Inr ls"
    and "insert_all_registration_metadata w (si_organizationId input) festival intent 0 (zip vs ls) s = (Inr (), s1)"
    and "create_and_verify_cart w input festival results intent vs ls currency expires version s1 = (Inr res, s')"
proof -
  from assms have "act_bind (act_lift (require_class_checkout_intent_line_mapping (xi_id intent) (xi_lines intent)
            (expected_lines currency vs))) (\<lambda>ls.
        act_bind (insert_all_registration_metadata w (si_organizationId input) festival intent 0 (zip vs ls)) (\<lambda>_.
        create_and_verify_cart w input festival results intent vs ls currency expires version)) s = (Inr res, s')"
    unfolding execute_storefront_checkout_def
    by (rule act_catch_Inr) (auto split: if_splits dest: report_throws)
  with that show ?thesis by (auto simp: act_bind_eq_Inr)
qed

lemma create_and_verify_url:
  assumes "create_and_verify_cart w input festival results intent vs ls currency expires version s = (Inr res, s')"
  shows "url_verified w (si_organizationId input) (rt_checkoutUrl res) \<and> rt_intent res = intent \<and> rt_intentId res = xi_id intent \<and>
    (\<exists>i. js_get (cr_intents (ru_repo s')) (rt_intentId res) = Some i \<and> xi_status i = IntentStarted)"
  using assms by (auto simp: create_and_verify_cart_def Let_def act_bind_eq_Inr dest: started_url)

lemma at_point_requests: "at_point w p f s = (res, s') \<Longrightarrow> ru_requests s' = ru_requests s"
  by (auto simp: at_point_iff)

lemma plan_requests:
  assumes "plan_checkout w input s = (res, s')"
  shows "ru_requests s' = ru_requests s"
  using assms
  by (auto simp: plan_checkout_def Let_def elim!: act_bind_cases split: prod.splits option.splits simp: at_point_iff)

lemma create_intent_requests:
  "create_multi_line_intent w input vs currency expires s = (res, s') \<Longrightarrow> ru_requests s' = ru_requests s"
  unfolding create_multi_line_intent_def by (rule at_point_requests)

lemma insert_all_requests:
  "insert_all_registration_metadata w org festival intent k rest s = (res, s') \<Longrightarrow> ru_requests s' = ru_requests s"
  by (induction rest arbitrary: k s) (auto elim!: act_bind_cases simp: at_point_iff)

lemma report_requests:
  "report_and_mark_failed w intent e s = (res, s') \<Longrightarrow> ru_requests s' = ru_requests s"
  by (auto simp: report_and_mark_failed_def at_point_iff elim!: act_bind_cases)

lemma attach_requests: "attach_or_fail w input failure s = (res, s') \<Longrightarrow> ru_requests s' = ru_requests s"
  by (auto simp: attach_or_fail_def act_catch_def at_point_iff elim!: act_bind_cases split: prod.splits sum.splits if_splits)

lemma started_requests:
  "started_checkout_url w loaded org intent cart s = (res, s') \<Longrightarrow> ru_requests s' = ru_requests s"
  by (auto simp: started_checkout_url_def at_point_iff elim!: act_bind_cases split: option.splits if_splits)

lemma act_catch_requests:
  assumes "act_catch m h s = (res, s')"
    and "\<And>r t. m s = (r, t) \<Longrightarrow> ru_requests t = ru_requests s"
    and "\<And>e r t t'. h e t = (r, t') \<Longrightarrow> ru_requests t' = ru_requests t"
  shows "ru_requests s' = ru_requests s"
  using assms by (auto simp: act_catch_def split: prod.splits sum.splits)

lemma resume_requests:
  assumes "resume_checkout w intent cart org s = (res, s')"
  shows "ru_requests s' = ru_requests s"
  by (rule act_catch_requests [OF assms [unfolded resume_checkout_def]])
    (auto elim!: act_bind_cases dest: started_requests report_requests)

lemma start_cases:
  assumes "start_class_checkout w input s = (res, s')"
  obtains (rejected) e where "res = Inl e" "ru_requests s' = ru_requests s"
    | (resumed) intent cart s1 where "resume_checkout w intent cart (si_organizationId input) s1 = (res, s')"
        "ru_requests s1 = ru_requests s"
    | (executed) plan intent version s1 s2 s3 where "plan_checkout w input s1 = (Inr plan, s2)"
        "create_multi_line_intent w input (pl_lines plan) (pl_currencyCode plan) (pl_expiresAtIso plan) s2
           = (Inr (OutcomeCreated intent), s3)"
        "execute_storefront_checkout w input (pl_festivalId plan) (pl_results plan) intent (pl_lines plan)
           (pl_currencyCode plan) (pl_expiresAtIso plan) version s3 = (res, s')"
        "ru_requests s3 = ru_requests s"
proof -
  let ?org = "si_organizationId input"
  let ?new = "\<lambda>session plan outcome. case outcome of
              OutcomeReady intent cart \<Rightarrow> resume_checkout w intent cart ?org
            | OutcomeCreated intent \<Rightarrow>
                execute_storefront_checkout w input (pl_festivalId plan) (pl_results plan) intent (pl_lines plan)
                  (pl_currencyCode plan) (pl_expiresAtIso plan)
                  (if ss_integrationVersion session = 0 then 1 else ss_integrationVersion session)
            | _ \<Rightarrow> act_bind (act_lift (handle_outcome outcome)) (\<lambda>_.
                act_throw (AppError ''Failed to create checkout intent.'' 500 None))"
  let ?fresh = "\<lambda>session existing. act_bind (act_lift (case existing of Some outcome \<Rightarrow> handle_outcome outcome | None \<Rightarrow> Inr ())) (\<lambda>_.
           act_bind (plan_checkout w input) (\<lambda>plan.
           act_bind (create_multi_line_intent w input (pl_lines plan) (pl_currencyCode plan) (pl_expiresAtIso plan))
             (?new session plan)))"
  have fresh: thesis if run: "?fresh session existing s1 = (res, s')" and q: "ru_requests s1 = ru_requests s" for session existing s1
    using run
  proof (cases rule: act_bind_cases)
    case (thrown e)
    with q show ?thesis by (intro rejected [of e]) auto
  next
    case (returned u s2)
    then have s2: "s2 = s1" by simp
    from returned(2) show ?thesis
    proof (cases rule: act_bind_cases)
      case (thrown e)
      with q s2 show ?thesis by (intro rejected [of e]) (simp_all add: plan_requests [OF thrown(1)])
    next
      case (returned plan s3)
      note plan = returned(1)
      then have q3: "ru_requests s3 = ru_requests s" using q s2 plan_requests [OF returned(1)] by simp
      from returned(2) show ?thesis
      proof (cases rule: act_bind_cases)
        case (thrown e)
        with q3 show ?thesis by (intro rejected [of e]) (simp_all add: create_intent_requests [OF thrown(1)])
      next
        case (returned outcome s4)
        then have q4: "ru_requests s4 = ru_requests s" using q3 create_intent_requests [OF returned(1)] by simp
        have other: thesis if "act_bind (act_lift (handle_outcome outcome)) (\<lambda>_.
            act_throw (AppError ''Failed to create checkout intent.'' 500 None)) s4 = (res, s')"
          using that q4 by (cases rule: act_bind_cases) (auto intro: rejected)
        show ?thesis
        proof (cases outcome)
          case (OutcomeReady intent cart)
          with returned(2) q4 show ?thesis by (intro resumed [of intent cart s4]) simp_all
        next
          case (OutcomeCreated intent)
          show ?thesis by (rule executed [OF plan returned(1) [unfolded OutcomeCreated] _ q4]) (use returned(2) OutcomeCreated in simp)
        qed (use returned(2) other in simp_all)
      qed
    qed
  qed
  from assms have "act_bind (act_lift (validate_session_and_customer (wd_env w AtLookup) (wd_now w AtLookup) input)) (\<lambda>session.
      act_bind (at_point w AtLookup (\<lambda>r. (Inr (get_outcome ?org (si_customerId input) (si_sessionId input)
         (si_idempotencyKey input) (iso_now w AtLookup) r), r))) (\<lambda>existing.
      (case existing of Some (OutcomeReady intent cart) \<Rightarrow> resume_checkout w intent cart ?org | _ \<Rightarrow> ?fresh session existing))) s
      = (res, s')"
    unfolding start_class_checkout_def Let_def .
  then show thesis
  proof (cases rule: act_bind_cases)
    case (thrown e)
    then show ?thesis by (intro rejected [of e]) auto
  next
    case (returned session s1)
    then have s1: "s1 = s" by simp
    from returned(2) show ?thesis
    proof (cases rule: act_bind_cases)
      case (thrown e)
      with s1 show ?thesis by (intro rejected [of e]) (simp_all add: at_point_requests [OF thrown(1)])
    next
      case (returned existing s2)
      then have q2: "ru_requests s2 = ru_requests s" using s1 at_point_requests [OF returned(1)] by simp
      show ?thesis
      proof (cases "\<exists>intent cart. existing = Some (OutcomeReady intent cart)")
        case True
        with returned(2) q2 show ?thesis by (auto intro: resumed)
      next
        case False
        then have "?fresh session existing s2 = (res, s')"
        proof (cases existing)
          case None
          with returned(2) show ?thesis by (simp only: option.case)
        next
          case (Some outcome)
          with returned(2) False show ?thesis by (cases outcome) (simp_all only: option.case intent_outcome.case, blast)
        qed
        then show ?thesis using q2 by (rule fresh)
      qed
    qed
  qed
qed

text \<open>What stops a checkout after its intent was created.\<close>

lemma verify_cutoff_error:
  "verify_post_cart_create_capacity_cutoff env org festival ls = Some e \<Longrightarrow> \<exists>m. e = AppError m 400 (Some ''sold_out'')"
  by (auto simp: verify_post_cart_create_capacity_cutoff_def Let_def split: list.splits)

lemma attach_cart_error:
  assumes "attach_cart input failure reference now r = (Inl e, r')"
  shows "failure = Some e \<or> (\<exists>m. e = PlainError m)"
  using assms by (auto simp: attach_cart_def Let_def split: option.splits if_splits)

lemma attach_fails:
  assumes "attach_or_fail w input (capacity_check env org festival vs) s = (Inl e, s')"
  shows "(\<exists>m. e = PlainError m) \<or>
    (error_code e = Some ''sold_out'' \<and> passes_through e \<and>
     (\<forall>i. js_get (cr_intents (ru_repo s')) (at_intentId input) = Some i \<longrightarrow> xi_status i = IntentFailed))"
proof -
  obtain e' t where e': "at_point w AtAttach (attach_cart input (capacity_check env org festival vs)
      (wd_cartReference w) (iso_now w AtAttach)) s = (Inl e', t)"
    and h: "(if error_code e' = Some ''sold_out''
        then act_bind (at_point w AtSoldOut (\<lambda>r. (Inr (), mark_failed (at_intentId input) r))) (\<lambda>_. act_throw e')
        else act_throw e') t = ((Inl e :: checkout_cart outcome), s')"
    by (rule act_catch_Inl [OF assms [unfolded attach_or_fail_def]]) (erule (1) that)
  from e' have "capacity_check env org festival vs = Some e' \<or> (\<exists>m. e' = PlainError m)"
    by (auto simp: at_point_iff dest: attach_cart_error)
  then show ?thesis
  proof
    assume "capacity_check env org festival vs = Some e'"
    then obtain m where m: "e' = AppError m 400 (Some ''sold_out'')"
      unfolding capacity_check_def by (auto dest: verify_cutoff_error)
    with h have "e = e'" "\<exists>r. ru_repo s' = mark_failed (at_intentId input) r"
      by (auto simp: error_code_def at_point_iff elim!: act_bind_cases)
    with m show ?thesis by (auto simp: error_code_def passes_through_def dest: mark_failed_status)
  next
    assume "\<exists>m. e' = PlainError m"
    with h show ?thesis by (auto simp: error_code_def)
  qed
qed

lemma closed_rejection:
  assumes "results \<noteq> []"
  shows "\<exists>m. build_eligibility_rejection_error (map (\<lambda>r. r\<lparr>er_eligible := False, er_isEligible := False,
          er_reasonCode := REGISTRATION_CLOSED, er_message := msg\<rparr>) results) = AppError m 400 (Some ''registration_closed'')"
proof -
  obtain r rs where "results = r # rs" using assms by (cases results) auto
  moreover have "js_lower ''REGISTRATION_CLOSED'' = ''registration_closed''" by code_simp
  ultimately show ?thesis by (simp add: build_eligibility_rejection_error_def primary_failure_def)
qed

lemma create_and_verify_fails:
  assumes "create_and_verify_cart w input festival results intent vs ls currency expires version s = (Inl e, s')"
    and "\<And>q e. wd_createCart w q = Inl e \<Longrightarrow> \<not> passes_through e" "\<And>org c e. wd_checkout w org c = Inl e \<Longrightarrow> \<not> passes_through e"
    and "results \<noteq> []"
  shows "\<not> passes_through e \<or> (error_code e = Some ''sold_out'' \<and>
     (\<forall>i. js_get (cr_intents (ru_repo s')) (xi_id intent) = Some i \<longrightarrow> xi_status i = IntentFailed))"
proof -
  have plain: "\<not> passes_through (PlainError m)" for m by (simp add: passes_through_def)
  have unavailable: "\<not> passes_through checkout_unavailable" by (simp add: passes_through_def checkout_unavailable_def)
  have closed: "\<not> passes_through e" if "require_registration_open env now org f results = Inl e" for env now org f e
    using that closed_rejection [OF assms(4), of "''Registration is closed for this festival.''"]
    by (auto simp: require_registration_open_def and_then_eq_Inl resolve_target_festival_def passes_through_def Let_def
        split: option.splits)
  have started: "\<not> passes_through e" if "started_checkout_url w loaded org intent c s = (Inl e, s')" for loaded org c s
    using that plain unavailable assms(3)
    by (auto simp: started_checkout_url_def at_point_iff mark_checkout_started_def elim!: act_bind_cases
        split: option.splits if_splits)
  have sent: "\<not> passes_through e" if "send_cart w q s = (Inl e, s')" for q s
    using that assms(2) [of q e] by (auto simp: send_cart_def)
  let ?att = "\<lambda>c. \<lparr>at_intentId = xi_id intent, at_shopifyCartId = c, at_organizationId = si_organizationId input, at_customerId = si_customerId input,
           at_sessionId = si_sessionId input, at_integrationVersion = version_or version (si_integrationVersion input),
           at_expiresAtIso = expires\<rparr>"
  from assms(1) show ?thesis
    unfolding create_and_verify_cart_def Let_def
    apply (elim act_bind_cases)
         apply (use unavailable in simp)
        apply (use closed in simp)
       apply (use sent in simp)
      subgoal for x sa y sb c sc
        using attach_fails [where input = "?att c"] plain by fastforce
    subgoal using started by simp
    done
qed

section \<open>The persisted lines\<close>

definition line_accepted :: "string \<Rightarrow> expected_line list \<Rightarrow> int \<Rightarrow> intent_line \<Rightarrow> bool" where
  "line_accepted intent_id es k l \<longleftrightarrow> 0 \<le> k \<and> k < int (length es) \<and> il_lineIndex l = k \<and>
     il_checkoutIntentId l = intent_id \<and> is_canonical_uuid (il_id l) \<and> line_matches (es ! nat k) l"

definition lines_collected :: "string \<Rightarrow> expected_line list \<Rightarrow> (int, intent_line) js_map \<Rightarrow> string list \<Rightarrow> bool" where
  "lines_collected intent_id es m seen \<longleftrightarrow>
     (\<forall>k l. js_get m k = Some l \<longrightarrow> line_accepted intent_id es k l \<and> il_id l \<in> set seen) \<and>
     (\<forall>j k l l'. js_get m j = Some l \<longrightarrow> js_get m k = Some l' \<longrightarrow> il_id l = il_id l' \<longrightarrow> j = k)"

lemma collect_lines_correct:
  assumes "collect_lines intent_id es m seen ls = Inr m'" "lines_collected intent_id es m seen"
  shows "\<exists>seen'. lines_collected intent_id es m' seen' \<and>
    (\<forall>k l. js_get m' k = Some l \<longrightarrow> js_get m k = Some l \<or> l \<in> set ls)"
  using assms
proof (induction ls arbitrary: m seen)
  case (Cons l ls)
  let ?m = "js_set (il_lineIndex l) l m"
  from Cons.prems(1) have new: "line_accepted intent_id es (il_lineIndex l) l" "il_id l \<notin> set seen"
    and rest: "collect_lines intent_id es ?m (seen @ [il_id l]) ls = Inr m'"
    by (auto simp: line_accepted_def split: if_splits)
  have "lines_collected intent_id es ?m (seen @ [il_id l])"
    using Cons.prems(2) new by (auto simp: lines_collected_def) metis+
  from Cons.IH [OF rest this] obtain seen' where "lines_collected intent_id es m' seen'"
    "\<forall>k x. js_get m' k = Some x \<longrightarrow> js_get ?m k = Some x \<or> x \<in> set ls" by blast
  then show ?case by (auto split: if_splits)
qed auto

lemma lines_in_order_correct:
  "lines_in_order m ks = Inr ls \<Longrightarrow> length ls = length ks \<and> (\<forall>k < length ks. js_get m (ks ! k) = Some (ls ! k))"
  by (induction ks arbitrary: ls) (auto simp: and_then_eq_Inr nth_Cons' split: option.splits)

text \<open>The mapping returns persisted lines of the intent in the order of the request, one for each expected line.\<close>

lemma line_mapping_correct:
  assumes "require_class_checkout_intent_line_mapping intent_id ls es = Inr ls'"
  shows "length ls' = length es" "k < length es \<Longrightarrow> ls' ! k \<in> set ls \<and> line_accepted intent_id es (int k) (ls' ! k)"
    and "distinct (map il_id ls')"
proof -
  from assms obtain m where m: "collect_lines intent_id es [] [] ls = Inr m" "lines_in_order m (map int [0..<length es]) = Inr ls'"
    by (auto simp: require_class_checkout_intent_line_mapping_def and_then_eq_Inr split: if_splits)
  have "lines_collected intent_id es [] []" by (simp add: lines_collected_def)
  from collect_lines_correct [OF m(1) this] obtain seen where c: "lines_collected intent_id es m seen"
    "\<forall>k l. js_get m k = Some l \<longrightarrow> l \<in> set ls" by auto
  have o: "length ls' = length es" "\<And>k. k < length es \<Longrightarrow> js_get m (int k) = Some (ls' ! k)"
    using lines_in_order_correct [OF m(2)] by auto
  show "length ls' = length es" by (rule o(1))
  show "ls' ! k \<in> set ls \<and> line_accepted intent_id es (int k) (ls' ! k)" if "k < length es"
    using o(2) [OF that] c by (auto simp: lines_collected_def)
  show "distinct (map il_id ls')"
    unfolding distinct_conv_nth
  proof (intro allI impI)
    fix i j assume ij: "i < length (map il_id ls')" "j < length (map il_id ls')" "i \<noteq> j"
    then have "js_get m (int i) = Some (ls' ! i)" "js_get m (int j) = Some (ls' ! j)" using o by simp_all
    moreover have "int i \<noteq> int j" using ij(3) by simp
    ultimately have "il_id (ls' ! i) \<noteq> il_id (ls' ! j)" using c(1) unfolding lines_collected_def by blast
    with ij show "map il_id ls' ! i \<noteq> map il_id ls' ! j" by simp
  qed
qed

lemma mapping_error:
  assumes "require_class_checkout_intent_line_mapping intent_id ls es = Inl e"
  shows "\<exists>m. e = PlainError m"
proof -
  have collect: "\<exists>m. e = PlainError m" if "collect_lines intent_id es m seen ls = Inl e" for m seen
    using that by (induction ls arbitrary: m seen) (auto split: if_splits)
  have order: "\<exists>m. e = PlainError m" if "lines_in_order m ks = Inl e" for m ks
    using that by (induction ks) (auto simp: and_then_eq_Inl split: option.splits)
  show ?thesis using assms collect order
    by (auto simp: require_class_checkout_intent_line_mapping_def and_then_eq_Inl split: if_splits)
qed

lemma metadata_conflict_error: "metadata_conflict p ms = Some e \<Longrightarrow> \<exists>m. e = PlainError m"
  by (induction ms) (auto split: if_splits)

lemma insert_all_error:
  assumes "insert_all_registration_metadata w org festival intent k rest s = (Inl e, s')"
  shows "\<exists>m. e = PlainError m"
  using assms
proof (induction rest arbitrary: k s)
  case (Cons vl rest)
  obtain v l where "vl = (v, l)" by (cases vl)
  with Cons show ?case
    by (auto simp: at_point_iff insert_registration_metadata_def Let_def elim!: act_bind_cases split: option.splits
        dest: metadata_conflict_error)
qed simp

text \<open>What a plan stands for.\<close>

lemma validate_lines_length: "validate_lines env ctx classes ls = Inr (vs, classes') \<Longrightarrow> length vs = length ls"
  by (induction ls arbitrary: classes vs) (auto simp: and_then_eq_Inr)

lemma validate_request_lines:
  assumes "validate_request w input = Inr (festival, lines, vs, classes)"
  shows "normalize_line_items input = Inr lines \<and> length vs = length lines"
  using assms by (auto simp: validate_request_def Let_def and_then_eq_Inr dest: validate_lines_length)

definition proposed_items :: "checkout_line list \<Rightarrow> line_item list" where
  "proposed_items lines = map (\<lambda>l. strip_candidate_marker (line_item.truncate l)) lines"

text \<open>
  The purchase that the check judges: the proposed items in cart mode, for the organization and the
  festival, with the classes that validation resolved, those of other items and of the children's
  confirmed registrations read in addition, the subtypes of the organization, and the entitlements
  on record for these classes and children.
\<close>

definition judged_purchase ::
    "checkout_env \<Rightarrow> int \<Rightarrow> string \<Rightarrow> festival_record \<Rightarrow> (string, checkout_class) js_map \<Rightarrow> line_item list \<Rightarrow> eligibility_input" where
  "judged_purchase env now org f classes items =
     (let class_ids = js_uniq (map it_festivalClassId items);
          missing = filter (\<lambda>c. js_get classes c = None) class_ids;
          known = (if missing = [] then classes else add_classes (en_classesByIds env org (fe_id f) missing) classes);
          (entitlements, all_classes) =
            load_targeted_entitlements env org (fe_id f) class_ids (js_uniq (map it_childId items)) known
      in \<lparr>ei_organizationId = org, ei_festivalId = fe_id f, ei_items = items,
          ei_classes = ClassMap (map (\<lambda>(k, c). (k, class_config.truncate c)) all_classes),
          ei_subtypes = map catalog_value.truncate (en_catalogValues env org ''class_subtype'' None),
          ei_activeEntitlements = entitlements,
          ei_isRegistrationOpen = Some (is_festival_registration_open (en_zones env) (fe_window f) now (en_timezone env org)),
          ei_mode = Some CartMode\<rparr>)"

lemma eligible_response:
  assumes "evaluate_eligibility env now q None children classes = Inr response" "rs_isEligible response"
    and "eq_mode q = Some CartMode"
  shows "\<exists>f. resolve_target_festival (en_festivals env (eq_organizationId q)) (eq_festivalId q) (eq_festivalShortName q) = Inr f \<and>
    response = evaluate_purchase_eligibility (judged_purchase env now (eq_organizationId q) f classes (eq_items q)) \<and>
    is_festival_registration_open (en_zones env) (fe_window f) now (en_timezone env (eq_organizationId q))"
proof -
  let ?org = "eq_organizationId q"
  from assms(1) obtain f where f: "resolve_target_festival (en_festivals env ?org) (eq_festivalId q) (eq_festivalShortName q) = Inr f"
    and r: "response = evaluate_purchase_eligibility (judged_purchase env now ?org f classes (eq_items q))"
    unfolding evaluate_eligibility_def judged_purchase_def Let_def split_def assms(3) option.case
    by (auto simp only: and_then_eq_Inr sum.inject)
  moreover have "is_festival_registration_open (en_zones env) (fe_window f) now (en_timezone env ?org)"
    using assms(2) r
    by (simp add: evaluate_purchase_eligibility_def evaluate_cart_purchase_eligibility_def base_ctx_def judged_purchase_def Let_def split_def)
  ultimately show ?thesis by blast
qed

lemma plan_eligible:
  assumes "plan_checkout w input s = (Inr plan, s')"
  shows "\<exists>lines vs classes f. validate_request w input = Inr (pl_festivalId plan, lines, vs, classes) \<and>
    normalize_line_items input = Inr lines \<and> length (pl_lines plan) = length lines \<and>
    map vl_classConfig (pl_lines plan) = map vl_classConfig vs \<and>
    resolve_target_festival (en_festivals (wd_env w AtEligibility) (si_organizationId input)) (Some (pl_festivalId plan)) None = Inr f \<and>
    is_festival_registration_open (en_zones (wd_env w AtEligibility)) (fe_window f) (wd_now w AtEligibility)
      (en_timezone (wd_env w AtEligibility) (si_organizationId input)) \<and>
    rs_isEligible (evaluate_purchase_eligibility (judged_purchase (wd_env w AtEligibility) (wd_now w AtEligibility)
      (si_organizationId input) f classes (proposed_items lines)))"
proof -
  let ?org = "si_organizationId input"
  from assms obtain festival lines vs classes children results currency captured where
    v: "validate_request w input = Inr (festival, lines, vs, classes)"
    and c: "check_eligibility (wd_env w AtEligibility) (wd_now w AtEligibility) ?org (si_customerId input) festival lines children classes
      = Inr results"
    and p: "pl_festivalId plan = festival"
      "pl_lines plan = capture_registration_snapshots (wd_env w AtValidate) (wd_env w AtSnapshot) ?org currency captured vs lines"
    unfolding plan_checkout_def Let_def by (auto simp: act_bind_eq_Inr at_point_iff split: option.splits prod.splits)
  from c obtain response where response: "rs_isEligible response"
    "evaluate_eligibility (wd_env w AtEligibility) (wd_now w AtEligibility)
        \<lparr>eq_organizationId = ?org, eq_customerId = si_customerId input, eq_festivalId = Some festival, eq_festivalShortName = None,
         eq_items = proposed_items lines, eq_mode = Some CartMode\<rparr> None children classes = Inr response"
    unfolding check_eligibility_def proposed_items_def by (auto simp: and_then_eq_Inr split: if_splits)
  from eligible_response [OF response(2,1)] obtain f where
    f: "resolve_target_festival (en_festivals (wd_env w AtEligibility) ?org) (Some festival) None = Inr f"
      "is_festival_registration_open (en_zones (wd_env w AtEligibility)) (fe_window f) (wd_now w AtEligibility)
         (en_timezone (wd_env w AtEligibility) ?org)"
    and r: "response = evaluate_purchase_eligibility (judged_purchase (wd_env w AtEligibility) (wd_now w AtEligibility) ?org f classes (proposed_items lines))"
    by auto
  note same = validate_request_lines [OF v]
  have "map vl_classConfig (pl_lines plan) = map vl_classConfig vs"
    unfolding p(2) capture_registration_snapshots_def using same by (intro nth_equalityI) (simp_all add: split_def)
  then show ?thesis
    by (intro exI [of _ lines] exI [of _ vs] exI [of _ classes] exI [of _ f])
      (use same v p f r response(1) in \<open>simp add: capture_registration_snapshots_def\<close>)
qed

lemma window_open_when_sent:
  assumes "execute_storefront_checkout w input festival results intent vs currency expires version s = (res, s')"
    and "ru_requests s' \<noteq> ru_requests s"
  shows "\<exists>f. resolve_target_festival (en_festivals (wd_env w AtWindow) (si_organizationId input)) (Some festival) None = Inr f \<and>
    is_festival_registration_open (en_zones (wd_env w AtWindow)) (fe_window f) (wd_now w AtWindow)
      (en_timezone (wd_env w AtWindow) (si_organizationId input))"
proof -
  have "require_registration_open (wd_env w AtWindow) (wd_now w AtWindow) (si_organizationId input) festival results = Inr ()"
  proof (rule ccontr)
    assume closed: "\<not> ?thesis"
    have cart: "ru_requests t = ru_requests s" if "create_and_verify_cart w input festival results intent vs ls currency expires version s = (r, t)"
      for ls s r t
      using that closed unfolding create_and_verify_cart_def Let_def by (auto elim!: act_bind_cases)
    have "ru_requests s' = ru_requests s"
      by (rule act_catch_requests [OF assms(1) [unfolded execute_storefront_checkout_def]])
        (auto elim!: act_bind_cases dest: insert_all_requests report_requests split: if_splits, metis insert_all_requests cart)
    with assms(2) show False by simp
  qed
  then show ?thesis by (auto simp: require_registration_open_def and_then_eq_Inr)
qed

lemma attached_when_returned:
  assumes "create_and_verify_cart w input festival results intent vs ls currency expires version s = (Inr res, s')"
  shows "capacity_check (wd_env w AtAttach) (si_organizationId input) festival vs = None"
proof -
  have "failure = None" if "attach_or_fail w i failure s = (Inr c, t)" for i failure s c t
    using that by (auto simp: attach_or_fail_def act_catch_def at_point_iff attach_cart_def elim!: act_bind_cases
        split: option.splits prod.splits sum.splits if_splits)
  with assms show ?thesis unfolding create_and_verify_cart_def Let_def by (auto simp: act_bind_eq_Inr)
qed

section \<open>Properties\<close>

text \<open>
  A checkout URL is handed out only for a started checkout on the store's own domain.  Whatever
  other requests do to the repository between the steps, a request that returns, new or resumed,
  returns an HTTPS URL without a port on the store domain of the organization's integration, whose
  version did not change since it was loaded; and the checkout intent it names is marked started.
\<close>
theorem checkout_url_of_started_intent:
  assumes "start_class_checkout w input s = (Inr res, s')"
  shows "(\<exists>before now u. en_integration (wd_env w AtIntegration) (si_organizationId input) = Some before \<and>
      en_integration (wd_env w AtVerify) (si_organizationId input) = Some now \<and>
      sy_integrationVersion now = sy_integrationVersion before \<and> wd_parseUrl w (rt_checkoutUrl res) = Some u \<and>
      pu_protocol u = ''https:'' \<and> pu_hostname u = js_lower (sy_storeDomain now) \<and> pu_port u = []) \<and>
    rt_intentId res = xi_id (rt_intent res) \<and>
    (\<exists>i. js_get (cr_intents (ru_repo s')) (rt_intentId res) = Some i \<and> xi_status i = IntentStarted)"
  using assms
proof (cases rule: start_cases)
  case (resumed intent cart s1)
  from resume_url [OF this(1)] show ?thesis by (auto simp: url_verified_def)
next
  case (executed plan intent version s1 s2 s3)
  from executed(3) obtain ls s4 where "create_and_verify_cart w input (pl_festivalId plan) (pl_results plan) intent
      (pl_lines plan) ls (pl_currencyCode plan) (pl_expiresAtIso plan) version s4 = (Inr res, s')"
    by (rule execute_returns)
  from create_and_verify_url [OF this] show ?thesis by (auto simp: url_verified_def)
qed simp

text \<open>
  Every cart line names the persisted line it pays for.  When a new checkout sends a cart to
  the storefront it sends one, with one line per validated line and in their order; each carries
  the variant of the class and, as its only attribute, the ID of a line of the intent that has the
  class, the child and the price of the validated line.  The IDs are canonical and distinct.
\<close>
theorem cart_lines_name_persisted_lines:
  assumes "execute_storefront_checkout w input festival results intent vs currency expires version s = (res, s')"
    and "ru_requests s' \<noteq> ru_requests s"
  shows "\<exists>q ls. ru_requests s' = ru_requests s @ [q] \<and> length (cq_lines q) = length vs \<and> length ls = length vs \<and>
    distinct (map il_id ls) \<and> set ls \<subseteq> set (xi_lines intent) \<and> cq_correlationId q = xi_correlationId intent \<and>
    (\<forall>k < length vs. let c = vl_classConfig (vs ! k) in
       cl_merchandiseId (cq_lines q ! k) = kx_shopifyVariantGid c \<and> cl_quantity (cq_lines q ! k) = 1 \<and>
       cl_attributes (cq_lines q ! k) = [(CHECKOUT_INTENT_LINE_ID_ATTRIBUTE_KEY, il_id (ls ! k))] \<and>
       is_canonical_uuid (il_id (ls ! k)) \<and> il_festivalClassId (ls ! k) = Some (fc_id c) \<and>
       il_childId (ls ! k) = Some (cl_id (vl_child (vs ! k))) \<and> il_amount (ls ! k) = fc_price c)"
proof -
  let ?body = "act_bind (act_lift (require_class_checkout_intent_line_mapping (xi_id intent) (xi_lines intent)
            (expected_lines currency vs))) (\<lambda>ls.
        act_bind (insert_all_registration_metadata w (si_organizationId input) festival intent 0 (zip vs ls)) (\<lambda>_.
        create_and_verify_cart w input festival results intent vs ls currency expires version))"
  obtain res1 t where body: "?body s = (res1, t)" and t: "ru_requests s' = ru_requests t"
    using assms(1) unfolding execute_storefront_checkout_def act_catch_def
    by (auto split: prod.splits sum.splits if_splits dest: report_requests)
  from body obtain ls s1 where ls: "require_class_checkout_intent_line_mapping (xi_id intent) (xi_lines intent)
      (expected_lines currency vs) = Inr ls" and s1: "ru_requests s1 = ru_requests s"
    and run: "create_and_verify_cart w input festival results intent vs ls currency expires version s1 = (res1, t)"
    using assms(2) t by (auto elim!: act_bind_cases dest: insert_all_requests)
  define q where "q = \<lparr>cq_organizationId = si_organizationId input, cq_shopifyVariantGid = kx_shopifyVariantGid (vl_classConfig (hd vs)),
          cq_lines = storefront_lines vs ls, cq_buyerAccessToken = si_buyerAccessToken input,
          cq_correlationId = xi_correlationId intent, cq_currencyCode = currency\<rparr>"
  have sent: "ru_requests t = ru_requests s @ [q]"
    using run assms(2) t s1 unfolding create_and_verify_cart_def Let_def q_def
    by (auto elim!: act_bind_cases simp: send_cart_def attach_requests started_requests)
  note m = line_mapping_correct [OF ls]
  have es: "length (expected_lines currency vs) = length vs" by (simp add: expected_lines_def)
  have "length (storefront_lines vs ls) = length vs" using m(1) es by (simp add: storefront_lines_def)
  moreover have "set ls \<subseteq> set (xi_lines intent)"
    using m(1,2) by (auto simp: in_set_conv_nth)
  moreover have "let c = vl_classConfig (vs ! k) in
       cl_merchandiseId (cq_lines q ! k) = kx_shopifyVariantGid c \<and> cl_quantity (cq_lines q ! k) = 1 \<and>
       cl_attributes (cq_lines q ! k) = [(CHECKOUT_INTENT_LINE_ID_ATTRIBUTE_KEY, il_id (ls ! k))] \<and>
       is_canonical_uuid (il_id (ls ! k)) \<and> il_festivalClassId (ls ! k) = Some (fc_id c) \<and>
       il_childId (ls ! k) = Some (cl_id (vl_child (vs ! k))) \<and> il_amount (ls ! k) = fc_price c" if "k < length vs" for k
    using m(1) m(2) [of k] that es
    by (simp add: q_def storefront_lines_def line_accepted_def line_matches_def expected_lines_def Let_def)
  ultimately show ?thesis using sent t m(1,3) es
    by (intro exI [of _ q] exI [of _ ls]) (simp add: q_def)
qed

text \<open>
  C24: a failed checkout does not block the customer.  When the steps after the creation of the
  intent end in an error, the intent, if it is still there, is marked failed, whatever other
  requests did in between, so it no longer counts as a checkout in process; and the error is the
  retryable one, the closing of the registration or a class that sold out.  The storefront is
  assumed not to throw errors of status 400.
\<close>
theorem failed_checkout_releases_customer:
  assumes "execute_storefront_checkout w input festival results intent vs currency expires version s = (Inl e, s')"
    and "\<And>q e. wd_createCart w q = Inl e \<Longrightarrow> \<not> passes_through e" "\<And>org c e. wd_checkout w org c = Inl e \<Longrightarrow> \<not> passes_through e"
    and "results \<noteq> []"
  shows "(\<forall>i. js_get (cr_intents (ru_repo s')) (xi_id intent) = Some i \<longrightarrow>
       xi_status i = IntentFailed \<and> \<not> blocks_customer org customer now i) \<and>
    (e = retryable_checkout_error \<or> error_code e = Some ''registration_closed'' \<or> error_code e = Some ''sold_out'')"
proof -
  let ?failed = "\<lambda>s. \<forall>i. js_get (cr_intents (ru_repo s)) (xi_id intent) = Some i \<longrightarrow> xi_status i = IntentFailed"
  let ?body = "act_bind (act_lift (require_class_checkout_intent_line_mapping (xi_id intent) (xi_lines intent)
            (expected_lines currency vs))) (\<lambda>ls.
        act_bind (insert_all_registration_metadata w (si_organizationId input) festival intent 0 (zip vs ls)) (\<lambda>_.
        create_and_verify_cart w input festival results intent vs ls currency expires version))"
  obtain e' t where body: "?body s = (Inl e', t)"
    and h: "(if passes_through e' then act_throw e' else report_and_mark_failed w intent e') t
      = ((Inl e :: checkout_result outcome), s')"
    by (rule act_catch_Inl [OF assms(1) [unfolded execute_storefront_checkout_def]]) (erule (1) that)
  have mapping: "\<not> passes_through e'" if "require_class_checkout_intent_line_mapping i ls es = Inl e'" for i ls es
    using mapping_error [OF that] by (auto simp: passes_through_def)
  have metadata: "\<not> passes_through e'" if "insert_all_registration_metadata w org festival intent k rest s = (Inl e', t)" for org k rest s
    using insert_all_error [OF that] by (auto simp: passes_through_def)
  have "\<not> passes_through e' \<or> (error_code e' = Some ''sold_out'' \<and> ?failed t)"
    using body mapping metadata create_and_verify_fails [OF _ assms(2-4)] by (elim act_bind_cases) auto
  moreover have "?failed s' \<and> (e = retryable_checkout_error \<or> error_code e = Some ''registration_closed'')"
    if "\<not> passes_through e'"
    using h that by (auto simp: report_and_mark_failed_def at_point_iff checkout_failure_error_def elim!: act_bind_cases
        dest: mark_failed_status)
  ultimately have "?failed s' \<and> (e = retryable_checkout_error \<or> error_code e = Some ''registration_closed'' \<or>
      error_code e = Some ''sold_out'')"
    using h by (cases "passes_through e'") auto
  then show ?thesis by (auto simp: blocks_customer_def processing_status_def)
qed

text \<open>
  C25: a cart is requested only for an eligible purchase.  When a request sends a cart to the
  storefront it sends one, whose lines carry the variants of the classes of a plan for which the purchase of the request's lines was
  judged eligible in cart mode: for the organization of the request and the festival of the plan,
  with the class configurations that the validation of this request resolved, the organization's
  subtypes, and the entitlements on record at that time.  Registration for the festival was open
  then, and again just before the cart was requested; and when the request returns a URL, every
  class still had a free seat when the cart was attached.
\<close>
theorem cart_requested_only_when_eligible:
  assumes "start_class_checkout w input s = (res, s')" "ru_requests s' \<noteq> ru_requests s"
  shows "\<exists>plan lines vs classes f f'. (\<exists>s1 s2. plan_checkout w input s1 = (Inr plan, s2)) \<and>
    (\<exists>q. ru_requests s' = ru_requests s @ [q] \<and>
       map cl_merchandiseId (cq_lines q) = map (\<lambda>v. kx_shopifyVariantGid (vl_classConfig v)) (pl_lines plan)) \<and>
    validate_request w input = Inr (pl_festivalId plan, lines, vs, classes) \<and>
    normalize_line_items input = Inr lines \<and> length (pl_lines plan) = length lines \<and>
    map vl_classConfig (pl_lines plan) = map vl_classConfig vs \<and>
    resolve_target_festival (en_festivals (wd_env w AtEligibility) (si_organizationId input)) (Some (pl_festivalId plan)) None = Inr f \<and>
    is_festival_registration_open (en_zones (wd_env w AtEligibility)) (fe_window f) (wd_now w AtEligibility)
      (en_timezone (wd_env w AtEligibility) (si_organizationId input)) \<and>
    rs_isEligible (evaluate_purchase_eligibility (judged_purchase (wd_env w AtEligibility) (wd_now w AtEligibility)
      (si_organizationId input) f classes (proposed_items lines))) \<and>
    resolve_target_festival (en_festivals (wd_env w AtWindow) (si_organizationId input)) (Some (pl_festivalId plan)) None = Inr f' \<and>
    is_festival_registration_open (en_zones (wd_env w AtWindow)) (fe_window f') (wd_now w AtWindow)
      (en_timezone (wd_env w AtWindow) (si_organizationId input)) \<and>
    (\<forall>r. res = Inr r \<longrightarrow> capacity_check (wd_env w AtAttach) (si_organizationId input) (pl_festivalId plan) (pl_lines plan) = None)"
  using assms(1)
proof (cases rule: start_cases)
  case (resumed intent cart s1)
  with assms(2) resume_requests show ?thesis by metis
next
  case (executed plan intent version s1 s2 s3)
  have sent: "ru_requests s' \<noteq> ru_requests s3" using assms(2) executed(4) by simp
  have attached: "\<forall>r. res = Inr r \<longrightarrow>
      capacity_check (wd_env w AtAttach) (si_organizationId input) (pl_festivalId plan) (pl_lines plan) = None"
    using executed(3) by (auto elim!: execute_returns dest: attached_when_returned)
  from cart_lines_name_persisted_lines [OF executed(3) sent] obtain q where q: "ru_requests s' = ru_requests s @ [q]"
    "length (cq_lines q) = length (pl_lines plan)"
    "\<forall>k < length (pl_lines plan). cl_merchandiseId (cq_lines q ! k) = kx_shopifyVariantGid (vl_classConfig (pl_lines plan ! k))"
    unfolding executed(4) Let_def by blast
  then have "map cl_merchandiseId (cq_lines q) = map (\<lambda>v. kx_shopifyVariantGid (vl_classConfig v)) (pl_lines plan)"
    by (intro nth_equalityI) simp_all
  with q(1) plan_eligible [OF executed(1)] window_open_when_sent [OF executed(3) sent] executed(1) attached show ?thesis by blast
qed (use assms(2) in simp)

section \<open>Witnesses\<close>

text \<open>A festival with one class of two seats, and a request for one child.\<close>

definition demo_seat_class :: checkout_class where
  "demo_seat_class =
     \<lparr>fc_id = ''class'', fc_organizationId = ''org'', fc_festivalId = ''fest'', fc_displayName = ''Solo'',
      fc_classSubtypeId = ''solo'', fc_divisionId = ''piano'', fc_minimumAge = 6, fc_maximumAge = 9,
      fc_price = ''10.00'', fc_maximumPerformancePieces = 1, fc_performanceMinutes = 5,
      fc_capacity = Some 2, fc_isActive = True, kx_shopifyProductGid = ''p'', kx_shopifyVariantGid = ''v'',
      kx_requiresConcerto = None, kx_accompanimentRequired = False\<rparr>"

definition demo_festival :: festival_record where
  "demo_festival = \<lparr>fe_id = ''fest'', fe_shortName = ''f'', fe_isPrimary = True, fe_window = demo_window\<rparr>"

definition demo_checkout_env :: "nat \<Rightarrow> checkout_env" where
  "demo_checkout_env placed =
     \<lparr>en_session = (\<lambda>_. Some \<lparr>ss_organizationId = ''org'', ss_customerId = ''cust'', ss_revokedAtIso = None,
        ss_expiresAt = 0, ss_shopifyCustomerGid = ''gid'', ss_integrationVersion = 1\<rparr>),
      en_customerGid = (\<lambda>_ _. Some ''gid''),
      en_child = (\<lambda>_ parent c. Some \<lparr>cl_id = c, cl_parentCustomerId = parent\<rparr>),
      en_ageSnapshot = (\<lambda>_ _. Some \<lparr>ag_age = 7, ag_createdAt = - 62167219200000, ag_validUntil = 0, ag_supersededAtIso = None\<rparr>),
      en_festivals = (\<lambda>_. [demo_festival]),
      en_classByShortName = (\<lambda>_ _ _ _. None), en_class = (\<lambda>_ _ _. Some demo_seat_class),
      en_classesByIds = (\<lambda>_ _ _. [demo_seat_class]), en_catalogValues = (\<lambda>_ _ _. []), en_timezone = (\<lambda>_. ''Plus2''),
      en_teacherGrant = (\<lambda>_ _ division. Some \<lparr>tg_id = ''tg'', tg_entitlementClass = ''teacher_membership'', tg_divisionId = division,
        tg_status = ''active''\<rparr>),
      en_accompanistGrant = (\<lambda>_ _. None), en_hasCommerce = True, en_entitlementsByClass = (\<lambda>_ _ _. []),
      en_entitlementsByChild = (\<lambda>_ _ _. []), en_confirmedCount = (\<lambda>_ _. int placed), en_organizationCurrency = (\<lambda>_. Some ''USD''),
      en_hasRepertoire = False, en_catalogWork = (\<lambda>_ _. None), en_divisions = (\<lambda>_. [(''piano'', ''Piano'')]),
      en_teachers = (\<lambda>_ _. [(''teach'', ''Tea'')]),
      en_integration = (\<lambda>_. Some \<lparr>sy_storeDomain = ''Shop.test'', sy_integrationVersion = 1\<rparr>),
      en_zones = demo_zones, en_minutesText = (\<lambda>_. [])\<rparr>"

text \<open>The request looks up its intent at the start of the year 0; registration is tested within its window.\<close>

definition demo_checkout_world :: "nat \<Rightarrow> checkout_world" where
  "demo_checkout_world placed =
     \<lparr>wd_env = (\<lambda>_. demo_checkout_env placed),
      wd_now = (\<lambda>p. if p = AtEligibility \<or> p = AtWindow then 1774000000000 else - 62167219200000),
      wd_others = (\<lambda>_ r. r), wd_intentId = ''i1'', wd_correlationId = ''corr'',
      wd_lineIds = (\<lambda>_. ''00000000-0000-4000-8000-000000000000''), wd_cartReference = ''k1'', wd_metadataIds = (\<lambda>_. ''m1''),
      wd_itemIds = (\<lambda>_ _. (''x'', ''y'')), wd_createCart = (\<lambda>_. Inr ''cart''), wd_checkout = (\<lambda>_ _. Inr ''url''),
      wd_parseUrl = (\<lambda>_. Some \<lparr>pu_protocol = ''https:'', pu_hostname = ''shop.test'', pu_port = []\<rparr>)\<rparr>"

definition demo_start_input :: start_input where
  "demo_start_input =
     \<lparr>si_organizationId = ''org'', si_festivalId = Some ''fest'', si_festivalShortName = None, si_customerId = ''cust'',
      si_sessionId = ''sess'', si_idempotencyKey = ''key'', si_festivalClassId = Some ''class'', si_childId = Some ''child'',
      si_divisionId = None, si_buyerAccessToken = ''token'', si_integrationVersion = NoVersion, si_teacherId = Some ''teach'',
      si_accompanistId = None, si_instrumentId = None,
      si_pieces = Some (JArr [JObj [(''title'', JStr ''T''), (''composer'', JStr ''C''), (''durationSeconds'', JNum 60)]]),
      si_lineItems = None\<rparr>"

lemma year_zero: "to_iso (- 62167219200000) = ''0000-01-01T00:00:00.000Z''"
proof -
  have "date_of_day 0 = CalDate 0 1 1" by code_simp
  moreover have "pad 4 0 = ''0000''" "pad 2 0 = ''00''" "pad 2 (Suc 0) = ''01''" "pad 3 0 = ''000''" by code_simp+
  ultimately show ?thesis by (simp add: to_iso_def Let_def)
qed

lemma demo_world_reads [simp]:
  "wd_env (demo_checkout_world n) p = demo_checkout_env n" "wd_others (demo_checkout_world n) p r = r"
  "wd_now (demo_checkout_world n) AtLookup = - 62167219200000" "wd_checkout (demo_checkout_world n) org c = Inr ''url''"
  "wd_parseUrl (demo_checkout_world n) u = Some \<lparr>pu_protocol = ''https:'', pu_hostname = ''shop.test'', pu_port = []\<rparr>"
  "en_integration (demo_checkout_env n) org = Some \<lparr>sy_storeDomain = ''Shop.test'', sy_integrationVersion = 1\<rparr>"
  by (simp_all add: demo_checkout_world_def demo_checkout_env_def)

lemma demo_url_allowed: "is_allowed_checkout_url (wd_parseUrl (demo_checkout_world n)) ''url'' ''Shop.test''"
  by (simp add: is_allowed_checkout_url_def) code_simp

lemma demo_session:
  "\<exists>session. validate_session_and_customer (demo_checkout_env 0) (- 62167219200000) demo_start_input = Inr session"
proof -
  have "case validate_session_and_customer (demo_checkout_env 0) (- 62167219200000) demo_start_input of Inl _ \<Rightarrow> False | Inr _ \<Rightarrow> True"
    by code_simp
  then show ?thesis by (auto split: sum.splits)
qed

lemma demo_input_fields [simp]:
  "si_organizationId demo_start_input = ''org''" "si_customerId demo_start_input = ''cust''"
  "si_sessionId demo_start_input = ''sess''" "si_idempotencyKey demo_start_input = ''key''"
  by (simp_all add: demo_start_input_def)

lemma demo_resumes:
  "\<exists>res s'. start_class_checkout (demo_checkout_world 0) demo_start_input \<lparr>ru_repo = demo_checkout, ru_requests = []\<rparr> = (Inr res, s')"
proof -
  have "case get_outcome ''org'' ''cust'' ''sess'' ''key'' ''0000-01-01T00:00:00.000Z'' demo_checkout of
      Some (OutcomeReady i k) \<Rightarrow> xi_id i = ''i1'' | _ \<Rightarrow> False" by code_simp
  then obtain i k where ready: "get_outcome ''org'' ''cust'' ''sess'' ''key'' ''0000-01-01T00:00:00.000Z'' demo_checkout
      = Some (OutcomeReady i k)" "xi_id i = ''i1''"
    by (auto split: option.splits intent_outcome.splits)
  have "fst (mark_checkout_started ''i1'' demo_checkout) = Inr ()" by code_simp
  then obtain r where started: "mark_checkout_started ''i1'' demo_checkout = (Inr (), r)" by (metis prod.collapse)
  obtain session where "validate_session_and_customer (demo_checkout_env 0) (- 62167219200000) demo_start_input = Inr session"
    using demo_session by blast
  with ready started show ?thesis
    by (simp add: start_class_checkout_def Let_def act_bind_def at_point_def iso_now_def year_zero resume_checkout_def act_catch_def
        started_checkout_url_def demo_url_allowed)
qed

theorem checkout_url_of_started_intent_witness:
  "\<exists>res s' i. start_class_checkout (demo_checkout_world 0) demo_start_input \<lparr>ru_repo = demo_checkout, ru_requests = []\<rparr>
     = (Inr res, s') \<and> js_get (cr_intents (ru_repo s')) (rt_intentId res) = Some i \<and> xi_status i = IntentStarted"
  using demo_resumes checkout_url_of_started_intent by blast

definition demo_new_intent :: checkout_intent where
  "demo_new_intent = new_intent (demo_intent_input\<lparr>ni_lines := Some [intent_line_of ''USD'' 0
     \<lparr>vl_child = \<lparr>cl_id = ''child'', cl_parentCustomerId = ''cust''\<rparr>, vl_classConfig = demo_seat_class, vl_normalizedPieces = [],
      vl_teacherEntitlementId = ''tg'', vl_accompanistEntitlementId = None, vl_instrument = UnknownInstrument,
      vl_registrationSnapshot = None\<rparr>]\<rparr>) ''i1'' ''corr'' (\<lambda>_. ''00000000-0000-4000-8000-000000000000'') ''t''"

definition demo_validated :: "validated_line list" where
  "demo_validated = [\<lparr>vl_child = \<lparr>cl_id = ''child'', cl_parentCustomerId = ''cust''\<rparr>, vl_classConfig = demo_seat_class,
     vl_normalizedPieces = [], vl_teacherEntitlementId = ''tg'', vl_accompanistEntitlementId = None,
     vl_instrument = UnknownInstrument, vl_registrationSnapshot = None\<rparr>]"

definition demo_results :: "eligibility_result list" where
  "demo_results = [basic_result (demo_item ''l'' ''child'' ''class'') True AVAILABLE []]"

definition demo_run :: checkout_run where
  "demo_run = \<lparr>ru_repo = \<lparr>cr_carts = [], cr_intents = [(''i1'', demo_new_intent)], cr_metadataKeys = [], cr_metadata = []\<rparr>,
     ru_requests = []\<rparr>"

lemma demo_open: "is_festival_registration_open demo_zones demo_window 1774000000000 ''Plus2''"
proof -
  have "normalize_window_bound (rw_opensAt demo_window) = Some ''2026-03-01T08:30''"
    "normalize_window_bound (rw_closesAt demo_window) = Some ''2026-03-31''" by code_simp+
  then show ?thesis by (simp add: is_festival_registration_open_def demo_boundaries)
qed

lemma demo_mapping:
  "require_class_checkout_intent_line_mapping (xi_id demo_new_intent) (xi_lines demo_new_intent) (expected_lines ''USD'' demo_validated)
     = Inr (xi_lines demo_new_intent)"
  by code_simp

lemma cart_sent:
  assumes "execute_storefront_checkout w input festival results intent vs currency expires version s = (res, s')"
    and "require_class_checkout_intent_line_mapping (xi_id intent) (xi_lines intent) (expected_lines currency vs) = Inr ls"
    and "insert_all_registration_metadata w (si_organizationId input) festival intent 0 (zip vs ls) s = (Inr (), s1)"
    and "en_integration (wd_env w AtIntegration) (si_organizationId input) \<noteq> None"
    and "require_registration_open (wd_env w AtWindow) (wd_now w AtWindow) (si_organizationId input) festival results = Inr ()"
  shows "ru_requests s' \<noteq> ru_requests s"
proof -
  let ?body = "create_and_verify_cart w input festival results intent vs ls currency expires version"
  obtain r t where run: "?body s1 = (r, t)" by (cases "?body s1")
  have "ru_requests t \<noteq> ru_requests s1"
    using run assms(4,5) unfolding create_and_verify_cart_def Let_def
    by (auto elim!: act_bind_cases simp: send_cart_def attach_requests started_requests)
  moreover have "ru_requests s1 = ru_requests s" by (rule insert_all_requests [OF assms(3)])
  moreover have "ru_requests s' = ru_requests t"
    using assms(1-3) run unfolding execute_storefront_checkout_def act_catch_def
    by (auto split: sum.splits if_splits dest: report_requests)
  ultimately show ?thesis by simp
qed

lemma demo_window_open: "require_registration_open (demo_checkout_env n) 1774000000000 ''org'' ''fest'' results = Inr ()"
proof -
  have "resolve_target_festival [demo_festival] (Some ''fest'') None = Inr demo_festival" by code_simp
  then show ?thesis
    by (simp add: require_registration_open_def demo_checkout_env_def demo_open) (simp add: demo_festival_def demo_open)
qed

lemma demo_world_window [simp]: "wd_now (demo_checkout_world n) AtWindow = 1774000000000"
  "wd_now (demo_checkout_world n) (AtMetadata k) = - 62167219200000"
  "wd_now (demo_checkout_world n) AtEligibility = 1774000000000"
  by (simp_all add: demo_checkout_world_def)

lemma demo_metadata_inserted:
  "\<exists>s1. insert_all_registration_metadata (demo_checkout_world n) ''org'' ''fest'' demo_new_intent 0
     (zip demo_validated (xi_lines demo_new_intent)) demo_run = (Inr (), s1)"
proof -
  obtain l v where l: "xi_lines demo_new_intent = [l]" "demo_validated = [v]"
  proof -
    have "length (xi_lines demo_new_intent) = 1" "length demo_validated = 1" by code_simp+
    then show ?thesis using that by (auto simp: length_Suc_conv)
  qed
  have "cr_metadataKeys (ru_repo demo_run) = []" by code_simp
  then have "metadata_values (ru_repo demo_run) = []" by (simp add: metadata_values_def js_values_def)
  then show ?thesis
    by (simp add: l at_point_def act_bind_def insert_registration_metadata_def Let_def)
qed

theorem cart_lines_name_persisted_lines_witness:
  "\<exists>res s' q. execute_storefront_checkout (demo_checkout_world 0) demo_start_input ''fest'' demo_results demo_new_intent demo_validated
     ''USD'' ''z'' 1 demo_run = (res, s') \<and> ru_requests s' = ru_requests demo_run @ [q] \<and>
     (\<exists>l \<in> set (xi_lines demo_new_intent). cl_attributes (cq_lines q ! 0) = [(''festival_checkout_intent_line_id'', il_id l)])"
proof -
  obtain res s' where run: "execute_storefront_checkout (demo_checkout_world 0) demo_start_input ''fest'' demo_results demo_new_intent
      demo_validated ''USD'' ''z'' 1 demo_run = (res, s')" by fastforce
  obtain s1 where s1: "insert_all_registration_metadata (demo_checkout_world 0) ''org'' ''fest'' demo_new_intent 0
     (zip demo_validated (xi_lines demo_new_intent)) demo_run = (Inr (), s1)" using demo_metadata_inserted by blast
  have "ru_requests s' \<noteq> ru_requests demo_run"
    by (rule cart_sent [OF run demo_mapping]) (use s1 demo_window_open in simp_all)
  from cart_lines_name_persisted_lines [OF run this] obtain q ls where
    q: "ru_requests s' = ru_requests demo_run @ [q]" "length ls = length demo_validated" "set ls \<subseteq> set (xi_lines demo_new_intent)"
      "\<And>k. k < length demo_validated \<Longrightarrow> cl_attributes (cq_lines q ! k) = [(CHECKOUT_INTENT_LINE_ID_ATTRIBUTE_KEY, il_id (ls ! k))]"
    by (auto simp: Let_def)
  have "0 < length demo_validated" by code_simp
  with q show ?thesis using run
    by (intro exI [of _ res] exI [of _ s'] exI [of _ q]) (auto simp: CHECKOUT_INTENT_LINE_ID_ATTRIBUTE_KEY_def intro!: bexI [of _ "ls ! 0"])
qed

theorem failed_checkout_releases_customer_witness:
  "\<exists>e s'. execute_storefront_checkout (demo_checkout_world 2) demo_start_input ''fest'' demo_results demo_new_intent demo_validated
     ''USD'' ''z'' 1 demo_run = (Inl e, s') \<and>
     map_option xi_status (js_get (cr_intents (ru_repo s')) (xi_id demo_new_intent)) \<in> {None, Some IntentFailed}"
proof -
  obtain res s' where run: "execute_storefront_checkout (demo_checkout_world 2) demo_start_input ''fest'' demo_results demo_new_intent
      demo_validated ''USD'' ''z'' 1 demo_run = (res, s')" by fastforce
  have full: "capacity_check (demo_checkout_env 2) ''org'' ''fest'' demo_validated \<noteq> None" by code_simp
  have "\<exists>e. res = Inl e"
  proof (cases res)
    case (Inr r)
    with run obtain ls s1 where "create_and_verify_cart (demo_checkout_world 2) demo_start_input ''fest'' demo_results demo_new_intent
        demo_validated ls ''USD'' ''z'' 1 s1 = (Inr r, s')" by (auto elim: execute_returns)
    from attached_when_returned [OF this] full show ?thesis by simp
  qed simp
  then obtain e where e: "res = Inl e" by blast
  have r: "demo_results \<noteq> []" by (simp add: demo_results_def)
  have ok: "\<not> passes_through e" if "wd_createCart (demo_checkout_world 2) q = Inl e" for q e
    using that by (simp add: demo_checkout_world_def)
  have ok': "\<not> passes_through e" if "wd_checkout (demo_checkout_world 2) org c = Inl e" for org c e
    using that by simp
  from failed_checkout_releases_customer [OF run [unfolded e] ok ok' r] run e show ?thesis
    by (cases "js_get (cr_intents (ru_repo s')) (xi_id demo_new_intent)") auto
qed

definition demo_line :: checkout_line where
  "demo_line = \<lparr>it_id = None, it_childId = ''child'', it_festivalClassId = ''class'', it_isCandidate = False,
     ln_teacherId = ''teach'', ln_instrumentId = None, ln_accompanistId = None,
     ln_pieces = JArr [JObj [(''title'', JStr ''T''), (''composer'', JStr ''C''), (''durationSeconds'', JNum 60)]],
     ln_divisionId = None\<rparr>"

definition demo_bought :: "validated_line" where
  "demo_bought = \<lparr>vl_child = \<lparr>cl_id = ''child'', cl_parentCustomerId = ''cust''\<rparr>, vl_classConfig = demo_seat_class,
     vl_normalizedPieces = [\<lparr>pc_title = ''T'', pc_composer = ''C'', pc_movement = None, pc_durationSeconds = 60, pc_catalogWorkId = None\<rparr>],
     vl_teacherEntitlementId = ''tg'', vl_accompanistEntitlementId = None,
     vl_instrument = UnknownInstrument, vl_registrationSnapshot = None\<rparr>"

lemma demo_request: "validate_request (demo_checkout_world 0) demo_start_input
    = Inr (''fest'', [demo_line], [demo_bought], [(''class'', demo_seat_class)])"
  by code_simp

lemma demo_eligible:
  "\<exists>results. check_eligibility (demo_checkout_env 0) 1774000000000 ''org'' ''cust'' ''fest'' [demo_line]
     [(''child'', Some \<lparr>cl_id = ''child'', cl_parentCustomerId = ''cust''\<rparr>)] [(''class'', demo_seat_class)] = Inr results"
proof -
  let ?ei = "\<lparr>ei_organizationId = ''org'', ei_festivalId = ''fest'', ei_items = [strip_candidate_marker (line_item.truncate demo_line)],
     ei_classes = ClassMap [(''class'', class_config.truncate demo_seat_class)], ei_subtypes = [], ei_activeEntitlements = [],
     ei_isRegistrationOpen = Some True, ei_mode = Some CartMode\<rparr>"
  have festival: "resolve_target_festival [demo_festival] (Some ''fest'') None = Inr demo_festival" by code_simp
  have f: "fe_id demo_festival = ''fest''" "fe_window demo_festival = demo_window" by (simp_all add: demo_festival_def)
  have ids: "it_childId demo_line = ''child''" "it_festivalClassId demo_line = ''class''" by (simp_all add: demo_line_def)
  have trim: "js_trim ''cust'' \<noteq> []" by code_simp
  have "evaluate_eligibility (demo_checkout_env 0) 1774000000000
        \<lparr>eq_organizationId = ''org'', eq_customerId = ''cust'', eq_festivalId = Some ''fest'', eq_festivalShortName = None,
         eq_items = [strip_candidate_marker (line_item.truncate demo_line)], eq_mode = Some CartMode\<rparr> None
        [(''child'', Some \<lparr>cl_id = ''child'', cl_parentCustomerId = ''cust''\<rparr>)] [(''class'', demo_seat_class)]
      = Inr (evaluate_purchase_eligibility ?ei)"
    by (simp add: evaluate_eligibility_def Let_def demo_checkout_env_def festival f demo_open trim ids line_item.defs js_uniq_def
        js_get_Cons load_targeted_entitlements_def)
  moreover have "rs_isEligible (evaluate_purchase_eligibility ?ei)" "\<not> list_ex (\<lambda>r. \<not> er_isEligible r) (rs_results (evaluate_purchase_eligibility ?ei))"
    by code_simp+
  ultimately show ?thesis by (simp add: check_eligibility_def)
qed

lemma demo_plan:
  "\<exists>plan. plan_checkout (demo_checkout_world 0) demo_start_input \<lparr>ru_repo = empty_checkout_repo, ru_requests = []\<rparr>
     = (Inr plan, \<lparr>ru_repo = empty_checkout_repo, ru_requests = []\<rparr>) \<and> pl_festivalId plan = ''fest'' \<and> pl_currencyCode plan = ''USD'' \<and>
     (\<exists>snap. pl_lines plan = [demo_bought\<lparr>vl_registrationSnapshot := Some snap\<rparr>])"
proof -
  obtain results where r: "check_eligibility (demo_checkout_env 0) 1774000000000 ''org'' ''cust'' ''fest'' [demo_line]
     [(''child'', Some \<lparr>cl_id = ''child'', cl_parentCustomerId = ''cust''\<rparr>)] [(''class'', demo_seat_class)] = Inr results"
    using demo_eligible by blast
  have e: "en_organizationCurrency (demo_checkout_env 0) org = Some ''USD''"
    "en_child (demo_checkout_env 0) org c k = Some \<lparr>cl_id = k, cl_parentCustomerId = c\<rparr>" for org c k
    by (simp_all add: demo_checkout_env_def)
  have "it_childId demo_line = ''child''" by (simp add: demo_line_def)
  then show ?thesis
    by (simp add: plan_checkout_def Let_def act_bind_def demo_request at_point_def has_processing_intent_def empty_checkout_repo_def r e
        capture_registration_snapshots_def) (rule exI, rule refl)
qed

lemma demo_created_mapping:
  "let v = new_intent (class_intent_input demo_start_input [demo_bought\<lparr>vl_registrationSnapshot := Some snap\<rparr>] ''USD'' expires) ''i1'' ''corr''
      (\<lambda>_. ''00000000-0000-4000-8000-000000000000'') now
   in require_class_checkout_intent_line_mapping (xi_id v) (xi_lines v)
        (expected_lines ''USD'' [demo_bought\<lparr>vl_registrationSnapshot := Some snap\<rparr>]) = Inr (xi_lines v) \<and> length (xi_lines v) = 1"
  by code_simp

theorem cart_requested_only_when_eligible_witness:
  "\<exists>res s' plan. start_class_checkout (demo_checkout_world 0) demo_start_input \<lparr>ru_repo = empty_checkout_repo, ru_requests = []\<rparr> = (res, s') \<and>
     ru_requests s' \<noteq> [] \<and> length (pl_lines plan) = 1 \<and>
     (\<exists>s1 s2. plan_checkout (demo_checkout_world 0) demo_start_input s1 = (Inr plan, s2)) \<and>
     (\<exists>f. rs_isEligible (evaluate_purchase_eligibility (judged_purchase (demo_checkout_env 0) 1774000000000 ''org'' f
        [(''class'', demo_seat_class)] (proposed_items [demo_line]))))"
proof -
  let ?w = "demo_checkout_world 0" and ?in = demo_start_input
  let ?s = "\<lparr>ru_repo = empty_checkout_repo, ru_requests = []\<rparr> :: checkout_run"
  obtain plan snap where plan: "plan_checkout ?w ?in ?s = (Inr plan, ?s)" "pl_festivalId plan = ''fest''" "pl_currencyCode plan = ''USD''"
    "pl_lines plan = [demo_bought\<lparr>vl_registrationSnapshot := Some snap\<rparr>]" using demo_plan by blast
  let ?now = "''0000-01-01T00:00:00.000Z''"
  let ?ids = "\<lambda>_::nat. ''00000000-0000-4000-8000-000000000000''"
  let ?v = "new_intent (class_intent_input ?in (pl_lines plan) ''USD'' (pl_expiresAtIso plan)) ''i1'' ''corr'' ?ids ?now"
  let ?s1 = "\<lparr>ru_repo = empty_checkout_repo\<lparr>cr_intents := [(''i1'', ?v)]\<rparr>, ru_requests = []\<rparr> :: checkout_run"
  have w: "wd_intentId ?w = ''i1''" "wd_correlationId ?w = ''corr''" "wd_lineIds ?w = ?ids" "wd_now ?w AtCreate = - 62167219200000"
    by (simp_all add: demo_checkout_world_def)
  have created: "create_multi_line_intent ?w ?in (pl_lines plan) ''USD'' (pl_expiresAtIso plan) ?s = (Inr (OutcomeCreated ?v), ?s1)"
    by (simp add: create_multi_line_intent_def at_point_def create_intent_def w iso_now_def year_zero empty_checkout_repo_def js_set_def Let_def)
  obtain session where session: "validate_session_and_customer (demo_checkout_env 0) (- 62167219200000) ?in = Inr session"
    using demo_session by blast
  have none: "get_outcome a b c d n empty_checkout_repo = None" for a b c d n
    by (simp add: get_outcome_def empty_checkout_repo_def)
  have start: "start_class_checkout ?w ?in ?s =
      execute_storefront_checkout ?w ?in ''fest'' (pl_results plan) ?v (pl_lines plan) ''USD'' (pl_expiresAtIso plan)
        (if ss_integrationVersion session = 0 then 1 else ss_integrationVersion session) ?s1"
    by (simp add: start_class_checkout_def Let_def act_bind_def at_point_def session none plan(1-3) created)
  let ?version = "if ss_integrationVersion session = 0 then 1 else ss_integrationVersion session"
  obtain res s' where run: "start_class_checkout ?w ?in ?s = (res, s')" by (metis surj_pair)
  have run2: "execute_storefront_checkout ?w ?in ''fest'' (pl_results plan) ?v (pl_lines plan) ''USD'' (pl_expiresAtIso plan) ?version ?s1
      = (res, s')" by (rule trans [OF start [symmetric] run])
  have mapping: "require_class_checkout_intent_line_mapping (xi_id ?v) (xi_lines ?v) (expected_lines ''USD'' (pl_lines plan)) = Inr (xi_lines ?v)"
    and "length (xi_lines ?v) = 1"
    using demo_created_mapping [of snap "pl_expiresAtIso plan" ?now] unfolding plan(4) Let_def by blast+
  then obtain l where l: "xi_lines ?v = [l]" by (auto simp: length_Suc_conv)
  have zip1: "zip (pl_lines plan) (xi_lines ?v) = [(hd (pl_lines plan), l)]" by (subst l) (simp add: plan(4))
  have "\<exists>s2. insert_all_registration_metadata ?w ''org'' ''fest'' ?v 0 (zip (pl_lines plan) (xi_lines ?v)) ?s1 = (Inr (), s2)"
    unfolding zip1
    by (simp add: at_point_def act_bind_def insert_registration_metadata_def metadata_values_def empty_checkout_repo_def Let_def)
  then obtain s2 where inserted: "insert_all_registration_metadata ?w ''org'' ''fest'' ?v 0 (zip (pl_lines plan) (xi_lines ?v)) ?s1 = (Inr (), s2)"
    by blast
  have sent: "ru_requests s' \<noteq> ru_requests ?s"
    using cart_sent [OF run2 mapping] inserted demo_window_open by simp
  have env: "wd_env ?w p = demo_checkout_env 0" "wd_now ?w AtEligibility = 1774000000000" "si_organizationId ?in = ''org''" for p
    by (simp_all add: demo_checkout_world_def demo_start_input_def)
  from cart_requested_only_when_eligible [OF run sent] obtain plan' lines vs classes f s1 s3 where
    p: "plan_checkout ?w ?in s1 = (Inr plan', s3)" "validate_request ?w ?in = Inr (pl_festivalId plan', lines, vs, classes)"
      "length (pl_lines plan') = length lines"
      "rs_isEligible (evaluate_purchase_eligibility (judged_purchase (demo_checkout_env 0) 1774000000000 ''org'' f classes (proposed_items lines)))"
    unfolding env by blast
  have "lines = [demo_line]" "classes = [(''class'', demo_seat_class)]" using p(2) demo_request by simp_all
  with p run sent show ?thesis
    by (intro exI [of _ res] exI [of _ s'] exI [of _ plan']) auto
qed

end
