(* ===== verification/RecoveryRepo.thy ===== *)
theory RecoveryRepo
  imports CheckoutRepo
begin

text \<open>
  \<open>InMemoryCheckoutRecoveryRepository\<close> of
  \<open>packages/backend/src/checkout/checkout-recovery-repository.ts\<close>: recovery requests for abandoned
  membership checkouts.  It keeps a \<open>Map\<close> of intents of its own.  The times of a request are
  instants in milliseconds where the code keeps the strings that \<open>toISOString\<close> wrote for them.
\<close>

section \<open>Data\<close>

datatype recovery_status = RecPending | RecConsumed | RecExpired | RecCancelled | RecInvalidated

fun recovery_status_name :: "recovery_status \<Rightarrow> string" where
  "recovery_status_name RecPending = ''pending''"
| "recovery_status_name RecConsumed = ''consumed''"
| "recovery_status_name RecExpired = ''expired''"
| "recovery_status_name RecCancelled = ''cancelled''"
| "recovery_status_name RecInvalidated = ''invalidated''"

record recovery_request =
  rr_id :: string
  rr_organizationId :: string
  rr_customerId :: string
  rr_sourceCheckoutIntentId :: string
  rr_tokenHash :: string
  rr_status :: recovery_status
  rr_requestedByActorUid :: string
  rr_createdAt :: int
  rr_expiresAt :: int
  rr_consumedAt :: "int option"

record recovery_params =
  rq_id :: "string option"
  rq_organizationId :: string
  rq_customerId :: string
  rq_sourceCheckoutIntentId :: string
  rq_tokenHash :: string
  rq_requestedByActorUid :: string
  rq_expiresAt :: int

record recovery_repo =
  rp_intents :: "(string, checkout_intent) js_map"
  rp_requests :: "(string, recovery_request) js_map"
  rp_orders :: "(string \<times> string) list"
  rp_classEntitlements :: "(string \<times> string) list"
  rp_membershipEntitlements :: "(string \<times> string) list"

definition empty_recovery_repo :: recovery_repo where
  "empty_recovery_repo = \<lparr>rp_intents = [], rp_requests = [], rp_orders = [], rp_classEntitlements = [], rp_membershipEntitlements = []\<rparr>"

section \<open>Operations\<close>

definition add_recovery_intent :: "checkout_intent \<Rightarrow> recovery_repo \<Rightarrow> recovery_repo" where
  "add_recovery_intent i r = r\<lparr>rp_intents := js_set (xi_id i) i (rp_intents r)\<rparr>"

definition add_order_projection :: "string \<times> string \<Rightarrow> recovery_repo \<Rightarrow> recovery_repo" where
  "add_order_projection p r = r\<lparr>rp_orders := rp_orders r @ [p]\<rparr>"

definition add_class_entitlement :: "string \<times> string \<Rightarrow> recovery_repo \<Rightarrow> recovery_repo" where
  "add_class_entitlement e r = r\<lparr>rp_classEntitlements := rp_classEntitlements r @ [e]\<rparr>"

definition add_membership_entitlement :: "string \<times> string \<Rightarrow> recovery_repo \<Rightarrow> recovery_repo" where
  "add_membership_entitlement e r = r\<lparr>rp_membershipEntitlements := rp_membershipEntitlements r @ [e]\<rparr>"

definition add_recovery_request :: "recovery_request \<Rightarrow> recovery_repo \<Rightarrow> recovery_repo" where
  "add_recovery_request q r = r\<lparr>rp_requests := js_set (rr_id q) q (rp_requests r)\<rparr>"

definition check_completed :: "string \<Rightarrow> string \<Rightarrow> string \<Rightarrow> recovery_repo \<Rightarrow> bool" where
  "check_completed org iid correlation r \<longleftrightarrow>
     list_ex (\<lambda>(o', c). o' = org \<and> c = correlation) (rp_orders r) \<or>
     list_ex (\<lambda>(o', i). o' = org \<and> i = iid) (rp_classEntitlements r) \<or>
     list_ex (\<lambda>(o', i). o' = org \<and> i = iid) (rp_membershipEntitlements r)"

definition has_completed_order_or_entitlement :: "string \<Rightarrow> string \<Rightarrow> string \<Rightarrow> recovery_repo \<Rightarrow> bool" where
  "has_completed_order_or_entitlement org iid correlation r =
     (case js_get (rp_intents r) iid of
        Some i \<Rightarrow> check_completed org (xi_id i) (xi_correlationId i) r
      | None \<Rightarrow> check_completed org iid correlation r)"

definition list_recoverable_intents :: "string \<Rightarrow> string \<Rightarrow> recovery_repo \<Rightarrow> checkout_intent list" where
  "list_recoverable_intents org customer r =
     js_sort_desc xi_createdAtIso
       (filter (\<lambda>i. xi_organizationId i = org \<and> xi_customerId i = customer \<and>
           xi_status i \<noteq> IntentApproved \<and> xi_status i \<noteq> IntentSuperseded \<and> xi_intentType i \<noteq> ClassEntryIntent \<and>
           \<not> check_completed org (xi_id i) (xi_correlationId i) r) (js_values (rp_intents r)))"

definition cancel_request :: "string \<Rightarrow> string \<Rightarrow> recovery_request \<Rightarrow> recovery_request" where
  "cancel_request org iid q =
     (if rr_organizationId q = org \<and> rr_sourceCheckoutIntentId q = iid \<and> rr_status q = RecPending
      then q\<lparr>rr_status := RecCancelled\<rparr> else q)"

definition cancel_pending_requests :: "string \<Rightarrow> string \<Rightarrow> recovery_repo \<Rightarrow> recovery_repo" where
  "cancel_pending_requests org iid r = r\<lparr>rp_requests := map (\<lambda>(k, q). (k, cancel_request org iid q)) (rp_requests r)\<rparr>"

definition invalidate_recovery_intent :: "string \<Rightarrow> string \<Rightarrow> recovery_repo \<Rightarrow> unit outcome \<times> recovery_repo" where
  "invalidate_recovery_intent org iid r =
     (case js_get (rp_intents r) iid of
        None \<Rightarrow> (Inl (PlainError ''Checkout intent not found.''), r)
      | Some i \<Rightarrow>
          if xi_organizationId i \<noteq> org then (Inl (PlainError ''Checkout intent not found.''), r)
          else if check_completed org (xi_id i) (xi_correlationId i) r
          then (Inl (PlainError ''Cannot invalidate checkout intent: completed order projection or entitlement exists.''), r)
          else (Inr (), cancel_pending_requests org iid
                 (r\<lparr>rp_intents := js_modify iid (\<lambda>i. i\<lparr>xi_status := IntentSuperseded\<rparr>) (rp_intents r)\<rparr>)))"

text \<open>\<open>random_id\<close> is what \<open>randomUUID\<close> returns and \<open>now\<close> the clock.\<close>

definition create_recovery_request ::
    "recovery_params \<Rightarrow> string \<Rightarrow> int \<Rightarrow> recovery_repo \<Rightarrow> recovery_request outcome \<times> recovery_repo" where
  "create_recovery_request p random_id now r =
     (let org = rq_organizationId p; iid = rq_sourceCheckoutIntentId p in
      case js_get (rp_intents r) iid of
        None \<Rightarrow> (Inl (PlainError ''Checkout intent not found.''), r)
      | Some i \<Rightarrow>
          if xi_organizationId i \<noteq> org then (Inl (PlainError ''Checkout intent not found.''), r)
          else if xi_customerId i \<noteq> rq_customerId p then (Inl (PlainError ''Customer mismatch for checkout intent.''), r)
          else if check_completed org (xi_id i) (xi_correlationId i) r
          then (Inl (PlainError ''Cannot recover checkout intent: completed order projection or entitlement exists.''), r)
          else let r' = cancel_pending_requests org iid r;
                   rid = (case rq_id p of Some k \<Rightarrow> k | None \<Rightarrow> random_id);
                   q = \<lparr>rr_id = rid, rr_organizationId = org, rr_customerId = rq_customerId p, rr_sourceCheckoutIntentId = iid,
                        rr_tokenHash = rq_tokenHash p, rr_status = RecPending, rr_requestedByActorUid = rq_requestedByActorUid p,
                        rr_createdAt = now, rr_expiresAt = rq_expiresAt p, rr_consumedAt = None\<rparr>
               in (Inr q, r'\<lparr>rp_requests := js_set rid q (rp_requests r')\<rparr>))"

text \<open>A pending request past its expiry is shown as expired; the record itself stays pending.\<close>

definition shown_request :: "int \<Rightarrow> recovery_request \<Rightarrow> recovery_request" where
  "shown_request now q = (if rr_status q = RecPending \<and> rr_expiresAt q \<le> now then q\<lparr>rr_status := RecExpired\<rparr> else q)"

definition find_request_by_hash :: "string \<Rightarrow> recovery_repo \<Rightarrow> (string \<times> recovery_request) option" where
  "find_request_by_hash hash r = find (\<lambda>(k, q). rr_tokenHash q = hash) (rp_requests r)"

definition find_recovery_request_by_token_hash ::
    "string \<Rightarrow> string option \<Rightarrow> int \<Rightarrow> recovery_repo \<Rightarrow> recovery_request option" where
  "find_recovery_request_by_token_hash hash org now r =
     (case find_request_by_hash hash r of
        None \<Rightarrow> None
      | Some (k, q) \<Rightarrow> if truthy org \<and> org \<noteq> Some (rr_organizationId q) then None else Some (shown_request now q))"

definition get_recovery_request_by_id :: "string \<Rightarrow> string \<Rightarrow> int \<Rightarrow> recovery_repo \<Rightarrow> recovery_request option" where
  "get_recovery_request_by_id org rid now r =
     (case js_get (rp_requests r) rid of
        None \<Rightarrow> None
      | Some q \<Rightarrow> if rr_organizationId q \<noteq> org then None else Some (shown_request now q))"

definition find_recoverable_intent :: "string \<Rightarrow> string \<Rightarrow> recovery_repo \<Rightarrow> checkout_intent option" where
  "find_recoverable_intent org iid r =
     (case js_get (rp_intents r) iid of
        None \<Rightarrow> None | Some i \<Rightarrow> if xi_organizationId i \<noteq> org then None else Some i)"

definition consume_recovery_request ::
    "string \<Rightarrow> string option \<Rightarrow> int option \<Rightarrow> int \<Rightarrow> recovery_repo \<Rightarrow> recovery_request outcome \<times> recovery_repo" where
  "consume_recovery_request hash org consumed_at now r =
     (let at = (case consumed_at of Some t \<Rightarrow> t | None \<Rightarrow> now) in
      case find_request_by_hash hash r of
        None \<Rightarrow> (Inl (PlainError ''Recovery request not found.''), r)
      | Some (k, q) \<Rightarrow>
          if truthy org \<and> org \<noteq> Some (rr_organizationId q) then (Inl (PlainError ''Recovery request not found.''), r)
          else if rr_status q \<noteq> RecPending
          then (Inl (PlainError (''Recovery request is not pending (status: '' @ recovery_status_name (rr_status q) @ '').'')), r)
          else if rr_expiresAt q \<le> at
          then (Inl (PlainError ''Recovery request has expired.''),
                r\<lparr>rp_requests := js_modify k (\<lambda>q. q\<lparr>rr_status := RecExpired\<rparr>) (rp_requests r)\<rparr>)
          else let use = (\<lambda>q. q\<lparr>rr_status := RecConsumed, rr_consumedAt := Some at\<rparr>)
               in (Inr (use q), r\<lparr>rp_requests := js_modify k use (rp_requests r)\<rparr>))"

section \<open>The life of the requests\<close>

text \<open>
  Steps of a run: the operations above, with fresh identifiers for new requests as random UUIDs
  are.  \<open>add_recovery_request\<close> only serves to prepare a store.
\<close>

datatype recovery_op =
    OpIntent checkout_intent | OpOrder string string | OpClass string string | OpMembership string string
  | OpInvalidate string string | OpCreate recovery_params string int | OpConsume string "string option" "int option" int

fun run_op :: "recovery_op \<Rightarrow> recovery_repo \<Rightarrow> recovery_repo" where
  "run_op (OpIntent i) r = add_recovery_intent i r"
| "run_op (OpOrder a b) r = add_order_projection (a, b) r"
| "run_op (OpClass a b) r = add_class_entitlement (a, b) r"
| "run_op (OpMembership a b) r = add_membership_entitlement (a, b) r"
| "run_op (OpInvalidate a b) r = snd (invalidate_recovery_intent a b r)"
| "run_op (OpCreate p k now) r = snd (create_recovery_request p k now r)"
| "run_op (OpConsume h org at now) r = snd (consume_recovery_request h org at now r)"

fun fresh_op :: "recovery_op \<Rightarrow> recovery_repo \<Rightarrow> bool" where
  "fresh_op (OpCreate p k now) r \<longleftrightarrow> js_get (rp_requests r) (case rq_id p of Some i \<Rightarrow> i | None \<Rightarrow> k) = None"
| "fresh_op _ r \<longleftrightarrow> True"

inductive recovery_run :: "recovery_repo \<Rightarrow> recovery_repo \<Rightarrow> bool" where
  run_refl: "recovery_run r r"
| run_step: "recovery_run r r' \<Longrightarrow> fresh_op f r' \<Longrightarrow> recovery_run r (run_op f r')"

text \<open>What holds of the requests of every store that operations built.\<close>

definition requests_ok :: "recovery_repo \<Rightarrow> bool" where
  "requests_ok r \<longleftrightarrow>
     js_wf (rp_requests r) \<and>
     (\<forall>k q. js_get (rp_requests r) k = Some q \<longrightarrow> rr_id q = k \<and>
        (rr_status q = RecConsumed \<longleftrightarrow> rr_consumedAt q \<noteq> None) \<and>
        (\<forall>t. rr_consumedAt q = Some t \<longrightarrow> t < rr_expiresAt q)) \<and>
     (\<forall>k q k' q'. js_get (rp_requests r) k = Some q \<longrightarrow> js_get (rp_requests r) k' = Some q' \<longrightarrow>
        rr_status q = RecPending \<longrightarrow> rr_status q' = RecPending \<longrightarrow> rr_organizationId q = rr_organizationId q' \<longrightarrow>
        rr_sourceCheckoutIntentId q = rr_sourceCheckoutIntentId q' \<longrightarrow> k = k')"

lemma find_map_pairs:
  "(\<And>k v. p (k, g k v) = p (k, v)) \<Longrightarrow>
     find p (map (\<lambda>(k, v). (k, g k v)) m) = map_option (\<lambda>(k, v). (k, g k v)) (find p m)"
  by (induction m) auto

lemma js_get_map_pairs: "js_get (map (\<lambda>(k, v). (k, f v)) m) k = map_option f (js_get m k)"
  by (simp add: js_get_def map_of_map)

lemma js_keys_map_pairs: "js_keys (map (\<lambda>(k, v). (k, f v)) m) = js_keys m"
  by (induction m) (auto simp: js_keys_def)

lemma cancel_request_fields [simp]:
  "rr_id (cancel_request org iid q) = rr_id q" "rr_tokenHash (cancel_request org iid q) = rr_tokenHash q"
  "rr_organizationId (cancel_request org iid q) = rr_organizationId q"
  "rr_sourceCheckoutIntentId (cancel_request org iid q) = rr_sourceCheckoutIntentId q"
  "rr_consumedAt (cancel_request org iid q) = rr_consumedAt q" "rr_expiresAt (cancel_request org iid q) = rr_expiresAt q"
  by (simp_all add: cancel_request_def)

lemma cancel_request_status:
  "rr_status (cancel_request org iid q) = RecPending \<longleftrightarrow>
     rr_status q = RecPending \<and> \<not> (rr_organizationId q = org \<and> rr_sourceCheckoutIntentId q = iid)"
  "rr_status (cancel_request org iid q) = RecConsumed \<longleftrightarrow> rr_status q = RecConsumed"
  "rr_status q \<noteq> RecPending \<Longrightarrow> cancel_request org iid q = q"
  by (auto simp: cancel_request_def)

text \<open>Requests are built, cancelled, expired or used; each keeps the well-formedness.\<close>

lemma requests_ok_cancel: "requests_ok r \<Longrightarrow> requests_ok (cancel_pending_requests org iid r)"
  unfolding requests_ok_def cancel_pending_requests_def
  by (auto simp: js_wf_def js_keys_map_pairs js_get_map_pairs cancel_request_status)

lemma requests_ok_same: "requests_ok r \<Longrightarrow> rp_requests r' = rp_requests r \<Longrightarrow> requests_ok r'"
  by (simp add: requests_ok_def)

lemma requests_ok_settle:
  assumes "requests_ok r" "\<And>q. rr_id (f q) = rr_id q" "\<And>q. rr_status (f q) \<noteq> RecPending"
    and "\<And>q. js_get (rp_requests r) k = Some q \<Longrightarrow> (rr_status (f q) = RecConsumed \<longleftrightarrow> rr_consumedAt (f q) \<noteq> None) \<and>
        (\<forall>t. rr_consumedAt (f q) = Some t \<longrightarrow> t < rr_expiresAt (f q))"
  shows "requests_ok (r\<lparr>rp_requests := js_modify k f (rp_requests r)\<rparr>)"
  using assms unfolding requests_ok_def by (auto split: if_splits)

lemma find_request_get:
  assumes "requests_ok r" "find_request_by_hash hash r = Some (k, q)"
  shows "js_get (rp_requests r) k = Some q \<and> rr_tokenHash q = hash \<and> rr_id q = k"
proof -
  from find_Some_iff_in [OF assms(2) [unfolded find_request_by_hash_def]]
  have "(k, q) \<in> set (rp_requests r)" "rr_tokenHash q = hash" by auto
  with assms(1) show ?thesis by (simp add: requests_ok_def js_wf_get)
qed

lemma requests_ok_create:
  assumes ok: "requests_ok r" and fresh: "fresh_op (OpCreate p k now) r"
  shows "requests_ok (snd (create_recovery_request p k now r))"
proof -
  let ?r = "cancel_pending_requests (rq_organizationId p) (rq_sourceCheckoutIntentId p) r"
  have ok': "requests_ok ?r" by (rule requests_ok_cancel [OF ok])
  have none: "rr_status q \<noteq> RecPending" if "js_get (rp_requests ?r) k = Some q" "rr_organizationId q = rq_organizationId p"
    "rr_sourceCheckoutIntentId q = rq_sourceCheckoutIntentId p" for k q
    using that by (auto simp: cancel_pending_requests_def js_get_map_pairs cancel_request_status)
  have fresh': "js_get (rp_requests ?r) (case rq_id p of Some i \<Rightarrow> i | None \<Rightarrow> k) = None"
    using fresh by (simp add: cancel_pending_requests_def js_get_map_pairs)
  have add: "requests_ok (?r\<lparr>rp_requests := js_set j q (rp_requests ?r)\<rparr>)"
    if "rr_id q = j" "js_get (rp_requests ?r) j = None" "rr_status q = RecPending" "rr_consumedAt q = None"
      "rr_organizationId q = rq_organizationId p" "rr_sourceCheckoutIntentId q = rq_sourceCheckoutIntentId p" for j q
    using ok' none that unfolding requests_ok_def by (auto split: if_splits)
  show ?thesis
  proof (cases "js_get (rp_intents r) (rq_sourceCheckoutIntentId p)")
    case (Some i)
    with ok show ?thesis by (simp add: create_recovery_request_def Let_def) (intro impI add, simp_all add: fresh')
  qed (simp add: create_recovery_request_def ok)
qed

lemma requests_ok_consume:
  assumes "requests_ok r" shows "requests_ok (snd (consume_recovery_request h org at now r))"
proof (cases "find_request_by_hash h r")
  case None
  with assms show ?thesis by (simp add: consume_recovery_request_def Let_def)
next
  case (Some kq)
  obtain k q where kq: "kq = (k, q)" by (cases kq)
  have q: "js_get (rp_requests r) k = Some q" using find_request_get [OF assms] Some kq by simp
  have expire: "requests_ok (r\<lparr>rp_requests := js_modify k (\<lambda>q. q\<lparr>rr_status := RecExpired\<rparr>) (rp_requests r)\<rparr>)"
    if "rr_status q = RecPending"
  proof -
    have "rr_consumedAt q = None" using assms q that unfolding requests_ok_def by (metis recovery_status.distinct(1))
    then show ?thesis by (intro requests_ok_settle [OF assms]) (use q in auto)
  qed
  have use: "requests_ok (r\<lparr>rp_requests := js_modify k (\<lambda>q. q\<lparr>rr_status := RecConsumed, rr_consumedAt := Some t\<rparr>) (rp_requests r)\<rparr>)"
    if "t < rr_expiresAt q" for t
    by (rule requests_ok_settle [OF assms]) (use q that in auto)
  show ?thesis using Some kq assms expire use
    by (simp add: consume_recovery_request_def Let_def)
qed

lemma requests_ok_invalidate: "requests_ok r \<Longrightarrow> requests_ok (snd (invalidate_recovery_intent a b r))"
  by (auto simp: invalidate_recovery_intent_def split: option.split intro!: requests_ok_cancel elim: requests_ok_same)

lemma requests_ok_op: "requests_ok r \<Longrightarrow> fresh_op f r \<Longrightarrow> requests_ok (run_op f r)"
  by (cases f)
    (auto simp: add_recovery_intent_def add_order_projection_def add_class_entitlement_def add_membership_entitlement_def
      intro: requests_ok_same requests_ok_invalidate requests_ok_create requests_ok_consume simp del: fresh_op.simps(1))

lemma requests_ok_run: "recovery_run r r' \<Longrightarrow> requests_ok r \<Longrightarrow> requests_ok r'"
  by (induction rule: recovery_run.induct) (auto intro: requests_ok_op)

lemma requests_ok_empty [simp]: "requests_ok empty_recovery_repo"
  by (simp add: requests_ok_def empty_recovery_repo_def)

text \<open>A used request stays used and stays the one its token names.\<close>

definition token_used :: "string \<Rightarrow> string \<Rightarrow> int option \<Rightarrow> recovery_repo \<Rightarrow> bool" where
  "token_used hash k at r \<longleftrightarrow>
     (\<exists>q. find_request_by_hash hash r = Some (k, q) \<and> rr_status q = RecConsumed \<and> rr_consumedAt q = at)"

lemma token_used_map:
  assumes "token_used hash k at r" "rp_requests r' = map (\<lambda>(k, q). (k, g k q)) (rp_requests r)"
    and "\<And>k q. rr_tokenHash (g k q) = rr_tokenHash q"
    and "\<And>k q. rr_status q = RecConsumed \<Longrightarrow> (k, q) \<in> set (rp_requests r) \<Longrightarrow> g k q = q"
  shows "token_used hash k at r'"
proof -
  from assms(1) obtain q where q: "find (\<lambda>(k, q). rr_tokenHash q = hash) (rp_requests r) = Some (k, q)"
    "rr_status q = RecConsumed" "rr_consumedAt q = at" by (auto simp: token_used_def find_request_by_hash_def)
  have "find (\<lambda>(k, q). rr_tokenHash q = hash) (rp_requests r') = Some (k, g k q)"
    unfolding assms(2) by (subst find_map_pairs) (simp_all add: assms(3) q)
  moreover have "g k q = q" using find_Some_iff_in [OF q(1)] q(2) assms(4) by blast
  ultimately show ?thesis using q by (simp add: token_used_def find_request_by_hash_def)
qed

lemma token_used_append:
  "token_used hash k at r \<Longrightarrow> rp_requests r' = rp_requests r @ xs \<Longrightarrow> token_used hash k at r'"
  by (auto simp: token_used_def find_request_by_hash_def find_append_Some)

lemma token_used_cancel: "token_used hash k at r \<Longrightarrow> token_used hash k at (cancel_pending_requests org iid r)"
  by (rule token_used_map [where g = "\<lambda>k. cancel_request org iid"])
    (simp_all add: cancel_pending_requests_def cancel_request_status)

lemma token_used_modify:
  assumes "requests_ok r" "token_used hash k at r" "js_get (rp_requests r) j = Some q" "rr_status q \<noteq> RecConsumed"
    and "\<And>q. rr_tokenHash (f q) = rr_tokenHash q"
  shows "token_used hash k at (r\<lparr>rp_requests := js_modify j f (rp_requests r)\<rparr>)"
proof (rule token_used_map [OF assms(2), where g = "\<lambda>k v. if k = j then f v else v"])
  fix k' q' assume "rr_status q' = RecConsumed" "(k', q') \<in> set (rp_requests r)"
  moreover from this have "js_get (rp_requests r) k' = Some q'" using assms(1) by (simp add: requests_ok_def js_wf_get)
  ultimately show "(if k' = j then f q' else q') = q'" using assms(3,4) by auto
qed (simp_all add: js_modify_def assms(5))

lemma token_used_consume:
  assumes "requests_ok r" "token_used hash k at r" shows "token_used hash k at (snd (consume_recovery_request h org t now r))"
proof (cases "find_request_by_hash h r")
  case None
  with assms show ?thesis by (simp add: consume_recovery_request_def Let_def)
next
  case (Some jq)
  obtain j q where jq: "jq = (j, q)" by (cases jq)
  have "js_get (rp_requests r) j = Some q" using find_request_get [OF assms(1)] Some jq by simp
  then show ?thesis using Some jq assms
    by (auto simp: consume_recovery_request_def Let_def intro!: token_used_modify)
qed

lemma token_used_op: "requests_ok r \<Longrightarrow> token_used hash k at r \<Longrightarrow> fresh_op f r \<Longrightarrow> token_used hash k at (run_op f r)"
proof (cases f)
  case (OpCreate p rid now)
  assume used: "token_used hash k at r" and fresh: "fresh_op f r"
  let ?r = "cancel_pending_requests (rq_organizationId p) (rq_sourceCheckoutIntentId p) r"
  have "js_get (rp_requests ?r) (case rq_id p of Some i \<Rightarrow> i | None \<Rightarrow> rid) = None"
    using fresh OpCreate by (simp add: cancel_pending_requests_def js_get_map_pairs)
  then show ?thesis using used OpCreate
    by (simp add: create_recovery_request_def Let_def js_set_fresh token_used_append [OF token_used_cancel [OF used]] split: option.split)
next
  case (OpInvalidate a b)
  assume used: "token_used hash k at r"
  have "token_used hash k at (r\<lparr>rp_intents := m\<rparr>)" for m using used by (rule token_used_append [where xs = "[]"]) simp
  then show ?thesis using used OpInvalidate
    by (simp add: invalidate_recovery_intent_def token_used_cancel split: option.split)
qed (auto simp: add_recovery_intent_def add_order_projection_def add_class_entitlement_def add_membership_entitlement_def
    intro: token_used_consume elim: token_used_append [where xs = "[]"])

lemma token_used_run: "recovery_run r r' \<Longrightarrow> requests_ok r \<Longrightarrow> token_used hash k at r \<Longrightarrow> token_used hash k at r'"
  by (induction rule: recovery_run.induct) (auto intro: token_used_op requests_ok_run)

lemma consume_cases:
  assumes "consume_recovery_request h org t now r = (Inr q, r')" "requests_ok r"
  shows "token_used h (rr_id q) (rr_consumedAt q) r' \<and> requests_ok r' \<and> rr_status q = RecConsumed"
proof -
  have ok': "requests_ok r'" using requests_ok_consume [OF assms(2), of h org t now] assms(1) by simp
  from assms(1) obtain k q0 at where f: "find_request_by_hash h r = Some (k, q0)"
    and q: "q = q0\<lparr>rr_status := RecConsumed, rr_consumedAt := Some at\<rparr>"
    and r': "r' = r\<lparr>rp_requests := js_modify k (\<lambda>q. q\<lparr>rr_status := RecConsumed, rr_consumedAt := Some at\<rparr>) (rp_requests r)\<rparr>"
    by (auto simp: consume_recovery_request_def Let_def split: option.splits if_splits)
  have k: "rr_id q0 = k" using find_request_get [OF assms(2) f] by simp
  have "find (\<lambda>(k, q). rr_tokenHash q = h) (rp_requests r') = Some (k, q)"
    using f unfolding r' find_request_by_hash_def js_modify_def by (simp add: find_map_pairs q)
  then show ?thesis using ok' k q by (simp add: token_used_def find_request_by_hash_def)
qed

section \<open>Properties\<close>

text \<open>
  In every store that operations built, a checkout intent has at most one pending recovery
  request, and a request records when it was used exactly if it was used, before it expired.
\<close>
theorem one_pending_recovery_request:
  assumes "recovery_run empty_recovery_repo r" "js_get (rp_requests r) k = Some q" "js_get (rp_requests r) k' = Some q'"
  shows "(rr_status q = RecPending \<and> rr_status q' = RecPending \<and> rr_organizationId q = rr_organizationId q' \<and>
      rr_sourceCheckoutIntentId q = rr_sourceCheckoutIntentId q' \<longrightarrow> k = k') \<and>
    (rr_status q = RecConsumed \<longleftrightarrow> (\<exists>t < rr_expiresAt q. rr_consumedAt q = Some t))"
proof -
  have ok: "requests_ok r" by (rule requests_ok_run [OF assms(1) requests_ok_empty])
  then have "rr_status q = RecConsumed \<longleftrightarrow> rr_consumedAt q \<noteq> None" "\<forall>t. rr_consumedAt q = Some t \<longrightarrow> t < rr_expiresAt q"
    using assms(2) unfolding requests_ok_def by blast+
  moreover have "rr_status q = RecPending \<and> rr_status q' = RecPending \<and> rr_organizationId q = rr_organizationId q' \<and>
      rr_sourceCheckoutIntentId q = rr_sourceCheckoutIntentId q' \<longrightarrow> k = k'"
    using ok assms(2,3) unfolding requests_ok_def by blast
  ultimately show ?thesis by auto
qed

text \<open>
  A recovery token is used once.  After a request was consumed, whatever operations follow,
  consuming its token again fails and changes nothing, and the request keeps the time of its use.
\<close>
theorem recovery_token_used_once:
  assumes "recovery_run empty_recovery_repo r" "consume_recovery_request hash org at now r = (Inr q, r1)" "recovery_run r1 r2"
  shows "(\<exists>e. consume_recovery_request hash org' at' now' r2 = (Inl e, r2)) \<and>
    (\<exists>q'. js_get (rp_requests r2) (rr_id q) = Some q' \<and> rr_status q' = RecConsumed \<and> rr_consumedAt q' = rr_consumedAt q)"
proof -
  from consume_cases [OF assms(2) requests_ok_run [OF assms(1) requests_ok_empty]]
  have 1: "token_used hash (rr_id q) (rr_consumedAt q) r1" "requests_ok r1" by simp_all
  have ok: "requests_ok r2" by (rule requests_ok_run [OF assms(3) 1(2)])
  from token_used_run [OF assms(3) 1(2,1)] obtain q' where "find_request_by_hash hash r2 = Some (rr_id q, q')"
    "rr_status q' = RecConsumed" "rr_consumedAt q' = rr_consumedAt q" by (auto simp: token_used_def)
  with find_request_get [OF ok] show ?thesis by (auto simp: consume_recovery_request_def Let_def)
qed

section \<open>A request created and used\<close>

definition demo_recovery_intent :: checkout_intent where
  "demo_recovery_intent = the (js_get (cr_intents demo_checkout) ''i1'')"

definition demo_recovery_params :: recovery_params where
  "demo_recovery_params = \<lparr>rq_id = None, rq_organizationId = ''org'', rq_customerId = ''cust'', rq_sourceCheckoutIntentId = ''i1'',
     rq_tokenHash = ''h1'', rq_requestedByActorUid = ''admin'', rq_expiresAt = 100\<rparr>"

definition demo_recovery_repo :: recovery_repo where
  "demo_recovery_repo = run_op (OpCreate demo_recovery_params ''r1'' 0) (run_op (OpIntent demo_recovery_intent) empty_recovery_repo)"

lemma demo_recovery_run: "recovery_run empty_recovery_repo demo_recovery_repo"
proof -
  let ?r = "run_op (OpIntent demo_recovery_intent) empty_recovery_repo"
  have "recovery_run empty_recovery_repo ?r" by (rule run_step [OF run_refl]) simp
  moreover have "fresh_op (OpCreate demo_recovery_params ''r1'' 0) ?r" by code_simp
  ultimately show ?thesis unfolding demo_recovery_repo_def by (rule run_step)
qed

theorem one_pending_recovery_request_witness:
  "\<exists>q. js_get (rp_requests demo_recovery_repo) ''r1'' = Some q \<and> rr_status q = RecPending \<and> rr_consumedAt q = None"
proof -
  have "case js_get (rp_requests demo_recovery_repo) ''r1'' of None \<Rightarrow> False | Some q \<Rightarrow> rr_status q = RecPending \<and> rr_consumedAt q = None"
    by code_simp
  then obtain q where q: "js_get (rp_requests demo_recovery_repo) ''r1'' = Some q" "rr_status q = RecPending" "rr_consumedAt q = None"
    by (auto split: option.splits)
  with one_pending_recovery_request [OF demo_recovery_run q(1) q(1)] show ?thesis by blast
qed

theorem recovery_token_used_once_witness:
  "\<exists>r1 e q. consume_recovery_request ''h1'' (Some ''org'') None 50 demo_recovery_repo = (Inr q, r1) \<and>
     consume_recovery_request ''h1'' None None 60 r1 = (Inl e, r1)"
proof -
  have "case fst (consume_recovery_request ''h1'' (Some ''org'') None 50 demo_recovery_repo) of Inl _ \<Rightarrow> False | Inr _ \<Rightarrow> True"
    by code_simp
  then obtain q r1 where "consume_recovery_request ''h1'' (Some ''org'') None 50 demo_recovery_repo = (Inr q, r1)"
    by (metis prod.collapse sum.case_eq_if sum.collapse(2))
  with recovery_token_used_once [OF demo_recovery_run this run_refl] show ?thesis by blast
qed

end
