(* ===== verification/MembershipCheckout.thy ===== *)
theory MembershipCheckout
  imports CheckoutValidation
begin

text \<open>
  \<open>MembershipCheckoutService\<close> of \<open>packages/backend/src/checkout/membership-checkout-service.ts\<close> over the
  in-memory checkout repository, with the lifecycle read of
  \<open>packages/backend/src/commerce/entitlement-lifecycle.ts\<close> and the calendar dates of
  \<open>packages/common/src/entitlements.ts\<close>.  As in the class checkout, other requests may change the
  repository before every step that touches it.
\<close>

section \<open>Calendar dates in a timezone\<close>

text \<open>\<open>year: "numeric"\<close> has no leading zeros, month and day have two digits.\<close>

definition plain_date :: "cal_date \<Rightarrow> string" where
  "plain_date d = nat_digits (cd_year d) @ ''-'' @ pad 2 (cd_month d) @ ''-'' @ pad 2 (cd_day d)"

definition calendar_date_in_timezone :: "zones \<Rightarrow> string \<Rightarrow> string \<Rightarrow> string outcome" where
  "calendar_date_in_timezone zones instant tz =
     (if \<not> is_valid_iana_timezone zones tz then Inl (PlainError ''Organization timezone must be a valid IANA timezone.'')
      else if offset_suffix instant = None
      then Inl (PlainError ''Shopify fully-paid timestamp must include Z or an explicit numeric UTC offset.'')
      else (case Option.bind (iso_with_offset instant) parse_explicit_offset_iso of
              None \<Rightarrow> Inl (PlainError ''Shopify fully-paid timestamp must be a valid instant.'')
            | Some t \<Rightarrow> Inr (plain_date (date_of_day (nat (the (zones tz) t div 86400000 + 719528))))))"

definition derive_entitlement_dates :: "zones \<Rightarrow> string \<Rightarrow> string \<Rightarrow> int \<Rightarrow> (string \<times> string) outcome" where
  "derive_entitlement_dates zones paid_at tz days =
     and_then (calendar_date_in_timezone zones paid_at tz) (\<lambda>starts.
     and_then (add_calendar_days starts days) (\<lambda>ends. Inr (starts, ends)))"

section \<open>Memberships on record\<close>

record membership_grant = lifecycle_input +
  mg_entitlementClass :: string
  mg_status :: "string option"

definition lifecycle_for_entitlement_read :: "membership_grant \<Rightarrow> string \<Rightarrow> lifecycle outcome" where
  "lifecycle_for_entitlement_read g today =
     (if mg_status g = Some ''revoked'' then Inr Revoked
      else if mg_status g = Some ''superseded'' \<and> \<not> truthy (li_supersededOn g) then Inr Superseded
      else derive_lifecycle (lifecycle_input.truncate g) today)"

text \<open>\<open>xs.some(p)\<close> with a predicate that may throw.\<close>

fun some_outcome :: "('a \<Rightarrow> bool outcome) \<Rightarrow> 'a list \<Rightarrow> bool outcome" where
  "some_outcome p [] = Inr False"
| "some_outcome p (x # xs) = and_then (p x) (\<lambda>b. if b then Inr True else some_outcome p xs)"

definition TEACHER_MEMBERSHIP_ENTITLEMENT_CLASS :: string where
  "TEACHER_MEMBERSHIP_ENTITLEMENT_CLASS = ''teacher_membership''"

text \<open>An active teacher membership that ends after the renewal window.\<close>

definition ineligible_active :: "string \<Rightarrow> membership_grant \<Rightarrow> bool outcome" where
  "ineligible_active today g =
     (if mg_entitlementClass g \<noteq> TEACHER_MEMBERSHIP_ENTITLEMENT_CLASS then Inr False
      else and_then (lifecycle_for_entitlement_read g today) (\<lambda>l.
        if l \<noteq> Active then Inr False
        else and_then (calendar_days_until today (li_endsOn g)) (\<lambda>n. Inr (TEACHER_MEMBERSHIP_RENEWAL_WINDOW_DAYS < n))))"

section \<open>Outside\<close>

record displayed_product =
  dp_id :: string
  dp_name :: string
  dp_available :: bool
  dp_amount :: string
  dp_priceCurrencyCode :: string

record membership_product =
  mp_productId :: string
  mp_durationDays :: int
  mp_shopifyProductGid :: string
  mp_shopifyVariantGid :: string
  mp_isActive :: bool

datatype membership_point = MLookup | MEligibility | MProcessing | MCreate | MLoad | MAttach | MStarted | MVerify | MFailed

record membership_world =
  mw_others :: "membership_point \<Rightarrow> checkout_repo \<Rightarrow> checkout_repo"
  mw_now :: "membership_point \<Rightarrow> int"
  mw_divisions :: "string \<Rightarrow> (string \<times> string) list"
  mw_timezone :: "string \<Rightarrow> string"
  mw_zones :: zones
  mw_grants :: "string \<Rightarrow> string \<Rightarrow> membership_grant list"
  mw_hasCommerce :: bool
  mw_hasScheduled :: "string \<Rightarrow> string \<Rightarrow> string \<Rightarrow> string \<Rightarrow> bool"
  mw_listing :: "string \<Rightarrow> displayed_product list outcome"
  mw_offering :: "string \<Rightarrow> string \<Rightarrow> membership_product option"
  mw_integration :: "membership_point \<Rightarrow> string \<Rightarrow> shopify_integration option"
  mw_createCart :: "string \<Rightarrow> string \<Rightarrow> string \<Rightarrow> string \<Rightarrow> string outcome"
  mw_checkout :: "string \<Rightarrow> string \<Rightarrow> string outcome"
  mw_parseUrl :: "string \<Rightarrow> parsed_url option"
  mw_intentId :: string
  mw_correlationId :: string
  mw_lineIds :: "nat \<Rightarrow> string"
  mw_cartReference :: string

record membership_input =
  mi_organizationId :: string
  mi_organizationSlug :: string
  mi_customerId :: string
  mi_sessionId :: string
  mi_integrationVersion :: int
  mi_buyerAccessToken :: string
  mi_idempotencyKey :: string
  mi_offeringId :: string
  mi_divisionId :: string
  mi_staffAccessConsent :: bool

definition on_repo :: "membership_world \<Rightarrow> membership_point \<Rightarrow> (checkout_repo \<Rightarrow> 'a outcome \<times> checkout_repo) \<Rightarrow> (checkout_repo, 'a) act" where
  "on_repo w p f = (\<lambda>r. f (mw_others w p r))"

definition mw_iso :: "membership_world \<Rightarrow> membership_point \<Rightarrow> string" where
  "mw_iso w p = to_iso (mw_now w p)"

section \<open>The service\<close>

definition verify_renewal_eligibility :: "membership_world \<Rightarrow> string \<Rightarrow> string \<Rightarrow> unit outcome" where
  "verify_renewal_eligibility w org customer =
     and_then (calendar_date_in_timezone (mw_zones w) (mw_iso w MEligibility) (mw_timezone w org)) (\<lambda>today.
     and_then (some_outcome (ineligible_active today) (mw_grants w org customer)) (\<lambda>active.
     and_then (guard (\<not> active) (AppError ''Teacher Membership already exists.'' 409 (Some ''membership_active''))) (\<lambda>_.
     guard (\<not> (mw_hasCommerce w \<and> mw_hasScheduled w org customer TEACHER_MEMBERSHIP_ENTITLEMENT_CLASS today))
       (AppError ''A Teacher Membership renewal is already scheduled.'' 409 (Some ''membership_active'')))))"

text \<open>The errors of an outcome that cannot go on; \<open>start\<close> and \<open>resume\<close> map them alike.\<close>

fun membership_outcome_error :: "intent_outcome \<Rightarrow> app_error option" where
  "membership_outcome_error OutcomeInProgress = Some (AppError ''Checkout is already in progress.'' 409 (Some ''checkout_in_progress''))"
| "membership_outcome_error OutcomeActive = Some (AppError ''Teacher Membership already exists.'' 409 (Some ''membership_active''))"
| "membership_outcome_error OutcomeExpired = Some (AppError ''Checkout has expired.'' 409 (Some ''checkout_expired''))"
| "membership_outcome_error OutcomeFailed = Some (AppError ''This checkout attempt cannot continue.'' 409 (Some ''checkout_terminal_failure''))"
| "membership_outcome_error _ = None"

definition context_changed :: app_error where
  "context_changed = AppError ''Customer checkout context has changed.'' 503 None"

text \<open>From \<open>markCheckoutStarted\<close> on: start, ask for the URL, verify it.\<close>

definition start_and_verify :: "membership_world \<Rightarrow> shopify_integration \<Rightarrow> string \<Rightarrow> string \<Rightarrow> string \<Rightarrow> (checkout_repo, string) act" where
  "start_and_verify w loaded org intent_id cart_id =
     act_bind (on_repo w MStarted (mark_checkout_started intent_id)) (\<lambda>_.
     act_bind (act_lift (mw_checkout w org cart_id)) (\<lambda>url.
     (case mw_integration w MVerify org of
        None \<Rightarrow> act_throw checkout_unavailable
      | Some now \<Rightarrow>
          if sy_integrationVersion now \<noteq> sy_integrationVersion loaded \<or>
             \<not> is_allowed_checkout_url (mw_parseUrl w) url (sy_storeDomain now)
          then act_throw checkout_unavailable else act_return url)))"

text \<open>\<open>catch (_error) { await markFailed(id); throw retryableCheckoutError(); }\<close>.\<close>

definition fail_intent :: "membership_world \<Rightarrow> string \<Rightarrow> app_error \<Rightarrow> (checkout_repo, 'a) act" where
  "fail_intent w intent_id e =
     act_bind (on_repo w MFailed (\<lambda>r. (Inr (), mark_failed intent_id r))) (\<lambda>_. act_throw retryable_checkout_error)"

definition create_membership_cart ::
    "membership_world \<Rightarrow> membership_input \<Rightarrow> checkout_intent \<Rightarrow> string \<Rightarrow> (checkout_repo, checkout_cart) act" where
  "create_membership_cart w input intent expires =
     act_bind (act_lift (mw_createCart w (mi_organizationId input) (xi_shopifyVariantGid intent) (mi_buyerAccessToken input)
        (xi_correlationId intent))) (\<lambda>cart_id.
     on_repo w MAttach (attach_cart
        \<lparr>at_intentId = xi_id intent, at_shopifyCartId = cart_id, at_organizationId = mi_organizationId input,
         at_customerId = mi_customerId input, at_sessionId = mi_sessionId input,
         at_integrationVersion = mi_integrationVersion input, at_expiresAtIso = expires\<rparr>
        None (mw_cartReference w) (mw_iso w MAttach)))"

definition resume_membership :: "membership_world \<Rightarrow> membership_input \<Rightarrow> checkout_intent \<Rightarrow> checkout_cart \<Rightarrow> (checkout_repo, string) act" where
  "resume_membership w input intent cart =
     act_catch
       (case mw_integration w MLoad (mi_organizationId input) of
          None \<Rightarrow> act_throw context_changed
        | Some loaded \<Rightarrow>
            if kc_integrationVersion cart \<noteq> mi_integrationVersion input then act_throw context_changed
            else start_and_verify w loaded (mi_organizationId input) (xi_id intent) (kc_shopifyCartId cart))
       (fail_intent w (xi_id intent))"

text \<open>\<open>cart\<close> is the cart of a ready outcome; a created intent gets one.\<close>

definition run_membership_checkout ::
    "membership_world \<Rightarrow> membership_input \<Rightarrow> checkout_intent \<Rightarrow> checkout_cart option \<Rightarrow> string \<Rightarrow> (checkout_repo, string) act" where
  "run_membership_checkout w input intent cart expires =
     act_catch
       (case mw_integration w MLoad (mi_organizationId input) of
          None \<Rightarrow> act_throw checkout_unavailable
        | Some loaded \<Rightarrow>
            act_bind (case cart of Some k \<Rightarrow> act_return k | None \<Rightarrow> create_membership_cart w input intent expires) (\<lambda>k.
            if kc_integrationVersion k \<noteq> mi_integrationVersion input then act_throw context_changed
            else start_and_verify w loaded (mi_organizationId input) (xi_id intent) (kc_shopifyCartId k)))
       (fail_intent w (xi_id intent))"

text \<open>What the request asks to buy, checked before an intent is created.\<close>

definition membership_selection :: "membership_world \<Rightarrow> membership_input \<Rightarrow> (displayed_product \<times> membership_product) outcome" where
  "membership_selection w input =
     (let gone = AppError ''Membership selection is unavailable.'' 409 None in
      and_then (mw_listing w (mi_organizationSlug input)) (\<lambda>products.
      (case find (\<lambda>p. dp_id p = mi_offeringId input) products of
         None \<Rightarrow> Inl gone
       | Some d \<Rightarrow>
           if \<not> dp_available d then Inl gone
           else (case mw_offering w (mi_organizationId input) ''teacher_membership'' of
                   None \<Rightarrow> Inl gone
                 | Some offering \<Rightarrow> if mp_productId offering \<noteq> mi_offeringId input then Inl gone else Inr (d, offering)))))"

definition membership_intent_input ::
    "membership_input \<Rightarrow> string \<times> string \<Rightarrow> displayed_product \<Rightarrow> membership_product \<Rightarrow> string \<Rightarrow> create_intent_input" where
  "membership_intent_input input division d offering expires =
     \<lparr>ni_organizationId = mi_organizationId input, ni_customerId = mi_customerId input, ni_sessionId = mi_sessionId input,
      ni_idempotencyKey = mi_idempotencyKey input, ni_intentType = None, ni_offeringId = Some (mp_productId offering),
      ni_entitlementClass = Some ''teacher_membership'', ni_durationDays = Some (mp_durationDays offering),
      ni_festivalClassId = None, ni_childId = None, ni_shopifyProductGid = mp_shopifyProductGid offering,
      ni_shopifyVariantGid = mp_shopifyVariantGid offering, ni_policyVersion = Some ''v1'',
      ni_divisionId = Some (fst division), ni_divisionNameSnapshot = Some (snd division),
      ni_staffAccessConsent = Some (mi_staffAccessConsent input), ni_amount = dp_amount d,
      ni_currencyCode = dp_priceCurrencyCode d, ni_expiresAtIso = expires, ni_lines = None\<rparr>"

text \<open>From the renewal check on: the checks left, the intent, the storefront.\<close>

definition buy_membership :: "membership_world \<Rightarrow> membership_input \<Rightarrow> string \<times> string \<Rightarrow> (checkout_repo, string) act" where
  "buy_membership w input division =
     (let org = mi_organizationId input; customer = mi_customerId input; expires = to_iso (mw_now w MCreate + 30 * 60000) in
      act_bind (act_lift (verify_renewal_eligibility w org customer)) (\<lambda>_.
      act_bind (on_repo w MProcessing (\<lambda>r. (guard (\<not> has_processing_intent org customer (mw_iso w MProcessing) r)
         (AppError ''Checkout is already in progress.'' 409 (Some ''checkout_in_progress'')), r))) (\<lambda>_.
      act_bind (act_lift (membership_selection w input)) (\<lambda>(d, offering).
      act_bind (on_repo w MCreate (\<lambda>r. case create_intent (membership_intent_input input division d offering expires)
         (mw_intentId w) (mw_correlationId w) (mw_lineIds w) (mw_iso w MCreate) r of (outcome, r') \<Rightarrow> (Inr outcome, r'))) (\<lambda>outcome.
      (case outcome of
         OutcomeReady intent cart \<Rightarrow> run_membership_checkout w input intent (Some cart) expires
       | OutcomeCreated intent \<Rightarrow> run_membership_checkout w input intent None expires
       | _ \<Rightarrow> act_throw (the (membership_outcome_error outcome))))))))"

definition start_membership_checkout :: "membership_world \<Rightarrow> membership_input \<Rightarrow> (checkout_repo, string) act" where
  "start_membership_checkout w input =
     (let org = mi_organizationId input; customer = mi_customerId input in
      act_bind (act_lift (guard (js_trim (mi_divisionId input) \<noteq> [] \<and> mi_staffAccessConsent input)
         (AppError ''Select a division and agree to sharing data before purchasing.'' 400 None))) (\<lambda>_.
      act_bind (on_repo w MLookup (\<lambda>r. (Inr (get_outcome org customer (mi_sessionId input) (mi_idempotencyKey input)
         (mw_iso w MLookup) r), r))) (\<lambda>existing.
      (case existing of
         Some (OutcomeReady intent cart) \<Rightarrow> resume_membership w input intent cart
       | Some outcome \<Rightarrow> act_throw (case membership_outcome_error outcome of Some e \<Rightarrow> e | None \<Rightarrow> retryable_checkout_error)
       | None \<Rightarrow>
           (case find (\<lambda>(k, _). k = mi_divisionId input) (mw_divisions w org) of
              None \<Rightarrow> act_throw (AppError ''Membership division is unavailable.'' 409 None)
            | Some division \<Rightarrow> buy_membership w input division)))))"

section \<open>What the steps keep of an intent\<close>

text \<open>Everything but the status and the cart.\<close>

definition intent_core :: "checkout_intent \<Rightarrow> checkout_intent" where
  "intent_core i = i\<lparr>xi_status := IntentCreating, xi_cartReference := None\<rparr>"

definition core_of :: "string \<Rightarrow> checkout_repo \<Rightarrow> checkout_intent option" where
  "core_of iid r = map_option intent_core (js_get (cr_intents r) iid)"

definition keeps_core :: "string \<Rightarrow> (checkout_repo, 'a) act \<Rightarrow> bool" where
  "keeps_core iid m \<longleftrightarrow> (\<forall>r res r'. m r = (res, r') \<longrightarrow> core_of iid r' = core_of iid r)"

text \<open>Other requests do not touch the intent.\<close>

definition leaves_intent :: "membership_world \<Rightarrow> string \<Rightarrow> bool" where
  "leaves_intent w iid \<longleftrightarrow> (\<forall>p r. js_get (cr_intents (mw_others w p r)) iid = js_get (cr_intents r) iid)"

lemma keeps_core_D: "keeps_core iid m \<Longrightarrow> m r = (res, r') \<Longrightarrow> core_of iid r' = core_of iid r"
  by (simp add: keeps_core_def)

lemma keeps_core_basic [simp]: "keeps_core iid (act_return x)" "keeps_core iid (act_throw e)" "keeps_core iid (act_lift o')"
  by (simp_all add: keeps_core_def)

lemma keeps_core_bind: "keeps_core iid m \<Longrightarrow> (\<And>x. keeps_core iid (k x)) \<Longrightarrow> keeps_core iid (act_bind m k)"
  unfolding keeps_core_def by (auto elim!: act_bind_cases)

lemma keeps_core_catch: "keeps_core iid m \<Longrightarrow> (\<And>e. keeps_core iid (h e)) \<Longrightarrow> keeps_core iid (act_catch m h)"
  unfolding keeps_core_def act_catch_def by (auto split: prod.splits sum.splits)

lemma keeps_core_on_repo:
  assumes "leaves_intent w iid" "\<And>r res r'. f r = (res, r') \<Longrightarrow> core_of iid r' = core_of iid r"
  shows "keeps_core iid (on_repo w p f)"
  using assms unfolding keeps_core_def on_repo_def leaves_intent_def core_of_def by metis

lemma core_modify:
  "(\<And>i. intent_core (f i) = intent_core i) \<Longrightarrow>
     map_option intent_core (js_get (js_modify k f m) iid) = map_option intent_core (js_get m iid)"
  by (simp add: option.map_comp o_def)

lemma core_simps [simp]: "intent_core (i\<lparr>xi_status := s\<rparr>) = intent_core i"
  "intent_core (i\<lparr>xi_cartReference := c\<rparr>) = intent_core i"
  by (simp_all add: intent_core_def)

lemma core_mark_failed [simp]: "core_of iid (mark_failed k r) = core_of iid r"
  by (simp add: core_of_def mark_failed_def set_intent_status_def set_cart_status_def core_modify del: jsm.get_modify split: option.split)

lemma core_mark_started: "mark_checkout_started k r = (res, r') \<Longrightarrow> core_of iid r' = core_of iid r"
  by (auto simp: core_of_def mark_checkout_started_def set_intent_status_def set_cart_status_def core_modify simp del: jsm.get_modify
      split: option.splits if_splits)

lemma core_attach: "attach_cart input e ref now r = (res, r') \<Longrightarrow> core_of iid r' = core_of iid r"
  by (auto simp: core_of_def attach_cart_def Let_def core_modify simp del: jsm.get_modify split: option.splits if_splits)

lemma keeps_steps:
  assumes "leaves_intent w iid"
  shows "keeps_core iid (start_and_verify w loaded org k c)" "keeps_core iid (fail_intent w k e)"
    "keeps_core iid (create_membership_cart w input intent expires)"
proof -
  show "keeps_core iid (start_and_verify w loaded org k c)"
    unfolding start_and_verify_def
    by (intro keeps_core_bind keeps_core_on_repo assms core_mark_started) (auto split: option.split)
  show "keeps_core iid (fail_intent w k e)"
    unfolding fail_intent_def by (intro keeps_core_bind keeps_core_on_repo assms) auto
  show "keeps_core iid (create_membership_cart w input intent expires)"
    unfolding create_membership_cart_def by (intro keeps_core_bind keeps_core_on_repo assms core_attach) auto
qed

lemma keeps_runs:
  assumes "leaves_intent w iid"
  shows "keeps_core iid (resume_membership w input intent cart)"
    "keeps_core iid (run_membership_checkout w input intent k expires)"
proof -
  note steps = keeps_steps [OF assms]
  show "keeps_core iid (resume_membership w input intent cart)"
    unfolding resume_membership_def by (intro keeps_core_catch steps) (simp add: steps split: option.split)
  show "keeps_core iid (run_membership_checkout w input intent k expires)"
    unfolding run_membership_checkout_def
    by (intro keeps_core_catch steps) (auto simp: steps intro!: keeps_core_bind split: option.split)
qed

section \<open>How a run ends\<close>

definition membership_url_ok :: "membership_world \<Rightarrow> string \<Rightarrow> string \<Rightarrow> bool" where
  "membership_url_ok w org url \<longleftrightarrow>
     (\<exists>loaded now. mw_integration w MLoad org = Some loaded \<and> mw_integration w MVerify org = Some now \<and>
        sy_integrationVersion now = sy_integrationVersion loaded \<and> is_allowed_checkout_url (mw_parseUrl w) url (sy_storeDomain now))"

lemma start_and_verify_ok:
  assumes "start_and_verify w loaded org iid c r = (Inr url, r')" "mw_integration w MLoad org = Some loaded"
  shows "membership_url_ok w org url \<and> (\<exists>i. js_get (cr_intents r') iid = Some i \<and> xi_status i = IntentStarted)"
proof -
  from assms(1) obtain u where "mark_checkout_started iid (mw_others w MStarted r) = (Inr u, r')"
    and "membership_url_ok w org url"
    using assms(2) unfolding start_and_verify_def on_repo_def membership_url_ok_def
    by (auto simp: act_bind_eq_Inr split: option.splits if_splits)
  then show ?thesis by (auto dest: mark_started_status)
qed

lemma fail_intent_ends:
  assumes "fail_intent w iid e r = (res, r')"
  shows "res = Inl retryable_checkout_error \<and> (\<forall>i. js_get (cr_intents r') iid = Some i \<longrightarrow> xi_status i = IntentFailed)"
  using assms by (auto simp: fail_intent_def on_repo_def elim!: act_bind_cases dest: mark_failed_status)

lemma run_ends:
  assumes "run_membership_checkout w input intent k expires r = (res, r')"
  shows "(\<exists>url i. res = Inr url \<and> membership_url_ok w (mi_organizationId input) url \<and>
      js_get (cr_intents r') (xi_id intent) = Some i \<and> xi_status i = IntentStarted) \<or>
    (res = Inl retryable_checkout_error \<and>
      (\<forall>i. js_get (cr_intents r') (xi_id intent) = Some i \<longrightarrow> xi_status i = IntentFailed))"
proof (cases res)
  case (Inl e)
  from assms [unfolded Inl run_membership_checkout_def] show ?thesis
    by (rule act_catch_Inl) (use Inl in \<open>auto dest: fail_intent_ends\<close>)
next
  case (Inr url)
  let ?body = "case mw_integration w MLoad (mi_organizationId input) of
          None \<Rightarrow> act_throw checkout_unavailable
        | Some loaded \<Rightarrow>
            act_bind (case k of Some k \<Rightarrow> act_return k | None \<Rightarrow> create_membership_cart w input intent expires) (\<lambda>k.
            if kc_integrationVersion k \<noteq> mi_integrationVersion input then act_throw context_changed
            else start_and_verify w loaded (mi_organizationId input) (xi_id intent) (kc_shopifyCartId k))"
  have "?body r = (Inr url, r')"
    using assms [unfolded Inr run_membership_checkout_def] by (rule act_catch_Inr) (auto dest: fail_intent_ends)
  then have "membership_url_ok w (mi_organizationId input) url \<and>
      (\<exists>i. js_get (cr_intents r') (xi_id intent) = Some i \<and> xi_status i = IntentStarted)"
    by (auto simp: act_bind_eq_Inr split: option.splits if_splits dest: start_and_verify_ok)
  with Inr show ?thesis by blast
qed

lemma find_SomeD: "find p xs = Some x \<Longrightarrow> x \<in> set xs \<and> p x"
  by (auto simp: find_Some_iff)

lemma some_outcome_False: "some_outcome p xs = Inr False \<Longrightarrow> x \<in> set xs \<Longrightarrow> p x = Inr False"
  by (induction xs) (auto simp: and_then_eq_Inr split: if_splits)

lemma renewal_eligible:
  assumes "verify_renewal_eligibility w org customer = Inr ()"
  shows "\<exists>today. calendar_date_in_timezone (mw_zones w) (mw_iso w MEligibility) (mw_timezone w org) = Inr today \<and>
    (\<forall>g \<in> set (mw_grants w org customer). mg_entitlementClass g = ''teacher_membership'' \<longrightarrow>
       lifecycle_for_entitlement_read g today = Inr Active \<longrightarrow>
       (\<exists>n. calendar_days_until today (li_endsOn g) = Inr n \<and> n \<le> 30)) \<and>
    \<not> (mw_hasCommerce w \<and> mw_hasScheduled w org customer ''teacher_membership'' today)"
proof -
  from assms obtain today where today: "calendar_date_in_timezone (mw_zones w) (mw_iso w MEligibility) (mw_timezone w org) = Inr today"
    "some_outcome (ineligible_active today) (mw_grants w org customer) = Inr False"
    "\<not> (mw_hasCommerce w \<and> mw_hasScheduled w org customer ''teacher_membership'' today)"
    by (auto simp: verify_renewal_eligibility_def and_then_eq_Inr TEACHER_MEMBERSHIP_ENTITLEMENT_CLASS_def)
  moreover have "\<exists>n. calendar_days_until today (li_endsOn g) = Inr n \<and> n \<le> 30"
    if "g \<in> set (mw_grants w org customer)" "mg_entitlementClass g = ''teacher_membership''"
      "lifecycle_for_entitlement_read g today = Inr Active" for g
    using some_outcome_False [OF today(2) that(1)] that(2,3)
    by (auto simp: ineligible_active_def and_then_eq_Inr TEACHER_MEMBERSHIP_ENTITLEMENT_CLASS_def
        TEACHER_MEMBERSHIP_RENEWAL_WINDOW_DAYS_def)
  ultimately show ?thesis by blast
qed

lemma core_None_iff: "core_of iid r = None \<longleftrightarrow> js_get (cr_intents r) iid = None"
  by (simp add: core_of_def)

lemma create_intent_answer:
  assumes "create_intent input iid correlation line_ids now r = (outcome, r')"
  shows "(\<exists>v. outcome = OutcomeCreated v \<and> v = new_intent input iid correlation line_ids now \<and> js_get (cr_intents r') iid = Some v) \<or>
    ((\<forall>v. outcome \<noteq> OutcomeCreated v) \<and> r' = r)"
  using create_intent_cases [where r = r and input = input and now = now and iid = iid and correlation = correlation and line_ids = line_ids]
proof cases
  case (existing i)
  have "outcome_for now i r \<noteq> OutcomeCreated v" for v by (auto simp: outcome_for_def split: option.splits)
  with existing assms show ?thesis by auto
qed (use assms in auto)

text \<open>When the intent appears, the request passed every check and a new checkout was run.\<close>

definition membership_bought ::
    "membership_world \<Rightarrow> membership_input \<Rightarrow> string \<times> string \<Rightarrow> checkout_repo \<Rightarrow> string outcome \<Rightarrow> checkout_repo \<Rightarrow> bool" where
  "membership_bought w input division r1 res r' \<longleftrightarrow>
     verify_renewal_eligibility w (mi_organizationId input) (mi_customerId input) = Inr () \<and>
     (\<exists>d offering now expires. membership_selection w input = Inr (d, offering) \<and>
       (let v = new_intent (membership_intent_input input division d offering expires) (mw_intentId w) (mw_correlationId w) (mw_lineIds w) now
        in js_get (cr_intents r1) (mw_intentId w) = Some v \<and> run_membership_checkout w input v None expires r1 = (res, r')))"

lemma buy_membership_created:
  assumes run: "buy_membership w input division r = (res, r')" and w: "leaves_intent w (mw_intentId w)"
    and absent: "js_get (cr_intents r) (mw_intentId w) = None" and there: "js_get (cr_intents r') (mw_intentId w) \<noteq> None"
  shows "\<exists>r1. membership_bought w input division r1 res r'"
proof -
  let ?iid = "mw_intentId w" and ?org = "mi_organizationId input" and ?expires = "to_iso (mw_now w MCreate + 30 * 60000)"
  have same: "js_get (cr_intents (mw_others w p r)) ?iid = js_get (cr_intents r) ?iid" for p r
    using w by (simp add: leaves_intent_def)
  from run obtain d offering r2 outcome r3 where
    v: "verify_renewal_eligibility w ?org (mi_customerId input) = Inr ()" and sel: "membership_selection w input = Inr (d, offering)"
    and r2: "r2 = mw_others w MCreate (mw_others w MProcessing r)"
    and create: "create_intent (membership_intent_input input division d offering ?expires) ?iid (mw_correlationId w) (mw_lineIds w)
      (mw_iso w MCreate) r2 = (outcome, r3)"
    and rest: "(case outcome of
         OutcomeReady intent cart \<Rightarrow> run_membership_checkout w input intent (Some cart) ?expires
       | OutcomeCreated intent \<Rightarrow> run_membership_checkout w input intent None ?expires
       | _ \<Rightarrow> act_throw (the (membership_outcome_error outcome))) r3 = (res, r')"
    unfolding buy_membership_def Let_def using absent there
    by (auto simp: on_repo_def same elim!: act_bind_cases split: prod.splits)
  have r2_absent: "js_get (cr_intents r2) ?iid = None" using absent r2 same by simp
  from create_intent_answer [OF create] show ?thesis
  proof
    assume "\<exists>v. outcome = OutcomeCreated v \<and> v = new_intent (membership_intent_input input division d offering ?expires) ?iid
       (mw_correlationId w) (mw_lineIds w) (mw_iso w MCreate) \<and> js_get (cr_intents r3) ?iid = Some v"
    with v sel rest show ?thesis unfolding membership_bought_def Let_def by auto
  next
    assume other: "(\<forall>v. outcome \<noteq> OutcomeCreated v) \<and> r3 = r2"
    have "core_of ?iid r' = core_of ?iid r3"
      using rest other keeps_core_D [OF keeps_runs(2) [OF w]] by (cases outcome) auto
    with other r2_absent there show ?thesis by (metis core_None_iff)
  qed
qed

lemma start_membership_created:
  assumes run: "start_membership_checkout w input r = (res, r')" and w: "leaves_intent w (mw_intentId w)"
    and absent: "js_get (cr_intents r) (mw_intentId w) = None" and there: "js_get (cr_intents r') (mw_intentId w) \<noteq> None"
  shows "js_trim (mi_divisionId input) \<noteq> [] \<and> mi_staffAccessConsent input \<and>
    (\<exists>name r1. (mi_divisionId input, name) \<in> set (mw_divisions w (mi_organizationId input)) \<and>
       membership_bought w input (mi_divisionId input, name) r1 res r')"
proof -
  let ?iid = "mw_intentId w" and ?org = "mi_organizationId input"
  have same: "js_get (cr_intents (mw_others w p r)) ?iid = js_get (cr_intents r) ?iid" for p r
    using w by (simp add: leaves_intent_def)
  let ?r1 = "mw_others w MLookup r"
  define existing where "existing = get_outcome ?org (mi_customerId input) (mi_sessionId input) (mi_idempotencyKey input) (mw_iso w MLookup) ?r1"
  from run have ok: "js_trim (mi_divisionId input) \<noteq> []" "mi_staffAccessConsent input"
    and rest: "(case existing of
         Some (OutcomeReady intent cart) \<Rightarrow> resume_membership w input intent cart
       | Some outcome \<Rightarrow> act_throw (case membership_outcome_error outcome of Some e \<Rightarrow> e | None \<Rightarrow> retryable_checkout_error)
       | None \<Rightarrow>
           (case find (\<lambda>(k, _). k = mi_divisionId input) (mw_divisions w ?org) of
              None \<Rightarrow> act_throw (AppError ''Membership division is unavailable.'' 409 None)
            | Some division \<Rightarrow> buy_membership w input division)) ?r1 = (res, r')"
    unfolding start_membership_checkout_def Let_def existing_def using absent there
    by (auto simp: on_repo_def simp del: membership_outcome_error.simps elim!: act_bind_cases)
  have r1: "js_get (cr_intents ?r1) ?iid = None" using absent same by simp
  show ?thesis
  proof (cases existing)
    case (Some outcome)
    have "core_of ?iid r' = core_of ?iid ?r1"
      using rest Some keeps_core_D [OF keeps_runs(1) [OF w]] by (cases outcome) auto
    with r1 there show ?thesis by (metis core_None_iff)
  next
    case None
    show ?thesis
    proof (cases "find (\<lambda>(k, _). k = mi_divisionId input) (mw_divisions w ?org)")
      case None
      with rest \<open>existing = None\<close> r1 there show ?thesis by simp
    next
      case (Some division)
      then obtain name where n: "division = (mi_divisionId input, name)" "(mi_divisionId input, name) \<in> set (mw_divisions w ?org)"
        by (cases division) (auto dest: find_SomeD)
      from rest \<open>existing = None\<close> Some have "buy_membership w input (mi_divisionId input, name) ?r1 = (res, r')" by (simp add: n)
      from buy_membership_created [OF this w r1 there] n(2) ok show ?thesis by blast
    qed
  qed
qed

section \<open>Properties\<close>

text \<open>
  A membership checkout is opened only for an eligible customer who consented.  If a request
  leaves its new intent in the repository, the customer agreed to share data, the chosen division is
  active, no active teacher membership of theirs has more than 30 days to run, no renewal is
  scheduled, the product was on display and available, and the intent records that division, the
  consent, and the displayed price.  Other requests may change all but this intent meanwhile.
\<close>
theorem membership_intent_only_when_eligible:
  assumes "start_membership_checkout w input r = (res, r')" "leaves_intent w (mw_intentId w)"
    and "js_get (cr_intents r) (mw_intentId w) = None" "js_get (cr_intents r') (mw_intentId w) = Some i"
  shows "xi_staffAccessConsent i \<and>
    (\<exists>name. (mi_divisionId input, name) \<in> set (mw_divisions w (mi_organizationId input)) \<and>
       xi_divisionId i = Some (mi_divisionId input) \<and> xi_divisionNameSnapshot i = Some name) \<and>
    (\<exists>today. calendar_date_in_timezone (mw_zones w) (mw_iso w MEligibility) (mw_timezone w (mi_organizationId input)) = Inr today \<and>
       (\<forall>g \<in> set (mw_grants w (mi_organizationId input) (mi_customerId input)). mg_entitlementClass g = ''teacher_membership'' \<longrightarrow>
          lifecycle_for_entitlement_read g today = Inr Active \<longrightarrow>
          (\<exists>n. calendar_days_until today (li_endsOn g) = Inr n \<and> n \<le> 30)) \<and>
       \<not> (mw_hasCommerce w \<and> mw_hasScheduled w (mi_organizationId input) (mi_customerId input) ''teacher_membership'' today)) \<and>
    (\<exists>products d offering. mw_listing w (mi_organizationSlug input) = Inr products \<and> d \<in> set products \<and> dp_available d \<and>
       dp_id d = mi_offeringId input \<and> mw_offering w (mi_organizationId input) ''teacher_membership'' = Some offering \<and>
       mp_productId offering = mi_offeringId input \<and> xi_offeringId i = Some (mi_offeringId input) \<and>
       xi_amount i = dp_amount d \<and> xi_currencyCode i = dp_priceCurrencyCode d \<and> xi_durationDays i = Some (mp_durationDays offering))"
proof -
  let ?org = "mi_organizationId input"
  from start_membership_created [OF assms(1,2,3)] assms(4) obtain name r1 where consent: "mi_staffAccessConsent input"
    and name: "(mi_divisionId input, name) \<in> set (mw_divisions w ?org)"
    and bought: "membership_bought w input (mi_divisionId input, name) r1 res r'" by auto
  then obtain d offering now expires where
    v: "verify_renewal_eligibility w ?org (mi_customerId input) = Inr ()" and sel: "membership_selection w input = Inr (d, offering)"
    and at: "js_get (cr_intents r1) (mw_intentId w) = Some (new_intent (membership_intent_input input (mi_divisionId input, name) d
        offering expires) (mw_intentId w) (mw_correlationId w) (mw_lineIds w) now)"
    and run: "run_membership_checkout w input (new_intent (membership_intent_input input (mi_divisionId input, name) d offering
        expires) (mw_intentId w) (mw_correlationId w) (mw_lineIds w) now) None expires r1 = (res, r')"
    unfolding membership_bought_def Let_def by blast
  have "core_of (mw_intentId w) r' = core_of (mw_intentId w) r1" by (rule keeps_core_D [OF keeps_runs(2) [OF assms(2)] run])
  then have "intent_core i = intent_core (new_intent (membership_intent_input input (mi_divisionId input, name) d
        offering expires) (mw_intentId w) (mw_correlationId w) (mw_lineIds w) now)"
    using at assms(4) by (simp add: core_of_def)
  note fields = this [THEN arg_cong [where f = xi_staffAccessConsent]] this [THEN arg_cong [where f = xi_divisionId]]
    this [THEN arg_cong [where f = xi_divisionNameSnapshot]] this [THEN arg_cong [where f = xi_offeringId]]
    this [THEN arg_cong [where f = xi_amount]] this [THEN arg_cong [where f = xi_currencyCode]]
    this [THEN arg_cong [where f = xi_durationDays]]
  have i: "xi_staffAccessConsent i" "xi_divisionId i = Some (mi_divisionId input)" "xi_divisionNameSnapshot i = Some name"
    "xi_offeringId i = Some (mp_productId offering)" "xi_amount i = dp_amount d" "xi_currencyCode i = dp_priceCurrencyCode d"
    "xi_durationDays i = Some (mp_durationDays offering)"
    using fields consent by (simp_all add: intent_core_def new_intent_def membership_intent_input_def Let_def)
  from sel obtain products where p: "mw_listing w (mi_organizationSlug input) = Inr products" "d \<in> set products" "dp_available d"
    "dp_id d = mi_offeringId input" "mw_offering w ?org ''teacher_membership'' = Some offering" "mp_productId offering = mi_offeringId input"
    by (auto simp: membership_selection_def and_then_eq_Inr Let_def split: option.splits if_splits dest!: find_SomeD)
  show ?thesis using i name renewal_eligible [OF v] p by auto
qed

text \<open>
  A new membership checkout ends started or failed.  If a request leaves its new intent in the
  repository then either it returns a URL, which is HTTPS on the store's own domain with an
  unchanged integration, and the intent is started; or it reports the retryable error and nothing
  else, and the intent is failed, so it does not block the customer.
\<close>
theorem membership_checkout_ends_started_or_failed:
  assumes "start_membership_checkout w input r = (res, r')" "leaves_intent w (mw_intentId w)"
    and "js_get (cr_intents r) (mw_intentId w) = None" "js_get (cr_intents r') (mw_intentId w) = Some i"
  shows "(\<exists>url loaded now. res = Inr url \<and> xi_status i = IntentStarted \<and>
      mw_integration w MLoad (mi_organizationId input) = Some loaded \<and> mw_integration w MVerify (mi_organizationId input) = Some now \<and>
      sy_integrationVersion now = sy_integrationVersion loaded \<and> is_allowed_checkout_url (mw_parseUrl w) url (sy_storeDomain now)) \<or>
    (res = Inl retryable_checkout_error \<and> xi_status i = IntentFailed \<and> \<not> blocks_customer org customer now' i)"
proof -
  from start_membership_created [OF assms(1,2,3)] assms(4) obtain name r1 where
    bought: "membership_bought w input (mi_divisionId input, name) r1 res r'" by auto
  then obtain v expires where v: "xi_id v = mw_intentId w" and run: "run_membership_checkout w input v None expires r1 = (res, r')"
    unfolding membership_bought_def Let_def by (metis new_intent_fields(1))
  from run_ends [OF run] assms(4) v show ?thesis
    by (auto simp: membership_url_ok_def blocks_customer_def processing_status_def)
qed

section \<open>A membership bought\<close>

definition demo_membership_world :: membership_world where
  "demo_membership_world =
     \<lparr>mw_others = (\<lambda>_ r. r), mw_now = (\<lambda>_. 1774000000000), mw_divisions = (\<lambda>_. [(''piano'', ''Piano'')]),
      mw_timezone = (\<lambda>_. ''Plus2''), mw_zones = demo_zones, mw_grants = (\<lambda>_ _. []), mw_hasCommerce = True,
      mw_hasScheduled = (\<lambda>_ _ _ _. False),
      mw_listing = (\<lambda>_. Inr [\<lparr>dp_id = ''offer'', dp_name = ''Membership'', dp_available = True, dp_amount = ''40.00'',
        dp_priceCurrencyCode = ''USD''\<rparr>]),
      mw_offering = (\<lambda>_ _. Some \<lparr>mp_productId = ''offer'', mp_durationDays = 365, mp_shopifyProductGid = ''p'',
        mp_shopifyVariantGid = ''v'', mp_isActive = True\<rparr>),
      mw_integration = (\<lambda>_ _. Some \<lparr>sy_storeDomain = ''Shop.test'', sy_integrationVersion = 1\<rparr>),
      mw_createCart = (\<lambda>_ _ _ _. Inr ''cart''), mw_checkout = (\<lambda>_ _. Inr ''url''),
      mw_parseUrl = (\<lambda>_. Some \<lparr>pu_protocol = ''https:'', pu_hostname = ''shop.test'', pu_port = []\<rparr>),
      mw_intentId = ''i1'', mw_correlationId = ''corr'', mw_lineIds = (\<lambda>_. ''l''), mw_cartReference = ''k1''\<rparr>"

definition demo_membership_input :: membership_input where
  "demo_membership_input =
     \<lparr>mi_organizationId = ''org'', mi_organizationSlug = ''o'', mi_customerId = ''cust'', mi_sessionId = ''sess'',
      mi_integrationVersion = 4, mi_buyerAccessToken = ''token'', mi_idempotencyKey = ''key'', mi_offeringId = ''offer'',
      mi_divisionId = ''piano'', mi_staffAccessConsent = True\<rparr>"

lemma demo_renewal_eligible: "verify_renewal_eligibility demo_membership_world ''org'' ''cust'' = Inr ()"
proof -
  have "iso_window 1774000000000" by (simp add: iso_window_def)
  from iso_roundtrip [OF this] obtain c where c: "iso_with_offset (to_iso 1774000000000) = Some (c, 1, 0, 0)"
    "parse_explicit_offset_iso (c, 1, 0, 0) = Some 1774000000000" by blast
  then have "offset_suffix (to_iso 1774000000000) \<noteq> None" by (auto simp: iso_with_offset_def split: option.splits)
  moreover have "is_valid_iana_timezone demo_zones ''Plus2''" by code_simp
  ultimately show ?thesis using c
    by (simp add: verify_renewal_eligibility_def calendar_date_in_timezone_def demo_membership_world_def mw_iso_def)
qed

lemma demo_selection:
  "\<exists>d offering. membership_selection demo_membership_world demo_membership_input = Inr (d, offering)"
proof -
  have "case membership_selection demo_membership_world demo_membership_input of Inl _ \<Rightarrow> False | Inr _ \<Rightarrow> True" by code_simp
  then show ?thesis by (auto split: sum.splits)
qed

lemma demo_leaves: "leaves_intent demo_membership_world (mw_intentId demo_membership_world)"
  by (simp add: leaves_intent_def demo_membership_world_def)

lemma demo_membership_start:
  "\<exists>res r' i. start_membership_checkout demo_membership_world demo_membership_input empty_checkout_repo = (res, r') \<and>
     js_get (cr_intents r') (mw_intentId demo_membership_world) = Some i"
proof -
  let ?w = demo_membership_world and ?in = demo_membership_input
  let ?e = "to_iso (mw_now ?w MCreate + 1800000)"
  have w: "mw_others ?w = (\<lambda>_ r. r)" "mw_divisions ?w ''org'' = [(''piano'', ''Piano'')]" by (simp_all add: demo_membership_world_def)
  have input: "mi_organizationId ?in = ''org''" "mi_customerId ?in = ''cust''" "mi_divisionId ?in = ''piano''"
    "mi_staffAccessConsent ?in" "js_trim ''piano'' \<noteq> []" by code_simp+
  have none: "get_outcome a b c d n empty_checkout_repo = None" for a b c d n
    by (simp add: get_outcome_def empty_checkout_repo_def)
  have idle: "\<not> has_processing_intent a b n empty_checkout_repo" for a b n
    by (simp add: has_processing_intent_def empty_checkout_repo_def)
  obtain d offering where sel: "membership_selection ?w ?in = Inr (d, offering)" using demo_selection by blast
  obtain v r1 where created: "create_intent (membership_intent_input ?in (''piano'', ''Piano'') d offering ?e) (mw_intentId ?w)
      (mw_correlationId ?w) (mw_lineIds ?w) (mw_iso ?w MCreate) empty_checkout_repo = (OutcomeCreated v, r1)"
    "js_get (cr_intents r1) (mw_intentId ?w) = Some v"
    by (simp add: create_intent_def empty_checkout_repo_def Let_def)
  obtain res r' where run: "run_membership_checkout ?w ?in v None ?e r1 = (res, r')" by (metis prod.collapse)
  have "buy_membership ?w ?in (''piano'', ''Piano'') empty_checkout_repo = (res, r')"
    by (simp add: buy_membership_def Let_def act_bind_def on_repo_def w input idle sel demo_renewal_eligible created run)
  then have "start_membership_checkout ?w ?in empty_checkout_repo = (res, r')"
    by (simp add: start_membership_checkout_def Let_def act_bind_def on_repo_def w input none)
  moreover have "core_of (mw_intentId ?w) r' = core_of (mw_intentId ?w) r1"
    by (rule keeps_core_D [OF keeps_runs(2) [OF demo_leaves] run])
  ultimately show ?thesis using created(2) by (auto simp: core_of_def)
qed

theorem membership_intent_only_when_eligible_witness:
  "\<exists>r' i. js_get (cr_intents r') ''i1'' = Some i \<and> xi_staffAccessConsent i \<and> xi_divisionId i = Some ''piano'' \<and>
     snd (start_membership_checkout demo_membership_world demo_membership_input empty_checkout_repo) = r'"
proof -
  have "js_get (cr_intents empty_checkout_repo) (mw_intentId demo_membership_world) = None"
    "mi_divisionId demo_membership_input = ''piano''" "mw_intentId demo_membership_world = ''i1''" by code_simp+
  moreover obtain res r' i where "start_membership_checkout demo_membership_world demo_membership_input empty_checkout_repo = (res, r')"
    "js_get (cr_intents r') (mw_intentId demo_membership_world) = Some i" using demo_membership_start by blast
  ultimately show ?thesis using membership_intent_only_when_eligible [OF _ demo_leaves] by fastforce
qed

theorem membership_checkout_ends_started_or_failed_witness:
  "\<exists>res r' i. start_membership_checkout demo_membership_world demo_membership_input empty_checkout_repo = (res, r') \<and>
     js_get (cr_intents r') ''i1'' = Some i \<and> (xi_status i = IntentStarted \<or> xi_status i = IntentFailed)"
proof -
  have "js_get (cr_intents empty_checkout_repo) (mw_intentId demo_membership_world) = None"
    "mw_intentId demo_membership_world = ''i1''" by code_simp+
  moreover obtain res r' i where "start_membership_checkout demo_membership_world demo_membership_input empty_checkout_repo = (res, r')"
    "js_get (cr_intents r') (mw_intentId demo_membership_world) = Some i" using demo_membership_start by blast
  ultimately show ?thesis using membership_checkout_ends_started_or_failed [OF _ demo_leaves] by metis
qed

end
