(* ===== verification/CheckoutRecovery.thy ===== *)
theory CheckoutRecovery
  imports RecoveryRepo MembershipCheckout
begin

text \<open>
  \<open>CheckoutRecoveryService\<close> of \<open>packages/backend/src/checkout/checkout-recovery-service.ts\<close> with
  \<open>checkout-recovery-helpers.ts\<close>, over the two in-memory repositories.  Other requests may change
  the state before every step that touches a repository; the audit log is written at once.
\<close>

section \<open>Outside and state\<close>

datatype recovery_action = ListIntents | InvalidateIntent | CreateRecovery | ResumeCheckout

record recovery_event =
  rv_action :: recovery_action
  rv_actorUid :: string
  rv_eventOrganization :: string
  rv_targetCustomerId :: "string option"
  rv_eventIntentId :: "string option"
  rv_eventTokenHash :: "string option"
  rv_resultCount :: "nat option"
  rv_occurredAt :: int

record recovery_state =
  rs_recovery :: recovery_repo
  rs_checkout :: checkout_repo
  rs_audit :: "recovery_event list"

datatype recovery_point =
    RvChange | RvFind | RvIntent | RvCompleted | RvMark | RvCreate | RvAttach | RvStarted | RvFailed | RvConsume | RvLog

text \<open>
  \<open>vw_shop\<close> answers for the organization, the product listing, the storefront and the random
  identifiers of the new intent; \<open>vw_parseDate\<close> is \<open>Date.parse\<close>, \<open>vw_hash\<close> the SHA-256 digest.
\<close>

record recovery_world =
  vw_others :: "recovery_point \<Rightarrow> recovery_state \<Rightarrow> recovery_state"
  vw_now :: "recovery_point \<Rightarrow> int"
  vw_shop :: membership_world
  vw_organizationBySlug :: "string \<Rightarrow> string option"
  vw_slugById :: "string \<Rightarrow> string option"
  vw_classEntitlementOf :: "string \<Rightarrow> string \<Rightarrow> bool"
  vw_hasListings :: bool
  vw_hasCheckout :: bool
  vw_parseDate :: "string \<Rightarrow> int option"
  vw_hash :: "string \<Rightarrow> string"
  vw_rawToken :: string
  vw_requestId :: string

definition on_recovery ::
    "recovery_world \<Rightarrow> recovery_point \<Rightarrow> (recovery_repo \<Rightarrow> 'a outcome \<times> recovery_repo) \<Rightarrow> (recovery_state, 'a) act" where
  "on_recovery w p f = (\<lambda>s. let s' = vw_others w p s in
     case f (rs_recovery s') of (res, r) \<Rightarrow> (res, s'\<lparr>rs_recovery := r\<rparr>))"

definition on_checkout ::
    "recovery_world \<Rightarrow> recovery_point \<Rightarrow> (checkout_repo \<Rightarrow> 'a outcome \<times> checkout_repo) \<Rightarrow> (recovery_state, 'a) act" where
  "on_checkout w p f = (\<lambda>s. let s' = vw_others w p s in
     case f (rs_checkout s') of (res, r) \<Rightarrow> (res, s'\<lparr>rs_checkout := r\<rparr>))"

definition log_recovery :: "recovery_event \<Rightarrow> (recovery_state, unit) act" where
  "log_recovery e = (\<lambda>s. (Inr (), s\<lparr>rs_audit := rs_audit s @ [e]\<rparr>))"

section \<open>Helpers\<close>

text \<open>\<open>new Date(t).toISOString()\<close> throws beyond 8.64e15 milliseconds.\<close>

definition checked_date :: "int \<Rightarrow> int outcome" where
  "checked_date t = (if \<bar>t\<bar> \<le> 8640000000000000 then Inr t else Inl (PlainError ''Invalid time value''))"

definition calculate_expiry :: "(string \<Rightarrow> int option) \<Rightarrow> int option \<Rightarrow> string option \<Rightarrow> int \<Rightarrow> int outcome" where
  "calculate_expiry parse hours requested now =
     (case if_truthy requested of
        Some s \<Rightarrow>
          (case parse s of
             None \<Rightarrow> Inl (AppError ''Invalid recovery expiration date.'' 400 None)
           | Some t \<Rightarrow> if t \<le> now then Inl (AppError ''Invalid recovery expiration date.'' 400 None) else checked_date t)
      | None \<Rightarrow>
          let h = (case hours of Some h \<Rightarrow> if 0 < h then h else 24 | None \<Rightarrow> 24)
          in checked_date (now + h * 60 * 60 * 1000))"

definition assert_recovery_request_pending :: "recovery_request option \<Rightarrow> string \<Rightarrow> int \<Rightarrow> recovery_request outcome" where
  "assert_recovery_request_pending request customer now =
     (case request of
        None \<Rightarrow> Inl (AppError ''Recovery request not found.'' 404 None)
      | Some q \<Rightarrow>
          if rr_customerId q \<noteq> customer then Inl (AppError ''Recovery request does not belong to this customer.'' 403 None)
          else if rr_status q = RecExpired \<or> rr_expiresAt q \<le> now then Inl (AppError ''Recovery request has expired.'' 410 None)
          else if rr_status q = RecConsumed then Inl (AppError ''Recovery request has already been used.'' 409 None)
          else if rr_status q \<noteq> RecPending
          then Inl (AppError (''Recovery request is no longer valid (status: '' @ recovery_status_name (rr_status q) @ '').'') 400 None)
          else Inr q)"

definition assert_source_intent_valid :: "checkout_intent option \<Rightarrow> string \<Rightarrow> checkout_intent outcome" where
  "assert_source_intent_valid intent customer =
     (case intent of
        None \<Rightarrow> Inl (AppError ''Checkout intent not found.'' 404 None)
      | Some i \<Rightarrow>
          if xi_customerId i \<noteq> customer then Inl (AppError ''Customer mismatch for checkout intent.'' 403 None)
          else if xi_intentType i = ClassEntryIntent
          then Inl (AppError ''Class checkout recovery is not available yet. Please restart your class checkout.'' 409
                 (Some ''class_checkout_recovery_unsupported''))
          else Inr i)"

definition assert_allowed_checkout_url :: "(string \<Rightarrow> parsed_url option) \<Rightarrow> string \<Rightarrow> string \<Rightarrow> unit outcome" where
  "assert_allowed_checkout_url parse url store_domain =
     (case parse url of
        None \<Rightarrow> Inl checkout_unavailable
      | Some u \<Rightarrow>
          if pu_protocol u = ''https:'' \<and> pu_hostname u = js_lower store_domain \<and> pu_port u = []
          then Inr () else Inl checkout_unavailable)"

definition resolve_organization_slug :: "recovery_world \<Rightarrow> string \<Rightarrow> string option \<Rightarrow> string outcome" where
  "resolve_organization_slug w org provided =
     (case if_truthy provided of
        Some s \<Rightarrow> Inr s
      | None \<Rightarrow> (case vw_slugById w org of Some s \<Rightarrow> Inr s | None \<Rightarrow> Inl (AppError ''Organization not found.'' 404 None)))"

text \<open>The in-memory repository has \<open>findIntentById\<close>.\<close>

definition resolve_recovery_customer_id ::
    "recovery_world \<Rightarrow> string \<Rightarrow> string \<Rightarrow> string option \<Rightarrow> (recovery_state, string) act" where
  "resolve_recovery_customer_id w org iid provided =
     on_recovery w RvIntent (\<lambda>r.
       (case find_recoverable_intent org iid r of
          None \<Rightarrow> Inl (AppError ''Checkout intent not found.'' 404 None)
        | Some i \<Rightarrow>
            if truthy provided \<and> provided \<noteq> Some (xi_customerId i)
            then Inl (AppError ''Customer mismatch for checkout intent.'' 400 None) else Inr (xi_customerId i), r))"

record recovery_session =
  vs_sessionId :: string
  vs_integrationVersion :: int
  vs_buyerAccessToken :: string

text \<open>\<open>offering?.id ?? sourceIntent.offeringId\<close> and the like.\<close>

definition recovery_intent_input ::
    "string \<Rightarrow> string \<Rightarrow> string \<Rightarrow> string \<Rightarrow> checkout_intent \<Rightarrow> (string \<times> string) option \<Rightarrow> displayed_product option \<Rightarrow> string \<Rightarrow>
     create_intent_input" where
  "recovery_intent_input org customer session request source division offering expires =
     \<lparr>ni_organizationId = org, ni_customerId = customer, ni_sessionId = session,
      ni_idempotencyKey = ''recovery:'' @ request, ni_intentType = Some (xi_intentType source),
      ni_offeringId = (case offering of Some d \<Rightarrow> Some (dp_id d) | None \<Rightarrow> xi_offeringId source),
      ni_entitlementClass = xi_entitlementClass source, ni_durationDays = xi_durationDays source,
      ni_festivalClassId = None, ni_childId = None, ni_shopifyProductGid = xi_shopifyProductGid source,
      ni_shopifyVariantGid = xi_shopifyVariantGid source, ni_policyVersion = Some ''v1'',
      ni_divisionId = (case division of Some d \<Rightarrow> Some (fst d) | None \<Rightarrow> xi_divisionId source),
      ni_divisionNameSnapshot = (case division of Some d \<Rightarrow> Some (snd d) | None \<Rightarrow> xi_divisionNameSnapshot source),
      ni_staffAccessConsent = Some (xi_staffAccessConsent source),
      ni_amount = (case offering of Some d \<Rightarrow> dp_amount d | None \<Rightarrow> xi_amount source),
      ni_currencyCode = (case offering of Some d \<Rightarrow> dp_priceCurrencyCode d | None \<Rightarrow> xi_currencyCode source),
      ni_expiresAtIso = expires, ni_lines = None\<rparr>"

fun recovery_outcome_error :: "intent_outcome \<Rightarrow> app_error" where
  "recovery_outcome_error OutcomeInProgress = AppError ''Checkout is already in progress.'' 409 (Some ''checkout_in_progress'')"
| "recovery_outcome_error OutcomeActive = AppError ''Teacher Membership already exists.'' 409 (Some ''membership_active'')"
| "recovery_outcome_error OutcomeExpired = AppError ''Checkout has expired.'' 409 (Some ''checkout_expired'')"
| "recovery_outcome_error _ = AppError ''This checkout attempt cannot continue.'' 409 (Some ''checkout_terminal_failure'')"

definition create_new_checkout_intent ::
    "recovery_world \<Rightarrow> string \<Rightarrow> string \<Rightarrow> string \<Rightarrow> string \<Rightarrow> checkout_intent \<Rightarrow> (string \<times> string) option \<Rightarrow> displayed_product option \<Rightarrow>
     (recovery_state, checkout_intent) act" where
  "create_new_checkout_intent w org customer session request source division offering =
     on_checkout w RvCreate (\<lambda>r.
       (case create_intent
           (recovery_intent_input org customer session request source division offering (to_iso (vw_now w RvMark + 30 * 60000)))
           (mw_intentId (vw_shop w)) (mw_correlationId (vw_shop w)) (mw_lineIds (vw_shop w)) (to_iso (vw_now w RvCreate)) r of
          (OutcomeCreated i, r') \<Rightarrow> (Inr i, r')
        | (outcome, r') \<Rightarrow> (Inl (recovery_outcome_error outcome), r')))"

definition attach_recovered_cart ::
    "recovery_world \<Rightarrow> string \<Rightarrow> string \<Rightarrow> recovery_session \<Rightarrow> checkout_intent \<Rightarrow> string \<Rightarrow> (recovery_state, checkout_cart) act" where
  "attach_recovered_cart w org customer session intent cart_id =
     on_checkout w RvAttach (attach_cart
       \<lparr>at_intentId = xi_id intent, at_shopifyCartId = cart_id, at_organizationId = org, at_customerId = customer,
        at_sessionId = vs_sessionId session, at_integrationVersion = vs_integrationVersion session,
        at_expiresAtIso = xi_expiresAtIso intent\<rparr>
       None (mw_cartReference (vw_shop w)) (to_iso (vw_now w RvAttach)))"

definition start_recovered_checkout :: "recovery_world \<Rightarrow> string \<Rightarrow> string \<Rightarrow> string \<Rightarrow> (recovery_state, string) act" where
  "start_recovered_checkout w org iid cart_id =
     act_bind (on_checkout w RvStarted (mark_checkout_started iid)) (\<lambda>_.
     act_bind (act_lift (mw_checkout (vw_shop w) org cart_id)) (\<lambda>url.
     (case mw_integration (vw_shop w) MVerify org of
        None \<Rightarrow> act_throw checkout_unavailable
      | Some shop \<Rightarrow>
          act_bind (act_lift (assert_allowed_checkout_url (mw_parseUrl (vw_shop w)) url (sy_storeDomain shop))) (\<lambda>_.
          act_return url))))"

definition create_storefront_checkout ::
    "recovery_world \<Rightarrow> string \<Rightarrow> string \<Rightarrow> recovery_session \<Rightarrow> checkout_intent \<Rightarrow> (recovery_state, string) act" where
  "create_storefront_checkout w org customer session intent =
     act_catch
       (act_bind (act_lift (mw_createCart (vw_shop w) org (xi_shopifyVariantGid intent) (vs_buyerAccessToken session)
          (xi_correlationId intent))) (\<lambda>cart_id.
        act_bind (attach_recovered_cart w org customer session intent cart_id) (\<lambda>cart.
        start_recovered_checkout w org (xi_id intent) (kc_shopifyCartId cart))))
       (\<lambda>e. act_bind (on_checkout w RvFailed (\<lambda>r. (Inr (), mark_failed (xi_id intent) r))) (\<lambda>_.
          act_throw (case e of AppError _ _ _ \<Rightarrow> e | PlainError _ \<Rightarrow> retryable_checkout_error)))"

section \<open>Staff operations\<close>

definition list_recoverable_for_staff ::
    "recovery_world \<Rightarrow> string \<Rightarrow> string \<Rightarrow> string \<Rightarrow> (recovery_state, checkout_intent list) act" where
  "list_recoverable_for_staff w org customer actor =
     act_bind (on_recovery w RvChange (\<lambda>r. (Inr (list_recoverable_intents org customer r), r))) (\<lambda>raw.
     let intents = filter (\<lambda>i. xi_intentType i \<noteq> ClassEntryIntent) raw in
     act_bind (log_recovery \<lparr>rv_action = ListIntents, rv_actorUid = actor, rv_eventOrganization = org,
        rv_targetCustomerId = Some customer, rv_eventIntentId = None, rv_eventTokenHash = None,
        rv_resultCount = Some (length intents), rv_occurredAt = vw_now w RvLog\<rparr>) (\<lambda>_. act_return intents))"

definition verify_no_entitlement :: "recovery_world \<Rightarrow> string \<Rightarrow> string \<Rightarrow> unit outcome" where
  "verify_no_entitlement w org iid =
     guard (\<not> (mw_hasCommerce (vw_shop w) \<and> vw_classEntitlementOf w org iid))
       (AppError ''Cannot modify checkout intent: completed entitlement exists.'' 409 None)"

definition verify_intent_recoverable :: "recovery_world \<Rightarrow> string \<Rightarrow> string \<Rightarrow> string \<Rightarrow> (recovery_state, unit) act" where
  "verify_intent_recoverable w org iid correlation =
     act_bind (on_recovery w RvCompleted (\<lambda>r. (guard (\<not> has_completed_order_or_entitlement org iid correlation r)
       (AppError ''Cannot modify checkout intent: completed order projection or entitlement exists.'' 409 None), r))) (\<lambda>_.
     act_lift (verify_no_entitlement w org iid))"

text \<open>\<open>message.includes(part)\<close>.\<close>

fun js_includes :: "string \<Rightarrow> string \<Rightarrow> bool" where
  "js_includes [] part = (part = [])"
| "js_includes (c # s) part = (take (length part) (c # s) = part \<or> js_includes s part)"

text \<open>How a failure of the repository is reported; \<open>verb\<close> is \<open>Cannot invalidate\<close> or \<open>Cannot recover\<close>.\<close>

definition recovery_failure :: "string \<Rightarrow> string \<Rightarrow> app_error" where
  "recovery_failure verb message =
     (if js_includes message ''not found'' then AppError ''Checkout intent not found.'' 404 None
      else if js_includes message verb \<or> js_includes message ''completed'' then AppError message 409 None
      else AppError message 400 None)"

definition invalidate_intent :: "recovery_world \<Rightarrow> string \<Rightarrow> string \<Rightarrow> string \<Rightarrow> (recovery_state, unit) act" where
  "invalidate_intent w org iid actor =
     act_bind (act_lift (verify_no_entitlement w org iid)) (\<lambda>_.
     act_bind (act_catch (on_recovery w RvChange (invalidate_recovery_intent org iid))
       (\<lambda>e. act_throw (recovery_failure ''Cannot invalidate'' (err_message e)))) (\<lambda>_.
     log_recovery \<lparr>rv_action = InvalidateIntent, rv_actorUid = actor, rv_eventOrganization = org, rv_targetCustomerId = None,
       rv_eventIntentId = Some iid, rv_eventTokenHash = None, rv_resultCount = None, rv_occurredAt = vw_now w RvLog\<rparr>))"

record create_recovery_params =
  cp_organizationId :: string
  cp_intentId :: string
  cp_actorUid :: string
  cp_organizationSlug :: "string option"
  cp_customerId :: "string option"
  cp_expiresInHours :: "int option"
  cp_expiresAtIso :: "string option"

record create_recovery_result =
  cq_recoveryUrl :: string
  cq_rawToken :: string
  cq_tokenHash :: string
  cq_recoveryRequest :: recovery_request

definition create_recovery :: "recovery_world \<Rightarrow> create_recovery_params \<Rightarrow> (recovery_state, create_recovery_result) act" where
  "create_recovery w p =
     (let org = cp_organizationId p; iid = cp_intentId p; hash = vw_hash w (vw_rawToken w) in
      act_bind (act_lift (verify_no_entitlement w org iid)) (\<lambda>_.
      act_bind (act_lift (resolve_organization_slug w org (cp_organizationSlug p))) (\<lambda>slug.
      act_bind (resolve_recovery_customer_id w org iid (cp_customerId p)) (\<lambda>customer.
      act_bind (act_lift (calculate_expiry (vw_parseDate w) (cp_expiresInHours p) (cp_expiresAtIso p) (vw_now w RvIntent))) (\<lambda>expires.
      act_bind (act_catch (on_recovery w RvChange (create_recovery_request
          \<lparr>rq_id = None, rq_organizationId = org, rq_customerId = customer, rq_sourceCheckoutIntentId = iid,
           rq_tokenHash = hash, rq_requestedByActorUid = cp_actorUid p, rq_expiresAt = expires\<rparr>
          (vw_requestId w) (vw_now w RvChange)))
        (\<lambda>e. act_throw (recovery_failure ''Cannot recover'' (err_message e)))) (\<lambda>request.
      act_bind (log_recovery \<lparr>rv_action = CreateRecovery, rv_actorUid = cp_actorUid p, rv_eventOrganization = org,
          rv_targetCustomerId = Some customer, rv_eventIntentId = Some iid, rv_eventTokenHash = Some hash,
          rv_resultCount = None, rv_occurredAt = vw_now w RvLog\<rparr>) (\<lambda>_.
      act_return \<lparr>cq_recoveryUrl = ''/org/'' @ slug @ ''/checkout-recovery/'' @ vw_rawToken w, cq_rawToken = vw_rawToken w,
        cq_tokenHash = hash, cq_recoveryRequest = request\<rparr>)))))))"

section \<open>The customer\<close>

definition validate_division :: "recovery_world \<Rightarrow> string \<Rightarrow> string option \<Rightarrow> (string \<times> string) option outcome" where
  "validate_division w org division =
     (case if_truthy division of
        None \<Rightarrow> Inr None
      | Some d \<Rightarrow>
          (case find (\<lambda>(k, _). k = d) (mw_divisions (vw_shop w) org) of
             None \<Rightarrow> Inl (AppError ''Membership division is unavailable.'' 409 None)
           | Some found \<Rightarrow> Inr (Some found)))"

definition validate_offering :: "recovery_world \<Rightarrow> string \<Rightarrow> string \<Rightarrow> checkout_intent \<Rightarrow> displayed_product option outcome" where
  "validate_offering w org slug intent =
     (let gone = AppError ''Membership selection is unavailable.'' 409 None in
      case if_truthy (xi_offeringId intent) of
        None \<Rightarrow> Inr None
      | Some offering \<Rightarrow>
          (case mw_offering (vw_shop w) org TEACHER_MEMBERSHIP_ENTITLEMENT_CLASS of
             None \<Rightarrow> Inl gone
           | Some product \<Rightarrow>
               if mp_productId product \<noteq> offering \<or> \<not> mp_isActive product then Inl gone
               else if vw_hasListings w
               then and_then (mw_listing (vw_shop w) slug) (\<lambda>products.
                 (case find (\<lambda>p. dp_id p = offering) products of
                    None \<Rightarrow> Inl gone
                  | Some d \<Rightarrow> if dp_available d then Inr (Some d) else Inl gone))
               else Inr (Some \<lparr>dp_id = mp_productId product, dp_name = ''Teacher Membership'', dp_available = True,
                      dp_amount = xi_amount intent, dp_priceCurrencyCode = xi_currencyCode intent\<rparr>)))"

text \<open>\<open>verifyScheduledEntitlement\<close> has the body of \<open>verifyRenewalEligibility\<close> of the membership checkout.\<close>

definition verify_scheduled_entitlement :: "recovery_world \<Rightarrow> string \<Rightarrow> string \<Rightarrow> unit outcome" where
  "verify_scheduled_entitlement w org customer = verify_renewal_eligibility (vw_shop w) org customer"

record recovery_context =
  vc_organization :: string
  vc_hash :: string
  vc_request :: recovery_request
  vc_source :: checkout_intent
  vc_division :: "(string \<times> string) option"
  vc_offering :: "displayed_product option"

text \<open>What the review and the resumption of a checkout check alike, in this order.\<close>

definition recovery_checks :: "recovery_world \<Rightarrow> string \<Rightarrow> string \<Rightarrow> string \<Rightarrow> (recovery_state, recovery_context) act" where
  "recovery_checks w slug token customer =
     (case vw_organizationBySlug w slug of
        None \<Rightarrow> act_throw (AppError ''Organization not found.'' 404 None)
      | Some org \<Rightarrow>
          let hash = vw_hash w token in
          act_bind (on_recovery w RvFind (\<lambda>r. (assert_recovery_request_pending
            (find_recovery_request_by_token_hash hash (Some org) (vw_now w RvFind) r) customer (vw_now w RvFind), r))) (\<lambda>request.
          act_bind (on_recovery w RvIntent (\<lambda>r. (assert_source_intent_valid
            (find_recoverable_intent org (rr_sourceCheckoutIntentId request) r) customer, r))) (\<lambda>source.
          act_bind (verify_intent_recoverable w org (xi_id source) (xi_correlationId source)) (\<lambda>_.
          act_bind (act_lift (validate_division w org (xi_divisionId source))) (\<lambda>division.
          act_bind (act_lift (validate_offering w org slug source)) (\<lambda>offering.
          act_bind (act_lift (verify_scheduled_entitlement w org customer)) (\<lambda>_.
          act_return \<lparr>vc_organization = org, vc_hash = hash, vc_request = request, vc_source = source,
            vc_division = division, vc_offering = offering\<rparr>)))))))"

record recovery_review =
  vd_id :: string
  vd_status :: recovery_status
  vd_expiresAt :: int
  vd_createdAt :: int
  vd_sourceIntent :: checkout_intent
  vd_offering :: "displayed_product option"
  vd_division :: "(string \<times> string) option"

definition get_recovery_review_dto :: "recovery_world \<Rightarrow> string \<Rightarrow> string \<Rightarrow> string \<Rightarrow> (recovery_state, recovery_review) act" where
  "get_recovery_review_dto w slug token customer =
     act_bind (recovery_checks w slug token customer) (\<lambda>c.
     act_return \<lparr>vd_id = rr_id (vc_request c), vd_status = rr_status (vc_request c), vd_expiresAt = rr_expiresAt (vc_request c),
       vd_createdAt = rr_createdAt (vc_request c), vd_sourceIntent = vc_source c, vd_offering = vc_offering c,
       vd_division = vc_division c\<rparr>)"

definition resume_customer_checkout ::
    "recovery_world \<Rightarrow> string \<Rightarrow> string \<Rightarrow> string \<Rightarrow> recovery_session \<Rightarrow> (recovery_state, string) act" where
  "resume_customer_checkout w slug token customer session =
     act_bind (recovery_checks w slug token customer) (\<lambda>c.
     let org = vc_organization c in
     act_bind (act_lift (guard (vw_hasCheckout w) (AppError ''Checkout is unavailable.'' 503 None))) (\<lambda>_.
     act_bind (on_checkout w RvMark (\<lambda>r. (Inr (), mark_failed (xi_id (vc_source c)) r))) (\<lambda>_.
     act_bind (create_new_checkout_intent w org customer (vs_sessionId session) (rr_id (vc_request c)) (vc_source c)
       (vc_division c) (vc_offering c)) (\<lambda>intent.
     act_bind (create_storefront_checkout w org customer session intent) (\<lambda>url.
     act_bind (on_recovery w RvConsume (consume_recovery_request (vc_hash c) (Some org) None (vw_now w RvConsume))) (\<lambda>_.
     act_bind (log_recovery \<lparr>rv_action = ResumeCheckout, rv_actorUid = customer, rv_eventOrganization = org,
       rv_targetCustomerId = Some customer, rv_eventIntentId = Some (xi_id intent), rv_eventTokenHash = Some (vc_hash c),
       rv_resultCount = None, rv_occurredAt = vw_now w RvLog\<rparr>) (\<lambda>_.
     act_return url)))))))"

section \<open>Steps\<close>

text \<open>What a request says about itself besides its status.\<close>

definition request_identity :: "recovery_request \<Rightarrow> string \<times> string \<times> string \<times> string \<times> int" where
  "request_identity q = (rr_id q, rr_customerId q, rr_organizationId q, rr_sourceCheckoutIntentId q, rr_expiresAt q)"

definition token_kept :: "string \<Rightarrow> recovery_state \<Rightarrow> recovery_state \<Rightarrow> bool" where
  "token_kept hash s s' \<longleftrightarrow>
     (\<forall>k q. find_request_by_hash hash (rs_recovery s) = Some (k, q) \<longrightarrow>
        (\<exists>q'. find_request_by_hash hash (rs_recovery s') = Some (k, q') \<and> request_identity q' = request_identity q))"

text \<open>Other requests do not touch the new intent nor what the token stands for.\<close>

definition others_keep :: "recovery_world \<Rightarrow> string \<Rightarrow> bool" where
  "others_keep w hash \<longleftrightarrow>
     (\<forall>p s. js_get (cr_intents (rs_checkout (vw_others w p s))) (mw_intentId (vw_shop w)) =
        js_get (cr_intents (rs_checkout s)) (mw_intentId (vw_shop w)) \<and> token_kept hash s (vw_others w p s))"

lemma token_kept_refl [simp]: "token_kept hash s s"
  by (simp add: token_kept_def)

lemma token_kept_trans: "token_kept hash s s' \<Longrightarrow> token_kept hash s' s'' \<Longrightarrow> token_kept hash s s''"
  unfolding token_kept_def by metis

lemma token_kept_same: "rs_recovery s' = rs_recovery s \<Longrightarrow> token_kept hash s s'"
  by (simp add: token_kept_def)

lemma on_checkout_cases:
  assumes "on_checkout w p f s = (res, s')" "others_keep w hash"
  obtains r where "f r = (res, rs_checkout s')" "token_kept hash s s'" "rs_audit s' = rs_audit (vw_others w p s)"
    "r = rs_checkout (vw_others w p s)"
    "js_get (cr_intents r) (mw_intentId (vw_shop w)) = js_get (cr_intents (rs_checkout s)) (mw_intentId (vw_shop w))"
proof -
  let ?t = "vw_others w p s"
  from assms(1) have f: "f (rs_checkout ?t) = (res, rs_checkout s')" and same: "rs_recovery s' = rs_recovery ?t" "rs_audit s' = rs_audit ?t"
    by (auto simp: on_checkout_def Let_def split: prod.splits)
  have "token_kept hash s s'"
    by (rule token_kept_trans [of _ _ ?t]) (use assms(2) same in \<open>auto simp: others_keep_def intro: token_kept_same\<close>)
  then show ?thesis using that [OF f] assms(2) same by (simp add: others_keep_def)
qed

lemma on_recovery_cases:
  assumes "on_recovery w p f s = (res, s')" "others_keep w hash"
  obtains r where "f r = (res, rs_recovery s')" "r = rs_recovery (vw_others w p s)" "rs_checkout s' = rs_checkout (vw_others w p s)"
    "rs_audit s' = rs_audit (vw_others w p s)" "token_kept hash s (vw_others w p s)"
    "js_get (cr_intents (rs_checkout s')) (mw_intentId (vw_shop w)) = js_get (cr_intents (rs_checkout s)) (mw_intentId (vw_shop w))"
  using assms by (auto simp: on_recovery_def others_keep_def Let_def split: prod.splits)

lemma on_recovery_read:
  assumes "on_recovery w p (\<lambda>r. (g r, r)) s = (res, s')" "others_keep w hash"
  shows "res = g (rs_recovery s') \<and> token_kept hash s s' \<and>
    js_get (cr_intents (rs_checkout s')) (mw_intentId (vw_shop w)) = js_get (cr_intents (rs_checkout s)) (mw_intentId (vw_shop w))"
  using assms by (auto simp: on_recovery_def others_keep_def Let_def)

lemma checks_keep:
  assumes "recovery_checks w slug token customer s = (res, s')" "others_keep w (vw_hash w token)"
  shows "js_get (cr_intents (rs_checkout s')) (mw_intentId (vw_shop w)) = js_get (cr_intents (rs_checkout s)) (mw_intentId (vw_shop w))"
  using assms(1) unfolding recovery_checks_def verify_intent_recoverable_def Let_def
  by (auto split: option.splits elim!: act_bind_cases dest!: on_recovery_read [OF _ assms(2)])

text \<open>Alone, the checks change nothing.\<close>

lemma checks_quiet:
  assumes "\<forall>p s. vw_others w p s = s" "recovery_checks w slug token customer s = (res, s')"
  shows "s' = s"
proof -
  show ?thesis using assms(2) unfolding recovery_checks_def verify_intent_recoverable_def Let_def
    by (auto split: option.splits elim!: act_bind_cases simp: on_recovery_def assms(1))
qed

text \<open>What the checks established when they passed.\<close>

lemma checks_passed:
  assumes "recovery_checks w slug token customer s = (Inr c, s')" "others_keep w (vw_hash w token)"
  shows "vw_organizationBySlug w slug = Some (vc_organization c) \<and> vc_hash c = vw_hash w token \<and>
    (\<exists>k q. find_request_by_hash (vw_hash w token) (rs_recovery s') = Some (k, q) \<and> request_identity q = request_identity (vc_request c)) \<and>
    rr_customerId (vc_request c) = customer \<and> rr_status (vc_request c) = RecPending \<and> vw_now w RvFind < rr_expiresAt (vc_request c) \<and>
    xi_customerId (vc_source c) = customer \<and> xi_intentType (vc_source c) = MembershipIntent \<and>
    validate_division w (vc_organization c) (xi_divisionId (vc_source c)) = Inr (vc_division c) \<and>
    validate_offering w (vc_organization c) slug (vc_source c) = Inr (vc_offering c) \<and>
    verify_scheduled_entitlement w (vc_organization c) customer = Inr ()"
proof -
  let ?h = "vw_hash w token"
  from assms(1) obtain org request s1 source s2 s3 where org: "vw_organizationBySlug w slug = Some org"
    and find: "on_recovery w RvFind (\<lambda>r. (assert_recovery_request_pending
            (find_recovery_request_by_token_hash ?h (Some org) (vw_now w RvFind) r) customer (vw_now w RvFind), r)) s = (Inr request, s1)"
    and source: "on_recovery w RvIntent (\<lambda>r. (assert_source_intent_valid
            (find_recoverable_intent org (rr_sourceCheckoutIntentId request) r) customer, r)) s1 = (Inr source, s2)"
    and completed: "verify_intent_recoverable w org (xi_id source) (xi_correlationId source) s2 = (Inr (), s3)" and s': "s3 = s'"
    and rest: "validate_division w org (xi_divisionId source) = Inr (vc_division c)"
      "validate_offering w org slug source = Inr (vc_offering c)" "verify_scheduled_entitlement w org customer = Inr ()"
      "vc_organization c = org" "vc_hash c = ?h" "vc_request c = request" "vc_source c = source"
    unfolding recovery_checks_def Let_def by (auto simp: act_bind_eq_Inr split: option.splits)
  note find = on_recovery_read [OF find assms(2)]
  have kept: "token_kept ?h s1 s'"
  proof (rule token_kept_trans [of _ _ s2])
    show "token_kept ?h s1 s2" using on_recovery_read [OF source assms(2)] by simp
    show "token_kept ?h s2 s'" using completed s' unfolding verify_intent_recoverable_def
      by (auto simp: act_bind_eq_Inr dest: on_recovery_read [OF _ assms(2)])
  qed
  from find obtain k q where q: "find_request_by_hash ?h (rs_recovery s1) = Some (k, q)" "request = shown_request (vw_now w RvFind) q"
    "rr_customerId request = customer" "rr_status request = RecPending" "vw_now w RvFind < rr_expiresAt request"
    by (auto simp: assert_recovery_request_pending_def find_recovery_request_by_token_hash_def split: option.splits if_splits)
  have same: "request_identity q = request_identity request" by (simp add: q(2) shown_request_def request_identity_def)
  have "xi_customerId source = customer \<and> xi_intentType source = MembershipIntent"
    using on_recovery_read [OF source assms(2)]
    by (auto simp: assert_source_intent_valid_def split: option.splits if_splits) (metis intent_type.exhaust)
  with kept q same org rest show ?thesis unfolding token_kept_def by auto
qed

text \<open>A checkout URL comes from the store and leaves the intent started.\<close>

lemma storefront_url:
  assumes run: "create_storefront_checkout w org customer session intent s = (Inr url, s')" and w: "others_keep w hash"
    and iid: "xi_id intent = mw_intentId (vw_shop w)"
  shows "(\<exists>shop. mw_integration (vw_shop w) MVerify org = Some shop \<and>
      is_allowed_checkout_url (mw_parseUrl (vw_shop w)) url (sy_storeDomain shop)) \<and>
    (\<exists>i. js_get (cr_intents (rs_checkout s')) (xi_id intent) = Some i \<and> xi_status i = IntentStarted) \<and>
    core_of (xi_id intent) (rs_checkout s') = core_of (xi_id intent) (rs_checkout s) \<and> token_kept hash s s'"
proof -
  let ?iid = "xi_id intent"
  have "act_bind (act_lift (mw_createCart (vw_shop w) org (xi_shopifyVariantGid intent) (vs_buyerAccessToken session)
        (xi_correlationId intent))) (\<lambda>cart_id.
      act_bind (attach_recovered_cart w org customer session intent cart_id) (\<lambda>cart.
      start_recovered_checkout w org ?iid (kc_shopifyCartId cart))) s = (Inr url, s')"
    using run [unfolded create_storefront_checkout_def] by (rule act_catch_Inr) (simp add: act_bind_eq_Inr)
  then obtain cart_id cart s1 where
    attach: "attach_recovered_cart w org customer session intent cart_id s = (Inr cart, s1)"
    and rest: "start_recovered_checkout w org ?iid (kc_shopifyCartId cart) s1 = (Inr url, s')"
    unfolding act_bind_eq_Inr act_lift_eq by blast
  from rest obtain u shop where start: "on_checkout w RvStarted (mark_checkout_started ?iid) s1 = (Inr u, s')"
    and shop: "mw_integration (vw_shop w) MVerify org = Some shop"
      "assert_allowed_checkout_url (mw_parseUrl (vw_shop w)) url (sy_storeDomain shop) = Inr ()"
    by (auto simp: start_recovered_checkout_def act_bind_eq_Inr split: option.splits)
  from on_checkout_cases [OF attach [unfolded attach_recovered_cart_def] w] obtain r1 input where
    1: "attach_cart input None (mw_cartReference (vw_shop w)) (to_iso (vw_now w RvAttach)) r1 = (Inr cart, rs_checkout s1)"
    "token_kept hash s s1" "js_get (cr_intents r1) ?iid = js_get (cr_intents (rs_checkout s)) ?iid" using iid by metis
  from on_checkout_cases [OF start w] obtain r2 where 2: "mark_checkout_started ?iid r2 = (Inr u, rs_checkout s')" "token_kept hash s1 s'"
    "js_get (cr_intents r2) ?iid = js_get (cr_intents (rs_checkout s1)) ?iid" using iid by metis
  have "core_of ?iid (rs_checkout s') = core_of ?iid (rs_checkout s)"
    using core_attach [OF 1(1)] core_mark_started [OF 2(1)] 1(3) 2(3) by (simp add: core_of_def)
  moreover have "is_allowed_checkout_url (mw_parseUrl (vw_shop w)) url (sy_storeDomain shop)"
    using shop(2) by (auto simp: assert_allowed_checkout_url_def is_allowed_checkout_url_def split: option.splits if_splits)
  ultimately show ?thesis using shop(1) mark_started_status [OF 2(1)] token_kept_trans [OF 1(2) 2(2)] by blast
qed

text \<open>The new intent is what \<open>createIntent\<close> stored, at the state it left.\<close>

lemma new_checkout_intent:
  assumes "create_new_checkout_intent w org customer session request source division offering s = (Inr i, s')" "others_keep w hash"
  shows "\<exists>e now. i = new_intent (recovery_intent_input org customer session request source division offering e)
      (mw_intentId (vw_shop w)) (mw_correlationId (vw_shop w)) (mw_lineIds (vw_shop w)) now \<and>
    js_get (cr_intents (rs_checkout s')) (mw_intentId (vw_shop w)) = Some i \<and> token_kept hash s s'"
proof -
  let ?in = "recovery_intent_input org customer session request source division offering (to_iso (vw_now w RvMark + 30 * 60000))"
  obtain r where r: "(case create_intent ?in (mw_intentId (vw_shop w)) (mw_correlationId (vw_shop w)) (mw_lineIds (vw_shop w))
        (to_iso (vw_now w RvCreate)) r of (OutcomeCreated i, r') \<Rightarrow> (Inr i, r') | (outcome, r') \<Rightarrow> (Inl (recovery_outcome_error outcome), r'))
      = (Inr i, rs_checkout s')" "token_kept hash s s'"
    by (rule on_checkout_cases [OF assms(1) [unfolded create_new_checkout_intent_def] assms(2)])
  then have "create_intent ?in (mw_intentId (vw_shop w)) (mw_correlationId (vw_shop w)) (mw_lineIds (vw_shop w))
        (to_iso (vw_now w RvCreate)) r = (OutcomeCreated i, rs_checkout s')"
    by (auto split: prod.splits intent_outcome.splits)
  from create_intent_answer [OF this] r(2) show ?thesis by auto
qed

lemma create_failed_keeps:
  assumes "create_new_checkout_intent w org customer session request source division offering s = (Inl e, s')" "others_keep w hash"
  shows "js_get (cr_intents (rs_checkout s')) (mw_intentId (vw_shop w)) = js_get (cr_intents (rs_checkout s)) (mw_intentId (vw_shop w))"
proof -
  let ?in = "recovery_intent_input org customer session request source division offering (to_iso (vw_now w RvMark + 30 * 60000))"
  obtain r where r: "(case create_intent ?in (mw_intentId (vw_shop w)) (mw_correlationId (vw_shop w)) (mw_lineIds (vw_shop w))
        (to_iso (vw_now w RvCreate)) r of (OutcomeCreated i, r') \<Rightarrow> (Inr i, r') | (outcome, r') \<Rightarrow> (Inl (recovery_outcome_error outcome), r'))
      = (Inl e, rs_checkout s')"
    "js_get (cr_intents r) (mw_intentId (vw_shop w)) = js_get (cr_intents (rs_checkout s)) (mw_intentId (vw_shop w))"
    by (rule on_checkout_cases [OF assms(1) [unfolded create_new_checkout_intent_def] assms(2)])
  obtain outcome r' where c: "create_intent ?in (mw_intentId (vw_shop w)) (mw_correlationId (vw_shop w)) (mw_lineIds (vw_shop w))
        (to_iso (vw_now w RvCreate)) r = (outcome, r')" by fastforce
  with r(1) have "r' = rs_checkout s'" "\<forall>v. outcome \<noteq> OutcomeCreated v" by (auto split: intent_outcome.splits)
  with create_intent_answer [OF c] r(2) show ?thesis by auto
qed

lemma offering_listed:
  assumes "validate_offering w org slug source = Inr off" "truthy (xi_offeringId source)"
  shows "\<exists>product d. mw_offering (vw_shop w) org ''teacher_membership'' = Some product \<and> mp_isActive product \<and>
    xi_offeringId source = Some (mp_productId product) \<and> off = Some d \<and> dp_id d = mp_productId product \<and>
    (vw_hasListings w \<longrightarrow> (\<exists>products. mw_listing (vw_shop w) slug = Inr products \<and> d \<in> set products \<and> dp_available d))"
proof -
  from assms obtain product where product: "mw_offering (vw_shop w) org ''teacher_membership'' = Some product" "mp_isActive product"
    "xi_offeringId source = Some (mp_productId product)"
    by (auto simp: validate_offering_def TEACHER_MEMBERSHIP_ENTITLEMENT_CLASS_def if_truthy_def Let_def split: option.splits if_splits)
  show ?thesis
  proof (cases "vw_hasListings w")
    case True
    with assms product obtain products where l: "mw_listing (vw_shop w) slug = Inr products"
      "(case find (\<lambda>p. dp_id p = mp_productId product) products of
          None \<Rightarrow> Inl (AppError ''Membership selection is unavailable.'' 409 None)
        | Some d \<Rightarrow> if dp_available d then Inr (Some d) else Inl (AppError ''Membership selection is unavailable.'' 409 None)) = Inr off"
      by (auto simp: validate_offering_def TEACHER_MEMBERSHIP_ENTITLEMENT_CLASS_def if_truthy_def and_then_eq_Inr Let_def)
    then obtain d where "find (\<lambda>p. dp_id p = mp_productId product) products = Some d" "dp_available d" "off = Some d"
      by (auto split: option.splits if_splits)
    with product l(1) show ?thesis by (auto dest!: find_SomeD)
  next
    case False
    with assms product show ?thesis
      by (auto simp: validate_offering_def TEACHER_MEMBERSHIP_ENTITLEMENT_CLASS_def if_truthy_def Let_def)
  qed
qed

lemma consume_ok:
  assumes "consume_recovery_request hash (Some org) None now r = (Inr q, r')" "find_request_by_hash hash r = Some (k, q0)"
  shows "find_request_by_hash hash r' = Some (k, q) \<and> rr_status q = RecConsumed \<and> rr_consumedAt q = Some now \<and>
    request_identity q = request_identity q0 \<and> now < rr_expiresAt q \<and> (org = [] \<or> rr_organizationId q = org)"
proof -
  from assms have q: "q = q0\<lparr>rr_status := RecConsumed, rr_consumedAt := Some now\<rparr>"
    and r': "r' = r\<lparr>rp_requests := js_modify k (\<lambda>q. q\<lparr>rr_status := RecConsumed, rr_consumedAt := Some now\<rparr>) (rp_requests r)\<rparr>"
    and more: "now < rr_expiresAt q0" "org = [] \<or> rr_organizationId q0 = org"
    by (auto simp: consume_recovery_request_def Let_def split: if_splits)
  have "find_request_by_hash hash r' = Some (k, q)"
    using assms(2) unfolding r' find_request_by_hash_def js_modify_def by (simp add: find_map_pairs q)
  with q more show ?thesis by (simp add: request_identity_def)
qed

text \<open>Every later step keeps the new intent but for its status and cart, and what the token stands for.\<close>

definition keeps_rcore :: "recovery_world \<Rightarrow> string \<Rightarrow> (recovery_state, 'a) act \<Rightarrow> bool" where
  "keeps_rcore w hash m \<longleftrightarrow>
     (\<forall>s res s'. m s = (res, s') \<longrightarrow> core_of (mw_intentId (vw_shop w)) (rs_checkout s') = core_of (mw_intentId (vw_shop w)) (rs_checkout s) \<and>
        token_kept hash s s')"

lemma keeps_rcore_D:
  "keeps_rcore w hash m \<Longrightarrow> m s = (res, s') \<Longrightarrow>
     core_of (mw_intentId (vw_shop w)) (rs_checkout s') = core_of (mw_intentId (vw_shop w)) (rs_checkout s) \<and> token_kept hash s s'"
  by (simp add: keeps_rcore_def)

lemma keeps_rcore_basic [simp]:
  "keeps_rcore w hash (act_return x)" "keeps_rcore w hash (act_throw e)" "keeps_rcore w hash (act_lift r)" "keeps_rcore w hash (log_recovery ev)"
  by (simp_all add: keeps_rcore_def log_recovery_def token_kept_same)

lemma keeps_rcore_bind: "keeps_rcore w hash m \<Longrightarrow> (\<And>x. keeps_rcore w hash (k x)) \<Longrightarrow> keeps_rcore w hash (act_bind m k)"
  unfolding keeps_rcore_def by (auto elim!: act_bind_cases) (metis token_kept_trans)+

lemma keeps_rcore_catch: "keeps_rcore w hash m \<Longrightarrow> (\<And>e. keeps_rcore w hash (h e)) \<Longrightarrow> keeps_rcore w hash (act_catch m h)"
  unfolding keeps_rcore_def act_catch_def by (auto split: prod.splits sum.splits) (metis token_kept_trans)+

lemma keeps_rcore_on_checkout:
  assumes "others_keep w hash" "\<And>r res r'. f r = (res, r') \<Longrightarrow> core_of (mw_intentId (vw_shop w)) r' = core_of (mw_intentId (vw_shop w)) r"
  shows "keeps_rcore w hash (on_checkout w p f)"
  unfolding keeps_rcore_def
proof (intro allI impI)
  fix s res s' assume "on_checkout w p f s = (res, s')"
  from on_checkout_cases [OF this assms(1)] obtain r where "f r = (res, rs_checkout s')" "token_kept hash s s'"
    "js_get (cr_intents r) (mw_intentId (vw_shop w)) = js_get (cr_intents (rs_checkout s)) (mw_intentId (vw_shop w))" by metis
  with assms(2) show "core_of (mw_intentId (vw_shop w)) (rs_checkout s') = core_of (mw_intentId (vw_shop w)) (rs_checkout s) \<and>
      token_kept hash s s'" by (metis core_of_def)
qed

lemma keeps_rcore_storefront:
  assumes "others_keep w hash" shows "keeps_rcore w hash (create_storefront_checkout w org customer session intent)"
proof -
  have "keeps_rcore w hash (attach_recovered_cart w org customer session intent c)" for c
    unfolding attach_recovered_cart_def by (intro keeps_rcore_on_checkout assms core_attach)
  moreover have "keeps_rcore w hash (start_recovered_checkout w org k c)" for k c
    unfolding start_recovered_checkout_def
    by (intro keeps_rcore_bind keeps_rcore_on_checkout assms core_mark_started) (auto intro: keeps_rcore_bind split: option.split)
  moreover have "keeps_rcore w hash (on_checkout w RvFailed (\<lambda>r. (Inr (), mark_failed k r)))" for k
    by (intro keeps_rcore_on_checkout assms) auto
  ultimately show ?thesis unfolding create_storefront_checkout_def
    by (intro keeps_rcore_catch keeps_rcore_bind) simp_all
qed

lemma token_kept_consume: "token_kept hash s (s\<lparr>rs_recovery := snd (consume_recovery_request h org at now (rs_recovery s))\<rparr>)"
proof -
  have settle: "token_kept hash s (s\<lparr>rs_recovery := (rs_recovery s)\<lparr>rp_requests := js_modify k f (rp_requests (rs_recovery s))\<rparr>\<rparr>)"
    if "\<And>q. rr_tokenHash (f q) = rr_tokenHash q" "\<And>q. request_identity (f q) = request_identity q" for k f
    unfolding token_kept_def find_request_by_hash_def js_modify_def using that by (auto simp: find_map_pairs)
  show ?thesis unfolding consume_recovery_request_def Let_def
    by (auto simp: request_identity_def intro: settle token_kept_same split: option.split)
qed

lemma keeps_rcore_consume:
  assumes "others_keep w hash" shows "keeps_rcore w hash (on_recovery w p (consume_recovery_request h org at now))"
  unfolding keeps_rcore_def
proof (intro allI impI)
  fix s res s' assume "on_recovery w p (consume_recovery_request h org at now) s = (res, s')"
  then have s': "s' = (vw_others w p s)\<lparr>rs_recovery := snd (consume_recovery_request h org at now (rs_recovery (vw_others w p s)))\<rparr>"
    by (auto simp: on_recovery_def Let_def split: prod.splits)
  have "token_kept hash s s'" unfolding s'
    by (rule token_kept_trans [OF _ token_kept_consume]) (use assms in \<open>simp add: others_keep_def\<close>)
  with assms show "core_of (mw_intentId (vw_shop w)) (rs_checkout s') = core_of (mw_intentId (vw_shop w)) (rs_checkout s) \<and>
      token_kept hash s s'" by (simp add: s' others_keep_def core_of_def)
qed

text \<open>A new intent appears only after every check passed, and is built from them.\<close>

lemma resume_created:
  assumes run: "resume_customer_checkout w slug token customer session s = (res, s')" and w: "others_keep w (vw_hash w token)"
    and absent: "js_get (cr_intents (rs_checkout s)) (mw_intentId (vw_shop w)) = None"
    and there: "js_get (cr_intents (rs_checkout s')) (mw_intentId (vw_shop w)) = Some i"
  shows "\<exists>c s1 e now. recovery_checks w slug token customer s = (Inr c, s1) \<and> vw_hasCheckout w \<and> token_kept (vw_hash w token) s1 s' \<and>
    intent_core i = intent_core (new_intent (recovery_intent_input (vc_organization c) customer (vs_sessionId session)
      (rr_id (vc_request c)) (vc_source c) (vc_division c) (vc_offering c) e)
      (mw_intentId (vw_shop w)) (mw_correlationId (vw_shop w)) (mw_lineIds (vw_shop w)) now)"
proof -
  let ?iid = "mw_intentId (vw_shop w)" and ?h = "vw_hash w token"
  define store where "store c v = act_bind (create_storefront_checkout w (vc_organization c) customer session v) (\<lambda>url.
     act_bind (on_recovery w RvConsume (consume_recovery_request (vc_hash c) (Some (vc_organization c)) None (vw_now w RvConsume))) (\<lambda>_.
     act_bind (log_recovery \<lparr>rv_action = ResumeCheckout, rv_actorUid = customer, rv_eventOrganization = vc_organization c,
       rv_targetCustomerId = Some customer, rv_eventIntentId = Some (xi_id v), rv_eventTokenHash = Some (vc_hash c),
       rv_resultCount = None, rv_occurredAt = vw_now w RvLog\<rparr>) (\<lambda>_. act_return url)))" for c :: recovery_context and v
  have keep: "keeps_rcore w ?h (store c v)" for c :: recovery_context and v
    unfolding store_def by (intro keeps_rcore_bind keeps_rcore_storefront keeps_rcore_consume w) simp_all
  from run obtain c s1 s2 r3 s3 where checks: "recovery_checks w slug token customer s = (Inr c, s1)" and has: "vw_hasCheckout w"
    and mark: "on_checkout w RvMark (\<lambda>r. (Inr (), mark_failed (xi_id (vc_source c)) r)) s1 = (Inr (), s2)"
    and new: "create_new_checkout_intent w (vc_organization c) customer (vs_sessionId session) (rr_id (vc_request c)) (vc_source c)
       (vc_division c) (vc_offering c) s2 = (r3, s3)"
    and rest: "(\<exists>v. r3 = Inr v \<and> store c v s3 = (res, s')) \<or> (\<exists>e. r3 = Inl e \<and> s' = s3)"
    unfolding resume_customer_checkout_def Let_def store_def [symmetric]
    using absent there checks_keep [OF _ w]
    by (auto elim!: act_bind_cases simp: on_checkout_def Let_def)
  have s1: "js_get (cr_intents (rs_checkout s1)) ?iid = None" using checks_keep [OF checks w] absent by simp
  have s2: "core_of ?iid (rs_checkout s2) = core_of ?iid (rs_checkout s1)" "token_kept ?h s1 s2"
    using keeps_rcore_D [OF keeps_rcore_on_checkout [OF w] mark] by auto
  show ?thesis
  proof (cases r3)
    case (Inl e)
    with new have "js_get (cr_intents (rs_checkout s3)) ?iid = js_get (cr_intents (rs_checkout s2)) ?iid"
      using create_failed_keeps w by blast
    with Inl rest s1 s2 there show ?thesis by (auto simp: core_of_def)
  next
    case (Inr v)
    with rest have st: "store c v s3 = (res, s')" by simp
    from new_checkout_intent [OF new [unfolded Inr] w] obtain e now where
      v: "v = new_intent (recovery_intent_input (vc_organization c) customer (vs_sessionId session) (rr_id (vc_request c)) (vc_source c)
       (vc_division c) (vc_offering c) e) ?iid (mw_correlationId (vw_shop w)) (mw_lineIds (vw_shop w)) now"
      "js_get (cr_intents (rs_checkout s3)) ?iid = Some v" "token_kept ?h s2 s3" by blast
    from keeps_rcore_D [OF keep st] v(2) there have "intent_core i = intent_core v" "token_kept ?h s3 s'" by (simp_all add: core_of_def)
    with checks has v token_kept_trans [OF token_kept_trans [OF s2(2) v(3)]] show ?thesis by metis
  qed
qed

section \<open>Properties\<close>

text \<open>
  A recovered checkout uses up its link.  When a customer resumes a checkout and gets a URL,
  the URL is HTTPS on the store's domain, the new intent of that customer and session is started
  under the key of the recovery request, the request was the customer's, unexpired, and is
  consumed, and the log ends with the event.  Other requests may run before every step as long as
  they leave the new intent and the identity of the request alone.
\<close>
theorem recovered_checkout_consumes_request:
  assumes "resume_customer_checkout w slug token customer session s = (Inr url, s')" "others_keep w (vw_hash w token)"
  shows "\<exists>org k q i shop. vw_organizationBySlug w slug = Some org \<and>
    find_request_by_hash (vw_hash w token) (rs_recovery s') = Some (k, q) \<and> rr_status q = RecConsumed \<and>
    rr_customerId q = customer \<and> rr_consumedAt q = Some (vw_now w RvConsume) \<and> vw_now w RvConsume < rr_expiresAt q \<and>
    js_get (cr_intents (rs_checkout s')) (mw_intentId (vw_shop w)) = Some i \<and> xi_status i = IntentStarted \<and>
    xi_organizationId i = org \<and> xi_customerId i = customer \<and> xi_sessionId i = vs_sessionId session \<and>
    xi_idempotencyKey i = ''recovery:'' @ rr_id q \<and>
    mw_integration (vw_shop w) MVerify org = Some shop \<and>
    is_allowed_checkout_url (mw_parseUrl (vw_shop w)) url (sy_storeDomain shop) \<and>
    (\<exists>e. last (rs_audit s') = e \<and> rv_action e = ResumeCheckout \<and> rv_actorUid e = customer \<and> rv_eventIntentId e = Some (xi_id i))"
proof -
  let ?h = "vw_hash w token" and ?iid = "mw_intentId (vw_shop w)"
  note w = assms(2)
  from assms(1) obtain c s1 s2 v s3 s4 used s5 where
    checks: "recovery_checks w slug token customer s = (Inr c, s1)"
    and mark: "on_checkout w RvMark (\<lambda>r. (Inr (), mark_failed (xi_id (vc_source c)) r)) s1 = (Inr (), s2)"
    and new: "create_new_checkout_intent w (vc_organization c) customer (vs_sessionId session) (rr_id (vc_request c)) (vc_source c)
       (vc_division c) (vc_offering c) s2 = (Inr v, s3)"
    and store: "create_storefront_checkout w (vc_organization c) customer session v s3 = (Inr url, s4)"
    and use: "on_recovery w RvConsume (consume_recovery_request (vc_hash c) (Some (vc_organization c)) None (vw_now w RvConsume)) s4
      = (Inr used, s5)"
    and log: "s' = s5\<lparr>rs_audit := rs_audit s5 @ [\<lparr>rv_action = ResumeCheckout, rv_actorUid = customer,
       rv_eventOrganization = vc_organization c, rv_targetCustomerId = Some customer, rv_eventIntentId = Some (xi_id v),
       rv_eventTokenHash = Some (vc_hash c), rv_resultCount = None, rv_occurredAt = vw_now w RvLog\<rparr>]\<rparr>"
    unfolding resume_customer_checkout_def Let_def log_recovery_def by (auto simp: act_bind_eq_Inr)
  note passed = checks_passed [OF checks w]
  then obtain k q where q: "find_request_by_hash ?h (rs_recovery s1) = Some (k, q)"
    "request_identity q = request_identity (vc_request c)" by auto
  from on_checkout_cases [OF mark w] have k12: "token_kept ?h s1 s2" by metis
  from new_checkout_intent [OF new w] obtain e now where
    v: "v = new_intent (recovery_intent_input (vc_organization c) customer (vs_sessionId session) (rr_id (vc_request c)) (vc_source c)
       (vc_division c) (vc_offering c) e) ?iid (mw_correlationId (vw_shop w)) (mw_lineIds (vw_shop w)) now"
    "js_get (cr_intents (rs_checkout s3)) ?iid = Some v" and k23: "token_kept ?h s2 s3" by blast
  have vid: "xi_id v = ?iid" by (simp add: v(1) new_intent_def Let_def)
  from storefront_url [OF store w vid] obtain shop i where shop: "mw_integration (vw_shop w) MVerify (vc_organization c) = Some shop"
    "is_allowed_checkout_url (mw_parseUrl (vw_shop w)) url (sy_storeDomain shop)"
    and i: "js_get (cr_intents (rs_checkout s4)) ?iid = Some i" "xi_status i = IntentStarted"
    "core_of ?iid (rs_checkout s4) = core_of ?iid (rs_checkout s3)" and k34: "token_kept ?h s3 s4" unfolding vid by blast
  from on_recovery_cases [OF use w] obtain r where
    r: "consume_recovery_request (vc_hash c) (Some (vc_organization c)) None (vw_now w RvConsume) r = (Inr used, rs_recovery s5)"
    "r = rs_recovery (vw_others w RvConsume s4)" "token_kept ?h s4 (vw_others w RvConsume s4)"
    "js_get (cr_intents (rs_checkout s5)) ?iid = js_get (cr_intents (rs_checkout s4)) ?iid" by metis
  have "token_kept ?h s1 (vw_others w RvConsume s4)"
    by (rule token_kept_trans [OF token_kept_trans [OF token_kept_trans [OF k12 k23] k34] r(3)])
  with q obtain q1 where q1: "find_request_by_hash ?h r = Some (k, q1)" "request_identity q1 = request_identity (vc_request c)"
    unfolding token_kept_def r(2) by metis
  from consume_ok [OF r(1) [unfolded passed [THEN conjunct2, THEN conjunct1]] q1(1)]
  have used: "find_request_by_hash ?h (rs_recovery s5) = Some (k, used)" "rr_status used = RecConsumed"
    "rr_consumedAt used = Some (vw_now w RvConsume)" "request_identity used = request_identity q1"
    "vw_now w RvConsume < rr_expiresAt used" by simp_all
  have ident: "rr_customerId used = customer" "rr_id used = rr_id (vc_request c)"
    using used(4) q1(2) passed by (simp_all add: request_identity_def)
  have "intent_core i = intent_core v" using i(1,3) v(2) by (simp add: core_of_def)
  note fields = this [THEN arg_cong [where f = xi_organizationId]] this [THEN arg_cong [where f = xi_customerId]]
    this [THEN arg_cong [where f = xi_sessionId]] this [THEN arg_cong [where f = xi_idempotencyKey]] this [THEN arg_cong [where f = xi_id]]
  have f: "xi_organizationId i = vc_organization c" "xi_customerId i = customer" "xi_sessionId i = vs_sessionId session"
    "xi_idempotencyKey i = ''recovery:'' @ rr_id used" "xi_id i = xi_id v"
    using fields ident by (simp_all add: intent_core_def v(1) new_intent_def recovery_intent_input_def Let_def)
  show ?thesis
    by (intro exI [of _ "vc_organization c"] exI [of _ k] exI [of _ used] exI [of _ i] exI [of _ shop] conjI)
      (use passed used ident i(1,2) r(4) f shop log in simp_all)
qed

text \<open>
  C2: a recovered checkout is opened only after every check.  If a resumption leaves its new intent
  in the repository, then the request was pending, unexpired and the customer's; the intent carries
  its key; the source is a membership checkout of the customer; a division or offering the source
  names is still active, and on display at the price of the new intent where there is a listing;
  and the customer may renew: no active membership with more than 30 days left, none scheduled.
\<close>
theorem recovered_intent_only_after_checks:
  assumes "resume_customer_checkout w slug token customer session s = (res, s')" "others_keep w (vw_hash w token)"
    and "js_get (cr_intents (rs_checkout s)) (mw_intentId (vw_shop w)) = None"
    and "js_get (cr_intents (rs_checkout s')) (mw_intentId (vw_shop w)) = Some i"
  shows "\<exists>org (q :: recovery_request) (source :: checkout_intent). vw_organizationBySlug w slug = Some org \<and> rr_customerId q = customer \<and> rr_status q = RecPending \<and>
    vw_now w RvFind < rr_expiresAt q \<and> xi_customerId i = customer \<and> xi_idempotencyKey i = ''recovery:'' @ rr_id q \<and>
    xi_customerId source = customer \<and> xi_intentType source = MembershipIntent \<and>
    (truthy (xi_divisionId source) \<longrightarrow> xi_divisionId i = xi_divisionId source \<and>
       (\<exists>name. xi_divisionNameSnapshot i = Some name \<and> (the (xi_divisionId source), name) \<in> set (mw_divisions (vw_shop w) org))) \<and>
    (truthy (xi_offeringId source) \<longrightarrow> xi_offeringId i = xi_offeringId source \<and>
       (\<exists>product. mw_offering (vw_shop w) org ''teacher_membership'' = Some product \<and> mp_isActive product \<and>
          xi_offeringId source = Some (mp_productId product)) \<and>
       (vw_hasListings w \<longrightarrow> (\<exists>products d. mw_listing (vw_shop w) slug = Inr products \<and> d \<in> set products \<and> dp_available d \<and>
          xi_offeringId source = Some (dp_id d) \<and> xi_amount i = dp_amount d \<and> xi_currencyCode i = dp_priceCurrencyCode d))) \<and>
    (\<exists>today. calendar_date_in_timezone (mw_zones (vw_shop w)) (mw_iso (vw_shop w) MEligibility) (mw_timezone (vw_shop w) org) = Inr today \<and>
       (\<forall>g \<in> set (mw_grants (vw_shop w) org customer). mg_entitlementClass g = ''teacher_membership'' \<longrightarrow>
          lifecycle_for_entitlement_read g today = Inr Active \<longrightarrow>
          (\<exists>n. calendar_days_until today (li_endsOn g) = Inr n \<and> n \<le> 30)) \<and>
       \<not> (mw_hasCommerce (vw_shop w) \<and> mw_hasScheduled (vw_shop w) org customer ''teacher_membership'' today))"
proof -
  from resume_created [OF assms] obtain c s1 e now where
    checks: "recovery_checks w slug token customer s = (Inr c, s1)"
    and core: "intent_core i = intent_core (new_intent (recovery_intent_input (vc_organization c) customer (vs_sessionId session)
      (rr_id (vc_request c)) (vc_source c) (vc_division c) (vc_offering c) e)
      (mw_intentId (vw_shop w)) (mw_correlationId (vw_shop w)) (mw_lineIds (vw_shop w)) now)" by blast
  note passed = checks_passed [OF checks assms(2)]
  note fields = core [THEN arg_cong [where f = xi_customerId]] core [THEN arg_cong [where f = xi_idempotencyKey]]
    core [THEN arg_cong [where f = xi_divisionId]] core [THEN arg_cong [where f = xi_divisionNameSnapshot]]
    core [THEN arg_cong [where f = xi_offeringId]] core [THEN arg_cong [where f = xi_amount]]
    core [THEN arg_cong [where f = xi_currencyCode]]
  have f: "xi_customerId i = customer" "xi_idempotencyKey i = ''recovery:'' @ rr_id (vc_request c)"
    "xi_divisionId i = (case vc_division c of Some d \<Rightarrow> Some (fst d) | None \<Rightarrow> xi_divisionId (vc_source c))"
    "xi_divisionNameSnapshot i = (case vc_division c of Some d \<Rightarrow> Some (snd d) | None \<Rightarrow> xi_divisionNameSnapshot (vc_source c))"
    "xi_offeringId i = (case vc_offering c of Some d \<Rightarrow> Some (dp_id d) | None \<Rightarrow> xi_offeringId (vc_source c))"
    "xi_amount i = (case vc_offering c of Some d \<Rightarrow> dp_amount d | None \<Rightarrow> xi_amount (vc_source c))"
    "xi_currencyCode i = (case vc_offering c of Some d \<Rightarrow> dp_priceCurrencyCode d | None \<Rightarrow> xi_currencyCode (vc_source c))"
    using fields by (simp_all add: intent_core_def new_intent_def recovery_intent_input_def Let_def)
  have division: "truthy (xi_divisionId (vc_source c)) \<longrightarrow> xi_divisionId i = xi_divisionId (vc_source c) \<and>
       (\<exists>name. xi_divisionNameSnapshot i = Some name \<and>
          (the (xi_divisionId (vc_source c)), name) \<in> set (mw_divisions (vw_shop w) (vc_organization c)))"
    using passed f(3,4) by (auto simp: validate_division_def if_truthy_def split: option.splits if_splits dest!: find_SomeD)
  have offering: "truthy (xi_offeringId (vc_source c)) \<longrightarrow> xi_offeringId i = xi_offeringId (vc_source c) \<and>
       (\<exists>product. mw_offering (vw_shop w) (vc_organization c) ''teacher_membership'' = Some product \<and> mp_isActive product \<and>
          xi_offeringId (vc_source c) = Some (mp_productId product)) \<and>
       (vw_hasListings w \<longrightarrow> (\<exists>products d. mw_listing (vw_shop w) slug = Inr products \<and> d \<in> set products \<and> dp_available d \<and>
          xi_offeringId (vc_source c) = Some (dp_id d) \<and> xi_amount i = dp_amount d \<and> xi_currencyCode i = dp_priceCurrencyCode d))"
    using passed offering_listed [of w "vc_organization c" slug "vc_source c" "vc_offering c"] f(5-7) by fastforce
  from passed have "verify_renewal_eligibility (vw_shop w) (vc_organization c) customer = Inr ()"
    by (simp add: verify_scheduled_entitlement_def)
  note eligible = renewal_eligible [OF this]
  show ?thesis
    by (rule exI [of _ "vc_organization c"], rule exI [of _ "vc_request c"], rule exI [of _ "vc_source c"])
      (intro conjI division offering eligible; simp only: passed f)
qed

text \<open>
  C26: \<open>Please try again\<close> cannot work.  After a resumption that opened an intent and failed, with no
  other request in between, the same customer, session and token fail again with a conflict even
  when every check passes and the store answers: the key of the new intent is the request's.
\<close>
theorem failed_recovery_cannot_be_retried:
  assumes "resume_customer_checkout w1 slug token customer session s = (Inl e, s1)"
    and "\<forall>p s. vw_others w1 p s = s" "\<forall>p s. vw_others w2 p s = s"
    and "vw_hash w2 = vw_hash w1" "vw_organizationBySlug w2 slug = vw_organizationBySlug w1 slug"
    and "js_get (cr_intents (rs_checkout s)) (mw_intentId (vw_shop w1)) = None"
    and "js_get (cr_intents (rs_checkout s1)) (mw_intentId (vw_shop w1)) \<noteq> None"
    and "recovery_checks w2 slug token customer s1 = (Inr c, s2)" "vw_hasCheckout w2"
  shows "\<exists>e2 s3. resume_customer_checkout w2 slug token customer session s1 = (Inl e2, s3) \<and>
    error_code e2 \<in> {Some ''checkout_in_progress'', Some ''checkout_expired'', Some ''checkout_terminal_failure''}"
proof -
  let ?h = "vw_hash w1 token"
  have w1: "others_keep w1 ?h" and w2: "others_keep w2 ?h" using assms(2,3) by (simp_all add: others_keep_def)
  from assms(7) obtain i where "js_get (cr_intents (rs_checkout s1)) (mw_intentId (vw_shop w1)) = Some i" by blast
  from resume_created [OF assms(1) w1 assms(6) this] obtain c1 t x now where
    c1: "recovery_checks w1 slug token customer s = (Inr c1, t)" and kept: "token_kept ?h t s1"
    and core: "intent_core i = intent_core (new_intent (recovery_intent_input (vc_organization c1) customer (vs_sessionId session)
      (rr_id (vc_request c1)) (vc_source c1) (vc_division c1) (vc_offering c1) x)
      (mw_intentId (vw_shop w1)) (mw_correlationId (vw_shop w1)) (mw_lineIds (vw_shop w1)) now)" by blast
  note p1 = checks_passed [OF c1 w1]
  have p2: "vw_organizationBySlug w1 slug = Some (vc_organization c)" 
    "\<exists>k q. find_request_by_hash ?h (rs_recovery s2) = Some (k, q) \<and> request_identity q = request_identity (vc_request c)"
    using checks_passed [OF assms(8)] w2 assms(4,5) by simp_all
  have s2: "s2 = s1" using assms(8,3) checks_quiet by simp
  have ids: "vc_organization c1 = vc_organization c" "rr_id (vc_request c1) = rr_id (vc_request c)"
    using p1 p2 kept unfolding s2 token_kept_def request_identity_def by auto
  note fields = core [THEN arg_cong [where f = xi_customerId]] core [THEN arg_cong [where f = xi_idempotencyKey]]
    core [THEN arg_cong [where f = xi_organizationId]] core [THEN arg_cong [where f = xi_sessionId]]
  have same: "same_request (vc_organization c) customer (vs_sessionId session) (''recovery:'' @ rr_id (vc_request c)) i"
    using fields ids by (simp add: same_request_def intent_core_def new_intent_def recovery_intent_input_def Let_def)
  let ?r = "mark_failed (xi_id (vc_source c)) (rs_checkout s1)"
  have "\<exists>j. js_get (cr_intents ?r) (mw_intentId (vw_shop w1)) = Some j \<and> intent_core j = intent_core i"
    using core_mark_failed [of "mw_intentId (vw_shop w1)" "xi_id (vc_source c)" "rs_checkout s1"] \<open>js_get _ _ = Some i\<close>
    by (auto simp: core_of_def)
  then obtain j where j: "j \<in> set (js_values (cr_intents ?r))" "intent_core j = intent_core i" by (blast dest: js_get_Some_values)
  have "same_request (vc_organization c) customer (vs_sessionId session) (''recovery:'' @ rr_id (vc_request c)) j"
    using same j(2) [THEN arg_cong [where f = xi_organizationId]] j(2) [THEN arg_cong [where f = xi_customerId]]
      j(2) [THEN arg_cong [where f = xi_sessionId]] j(2) [THEN arg_cong [where f = xi_idempotencyKey]]
    by (simp add: same_request_def intent_core_def)
  then obtain v where "find (same_request (vc_organization c) customer (vs_sessionId session) (''recovery:'' @ rr_id (vc_request c)))
      (js_values (cr_intents ?r)) = Some v" using j(1) by (metis find_None_all option.exhaust)
  then have found: "create_intent (recovery_intent_input (vc_organization c) customer (vs_sessionId session) (rr_id (vc_request c))
      (vc_source c) (vc_division c) (vc_offering c) x') a b l n ?r = (outcome_for n v ?r, ?r)" for x' a b l n
    by (simp add: create_intent_def recovery_intent_input_def)
  have "outcome_for n v ?r \<noteq> OutcomeCreated u" for n u by (auto simp: outcome_for_def split: option.splits)
  then have "\<exists>e3. create_new_checkout_intent w2 (vc_organization c) customer (vs_sessionId session) (rr_id (vc_request c)) (vc_source c)
       (vc_division c) (vc_offering c) (s1\<lparr>rs_checkout := ?r\<rparr>) = (Inl e3, s1\<lparr>rs_checkout := ?r\<rparr>) \<and>
       error_code e3 \<in> {Some ''checkout_in_progress'', Some ''checkout_expired'', Some ''checkout_terminal_failure''}"
    using assms(3) by (auto simp: create_new_checkout_intent_def on_checkout_def found outcome_for_def error_code_def split: option.split)
  then show ?thesis using assms(3,8,9)
    by (auto simp: resume_customer_checkout_def Let_def act_bind_def on_checkout_def s2)
qed

section \<open>A checkout recovered, and one that failed\<close>

text \<open>\<open>demo_recovery_world c\<close>: alone, with the organization of the membership checkout and the cart answer \<open>c\<close>.\<close>

definition demo_recovery_world :: "string outcome \<Rightarrow> recovery_world" where
  "demo_recovery_world cart =
     \<lparr>vw_others = (\<lambda>_ s. s), vw_now = (\<lambda>_. 1774000000000),
      vw_shop = demo_membership_world\<lparr>mw_createCart := (\<lambda>_ _ _ _. cart)\<rparr>,
      vw_organizationBySlug = (\<lambda>_. Some ''org''), vw_slugById = (\<lambda>_. Some ''o''), vw_classEntitlementOf = (\<lambda>_ _. False),
      vw_hasListings = True, vw_hasCheckout = True, vw_parseDate = (\<lambda>_. None), vw_hash = (\<lambda>t. t),
      vw_rawToken = ''token'', vw_requestId = ''r1''\<rparr>"

definition demo_source :: checkout_intent where
  "demo_source = new_intent (demo_intent_input\<lparr>ni_intentType := Some MembershipIntent, ni_offeringId := Some ''offer'',
     ni_divisionId := Some ''piano''\<rparr>) ''i0'' ''c0'' (\<lambda>_. ''l'') ''2026-01-01''"

definition demo_request :: recovery_request where
  "demo_request = \<lparr>rr_id = ''r1'', rr_organizationId = ''org'', rr_customerId = ''cust'', rr_sourceCheckoutIntentId = ''i0'',
     rr_tokenHash = ''token'', rr_status = RecPending, rr_requestedByActorUid = ''admin'', rr_createdAt = 0,
     rr_expiresAt = 1774000000001, rr_consumedAt = None\<rparr>"

definition demo_recovery_state :: "checkout_repo \<Rightarrow> recovery_state" where
  "demo_recovery_state r =
     \<lparr>rs_recovery = add_recovery_request demo_request (add_recovery_intent demo_source empty_recovery_repo), rs_checkout = r, rs_audit = []\<rparr>"

definition demo_session :: recovery_session where
  "demo_session = \<lparr>vs_sessionId = ''sess'', vs_integrationVersion = 4, vs_buyerAccessToken = ''t''\<rparr>"

lemma demo_recovery_reads [simp]:
  "vw_others (demo_recovery_world cart) p s = s" "vw_now (demo_recovery_world cart) p = 1774000000000"
  "vw_organizationBySlug (demo_recovery_world cart) g = Some ''org''" "vw_hasCheckout (demo_recovery_world cart)"
  "vw_hash (demo_recovery_world cart) = (\<lambda>t. t)" "rs_checkout (demo_recovery_state r) = r"
  "mw_intentId (vw_shop (demo_recovery_world cart)) = ''i1''"
  "mw_createCart (vw_shop (demo_recovery_world cart)) a b c d = cart"
  by (simp_all add: demo_recovery_world_def demo_recovery_state_def demo_membership_world_def)

lemma demo_recovery_eligible: "verify_scheduled_entitlement (demo_recovery_world cart) ''org'' ''cust'' = Inr ()"
proof -
  have "verify_renewal_eligibility (demo_membership_world\<lparr>mw_createCart := f\<rparr>) a b = verify_renewal_eligibility demo_membership_world a b"
    for f a b by (simp add: verify_renewal_eligibility_def mw_iso_def)
  then show ?thesis using demo_renewal_eligible by (simp add: verify_scheduled_entitlement_def demo_recovery_world_def)
qed

definition demo_context :: recovery_context where
  "demo_context = \<lparr>vc_organization = ''org'', vc_hash = ''token'', vc_request = demo_request, vc_source = demo_source,
     vc_division = Some (''piano'', ''Piano''),
     vc_offering = Some \<lparr>dp_id = ''offer'', dp_name = ''Membership'', dp_available = True, dp_amount = ''40.00'', dp_priceCurrencyCode = ''USD''\<rparr>\<rparr>"

lemma demo_checks:
  "recovery_checks (demo_recovery_world cart) ''o'' ''token'' ''cust'' (demo_recovery_state r) = (Inr demo_context, demo_recovery_state r)"
proof -
  let ?r = "add_recovery_request demo_request (add_recovery_intent demo_source empty_recovery_repo)"
  let ?w = "demo_recovery_world cart"
  have "assert_recovery_request_pending (find_recovery_request_by_token_hash ''token'' (Some ''org'') 1774000000000 ?r) ''cust'' 1774000000000
      = Inr demo_request"
    "assert_source_intent_valid (find_recoverable_intent ''org'' (rr_sourceCheckoutIntentId demo_request) ?r) ''cust'' = Inr demo_source"
    "\<not> has_completed_order_or_entitlement ''org'' (xi_id demo_source) (xi_correlationId demo_source) ?r"
    "verify_no_entitlement ?w ''org'' (xi_id demo_source) = Inr ()"
    "validate_division ?w ''org'' (xi_divisionId demo_source) = Inr (Some (''piano'', ''Piano''))"
    "validate_offering ?w ''org'' ''o'' demo_source = Inr (vc_offering demo_context)"
    by code_simp+
  note facts = this
  show ?thesis
    by (simp add: recovery_checks_def Let_def verify_intent_recoverable_def act_bind_def on_recovery_def demo_recovery_eligible facts
        demo_recovery_state_def) (simp add: demo_context_def)
qed

lemma demo_state_update: "(demo_recovery_state r)\<lparr>rs_checkout := r'\<rparr> = demo_recovery_state r'"
  by (simp add: demo_recovery_state_def)

lemma demo_created:
  "\<exists>v. create_new_checkout_intent (demo_recovery_world cart) ''org'' ''cust'' ''sess'' ''r1'' demo_source d f (demo_recovery_state empty_checkout_repo)
       = (Inr v, demo_recovery_state (empty_checkout_repo\<lparr>cr_intents := [(''i1'', v)]\<rparr>)) \<and>
     xi_id v = ''i1'' \<and> xi_organizationId v = ''org'' \<and> xi_status v = IntentCreating"
proof -
  let ?w = "demo_recovery_world cart"
  let ?v = "new_intent (recovery_intent_input ''org'' ''cust'' ''sess'' ''r1'' demo_source d f (to_iso (1774000000000 + 30 * 60000)))
    ''i1'' (mw_correlationId (vw_shop ?w)) (mw_lineIds (vw_shop ?w)) (to_iso 1774000000000)"
  have "xi_id ?v = ''i1'' \<and> xi_organizationId ?v = ''org'' \<and> xi_status ?v = IntentCreating"
    by (simp add: new_intent_def recovery_intent_input_def Let_def)
  moreover have "create_new_checkout_intent ?w ''org'' ''cust'' ''sess'' ''r1'' demo_source d f (demo_recovery_state empty_checkout_repo)
       = (Inr ?v, demo_recovery_state (empty_checkout_repo\<lparr>cr_intents := [(''i1'', ?v)]\<rparr>))"
    by (simp add: create_new_checkout_intent_def on_checkout_def create_intent_def empty_checkout_repo_def js_set_def Let_def demo_state_update)
  ultimately show ?thesis by blast
qed

text \<open>Up to the storefront, where the outcome depends on the cart.\<close>

lemma demo_resume:
  "\<exists>v. resume_customer_checkout (demo_recovery_world cart) ''o'' ''token'' ''cust'' demo_session (demo_recovery_state empty_checkout_repo) =
     act_bind (create_storefront_checkout (demo_recovery_world cart) ''org'' ''cust'' demo_session v) (\<lambda>url.
     act_bind (on_recovery (demo_recovery_world cart) RvConsume (consume_recovery_request ''token'' (Some ''org'') None 1774000000000)) (\<lambda>_.
     act_bind (log_recovery \<lparr>rv_action = ResumeCheckout, rv_actorUid = ''cust'', rv_eventOrganization = ''org'',
       rv_targetCustomerId = Some ''cust'', rv_eventIntentId = Some ''i1'', rv_eventTokenHash = Some ''token'',
       rv_resultCount = None, rv_occurredAt = 1774000000000\<rparr>) (\<lambda>_. act_return url)))
     (demo_recovery_state (empty_checkout_repo\<lparr>cr_intents := [(''i1'', v)]\<rparr>)) \<and>
     xi_id v = ''i1'' \<and> xi_organizationId v = ''org'' \<and> xi_status v = IntentCreating"
proof -
  let ?w = "demo_recovery_world cart"
  have c: "vc_organization demo_context = ''org''" "vc_hash demo_context = ''token''" "vc_source demo_context = demo_source"
    "rr_id (vc_request demo_context) = ''r1''" "vs_sessionId demo_session = ''sess''"
    by (simp_all add: demo_context_def demo_request_def demo_session_def)
  obtain v where v: "create_new_checkout_intent ?w ''org'' ''cust'' ''sess'' ''r1'' demo_source (vc_division demo_context)
      (vc_offering demo_context) (demo_recovery_state empty_checkout_repo)
       = (Inr v, demo_recovery_state (empty_checkout_repo\<lparr>cr_intents := [(''i1'', v)]\<rparr>))"
    "xi_id v = ''i1''" "xi_organizationId v = ''org''" "xi_status v = IntentCreating" using demo_created by blast
  have "mark_failed k empty_checkout_repo = empty_checkout_repo" for k by (simp add: mark_failed_def empty_checkout_repo_def)
  then have mark: "on_checkout ?w RvMark (\<lambda>r. (Inr (), mark_failed k r)) (demo_recovery_state empty_checkout_repo)
      = (Inr (), demo_recovery_state empty_checkout_repo)" for k
    by (simp add: on_checkout_def demo_state_update)
  have "resume_customer_checkout ?w ''o'' ''token'' ''cust'' demo_session (demo_recovery_state empty_checkout_repo) =
     act_bind (create_storefront_checkout ?w ''org'' ''cust'' demo_session v) (\<lambda>url.
     act_bind (on_recovery ?w RvConsume (consume_recovery_request ''token'' (Some ''org'') None 1774000000000)) (\<lambda>_.
     act_bind (log_recovery \<lparr>rv_action = ResumeCheckout, rv_actorUid = ''cust'', rv_eventOrganization = ''org'',
       rv_targetCustomerId = Some ''cust'', rv_eventIntentId = Some ''i1'', rv_eventTokenHash = Some ''token'',
       rv_resultCount = None, rv_occurredAt = 1774000000000\<rparr>) (\<lambda>_. act_return url)))
     (demo_recovery_state (empty_checkout_repo\<lparr>cr_intents := [(''i1'', v)]\<rparr>))"
    by (simp add: resume_customer_checkout_def Let_def demo_checks c mark v)
  with v show ?thesis by blast
qed

lemma demo_resume_fails:
  "\<exists>s1. resume_customer_checkout (demo_recovery_world (Inl (PlainError ''down''))) ''o'' ''token'' ''cust'' demo_session
      (demo_recovery_state empty_checkout_repo) = (Inl retryable_checkout_error, demo_recovery_state s1) \<and>
    js_get (cr_intents s1) ''i1'' \<noteq> None"
proof -
  let ?w = "demo_recovery_world (Inl (PlainError ''down''))"
  obtain v where v: "resume_customer_checkout ?w ''o'' ''token'' ''cust'' demo_session (demo_recovery_state empty_checkout_repo) =
     act_bind (create_storefront_checkout ?w ''org'' ''cust'' demo_session v) (\<lambda>url.
     act_bind (on_recovery ?w RvConsume (consume_recovery_request ''token'' (Some ''org'') None 1774000000000)) (\<lambda>_.
     act_bind (log_recovery \<lparr>rv_action = ResumeCheckout, rv_actorUid = ''cust'', rv_eventOrganization = ''org'',
       rv_targetCustomerId = Some ''cust'', rv_eventIntentId = Some ''i1'', rv_eventTokenHash = Some ''token'',
       rv_resultCount = None, rv_occurredAt = 1774000000000\<rparr>) (\<lambda>_. act_return url)))
     (demo_recovery_state (empty_checkout_repo\<lparr>cr_intents := [(''i1'', v)]\<rparr>))" "xi_id v = ''i1''" using demo_resume by blast
  let ?r = "mark_failed ''i1'' (empty_checkout_repo\<lparr>cr_intents := [(''i1'', v)]\<rparr>)"
  have "create_storefront_checkout ?w ''org'' ''cust'' demo_session v (demo_recovery_state (empty_checkout_repo\<lparr>cr_intents := [(''i1'', v)]\<rparr>))
      = (Inl retryable_checkout_error, demo_recovery_state ?r)"
    by (simp add: create_storefront_checkout_def act_catch_def act_bind_def on_checkout_def v(2) demo_state_update)
  moreover have "js_get (cr_intents ?r) ''i1'' \<noteq> None"
    using core_mark_failed [of "''i1''" "''i1''" "empty_checkout_repo\<lparr>cr_intents := [(''i1'', v)]\<rparr>"]
    by (auto simp: core_of_def js_get_Cons)
  ultimately show ?thesis using v(1) by (auto intro!: exI [of _ ?r])
qed

lemma demo_resume_succeeds:
  "\<exists>s'. resume_customer_checkout (demo_recovery_world (Inr ''cart'')) ''o'' ''token'' ''cust'' demo_session
      (demo_recovery_state empty_checkout_repo) = (Inr ''url'', s')"
proof -
  let ?w = "demo_recovery_world (Inr ''cart'')"
  obtain v where v: "resume_customer_checkout ?w ''o'' ''token'' ''cust'' demo_session (demo_recovery_state empty_checkout_repo) =
     act_bind (create_storefront_checkout ?w ''org'' ''cust'' demo_session v) (\<lambda>url.
     act_bind (on_recovery ?w RvConsume (consume_recovery_request ''token'' (Some ''org'') None 1774000000000)) (\<lambda>_.
     act_bind (log_recovery \<lparr>rv_action = ResumeCheckout, rv_actorUid = ''cust'', rv_eventOrganization = ''org'',
       rv_targetCustomerId = Some ''cust'', rv_eventIntentId = Some ''i1'', rv_eventTokenHash = Some ''token'',
       rv_resultCount = None, rv_occurredAt = 1774000000000\<rparr>) (\<lambda>_. act_return url)))
     (demo_recovery_state (empty_checkout_repo\<lparr>cr_intents := [(''i1'', v)]\<rparr>))"
    "xi_id v = ''i1''" "xi_organizationId v = ''org''" "xi_status v = IntentCreating" using demo_resume by blast
  have lower: "js_lower ''Shop.test'' = ''shop.test''" by code_simp
  have shop: "mw_checkout (vw_shop ?w) a b = Inr ''url''" "mw_integration (vw_shop ?w) p a = Some \<lparr>sy_storeDomain = ''Shop.test'', sy_integrationVersion = 1\<rparr>"
    "assert_allowed_checkout_url (mw_parseUrl (vw_shop ?w)) ''url'' ''Shop.test'' = Inr ()"
    "if_truthy (Some (mw_cartReference (vw_shop ?w))) = Some (mw_cartReference (vw_shop ?w))" for a b p
    using lower by (simp_all add: demo_recovery_world_def demo_membership_world_def assert_allowed_checkout_url_def if_truthy_def)
  have "\<exists>r. create_storefront_checkout ?w ''org'' ''cust'' demo_session v (demo_recovery_state (empty_checkout_repo\<lparr>cr_intents := [(''i1'', v)]\<rparr>))
      = (Inr ''url'', demo_recovery_state r)"
    by (simp add: create_storefront_checkout_def act_catch_def act_bind_def on_checkout_def attach_recovered_cart_def attach_cart_def
        start_recovered_checkout_def mark_checkout_started_def js_get_Cons Let_def v(2-4) demo_state_update shop)
      (rule exI, rule refl)
  moreover have "\<exists>q r'. consume_recovery_request ''token'' (Some ''org'') None 1774000000000 (rs_recovery (demo_recovery_state r)) = (Inr q, r')" for r
  proof -
    have "case fst (consume_recovery_request ''token'' (Some ''org'') None 1774000000000 (rs_recovery (demo_recovery_state r))) of Inl _ \<Rightarrow> False | Inr _ \<Rightarrow> True"
      by code_simp
    then show ?thesis by (auto simp: fst_def split: prod.splits sum.splits)
  qed
  ultimately show ?thesis using v(1)
    by (auto simp: act_bind_def on_recovery_def log_recovery_def split: prod.splits sum.splits) (metis Inr_not_Inl Pair_inject)
qed

lemma demo_others_keep: "others_keep (demo_recovery_world cart) hash"
  by (simp add: others_keep_def)

theorem recovered_checkout_consumes_request_witness:
  "\<exists>s' k q. resume_customer_checkout (demo_recovery_world (Inr ''cart'')) ''o'' ''token'' ''cust'' demo_session
      (demo_recovery_state empty_checkout_repo) = (Inr ''url'', s') \<and>
    find_request_by_hash ''token'' (rs_recovery s') = Some (k, q) \<and> rr_status q = RecConsumed"
proof -
  obtain s' where s': "resume_customer_checkout (demo_recovery_world (Inr ''cart'')) ''o'' ''token'' ''cust'' demo_session
      (demo_recovery_state empty_checkout_repo) = (Inr ''url'', s')" using demo_resume_succeeds by blast
  from recovered_checkout_consumes_request [OF this demo_others_keep] s' show ?thesis by auto
qed

theorem recovered_intent_only_after_checks_witness:
  "\<exists>i. js_get (cr_intents (rs_checkout (snd (resume_customer_checkout (demo_recovery_world (Inl (PlainError ''down''))) ''o'' ''token'' ''cust''
      demo_session (demo_recovery_state empty_checkout_repo))))) ''i1'' = Some i \<and> xi_customerId i = ''cust''"
proof -
  obtain s1 i where s1: "resume_customer_checkout (demo_recovery_world (Inl (PlainError ''down''))) ''o'' ''token'' ''cust'' demo_session
      (demo_recovery_state empty_checkout_repo) = (Inl retryable_checkout_error, demo_recovery_state s1)"
    "js_get (cr_intents s1) ''i1'' = Some i" using demo_resume_fails by blast
  have "js_get (cr_intents empty_checkout_repo) ''i1'' = None" by (simp add: empty_checkout_repo_def)
  with recovered_intent_only_after_checks [OF s1(1) demo_others_keep, of i] s1 show ?thesis by auto
qed

theorem failed_recovery_cannot_be_retried_witness:
  "\<exists>s1 e2 s3. resume_customer_checkout (demo_recovery_world (Inl (PlainError ''down''))) ''o'' ''token'' ''cust'' demo_session
      (demo_recovery_state empty_checkout_repo) = (Inl retryable_checkout_error, s1) \<and>
    resume_customer_checkout (demo_recovery_world (Inr ''cart'')) ''o'' ''token'' ''cust'' demo_session s1 = (Inl e2, s3)"
proof -
  obtain s1 where s1: "resume_customer_checkout (demo_recovery_world (Inl (PlainError ''down''))) ''o'' ''token'' ''cust'' demo_session
      (demo_recovery_state empty_checkout_repo) = (Inl retryable_checkout_error, demo_recovery_state s1)"
    "js_get (cr_intents s1) ''i1'' \<noteq> None" using demo_resume_fails by blast
  have "js_get (cr_intents empty_checkout_repo) ''i1'' = None" by (simp add: empty_checkout_repo_def)
  with failed_recovery_cannot_be_retried [OF s1(1), of "demo_recovery_world (Inr ''cart'')"] s1 demo_checks show ?thesis by auto
qed

end
