(* ===== verification/MembershipGrants.thy ===== *)
theory MembershipGrants
  imports MembershipCheckout
begin

text \<open>
  The membership grants of \<open>InMemoryOrganizationRepository\<close>
  (\<open>packages/backend/src/repo/in-memory-organization-repository.ts\<close>): teacher grants with their
  revocations and supersessions, accompanist grants, the identity emails bound to customers and the
  cohort versions.  Products, divisions and organizations of the repository are parameters, which
  the modelled methods only read.  The clock is an argument; the creation time of a grant is taken from
  it, where the source calls \<open>new Date()\<close> again.
\<close>

section \<open>State\<close>

record stored_grant =
  sg_id :: string
  sg_organizationId :: string
  sg_customerId :: string
  sg_entitlementClass :: string
  sg_offeringId :: string
  sg_durationDays :: int
  sg_divisionId :: string
  sg_divisionNameSnapshot :: string
  sg_paidAmount :: string
  sg_paidCurrencyCode :: string
  sg_checkoutIntentId :: string
  sg_shopifyOrderGid :: string
  sg_shopifyOrderLineGid :: string
  sg_startsOn :: string
  sg_endsOn :: string
  sg_createdAtIso :: string

record accompanist_input =
  ai_organizationId :: string
  ai_customerId :: string
  ai_normalizedEmail :: string
  ai_offeringId :: "string option"
  ai_offeringNameSnapshot :: string
  ai_contact :: "string \<times> string \<times> string \<times> string"
  ai_divisions :: "(string \<times> string) list"
  ai_startsOn :: string
  ai_endsOn :: string

record stored_accompanist =
  sa_id :: string
  sa_input :: accompanist_input
  sa_createdAtIso :: string

record grant_revocation =
  gv_id :: string
  gv_entitlementId :: string
  gv_organizationId :: string
  gv_actorUserId :: string
  gv_reason :: string
  gv_revokedAtIso :: string

record grants_repo =
  gr_grants :: "(string, stored_grant) js_map"
  gr_accompanists :: "(string, stored_accompanist) js_map"
  gr_revocations :: "(string, grant_revocation) js_map"
  gr_supersededOn :: "(string, string) js_map"
  gr_supersededAt :: "(string, string) js_map"
  gr_supersededBy :: "(string, string) js_map"
  gr_cohorts :: "(string, int) js_map"
  gr_emails :: "(string, string) js_map"
  gr_emailsByCustomer :: "(string, string) js_map"

definition empty_grants_repo :: grants_repo where
  "empty_grants_repo = \<lparr>gr_grants = [], gr_accompanists = [], gr_revocations = [], gr_supersededOn = [], gr_supersededAt = [],
     gr_supersededBy = [], gr_cohorts = [], gr_emails = [], gr_emailsByCustomer = []\<rparr>"

text \<open>
  \<open>ge_products\<close> gives organization and class of an offering, \<open>ge_divisions\<close> the organization of a
  division, \<open>ge_timezones\<close> the time zone of an organization; \<open>ge_collate\<close> is a sort key whose order
  is that of \<open>localeCompare\<close>.
\<close>

record grants_env =
  ge_products :: "string \<Rightarrow> (string \<times> string) option"
  ge_divisions :: "string \<Rightarrow> string option"
  ge_timezones :: "string \<Rightarrow> string option"
  ge_zones :: zones
  ge_customerNames :: "string \<Rightarrow> string option"
  ge_collate :: "string \<Rightarrow> string"

section \<open>Lifecycles\<close>

record shown_grant =
  sh_grant :: stored_grant
  sh_supersededOn :: "string option"
  sh_supersededAt :: "string option"
  sh_supersededBy :: "string option"
  sh_status :: lifecycle

record shown_accompanist =
  sw_grant :: stored_accompanist
  sw_status :: lifecycle
  sw_isCurrent :: bool

definition organization_today :: "grants_env \<Rightarrow> string \<Rightarrow> int \<Rightarrow> string outcome" where
  "organization_today env org now =
     (case ge_timezones env org of
        None \<Rightarrow> Inl (PlainError ''Organization not found.'')
      | Some tz \<Rightarrow> calendar_date_in_timezone (ge_zones env) (to_iso now) tz)"

text \<open>A revoked grant is not asked for its dates, but its organization must exist.\<close>

definition with_lifecycle :: "grants_env \<Rightarrow> string \<Rightarrow> int \<Rightarrow> bool \<Rightarrow> lifecycle_input \<Rightarrow> lifecycle outcome" where
  "with_lifecycle env org now revoked input =
     (case ge_timezones env org of
        None \<Rightarrow> Inl (PlainError ''Organization not found.'')
      | Some tz \<Rightarrow> if revoked then Inr Revoked
          else and_then (organization_today env org now) (derive_lifecycle input))"

definition with_teacher_lifecycle :: "grants_env \<Rightarrow> int \<Rightarrow> grants_repo \<Rightarrow> stored_grant \<Rightarrow> shown_grant outcome" where
  "with_teacher_lifecycle env now r g =
     and_then (with_lifecycle env (sg_organizationId g) now (js_get (gr_revocations r) (sg_id g) \<noteq> None)
       \<lparr>li_startsOn = sg_startsOn g, li_endsOn = sg_endsOn g, li_supersededOn = if_truthy (js_get (gr_supersededOn r) (sg_id g)),
        li_revokedAtIso = None\<rparr>) (\<lambda>l.
     Inr \<lparr>sh_grant = g, sh_supersededOn = if_truthy (js_get (gr_supersededOn r) (sg_id g)),
        sh_supersededAt = js_get (gr_supersededAt r) (sg_id g), sh_supersededBy = js_get (gr_supersededBy r) (sg_id g), sh_status = l\<rparr>)"

definition with_accompanist_lifecycle :: "grants_env \<Rightarrow> int \<Rightarrow> grants_repo \<Rightarrow> stored_accompanist \<Rightarrow> shown_accompanist outcome" where
  "with_accompanist_lifecycle env now r a =
     and_then (with_lifecycle env (ai_organizationId (sa_input a)) now (js_get (gr_revocations r) (sa_id a) \<noteq> None)
       \<lparr>li_startsOn = ai_startsOn (sa_input a), li_endsOn = ai_endsOn (sa_input a), li_supersededOn = None, li_revokedAtIso = None\<rparr>) (\<lambda>l.
     Inr \<lparr>sw_grant = a, sw_status = l, sw_isCurrent = (l = Active)\<rparr>)"

section \<open>Identity emails and cohorts\<close>

definition cohort_key :: "string \<Rightarrow> string \<Rightarrow> string \<Rightarrow> string" where
  "cohort_key org customer cls = org @ '':'' @ customer @ '':'' @ cls"

definition advance_cohort :: "string \<Rightarrow> string \<Rightarrow> string \<Rightarrow> grants_repo \<Rightarrow> grants_repo" where
  "advance_cohort org customer cls r =
     (let k = cohort_key org customer cls
      in r\<lparr>gr_cohorts := js_set k ((case js_get (gr_cohorts r) k of Some n \<Rightarrow> n | None \<Rightarrow> 0) + 1) (gr_cohorts r)\<rparr>)"

definition bind_identity_email :: "string \<Rightarrow> string \<Rightarrow> string \<Rightarrow> grants_repo \<Rightarrow> unit outcome \<times> grants_repo" where
  "bind_identity_email org email customer r =
     (let ek = org @ '':'' @ email; ck = org @ '':'' @ customer;
          known_customer = if_truthy (js_get (gr_emails r) ek); known_email = if_truthy (js_get (gr_emailsByCustomer r) ck)
      in if (known_customer \<noteq> None \<and> known_customer \<noteq> Some customer) \<or> (known_email \<noteq> None \<and> known_email \<noteq> Some email)
         then (Inl (PlainError ''Shopify identity email belongs to another customer.''), r)
         else (Inr (), r\<lparr>gr_emails := js_set ek customer (gr_emails r),
                         gr_emailsByCustomer := js_set ck email (gr_emailsByCustomer r)\<rparr>))"

text \<open>Letters and digits of ASCII count, whatever their case.\<close>

definition ascii_alnum :: "char \<Rightarrow> bool" where
  "ascii_alnum c = (let n = (of_char c :: nat) in (48 \<le> n \<and> n \<le> 57) \<or> (65 \<le> n \<and> n \<le> 90) \<or> (97 \<le> n \<and> n \<le> 122))"

definition normalize_identity_email :: "string \<Rightarrow> string outcome" where
  "normalize_identity_email v =
     (let s = js_lower (js_trim v)
      in if length (filter ascii_alnum s) < 8 then Inl (PlainError ''Verified Shopify identity email is required.'') else Inr s)"

section \<open>Creating a teacher grant\<close>

text \<open>Neither revoked nor superseded.\<close>

definition live_grant :: "grants_repo \<Rightarrow> stored_grant \<Rightarrow> bool" where
  "live_grant r g \<longleftrightarrow> js_get (gr_revocations r) (sg_id g) = None \<and> js_get (gr_supersededOn r) (sg_id g) = None"

definition overlapping_grants :: "grant_input \<Rightarrow> grants_repo \<Rightarrow> stored_grant list" where
  "overlapping_grants i r =
     filter (\<lambda>g. sg_organizationId g = gi_organizationId i \<and> sg_customerId g = gi_customerId i \<and>
        sg_entitlementClass g = gi_entitlementClass i \<and> live_grant r g \<and>
        sg_startsOn g < gi_endsOn i \<and> gi_startsOn i < sg_endsOn g) (js_values (gr_grants r))"

definition renewable :: "grant_input \<Rightarrow> stored_grant \<Rightarrow> bool outcome" where
  "renewable i prior =
     (if sg_startsOn prior \<le> gi_startsOn i \<and> gi_startsOn i < sg_endsOn prior
      then and_then (calendar_days_until (gi_startsOn i) (sg_endsOn prior)) (\<lambda>n. Inr (n \<le> TEACHER_MEMBERSHIP_RENEWAL_WINDOW_DAYS))
      else Inr False)"

definition supersede :: "string \<Rightarrow> string \<Rightarrow> string \<Rightarrow> string \<Rightarrow> grants_repo \<Rightarrow> grants_repo" where
  "supersede prior starts now_iso new r =
     r\<lparr>gr_supersededOn := js_set prior starts (gr_supersededOn r), gr_supersededAt := js_set prior now_iso (gr_supersededAt r),
       gr_supersededBy := js_set prior new (gr_supersededBy r)\<rparr>"

text \<open>The loop over the overlapping grants: the end of the new grant and whether it renews one.\<close>

fun supersede_all ::
    "grant_input \<Rightarrow> string \<Rightarrow> string \<Rightarrow> stored_grant list \<Rightarrow> string \<Rightarrow> bool \<Rightarrow> grants_repo \<Rightarrow> (string \<times> bool) outcome \<times> grants_repo" where
  "supersede_all i new now_iso [] ends renews r = (Inr (ends, renews), r)"
| "supersede_all i new now_iso (p # ps) ends renews r =
     (case renewable i p of
        Inl e \<Rightarrow> (Inl e, r)
      | Inr False \<Rightarrow> (Inl (PlainError ''Teacher Membership entitlement intervals may not overlap.''), r)
      | Inr True \<Rightarrow>
          let r' = supersede (sg_id p) (gi_startsOn i) now_iso new r in
          (case add_calendar_days (sg_endsOn p) (gi_durationDays i) of
             Inl e \<Rightarrow> (Inl e, r')
           | Inr ends' \<Rightarrow> supersede_all i new now_iso ps ends' True r'))"

definition grant_record :: "grant_input \<Rightarrow> string \<Rightarrow> string \<Rightarrow> string \<Rightarrow> stored_grant" where
  "grant_record i gid ends created =
     \<lparr>sg_id = gid, sg_organizationId = gi_organizationId i, sg_customerId = gi_customerId i,
      sg_entitlementClass = gi_entitlementClass i, sg_offeringId = gi_offeringId i, sg_durationDays = gi_durationDays i,
      sg_divisionId = gi_divisionId i, sg_divisionNameSnapshot = gi_divisionNameSnapshot i, sg_paidAmount = gi_paidAmount i,
      sg_paidCurrencyCode = gi_paidCurrencyCode i, sg_checkoutIntentId = gi_checkoutIntentId i,
      sg_shopifyOrderGid = gi_shopifyOrderGid i, sg_shopifyOrderLineGid = gi_shopifyOrderLineGid i,
      sg_startsOn = gi_startsOn i, sg_endsOn = ends, sg_createdAtIso = created\<rparr>"

definition store_grant :: "stored_grant \<Rightarrow> grants_repo \<Rightarrow> grants_repo" where
  "store_grant g r =
     advance_cohort (sg_organizationId g) (sg_customerId g) (sg_entitlementClass g)
       (r\<lparr>gr_grants := js_set (sg_id g) g (gr_grants r)\<rparr>)"

text \<open>What is checked before anything is written; the normalized email is the result.\<close>

definition check_grant :: "grants_env \<Rightarrow> grant_input \<Rightarrow> string \<Rightarrow> grants_repo \<Rightarrow> string outcome" where
  "check_grant env i email r =
     and_then (assert_valid_grant_input i) (\<lambda>_.
     and_then (normalize_identity_email email) (\<lambda>mail.
     and_then (guard (ge_products env (gi_offeringId i) = Some (gi_organizationId i, gi_entitlementClass i))
       (PlainError ''Entitlement offering was not found for this Organization.'')) (\<lambda>_.
     and_then (guard (ge_divisions env (gi_divisionId i) = Some (gi_organizationId i))
       (PlainError ''Entitlement division was not found for this Organization.'')) (\<lambda>_.
     and_then (guard (\<not> list_ex (\<lambda>g. sg_checkoutIntentId g = gi_checkoutIntentId i \<or>
         sg_shopifyOrderLineGid g = gi_shopifyOrderLineGid i) (js_values (gr_grants r)))
       (PlainError ''Entitlement grant correlation is already recorded.'')) (\<lambda>_. Inr mail)))))"

definition create_entitlement_grant ::
    "grants_env \<Rightarrow> grant_input \<Rightarrow> string \<Rightarrow> string \<Rightarrow> int \<Rightarrow> (grants_repo, shown_grant) act" where
  "create_entitlement_grant env i email uuid now =
     act_bind (\<lambda>r. (check_grant env i email r, r)) (\<lambda>mail.
     act_bind (\<lambda>r. supersede_all i uuid (to_iso now) (overlapping_grants i r) (gi_endsOn i) False r) (\<lambda>(ends, renews).
     act_bind (act_lift (if renews then Inr ()
       else and_then (add_calendar_days (gi_startsOn i) (gi_durationDays i)) (\<lambda>e. guard (gi_endsOn i = e)
         (PlainError ''Entitlement endsOn must equal startsOn plus durationDays calendar days.'')))) (\<lambda>_.
     act_bind (bind_identity_email (gi_organizationId i) mail (gi_customerId i)) (\<lambda>_.
     let g = grant_record i uuid ends (to_iso now) in
     act_bind (\<lambda>r. (Inr (), store_grant g r)) (\<lambda>_.
     (\<lambda>r. (with_teacher_lifecycle env now r g, r)))))))"

section \<open>Reading and revoking\<close>

definition list_entitlement_grants :: "grants_env \<Rightarrow> string \<Rightarrow> string option \<Rightarrow> int \<Rightarrow> grants_repo \<Rightarrow> shown_grant list outcome" where
  "list_entitlement_grants env org customer now r =
     each_outcome (with_teacher_lifecycle env now r)
       (sort_key sg_createdAtIso
         (filter (\<lambda>g. sg_organizationId g = org \<and> (truthy customer \<longrightarrow> Some (sg_customerId g) = customer)) (js_values (gr_grants r))))"

definition find_active_teacher_grant :: "grants_env \<Rightarrow> string \<Rightarrow> string \<Rightarrow> string \<Rightarrow> int \<Rightarrow> grants_repo \<Rightarrow> shown_grant option outcome" where
  "find_active_teacher_grant env org customer division now r =
     and_then (each_outcome (with_teacher_lifecycle env now r)
       (sort_key (\<lambda>g. (sg_createdAtIso g, sg_id g))
         (filter (\<lambda>g. sg_organizationId g = org \<and> sg_customerId g = customer \<and>
            sg_entitlementClass g = TEACHER_MEMBERSHIP_ENTITLEMENT_CLASS \<and> sg_divisionId g = division) (js_values (gr_grants r)))))
       (\<lambda>gs. Inr (find (\<lambda>g. sh_status g = Active) gs))"

definition list_active_teachers :: "grants_env \<Rightarrow> string \<Rightarrow> string \<Rightarrow> int \<Rightarrow> grants_repo \<Rightarrow> (string \<times> string) list outcome" where
  "list_active_teachers env org division now r =
     and_then (each_outcome (with_teacher_lifecycle env now r)
       (filter (\<lambda>g. sg_organizationId g = org \<and> sg_divisionId g = division \<and>
          sg_entitlementClass g = TEACHER_MEMBERSHIP_ENTITLEMENT_CLASS) (js_values (gr_grants r))))
       (\<lambda>gs. Inr (sort_key (\<lambda>t. ge_collate env (snd t))
          (map (\<lambda>c. (c, case if_truthy (ge_customerNames env c) of Some n \<Rightarrow> n | None \<Rightarrow> ''Teacher''))
            (js_uniq (map (\<lambda>g. sg_customerId (sh_grant g)) (filter (\<lambda>g. sh_status g = Active) gs))))))"

definition create_accompanist_grant :: "grants_env \<Rightarrow> accompanist_input \<Rightarrow> string option \<Rightarrow> string \<Rightarrow> int \<Rightarrow> (grants_repo, shown_accompanist) act" where
  "create_accompanist_grant env i supersede_id uuid now =
     act_bind (act_lift (guard (\<not> truthy supersede_id) (PlainError ''Superseding accompanist entitlements is not supported.''))) (\<lambda>_.
     act_bind (\<lambda>r. (guard (\<not> list_ex (\<lambda>a. ai_organizationId (sa_input a) = ai_organizationId i \<and>
         js_get (gr_revocations r) (sa_id a) = None \<and>
         (ai_customerId (sa_input a) = ai_customerId i \<or> ai_normalizedEmail (sa_input a) = ai_normalizedEmail i) \<and>
         ai_startsOn (sa_input a) < ai_endsOn i \<and> ai_startsOn i < ai_endsOn (sa_input a)) (js_values (gr_accompanists r)))
       (PlainError ''Accompanist membership intervals may not overlap.''), r)) (\<lambda>_.
     act_bind (bind_identity_email (ai_organizationId i) (ai_normalizedEmail i) (ai_customerId i)) (\<lambda>_.
     let a = \<lparr>sa_id = uuid, sa_input = i, sa_createdAtIso = to_iso now\<rparr> in
     act_bind (\<lambda>r. (Inr (), advance_cohort (ai_organizationId i) (ai_customerId i) ''accompanist_membership''
         (r\<lparr>gr_accompanists := js_set uuid a (gr_accompanists r)\<rparr>))) (\<lambda>_.
     (\<lambda>r. (with_accompanist_lifecycle env now r a, r))))))"

definition find_current_accompanist :: "grants_env \<Rightarrow> string \<Rightarrow> string \<Rightarrow> int \<Rightarrow> grants_repo \<Rightarrow> shown_accompanist option outcome" where
  "find_current_accompanist env org customer now r =
     and_then (each_outcome (with_accompanist_lifecycle env now r)
       (sort_key (\<lambda>a. (sa_createdAtIso a, sa_id a))
         (filter (\<lambda>a. ai_organizationId (sa_input a) = org \<and> ai_customerId (sa_input a) = customer) (js_values (gr_accompanists r)))))
       (\<lambda>as. Inr (find sw_isCurrent as))"

definition list_accompanist_grants ::
    "grants_env \<Rightarrow> string \<Rightarrow> string option \<Rightarrow> string option \<Rightarrow> bool \<Rightarrow> int \<Rightarrow> grants_repo \<Rightarrow> shown_accompanist list outcome" where
  "list_accompanist_grants env org customer email current now r =
     and_then (each_outcome (with_accompanist_lifecycle env now r) (js_values (gr_accompanists r)))
       (\<lambda>as. Inr (sort_key (\<lambda>a. sa_createdAtIso (sw_grant a))
          (filter (\<lambda>a. let i = sa_input (sw_grant a) in ai_organizationId i = org \<and>
             (truthy customer \<longrightarrow> Some (ai_customerId i) = customer) \<and>
             (truthy email \<longrightarrow> Some (ai_normalizedEmail i) = email) \<and> (current \<longrightarrow> sw_isCurrent a)) as)))"

definition revocation_target :: "string \<Rightarrow> string \<Rightarrow> grants_repo \<Rightarrow> (string \<times> string \<times> lifecycle_input) option" where
  "revocation_target org eid r =
     (case js_get (gr_grants r) eid of
        Some g \<Rightarrow>
          if sg_organizationId g = org
          then Some (sg_entitlementClass g, sg_customerId g,
            \<lparr>li_startsOn = sg_startsOn g, li_endsOn = sg_endsOn g, li_supersededOn = None, li_revokedAtIso = None\<rparr>)
          else None
      | None \<Rightarrow> None)"

definition accompanist_target :: "string \<Rightarrow> string \<Rightarrow> grants_repo \<Rightarrow> (string \<times> string \<times> lifecycle_input) option" where
  "accompanist_target org eid r =
     (case js_get (gr_accompanists r) eid of
        Some a \<Rightarrow>
          if ai_organizationId (sa_input a) = org
          then Some (''accompanist_membership'', ai_customerId (sa_input a),
            \<lparr>li_startsOn = ai_startsOn (sa_input a), li_endsOn = ai_endsOn (sa_input a), li_supersededOn = None, li_revokedAtIso = None\<rparr>)
          else None
      | None \<Rightarrow> None)"

text \<open>The result says whether the grant had been revoked before.\<close>

definition revoke_entitlement ::
    "grants_env \<Rightarrow> string \<Rightarrow> string \<Rightarrow> string \<Rightarrow> string \<Rightarrow> string \<Rightarrow> string \<Rightarrow> int \<Rightarrow> (grants_repo, grant_revocation \<times> bool) act" where
  "revoke_entitlement env org eid actor reason revoked_at uuid now r =
     (case (case revocation_target org eid r of Some t \<Rightarrow> Some t | None \<Rightarrow> accompanist_target org eid r) of
        None \<Rightarrow> (Inl (AppError ''Entitlement was not found.'' 404 None), r)
      | Some (cls, customer, dates) \<Rightarrow>
          (case js_get (gr_revocations r) eid of
             Some v \<Rightarrow> (Inr (v, True), r)
           | None \<Rightarrow>
               (case ge_timezones env org of
                  None \<Rightarrow> (Inl (AppError ''Organization not found.'' 404 None), r)
                | Some tz \<Rightarrow>
                    (case and_then (calendar_date_in_timezone (ge_zones env) (to_iso now) tz) (derive_lifecycle dates) of
                       Inl e \<Rightarrow> (Inl e, r)
                     | Inr l \<Rightarrow>
                         if l = Expired then (Inl (AppError ''Expired entitlements cannot be revoked.'' 409 None), r)
                         else let v = \<lparr>gv_id = uuid, gv_entitlementId = eid, gv_organizationId = org, gv_actorUserId = actor,
                                gv_reason = reason, gv_revokedAtIso = revoked_at\<rparr>;
                                r' = advance_cohort org customer cls r
                              in (Inr (v, False), r'\<lparr>gr_revocations := js_set eid v (gr_revocations r')\<rparr>)))))"

section \<open>Grants of one customer do not overlap\<close>

definition same_membership :: "stored_grant \<Rightarrow> stored_grant \<Rightarrow> bool" where
  "same_membership g h \<longleftrightarrow>
     sg_organizationId g = sg_organizationId h \<and> sg_customerId g = sg_customerId h \<and> sg_entitlementClass g = sg_entitlementClass h"

definition grants_disjoint :: "grants_repo \<Rightarrow> bool" where
  "grants_disjoint r \<longleftrightarrow>
     js_wf (gr_grants r) \<and> (\<forall>k g. js_get (gr_grants r) k = Some g \<longrightarrow> sg_id g = k) \<and>
     (\<forall>k g j h. js_get (gr_grants r) k = Some g \<longrightarrow> js_get (gr_grants r) j = Some h \<longrightarrow> k \<noteq> j \<longrightarrow>
        live_grant r g \<longrightarrow> live_grant r h \<longrightarrow> same_membership g h \<longrightarrow> sg_endsOn g \<le> sg_startsOn h \<or> sg_endsOn h \<le> sg_startsOn g)"

text \<open>No live grant of the same customer and class starts after the new one: nothing is scheduled.\<close>

definition nothing_scheduled :: "grant_input \<Rightarrow> grants_repo \<Rightarrow> bool" where
  "nothing_scheduled i r \<longleftrightarrow>
     (\<forall>k g. js_get (gr_grants r) k = Some g \<longrightarrow> live_grant r g \<longrightarrow> sg_organizationId g = gi_organizationId i \<longrightarrow>
        sg_customerId g = gi_customerId i \<longrightarrow> sg_entitlementClass g = gi_entitlementClass i \<longrightarrow> sg_startsOn g \<le> gi_startsOn i)"

inductive grants_reachable :: "grants_env \<Rightarrow> grants_repo \<Rightarrow> bool" for env where
  gr_empty: "grants_reachable env empty_grants_repo"
| gr_create: "grants_reachable env r \<Longrightarrow> js_get (gr_grants r) uuid = None \<Longrightarrow> nothing_scheduled i r \<Longrightarrow>
    gi_startsOn i \<le> ''9899-12-31'' \<Longrightarrow> grants_reachable env (snd (create_entitlement_grant env i email uuid now r))"
| gr_accompanist: "grants_reachable env r \<Longrightarrow> grants_reachable env (snd (create_accompanist_grant env a old uuid now r))"
| gr_revoke: "grants_reachable env r \<Longrightarrow> grants_reachable env (snd (revoke_entitlement env org eid actor reason at uuid now r))"

text \<open>Steps that leave the grants and make none live again.\<close>

definition narrows :: "grants_repo \<Rightarrow> grants_repo \<Rightarrow> bool" where
  "narrows r r' \<longleftrightarrow> gr_grants r' = gr_grants r \<and> (\<forall>g. live_grant r' g \<longrightarrow> live_grant r g)"

lemma narrows_refl [simp]: "narrows r r"
  by (simp add: narrows_def)

lemma narrows_trans: "narrows r s \<Longrightarrow> narrows s t \<Longrightarrow> narrows r t"
  by (simp add: narrows_def)

lemma narrows_disjoint: "narrows r r' \<Longrightarrow> grants_disjoint r \<Longrightarrow> grants_disjoint r'"
  unfolding narrows_def grants_disjoint_def by (metis (no_types))

lemma narrows_cohort [simp]: "narrows r (advance_cohort a b c r)"
  by (simp add: narrows_def advance_cohort_def live_grant_def Let_def)

lemma narrows_bind: "bind_identity_email a b c r = (res, r') \<Longrightarrow> narrows r r'"
  by (auto simp: narrows_def bind_identity_email_def live_grant_def Let_def split: if_splits)

lemma narrows_supersede: "narrows r (supersede p starts t new r)"
  by (auto simp: narrows_def supersede_def live_grant_def split: if_splits)

lemma narrows_supersede_all: "supersede_all i new t ps ends b r = (res, r') \<Longrightarrow> narrows r r'"
proof (induction ps arbitrary: ends b r)
  case (Cons p ps)
  then show ?case
    by (auto simp: Let_def split: sum.splits bool.splits intro: narrows_supersede) (metis narrows_trans narrows_supersede)
qed simp

lemma supersede_live: "live_grant (supersede p starts t new r) g \<Longrightarrow> sg_id g \<noteq> p"
  by (auto simp: supersede_def live_grant_def)

text \<open>When the loop ends, every grant it went over is superseded, and the last one gives the end.\<close>

lemma supersede_all_ends:
  assumes "supersede_all i new t ps ends b r = (Inr (ends', b'), r')"
  shows "(\<forall>p \<in> set ps. \<not> live_grant r' p \<and> renewable i p = Inr True) \<and>
    (if ps = [] then ends' = ends \<and> b' = b \<and> r' = r
     else b' \<and> add_calendar_days (sg_endsOn (last ps)) (gi_durationDays i) = Inr ends')"
  using assms
proof (induction ps arbitrary: ends b r)
  case (Cons p ps)
  let ?r = "supersede (sg_id p) (gi_startsOn i) t new r"
  from Cons.prems obtain e where e: "renewable i p = Inr True" "add_calendar_days (sg_endsOn p) (gi_durationDays i) = Inr e"
    and rest: "supersede_all i new t ps e True ?r = (Inr (ends', b'), r')"
    by (auto simp: Let_def split: sum.splits bool.splits)
  have "\<not> live_grant r' p"
    using narrows_supersede_all [OF rest] supersede_live [of "sg_id p" "gi_startsOn i" t new r p] unfolding narrows_def by blast
  with Cons.IH [OF rest] e show ?case by auto
qed simp

lemma grant_starts_before_end:
  assumes "assert_valid_grant_input i = Inr ()" "gi_startsOn i \<le> ''9899-12-31''"
  shows "gi_startsOn i < gi_endsOn i"
  using assms(1)
proof (rule valid_grant_Inr)
  fix lo hi
  assume v: "is_valid_duration_days (gi_durationDays i)" "add_calendar_days (gi_startsOn i) (gi_durationDays i) = Inr lo" "lo \<le> gi_endsOn i"
  from v(2) obtain d where d: "parse_calendar_date (gi_startsOn i) = Inr d" by (auto simp: add_calendar_days_Inr)
  note added = days_of_added [OF d assms(2) v(1,2)]
  have "0 < gi_durationDays i" using v(1) by (simp add: is_valid_duration_days_def)
  then have "day_number d < day_number (add_days (nat (gi_durationDays i)) d)" using added(2) by linarith
  moreover have "valid_date d" "valid_date (add_days (nat (gi_durationDays i)) d)"
    using parse_calendar_date_Inr(1) [OF d] parse_calendar_date_Inr(1) [OF added(1)] by (simp_all add: printable_date_def)
  ultimately have "d < add_days (nat (gi_durationDays i)) d" by (metis day_number_le_iff linorder_not_less)
  then have "gi_startsOn i < lo" using parse_calendar_date_less [OF d added(1)] by simp
  with v(3) show ?thesis by simp
qed

text \<open>What a creation did, step by step.\<close>

lemma create_grant_cases:
  assumes "create_entitlement_grant env i email uuid now r = (res, r')"
  obtains (rejected) "narrows r r'" "\<exists>e. res = Inl e"
    | (stored) mail ends renews r1 r2 where "check_grant env i email r = Inr mail"
        "supersede_all i uuid (to_iso now) (overlapping_grants i r) (gi_endsOn i) False r = (Inr (ends, renews), r1)"
        "renews \<or> add_calendar_days (gi_startsOn i) (gi_durationDays i) = Inr (gi_endsOn i)"
        "bind_identity_email (gi_organizationId i) mail (gi_customerId i) r1 = (Inr (), r2)"
        "r' = store_grant (grant_record i uuid ends (to_iso now)) r2"
        "res = with_teacher_lifecycle env now r' (grant_record i uuid ends (to_iso now))"
proof -
  from assms show thesis
    unfolding create_entitlement_grant_def
  proof (cases rule: act_bind_cases)
    case (thrown e)
    then show ?thesis using rejected by auto
  next
    case (returned mail s)
    then have s: "check_grant env i email r = Inr mail" "s = r" by auto
    from returned(2) show ?thesis unfolding s(2)
    proof (cases rule: act_bind_cases)
      case (thrown e)
      then show ?thesis using rejected narrows_supersede_all by blast
    next
      case inner: (returned er r1)
      obtain ends renews where er: "er = (ends, renews)" by (cases er)
      note loop = inner(1) [unfolded er]
      from inner(2) [unfolded er prod.case] show ?thesis
      proof (cases rule: act_bind_cases)
        case (thrown e)
        then show ?thesis using rejected narrows_supersede_all [OF loop] by auto
      next
        case check: (returned u r1')
        then have ok: "renews \<or> add_calendar_days (gi_startsOn i) (gi_durationDays i) = Inr (gi_endsOn i)" "r1' = r1"
          by (auto simp: and_then_eq_Inr split: if_splits)
        from check(2) [unfolded ok(2)] show ?thesis
        proof (cases rule: act_bind_cases)
          case (thrown e)
          then show ?thesis using rejected narrows_trans [OF narrows_supersede_all [OF loop] narrows_bind] by auto
        next
          case bound: (returned u r2)
          then have "r' = store_grant (grant_record i uuid ends (to_iso now)) r2"
            "res = with_teacher_lifecycle env now r' (grant_record i uuid ends (to_iso now))"
            "bind_identity_email (gi_organizationId i) mail (gi_customerId i) r1 = (Inr (), r2)" by (auto simp: Let_def)
          then show ?thesis by (intro stored [OF s(1) loop ok(1)])
        qed
      qed
    qed
  qed
qed

lemma distinct_js_values:
  assumes "js_wf m" "\<And>k v. js_get m k = Some v \<Longrightarrow> f v = k"
  shows "distinct (js_values m)"
proof -
  have "map f (js_values m) = js_keys m"
    using assms by (auto simp: js_values_def js_keys_def js_wf_get [OF assms(1), symmetric])
  then show ?thesis using assms(1) unfolding js_wf_def by (metis distinct_map)
qed

lemma distinct_all_same:
  assumes "distinct xs" "\<And>p q. p \<in> set xs \<Longrightarrow> q \<in> set xs \<Longrightarrow> p = q"
  shows "xs = [] \<or> (\<exists>p. xs = [p])"
proof (cases xs)
  case (Cons a ys)
  have "set ys \<subseteq> {a}" "a \<notin> set ys" using assms Cons by auto
  then show ?thesis using Cons by (cases ys) auto
qed simp

lemma overlapping_set:
  "g \<in> set (overlapping_grants i r) \<longleftrightarrow> g \<in> set (js_values (gr_grants r)) \<and> sg_organizationId g = gi_organizationId i \<and>
     sg_customerId g = gi_customerId i \<and> sg_entitlementClass g = gi_entitlementClass i \<and> live_grant r g \<and>
     sg_startsOn g < gi_endsOn i \<and> gi_startsOn i < sg_endsOn g"
  by (auto simp: overlapping_grants_def)

lemma overlapping_stored:
  assumes "grants_disjoint r" "nothing_scheduled i r" "p \<in> set (overlapping_grants i r)"
  shows "js_get (gr_grants r) (sg_id p) = Some p \<and> live_grant r p \<and> sg_startsOn p \<le> gi_startsOn i \<and> gi_startsOn i < sg_endsOn p"
proof -
  from assms(3) have p: "p \<in> set (js_values (gr_grants r))" "sg_organizationId p = gi_organizationId i" "sg_customerId p = gi_customerId i"
    "sg_entitlementClass p = gi_entitlementClass i" "live_grant r p" "gi_startsOn i < sg_endsOn p"
    unfolding overlapping_set by blast+
  from assms(1) have wf: "js_wf (gr_grants r)" by (simp add: grants_disjoint_def)
  from p(1) obtain k where k: "js_get (gr_grants r) k = Some p" unfolding js_values_get [OF wf] by blast
  with assms(1) have "sg_id p = k" by (simp add: grants_disjoint_def)
  with k p assms(2) show ?thesis unfolding nothing_scheduled_def by blast
qed

lemma overlapping_once:
  assumes "grants_disjoint r" "nothing_scheduled i r" "p \<in> set (overlapping_grants i r)" "q \<in> set (overlapping_grants i r)"
  shows "p = q"
proof (rule ccontr)
  assume "p \<noteq> q"
  note p = overlapping_stored [OF assms(1,2,3)] and q = overlapping_stored [OF assms(1,2,4)]
  have "same_membership p q" using assms(3,4) unfolding overlapping_set same_membership_def by simp
  moreover have "sg_id p \<noteq> sg_id q" using \<open>p \<noteq> q\<close> p q by (metis option.inject)
  ultimately have "sg_endsOn p \<le> sg_startsOn q \<or> sg_endsOn q \<le> sg_startsOn p"
    using assms(1) p q unfolding grants_disjoint_def by blast
  with p q show False by auto
qed

lemma check_grant_valid: "check_grant env i email r = Inr mail \<Longrightarrow> assert_valid_grant_input i = Inr ()"
  by (auto simp: check_grant_def and_then_eq_Inr)

lemma store_grant_reads:
  "gr_grants (store_grant g r) = js_set (sg_id g) g (gr_grants r)" "live_grant (store_grant g r) h \<longleftrightarrow> live_grant r h"
  by (simp_all add: store_grant_def advance_cohort_def live_grant_def Let_def)

lemma create_disjoint:
  assumes ok: "grants_disjoint r" and fresh: "js_get (gr_grants r) uuid = None" and none: "nothing_scheduled i r"
    and start: "gi_startsOn i \<le> ''9899-12-31''" and run: "create_entitlement_grant env i email uuid now r = (res, r')"
  shows "grants_disjoint r'"
  using run
proof (cases rule: create_grant_cases)
  case rejected
  then show ?thesis using ok narrows_disjoint by blast
next
  case (stored mail ends renews r1 r2)
  let ?g = "grant_record i uuid ends (to_iso now)"
  have lt: "gi_startsOn i < gi_endsOn i" by (rule grant_starts_before_end [OF check_grant_valid [OF stored(1)] start])
  note loop = supersede_all_ends [OF stored(2)]
  have n: "narrows r r1" "narrows r1 r2" using narrows_supersede_all [OF stored(2)] narrows_bind [OF stored(4)] .
  then have same: "gr_grants r2 = gr_grants r" and live: "live_grant r2 h \<Longrightarrow> live_grant r1 h" "live_grant r1 h \<Longrightarrow> live_grant r h" for h
    by (simp_all add: narrows_def)
  have before: "sg_endsOn h \<le> gi_startsOn i"
    if "js_get (gr_grants r) k = Some h" "live_grant r2 h" "same_membership h ?g" for k h
  proof (rule ccontr)
    assume "\<not> sg_endsOn h \<le> gi_startsOn i"
    moreover have "sg_startsOn h \<le> gi_startsOn i"
      using none that live by (auto simp: nothing_scheduled_def same_membership_def grant_record_def)
    ultimately have "h \<in> set (overlapping_grants i r)"
      using that lt live js_get_Some_values [OF that(1)]
      by (auto simp: overlapping_set same_membership_def grant_record_def)
    with loop live(1) that(2) show False by blast
  qed
  have ok2: "grants_disjoint r2" using narrows_disjoint [OF narrows_trans [OF n] ok] .
  have rec: "sg_id ?g = uuid" "sg_startsOn ?g = gi_startsOn i" by (simp_all add: grant_record_def)
  show ?thesis
    using ok2 before fresh rec unfolding stored(5) grants_disjoint_def store_grant_reads same
    by (auto simp: same_membership_def split: if_splits)
qed

lemma accompanist_narrows: "narrows r (snd (create_accompanist_grant env a old uuid now r))"
proof -
  have "narrows r r'" if "create_accompanist_grant env a old uuid now r = (res, r')" for res r'
    using that unfolding create_accompanist_grant_def Let_def
    by (auto elim!: act_bind_cases dest!: narrows_bind)
      (simp_all add: narrows_def advance_cohort_def live_grant_def Let_def)
  then show ?thesis by (metis prod.collapse)
qed

lemma revoke_narrows: "narrows r (snd (revoke_entitlement env org eid actor reason at uuid now r))"
  by (auto simp: revoke_entitlement_def Let_def narrows_def advance_cohort_def live_grant_def split: option.splits sum.splits if_splits)

lemma reachable_disjoint: "grants_reachable env r \<Longrightarrow> grants_disjoint r"
proof (induction rule: grants_reachable.induct)
  case gr_empty
  show ?case by (simp add: grants_disjoint_def empty_grants_repo_def)
next
  case (gr_create r uuid i email now)
  then show ?case using create_disjoint by (metis prod.collapse)
qed (auto intro: narrows_disjoint [OF accompanist_narrows] narrows_disjoint [OF revoke_narrows])

section \<open>Properties\<close>

text \<open>
  C27: memberships do not overlap.  In every store that grants, accompanist grants and revocations
  built, where no teacher grant was created while a later one of the customer was scheduled, two
  grants of one customer and class that are neither revoked nor superseded have disjoint periods.
\<close>
theorem memberships_never_overlap:
  assumes "grants_reachable env r" "js_get (gr_grants r) k = Some g" "js_get (gr_grants r) j = Some h" "k \<noteq> j"
    and "live_grant r g" "live_grant r h"
    and "sg_organizationId g = sg_organizationId h" "sg_customerId g = sg_customerId h" "sg_entitlementClass g = sg_entitlementClass h"
  shows "sg_endsOn g \<le> sg_startsOn h \<or> sg_endsOn h \<le> sg_startsOn g"
  using reachable_disjoint [OF assms(1)] assms(2-) unfolding grants_disjoint_def same_membership_def by blast

text \<open>
  C28: a renewal gains and loses no paid days, as long as grants come in the order of their dates.
  The store is one that grants, accompanist grants and revocations built with no teacher grant created
  while a later one of its customer and class was scheduled, and none is scheduled after the new grant
  either; it starts before the year 9900 and its id is fresh.  Then either no live grant of the customer
  covers its first day and it ends its paid days after its start, or exactly one does, with at most 30
  days left: that one is superseded on the first day of the new one, which ends the paid days after the
  old end.  With a later grant scheduled this fails: see \<open>renewal_can_overlap_scheduled\<close>.
\<close>
theorem renewal_extends_membership:
  assumes "grants_reachable env r" "nothing_scheduled i r" "gi_startsOn i \<le> ''9899-12-31''" "js_get (gr_grants r) uuid = None"
    and "create_entitlement_grant env i email uuid now r = (Inr shown, r')"
  shows "sg_startsOn (sh_grant shown) = gi_startsOn i \<and> js_get (gr_grants r') uuid = Some (sh_grant shown) \<and>
    ((overlapping_grants i r = [] \<and> add_calendar_days (gi_startsOn i) (gi_durationDays i) = Inr (sg_endsOn (sh_grant shown))) \<or>
     (\<exists>p n. overlapping_grants i r = [p] \<and> sg_startsOn p \<le> gi_startsOn i \<and>
        calendar_days_until (gi_startsOn i) (sg_endsOn p) = Inr n \<and> n \<le> 30 \<and>
        add_calendar_days (sg_endsOn p) (gi_durationDays i) = Inr (sg_endsOn (sh_grant shown)) \<and>
        js_get (gr_supersededOn r') (sg_id p) = Some (gi_startsOn i) \<and> js_get (gr_supersededBy r') (sg_id p) = Some uuid))"
  using assms(5)
proof (cases rule: create_grant_cases)
  case (stored mail ends renews r1 r2)
  let ?g = "grant_record i uuid ends (to_iso now)"
  have lt: "gi_startsOn i < gi_endsOn i" by (rule grant_starts_before_end [OF check_grant_valid [OF stored(1)] assms(3)])
  have shown: "sh_grant shown = ?g" using stored(6) [symmetric] by (auto simp: with_teacher_lifecycle_def and_then_eq_Inr)
  have there: "js_get (gr_grants r') uuid = Some ?g" by (simp add: stored(5) store_grant_reads grant_record_def)
  have ok: "grants_disjoint r" by (rule reachable_disjoint [OF assms(1)])
  have one: "p = q" if "p \<in> set (overlapping_grants i r)" "q \<in> set (overlapping_grants i r)" for p q
    by (rule overlapping_once [OF ok assms(2) that])
  have "js_wf (gr_grants r)" "\<And>k v. js_get (gr_grants r) k = Some v \<Longrightarrow> sg_id v = k" using ok by (simp_all add: grants_disjoint_def)
  then have "distinct (overlapping_grants i r)" unfolding overlapping_grants_def by (intro distinct_filter distinct_js_values)
  then consider "overlapping_grants i r = []" | p where "overlapping_grants i r = [p]"
    using distinct_all_same one by blast
  then show ?thesis
  proof cases
    case 1
    with stored(2,3) shown there show ?thesis by (auto simp: grant_record_def)
  next
    case (2 p)
    have "supersede_all i uuid (to_iso now) [p] (gi_endsOn i) False r = (Inr (ends, renews), r1)" using stored(2) 2 by simp
    then have p: "renewable i p = Inr True" "add_calendar_days (sg_endsOn p) (gi_durationDays i) = Inr ends"
      "r1 = supersede (sg_id p) (gi_startsOn i) (to_iso now) uuid r"
      by (auto simp: Let_def split: sum.splits bool.splits)
    have "js_get (gr_supersededOn r') (sg_id p) = Some (gi_startsOn i) \<and> js_get (gr_supersededBy r') (sg_id p) = Some uuid"
      using stored(4) by (auto simp: stored(5) store_grant_def advance_cohort_def bind_identity_email_def Let_def p(3) supersede_def split: if_splits)
    with 2 p(1,2) shown there show ?thesis
      by (auto simp: renewable_def and_then_eq_Inr grant_record_def TEACHER_MEMBERSHIP_RENEWAL_WINDOW_DAYS_def split: if_splits)
  qed
qed auto

section \<open>Grants created and renewed\<close>

definition demo_grants_env :: grants_env where
  "demo_grants_env =
     \<lparr>ge_products = (\<lambda>p. if p = ''off'' then Some (''org'', ''teacher_membership'') else None),
      ge_divisions = (\<lambda>d. if d = ''div'' then Some ''org'' else None), ge_timezones = (\<lambda>_. Some ''Plus2''),
      ge_zones = demo_zones, ge_customerNames = (\<lambda>_. None), ge_collate = (\<lambda>n. n)\<rparr>"

definition demo_period :: "string \<Rightarrow> string \<Rightarrow> int \<Rightarrow> string \<Rightarrow> grant_input" where
  "demo_period tag starts days ends =
     demo_grant\<lparr>gi_startsOn := starts, gi_durationDays := days, gi_endsOn := ends, gi_checkoutIntentId := tag,
       gi_shopifyOrderLineGid := tag\<rparr>"

lemma valid_grantI:
  assumes "is_entitlement_class (gi_entitlementClass g)" "is_valid_duration_days (gi_durationDays g)"
    "first_blank [(''Organization'', gi_organizationId g), (''Customer'', gi_customerId g), (''Offering'', gi_offeringId g),
       (''Division'', gi_divisionId g), (''Division name snapshot'', gi_divisionNameSnapshot g),
       (''Checkout intent'', gi_checkoutIntentId g), (''Shopify order'', gi_shopifyOrderGid g),
       (''Shopify order line'', gi_shopifyOrderLineGid g)] = None"
    "is_paid_amount (gi_paidAmount g)" "is_currency_code (gi_paidCurrencyCode g)" "is_grant_status (gi_status g)"
    "parse_calendar_date (gi_endsOn g) = Inr d" "add_calendar_days (gi_startsOn g) (gi_durationDays g) = Inr lo"
    "add_calendar_days (gi_startsOn g) (gi_durationDays g + 30) = Inr hi" "lo \<le> gi_endsOn g" "gi_endsOn g \<le> hi"
  shows "assert_valid_grant_input g = Inr ()"
  using assms by (simp add: assert_valid_grant_input_def assert_valid_duration_days_def TEACHER_MEMBERSHIP_RENEWAL_WINDOW_DAYS_def not_less)

lemma demo_period_valid:
  assumes "is_valid_duration_days n" "js_trim t \<noteq> []" "parse_calendar_date ends = Inr d" "add_calendar_days starts n = Inr ends"
    "add_calendar_days starts (n + 30) = Inr hi" "ends \<le> hi"
  shows "assert_valid_grant_input (demo_period t starts n ends) = Inr ()"
proof -
  have c: "is_entitlement_class ''teacher_membership''" "is_paid_amount ''50.00''" "is_currency_code ''USD''" "is_grant_status ''active''"
    "js_trim ''org'' \<noteq> []" "js_trim ''cust'' \<noteq> []" "js_trim ''off'' \<noteq> []" "js_trim ''div'' \<noteq> []" "js_trim ''Piano'' \<noteq> []"
    "js_trim ''order'' \<noteq> []" by code_simp+
  show ?thesis
    by (rule valid_grantI [where d = d and lo = ends and hi = hi]; (insert assms c; simp add: demo_period_def demo_grant_def)?)
qed

lemma demo_dates:
  "parse_calendar_date ''2026-01-10'' = Inr (CalDate 2026 1 10)" "parse_calendar_date ''2027-01-10'' = Inr (CalDate 2027 1 10)"
  "parse_calendar_date ''2026-12-20'' = Inr (CalDate 2026 12 20)" "parse_calendar_date ''2027-12-20'' = Inr (CalDate 2027 12 20)"
  "parse_calendar_date ''2027-01-29'' = Inr (CalDate 2027 1 29)" "parse_calendar_date ''2027-02-01'' = Inr (CalDate 2027 2 1)"
  "parse_calendar_date ''2027-03-03'' = Inr (CalDate 2027 3 3)" "parse_calendar_date ''2028-01-10'' = Inr (CalDate 2028 1 10)"
  using parse_iso_date [of "CalDate 2026 1 10"] parse_iso_date [of "CalDate 2027 1 10"] parse_iso_date [of "CalDate 2026 12 20"]
    parse_iso_date [of "CalDate 2027 12 20"] parse_iso_date [of "CalDate 2027 1 29"] parse_iso_date [of "CalDate 2027 2 1"]
    parse_iso_date [of "CalDate 2027 3 3"] parse_iso_date [of "CalDate 2028 1 10"]
  by (simp_all add: printable_date_def date_eval iso_eval)

lemma demo_added:
  "add_calendar_days ''2026-01-10'' 365 = Inr ''2027-01-10''" "add_calendar_days ''2026-01-10'' 395 = Inr ''2027-02-09''"
  "add_calendar_days ''2027-01-10'' 365 = Inr ''2028-01-10''" "add_calendar_days ''2027-01-10'' 395 = Inr ''2028-02-09''"
  "add_calendar_days ''2026-12-20'' 365 = Inr ''2027-12-20''" "add_calendar_days ''2026-12-20'' 395 = Inr ''2028-01-19''"
  "add_calendar_days ''2026-12-20'' 40 = Inr ''2027-01-29''" "add_calendar_days ''2026-12-20'' 70 = Inr ''2027-02-28''"
  "add_calendar_days ''2027-02-01'' 30 = Inr ''2027-03-03''" "add_calendar_days ''2027-02-01'' 60 = Inr ''2027-04-02''"
  "add_calendar_days ''2027-01-10'' 40 = Inr ''2027-02-19''"
proof -
  have iso: "iso_date (CalDate 2027 1 10) = ''2027-01-10''" "iso_date (CalDate 2027 2 9) = ''2027-02-09''"
    "iso_date (CalDate 2028 1 10) = ''2028-01-10''" "iso_date (CalDate 2028 2 9) = ''2028-02-09''"
    "iso_date (CalDate 2027 12 20) = ''2027-12-20''" "iso_date (CalDate 2028 1 19) = ''2028-01-19''"
    "iso_date (CalDate 2027 1 29) = ''2027-01-29''" "iso_date (CalDate 2027 2 28) = ''2027-02-28''"
    "iso_date (CalDate 2027 3 3) = ''2027-03-03''" "iso_date (CalDate 2027 4 2) = ''2027-04-02''"
    "iso_date (CalDate 2027 2 19) = ''2027-02-19''" by (simp_all add: iso_eval)
  have "add_calendar_days ''2026-01-10'' 365 = Inr (iso_date (CalDate 2027 1 10))"
    "add_calendar_days ''2026-01-10'' 395 = Inr (iso_date (CalDate 2027 2 9))"
    "add_calendar_days ''2027-01-10'' 365 = Inr (iso_date (CalDate 2028 1 10))"
    "add_calendar_days ''2027-01-10'' 395 = Inr (iso_date (CalDate 2028 2 9))"
    "add_calendar_days ''2026-12-20'' 365 = Inr (iso_date (CalDate 2027 12 20))"
    "add_calendar_days ''2026-12-20'' 395 = Inr (iso_date (CalDate 2028 1 19))"
    "add_calendar_days ''2026-12-20'' 40 = Inr (iso_date (CalDate 2027 1 29))"
    "add_calendar_days ''2026-12-20'' 70 = Inr (iso_date (CalDate 2027 2 28))"
    "add_calendar_days ''2027-02-01'' 30 = Inr (iso_date (CalDate 2027 3 3))"
    "add_calendar_days ''2027-02-01'' 60 = Inr (iso_date (CalDate 2027 4 2))"
    "add_calendar_days ''2027-01-10'' 40 = Inr (iso_date (CalDate 2027 2 19))"
    by (rule add_calendar_days_eqI [OF demo_dates(1)] add_calendar_days_eqI [OF demo_dates(2)] add_calendar_days_eqI [OF demo_dates(3)]
        add_calendar_days_eqI [OF demo_dates(6)]; simp add: date_eval)+
  then show "add_calendar_days ''2026-01-10'' 365 = Inr ''2027-01-10''" "add_calendar_days ''2026-01-10'' 395 = Inr ''2027-02-09''"
  "add_calendar_days ''2027-01-10'' 365 = Inr ''2028-01-10''" "add_calendar_days ''2027-01-10'' 395 = Inr ''2028-02-09''"
  "add_calendar_days ''2026-12-20'' 365 = Inr ''2027-12-20''" "add_calendar_days ''2026-12-20'' 395 = Inr ''2028-01-19''"
  "add_calendar_days ''2026-12-20'' 40 = Inr ''2027-01-29''" "add_calendar_days ''2026-12-20'' 70 = Inr ''2027-02-28''"
  "add_calendar_days ''2027-02-01'' 30 = Inr ''2027-03-03''" "add_calendar_days ''2027-02-01'' 60 = Inr ''2027-04-02''"
  "add_calendar_days ''2027-01-10'' 40 = Inr ''2027-02-19''"
    by (simp_all only: iso)
qed

lemma demo_periods_valid:
  assumes "js_trim t \<noteq> []"
  shows "assert_valid_grant_input (demo_period t ''2026-01-10'' 365 ''2027-01-10'') = Inr ()"
    "assert_valid_grant_input (demo_period t ''2027-01-10'' 365 ''2028-01-10'') = Inr ()"
    "assert_valid_grant_input (demo_period t ''2026-12-20'' 365 ''2027-12-20'') = Inr ()"
    "assert_valid_grant_input (demo_period t ''2026-12-20'' 40 ''2027-01-29'') = Inr ()"
    "assert_valid_grant_input (demo_period t ''2027-02-01'' 30 ''2027-03-03'') = Inr ()"
proof -
  have d: "is_valid_duration_days 365" "is_valid_duration_days 40" "is_valid_duration_days 30" by code_simp+
  have le: "''2027-01-10'' \<le> ''2027-02-09''" "''2028-01-10'' \<le> ''2028-02-09''" "''2027-12-20'' \<le> ''2028-01-19''"
    "''2027-01-29'' \<le> ''2027-02-28''" "''2027-03-03'' \<le> ''2027-04-02''" by code_simp+
  show "assert_valid_grant_input (demo_period t ''2026-01-10'' 365 ''2027-01-10'') = Inr ()"
    by (rule demo_period_valid [OF d(1) assms demo_dates(2) demo_added(1) _ le(1)]) (simp add: demo_added)
  show "assert_valid_grant_input (demo_period t ''2027-01-10'' 365 ''2028-01-10'') = Inr ()"
    by (rule demo_period_valid [OF d(1) assms demo_dates(8) demo_added(3) _ le(2)]) (simp add: demo_added)
  show "assert_valid_grant_input (demo_period t ''2026-12-20'' 365 ''2027-12-20'') = Inr ()"
    by (rule demo_period_valid [OF d(1) assms demo_dates(4) demo_added(5) _ le(3)]) (simp add: demo_added)
  show "assert_valid_grant_input (demo_period t ''2026-12-20'' 40 ''2027-01-29'') = Inr ()"
    by (rule demo_period_valid [OF d(2) assms demo_dates(5) demo_added(7) _ le(4)]) (simp add: demo_added)
  show "assert_valid_grant_input (demo_period t ''2027-02-01'' 30 ''2027-03-03'') = Inr ()"
    by (rule demo_period_valid [OF d(3) assms demo_dates(7) demo_added(9) _ le(5)]) (simp add: demo_added)
qed

lemma create_grant_runs:
  assumes "assert_valid_grant_input i = Inr ()" "normalize_identity_email email = Inr mail"
    "ge_products env (gi_offeringId i) = Some (gi_organizationId i, gi_entitlementClass i)"
    "ge_divisions env (gi_divisionId i) = Some (gi_organizationId i)"
    "\<not> list_ex (\<lambda>g. sg_checkoutIntentId g = gi_checkoutIntentId i \<or> sg_shopifyOrderLineGid g = gi_shopifyOrderLineGid i) (js_values (gr_grants r))"
    "supersede_all i uuid (to_iso now) (overlapping_grants i r) (gi_endsOn i) False r = (Inr (ends, renews), r1)"
    "renews \<or> add_calendar_days (gi_startsOn i) (gi_durationDays i) = Inr (gi_endsOn i)"
    "bind_identity_email (gi_organizationId i) mail (gi_customerId i) r1 = (Inr (), r2)"
  shows "create_entitlement_grant env i email uuid now r =
    (with_teacher_lifecycle env now (store_grant (grant_record i uuid ends (to_iso now)) r2) (grant_record i uuid ends (to_iso now)),
     store_grant (grant_record i uuid ends (to_iso now)) r2)"
proof -
  have "check_grant env i email r = Inr mail" using assms(1-5) by (simp add: check_grant_def)
  with assms(6-8) show ?thesis by (auto simp: create_entitlement_grant_def act_bind_def Let_def)
qed

definition demo_bound :: grants_repo where
  "demo_bound = snd (bind_identity_email ''org'' ''ab@example.test'' ''cust'' empty_grants_repo)"

lemma demo_bound_eq: "demo_bound = empty_grants_repo\<lparr>gr_emails := [(''org:ab@example.test'', ''cust'')],
    gr_emailsByCustomer := [(''org:cust'', ''ab@example.test'')]\<rparr>"
  by (simp add: demo_bound_def bind_identity_email_def empty_grants_repo_def Let_def if_truthy_def js_set_def)

lemma demo_tags [simp]: "js_trim ''a'' \<noteq> []" "js_trim ''b'' \<noteq> []" "js_trim ''c'' \<noteq> []"
  by code_simp+

lemma demo_email: "normalize_identity_email ''Ab@Example.test'' = Inr ''ab@example.test''"
  by code_simp

lemma demo_period_sel [simp]:
  "gi_organizationId (demo_period t s n e) = ''org''" "gi_customerId (demo_period t s n e) = ''cust''"
  "gi_entitlementClass (demo_period t s n e) = ''teacher_membership''" "gi_offeringId (demo_period t s n e) = ''off''"
  "gi_divisionId (demo_period t s n e) = ''div''" "gi_startsOn (demo_period t s n e) = s" "gi_durationDays (demo_period t s n e) = n"
  "gi_endsOn (demo_period t s n e) = e" "gi_checkoutIntentId (demo_period t s n e) = t" "gi_shopifyOrderLineGid (demo_period t s n e) = t"
  by (simp_all add: demo_period_def demo_grant_def)

lemma demo_env_sel [simp]:
  "ge_products demo_grants_env ''off'' = Some (''org'', ''teacher_membership'')" "ge_divisions demo_grants_env ''div'' = Some ''org''"
  by (simp_all add: demo_grants_env_def)

definition demo_first :: "int \<Rightarrow> grants_repo" where
  "demo_first now = store_grant (grant_record (demo_period ''a'' ''2026-01-10'' 365 ''2027-01-10'') ''g1'' ''2027-01-10'' (to_iso now)) demo_bound"

lemma demo_first_created:
  "snd (create_entitlement_grant demo_grants_env (demo_period ''a'' ''2026-01-10'' 365 ''2027-01-10'') ''Ab@Example.test'' ''g1'' now empty_grants_repo)
     = demo_first now"
  unfolding demo_first_def
  by (subst create_grant_runs [where mail = "''ab@example.test''" and ?r1.0 = empty_grants_repo and ?r2.0 = demo_bound and renews = False])
    (simp_all add: demo_periods_valid demo_email demo_added overlapping_grants_def demo_bound_eq bind_identity_email_def empty_grants_repo_def Let_def js_values_def if_truthy_def js_set_def)

lemma demo_first_grants: "gr_grants (demo_first now) =
    [(''g1'', grant_record (demo_period ''a'' ''2026-01-10'' 365 ''2027-01-10'') ''g1'' ''2027-01-10'' (to_iso now))]"
  by (simp add: demo_first_def store_grant_reads demo_bound_eq empty_grants_repo_def js_set_def) (simp add: grant_record_def)

lemma demo_first_reachable: "grants_reachable demo_grants_env (demo_first now)"
proof -
  have "''2026-01-10'' \<le> ''9899-12-31''" by code_simp
  then show ?thesis
    unfolding demo_first_created [symmetric]
    by (intro gr_create gr_empty) (simp_all add: empty_grants_repo_def nothing_scheduled_def)
qed

text \<open>A second grant after the first, and a renewal within the renewal window.\<close>

definition demo_second :: "int \<Rightarrow> grants_repo" where
  "demo_second now = store_grant (grant_record (demo_period ''b'' ''2027-01-10'' 365 ''2028-01-10'') ''g2'' ''2028-01-10'' (to_iso now)) (demo_first now)"

lemma demo_first_binds: "bind_identity_email ''org'' ''ab@example.test'' ''cust'' (demo_first now) = (Inr (), demo_first now)"
  by (simp add: demo_first_def store_grant_def advance_cohort_def demo_bound_eq empty_grants_repo_def bind_identity_email_def Let_def if_truthy_def js_set_def js_get_Cons)

lemma demo_second_created:
  "snd (create_entitlement_grant demo_grants_env (demo_period ''b'' ''2027-01-10'' 365 ''2028-01-10'') ''Ab@Example.test'' ''g2'' now (demo_first now))
     = demo_second now"
  unfolding demo_second_def
  by (subst create_grant_runs [where mail = "''ab@example.test''" and ?r1.0 = "demo_first now" and ?r2.0 = "demo_first now" and renews = False])
    (simp_all add: demo_periods_valid demo_email demo_added demo_first_binds overlapping_grants_def js_values_def js_get_Cons demo_first_grants grant_record_def)

lemma demo_live: "live_grant (demo_first now) g" "live_grant (demo_second now) g"
  by (simp_all add: live_grant_def demo_second_def demo_first_def store_grant_def advance_cohort_def demo_bound_eq empty_grants_repo_def Let_def)

lemma demo_starts: "''2026-01-10'' \<le> ''9899-12-31''" "''2027-01-10'' \<le> ''9899-12-31''" "''2026-12-20'' \<le> ''9899-12-31''"
  "''2026-01-10'' \<le> ''2027-01-10''" "''2026-01-10'' \<le> ''2026-12-20''" "\<not> ''2027-02-01'' \<le> ''2026-12-20''"
  by code_simp+

lemma demo_second_reachable: "grants_reachable demo_grants_env (demo_second now)"
  unfolding demo_second_created [symmetric]
  by (intro gr_create demo_first_reachable) (auto simp: demo_first_grants js_get_Cons nothing_scheduled_def grant_record_def demo_starts split: if_splits)

theorem memberships_never_overlap_witness:
  "sg_endsOn (grant_record (demo_period ''a'' ''2026-01-10'' 365 ''2027-01-10'') ''g1'' ''2027-01-10'' (to_iso 0)) \<le> ''2027-01-10'' \<or>
   ''2028-01-10'' \<le> ''2026-01-10''"
  using memberships_never_overlap [OF demo_second_reachable [of 0], of "''g1''" _ "''g2''"]
  by (simp add: demo_live demo_second_def store_grant_reads demo_first_grants js_get_Cons grant_record_def)

lemma demo_renewal:
  "add_calendar_days ''2027-01-10'' 365 = Inr ''2028-01-10''" "calendar_days_until ''2026-12-20'' ''2027-01-10'' = Inr 21"
  by (simp_all add: demo_added calendar_days_until_def demo_dates date_eval)

lemma demo_overlaps: "overlapping_grants (demo_period t ''2026-12-20'' n e) (demo_first now) =
   (if ''2026-01-10'' < e then [grant_record (demo_period ''a'' ''2026-01-10'' 365 ''2027-01-10'') ''g1'' ''2027-01-10'' (to_iso now)] else [])"
proof -
  have "''2026-12-20'' < ''2027-01-10''" by code_simp
  then show ?thesis by (simp add: overlapping_grants_def js_values_def demo_first_grants demo_live) (simp add: grant_record_def)
qed

lemma demo_today: "organization_today demo_grants_env org 1774000000000 = Inr ''2026-03-20''"
proof -
  have "iso_window 1774000000000" by (simp add: iso_window_def)
  from iso_roundtrip [OF this] obtain c where c: "iso_with_offset (to_iso 1774000000000) = Some (c, 1, 0, 0)"
    "parse_explicit_offset_iso (c, 1, 0, 0) = Some 1774000000000" by blast
  then have o: "offset_suffix (to_iso 1774000000000) \<noteq> None" by (auto simp: iso_with_offset_def split: option.splits)
  have tz: "is_valid_iana_timezone demo_zones ''Plus2''" "the (demo_zones ''Plus2'') = (\<lambda>t. t + 7200000)" by code_simp (simp add: demo_zones_def)
  have "valid_date (CalDate 2026 3 20)" "day_number (CalDate 2026 3 20) = 740060" by (simp_all add: date_eval)
  then have d: "date_of_day 740060 = CalDate 2026 3 20" by (metis date_of_day_number day_number_inj)
  show ?thesis
    using c o tz by (simp add: organization_today_def demo_grants_env_def calendar_date_in_timezone_def d plain_date_def iso_eval)
qed

theorem renewal_extends_membership_witness:
  "\<exists>shown. fst (create_entitlement_grant demo_grants_env (demo_period ''b'' ''2026-12-20'' 365 ''2027-12-20'') ''Ab@Example.test'' ''g2''
       1774000000000 (demo_first 1774000000000)) = Inr shown \<and> sg_endsOn (sh_grant shown) = ''2028-01-10''"
proof -
  let ?now = "1774000000000 :: int"
  let ?i = "demo_period ''b'' ''2026-12-20'' 365 ''2027-12-20''"
  let ?r1 = "supersede ''g1'' ''2026-12-20'' (to_iso ?now) ''g2'' (demo_first ?now)"
  let ?g = "grant_record ?i ''g2'' ''2028-01-10'' (to_iso ?now)"
  have le: "''2026-01-10'' < ''2027-12-20''" "''2026-12-20'' < ''2027-01-10''" "''2026-01-10'' \<le> ''2026-12-20''" by code_simp+
  have over: "overlapping_grants ?i (demo_first ?now) = [grant_record (demo_period ''a'' ''2026-01-10'' 365 ''2027-01-10'') ''g1'' ''2027-01-10'' (to_iso ?now)]"
    by (simp add: demo_overlaps le)
  have loop: "supersede_all ?i ''g2'' (to_iso ?now) (overlapping_grants ?i (demo_first ?now)) (gi_endsOn ?i) False (demo_first ?now) = (Inr (''2028-01-10'', True), ?r1)"
    unfolding over by (simp add: renewable_def grant_record_def le demo_renewal TEACHER_MEMBERSHIP_RENEWAL_WINDOW_DAYS_def Let_def)
  have bind: "bind_identity_email ''org'' ''ab@example.test'' ''cust'' ?r1 = (Inr (), ?r1)"
    by (simp add: demo_first_def store_grant_def advance_cohort_def demo_bound_eq empty_grants_repo_def bind_identity_email_def Let_def
        if_truthy_def js_set_def js_get_Cons supersede_def)
  have life: "with_teacher_lifecycle demo_grants_env ?now (store_grant ?g ?r1) ?g = Inr shown \<Longrightarrow> sh_grant shown = ?g" for shown
    by (auto simp: with_teacher_lifecycle_def and_then_eq_Inr)
  have clear: "js_get (gr_revocations (store_grant ?g ?r1)) ''g2'' = None" "js_get (gr_supersededOn (store_grant ?g ?r1)) ''g2'' = None"
    by (simp_all add: store_grant_def advance_cohort_def supersede_def demo_first_def demo_bound_eq empty_grants_repo_def Let_def js_set_def js_get_Cons)
  have run: "create_entitlement_grant demo_grants_env ?i ''Ab@Example.test'' ''g2'' ?now (demo_first ?now) =
      (with_teacher_lifecycle demo_grants_env ?now (store_grant ?g ?r1) ?g, store_grant ?g ?r1)"
    using loop bind by (intro create_grant_runs [where renews = True and mail = "''ab@example.test''"])
      (simp_all add: demo_periods_valid demo_email js_values_def demo_first_grants, simp_all add: grant_record_def)
  have "\<exists>l. derive_lifecycle \<lparr>li_startsOn = ''2026-12-20'', li_endsOn = ''2028-01-10'', li_supersededOn = None, li_revokedAtIso = None\<rparr> ''2026-03-20'' = Inr l"
    by (rule exI [of _ Scheduled]) code_simp
  then obtain shown where shown: "with_teacher_lifecycle demo_grants_env ?now (store_grant ?g ?r1) ?g = Inr shown"
    using demo_today clear by (auto simp: with_teacher_lifecycle_def with_lifecycle_def grant_record_def if_truthy_def demo_grants_env_def)
  have none: "nothing_scheduled ?i (demo_first ?now)"
    using demo_starts by (auto simp: nothing_scheduled_def demo_first_grants js_get_Cons grant_record_def split: if_splits)
  have fresh: "js_get (gr_grants (demo_first ?now)) ''g2'' = None" by (simp add: demo_first_grants js_get_Cons)
  have start: "gi_startsOn ?i \<le> ''9899-12-31''" by (simp add: demo_starts)
  note res = renewal_extends_membership [OF demo_first_reachable none start fresh run [unfolded shown]]
  have "add_calendar_days ''2027-01-10'' 365 = Inr (sg_endsOn (sh_grant shown))"
    using res by (auto simp: over grant_record_def)
  with demo_renewal run shown show ?thesis by simp
qed

section \<open>Renewals that lose or double a membership\<close>

text \<open>
  C29: a renewal that fails takes the membership away.  When a renewal has superseded the old grant
  and the identity email turns out to belong to another customer, the creation fails, no grant is
  added, and the old grant stays superseded on the first day of the grant that does not exist.
\<close>
theorem failed_renewal_loses_membership:
  assumes "check_grant env i email r = Inr mail" "overlapping_grants i r = [p]" "renewable i p = Inr True"
    and "add_calendar_days (sg_endsOn p) (gi_durationDays i) = Inr ends"
    and "js_get (gr_emails r) (gi_organizationId i @ '':'' @ mail) = Some other" "other \<noteq> []" "other \<noteq> gi_customerId i"
  shows "\<exists>r'. create_entitlement_grant env i email uuid now r =
      (Inl (PlainError ''Shopify identity email belongs to another customer.''), r') \<and>
    gr_grants r' = gr_grants r \<and> \<not> live_grant r' p \<and> js_get (gr_supersededOn r') (sg_id p) = Some (gi_startsOn i)"
proof (intro exI conjI)
  let ?r = "supersede (sg_id p) (gi_startsOn i) (to_iso now) uuid r"
  show "create_entitlement_grant env i email uuid now r = (Inl (PlainError ''Shopify identity email belongs to another customer.''), ?r)"
    using assms by (simp add: create_entitlement_grant_def act_bind_def bind_identity_email_def Let_def if_truthy_def supersede_def)
  show "\<not> live_grant ?r p" using supersede_live by blast
qed (simp_all add: supersede_def)

definition demo_other :: "int \<Rightarrow> grants_repo" where
  "demo_other now = (demo_first now)\<lparr>gr_emails := [(''org:ab@example.test'', ''cust''), (''org:cd@example.test'', ''mallory'')]\<rparr>"

theorem failed_renewal_loses_membership_witness:
  "\<exists>r'. create_entitlement_grant demo_grants_env (demo_period ''b'' ''2026-12-20'' 365 ''2027-12-20'') ''cd@example.test'' ''g2'' 0 (demo_other 0)
      = (Inl (PlainError ''Shopify identity email belongs to another customer.''), r') \<and>
    js_get (gr_supersededOn r') ''g1'' = Some ''2026-12-20'' \<and> length (gr_grants r') = 1"
proof -
  let ?i = "demo_period ''b'' ''2026-12-20'' 365 ''2027-12-20''"
  let ?p = "grant_record (demo_period ''a'' ''2026-01-10'' 365 ''2027-01-10'') ''g1'' ''2027-01-10'' (to_iso 0)"
  have le: "''2026-01-10'' < ''2027-12-20''" "''2026-12-20'' < ''2027-01-10''" "''2026-01-10'' \<le> ''2026-12-20''" by code_simp+
  have email: "normalize_identity_email ''cd@example.test'' = Inr ''cd@example.test''" by code_simp
  have same: "gr_grants (demo_other 0) = [(''g1'', ?p)]" "live_grant (demo_other 0) g = live_grant (demo_first 0) g" for g
    by (simp_all add: demo_other_def demo_first_grants live_grant_def)
  then have over: "overlapping_grants ?i (demo_other 0) = [?p]"
    using demo_overlaps [of "''b''" 365 "''2027-12-20''" 0] le by (simp add: overlapping_grants_def demo_first_grants)
  have check: "check_grant demo_grants_env ?i ''cd@example.test'' (demo_other 0) = Inr ''cd@example.test''"
    by (simp add: check_grant_def demo_periods_valid email same js_values_def) (simp add: grant_record_def)
  have p: "sg_startsOn ?p = ''2026-01-10''" "sg_endsOn ?p = ''2027-01-10''" "sg_id ?p = ''g1''" by (simp_all add: grant_record_def)
  have renew: "renewable ?i ?p = Inr True"
    by (simp add: renewable_def p le demo_renewal TEACHER_MEMBERSHIP_RENEWAL_WINDOW_DAYS_def)
  have other: "js_get (gr_emails (demo_other 0)) (gi_organizationId ?i @ '':'' @ ''cd@example.test'') = Some ''mallory''"
    by (simp add: demo_other_def js_get_Cons)
  show ?thesis
    using failed_renewal_loses_membership [OF check over renew _ other, of "''2028-01-10''" "''g2''" 0]
    by (auto simp: p demo_added same)
qed

definition demo_gap :: "int \<Rightarrow> grants_repo" where
  "demo_gap now = store_grant (grant_record (demo_period ''b'' ''2027-02-01'' 30 ''2027-03-03'') ''g2'' ''2027-03-03'' (to_iso now)) (demo_first now)"

lemma demo_gap_created:
  "snd (create_entitlement_grant demo_grants_env (demo_period ''b'' ''2027-02-01'' 30 ''2027-03-03'') ''Ab@Example.test'' ''g2'' now (demo_first now))
     = demo_gap now"
  unfolding demo_gap_def
  by (subst create_grant_runs [where mail = "''ab@example.test''" and ?r1.0 = "demo_first now" and ?r2.0 = "demo_first now" and renews = False])
    (simp_all add: demo_periods_valid demo_email demo_added demo_first_binds overlapping_grants_def js_values_def js_get_Cons demo_first_grants grant_record_def)

text \<open>
  A grant that renews can run into a later one.  With a membership to 2027-01-10 and a scheduled
  one from 2027-02-01, a 40 day grant from 2026-12-20 renews the first and ends on 2027-02-19: the
  check for overlaps reads the end before the extension.
\<close>

theorem renewal_can_overlap_scheduled:
  "\<exists>r' g h. r' = snd (create_entitlement_grant demo_grants_env (demo_period ''c'' ''2026-12-20'' 40 ''2027-01-29'') ''Ab@Example.test'' ''g3'' now
        (demo_gap now)) \<and>
     js_get (gr_grants r') ''g3'' = Some g \<and> js_get (gr_grants r') ''g2'' = Some h \<and> live_grant r' g \<and> live_grant r' h \<and>
     same_membership g h \<and> sg_startsOn h = ''2027-02-01'' \<and> sg_endsOn g = ''2027-02-19'' \<and> sg_startsOn g < sg_startsOn h"
proof -
  let ?i = "demo_period ''c'' ''2026-12-20'' 40 ''2027-01-29''"
  let ?p = "grant_record (demo_period ''a'' ''2026-01-10'' 365 ''2027-01-10'') ''g1'' ''2027-01-10'' (to_iso now)"
  let ?h = "grant_record (demo_period ''b'' ''2027-02-01'' 30 ''2027-03-03'') ''g2'' ''2027-03-03'' (to_iso now)"
  let ?r1 = "supersede ''g1'' ''2026-12-20'' (to_iso now) ''g3'' (demo_gap now)"
  let ?g = "grant_record ?i ''g3'' ''2027-02-19'' (to_iso now)"
  have le: "''2026-01-10'' < ''2027-01-29''" "''2026-12-20'' < ''2027-01-10''" "''2026-01-10'' \<le> ''2026-12-20''"
    "\<not> ''2027-02-01'' < ''2027-01-29''" "''2026-12-20'' < ''2027-02-01''" by code_simp+
  have grants: "gr_grants (demo_gap now) = [(''g1'', ?p), (''g2'', ?h)]"
    by (simp add: demo_gap_def store_grant_reads demo_first_grants js_set_def) (simp add: grant_record_def)
  have live: "live_grant (demo_gap now) g" for g by (simp add: demo_gap_def store_grant_reads demo_live)
  have over: "overlapping_grants ?i (demo_gap now) = [?p]"
    by (simp add: overlapping_grants_def js_values_def grants live) (simp add: grant_record_def le)
  have loop: "supersede_all ?i ''g3'' (to_iso now) (overlapping_grants ?i (demo_gap now)) (gi_endsOn ?i) False (demo_gap now) = (Inr (''2027-02-19'', True), ?r1)"
    unfolding over by (simp add: renewable_def grant_record_def le demo_renewal demo_added TEACHER_MEMBERSHIP_RENEWAL_WINDOW_DAYS_def Let_def)
  have bind: "bind_identity_email ''org'' ''ab@example.test'' ''cust'' ?r1 = (Inr (), ?r1)"
    by (simp add: demo_gap_def demo_first_def store_grant_def advance_cohort_def demo_bound_eq empty_grants_repo_def bind_identity_email_def Let_def
        if_truthy_def js_set_def js_get_Cons supersede_def)
  have "create_entitlement_grant demo_grants_env ?i ''Ab@Example.test'' ''g3'' now (demo_gap now) =
      (with_teacher_lifecycle demo_grants_env now (store_grant ?g ?r1) ?g, store_grant ?g ?r1)"
    using loop bind by (intro create_grant_runs [where renews = True and mail = "''ab@example.test''"])
      (simp_all add: demo_periods_valid demo_email js_values_def grants, simp_all add: grant_record_def)
  then have run: "snd (create_entitlement_grant demo_grants_env ?i ''Ab@Example.test'' ''g3'' now (demo_gap now)) = store_grant ?g ?r1" by simp
  have none: "gr_revocations (demo_gap now) = []" "gr_supersededOn (demo_gap now) = []"
    by (simp_all add: demo_gap_def demo_first_def store_grant_def advance_cohort_def demo_bound_eq empty_grants_repo_def Let_def)
  have kept: "live_grant (store_grant ?g ?r1) ?g" "live_grant (store_grant ?g ?r1) ?h"
    by (simp_all add: store_grant_reads, simp_all add: live_grant_def supersede_def none grant_record_def js_set_def js_get_Cons)
  have "js_get (gr_grants (store_grant ?g ?r1)) ''g3'' = Some ?g" "js_get (gr_grants (store_grant ?g ?r1)) ''g2'' = Some ?h"
    by (simp_all add: store_grant_reads, simp_all add: supersede_def grants grant_record_def js_get_Cons)
  moreover have "same_membership ?g ?h" "sg_startsOn ?h = ''2027-02-01''" "sg_endsOn ?g = ''2027-02-19''" "sg_startsOn ?g < sg_startsOn ?h"
    by (simp_all add: same_membership_def grant_record_def le)
  ultimately show ?thesis unfolding run using kept by blast
qed

end
