(* ===== verification/CommerceRepo.thy ===== *)
theory CommerceRepo
  imports MembershipGrants EntitlementRepo
begin

text \<open>
  \<open>InMemoryMembershipCommerceRepository\<close> of
  \<open>packages/backend/src/commerce/membership-commerce-repository.ts\<close>: webhook deliveries, order
  projections, validation decisions with their indexes and audits, reconciliation runs and the class
  entitlements that decisions create.  It writes into the checkout repository and into the membership
  grants, so the state has all three.  A method is one function on that state: the in-memory
  repositories do not wait for anything outside, and finalizations run under the capacity lock.  Their
  \<open>await\<close>s on each other do yield to other requests, so \<open>finalize_atomically\<close> as one step rests on that lock.
  \<open>randomUUID()\<close> and the clock are arguments.
\<close>

section \<open>State\<close>

datatype delivery_status = DeliveryReceived | DeliveryProcessing | DeliveryProcessed | DeliveryFailed

datatype failure_category = FailUpstream | FailPersistence | FailInvalid

datatype failure_stage = StageOrderRead | StageProjection

datatype failure_code = CodeUpstream | CodeTransport | CodeInvalidData | CodePaidLineConflict | CodePersistence | CodeUnexpected

record delivery_input =
  di_organizationId :: string
  di_shopDomain :: string
  di_webhookId :: string
  di_shopifyOrderGid :: string
  di_payloadSha256 :: string
  di_receivedAtIso :: string

record webhook_delivery =
  wd_id :: string
  wd_input :: delivery_input
  wd_status :: delivery_status
  wd_attemptCount :: nat
  wd_failureCategory :: "failure_category option"
  wd_failureStage :: "failure_stage option"
  wd_failureCode :: "failure_code option"
  wd_shopifyRequestId :: "string option"
  wd_failedAtIso :: "string option"
  wd_processingStartedAtIso :: "string option"
  wd_processedAtIso :: "string option"

datatype delivery_outcome = Accepted webhook_delivery | Duplicate webhook_delivery | Conflict

record projection_input =
  pi_organizationId :: string
  pi_shopifyOrderGid :: string
  pi_shopifyCustomerGid :: "string option"
  pi_correlationId :: "string option"
  pi_fullyPaidAtIso :: "string option"
  pi_currencyCode :: "string option"
  pi_updatedAtIso :: string

record order_projection =
  op_input :: projection_input
  op_createdAtIso :: string

datatype decision_status = DecPending | DecApproved | DecRejected | DecNeedsReview

datatype membership_reason =
    CorrelationMissing | CorrelationInvalid | IntentTimedOut | OrderNotPaid | PaymentIncomplete | PaymentMismatch
  | CustomerMismatch | OfferingMismatch | DivisionInvalid | DuplicatePurchase | PolicyMismatch | UpstreamInvalid

record decision_input =
  de_organizationId :: string
  de_customerId :: "string option"
  de_checkoutIntentId :: "string option"
  de_shopifyOrderGid :: string
  de_shopifyOrderLineGid :: "string option"
  de_status :: decision_status
  de_reasonCode :: "membership_reason option"
  de_updatedAtIso :: string

record decision =
  dn_id :: string
  dn_input :: decision_input
  dn_createdAtIso :: string

record reconciliation_run =
  rr_id :: string
  rr_organizationId :: string
  rr_completed :: bool
  rr_discoveredCount :: nat
  rr_processedCount :: nat
  rr_startedAtIso :: string
  rr_finishedAtIso :: string
  rr_failureCategory :: "failure_category option"

record decision_audit =
  da_id :: string
  da_organizationId :: string
  da_decisionId :: string
  da_priorStatus :: decision_status
  da_finalStatus :: decision_status
  da_actorUserId :: string
  da_note :: string
  da_resolvedAtIso :: string

text \<open>The class entitlements with their indexes by order line and by intent are an \<open>ent_repo\<close>.\<close>

record commerce =
  co_deliveries :: "(string, webhook_delivery) js_map"
  co_byWebhook :: "(string, string) js_map"
  co_projections :: "(string, order_projection) js_map"
  co_decisions :: "(string, decision) js_map"
  co_audits :: "(string, decision_audit) js_map"
  co_decisionsByLine :: "(string, string) js_map"
  co_decisionsByIntent :: "(string, string) js_map"
  co_classes :: ent_repo
  co_runs :: "reconciliation_run list"

definition empty_commerce :: commerce where
  "empty_commerce = \<lparr>co_deliveries = [], co_byWebhook = [], co_projections = [], co_decisions = [], co_audits = [],
     co_decisionsByLine = [], co_decisionsByIntent = [], co_classes = empty_ent_repo, co_runs = []\<rparr>"

record commerce_state =
  cs_commerce :: commerce
  cs_checkout :: checkout_repo
  cs_grants :: grants_repo

text \<open>
  \<open>ke_hasCheckout\<close>: a checkout repository was given to the constructor.  \<open>ke_entitlementId\<close> names
  the class entitlement created for an order line, \<open>ke_now\<close> is the clock.
\<close>

record commerce_env =
  ke_grants :: grants_env
  ke_hasCheckout :: bool
  ke_decisionId :: string
  ke_grantId :: string
  ke_entitlementId :: "string \<Rightarrow> string"
  ke_now :: int

definition on_commerce :: "(commerce \<Rightarrow> 'a \<times> commerce) \<Rightarrow> (commerce_state, 'a) act" where
  "on_commerce f s = (case f (cs_commerce s) of (x, c) \<Rightarrow> (Inr x, s\<lparr>cs_commerce := c\<rparr>))"

section \<open>Deliveries\<close>

definition record_delivery :: "delivery_input \<Rightarrow> string \<Rightarrow> commerce \<Rightarrow> delivery_outcome outcome \<times> commerce" where
  "record_delivery i uuid c =
     (let key = nul_key (di_organizationId i) (di_webhookId i) in
      (case if_truthy (js_get (co_byWebhook c) key) of
         Some known \<Rightarrow>
           (case js_get (co_deliveries c) known of
              None \<Rightarrow> (Inl (PlainError ''Webhook delivery index is invalid.''), c)
            | Some d \<Rightarrow>
                if di_payloadSha256 (wd_input d) \<noteq> di_payloadSha256 i then (Inr Conflict, c) else (Inr (Duplicate d), c))
       | None \<Rightarrow>
           let d = \<lparr>wd_id = uuid, wd_input = i, wd_status = DeliveryReceived, wd_attemptCount = 0, wd_failureCategory = None,
                    wd_failureStage = None, wd_failureCode = None, wd_shopifyRequestId = None, wd_failedAtIso = None,
                    wd_processingStartedAtIso = None, wd_processedAtIso = None\<rparr>
           in (Inr (Accepted d), c\<lparr>co_deliveries := js_set uuid d (co_deliveries c), co_byWebhook := js_set key uuid (co_byWebhook c)\<rparr>)))"

definition without_failure :: "webhook_delivery \<Rightarrow> webhook_delivery" where
  "without_failure d = d\<lparr>wd_failureCategory := None, wd_failureStage := None, wd_failureCode := None, wd_shopifyRequestId := None,
     wd_failedAtIso := None\<rparr>"

definition change_delivery :: "string \<Rightarrow> (webhook_delivery \<Rightarrow> webhook_delivery) \<Rightarrow> commerce \<Rightarrow> commerce" where
  "change_delivery k f c = c\<lparr>co_deliveries := js_modify k f (co_deliveries c)\<rparr>"

definition claimed :: "int \<Rightarrow> webhook_delivery \<Rightarrow> webhook_delivery" where
  "claimed now d = (without_failure d)\<lparr>wd_status := DeliveryProcessing, wd_attemptCount := wd_attemptCount d + 1,
     wd_processingStartedAtIso := Some (to_iso now)\<rparr>"

definition claim_delivery :: "string \<Rightarrow> int \<Rightarrow> commerce \<Rightarrow> webhook_delivery option \<times> commerce" where
  "claim_delivery did now c =
     (case js_get (co_deliveries c) did of
        None \<Rightarrow> (None, c)
      | Some d \<Rightarrow>
          if wd_status d \<noteq> DeliveryReceived \<and> wd_status d \<noteq> DeliveryFailed then (None, c)
          else (Some (claimed now d), change_delivery did (claimed now) c))"

record delivery_failure =
  df_category :: failure_category
  df_stage :: failure_stage
  df_code :: failure_code
  df_requestId :: "string option"
  df_failedAtIso :: string

definition mark_delivery_failed :: "string \<Rightarrow> delivery_failure \<Rightarrow> commerce \<Rightarrow> commerce" where
  "mark_delivery_failed did f =
     change_delivery did (\<lambda>d. d\<lparr>wd_status := DeliveryFailed, wd_failureCategory := Some (df_category f), wd_failureStage := Some (df_stage f),
       wd_failureCode := Some (df_code f), wd_shopifyRequestId := df_requestId f, wd_failedAtIso := Some (df_failedAtIso f),
       wd_processingStartedAtIso := None\<rparr>)"

definition mark_delivery_processed :: "string \<Rightarrow> int \<Rightarrow> commerce \<Rightarrow> commerce" where
  "mark_delivery_processed did now =
     change_delivery did (\<lambda>d. (without_failure d)\<lparr>wd_status := DeliveryProcessed, wd_processedAtIso := Some (to_iso now),
       wd_processingStartedAtIso := None\<rparr>)"

definition is_stale :: "string \<Rightarrow> string \<Rightarrow> webhook_delivery \<Rightarrow> bool" where
  "is_stale org stale_before d \<longleftrightarrow>
     di_organizationId (wd_input d) = org \<and> wd_status d = DeliveryProcessing \<and>
     (case if_truthy (wd_processingStartedAtIso d) of None \<Rightarrow> True | Some t \<Rightarrow> t \<le> stale_before)"

definition reclaimed :: "string \<Rightarrow> string \<Rightarrow> int \<Rightarrow> webhook_delivery \<Rightarrow> webhook_delivery" where
  "reclaimed org stale_before now d =
     (if is_stale org stale_before d
      then d\<lparr>wd_status := DeliveryFailed, wd_failureCategory := Some FailUpstream, wd_failureStage := Some StageProjection,
             wd_failureCode := Some CodeUnexpected, wd_failedAtIso := Some (to_iso now), wd_processingStartedAtIso := None\<rparr>
      else d)"

definition list_reclaimable_deliveries :: "string \<Rightarrow> nat \<Rightarrow> string \<Rightarrow> int \<Rightarrow> commerce \<Rightarrow> webhook_delivery list \<times> commerce" where
  "list_reclaimable_deliveries org limit stale_before now c =
     (let m = map (\<lambda>(k, d). (k, reclaimed org stale_before now d)) (co_deliveries c)
      in (take limit (sort_key (\<lambda>d. di_receivedAtIso (wd_input d))
            (filter (\<lambda>d. di_organizationId (wd_input d) = org \<and> (wd_status d = DeliveryReceived \<or> wd_status d = DeliveryFailed)) (js_values m))),
          c\<lparr>co_deliveries := m\<rparr>))"

section \<open>Projections and pending decisions\<close>

text \<open>A field that the new input leaves out keeps its stored value.\<close>

definition upsert_order_projection :: "projection_input \<Rightarrow> commerce \<Rightarrow> order_projection \<times> commerce" where
  "upsert_order_projection i c =
     (let key = nul_key (pi_organizationId i) (pi_shopifyOrderGid i); old = js_get (co_projections c) key;
          keep = (\<lambda>f. case f i of Some v \<Rightarrow> Some v | None \<Rightarrow> Option.bind old (\<lambda>p. f (op_input p)));
          p = \<lparr>op_input = i\<lparr>pi_shopifyCustomerGid := keep pi_shopifyCustomerGid, pi_correlationId := keep pi_correlationId,
                 pi_fullyPaidAtIso := keep pi_fullyPaidAtIso, pi_currencyCode := keep pi_currencyCode\<rparr>,
               op_createdAtIso = (case old of Some q \<Rightarrow> op_createdAtIso q | None \<Rightarrow> pi_updatedAtIso i)\<rparr>
      in (p, c\<lparr>co_projections := js_set key p (co_projections c)\<rparr>))"

definition list_order_projections_by_gids :: "string \<Rightarrow> string list \<Rightarrow> commerce \<Rightarrow> order_projection list" where
  "list_order_projections_by_gids org gids c =
     filter (\<lambda>p. pi_organizationId (op_input p) = org \<and> pi_shopifyOrderGid (op_input p) \<in> set gids) (js_values (co_projections c))"

definition record_pending_decision :: "string \<Rightarrow> string \<Rightarrow> string \<Rightarrow> string \<Rightarrow> commerce \<Rightarrow> decision \<times> commerce" where
  "record_pending_decision org order updated uuid c =
     (let key = nul_key org order in
      (case js_get (co_decisions c) key of
         Some d \<Rightarrow> (d, c)
       | None \<Rightarrow>
           let d = \<lparr>dn_id = uuid, dn_input = \<lparr>de_organizationId = org, de_customerId = None, de_checkoutIntentId = None,
                     de_shopifyOrderGid = order, de_shopifyOrderLineGid = None, de_status = DecPending, de_reasonCode = None,
                     de_updatedAtIso = updated\<rparr>, dn_createdAtIso = updated\<rparr>
           in (d, c\<lparr>co_decisions := js_set key d (co_decisions c)\<rparr>)))"

section \<open>Class entitlements of paid order lines\<close>

definition PAID_LINE_CONFLICT :: app_error where
  "PAID_LINE_CONFLICT = PlainError ''Class entitlement paid-line conflict does not match the existing association.''"

definition class_entitlement_matches_input :: "class_entitlement \<Rightarrow> class_entitlement_input \<Rightarrow> bool" where
  "class_entitlement_matches_input e i \<longleftrightarrow>
     ce_organizationId e = ci_organizationId i \<and> ce_festivalId e = ci_festivalId i \<and>
     ce_festivalClassId e = ci_festivalClassId i \<and> ce_parentCustomerId e = ci_parentCustomerId i \<and>
     ce_childId e = ci_childId i \<and> ce_checkoutIntentId e = ci_checkoutIntentId i \<and>
     ce_checkoutIntentLineId e = ci_checkoutIntentLineId i \<and> ce_shopifyOrderGid e = ci_shopifyOrderGid i \<and>
     ce_shopifyOrderLineGid e = ci_shopifyOrderLineGid i \<and> ce_paidAmountCents e = ci_paidAmountCents i \<and>
     ce_paidCurrencyCode e = ci_paidCurrencyCode i \<and>
     class_status_name (ce_status e) = (case ci_status i of Some s \<Rightarrow> s | None \<Rightarrow> ''confirmed'')"

definition assert_matching_replay :: "class_entitlement \<Rightarrow> class_entitlement_input \<Rightarrow> unit outcome" where
  "assert_matching_replay e i = guard (class_entitlement_matches_input e i) PAID_LINE_CONFLICT"

text \<open>The intent-line index of an \<open>ent_repo\<close> is not used by this repository.\<close>

definition store_class_entitlement :: "class_entitlement \<Rightarrow> ent_repo \<Rightarrow> ent_repo" where
  "store_class_entitlement e r =
     r\<lparr>en_entitlements := js_set (ce_id e) e (en_entitlements r),
       en_byOrderLine := js_set (nul_key (ce_organizationId e) (ce_shopifyOrderLineGid e)) (ce_id e) (en_byOrderLine r),
       en_byIntent := js_set (nul_key (ce_organizationId e) (ce_checkoutIntentId e)) (ce_id e) (en_byIntent r)\<rparr>"

definition create_class_entitlement_unlocked ::
    "class_entitlement_input \<Rightarrow> string \<Rightarrow> string \<Rightarrow> ent_repo \<Rightarrow> class_entitlement outcome \<times> ent_repo" where
  "create_class_entitlement_unlocked i uuid now_iso r =
     (case assert_valid_class_entitlement i of
        Inl e \<Rightarrow> (Inl e, r)
      | Inr _ \<Rightarrow>
          (case indexed_entitlement (en_byOrderLine r) (nul_key (ci_organizationId i) (ci_shopifyOrderLineGid i)) r of
             Some e \<Rightarrow> (case assert_matching_replay e i of Inl x \<Rightarrow> (Inl x, r) | Inr _ \<Rightarrow> (Inr e, r))
           | None \<Rightarrow>
               let e = new_entitlement i (case ci_id i of Some x \<Rightarrow> x | None \<Rightarrow> uuid) now_iso
               in (Inr e, store_class_entitlement e r)))"

definition update_commerce_class_status :: "string \<Rightarrow> string \<Rightarrow> string \<Rightarrow> string \<Rightarrow> ent_repo \<Rightarrow> class_entitlement option outcome \<times> ent_repo" where
  "update_commerce_class_status org eid status now_iso r =
     (case class_status_of status of
        None \<Rightarrow> (Inl (PlainError ''Class entitlement status is invalid.''), r)
      | Some st \<Rightarrow>
          (case get_class_entitlement org eid r of
             None \<Rightarrow> (Inr None, r)
           | Some e \<Rightarrow>
               let e' = e\<lparr>ce_status := st, ce_updatedAt := now_iso\<rparr>
               in (Inr (Some e'), r\<lparr>en_entitlements := js_modify eid (\<lambda>_. e') (en_entitlements r)\<rparr>)))"

definition commerce_class_entitlement :: "string \<Rightarrow> string \<Rightarrow> commerce \<Rightarrow> class_entitlement option" where
  "commerce_class_entitlement org eid c = get_class_entitlement org eid (co_classes c)"

definition commerce_class_entitlements :: "ent_filter \<Rightarrow> commerce \<Rightarrow> class_entitlement list" where
  "commerce_class_entitlements f c = list_class_entitlements f (co_classes c)"

definition commerce_find_by_order_line :: "string \<Rightarrow> string \<Rightarrow> commerce \<Rightarrow> class_entitlement option" where
  "commerce_find_by_order_line org line c = find_class_entitlement_by_order_line org line (co_classes c)"

definition commerce_find_by_intent :: "string \<Rightarrow> string \<Rightarrow> commerce \<Rightarrow> class_entitlement option" where
  "commerce_find_by_intent org intent c = find_class_entitlement_by_intent_id org intent (co_classes c)"

definition commerce_count_confirmed :: "string \<Rightarrow> string \<Rightarrow> commerce \<Rightarrow> nat" where
  "commerce_count_confirmed org cls c = count_confirmed_class_entitlements org cls (co_classes c)"

section \<open>Finalizing a decision\<close>

record finalize_input =
  fi_deliveryId :: string
  fi_decision :: decision_input
  fi_projection :: "projection_input option"
  fi_grant :: "(grant_input \<times> string) option"
  fi_classEntitlement :: "class_entitlement_input option"
  fi_classEntitlements :: "class_entitlement_input list option"

record finalize_result =
  fr_decision :: decision
  fr_grant :: "shown_grant option"
  fr_classEntitlement :: "class_entitlement option"
  fr_classEntitlements :: "class_entitlement list option"
  fr_existing :: bool

definition class_inputs :: "finalize_input \<Rightarrow> class_entitlement_input list" where
  "class_inputs i =
     (case fi_classEntitlements i of Some xs \<Rightarrow> xs
      | None \<Rightarrow> (case fi_classEntitlement i of Some x \<Rightarrow> [x] | None \<Rightarrow> []))"

definition order_key :: "decision_input \<Rightarrow> string" where
  "order_key d = nul_key (de_organizationId d) (de_shopifyOrderGid d)"

definition intent_key :: "decision_input \<Rightarrow> string option" where
  "intent_key d = map_option (nul_key (de_organizationId d)) (if_truthy (de_checkoutIntentId d))"

definition line_key :: "decision_input \<Rightarrow> string option" where
  "line_key d = map_option (nul_key (de_organizationId d)) (if_truthy (de_shopifyOrderLineGid d))"

definition resolution_of :: "decision_status \<Rightarrow> resolution option" where
  "resolution_of s = (case s of DecPending \<Rightarrow> None | DecApproved \<Rightarrow> Some ResolvedApproved | DecRejected \<Rightarrow> Some ResolvedRejected
     | DecNeedsReview \<Rightarrow> Some ResolvedNeedsReview)"

definition resolve_terminal_intent :: "commerce_env \<Rightarrow> decision_input \<Rightarrow> commerce_state \<Rightarrow> commerce_state" where
  "resolve_terminal_intent env d s =
     (if \<not> ke_hasCheckout env then s
      else (case (if_truthy (de_checkoutIntentId d), resolution_of (de_status d)) of
              (Some intent, Some res) \<Rightarrow> s\<lparr>cs_checkout := resolve_intent intent res (cs_checkout s)\<rparr>
            | _ \<Rightarrow> s))"

definition settle_delivery :: "commerce_env \<Rightarrow> string \<Rightarrow> commerce_state \<Rightarrow> commerce_state" where
  "settle_delivery env did s = s\<lparr>cs_commerce := mark_delivery_processed did (ke_now env) (cs_commerce s)\<rparr>"

text \<open>The decision of another order for the same intent or the same order line is returned as it is.\<close>

definition answer_existing :: "commerce_env \<Rightarrow> finalize_input \<Rightarrow> decision \<Rightarrow> (commerce_state, finalize_result) act" where
  "answer_existing env i d s =
     (let s' = settle_delivery env (fi_deliveryId i) (resolve_terminal_intent env (dn_input d) s); di = fi_decision i
      in (Inr \<lparr>fr_decision = d, fr_grant = None,
                fr_classEntitlement = (case if_truthy (de_shopifyOrderLineGid di) of
                   Some line \<Rightarrow> find_class_entitlement_by_order_line (de_organizationId di) line (co_classes (cs_commerce s'))
                 | None \<Rightarrow> None),
                fr_classEntitlements = None, fr_existing = True\<rparr>, s'))"

definition decided_elsewhere :: "(string, string) js_map \<Rightarrow> string option \<Rightarrow> string \<Rightarrow> string option" where
  "decided_elsewhere index key order =
     (case Option.bind key (\<lambda>k. if_truthy (js_get index k)) of
        Some other \<Rightarrow> if other \<noteq> order then Some other else None
      | None \<Rightarrow> None)"

definition link_entitlement :: "commerce_env \<Rightarrow> class_entitlement_input \<Rightarrow> class_entitlement \<Rightarrow> commerce_state \<Rightarrow> commerce_state" where
  "link_entitlement env i e s =
     (if \<not> ke_hasCheckout env \<or> ci_checkoutIntentId i = [] then s
      else s\<lparr>cs_checkout := link_registration_metadata_to_entitlement (Some (ci_checkoutIntentId i)) (ci_checkoutIntentLineId i)
               (ce_id e) (cs_checkout s)\<rparr>)"

fun create_classes :: "commerce_env \<Rightarrow> class_entitlement_input list \<Rightarrow> (commerce_state, class_entitlement list) act" where
  "create_classes env [] s = (Inr [], s)"
| "create_classes env (i # rest) s =
     (case create_class_entitlement_unlocked i (ke_entitlementId env (ci_shopifyOrderLineGid i)) (to_iso (ke_now env)) (co_classes (cs_commerce s)) of
        (Inl e, r) \<Rightarrow> (Inl e, s)
      | (Inr e, r) \<Rightarrow>
          (case create_classes env rest (link_entitlement env i e (s\<lparr>cs_commerce := (cs_commerce s)\<lparr>co_classes := r\<rparr>\<rparr>)) of
             (Inl x, s') \<Rightarrow> (Inl x, s')
           | (Inr es, s') \<Rightarrow> (Inr (e # es), s')))"

text \<open>What an approved decision creates, and nothing for the others.\<close>

definition create_paid :: "commerce_env \<Rightarrow> finalize_input \<Rightarrow> (commerce_state, shown_grant option \<times> class_entitlement list option) act" where
  "create_paid env i =
     (let classes = class_inputs i in
      if de_status (fi_decision i) = DecApproved then
        (case fi_grant i of
           Some (g, email) \<Rightarrow>
             if classes \<noteq> [] then act_throw (PlainError ''Approved decision cannot specify both a membership grant and class entitlement.'')
             else act_bind (act_lift (assert_valid_grant_input g)) (\<lambda>_.
                  act_bind (\<lambda>s. case create_entitlement_grant (ke_grants env) g email (ke_grantId env) (ke_now env) (cs_grants s) of
                      (res, r) \<Rightarrow> (res, s\<lparr>cs_grants := r\<rparr>)) (\<lambda>shown.
                  act_return (Some shown, None)))
         | None \<Rightarrow>
             if classes = [] then act_throw (PlainError ''Approved decision requires a grant or class entitlement.'')
             else act_bind (create_classes env classes) (\<lambda>es. act_return (None, Some es)))
      else if fi_grant i \<noteq> None \<or> classes \<noteq> []
           then act_throw (PlainError ''Non-approved decision cannot create a grant or class entitlement.'')
           else act_return (None, None))"

definition store_decision :: "decision \<Rightarrow> commerce \<Rightarrow> commerce" where
  "store_decision d c =
     (let i = dn_input d; order = order_key i in
      c\<lparr>co_decisions := js_set order d (co_decisions c),
        co_decisionsByIntent := (case intent_key i of Some k \<Rightarrow> js_set k order (co_decisionsByIntent c) | None \<Rightarrow> co_decisionsByIntent c),
        co_decisionsByLine := (case line_key i of Some k \<Rightarrow> js_set k order (co_decisionsByLine c) | None \<Rightarrow> co_decisionsByLine c)\<rparr>)"

definition new_decision :: "commerce_env \<Rightarrow> decision_input \<Rightarrow> decision option \<Rightarrow> decision" where
  "new_decision env i existing =
     \<lparr>dn_id = (case existing of Some d \<Rightarrow> dn_id d | None \<Rightarrow> ke_decisionId env), dn_input = i,
      dn_createdAtIso = (case existing of Some d \<Rightarrow> dn_createdAtIso d | None \<Rightarrow> de_updatedAtIso i)\<rparr>"

definition decide :: "commerce_env \<Rightarrow> finalize_input \<Rightarrow> decision option \<Rightarrow> (commerce_state, finalize_result) act" where
  "decide env i existing =
     (let di = fi_decision i in
      act_bind (act_lift (case fi_projection i of
          Some p \<Rightarrow> guard (pi_organizationId p = de_organizationId di \<and> pi_shopifyOrderGid p = de_shopifyOrderGid di)
                     (PlainError ''Order projection does not match its validation decision.'')
        | None \<Rightarrow> Inr ())) (\<lambda>_.
      act_bind (on_commerce (\<lambda>c. case fi_projection i of Some p \<Rightarrow> ((), snd (upsert_order_projection p c)) | None \<Rightarrow> ((), c))) (\<lambda>_.
      act_bind (create_paid env i) (\<lambda>(grant, classes).
      let d = new_decision env di existing in
      act_bind (on_commerce (\<lambda>c. ((), store_decision d c))) (\<lambda>_ s.
      (Inr \<lparr>fr_decision = d, fr_grant = grant, fr_classEntitlement = Option.bind classes (\<lambda>es. case es of [] \<Rightarrow> None | e # _ \<Rightarrow> Some e),
             fr_classEntitlements = classes, fr_existing = False\<rparr>,
       settle_delivery env (fi_deliveryId i) (resolve_terminal_intent env di s)))))))"

text \<open>
  A decision that is no longer pending answers the request when every class entitlement asked for
  exists; an entitlement with other facts is a conflict.
\<close>

definition replay_classes :: "finalize_input \<Rightarrow> ent_repo \<Rightarrow> class_entitlement option list outcome" where
  "replay_classes i r =
     each_outcome (\<lambda>x. case find_class_entitlement_by_order_line (de_organizationId (fi_decision i)) (ci_shopifyOrderLineGid x) r of
        None \<Rightarrow> Inr None
      | Some e \<Rightarrow> and_then (assert_matching_replay e x) (\<lambda>_. Inr (Some e))) (class_inputs i)"

definition answer_decided :: "commerce_env \<Rightarrow> finalize_input \<Rightarrow> decision \<Rightarrow> class_entitlement list \<Rightarrow> (commerce_state, finalize_result) act" where
  "answer_decided env i d es s =
     (Inr \<lparr>fr_decision = d, fr_grant = None, fr_classEntitlement = (case es of [] \<Rightarrow> None | e # _ \<Rightarrow> Some e),
            fr_classEntitlements = Some es, fr_existing = True\<rparr>,
      settle_delivery env (fi_deliveryId i) (resolve_terminal_intent env (dn_input d) s))"

definition decide_order :: "commerce_env \<Rightarrow> finalize_input \<Rightarrow> decision option \<Rightarrow> (commerce_state, finalize_result) act" where
  "decide_order env i existing s =
     (let di = fi_decision i; order = order_key di; c = cs_commerce s in
      (case decided_elsewhere (co_decisionsByIntent c) (intent_key di) order of
         Some other \<Rightarrow>
           (case js_get (co_decisions c) other of
              None \<Rightarrow> (Inl (PlainError ''Checkout decision index is invalid.''), s)
            | Some d \<Rightarrow> answer_existing env i d s)
       | None \<Rightarrow>
           (case decided_elsewhere (co_decisionsByLine c) (line_key di) order of
              Some other \<Rightarrow>
                (case js_get (co_decisions c) other of
                   None \<Rightarrow> (Inl (PlainError ''Order-line decision index is invalid.''), s)
                 | Some d \<Rightarrow> answer_existing env i d s)
            | None \<Rightarrow> decide env i existing s)))"

definition finalize_internal :: "commerce_env \<Rightarrow> finalize_input \<Rightarrow> (commerce_state, finalize_result) act" where
  "finalize_internal env i =
     act_bind (act_lift (guard (\<not> (fi_classEntitlement i \<noteq> None \<and> fi_classEntitlements i \<noteq> None))
       (PlainError ''Approved decision cannot specify both a class entitlement and class entitlements.''))) (\<lambda>_.
     act_bind (act_lift (each_outcome assert_valid_class_entitlement (class_inputs i))) (\<lambda>_ s.
     (case js_get (co_decisions (cs_commerce s)) (order_key (fi_decision i)) of
        None \<Rightarrow> decide_order env i None s
      | Some d \<Rightarrow>
          if de_status (dn_input d) = DecPending then decide_order env i (Some d) s
          else (case replay_classes i (co_classes (cs_commerce s)) of
                  Inl e \<Rightarrow> (Inl e, s)
                | Inr found \<Rightarrow>
                    if list_all (\<lambda>x. x \<noteq> None) found then answer_decided env i d (map the found) s
                    else decide_order env i (Some d) s))))"

section \<open>Rolling back\<close>

text \<open>An entry as it was before: its old value, or no entry.\<close>

definition restore_entry :: "'k \<Rightarrow> 'v option \<Rightarrow> ('k, 'v) js_map \<Rightarrow> ('k, 'v) js_map" where
  "restore_entry k old m = (case old of Some v \<Rightarrow> js_set k v m | None \<Rightarrow> js_delete k m)"

fun restore_lines :: "(string \<times> string option) list \<Rightarrow> ent_repo \<Rightarrow> ent_repo" where
  "restore_lines [] r = r"
| "restore_lines ((k, old) # rest) r =
     restore_lines rest
       (r\<lparr>en_entitlements := (case (old, if_truthy (js_get (en_byOrderLine r) k)) of
            (None, Some created) \<Rightarrow> js_delete created (en_entitlements r) | _ \<Rightarrow> en_entitlements r),
          en_byOrderLine := restore_entry k (if_truthy old) (en_byOrderLine r)\<rparr>)"

fun restore_index :: "(string \<times> string option) list \<Rightarrow> (string, string) js_map \<Rightarrow> (string, string) js_map" where
  "restore_index [] m = m"
| "restore_index ((k, old) # rest) m = restore_index rest (restore_entry k (if_truthy old) m)"

definition class_line_key :: "class_entitlement_input \<Rightarrow> string" where
  "class_line_key x = nul_key (ci_organizationId x) (ci_shopifyOrderLineGid x)"

definition class_intent_key :: "class_entitlement_input \<Rightarrow> string" where
  "class_intent_key x = nul_key (ci_organizationId x) (ci_checkoutIntentId x)"

definition restore_classes :: "finalize_input \<Rightarrow> ent_repo \<Rightarrow> ent_repo \<Rightarrow> ent_repo" where
  "restore_classes i old r =
     (let r' = restore_lines (map (\<lambda>x. (class_line_key x, js_get (en_byOrderLine old) (class_line_key x))) (class_inputs i)) r
      in r'\<lparr>en_byIntent := restore_index (map (\<lambda>k. (k, js_get (en_byIntent old) k)) (js_uniq (map class_intent_key (class_inputs i)))) (en_byIntent r')\<rparr>)"

definition restore_links :: "commerce_env \<Rightarrow> finalize_input \<Rightarrow> checkout_repo \<Rightarrow> checkout_repo \<Rightarrow> checkout_repo" where
  "restore_links env i old r =
     (if ke_hasCheckout env
      then restore_entitlement_links (snapshot_entitlement_links (map ci_checkoutIntentId (class_inputs i))
             (concat (map (\<lambda>x. case if_truthy (ci_checkoutIntentLineId x) of Some l \<Rightarrow> [l] | None \<Rightarrow> []) (class_inputs i))) old) r
      else r)"

definition roll_back :: "commerce_env \<Rightarrow> finalize_input \<Rightarrow> commerce_state \<Rightarrow> commerce_state \<Rightarrow> commerce_state" where
  "roll_back env i before s =
     (let old = cs_commerce before; c = cs_commerce s; di = fi_decision i; order = order_key di;
          undo = (\<lambda>key index now. case key of Some k \<Rightarrow> restore_entry k (if_truthy (js_get index k)) now | None \<Rightarrow> now)
      in s\<lparr>cs_checkout := restore_links env i (cs_checkout before) (cs_checkout s),
           cs_commerce := c\<lparr>co_classes := restore_classes i (co_classes old) (co_classes c),
             co_projections := restore_entry order (js_get (co_projections old) order) (co_projections c),
             co_decisions := restore_entry order (js_get (co_decisions old) order) (co_decisions c),
             co_decisionsByIntent := undo (intent_key di) (co_decisionsByIntent old) (co_decisionsByIntent c),
             co_decisionsByLine := undo (line_key di) (co_decisionsByLine old) (co_decisionsByLine c),
             co_deliveries := (case js_get (co_deliveries old) (fi_deliveryId i) of
                 Some d \<Rightarrow> js_set (fi_deliveryId i) d (co_deliveries c) | None \<Rightarrow> co_deliveries c)\<rparr>\<rparr>)"

definition finalize_atomically :: "commerce_env \<Rightarrow> finalize_input \<Rightarrow> (commerce_state, finalize_result) act" where
  "finalize_atomically env i s =
     (case finalize_internal env i s of (Inl e, s') \<Rightarrow> (Inl e, roll_back env i s s') | (Inr r, s') \<Rightarrow> (Inr r, s'))"

text \<open>
  Calls with the same key that arrive while one is under way wait for it: \<open>pending\<close> is what that
  call ends with.
\<close>

definition finalization_key :: "decision_input \<Rightarrow> string" where
  "finalization_key d =
     nul_key (de_organizationId d)
       ((case if_truthy (de_checkoutIntentId d) of Some k \<Rightarrow> ''intent:'' @ k | None \<Rightarrow> ''order:'' @ de_shopifyOrderGid d) @
        (case if_truthy (de_shopifyOrderLineGid d) of Some l \<Rightarrow> '':line:'' @ l | None \<Rightarrow> []))"

definition finalize_decision :: "commerce_env \<Rightarrow> finalize_input \<Rightarrow> finalize_result outcome option \<Rightarrow> (commerce_state, finalize_result) act" where
  "finalize_decision env i pending s =
     (case pending of
        Some (Inl e) \<Rightarrow> (Inl e, s)
      | Some (Inr r) \<Rightarrow> (Inr (r\<lparr>fr_existing := True\<rparr>), settle_delivery env (fi_deliveryId i) s)
      | None \<Rightarrow> finalize_atomically env i s)"

section \<open>Manual resolution and listings\<close>

definition has_scheduled_entitlement :: "grants_env \<Rightarrow> string \<Rightarrow> string \<Rightarrow> string \<Rightarrow> string \<Rightarrow> int \<Rightarrow> grants_repo \<Rightarrow> bool outcome" where
  "has_scheduled_entitlement env org customer cls today now r =
     (if cls = ''accompanist_membership''
      then and_then (list_accompanist_grants env org (Some customer) None False now r) (\<lambda>gs.
        Inr (list_ex (\<lambda>g. sw_status g \<noteq> Revoked \<and> today < ai_startsOn (sa_input (sw_grant g)) \<and>
          ai_startsOn (sa_input (sw_grant g)) < ai_endsOn (sa_input (sw_grant g))) gs))
      else and_then (list_entitlement_grants env org (Some customer) now r) (\<lambda>gs.
        Inr (list_ex (\<lambda>g. sg_entitlementClass (sh_grant g) = cls \<and> sh_status g \<noteq> Revoked \<and> sh_status g \<noteq> Superseded \<and>
          \<not> truthy (sh_supersededOn g) \<and> today < sg_startsOn (sh_grant g) \<and> sg_startsOn (sh_grant g) < sg_endsOn (sh_grant g)) gs)))"

definition list_customer_decisions :: "string \<Rightarrow> string \<Rightarrow> commerce \<Rightarrow> decision list" where
  "list_customer_decisions org customer c =
     js_sort_desc dn_createdAtIso (filter (\<lambda>d. de_organizationId (dn_input d) = org \<and> de_customerId (dn_input d) = Some customer) (js_values (co_decisions c)))"

definition record_reconciliation_run :: "reconciliation_run \<Rightarrow> commerce \<Rightarrow> reconciliation_run \<times> commerce" where
  "record_reconciliation_run run c = (run, c\<lparr>co_runs := co_runs c @ [run]\<rparr>)"

definition list_reconciliation_runs :: "string \<Rightarrow> nat \<Rightarrow> commerce \<Rightarrow> reconciliation_run list" where
  "list_reconciliation_runs org limit c = take limit (js_sort_desc rr_finishedAtIso (filter (\<lambda>r. rr_organizationId r = org) (co_runs c)))"

definition unresolved :: "decision \<Rightarrow> bool" where
  "unresolved d \<longleftrightarrow> de_status (dn_input d) = DecPending \<or> de_status (dn_input d) = DecNeedsReview"

definition list_unresolved_decisions :: "string \<Rightarrow> commerce \<Rightarrow> decision list" where
  "list_unresolved_decisions org c =
     js_sort_desc (\<lambda>d. de_updatedAtIso (dn_input d)) (filter (\<lambda>d. de_organizationId (dn_input d) = org \<and> unresolved d) (js_values (co_decisions c)))"

definition get_decision_by_id :: "string \<Rightarrow> string \<Rightarrow> commerce \<Rightarrow> decision option" where
  "get_decision_by_id org did c = find (\<lambda>d. dn_id d = did \<and> de_organizationId (dn_input d) = org) (js_values (co_decisions c))"

definition get_decision_audit :: "string \<Rightarrow> string \<Rightarrow> commerce \<Rightarrow> decision_audit option" where
  "get_decision_audit org did c =
     (case js_get (co_audits c) did of None \<Rightarrow> None | Some a \<Rightarrow> if da_organizationId a \<noteq> org then None else Some a)"

record manual_input =
  ma_organizationId :: string
  ma_decisionId :: string
  ma_approve :: bool
  ma_actorUserId :: string
  ma_note :: string
  ma_resolvedAtIso :: string
  ma_customerId :: "string option"
  ma_checkoutIntentId :: "string option"
  ma_shopifyOrderLineGid :: "string option"
  ma_projection :: "projection_input option"
  ma_grant :: "(grant_input \<times> string) option"

definition or_else :: "'a option \<Rightarrow> 'a option \<Rightarrow> 'a option" where
  "or_else x y = (case x of Some v \<Rightarrow> Some v | None \<Rightarrow> y)"

definition manual_decision :: "manual_input \<Rightarrow> decision \<Rightarrow> decision" where
  "manual_decision m d =
     (let i = dn_input d in
      d\<lparr>dn_input := i\<lparr>de_customerId := or_else (ma_customerId m) (de_customerId i),
        de_checkoutIntentId := or_else (ma_checkoutIntentId m) (de_checkoutIntentId i),
        de_shopifyOrderLineGid := or_else (ma_shopifyOrderLineGid m) (de_shopifyOrderLineGid i),
        de_status := (if ma_approve m then DecApproved else DecRejected),
        de_reasonCode := (if ma_approve m then None else de_reasonCode i), de_updatedAtIso := ma_resolvedAtIso m\<rparr>\<rparr>)"

definition manual_grant :: "commerce_env \<Rightarrow> manual_input \<Rightarrow> (commerce_state, shown_grant option) act" where
  "manual_grant env m =
     (if \<not> ma_approve m then act_return None
      else (case ma_grant m of
              None \<Rightarrow> act_throw (AppError ''Approved decision requires a grant.'' 422 None)
            | Some (g, email) \<Rightarrow>
                act_bind (act_lift (assert_valid_grant_input g)) (\<lambda>_ s.
                (case create_entitlement_grant (ke_grants env) g email (ke_grantId env) (ke_now env) (cs_grants s) of
                   (Inl e, r) \<Rightarrow> (Inl e, s\<lparr>cs_grants := r\<rparr>) | (Inr shown, r) \<Rightarrow> (Inr (Some shown), s\<lparr>cs_grants := r\<rparr>)))))"

definition resolve_decision_manually ::
    "commerce_env \<Rightarrow> manual_input \<Rightarrow> string \<Rightarrow> (commerce_state, decision \<times> shown_grant option \<times> decision_audit) act" where
  "resolve_decision_manually env m audit_id =
     act_bind (\<lambda>s. case get_decision_by_id (ma_organizationId m) (ma_decisionId m) (cs_commerce s) of
         None \<Rightarrow> (Inl (AppError ''Validation decision was not found.'' 404 None), s)
       | Some d \<Rightarrow> (and_then (guard (unresolved d) (AppError ''Validation decision is already resolved.'' 409 None)) (\<lambda>_. Inr d), s)) (\<lambda>d.
     act_bind (manual_grant env m) (\<lambda>grant.
     act_bind (on_commerce (\<lambda>c. case ma_projection m of Some p \<Rightarrow> ((), snd (upsert_order_projection p c)) | None \<Rightarrow> ((), c))) (\<lambda>_.
     let d' = manual_decision m d;
         a = \<lparr>da_id = audit_id, da_organizationId = ma_organizationId m, da_decisionId = dn_id d', da_priorStatus = de_status (dn_input d),
              da_finalStatus = de_status (dn_input d'), da_actorUserId = ma_actorUserId m, da_note = ma_note m,
              da_resolvedAtIso = ma_resolvedAtIso m\<rparr>
     in act_bind (on_commerce (\<lambda>c. ((), store_decision d' c))) (\<lambda>_ s.
        let s' = resolve_terminal_intent env (dn_input d') s
        in (Inr (d', grant, a), s'\<lparr>cs_commerce := (cs_commerce s')\<lparr>co_audits := js_set (dn_id d') a (co_audits (cs_commerce s'))\<rparr>\<rparr>)))))"

section \<open>Restoring a Map\<close>

text \<open>The map changed at most at the given keys, new ones behind the old.\<close>

definition changed_in :: "'k set \<Rightarrow> ('k, 'v) js_map \<Rightarrow> ('k, 'v) js_map \<Rightarrow> bool" where
  "changed_in K m m' \<longleftrightarrow> js_wf m' \<and> (\<forall>k. k \<notin> K \<longrightarrow> js_get m' k = js_get m k) \<and> (\<exists>ext. js_keys m' = js_keys m @ ext)"

lemma js_map_by_keys: "js_wf m \<Longrightarrow> m = map (\<lambda>k. (k, the (js_get m k))) (js_keys m)"
proof (induction m)
  case (Cons x xs)
  obtain k v where x: "x = (k, v)" by (cases x)
  with Cons.prems have wf: "js_wf xs" and k: "k \<notin> set (js_keys xs)" by (auto simp: js_wf_def js_keys_def)
  have "map (\<lambda>j. (j, the (js_get (x # xs) j))) (js_keys xs) = map (\<lambda>j. (j, the (js_get xs j))) (js_keys xs)"
    using k by (intro map_cong) (auto simp: x js_get_Cons)
  with Cons.IH [OF wf] show ?case by (simp add: x js_keys_def js_get_Cons)
qed (simp add: js_keys_def)

lemma js_map_eqI: "js_wf m \<Longrightarrow> js_wf m' \<Longrightarrow> js_keys m = js_keys m' \<Longrightarrow> (\<And>k. js_get m k = js_get m' k) \<Longrightarrow> m = m'"
  using js_map_by_keys [of m] js_map_by_keys [of m'] by simp

lemma js_keys_set: "js_keys (js_set k v m) = (if k \<in> set (js_keys m) then js_keys m else js_keys m @ [k])"
proof (cases "k \<in> set (js_keys m)")
  case True
  then show ?thesis by (induction m) (auto simp: js_keys_def js_set_def)
next
  case False
  then show ?thesis by (simp add: js_set_fresh js_get_None_keys) (simp add: js_keys_def)
qed

lemma js_keys_delete: "js_keys (js_delete k m) = filter (\<lambda>j. j \<noteq> k) (js_keys m)"
  by (induction m) (auto simp: js_keys_def js_delete_def AList.delete_eq)

lemma changed_in_refl [simp]: "js_wf m \<Longrightarrow> changed_in K m m"
  by (simp add: changed_in_def)

lemma changed_in_mono: "changed_in K m m' \<Longrightarrow> K \<subseteq> L \<Longrightarrow> changed_in L m m'"
  by (auto simp: changed_in_def)

lemma changed_in_set: "changed_in K m m' \<Longrightarrow> k \<in> K \<Longrightarrow> changed_in K m (js_set k v m')"
  by (auto simp: changed_in_def js_keys_set)

lemma changed_in_delete:
  assumes "changed_in K m m'" "js_get m k = None" shows "changed_in (K - {k}) m (js_delete k m')"
proof -
  from assms obtain ext where "js_wf m'" "\<And>j. j \<notin> K \<Longrightarrow> js_get m' j = js_get m j" "js_keys m' = js_keys m @ ext"
    unfolding changed_in_def by blast
  moreover from assms(2) have "filter (\<lambda>j. j \<noteq> k) (js_keys m) = js_keys m" by (auto simp: js_get_None_keys filter_id_conv)
  ultimately show ?thesis using assms(2) by (auto simp: changed_in_def js_keys_delete)
qed

lemma changed_in_restore:
  assumes "changed_in K m m'" shows "changed_in (K - {k}) m (restore_entry k (js_get m k) m')"
proof (cases "js_get m k")
  case None
  then show ?thesis using changed_in_delete [OF assms None] by (simp add: restore_entry_def)
next
  case (Some v)
  then have "k \<in> set (js_keys m)" by (metis js_get_None_keys option.simps(3))
  with assms Some show ?thesis by (auto simp: restore_entry_def changed_in_def js_keys_set)
qed

lemma changed_in_empty:
  assumes "js_wf m" "changed_in {} m m'" shows "m' = m"
proof -
  from assms(2) obtain ext where wf: "js_wf m'" and get: "\<And>k. js_get m' k = js_get m k" and keys: "js_keys m' = js_keys m @ ext"
    unfolding changed_in_def by auto
  have "ext = []"
  proof (rule ccontr)
    assume "ext \<noteq> []"
    then obtain k where k: "k \<in> set ext" by (cases ext) auto
    with wf keys have "k \<notin> set (js_keys m)" by (auto simp: js_wf_def)
    then have "js_get m' k = None" using get by (simp add: js_get_None_keys)
    with k keys show False by (simp add: js_get_None_keys)
  qed
  with keys get wf assms(1) show ?thesis by (intro js_map_eqI) simp_all
qed

lemma restore_same: "js_wf m \<Longrightarrow> restore_entry k (js_get m k) m = m"
  using changed_in_empty changed_in_restore [of "{}" m m k] by simp

lemma restore_one: "js_wf m \<Longrightarrow> changed_in {k} m m' \<Longrightarrow> restore_entry k (js_get m k) m' = m"
  using changed_in_empty changed_in_restore [of "{k}" m m' k] by simp

definition no_empty_values :: "('k, string) js_map \<Rightarrow> bool" where
  "no_empty_values m \<longleftrightarrow> (\<forall>k. js_get m k \<noteq> Some [])"

lemma truthy_values: "no_empty_values m \<Longrightarrow> if_truthy (js_get m k) = js_get m k"
  by (cases "js_get m k") (auto simp: no_empty_values_def if_truthy_def)

lemma restore_index_all:
  assumes "js_wf m" "no_empty_values m"
  shows "changed_in K m m' \<Longrightarrow> changed_in (K - set ks) m (restore_index (map (\<lambda>k. (k, js_get m k)) ks) m')"
proof (induction ks arbitrary: K m')
  case (Cons k ks)
  have "changed_in (K - {k} - set ks) m (restore_index (map (\<lambda>k. (k, js_get m k)) ks) (restore_entry k (js_get m k) m'))"
    by (rule Cons.IH [OF changed_in_restore [OF Cons.prems]])
  moreover have "K - {k} - set ks = K - set (k # ks)" by auto
  ultimately show ?case by (simp add: truthy_values [OF assms(2)])
qed simp

section \<open>Restoring class entitlements\<close>

text \<open>
  Every record is found through the order line and the intent it was stored under, and no index
  entry dangles.
\<close>

definition classes_ok :: "ent_repo \<Rightarrow> bool" where
  "classes_ok r \<longleftrightarrow> js_wf (en_entitlements r) \<and> js_wf (en_byOrderLine r) \<and> js_wf (en_byIntent r) \<and>
     no_empty_values (en_byOrderLine r) \<and> no_empty_values (en_byIntent r) \<and>
     (\<forall>k v. js_get (en_byOrderLine r) k = Some v \<longrightarrow> js_get (en_entitlements r) v \<noteq> None)"

definition new_ids :: "string set \<Rightarrow> ent_repo \<Rightarrow> ent_repo \<Rightarrow> string set" where
  "new_ids K old r = {v. \<exists>k \<in> K. js_get (en_byOrderLine old) k = None \<and> js_get (en_byOrderLine r) k = Some v}"

text \<open>What creations for order lines of \<open>K\<close> leave.\<close>

definition grown :: "string set \<Rightarrow> string set \<Rightarrow> ent_repo \<Rightarrow> ent_repo \<Rightarrow> bool" where
  "grown K I old r \<longleftrightarrow> changed_in K (en_byOrderLine old) (en_byOrderLine r) \<and>
     changed_in (new_ids K old r) (en_entitlements old) (en_entitlements r) \<and>
     (\<forall>v \<in> new_ids K old r. js_get (en_entitlements old) v = None \<and> v \<noteq> []) \<and>
     changed_in I (en_byIntent old) (en_byIntent r) \<and> en_byIntentLine r = en_byIntentLine old"

lemma grown_refl: "classes_ok r \<Longrightarrow> grown K I r r"
  by (auto simp: grown_def classes_ok_def new_ids_def)

lemma restore_line:
  assumes old: "classes_ok old" and r: "grown K I old r"
  shows "grown (K - {k}) I old (restore_lines [(k, js_get (en_byOrderLine old) k)] r)"
proof (cases "js_get (en_byOrderLine old) k")
  case (Some v)
  with old have t: "if_truthy (Some v) = Some v" by (metis truthy_values classes_ok_def)
  let ?r = "restore_lines [(k, Some v)] r"
  have ents: "en_entitlements ?r = en_entitlements r" and idx: "en_byOrderLine ?r = restore_entry k (Some v) (en_byOrderLine r)"
    and rest: "en_byIntent ?r = en_byIntent r" "en_byIntentLine ?r = en_byIntentLine r" by (simp_all add: t)
  have new: "new_ids (K - {k}) old ?r = new_ids K old r"
    unfolding new_ids_def idx using Some by (auto simp: restore_entry_def)
  have "changed_in (K - {k}) (en_byOrderLine old) (en_byOrderLine ?r)"
    unfolding idx using changed_in_restore [of K "en_byOrderLine old" "en_byOrderLine r" k] r Some by (simp add: grown_def)
  then show ?thesis using r unfolding grown_def Some new ents rest by blast
next
  case None
  let ?r = "restore_lines [(k, None)] r"
  have idx: "en_byOrderLine ?r = js_delete k (en_byOrderLine r)"
    and rest: "en_byIntent ?r = en_byIntent r" "en_byIntentLine ?r = en_byIntentLine r"
    by (simp_all add: restore_entry_def if_truthy_def)
  have line: "changed_in (K - {k}) (en_byOrderLine old) (en_byOrderLine ?r)"
    unfolding idx using changed_in_delete [OF _ None] r by (simp add: grown_def)
  have sub: "new_ids (K - {k}) old ?r \<subseteq> new_ids K old r" unfolding new_ids_def idx by (auto split: if_splits)
  have ents: "changed_in (new_ids (K - {k}) old ?r) (en_entitlements old) (en_entitlements ?r)"
  proof (cases "js_get (en_byOrderLine r) k")
    case n: None
    have "k \<notin> K \<or> new_ids (K - {k}) old ?r = new_ids K old r" using n unfolding new_ids_def idx by auto
    moreover have "k \<notin> K \<Longrightarrow> new_ids (K - {k}) old ?r = new_ids K old r" unfolding new_ids_def idx by auto
    moreover have "en_entitlements ?r = en_entitlements r" using n by (simp add: if_truthy_def)
    ultimately show ?thesis using r by (auto simp: grown_def)
  next
    case (Some v)
    show ?thesis
    proof (cases "k \<in> K")
      case True
      with None Some have v: "v \<in> new_ids K old r" by (auto simp: new_ids_def)
      with r have fresh: "js_get (en_entitlements old) v = None" "v \<noteq> []" by (auto simp: grown_def)
      have del: "en_entitlements ?r = js_delete v (en_entitlements r)" using Some fresh by (simp add: if_truthy_def)
      have "new_ids K old r - {v} \<subseteq> new_ids (K - {k}) old ?r"
        using Some unfolding new_ids_def idx by auto
      moreover have "changed_in (new_ids K old r - {v}) (en_entitlements old) (js_delete v (en_entitlements r))"
        using changed_in_delete [OF _ fresh(1)] r by (simp add: grown_def)
      ultimately show ?thesis unfolding del by (rule changed_in_mono [rotated])
    next
      case False
      with r None have "js_get (en_byOrderLine r) k = None" by (simp add: grown_def changed_in_def)
      with Some show ?thesis by simp
    qed
  qed
  show ?thesis using r line ents sub unfolding grown_def None rest by blast
qed

lemma restore_lines_append: "restore_lines (xs @ ys) r = restore_lines ys (restore_lines xs r)"
  by (induction xs arbitrary: r) (auto split: prod.splits)

lemma restore_lines_all:
  assumes "classes_ok old" "grown K I old r"
  shows "grown (K - set ks) I old (restore_lines (map (\<lambda>k. (k, js_get (en_byOrderLine old) k)) ks) r)"
  using assms(2)
proof (induction ks arbitrary: K r)
  case (Cons k ks)
  have "grown (K - {k} - set ks) I old
      (restore_lines (map (\<lambda>k. (k, js_get (en_byOrderLine old) k)) ks) (restore_lines [(k, js_get (en_byOrderLine old) k)] r))"
    by (rule Cons.IH [OF restore_line [OF assms(1) Cons.prems]])
  moreover have "K - {k} - set ks = K - set (k # ks)" by auto
  ultimately show ?case by (simp flip: restore_lines_append)
qed simp

lemma restore_classes_exact:
  assumes "classes_ok old" "grown (class_line_key ` set (class_inputs i)) (class_intent_key ` set (class_inputs i)) old r"
  shows "restore_classes i old r = old"
proof -
  let ?r = "restore_lines (map (\<lambda>x. (class_line_key x, js_get (en_byOrderLine old) (class_line_key x))) (class_inputs i)) r"
  let ?ks = "js_uniq (map class_intent_key (class_inputs i))"
  have g: "grown {} (class_intent_key ` set (class_inputs i)) old ?r"
    using restore_lines_all [OF assms, of "map class_line_key (class_inputs i)"] by (simp add: o_def)
  then have "new_ids {} old ?r = {}" by (simp add: new_ids_def)
  with g have e: "en_entitlements ?r = en_entitlements old" "en_byOrderLine ?r = en_byOrderLine old" "en_byIntentLine ?r = en_byIntentLine old"
    using assms(1) by (auto simp: grown_def classes_ok_def intro: changed_in_empty)
  have ok: "js_wf (en_byIntent old)" "no_empty_values (en_byIntent old)" using assms(1) by (simp_all add: classes_ok_def)
  have "changed_in (set ?ks) (en_byIntent old) (en_byIntent ?r)" using g by (simp add: grown_def)
  from restore_index_all [OF ok this, of ?ks]
  have "restore_index (map (\<lambda>k. (k, js_get (en_byIntent old) k)) ?ks) (en_byIntent ?r) = en_byIntent old"
    using changed_in_empty [OF ok(1)] by simp
  with e show ?thesis unfolding restore_classes_def Let_def by simp
qed

section \<open>What a failed finalization leaves\<close>

lemma grown_store:
  assumes old: "classes_ok old" and r: "grown K I old r" "\<And>k v. js_get (en_byOrderLine old) k = Some v \<Longrightarrow> js_get (en_byOrderLine r) k = Some v"
    and e: "nul_key (ce_organizationId e) (ce_shopifyOrderLineGid e) \<in> K" "nul_key (ce_organizationId e) (ce_checkoutIntentId e) \<in> I"
      "js_get (en_entitlements old) (ce_id e) = None" "ce_id e \<noteq> []"
    and none: "indexed_entitlement (en_byOrderLine r) (nul_key (ce_organizationId e) (ce_shopifyOrderLineGid e)) r = None"
  shows "grown K I old (store_class_entitlement e r) \<and>
    (\<forall>k v. js_get (en_byOrderLine old) k = Some v \<longrightarrow> js_get (en_byOrderLine (store_class_entitlement e r)) k = Some v)"
proof -
  let ?k = "nul_key (ce_organizationId e) (ce_shopifyOrderLineGid e)" and ?r = "store_class_entitlement e r"
  have fresh: "js_get (en_byOrderLine old) ?k = None"
  proof (rule ccontr)
    assume "js_get (en_byOrderLine old) ?k \<noteq> None"
    then obtain v where v: "js_get (en_byOrderLine old) ?k = Some v" by blast
    with old have "js_get (en_entitlements old) v \<noteq> None" "v \<noteq> []" by (auto simp: classes_ok_def no_empty_values_def)
    moreover have "v \<notin> new_ids K old r" using r(1) \<open>js_get (en_entitlements old) v \<noteq> None\<close> by (auto simp: grown_def)
    ultimately have "js_get (en_entitlements r) v \<noteq> None" using r(1) by (simp add: grown_def changed_in_def)
    with none r(2) [OF v] \<open>v \<noteq> []\<close> show False by (simp add: indexed_entitlement_def if_truthy_def)
  qed
  have idx: "js_get (en_byOrderLine ?r) k = (if k = ?k then Some (ce_id e) else js_get (en_byOrderLine r) k)" for k
    by (simp add: store_class_entitlement_def)
  have new: "new_ids K old ?r \<subseteq> insert (ce_id e) (new_ids K old r)" "ce_id e \<in> new_ids K old ?r"
    using e(1) fresh by (auto simp: new_ids_def idx split: if_splits)
  have "js_get (en_entitlements ?r) v = js_get (en_entitlements old) v" if "v \<notin> new_ids K old ?r" for v
  proof (cases "v \<in> new_ids K old r")
    case True
    text \<open>The id was that of the line before, which its index entry no longer names.\<close>
    then obtain k where "k \<in> K" "js_get (en_byOrderLine old) k = None" "js_get (en_byOrderLine r) k = Some v" by (auto simp: new_ids_def)
    with that have k: "k = ?k" by (auto simp: new_ids_def idx split: if_splits)
    have "v \<noteq> []" "js_get (en_entitlements old) v = None" using True r(1) by (auto simp: grown_def)
    moreover have "js_get (en_entitlements r) v = None"
      using none \<open>js_get (en_byOrderLine r) k = Some v\<close> \<open>v \<noteq> []\<close> by (simp add: k indexed_entitlement_def if_truthy_def)
    ultimately show ?thesis using that new(2) by (auto simp: store_class_entitlement_def)
  next
    case False
    with that new(2) r(1) show ?thesis by (auto simp: store_class_entitlement_def grown_def changed_in_def)
  qed
  moreover have "\<exists>ext. js_keys (en_entitlements ?r) = js_keys (en_entitlements old) @ ext" "js_wf (en_entitlements ?r)"
    using r(1) by (auto simp: store_class_entitlement_def grown_def changed_in_def js_keys_set)
  ultimately have "changed_in (new_ids K old ?r) (en_entitlements old) (en_entitlements ?r)" unfolding changed_in_def by blast
  moreover have "changed_in K (en_byOrderLine old) (en_byOrderLine ?r)" "changed_in I (en_byIntent old) (en_byIntent ?r)"
    "en_byIntentLine ?r = en_byIntentLine old"
    using r(1) e by (auto simp: grown_def store_class_entitlement_def intro: changed_in_set)
  moreover have "\<forall>v \<in> new_ids K old ?r. js_get (en_entitlements old) v = None \<and> v \<noteq> []" using new(1) r(1) e by (auto simp: grown_def)
  ultimately show ?thesis using r(2) fresh unfolding grown_def by (auto simp: idx)
qed

text \<open>The entitlement ids that the environment hands out are new.\<close>

definition fresh_entitlement_ids :: "commerce_env \<Rightarrow> ent_repo \<Rightarrow> bool" where
  "fresh_entitlement_ids env r \<longleftrightarrow> (\<forall>line. ke_entitlementId env line \<noteq> [] \<and> js_get (en_entitlements r) (ke_entitlementId env line) = None)"

definition line_ids :: "class_entitlement_input list \<Rightarrow> string list" where
  "line_ids xs = concat (map (\<lambda>x. case if_truthy (ci_checkoutIntentLineId x) of Some l \<Rightarrow> [l] | None \<Rightarrow> []) xs)"

lemma line_ids_mem: "x \<in> set xs \<Longrightarrow> if_truthy (ci_checkoutIntentLineId x) = Some l \<Longrightarrow> l \<in> set (line_ids xs)"
  by (force simp: line_ids_def)

text \<open>\<open>s'\<close> comes from \<open>s\<close> by creations for the inputs \<open>xs\<close>.\<close>

definition created_for :: "commerce_env \<Rightarrow> class_entitlement_input list \<Rightarrow> commerce_state \<Rightarrow> commerce_state \<Rightarrow> bool" where
  "created_for env xs s s' \<longleftrightarrow>
     (let old = co_classes (cs_commerce s); r = co_classes (cs_commerce s') in
      grown (class_line_key ` set xs) (class_intent_key ` set xs) old r \<and>
      (\<forall>k v. js_get (en_byOrderLine old) k = Some v \<longrightarrow> js_get (en_byOrderLine r) k = Some v) \<and>
      cs_commerce s' = (cs_commerce s)\<lparr>co_classes := r\<rparr> \<and> cs_grants s' = cs_grants s \<and>
      relinked (map ci_checkoutIntentId xs) (line_ids xs) (cs_checkout s) (cs_checkout s') \<and> metadata_ok (cs_checkout s') \<and>
      (\<not> ke_hasCheckout env \<longrightarrow> cs_checkout s' = cs_checkout s))"

lemma created_refl: "classes_ok (co_classes (cs_commerce s)) \<Longrightarrow> metadata_ok (cs_checkout s) \<Longrightarrow> created_for env xs s s"
  by (simp add: created_for_def grown_refl relinked_refl)

lemma create_unlocked_cases:
  assumes "create_class_entitlement_unlocked i uuid now r = (res, r')"
  obtains (same) "r' = r"
    | (new) "ci_id i = None \<longrightarrow> res = Inr (new_entitlement i uuid now)" "\<exists>e. res = Inr e \<and> r' = store_class_entitlement e r"
        "indexed_entitlement (en_byOrderLine r) (class_line_key i) r = None"
  using assms
  by (auto simp: create_class_entitlement_unlocked_def Let_def class_line_key_def split: sum.splits option.splits)

lemma new_entitlement_sel [simp]:
  "ce_id (new_entitlement i eid t) = eid" "ce_organizationId (new_entitlement i eid t) = ci_organizationId i"
  "ce_shopifyOrderLineGid (new_entitlement i eid t) = ci_shopifyOrderLineGid i"
  "ce_checkoutIntentId (new_entitlement i eid t) = ci_checkoutIntentId i"
  by (simp_all add: new_entitlement_def)

lemma create_classes_created:
  assumes ok: "classes_ok (co_classes (cs_commerce s0))" "metadata_ok (cs_checkout s0)"
    and fresh: "fresh_entitlement_ids env (co_classes (cs_commerce s0))"
  shows "set ys \<subseteq> set xs \<Longrightarrow> \<forall>y \<in> set ys. ci_id y = None \<Longrightarrow> created_for env xs s0 s \<Longrightarrow>
    created_for env xs s0 (snd (create_classes env ys s))"
proof (induction ys arbitrary: s)
  case (Cons y ys)
  let ?old = "co_classes (cs_commerce s0)"
  obtain res r where run: "create_class_entitlement_unlocked y (ke_entitlementId env (ci_shopifyOrderLineGid y)) (to_iso (ke_now env))
      (co_classes (cs_commerce s)) = (res, r)" by (meson surj_pair)
  have y: "y \<in> set xs" "ci_id y = None" using Cons.prems by auto
  show ?case
  proof (cases res)
    case (Inl e)
    with run Cons.prems show ?thesis by simp
  next
    case (Inr e)
    have r: "grown (class_line_key ` set xs) (class_intent_key ` set xs) ?old r \<and>
        (\<forall>k v. js_get (en_byOrderLine ?old) k = Some v \<longrightarrow> js_get (en_byOrderLine r) k = Some v)"
      using run
    proof (cases rule: create_unlocked_cases)
      case same
      with Cons.prems(3) show ?thesis by (simp add: created_for_def Let_def)
    next
      case new
      with y Inr have e: "e = new_entitlement y (ke_entitlementId env (ci_shopifyOrderLineGid y)) (to_iso (ke_now env))" "r = store_class_entitlement e (co_classes (cs_commerce s))"
        by auto
      show ?thesis unfolding e(2)
        by (rule grown_store [OF ok(1)])
          (use Cons.prems(3) y fresh new(3) in \<open>simp_all add: e(1) created_for_def Let_def class_line_key_def class_intent_key_def fresh_entitlement_ids_def\<close>)
    qed
    let ?s = "link_entitlement env y e (s\<lparr>cs_commerce := (cs_commerce s)\<lparr>co_classes := r\<rparr>\<rparr>)"
    have link: "relinked (map ci_checkoutIntentId xs) (line_ids xs) (cs_checkout s0) (cs_checkout ?s) \<and> metadata_ok (cs_checkout ?s) \<and>
        (\<not> ke_hasCheckout env \<longrightarrow> cs_checkout ?s = cs_checkout s0)"
    proof (cases "\<not> ke_hasCheckout env \<or> ci_checkoutIntentId y = []")
      case True
      with Cons.prems(3) show ?thesis by (simp add: created_for_def Let_def link_entitlement_def)
    next
      case False
      have scope: "call_in_scope (map ci_checkoutIntentId xs) (line_ids xs) (Some (ci_checkoutIntentId y), ci_checkoutIntentLineId y, ce_id e)"
        using y(1) line_ids_mem [OF y(1)] by (auto simp: call_in_scope_def split: option.splits)
      from False have "cs_checkout ?s = link_call (cs_checkout s) (Some (ci_checkoutIntentId y), ci_checkoutIntentLineId y, ce_id e)"
        by (simp add: link_call_def link_entitlement_def)
      then show ?thesis using link_call_relinked [OF ok(2) _ _ scope] Cons.prems(3) False
        by (auto simp: created_for_def Let_def link_call_def intro: link_metadata_ok)
    qed
    have grants: "cs_grants s = cs_grants s0" using Cons.prems(3) unfolding created_for_def Let_def by blast
    have "cs_commerce s = (cs_commerce s0)\<lparr>co_classes := co_classes (cs_commerce s)\<rparr>"
      using Cons.prems(3) unfolding created_for_def Let_def by blast
    then have same: "(cs_commerce s)\<lparr>co_classes := r\<rparr> = (cs_commerce s0)\<lparr>co_classes := r\<rparr>"
      by (cases "cs_commerce s0"; cases "cs_commerce s"; simp)
    have "cs_commerce ?s = (cs_commerce s)\<lparr>co_classes := r\<rparr>" "cs_grants ?s = cs_grants s" by (simp_all add: link_entitlement_def)
    then have "cs_commerce ?s = (cs_commerce s0)\<lparr>co_classes := r\<rparr>" "cs_grants ?s = cs_grants s0" "co_classes (cs_commerce ?s) = r"
      unfolding same grants by simp_all
    with r link have "created_for env xs s0 ?s" unfolding created_for_def Let_def by simp
    with Cons.IH [of ?s] Cons.prems(1,2) have "created_for env xs s0 (snd (create_classes env ys ?s))" by simp
    moreover obtain res' s' where "create_classes env ys ?s = (res', s')" by (meson surj_pair)
    ultimately show ?thesis using run Inr by (cases res') simp_all
  qed
qed simp

text \<open>The maps have distinct keys and no entry of an index is empty.\<close>

definition commerce_ok :: "commerce \<Rightarrow> bool" where
  "commerce_ok c \<longleftrightarrow> js_wf (co_deliveries c) \<and> js_wf (co_projections c) \<and> js_wf (co_decisions c) \<and>
     js_wf (co_decisionsByLine c) \<and> js_wf (co_decisionsByIntent c) \<and>
     no_empty_values (co_decisionsByLine c) \<and> no_empty_values (co_decisionsByIntent c) \<and> classes_ok (co_classes c)"

text \<open>A state that an error leaves: nothing but the projection of the order, the class entitlements and the links changed.\<close>

definition half_done :: "commerce_env \<Rightarrow> finalize_input \<Rightarrow> commerce_state \<Rightarrow> commerce_state \<Rightarrow> bool" where
  "half_done env i s s' \<longleftrightarrow>
     (\<exists>p r. cs_commerce s' = (cs_commerce s)\<lparr>co_projections := p, co_classes := r\<rparr> \<and>
        changed_in {order_key (fi_decision i)} (co_projections (cs_commerce s)) p \<and>
        grown (class_line_key ` set (class_inputs i)) (class_intent_key ` set (class_inputs i)) (co_classes (cs_commerce s)) r) \<and>
     relinked (map ci_checkoutIntentId (class_inputs i)) (line_ids (class_inputs i)) (cs_checkout s) (cs_checkout s') \<and>
     (\<not> ke_hasCheckout env \<longrightarrow> cs_checkout s' = cs_checkout s)"

lemma half_done_refl: "commerce_ok (cs_commerce s) \<Longrightarrow> half_done env i s s"
  unfolding half_done_def
  by (intro conjI exI [of _ "co_projections (cs_commerce s)"] exI [of _ "co_classes (cs_commerce s)"])
    (simp_all add: commerce_ok_def grown_refl relinked_refl)

lemma create_paid_error:
  assumes ok: "commerce_ok (cs_commerce s)" "metadata_ok (cs_checkout s)" "fresh_entitlement_ids env (co_classes (cs_commerce s))"
    "\<forall>x \<in> set (class_inputs i). ci_id x = None"
    and run: "create_paid env i s = (Inl e, s')"
  shows "created_for env (class_inputs i) s (s'\<lparr>cs_grants := cs_grants s\<rparr>)"
proof -
  have refl: "created_for env (class_inputs i) s s" by (rule created_refl) (use ok in \<open>simp_all add: commerce_ok_def\<close>)
  have made: "created_for env (class_inputs i) s (snd (create_classes env (class_inputs i) s))"
    by (rule create_classes_created) (use ok refl in \<open>simp_all add: commerce_ok_def\<close>)
  have grants: "cs_grants (snd (create_classes env (class_inputs i) s)) = cs_grants s"
    using made by (simp add: created_for_def Let_def)
  have "s'\<lparr>cs_grants := cs_grants s\<rparr> = s \<or> s' = snd (create_classes env (class_inputs i) s)"
    using run by (auto simp: create_paid_def Let_def act_bind_def split: if_splits option.splits prod.splits sum.splits)
  then show ?thesis
  proof
    assume "s' = snd (create_classes env (class_inputs i) s)"
    with made grants show ?thesis by (metis commerce_state.surjective commerce_state.update_convs(3) commerce_state.select_convs(3))
  qed (use refl in simp)
qed

lemma decide_error:
  assumes ok: "commerce_ok (cs_commerce s)" "metadata_ok (cs_checkout s)" "fresh_entitlement_ids env (co_classes (cs_commerce s))"
    "\<forall>x \<in> set (class_inputs i). ci_id x = None"
    and run: "decide env i existing s = (Inl e, s')"
  shows "half_done env i s s'"
proof -
  let ?c = "cs_commerce s" and ?di = "fi_decision i"
  define p where "p = (case fi_projection i of Some q \<Rightarrow> co_projections (snd (upsert_order_projection q ?c)) | None \<Rightarrow> co_projections ?c)"
  let ?s = "s\<lparr>cs_commerce := ?c\<lparr>co_projections := p\<rparr>\<rparr>"
  have up: "snd (upsert_order_projection q ?c) = ?c\<lparr>co_projections := co_projections (snd (upsert_order_projection q ?c))\<rparr>" for q
    by (simp add: upsert_order_projection_def Let_def)
  from run consider "s' = s" | "create_paid env i ?s = (Inl e, s')"
      "\<forall>q. fi_projection i = Some q \<longrightarrow> pi_organizationId q = de_organizationId ?di \<and> pi_shopifyOrderGid q = de_shopifyOrderGid ?di"
    unfolding decide_def Let_def
    by (cases "fi_projection i")
      (auto simp: act_bind_def on_commerce_def p_def up [symmetric] guard_def split: if_splits option.splits prod.splits sum.splits)
  then show ?thesis
  proof cases
    case 1
    with ok(1) show ?thesis by (simp add: half_done_refl)
  next
    case 2
    have "changed_in {order_key ?di} (co_projections ?c) p"
      using ok(1) 2(2) by (auto simp: p_def commerce_ok_def upsert_order_projection_def Let_def order_key_def intro: changed_in_set split: option.splits)
    moreover have "commerce_ok (cs_commerce ?s)"
      using ok(1) calculation by (auto simp: commerce_ok_def changed_in_def)
    then have "created_for env (class_inputs i) ?s (s'\<lparr>cs_grants := cs_grants ?s\<rparr>)"
      by (rule create_paid_error) (use ok 2 in simp_all)
    ultimately show ?thesis unfolding created_for_def half_done_def Let_def
      by (intro conjI exI [of _ p] exI [of _ "co_classes (cs_commerce s')"]) simp_all
  qed
qed

lemma finalize_error:
  assumes ok: "commerce_ok (cs_commerce s)" "metadata_ok (cs_checkout s)" "fresh_entitlement_ids env (co_classes (cs_commerce s))"
    "\<forall>x \<in> set (class_inputs i). ci_id x = None"
    and run: "finalize_internal env i s = (Inl e, s')"
  shows "half_done env i s s'"
proof -
  have "s' = s \<or> (\<exists>d. decide env i d s = (Inl e, s'))"
    using run
    by (auto simp: finalize_internal_def act_bind_def decide_order_def answer_existing_def answer_decided_def Let_def
        split: if_splits option.splits prod.splits sum.splits)
  then show ?thesis using half_done_refl [OF ok(1)] decide_error [OF ok] by blast
qed

lemma roll_back_exact:
  assumes "commerce_ok (cs_commerce s)" "metadata_ok (cs_checkout s)" "half_done env i s s'"
  shows "cs_commerce (roll_back env i s s') = cs_commerce s" "cs_checkout (roll_back env i s s') = cs_checkout s"
proof -
  let ?c = "cs_commerce s" and ?order = "order_key (fi_decision i)"
  from assms(3) obtain p r where c': "cs_commerce s' = ?c\<lparr>co_projections := p, co_classes := r\<rparr>"
    and p: "changed_in {?order} (co_projections ?c) p"
    and r: "grown (class_line_key ` set (class_inputs i)) (class_intent_key ` set (class_inputs i)) (co_classes ?c) r"
    and links: "relinked (map ci_checkoutIntentId (class_inputs i)) (line_ids (class_inputs i)) (cs_checkout s) (cs_checkout s')"
      "\<not> ke_hasCheckout env \<Longrightarrow> cs_checkout s' = cs_checkout s"
    unfolding half_done_def by blast
  note ok = assms(1) [unfolded commerce_ok_def]
  have classes: "restore_classes i (co_classes ?c) r = co_classes ?c" by (rule restore_classes_exact [OF _ r]) (use ok in simp)
  have projections: "restore_entry ?order (js_get (co_projections ?c) ?order) p = co_projections ?c"
    by (rule restore_one [OF _ p]) (use ok in simp)
  have idx: "(case key of None \<Rightarrow> m | Some k \<Rightarrow> restore_entry k (if_truthy (js_get m k)) m) = m"
    if "js_wf m" "no_empty_values m" for key and m :: "(string, string) js_map"
    using that by (cases key) (simp_all add: truthy_values restore_same)
  have deliveries: "(case js_get (co_deliveries ?c) d of None \<Rightarrow> co_deliveries ?c | Some v \<Rightarrow> js_set d v (co_deliveries ?c)) = co_deliveries ?c" for d
    using restore_same [of "co_deliveries ?c" d] ok by (cases "js_get (co_deliveries ?c) d") (simp_all add: restore_entry_def)
  show "cs_commerce (roll_back env i s s') = ?c"
    by (rule commerce.equality) (use ok in \<open>simp_all add: roll_back_def Let_def c' classes projections idx deliveries restore_same cong: option.case_cong\<close>)
  show "cs_checkout (roll_back env i s s') = cs_checkout s"
    using links restore_snapshot [OF assms(2) links(1)]
    by (simp add: roll_back_def Let_def restore_links_def line_ids_def)
qed

section \<open>Reachable states\<close>

definition empty_commerce_state :: commerce_state where
  "empty_commerce_state = \<lparr>cs_commerce = empty_commerce, cs_checkout = empty_checkout_repo, cs_grants = empty_grants_repo\<rparr>"

text \<open>\<open>cm_elsewhere\<close>: what the other services do to the checkout repository and to the grants.\<close>

inductive commerce_reachable :: "commerce_state \<Rightarrow> bool" where
  cm_empty: "commerce_reachable empty_commerce_state"
| cm_elsewhere: "commerce_reachable s \<Longrightarrow> checkout_reachable t ck \<Longrightarrow> commerce_reachable (s\<lparr>cs_checkout := ck, cs_grants := g\<rparr>)"
| cm_record: "commerce_reachable s \<Longrightarrow> uuid \<noteq> [] \<Longrightarrow> commerce_reachable (s\<lparr>cs_commerce := snd (record_delivery d uuid (cs_commerce s))\<rparr>)"
| cm_delivery: "commerce_reachable s \<Longrightarrow> commerce_reachable (s\<lparr>cs_commerce := change_delivery did f (cs_commerce s)\<rparr>)"
| cm_reclaim: "commerce_reachable s \<Longrightarrow>
    commerce_reachable (s\<lparr>cs_commerce := snd (list_reclaimable_deliveries org limit stale now (cs_commerce s))\<rparr>)"
| cm_projection: "commerce_reachable s \<Longrightarrow> commerce_reachable (s\<lparr>cs_commerce := snd (upsert_order_projection p (cs_commerce s))\<rparr>)"
| cm_pending: "commerce_reachable s \<Longrightarrow>
    commerce_reachable (s\<lparr>cs_commerce := snd (record_pending_decision org order t uuid (cs_commerce s))\<rparr>)"
| cm_run: "commerce_reachable s \<Longrightarrow> commerce_reachable (s\<lparr>cs_commerce := snd (record_reconciliation_run run (cs_commerce s))\<rparr>)"
| cm_class: "commerce_reachable s \<Longrightarrow> ci_id x = None \<Longrightarrow> uuid \<noteq> [] \<Longrightarrow>
    commerce_reachable (s\<lparr>cs_commerce := (cs_commerce s)\<lparr>co_classes := snd (create_class_entitlement_unlocked x uuid t (co_classes (cs_commerce s)))\<rparr>\<rparr>)"
| cm_status: "commerce_reachable s \<Longrightarrow>
    commerce_reachable (s\<lparr>cs_commerce := (cs_commerce s)\<lparr>co_classes := snd (update_commerce_class_status org eid st t (co_classes (cs_commerce s)))\<rparr>\<rparr>)"
| cm_finalize: "commerce_reachable s \<Longrightarrow> fresh_entitlement_ids env (co_classes (cs_commerce s)) \<Longrightarrow> \<forall>x \<in> set (class_inputs i). ci_id x = None \<Longrightarrow>
    commerce_reachable (snd (finalize_decision env i pending s))"
| cm_manual: "commerce_reachable s \<Longrightarrow> commerce_reachable (snd (resolve_decision_manually env m uuid s))"

lemma nul_key_nonempty [simp]: "nul_key a b \<noteq> []"
  by (simp add: nul_key_def)

lemma no_empty_set [simp]: "no_empty_values m \<Longrightarrow> v \<noteq> [] \<Longrightarrow> no_empty_values (js_set k v m)"
  by (simp add: no_empty_values_def)

lemma store_ok: "classes_ok r \<Longrightarrow> ce_id e \<noteq> [] \<Longrightarrow> classes_ok (store_class_entitlement e r)"
  by (auto simp: classes_ok_def store_class_entitlement_def)

lemma create_unlocked_ok: "classes_ok r \<Longrightarrow> ci_id x = None \<Longrightarrow> uuid \<noteq> [] \<Longrightarrow> classes_ok (snd (create_class_entitlement_unlocked x uuid t r))"
  by (auto simp: create_class_entitlement_unlocked_def Let_def store_ok split: sum.splits option.splits)

lemma class_status_ok: "classes_ok r \<Longrightarrow> classes_ok (snd (update_commerce_class_status org eid st t r))"
  by (auto simp: update_commerce_class_status_def classes_ok_def Let_def split: option.splits)

definition state_ok :: "commerce_state \<Rightarrow> bool" where
  "state_ok s \<longleftrightarrow> commerce_ok (cs_commerce s) \<and> metadata_ok (cs_checkout s)"

lemma link_entitlement_ok: "state_ok s \<Longrightarrow> state_ok (link_entitlement env x e s)"
  by (simp add: state_ok_def link_entitlement_def link_metadata_ok)

lemma create_classes_ok:
  "state_ok s \<Longrightarrow> \<forall>x \<in> set xs. ci_id x = None \<Longrightarrow> \<forall>l. ke_entitlementId env l \<noteq> [] \<Longrightarrow> state_ok (snd (create_classes env xs s))"
proof (induction xs arbitrary: s)
  case (Cons x xs)
  obtain res r where run: "create_class_entitlement_unlocked x (ke_entitlementId env (ci_shopifyOrderLineGid x)) (to_iso (ke_now env))
      (co_classes (cs_commerce s)) = (res, r)" by (meson surj_pair)
  show ?case
  proof (cases res)
    case (Inl e)
    with run Cons.prems show ?thesis by simp
  next
    case (Inr e)
    let ?s = "link_entitlement env x e (s\<lparr>cs_commerce := (cs_commerce s)\<lparr>co_classes := r\<rparr>\<rparr>)"
    have "classes_ok r" using create_unlocked_ok [of "co_classes (cs_commerce s)" x "ke_entitlementId env (ci_shopifyOrderLineGid x)" "to_iso (ke_now env)"]
      Cons.prems run by (simp add: state_ok_def commerce_ok_def)
    then have "state_ok ?s" using Cons.prems by (intro link_entitlement_ok) (simp add: state_ok_def commerce_ok_def)
    with Cons have "state_ok (snd (create_classes env xs ?s))" by simp
    moreover obtain res' s' where "create_classes env xs ?s = (res', s')" by (meson surj_pair)
    ultimately show ?thesis using run Inr by (cases res') simp_all
  qed
qed simp

lemma state_ok_parts:
  "state_ok s \<Longrightarrow> state_ok (settle_delivery env did s)" "state_ok s \<Longrightarrow> state_ok (resolve_terminal_intent env d s)"
  "state_ok s \<Longrightarrow> state_ok (s\<lparr>cs_grants := g\<rparr>)" "state_ok s \<Longrightarrow> state_ok (s\<lparr>cs_commerce := change_delivery k f (cs_commerce s)\<rparr>)"
  by (auto simp: state_ok_def commerce_ok_def settle_delivery_def mark_delivery_processed_def change_delivery_def resolve_terminal_intent_def
      resolve_intent_def set_intent_status_def metadata_ok_def metadata_values_def split: option.splits)

lemma upsert_ok: "commerce_ok c \<Longrightarrow> commerce_ok (snd (upsert_order_projection p c))"
  by (simp add: commerce_ok_def upsert_order_projection_def Let_def)

lemma store_decision_ok: "commerce_ok c \<Longrightarrow> commerce_ok (store_decision d c)"
  by (auto simp: commerce_ok_def store_decision_def Let_def order_key_def split: option.splits)

lemma create_paid_ok:
  assumes "state_ok s" "\<forall>x \<in> set (class_inputs i). ci_id x = None" "\<forall>l. ke_entitlementId env l \<noteq> []" "create_paid env i s = (res, s')"
  shows "state_ok s'"
proof -
  have "s' = s \<or> s' = snd (create_classes env (class_inputs i) s) \<or> (\<exists>g. s' = s\<lparr>cs_grants := g\<rparr>)"
    using assms(4) by (auto simp: create_paid_def Let_def act_bind_def split: if_splits option.splits prod.splits sum.splits)
  then show ?thesis using assms(1) create_classes_ok [OF assms(1-3)] state_ok_parts(3) by auto
qed

lemma answered_ok: "state_ok s \<Longrightarrow> state_ok (settle_delivery env did (resolve_terminal_intent env d s))"
  by (intro state_ok_parts)

lemma decide_ok:
  assumes ok: "state_ok s" "\<forall>x \<in> set (class_inputs i). ci_id x = None" "\<forall>l. ke_entitlementId env l \<noteq> []"
    and run: "decide env i existing s = (res, s')"
  shows "state_ok s'"
proof -
  have up: "state_ok (s\<lparr>cs_commerce := snd (upsert_order_projection p (cs_commerce s))\<rparr>)" for p
    using ok(1) by (simp add: state_ok_def upsert_ok)
  have stored: "state_ok t \<Longrightarrow> state_ok (t\<lparr>cs_commerce := store_decision d (cs_commerce t)\<rparr>)" for t d
    by (simp add: state_ok_def store_decision_ok)
  define u where "u = (case fi_projection i of None \<Rightarrow> s | Some p \<Rightarrow> s\<lparr>cs_commerce := snd (upsert_order_projection p (cs_commerce s))\<rparr>)"
  have u: "state_ok u" using up ok(1) by (simp add: u_def split: option.splits)
  from run consider "s' = s" | e where "create_paid env i u = (Inl e, s')"
    | x t d di where "create_paid env i u = (Inr x, t)"
        "s' = settle_delivery env (fi_deliveryId i) (resolve_terminal_intent env di (t\<lparr>cs_commerce := store_decision d (cs_commerce t)\<rparr>))"
    unfolding decide_def Let_def
    by (cases "fi_projection i")
      (auto simp: act_bind_def on_commerce_def guard_def u_def split: if_splits prod.splits sum.splits)
  then show ?thesis
  proof cases
    case 2
    with ok u show ?thesis by (auto intro: create_paid_ok)
  next
    case 3
    then have "state_ok t" using ok u by (auto intro: create_paid_ok)
    then show ?thesis unfolding 3(2) by (intro answered_ok stored)
  qed (use ok in simp)
qed

lemma finalize_ok:
  assumes ok: "state_ok s" "\<forall>x \<in> set (class_inputs i). ci_id x = None" "\<forall>l. ke_entitlementId env l \<noteq> []"
    and run: "finalize_internal env i s = (res, s')"
  shows "state_ok s'"
proof -
  have "s' = s \<or> (\<exists>d did. s' = settle_delivery env did (resolve_terminal_intent env d s)) \<or> (\<exists>d. decide env i d s = (res, s'))"
    using run
    by (auto simp: finalize_internal_def act_bind_def decide_order_def answer_existing_def answer_decided_def Let_def
        split: if_splits option.splits prod.splits sum.splits)
  then show ?thesis using ok(1) answered_ok [OF ok(1)] decide_ok [OF ok] by blast
qed

lemma finalize_decision_ok:
  assumes ok: "state_ok s" "\<forall>x \<in> set (class_inputs i). ci_id x = None" "fresh_entitlement_ids env (co_classes (cs_commerce s))"
  shows "state_ok (snd (finalize_decision env i pending s))"
proof -
  obtain res s' where run: "finalize_internal env i s = (res, s')" by (meson surj_pair)
  have ids: "\<forall>l. ke_entitlementId env l \<noteq> []" using ok(3) by (simp add: fresh_entitlement_ids_def)
  have "state_ok (snd (finalize_atomically env i s))"
  proof (cases res)
    case (Inl e)
    have "half_done env i s s'" by (rule finalize_error [OF _ _ ok(3,2) run [unfolded Inl]]) (use ok(1) in \<open>simp_all add: state_ok_def\<close>)
    then show ?thesis using run Inl ok(1) roll_back_exact [of s env i s'] by (simp add: finalize_atomically_def state_ok_def)
  next
    case (Inr r)
    with run finalize_ok [OF ok(1,2) ids run] show ?thesis by (simp add: finalize_atomically_def)
  qed
  then show ?thesis using ok(1) state_ok_parts(1) by (auto simp: finalize_decision_def split: option.splits sum.splits)
qed

lemma manual_ok: "state_ok s \<Longrightarrow> state_ok (snd (resolve_decision_manually env m uuid s))"
proof -
  assume ok: "state_ok s"
  obtain res s' where run: "resolve_decision_manually env m uuid s = (res, s')" by (meson surj_pair)
  have audit: "state_ok t \<Longrightarrow> state_ok (t\<lparr>cs_commerce := (cs_commerce t)\<lparr>co_audits := a\<rparr>\<rparr>)" for t a
    by (simp add: state_ok_def commerce_ok_def)
  have stored: "state_ok t \<Longrightarrow> state_ok (t\<lparr>cs_commerce := store_decision d (cs_commerce t)\<rparr>)" for t d
    by (simp add: state_ok_def store_decision_ok)
  have up: "state_ok t \<Longrightarrow> state_ok (t\<lparr>cs_commerce := snd (upsert_order_projection p (cs_commerce t))\<rparr>)" for t p
    by (simp add: state_ok_def upsert_ok)
  have both: "state_ok t \<Longrightarrow> state_ok (t\<lparr>cs_commerce := store_decision d (snd (upsert_order_projection p (cs_commerce t)))\<rparr>)" for t d p
    by (simp add: state_ok_def upsert_ok store_decision_ok)
  have granted: "manual_grant env m s = (r, t) \<Longrightarrow> state_ok t" for r t
    using ok by (auto simp: manual_grant_def act_bind_def intro: state_ok_parts split: if_splits option.splits prod.splits sum.splits)
  from run ok have "state_ok s'"
    unfolding resolve_decision_manually_def Let_def
    by (auto simp: act_bind_def on_commerce_def intro!: audit state_ok_parts stored up both
        split: if_splits option.splits prod.splits sum.splits dest!: granted)
  then show ?thesis using run by simp
qed

lemma reachable_state_ok: "commerce_reachable s \<Longrightarrow> state_ok s"
proof (induction rule: commerce_reachable.induct)
  case cm_empty
  show ?case by (simp add: state_ok_def empty_commerce_state_def commerce_ok_def empty_commerce_def empty_ent_repo_def classes_ok_def
      no_empty_values_def metadata_ok_def empty_checkout_repo_def)
next
  case (cm_elsewhere s t ck g)
  then show ?case by (simp add: state_ok_def checkout_reachable_metadata)
next
  case (cm_record s uuid d)
  then show ?case by (auto simp: state_ok_def record_delivery_def commerce_ok_def Let_def split: option.splits)
next
  case (cm_delivery s did f)
  then show ?case by (intro state_ok_parts)
next
  case (cm_reclaim s org limit stale now)
  have "js_wf (map (\<lambda>(k, d). (k, f d)) m) = js_wf m" for f :: "webhook_delivery \<Rightarrow> webhook_delivery" and m :: "(string \<times> webhook_delivery) list"
    by (simp add: js_wf_def js_keys_def comp_def case_prod_unfold)
  with cm_reclaim show ?case by (simp add: state_ok_def list_reclaimable_deliveries_def commerce_ok_def Let_def)
next
  case (cm_projection s p)
  then show ?case by (simp add: state_ok_def upsert_ok)
next
  case (cm_pending s org order t uuid)
  then show ?case by (auto simp: state_ok_def record_pending_decision_def commerce_ok_def Let_def split: option.splits)
next
  case (cm_run s run)
  then show ?case by (simp add: state_ok_def record_reconciliation_run_def commerce_ok_def)
next
  case (cm_class s x uuid t)
  then show ?case by (simp add: state_ok_def commerce_ok_def create_unlocked_ok)
next
  case (cm_status s org eid st t)
  then show ?case by (simp add: state_ok_def commerce_ok_def class_status_ok)
next
  case (cm_finalize s env i pending)
  then show ?case by (intro finalize_decision_ok)
next
  case (cm_manual s env m uuid)
  then show ?case by (intro manual_ok)
qed

section \<open>A failed finalization changes nothing\<close>

text \<open>
  C30: a finalization that fails is undone.  Whatever step of it throws, also after some of the class
  entitlements of the order and the links of their registrations were written, the deliveries,
  projections, decisions, indexes, class entitlements and the checkout repository are as before.
\<close>
theorem failed_finalization_rolls_back:
  assumes "commerce_reachable s" "fresh_entitlement_ids env (co_classes (cs_commerce s))" "\<forall>x \<in> set (class_inputs i). ci_id x = None"
    and "finalize_atomically env i s = (Inl e, s')"
  shows "cs_commerce s' = cs_commerce s \<and> cs_checkout s' = cs_checkout s"
proof -
  have ok: "commerce_ok (cs_commerce s)" "metadata_ok (cs_checkout s)" using reachable_state_ok [OF assms(1)] by (simp_all add: state_ok_def)
  from assms(4) obtain t where run: "finalize_internal env i s = (Inl e, t)" and s': "s' = roll_back env i s t"
    by (auto simp: finalize_atomically_def split: prod.splits sum.splits)
  show ?thesis unfolding s' using roll_back_exact [OF ok finalize_error [OF ok assms(2,3) run]] by simp
qed

section \<open>Repeated finalizations\<close>

text \<open>The entitlement of a paid line is found by its line and has the facts of the input.\<close>

definition fulfilled :: "string \<Rightarrow> ent_repo \<Rightarrow> class_entitlement_input \<Rightarrow> bool" where
  "fulfilled org r x \<longleftrightarrow>
     (\<exists>e. find_class_entitlement_by_order_line org (ci_shopifyOrderLineGid x) r = Some e \<and> class_entitlement_matches_input e x)"

lemma nul_key_inj [simp]: "nul_key org a = nul_key org b \<longleftrightarrow> a = b"
  by (simp add: nul_key_def)

lemma find_by_line:
  "find_class_entitlement_by_order_line org line r =
     (case indexed_entitlement (en_byOrderLine r) (nul_key org line) r of
        Some e \<Rightarrow> if ce_organizationId e = org then Some e else None | None \<Rightarrow> None)"
  by (auto simp: find_class_entitlement_by_order_line_def find_by_index_def indexed_entitlement_def get_class_entitlement_def split: option.splits)

lemma class_status_name_of: "class_status_of s = Some st \<Longrightarrow> class_status_name st = s"
  by (auto simp: class_status_of_def split: if_splits)

lemma new_entitlement_matches:
  assumes "assert_valid_class_entitlement x = Inr ()" shows "class_entitlement_matches_input (new_entitlement x eid t) x"
  using assert_valid_class_entitlement_status [OF assms]
  by (cases "ci_status x") (auto simp: class_entitlement_matches_input_def new_entitlement_def class_status_name_of)

text \<open>An id of the environment in use is that of the entitlement of its order line.\<close>

definition ids_traced :: "commerce_env \<Rightarrow> string \<Rightarrow> ent_repo \<Rightarrow> bool" where
  "ids_traced env org r \<longleftrightarrow>
     (\<forall>l. js_get (en_entitlements r) (ke_entitlementId env l) \<noteq> None \<longrightarrow> js_get (en_byOrderLine r) (nul_key org l) = Some (ke_entitlementId env l))"

definition distinct_entitlement_ids :: "commerce_env \<Rightarrow> bool" where
  "distinct_entitlement_ids env \<longleftrightarrow> (\<forall>l l'. ke_entitlementId env l = ke_entitlementId env l' \<longrightarrow> l = l') \<and> (\<forall>l. ke_entitlementId env l \<noteq> [])"

lemma create_fulfils:
  assumes env: "distinct_entitlement_ids env" and r: "ids_traced env org r" and x: "ci_organizationId x = org" "ci_id x = None"
    and run: "create_class_entitlement_unlocked x (ke_entitlementId env (ci_shopifyOrderLineGid x)) t r = (Inr e, r')"
  shows "fulfilled org r' x \<and> ids_traced env org r' \<and> (\<forall>y. fulfilled org r y \<longrightarrow> fulfilled org r' y)"
proof -
  let ?id = "ke_entitlementId env (ci_shopifyOrderLineGid x)" and ?k = "nul_key org (ci_shopifyOrderLineGid x)"
  have id: "?id \<noteq> []" using env by (simp add: distinct_entitlement_ids_def)
  from run have valid: "assert_valid_class_entitlement x = Inr ()" by (auto simp: create_class_entitlement_unlocked_def split: sum.splits)
  show ?thesis
  proof (cases "indexed_entitlement (en_byOrderLine r) ?k r")
    case (Some known)
    with run x valid have "r' = r" "class_entitlement_matches_input known x"
      by (auto simp: create_class_entitlement_unlocked_def assert_matching_replay_def guard_def split: if_splits)
    moreover have "ce_organizationId known = org" using calculation(2) x by (simp add: class_entitlement_matches_input_def)
    ultimately show ?thesis using Some r by (auto simp: fulfilled_def find_by_line)
  next
    case None
    with run x valid have e: "e = new_entitlement x ?id t" "r' = store_class_entitlement e r"
      by (auto simp: create_class_entitlement_unlocked_def Let_def)
    have fresh: "js_get (en_entitlements r) ?id = None"
    proof (rule ccontr)
      assume n: "js_get (en_entitlements r) ?id \<noteq> None"
      with r have "js_get (en_byOrderLine r) ?k = Some ?id" unfolding ids_traced_def by blast
      with n id None show False by (simp add: indexed_entitlement_def if_truthy_def)
    qed
    have keys: "js_get (en_byOrderLine r') j = (if j = ?k then Some ?id else js_get (en_byOrderLine r) j)"
      "js_get (en_entitlements r') j = (if j = ?id then Some e else js_get (en_entitlements r) j)" for j
      unfolding e by (simp_all add: store_class_entitlement_def x)
    have idx: "indexed_entitlement (en_byOrderLine r') (nul_key org l) r' =
        (if l = ci_shopifyOrderLineGid x then Some e else indexed_entitlement (en_byOrderLine r) (nul_key org l) r)"
      if "l = ci_shopifyOrderLineGid x \<or> indexed_entitlement (en_byOrderLine r) (nul_key org l) r \<noteq> None" for l
      using that fresh id by (auto simp: indexed_entitlement_def keys if_truthy_def split: option.splits if_splits)
    have org: "ce_organizationId e = org" using x by (simp add: e(1))
    have "fulfilled org r' x" using new_entitlement_matches [OF valid] org by (simp add: fulfilled_def find_by_line idx) (simp add: e(1))
    moreover have "ids_traced env org r'" using r env unfolding ids_traced_def keys distinct_entitlement_ids_def by auto
    moreover have "fulfilled org r' y" if y: "fulfilled org r y" for y
    proof -
      from y obtain d where d: "indexed_entitlement (en_byOrderLine r) (nul_key org (ci_shopifyOrderLineGid y)) r = Some d"
        "ce_organizationId d = org" "class_entitlement_matches_input d y"
        by (auto simp: fulfilled_def find_by_line split: option.splits if_splits)
      with None have "ci_shopifyOrderLineGid y \<noteq> ci_shopifyOrderLineGid x" by auto
      with d show ?thesis using idx [of "ci_shopifyOrderLineGid y"] by (simp add: fulfilled_def find_by_line)
    qed
    ultimately show ?thesis by blast
  qed
qed

lemma create_classes_fulfil:
  assumes env: "distinct_entitlement_ids env"
  shows "\<forall>x \<in> set xs. ci_organizationId x = org \<and> ci_id x = None \<Longrightarrow> ids_traced env org (co_classes (cs_commerce s)) \<Longrightarrow>
    create_classes env xs s = (Inr es, s') \<Longrightarrow>
    (\<forall>x \<in> set xs. fulfilled org (co_classes (cs_commerce s')) x) \<and>
    (\<forall>y. fulfilled org (co_classes (cs_commerce s)) y \<longrightarrow> fulfilled org (co_classes (cs_commerce s')) y) \<and>
    co_decisions (cs_commerce s') = co_decisions (cs_commerce s)"
proof (induction xs arbitrary: s es)
  case (Cons x xs)
  from Cons.prems(3) obtain e r where run: "create_class_entitlement_unlocked x (ke_entitlementId env (ci_shopifyOrderLineGid x)) (to_iso (ke_now env))
      (co_classes (cs_commerce s)) = (Inr e, r)" by (auto split: prod.splits sum.splits)
  let ?s = "link_entitlement env x e (s\<lparr>cs_commerce := (cs_commerce s)\<lparr>co_classes := r\<rparr>\<rparr>)"
  obtain es' where rest: "create_classes env xs ?s = (Inr es', s')"
    using Cons.prems(3) run by (auto split: prod.splits sum.splits)
  have s: "co_classes (cs_commerce ?s) = r" "co_decisions (cs_commerce ?s) = co_decisions (cs_commerce s)"
    by (simp_all add: link_entitlement_def)
  have step: "fulfilled org r x \<and> ids_traced env org r \<and> (\<forall>y. fulfilled org (co_classes (cs_commerce s)) y \<longrightarrow> fulfilled org r y)"
    by (rule create_fulfils [OF env Cons.prems(2) _ _ run]) (use Cons.prems(1) in simp_all)
  have p: "\<forall>x \<in> set xs. ci_organizationId x = org \<and> ci_id x = None" "ids_traced env org (co_classes (cs_commerce ?s))"
    using Cons.prems(1) step unfolding s by auto
  have "(\<forall>x \<in> set xs. fulfilled org (co_classes (cs_commerce s')) x) \<and>
      (\<forall>y. fulfilled org r y \<longrightarrow> fulfilled org (co_classes (cs_commerce s')) y) \<and> co_decisions (cs_commerce s') = co_decisions (cs_commerce s)"
    using Cons.IH [OF p rest] unfolding s .
  then have ih: "\<And>y. y \<in> set xs \<Longrightarrow> fulfilled org (co_classes (cs_commerce s')) y" "\<And>y. fulfilled org r y \<Longrightarrow> fulfilled org (co_classes (cs_commerce s')) y"
    "co_decisions (cs_commerce s') = co_decisions (cs_commerce s)" by blast+
  then show ?case using step by (intro conjI ballI allI impI) (auto simp del: create_classes.simps)
qed simp

lemma replay_fulfilled:
  assumes "\<forall>x \<in> set (class_inputs i). fulfilled (de_organizationId (fi_decision i)) r x"
  shows "\<exists>es. replay_classes i r = Inr (map Some es)"
proof -
  have "\<exists>es. each_outcome (\<lambda>x. case find_class_entitlement_by_order_line org (ci_shopifyOrderLineGid x) r of
        None \<Rightarrow> Inr None | Some e \<Rightarrow> and_then (assert_matching_replay e x) (\<lambda>_. Inr (Some e))) xs = Inr (map Some es)"
    if "\<forall>x \<in> set xs. fulfilled org r x" for org xs
    using that
  proof (induction xs)
    case (Cons x xs)
    then obtain e es where "find_class_entitlement_by_order_line org (ci_shopifyOrderLineGid x) r = Some e" "class_entitlement_matches_input e x"
      and es: "each_outcome (\<lambda>x. case find_class_entitlement_by_order_line org (ci_shopifyOrderLineGid x) r of
        None \<Rightarrow> Inr None | Some e \<Rightarrow> and_then (assert_matching_replay e x) (\<lambda>_. Inr (Some e))) xs = Inr (map Some es)"
      by (auto simp: fulfilled_def)
    then show ?case by (intro exI [of _ "e # es"]) (simp add: assert_matching_replay_def guard_def)
  qed simp
  then show ?thesis using assms unfolding replay_classes_def by blast
qed

text \<open>A call that was answered by a decision made before is answered the same in any state with these records.\<close>

definition same_decisions :: "commerce_state \<Rightarrow> commerce_state \<Rightarrow> bool" where
  "same_decisions s t \<longleftrightarrow>
     co_decisions (cs_commerce t) = co_decisions (cs_commerce s) \<and> co_classes (cs_commerce t) = co_classes (cs_commerce s) \<and>
     co_decisionsByIntent (cs_commerce t) = co_decisionsByIntent (cs_commerce s) \<and>
     co_decisionsByLine (cs_commerce t) = co_decisionsByLine (cs_commerce s)"

definition answered :: "commerce_env \<Rightarrow> finalize_input \<Rightarrow> decision \<Rightarrow> commerce_state \<Rightarrow> commerce_state" where
  "answered env i d s = settle_delivery env (fi_deliveryId i) (resolve_terminal_intent env (dn_input d) s)"

lemma answered_decisions: "same_decisions s (answered env i d s)"
  by (auto simp: same_decisions_def answered_def settle_delivery_def mark_delivery_processed_def change_delivery_def resolve_terminal_intent_def
      split: option.splits)

lemma resolve_idem: "resolve_terminal_intent env d (settle_delivery env' did (resolve_terminal_intent env d s)) =
    settle_delivery env' did (resolve_terminal_intent env d s)"
proof -
  have "js_modify k (\<lambda>i. i\<lparr>xi_status := v\<rparr>) (js_modify k (\<lambda>i. i\<lparr>xi_status := v\<rparr>) m) = js_modify k (\<lambda>i. i\<lparr>xi_status := v\<rparr>) m"
    for k v and m :: "(string, checkout_intent) js_map"
    by (auto simp: js_modify_def)
  then show ?thesis
    by (auto simp: resolve_terminal_intent_def settle_delivery_def resolve_intent_def set_intent_status_def split: option.splits)
qed

lemma answer_existing_eq: "answer_existing env i d s = (Inr r, s') \<Longrightarrow> s' = answered env i d s \<and> fr_decision r = d \<and> fr_existing r"
  by (auto simp: answer_existing_def Let_def answered_def)

lemma answer_existing_same: "same_decisions s t \<Longrightarrow> fst (answer_existing env' i d t) = fst (answer_existing env i d s)"
  using answered_decisions [of s env i d] answered_decisions [of t env' i d]
  by (simp add: answer_existing_def Let_def same_decisions_def answered_def cong: option.case_cong)

lemma finalize_same:
  assumes run: "finalize_internal env i s = (Inr r, s')" and old: "fr_existing r" and t: "same_decisions s t"
  shows "finalize_internal env' i t = (Inr r, answered env' i (fr_decision r) t) \<and> s' = answered env i (fr_decision r) s"
proof -
  note same = t [unfolded same_decisions_def]
  have new: "decide env i ex s = (Inr r, s') \<Longrightarrow> False" for ex
    using old by (auto simp: decide_def Let_def act_bind_eq_Inr split: prod.splits)
  have order: "decide_order env' i ex t = (Inr r, answered env' i (fr_decision r) t) \<and> s' = answered env i (fr_decision r) s"
    if go: "decide_order env i ex s = (Inr r, s')" for ex
  proof -
    from go obtain d where d: "answer_existing env i d s = (Inr r, s')" "decide_order env' i ex t = answer_existing env' i d t"
      unfolding decide_order_def Let_def by (auto simp: same dest: new split: option.splits)
    have "fst (answer_existing env' i d t) = Inr r" using answer_existing_same [OF t, of env' i d env] d(1) by simp
    moreover have "snd (answer_existing env' i d t) = answered env' i d t" by (simp add: answer_existing_def Let_def answered_def)
    ultimately have "answer_existing env' i d t = (Inr r, answered env' i d t)" by (metis prod.collapse)
    with d answer_existing_eq [OF d(1)] show ?thesis by simp
  qed
  from run show ?thesis
    unfolding finalize_internal_def
    by (auto simp: act_bind_def same answer_decided_def answered_def [symmetric] dest: order split: if_splits option.splits sum.splits)
qed

text \<open>After a decision was made, its order is decided and its class entitlements are there.\<close>

lemma decide_fulfils:
  assumes env: "distinct_entitlement_ids env" and fresh: "fresh_entitlement_ids env (co_classes (cs_commerce s))"
    and ids: "\<forall>x \<in> set (class_inputs i). ci_organizationId x = de_organizationId (fi_decision i) \<and> ci_id x = None"
    and run: "decide env i ex s = (Inr r, s')"
  shows "js_get (co_decisions (cs_commerce s')) (order_key (fi_decision i)) = Some (fr_decision r) \<and> dn_input (fr_decision r) = fi_decision i \<and>
    (\<forall>x \<in> set (class_inputs i). fulfilled (de_organizationId (fi_decision i)) (co_classes (cs_commerce s')) x) \<and>
    (\<exists>t. s' = answered env i (fr_decision r) t)"
proof -
  let ?di = "fi_decision i"
  define u where "u = (case fi_projection i of None \<Rightarrow> s | Some p \<Rightarrow> s\<lparr>cs_commerce := snd (upsert_order_projection p (cs_commerce s))\<rparr>)"
  have u: "co_classes (cs_commerce u) = co_classes (cs_commerce s)"
    by (simp add: u_def upsert_order_projection_def Let_def split: option.splits)
  from run obtain g es t where paid: "create_paid env i u = (Inr (g, es), t)"
    and s': "s' = settle_delivery env (fi_deliveryId i) (resolve_terminal_intent env ?di (t\<lparr>cs_commerce := store_decision (new_decision env ?di ex) (cs_commerce t)\<rparr>))"
    and r: "fr_decision r = new_decision env ?di ex"
    unfolding decide_def Let_def
    by (cases "fi_projection i") (auto simp: act_bind_def on_commerce_def guard_def u_def split: if_splits prod.splits sum.splits)
  have traced: "ids_traced env (de_organizationId ?di) (co_classes (cs_commerce u))"
    using fresh by (simp add: ids_traced_def fresh_entitlement_ids_def u)
  have "class_inputs i = [] \<or> (\<exists>es. create_classes env (class_inputs i) u = (Inr es, t))"
    using paid by (auto simp: create_paid_def Let_def act_bind_def split: if_splits option.splits prod.splits sum.splits)
  then have full: "\<forall>x \<in> set (class_inputs i). fulfilled (de_organizationId ?di) (co_classes (cs_commerce t)) x"
    using create_classes_fulfil [OF env ids traced] by auto
  let ?t = "t\<lparr>cs_commerce := store_decision (new_decision env ?di ex) (cs_commerce t)\<rparr>"
  have s'': "s' = answered env i (fr_decision r) ?t" by (simp add: s' r answered_def new_decision_def)
  have "same_decisions ?t s'" unfolding s'' by (rule answered_decisions)
  moreover have "co_classes (cs_commerce ?t) = co_classes (cs_commerce t)" by (simp add: store_decision_def Let_def)
  moreover have "js_get (co_decisions (cs_commerce ?t)) (order_key ?di) = Some (fr_decision r)"
    by (simp add: store_decision_def Let_def r new_decision_def)
  ultimately show ?thesis using full s'' by (simp add: same_decisions_def r new_decision_def) blast
qed

text \<open>
  C31: a repeated finalization adds nothing.  When the finalization of an order succeeded, a later one
  with the same input succeeds with the same decision, which it reports as existing, and leaves
  everything as it is, the class entitlements, the grants and the intent included, but for the
  marks of its delivery.
\<close>
theorem repeated_finalization_adds_nothing:
  assumes "distinct_entitlement_ids env" "fresh_entitlement_ids env (co_classes (cs_commerce s))"
    and "\<forall>x \<in> set (class_inputs i). ci_organizationId x = de_organizationId (fi_decision i) \<and> ci_id x = None"
    and "de_status (fi_decision i) \<noteq> DecPending" "ke_hasCheckout env' = ke_hasCheckout env"
    and "finalize_atomically env i s = (Inr r, s')"
  shows "\<exists>(r' :: finalize_result). finalize_atomically env' i s' = (Inr r', settle_delivery env' (fi_deliveryId i) s') \<and>
    fr_decision r' = fr_decision r \<and> fr_existing r'"
proof -
  from assms(6) have run: "finalize_internal env i s = (Inr r, s')" by (auto simp: finalize_atomically_def split: prod.splits sum.splits)
  have again: "answered env' i d (answered env i d t) = settle_delivery env' (fi_deliveryId i) (answered env i d t)" for d t
  proof -
    have "resolve_terminal_intent env' = resolve_terminal_intent env" using assms(5) by (simp add: resolve_terminal_intent_def fun_eq_iff)
    then show ?thesis by (simp add: answered_def resolve_idem)
  qed
  show ?thesis
  proof (cases "fr_existing r")
    case True
    have s': "s' = answered env i (fr_decision r) s" using finalize_same [OF run True] by (simp add: same_decisions_def)
    have "finalize_internal env' i s' = (Inr r, answered env' i (fr_decision r) s')"
      using finalize_same [OF run True, of s' env'] answered_decisions [of s env i "fr_decision r"] s' by simp
    with True s' again [of "fr_decision r" s] show ?thesis by (intro exI [of _ r]) (simp add: finalize_atomically_def)
  next
    case False
    have checks: "\<not> (fi_classEntitlement i \<noteq> None \<and> fi_classEntitlements i \<noteq> None)" "\<exists>us. each_outcome assert_valid_class_entitlement (class_inputs i) = Inr us"
      using run by (auto simp: finalize_internal_def act_bind_eq_Inr)
    have "\<exists>ex. decide env i ex s = (Inr r, s')"
      using run False
      by (auto simp: finalize_internal_def act_bind_eq_Inr decide_order_def Let_def answer_decided_def split: option.splits if_splits sum.splits
          dest: answer_existing_eq)
    then obtain ex where "decide env i ex s = (Inr r, s')" by blast
    note made = decide_fulfils [OF assms(1-3) this]
    then obtain es where es: "replay_classes i (co_classes (cs_commerce s')) = Inr (map Some es)" using replay_fulfilled by blast
    have "list_all (\<lambda>x. x \<noteq> None) (map Some es)" by (simp add: list_all_iff)
    with made checks es assms(4) have "finalize_internal env' i s' = answer_decided env' i (fr_decision r) (map the (map Some es)) s'"
      by (auto simp: finalize_internal_def act_bind_def simp del: list.map_comp)
    then have "\<exists>(r' :: finalize_result). finalize_internal env' i s' = (Inr r', answered env' i (fr_decision r) s') \<and> fr_decision r' = fr_decision r \<and> fr_existing r'"
      by (auto simp: answer_decided_def answered_def)
    with made again show ?thesis by (auto simp: finalize_atomically_def)
  qed
qed

section \<open>Orders finalized\<close>

definition demo_commerce_env :: "int \<Rightarrow> commerce_env" where
  "demo_commerce_env now =
     \<lparr>ke_grants = demo_grants_env, ke_hasCheckout = True, ke_decisionId = ''d1'', ke_grantId = ''g1'', ke_entitlementId = (\<lambda>l. ''e'' @ l), ke_now = now\<rparr>"

definition demo_paid_line :: "string \<Rightarrow> string \<Rightarrow> class_entitlement_input" where
  "demo_paid_line line child =
     \<lparr>ci_id = None, ci_organizationId = ''org'', ci_festivalId = ''fest'', ci_festivalClassId = ''cls'', ci_parentCustomerId = ''cust'',
      ci_childId = child, ci_checkoutIntentId = ''i1'', ci_checkoutIntentLineId = Some line, ci_shopifyOrderGid = ''order'',
      ci_shopifyOrderLineGid = line, ci_paidAmountCents = 5000, ci_paidCurrencyCode = ''USD'', ci_status = Some ''confirmed'',
      ci_admittedCartReference = None, ci_capacityAtAllocation = Some 10, ci_placedCountBeforeAllocation = Some 0,
      ci_createdAt = None, ci_updatedAt = None\<rparr>"

definition demo_finalize :: finalize_input where
  "demo_finalize =
     \<lparr>fi_deliveryId = ''w1'', fi_decision = \<lparr>de_organizationId = ''org'', de_customerId = Some ''cust'', de_checkoutIntentId = Some ''i1'',
        de_shopifyOrderGid = ''order'', de_shopifyOrderLineGid = None, de_status = DecApproved, de_reasonCode = None,
        de_updatedAtIso = ''2026-03-20''\<rparr>,
      fi_projection = None, fi_grant = None, fi_classEntitlement = None,
      fi_classEntitlements = Some [demo_paid_line ''l1'' ''kim'', demo_paid_line ''l2'' ''lee'']\<rparr>"

lemma demo_lines_valid: "assert_valid_class_entitlement (demo_paid_line ''l1'' ''kim'') = Inr ()"
  "assert_valid_class_entitlement (demo_paid_line ''l2'' ''lee'') = Inr ()" "assert_valid_class_entitlement (demo_paid_line ''l2'' ''kim'') = Inr ()"
  by code_simp+

lemmas finalize_eval = finalize_atomically_def finalize_internal_def act_bind_def class_inputs_def order_key_def decide_order_def Let_def
  decided_elsewhere_def intent_key_def line_key_def decide_def on_commerce_def create_paid_def create_class_entitlement_unlocked_def
  indexed_entitlement_def link_entitlement_def guard_def assert_matching_replay_def store_class_entitlement_def

lemma demo_commerce_ids: "distinct_entitlement_ids (demo_commerce_env now)"
  by (simp add: distinct_entitlement_ids_def demo_commerce_env_def)

lemma demo_lines:
  "ci_organizationId (demo_paid_line l c) = ''org''" "ci_shopifyOrderLineGid (demo_paid_line l c) = l" "ci_id (demo_paid_line l c) = None"
  "ci_checkoutIntentId (demo_paid_line l c) = ''i1''"
  "nul_key ''org'' l = nul_key ''org'' l' \<longleftrightarrow> l = l'"
  "class_entitlement_matches_input (new_entitlement (demo_paid_line ''l2'' ''kim'') eid t) (demo_paid_line ''l2'' ''lee'') \<longleftrightarrow> False"
  by (simp_all add: demo_paid_line_def class_entitlement_matches_input_def new_entitlement_def)

text \<open>The second line of the order was sold to another child before.\<close>

definition demo_conflicting :: commerce_state where
  "demo_conflicting = empty_commerce_state\<lparr>cs_commerce := empty_commerce\<lparr>co_classes :=
     snd (create_class_entitlement_unlocked (demo_paid_line ''l2'' ''kim'') ''x'' ''t'' empty_ent_repo)\<rparr>\<rparr>"

lemma demo_conflicting_reachable: "commerce_reachable demo_conflicting"
  using cm_class [OF cm_empty, of "demo_paid_line ''l2'' ''kim''" "''x''" "''t''"]
  by (simp add: demo_conflicting_def empty_commerce_state_def empty_commerce_def demo_paid_line_def)

theorem failed_finalization_rolls_back_witness:
  "\<exists>s'. finalize_atomically (demo_commerce_env 0) demo_finalize demo_conflicting = (Inl PAID_LINE_CONFLICT, s') \<and>
     cs_commerce s' = cs_commerce demo_conflicting"
proof -
  have "fst (finalize_atomically (demo_commerce_env 0) demo_finalize demo_conflicting) = Inl PAID_LINE_CONFLICT"
    by (simp add: finalize_eval demo_finalize_def demo_lines_valid demo_conflicting_def empty_commerce_state_def empty_commerce_def empty_ent_repo_def
        if_truthy_def demo_commerce_env_def demo_lines)
  then obtain s' where run: "finalize_atomically (demo_commerce_env 0) demo_finalize demo_conflicting = (Inl PAID_LINE_CONFLICT, s')"
    by (metis prod.collapse)
  have "fresh_entitlement_ids (demo_commerce_env 0) (co_classes (cs_commerce demo_conflicting))"
    by (simp add: fresh_entitlement_ids_def demo_commerce_env_def demo_conflicting_def create_class_entitlement_unlocked_def demo_lines_valid
        indexed_entitlement_def empty_commerce_def empty_commerce_state_def empty_ent_repo_def Let_def store_class_entitlement_def demo_lines if_truthy_def)
  from failed_finalization_rolls_back [OF demo_conflicting_reachable this _ run] run show ?thesis
    by (simp add: demo_finalize_def class_inputs_def demo_paid_line_def)
qed

theorem repeated_finalization_adds_nothing_witness:
  "\<exists>r s' r'. finalize_atomically (demo_commerce_env 0) demo_finalize empty_commerce_state = (Inr r, s') \<and>
     finalize_atomically (demo_commerce_env 1) demo_finalize s' = (Inr r', settle_delivery (demo_commerce_env 1) ''w1'' s') \<and>
     fr_decision r' = fr_decision r \<and> fr_existing r'"
proof -
  have "case fst (finalize_atomically (demo_commerce_env 0) demo_finalize empty_commerce_state) of Inl _ \<Rightarrow> False | Inr _ \<Rightarrow> True"
    by (simp add: finalize_eval demo_finalize_def demo_lines_valid empty_commerce_state_def empty_commerce_def empty_ent_repo_def
        if_truthy_def demo_commerce_env_def demo_lines)
  then obtain r s' where run: "finalize_atomically (demo_commerce_env 0) demo_finalize empty_commerce_state = (Inr r, s')"
    by (metis prod.collapse sum.case_eq_if sum.collapse(2))
  have fresh: "fresh_entitlement_ids (demo_commerce_env 0) (co_classes (cs_commerce empty_commerce_state))"
    by (simp add: fresh_entitlement_ids_def demo_commerce_env_def empty_commerce_state_def empty_commerce_def empty_ent_repo_def)
  show ?thesis
    using repeated_finalization_adds_nothing [OF demo_commerce_ids fresh _ _ _ run, of "demo_commerce_env 1"] run
    by (auto simp: demo_finalize_def class_inputs_def demo_paid_line_def demo_commerce_env_def)
qed

lemma js_set_sing: "js_set k v [] = [(k, v)]" "js_set k v [(k', v')] = (if k = k' then [(k, v)] else [(k', v'), (k, v)])"
  by (simp_all add: js_set_def)

text \<open>
  A decision that staff rejected does not stop a finalization for class entries under way: the order
  is decided again, the decision is approved and the entitlements are created, while the audit still
  says rejected.
\<close>

definition demo_rejected :: commerce_state where
  "demo_rejected = empty_commerce_state\<lparr>cs_commerce := snd (record_pending_decision ''org'' ''order'' ''t0'' ''d0'' empty_commerce)\<rparr>"

definition demo_rejection :: manual_input where
  "demo_rejection = \<lparr>ma_organizationId = ''org'', ma_decisionId = ''d0'', ma_approve = False, ma_actorUserId = ''staff'', ma_note = ''fraud'',
     ma_resolvedAtIso = ''t1'', ma_customerId = None, ma_checkoutIntentId = None, ma_shopifyOrderLineGid = None, ma_projection = None,
     ma_grant = None\<rparr>"

theorem late_class_approval_overrides_rejection:
  "\<exists>s d s' r a. resolve_decision_manually (demo_commerce_env 0) demo_rejection ''a1'' demo_rejected = (Inr d, s) \<and>
     finalize_atomically (demo_commerce_env 0) demo_finalize s = (Inr r, s') \<and>
     de_status (dn_input (fr_decision r)) = DecApproved \<and> js_get (co_decisions (cs_commerce s')) (nul_key ''org'' ''order'') = Some (fr_decision r) \<and>
     get_decision_audit ''org'' ''d0'' (cs_commerce s') = Some a \<and> da_finalStatus a = DecRejected \<and>
     length (en_entitlements (co_classes (cs_commerce s'))) = 2"
proof -
  obtain d s where manual: "resolve_decision_manually (demo_commerce_env 0) demo_rejection ''a1'' demo_rejected = (Inr d, s)"
    and s: "js_get (co_decisions (cs_commerce s)) (nul_key ''org'' ''order'') \<noteq> None"
      "de_status (dn_input (the (js_get (co_decisions (cs_commerce s)) (nul_key ''org'' ''order'')))) = DecRejected"
      "co_classes (cs_commerce s) = empty_ent_repo" "co_decisionsByIntent (cs_commerce s) = []" "cs_checkout s = empty_checkout_repo"
      "\<exists>a. get_decision_audit ''org'' ''d0'' (cs_commerce s) = Some a \<and> da_finalStatus a = DecRejected"
    by (simp add: resolve_decision_manually_def demo_rejection_def demo_rejected_def act_bind_def get_decision_by_id_def manual_grant_def
        record_pending_decision_def Let_def empty_commerce_def empty_commerce_state_def js_set_def js_get_Cons guard_def unresolved_def on_commerce_def
        manual_decision_def store_decision_def resolve_terminal_intent_def get_decision_audit_def order_key_def intent_key_def line_key_def or_else_def
        if_truthy_def)
  then obtain e where e: "js_get (co_decisions (cs_commerce s)) (nul_key ''org'' ''order'') = Some e" "de_status (dn_input e) = DecRejected" by auto
  let ?c1 = "create_class_entitlement_unlocked"
  have "case finalize_atomically (demo_commerce_env 0) demo_finalize s of (Inl _, _) \<Rightarrow> False | (Inr r, s') \<Rightarrow>
      de_status (dn_input (fr_decision r)) = DecApproved \<and> js_get (co_decisions (cs_commerce s')) (nul_key ''org'' ''order'') = Some (fr_decision r) \<and>
      co_audits (cs_commerce s') = co_audits (cs_commerce s) \<and> length (en_entitlements (co_classes (cs_commerce s'))) = 2"
    by (simp add: finalize_eval demo_finalize_def demo_lines_valid empty_ent_repo_def if_truthy_def demo_commerce_env_def demo_lines e s
        replay_classes_def find_by_line new_decision_def store_decision_def js_set_sing js_get_Cons settle_delivery_def mark_delivery_processed_def change_delivery_def
        resolve_terminal_intent_def resolution_of_def)
  with manual s(6) show ?thesis by (cases d) (auto simp: get_decision_audit_def split: prod.splits sum.splits)
qed

end
