(* ===== verification/OrderProjection.thy ===== *)
theory OrderProjection
  imports CommerceRepo Billing ClassCheckout
begin

text \<open>
  \<open>ShopifyOrderProjectionService\<close> of
  \<open>packages/backend/src/commerce/shopify-order-projection-service.ts\<close>: a paid Shopify order is read,
  correlated with its checkout intent, validated, and turned into a membership grant or class
  entitlements; deliveries end processed, skipped or failed, and reconciliation processes what was
  missed.  Shopify, the customers, the catalogue, \<open>Date.parse\<close> and the hash are parameters; other
  requests may change the stores at the points where the service waits for a store.  The projection of
  the customer's profile waits too, but neither reads nor changes the stores, so it has no such point.
  Amounts in minor units are integers; the source turns a bigint into a number, which is exact below
  two to the power of 53.
\<close>

section \<open>Paid orders\<close>

record order_line =
  ol_id :: string
  ol_productGid :: "string option"
  ol_variantGid :: "string option"
  ol_quantity :: int
  ol_paidAmount :: string
  ol_paidCurrencyCode :: string
  ol_customAttributes :: "(string \<times> string) list"

record paid_order =
  po_id :: string
  po_customerGid :: string
  po_customerEmail :: "string option"
  po_fullyPaid :: bool
  po_fullyPaidAtIso :: "string option"
  po_currencyCode :: string
  po_customAttributes :: "(string \<times> string) list"
  po_lineItems :: "order_line list"

text \<open>\<open>ShopifyTransportError\<close>, \<open>ShopifyIntegrationError\<close> with its request id, and any other error.\<close>

datatype order_error = TransportError string | IntegrationError string "string option" | OtherError app_error

definition order_error_message :: "order_error \<Rightarrow> string" where
  "order_error_message e = (case e of TransportError m \<Rightarrow> m | IntegrationError m _ \<Rightarrow> m | OtherError x \<Rightarrow> err_message x)"

section \<open>Correlation, failures and money\<close>

definition CHECKOUT_INTENT_ATTRIBUTE :: string where
  "CHECKOUT_INTENT_ATTRIBUTE = ''festival_checkout_intent_id''"

definition RECONCILIATION_OVERLAP_MS :: int where "RECONCILIATION_OVERLAP_MS = 172800000"

definition RECONCILIATION_LIMIT :: nat where "RECONCILIATION_LIMIT = 50"

definition DELIVERY_PROCESSING_LEASE_MS :: int where "DELIVERY_PROCESSING_LEASE_MS = 900000"

text \<open>A UUID of version 1 to 5 in letters of either case.\<close>

definition is_correlation_id :: "string \<Rightarrow> bool" where
  "is_correlation_id s \<longleftrightarrow> is_canonical_uuid (js_lower s)"

definition correlation_from_order :: "paid_order \<Rightarrow> membership_reason + string" where
  "correlation_from_order order =
     (let vs = map snd (filter (\<lambda>a. fst a = CHECKOUT_INTENT_ATTRIBUTE) (po_customAttributes order)) in
      (case vs of [] \<Rightarrow> Inl CorrelationMissing
       | [v] \<Rightarrow> if is_correlation_id v then Inr v else Inl CorrelationInvalid
       | _ \<Rightarrow> Inl CorrelationInvalid))"

definition failure_category_of :: "string \<Rightarrow> failure_category" where
  "failure_category_of message =
     (let m = js_lower message
      in if contains ''invalid'' m \<or> contains ''mismatch'' m \<or> contains ''missing'' m \<or> contains ''unsupported'' m then FailInvalid else FailUpstream)"

definition is_request_id :: "string \<Rightarrow> bool" where
  "is_request_id s \<longleftrightarrow> s \<noteq> [] \<and> ascii_alnum (hd s) \<and> length (tl s) \<le> 127 \<and>
     list_all (\<lambda>c. ascii_alnum c \<or> c \<in> set ''._:/-'') (tl s)"

definition failure_diagnostic :: "order_error \<Rightarrow> failure_stage \<Rightarrow> string \<Rightarrow> delivery_failure" where
  "failure_diagnostic e stage at =
     (let make = (\<lambda>category code rid. \<lparr>df_category = category, df_stage = stage, df_code = code, df_requestId = rid, df_failedAtIso = at\<rparr>) in
      (case e of
         TransportError _ \<Rightarrow> make FailUpstream CodeTransport None
       | IntegrationError _ rid \<Rightarrow> make FailUpstream CodeUpstream (case rid of Some r \<Rightarrow> if is_request_id r then Some r else None | None \<Rightarrow> None)
       | OtherError x \<Rightarrow>
           if x = PAID_LINE_CONFLICT then make FailPersistence CodePaidLineConflict None
           else (let category = failure_category_of (err_message x)
                 in make category (if category = FailInvalid then CodeInvalidData else if category = FailPersistence then CodePersistence
                      else CodeUnexpected) None)))"

text \<open>\<open>BigInt(whole) * 100n + BigInt(fraction.padEnd(2, "0"))\<close>.\<close>

definition money_in_minor_units :: "string \<Rightarrow> nat option" where
  "money_in_minor_units v =
     (if is_paid_amount v
      then (let whole = takeWhile is_digit_char v; fraction = drop 1 (dropWhile is_digit_char v)
            in digits_value 0 (whole @ take 2 (fraction @ ''00'')))
      else None)"

definition verified_identity_email :: "string option \<Rightarrow> string option" where
  "verified_identity_email v =
     (case v of None \<Rightarrow> None
      | Some s \<Rightarrow> (let t = js_lower (js_trim s) in if t \<noteq> [] \<and> 8 \<le> length (filter ascii_alnum t) then Some t else None))"

definition has_matching_paid_money :: "string \<Rightarrow> string \<Rightarrow> string \<Rightarrow> string \<Rightarrow> bool" where
  "has_matching_paid_money expected currency actual actual_currency \<longleftrightarrow>
     money_in_minor_units expected \<noteq> None \<and> money_in_minor_units actual \<noteq> None \<and> currency = actual_currency \<and>
     money_in_minor_units expected = money_in_minor_units actual"

fun add_paid_lines :: "string \<Rightarrow> nat \<Rightarrow> order_line list \<Rightarrow> nat option" where
  "add_paid_lines currency acc [] = Some acc"
| "add_paid_lines currency acc (l # ls) =
     (if ol_paidCurrencyCode l \<noteq> currency then None
      else (case money_in_minor_units (ol_paidAmount l) of None \<Rightarrow> None | Some n \<Rightarrow> add_paid_lines currency (acc + n) ls))"

definition validate_multi_line_payment :: "checkout_intent \<Rightarrow> paid_order \<Rightarrow> bool" where
  "validate_multi_line_payment intent order \<longleftrightarrow>
     po_currencyCode order = xi_currencyCode intent \<and>
     (case add_paid_lines (xi_currencyCode intent) 0 (po_lineItems order) of
        None \<Rightarrow> False
      | Some paid \<Rightarrow> money_in_minor_units (xi_amount intent) = Some paid)"

section \<open>Lines of an order and lines of an intent\<close>

record shop_class =
  sc_id :: string
  sc_isActive :: bool
  sc_shopifyProductGid :: "string option"
  sc_shopifyVariantGid :: "string option"
  sc_capacity :: int

record correlated_line =
  kl_intentLine :: intent_line
  kl_orderLine :: order_line
  kl_classConfig :: "shop_class option"
  kl_festivalId :: "string option"
  kl_placed :: "nat option"

definition has_attached_cart :: "checkout_intent \<Rightarrow> bool" where
  "has_attached_cart intent \<longleftrightarrow>
     (case xi_cartReference intent of Some c \<Rightarrow> js_trim c \<noteq> [] | None \<Rightarrow> False) \<and>
     xi_status intent \<noteq> IntentCreating \<and> xi_status intent \<noteq> IntentFailed"

fun intent_lines_by_id :: "intent_line list \<Rightarrow> (string, intent_line) js_map \<Rightarrow> (string, intent_line) js_map option" where
  "intent_lines_by_id [] m = Some m"
| "intent_lines_by_id (l # ls) m =
     (if \<not> is_canonical_uuid (il_id l) \<or> js_get m (il_id l) \<noteq> None then None else intent_lines_by_id ls (js_set (il_id l) l m))"

fun correlate_lines :: "(string, intent_line) js_map \<Rightarrow> string list \<Rightarrow> order_line list \<Rightarrow> (correlated_line list \<times> string list) option" where
  "correlate_lines m used [] = Some ([], used)"
| "correlate_lines m used (o' # os) =
     (case map snd (filter (\<lambda>a. fst a = CHECKOUT_INTENT_LINE_ID_ATTRIBUTE_KEY) (ol_customAttributes o')) of
        [v] \<Rightarrow>
          if \<not> is_canonical_uuid v then None
          else (case js_get m v of
                  None \<Rightarrow> None
                | Some l \<Rightarrow>
                    if v \<in> set used then None
                    else (case correlate_lines m (used @ [v]) os of
                            None \<Rightarrow> None
                          | Some (ks, u) \<Rightarrow> Some (\<lparr>kl_intentLine = l, kl_orderLine = o', kl_classConfig = None, kl_festivalId = None,
                              kl_placed = None\<rparr> # ks, u)))
      | _ \<Rightarrow> None)"

definition correlate_class_order_lines :: "checkout_intent \<Rightarrow> paid_order \<Rightarrow> correlated_line list option" where
  "correlate_class_order_lines intent order =
     (if xi_lines intent = [] \<or> length (po_lineItems order) \<noteq> length (xi_lines intent) then None
      else (case intent_lines_by_id (xi_lines intent) [] of
              None \<Rightarrow> None
            | Some m \<Rightarrow>
                (case correlate_lines m [] (po_lineItems order) of
                   None \<Rightarrow> None
                 | Some (ks, used) \<Rightarrow> if length used = length m then Some ks else None)))"

definition is_legacy_single_line_class_order :: "checkout_intent \<Rightarrow> paid_order \<Rightarrow> bool" where
  "is_legacy_single_line_class_order intent order \<longleftrightarrow>
     xi_lineIdentityProtocol intent = None \<and> xi_lines intent = [] \<and> length (po_lineItems order) = 1 \<and>
     \<not> list_ex (\<lambda>a. fst a = CHECKOUT_INTENT_LINE_ID_ATTRIBUTE_KEY) (ol_customAttributes (hd (po_lineItems order)))"

section \<open>The service and its surroundings\<close>

datatype order_point = PClaim | PPending | PRead | PValidate | PCall | PFinalize | PMark | PFail | PReclaim | PRecord | PRun

datatype processing_result = Processed | Skipped | ProcessingFailed

record order_integration =
  si_verified :: bool
  si_verifiedShopGid :: "string option"
  si_verifiedShopDomain :: "string option"
  si_readOrdersGranted :: bool

text \<open>Calls of the customer repository, kept in the order they succeed.\<close>

datatype customer_call = StaffConsent string string string | ProfileApplied string string string

record order_state =
  os_store :: commerce_state
  os_calls :: "customer_call list"

text \<open>
  \<open>ow_others p\<close> is what other requests did to the stores when the service goes on at \<open>p\<close>;
  \<open>ow_pending\<close> is the outcome of a finalization under way for the same key.  \<open>ow_customers\<close> gives the
  Shopify identity of a customer when a customer repository was given.
\<close>

record order_world =
  ow_env :: commerce_env
  ow_others :: "order_point \<Rightarrow> commerce_state \<Rightarrow> commerce_state"
  ow_pending :: "finalize_input \<Rightarrow> finalize_result outcome option"
  ow_decrypt :: "(string \<Rightarrow> unit outcome) option"
  ow_integration :: "string \<Rightarrow> order_integration option"
  ow_readOrder :: "string \<Rightarrow> string \<Rightarrow> order_error + paid_order option"
  ow_paidSince :: "string \<Rightarrow> string \<Rightarrow> nat \<Rightarrow> order_error + paid_order list"
  ow_readProfile :: "(string \<Rightarrow> string \<Rightarrow> order_error + string option) option"
  ow_customers :: "(string \<Rightarrow> string \<Rightarrow> string option option) option"
  ow_customerCall :: "customer_call \<Rightarrow> unit outcome"
  ow_offering :: "string \<Rightarrow> string \<Rightarrow> membership_product option"
  ow_divisions :: "string \<Rightarrow> string list"
  ow_festivals :: "string \<Rightarrow> string list"
  ow_classes :: "string \<Rightarrow> string \<Rightarrow> shop_class list"
  ow_timezone :: "string \<Rightarrow> string outcome"
  ow_parse :: "string \<Rightarrow> int option"
  ow_sha256 :: "string \<Rightarrow> string"

definition ow_now :: "order_world \<Rightarrow> string" where
  "ow_now w = to_iso (ke_now (ow_env w))"

type_synonym 'a order_step = "order_state \<Rightarrow> (order_error + 'a) \<times> order_state"

definition step_bind :: "'a order_step \<Rightarrow> ('a \<Rightarrow> 'b order_step) \<Rightarrow> 'b order_step" where
  "step_bind m k = (\<lambda>s. case m s of (Inl e, s') \<Rightarrow> (Inl e, s') | (Inr x, s') \<Rightarrow> k x s')"

definition as_order_error :: "'a outcome \<Rightarrow> order_error + 'a" where
  "as_order_error r = (case r of Inl e \<Rightarrow> Inl (OtherError e) | Inr x \<Rightarrow> Inr x)"

text \<open>A read of the stores, and a step on them, at a point.\<close>

definition read_at :: "order_world \<Rightarrow> order_point \<Rightarrow> (commerce_state \<Rightarrow> 'a outcome) \<Rightarrow> 'a order_step" where
  "read_at w p f s = (let t = ow_others w p (os_store s) in (as_order_error (f t), s\<lparr>os_store := t\<rparr>))"

definition step_at :: "order_world \<Rightarrow> order_point \<Rightarrow> (commerce_state, 'a) act \<Rightarrow> 'a order_step" where
  "step_at w p m s = (case m (ow_others w p (os_store s)) of (r, t) \<Rightarrow> (as_order_error r, s\<lparr>os_store := t\<rparr>))"

section \<open>Reading Shopify\<close>

definition assert_readable_integration :: "order_integration option \<Rightarrow> string outcome" where
  "assert_readable_integration i =
     (case i of
        Some x \<Rightarrow>
          (if si_verified x \<and> truthy (si_verifiedShopGid x) \<and> truthy (si_verifiedShopDomain x) \<and> si_readOrdersGranted x
           then Inr (the (si_verifiedShopDomain x))
           else Inl (PlainError ''Shopify order processing is not available for this organization.''))
      | None \<Rightarrow> Inl (PlainError ''Shopify order processing is not available for this organization.''))"

text \<open>The context of a call; its shop domain is the result.\<close>

definition read_context :: "order_world \<Rightarrow> string \<Rightarrow> string outcome" where
  "read_context w org =
     (case ow_decrypt w of
        None \<Rightarrow> Inl (PlainError ''Shopify order processing is not configured.'')
      | Some decrypt \<Rightarrow>
          and_then (assert_readable_integration (ow_integration w org)) (\<lambda>shop.
          and_then (decrypt org) (\<lambda>_. Inr shop)))"

definition read_order :: "order_world \<Rightarrow> string \<Rightarrow> string \<Rightarrow> order_error + paid_order option" where
  "read_order w org gid = and_then (as_order_error (read_context w org)) (\<lambda>_. ow_readOrder w org gid)"

section \<open>Validating a membership order\<close>

definition timestamp_milliseconds :: "order_world \<Rightarrow> string \<Rightarrow> string \<Rightarrow> int outcome" where
  "timestamp_milliseconds w v field =
     (case ow_parse w v of None \<Rightarrow> Inl (PlainError (field @ '' timestamp is invalid.'')) | Some t \<Rightarrow> Inr t)"

definition paid_after_expiry :: "order_world \<Rightarrow> checkout_intent \<Rightarrow> string \<Rightarrow> bool outcome" where
  "paid_after_expiry w intent paid_at =
     and_then (timestamp_milliseconds w (xi_expiresAtIso intent) ''Checkout intent expiry'') (\<lambda>expiry.
     and_then (timestamp_milliseconds w paid_at ''Shopify payment'') (\<lambda>paid. Inr (expiry \<le> paid)))"

definition lifecycle_name :: "lifecycle \<Rightarrow> string" where
  "lifecycle_name l = (case l of Scheduled \<Rightarrow> ''scheduled'' | Active \<Rightarrow> ''active'' | Expired \<Rightarrow> ''expired'' | Superseded \<Rightarrow> ''superseded''
     | Revoked \<Rightarrow> ''revoked'')"

definition read_grant :: "shown_grant \<Rightarrow> membership_grant" where
  "read_grant g =
     \<lparr>li_startsOn = sg_startsOn (sh_grant g), li_endsOn = sg_endsOn (sh_grant g), li_supersededOn = sh_supersededOn g,
      li_revokedAtIso = None, mg_entitlementClass = sg_entitlementClass (sh_grant g), mg_status = Some (lifecycle_name (sh_status g))\<rparr>"

definition wrong_customer :: "order_world \<Rightarrow> string \<Rightarrow> checkout_intent \<Rightarrow> paid_order \<Rightarrow> membership_reason option" where
  "wrong_customer w org intent order =
     (case ow_customers w of
        None \<Rightarrow> Some UpstreamInvalid
      | Some customers \<Rightarrow>
          if customers org (xi_customerId intent) = Some (Some (po_customerGid order)) then None else Some CustomerMismatch)"

definition wrong_offering :: "order_world \<Rightarrow> string \<Rightarrow> checkout_intent \<Rightarrow> membership_reason option" where
  "wrong_offering w org intent =
     (case ow_offering w org TEACHER_MEMBERSHIP_ENTITLEMENT_CLASS of
        None \<Rightarrow> Some OfferingMismatch
      | Some p \<Rightarrow>
          if \<not> mp_isActive p \<or> Some (mp_productId p) \<noteq> xi_offeringId intent \<or> mp_shopifyProductGid p \<noteq> xi_shopifyProductGid intent \<or>
             mp_shopifyVariantGid p \<noteq> xi_shopifyVariantGid intent then Some OfferingMismatch
          else if xi_policyVersion intent \<noteq> Some ''v1'' \<or> xi_durationDays intent \<noteq> Some (mp_durationDays p) then Some PolicyMismatch
          else if \<not> list_ex (\<lambda>d. Some d = xi_divisionId intent) (ow_divisions w org) then Some DivisionInvalid
          else None)"

definition line_of_product :: "string \<Rightarrow> string \<Rightarrow> order_line \<Rightarrow> bool" where
  "line_of_product product variant l \<longleftrightarrow>
     ol_productGid l = Some product \<and> ol_variantGid l = Some variant \<and> ol_quantity l = 1"

definition wrong_payment :: "checkout_intent \<Rightarrow> paid_order \<Rightarrow> membership_reason option" where
  "wrong_payment intent order =
     (case po_lineItems order of
        [l] \<Rightarrow>
          if \<not> line_of_product (xi_shopifyProductGid intent) (xi_shopifyVariantGid intent) l then Some OfferingMismatch
          else if po_currencyCode order \<noteq> xi_currencyCode intent \<or>
            \<not> has_matching_paid_money (xi_amount intent) (xi_currencyCode intent) (ol_paidAmount l) (ol_paidCurrencyCode l) then Some PaymentMismatch
          else None
      | _ \<Rightarrow> Some OfferingMismatch)"

definition already_member :: "order_world \<Rightarrow> string \<Rightarrow> checkout_intent \<Rightarrow> string \<Rightarrow> commerce_state \<Rightarrow> membership_reason option outcome" where
  "already_member w org intent paid_at s =
     (let genv = ke_grants (ow_env w); now = ke_now (ow_env w); r = cs_grants s in
      and_then (ow_timezone w org) (\<lambda>tz.
      and_then (derive_entitlement_dates (ge_zones genv) paid_at tz 1) (\<lambda>(paid_date, _).
      and_then (has_scheduled_entitlement genv org (xi_customerId intent) TEACHER_MEMBERSHIP_ENTITLEMENT_CLASS paid_date now r) (\<lambda>scheduled.
      if scheduled then Inr (Some DuplicatePurchase)
      else and_then (list_entitlement_grants genv org (Some (xi_customerId intent)) now r) (\<lambda>gs.
        and_then (some_outcome (\<lambda>g. ineligible_active paid_date (read_grant g)) gs) (\<lambda>b. Inr (if b then Some DuplicatePurchase else None)))))))"

definition validate_order :: "order_world \<Rightarrow> string \<Rightarrow> checkout_intent \<Rightarrow> paid_order \<Rightarrow> commerce_state \<Rightarrow> membership_reason option outcome" where
  "validate_order w org intent order s =
     (if \<not> po_fullyPaid order then Inr (Some OrderNotPaid)
      else (case if_truthy (po_fullyPaidAtIso order) of
              None \<Rightarrow> Inr (Some PaymentIncomplete)
            | Some paid_at \<Rightarrow>
                and_then (paid_after_expiry w intent paid_at) (\<lambda>late.
                if late then Inr (Some IntentTimedOut)
                else (case wrong_customer w org intent order of Some r \<Rightarrow> Inr (Some r)
                | None \<Rightarrow> (case wrong_offering w org intent of Some r \<Rightarrow> Inr (Some r)
                | None \<Rightarrow> (case wrong_payment intent order of Some r \<Rightarrow> Inr (Some r)
                | None \<Rightarrow> already_member w org intent paid_at s))))))"

section \<open>Validating a class order\<close>

record class_plan =
  cp_config :: shop_class
  cp_festivalId :: string
  cp_lines :: "correlated_line list option"
  cp_legacy :: bool
  cp_placed :: "nat option"

definition find_active_class_config :: "order_world \<Rightarrow> string \<Rightarrow> string \<Rightarrow> (shop_class \<times> string) option" where
  "find_active_class_config w org cls =
     (case concat (map (\<lambda>f. case find (\<lambda>c. sc_id c = cls) (ow_classes w org f) of
          Some c \<Rightarrow> if sc_isActive c then [(c, f)] else [] | None \<Rightarrow> []) (ow_festivals w org)) of
        [] \<Rightarrow> None | x # _ \<Rightarrow> if snd x = [] then None else Some x)"

definition sold_as :: "shop_class \<Rightarrow> string \<Rightarrow> string \<Rightarrow> bool" where
  "sold_as c product variant \<longleftrightarrow> sc_shopifyProductGid c = Some product \<and> sc_shopifyVariantGid c = Some variant"

definition single_order_line :: "correlated_line list option \<Rightarrow> bool \<Rightarrow> paid_order \<Rightarrow> order_line option" where
  "single_order_line ks legacy order =
     (case ks of Some (k # _) \<Rightarrow> Some (kl_orderLine k)
      | _ \<Rightarrow> if legacy then (case po_lineItems order of [] \<Rightarrow> None | l # _ \<Rightarrow> Some l) else None)"

definition validate_single_line ::
    "order_world \<Rightarrow> string \<Rightarrow> checkout_intent \<Rightarrow> paid_order \<Rightarrow> correlated_line list option \<Rightarrow> bool \<Rightarrow> commerce_state \<Rightarrow> membership_reason + class_plan" where
  "validate_single_line w org intent order ks legacy s =
     (case (if_truthy (xi_festivalClassId intent), if_truthy (xi_childId intent)) of
        (Some cls, Some child) \<Rightarrow>
          (case find_active_class_config w org cls of
             None \<Rightarrow> Inl OfferingMismatch
           | Some (c, festival) \<Rightarrow>
               if \<not> sold_as c (xi_shopifyProductGid intent) (xi_shopifyVariantGid intent) then Inl OfferingMismatch
               else if \<not> legacy \<and> (case ks of Some [k] \<Rightarrow> False | _ \<Rightarrow> True) then Inl OfferingMismatch
               else (case single_order_line ks legacy order of
                       None \<Rightarrow> Inl OfferingMismatch
                     | Some l \<Rightarrow>
                         if \<not> line_of_product (xi_shopifyProductGid intent) (xi_shopifyVariantGid intent) l then Inl OfferingMismatch
                         else if po_currencyCode order \<noteq> xi_currencyCode intent \<or>
                           \<not> has_matching_paid_money (xi_amount intent) (xi_currencyCode intent) (ol_paidAmount l) (ol_paidCurrencyCode l)
                         then Inl PaymentMismatch
                         else (let placed = commerce_count_confirmed org (sc_id c) (cs_commerce s) in
                               if sc_capacity c \<le> int placed \<and> \<not> has_attached_cart intent then Inl CorrelationInvalid
                               else Inr \<lparr>cp_config = c, cp_festivalId = festival, cp_lines = ks, cp_legacy = legacy, cp_placed = Some placed\<rparr>)))
      | _ \<Rightarrow> Inl UpstreamInvalid)"

text \<open>The loop over the correlated lines; the counts of the classes met so far grow with each line.\<close>

fun validate_order_lines ::
    "order_world \<Rightarrow> string \<Rightarrow> checkout_intent \<Rightarrow> commerce_state \<Rightarrow> (string, nat) js_map \<Rightarrow> correlated_line list \<Rightarrow> membership_reason + correlated_line list" where
  "validate_order_lines w org intent s counts [] = Inr []"
| "validate_order_lines w org intent s counts (k # ks) =
     (let l = kl_intentLine k in
      if \<not> line_of_product (il_shopifyProductGid l) (il_shopifyVariantGid l) (kl_orderLine k) then Inl OfferingMismatch
      else (case if_truthy (or_else (il_festivalClassId l) (xi_festivalClassId intent)) of
              None \<Rightarrow> Inl UpstreamInvalid
            | Some cls \<Rightarrow>
                (case find_active_class_config w org cls of
                   None \<Rightarrow> Inl OfferingMismatch
                 | Some (c, festival) \<Rightarrow>
                     if \<not> sold_as c (il_shopifyProductGid l) (il_shopifyVariantGid l) then Inl OfferingMismatch
                     else (let placed = (case js_get counts (sc_id c) of Some n \<Rightarrow> n | None \<Rightarrow> commerce_count_confirmed org (sc_id c) (cs_commerce s)) in
                           if sc_capacity c \<le> int placed \<and> \<not> has_attached_cart intent then Inl CorrelationInvalid
                           else and_then (validate_order_lines w org intent s (js_set (sc_id c) (placed + 1) counts) ks) (\<lambda>rest.
                             Inr (k\<lparr>kl_classConfig := Some c, kl_festivalId := Some festival, kl_placed := Some placed\<rparr> # rest))))))"

definition validate_multi_line ::
    "order_world \<Rightarrow> string \<Rightarrow> checkout_intent \<Rightarrow> paid_order \<Rightarrow> correlated_line list \<Rightarrow> commerce_state \<Rightarrow> membership_reason + class_plan" where
  "validate_multi_line w org intent order ks s =
     (if \<not> validate_multi_line_payment intent order then Inl PaymentMismatch
      else and_then (validate_order_lines w org intent s [] ks) (\<lambda>rs.
        (case rs of
           [] \<Rightarrow> Inl UpstreamInvalid
         | k # _ \<Rightarrow>
             (case (kl_classConfig k, if_truthy (kl_festivalId k)) of
                (Some c, Some f) \<Rightarrow> Inr \<lparr>cp_config = c, cp_festivalId = f, cp_lines = Some rs, cp_legacy = False, cp_placed = None\<rparr>
              | _ \<Rightarrow> Inl UpstreamInvalid))))"

definition validate_class_purchase ::
    "order_world \<Rightarrow> string \<Rightarrow> checkout_intent \<Rightarrow> paid_order \<Rightarrow> commerce_state \<Rightarrow> (membership_reason + class_plan) outcome" where
  "validate_class_purchase w org intent order s =
     (let ks = correlate_class_order_lines intent order; legacy = is_legacy_single_line_class_order intent order in
      if ks = None \<and> \<not> legacy then Inr (Inl CorrelationInvalid)
      else if \<not> po_fullyPaid order then Inr (Inl OrderNotPaid)
      else (case if_truthy (po_fullyPaidAtIso order) of
              None \<Rightarrow> Inr (Inl PaymentIncomplete)
            | Some paid_at \<Rightarrow>
                and_then (paid_after_expiry w intent paid_at) (\<lambda>late.
                if late then Inr (Inl IntentTimedOut)
                else (case wrong_customer w org intent order of Some r \<Rightarrow> Inr (Inl r)
                | None \<Rightarrow>
                    if 1 < length (xi_lines intent)
                    then (case ks of None \<Rightarrow> Inr (Inl CorrelationInvalid) | Some ks \<Rightarrow> Inr (validate_multi_line w org intent order ks s))
                    else Inr (validate_single_line w org intent order ks legacy s)))))"

section \<open>Finalizing\<close>

record finalize_part =
  fp_customerId :: "string option"
  fp_checkoutIntentId :: "string option"
  fp_shopifyOrderLineGid :: "string option"
  fp_status :: decision_status
  fp_reasonCode :: "membership_reason option"
  fp_grant :: "(grant_input \<times> string) option"
  fp_classEntitlement :: "class_entitlement_input option"
  fp_classEntitlements :: "class_entitlement_input list option"

definition delivery_org :: "webhook_delivery \<Rightarrow> string" where "delivery_org d = di_organizationId (wd_input d)"

definition delivery_order :: "webhook_delivery \<Rightarrow> string" where "delivery_order d = di_shopifyOrderGid (wd_input d)"

definition finalization_of :: "order_world \<Rightarrow> webhook_delivery \<Rightarrow> finalize_part \<Rightarrow> projection_input option \<Rightarrow> finalize_input" where
  "finalization_of w d part projection =
     \<lparr>fi_deliveryId = wd_id d,
      fi_decision = \<lparr>de_organizationId = delivery_org d, de_customerId = fp_customerId part, de_checkoutIntentId = fp_checkoutIntentId part,
        de_shopifyOrderGid = delivery_order d, de_shopifyOrderLineGid = fp_shopifyOrderLineGid part, de_status = fp_status part,
        de_reasonCode = fp_reasonCode part, de_updatedAtIso = ow_now w\<rparr>,
      fi_projection = projection, fi_grant = fp_grant part, fi_classEntitlement = fp_classEntitlement part,
      fi_classEntitlements = fp_classEntitlements part\<rparr>"

definition finalize_order :: "order_world \<Rightarrow> webhook_delivery \<Rightarrow> finalize_part \<Rightarrow> projection_input option \<Rightarrow> finalize_result order_step" where
  "finalize_order w d part projection =
     (let i = finalization_of w d part projection in step_at w PFinalize (finalize_decision (ow_env w) i (ow_pending w i)))"

definition unapproved :: "checkout_intent option \<Rightarrow> decision_status \<Rightarrow> membership_reason \<Rightarrow> finalize_part" where
  "unapproved intent status reason =
     \<lparr>fp_customerId = map_option xi_customerId intent, fp_checkoutIntentId = map_option xi_id intent, fp_shopifyOrderLineGid = None,
      fp_status = status, fp_reasonCode = Some reason, fp_grant = None, fp_classEntitlement = None, fp_classEntitlements = None\<rparr>"

definition status_for :: "membership_reason \<Rightarrow> decision_status" where
  "status_for r = (if r \<in> {IntentTimedOut, CorrelationInvalid, UpstreamInvalid, PaymentIncomplete} then DecNeedsReview else DecRejected)"

definition conclude :: "order_world \<Rightarrow> webhook_delivery \<Rightarrow> finalize_part \<Rightarrow> projection_input option \<Rightarrow> processing_result order_step" where
  "conclude w d part projection = step_bind (finalize_order w d part projection) (\<lambda>_ s. (Inr Processed, s))"

section \<open>The customer's profile\<close>

definition customer_call_step :: "order_world \<Rightarrow> customer_call \<Rightarrow> unit order_step" where
  "customer_call_step w c s =
     (case ow_customerCall w c of Inl e \<Rightarrow> (Inl (OtherError e), s) | Inr _ \<Rightarrow> (Inr (), s\<lparr>os_calls := os_calls s @ [c]\<rparr>))"

definition project_consented_customer_profile :: "order_world \<Rightarrow> string \<Rightarrow> checkout_intent \<Rightarrow> paid_order \<Rightarrow> unit order_step" where
  "project_consented_customer_profile w org intent order =
     (case (ow_customers w, ow_readProfile w) of
        (Some _, Some reader) \<Rightarrow>
          if \<not> xi_staffAccessConsent intent then (\<lambda>s. (Inr (), s))
          else step_bind (\<lambda>s. (and_then (as_order_error (read_context w org)) (\<lambda>_. reader org (po_id order)), s)) (\<lambda>profile.
            step_bind (customer_call_step w (StaffConsent org (xi_customerId intent) (ow_now w))) (\<lambda>_.
            (case profile of
               None \<Rightarrow> (\<lambda>s. (Inr (), s))
             | Some p \<Rightarrow> customer_call_step w (ProfileApplied org (xi_customerId intent) p))))
      | _ \<Rightarrow> (\<lambda>s. (Inr (), s)))"

section \<open>Class entries\<close>

definition admitted_cart_reference :: "checkout_intent \<Rightarrow> string option" where
  "admitted_cart_reference intent = if_truthy (map_option js_trim (xi_cartReference intent))"

definition minor_or_zero :: "string \<Rightarrow> int" where
  "minor_or_zero v = (case money_in_minor_units v of Some n \<Rightarrow> int n | None \<Rightarrow> 0)"

definition multi_line_entitlement :: "webhook_delivery \<Rightarrow> checkout_intent \<Rightarrow> paid_order \<Rightarrow> class_plan \<Rightarrow> correlated_line \<Rightarrow> class_entitlement_input" where
  "multi_line_entitlement d intent order plan k =
     (let l = kl_intentLine k; ol = kl_orderLine k; c = (case kl_classConfig k of Some x \<Rightarrow> x | None \<Rightarrow> cp_config plan) in
      \<lparr>ci_id = None, ci_organizationId = delivery_org d,
       ci_festivalId = (case kl_festivalId k of Some f \<Rightarrow> f | None \<Rightarrow> cp_festivalId plan),
       ci_festivalClassId = (case il_festivalClassId l of Some x \<Rightarrow> x | None \<Rightarrow> sc_id c),
       ci_parentCustomerId = xi_customerId intent,
       ci_childId = (case or_else (il_childId l) (xi_childId intent) of Some x \<Rightarrow> x | None \<Rightarrow> []),
       ci_checkoutIntentId = xi_id intent, ci_checkoutIntentLineId = Some (il_id l), ci_shopifyOrderGid = po_id order,
       ci_shopifyOrderLineGid = ol_id ol, ci_paidAmountCents = minor_or_zero (ol_paidAmount ol),
       ci_paidCurrencyCode = ol_paidCurrencyCode ol, ci_status = Some ''confirmed'',
       ci_admittedCartReference = admitted_cart_reference intent, ci_capacityAtAllocation = Some (sc_capacity c),
       ci_placedCountBeforeAllocation = map_option int (kl_placed k), ci_createdAt = None, ci_updatedAt = None\<rparr>)"

definition single_line_entitlement ::
    "webhook_delivery \<Rightarrow> checkout_intent \<Rightarrow> paid_order \<Rightarrow> class_plan \<Rightarrow> string \<Rightarrow> order_line \<Rightarrow> class_entitlement_input" where
  "single_line_entitlement d intent order plan child ol =
     \<lparr>ci_id = None, ci_organizationId = delivery_org d, ci_festivalId = cp_festivalId plan, ci_festivalClassId = sc_id (cp_config plan),
      ci_parentCustomerId = xi_customerId intent, ci_childId = child, ci_checkoutIntentId = xi_id intent,
      ci_checkoutIntentLineId = (case cp_lines plan of Some (k # _) \<Rightarrow> Some (il_id (kl_intentLine k)) | _ \<Rightarrow> None),
      ci_shopifyOrderGid = po_id order, ci_shopifyOrderLineGid = ol_id ol, ci_paidAmountCents = minor_or_zero (ol_paidAmount ol),
      ci_paidCurrencyCode = ol_paidCurrencyCode ol, ci_status = Some ''confirmed'',
      ci_admittedCartReference = admitted_cart_reference intent, ci_capacityAtAllocation = Some (sc_capacity (cp_config plan)),
      ci_placedCountBeforeAllocation = map_option int (cp_placed plan), ci_createdAt = None, ci_updatedAt = None\<rparr>"

definition approved_classes :: "checkout_intent \<Rightarrow> string option \<Rightarrow> class_entitlement_input option \<Rightarrow> class_entitlement_input list option \<Rightarrow> finalize_part" where
  "approved_classes intent line one many =
     \<lparr>fp_customerId = Some (xi_customerId intent), fp_checkoutIntentId = Some (xi_id intent), fp_shopifyOrderLineGid = line,
      fp_status = DecApproved, fp_reasonCode = None, fp_grant = None, fp_classEntitlement = one, fp_classEntitlements = many\<rparr>"

text \<open>What the plan of a class order is finalized with.\<close>

definition class_part :: "webhook_delivery \<Rightarrow> checkout_intent \<Rightarrow> paid_order \<Rightarrow> class_plan \<Rightarrow> finalize_part outcome" where
  "class_part d intent order plan =
     (if 1 < length (xi_lines intent)
      then (case cp_lines plan of
              None \<Rightarrow> Inl (PlainError ''Multi-line class purchase correlation is missing.'')
            | Some ks \<Rightarrow> Inr (approved_classes intent None None (Some (map (multi_line_entitlement d intent order plan) ks))))
      else (case (single_order_line (cp_lines plan) (cp_legacy plan) order, if_truthy (po_fullyPaidAtIso order), if_truthy (xi_childId intent)) of
              (Some ol, Some _, Some child) \<Rightarrow>
                Inr (approved_classes intent (Some (ol_id ol)) (Some (single_line_entitlement d intent order plan child ol)) None)
            | _ \<Rightarrow> Inr (unapproved (Some intent) DecNeedsReview UpstreamInvalid)))"

definition process_class_delivery ::
    "order_world \<Rightarrow> webhook_delivery \<Rightarrow> checkout_intent \<Rightarrow> paid_order \<Rightarrow> projection_input \<Rightarrow> processing_result order_step" where
  "process_class_delivery w d intent order projection =
     step_bind (read_at w PValidate (validate_class_purchase w (delivery_org d) intent order)) (\<lambda>verdict.
     (case verdict of
        Inl reason \<Rightarrow> conclude w d (unapproved (Some intent) (status_for reason) reason) (Some projection)
      | Inr plan \<Rightarrow>
          step_bind (\<lambda>s. (as_order_error (class_part d intent order plan), s)) (\<lambda>part.
          if fp_status part \<noteq> DecApproved then conclude w d part (Some projection)
          else step_bind (finalize_order w d part (Some projection)) (\<lambda>_.
            step_bind (project_consented_customer_profile w (delivery_org d) intent order) (\<lambda>_ s. (Inr Processed, s))))))"

section \<open>Memberships\<close>

fun find_outcome :: "('a \<Rightarrow> bool outcome) \<Rightarrow> 'a list \<Rightarrow> 'a option outcome" where
  "find_outcome p [] = Inr None"
| "find_outcome p (x # xs) = and_then (p x) (\<lambda>b. if b then Inr (Some x) else find_outcome p xs)"

definition renewable_active :: "string \<Rightarrow> shown_grant \<Rightarrow> bool outcome" where
  "renewable_active starts g =
     (if sg_entitlementClass (sh_grant g) \<noteq> TEACHER_MEMBERSHIP_ENTITLEMENT_CLASS then Inr False
      else and_then (lifecycle_for_entitlement_read (read_grant g) starts) (\<lambda>l.
        if l \<noteq> Active then Inr False
        else and_then (calendar_days_until starts (sg_endsOn (sh_grant g))) (\<lambda>n. Inr (n \<le> TEACHER_MEMBERSHIP_RENEWAL_WINDOW_DAYS))))"

text \<open>The fields a grant takes from the intent and the order; \<open>None\<close> when one is missing.\<close>

definition grant_facts :: "checkout_intent \<Rightarrow> paid_order \<Rightarrow> (order_line \<times> string \<times> string \<times> string \<times> string \<times> int \<times> string) option" where
  "grant_facts intent order =
     (case (po_lineItems order, if_truthy (po_fullyPaidAtIso order), if_truthy (xi_divisionId intent), if_truthy (xi_divisionNameSnapshot intent),
            if_truthy (xi_offeringId intent), xi_durationDays intent, verified_identity_email (po_customerEmail order)) of
        (l # _, Some paid_at, Some division, Some division_name, Some offering, Some days, Some email) \<Rightarrow>
          Some (l, paid_at, division, division_name, offering, days, email)
      | _ \<Rightarrow> None)"

definition membership_grant_input ::
    "string \<Rightarrow> checkout_intent \<Rightarrow> paid_order \<Rightarrow> order_line \<Rightarrow> string \<Rightarrow> string \<Rightarrow> string \<Rightarrow> int \<Rightarrow> string \<Rightarrow> string \<Rightarrow> grant_input" where
  "membership_grant_input org intent order l division division_name offering days starts ends =
     \<lparr>gi_organizationId = org, gi_customerId = xi_customerId intent, gi_entitlementClass = TEACHER_MEMBERSHIP_ENTITLEMENT_CLASS,
      gi_offeringId = offering, gi_durationDays = days, gi_divisionId = division, gi_divisionNameSnapshot = division_name,
      gi_paidAmount = ol_paidAmount l, gi_paidCurrencyCode = ol_paidCurrencyCode l, gi_checkoutIntentId = xi_id intent,
      gi_shopifyOrderGid = po_id order, gi_shopifyOrderLineGid = ol_id l, gi_startsOn = starts, gi_endsOn = ends, gi_status = ''active''\<rparr>"

definition membership_dates :: "order_world \<Rightarrow> string \<Rightarrow> checkout_intent \<Rightarrow> string \<Rightarrow> int \<Rightarrow> commerce_state \<Rightarrow> (string \<times> string) outcome" where
  "membership_dates w org intent paid_at days s =
     (let genv = ke_grants (ow_env w) in
      and_then (ow_timezone w org) (\<lambda>tz.
      and_then (derive_entitlement_dates (ge_zones genv) paid_at tz days) (\<lambda>(starts, _).
      and_then (list_entitlement_grants genv org (Some (xi_customerId intent)) (ke_now (ow_env w)) (cs_grants s)) (\<lambda>gs.
      and_then (find_outcome (renewable_active starts) gs) (\<lambda>previous.
      let from = (case previous of Some g \<Rightarrow> if starts < sg_endsOn (sh_grant g) then sg_endsOn (sh_grant g) else starts | None \<Rightarrow> starts) in
      and_then (add_calendar_days from days) (\<lambda>ends. Inr (starts, ends)))))))"

definition membership_part :: "order_world \<Rightarrow> webhook_delivery \<Rightarrow> checkout_intent \<Rightarrow> paid_order \<Rightarrow> commerce_state \<Rightarrow> finalize_part outcome" where
  "membership_part w d intent order s =
     (case grant_facts intent order of
        None \<Rightarrow> Inr (unapproved (Some intent) DecNeedsReview UpstreamInvalid)
      | Some (l, paid_at, division, division_name, offering, days, email) \<Rightarrow>
          and_then (membership_dates w (delivery_org d) intent paid_at days s) (\<lambda>(starts, ends).
          Inr \<lparr>fp_customerId = Some (xi_customerId intent), fp_checkoutIntentId = Some (xi_id intent), fp_shopifyOrderLineGid = Some (ol_id l),
               fp_status = DecApproved, fp_reasonCode = None,
               fp_grant = Some (membership_grant_input (delivery_org d) intent order l division division_name offering days starts ends, email),
               fp_classEntitlement = None, fp_classEntitlements = None\<rparr>))"

definition process_membership_delivery ::
    "order_world \<Rightarrow> webhook_delivery \<Rightarrow> checkout_intent \<Rightarrow> paid_order \<Rightarrow> projection_input \<Rightarrow> processing_result order_step" where
  "process_membership_delivery w d intent order projection =
     step_bind (read_at w PValidate (validate_order w (delivery_org d) intent order)) (\<lambda>verdict.
     (case verdict of
        Some reason \<Rightarrow> conclude w d (unapproved (Some intent) (status_for reason) reason) (Some projection)
      | None \<Rightarrow>
          step_bind (read_at w PCall (membership_part w d intent order)) (\<lambda>part.
          if fp_status part \<noteq> DecApproved then conclude w d part (Some projection)
          else step_bind (finalize_order w d part (Some projection)) (\<lambda>_.
            step_bind (project_consented_customer_profile w (delivery_org d) intent order) (\<lambda>_ s. (Inr Processed, s))))))"

section \<open>Processing a delivery\<close>

definition order_projection_of :: "order_world \<Rightarrow> webhook_delivery \<Rightarrow> paid_order \<Rightarrow> projection_input" where
  "order_projection_of w d order =
     \<lparr>pi_organizationId = delivery_org d, pi_shopifyOrderGid = po_id order, pi_shopifyCustomerGid = Some (po_customerGid order),
      pi_correlationId = (case correlation_from_order order of Inr c \<Rightarrow> Some c | Inl _ \<Rightarrow> None),
      pi_fullyPaidAtIso = po_fullyPaidAtIso order, pi_currencyCode = Some (po_currencyCode order), pi_updatedAtIso = ow_now w\<rparr>"

definition is_class_purchase :: "checkout_intent \<Rightarrow> bool" where
  "is_class_purchase intent \<longleftrightarrow> xi_intentType intent = ClassEntryIntent \<or> truthy (xi_festivalClassId intent)"

text \<open>A step on the commerce repository of the stores as the others left them.\<close>

definition commerce_at :: "order_world \<Rightarrow> order_point \<Rightarrow> (commerce \<Rightarrow> 'a \<times> commerce) \<Rightarrow> order_state \<Rightarrow> 'a \<times> order_state" where
  "commerce_at w p f s =
     (let t = ow_others w p (os_store s) in
      (case f (cs_commerce t) of (x, c) \<Rightarrow> (x, s\<lparr>os_store := t\<lparr>cs_commerce := c\<rparr>\<rparr>)))"

definition mark_processed_step :: "order_world \<Rightarrow> webhook_delivery \<Rightarrow> processing_result \<Rightarrow> processing_result order_step" where
  "mark_processed_step w d result s =
     (case commerce_at w PMark (\<lambda>c. ((), mark_delivery_processed (wd_id d) (ke_now (ow_env w)) c)) s of (_, s') \<Rightarrow> (Inr result, s'))"

text \<open>An order approved before gets its profile on a retry only.\<close>

definition process_approved ::
    "order_world \<Rightarrow> webhook_delivery \<Rightarrow> checkout_intent \<Rightarrow> paid_order \<Rightarrow> processing_result order_step" where
  "process_approved w d intent order =
     step_bind (if 1 < wd_attemptCount d then project_consented_customer_profile w (delivery_org d) intent order else (\<lambda>s. (Inr (), s))) (\<lambda>_.
     mark_processed_step w d (if 1 < wd_attemptCount d then Processed else Skipped))"

definition project_order :: "order_world \<Rightarrow> webhook_delivery \<Rightarrow> decision_status \<Rightarrow> paid_order option \<Rightarrow> processing_result order_step" where
  "project_order w d pending found =
     (case found of
        None \<Rightarrow> conclude w d (unapproved None DecNeedsReview UpstreamInvalid) None
      | Some order \<Rightarrow>
          if po_id order \<noteq> delivery_order d then conclude w d (unapproved None DecNeedsReview UpstreamInvalid) None
          else (let projection = order_projection_of w d order in
            (case correlation_from_order order of
               Inl reason \<Rightarrow> conclude w d (unapproved None DecNeedsReview reason) (Some projection)
             | Inr correlation \<Rightarrow>
                 step_bind (read_at w PRead (\<lambda>t. Inr (find_intent_by_correlation (delivery_org d) correlation (cs_checkout t)))) (\<lambda>found_intent.
                 (case found_intent of
                    None \<Rightarrow> conclude w d (unapproved None DecNeedsReview CorrelationInvalid) (Some projection)
                  | Some intent \<Rightarrow>
                      if pending = DecApproved then process_approved w d intent order
                      else if is_class_purchase intent then process_class_delivery w d intent order projection
                      else process_membership_delivery w d intent order projection)))))"

text \<open>The body of the \<open>try\<close>; an error carries the stage it happened in.\<close>

definition delivery_steps :: "order_world \<Rightarrow> webhook_delivery \<Rightarrow> order_state \<Rightarrow> ((failure_stage \<times> order_error) + processing_result) \<times> order_state" where
  "delivery_steps w d s =
     (case commerce_at w PPending (record_pending_decision (delivery_org d) (delivery_order d) (ow_now w) (ke_decisionId (ow_env w))) s of
        (pending, s1) \<Rightarrow>
          (let status = de_status (dn_input pending) in
           if status \<noteq> DecPending \<and> status \<noteq> DecApproved
           then (Inr Skipped, snd (mark_processed_step w d Skipped s1))
           else (case read_order w (delivery_org d) (delivery_order d) of
                   Inl e \<Rightarrow> (Inl (StageOrderRead, e), s1)
                 | Inr found \<Rightarrow>
                     (case project_order w d status found s1 of
                        (Inl e, s2) \<Rightarrow> (Inl (StageProjection, e), s2) | (Inr r, s2) \<Rightarrow> (Inr r, s2)))))"

definition process_delivery :: "order_world \<Rightarrow> string \<Rightarrow> order_state \<Rightarrow> processing_result \<times> order_state" where
  "process_delivery w did s =
     (case commerce_at w PClaim (claim_delivery did (ke_now (ow_env w))) s of
        (None, s1) \<Rightarrow> (Skipped, s1)
      | (Some d, s1) \<Rightarrow>
          (case delivery_steps w d s1 of
             (Inr r, s2) \<Rightarrow> (r, s2)
           | (Inl (stage, e), s2) \<Rightarrow>
               (case commerce_at w PFail (\<lambda>c. ((), mark_delivery_failed (wd_id d) (failure_diagnostic e stage (ow_now w)) c)) s2 of
                  (_, s3) \<Rightarrow> (ProcessingFailed, s3))))"

section \<open>Reconciliation\<close>

definition reconciliation_webhook_id :: "order_world \<Rightarrow> string \<Rightarrow> string" where
  "reconciliation_webhook_id w gid = ''reconcile:'' @ ow_sha256 w gid"

text \<open>The loops return the error that ended them, the counts so far and the state.\<close>

fun reclaim_loop :: "order_world \<Rightarrow> webhook_delivery list \<Rightarrow> nat \<Rightarrow> order_state \<Rightarrow> order_error option \<times> nat \<times> order_state" where
  "reclaim_loop w [] processed s = (None, processed, s)"
| "reclaim_loop w (d # ds) processed s =
     (case process_delivery w (wd_id d) s of
        (ProcessingFailed, s') \<Rightarrow> (Some (OtherError (PlainError ''A queued delivery could not be processed.'')), processed, s')
      | (Processed, s') \<Rightarrow> reclaim_loop w ds (processed + 1) s'
      | (Skipped, s') \<Rightarrow> reclaim_loop w ds processed s')"

definition reconciliation_delivery :: "order_world \<Rightarrow> string \<Rightarrow> string \<Rightarrow> paid_order \<Rightarrow> delivery_input" where
  "reconciliation_delivery w org shop order =
     \<lparr>di_organizationId = org, di_shopDomain = shop, di_webhookId = reconciliation_webhook_id w (po_id order),
      di_shopifyOrderGid = po_id order, di_payloadSha256 = ow_sha256 w (po_id order), di_receivedAtIso = ow_now w\<rparr>"

text \<open>Recording one order: whether it is new and the delivery to process.  \<open>uuid\<close> is the random id for a new delivery.\<close>

definition discover :: "order_world \<Rightarrow> string \<Rightarrow> string \<Rightarrow> string \<Rightarrow> paid_order \<Rightarrow> (bool \<times> webhook_delivery) order_step" where
  "discover w org shop uuid order s =
     (case commerce_at w PRecord (record_delivery (reconciliation_delivery w org shop order) uuid) s of
        (Inl e, s') \<Rightarrow> (Inl (OtherError e), s')
      | (Inr Conflict, s') \<Rightarrow> (Inl (OtherError (PlainError ''Reconciliation delivery evidence conflicted.'')), s')
      | (Inr (Accepted d), s') \<Rightarrow> (Inr (True, d), s')
      | (Inr (Duplicate d), s') \<Rightarrow> (Inr (False, d), s'))"

fun order_loop ::
    "order_world \<Rightarrow> string \<Rightarrow> string \<Rightarrow> (string \<Rightarrow> string) \<Rightarrow> paid_order list \<Rightarrow> nat \<Rightarrow> nat \<Rightarrow> order_state \<Rightarrow> order_error option \<times> nat \<times> nat \<times> order_state" where
  "order_loop w org shop ids [] discovered processed s = (None, discovered, processed, s)"
| "order_loop w org shop ids (x # xs) discovered processed s =
     (case discover w org shop (ids (po_id x)) x s of
        (Inl e, s1) \<Rightarrow> (Some e, discovered, processed, s1)
      | (Inr (new, d), s1) \<Rightarrow>
          (let n = (if new then discovered + 1 else discovered) in
           (case process_delivery w (wd_id d) s1 of
              (ProcessingFailed, s2) \<Rightarrow> (Some (OtherError (PlainError ''A reconciled order could not be processed.'')), n, processed, s2)
            | (Processed, s2) \<Rightarrow> order_loop w org shop ids xs n (processed + 1) s2
            | (Skipped, s2) \<Rightarrow> order_loop w org shop ids xs n processed s2)))"

text \<open>The body of the \<open>try\<close> of \<open>reconcile\<close>: the error if there is one, discovered, processed, state.\<close>

definition reconcile_steps :: "order_world \<Rightarrow> string \<Rightarrow> (string \<Rightarrow> string) \<Rightarrow> order_state \<Rightarrow> order_error option \<times> nat \<times> nat \<times> order_state" where
  "reconcile_steps w org ids s =
     (let now = ke_now (ow_env w) in
      (case commerce_at w PReclaim (list_reclaimable_deliveries org RECONCILIATION_LIMIT (to_iso (now - DELIVERY_PROCESSING_LEASE_MS)) now) s of
         (ds, s1) \<Rightarrow>
           (case reclaim_loop w ds 0 s1 of
              (Some e, processed, s2) \<Rightarrow> (Some e, 0, processed, s2)
            | (None, processed, s2) \<Rightarrow>
                (case as_order_error (read_context w org) of
                   Inl e \<Rightarrow> (Some e, 0, processed, s2)
                 | Inr shop \<Rightarrow>
                     (case ow_paidSince w org (to_iso (now - RECONCILIATION_OVERLAP_MS)) RECONCILIATION_LIMIT of
                        Inl e \<Rightarrow> (Some e, 0, processed, s2)
                      | Inr xs \<Rightarrow> order_loop w org shop ids xs 0 processed s2)))))"

definition reconcile :: "order_world \<Rightarrow> string \<Rightarrow> string \<Rightarrow> (string \<Rightarrow> string) \<Rightarrow> order_state \<Rightarrow> (nat \<times> nat) outcome \<times> order_state" where
  "reconcile w org uuid ids s =
     (case reconcile_steps w org ids s of
        (failure, discovered, processed, s1) \<Rightarrow>
          (let run = \<lparr>rr_id = uuid, rr_organizationId = org, rr_completed = (failure = None), rr_discoveredCount = discovered,
                 rr_processedCount = processed, rr_startedAtIso = ow_now w, rr_finishedAtIso = ow_now w,
                 rr_failureCategory = map_option (\<lambda>e. failure_category_of (order_error_message e)) failure\<rparr> in
           (case commerce_at w PRun (record_reconciliation_run run) s1 of
              (_, s2) \<Rightarrow>
                (case failure of
                   None \<Rightarrow> (Inr (discovered, processed), s2)
                 | Some _ \<Rightarrow> (Inl (PlainError ''Shopify order reconciliation failed.''), s2)))))"

section \<open>Manual approval\<close>

record manual_approval =
  mx_customerId :: string
  mx_checkoutIntentId :: string
  mx_shopifyOrderLineGid :: string
  mx_projection :: projection_input
  mx_grant :: grant_input
  mx_verifiedIdentityEmail :: string

definition reason_text :: "membership_reason \<Rightarrow> string" where
  "reason_text r = (case r of
     OrderNotPaid \<Rightarrow> ''order_not_paid'' | CorrelationMissing \<Rightarrow> ''correlation_missing'' | CorrelationInvalid \<Rightarrow> ''correlation_invalid''
   | CustomerMismatch \<Rightarrow> ''customer_mismatch'' | OfferingMismatch \<Rightarrow> ''offering_mismatch'' | PolicyMismatch \<Rightarrow> ''policy_mismatch''
   | DivisionInvalid \<Rightarrow> ''division_invalid'' | PaymentMismatch \<Rightarrow> ''payment_mismatch'' | PaymentIncomplete \<Rightarrow> ''payment_incomplete''
   | IntentTimedOut \<Rightarrow> ''intent_expired'' | DuplicatePurchase \<Rightarrow> ''duplicate_purchase'' | UpstreamInvalid \<Rightarrow> ''upstream_invalid'')"

definition cannot_approve :: "membership_reason \<Rightarrow> app_error" where
  "cannot_approve r = AppError (''Order cannot be manually approved: '' @ reason_text r @ ''.'') (if r = DuplicatePurchase then 409 else 422) None"

definition build_manual_approval_grant :: "order_world \<Rightarrow> string \<Rightarrow> checkout_intent \<Rightarrow> paid_order \<Rightarrow> string \<Rightarrow> manual_approval outcome" where
  "build_manual_approval_grant w org intent order correlation =
     (case grant_facts intent order of
        None \<Rightarrow> Inl (cannot_approve UpstreamInvalid)
      | Some (l, paid_at, division, division_name, offering, days, email) \<Rightarrow>
          and_then (ow_timezone w org) (\<lambda>tz.
          and_then (derive_entitlement_dates (ge_zones (ke_grants (ow_env w))) paid_at tz days) (\<lambda>(starts, ends).
          Inr \<lparr>mx_customerId = xi_customerId intent, mx_checkoutIntentId = xi_id intent, mx_shopifyOrderLineGid = ol_id l,
               mx_projection = \<lparr>pi_organizationId = org, pi_shopifyOrderGid = po_id order, pi_shopifyCustomerGid = Some (po_customerGid order),
                 pi_correlationId = Some correlation, pi_fullyPaidAtIso = po_fullyPaidAtIso order,
                 pi_currencyCode = Some (po_currencyCode order), pi_updatedAtIso = ow_now w\<rparr>,
               mx_grant = membership_grant_input org intent order l division division_name offering days starts ends,
               mx_verifiedIdentityEmail = email\<rparr>)))"

definition prepare_manual_approval :: "order_world \<Rightarrow> string \<Rightarrow> string \<Rightarrow> commerce_state \<Rightarrow> manual_approval outcome" where
  "prepare_manual_approval w org gid s =
     (case read_order w org gid of
        Inl _ \<Rightarrow> Inl (AppError ''Shopify order could not be verified.'' 503 None)
      | Inr None \<Rightarrow> Inl (cannot_approve UpstreamInvalid)
      | Inr (Some order) \<Rightarrow>
          if po_id order \<noteq> gid then Inl (cannot_approve UpstreamInvalid)
          else (case correlation_from_order order of
                  Inl reason \<Rightarrow> Inl (cannot_approve reason)
                | Inr correlation \<Rightarrow>
                    (case find_intent_by_correlation org correlation (cs_checkout s) of
                       None \<Rightarrow> Inl (cannot_approve CorrelationInvalid)
                     | Some intent \<Rightarrow>
                         and_then (validate_order w org intent order s) (\<lambda>verdict.
                         (case verdict of
                            Some reason \<Rightarrow> Inl (cannot_approve reason)
                          | None \<Rightarrow> build_manual_approval_grant w org intent order correlation)))))"

end
