(* ===== verification/OrderApproval.thy ===== *)
theory OrderApproval
  imports OrderProjection "HOL-Library.Multiset"
begin

text \<open>
  What the order projection service guarantees: the lines of an approved class order and the lines of
  its checkout intent correspond one to one and their amounts add up, classes are not oversold, every
  claimed delivery is settled, and one failing delivery stops a reconciliation.
\<close>

section \<open>Lines are correlated one to one\<close>

lemma intent_lines_by_id_eq:
  "intent_lines_by_id ls m = Some m' \<Longrightarrow>
     m' = m @ map (\<lambda>l. (il_id l, l)) ls \<and> distinct (map il_id ls) \<and> set (map il_id ls) \<inter> set (js_keys m) = {}"
proof (induction ls arbitrary: m)
  case (Cons l ls)
  then have fresh: "js_get m (il_id l) = None" and rest: "intent_lines_by_id ls (m @ [(il_id l, l)]) = Some m'"
    by (auto simp: js_set_fresh split: if_splits)
  from Cons.IH [OF rest] fresh show ?case by (auto simp: js_get_None_keys js_keys_def)
qed simp

lemma correlate_lines_eq:
  "correlate_lines m used os = Some (ks, used') \<Longrightarrow> \<forall>k v. js_get m k = Some v \<longrightarrow> il_id v = k \<Longrightarrow>
     map kl_orderLine ks = os \<and> used' = used @ map (\<lambda>k. il_id (kl_intentLine k)) ks \<and> (distinct used \<longrightarrow> distinct used') \<and>
     (\<forall>k \<in> set ks. js_get m (il_id (kl_intentLine k)) = Some (kl_intentLine k))"
proof (induction os arbitrary: used ks)
  case (Cons x os)
  define vs where "vs = map snd (filter (\<lambda>a. fst a = CHECKOUT_INTENT_LINE_ID_ATTRIBUTE_KEY) (ol_customAttributes x))"
  from Cons.prems(1) obtain v where v: "vs = [v]"
    unfolding correlate_lines.simps vs_def [symmetric] by (cases vs rule: remdups_adj.cases) simp_all
  note run = Cons.prems(1) [unfolded correlate_lines.simps vs_def [symmetric] v, simplified]
  from run obtain l where l: "js_get m v = Some l" "v \<notin> set used" by (simp split: if_splits option.splits)
  from run l obtain ks' where rest: "correlate_lines m (used @ [v]) os = Some (ks', used')"
    and ks: "ks = \<lparr>kl_intentLine = l, kl_orderLine = x, kl_classConfig = None, kl_festivalId = None, kl_placed = None\<rparr> # ks'"
    by (simp split: if_splits option.splits prod.splits)
  from Cons.prems(2) l(1) have "il_id l = v" by blast
  moreover note Cons.IH [OF rest Cons.prems(2)]
  moreover have "distinct used \<Longrightarrow> distinct (used @ [v])" using l(2) by simp
  ultimately show ?case using l(1) unfolding ks by (metis (no_types, lifting) append.assoc append_Cons append_Nil correlated_line.select_convs(1,2)
        list.set_cases list.simps(9) set_ConsD)
qed simp

lemma correlated_lines_bijective:
  assumes "correlate_class_order_lines intent order = Some ks"
  shows "map kl_orderLine ks = po_lineItems order \<and> mset (map kl_intentLine ks) = mset (xi_lines intent) \<and> distinct (map il_id (xi_lines intent))"
proof -
  from assms obtain m used where m: "intent_lines_by_id (xi_lines intent) [] = Some m" and ks: "correlate_lines m [] (po_lineItems order) = Some (ks, used)"
    and len: "length used = length m"
    by (auto simp: correlate_class_order_lines_def split: if_splits option.splits prod.splits)
  from intent_lines_by_id_eq [OF m] have m': "m = map (\<lambda>l. (il_id l, l)) (xi_lines intent)" and d: "distinct (map il_id (xi_lines intent))" by auto
  then have get: "js_get m k = Some v \<Longrightarrow> v \<in> set (xi_lines intent) \<and> il_id v = k" for k v
    using js_get_Some_in [of m k v] by auto
  note c = correlate_lines_eq [OF ks]
  have used: "used = map il_id (map kl_intentLine ks)" "distinct used" and sub: "set (map kl_intentLine ks) \<subseteq> set (xi_lines intent)"
    using c get by (auto simp: comp_def)
  have dk: "distinct (map kl_intentLine ks)" using used by (metis distinct_map)
  have "length (map kl_intentLine ks) = length (xi_lines intent)" using len used(1) m' by simp
  moreover have di: "distinct (xi_lines intent)" using d by (simp add: distinct_map)
  ultimately have "set (map kl_intentLine ks) = set (xi_lines intent)"
    using sub dk by (metis List.finite_set card_subset_eq distinct_card)
  then have "mset (map kl_intentLine ks) = mset (xi_lines intent)" using mset_set_set [OF dk] mset_set_set [OF di] by simp
  with c get d show ?thesis by auto
qed

lemma find_active_class_config_id:
  assumes "find_active_class_config w org cls = Some (c, f)"
  shows "sc_id c = cls \<and> sc_isActive c \<and> f \<in> set (ow_festivals w org) \<and> c \<in> set (ow_classes w org f)"
proof -
  let ?all = "concat (map (\<lambda>f. case find (\<lambda>c. sc_id c = cls) (ow_classes w org f) of
          Some c \<Rightarrow> if sc_isActive c then [(c, f)] else [] | None \<Rightarrow> []) (ow_festivals w org))"
  from assms have "(c, f) \<in> set ?all"
    unfolding find_active_class_config_def by (cases ?all) (auto split: if_splits)
  then obtain g where g: "g \<in> set (ow_festivals w org)"
    "(c, f) \<in> set (case find (\<lambda>c. sc_id c = cls) (ow_classes w org g) of Some c \<Rightarrow> if sc_isActive c then [(c, g)] else [] | None \<Rightarrow> [])"
    by auto
  then obtain c' where c': "find (\<lambda>c. sc_id c = cls) (ow_classes w org g) = Some c'" "sc_isActive c'" "c = c'" "f = g"
    by (cases "find (\<lambda>c. sc_id c = cls) (ow_classes w org g)") (auto split: if_splits)
  then have "c \<in> set (ow_classes w org f) \<and> sc_id c = cls" by (auto simp: find_Some_iff)
  with g(1) c' show ?thesis by simp
qed

text \<open>A line that passed: bought once, for an active class that is sold as the line says.\<close>

definition line_checked :: "order_world \<Rightarrow> string \<Rightarrow> checkout_intent \<Rightarrow> correlated_line \<Rightarrow> bool" where
  "line_checked w org intent r \<longleftrightarrow>
     line_of_product (il_shopifyProductGid (kl_intentLine r)) (il_shopifyVariantGid (kl_intentLine r)) (kl_orderLine r) \<and>
     (case (if_truthy (or_else (il_festivalClassId (kl_intentLine r)) (xi_festivalClassId intent)), kl_classConfig r, kl_festivalId r, kl_placed r) of
        (Some cls, Some c, Some f, Some _) \<Rightarrow>
          find_active_class_config w org cls = Some (c, f) \<and> sold_as c (il_shopifyProductGid (kl_intentLine r)) (il_shopifyVariantGid (kl_intentLine r))
      | _ \<Rightarrow> False)"

lemma validated_lines:
  "validate_order_lines w org intent s counts ks = Inr rs \<Longrightarrow>
     map kl_intentLine rs = map kl_intentLine ks \<and> map kl_orderLine rs = map kl_orderLine ks \<and> (\<forall>r \<in> set rs. line_checked w org intent r)"
proof (induction ks arbitrary: counts rs)
  case (Cons k ks)
  from Cons.prems obtain cls c f counts' rs' n where
    "if_truthy (or_else (il_festivalClassId (kl_intentLine k)) (xi_festivalClassId intent)) = Some cls"
    "line_of_product (il_shopifyProductGid (kl_intentLine k)) (il_shopifyVariantGid (kl_intentLine k)) (kl_orderLine k)"
    "find_active_class_config w org cls = Some (c, f)" "sold_as c (il_shopifyProductGid (kl_intentLine k)) (il_shopifyVariantGid (kl_intentLine k))"
    and rest: "validate_order_lines w org intent s counts' ks = Inr rs'"
    and rs: "rs = k\<lparr>kl_classConfig := Some c, kl_festivalId := Some f, kl_placed := Some n\<rparr> # rs'"
    by (auto simp: Let_def and_then_eq_Inr split: if_splits option.splits)
  then show ?case using Cons.IH [OF rest] by (auto simp: line_checked_def)
qed simp

definition taken_so_far :: "(string, nat) js_map \<Rightarrow> string \<Rightarrow> commerce_state \<Rightarrow> string \<Rightarrow> nat" where
  "taken_so_far counts org s cls = (case js_get counts cls of Some n \<Rightarrow> n | None \<Rightarrow> commerce_count_confirmed org cls (cs_commerce s))"

definition of_class :: "string \<Rightarrow> correlated_line \<Rightarrow> bool" where
  "of_class cls r \<longleftrightarrow> map_option sc_id (kl_classConfig r) = Some cls"

lemma of_class_checked:
  "of_class i (k\<lparr>kl_classConfig := Some c, kl_festivalId := f, kl_placed := n\<rparr>) \<longleftrightarrow> sc_id c = i"
  "kl_classConfig r = Some c \<Longrightarrow> of_class i r \<longleftrightarrow> sc_id c = i"
  by (simp_all add: of_class_def)

lemma validated_lines_fit:
  assumes "\<not> has_attached_cart intent"
  shows "validate_order_lines w org intent s counts ks = Inr rs \<Longrightarrow> r \<in> set rs \<Longrightarrow> kl_classConfig r = Some c \<Longrightarrow>
     int (taken_so_far counts org s (sc_id c) + length (filter (of_class (sc_id c)) rs)) \<le> sc_capacity c"
proof (induction ks arbitrary: counts rs r c)
  case (Cons k ks)
  let ?cls = "the (if_truthy (or_else (il_festivalClassId (kl_intentLine k)) (xi_festivalClassId intent)))"
  from Cons.prems obtain c0 f rs' where found: "find_active_class_config w org ?cls = Some (c0, f)"
    and room: "int (taken_so_far counts org s (sc_id c0)) < sc_capacity c0"
    and rest: "validate_order_lines w org intent s (js_set (sc_id c0) (taken_so_far counts org s (sc_id c0) + 1) counts) ks = Inr rs'"
    and rs: "rs = k\<lparr>kl_classConfig := Some c0, kl_festivalId := Some f, kl_placed := Some (taken_so_far counts org s (sc_id c0))\<rparr> # rs'"
    using assms by (auto simp: Let_def and_then_eq_Inr not_le taken_so_far_def split: if_splits option.splits)
  have step: "taken_so_far (js_set (sc_id c0) (Suc (taken_so_far counts org s (sc_id c0))) counts) org s i =
      taken_so_far counts org s i + (if i = sc_id c0 then 1 else 0)" for i
    by (cases "i = sc_id c0") (simp_all add: taken_so_far_def)
  have same: "kl_classConfig r' = Some c0" if "r' \<in> set rs'" "of_class (sc_id c0) r'" for r'
  proof -
    have "line_checked w org intent r'" using validated_lines [OF rest] that(1) by blast
    then obtain cls' c' f' where c': "find_active_class_config w org cls' = Some (c', f')" "kl_classConfig r' = Some c'"
      by (auto simp: line_checked_def split: option.splits)
    moreover have "sc_id c' = sc_id c0" using that(2) c'(2) by (simp add: of_class_def)
    moreover note find_active_class_config_id [OF c'(1)] find_active_class_config_id [OF found]
    ultimately show ?thesis using found by simp
  qed
  show ?case
  proof (cases "r \<in> set rs'")
    case True
    from Cons.IH [OF rest True Cons.prems(3)] show ?thesis by (auto simp: step rs of_class_checked(1))
  next
    case False
    with Cons.prems rs have c: "c = c0" by auto
    show ?thesis
    proof (cases "filter (of_class (sc_id c0)) rs'")
      case Nil
      with room c show ?thesis by (simp add: rs of_class_checked(1))
    next
      case (Cons r' xs)
      then have "r' \<in> set rs'" "of_class (sc_id c0) r'" by (auto dest!: filter_eq_ConsD)
      with Cons.IH [OF rest this(1) same] c show ?thesis by (auto simp: step rs of_class_checked(1))
    qed
  qed
qed simp

lemma add_paid_lines_eq:
  "add_paid_lines currency acc ls = Some n \<Longrightarrow> int n = int acc + (\<Sum>l \<leftarrow> ls. minor_or_zero (ol_paidAmount l))"
proof (induction ls arbitrary: acc)
  case (Cons l ls)
  then obtain m where "money_in_minor_units (ol_paidAmount l) = Some m" "add_paid_lines currency (acc + m) ls = Some n"
    by (auto split: if_splits option.splits)
  with Cons.IH [of "acc + m"] show ?case by (simp add: minor_or_zero_def)
qed simp

text \<open>What a plan for several lines went through.\<close>

lemma multi_line_plan:
  assumes "validate_class_purchase w org intent order s = Inr (Inr plan)" and "1 < length (xi_lines intent)"
  obtains ks rs where "correlate_class_order_lines intent order = Some ks" "validate_multi_line_payment intent order"
    "validate_order_lines w org intent s [] ks = Inr rs" "cp_lines plan = Some rs"
proof -
  from assms obtain ks where ks: "correlate_class_order_lines intent order = Some ks" and plan: "validate_multi_line w org intent order ks s = Inr plan"
    by (auto simp: validate_class_purchase_def Let_def and_then_eq_Inr split: if_splits option.splits)
  from plan obtain rs where pay: "validate_multi_line_payment intent order" and rs: "validate_order_lines w org intent s [] ks = Inr rs"
    by (auto simp: validate_multi_line_def and_then_eq_Inr split: if_splits)
  have "cp_lines plan = Some rs"
    using plan by (cases rs) (auto simp: validate_multi_line_def pay rs split: option.splits)
  with pay rs ks that show thesis by blast
qed

lemma checked_line_class:
  assumes "line_checked w org intent r"
  obtains c where "kl_classConfig r = Some c" "\<And>d order plan. ci_festivalClassId (multi_line_entitlement d intent order plan r) = sc_id c"
    "\<And>d order plan. ci_capacityAtAllocation (multi_line_entitlement d intent order plan r) = Some (sc_capacity c)"
proof -
  from assms obtain cls c f where cls: "if_truthy (or_else (il_festivalClassId (kl_intentLine r)) (xi_festivalClassId intent)) = Some cls"
    and c: "kl_classConfig r = Some c" and found: "find_active_class_config w org cls = Some (c, f)"
    by (auto simp: line_checked_def split: option.splits)
  from find_active_class_config_id [OF found] cls
  have "ci_festivalClassId (multi_line_entitlement d intent order plan r) = sc_id c" for d order plan
    by (cases "il_festivalClassId (kl_intentLine r)") (auto simp: multi_line_entitlement_def Let_def c or_else_def if_truthy_def split: if_splits)
  moreover have "ci_capacityAtAllocation (multi_line_entitlement d intent order plan r) = Some (sc_capacity c)" for d order plan
    by (simp add: multi_line_entitlement_def Let_def c)
  ultimately show thesis using that c by blast
qed

text \<open>
  C32: an order for several classes that is approved pays every line of the checkout exactly once:
  there is one entitlement per paid line, in the order of the lines, and per line of the intent, the
  amounts add up to the amount of the intent, and each entitlement is for the child of its line.
\<close>
theorem approved_order_pays_every_line_once:
  assumes "validate_class_purchase w org intent order s = Inr (Inr plan)" and "1 < length (xi_lines intent)"
  shows "\<exists>part es. class_part d intent order plan = Inr part \<and> fp_status part = DecApproved \<and> fp_classEntitlements part = Some es \<and>
    map ci_shopifyOrderLineGid es = map ol_id (po_lineItems order) \<and>
    mset (map ci_checkoutIntentLineId es) = mset (map (\<lambda>l. Some (il_id l)) (xi_lines intent)) \<and> distinct (map ci_checkoutIntentLineId es) \<and>
    (\<Sum>e \<leftarrow> es. ci_paidAmountCents e) = minor_or_zero (xi_amount intent) \<and>
    (\<forall>e \<in> set es. \<exists>l \<in> set (xi_lines intent). ci_checkoutIntentLineId e = Some (il_id l) \<and>
       or_else (il_childId l) (xi_childId intent) \<in> {None, Some (ci_childId e)} \<and> ci_parentCustomerId e = xi_customerId intent)"
proof -
  obtain ks rs where ks: "correlate_class_order_lines intent order = Some ks" and pay: "validate_multi_line_payment intent order"
    and rs: "validate_order_lines w org intent s [] ks = Inr rs" and plan: "cp_lines plan = Some rs"
    using multi_line_plan [OF assms] .
  let ?es = "map (multi_line_entitlement d intent order plan) rs"
  note c = correlated_lines_bijective [OF ks] and v = validated_lines [OF rs]
  have part: "class_part d intent order plan = Inr (approved_classes intent None None (Some ?es))"
    using assms(2) plan by (simp add: class_part_def)
  have orders: "map kl_orderLine rs = po_lineItems order" and lines: "mset (map kl_intentLine rs) = mset (xi_lines intent)"
    using c v by auto
  have ids: "map ci_checkoutIntentLineId ?es = map (\<lambda>l. Some (il_id l)) (map kl_intentLine rs)"
    by (simp add: multi_line_entitlement_def Let_def)
  have perm: "mset (map ci_checkoutIntentLineId ?es) = mset (map (\<lambda>l. Some (il_id l)) (xi_lines intent))"
    unfolding ids using lines by (metis mset_map)
  moreover have "distinct (map (\<lambda>l. Some (il_id l)) (xi_lines intent))" using c by (simp add: distinct_map inj_on_def)
  ultimately have "distinct (map ci_checkoutIntentLineId ?es)" by (metis mset_eq_imp_distinct_iff)
  moreover have "map ci_shopifyOrderLineGid ?es = map ol_id (po_lineItems order)"
    unfolding orders [symmetric] by (simp add: multi_line_entitlement_def Let_def)
  moreover have "(\<Sum>e \<leftarrow> ?es. ci_paidAmountCents e) = (\<Sum>l \<leftarrow> po_lineItems order. minor_or_zero (ol_paidAmount l))"
    unfolding orders [symmetric] by (simp add: multi_line_entitlement_def Let_def comp_def)
  moreover have "\<dots> = minor_or_zero (xi_amount intent)"
    using pay add_paid_lines_eq [of _ 0] by (auto simp: validate_multi_line_payment_def minor_or_zero_def split: option.splits)
  moreover have "\<exists>l \<in> set (xi_lines intent). ci_checkoutIntentLineId e = Some (il_id l) \<and>
       or_else (il_childId l) (xi_childId intent) \<in> {None, Some (ci_childId e)} \<and> ci_parentCustomerId e = xi_customerId intent"
    if "e \<in> set ?es" for e
  proof -
    from that obtain r where r: "r \<in> set rs" "e = multi_line_entitlement d intent order plan r" by auto
    then have "kl_intentLine r \<in> set (xi_lines intent)" using lines by (metis image_eqI image_set mset_eq_setD)
    then show ?thesis by (rule bexI [rotated]) (auto simp: r(2) multi_line_entitlement_def Let_def split: option.splits)
  qed
  ultimately show ?thesis
    by (intro exI [of _ "approved_classes intent None None (Some ?es)"] exI [of _ ?es] conjI ballI part perm)
      (simp_all only: approved_classes_def finalize_part.simps)
qed

text \<open>What a plan for one line went through, and what it is finalized with.\<close>

lemma single_line_plan:
  assumes "validate_class_purchase w org intent order s = Inr (Inr plan)" and "\<not> 1 < length (xi_lines intent)"
  obtains cls child l where "find_active_class_config w org cls = Some (cp_config plan, cp_festivalId plan)"
    "sc_capacity (cp_config plan) \<le> int (commerce_count_confirmed org (sc_id (cp_config plan)) (cs_commerce s)) \<Longrightarrow> has_attached_cart intent"
    "\<And>d. class_part d intent order plan = Inr (approved_classes intent (Some (ol_id l)) (Some (single_line_entitlement d intent order plan child l)) None)"
proof -
  from assms obtain ks legacy paid where plan: "validate_single_line w org intent order ks legacy s = Inr plan" and paid: "if_truthy (po_fullyPaidAtIso order) = Some paid"
    by (auto simp: validate_class_purchase_def Let_def and_then_eq_Inr split: if_splits option.splits)
  from plan obtain cls child c f l where child: "if_truthy (xi_childId intent) = Some child" and found: "find_active_class_config w org cls = Some (c, f)"
    and line: "single_order_line ks legacy order = Some l" and room: "sc_capacity c \<le> int (commerce_count_confirmed org (sc_id c) (cs_commerce s)) \<Longrightarrow> has_attached_cart intent"
    and plan: "plan = \<lparr>cp_config = c, cp_festivalId = f, cp_lines = ks, cp_legacy = legacy, cp_placed = Some (commerce_count_confirmed org (sc_id c) (cs_commerce s))\<rparr>"
    unfolding validate_single_line_def Let_def by (auto split: if_splits option.splits)
  show thesis
    by (rule that [of cls l child]) (use assms(2) found room in \<open>simp_all add: plan class_part_def line paid child\<close>)
qed

text \<open>The class entitlements a finalization is asked to create.\<close>

definition part_entitlements :: "finalize_part \<Rightarrow> class_entitlement_input list" where
  "part_entitlements part =
     (case fp_classEntitlements part of
        Some es \<Rightarrow> es | None \<Rightarrow> (case fp_classEntitlement part of Some e \<Rightarrow> [e] | None \<Rightarrow> []))"

lemma part_entitlements_approved [simp]:
  "part_entitlements (approved_classes intent line one (Some es)) = es"
  "part_entitlements (approved_classes intent line (Some e) None) = [e]"
  by (simp_all add: part_entitlements_def approved_classes_def)

text \<open>
  C33: without a cart a class order, for one line or for several, is only approved when its classes have
  room.  In the stores its validation reads, the entitlements confirmed for a class and all of the
  order's for it together are within the capacity of the class, which is active.  Nothing is said of the
  stores at the finalization: other requests may run at the waits in between.
\<close>
theorem approved_order_fits_capacity:
  assumes "validate_class_purchase w org intent order s = Inr (Inr plan)" and "\<not> has_attached_cart intent"
  shows "\<exists>part. class_part d intent order plan = Inr part \<and> fp_status part = DecApproved \<and>
    (length (xi_lines intent) \<le> 1 \<longrightarrow> length (part_entitlements part) = 1) \<and>
    (1 < length (xi_lines intent) \<longrightarrow> length (part_entitlements part) = length (xi_lines intent)) \<and>
    (\<forall>e \<in> set (part_entitlements part). \<exists>c f. find_active_class_config w org (ci_festivalClassId e) = Some (c, f) \<and>
       ci_capacityAtAllocation e = Some (sc_capacity c) \<and>
       int (commerce_count_confirmed org (ci_festivalClassId e) (cs_commerce s) +
            length (filter (\<lambda>x. ci_festivalClassId x = ci_festivalClassId e) (part_entitlements part))) \<le> sc_capacity c)"
proof (cases "1 < length (xi_lines intent)")
  case True
  obtain ks rs where ks: "correlate_class_order_lines intent order = Some ks"
    and rs: "validate_order_lines w org intent s [] ks = Inr rs" and plan: "cp_lines plan = Some rs"
    using multi_line_plan [OF assms(1) True] by metis
  let ?f = "multi_line_entitlement d intent order plan"
  have part: "class_part d intent order plan = Inr (approved_classes intent None None (Some (map ?f rs)))"
    using True plan by (simp add: class_part_def)
  have cls: "of_class i r \<longleftrightarrow> ci_festivalClassId (?f r) = i" if "r \<in> set rs" for r i
    using validated_lines [OF rs] that checked_line_class [of w org intent r] of_class_checked(2) by metis
  have all: "\<exists>c f. find_active_class_config w org (ci_festivalClassId (?f r)) = Some (c, f) \<and>
      ci_capacityAtAllocation (?f r) = Some (sc_capacity c) \<and>
      int (commerce_count_confirmed org (ci_festivalClassId (?f r)) (cs_commerce s) +
           length (filter (\<lambda>x. ci_festivalClassId x = ci_festivalClassId (?f r)) (map ?f rs))) \<le> sc_capacity c" if r: "r \<in> set rs" for r
  proof -
    have ok: "line_checked w org intent r" using validated_lines [OF rs] r by blast
    from checked_line_class [OF ok] obtain c
      where c: "kl_classConfig r = Some c" "ci_festivalClassId (?f r) = sc_id c" "ci_capacityAtAllocation (?f r) = Some (sc_capacity c)" by metis
    from ok c(1) obtain i f where "find_active_class_config w org i = Some (c, f)" by (auto simp: line_checked_def split: option.splits)
    with find_active_class_config_id [OF this] have "find_active_class_config w org (ci_festivalClassId (?f r)) = Some (c, f)" by (simp add: c(2))
    moreover have "length (filter (\<lambda>x. ci_festivalClassId x = sc_id c) (map ?f rs)) = length (filter (of_class (sc_id c)) rs)"
      using cls by (auto simp: filter_map comp_def intro!: arg_cong [where f = length] filter_cong)
    ultimately show ?thesis using validated_lines_fit [OF assms(2) rs r c(1)] c(2,3) by (simp add: taken_so_far_def)
  qed
  have "map kl_intentLine rs = map kl_intentLine ks" using validated_lines [OF rs] by blast
  then have "length rs = length ks" by (metis length_map)
  moreover have "length ks = length (xi_lines intent)"
    using correlated_lines_bijective [OF ks] by (metis length_map size_mset)
  ultimately show ?thesis using True part all
    by (intro exI [of _ "approved_classes intent None None (Some (map ?f rs))"]) (simp add: approved_classes_def part_entitlements_def)
next
  case False
  from single_line_plan [OF assms(1) False] obtain i child l
    where found: "find_active_class_config w org i = Some (cp_config plan, cp_festivalId plan)"
    and full: "sc_capacity (cp_config plan) \<le> int (commerce_count_confirmed org (sc_id (cp_config plan)) (cs_commerce s)) \<Longrightarrow> has_attached_cart intent"
    and part: "class_part d intent order plan = Inr (approved_classes intent (Some (ol_id l)) (Some (single_line_entitlement d intent order plan child l)) None)"
    by metis
  have e: "ci_festivalClassId (single_line_entitlement d intent order plan child l) = sc_id (cp_config plan)"
    "ci_capacityAtAllocation (single_line_entitlement d intent order plan child l) = Some (sc_capacity (cp_config plan))"
    by (simp_all add: single_line_entitlement_def)
  from full assms(2) have room: "int (commerce_count_confirmed org (sc_id (cp_config plan)) (cs_commerce s)) < sc_capacity (cp_config plan)"
    by linarith
  have "find_active_class_config w org (sc_id (cp_config plan)) = Some (cp_config plan, cp_festivalId plan)"
    using found find_active_class_config_id [OF found] by simp
  with False room part show ?thesis
    by (intro exI [of _ "approved_classes intent (Some (ol_id l)) (Some (single_line_entitlement d intent order plan child l)) None"])
      (auto simp: e approved_classes_def part_entitlements_def)
qed

section \<open>An order for two places of a class\<close>

definition demo_uuid :: "string \<Rightarrow> string" where
  "demo_uuid c = concat (replicate 8 c) @ ''-'' @ concat (replicate 4 c) @ ''-4'' @ concat (replicate 3 c) @ ''-8'' @ concat (replicate 3 c) @
     ''-'' @ concat (replicate 12 c)"

definition demo_order_line :: "string \<Rightarrow> order_line" where
  "demo_order_line c = \<lparr>ol_id = ''line'' @ c, ol_productGid = Some ''product'', ol_variantGid = Some ''variant'', ol_quantity = 1,
     ol_paidAmount = ''25.5'', ol_paidCurrencyCode = ''USD'', ol_customAttributes = [(CHECKOUT_INTENT_LINE_ID_ATTRIBUTE_KEY, demo_uuid c)]\<rparr>"

definition demo_order :: paid_order where
  "demo_order = \<lparr>po_id = ''order'', po_customerGid = ''gid'', po_customerEmail = Some ''a.teacher@example.org'', po_fullyPaid = True,
     po_fullyPaidAtIso = Some ''2026-03-20T12:00:00.000Z'', po_currencyCode = ''USD'',
     po_customAttributes = [(CHECKOUT_INTENT_ATTRIBUTE, demo_uuid ''a'')], po_lineItems = [demo_order_line ''2'', demo_order_line ''1'']\<rparr>"

definition demo_intent_line :: "string \<Rightarrow> string \<Rightarrow> intent_line" where
  "demo_intent_line c child = \<lparr>il_id = demo_uuid c, il_checkoutIntentId = ''i1'', il_lineIndex = 0, il_lineType = ''class_entry'', il_festivalClassId = Some ''cls'',
     il_childId = Some child, il_offeringId = None, il_shopifyProductGid = ''product'', il_shopifyVariantGid = ''variant'', il_amount = ''25.50'',
     il_currencyCode = ''USD'', il_divisionId = None, il_divisionNameSnapshot = None, il_createdAtIso = ''2026-03-20T11:00:00.000Z''\<rparr>"

definition demo_class_intent :: checkout_intent where
  "demo_class_intent = \<lparr>xi_id = ''i1'', xi_correlationId = demo_uuid ''a'', xi_organizationId = ''org'', xi_customerId = ''cust'', xi_sessionId = ''s'',
     xi_idempotencyKey = ''k'', xi_intentType = ClassEntryIntent, xi_offeringId = None, xi_entitlementClass = None, xi_durationDays = None,
     xi_festivalClassId = None, xi_childId = None, xi_shopifyProductGid = ''product'', xi_shopifyVariantGid = ''variant'', xi_policyVersion = None,
     xi_divisionId = None, xi_divisionNameSnapshot = None, xi_staffAccessConsent = False, xi_amount = ''51.00'', xi_currencyCode = ''USD'',
     xi_cartReference = None, xi_status = IntentReady, xi_expiresAtIso = ''2026-03-20T13:00:00.000Z'', xi_createdAtIso = ''2026-03-20T11:00:00.000Z'',
     xi_lineIdentityProtocol = Some ''v1'', xi_lines = [demo_intent_line ''1'' ''kim'', demo_intent_line ''2'' ''lee'']\<rparr>"

definition demo_order_world :: order_world where
  "demo_order_world = \<lparr>ow_env = demo_commerce_env 0, ow_others = (\<lambda>_ s. s), ow_pending = (\<lambda>_. None), ow_decrypt = Some (\<lambda>_. Inr ()),
     ow_integration = (\<lambda>_. Some \<lparr>si_verified = True, si_verifiedShopGid = Some ''shop'', si_verifiedShopDomain = Some ''shop.example'', si_readOrdersGranted = True\<rparr>),
     ow_readOrder = (\<lambda>_ _. Inr (Some demo_order)), ow_paidSince = (\<lambda>_ _ _. Inr [demo_order]), ow_readProfile = None,
     ow_customers = Some (\<lambda>_ _. Some (Some ''gid'')), ow_customerCall = (\<lambda>_. Inr ()), ow_offering = (\<lambda>_ _. None), ow_divisions = (\<lambda>_. []),
     ow_festivals = (\<lambda>_. [''fest'']),
     ow_classes = (\<lambda>_ _. [\<lparr>sc_id = ''cls'', sc_isActive = True, sc_shopifyProductGid = Some ''product'', sc_shopifyVariantGid = Some ''variant'', sc_capacity = 2\<rparr>]),
     ow_timezone = (\<lambda>_. Inr ''UTC''), ow_parse = (\<lambda>t. Some (if t = ''2026-03-20T13:00:00.000Z'' then 46800000 else 43200000)), ow_sha256 = (\<lambda>s. s)\<rparr>"

lemma demo_order_valid:
  "\<exists>plan. validate_class_purchase demo_order_world ''org'' demo_class_intent demo_order empty_commerce_state = Inr (Inr plan)"
proof -
  have "case validate_class_purchase demo_order_world ''org'' demo_class_intent demo_order empty_commerce_state of Inr (Inr _) \<Rightarrow> True | _ \<Rightarrow> False"
    by code_simp
  then show ?thesis by (auto split: sum.splits)
qed

section \<open>Every claimed delivery is settled\<close>

abbreviation deliveries_of :: "commerce_state \<Rightarrow> (string, webhook_delivery) js_map" where
  "deliveries_of s \<equiv> co_deliveries (cs_commerce s)"

lemma create_classes_deliveries: "create_classes env xs s = (r, s') \<Longrightarrow> deliveries_of s' = deliveries_of s"
proof (induction xs arbitrary: s r)
  case (Cons x xs)
  then show ?case
    by (auto simp: link_entitlement_def split: prod.splits sum.splits dest!: Cons.IH)
qed simp

lemma create_paid_deliveries: "create_paid env i s = (r, s') \<Longrightarrow> deliveries_of s' = deliveries_of s"
  by (auto simp: create_paid_def Let_def act_bind_def split: if_splits option.splits prod.splits sum.splits dest: create_classes_deliveries)

lemma resolve_terminal_deliveries [simp]: "cs_commerce (resolve_terminal_intent env d s) = cs_commerce s"
  by (simp add: resolve_terminal_intent_def split: option.splits)

lemma decide_deliveries:
  "decide env i ex s = (r, s') \<Longrightarrow>
     deliveries_of s' = (case r of Inl _ \<Rightarrow> deliveries_of s | Inr _ \<Rightarrow> co_deliveries (mark_delivery_processed (fi_deliveryId i) (ke_now env) (cs_commerce s)))"
  by (cases "fi_projection i")
    (auto simp: decide_def Let_def act_bind_def on_commerce_def guard_def settle_delivery_def mark_delivery_processed_def change_delivery_def
        store_decision_def upsert_order_projection_def dest!: create_paid_deliveries split: if_splits option.splits prod.splits sum.splits)

lemma finalize_internal_deliveries:
  assumes "finalize_internal env i s = (r, s')"
  shows "deliveries_of s' = (case r of Inl _ \<Rightarrow> deliveries_of s | Inr _ \<Rightarrow> co_deliveries (mark_delivery_processed (fi_deliveryId i) (ke_now env) (cs_commerce s)))"
proof -
  have answer: "answer_existing env i d s = (r, s') \<Longrightarrow> ?thesis" for d
    by (auto simp: answer_existing_def Let_def settle_delivery_def mark_delivery_processed_def change_delivery_def)
  have decided: "answer_decided env i d es s = (r, s') \<Longrightarrow> ?thesis" for d es
    by (auto simp: answer_decided_def settle_delivery_def mark_delivery_processed_def change_delivery_def)
  have order: "decide_order env i ex s = (r, s') \<Longrightarrow> ?thesis" for ex
    using answer decide_deliveries by (auto simp: decide_order_def Let_def split: option.splits)
  show ?thesis using assms order decided
    by (auto simp: finalize_internal_def act_bind_def split: if_splits option.splits prod.splits sum.splits)
qed

lemma finalize_atomically_deliveries:
  assumes "finalize_atomically env i s = (r, s')"
  shows "js_get (deliveries_of s') k =
    (case r of Inl _ \<Rightarrow> js_get (deliveries_of s) k | Inr _ \<Rightarrow> js_get (co_deliveries (mark_delivery_processed (fi_deliveryId i) (ke_now env) (cs_commerce s))) k)"
proof (cases "finalize_internal env i s")
  case (Pair r' t)
  show ?thesis
  proof (cases r')
    case (Inl e)
    with Pair assms finalize_internal_deliveries [OF Pair] show ?thesis
      by (cases "js_get (deliveries_of s) (fi_deliveryId i)")
        (auto simp: finalize_atomically_def roll_back_def Let_def cong: option.case_cong)
  next
    case (Inr x)
    with Pair assms finalize_internal_deliveries [OF Pair] show ?thesis by (auto simp: finalize_atomically_def)
  qed
qed

definition known_delivery :: "string \<Rightarrow> order_state \<Rightarrow> bool" where
  "known_delivery did s \<longleftrightarrow> js_get (deliveries_of (os_store s)) did \<noteq> None"

definition settled_delivery :: "string \<Rightarrow> order_state \<Rightarrow> bool" where
  "settled_delivery did s \<longleftrightarrow>
     (case js_get (deliveries_of (os_store s)) did of
        None \<Rightarrow> False
      | Some d \<Rightarrow> wd_status d = DeliveryProcessed \<and> wd_processingStartedAtIso d = None \<and> wd_failureCategory d = None)"

text \<open>Other requests never delete the delivery.\<close>

definition others_keep_delivery :: "order_world \<Rightarrow> string \<Rightarrow> bool" where
  "others_keep_delivery w did \<longleftrightarrow>
     (\<forall>p t. js_get (deliveries_of t) did \<noteq> None \<longrightarrow> js_get (deliveries_of (ow_others w p t)) did \<noteq> None)"

definition keeps :: "string \<Rightarrow> 'a order_step \<Rightarrow> bool" where
  "keeps did m \<longleftrightarrow> (\<forall>s. known_delivery did s \<longrightarrow> known_delivery did (snd (m s)))"

definition settles :: "string \<Rightarrow> 'a order_step \<Rightarrow> bool" where
  "settles did m \<longleftrightarrow>
     (\<forall>s. known_delivery did s \<longrightarrow> known_delivery did (snd (m s)) \<and> ((\<exists>x. fst (m s) = Inr x) \<longrightarrow> settled_delivery did (snd (m s))))"

definition leaves_stores :: "'a order_step \<Rightarrow> bool" where
  "leaves_stores m \<longleftrightarrow> (\<forall>s. os_store (snd (m s)) = os_store s)"

definition never_fails :: "processing_result order_step \<Rightarrow> bool" where
  "never_fails m \<longleftrightarrow> (\<forall>s. fst (m s) \<noteq> Inr ProcessingFailed)"

lemma settles_bind:
  assumes "keeps did m" "\<And>x. settles did (k x)"
  shows "settles did (step_bind m k)"
proof (unfold settles_def, intro allI impI)
  fix s assume s: "known_delivery did s"
  obtain r t where m: "m s = (r, t)" by (meson surj_pair)
  with assms(1) s have "known_delivery did t" by (auto simp: keeps_def dest: spec [of _ s])
  with assms(2) m show "known_delivery did (snd (step_bind m k s)) \<and> ((\<exists>x. fst (step_bind m k s) = Inr x) \<longrightarrow> settled_delivery did (snd (step_bind m k s)))"
    by (cases r) (auto simp: step_bind_def settles_def)
qed

lemma settles_then:
  assumes "settles did m" "\<And>x. leaves_stores (k x)"
  shows "settles did (step_bind m k)"
proof (unfold settles_def, intro allI impI)
  fix s assume s: "known_delivery did s"
  obtain r t where m: "m s = (r, t)" by (meson surj_pair)
  have "os_store (snd (k x t)) = os_store t" for x using assms(2) by (simp add: leaves_stores_def)
  with assms(1) s m show "known_delivery did (snd (step_bind m k s)) \<and> ((\<exists>x. fst (step_bind m k s) = Inr x) \<longrightarrow> settled_delivery did (snd (step_bind m k s)))"
    by (cases r) (auto simp: step_bind_def settles_def known_delivery_def settled_delivery_def dest!: spec [of _ s])
qed

lemma leaves_bind: "leaves_stores m \<Longrightarrow> (\<And>x. leaves_stores (k x)) \<Longrightarrow> leaves_stores (step_bind m k)"
  by (simp add: leaves_stores_def step_bind_def split: prod.splits sum.splits) (metis snd_conv)

lemma keeps_bind: "keeps did m \<Longrightarrow> (\<And>x. keeps did (k x)) \<Longrightarrow> keeps did (step_bind m k)"
  by (simp add: keeps_def step_bind_def split: prod.splits sum.splits) (metis snd_conv)

lemma leaves_keeps: "leaves_stores m \<Longrightarrow> keeps did m"
  by (simp add: leaves_stores_def keeps_def known_delivery_def)

lemma leaves_pure: "leaves_stores (\<lambda>s. (r, s))"
  by (simp add: leaves_stores_def)

lemma never_bind: "(\<And>x. never_fails (k x)) \<Longrightarrow> never_fails (step_bind m k)"
  by (simp add: never_fails_def step_bind_def split: prod.splits sum.splits)

lemma keeps_read_at: "others_keep_delivery w did \<Longrightarrow> keeps did (read_at w p f)"
  by (auto simp: keeps_def read_at_def Let_def known_delivery_def others_keep_delivery_def)

lemma leaves_profile: "leaves_stores (project_consented_customer_profile w org intent order)"
  unfolding project_consented_customer_profile_def
  by (auto intro!: leaves_bind leaves_pure split: option.split) (simp_all add: leaves_stores_def customer_call_step_def split: sum.split)

lemma settled_after_mark:
  "js_get (deliveries_of t) did \<noteq> None \<Longrightarrow> settled_delivery did (s\<lparr>os_store := t\<lparr>cs_commerce := mark_delivery_processed did now (cs_commerce t)\<rparr>\<rparr>)"
  by (auto simp: settled_delivery_def mark_delivery_processed_def change_delivery_def without_failure_def)

lemma settled_known: "settled_delivery did s \<Longrightarrow> known_delivery did s"
  by (auto simp: settled_delivery_def known_delivery_def split: option.splits)

lemma settles_finalize:
  assumes "others_keep_delivery w (wd_id d)"
  shows "settles (wd_id d) (finalize_order w d part projection)"
proof (unfold settles_def, intro allI impI)
  fix s assume "known_delivery (wd_id d) s"
  let ?t = "ow_others w PFinalize (os_store s)" and ?i = "finalization_of w d part projection"
  have known: "js_get (deliveries_of ?t) (wd_id d) \<noteq> None"
    using assms \<open>known_delivery (wd_id d) s\<close> by (auto simp: others_keep_delivery_def known_delivery_def)
  have id: "fi_deliveryId ?i = wd_id d" by (simp add: finalization_of_def)
  obtain r u where run: "finalize_decision (ow_env w) ?i (ow_pending w ?i) ?t = (r, u)" by (meson surj_pair)
  have u: "js_get (deliveries_of u) (wd_id d) = (case r of Inl _ \<Rightarrow> js_get (deliveries_of ?t) (wd_id d)
      | Inr _ \<Rightarrow> js_get (co_deliveries (mark_delivery_processed (wd_id d) (ke_now (ow_env w)) (cs_commerce ?t))) (wd_id d))"
    using run finalize_atomically_deliveries [of "ow_env w" ?i ?t r u "wd_id d"] id
    by (auto simp: finalize_decision_def settle_delivery_def split: option.splits sum.splits)
  have step: "finalize_order w d part projection s = (as_order_error r, s\<lparr>os_store := u\<rparr>)"
    by (simp add: finalize_order_def Let_def step_at_def run)
  show "known_delivery (wd_id d) (snd (finalize_order w d part projection s)) \<and>
      ((\<exists>x. fst (finalize_order w d part projection s) = Inr x) \<longrightarrow> settled_delivery (wd_id d) (snd (finalize_order w d part projection s)))"
    using u known settled_after_mark [OF known, where s = s and now = "ke_now (ow_env w)"] 
    by (cases r) (auto simp: step known_delivery_def settled_delivery_def as_order_error_def split: option.splits)
qed

lemma settles_conclude: "others_keep_delivery w (wd_id d) \<Longrightarrow> settles (wd_id d) (conclude w d part projection)"
  unfolding conclude_def by (intro settles_then settles_finalize leaves_pure)

lemma settles_mark:
  assumes "others_keep_delivery w (wd_id d)"
  shows "settles (wd_id d) (mark_processed_step w d r)"
proof -
  have "settled_delivery (wd_id d) (snd (mark_processed_step w d r s))" if "known_delivery (wd_id d) s" for s
  proof -
    have "js_get (deliveries_of (ow_others w PMark (os_store s))) (wd_id d) \<noteq> None"
      using assms that by (auto simp: others_keep_delivery_def known_delivery_def)
    from settled_after_mark [OF this, where s = s and now = "ke_now (ow_env w)"] show ?thesis
      by (simp add: mark_processed_step_def commerce_at_def Let_def)
  qed
  then show ?thesis using settled_known by (auto simp: settles_def)
qed

lemma settles_order:
  assumes "others_keep_delivery w (wd_id d)"
  shows "settles (wd_id d) (project_order w d pending found)"
proof -
  have approved: "settles (wd_id d) (process_approved w d intent order)" for intent order
    unfolding process_approved_def by (intro settles_bind leaves_keeps settles_mark assms) (simp add: leaves_profile leaves_pure)
  have final: "settles (wd_id d) (step_bind (finalize_order w d part projection) (\<lambda>_.
      step_bind (project_consented_customer_profile w (delivery_org d) intent order) (\<lambda>_ s. (Inr Processed, s))))" for part projection intent order
    by (intro settles_then settles_finalize leaves_bind leaves_profile leaves_pure assms)
  have classes: "settles (wd_id d) (process_class_delivery w d intent order projection)" for intent order projection
    unfolding process_class_delivery_def
  proof (intro settles_bind keeps_read_at assms)
    fix verdict show "settles (wd_id d) (case verdict of
        Inl reason \<Rightarrow> conclude w d (unapproved (Some intent) (status_for reason) reason) (Some projection)
      | Inr plan \<Rightarrow> step_bind (\<lambda>s. (as_order_error (class_part d intent order plan), s)) (\<lambda>part.
          if fp_status part \<noteq> DecApproved then conclude w d part (Some projection)
          else step_bind (finalize_order w d part (Some projection)) (\<lambda>_.
            step_bind (project_consented_customer_profile w (delivery_org d) intent order) (\<lambda>_ s. (Inr Processed, s)))))"
      by (cases verdict) (simp_all add: settles_conclude assms settles_bind leaves_keeps leaves_pure final)
  qed
  have membership: "settles (wd_id d) (process_membership_delivery w d intent order projection)" for intent order projection
    unfolding process_membership_delivery_def
  proof (intro settles_bind keeps_read_at assms)
    fix verdict show "settles (wd_id d) (case verdict of
        Some reason \<Rightarrow> conclude w d (unapproved (Some intent) (status_for reason) reason) (Some projection)
      | None \<Rightarrow> step_bind (read_at w PCall (membership_part w d intent order)) (\<lambda>part.
          if fp_status part \<noteq> DecApproved then conclude w d part (Some projection)
          else step_bind (finalize_order w d part (Some projection)) (\<lambda>_.
            step_bind (project_consented_customer_profile w (delivery_org d) intent order) (\<lambda>_ s. (Inr Processed, s)))))"
      by (cases verdict) (simp_all add: settles_conclude assms settles_bind keeps_read_at final)
  qed
  show ?thesis unfolding project_order_def Let_def
    using approved classes membership
    by (auto split: option.split sum.split intro!: settles_conclude settles_bind keeps_read_at assms)
qed

lemma never_fails_order: "never_fails (project_order w d pending found)"
proof -
  have conclude: "never_fails (conclude w d part projection)" for part projection
    unfolding conclude_def by (intro never_bind) (simp add: never_fails_def)
  have pure: "never_fails (\<lambda>s. (Inr Processed, s))" by (simp add: never_fails_def)
  have mark: "r \<noteq> ProcessingFailed \<Longrightarrow> never_fails (mark_processed_step w d r)" for r
    by (simp add: never_fails_def mark_processed_step_def split: prod.split)
  show ?thesis
    unfolding project_order_def Let_def process_approved_def process_class_delivery_def process_membership_delivery_def
    by (auto split: option.split sum.split intro!: conclude never_bind pure mark)
qed

text \<open>
  C34: a claimed delivery never stays under way.  Whatever Shopify, the customers and other requests do,
  once its processing ends the delivery is marked as processed, or as failed with the stage, the
  category and the time of the failure, and it holds no lease.
\<close>
theorem claimed_delivery_is_settled:
  assumes "others_keep_delivery w did"
    and "js_get (deliveries_of (ow_others w PClaim (os_store s))) did = Some d" "wd_id d = did" "wd_status d \<in> {DeliveryReceived, DeliveryFailed}"
    and "process_delivery w did s = (r, s')"
  shows "\<exists>d'. js_get (deliveries_of (os_store s')) did = Some d' \<and> wd_processingStartedAtIso d' = None \<and>
    (if r = ProcessingFailed
     then wd_status d' = DeliveryFailed \<and> wd_failedAtIso d' = Some (ow_now w) \<and> wd_failureStage d' \<noteq> None \<and> wd_failureCategory d' \<noteq> None
     else wd_status d' = DeliveryProcessed \<and> wd_failureCategory d' = None)"
proof -
  let ?d = "claimed (ke_now (ow_env w)) d" and ?t = "ow_others w PClaim (os_store s)"
  define s1 where "s1 = s\<lparr>os_store := ?t\<lparr>cs_commerce := change_delivery did (claimed (ke_now (ow_env w))) (cs_commerce ?t)\<rparr>\<rparr>"
  have claim: "commerce_at w PClaim (claim_delivery did (ke_now (ow_env w))) s = (Some ?d, s1)"
    using assms(2,4) by (auto simp: commerce_at_def Let_def claim_delivery_def s1_def)
  have id: "wd_id ?d = did" using assms(3) by (simp add: claimed_def without_failure_def)
  note keep = assms(1) [folded id]
  have known: "known_delivery (wd_id ?d) s1" using assms(2) by (simp add: known_delivery_def s1_def change_delivery_def id)
  obtain pending s2 where pending: "commerce_at w PPending (record_pending_decision (delivery_org ?d) (delivery_order ?d) (ow_now w) (ke_decisionId (ow_env w))) s1 = (pending, s2)"
    by (meson surj_pair)
  then have "deliveries_of (os_store s2) = deliveries_of (ow_others w PPending (os_store s1))"
    by (auto simp: commerce_at_def Let_def record_pending_decision_def split: option.splits prod.splits)
  with known keep have known2: "known_delivery (wd_id ?d) s2" by (auto simp: known_delivery_def others_keep_delivery_def)
  obtain q s3 where steps: "delivery_steps w ?d s1 = (q, s3)" by (meson surj_pair)
  have finished: "known_delivery (wd_id ?d) s3 \<and> (case q of Inl _ \<Rightarrow> True | Inr x \<Rightarrow> x \<noteq> ProcessingFailed \<and> settled_delivery (wd_id ?d) s3)"
  proof -
    have marked: "known_delivery (wd_id ?d) (snd (mark_processed_step w ?d Skipped s2)) \<and> settled_delivery (wd_id ?d) (snd (mark_processed_step w ?d Skipped s2))"
      using settles_mark [OF keep, of Skipped] known2 by (auto simp: settles_def mark_processed_step_def split: prod.splits)
    have projected: "known_delivery (wd_id ?d) (snd (project_order w ?d st found s2)) \<and>
        (\<forall>x. fst (project_order w ?d st found s2) = Inr x \<longrightarrow> x \<noteq> ProcessingFailed \<and> settled_delivery (wd_id ?d) (snd (project_order w ?d st found s2)))" for st found
      using settles_order [OF keep, of st found] never_fails_order [of w ?d st found] known2 by (auto simp: settles_def never_fails_def)
    let ?st = "de_status (dn_input pending)"
    show ?thesis
    proof (cases "?st \<noteq> DecPending \<and> ?st \<noteq> DecApproved")
      case True
      with steps have "q = Inr Skipped" "s3 = snd (mark_processed_step w ?d Skipped s2)" by (auto simp: delivery_steps_def pending Let_def)
      with marked show ?thesis by simp
    next
      case going: False
      show ?thesis
      proof (cases "read_order w (delivery_org ?d) (delivery_order ?d)")
        case (Inl e)
        with steps going known2 show ?thesis by (auto simp: delivery_steps_def pending Let_def)
      next
        case (Inr found)
        obtain x u where run: "project_order w ?d ?st found s2 = (x, u)" by (meson surj_pair)
        from steps going Inr run have "s3 = u \<and> q = (case x of Inl e \<Rightarrow> Inl (StageProjection, e) | Inr r \<Rightarrow> Inr r)"
          by (cases x) (auto simp: delivery_steps_def pending Let_def)
        with projected [of ?st found] run show ?thesis by (cases x) auto
      qed
    qed
  qed
  show ?thesis
  proof (cases q)
    case (Inl failure)
    obtain stage e where failure: "failure = (stage, e)" by (cases failure)
    let ?u = "ow_others w PFail (os_store s3)"
    have "r = ProcessingFailed" "os_store s' = ?u\<lparr>cs_commerce := mark_delivery_failed did (failure_diagnostic e stage (ow_now w)) (cs_commerce ?u)\<rparr>"
      using assms(5) claim steps Inl failure id by (auto simp: process_delivery_def commerce_at_def Let_def)
    moreover from finished keep have "js_get (deliveries_of ?u) did \<noteq> None" by (auto simp: known_delivery_def others_keep_delivery_def id)
    moreover have "df_failedAtIso (failure_diagnostic e stage (ow_now w)) = ow_now w"
      by (simp add: failure_diagnostic_def Let_def split: order_error.split)
    ultimately show ?thesis by (auto simp: mark_delivery_failed_def change_delivery_def)
  next
    case (Inr x)
    then have "r = x" "s' = s3" using assms(5) claim steps by (auto simp: process_delivery_def)
    with finished Inr show ?thesis by (auto simp: settled_delivery_def id split: option.splits)
  qed
qed

text \<open>
  C35: one delivery that fails stops the reconciliation of its organization.  When the oldest
  reclaimable delivery fails, the run ends there: no later delivery and no paid order of Shopify is looked
  at, whatever they are, and the run is recorded as failed with nothing discovered.
\<close>
theorem failing_delivery_stops_reconciliation:
  assumes "commerce_at w PReclaim (list_reclaimable_deliveries org RECONCILIATION_LIMIT (to_iso (ke_now (ow_env w) - DELIVERY_PROCESSING_LEASE_MS))
      (ke_now (ow_env w))) s = (d # ds, s1)"
    and "process_delivery w (wd_id d) s1 = (ProcessingFailed, s2)"
  shows "\<exists>run. reconcile w org uuid ids s =
      (Inl (PlainError ''Shopify order reconciliation failed.''), snd (commerce_at w PRun (record_reconciliation_run run) s2)) \<and>
    rr_organizationId run = org \<and> \<not> rr_completed run \<and> rr_discoveredCount run = 0 \<and> rr_processedCount run = 0 \<and>
    rr_failureCategory run = Some FailUpstream"
proof -
  have "reconcile_steps w org ids s = (Some (OtherError (PlainError ''A queued delivery could not be processed.'')), 0, 0, s2)"
    using assms by (simp add: reconcile_steps_def Let_def)
  moreover have "failure_category_of ''A queued delivery could not be processed.'' = FailUpstream" by code_simp
  ultimately show ?thesis
    by (intro exI [of _ "\<lparr>rr_id = uuid, rr_organizationId = org, rr_completed = False, rr_discoveredCount = 0, rr_processedCount = 0,
        rr_startedAtIso = ow_now w, rr_finishedAtIso = ow_now w, rr_failureCategory = Some FailUpstream\<rparr>"])
      (simp add: reconcile_def Let_def order_error_message_def case_prod_beta)
qed

section \<open>Deliveries and their witnesses\<close>

definition demo_order_delivery :: webhook_delivery where
  "demo_order_delivery =
     \<lparr>wd_id = ''w1'', wd_input = \<lparr>di_organizationId = ''org'', di_shopDomain = ''shop.example'', di_webhookId = ''h1'', di_shopifyOrderGid = ''order'',
        di_payloadSha256 = ''x'', di_receivedAtIso = ''2026-03-20''\<rparr>, wd_status = DeliveryReceived, wd_attemptCount = 0, wd_failureCategory = None,
      wd_failureStage = None, wd_failureCode = None, wd_shopifyRequestId = None, wd_failedAtIso = None, wd_processingStartedAtIso = None,
      wd_processedAtIso = None\<rparr>"

definition demo_queue :: order_state where
  "demo_queue = \<lparr>os_store = empty_commerce_state\<lparr>cs_commerce := empty_commerce\<lparr>co_deliveries := [(''w1'', demo_order_delivery)]\<rparr>\<rparr>, os_calls = []\<rparr>"

text \<open>Shopify cannot be reached.\<close>

definition demo_offline :: order_world where
  "demo_offline = demo_order_world\<lparr>ow_readOrder := (\<lambda>_ _. Inl (TransportError ''timeout''))\<rparr>"

lemma demo_delivery_fails: "\<exists>s'. process_delivery demo_offline ''w1'' demo_queue = (ProcessingFailed, s')"
  by (simp add: process_delivery_def commerce_at_def claim_delivery_def demo_offline_def demo_order_world_def demo_queue_def js_get_Cons
      demo_order_delivery_def Let_def delivery_steps_def record_pending_decision_def change_delivery_def empty_commerce_state_def empty_commerce_def
      read_order_def read_context_def assert_readable_integration_def as_order_error_def truthy_iff)

theorem claimed_delivery_is_settled_witness:
  "\<exists>s' d'. process_delivery demo_offline ''w1'' demo_queue = (ProcessingFailed, s') \<and>
     js_get (deliveries_of (os_store s')) ''w1'' = Some d' \<and> wd_status d' = DeliveryFailed"
proof -
  obtain s' where run: "process_delivery demo_offline ''w1'' demo_queue = (ProcessingFailed, s')" using demo_delivery_fails ..
  have keep: "others_keep_delivery demo_offline ''w1''" by (simp add: others_keep_delivery_def demo_offline_def demo_order_world_def)
  have there: "js_get (deliveries_of (ow_others demo_offline PClaim (os_store demo_queue))) ''w1'' = Some demo_order_delivery"
    by (simp add: demo_offline_def demo_order_world_def demo_queue_def js_get_Cons)
  from claimed_delivery_is_settled [OF keep there _ _ run] run show ?thesis by (auto simp: demo_order_delivery_def)
qed

theorem failing_delivery_stops_reconciliation_witness:
  "\<exists>s'. reconcile demo_offline ''org'' ''r1'' (\<lambda>_. ''w2'') demo_queue = (Inl (PlainError ''Shopify order reconciliation failed.''), s')"
proof -
  have list: "commerce_at demo_offline PReclaim (list_reclaimable_deliveries ''org'' RECONCILIATION_LIMIT
      (to_iso (ke_now (ow_env demo_offline) - DELIVERY_PROCESSING_LEASE_MS)) (ke_now (ow_env demo_offline))) demo_queue = ([demo_order_delivery], demo_queue)"
    by (simp add: commerce_at_def list_reclaimable_deliveries_def Let_def demo_offline_def demo_order_world_def demo_queue_def reclaimed_def is_stale_def
        demo_order_delivery_def js_values_def RECONCILIATION_LIMIT_def)
  have id: "wd_id demo_order_delivery = ''w1''" by (simp add: demo_order_delivery_def)
  obtain s' where "process_delivery demo_offline (wd_id demo_order_delivery) demo_queue = (ProcessingFailed, s')"
    unfolding id using demo_delivery_fails ..
  from failing_delivery_stops_reconciliation [OF list this] show ?thesis by metis
qed

theorem approved_order_fits_capacity_witness:
  "\<exists>plan part e e'. validate_class_purchase demo_order_world ''org'' demo_class_intent demo_order empty_commerce_state = Inr (Inr plan) \<and>
     class_part demo_order_delivery demo_class_intent demo_order plan = Inr part \<and> part_entitlements part = [e, e'] \<and>
     ci_festivalClassId e = ''cls'' \<and> ci_festivalClassId e' = ''cls'' \<and> ci_capacityAtAllocation e = Some 2"
proof -
  obtain plan where plan: "validate_class_purchase demo_order_world ''org'' demo_class_intent demo_order empty_commerce_state = Inr (Inr plan)"
    using demo_order_valid ..
  have n: "length (xi_lines demo_class_intent) = 2" and free: "\<not> has_attached_cart demo_class_intent" by code_simp+
  have config: "sc_id c = ''cls'' \<and> sc_capacity c = 2" if "find_active_class_config demo_order_world ''org'' i = Some (c, f)" for i c f
    using find_active_class_config_id [OF that] by (simp add: demo_order_world_def)
  have own: "i = ''cls''" if "find_active_class_config demo_order_world ''org'' i = Some (c, f)" for i c f
    using find_active_class_config_id [OF that] config [OF that] by simp
  from approved_order_fits_capacity [OF plan free, of demo_order_delivery] n
  obtain part where part: "class_part demo_order_delivery demo_class_intent demo_order plan = Inr part" "length (part_entitlements part) = 2"
    and all: "\<forall>e \<in> set (part_entitlements part). \<exists>c f. find_active_class_config demo_order_world ''org'' (ci_festivalClassId e) = Some (c, f) \<and>
       ci_capacityAtAllocation e = Some (sc_capacity c)" by fastforce
  from part(2) obtain e e' where es: "part_entitlements part = [e, e']"
    by (auto simp: length_Suc_conv numeral_2_eq_2)
  with all config own have "ci_festivalClassId e = ''cls''" "ci_festivalClassId e' = ''cls''" "ci_capacityAtAllocation e = Some 2"
    by (metis list.set_intros(1,2))+
  with plan part(1) es show ?thesis by blast
qed

theorem approved_order_pays_every_line_once_witness:
  "\<exists>plan part es. validate_class_purchase demo_order_world ''org'' demo_class_intent demo_order empty_commerce_state = Inr (Inr plan) \<and>
     class_part demo_order_delivery demo_class_intent demo_order plan = Inr part \<and> fp_classEntitlements part = Some es \<and>
     map ci_shopifyOrderLineGid es = [''line2'', ''line1''] \<and> (\<Sum>e \<leftarrow> es. ci_paidAmountCents e) = 5100"
proof -
  obtain plan where plan: "validate_class_purchase demo_order_world ''org'' demo_class_intent demo_order empty_commerce_state = Inr (Inr plan)"
    using demo_order_valid ..
  have "minor_or_zero (xi_amount demo_class_intent) = 5100" "map ol_id (po_lineItems demo_order) = [''line2'', ''line1'']"
    "1 < length (xi_lines demo_class_intent)" by code_simp+
  with approved_order_pays_every_line_once [OF plan] plan show ?thesis by metis
qed

end
