(* ===== verification/MessageTemplates.thy ===== *)
theory MessageTemplates
  imports FestCalendar
begin

text \<open>
  \<open>packages/common/src/communication.ts\<close>: the placeholders of message templates, their rendering
  with the payload of an event, and the validation of the requests that create templates, update
  them and trigger events.  Payloads are JSON values; what a path finds on the built-in prototypes is
  a parameter.
\<close>

section \<open>Channels and statuses\<close>

definition MESSAGE_CHANNELS :: "string list" where "MESSAGE_CHANNELS = [''email'', ''sms'']"

definition is_message_channel :: "json \<Rightarrow> bool" where
  "is_message_channel v \<longleftrightarrow> (case v of JStr s \<Rightarrow> s \<in> set MESSAGE_CHANNELS | _ \<Rightarrow> False)"

definition MESSAGE_DELIVERY_STATUSES :: "string list" where
  "MESSAGE_DELIVERY_STATUSES = [''pending'', ''delivered'', ''failed'', ''skipped'']"

definition is_message_delivery_status :: "json \<Rightarrow> bool" where
  "is_message_delivery_status v \<longleftrightarrow> (case v of JStr s \<Rightarrow> s \<in> set MESSAGE_DELIVERY_STATUSES | _ \<Rightarrow> False)"

definition MESSAGE_LOG_STATUSES :: "string list" where "MESSAGE_LOG_STATUSES = [''delivered'', ''failed'', ''retry'']"

definition is_message_log_status :: "json \<Rightarrow> bool" where
  "is_message_log_status v \<longleftrightarrow> (case v of JStr s \<Rightarrow> s \<in> set MESSAGE_LOG_STATUSES | _ \<Rightarrow> False)"

section \<open>Placeholders\<close>

text \<open>The pattern is two braces, white space, a name, white space, two braces; matches are leftmost and do not overlap.\<close>

definition name_char :: "char \<Rightarrow> bool" where
  "name_char c \<longleftrightarrow> (let n = (of_char c :: nat) in (48 \<le> n \<and> n \<le> 57) \<or> (65 \<le> n \<and> n \<le> 90) \<or> (97 \<le> n \<and> n \<le> 122)) \<or> c \<in> set ''_.-''"

definition match_placeholder :: "string \<Rightarrow> (string \<times> string) option" where
  "match_placeholder s =
     (if take 2 s = ''{{''
      then (let r = dropWhile js_space (drop 2 s); key = takeWhile name_char r; rest = dropWhile js_space (dropWhile name_char r) in
            if key \<noteq> [] \<and> take 2 rest = ''}}'' then Some (key, drop 2 rest) else None)
      else None)"

lemma match_placeholder_shorter: "match_placeholder s = Some (key, rest) \<Longrightarrow> length rest < length s"
proof -
  assume m: "match_placeholder s = Some (key, rest)"
  let ?r = "dropWhile js_space (drop 2 s)"
  from m have s: "s \<noteq> []" and rest: "rest = drop 2 (dropWhile js_space (dropWhile name_char ?r))"
    by (auto simp: match_placeholder_def Let_def split: if_splits)
  have "length rest \<le> length (dropWhile js_space (dropWhile name_char ?r))" by (simp add: rest)
  also have "\<dots> \<le> length ?r" using length_dropWhile_le order_trans by blast
  also have "\<dots> \<le> length (drop 2 s)" by (rule length_dropWhile_le)
  finally show ?thesis using s by (cases s) auto
qed

datatype segment = Plain char | Placeholder string

function segments :: "string \<Rightarrow> segment list" where
  "segments s =
     (case match_placeholder s of
        Some (key, rest) \<Rightarrow> Placeholder key # segments rest
      | None \<Rightarrow> (case s of [] \<Rightarrow> [] | c # cs \<Rightarrow> Plain c # segments cs))"
  by pat_completeness auto
termination by (relation "measure length") (auto dest: match_placeholder_shorter)

declare segments.simps [simp del]

fun placeholder_keys :: "segment list \<Rightarrow> string list" where
  "placeholder_keys [] = []"
| "placeholder_keys (Plain _ # ss) = placeholder_keys ss"
| "placeholder_keys (Placeholder k # ss) = k # placeholder_keys ss"

definition extract_template_variables :: "string \<Rightarrow> string list" where
  "extract_template_variables text = js_uniq (filter (\<lambda>k. k \<noteq> []) (map js_trim (placeholder_keys (segments text))))"

section \<open>Rendering\<close>

definition own_property :: "json \<Rightarrow> string \<Rightarrow> json option" where
  "own_property v k =
     (case v of
        JObj _ \<Rightarrow> json_field v k
      | JArr xs \<Rightarrow>
          (if k = ''length'' then Some (JNum (int (length xs)))
           else map_option snd (find (\<lambda>(i, _). nat_digits i = k) (zip [0..<length xs] xs)))
      | _ \<Rightarrow> None)"

fun is_object_value :: "json \<Rightarrow> bool" where
  "is_object_value (JObj _) = True"
| "is_object_value (JArr _) = True"
| "is_object_value _ = False"

text \<open>\<open>String(value)\<close>.  An own \<open>toString\<close> of a JSON object is no function, so the conversion throws.\<close>

fun string_of :: "json \<Rightarrow> string outcome" and strings_of :: "json list \<Rightarrow> string list outcome" where
  "string_of JNull = Inr ''null''"
| "string_of (JBool b) = Inr (if b then ''true'' else ''false'')"
| "string_of (JNum n) = Inr (int_string n)"
| "string_of (JStr s) = Inr s"
| "string_of (JObj fs) =
     (if ''toString'' \<in> fst ` set fs then Inl (PlainError ''Cannot convert object to primitive value'') else Inr ''[object Object]'')"
| "string_of (JArr xs) = and_then (strings_of xs) (\<lambda>ts. Inr (js_join '','' ts))"
| "strings_of [] = Inr []"
| "strings_of (x # xs) =
     and_then (if x = JNull then Inr [] else string_of x) (\<lambda>t. and_then (strings_of xs) (\<lambda>ts. Inr (t # ts)))"

text \<open>What a placeholder is replaced with: nothing for \<open>null\<close> and \<open>undefined\<close>.\<close>

definition shown_value :: "json \<Rightarrow> string outcome" where
  "shown_value v = (if v = JNull then Inr [] else string_of v)"

text \<open>\<open>inherited v part rest\<close> is the text that the path ends in when \<open>part\<close> is not an own property of \<open>v\<close>.\<close>

fun walk_path :: "(json \<Rightarrow> string \<Rightarrow> string list \<Rightarrow> string outcome) \<Rightarrow> json \<Rightarrow> string list \<Rightarrow> string outcome" where
  "walk_path inherited v [] = shown_value v"
| "walk_path inherited v (p # ps) =
     (if is_object_value v
      then (case own_property v p of Some x \<Rightarrow> walk_path inherited x ps | None \<Rightarrow> inherited v p ps)
      else Inr [])"

fun path_parts :: "string \<Rightarrow> string list" where
  "path_parts [] = [[]]"
| "path_parts (c # cs) =
     (if c = CHR ''.'' then [] # path_parts cs else (case path_parts cs of p # ps \<Rightarrow> (c # p) # ps | [] \<Rightarrow> [[c]]))"

definition resolve_variable :: "(json \<Rightarrow> string \<Rightarrow> string list \<Rightarrow> string outcome) \<Rightarrow> json \<Rightarrow> string \<Rightarrow> string outcome" where
  "resolve_variable inherited variables path =
     (case own_property variables path of
        Some v \<Rightarrow> shown_value v
      | None \<Rightarrow> if CHR ''.'' \<notin> set path then Inr [] else walk_path inherited variables (path_parts path))"

fun render_segments :: "(string \<Rightarrow> string outcome) \<Rightarrow> segment list \<Rightarrow> string outcome" where
  "render_segments f [] = Inr []"
| "render_segments f (Plain c # ss) = and_then (render_segments f ss) (\<lambda>t. Inr (c # t))"
| "render_segments f (Placeholder k # ss) = and_then (f k) (\<lambda>v. and_then (render_segments f ss) (\<lambda>t. Inr (v @ t)))"

definition render_template :: "(json \<Rightarrow> string \<Rightarrow> string list \<Rightarrow> string outcome) \<Rightarrow> string \<Rightarrow> json \<Rightarrow> string outcome" where
  "render_template inherited text variables = render_segments (resolve_variable inherited variables) (segments text)"

section \<open>Parsing the fields of a request\<close>

text \<open>Each parser returns the messages it pushes and the field it found.\<close>

type_synonym 'a parsed = "string list \<times> 'a option"

definition as_trimmed :: "json option \<Rightarrow> string" where
  "as_trimmed raw = (case raw of Some (JStr s) \<Rightarrow> js_trim s | _ \<Rightarrow> [])"

definition parse_template_key :: "json option \<Rightarrow> bool \<Rightarrow> string parsed" where
  "parse_template_key raw required =
     (if raw = None then (push_if required ''Template key is required.'', None)
      else (let key = as_trimmed raw in
            if key = [] then ([if required then ''Template key is required.'' else ''Template key cannot be empty.''], None)
            else if 100 < length key then ([''Template key must be 100 characters or less.''], None)
            else if \<not> list_all name_char key
                 then ([''Template key may only contain letters, numbers, hyphens, underscores, and periods.''], None)
            else ([], Some key)))"

definition parse_channel :: "json option \<Rightarrow> bool \<Rightarrow> string parsed" where
  "parse_channel raw required =
     (case raw of
        None \<Rightarrow> (push_if required ''Channel is required and must be either 'email' or 'sms'.'', None)
      | Some v \<Rightarrow>
          if is_message_channel v then ([], case v of JStr s \<Rightarrow> Some s | _ \<Rightarrow> None)
          else ([if required then ''Channel is required and must be either 'email' or 'sms'.'' else ''Channel must be either 'email' or 'sms'.''], None))"

definition parse_template_body :: "json option \<Rightarrow> bool \<Rightarrow> string parsed" where
  "parse_template_body raw required =
     (if raw = None then (push_if required ''Template body is required.'', None)
      else if as_trimmed raw = [] then ([if required then ''Template body is required.'' else ''Template body cannot be empty.''], None)
      else ([], Some (as_trimmed raw)))"

text \<open>The subject may be \<open>null\<close> too.\<close>

definition parse_subject :: "json option \<Rightarrow> bool \<Rightarrow> string option parsed" where
  "parse_subject raw allow_null =
     (case raw of
        None \<Rightarrow> ([], None)
      | Some JNull \<Rightarrow> if allow_null then ([], Some None) else ([''Subject must be a string.''], None)
      | Some (JStr s) \<Rightarrow>
          if 300 < length (js_trim s) then ([''Subject must be 300 characters or less.''], None) else ([], Some (Some (js_trim s)))
      | Some _ \<Rightarrow> ([if allow_null then ''Subject must be a string or null.'' else ''Subject must be a string.''], None))"

fun is_text :: "json \<Rightarrow> bool" where
  "is_text (JStr _) = True"
| "is_text _ = False"

definition parse_variables :: "json option \<Rightarrow> string list parsed" where
  "parse_variables raw =
     (case raw of
        None \<Rightarrow> ([], None)
      | Some (JArr vs) \<Rightarrow>
          if list_ex (\<lambda>v. \<not> is_text v) vs then ([''All variables must be strings.''], None)
          else ([], Some (js_uniq (filter (\<lambda>s. s \<noteq> []) (map (\<lambda>v. as_trimmed (Some v)) vs))))
      | Some _ \<Rightarrow> ([''Variables must be an array of strings.''], None))"

definition parse_is_active :: "json option \<Rightarrow> bool parsed" where
  "parse_is_active raw =
     (case raw of None \<Rightarrow> ([], None) | Some (JBool b) \<Rightarrow> ([], Some b) | Some _ \<Rightarrow> ([''isActive must be a boolean.''], None))"

definition parse_org_id :: "json option \<Rightarrow> string parsed" where
  "parse_org_id raw =
     (if raw = None then ([], None)
      else if as_trimmed raw = [] then ([''Organization ID cannot be empty.''], None) else ([], Some (as_trimmed raw)))"

definition parse_event_type :: "json option \<Rightarrow> string parsed" where
  "parse_event_type raw =
     (let t = as_trimmed raw in
      if t = [] then ([''Event type is required.''], None)
      else if 100 < length t then ([''Event type must be 100 characters or less.''], None) else ([], Some t))"

definition parse_destination :: "json option \<Rightarrow> string parsed" where
  "parse_destination raw =
     (let t = as_trimmed raw in
      if t = [] then ([''Recipient destination is required.''], None)
      else if 255 < length t then ([''Recipient destination must be 255 characters or less.''], None) else ([], Some t))"

definition parse_event_payload :: "json option \<Rightarrow> json parsed" where
  "parse_event_payload raw =
     (case raw of None \<Rightarrow> ([], Some (JObj []))
      | Some v \<Rightarrow> if is_json_object v then ([], Some v) else ([''Payload must be an object.''], None))"

definition parse_idempotency_key :: "json option \<Rightarrow> string parsed" where
  "parse_idempotency_key raw =
     (if raw = None then ([], None)
      else (let t = as_trimmed raw in
            if t = [] then ([''Idempotency key cannot be empty.''], None)
            else if 255 < length t then ([''Idempotency key must be 255 characters or less.''], None) else ([], Some t)))"

section \<open>Requests\<close>

record template_input =
  ti_organizationId :: "string option"
  ti_templateKey :: string
  ti_channel :: string
  ti_subject :: "string option"
  ti_body :: string
  ti_variables :: "string list option"
  ti_isActive :: "bool option"

record template_update =
  tu_organizationId :: "string option"
  tu_templateKey :: "string option"
  tu_channel :: "string option"
  tu_subject :: "string option option"
  tu_body :: "string option"
  tu_variables :: "string list option"
  tu_isActive :: "bool option"

record event_trigger =
  et_organizationId :: "string option"
  et_eventType :: string
  et_recipientDestination :: string
  et_payload :: "json option"
  et_idempotencyKey :: "string option"
  et_channel :: "string option"

definition template_source :: "string option \<Rightarrow> string \<Rightarrow> string" where
  "template_source subject body = (case if_truthy subject of Some s \<Rightarrow> s @ '' '' @ body | None \<Rightarrow> body)"

definition validate_create_template_input :: "json \<Rightarrow> string list + template_input" where
  "validate_create_template_input v =
     (if \<not> is_json_object v then Inl [''Template input must be an object.'']
      else (case (parse_template_key (json_field v ''templateKey'') True, parse_channel (json_field v ''channel'') True,
                  parse_template_body (json_field v ''body'') True, parse_subject (json_field v ''subject'') False,
                  parse_variables (json_field v ''variables''), parse_is_active (json_field v ''isActive''),
                  parse_org_id (json_field v ''organizationId'')) of
              ((e1, key), (e2, channel), (e3, body), (e4, subject), (e5, vars), (e6, active), (e7, org)) \<Rightarrow>
                (let errors = e1 @ e2 @ e3 @ e4 @ e5 @ e6 @ e7; subj = Option.bind subject (\<lambda>x. x) in
                 (case (errors, key, channel, body) of
                    ([], Some k, Some c, Some b) \<Rightarrow>
                      Inr \<lparr>ti_organizationId = org, ti_templateKey = k, ti_channel = c, ti_subject = subj, ti_body = b,
                        ti_variables = Some (case vars of Some vs \<Rightarrow> vs | None \<Rightarrow> extract_template_variables (template_source subj b)),
                        ti_isActive = Some (case active of Some a \<Rightarrow> a | None \<Rightarrow> True)\<rparr>
                  | _ \<Rightarrow> Inl errors))))"

definition template_update_fields :: "string list" where
  "template_update_fields = [''templateKey'', ''channel'', ''body'', ''subject'', ''variables'', ''isActive'', ''organizationId'']"

definition validate_update_template_input :: "json \<Rightarrow> string list + template_update" where
  "validate_update_template_input v =
     (if \<not> is_json_object v then Inl [''Update template input must be an object.'']
      else (case (parse_template_key (json_field v ''templateKey'') False, parse_channel (json_field v ''channel'') False,
                  parse_template_body (json_field v ''body'') False, parse_subject (json_field v ''subject'') True,
                  parse_variables (json_field v ''variables''), parse_is_active (json_field v ''isActive''),
                  parse_org_id (json_field v ''organizationId'')) of
              ((e1, key), (e2, channel), (e3, body), (e4, subject), (e5, vars), (e6, active), (e7, org)) \<Rightarrow>
                (let errors = e1 @ e2 @ e3 @ e4 @ e5 @ e6 @ e7 @
                   push_if (list_all (\<lambda>f. json_field v f = None) template_update_fields) ''At least one field to update must be provided.'' in
                 if errors \<noteq> [] then Inl errors
                 else Inr \<lparr>tu_organizationId = org, tu_templateKey = key, tu_channel = channel, tu_subject = subject, tu_body = body,
                        tu_variables = vars, tu_isActive = active\<rparr>)))"

definition validate_trigger_event_input :: "json \<Rightarrow> string list + event_trigger" where
  "validate_trigger_event_input v =
     (if \<not> is_json_object v then Inl [''Trigger message event input must be an object.'']
      else (case (parse_event_type (json_field v ''eventType''), parse_destination (json_field v ''recipientDestination''),
                  parse_event_payload (json_field v ''payload''), parse_idempotency_key (json_field v ''idempotencyKey''),
                  parse_org_id (json_field v ''organizationId''), parse_channel (json_field v ''channel'') False) of
              ((e1, ty), (e2, dest), (e3, payload), (e4, key), (e5, org), (e6, channel)) \<Rightarrow>
                (let errors = e1 @ e2 @ e3 @ e4 @ e5 @ e6 in
                 (case (errors, ty, dest) of
                    ([], Some t, Some d) \<Rightarrow>
                      Inr \<lparr>et_organizationId = org, et_eventType = t, et_recipientDestination = d,
                        et_payload = Some (case payload of Some p \<Rightarrow> p | None \<Rightarrow> JObj []), et_idempotencyKey = key, et_channel = channel\<rparr>
                  | _ \<Rightarrow> Inl errors))))"

section \<open>Rendering uses exactly the declared variables\<close>

lemma segments_Nil [simp]: "segments [] = []"
  by (subst segments.simps) (simp add: match_placeholder_def)

lemma match_key_trimmed: "match_placeholder s = Some (key, rest) \<Longrightarrow> key \<noteq> [] \<and> js_trim key = key"
proof -
  assume "match_placeholder s = Some (key, rest)"
  then have ne: "key \<noteq> []" and chars: "list_all name_char key"
    by (auto simp: match_placeholder_def Let_def list_all_iff dest: set_takeWhileD split: if_splits)
  have space: "\<not> js_space c" if "name_char c" for c
    using that by (auto simp: name_char_def js_space_def Let_def)
  have id: "dropWhile js_space t = t" if "list_all name_char t" for t
    using that space by (cases t) auto
  have "list_all name_char (rev key)" using chars by simp
  then show ?thesis using ne id [OF chars] id [of "rev key"] by (simp add: js_trim_def)
qed

lemma segments_Cons: "match_placeholder (c # cs) = None \<Longrightarrow> segments (c # cs) = Plain c # segments cs"
  by (subst segments.simps) simp

lemma segments_match: "match_placeholder s = Some (key, rest) \<Longrightarrow> segments s = Placeholder key # segments rest"
  by (subst segments.simps) simp

lemma name_char_cases: "name_char c \<Longrightarrow> \<not> js_space c \<and> c \<noteq> CHR ''{'' \<and> c \<noteq> CHR ''}''" "js_space c \<Longrightarrow> c \<noteq> CHR ''{'' \<and> c \<noteq> CHR ''}''"
  by (auto simp: name_char_def js_space_def Let_def)

text \<open>A match taken apart: the part between the braces holds no opening brace.\<close>

lemma match_placeholder_iff:
  "match_placeholder s = Some (k, r) \<longleftrightarrow>
     (\<exists>a b. s = ''{{'' @ a @ k @ b @ ''}}'' @ r \<and> list_all js_space a \<and> k \<noteq> [] \<and> list_all name_char k \<and> list_all js_space b)"
  (is "_ \<longleftrightarrow> ?parts")
proof
  assume m: "match_placeholder s = Some (k, r)"
  let ?r = "dropWhile js_space (drop 2 s)"
  let ?e = "dropWhile js_space (dropWhile name_char ?r)"
  from m have parts: "take 2 s = ''{{''" "k = takeWhile name_char ?r" "k \<noteq> []" "take 2 ?e = ''}}''" "r = drop 2 ?e"
    by (auto simp: match_placeholder_def Let_def split: if_splits)
  have e: "?e = ''}}'' @ r" using append_take_drop_id [of 2 ?e] unfolding parts(4,5) by simp
  have all: "list_all P (takeWhile P xs)" for P and xs :: string by (auto simp: list_all_iff dest: set_takeWhileD)
  obtain a where a: "drop 2 s = a @ ?r" "list_all js_space a" using all takeWhile_dropWhile_id by metis
  obtain b where b: "dropWhile name_char ?r = b @ ?e" "list_all js_space b" using all takeWhile_dropWhile_id by metis
  have "?r = k @ dropWhile name_char ?r" using parts(2) by simp
  with a(1) b(1) e have "drop 2 s = a @ k @ b @ ''}}'' @ r" by simp
  moreover have "s = ''{{'' @ drop 2 s" using append_take_drop_id [of 2 s] unfolding parts(1) by simp
  ultimately have "s = ''{{'' @ a @ k @ b @ ''}}'' @ r" by metis
  moreover have "list_all name_char k" unfolding parts(2) by (rule all)
  ultimately show ?parts using a(2) b(2) parts(3) by blast
next
  assume ?parts
  then obtain a b where s: "s = ''{{'' @ a @ k @ b @ ''}}'' @ r" and a: "list_all js_space a" and k: "k \<noteq> []" "list_all name_char k" and b: "list_all js_space b"
    by blast
  have drop: "dropWhile P (xs @ y # ys) = y # ys" "takeWhile P (xs @ y # ys) = xs" if "list_all P xs" "\<not> P y" for P xs ys and y :: char
    using that by (induction xs) auto
  have brace: "\<not> js_space CHR ''}''" "\<not> name_char CHR ''}''" using name_char_cases by blast+
  obtain c cs where kc: "k = c # cs" using k(1) by (cases k) auto
  then have "\<not> js_space c" using k(2) name_char_cases by simp
  then have one: "dropWhile js_space (a @ k @ b @ ''}}'' @ r) = k @ b @ ''}}'' @ r" using drop(1) [OF a] by (simp add: kc)
  have two: "takeWhile name_char (k @ b @ ''}}'' @ r) = k \<and> dropWhile name_char (k @ b @ ''}}'' @ r) = b @ ''}}'' @ r"
  proof (cases b)
    case Nil
    then show ?thesis using drop [OF k(2) brace(2)] by simp
  next
    case (Cons d ds)
    then have "\<not> name_char d" using b name_char_cases by auto
    then show ?thesis using drop [OF k(2)] Cons by simp
  qed
  have three: "dropWhile js_space (b @ ''}}'' @ r) = ''}}'' @ r" using drop(1) [OF b brace(1)] by simp
  show "match_placeholder s = Some (k, r)"
    using k(1) by (simp add: match_placeholder_def Let_def s one [simplified] two [simplified] three [simplified])
qed

lemma match_placeholder_append: "match_placeholder s = Some (key, rest) \<Longrightarrow> match_placeholder (s @ t) = Some (key, rest @ t)"
  unfolding match_placeholder_iff by (metis append.assoc)

lemma match_inside:
  assumes "match_placeholder s = Some (key, rest)" "s = u @ w" "match_placeholder w = Some (k, r)"
  shows "u = [] \<or> (\<exists>v. rest = v @ w)"
proof -
  from assms(1) obtain a b where "s = ''{{'' @ a @ key @ b @ ''}}'' @ rest" and abk: "list_all js_space a" "key \<noteq> []" "list_all name_char key" "list_all js_space b"
    unfolding match_placeholder_iff by blast
  then obtain mid where s: "s = (''{{'' @ mid) @ rest" and mid_def: "mid = a @ key @ b @ ''}}''" by simp
  have "CHR ''{'' \<notin> set a" "CHR ''{'' \<notin> set key" "CHR ''{'' \<notin> set b" using abk name_char_cases(1) [of "CHR ''{''"] name_char_cases(2) [of "CHR ''{''"] by (auto simp: list_all_iff)
  then have mid: "CHR ''{'' \<notin> set mid" "mid \<noteq> []" by (simp_all add: mid_def)
  from assms(3) obtain w' where w: "w = CHR ''{'' # CHR ''{'' # w'" unfolding match_placeholder_iff by auto
  from s assms(2) have eq: "u @ w = (''{{'' @ mid) @ rest" by simp
  then consider us where "us @ w = rest" | us where "u @ us = ''{{'' @ mid" "w = us @ rest"
    using append_eq_append_conv2 [THEN iffD1, OF eq] by blast
  then show ?thesis
  proof cases
    case 2
    show ?thesis
    proof (cases us)
      case Nil
      with 2 show ?thesis by auto
    next
      case (Cons c cs)
      with 2(2) w have c: "c = CHR ''{''" by simp
      consider "u = []" | x where "u = [x]" | x y z where "u = x # y # z" by (cases u rule: remdups_adj.cases) auto
      then show ?thesis
      proof cases
        case (2 x)
        then have "us = CHR ''{'' # mid" using \<open>u @ us = ''{{'' @ mid\<close> by simp
        moreover obtain m ms where "mid = m # ms" using mid(2) by (cases mid) auto
        ultimately have "m = CHR ''{''" using \<open>w = us @ rest\<close> w by simp
        with \<open>mid = m # ms\<close> mid(1) show ?thesis by simp
      next
        case (3 x y z)
        then have "mid = z @ us" using \<open>u @ us = ''{{'' @ mid\<close> by simp
        with c Cons mid(1) show ?thesis by simp
      qed simp
    qed
  qed auto
qed

lemma placeholder_keys_occur: "k \<in> set (placeholder_keys (segments s)) \<Longrightarrow> \<exists>u w r. s = u @ w \<and> match_placeholder w = Some (k, r)"
proof (induction s rule: segments.induct)
  case (1 s)
  show ?case
  proof (cases "match_placeholder s")
    case None
    show ?thesis
    proof (cases s)
      case (Cons c cs)
      have "k \<in> set (placeholder_keys (segments cs))" using 1(3) None Cons segments_Cons [of c cs] by simp
      from 1(1) [OF None Cons this] obtain u w r where "cs = u @ w" "match_placeholder w = Some (k, r)" by blast
      with Cons show ?thesis by (intro exI [of _ "c # u"] exI [of _ w] exI [of _ r]) auto
    qed (use 1(3) in simp)
  next
    case (Some kr)
    obtain key rest where kr: "kr = (key, rest)" by (cases kr)
    show ?thesis
    proof (cases "k = key")
      case True
      with Some kr show ?thesis by (intro exI [of _ "[]"] exI [of _ s] exI [of _ rest]) auto
    next
      case False
      with 1(3) Some kr have "k \<in> set (placeholder_keys (segments rest))" by (simp add: segments_match)
      from 1(2) [OF Some kr [symmetric] this] obtain u w r where "rest = u @ w" "match_placeholder w = Some (k, r)" by blast
      moreover have "\<exists>pre. s = pre @ rest" using Some kr unfolding match_placeholder_iff kr by (metis append.assoc)
      ultimately show ?thesis by (metis append.assoc)
    qed
  qed
qed

lemma placeholder_occurs_key: "match_placeholder w = Some (k, r) \<Longrightarrow> k \<in> set (placeholder_keys (segments (u @ w)))"
proof (induction "u @ w" arbitrary: u rule: segments.induct)
  case (1 u)
  show ?case
  proof (cases "match_placeholder (u @ w)")
    case None
    with 1(3) obtain c cs where u: "u = c # cs" by (cases u) auto
    then have "u @ w = c # (cs @ w)" by simp
    from 1(1) [OF None this 1(3)] None u show ?thesis by (simp add: segments_Cons)
  next
    case (Some kr)
    obtain key rest where kr: "kr = (key, rest)" by (cases kr)
    show ?thesis
    proof (cases "u = []")
      case True
      with 1(3) show ?thesis by (simp add: segments_match)
    next
      case False
      with match_inside [of "u @ w" key rest u w] Some kr 1(3) obtain v where v: "rest = v @ w" by blast
      then have "(key, v @ w) = kr" using kr by simp
      from 1(2) [OF Some this 1(3)] v kr Some show ?thesis by (simp add: segments_match)
    qed
  qed
qed

lemma placeholder_keys_iff: "k \<in> set (placeholder_keys (segments s)) \<longleftrightarrow> (\<exists>u w r. s = u @ w \<and> match_placeholder w = Some (k, r))"
  using placeholder_keys_occur placeholder_occurs_key by blast

lemma placeholder_keys_append: "set (placeholder_keys (segments s)) \<union> set (placeholder_keys (segments t)) \<subseteq> set (placeholder_keys (segments (s @ t)))"
proof
  fix k assume "k \<in> set (placeholder_keys (segments s)) \<union> set (placeholder_keys (segments t))"
  then consider u w r where "s = u @ w" "match_placeholder w = Some (k, r)" | u w r where "t = u @ w" "match_placeholder w = Some (k, r)"
    by (auto simp: placeholder_keys_iff)
  then show "k \<in> set (placeholder_keys (segments (s @ t)))"
  proof cases
    case 1
    with match_placeholder_append [OF 1(2), of t] show ?thesis using placeholder_occurs_key [of "w @ t" k "r @ t" u] by simp
  next
    case 2
    with placeholder_occurs_key [of w k r "s @ u"] show ?thesis by simp
  qed
qed

lemma placeholder_keys_clean: "k \<in> set (placeholder_keys (segments s)) \<Longrightarrow> k \<noteq> [] \<and> js_trim k = k"
  using placeholder_keys_occur match_key_trimmed by blast

lemma set_extracted: "set (extract_template_variables s) = set (placeholder_keys (segments s))"
proof -
  have "map js_trim (placeholder_keys (segments s)) = placeholder_keys (segments s)"
    by (rule map_idI) (use placeholder_keys_clean in blast)
  then show ?thesis using placeholder_keys_clean by (auto simp: extract_template_variables_def)
qed

lemma render_segments_cong: "(\<And>k. k \<in> set (placeholder_keys ss) \<Longrightarrow> f k = g k) \<Longrightarrow> render_segments f ss = render_segments g ss"
  by (induction f ss rule: render_segments.induct) auto

lemma render_template_cong:
  "(\<And>k. k \<in> set (extract_template_variables text) \<Longrightarrow> resolve_variable inherited p k = resolve_variable inherited q k) \<Longrightarrow>
     render_template inherited text p = render_template inherited text q"
  unfolding render_template_def set_extracted by (rule render_segments_cong)

text \<open>
  C38: the variables the validation declares are all a template needs, when the request for it gives no
  list of variables.  The validation then extracts them from the subject and the body, and two payloads
  that agree on them give the same body and the same subject, errors included.  A list in the request,
  an empty one included, is taken as it is and need not name the placeholders, so nothing is claimed of it.
\<close>
theorem declared_variables_suffice:
  assumes "validate_create_template_input v = Inr t" and "json_field v ''variables'' = None"
    and "\<forall>vs. ti_variables t = Some vs \<longrightarrow> (\<forall>k \<in> set vs. resolve_variable inherited p k = resolve_variable inherited q k)"
  shows "render_template inherited (ti_body t) p = render_template inherited (ti_body t) q \<and>
    (\<forall>s. ti_subject t = Some s \<longrightarrow> render_template inherited s p = render_template inherited s q)"
proof -
  from assms(1,2) have vars: "ti_variables t = Some (extract_template_variables (template_source (ti_subject t) (ti_body t)))"
    by (auto simp: validate_create_template_input_def Let_def parse_variables_def split: if_splits prod.splits list.splits option.splits)
  have sub: "set (extract_template_variables (ti_body t)) \<subseteq> set (extract_template_variables (template_source (ti_subject t) (ti_body t)))"
    using placeholder_keys_append [of "the (ti_subject t) @ '' ''" "ti_body t"]
    by (auto simp: set_extracted template_source_def if_truthy_def split: option.splits)
  have subj: "set (extract_template_variables s) \<subseteq> set (extract_template_variables (template_source (ti_subject t) (ti_body t)))"
    if "ti_subject t = Some s" for s
    using placeholder_keys_append [of s "'' '' @ ti_body t"] that
    by (cases s) (auto simp: set_extracted template_source_def if_truthy_def)
  show ?thesis using assms(3) vars sub subj by (blast intro: render_template_cong)
qed

definition demo_template :: json where
  "demo_template = JObj [(''templateKey'', JStr ''welcome''), (''channel'', JStr ''email''), (''subject'', JStr ''For {{ user.name }}''),
     (''body'', JStr ''Dear {{user.name}}, your code is {{code}}.'')]"

definition demo_payload :: "string \<Rightarrow> json" where
  "demo_payload extra = JObj [(''user'', JObj [(''name'', JStr ''Kim'')]), (''code'', JNum 42), (''other'', JStr extra)]"

definition demo_inherited :: "json \<Rightarrow> string \<Rightarrow> string list \<Rightarrow> string outcome" where
  "demo_inherited = (\<lambda>_ _ _. Inr [])"

lemma demo_template_valid:
  "case validate_create_template_input demo_template of
     Inr t \<Rightarrow> ti_variables t = Some [''user.name'', ''code''] \<and> ti_body t = ''Dear {{user.name}}, your code is {{code}}.'' | Inl _ \<Rightarrow> False"
  by code_simp

theorem declared_variables_suffice_witness:
  "\<exists>t. validate_create_template_input demo_template = Inr t \<and>
     render_template demo_inherited (ti_body t) (demo_payload ''x'') = render_template demo_inherited (ti_body t) (demo_payload ''y'') \<and>
     render_template demo_inherited (ti_body t) (demo_payload ''x'') = Inr ''Dear Kim, your code is 42.''"
proof -
  obtain t where t: "validate_create_template_input demo_template = Inr t" "ti_variables t = Some [''user.name'', ''code'']"
    "ti_body t = ''Dear {{user.name}}, your code is {{code}}.''"
    using demo_template_valid by (auto split: sum.splits)
  have none: "json_field demo_template ''variables'' = None" by code_simp
  have "resolve_variable demo_inherited (demo_payload ''x'') k = resolve_variable demo_inherited (demo_payload ''y'') k"
    if "k \<in> set [''user.name'', ''code'']" for k
  proof -
    have "\<forall>k \<in> set [''user.name'', ''code'']. resolve_variable demo_inherited (demo_payload ''x'') k = resolve_variable demo_inherited (demo_payload ''y'') k"
      by code_simp
    with that show ?thesis by blast
  qed
  with declared_variables_suffice [OF t(1) none, of demo_inherited "demo_payload ''x''" "demo_payload ''y''"] t
  have "render_template demo_inherited (ti_body t) (demo_payload ''x'') = render_template demo_inherited (ti_body t) (demo_payload ''y'')" by simp
  moreover have "render_template demo_inherited (ti_body t) (demo_payload ''x'') = Inr ''Dear Kim, your code is 42.''"
    unfolding t(3) by code_simp
  ultimately show ?thesis using t(1) by blast
qed

end
