(* ===== verification/Messaging.thy ===== *)
theory Messaging
  imports MessageTemplates
begin

text \<open>
  \<open>InMemoryCommunicationRepository\<close> of \<open>packages/backend/src/communication/communication-repository.ts\<close>
  and \<open>CommunicationService\<close> of \<open>communication-service.ts\<close>: versioned templates, events that are recorded
  once per idempotency key, the dispatch to an e-mail or SMS provider and the log.  A repository
  method runs without interruption; what other requests did before it is an argument, and so are
  the providers, the random ids and the clock.
\<close>

section \<open>State\<close>

record message_template =
  mt_id :: string
  mt_organizationId :: string
  mt_templateKey :: string
  mt_channel :: string
  mt_version :: int
  mt_subject :: "string option"
  mt_body :: string
  mt_variables :: "string list"
  mt_isActive :: bool
  mt_createdAtIso :: string
  mt_updatedAtIso :: string

record message_event =
  me_id :: string
  me_organizationId :: string
  me_eventType :: string
  me_recipientDestination :: string
  me_payload :: json
  me_idempotencyKey :: string
  me_status :: string
  me_createdAtIso :: string
  me_updatedAtIso :: string

record message_log =
  ml_id :: string
  ml_organizationId :: string
  ml_eventId :: "string option"
  ml_templateId :: "string option"
  ml_channel :: string
  ml_provider :: string
  ml_status :: string
  ml_providerMessageId :: "string option"
  ml_attempts :: int
  ml_errorMessage :: "string option"
  ml_createdAtIso :: string

record comm_repo =
  cm_templates :: "message_template list"
  cm_events :: "message_event list"
  cm_logs :: "message_log list"

definition empty_comm_repo :: comm_repo where
  "empty_comm_repo = \<lparr>cm_templates = [], cm_events = [], cm_logs = []\<rparr>"

definition clear_comm_repo :: "comm_repo \<Rightarrow> comm_repo" where
  "clear_comm_repo r = r\<lparr>cm_templates := [], cm_events := [], cm_logs := []\<rparr>"

section \<open>Templates\<close>

definition templates_for :: "string \<Rightarrow> string \<Rightarrow> comm_repo \<Rightarrow> message_template list" where
  "templates_for org key r = filter (\<lambda>t. mt_organizationId t = org \<and> mt_templateKey t = key) (cm_templates r)"

definition create_template :: "template_input \<Rightarrow> string \<Rightarrow> string \<Rightarrow> string \<Rightarrow> comm_repo \<Rightarrow> message_template \<times> comm_repo" where
  "create_template i org uuid now r =
     (let versions = map mt_version (templates_for org (ti_templateKey i) r);
          version = (if versions = [] then 1 else Max (set versions) + 1);
          variables = (case ti_variables i of
             Some (v # vs) \<Rightarrow> v # vs
           | _ \<Rightarrow> extract_template_variables (template_source (ti_subject i) (ti_body i)));
          t = \<lparr>mt_id = uuid, mt_organizationId = org, mt_templateKey = ti_templateKey i, mt_channel = ti_channel i, mt_version = version,
               mt_subject = ti_subject i, mt_body = ti_body i, mt_variables = variables,
               mt_isActive = (case ti_isActive i of Some b \<Rightarrow> b | None \<Rightarrow> True), mt_createdAtIso = now, mt_updatedAtIso = now\<rparr>
      in (t, r\<lparr>cm_templates := cm_templates r @ [t]\<rparr>))"

text \<open>Active templates come first, then later versions.\<close>

definition best_templates :: "message_template list \<Rightarrow> message_template list" where
  "best_templates ts = sort_key (\<lambda>t. if mt_isActive t then 0 else 1 :: nat) (js_sort_desc mt_version ts)"

definition get_template :: "string \<Rightarrow> string \<Rightarrow> int option \<Rightarrow> comm_repo \<Rightarrow> message_template option" where
  "get_template org key version r =
     (case version of
        Some v \<Rightarrow> find (\<lambda>t. mt_organizationId t = org \<and> mt_templateKey t = key \<and> mt_version t = v) (cm_templates r)
      | None \<Rightarrow> (case templates_for org key r of [] \<Rightarrow> None | t # ts \<Rightarrow> Some (hd (best_templates (t # ts)))))"

definition get_template_by_id :: "string \<Rightarrow> string \<Rightarrow> comm_repo \<Rightarrow> message_template option" where
  "get_template_by_id org tid r = find (\<lambda>t. mt_organizationId t = org \<and> mt_id t = tid) (cm_templates r)"

text \<open>The place of the template that an update changes: the one with the id, or the last version of the key.\<close>

definition places :: "('a \<Rightarrow> bool) \<Rightarrow> 'a list \<Rightarrow> nat list" where
  "places p xs = filter (\<lambda>n. p (xs ! n)) [0..<length xs]"

definition template_place :: "string \<Rightarrow> string \<Rightarrow> message_template list \<Rightarrow> nat option" where
  "template_place org id_or_key ts =
     (case places (\<lambda>t. mt_organizationId t = org \<and> mt_id t = id_or_key) ts of
        n # _ \<Rightarrow> Some n
      | [] \<Rightarrow> (case js_sort_desc (\<lambda>n. mt_version (ts ! n)) (places (\<lambda>t. mt_organizationId t = org \<and> mt_templateKey t = id_or_key) ts) of
                n # _ \<Rightarrow> Some n | [] \<Rightarrow> None))"

definition updated_template :: "template_update \<Rightarrow> string \<Rightarrow> message_template \<Rightarrow> message_template" where
  "updated_template u now t =
     (let channel = (case tu_channel u of Some c \<Rightarrow> c | None \<Rightarrow> mt_channel t);
          subject = (case tu_subject u of Some s \<Rightarrow> s | None \<Rightarrow> mt_subject t);
          body = (case tu_body u of Some b \<Rightarrow> b | None \<Rightarrow> mt_body t);
          active = (case tu_isActive u of Some b \<Rightarrow> b | None \<Rightarrow> mt_isActive t);
          variables = (case tu_variables u of
              Some vs \<Rightarrow> vs
            | None \<Rightarrow> if tu_body u \<noteq> None \<or> tu_subject u \<noteq> None then extract_template_variables (template_source subject body) else mt_variables t)
      in t\<lparr>mt_channel := channel, mt_subject := subject, mt_body := body, mt_isActive := active, mt_variables := variables, mt_updatedAtIso := now\<rparr>)"

definition update_template :: "string \<Rightarrow> string \<Rightarrow> template_update \<Rightarrow> string \<Rightarrow> (comm_repo, message_template) act" where
  "update_template org id_or_key u now r =
     (case template_place org id_or_key (cm_templates r) of
        None \<Rightarrow> (Inl (PlainError ''Template not found.''), r)
      | Some n \<Rightarrow>
          (let t = updated_template u now (cm_templates r ! n) in (Inr t, r\<lparr>cm_templates := (cm_templates r)[n := t]\<rparr>)))"

record template_filter =
  tf_channel :: "string option"
  tf_isActive :: "bool option"

text \<open>\<open>rank\<close> is the order of \<open>localeCompare\<close>.\<close>

definition list_templates :: "(string \<Rightarrow> int) \<Rightarrow> string \<Rightarrow> template_filter \<Rightarrow> comm_repo \<Rightarrow> message_template list" where
  "list_templates rank org f r =
     sort_key (\<lambda>t. rank (mt_templateKey t)) (js_sort_desc mt_version
       (filter (\<lambda>t. mt_organizationId t = org \<and> (case if_truthy (tf_channel f) of Some c \<Rightarrow> mt_channel t = c | None \<Rightarrow> True) \<and>
          (case tf_isActive f of Some b \<Rightarrow> mt_isActive t = b | None \<Rightarrow> True)) (cm_templates r)))"

section \<open>Events and logs\<close>

record event_input =
  ei_id :: "string option"
  ei_organizationId :: string
  ei_eventType :: string
  ei_recipientDestination :: string
  ei_payload :: "json option"
  ei_idempotencyKey :: string
  ei_status :: "string option"

definition get_event_by_key :: "string \<Rightarrow> string \<Rightarrow> comm_repo \<Rightarrow> message_event option" where
  "get_event_by_key org key r = find (\<lambda>e. me_organizationId e = org \<and> me_idempotencyKey e = key) (cm_events r)"

text \<open>The flag says that the key was known.\<close>

definition record_event :: "event_input \<Rightarrow> string \<Rightarrow> string \<Rightarrow> comm_repo \<Rightarrow> (message_event \<times> bool) \<times> comm_repo" where
  "record_event i uuid now r =
     (case get_event_by_key (ei_organizationId i) (ei_idempotencyKey i) r of
        Some e \<Rightarrow> ((e, True), r)
      | None \<Rightarrow>
          let e = \<lparr>me_id = (case ei_id i of Some x \<Rightarrow> x | None \<Rightarrow> uuid), me_organizationId = ei_organizationId i, me_eventType = ei_eventType i,
                   me_recipientDestination = ei_recipientDestination i, me_payload = (case ei_payload i of Some p \<Rightarrow> p | None \<Rightarrow> JObj []),
                   me_idempotencyKey = ei_idempotencyKey i, me_status = (case ei_status i of Some s \<Rightarrow> s | None \<Rightarrow> ''pending''),
                   me_createdAtIso = now, me_updatedAtIso = now\<rparr>
          in ((e, False), r\<lparr>cm_events := cm_events r @ [e]\<rparr>))"

definition get_event :: "string \<Rightarrow> string \<Rightarrow> comm_repo \<Rightarrow> message_event option" where
  "get_event org eid r = find (\<lambda>e. me_organizationId e = org \<and> me_id e = eid) (cm_events r)"

definition update_event_status :: "string \<Rightarrow> string \<Rightarrow> string \<Rightarrow> string \<Rightarrow> (comm_repo, message_event) act" where
  "update_event_status org eid status now r =
     (case places (\<lambda>e. me_organizationId e = org \<and> me_id e = eid) (cm_events r) of
        [] \<Rightarrow> (Inl (PlainError ''Event not found.''), r)
      | n # _ \<Rightarrow>
          (let e = (cm_events r ! n)\<lparr>me_status := status, me_updatedAtIso := now\<rparr> in (Inr e, r\<lparr>cm_events := (cm_events r)[n := e]\<rparr>)))"

record log_input =
  lg_id :: "string option"
  lg_organizationId :: string
  lg_eventId :: "string option"
  lg_templateId :: "string option"
  lg_channel :: string
  lg_provider :: string
  lg_status :: string
  lg_providerMessageId :: "string option"
  lg_attempts :: "int option"
  lg_errorMessage :: "string option"

definition create_log :: "log_input \<Rightarrow> string \<Rightarrow> string \<Rightarrow> comm_repo \<Rightarrow> message_log \<times> comm_repo" where
  "create_log i uuid now r =
     (let l = \<lparr>ml_id = (case lg_id i of Some x \<Rightarrow> x | None \<Rightarrow> uuid), ml_organizationId = lg_organizationId i, ml_eventId = lg_eventId i,
               ml_templateId = lg_templateId i, ml_channel = lg_channel i, ml_provider = lg_provider i, ml_status = lg_status i,
               ml_providerMessageId = lg_providerMessageId i, ml_attempts = (case lg_attempts i of Some n \<Rightarrow> n | None \<Rightarrow> 1),
               ml_errorMessage = lg_errorMessage i, ml_createdAtIso = now\<rparr>
      in (l, r\<lparr>cm_logs := cm_logs r @ [l]\<rparr>))"

record log_filter =
  lf_eventId :: "string option"
  lf_templateId :: "string option"
  lf_channel :: "string option"
  lf_status :: "string option"
  lf_limit :: "int option"
  lf_offset :: "int option"

definition asked :: "string option \<Rightarrow> string option \<Rightarrow> bool" where
  "asked want have' = (case if_truthy want of None \<Rightarrow> True | Some v \<Rightarrow> have' = Some v)"

definition list_logs :: "string \<Rightarrow> log_filter \<Rightarrow> comm_repo \<Rightarrow> message_log list" where
  "list_logs org f r =
     (let found = js_sort_desc ml_createdAtIso (filter (\<lambda>l. ml_organizationId l = org \<and> asked (lf_eventId f) (ml_eventId l) \<and>
            asked (lf_templateId f) (ml_templateId l) \<and> asked (lf_channel f) (Some (ml_channel l)) \<and> asked (lf_status f) (Some (ml_status l))) (cm_logs r));
          offset = (case lf_offset f of Some n \<Rightarrow> n | None \<Rightarrow> 0);
          rest = (if 0 < offset then drop (nat offset) found else found)
      in (case lf_limit f of Some n \<Rightarrow> if 0 \<le> n then take (nat n) rest else rest | None \<Rightarrow> rest))"

definition get_log :: "string \<Rightarrow> string \<Rightarrow> comm_repo \<Rightarrow> message_log option" where
  "get_log org lid r = find (\<lambda>l. ml_organizationId l = org \<and> ml_id l = lid) (cm_logs r)"

section \<open>The service\<close>

datatype comm_point = AtRecord | AtTemplate | AtSend | AtLog | AtStatus

text \<open>What a provider was asked to send, with the event it was for.\<close>

record sent_message =
  sm_event :: message_event
  sm_channel :: string
  sm_to :: string
  sm_subject :: string
  sm_body :: string

record comm_state =
  mc_repo :: comm_repo
  mc_sent :: "sent_message list"

text \<open>A provider has a name and answers a message with its id or an error.\<close>

record comm_world =
  mw_now :: string
  mw_eventId :: string
  mw_key :: string
  mw_logId :: string
  mw_failureLogId :: string
  mw_email :: "(string \<times> (string \<Rightarrow> string \<Rightarrow> string \<Rightarrow> string outcome)) option"
  mw_sms :: "(string \<times> (string \<Rightarrow> string \<Rightarrow> string outcome)) option"
  mw_inherited :: "json \<Rightarrow> string \<Rightarrow> string list \<Rightarrow> string outcome"
  mw_others :: "comm_point \<Rightarrow> comm_repo \<Rightarrow> comm_repo"

record trigger_result =
  tr_status :: string
  tr_success :: bool
  tr_event :: message_event
  tr_log :: "message_log option"
  tr_error :: "string option"
  tr_duplicate :: bool

definition repo_call :: "comm_world \<Rightarrow> comm_point \<Rightarrow> (comm_repo, 'a) act \<Rightarrow> (comm_state, 'a) act" where
  "repo_call w p f s = (case f (mw_others w p (mc_repo s)) of (x, r) \<Rightarrow> (x, s\<lparr>mc_repo := r\<rparr>))"

definition total_call :: "(comm_repo \<Rightarrow> 'a \<times> comm_repo) \<Rightarrow> (comm_repo, 'a) act" where
  "total_call f r = (case f r of (x, r') \<Rightarrow> (Inr x, r'))"

definition send_recorded :: "sent_message \<Rightarrow> string outcome \<Rightarrow> (comm_state, string) act" where
  "send_recorded m answer s = (answer, s\<lparr>mc_sent := mc_sent s @ [m]\<rparr>)"

definition dispatch_to_provider ::
    "comm_world \<Rightarrow> message_template \<Rightarrow> message_event \<Rightarrow> string option \<Rightarrow> string \<Rightarrow> (comm_state, string \<times> string) act" where
  "dispatch_to_provider w t e subject body =
     (let to = me_recipientDestination e in
      if mt_channel t = ''email''
      then (case mw_email w of
              None \<Rightarrow> act_throw (PlainError ''Email provider not configured.'')
            | Some (name, send) \<Rightarrow>
                (let subj = (case subject of Some x \<Rightarrow> x | None \<Rightarrow> []) in
                 act_bind (send_recorded \<lparr>sm_event = e, sm_channel = ''email'', sm_to = to, sm_subject = subj, sm_body = body\<rparr> (send to subj body)) (\<lambda>mid.
                 act_return (name, mid))))
      else if mt_channel t = ''sms''
      then (case mw_sms w of
              None \<Rightarrow> act_throw (PlainError ''SMS provider not configured.'')
            | Some (name, send) \<Rightarrow>
                act_bind (send_recorded \<lparr>sm_event = e, sm_channel = ''sms'', sm_to = to, sm_subject = [], sm_body = body\<rparr> (send to body)) (\<lambda>mid.
                act_return (name, mid)))
      else act_throw (PlainError (''Unsupported message channel: '' @ mt_channel t)))"

definition dispatch_log :: "message_template \<Rightarrow> message_event \<Rightarrow> string \<Rightarrow> string \<Rightarrow> string option \<Rightarrow> string option \<Rightarrow> log_input" where
  "dispatch_log t e provider status mid err =
     \<lparr>lg_id = None, lg_organizationId = me_organizationId e, lg_eventId = Some (me_id e), lg_templateId = Some (mt_id t), lg_channel = mt_channel t,
      lg_provider = provider, lg_status = status, lg_providerMessageId = mid, lg_attempts = Some 1, lg_errorMessage = err\<rparr>"

definition failing_provider :: "comm_world \<Rightarrow> message_template \<Rightarrow> string" where
  "failing_provider w t =
     (if mt_channel t = ''email'' then (case mw_email w of Some (name, _) \<Rightarrow> name | None \<Rightarrow> ''mock-email'')
      else (case mw_sms w of Some (name, _) \<Rightarrow> name | None \<Rightarrow> ''mock-sms''))"

definition execute_provider_dispatch ::
    "comm_world \<Rightarrow> message_template \<Rightarrow> message_event \<Rightarrow> string option \<Rightarrow> string \<Rightarrow> (comm_state, trigger_result) act" where
  "execute_provider_dispatch w t e subject body =
     act_catch
       (act_bind (dispatch_to_provider w t e subject body) (\<lambda>(name, mid).
        act_bind (repo_call w AtLog (total_call (create_log (dispatch_log t e name ''delivered'' (Some mid) None) (mw_logId w) (mw_now w)))) (\<lambda>l.
        act_bind (repo_call w AtStatus (update_event_status (me_organizationId e) (me_id e) ''delivered'' (mw_now w))) (\<lambda>e'.
        act_return \<lparr>tr_status = ''delivered'', tr_success = True, tr_event = e', tr_log = Some l, tr_error = None, tr_duplicate = False\<rparr>))))
       (\<lambda>err.
        act_bind (repo_call w AtLog (total_call (create_log (dispatch_log t e (failing_provider w t) ''failed'' None (Some (err_message err)))
          (mw_failureLogId w) (mw_now w)))) (\<lambda>l.
        act_bind (repo_call w AtStatus (update_event_status (me_organizationId e) (me_id e) ''failed'' (mw_now w))) (\<lambda>e'.
        act_return \<lparr>tr_status = ''failed'', tr_success = False, tr_event = e', tr_log = Some l, tr_error = Some (err_message err), tr_duplicate = False\<rparr>)))"

definition fail_event :: "comm_world \<Rightarrow> message_event \<Rightarrow> string \<Rightarrow> (comm_state, trigger_result) act" where
  "fail_event w e msg =
     act_bind (repo_call w AtStatus (update_event_status (me_organizationId e) (me_id e) ''failed'' (mw_now w))) (\<lambda>e'.
     act_return \<lparr>tr_status = ''failed'', tr_success = False, tr_event = e', tr_log = None, tr_error = Some msg, tr_duplicate = False\<rparr>)"

text \<open>From the recording of the event on.\<close>

definition deliver_event :: "comm_world \<Rightarrow> message_event \<Rightarrow> (comm_state, trigger_result) act" where
  "deliver_event w e =
     act_bind (repo_call w AtTemplate (\<lambda>r. (Inr (get_template (me_organizationId e) (me_eventType e) None r), r))) (\<lambda>found.
     (case found of
        None \<Rightarrow> fail_event w e (''Template not found for event type: '' @ me_eventType e)
      | Some t \<Rightarrow>
          if \<not> mt_isActive t then fail_event w e (''Template is inactive for event type: '' @ me_eventType e)
          else act_bind (act_lift (render_template (mw_inherited w) (mt_body t) (me_payload e))) (\<lambda>body.
               act_bind (act_lift (case if_truthy (mt_subject t) of
                   None \<Rightarrow> Inr None | Some s \<Rightarrow> and_then (render_template (mw_inherited w) s (me_payload e)) (\<lambda>x. Inr (Some x)))) (\<lambda>subject.
               execute_provider_dispatch w t e subject body))))"

text \<open>The checks and the recording: a known key answers at once.\<close>

definition accept_event :: "comm_world \<Rightarrow> event_trigger \<Rightarrow> (comm_state, message_event \<times> bool) act" where
  "accept_event w i =
     (case if_truthy (et_organizationId i) of
        None \<Rightarrow> act_throw (AppError ''Organization ID is required.'' 400 None)
      | Some org \<Rightarrow>
          if et_eventType i = [] \<or> et_recipientDestination i = []
          then act_throw (AppError ''Event type and recipient destination are required.'' 400 None)
          else repo_call w AtRecord (total_call (record_event
            \<lparr>ei_id = None, ei_organizationId = org, ei_eventType = et_eventType i, ei_recipientDestination = et_recipientDestination i,
             ei_payload = Some (case et_payload i of Some p \<Rightarrow> p | None \<Rightarrow> JObj []),
             ei_idempotencyKey = (case et_idempotencyKey i of Some k \<Rightarrow> k | None \<Rightarrow> mw_key w), ei_status = Some ''pending''\<rparr>
            (mw_eventId w) (mw_now w))))"

definition trigger_event :: "comm_world \<Rightarrow> event_trigger \<Rightarrow> (comm_state, trigger_result) act" where
  "trigger_event w i =
     act_bind (accept_event w i) (\<lambda>(e, known).
     if known then act_return \<lparr>tr_status = ''skipped'', tr_success = True, tr_event = e, tr_log = None, tr_error = None, tr_duplicate = True\<rparr>
     else deliver_event w e)"

definition service_create_template :: "template_input \<Rightarrow> string \<Rightarrow> string \<Rightarrow> (comm_repo, message_template) act" where
  "service_create_template i uuid now =
     (case if_truthy (ti_organizationId i) of
        None \<Rightarrow> act_throw (AppError ''Organization ID is required.'' 400 None)
      | Some org \<Rightarrow> total_call (create_template i org uuid now))"

definition service_get_template :: "string \<Rightarrow> string \<Rightarrow> int option \<Rightarrow> comm_repo \<Rightarrow> message_template option" where
  "service_get_template org id_or_key version r =
     (case get_template org id_or_key version r of
        Some t \<Rightarrow> Some t | None \<Rightarrow> if version = None then get_template_by_id org id_or_key r else None)"

section \<open>The template an event gets\<close>

lemma set_best_templates [simp]: "set (best_templates ts) = set ts"
  by (simp add: best_templates_def)

lemma sorted_key_hd: "x \<in> set xs \<Longrightarrow> f (hd (sort_key f xs)) \<le> f x"
proof -
  assume "x \<in> set xs"
  then have x: "x \<in> set (sort_key f xs)" by simp
  obtain y ys where "sort_key f xs = y # ys" using x by (cases "sort_key f xs") auto
  with x sorted_sort_key [of f xs] show ?thesis by auto
qed

lemma sorted_desc: "sorted_wrt (\<lambda>x y. f y \<le> f x) (js_sort_desc f xs)"
  by (simp add: js_sort_desc_def sorted_wrt_rev flip: sorted_wrt_map)

lemma best_template_first:
  assumes "x \<in> set ts"
  shows "(mt_isActive x \<longrightarrow> mt_isActive (hd (best_templates ts))) \<and>
    (mt_isActive x = mt_isActive (hd (best_templates ts)) \<longrightarrow> mt_version x \<le> mt_version (hd (best_templates ts)))"
proof -
  let ?f = "\<lambda>t. if mt_isActive t then 0 else 1 :: nat" and ?xs = "js_sort_desc mt_version ts"
  let ?h = "hd (best_templates ts)"
  have x: "x \<in> set ?xs" using assms by simp
  have le: "?f ?h \<le> ?f x" using sorted_key_hd [OF x, of ?f] by (simp add: best_templates_def)
  moreover have "mt_version x \<le> mt_version ?h" if "mt_isActive x = mt_isActive ?h"
  proof -
    have same: "filter (\<lambda>t. ?f t = ?f x) (sort_key ?f ?xs) = filter (\<lambda>t. ?f t = ?f x) ?xs" by (rule sort_key_stable)
    have ne: "sort_key ?f ?xs \<noteq> []" using x by (metis length_greater_0_conv length_pos_if_in_set length_sort)
    then obtain zs where z: "sort_key ?f ?xs = ?h # zs" by (metis best_templates_def list.exhaust_sel)
    have "?f ?h = ?f x" using that by simp
    then have "filter (\<lambda>t. ?f t = ?f x) ?xs = ?h # filter (\<lambda>t. ?f t = ?f x) zs" using same z by simp
    moreover have "sorted_wrt (\<lambda>a b. mt_version b \<le> mt_version a) (filter (\<lambda>t. ?f t = ?f x) ?xs)" by (intro sorted_wrt_filter sorted_desc)
    moreover have "x \<in> set (filter (\<lambda>t. ?f t = ?f x) ?xs)" using x by simp
    ultimately show ?thesis by auto
  qed
  ultimately show ?thesis by (auto split: if_splits)
qed

section \<open>At most one message per key\<close>

definition event_key :: "message_event \<Rightarrow> string \<times> string" where
  "event_key e = (me_organizationId e, me_idempotencyKey e)"

definition event_keys :: "comm_repo \<Rightarrow> (string \<times> string) list" where
  "event_keys r = map event_key (cm_events r)"

text \<open>
  Requests run in two parts, the recording of the event and the rest; other requests change templates,
  statuses and logs at any point in between.  The list holds the events whose second part is to come.
\<close>

inductive comm_reachable :: "comm_state \<Rightarrow> message_event list \<Rightarrow> bool" where
  cr_start: "comm_reachable \<lparr>mc_repo = empty_comm_repo, mc_sent = []\<rparr> []"
| cr_template: "comm_reachable s ws \<Longrightarrow> comm_reachable (s\<lparr>mc_repo := snd (create_template i org uuid now (mc_repo s))\<rparr>) ws"
| cr_update: "comm_reachable s ws \<Longrightarrow> comm_reachable (s\<lparr>mc_repo := snd (update_template org k u now (mc_repo s))\<rparr>) ws"
| cr_known: "comm_reachable s ws \<Longrightarrow> \<forall>p r. event_keys (mw_others w p r) = event_keys r \<Longrightarrow>
    accept_event w i s = (Inr (e, True), s') \<Longrightarrow> comm_reachable s' ws"
| cr_accept: "comm_reachable s ws \<Longrightarrow> \<forall>p r. event_keys (mw_others w p r) = event_keys r \<Longrightarrow>
    accept_event w i s = (Inr (e, False), s') \<Longrightarrow> comm_reachable s' (e # ws)"
| cr_deliver: "comm_reachable s ws \<Longrightarrow> \<forall>p r. event_keys (mw_others w p r) = event_keys r \<Longrightarrow> e \<in> set ws \<Longrightarrow>
    deliver_event w e s = (res, s') \<Longrightarrow> comm_reachable s' (remove1 e ws)"

definition sent_keys :: "comm_state \<Rightarrow> (string \<times> string) list" where
  "sent_keys s = map (\<lambda>m. event_key (sm_event m)) (mc_sent s)"

definition sent_once :: "comm_state \<Rightarrow> message_event list \<Rightarrow> bool" where
  "sent_once s ws \<longleftrightarrow> distinct (sent_keys s @ map event_key ws) \<and> set (sent_keys s @ map event_key ws) \<subseteq> set (event_keys (mc_repo s))"

lemma create_template_events [simp]: "cm_events (snd (create_template i org uuid now r)) = cm_events r"
  by (simp add: create_template_def Let_def)

lemma update_template_events [simp]: "cm_events (snd (update_template org k u now r)) = cm_events r"
  by (simp add: update_template_def Let_def split: option.splits)

lemma update_status_keys: "event_keys (snd (update_event_status org eid st now r)) = event_keys r"
proof (cases "places (\<lambda>e. me_organizationId e = org \<and> me_id e = eid) (cm_events r)")
  case (Cons n ns)
  then have "n \<in> set (places (\<lambda>e. me_organizationId e = org \<and> me_id e = eid) (cm_events r))" by simp
  then have "n < length (cm_events r)" by (simp add: places_def)
  then show ?thesis
    by (simp add: update_event_status_def Cons Let_def event_keys_def map_update event_key_def) (metis event_key_def list_update_id map_update nth_map)
qed (simp add: update_event_status_def)

text \<open>A part of the delivery of \<open>e\<close> keeps the keys and sends nothing, or only a message for \<open>e\<close>.\<close>

definition keeps_keys :: "nat \<Rightarrow> message_event \<Rightarrow> (comm_state, 'a) act \<Rightarrow> bool" where
  "keeps_keys n e m \<longleftrightarrow>
     (\<forall>s. event_keys (mc_repo (snd (m s))) = event_keys (mc_repo s) \<and>
        (\<exists>ms. mc_sent (snd (m s)) = mc_sent s @ ms \<and> length ms \<le> n \<and> (\<forall>x \<in> set ms. sm_event x = e)))"

lemma keeps_keys_bind:
  assumes "keeps_keys n e m" "\<And>x. keeps_keys k e (f x)"
  shows "keeps_keys (n + k) e (act_bind m f)"
proof (unfold keeps_keys_def, intro allI)
  fix s
  obtain r t where m: "m s = (r, t)" by (meson surj_pair)
  from assms(1) m obtain ms where ms: "event_keys (mc_repo t) = event_keys (mc_repo s)" "mc_sent t = mc_sent s @ ms" "length ms \<le> n" "\<forall>x \<in> set ms. sm_event x = e"
    unfolding keeps_keys_def by (metis snd_conv)
  show "event_keys (mc_repo (snd (act_bind m f s))) = event_keys (mc_repo s) \<and>
      (\<exists>ms. mc_sent (snd (act_bind m f s)) = mc_sent s @ ms \<and> length ms \<le> n + k \<and> (\<forall>x \<in> set ms. sm_event x = e))"
  proof (cases r)
    case (Inl err)
    with m ms show ?thesis by (auto simp: act_bind_def)
  next
    case (Inr x)
    from assms(2) [of x] obtain ms' where "event_keys (mc_repo (snd (f x t))) = event_keys (mc_repo t)" "mc_sent (snd (f x t)) = mc_sent t @ ms'"
      "length ms' \<le> k" "\<forall>x \<in> set ms'. sm_event x = e" unfolding keeps_keys_def by blast
    with m ms Inr show ?thesis by (intro conjI exI [of _ "ms @ ms'"]) (auto simp: act_bind_def)
  qed
qed

lemma keeps_keys_catch:
  assumes "keeps_keys n e m" "\<And>x. keeps_keys k e (f x)"
  shows "keeps_keys (n + k) e (act_catch m f)"
proof (unfold keeps_keys_def, intro allI)
  fix s
  obtain r t where m: "m s = (r, t)" by (meson surj_pair)
  from assms(1) m obtain ms where ms: "event_keys (mc_repo t) = event_keys (mc_repo s)" "mc_sent t = mc_sent s @ ms" "length ms \<le> n" "\<forall>x \<in> set ms. sm_event x = e"
    unfolding keeps_keys_def by (metis snd_conv)
  show "event_keys (mc_repo (snd (act_catch m f s))) = event_keys (mc_repo s) \<and>
      (\<exists>ms. mc_sent (snd (act_catch m f s)) = mc_sent s @ ms \<and> length ms \<le> n + k \<and> (\<forall>x \<in> set ms. sm_event x = e))"
  proof (cases r)
    case (Inr y)
    with m ms show ?thesis by (auto simp: act_catch_def)
  next
    case (Inl x)
    from assms(2) [of x] obtain ms' where "event_keys (mc_repo (snd (f x t))) = event_keys (mc_repo t)" "mc_sent (snd (f x t)) = mc_sent t @ ms'"
      "length ms' \<le> k" "\<forall>x \<in> set ms'. sm_event x = e" unfolding keeps_keys_def by blast
    with m ms Inl show ?thesis by (intro conjI exI [of _ "ms @ ms'"]) (auto simp: act_catch_def)
  qed
qed

lemma keeps_keys_basic:
  "keeps_keys 0 e (act_return x)" "keeps_keys 0 e (act_throw err)" "keeps_keys 0 e (act_lift r)"
  by (simp_all add: keeps_keys_def act_return_def act_throw_def act_lift_def)

lemma keeps_keys_repo:
  assumes "\<forall>p r. event_keys (mw_others w p r) = event_keys r" "\<And>r. event_keys (snd (f r)) = event_keys r"
  shows "keeps_keys 0 e (repo_call w p f)"
  using assms by (auto simp: keeps_keys_def repo_call_def split: prod.split) (metis snd_conv)+

lemma keeps_keys_mono: "keeps_keys n e m \<Longrightarrow> n \<le> k \<Longrightarrow> keeps_keys k e m"
  unfolding keeps_keys_def by (meson order_trans)

lemma keeps_keys_dispatch: "keeps_keys 1 e (dispatch_to_provider w t e subject body)"
proof -
  have send: "keeps_keys 1 e (send_recorded m a)" if "sm_event m = e" for m a
    using that by (auto simp: keeps_keys_def send_recorded_def)
  have bind: "keeps_keys 1 e (act_bind (send_recorded m a) (\<lambda>mid. act_return (f mid)))" if "sm_event m = e" for m a and f :: "string \<Rightarrow> string \<times> string"
    using keeps_keys_bind [OF send [OF that] keeps_keys_basic(1)] by simp
  have throw: "keeps_keys 1 e (act_throw err)" for err :: app_error by (rule keeps_keys_mono [OF keeps_keys_basic(2)]) simp
  show ?thesis unfolding dispatch_to_provider_def Let_def
    by (auto simp del: One_nat_def split: option.split intro!: bind throw)
qed

lemma keeps_keys_deliver:
  assumes "\<forall>p r. event_keys (mw_others w p r) = event_keys r"
  shows "keeps_keys 1 e (deliver_event w e)"
proof -
  have log: "keeps_keys 0 e (repo_call w AtLog (total_call (create_log i u n)))" for i u n
    by (rule keeps_keys_repo [OF assms]) (simp add: total_call_def create_log_def Let_def event_keys_def)
  have status: "keeps_keys 0 e (repo_call w AtStatus (update_event_status org eid st n))" for org eid st n
    by (rule keeps_keys_repo [OF assms]) (rule update_status_keys)
  note zero = keeps_keys_bind [where n = 0 and k = 0, unfolded add_0_right] and bind1 = keeps_keys_bind [where n = 1 and k = 0, unfolded add_0_right]
    and bind01 = keeps_keys_bind [where n = 0 and k = 1, unfolded add_0_left]
  have fail: "keeps_keys 1 e (fail_event w e msg)" for msg unfolding fail_event_def
    by (rule keeps_keys_mono [where n = 0]) (intro zero status keeps_keys_basic, simp)
  have exec: "keeps_keys 1 e (execute_provider_dispatch w t e subject body)" for t subject body
    unfolding execute_provider_dispatch_def
    by (rule keeps_keys_catch [where n = 1 and k = 0, unfolded add_0_right])
      (auto simp del: One_nat_def intro!: bind1 keeps_keys_dispatch zero log status keeps_keys_basic split: prod.split)
  have lift: "keeps_keys 1 e (act_bind (act_lift r) f)" if "\<And>x. keeps_keys 1 e (f x)" for r and f :: "'b \<Rightarrow> (comm_state, trigger_result) act"
    by (rule bind01 [OF keeps_keys_basic(3) that])
  have read: "keeps_keys 0 e (repo_call w AtTemplate (\<lambda>r. (Inr (g r), r)))" for g :: "comm_repo \<Rightarrow> message_template option"
    by (rule keeps_keys_repo [OF assms]) simp
  show ?thesis unfolding deliver_event_def
    by (rule bind01 [OF read]) (auto simp del: One_nat_def intro!: fail lift exec split: option.split)
qed

lemma accept_event_cases:
  assumes "accept_event w i s = (Inr (e, known), s')" "\<forall>p r. event_keys (mw_others w p r) = event_keys r"
  shows "mc_sent s' = mc_sent s \<and>
    (if known then event_keys (mc_repo s') = event_keys (mc_repo s)
     else event_keys (mc_repo s') = event_keys (mc_repo s) @ [event_key e] \<and> event_key e \<notin> set (event_keys (mc_repo s)))"
proof -
  let ?r = "mw_others w AtRecord (mc_repo s)"
  from assms(1) obtain ei where rec: "record_event ei (mw_eventId w) (mw_now w) ?r = ((e, known), mc_repo s')" and sent: "mc_sent s' = mc_sent s"
    by (auto simp: accept_event_def repo_call_def total_call_def act_throw_def split: option.splits if_splits prod.splits)
  from assms(2) have same: "event_keys ?r = event_keys (mc_repo s)" by blast
  show ?thesis
  proof (cases "get_event_by_key (ei_organizationId ei) (ei_idempotencyKey ei) ?r")
    case (Some x)
    with rec sent same show ?thesis by (auto simp: record_event_def)
  next
    case None
    have "e = fst (fst (record_event ei (mw_eventId w) (mw_now w) ?r))" "known = snd (fst (record_event ei (mw_eventId w) (mw_now w) ?r))"
      "mc_repo s' = snd (record_event ei (mw_eventId w) (mw_now w) ?r)" using rec by simp_all
    with None have e: "event_key e = (ei_organizationId ei, ei_idempotencyKey ei)" "\<not> known" "cm_events (mc_repo s') = cm_events ?r @ [e]"
      by (simp_all add: record_event_def Let_def event_key_def)
    have "event_key e \<notin> set (event_keys ?r)"
      using None unfolding get_event_by_key_def find_None_iff e(1) by (auto simp: event_keys_def event_key_def)
    with e sent same show ?thesis by (simp add: event_keys_def)
  qed
qed

lemma reachable_sent_once: "comm_reachable s ws \<Longrightarrow> sent_once s ws"
proof (induction rule: comm_reachable.induct)
  case (cr_deliver s ws w e res s')
  from keeps_keys_deliver [OF cr_deliver.hyps(2), of e] cr_deliver.hyps(4) obtain ms where
    keys: "event_keys (mc_repo s') = event_keys (mc_repo s)" and sent: "mc_sent s' = mc_sent s @ ms" "length ms \<le> 1" "\<forall>x \<in> set ms. sm_event x = e"
    unfolding keeps_keys_def by (metis snd_conv)
  have ms: "ms = [] \<or> (\<exists>m. ms = [m] \<and> sm_event m = e)" using sent(2,3) by (cases ms) auto
  obtain a b where ws: "ws = a @ e # b" "e \<notin> set a" using split_list_first [OF cr_deliver.hyps(3)] by blast
  then have rest: "remove1 e ws = a @ b" by (simp add: remove1_append)
  from cr_deliver.IH ms show ?case unfolding sent_once_def rest by (auto simp: ws sent_keys_def sent(1) keys) (metis imageI)+
next
  case (cr_known s ws w i e s')
  from accept_event_cases [OF cr_known.hyps(3,2)] cr_known.IH show ?case by (simp add: sent_once_def sent_keys_def)
next
  case (cr_accept s ws w i e s')
  from accept_event_cases [OF cr_accept.hyps(3,2)] cr_accept.IH show ?case by (auto simp: sent_once_def sent_keys_def)
qed (simp_all add: sent_once_def sent_keys_def event_keys_def empty_comm_repo_def)

text \<open>
  C36: no message is sent twice.  However requests are interleaved and however often they are
  repeated, the providers are asked at most once for each organization and idempotency key.
\<close>
theorem message_sent_at_most_once:
  assumes "comm_reachable s waiting" and "i < length (mc_sent s)" "j < length (mc_sent s)"
    and "me_organizationId (sm_event (mc_sent s ! i)) = me_organizationId (sm_event (mc_sent s ! j))"
    and "me_idempotencyKey (sm_event (mc_sent s ! i)) = me_idempotencyKey (sm_event (mc_sent s ! j))"
  shows "i = j"
proof -
  have "distinct (sent_keys s)" using reachable_sent_once [OF assms(1)] by (simp add: sent_once_def)
  moreover have "sent_keys s ! i = sent_keys s ! j" using assms by (simp add: sent_keys_def event_key_def)
  moreover have "i < length (sent_keys s)" "j < length (sent_keys s)" using assms(2,3) by (simp_all add: sent_keys_def)
  ultimately show ?thesis using nth_eq_iff_index_eq by blast
qed

text \<open>
  The template of an event is the latest active one.  A template found by its key is active when any
  template of the key is, and no other template of the key in the same state has a later version.
\<close>
theorem latest_active_template:
  assumes "get_template org key None r = Some t" and "x \<in> set (cm_templates r)" "mt_organizationId x = org" "mt_templateKey x = key"
  shows "t \<in> set (cm_templates r) \<and> mt_organizationId t = org \<and> mt_templateKey t = key \<and> (mt_isActive x \<longrightarrow> mt_isActive t) \<and>
    (mt_isActive x = mt_isActive t \<longrightarrow> mt_version x \<le> mt_version t)"
proof -
  let ?ts = "templates_for org key r"
  from assms have x: "x \<in> set ?ts" by (simp add: templates_for_def)
  then have t: "t = hd (best_templates ?ts)" using assms(1) by (cases ?ts) (auto simp: get_template_def)
  have "best_templates ?ts \<noteq> []" using x by (metis set_best_templates set_empty length_pos_if_in_set length_greater_0_conv)
  then have "t \<in> set ?ts" unfolding t by (metis hd_in_set set_best_templates)
  then show ?thesis using best_template_first [OF x] unfolding t [symmetric] by (simp add: templates_for_def)
qed

section \<open>A failed message and the next request for it\<close>

text \<open>Who the recorded events are for, and their ids; other requests change neither.\<close>

definition event_places :: "comm_repo \<Rightarrow> ((string \<times> string) \<times> string) list" where
  "event_places r = map (\<lambda>e. (event_key e, me_id e)) (cm_events r)"

definition others_keep_places :: "comm_world \<Rightarrow> bool" where
  "others_keep_places w \<longleftrightarrow> (\<forall>p r. event_places (mw_others w p r) = event_places r)"

abbreviation same_places :: "comm_state \<Rightarrow> comm_state \<Rightarrow> bool" where
  "same_places s t \<equiv> event_places (mc_repo t) = event_places (mc_repo s)"

lemma update_status_places: "event_places (snd (update_event_status org eid st now r)) = event_places r"
proof (cases "places (\<lambda>e. me_organizationId e = org \<and> me_id e = eid) (cm_events r)")
  case (Cons n ns)
  then have "n \<in> set (places (\<lambda>e. me_organizationId e = org \<and> me_id e = eid) (cm_events r))" by simp
  then have "n < length (cm_events r)" by (simp add: places_def)
  then show ?thesis
    by (intro nth_equalityI) (auto simp: update_event_status_def Cons Let_def event_places_def event_key_def nth_list_update)
qed (simp add: update_event_status_def)

lemma repo_call_places:
  assumes "repo_call w p f s = (x, t)" "others_keep_places w" "\<And>r. event_places (snd (f r)) = event_places r"
  shows "same_places s t"
  using assms(1) assms(2) assms(3) [of "mw_others w p (mc_repo s)"] by (auto simp: repo_call_def others_keep_places_def split: prod.splits)

lemma log_places: "repo_call w p (total_call (create_log i u n)) s = (x, t) \<Longrightarrow> others_keep_places w \<Longrightarrow> same_places s t"
  by (erule (1) repo_call_places) (simp add: total_call_def create_log_def Let_def event_places_def)

lemma status_places: "repo_call w p (update_event_status org eid st n) s = (x, t) \<Longrightarrow> others_keep_places w \<Longrightarrow> same_places s t"
  by (erule (1) repo_call_places) (rule update_status_places)

lemma dispatch_places: "dispatch_to_provider w t e subject body s = (x, u) \<Longrightarrow> mc_repo u = mc_repo s"
  by (auto simp: dispatch_to_provider_def Let_def act_bind_def send_recorded_def split: if_splits option.splits sum.splits prod.splits)

text \<open>A delivery that does not succeed ends by setting its event to failed.\<close>

definition ends_failed :: "comm_world \<Rightarrow> message_event \<Rightarrow> comm_state \<Rightarrow> message_event \<Rightarrow> comm_state \<Rightarrow> bool" where
  "ends_failed w e s e' s' \<longleftrightarrow>
     (\<exists>r. event_places r = event_places (mc_repo s) \<and>
        update_event_status (me_organizationId e) (me_id e) ''failed'' (mw_now w) r = (Inr e', mc_repo s'))"

lemma failed_step:
  assumes "repo_call w AtStatus (update_event_status (me_organizationId e) (me_id e) ''failed'' (mw_now w)) t = (Inr e', s')"
    and "others_keep_places w" "same_places s t"
  shows "ends_failed w e s e' s'"
  using assms unfolding ends_failed_def others_keep_places_def
  by (intro exI [of _ "mw_others w AtStatus (mc_repo t)"]) (auto simp: repo_call_def split: prod.splits)

lemma failed_delivery:
  assumes "deliver_event w e s = (Inr res, s')" "\<not> tr_success res" "others_keep_places w"
  shows "ends_failed w e s (tr_event res) s'"
proof -
  have fail: "fail_event w e msg t = (Inr res, s') \<Longrightarrow> same_places s t \<Longrightarrow> ?thesis" for msg t
    by (auto simp: fail_event_def act_bind_eq_Inr intro: failed_step [OF _ assms(3)])
  have sent: "same_places s u'" if "act_bind (dispatch_to_provider w t e subject body) (\<lambda>(name, mid).
        act_bind (repo_call w AtLog (total_call (create_log (dispatch_log t e name ''delivered'' (Some mid) None) (mw_logId w) (mw_now w)))) (\<lambda>l.
        act_bind (repo_call w AtStatus (update_event_status (me_organizationId e) (me_id e) ''delivered'' (mw_now w))) (\<lambda>e'.
        act_return (f l e')))) u = (x, u')" "same_places s u" for t subject body u u' x and f :: "message_log \<Rightarrow> message_event \<Rightarrow> trigger_result"
    using that by (auto elim!: act_bind_cases dest!: dispatch_places log_places [OF _ assms(3)] status_places [OF _ assms(3)])
  have exec: "execute_provider_dispatch w t e subject body u = (Inr res, s') \<Longrightarrow> same_places s u \<Longrightarrow> ?thesis" for t subject body u
    using assms(2) unfolding execute_provider_dispatch_def act_catch_def
    by (auto simp: act_bind_eq_Inr split: prod.splits sum.splits dest!: sent dest: log_places [OF _ assms(3)] intro!: failed_step [OF _ assms(3)])
  from assms(1) show ?thesis unfolding deliver_event_def
  proof (cases rule: act_bind_cases)
    case (returned found t)
    have "same_places s t" by (rule repo_call_places [OF returned(1) assms(3)]) simp
    with returned(2) fail exec show ?thesis by (auto simp: act_bind_eq_Inr split: option.splits if_splits)
  qed simp
qed

lemma last_event_status:
  assumes "update_event_status org eid st now r = (Inr e', r')" and "event_places r = ps @ [((org, key), eid)]"
    and "\<forall>p \<in> set ps. fst p \<noteq> (org, key) \<and> \<not> (fst (fst p) = org \<and> snd p = eid)"
  shows "get_event_by_key org key r' = Some e' \<and> me_status e' = st"
proof -
  from assms(2) obtain es e where r: "cm_events r = es @ [e]" "ps = map (\<lambda>e. (event_key e, me_id e)) es" "event_key e = (org, key)" "me_id e = eid"
    by (auto simp: event_places_def map_eq_append_conv)
  have old: "me_organizationId x = org \<Longrightarrow> me_id x \<noteq> eid \<and> me_idempotencyKey x \<noteq> key" if "x \<in> set es" for x
    using assms(3) that by (force simp: r(2) event_key_def)
  have "places (\<lambda>e. me_organizationId e = org \<and> me_id e = eid) (es @ [e]) = [length es]"
    unfolding places_def using old r(3,4)
    by (auto simp: event_key_def nth_append cong: conj_cong intro!: arg_cong [where f = "\<lambda>xs. xs @ [_]"])
  with assms(1) r have "e' = e\<lparr>me_status := st, me_updatedAtIso := now\<rparr>" "cm_events r' = es @ [e\<lparr>me_status := st, me_updatedAtIso := now\<rparr>]"
    by (auto simp: update_event_status_def Let_def)
  moreover have "find (\<lambda>x. me_organizationId x = org \<and> me_idempotencyKey x = key) es = None" using old by (auto simp: find_None_iff)
  ultimately show ?thesis using r(3) by (simp add: get_event_by_key_def find_append_None event_key_def)
qed

lemma failed_request_recorded:
  assumes "trigger_event w i s = (Inr res, s')" "\<not> tr_success res" "et_organizationId i = Some org" "et_idempotencyKey i = Some key"
    and "others_keep_places w" "\<forall>e \<in> set (cm_events (mc_repo s)). me_organizationId e = org \<longrightarrow> me_id e \<noteq> mw_eventId w"
  shows "get_event_by_key org key (mc_repo s') = Some (tr_event res) \<and> me_status (tr_event res) = ''failed''"
proof -
  from assms(1,2) obtain e t where acc: "accept_event w i s = (Inr (e, False), t)" and del: "deliver_event w e t = (Inr res, s')"
    by (auto simp: trigger_event_def act_bind_eq_Inr split: if_splits)
  let ?r = "mw_others w AtRecord (mc_repo s)"
  from acc assms(3,4) obtain ei where rec: "record_event ei (mw_eventId w) (mw_now w) ?r = ((e, False), mc_repo t)"
    and ei: "ei_id ei = None" "ei_organizationId ei = org" "ei_idempotencyKey ei = key"
    by (auto simp: accept_event_def repo_call_def total_call_def if_truthy_def split: if_splits prod.splits)
  from sym [OF rec] ei have new: "get_event_by_key org key ?r = None" and e: "me_organizationId e = org" "me_idempotencyKey e = key" "me_id e = mw_eventId w"
    and t: "cm_events (mc_repo t) = cm_events ?r @ [e]"
    by (auto simp: record_event_def Let_def split: option.splits)
  have same: "event_places ?r = event_places (mc_repo s)" using assms(5) by (simp add: others_keep_places_def)
  have "fst q \<noteq> (org, key)" if "q \<in> set (event_places ?r)" for q
    using new that by (auto simp: get_event_by_key_def find_None_iff event_places_def event_key_def)
  moreover have "\<not> (fst (fst q) = org \<and> snd q = mw_eventId w)" if "q \<in> set (event_places ?r)" for q
    using assms(6) that unfolding same by (auto simp: event_places_def event_key_def)
  moreover obtain r where "event_places r = event_places (mc_repo t)" "update_event_status org (mw_eventId w) ''failed'' (mw_now w) r = (Inr (tr_event res), mc_repo s')"
    using failed_delivery [OF del assms(2,5)] e by (auto simp: ends_failed_def)
  moreover have "event_places (mc_repo t) = event_places ?r @ [((org, key), mw_eventId w)]" by (simp add: event_places_def t event_key_def e)
  ultimately show ?thesis using last_event_status by metis
qed

text \<open>
  C37: a failed message cannot be tried again.  When a request with an idempotency key was taken but not
  sent (its template is missing or inactive, or the provider or its configuration failed), its event is
  kept as failed, and the next request of the organization with the key is answered as a success and
  skipped, with that failed event, and nothing is sent.  A request turned away with status 400 and one
  whose rendering throws are not meant: the first records no event, the second leaves its event pending.
\<close>
theorem failed_message_reported_as_success:
  assumes "trigger_event w i s = (Inr res, s')" "\<not> tr_success res"
    and "et_organizationId i = Some org" "et_idempotencyKey i = Some key" "others_keep_places w"
    and "\<forall>e \<in> set (cm_events (mc_repo s)). me_organizationId e = org \<longrightarrow> me_id e \<noteq> mw_eventId w"
    and "et_organizationId j = Some org" "et_idempotencyKey j = Some key" "et_eventType j \<noteq> []" "et_recipientDestination j \<noteq> []"
    and "get_event_by_key org key (mw_others v AtRecord (mc_repo s')) = get_event_by_key org key (mc_repo s')"
  shows "me_status (tr_event res) = ''failed'' \<and>
    (\<exists>again s''. trigger_event v j s' = (Inr again, s'') \<and> tr_success again \<and> tr_duplicate again \<and> tr_status again = ''skipped'' \<and>
       tr_event again = tr_event res \<and> mc_sent s'' = mc_sent s' \<and> mc_repo s'' = mw_others v AtRecord (mc_repo s'))"
proof -
  note first = failed_request_recorded [OF assms(1-6)]
  have "org \<noteq> []"
    using assms(1,3) by (auto simp: trigger_event_def accept_event_def if_truthy_def act_bind_eq_Inr)
  with first assms(7-11) show ?thesis
    by (simp add: trigger_event_def accept_event_def if_truthy_def repo_call_def total_call_def record_event_def act_bind_def)
qed


lemma update_ignores_key: "update_template org k (u\<lparr>tu_templateKey := Some key\<rparr>) now r = update_template org k u now r"
  by (simp add: update_template_def updated_template_def cong: option.case_cong)

section \<open>A welcome message\<close>

definition demo_comm_world :: comm_world where
  "demo_comm_world =
     \<lparr>mw_now = ''2026-03-20T12:00:00.000Z'', mw_eventId = ''e1'', mw_key = ''k'', mw_logId = ''l1'', mw_failureLogId = ''l2'',
      mw_email = Some (''mail'', \<lambda>_ _ _. Inr ''m1''), mw_sms = None, mw_inherited = demo_inherited, mw_others = (\<lambda>_ r. r)\<rparr>"

definition demo_trigger :: event_trigger where
  "demo_trigger = \<lparr>et_organizationId = Some ''org'', et_eventType = ''welcome'', et_recipientDestination = ''kim@example.org'',
     et_payload = Some (demo_payload ''x''), et_idempotencyKey = Some ''k1'', et_channel = None\<rparr>"

definition demo_template_input :: "bool \<Rightarrow> template_input" where
  "demo_template_input active = \<lparr>ti_organizationId = None, ti_templateKey = ''welcome'', ti_channel = ''email'', ti_subject = None,
     ti_body = ''Dear {{user.name}}'', ti_variables = None, ti_isActive = Some active\<rparr>"

definition demo_comm :: comm_state where
  "demo_comm = \<lparr>mc_repo = snd (create_template (demo_template_input True) ''org'' ''t1'' ''2026-03-20T11:00:00.000Z'' empty_comm_repo), mc_sent = []\<rparr>"

lemma demo_others: "\<forall>p r. event_keys (mw_others demo_comm_world p r) = event_keys r"
  by (simp add: demo_comm_world_def)

theorem message_sent_at_most_once_witness:
  "\<exists>s. comm_reachable s [] \<and> length (mc_sent s) = 1 \<and> (\<forall>i j. i < length (mc_sent s) \<and> j < length (mc_sent s) \<longrightarrow> i = j)"
proof -
  have start: "comm_reachable demo_comm []"
    using cr_template [OF cr_start, of "demo_template_input True" "''org''" "''t1''" "''2026-03-20T11:00:00.000Z''"] by (simp add: demo_comm_def)
  have "case accept_event demo_comm_world demo_trigger demo_comm of
      (Inr (e, False), s) \<Rightarrow> (case deliver_event demo_comm_world e s of (_, s') \<Rightarrow> length (mc_sent s') = 1) | _ \<Rightarrow> False"
    by code_simp
  then obtain e s res s' where acc: "accept_event demo_comm_world demo_trigger demo_comm = (Inr (e, False), s)"
    and del: "deliver_event demo_comm_world e s = (res, s')" "length (mc_sent s') = 1"
    by (cases "accept_event demo_comm_world demo_trigger demo_comm") (auto split: sum.splits prod.splits bool.splits)
  have "comm_reachable s' (remove1 e [e])"
    by (rule cr_deliver [OF cr_accept [OF start demo_others acc] demo_others _ del(1)]) simp
  then have r: "comm_reachable s' []" by simp
  have "i = j" if "i < length (mc_sent s')" "j < length (mc_sent s')" for i j
    by (rule message_sent_at_most_once [OF r that]) (use that del(2) in simp_all)
  with r del(2) show ?thesis by blast
qed

theorem latest_active_template_witness:
  "\<exists>r t. get_template ''org'' ''welcome'' None r = Some t \<and> length (cm_templates r) = 2 \<and> mt_isActive t \<and> mt_version t = 1"
proof -
  let ?r = "snd (create_template (demo_template_input False) ''org'' ''t2'' ''n'' (mc_repo demo_comm))"
  have c: "length (cm_templates ?r) = 2 \<and> cm_templates ?r ! 0 \<in> set (cm_templates ?r) \<and> mt_isActive (cm_templates ?r ! 0) \<and>
      list_all (\<lambda>t. mt_organizationId t = ''org'' \<and> mt_templateKey t = ''welcome'' \<and> (mt_isActive t \<longrightarrow> mt_version t = 1)) (cm_templates ?r)"
    by code_simp
  have "get_template ''org'' ''welcome'' None ?r \<noteq> None" by code_simp
  then obtain t where t: "get_template ''org'' ''welcome'' None ?r = Some t" by blast
  from latest_active_template [OF t, of "cm_templates ?r ! 0"] c have "mt_isActive t \<and> t \<in> set (cm_templates ?r)" by (auto simp: list_all_iff)
  with c t show ?thesis by (auto simp: list_all_iff)
qed

theorem failed_message_reported_as_success_witness:
  "\<exists>s res again. trigger_event demo_comm_world demo_trigger \<lparr>mc_repo = empty_comm_repo, mc_sent = []\<rparr> = (Inr res, s) \<and> \<not> tr_success res \<and>
     (\<exists>s'. trigger_event demo_comm_world (demo_trigger\<lparr>et_recipientDestination := ''lee@example.org''\<rparr>) s = (Inr again, s')) \<and>
     tr_success again \<and> tr_event again = tr_event res \<and> me_status (tr_event again) = ''failed''"
proof -
  have "case trigger_event demo_comm_world demo_trigger \<lparr>mc_repo = empty_comm_repo, mc_sent = []\<rparr> of (Inr res, _) \<Rightarrow> \<not> tr_success res | _ \<Rightarrow> False"
    by code_simp
  then obtain res s where run: "trigger_event demo_comm_world demo_trigger \<lparr>mc_repo = empty_comm_repo, mc_sent = []\<rparr> = (Inr res, s)" "\<not> tr_success res"
    by (auto split: prod.splits sum.splits)
  have quiet: "others_keep_places demo_comm_world" "get_event_by_key ''org'' ''k1'' (mw_others demo_comm_world AtRecord (mc_repo s)) = get_event_by_key ''org'' ''k1'' (mc_repo s)"
    by (simp_all add: others_keep_places_def demo_comm_world_def)
  from failed_message_reported_as_success [OF run _ _ quiet(1), of "''org''" "''k1''" "demo_trigger\<lparr>et_recipientDestination := ''lee@example.org''\<rparr>", OF _ _ _ _ _ _ _ quiet(2)] run
  show ?thesis by (auto simp: demo_trigger_def empty_comm_repo_def)
qed

end
