(* ===== verification/Availability.thy ===== *)
theory Availability
  imports CheckoutValidation MessageTemplates
begin

text \<open>
  Festival availability of children and accompanists: \<open>packages/common/src/availability.ts\<close>,
  \<open>InMemoryCustomerAvailabilityRepository\<close> and the parsing of stored hours in
  \<open>packages/backend/src/customer/customer-availability-repository.ts\<close>, and
  \<open>CustomerAvailabilityService\<close> of \<open>customer-availability-service.ts\<close>.  The session, the
  festivals, the children and the membership grants are parameters; the request is JSON.
\<close>

section \<open>Hours and dates\<close>

definition AVAILABILITY_HOURS :: "int list" where "AVAILABILITY_HOURS = [8, 9, 10, 11, 12, 13, 14, 15, 16, 17]"

definition DEFAULT_AVAILABLE_HOURS :: "int list" where "DEFAULT_AVAILABLE_HOURS = [8, 9, 10, 11, 12, 13, 14, 15, 16]"

definition is_availability_hour :: "int \<Rightarrow> bool" where
  "is_availability_hour h \<longleftrightarrow> h \<in> set AVAILABILITY_HOURS"

definition normalize_available_hours :: "int list \<Rightarrow> int list outcome" where
  "normalize_available_hours hours =
     (case find (\<lambda>h. \<not> is_availability_hour h) hours of
        Some h \<Rightarrow> Inl (PlainError (''Invalid availability hour: '' @ int_string h @ ''.''))
      | None \<Rightarrow> Inr (sort (js_uniq hours)))"

fun dates_from :: "nat \<Rightarrow> cal_date \<Rightarrow> string list" where
  "dates_from 0 d = []"
| "dates_from (Suc n) d = iso_date d # dates_from n (next_day d)"

definition parse_iso_calendar_date :: "string \<Rightarrow> cal_date outcome" where
  "parse_iso_calendar_date s =
     (case date_fields s of
        None \<Rightarrow> Inl (PlainError ''Calendar date must use YYYY-MM-DD.'')
      | Some (y, m, d) \<Rightarrow> if valid_date (CalDate y m d) then Inr (CalDate y m d) else Inl (PlainError ''Calendar date is invalid.''))"

definition enumerate_festival_dates :: "string \<Rightarrow> string \<Rightarrow> string list outcome" where
  "enumerate_festival_dates start stop =
     and_then (parse_iso_calendar_date start) (\<lambda>a.
     and_then (parse_iso_calendar_date stop) (\<lambda>b.
     Inr (dates_from (day_number b + 1 - day_number a) a)))"

record availability_day =
  ad_date :: string
  ad_availableHours :: "int list"

definition build_default_availability_days :: "string list \<Rightarrow> availability_day list" where
  "build_default_availability_days dates = map (\<lambda>d. \<lparr>ad_date = d, ad_availableHours = DEFAULT_AVAILABLE_HOURS\<rparr>) dates"

definition format_hour_point :: "int \<Rightarrow> string" where
  "format_hour_point h =
     int_string (if h mod 12 = 0 then 12 else h mod 12) @ '':00 '' @ (if 12 \<le> h then ''p.m.'' else ''a.m.'')"

definition format_availability_hour_block :: "int \<Rightarrow> string" where
  "format_availability_hour_block h = format_hour_point h @ '' - '' @ format_hour_point (h + 1)"

section \<open>The request\<close>

definition json_items :: "json option \<Rightarrow> json list option" where
  "json_items v = (case v of Some (JArr xs) \<Rightarrow> Some xs | _ \<Rightarrow> None)"

text \<open>\<open>String(value ?? "")\<close>.\<close>

definition date_text :: "json option \<Rightarrow> string outcome" where
  "date_text v = (case v of None \<Rightarrow> Inr [] | Some JNull \<Rightarrow> Inr [] | Some x \<Rightarrow> string_of x)"

definition valid_hours :: "json option \<Rightarrow> bool" where
  "valid_hours v = (case json_items v of None \<Rightarrow> False
     | Some xs \<Rightarrow> list_all (\<lambda>x. case x of JNum n \<Rightarrow> is_availability_hour n | _ \<Rightarrow> False) xs)"

fun validate_days :: "string list \<Rightarrow> string list \<Rightarrow> json list \<Rightarrow> string list outcome" where
  "validate_days valid seen [] = Inr []"
| "validate_days valid seen (day # days) =
     (case string_field day ''date'' of
        Some d \<Rightarrow>
          if d \<in> set valid
          then and_then (validate_days valid (d # seen) days) (\<lambda>es.
            Inr (push_if (d \<in> set seen) (''Duplicate availability date: '' @ d @ ''.'') @
                 push_if (\<not> valid_hours (json_field day ''availableHours'')) (''Invalid available hours for date '' @ d @ ''.'') @ es))
          else and_then (validate_days valid seen days) (\<lambda>es. Inr ((''Invalid festival date: '' @ d @ ''.'') # es))
      | None \<Rightarrow>
          and_then (date_text (json_field day ''date'')) (\<lambda>t.
          and_then (validate_days valid seen days) (\<lambda>es. Inr ((''Invalid festival date: '' @ t @ ''.'') # es))))"

definition validate_subject_days :: "string list \<Rightarrow> json \<Rightarrow> string list outcome" where
  "validate_subject_days valid subject =
     (case json_items (json_field subject ''days'') of
        None \<Rightarrow> Inr [''Subject days must be an array.'']
      | Some days \<Rightarrow> validate_days valid [] days)"

definition subject_key :: "json \<Rightarrow> string" where
  "subject_key subject = (case string_field subject ''subjectType'' of Some t \<Rightarrow> t | None \<Rightarrow> []) @ '':'' @ text_field subject ''subjectId''"

fun validate_subjects :: "string list \<Rightarrow> string list \<Rightarrow> json list \<Rightarrow> string list outcome" where
  "validate_subjects valid seen [] = Inr []"
| "validate_subjects valid seen (subject # rest) =
     (if string_field subject ''subjectType'' \<notin> {Some ''accompanist'', Some ''child''}
      then and_then (validate_subjects valid seen rest) (\<lambda>es. Inr (''Subject type must be accompanist or child.'' # es))
      else if text_field subject ''subjectId'' = []
      then and_then (validate_subjects valid seen rest) (\<lambda>es. Inr (''Subject ID is required.'' # es))
      else (let key = subject_key subject in
        and_then (validate_subject_days valid subject) (\<lambda>ds.
        and_then (validate_subjects valid (key # seen) rest) (\<lambda>es.
        Inr (push_if (key \<in> set seen) (''Duplicate subject: '' @ key @ ''.'') @ ds @ es)))))"

text \<open>The messages; the request is valid when there are none.\<close>

definition validate_save_request :: "json \<Rightarrow> string list \<Rightarrow> string list outcome" where
  "validate_save_request input dates =
     (let missing = push_if (text_field input ''festivalId'' = []) ''Festival ID is required.'' in
      (case json_items (json_field input ''subjects'') of
         None \<Rightarrow> Inr (missing @ [''Subjects must be an array.''])
       | Some subjects \<Rightarrow> and_then (validate_subjects dates [] subjects) (\<lambda>es. Inr (missing @ es))))"

section \<open>Repository\<close>

record availability_record =
  ar_organizationId :: string
  ar_festivalId :: string
  ar_customerId :: string
  ar_subjectType :: string
  ar_subjectId :: string
  ar_festivalDate :: string
  ar_availableHours :: "int list"
  ar_updatedAtIso :: string

record availability_entry =
  ae_organizationId :: string
  ae_festivalId :: string
  ae_customerId :: string
  ae_subjectType :: string
  ae_subjectId :: string
  ae_festivalDate :: string
  ae_availableHours :: "int list"

definition record_key :: "availability_entry \<Rightarrow> string" where
  "record_key e = js_join [CHR 0x00] [ae_organizationId e, ae_festivalId e, ae_subjectType e, ae_subjectId e, ae_festivalDate e]"

type_synonym availability_repo = "(string, availability_record) js_map"

definition list_availability :: "string \<Rightarrow> string \<Rightarrow> string \<Rightarrow> availability_repo \<Rightarrow> availability_record list" where
  "list_availability org festival customer r =
     sort_key ar_subjectType (sort_key ar_subjectId (sort_key ar_festivalDate
       (filter (\<lambda>x. ar_organizationId x = org \<and> ar_festivalId x = festival \<and> ar_customerId x = customer) (js_values r))))"

definition entry_record :: "availability_entry \<Rightarrow> int list \<Rightarrow> string \<Rightarrow> availability_record" where
  "entry_record e hours now =
     \<lparr>ar_organizationId = ae_organizationId e, ar_festivalId = ae_festivalId e, ar_customerId = ae_customerId e, ar_subjectType = ae_subjectType e,
      ar_subjectId = ae_subjectId e, ar_festivalDate = ae_festivalDate e, ar_availableHours = hours, ar_updatedAtIso = now\<rparr>"

text \<open>An entry of another customer is left alone; an invalid hour stops the loop.\<close>

fun upsert_availability :: "string \<Rightarrow> availability_entry list \<Rightarrow> (availability_repo, unit) act" where
  "upsert_availability now [] r = (Inr (), r)"
| "upsert_availability now (e # es) r =
     (case normalize_available_hours (ae_availableHours e) of
        Inl err \<Rightarrow> (Inl err, r)
      | Inr hours \<Rightarrow>
          (case js_get r (record_key e) of
             Some old \<Rightarrow>
               if ar_customerId old \<noteq> ae_customerId e then upsert_availability now es r
               else upsert_availability now es (js_set (record_key e) (entry_record e hours now) r)
           | None \<Rightarrow> upsert_availability now es (js_set (record_key e) (entry_record e hours now) r)))"

section \<open>Stored hours\<close>

text \<open>
  \<open>parse\<close> is \<open>JSON.parse\<close> and \<open>shown\<close> \<open>JSON.stringify\<close>; the error carries the message and
  the place of the record.
\<close>

record corrupt_context =
  cx_organizationId :: string
  cx_festivalId :: string
  cx_customerId :: string
  cx_subjectType :: string
  cx_subjectId :: string
  cx_festivalDate :: string
  cx_rawPayload :: json

definition corrupt_availability :: "(json \<Rightarrow> string) \<Rightarrow> string \<Rightarrow> corrupt_context \<Rightarrow> app_error" where
  "corrupt_availability shown message c =
     PlainError (message @ '' [organization_id='' @ cx_organizationId c @ '', festival_id='' @ cx_festivalId c @ '', customer_id='' @ cx_customerId c @
       '', subject_type='' @ cx_subjectType c @ '', subject_id='' @ cx_subjectId c @ '', festival_date='' @ cx_festivalDate c @
       '', raw_payload='' @ (case cx_rawPayload c of JStr s \<Rightarrow> s | v \<Rightarrow> shown v) @ '']'')"

definition parse_availability_hours :: "(string \<Rightarrow> json option) \<Rightarrow> (json \<Rightarrow> string) \<Rightarrow> json \<Rightarrow> corrupt_context \<Rightarrow> int list outcome" where
  "parse_availability_hours parse shown raw c =
     (let corrupt = (\<lambda>m. Inl (corrupt_availability shown (''Corrupt customer festival availability: '' @ m) c)) in
      (case (case raw of JStr s \<Rightarrow> parse s | v \<Rightarrow> Some v) of
         None \<Rightarrow> corrupt ''invalid JSON.''
       | Some (JArr xs) \<Rightarrow>
           (case find (\<lambda>x. case x of JNum n \<Rightarrow> \<not> is_availability_hour n | _ \<Rightarrow> True) xs of
              Some x \<Rightarrow> corrupt (''invalid hour '' @ shown x @ ''.'')
            | None \<Rightarrow>
                (case normalize_available_hours (map (\<lambda>x. case x of JNum n \<Rightarrow> n | _ \<Rightarrow> 0) xs) of
                   Inl _ \<Rightarrow> corrupt ''failed to normalize hours.'' | Inr hs \<Rightarrow> Inr hs))
       | Some _ \<Rightarrow> corrupt ''expected array payload.''))"

section \<open>The service\<close>

record festival_entry =
  fy_id :: string
  fy_code :: string
  fy_shortName :: string
  fy_isPrimary :: bool
  fy_name :: string
  fy_startDate :: string
  fy_endDate :: string
  fy_createdAtIso :: string

record availability_subject =
  as_subjectType :: string
  as_subjectId :: string
  as_label :: string

record child_names =
  cn_id :: string
  cn_displayName :: "string option"
  cn_firstName :: "string option"
  cn_lastName :: "string option"

record availability_response =
  av_organizationId :: string
  av_festivals :: "festival_entry list"
  av_selectedFestivalId :: "string option"
  av_dates :: "string list"
  av_subjects :: "(availability_subject \<times> availability_day list) list"

definition format_child_label :: "child_names \<Rightarrow> string" where
  "format_child_label c =
     (let combined = js_trim (js_join '' '' (filter (\<lambda>s. s \<noteq> []) (map (\<lambda>x. case x of Some s \<Rightarrow> s | None \<Rightarrow> []) [cn_firstName c, cn_lastName c])));
          display = (case cn_displayName c of Some d \<Rightarrow> js_trim d | None \<Rightarrow> []) in
      if combined \<noteq> [] then combined
      else (case cn_firstName c of
              Some f \<Rightarrow> if js_trim f \<noteq> [] then js_trim f else if display \<noteq> [] then display else ''Child''
            | None \<Rightarrow> if display \<noteq> [] then display else ''Child''))"

definition select_festival :: "festival_entry list \<Rightarrow> string option \<Rightarrow> festival_entry option outcome" where
  "select_festival festivals requested =
     (case requested of
        Some q \<Rightarrow>
          if js_trim q \<noteq> []
          then (case find (\<lambda>f. fy_id f = js_trim q) festivals of
                  None \<Rightarrow> Inl (AppError ''Festival not found.'' 404 (Some ''festival_not_found'')) | Some f \<Rightarrow> Inr (Some f))
          else Inr (case find fy_isPrimary festivals of Some f \<Rightarrow> Some f | None \<Rightarrow> (case festivals of [] \<Rightarrow> None | f # _ \<Rightarrow> Some f))
      | None \<Rightarrow> Inr (case find fy_isPrimary festivals of Some f \<Rightarrow> Some f | None \<Rightarrow> (case festivals of [] \<Rightarrow> None | f # _ \<Rightarrow> Some f)))"

fun saved_by_date :: "string \<Rightarrow> string \<Rightarrow> availability_record list \<Rightarrow> (string, int list) js_map \<Rightarrow> (string, int list) js_map outcome" where
  "saved_by_date ty sid [] m = Inr m"
| "saved_by_date ty sid (x # xs) m =
     (if ar_subjectType x = ty \<and> ar_subjectId x = sid
      then and_then (normalize_available_hours (ar_availableHours x)) (\<lambda>hs. saved_by_date ty sid xs (js_set (ar_festivalDate x) hs m))
      else saved_by_date ty sid xs m)"

definition build_subject_days :: "availability_subject \<Rightarrow> string list \<Rightarrow> availability_record list \<Rightarrow> availability_day list outcome" where
  "build_subject_days subject dates saved =
     and_then (saved_by_date (as_subjectType subject) (as_subjectId subject) saved []) (\<lambda>m.
     Inr (map (\<lambda>d. \<lparr>ad_date = d, ad_availableHours = (case js_get m d of Some hs \<Rightarrow> hs | None \<Rightarrow> DEFAULT_AVAILABLE_HOURS)\<rparr>) dates))"

definition request_subjects :: "json \<Rightarrow> json list" where
  "request_subjects input = (case json_items (json_field input ''subjects'') of Some xs \<Rightarrow> xs | None \<Rightarrow> [])"

fun verify_subjects_authorized :: "availability_subject list \<Rightarrow> json list \<Rightarrow> unit outcome" where
  "verify_subjects_authorized eligible [] = Inr ()"
| "verify_subjects_authorized eligible (x # xs) =
     (if subject_key x \<in> set (map (\<lambda>s. as_subjectType s @ '':'' @ as_subjectId s) eligible)
      then verify_subjects_authorized eligible xs
      else Inl (AppError ''Not authorized to update availability for this subject.'' 403 (Some ''forbidden_availability_subject'')))"

definition json_numbers :: "json option \<Rightarrow> int list" where
  "json_numbers v = (case json_items v of Some xs \<Rightarrow> concat (map (\<lambda>x. case x of JNum n \<Rightarrow> [n] | _ \<Rightarrow> []) xs) | None \<Rightarrow> [])"

text \<open>The entries of a request that passed the validation.\<close>

definition day_entry :: "string \<Rightarrow> string \<Rightarrow> string \<Rightarrow> json \<Rightarrow> json \<Rightarrow> availability_entry" where
  "day_entry org festival customer subject day =
     \<lparr>ae_organizationId = org, ae_festivalId = festival, ae_customerId = customer,
      ae_subjectType = (case string_field subject ''subjectType'' of Some t \<Rightarrow> t | None \<Rightarrow> []), ae_subjectId = text_field subject ''subjectId'',
      ae_festivalDate = (case string_field day ''date'' of Some d \<Rightarrow> d | None \<Rightarrow> []),
      ae_availableHours = json_numbers (json_field day ''availableHours'')\<rparr>"

definition subject_days :: "json \<Rightarrow> json list" where
  "subject_days subject = (case json_items (json_field subject ''days'') of Some ds \<Rightarrow> ds | None \<Rightarrow> [])"

definition to_availability_entries :: "string \<Rightarrow> string \<Rightarrow> string \<Rightarrow> json list \<Rightarrow> availability_entry list" where
  "to_availability_entries org festival customer subjects =
     concat (map (\<lambda>x. map (day_entry org festival customer x) (subject_days x)) subjects)"

datatype availability_point = ListAvailability | UpsertAvailability

text \<open>\<open>vw_grant\<close> is the current accompanist grant: its status and whether it is current.\<close>

record availability_world =
  vw_now :: string
  vw_readAccess :: "(string \<times> string) outcome"
  vw_formAccess :: "(string \<times> string) outcome"
  vw_festivals :: "string \<Rightarrow> festival_entry list outcome"
  vw_grant :: "string \<Rightarrow> string \<Rightarrow> (string \<times> bool) option outcome"
  vw_children :: "string \<Rightarrow> string \<Rightarrow> child_names list outcome"
  vw_others :: "availability_point \<Rightarrow> availability_repo \<Rightarrow> availability_repo"

definition has_active_accompanist_membership :: "availability_world \<Rightarrow> string \<Rightarrow> string \<Rightarrow> bool outcome" where
  "has_active_accompanist_membership w org customer =
     and_then (vw_grant w org customer) (\<lambda>g. Inr (case g of Some (status, current) \<Rightarrow> status = ''active'' \<and> current | None \<Rightarrow> False))"

definition resolve_eligible_subjects :: "availability_world \<Rightarrow> string \<Rightarrow> string \<Rightarrow> availability_subject list outcome" where
  "resolve_eligible_subjects w org customer =
     and_then (has_active_accompanist_membership w org customer) (\<lambda>accompanist.
     and_then (vw_children w org customer) (\<lambda>children.
     Inr ((if accompanist then [\<lparr>as_subjectType = ''accompanist'', as_subjectId = customer, as_label = ''Accompanist''\<rparr>] else []) @
          map (\<lambda>c. \<lparr>as_subjectType = ''child'', as_subjectId = cn_id c, as_label = format_child_label c\<rparr>) children)))"

definition resolve_availability_context ::
    "availability_world \<Rightarrow> string \<Rightarrow> string \<Rightarrow> festival_entry list option \<Rightarrow> availability_subject list option \<Rightarrow>
     (festival_entry list \<times> availability_subject list) outcome" where
  "resolve_availability_context w org customer festivals subjects =
     and_then (case festivals of Some fs \<Rightarrow> Inr fs | None \<Rightarrow> vw_festivals w org) (\<lambda>fs.
     and_then (case subjects of Some ss \<Rightarrow> Inr ss | None \<Rightarrow> resolve_eligible_subjects w org customer) (\<lambda>ss. Inr (fs, ss)))"

definition build_availability_response ::
    "availability_world \<Rightarrow> string \<Rightarrow> string \<Rightarrow> string option \<Rightarrow> festival_entry list option \<Rightarrow> availability_subject list option \<Rightarrow>
     (availability_repo, availability_response) act" where
  "build_availability_response w org customer festival_id festivals subjects =
     act_bind (act_lift (resolve_availability_context w org customer festivals subjects)) (\<lambda>(fs, ss).
     act_bind (act_lift (select_festival fs festival_id)) (\<lambda>selected.
     (case selected of
        None \<Rightarrow> act_return \<lparr>av_organizationId = org, av_festivals = [], av_selectedFestivalId = None, av_dates = [], av_subjects = map (\<lambda>s. (s, [])) ss\<rparr>
      | Some f \<Rightarrow>
          act_bind (act_lift (enumerate_festival_dates (fy_startDate f) (fy_endDate f))) (\<lambda>dates.
          act_bind (\<lambda>r. let t = vw_others w ListAvailability r in (Inr (list_availability org (fy_id f) customer t), t)) (\<lambda>saved.
          act_bind (act_lift (each_outcome (\<lambda>s. and_then (build_subject_days s dates saved) (\<lambda>ds. Inr (s, ds))) ss)) (\<lambda>shown.
          act_return \<lparr>av_organizationId = org, av_festivals = fs, av_selectedFestivalId = Some (fy_id f), av_dates = dates, av_subjects = shown\<rparr>))))))"

definition get_availability :: "availability_world \<Rightarrow> string option \<Rightarrow> (availability_repo, availability_response) act" where
  "get_availability w festival_id =
     act_bind (act_lift (vw_readAccess w)) (\<lambda>(org, customer). build_availability_response w org customer festival_id None None)"

definition save_availability :: "availability_world \<Rightarrow> json \<Rightarrow> (availability_repo, availability_response) act" where
  "save_availability w input =
     act_bind (act_lift (vw_formAccess w)) (\<lambda>(org, customer).
     act_bind (act_lift (guard (text_field input ''festivalId'' \<noteq> []) (AppError ''Festival ID is required.'' 400 (Some ''invalid_availability'')))) (\<lambda>_.
     act_bind (act_lift (vw_festivals w org)) (\<lambda>festivals.
     act_bind (act_lift (select_festival festivals (string_field input ''festivalId''))) (\<lambda>selected.
     (case selected of
        None \<Rightarrow> act_throw (AppError ''Festival not found.'' 404 (Some ''festival_not_found''))
      | Some f \<Rightarrow>
          act_bind (act_lift (enumerate_festival_dates (fy_startDate f) (fy_endDate f))) (\<lambda>dates.
          act_bind (act_lift (validate_save_request input dates)) (\<lambda>errors.
          act_bind (act_lift (case errors of [] \<Rightarrow> Inr () | e # _ \<Rightarrow> Inl (AppError e 400 (Some ''invalid_availability'')))) (\<lambda>_.
          act_bind (act_lift (resolve_eligible_subjects w org customer)) (\<lambda>eligible.
          act_bind (act_lift (verify_subjects_authorized eligible (request_subjects input))) (\<lambda>_.
          act_bind (\<lambda>r. upsert_availability (vw_now w) (to_availability_entries org (fy_id f) customer (request_subjects input))
             (vw_others w UpsertAvailability r)) (\<lambda>_.
          build_availability_response w org customer (Some (fy_id f)) (Some festivals) (Some eligible))))))))))))"

section \<open>Saved hours are shown\<close>

lemma js_uniq_distinct: "distinct xs \<Longrightarrow> js_uniq xs = xs"
proof -
  have "distinct xs \<Longrightarrow> set xs \<inter> set seen = {} \<Longrightarrow> js_uniq_acc seen xs = xs" for seen
    by (induction xs arbitrary: seen) auto
  then show "distinct xs \<Longrightarrow> js_uniq xs = xs" by (simp add: js_uniq_def)
qed

lemma normalize_idem:
  assumes "normalize_available_hours hours = Inr hs"
  shows "normalize_available_hours hs = Inr hs"
proof -
  from assms have valid: "find (\<lambda>h. \<not> is_availability_hour h) hours = None" and hs: "hs = sort (js_uniq hours)"
    by (auto simp: normalize_available_hours_def split: option.splits)
  have "set hs = set hours" by (simp add: hs)
  with valid have "find (\<lambda>h. \<not> is_availability_hour h) hs = None" by (simp add: find_None_iff)
  moreover have "sort (js_uniq hs) = hs" by (simp add: hs js_uniq_distinct sorted_sort_id)
  ultimately show ?thesis by (simp add: normalize_available_hours_def)
qed

definition stored_key :: "availability_record \<Rightarrow> string" where
  "stored_key x = js_join [CHR 0x00] [ar_organizationId x, ar_festivalId x, ar_subjectType x, ar_subjectId x, ar_festivalDate x]"

text \<open>Every record is stored under its own key.\<close>

definition availability_ok :: "availability_repo \<Rightarrow> bool" where
  "availability_ok r \<longleftrightarrow> js_wf r \<and> (\<forall>k x. js_get r k = Some x \<longrightarrow> stored_key x = k)"

lemma entry_record_key [simp]: "stored_key (entry_record e hs now) = record_key e"
  by (simp add: stored_key_def record_key_def entry_record_def)

lemma upsert_keeps_ok: "upsert_availability now es r = (res, r') \<Longrightarrow> availability_ok r \<Longrightarrow> availability_ok r'"
proof (induction es arbitrary: r)
  case (Cons e es)
  have set_ok: "availability_ok (js_set (record_key e) (entry_record e hs now) r)" for hs
    using Cons.prems(2) by (auto simp: availability_ok_def split: if_splits)
  show ?case
  proof (cases "normalize_available_hours (ae_availableHours e)")
    case (Inl err)
    with Cons.prems show ?thesis by simp
  next
    case (Inr hs)
    then consider "upsert_availability now es r = (res, r')" | "upsert_availability now es (js_set (record_key e) (entry_record e hs now) r) = (res, r')"
      using Cons.prems(1) by (auto split: option.splits if_splits)
    then show ?thesis using Cons.IH Cons.prems(2) set_ok by cases blast+
  qed
qed simp

text \<open>What a call leaves under a key: what was there, or the entry for it, which belongs to the same customer.\<close>

lemma upsert_at_key:
  "upsert_availability now es r = (res, r') \<Longrightarrow>
     js_get r' k = js_get r k \<or>
     (\<exists>e \<in> set es. \<exists>hs. record_key e = k \<and> js_get r' k = Some (entry_record e hs now) \<and> normalize_available_hours (ae_availableHours e) = Inr hs \<and>
        (\<forall>old. js_get r k = Some old \<longrightarrow> ar_customerId old = ae_customerId e))"
proof (induction es arbitrary: r)
  case (Cons e es)
  show ?case
  proof (cases "normalize_available_hours (ae_availableHours e)")
    case (Inl err)
    with Cons.prems show ?thesis by simp
  next
    case (Inr hs)
    let ?r = "js_set (record_key e) (entry_record e hs now) r"
    consider (skip) "upsert_availability now es r = (res, r')"
      | (set) "upsert_availability now es ?r = (res, r')" "\<forall>old. js_get r (record_key e) = Some old \<longrightarrow> ar_customerId old = ae_customerId e"
      using Cons.prems Inr by (auto split: option.splits if_splits)
    then show ?thesis
    proof cases
      case skip
      from Cons.IH [OF this] show ?thesis by auto
    next
      case set
      show ?thesis
      proof (cases "record_key e = k")
        case False
        with Cons.IH [OF set(1)] show ?thesis by auto
      next
        case True
        from Cons.IH [OF set(1)] show ?thesis
        proof
          assume "js_get r' k = js_get ?r k"
          with True set(2) Inr show ?thesis by auto
        next
          assume "\<exists>f \<in> set es. \<exists>hs'. record_key f = k \<and> js_get r' k = Some (entry_record f hs' now) \<and>
             normalize_available_hours (ae_availableHours f) = Inr hs' \<and> (\<forall>old. js_get ?r k = Some old \<longrightarrow> ar_customerId old = ae_customerId f)"
          then obtain f hs' where f: "f \<in> set es" "record_key f = k" "js_get r' k = Some (entry_record f hs' now)"
            "normalize_available_hours (ae_availableHours f) = Inr hs'" "ae_customerId e = ae_customerId f"
            using True by (auto simp: entry_record_def)
          with set(2) True show ?thesis by auto
        qed
      qed
    qed
  qed
qed simp

lemma upsert_stores:
  "upsert_availability now es r = (Inr (), r') \<Longrightarrow> distinct (map record_key es) \<Longrightarrow> e \<in> set es \<Longrightarrow>
     \<forall>old. js_get r (record_key e) = Some old \<longrightarrow> ar_customerId old = ae_customerId e \<Longrightarrow>
     \<exists>hs. normalize_available_hours (ae_availableHours e) = Inr hs \<and> js_get r' (record_key e) = Some (entry_record e hs now)"
proof (induction es arbitrary: r)
  case (Cons f es)
  obtain hs where hs: "normalize_available_hours (ae_availableHours f) = Inr hs"
    using Cons.prems(1) by (cases "normalize_available_hours (ae_availableHours f)") auto
  let ?r = "js_set (record_key f) (entry_record f hs now) r"
  consider (skip) "upsert_availability now es r = (Inr (), r')" "\<exists>old. js_get r (record_key f) = Some old \<and> ar_customerId old \<noteq> ae_customerId f"
    | (set) "upsert_availability now es ?r = (Inr (), r')"
    using Cons.prems(1) hs by (auto split: option.splits if_splits)
  then show ?case
  proof cases
    case skip
    with Cons.prems have "e \<in> set es" by auto
    with Cons.IH [OF skip(1)] Cons.prems show ?thesis by simp
  next
    case set
    show ?thesis
    proof (cases "e = f")
      case True
      then have "record_key e \<notin> record_key ` set es" using Cons.prems(2) by simp
      with upsert_at_key [OF set, of "record_key e"] have "js_get r' (record_key e) = js_get ?r (record_key e)" by (metis imageI)
      with True hs show ?thesis by simp
    next
      case False
      then have "e \<in> set es" using Cons.prems(3) by simp
      moreover from this have "record_key e \<in> record_key ` set es" by simp
      moreover have "record_key f \<notin> record_key ` set es" using Cons.prems(2) by simp
      ultimately have e: "e \<in> set es" "record_key e \<noteq> record_key f" by metis+
      with Cons.IH [OF set _ e(1)] Cons.prems show ?thesis by simp
    qed
  qed
qed simp

lemma saved_by_date_at:
  "saved_by_date ty sid xs m = Inr m' \<Longrightarrow>
     \<forall>x \<in> set xs. ar_subjectType x = ty \<and> ar_subjectId x = sid \<and> ar_festivalDate x = d \<longrightarrow> normalize_available_hours (ar_availableHours x) = Inr hs \<Longrightarrow>
     js_get m' d = (if \<exists>x \<in> set xs. ar_subjectType x = ty \<and> ar_subjectId x = sid \<and> ar_festivalDate x = d then Some hs else js_get m d)"
  by (induction xs arbitrary: m) (auto simp: and_then_eq_Inr split: if_splits)

text \<open>
  C40: hours that were saved are shown.  After a call that stores entries with different keys, none
  held by another customer, the days built for the subject of each entry show exactly the hours of the
  entry, without repetitions and in ascending order, on its date.
\<close>
theorem saved_hours_are_shown:
  assumes "upsert_availability now es r = (Inr (), r')" and "availability_ok r" and "distinct (map record_key es)" and "e \<in> set es"
    and "\<forall>old. js_get r (record_key e) = Some old \<longrightarrow> ar_customerId old = ae_customerId e"
    and "build_subject_days subject dates (list_availability (ae_organizationId e) (ae_festivalId e) (ae_customerId e) r') = Inr days"
    and "as_subjectType subject = ae_subjectType e" "as_subjectId subject = ae_subjectId e" and "day \<in> set days" "ad_date day = ae_festivalDate e"
  shows "ad_availableHours day = sort (js_uniq (ae_availableHours e))"
proof -
  obtain hs where hs: "normalize_available_hours (ae_availableHours e) = Inr hs" and stored: "js_get r' (record_key e) = Some (entry_record e hs now)"
    using upsert_stores [OF assms(1,3,4,5)] by blast
  let ?saved = "list_availability (ae_organizationId e) (ae_festivalId e) (ae_customerId e) r'"
  have ok: "availability_ok r'" by (rule upsert_keeps_ok [OF assms(1,2)])
  then have wf: "js_wf r'" by (simp add: availability_ok_def)
  have same: "x = entry_record e hs now"
    if "x \<in> set ?saved" "ar_subjectType x = ae_subjectType e \<and> ar_subjectId x = ae_subjectId e \<and> ar_festivalDate x = ae_festivalDate e" for x
  proof -
    from that(1) have x: "x \<in> set (js_values r')" "ar_organizationId x = ae_organizationId e" "ar_festivalId x = ae_festivalId e"
      by (auto simp: list_availability_def)
    then obtain k where k: "js_get r' k = Some x" using js_values_get [OF wf] by blast
    then have "k = stored_key x" using ok by (simp add: availability_ok_def)
    also have "\<dots> = record_key e" using x that(2) by (simp add: stored_key_def record_key_def)
    finally show ?thesis using k stored by simp
  qed
  have "entry_record e hs now \<in> set (js_values r')" using stored js_values_get [OF wf] by blast
  then have there: "entry_record e hs now \<in> set ?saved" by (simp add: list_availability_def entry_record_def)
  from assms(6) obtain m where m: "saved_by_date (ae_subjectType e) (ae_subjectId e) ?saved [] = Inr m"
    and days: "days = map (\<lambda>d. \<lparr>ad_date = d, ad_availableHours = (case js_get m d of Some hs \<Rightarrow> hs | None \<Rightarrow> DEFAULT_AVAILABLE_HOURS)\<rparr>) dates"
    by (auto simp: build_subject_days_def and_then_eq_Inr assms(7,8))
  have hours: "\<forall>x \<in> set ?saved. ar_subjectType x = ae_subjectType e \<and> ar_subjectId x = ae_subjectId e \<and> ar_festivalDate x = ae_festivalDate e \<longrightarrow>
      normalize_available_hours (ar_availableHours x) = Inr hs"
  proof (intro ballI impI)
    fix x assume "x \<in> set ?saved" "ar_subjectType x = ae_subjectType e \<and> ar_subjectId x = ae_subjectId e \<and> ar_festivalDate x = ae_festivalDate e"
    from same [OF this] normalize_idem [OF hs] show "normalize_available_hours (ar_availableHours x) = Inr hs" by (simp add: entry_record_def)
  qed
  have "\<exists>x \<in> set ?saved. ar_subjectType x = ae_subjectType e \<and> ar_subjectId x = ae_subjectId e \<and> ar_festivalDate x = ae_festivalDate e"
    using there by (rule bexI [rotated]) (simp add: entry_record_def)
  then have "js_get m (ae_festivalDate e) = Some hs" unfolding saved_by_date_at [OF m hours] by simp
  moreover have "hs = sort (js_uniq (ae_availableHours e))" using hs by (auto simp: normalize_available_hours_def split: option.splits)
  ultimately show ?thesis using assms(9,10) by (auto simp: days)
qed

section \<open>Customers change their own subjects only\<close>

definition eligible_subject :: "availability_world \<Rightarrow> string \<Rightarrow> string \<Rightarrow> string \<Rightarrow> string \<Rightarrow> bool" where
  "eligible_subject w org customer ty sid \<longleftrightarrow>
     (ty = ''accompanist'' \<and> sid = customer \<and> has_active_accompanist_membership w org customer = Inr True) \<or>
     (ty = ''child'' \<and> (\<exists>cs c. vw_children w org customer = Inr cs \<and> c \<in> set cs \<and> sid = cn_id c))"

lemma build_response_keeps:
  "vw_others w = (\<lambda>_ r. r) \<Longrightarrow> snd (build_availability_response w org customer fid fs ss r) = r"
  by (auto simp: build_availability_response_def act_bind_def act_lift_def act_return_def Let_def split: prod.split sum.split option.split)

lemma verified_subject: "verify_subjects_authorized eligible xs = Inr () \<Longrightarrow> x \<in> set xs \<Longrightarrow> \<exists>s \<in> set eligible. subject_key x = as_subjectType s @ '':'' @ as_subjectId s"
  by (induction xs) (auto split: if_splits)

lemma validated_types: "validate_subjects valid seen xs = Inr [] \<Longrightarrow> x \<in> set xs \<Longrightarrow> string_field x ''subjectType'' \<in> {Some ''accompanist'', Some ''child''} \<and>
    (\<exists>days. json_items (json_field x ''days'') = Some days \<and> validate_days valid [] days = Inr [])"
  by (induction valid seen xs rule: validate_subjects.induct)
    (auto simp: and_then_eq_Inr Let_def validate_subject_days_def split: if_splits option.splits)

lemma validated_dates: "validate_days valid seen days = Inr [] \<Longrightarrow> d \<in> set days \<Longrightarrow> \<exists>t \<in> set valid. string_field d ''date'' = Some t"
  by (induction valid seen days rule: validate_days.induct) (auto simp: and_then_eq_Inr split: if_splits option.splits)

text \<open>
  C39: a customer changes nothing but the hours of their own subjects.  Every record that saving changes or
  creates belongs to the customer of the session, is for the accompanist they are or for one of their
  children, on a day of the festival, and no record of another customer is overwritten.
\<close>
theorem saving_touches_own_subjects_only:
  assumes "vw_others w = (\<lambda>_ r. r)" "vw_formAccess w = Inr (org, customer)"
    and "save_availability w input r = (res, r')" "js_get r' k = Some x" "js_get r k \<noteq> Some x"
  shows "ar_organizationId x = org \<and> ar_customerId x = customer \<and> eligible_subject w org customer (ar_subjectType x) (ar_subjectId x) \<and>
    (\<exists>fs f dates. vw_festivals w org = Inr fs \<and> f \<in> set fs \<and> ar_festivalId x = fy_id f \<and>
       enumerate_festival_dates (fy_startDate f) (fy_endDate f) = Inr dates \<and> ar_festivalDate x \<in> set dates) \<and>
    (\<forall>old. js_get r k = Some old \<longrightarrow> ar_customerId old = customer)"
proof -
  have changed: "r' \<noteq> r" using assms(4,5) by auto
  obtain fs f dates eligible res' where fs: "vw_festivals w org = Inr fs" and f: "select_festival fs (string_field input ''festivalId'') = Inr (Some f)"
    and dates: "enumerate_festival_dates (fy_startDate f) (fy_endDate f) = Inr dates" and valid: "validate_save_request input dates = Inr []"
    and eligible: "resolve_eligible_subjects w org customer = Inr eligible" and own: "verify_subjects_authorized eligible (request_subjects input) = Inr ()"
    and run: "upsert_availability (vw_now w) (to_availability_entries org (fy_id f) customer (request_subjects input)) r = (res', r')"
    using assms(2,3) changed
    by (auto simp: save_availability_def act_bind_def act_lift_def act_throw_def guard_def assms(1) build_response_keeps
        split: sum.splits prod.splits if_splits option.splits list.splits dest!: arg_cong [where f = snd and x = "build_availability_response _ _ _ _ _ _ _"])
  from upsert_at_key [OF run, of k] assms(4,5) obtain e hs where e: "e \<in> set (to_availability_entries org (fy_id f) customer (request_subjects input))"
    and x: "x = entry_record e hs (vw_now w)" and old: "\<forall>old. js_get r k = Some old \<longrightarrow> ar_customerId old = ae_customerId e"
    by auto
  from valid have subjects: "validate_subjects dates [] (request_subjects input) = Inr []"
    by (auto simp: validate_save_request_def Let_def request_subjects_def and_then_eq_Inr split: option.splits)
  from e obtain j day where j: "j \<in> set (request_subjects input)"
    and day: "day \<in> set (subject_days j)" and e_eq: "e = day_entry org (fy_id f) customer j day"
    by (auto simp: to_availability_entries_def)
  then have e': "ae_organizationId e = org" "ae_festivalId e = fy_id f" "ae_customerId e = customer"
      "ae_subjectType e = (case string_field j ''subjectType'' of Some t \<Rightarrow> t | None \<Rightarrow> [])" "ae_subjectId e = text_field j ''subjectId''"
      "ae_festivalDate e = (case string_field day ''date'' of Some d \<Rightarrow> d | None \<Rightarrow> [])" by (simp_all add: day_entry_def)
  from validated_types [OF subjects j] obtain days where ty: "ae_subjectType e \<in> {''accompanist'', ''child''}"
    and days: "json_items (json_field j ''days'') = Some days" "validate_days dates [] days = Inr []"
    by (auto simp: e'(4))
  from validated_dates [OF days(2), of day] day days(1) have date: "ae_festivalDate e \<in> set dates" by (auto simp: e'(6) subject_days_def)
  from verified_subject [OF own j] obtain s where s: "s \<in> set eligible" "ae_subjectType e @ '':'' @ ae_subjectId e = as_subjectType s @ '':'' @ as_subjectId s"
    by (auto simp: subject_key_def e'(4,5))
  from eligible obtain acc cs where acc: "has_active_accompanist_membership w org customer = Inr acc" and cs: "vw_children w org customer = Inr cs"
    and el: "eligible = (if acc then [\<lparr>as_subjectType = ''accompanist'', as_subjectId = customer, as_label = ''Accompanist''\<rparr>] else []) @
          map (\<lambda>c. \<lparr>as_subjectType = ''child'', as_subjectId = cn_id c, as_label = format_child_label c\<rparr>) cs"
    by (auto simp: resolve_eligible_subjects_def and_then_eq_Inr)
  have "eligible_subject w org customer (ae_subjectType e) (ae_subjectId e)"
    using s ty acc cs by (auto simp: el eligible_subject_def split: if_splits)
  moreover have "f \<in> set fs"
    using f by (auto simp: select_festival_def split: option.splits if_splits list.splits dest: find_Some_iff_in)
  ultimately show ?thesis using fs dates date old by (auto simp: x entry_record_def e'(1,2,3))
qed

section \<open>Two days of a festival\<close>

lemma parse_iso: "printable_date d \<Longrightarrow> parse_iso_calendar_date (iso_date d) = Inr d"
  by (simp add: parse_iso_calendar_date_def date_fields_iso) (auto simp: printable_date_def)

lemma demo_festival_days: "enumerate_festival_dates ''2026-05-01'' ''2026-05-02'' = Inr [''2026-05-01'', ''2026-05-02'']"
proof -
  have p: "printable_date (CalDate 2026 5 1)" "printable_date (CalDate 2026 5 2)" by (simp_all add: printable_date_def date_eval)
  have i: "iso_date (CalDate 2026 5 1) = ''2026-05-01''" "iso_date (CalDate 2026 5 2) = ''2026-05-02''" by (simp_all add: iso_eval)
  have a: "parse_iso_calendar_date ''2026-05-01'' = Inr (CalDate 2026 5 1)" using parse_iso [OF p(1)] unfolding i .
  have b: "parse_iso_calendar_date ''2026-05-02'' = Inr (CalDate 2026 5 2)" using parse_iso [OF p(2)] unfolding i .
  have n: "day_number (CalDate 2026 5 2) + 1 - day_number (CalDate 2026 5 1) = Suc (Suc 0)" by (simp add: date_eval)
  have step: "next_day (CalDate 2026 5 1) = CalDate 2026 5 2" by (simp add: date_eval)
  show ?thesis unfolding enumerate_festival_dates_def a b and_then_Inr n dates_from.simps step i by (rule refl)
qed

definition demo_festival_entry :: festival_entry where
  "demo_festival_entry = \<lparr>fy_id = ''fest'', fy_code = ''F'', fy_shortName = ''f'', fy_isPrimary = True, fy_name = ''Festival'', fy_startDate = ''2026-05-01'',
     fy_endDate = ''2026-05-02'', fy_createdAtIso = ''t''\<rparr>"

definition demo_availability_world :: availability_world where
  "demo_availability_world = \<lparr>vw_now = ''t1'', vw_readAccess = Inr (''org'', ''cust''), vw_formAccess = Inr (''org'', ''cust''),
     vw_festivals = (\<lambda>_. Inr [demo_festival_entry]), vw_grant = (\<lambda>_ _. Inr None),
     vw_children = (\<lambda>_ _. Inr [\<lparr>cn_id = ''kid'', cn_displayName = None, cn_firstName = Some ''Kim'', cn_lastName = None\<rparr>]),
     vw_others = (\<lambda>_ r. r)\<rparr>"

definition demo_save :: json where
  "demo_save = JObj [(''festivalId'', JStr ''fest''), (''subjects'', JArr [JObj [(''subjectType'', JStr ''child''), (''subjectId'', JStr '' kid''),
     (''days'', JArr [JObj [(''date'', JStr ''2026-05-02''), (''availableHours'', JArr [JNum 9, JNum 8, JNum 9])]])]])]"

definition demo_entry :: availability_entry where
  "demo_entry = \<lparr>ae_organizationId = ''org'', ae_festivalId = ''fest'', ae_customerId = ''cust'', ae_subjectType = ''child'', ae_subjectId = ''kid'',
     ae_festivalDate = ''2026-05-02'', ae_availableHours = [9, 8, 9]\<rparr>"

definition demo_stored :: availability_repo where
  "demo_stored = [(record_key demo_entry, entry_record demo_entry [8, 9] ''t1'')]"

lemma demo_entry_runs: "upsert_availability ''t1'' [demo_entry] [] = (Inr (), demo_stored)"
  by code_simp

theorem saved_hours_are_shown_witness:
  "\<exists>days. build_subject_days \<lparr>as_subjectType = ''child'', as_subjectId = ''kid'', as_label = ''Kim''\<rparr> [''2026-05-01'', ''2026-05-02'']
      (list_availability ''org'' ''fest'' ''cust'' demo_stored) = Inr days \<and> ad_availableHours (days ! 1) = [8, 9]"
proof -
  let ?s = "\<lparr>as_subjectType = ''child'', as_subjectId = ''kid'', as_label = ''Kim''\<rparr> :: availability_subject"
  have "case build_subject_days ?s [''2026-05-01'', ''2026-05-02''] (list_availability ''org'' ''fest'' ''cust'' demo_stored) of
      Inr days \<Rightarrow> length days = 2 \<and> ad_date (days ! 1) = ''2026-05-02'' | Inl _ \<Rightarrow> False" by code_simp
  then obtain days where days: "build_subject_days ?s [''2026-05-01'', ''2026-05-02''] (list_availability ''org'' ''fest'' ''cust'' demo_stored) = Inr days"
    "length days = 2" "ad_date (days ! 1) = ''2026-05-02''" by (auto split: sum.splits)
  have ok: "availability_ok []" by (simp add: availability_ok_def)
  have "ad_availableHours (days ! 1) = sort (js_uniq (ae_availableHours demo_entry))"
    by (rule saved_hours_are_shown [OF demo_entry_runs ok, of demo_entry ?s "[''2026-05-01'', ''2026-05-02'']" days])
      (use days in \<open>simp_all add: demo_entry_def\<close>)
  also have "\<dots> = [8, 9]" by code_simp
  finally show ?thesis using days(1) by blast
qed

theorem saving_touches_own_subjects_only_witness:
  "\<exists>res x. save_availability demo_availability_world demo_save [] = (res, demo_stored) \<and> js_get demo_stored (record_key demo_entry) = Some x \<and>
     ar_customerId x = ''cust'' \<and> eligible_subject demo_availability_world ''org'' ''cust'' (ar_subjectType x) (ar_subjectId x)"
proof -
  let ?w = demo_availability_world
  have others: "vw_others ?w = (\<lambda>_ r. r)" and access: "vw_formAccess ?w = Inr (''org'', ''cust'')" by (simp_all add: demo_availability_world_def)
  have fs: "vw_festivals ?w ''org'' = Inr [demo_festival_entry]" by (simp add: demo_availability_world_def)
  have f: "select_festival [demo_festival_entry] (string_field demo_save ''festivalId'') = Inr (Some demo_festival_entry)"
    "text_field demo_save ''festivalId'' \<noteq> []" "fy_startDate demo_festival_entry = ''2026-05-01''" "fy_endDate demo_festival_entry = ''2026-05-02''"
    by code_simp+
  have valid: "validate_save_request demo_save [''2026-05-01'', ''2026-05-02''] = Inr []" by code_simp
  obtain el where el: "resolve_eligible_subjects ?w ''org'' ''cust'' = Inr el" "verify_subjects_authorized el (request_subjects demo_save) = Inr ()"
  proof -
    have "case resolve_eligible_subjects ?w ''org'' ''cust'' of Inr el \<Rightarrow> verify_subjects_authorized el (request_subjects demo_save) = Inr () | Inl _ \<Rightarrow> False"
      by code_simp
    then show thesis using that by (auto split: sum.splits)
  qed
  have run: "upsert_availability (vw_now ?w) (to_availability_entries ''org'' (fy_id demo_festival_entry) ''cust'' (request_subjects demo_save)) [] = (Inr (), demo_stored)"
    by code_simp
  have "snd (save_availability ?w demo_save []) = demo_stored"
    by (simp add: save_availability_def act_bind_def act_lift_def guard_def access fs f demo_festival_days valid el others run build_response_keeps)
  then obtain res where saved: "save_availability ?w demo_save [] = (res, demo_stored)" by (metis prod.collapse)
  have x: "js_get demo_stored (record_key demo_entry) = Some (entry_record demo_entry [8, 9] ''t1'')" by (simp add: demo_stored_def js_get_Cons)
  from saving_touches_own_subjects_only [OF others access saved x] saved x show ?thesis by auto
qed

end
