(* ===== verification/Spec2Isabelle.thy ===== *)
theory Spec2Isabelle
  imports DropTransfer AsyncLocks WebhookQueue WaitlistService VolunteerRepo Billing CustomerTransport ClassCheckout CheckoutRecovery OrderApproval Messaging Availability
begin

text \<open>
  A verification library for the Festival registration system, a TypeScript program that runs music
  festivals: organizations sell teacher memberships and class entries through Shopify, parents
  register children, drop, transfer and join waitlists, volunteers book shifts, and staff adjust
  balances and send messages.  Modelled is the logic of \<open>packages/common/src\<close> and of the in-memory
  repositories and services under \<open>packages/backend/src\<close>; paths below are relative to these two.

  The parts, what they keep, and how they call each other:

  \<^item> Ground.  \<open>FestPrelude\<close>: errors as values (\<open>errors.ts\<close>), the state and error monad \<open>act\<close>, the
    fragments of the JavaScript library (trim, lower case, truthiness, insertion-ordered \<open>Map\<close> as
    \<open>js_map\<close>), with the locale \<open>keyed_store\<close> interpreted on the maps.  \<open>FestCalendar\<close>: calendar
    dates, day numbers and ISO time stamps.
  \<^item> Memberships and entitlements.  \<open>EntitlementModel\<close> (\<open>entitlements.ts\<close>) validates grants and derives
    their lifecycle.  \<open>EntitlementRepo\<close> (\<open>commerce/class-entitlement-repository.ts\<close>) stores the class
    entitlements, behind the locale \<open>entitlement_store\<close>.  \<open>MembershipGrants\<close> is the grant slice of
    \<open>repo/in-memory-organization-repository.ts\<close>: renewal, supersession, revocation.
  \<^item> Eligibility.  \<open>PurchaseEligibility\<close> (\<open>purchase-eligibility.ts\<close>) judges carts and advisory
    candidates; \<open>RegistrationWindow\<close> (\<open>festival-registration-window.ts\<close>) says when registration is open.
  \<^item> Checkout.  \<open>CheckoutRepo\<close> and \<open>RecoveryRepo\<close> (\<open>checkout/checkout-repository.ts\<close>,
    \<open>checkout-recovery-repository.ts\<close>) keep intents, carts and recovery requests; \<open>CheckoutValidation\<close>
    (\<open>class-checkout-helpers.ts\<close>), \<open>ClassCheckout\<close> (\<open>class-checkout-service.ts\<close>), \<open>MembershipCheckout\<close>
    (\<open>membership-checkout-service.ts\<close>) and \<open>CheckoutRecovery\<close> (\<open>checkout-recovery-service.ts\<close>, its
    helpers) are the services over them.
  \<^item> Paid orders.  \<open>CommerceRepo\<close> (\<open>commerce/membership-commerce-repository.ts\<close>) finalizes decisions over
    the checkout repository, the grants and the class entitlements, with its snapshot and rollback;
    \<open>OrderProjection\<close> (\<open>commerce/shopify-order-projection-service.ts\<close>) reads, correlates, validates and
    finalizes orders and reconciles; \<open>OrderApproval\<close> holds what it guarantees.  \<open>WebhookQueue\<close>
    (\<open>commerce/webhook-worker-queue.ts\<close>) runs the deliveries.
  \<^item> Changes.  \<open>ChangeRepo\<close> and \<open>DropTransfer\<close> (\<open>registration/\<close>) model drops, transfers, refunds and
    promotions; \<open>AsyncLocks\<close> the promise locks they run under (\<open>AsyncLock\<close>, and
    \<open>repo/in-memory-capacity-lock.ts\<close>), with the locale \<open>exclusive_sections\<close> interpreted on both.
  \<^item> Waitlist, volunteers, billing, messages, availability.  \<open>Waitlist\<close> and \<open>WaitlistService\<close>
    (\<open>waitlist/\<close>), \<open>VolunteerRepo\<close> (\<open>volunteers/volunteer-repository.ts\<close>), \<open>Billing\<close> (\<open>billing/\<close>),
    \<open>MessageTemplates\<close> and \<open>Messaging\<close> (\<open>communication.ts\<close>, \<open>communication/\<close>), \<open>Availability\<close>
    (\<open>availability.ts\<close>, \<open>customer/customer-availability-*.ts\<close>).
  \<^item> Customer accounts.  \<open>AsyncCache\<close> (\<open>customer/bounded-async-cache.ts\<close>) and \<open>CustomerTransport\<close>
    (\<open>customer/customer-account-transport.ts\<close>).
\<close>

text \<open>
  What the groups of lemmas show:

  \<^item> Capacity and eligibility: an eligible cart overbooks no class and registers nobody twice (C1, C2),
    candidates do not interfere (C3), drops, transfers and approvals respect the capacity when they run
    alone (C4, C5, C33), and what happens when a transfer runs inside a drop (C8).
  \<^item> Runs: locks are exclusive and never deadlock (C9, C10); the webhook queue conserves deliveries,
    never stalls, and bounds its handlers for distinct deliveries only (C11 to C13); the waitlist log and
    the billing ledger replay to the stored state in every interleaving (C14, C19); the cache stays
    within its bounds (C20, C21); a claimed delivery is always settled (C34).
  \<^item> Refinement and rollback: the volunteer repository implements an abstract shift plan (C16 to C18);
    a finalization that throws leaves every store as it was, a repeated one adds nothing (C30, C31).
  \<^item> Checkout: one open checkout per customer (C22), a cart only for an eligible purchase (C25), failures
    release the customer (C24) but end a recovery (C26).
  \<^item> Memberships: periods are disjoint and renewals keep the paid days, under the order of grants that
    the callers see to (C27, C28); a failed renewal loses the old membership (C29).
  \<^item> Money and texts: an approved order pays each line once (C32); refunds are bounded and verified
    (C7); a message is sent at most once and a failed one not again (C36, C37); templates need their
    extracted variables only (C38); stored hours are shown and only for one's own subjects (C39, C40).

  Each component's own theory also has the lemmas these rest on: invariants with their preservation by
  every operation, the cases in which an operation returns or throws, and evaluations on small inputs.
\<close>

text \<open>
  How the code is read:

  \<^item> A method is a function on an explicit state, errors are values.  Code between two awaits is one
    step.  Where a method awaits and other requests can change what it then uses, the model either takes
    the change as an argument (\<open>others\<close>, \<open>between\<close>, a function from the state to the state at each
    named point of the services) or is a step relation whose runs keep the pending calls
    (\<open>waitlist_run\<close>, \<open>billing_run\<close>, \<open>comm_reachable\<close>, \<open>wq_reachable\<close>, \<open>lock_reachable\<close>).  A property
    that holds only for an operation that runs alone says so.  Finalizations are one step because they
    run under the capacity lock.
  \<^item> Random ids, hashes, the clock, \<open>Date.parse\<close>, URL parsing, the time zones of \<open>Intl\<close>, Shopify, DNS,
    HTTP, the e-mail and SMS providers, the session and the keyring are arguments.
  \<^item> Strings are lists of code units up to 255.  \<open>localeCompare\<close> is the order of code units, which it is on
    the ISO dates and UUIDs it is used for; where titles are sorted it is an argument.
  \<^item> Numbers are integers, as the code uses them exactly, below two to the power of 53; decimal amounts
    are digits with an optional fraction, without exponents.  IP addresses are machine words.
  \<^item> Recursion is structural or has a measure (the dispatch loop of the queue, the eviction of the
    cache); nothing needs fuel.  Loops over a queue of deliveries run over the list that was read first.

  Not modelled: the Postgres repositories (SQL), HTTP routes, route security and the wiring of the
  application, the Shopify and Firebase clients with their encryption, the customer-account service and
  its identity flow, the organization service and the rest of the organization repository, repertoire
  review, profiles, reports, seeds, scripts and the frontend.  They are I/O, SQL, presentation, or call
  chains of the parts above.
\<close>

end
